(* ===== verification/Prelude.thy ===== *)
theory Prelude imports Main "HOL-Library.Word"
begin

unbundle bit_operations_syntax

text \<open>
  What every component theory shares: the widths of the firmware's integers, the
  ESP-IDF status codes as a datatype, the C library's character tests, the byte layout
  of little-endian integers, the FNV-1a hash that guards every persisted blob, and the
  list and word lemmas the components' proofs lean on.

  Conventions of the whole development:
  \<^item> An ESP32-S3 \<open>uintN_t\<close> is an \<open>N word\<close>;
  \<open>unsigned long\<close> is 32 bits wide there. C \<open>int\<close> and the \<open>int64_t\<close> microsecond clock
  are HOL \<open>int\<close>s: no computation of the code on them comes near its range.
  \<^item> A C string is the list of its bytes before the terminating NUL; a pointer that
  may be \<open>NULL\<close> is an \<open>option\<close>.
  \<^item> A call into ESP-IDF or FreeRTOS is a function
  argument of the model that acts on an abstract platform state.
\<close>

section \<open>Integer widths and status codes\<close>

type_synonym u8 = "8 word"
type_synonym u16 = "16 word"
type_synonym u32 = "32 word"
type_synonym u64 = "64 word"

definition UINT32_MAX :: u32 where "UINT32_MAX = 0xFFFFFFFF"

datatype esp_err =
    ESP_OK
  | ESP_FAIL
  | ESP_ERR_NO_MEM
  | ESP_ERR_INVALID_ARG
  | ESP_ERR_INVALID_STATE
  | ESP_ERR_INVALID_SIZE
  | ESP_ERR_NOT_FOUND
  | ESP_ERR_NOT_SUPPORTED
  | ESP_ERR_TIMEOUT
  | ESP_ERR_INVALID_CRC
  | ESP_ERR_NVS_NOT_FOUND
  | ESP_ERR_OTHER int

text \<open>Keeping the first failure of a sequence of operations.\<close>

definition first_error :: "esp_err \<Rightarrow> esp_err \<Rightarrow> esp_err" where
  "first_error first e = (if first = ESP_OK \<and> e \<noteq> ESP_OK then e else first)"

lemma first_error_OK [simp]: "first_error ESP_OK e = e"
  by (simp add: first_error_def)

lemma first_error_OK_right [simp]: "first_error e ESP_OK = e"
  by (simp add: first_error_def)

lemma first_error_eq_OK_iff [simp]:
  "first_error e f = ESP_OK \<longleftrightarrow> e = ESP_OK \<and> f = ESP_OK"
  by (auto simp: first_error_def)

section \<open>Characters\<close>

definition chr_code :: "char \<Rightarrow> nat" where
  "chr_code c = of_char c"

definition isdigit :: "char \<Rightarrow> bool" where
  "isdigit c \<longleftrightarrow> 48 \<le> chr_code c \<and> chr_code c \<le> 57"

definition isalnum :: "char \<Rightarrow> bool" where
  "isalnum c \<longleftrightarrow> isdigit c \<or> (65 \<le> chr_code c \<and> chr_code c \<le> 90) \<or>
                 (97 \<le> chr_code c \<and> chr_code c \<le> 122)"

definition isspace :: "char \<Rightarrow> bool" where
  "isspace c \<longleftrightarrow> chr_code c = 32 \<or> (9 \<le> chr_code c \<and> chr_code c \<le> 13)"

definition digit_val :: "char \<Rightarrow> nat" where
  "digit_val c = chr_code c - 48"

abbreviation NUL :: char where
  "NUL \<equiv> CHR 0x00"

text \<open>\<open>char_at s i\<close> is \<open>s[i]\<close>: the byte past the last one of a C string is NUL.\<close>

definition char_at :: "string \<Rightarrow> nat \<Rightarrow> char" where
  "char_at s i = (if i < length s then s ! i else NUL)"

definition has_prefix :: "string \<Rightarrow> string \<Rightarrow> bool" where
  "has_prefix p s \<longleftrightarrow> take (length p) s = p"

lemma has_prefix_iff: "has_prefix p s \<longleftrightarrow> (\<exists>r. s = p @ r)"
  by (auto simp: has_prefix_def) (metis append_take_drop_id)

lemma has_prefix_append [simp]: "has_prefix p (p @ r)"
  by (simp add: has_prefix_def)

lemma chr_code_less: "chr_code c < 256"
  unfolding chr_code_def by simp

lemma digit_val_le: "isdigit c \<Longrightarrow> digit_val c \<le> 9"
  unfolding isdigit_def digit_val_def by arith

section \<open>Lists updated by index\<close>

lemma nth_update_if:
  "i < length xs \<Longrightarrow> xs[i := v] ! j = (if i = j then v else xs ! j)"
  by (auto simp: nth_list_update)

text \<open>An invariant of a \<open>for\<close> loop that runs its body once for each index of a list.\<close>

lemma fold_keeps:
  assumes "P s" and "\<And>i s. i \<in> set is \<Longrightarrow> P s \<Longrightarrow> P (f i s)"
  shows "P (fold f is s)"
  using assms by (induction "is" arbitrary: s) auto

section \<open>Words\<close>

lemma word_mult_odd_inj:
  fixes x y p :: "'a::len word"
  assumes "odd p" and "x * p = y * p"
  shows "x = y"
proof -
  have "(x - y) * p = 0" using assms(2) by (simp add: left_diff_distrib)
  then have "word_of_int (uint (x - y) * uint p) = (0 :: 'a word)"
    by (simp add: word_of_int_uint)
  then have dvd: "(2::int) ^ LENGTH('a) dvd uint (x - y) * uint p"
    by (metis word_of_int_eq_0_iff)
  have "odd (uint p)" using assms(1) by transfer simp
  then have "coprime ((2::int) ^ LENGTH('a)) (uint p)"
    by (simp add: coprime_commute)
  with dvd have "(2::int) ^ LENGTH('a) dvd uint (x - y)"
    by (simp add: coprime_dvd_mult_left_iff)
  then have "uint (x - y) = 0"
    using uint_bounded [of "x - y"] uint_nonnegative [of "x - y"] zdvd_not_zless
    by (metis order_le_less)
  then show ?thesis by (simp add: uint_0_iff)
qed

lemma unat_of_nat_small: "n < 2 ^ LENGTH('a) \<Longrightarrow> unat (of_nat n :: 'a::len word) = n"
  by (simp add: unsigned_of_nat take_bit_nat_eq_self)

lemma unat_of_nat_self: "unat (v :: 'a::len word) = n \<Longrightarrow> of_nat n = v"
  by auto

lemma unat_ucast_small:
  "unat w < 2 ^ LENGTH('b) \<Longrightarrow> unat (ucast w :: 'b::len word) = unat w"
  by (simp add: unsigned_ucast_eq take_bit_nat_eq_self)

lemma unat_less_width:
  "unat (a :: u8) < 256" "unat (b :: u16) < 65536" "unat (c :: u32) < 4294967296"
  using unsigned_less [of a] unsigned_less [of b] unsigned_less [of c] by simp_all

section \<open>Little-endian bytes\<close>

definition le16 :: "u16 \<Rightarrow> u8 list" where
  "le16 v = [ucast v, ucast (drop_bit 8 v)]"

definition le32 :: "u32 \<Rightarrow> u8 list" where
  "le32 v = [ucast v, ucast (drop_bit 8 v), ucast (drop_bit 16 v), ucast (drop_bit 24 v)]"

definition le64 :: "u64 \<Rightarrow> u8 list" where
  "le64 v = le32 (ucast v) @ le32 (ucast (drop_bit 32 v))"

lemma length_le [simp]: "length (le16 a) = 2" "length (le32 b) = 4" "length (le64 c) = 8"
  by (simp_all add: le16_def le32_def le64_def)

end
