(* ===== verification/DShot_Protocol.thy ===== *)
theory DShot_Protocol imports Prelude
begin

text \<open>
  \<open>main/dshot_protocol.c\<close>: the 16-bit frame the controller puts on the wire, as its two
  bytes, most significant first. The receiving side (\<open>esc_decode\<close>) is the DShot
  specification of an ESC: eleven throttle bits, the telemetry bit, and a four-bit
  checksum that must match. The lemmas relate the two.
\<close>

section \<open>The encoder\<close>

definition DSHOT_PROTOCOL_MAX_THROTTLE :: u16 where
  "DSHOT_PROTOCOL_MAX_THROTTLE = 2047"

definition dshot_payload :: "u16 \<Rightarrow> bool \<Rightarrow> u16" where
  "dshot_payload throttle telemetry = push_bit 1 throttle OR (if telemetry then 1 else 0)"

definition dshot_checksum :: "u16 \<Rightarrow> u16" where
  "dshot_checksum payload = (payload XOR drop_bit 4 payload XOR drop_bit 8 payload) AND 0x0F"

definition dshot_frame :: "u16 \<Rightarrow> u16" where
  "dshot_frame payload = push_bit 4 payload OR dshot_checksum payload"

text \<open>The return value and the bytes written to \<open>frame_bytes\<close> (never \<open>NULL\<close> here:
  the callers pass a local array).\<close>

definition dshot_protocol_build_frame :: "u16 \<Rightarrow> bool \<Rightarrow> bool \<times> u8 \<times> u8" where
  "dshot_protocol_build_frame throttle telemetry =
     (if throttle > DSHOT_PROTOCOL_MAX_THROTTLE then (False, 0, 0)
      else let frame = dshot_frame (dshot_payload throttle telemetry)
           in (True, ucast (drop_bit 8 frame), ucast frame))"

section \<open>The receiver's view\<close>

definition frame_word :: "u8 \<Rightarrow> u8 \<Rightarrow> u16" where
  "frame_word hi lo = push_bit 8 (ucast hi) OR ucast lo"

definition esc_accepts :: "u16 \<Rightarrow> bool" where
  "esc_accepts frame \<longleftrightarrow> frame AND 0x0F = dshot_checksum (drop_bit 4 frame)"

definition esc_decode :: "u16 \<Rightarrow> (u16 \<times> bool) option" where
  "esc_decode frame =
     (if esc_accepts frame then Some (drop_bit 5 frame, bit frame 4) else None)"

lemma low_nibble_mask: "(0x0F :: u16) = mask 4"
  by (simp add: mask_eq_exp_minus_1)

lemma frame_word_split: "frame_word (ucast (drop_bit 8 (f :: u16))) (ucast f) = f"
  by (rule bit_word_eqI) (auto simp: frame_word_def bit_simps)

lemma bit_checksum:
  "bit (dshot_checksum p) n \<longleftrightarrow>
     n < 4 \<and> (bit p n \<noteq> (bit p (n + 4) \<noteq> bit p (n + 8)))"
  unfolding dshot_checksum_def low_nibble_mask by (auto simp: bit_simps ac_simps)

lemma bit_frame:
  "n < 16 \<Longrightarrow> bit (dshot_frame p) n \<longleftrightarrow>
     (if n < 4 then bit (dshot_checksum p) n else bit p (n - 4))"
  by (auto simp: dshot_frame_def bit_simps bit_checksum)

text \<open>The receiver's check as a parity condition on the four columns of nibbles.\<close>

lemma esc_accepts_bits:
  "esc_accepts f \<longleftrightarrow>
     (\<forall>k<4. bit f k = (bit f (k + 4) \<noteq> (bit f (k + 8) \<noteq> bit f (k + 12))))"
proof -
  have "bit (f AND mask 4) k \<longleftrightarrow> k < 4 \<and> bit f k"
    and "bit (dshot_checksum (drop_bit 4 f)) k \<longleftrightarrow>
           k < 4 \<and> (bit f (k + 4) \<noteq> (bit f (k + 8) \<noteq> bit f (k + 12)))" for k
    by (auto simp: bit_simps bit_checksum ac_simps)
  then show ?thesis
    unfolding esc_accepts_def low_nibble_mask by (metis bit_eqI)
qed

lemma esc_accepts_frame: "esc_accepts (dshot_frame p)"
  unfolding esc_accepts_bits
proof (intro allI impI)
  fix k :: nat assume "k < 4"
  then show "bit (dshot_frame p) k = (bit (dshot_frame p) (k + 4) \<noteq>
      (bit (dshot_frame p) (k + 8) \<noteq> bit (dshot_frame p) (k + 12)))"
    by (simp add: bit_frame bit_checksum) (simp add: add.commute)
qed

lemma bit_payload:
  "n < 16 \<Longrightarrow> bit (dshot_payload t tel) n \<longleftrightarrow> (if n = 0 then tel else bit t (n - 1))"
  unfolding dshot_payload_def bit_or_iff bit_push_bit_iff
  by (cases tel) (auto simp: bit_1_iff)

lemma eleven_bits:
  assumes "t \<le> (2047 :: u16)" and "bit t n"
  shows "n < 11"
proof -
  have "unat (take_bit 11 t) = unat t"
    using assms(1) by (simp add: unsigned_take_bit_eq word_le_nat_alt take_bit_nat_eq_self)
  then have "take_bit 11 t = t" by (simp add: word_unat_eq_iff)
  then show ?thesis using assms(2) by (metis bit_take_bit_iff)
qed

lemma frame_throttle:
  assumes "t \<le> 2047"
  shows "drop_bit 5 (dshot_frame (dshot_payload t tel)) = t"
proof (rule bit_word_eqI)
  fix n assume "n < LENGTH(16)"
  show "bit (drop_bit 5 (dshot_frame (dshot_payload t tel))) n = bit t n"
  proof (cases "n < 11")
    case True
    then show ?thesis by (simp add: bit_drop_bit_eq bit_frame bit_payload)
  next
    case False
    then show ?thesis
      using eleven_bits [OF assms, of n] bit_imp_le_length [of "dshot_frame (dshot_payload t tel)" "5 + n"]
      by (auto simp: bit_drop_bit_eq)
  qed
qed

lemma frame_telemetry: "bit (dshot_frame (dshot_payload t tel)) 4 = tel"
  by (simp add: bit_frame bit_payload)

lemma decode_frame:
  "t \<le> 2047 \<Longrightarrow> esc_decode (dshot_frame (dshot_payload t tel)) = Some (t, tel)"
  by (simp add: esc_decode_def esc_accepts_frame frame_throttle frame_telemetry)

lemma bit_flip: "n < 16 \<Longrightarrow> bit ((f :: u16) XOR push_bit i 1) n \<longleftrightarrow> bit f n \<noteq> (n = i)"
  by (auto simp: bit_simps)

text \<open>An accepted frame stops being accepted when any one of its sixteen bits flips.\<close>

lemma esc_rejects_flipped:
  assumes "i < 16" and "esc_accepts f"
  shows "\<not> esc_accepts (f XOR push_bit i 1)"
proof
  assume flipped: "esc_accepts (f XOR push_bit i 1)"
  define k where "k = i mod 4"
  have k: "k < 4" by (simp add: k_def)
  have "i = k \<or> i = k + 4 \<or> i = k + 8 \<or> i = k + 12" using assms(1) unfolding k_def by presburger
  moreover have "bit f k = (bit f (k + 4) \<noteq> (bit f (k + 8) \<noteq> bit f (k + 12)))"
    using assms(2) k by (simp add: esc_accepts_bits)
  moreover have "(bit f k \<noteq> (k = i)) = ((bit f (k + 4) \<noteq> (k + 4 = i)) \<noteq>
      ((bit f (k + 8) \<noteq> (k + 8 = i)) \<noteq> (bit f (k + 12) \<noteq> (k + 12 = i))))"
  proof -
    from k have "k < 16" "k + 4 < 16" "k + 8 < 16" "k + 12 < 16" by simp_all
    moreover have "bit (f XOR push_bit i 1) k = (bit (f XOR push_bit i 1) (k + 4) \<noteq>
        (bit (f XOR push_bit i 1) (k + 8) \<noteq> bit (f XOR push_bit i 1) (k + 12)))"
      using flipped k unfolding esc_accepts_bits by blast
    ultimately show ?thesis by (simp only: bit_flip)
  qed
  ultimately show False by (elim disjE) auto
qed

section \<open>Properties\<close>

text \<open>C36. The builder succeeds exactly for throttles of eleven bits, and whatever it is given, an
  ESC that receives the two bytes decodes a valid frame: the requested throttle and
  telemetry bit, or the zero-throttle stop frame when the value was out of range. A frame
  corrupted in any one bit on the wire is refused by the receiver's checksum.\<close>

theorem dshot_frame_roundtrip:
  assumes "dshot_protocol_build_frame t tel = (ok, hi, lo)"
  shows "(ok \<longleftrightarrow> t \<le> DSHOT_PROTOCOL_MAX_THROTTLE) \<and>
    esc_decode (frame_word hi lo) = Some (if ok then (t, tel) else (0, False)) \<and>
    (\<forall>i<16. esc_decode (frame_word hi lo XOR push_bit i 1) = None)"
proof (cases "t \<le> 2047")
  case True
  let ?f = "dshot_frame (dshot_payload t tel)"
  have "ok" and "frame_word hi lo = ?f"
    using assms True frame_word_split [of ?f]
    by (auto simp: dshot_protocol_build_frame_def DSHOT_PROTOCOL_MAX_THROTTLE_def Let_def
        split: if_splits)
  then show ?thesis
    using True decode_frame [OF True, of tel] esc_rejects_flipped [OF _ esc_accepts_frame]
    by (auto simp: DSHOT_PROTOCOL_MAX_THROTTLE_def esc_decode_def)
next
  case False
  then have r: "\<not> ok" "hi = 0" "lo = 0"
    using assms by (auto simp: dshot_protocol_build_frame_def DSHOT_PROTOCOL_MAX_THROTTLE_def
        split: if_splits)
  have z: "frame_word 0 0 = 0" "esc_accepts 0" "esc_decode 0 = Some (0, False)"
    by (simp_all add: frame_word_def esc_decode_def esc_accepts_def dshot_checksum_def)
  with r False show ?thesis
    using esc_rejects_flipped [OF _ z(2)]
    by (auto simp: DSHOT_PROTOCOL_MAX_THROTTLE_def esc_decode_def)
qed

theorem dshot_frame_roundtrip_witness:
  "esc_decode (frame_word 130 130) = Some (1044, False)"
proof -
  have "dshot_protocol_build_frame 1044 False = (True, 130, 130)"
    by (simp add: dshot_protocol_build_frame_def DSHOT_PROTOCOL_MAX_THROTTLE_def
        dshot_frame_def dshot_payload_def dshot_checksum_def)
  from dshot_frame_roundtrip [OF this] show ?thesis by simp
qed

end
