(* ===== verification/DShot_Encoder.thy ===== *)
theory DShot_Encoder imports DShot_Protocol
begin

text \<open>
  \<open>main/dshot_esc_encoder.c\<close>: the RMT encoder that turns a throttle into one DShot frame
  followed by the inter-frame delay, and the computation of its pulse widths. The RMT
  driver's byte and copy encoders are not in the repository: they are the functions of an
  \<open>rmt_enc_ops\<close> record over the driver's state \<open>'h\<close>. \<open>subencoders_ok\<close> states their
  documented behaviour (each session appends the next symbols of its data, reports
  completion with the last one, and reports a full memory whenever it stops early).
\<close>

section \<open>Data\<close>

record rmt_symbol_word =
  level0 :: bool
  duration0 :: u32
  level1 :: bool
  duration1 :: u32

text \<open>The flags of \<open>rmt_encode_state_t\<close>; \<open>RMT_ENCODING_RESET\<close> is the absence of both.\<close>

record rmt_encode_state =
  enc_complete :: bool
  enc_mem_full :: bool

definition RMT_ENCODING_RESET :: rmt_encode_state where
  "RMT_ENCODING_RESET = \<lparr>enc_complete = False, enc_mem_full = False\<rparr>"

record dshot_esc_throttle =
  thr_throttle :: u16
  thr_telemetry_req :: bool

record dshot_esc_encoder_config =
  cfg_resolution :: u32
  cfg_baud_rate :: u32
  cfg_post_delay_us :: u32

text \<open>The encoder object; \<open>enc_base\<close> is its address, the handle that callers keep, and
  \<open>bytes_encoder\<close> and \<open>copy_encoder\<close> are handles of the driver.\<close>

record rmt_dshot_esc_encoder =
  enc_base :: nat
  bytes_encoder :: "nat option"
  copy_encoder :: "nat option"
  dshot_delay_symbol :: rmt_symbol_word
  enc_state :: nat

record 'h rmt_enc_ops =
  op_encode_bytes :: "nat option \<Rightarrow> u8 list \<Rightarrow> 'h \<Rightarrow> nat \<times> rmt_encode_state \<times> 'h"
  op_encode_copy :: "nat option \<Rightarrow> rmt_symbol_word \<Rightarrow> 'h \<Rightarrow> nat \<times> rmt_encode_state \<times> 'h"
  op_alloc_encoder_mem :: "'h \<Rightarrow> nat option \<times> 'h"
  op_new_bytes_encoder :: "rmt_symbol_word \<Rightarrow> rmt_symbol_word \<Rightarrow> 'h \<Rightarrow> (esp_err \<times> nat option) \<times> 'h"
  op_new_copy_encoder :: "'h \<Rightarrow> (esp_err \<times> nat option) \<times> 'h"
  op_del_encoder :: "nat option \<Rightarrow> 'h \<Rightarrow> 'h"
  op_reset_encoder :: "nat option \<Rightarrow> 'h \<Rightarrow> 'h"
  op_free :: "'h \<Rightarrow> 'h"

section \<open>The encoding session\<close>

text \<open>Case 1 of the switch, also reached by the fall-through of case 0: the delay symbol.\<close>

definition encode_delay ::
  "'h rmt_enc_ops \<Rightarrow> rmt_dshot_esc_encoder \<Rightarrow> nat \<Rightarrow> rmt_encode_state \<Rightarrow> 'h
   \<Rightarrow> nat \<times> rmt_encode_state \<times> rmt_dshot_esc_encoder \<times> 'h" where
  "encode_delay ops enc encoded state h =
     (let (n, session, h') = op_encode_copy ops (copy_encoder enc) (dshot_delay_symbol enc) h;
          (state', enc') = (if enc_complete session
            then (state\<lparr>enc_complete := True\<rparr>, enc\<lparr>enc_state := 0\<rparr>) else (state, enc));
          state'' = (if enc_mem_full session then state'\<lparr>enc_mem_full := True\<rparr> else state')
      in (encoded + n, state'', enc', h'))"

definition rmt_encode_dshot_esc ::
  "'h rmt_enc_ops \<Rightarrow> dshot_esc_throttle \<Rightarrow> rmt_dshot_esc_encoder \<Rightarrow> 'h
   \<Rightarrow> nat \<times> rmt_encode_state \<times> rmt_dshot_esc_encoder \<times> 'h" where
  "rmt_encode_dshot_esc ops throttle enc h =
     (let (_, hi, lo) = dshot_protocol_build_frame (thr_throttle throttle) (thr_telemetry_req throttle)
      in if enc_state enc = 0 then
           (let (n, session, h') = op_encode_bytes ops (bytes_encoder enc) [hi, lo] h;
                enc' = (if enc_complete session then enc\<lparr>enc_state := 1\<rparr> else enc)
            in if enc_mem_full session
               then (n, RMT_ENCODING_RESET\<lparr>enc_mem_full := True\<rparr>, enc', h')
               else encode_delay ops enc' n RMT_ENCODING_RESET h')
         else if enc_state enc = 1 then encode_delay ops enc 0 RMT_ENCODING_RESET h
         else (0, RMT_ENCODING_RESET, enc, h))"

definition rmt_del_dshot_encoder :: "'h rmt_enc_ops \<Rightarrow> rmt_dshot_esc_encoder \<Rightarrow> 'h \<Rightarrow> esp_err \<times> 'h" where
  "rmt_del_dshot_encoder ops enc h =
     (ESP_OK, op_free ops (op_del_encoder ops (copy_encoder enc) (op_del_encoder ops (bytes_encoder enc) h)))"

definition rmt_dshot_encoder_reset ::
  "'h rmt_enc_ops \<Rightarrow> rmt_dshot_esc_encoder \<Rightarrow> 'h \<Rightarrow> esp_err \<times> rmt_dshot_esc_encoder \<times> 'h" where
  "rmt_dshot_encoder_reset ops enc h =
     (ESP_OK, enc\<lparr>enc_state := 0\<rparr>,
      op_reset_encoder ops (copy_encoder enc) (op_reset_encoder ops (bytes_encoder enc) h))"

section \<open>Creation\<close>

definition DSHOT_RMT_DURATION_MAX :: u32 where
  "DSHOT_RMT_DURATION_MAX = 0x7FFF"

definition DSHOT_USEC_PER_SEC :: u64 where
  "DSHOT_USEC_PER_SEC = 1000000"

text \<open>The timing part of the constructor: \<open>None\<close> is \<open>ESP_ERR_INVALID_ARG\<close>, \<open>Some\<close> holds the
  symbols of a zero bit, a one bit and the delay.\<close>

definition esc_timing ::
  "dshot_esc_encoder_config \<Rightarrow> (rmt_symbol_word \<times> rmt_symbol_word \<times> rmt_symbol_word) option" where
  "esc_timing config =
     (let res = ucast (cfg_resolution config) :: u64; baud = ucast (cfg_baud_rate config) :: u64;
          post = ucast (cfg_post_delay_us config) :: u64
      in if \<not> (cfg_resolution config > 0 \<and> cfg_baud_rate config > 0 \<and> cfg_post_delay_us config > 0)
         then None
         else let period_ticks = res div baud;
                  delay_ticks = (res * post) div DSHOT_USEC_PER_SEC
         in if \<not> (period_ticks > 0 \<and> delay_ticks \<ge> 2 \<and>
                  delay_ticks \<le> ucast (2 * DSHOT_RMT_DURATION_MAX))
            then None
            else let t1h_ticks = ucast ((res * 7485) div (baud * 10000)) :: u32;
                     t0h_ticks = ucast ((res * 37425) div (baud * 100000)) :: u32;
                     t1l_ticks = ucast (period_ticks - ucast t1h_ticks) :: u32;
                     t0l_ticks = ucast (period_ticks - ucast t0h_ticks) :: u32
            in if \<not> (t1h_ticks > 0 \<and> t1h_ticks \<le> DSHOT_RMT_DURATION_MAX \<and>
                     t1l_ticks > 0 \<and> t1l_ticks \<le> DSHOT_RMT_DURATION_MAX \<and>
                     t0h_ticks > 0 \<and> t0h_ticks \<le> DSHOT_RMT_DURATION_MAX \<and>
                     t0l_ticks > 0 \<and> t0l_ticks \<le> DSHOT_RMT_DURATION_MAX)
               then None
               else Some (\<lparr>level0 = True, duration0 = t0h_ticks, level1 = False, duration1 = t0l_ticks\<rparr>,
                          \<lparr>level0 = True, duration0 = t1h_ticks, level1 = False, duration1 = t1l_ticks\<rparr>,
                          \<lparr>level0 = False, duration0 = ucast (delay_ticks div 2), level1 = False,
                           duration1 = ucast (delay_ticks - delay_ticks div 2)\<rparr>))"

text \<open>The \<open>err\<close> label: whatever was created is deleted, and the object freed.\<close>

definition encoder_cleanup :: "'h rmt_enc_ops \<Rightarrow> nat option \<Rightarrow> nat option \<Rightarrow> 'h \<Rightarrow> 'h" where
  "encoder_cleanup ops bytes copy h =
     (let h1 = (if bytes \<noteq> None then op_del_encoder ops bytes h else h);
          h2 = (if copy \<noteq> None then op_del_encoder ops copy h1 else h1)
      in op_free ops h2)"

definition rmt_new_dshot_esc_encoder ::
  "'h rmt_enc_ops \<Rightarrow> dshot_esc_encoder_config option \<Rightarrow> 'h
   \<Rightarrow> (esp_err \<times> rmt_dshot_esc_encoder option) \<times> 'h" where
  "rmt_new_dshot_esc_encoder ops config h =
     (case config of None \<Rightarrow> ((ESP_ERR_INVALID_ARG, None), h)
      | Some c \<Rightarrow>
        (case esc_timing c of None \<Rightarrow> ((ESP_ERR_INVALID_ARG, None), h)
         | Some (bit0, bit1, delay) \<Rightarrow>
           (case op_alloc_encoder_mem ops h of
              (None, h1) \<Rightarrow> ((ESP_ERR_NO_MEM, None), h1)
            | (Some base, h1) \<Rightarrow>
               let ((e1, bytes), h2) = op_new_bytes_encoder ops bit0 bit1 h1
               in if e1 \<noteq> ESP_OK then ((e1, None), encoder_cleanup ops bytes None h2)
                  else let ((e2, copy), h3) = op_new_copy_encoder ops h2
                  in if e2 \<noteq> ESP_OK then ((e2, None), encoder_cleanup ops bytes copy h3)
                     else ((ESP_OK, Some \<lparr>enc_base = base, bytes_encoder = bytes, copy_encoder = copy,
                                          dshot_delay_symbol = delay, enc_state = 0\<rparr>), h3))))"

section \<open>Pulse widths\<close>

lemma duration_max_unat: "(v \<le> DSHOT_RMT_DURATION_MAX) \<longleftrightarrow> unat v \<le> 32767"
  by (simp add: DSHOT_RMT_DURATION_MAX_def word_le_nat_alt)

lemma u64_mult_unat: "unat (a :: u64) * unat b < 2 ^ 64 \<Longrightarrow> unat (a * b) = unat a * unat b"
  by (simp add: unat_word_ariths(2))

lemma u64_of_u32: "unat (ucast (x :: u32) :: u64) = unat x"
  using unat_less_width(3) [of x] by (intro unat_ucast_small) simp

lemma u64_scaled:
  assumes "k < 2 ^ 20"
  shows "unat ((ucast (x :: u32) :: u64) * of_nat k) = unat x * k"
proof -
  have k: "unat (of_nat k :: u64) = k" using assms by (intro unat_of_nat_small) simp
  have "unat x * k < 2 ^ 32 * 2 ^ 20"
    using unat_less_width(3) [of x] assms by (intro mult_strict_mono) simp_all
  then show ?thesis using u64_mult_unat [of "ucast x" "of_nat k"] by (simp add: k u64_of_u32)
qed

lemma floor_ratio_le:
  fixes r b k m :: nat
  assumes "0 < m" and "k \<le> m"
  shows "r * k div (b * m) \<le> r div b"
proof -
  have "r * k div (b * m) \<le> r * m div (b * m)" using assms(2) by (intro div_le_mono) simp
  also have "r * m div (b * m) = r div b" using assms(1) by simp
  finally show ?thesis .
qed

text \<open>The high time of a bit, \<open>resolution * k / (baud * m)\<close>, as a number: the conversion to
  32 bits loses nothing, and the low time is the rest of the period.\<close>

lemma high_time:
  fixes res baud :: u32 and k m :: nat
  assumes "k < 2 ^ 20" and "m < 2 ^ 20" and "0 < m" and "k \<le> m" and "0 < unat baud"
    and "unat ((ucast res :: u64) div ucast baud) = unat res div unat baud"
    and h: "h = (ucast ((ucast res * of_nat k :: u64) div (ucast baud * of_nat m)) :: u32)"
  shows "unat h = unat res * k div (unat baud * m)"
    and "unat (ucast ((ucast res :: u64) div ucast baud - ucast h) :: u32) = unat res div unat baud - unat h"
proof -
  have le: "unat res * k div (unat baud * m) \<le> unat res div unat baud"
    using assms(3,4) by (rule floor_ratio_le)
  have q: "unat res div unat baud < 2 ^ 32"
    using order_le_less_trans [OF div_le_dividend unat_less_width(3) [of res]] by simp
  show h1: "unat h = unat res * k div (unat baud * m)"
    unfolding h using le q assms(1,2)
    by (subst unat_ucast_small) (simp_all add: unat_div u64_scaled)
  have s: "(ucast h :: u64) \<le> ucast res div ucast baud"
    using le by (simp add: word_le_nat_alt u64_of_u32 assms(6) h1)
  show "unat (ucast ((ucast res :: u64) div ucast baud - ucast h) :: u32) = unat res div unat baud - unat h"
    using q s assms(6) by (subst unat_ucast_small) (simp_all add: unat_sub u64_of_u32)
qed


text \<open>What a successful timing computation guarantees, in numbers.\<close>

lemma esc_timing_SomeD:
  assumes "esc_timing c = Some (b0, b1, d)"
  defines "r \<equiv> unat (cfg_resolution c)" and "b \<equiv> unat (cfg_baud_rate c)"
    and "p \<equiv> unat (cfg_post_delay_us c)"
  shows "0 < b"
    and "unat (duration0 b0) = r * 37425 div (b * 100000)"
    and "unat (duration0 b1) = r * 7485 div (b * 10000)"
    and "unat (duration1 b0) = r div b - unat (duration0 b0)"
    and "unat (duration1 b1) = r div b - unat (duration0 b1)"
    and "\<forall>s \<in> {b0, b1}. level0 s \<and> \<not> level1 s \<and> 0 < unat (duration0 s) \<and> unat (duration0 s) \<le> 32767 \<and>
           0 < unat (duration1 s) \<and> unat (duration1 s) \<le> 32767"
    and "\<not> level0 d \<and> \<not> level1 d \<and> 0 < unat (duration0 d) \<and> unat (duration0 d) \<le> 32767 \<and>
           0 < unat (duration1 d) \<and> unat (duration1 d) \<le> 32767 \<and>
           unat (duration0 d) + unat (duration1 d) = r * p div 1000000"
proof -
  let ?res = "ucast (cfg_resolution c) :: u64" and ?baud = "ucast (cfg_baud_rate c) :: u64"
  let ?delay = "?res * ucast (cfg_post_delay_us c) div DSHOT_USEC_PER_SEC :: u64"
  let ?t1h = "ucast ((?res * 7485) div (?baud * 10000)) :: u32"
  let ?t0h = "ucast ((?res * 37425) div (?baud * 100000)) :: u32"
  let ?t1l = "ucast (?res div ?baud - ucast ?t1h) :: u32"
  let ?t0l = "ucast (?res div ?baud - ucast ?t0h) :: u32"
  note T = assms(1) [unfolded esc_timing_def Let_def]
  have pos: "cfg_resolution c > 0 \<and> cfg_baud_rate c > 0 \<and> cfg_post_delay_us c > 0"
    and del: "?res div ?baud > 0 \<and> ?delay \<ge> 2 \<and> ?delay \<le> ucast (2 * DSHOT_RMT_DURATION_MAX)"
    and rng: "?t1h > 0 \<and> ?t1h \<le> DSHOT_RMT_DURATION_MAX \<and> ?t1l > 0 \<and> ?t1l \<le> DSHOT_RMT_DURATION_MAX \<and>
              ?t0h > 0 \<and> ?t0h \<le> DSHOT_RMT_DURATION_MAX \<and> ?t0l > 0 \<and> ?t0l \<le> DSHOT_RMT_DURATION_MAX"
    and b0: "b0 = \<lparr>level0 = True, duration0 = ?t0h, level1 = False, duration1 = ?t0l\<rparr>"
    and b1: "b1 = \<lparr>level0 = True, duration0 = ?t1h, level1 = False, duration1 = ?t1l\<rparr>"
    and d: "d = \<lparr>level0 = False, duration0 = ucast (?delay div 2), level1 = False,
                 duration1 = ucast (?delay - ?delay div 2)\<rparr>"
    using T by (simp_all split: if_splits)
  show "0 < b" using pos by (simp add: b_def word_less_nat_alt)
  then have per: "unat (?res div ?baud) = r div b" and bp: "0 < unat (cfg_baud_rate c)"
    by (simp_all add: unat_div u64_of_u32 r_def b_def)
  note h1 = high_time [where k = 7485 and m = 10000 and res = "cfg_resolution c" and
      baud = "cfg_baud_rate c" and h = ?t1h]
  note h0 = high_time [where k = 37425 and m = 100000 and res = "cfg_resolution c" and
      baud = "cfg_baud_rate c" and h = ?t0h]
  show "unat (duration0 b0) = r * 37425 div (b * 100000)"
    and "unat (duration1 b0) = r div b - unat (duration0 b0)"
    using h0 bp per by (simp_all add: b0 r_def b_def)
  show "unat (duration0 b1) = r * 7485 div (b * 10000)"
    and "unat (duration1 b1) = r div b - unat (duration0 b1)"
    using h1 bp per by (simp_all add: b1 r_def b_def)
  show "\<forall>s \<in> {b0, b1}. level0 s \<and> \<not> level1 s \<and> 0 < unat (duration0 s) \<and> unat (duration0 s) \<le> 32767 \<and>
           0 < unat (duration1 s) \<and> unat (duration1 s) \<le> 32767"
    using rng unfolding b0 b1 duration_max_unat by (simp add: word_less_nat_alt)
  have "r * p < 2 ^ 64"
  proof -
    have "r * p < 2 ^ 32 * 2 ^ 32"
      using unat_less_width(3) [of "cfg_resolution c"] unat_less_width(3) [of "cfg_post_delay_us c"]
      unfolding r_def p_def by (intro mult_strict_mono) simp_all
    then show ?thesis by simp
  qed
  then have delay: "unat ?delay = r * p div 1000000"
    by (simp add: unat_div DSHOT_USEC_PER_SEC_def u64_mult_unat u64_of_u32 r_def p_def)
  have max: "unat (ucast (2 * DSHOT_RMT_DURATION_MAX) :: u64) = 65534"
    by (simp add: DSHOT_RMT_DURATION_MAX_def)
  have lo: "2 \<le> unat ?delay" and hi: "unat ?delay \<le> 65534"
    using del max by (simp_all add: word_le_nat_alt)
  have half: "unat (?delay div 2) = unat ?delay div 2" by (simp add: unat_div)
  then have "?delay div 2 \<le> ?delay" by (simp add: word_le_nat_alt)
  then have rest: "unat (?delay - ?delay div 2) = unat ?delay - unat ?delay div 2"
    by (simp add: unat_sub half)
  have "unat (duration0 d) = unat ?delay div 2" "unat (duration1 d) = unat ?delay - unat ?delay div 2"
    unfolding d using hi half rest by (simp_all add: unat_ucast_small)
  then show "\<not> level0 d \<and> \<not> level1 d \<and> 0 < unat (duration0 d) \<and> unat (duration0 d) \<le> 32767 \<and>
           0 < unat (duration1 d) \<and> unat (duration1 d) \<le> 32767 \<and>
           unat (duration0 d) + unat (duration1 d) = r * p div 1000000"
    using lo hi delay by (simp add: d) linarith
qed


section \<open>Sessions\<close>

text \<open>The driver calls the encoder again, once it has room, until it reports completion.\<close>

fun encode_calls ::
  "'h rmt_enc_ops \<Rightarrow> dshot_esc_throttle \<Rightarrow> nat \<Rightarrow> rmt_dshot_esc_encoder \<Rightarrow> 'h
   \<Rightarrow> nat \<times> rmt_encode_state \<times> rmt_dshot_esc_encoder \<times> 'h" where
  "encode_calls ops t 0 enc h = (0, RMT_ENCODING_RESET, enc, h)"
| "encode_calls ops t (Suc k) enc h =
     (let (n, s, enc', h') = rmt_encode_dshot_esc ops t enc h
      in if enc_complete s then (n, s, enc', h')
         else let (m, r) = encode_calls ops t k enc' h' in (n + m, r))"

text \<open>The documented behaviour of the driver's encoders: \<open>syms\<close> are the symbols of a byte
  string, \<open>wire\<close> what has been put into the channel, \<open>pos\<close> the progress that the byte
  encoder keeps between sessions.\<close>

definition subencoders_ok ::
  "'h rmt_enc_ops \<Rightarrow> (u8 list \<Rightarrow> rmt_symbol_word list) \<Rightarrow> ('h \<Rightarrow> rmt_symbol_word list) \<Rightarrow> ('h \<Rightarrow> nat) \<Rightarrow> bool"
where
  "subencoders_ok ops syms wire pos \<longleftrightarrow>
     (\<forall>e data h n s h'. op_encode_bytes ops e data h = (n, s, h') \<longrightarrow>
        n \<le> length (syms data) - pos h \<and> wire h' = wire h @ take n (drop (pos h) (syms data)) \<and>
        (enc_complete s \<longleftrightarrow> pos h + n \<ge> length (syms data)) \<and> (enc_complete s \<or> enc_mem_full s) \<and>
        pos h' = (if enc_complete s then 0 else pos h + n)) \<and>
     (\<forall>e d h n s h'. op_encode_copy ops e d h = (n, s, h') \<longrightarrow>
        n \<le> 1 \<and> wire h' = wire h @ take n [d] \<and> (enc_complete s \<longleftrightarrow> n = 1) \<and>
        (enc_complete s \<or> enc_mem_full s) \<and> pos h' = pos h)"

definition frame_bytes :: "dshot_esc_throttle \<Rightarrow> u8 list" where
  "frame_bytes t = (let (_, hi, lo) =
     dshot_protocol_build_frame (thr_throttle t) (thr_telemetry_req t) in [hi, lo])"

text \<open>How much of the transmission is out, and the encoder's invariant between sessions.\<close>

definition sent :: "(u8 list \<Rightarrow> rmt_symbol_word list) \<Rightarrow> ('h \<Rightarrow> nat) \<Rightarrow> dshot_esc_throttle
    \<Rightarrow> rmt_dshot_esc_encoder \<Rightarrow> 'h \<Rightarrow> nat" where
  "sent syms pos t enc h = (if enc_state enc = 0 then pos h else length (syms (frame_bytes t)))"

definition session_inv :: "(u8 list \<Rightarrow> rmt_symbol_word list) \<Rightarrow> ('h \<Rightarrow> nat) \<Rightarrow> dshot_esc_throttle
    \<Rightarrow> rmt_dshot_esc_encoder \<Rightarrow> 'h \<Rightarrow> bool" where
  "session_inv syms pos t enc h \<longleftrightarrow>
     (enc_state enc = 0 \<and> pos h \<le> length (syms (frame_bytes t))) \<or> (enc_state enc = 1 \<and> pos h = 0)"

lemma encode_delay_step:
  assumes "subencoders_ok ops syms wire pos" and "enc_state enc = 1"
    and "encode_delay ops enc k s0 h = (n, s, enc', h')" and "\<not> enc_complete s0"
  shows "\<exists>m \<le> 1. n = k + m \<and> wire h' = wire h @ take m [dshot_delay_symbol enc] \<and>
    (enc_complete s \<longleftrightarrow> m = 1) \<and> pos h' = pos h \<and>
    enc' = enc\<lparr>enc_state := if m = 1 then 0 else 1\<rparr>"
proof -
  obtain m se h2 where c: "op_encode_copy ops (copy_encoder enc) (dshot_delay_symbol enc) h = (m, se, h2)"
    by (metis prod_cases3)
  with assms(1) have m: "m \<le> 1 \<and> wire h2 = wire h @ take m [dshot_delay_symbol enc] \<and>
      (enc_complete se \<longleftrightarrow> m = 1) \<and> pos h2 = pos h"
    unfolding subencoders_ok_def by blast
  have "n = k + m" "h' = h2" "enc_complete s = enc_complete se"
    "enc' = (if enc_complete se then enc\<lparr>enc_state := 0\<rparr> else enc)"
    using assms(3,4) c by (auto simp: encode_delay_def split: if_splits)
  moreover have "enc\<lparr>enc_state := 1\<rparr> = enc" using assms(2) by (cases enc) simp
  ultimately show ?thesis using m by (intro exI [of _ m]) simp
qed

lemma encode_step:
  assumes ok: "subencoders_ok ops syms wire pos" and inv: "session_inv syms pos t enc h"
    and step: "rmt_encode_dshot_esc ops t enc h = (n, s, enc', h')"
  defines "all \<equiv> syms (frame_bytes t) @ [dshot_delay_symbol enc]"
  shows "n \<le> length all - sent syms pos t enc h"
    and "wire h' = wire h @ take n (drop (sent syms pos t enc h) all)"
    and "enc_complete s \<longleftrightarrow> sent syms pos t enc h + n = length all"
    and "sent syms pos t enc' h' = (if enc_complete s then 0 else sent syms pos t enc h + n)"
    and "session_inv syms pos t enc' h'"
    and "dshot_delay_symbol enc' = dshot_delay_symbol enc"
    and "enc_complete s \<Longrightarrow> enc_state enc' = 0 \<and> pos h' = 0"
proof -
  obtain okf hi lo where fb: "dshot_protocol_build_frame (thr_throttle t) (thr_telemetry_req t) = (okf, hi, lo)"
    by (metis prod_cases3)
  then have data: "frame_bytes t = [hi, lo]" by (simp add: frame_bytes_def)
  let ?L = "length (syms (frame_bytes t))" and ?st = "sent syms pos t enc h"
  have "n \<le> length all - ?st \<and> wire h' = wire h @ take n (drop ?st all) \<and>
    (enc_complete s \<longleftrightarrow> ?st + n = length all) \<and>
    sent syms pos t enc' h' = (if enc_complete s then 0 else ?st + n) \<and>
    session_inv syms pos t enc' h' \<and> dshot_delay_symbol enc' = dshot_delay_symbol enc \<and>
    (enc_complete s \<longrightarrow> enc_state enc' = 0 \<and> pos h' = 0)"
  proof (cases "enc_state enc = 0")
    case False
    with inv have one: "enc_state enc = 1" and p0: "pos h = 0" by (auto simp: session_inv_def)
    with step fb have "encode_delay ops enc 0 RMT_ENCODING_RESET h = (n, s, enc', h')"
      by (simp add: rmt_encode_dshot_esc_def)
    from encode_delay_step [OF ok one this] obtain m where "m \<le> 1" "n = m"
      "wire h' = wire h @ take m [dshot_delay_symbol enc]" "enc_complete s \<longleftrightarrow> m = 1"
      "pos h' = pos h" "enc' = enc\<lparr>enc_state := if m = 1 then 0 else 1\<rparr>"
      by (auto simp: RMT_ENCODING_RESET_def)
    then show ?thesis using one p0 by (auto simp: sent_def all_def session_inv_def)
  next
    case True
    with inv have pos: "pos h \<le> ?L" by (simp add: session_inv_def)
    obtain m se h2 where b: "op_encode_bytes ops (bytes_encoder enc) [hi, lo] h = (m, se, h2)"
      by (metis prod_cases3)
    with ok data have m: "m \<le> ?L - pos h" "wire h2 = wire h @ take m (drop (pos h) (syms (frame_bytes t)))"
      "enc_complete se \<longleftrightarrow> pos h + m \<ge> ?L" "enc_complete se \<or> enc_mem_full se"
      "pos h2 = (if enc_complete se then 0 else pos h + m)"
      unfolding subencoders_ok_def by metis+
    let ?enc1 = "if enc_complete se then enc\<lparr>enc_state := 1\<rparr> else enc"
    show ?thesis
    proof (cases "enc_mem_full se")
      case full: True
      with step fb b True have "n = m" "\<not> enc_complete s" "enc' = ?enc1" "h' = h2"
        by (auto simp: rmt_encode_dshot_esc_def RMT_ENCODING_RESET_def split: if_splits)
      then show ?thesis using True m pos by (auto simp: sent_def all_def session_inv_def)
    next
      case False
      with m have cp: "enc_complete se" by blast
      with step fb b True False
      have "encode_delay ops (enc\<lparr>enc_state := 1\<rparr>) m RMT_ENCODING_RESET h2 = (n, s, enc', h')"
        by (simp add: rmt_encode_dshot_esc_def)
      from encode_delay_step [OF ok _ this] obtain k where "k \<le> 1" "n = m + k"
        "wire h' = wire h2 @ take k [dshot_delay_symbol enc]" "enc_complete s \<longleftrightarrow> k = 1"
        "pos h' = pos h2" "enc' = enc\<lparr>enc_state := if k = 1 then 0 else 1\<rparr>"
        by (auto simp: RMT_ENCODING_RESET_def)
      moreover have "pos h + m = ?L" using m(1,3) cp pos by simp
      ultimately show ?thesis using True m cp by (auto simp: sent_def all_def session_inv_def)
    qed
  qed
  then show "n \<le> length all - ?st" "wire h' = wire h @ take n (drop ?st all)"
    "enc_complete s \<longleftrightarrow> ?st + n = length all"
    "sent syms pos t enc' h' = (if enc_complete s then 0 else ?st + n)"
    "session_inv syms pos t enc' h'" "dshot_delay_symbol enc' = dshot_delay_symbol enc"
    "enc_complete s \<Longrightarrow> enc_state enc' = 0 \<and> pos h' = 0"
    by blast+
qed

lemma encode_calls_session:
  assumes "subencoders_ok ops syms wire pos"
  shows "\<lbrakk>session_inv syms pos t enc h; encode_calls ops t k enc h = (n, s, enc', h')\<rbrakk> \<Longrightarrow>
    wire h' = wire h @ take n (drop (sent syms pos t enc h) (syms (frame_bytes t) @ [dshot_delay_symbol enc])) \<and>
    (enc_complete s \<longleftrightarrow> sent syms pos t enc h + n = length (syms (frame_bytes t)) + 1) \<and>
    n \<le> length (syms (frame_bytes t)) + 1 - sent syms pos t enc h \<and>
    (enc_complete s \<longrightarrow> enc_state enc' = 0 \<and> pos h' = 0)"
proof (induction k arbitrary: enc h n)
  case 0
  then show ?case by (auto simp: RMT_ENCODING_RESET_def sent_def session_inv_def)
next
  case (Suc k)
  obtain n1 s1 e1 h1 where st: "rmt_encode_dshot_esc ops t enc h = (n1, s1, e1, h1)"
    by (metis prod_cases4)
  note S = encode_step [OF assms Suc.prems(1) st]
  show ?case
  proof (cases "enc_complete s1")
    case True
    with Suc.prems(2) st have "n = n1" "s = s1" "enc' = e1" "h' = h1" by simp_all
    with True S show ?thesis by simp
  next
    case False
    obtain n2 where rest: "encode_calls ops t k e1 h1 = (n2, s, enc', h')" and n: "n = n1 + n2"
      using Suc.prems(2) st False by (auto split: prod.splits)
    from Suc.IH [OF S(5) rest] S(1-4,6) n False show ?thesis
      by (auto simp: take_add add.commute)
  qed
qed


section \<open>A driver that takes a few symbols at a time\<close>

text \<open>An instance of \<open>subencoders_ok\<close>: the bytes are sent most significant bit first, at most
  \<open>c\<close> symbols per session; the state is the wire and the byte encoder's progress.\<close>

definition bit_symbols :: "rmt_symbol_word \<Rightarrow> rmt_symbol_word \<Rightarrow> u8 list \<Rightarrow> rmt_symbol_word list" where
  "bit_symbols s0 s1 bs = concat (map (\<lambda>b. map (\<lambda>i. if bit b i then s1 else s0) (rev [0..<8])) bs)"

definition chunk_bytes ::
  "nat \<Rightarrow> (u8 list \<Rightarrow> rmt_symbol_word list) \<Rightarrow> u8 list \<Rightarrow> rmt_symbol_word list \<times> nat
   \<Rightarrow> nat \<times> rmt_encode_state \<times> (rmt_symbol_word list \<times> nat)" where
  "chunk_bytes c syms data h =
     (let rem = drop (snd h) (syms data); n = min c (length rem); done = (n = length rem)
      in (n, \<lparr>enc_complete = done, enc_mem_full = \<not> done\<rparr>,
          (fst h @ take n rem, if done then 0 else snd h + n)))"

definition chunk_ops :: "nat \<Rightarrow> (u8 list \<Rightarrow> rmt_symbol_word list) \<Rightarrow> (rmt_symbol_word list \<times> nat) rmt_enc_ops" where
  "chunk_ops c syms = \<lparr>op_encode_bytes = (\<lambda>_. chunk_bytes c syms),
     op_encode_copy = (\<lambda>_ d h. (1, \<lparr>enc_complete = True, enc_mem_full = False\<rparr>, (fst h @ [d], snd h))),
     op_alloc_encoder_mem = (\<lambda>h. (Some 7, h)),
     op_new_bytes_encoder = (\<lambda>_ _ h. ((ESP_OK, Some 0), h)),
     op_new_copy_encoder = (\<lambda>h. ((ESP_OK, Some 1), h)),
     op_del_encoder = (\<lambda>_ h. h), op_reset_encoder = (\<lambda>_ h. h), op_free = (\<lambda>h. h)\<rparr>"

lemma chunk_ops_ok: "subencoders_ok (chunk_ops c syms) syms fst snd"
  by (auto simp: subencoders_ok_def chunk_ops_def chunk_bytes_def Let_def min_def)

lemma double_floor:
  fixes r b :: nat
  assumes "0 < b"
  shows "2 * (r * 37425 div (b * 100000)) \<le> r * 7485 div (b * 10000)"
proof -
  let ?a = "r * 37425 div (b * 100000)"
  have "?a * (b * 100000) \<le> r * 37425" by (rule div_times_less_eq_dividend)
  then have "2 * ?a * (b * 10000) \<le> r * 7485" by (simp add: ac_simps)
  moreover have "0 < b * 10000" using assms by simp
  ultimately show ?thesis by (simp only: less_eq_div_iff_mult_less_eq)
qed

section \<open>Properties\<close>



text \<open>However the driver splits a transmission into sessions (a full channel memory can
  interrupt it anywhere, even between the last bit and the delay), the calls put on the wire
  exactly a prefix of the frame's symbols followed by one delay symbol, completion is
  reported exactly when all of it is out, and the encoder is then back in its initial
  state, ready for the next frame.\<close>

theorem dshot_transmission_sessions:
  assumes "subencoders_ok ops syms wire pos" and "enc_state enc = 0" and "pos h = 0"
    and "encode_calls ops t k enc h = (n, s, enc', h')"
  shows "wire h' = wire h @ take n (syms (frame_bytes t) @ [dshot_delay_symbol enc]) \<and>
    n \<le> length (syms (frame_bytes t)) + 1 \<and>
    (enc_complete s \<longleftrightarrow> n = length (syms (frame_bytes t)) + 1) \<and>
    (enc_complete s \<longrightarrow> enc_state enc' = 0 \<and> pos h' = 0)"
proof -
  have "session_inv syms pos t enc h" using assms(2,3) by (simp add: session_inv_def)
  from encode_calls_session [OF assms(1) this assms(4)] assms(2,3) show ?thesis
    by (simp add: sent_def)
qed

theorem dshot_transmission_sessions_witness:
  "\<forall>s0 s1 d. \<exists>n s enc' h'. encode_calls (chunk_ops 6 (bit_symbols s0 s1))
      \<lparr>thr_throttle = 1046, thr_telemetry_req = False\<rparr> 3
      \<lparr>enc_base = 7, bytes_encoder = Some 0, copy_encoder = Some 1, dshot_delay_symbol = d, enc_state = 0\<rparr> ([], 0)
      = (n, s, enc', h') \<and> enc_complete s \<and>
    fst h' = [s1, s0, s0, s0, s0, s0, s1, s0, s1, s1, s0, s0, s0, s1, s1, s0, d]"
proof (intro allI)
  fix s0 s1 d :: rmt_symbol_word
  let ?ops = "chunk_ops 6 (bit_symbols s0 s1)"
  let ?t = "\<lparr>thr_throttle = 1046, thr_telemetry_req = False\<rparr>"
  let ?e = "\<lparr>enc_base = 7, bytes_encoder = Some 0, copy_encoder = Some 1, dshot_delay_symbol = d, enc_state = 0\<rparr>"
  have bf: "dshot_protocol_build_frame 1046 False = (True, 130, 198)"
    by (simp add: dshot_protocol_build_frame_def DSHOT_PROTOCOL_MAX_THROTTLE_def
        dshot_frame_def dshot_payload_def dshot_checksum_def)
  then have fb: "frame_bytes ?t = [130, 198]" by (simp add: frame_bytes_def)
  obtain n s enc' h' where r: "encode_calls ?ops ?t 3 ?e ([], 0) = (n, s, enc', h')"
    by (metis prod_cases4)
  have "n = 17 \<and> enc_complete s"
    using r by (auto simp add: numeral_3_eq_3 rmt_encode_dshot_esc_def encode_delay_def bf
        RMT_ENCODING_RESET_def chunk_ops_def chunk_bytes_def bit_symbols_def)
  with dshot_transmission_sessions [OF chunk_ops_ok _ _ r]
  show "\<exists>n s enc' h'. encode_calls ?ops ?t 3 ?e ([], 0) = (n, s, enc', h') \<and> enc_complete s \<and>
      fst h' = [s1, s0, s0, s0, s0, s0, s1, s0, s1, s1, s0, s0, s0, s1, s1, s0, d]"
    using r by (simp add: fb bit_symbols_def bit_iff_odd upt_rec)
qed

end
