(* ===== verification/Controller_Policy.thy ===== *)
theory Controller_Policy imports Prelude
begin

text \<open>
  \<open>main/controller_policy.c\<close>: the side-effect-free validation rules shared by the command
  router, the motor controller and the OTA manager. Each C function is one definition of
  the same name; the reference definitions it is compared with (\<open>dec_val\<close>, \<open>url_spec\<close>)
  follow each group. Out-parameters are results, so the model has no null check for them.
\<close>

section \<open>Identifiers and topics\<close>

definition identifier_char :: "char \<Rightarrow> bool" where
  "identifier_char c \<longleftrightarrow> isalnum c \<or> c = CHR ''_'' \<or> c = CHR ''-''"

definition controller_identifier_valid :: "string option \<Rightarrow> bool \<Rightarrow> bool" where
  "controller_identifier_valid value allow_empty =
     (case value of None \<Rightarrow> False
      | Some s \<Rightarrow> if s = [] then allow_empty else list_all identifier_char s)"

definition controller_topic_level_valid :: "string option \<Rightarrow> bool" where
  "controller_topic_level_valid value = controller_identifier_valid value False"

text \<open>\<open>None\<close> is the C function's \<open>false\<close>; \<open>Some\<close> carries the text left in \<open>out\<close>. The
  \<open>snprintf\<close> writes when it fits with its terminator.\<close>

definition controller_build_node_topic ::
  "nat \<Rightarrow> string option \<Rightarrow> string option \<Rightarrow> string option" where
  "controller_build_node_topic out_size root node_id =
     (if out_size = 0 \<or> \<not> controller_topic_level_valid root \<or>
         \<not> controller_identifier_valid node_id False then None
      else let text = the root @ ''/nodes/'' @ the node_id
           in if 0 < length text \<and> length text < out_size then Some text else None)"

section \<open>Bounded decimal fields\<close>

fun parse_digits :: "u32 \<Rightarrow> u32 \<Rightarrow> string \<Rightarrow> (u32 \<times> string) option" where
  "parse_digits limit value [] = Some (value, [])"
| "parse_digits limit value (c # cs) =
     (if \<not> isdigit c then Some (value, c # cs)
      else let digit = (of_nat (digit_val c) :: u32)
           in if value > limit div 10 \<or> (value = limit div 10 \<and> digit > limit mod 10)
              then None
              else parse_digits limit (value * 10 + digit) cs)"

text \<open>\<open>None\<close> is \<open>false\<close> (cursor and value untouched); \<open>Some (value, rest)\<close> is \<open>true\<close> with the
  parsed value and the advanced cursor. A zero delimiter asks for the end of the string.\<close>

definition controller_parse_uint_field ::
  "string option \<Rightarrow> u32 \<Rightarrow> char \<Rightarrow> (u32 \<times> string) option" where
  "controller_parse_uint_field cursor limit delimiter =
     (case cursor of None \<Rightarrow> None
      | Some p \<Rightarrow>
          if \<not> isdigit (char_at p 0) then None
          else case parse_digits limit 0 p of
                 None \<Rightarrow> None
               | Some (value, rest) \<Rightarrow>
                   if delimiter \<noteq> NUL then
                     (if char_at rest 0 \<noteq> delimiter then None else Some (value, tl rest))
                   else if char_at rest 0 \<noteq> NUL then None
                   else Some (value, rest))"

definition controller_parse_percent :: "string option \<Rightarrow> u8 option" where
  "controller_parse_percent text =
     (case controller_parse_uint_field text 100 NUL of
        None \<Rightarrow> None | Some (value, _) \<Rightarrow> Some (ucast value))"

section \<open>Percentages and DShot values\<close>

definition controller_effective_pct :: "u8 \<Rightarrow> u8 \<Rightarrow> u8" where
  "controller_effective_pct requested_pct minimum_spin_pct =
     (if requested_pct = 0 then 0
      else let requested = (if requested_pct > 100 then 100 else requested_pct);
               minimum = (if minimum_spin_pct > 100 then 100 else minimum_spin_pct)
           in if requested < minimum then minimum else requested)"

definition controller_pct_to_dshot :: "u8 \<Rightarrow> u8 \<Rightarrow> u16" where
  "controller_pct_to_dshot requested_pct minimum_spin_pct =
     (let effective = controller_effective_pct requested_pct minimum_spin_pct
      in if effective = 0 then 0
         else ucast ((48 :: u32) + (ucast effective * (2047 - 48)) div 100))"

section \<open>The OTA URL allow list\<close>

definition https_scheme :: string where
  "https_scheme = ''https://''"

definition url_char_allowed :: "char \<Rightarrow> bool" where
  "url_char_allowed c \<longleftrightarrow>
     \<not> (chr_code c \<le> 0x20 \<or> chr_code c = 0x7f \<or> c = CHR 0x5C)"

definition dot_segment :: "string \<Rightarrow> bool" where
  "dot_segment seg \<longleftrightarrow>
     (length seg = 1 \<and> char_at seg 0 = CHR ''.'') \<or>
     (length seg = 2 \<and> char_at seg 0 = CHR ''.'' \<and> char_at seg 1 = CHR ''.'')"

text \<open>The loop over the path: \<open>seg\<close> is the text from \<open>segment\<close> up to \<open>p\<close>. It leaves at the
  first query or fragment sign, or at the end of the string.\<close>

fun scan_path :: "string \<Rightarrow> string \<Rightarrow> bool" where
  "scan_path seg [] = (\<not> dot_segment seg)"
| "scan_path seg (c # cs) =
     (if c = CHR ''%'' then False
      else if c = CHR ''/'' \<or> c = CHR ''?'' \<or> c = CHR ''#'' then
        (if dot_segment seg then False
         else if c \<noteq> CHR ''/'' then True
         else scan_path [] cs)
      else scan_path (seg @ [c]) cs)"

definition controller_https_url_allowed :: "string option \<Rightarrow> string option \<Rightarrow> bool" where
  "controller_https_url_allowed url trusted_prefix =
     (case (url, trusted_prefix) of
        (Some u, Some p) \<Rightarrow>
          if length p \<le> length https_scheme \<or> \<not> has_prefix https_scheme p \<or>
             p ! (length p - 1) \<noteq> CHR ''/'' \<or> \<not> has_prefix p u
          then False
          else list_all url_char_allowed u \<and> scan_path [] (drop (length p) u)
      | _ \<Rightarrow> False)"

section \<open>Decimal fields against their value\<close>

fun dec_val_from :: "nat \<Rightarrow> string \<Rightarrow> nat" where
  "dec_val_from v [] = v"
| "dec_val_from v (c # cs) = dec_val_from (v * 10 + digit_val c) cs"

definition dec_val :: "string \<Rightarrow> nat" where
  "dec_val ds = dec_val_from 0 ds"

lemma dec_val_from_ge: "v \<le> dec_val_from v ds"
proof (induction ds arbitrary: v)
  case (Cons d ds)
  have "v \<le> v * 10 + digit_val d" by simp
  also have "\<dots> \<le> dec_val_from (v * 10 + digit_val d) ds" by (rule Cons.IH)
  finally show ?case by simp
qed simp

text \<open>The overflow guard of one step says exactly that the extended value exceeds the
  limit, and below it the 32-bit computation does not wrap.\<close>

lemma field_guard:
  fixes limit v d :: nat
  assumes "d \<le> 9"
  shows "(limit div 10 < v \<or> (v = limit div 10 \<and> limit mod 10 < d)) \<longleftrightarrow> limit < v * 10 + d"
proof -
  define q r where "q = limit div 10" and "r = limit mod 10"
  have "limit = q * 10 + r" and "r < 10" by (simp_all add: q_def r_def)
  then show ?thesis using assms unfolding q_def [symmetric] r_def [symmetric] by auto
qed

lemma field_guard_word:
  fixes v limit :: u32
  assumes "isdigit c"
  shows "(v > limit div 10 \<or> (v = limit div 10 \<and> (of_nat (digit_val c) :: u32) > limit mod 10))
         \<longleftrightarrow> unat limit < unat v * 10 + digit_val c"
proof -
  have "unat (of_nat (digit_val c) :: u32) = digit_val c"
    using digit_val_le [OF assms] by (simp add: unat_of_nat_small)
  then show ?thesis
    using field_guard [OF digit_val_le [OF assms], of "unat limit" "unat v"]
    by (simp add: word_less_nat_alt unat_div unat_mod word_unat_eq_iff)
qed

lemma field_step_unat:
  fixes v limit :: u32
  assumes "isdigit c" and "unat v * 10 + digit_val c \<le> unat limit"
  shows "unat (v * 10 + of_nat (digit_val c)) = unat v * 10 + digit_val c"
proof -
  have "unat v * 10 + digit_val c < 2 ^ LENGTH(32)"
    using assms(2) unat_less_width(3) [of limit] by simp
  then have "unat (of_nat (unat v * 10 + digit_val c) :: u32) = unat v * 10 + digit_val c"
    by (rule unat_of_nat_small)
  moreover have "of_nat (unat v * 10 + digit_val c) = (v * 10 + of_nat (digit_val c) :: u32)"
    by simp
  ultimately show ?thesis by (simp only:)
qed

lemma parse_digits_spec:
  "parse_digits limit v s =
     (let ds = takeWhile isdigit s
      in if ds = [] \<or> dec_val_from (unat v) ds \<le> unat limit
         then Some (of_nat (dec_val_from (unat v) ds), dropWhile isdigit s) else None)"
proof (induction limit v s rule: parse_digits.induct)
  case (1 limit v)
  then show ?case by simp
next
  case (2 limit v c cs)
  show ?case
  proof (cases "isdigit c")
    case False
    then show ?thesis by simp
  next
    case True
    let ?v = "unat v * 10 + digit_val c"
    show ?thesis
    proof (cases "unat limit < ?v")
      case True
      then have "unat limit < dec_val_from ?v (takeWhile isdigit cs)"
        using dec_val_from_ge [of ?v] by (meson order.strict_trans2)
      with True \<open>isdigit c\<close> show ?thesis
        using field_guard_word [OF \<open>isdigit c\<close>, of limit v] by (simp add: Let_def)
    next
      case False
      let ?w = "v * 10 + of_nat (digit_val c) :: u32"
      have w: "unat ?w = ?v"
        using False by (intro field_step_unat [OF \<open>isdigit c\<close>, of v limit]) simp
      have "parse_digits limit v (c # cs) = parse_digits limit ?w cs"
        using False field_guard_word [OF \<open>isdigit c\<close>, of limit v] \<open>isdigit c\<close>
        by (auto simp: Let_def)
      moreover have "takeWhile isdigit cs = [] \<Longrightarrow> ?v \<le> unat limit" using False by simp
      ultimately show ?thesis
        using "2.IH" [OF _ refl] \<open>isdigit c\<close> False field_guard_word [OF \<open>isdigit c\<close>, of limit v]
        by (auto simp: Let_def w)
    qed
  qed
qed

text \<open>The whole field: the maximal digit prefix, its value if it is within the limit, and
  the delimiter that must follow.\<close>

definition uint_field_spec :: "string \<Rightarrow> u32 \<Rightarrow> char \<Rightarrow> (nat \<times> string) option" where
  "uint_field_spec s limit delimiter =
     (let ds = takeWhile isdigit s; rest = dropWhile isdigit s
      in if ds = [] \<or> unat limit < dec_val ds \<or> char_at rest 0 \<noteq> delimiter then None
         else Some (dec_val ds, if delimiter = NUL then rest else tl rest))"

lemma isdigit_NUL [simp]: "\<not> isdigit NUL"
  by (simp add: isdigit_def chr_code_def)

lemma isdigit_char_at_0: "isdigit (char_at s 0) \<longleftrightarrow> takeWhile isdigit s \<noteq> []"
  by (cases s) (auto simp: char_at_def)

lemma dec_val_from_0 [simp]: "dec_val_from 0 ds = dec_val ds"
  by (simp add: dec_val_def)

lemma parse_uint_field_spec:
  "controller_parse_uint_field (Some s) limit delimiter =
     map_option (map_prod of_nat id) (uint_field_spec s limit delimiter)"
  by (auto simp: controller_parse_uint_field_def uint_field_spec_def isdigit_char_at_0
      parse_digits_spec Let_def)

lemma parse_uint_field_SomeD:
  assumes "controller_parse_uint_field (Some s) limit delimiter = Some (v, rest)"
  shows "unat v = dec_val (takeWhile isdigit s)" and "v \<le> limit"
proof -
  let ?n = "dec_val (takeWhile isdigit s)"
  from assms have v: "v = of_nat ?n" and le: "?n \<le> unat limit"
    by (auto simp: parse_uint_field_spec uint_field_spec_def Let_def split: if_splits)
  have "?n < 2 ^ LENGTH(32)" using le unat_less_width(3) [of limit] by simp
  with v show "unat v = ?n" by (simp add: unat_of_nat_small)
  with le show "v \<le> limit" by (simp add: word_le_nat_alt)
qed

lemma parse_uint_field_None [simp]: "controller_parse_uint_field None l d = None"
  by (simp add: controller_parse_uint_field_def)

lemma parse_percent_le:
  assumes "controller_parse_percent t = Some p"
  shows "p \<le> 100"
proof -
  from assms obtain s v r where f: "controller_parse_uint_field (Some s) 100 NUL = Some (v, r)"
    and p: "p = ucast v"
    by (cases t) (auto simp: controller_parse_percent_def split: option.splits)
  from f have "unat v \<le> 100" by (auto dest!: parse_uint_field_SomeD(2) simp: word_le_nat_alt)
  moreover from this have "unat p = unat v" unfolding p by (intro unat_ucast_small) simp
  ultimately show ?thesis by (simp add: word_le_nat_alt)
qed

section \<open>Percentages to throttle values\<close>

lemma effective_pct_le_100: "controller_effective_pct p m \<le> 100"
  by (auto simp: controller_effective_pct_def Let_def not_less)

lemma effective_pct_0_iff: "controller_effective_pct p m = 0 \<longleftrightarrow> p = 0"
  by (auto simp: controller_effective_pct_def Let_def not_less dest: order.antisym)

lemma pct_to_dshot_unat:
  "unat (controller_pct_to_dshot p m) =
     (if p = 0 then 0 else 48 + (unat (controller_effective_pct p m) * 1999) div 100)"
proof (cases "p = 0")
  case True
  then show ?thesis
    by (simp add: controller_pct_to_dshot_def effective_pct_0_iff Let_def)
next
  case False
  let ?e = "controller_effective_pct p m"
  have e: "unat ?e \<le> 100"
    using effective_pct_le_100 [of p m] by (simp add: word_le_nat_alt)
  have m: "unat (ucast ?e * (1999 :: u32)) = unat ?e * 1999"
    using e by (simp add: unat_word_ariths(2) unsigned_ucast_eq take_bit_nat_eq_self)
  have "unat ((48 :: u32) + ucast ?e * 1999 div 100) = 48 + unat ?e * 1999 div 100"
    using e by (simp add: unat_word_ariths(1) unat_div m)
  moreover have "48 + unat ?e * 1999 div 100 < 65536" using e by simp
  ultimately show ?thesis
    using False
    by (simp add: controller_pct_to_dshot_def effective_pct_0_iff Let_def
        unsigned_ucast_eq take_bit_nat_eq_self)
qed

lemma effective_pct_unat:
  "unat (controller_effective_pct p m) =
     (if p = 0 then 0 else max (min (unat p) 100) (min (unat m) 100))"
  by (auto simp: controller_effective_pct_def Let_def word_less_nat_alt max_def min_def)

lemma pct_to_dshot_0_iff: "controller_pct_to_dshot p m = 0 \<longleftrightarrow> p = 0"
  using pct_to_dshot_unat [of p m] by (auto simp: word_unat_eq_iff split: if_splits)

lemma pct_to_dshot_le: "controller_pct_to_dshot p m \<le> 2047"
proof -
  have "unat (controller_effective_pct p m) \<le> 100"
    using effective_pct_le_100 [of p m] by (simp add: word_le_nat_alt)
  then have "unat (controller_effective_pct p m) * 1999 div 100 \<le> 1999" by simp
  then show ?thesis by (simp add: word_le_nat_alt pct_to_dshot_unat)
qed

section \<open>URLs against their segments\<close>

definition url_path :: "string \<Rightarrow> string" where
  "url_path rest = takeWhile (\<lambda>c. c \<noteq> CHR ''?'' \<and> c \<noteq> CHR ''#'') rest"

text \<open>\<open>s\<close> is a path segment of \<open>p\<close>: it stands between two slashes or ends of \<open>p\<close>.\<close>

definition is_segment :: "string \<Rightarrow> string \<Rightarrow> bool" where
  "is_segment s p \<longleftrightarrow> CHR ''/'' \<notin> set s \<and>
     (\<exists>a b. p = a @ s @ b \<and> (a = [] \<or> last a = CHR ''/'') \<and> (b = [] \<or> hd b = CHR ''/''))"

fun segments_from :: "string \<Rightarrow> string \<Rightarrow> string list" where
  "segments_from seg [] = [seg]"
| "segments_from seg (c # cs) =
     (if c = CHR ''/'' then seg # segments_from [] cs else segments_from (seg @ [c]) cs)"

lemma scan_path_segments:
  "scan_path seg cs \<longleftrightarrow>
     CHR ''%'' \<notin> set (url_path cs) \<and> (\<forall>s \<in> set (segments_from seg (url_path cs)). \<not> dot_segment s)"
proof (induction seg cs rule: scan_path.induct)
  case (2 seg c cs)
  consider "c = CHR ''%''" | "c = CHR ''/''" | "c = CHR ''?''" | "c = CHR ''#''"
    | "c \<notin> {CHR ''%'', CHR ''/'', CHR ''?'', CHR ''#''}" by auto
  then show ?case
  proof cases
    case 5
    then have "c \<noteq> CHR ''%''" "c \<noteq> CHR ''/''" "c \<noteq> CHR ''?''" "c \<noteq> CHR ''#''" by simp_all
    moreover from this have "CHR ''%'' \<noteq> c" by metis
    ultimately show ?thesis using "2.IH" by (simp add: url_path_def)
  qed (use "2.IH" in \<open>simp_all add: url_path_def\<close>)
qed (simp add: url_path_def)

lemma is_segmentI:
  "\<lbrakk>CHR ''/'' \<notin> set s; a = [] \<or> last a = CHR ''/''; b = [] \<or> hd b = CHR ''/''\<rbrakk>
   \<Longrightarrow> is_segment s (a @ s @ b)"
  unfolding is_segment_def by blast

lemma is_segment_whole:
  "CHR ''/'' \<notin> set seg \<Longrightarrow> is_segment s seg \<longleftrightarrow> s = seg"
proof
  assume no: "CHR ''/'' \<notin> set seg" and "is_segment s seg"
  then obtain a b where "seg = a @ s @ b" "a = [] \<or> last a = CHR ''/''" "b = [] \<or> hd b = CHR ''/''"
    by (auto simp: is_segment_def)
  moreover from this no have "a = []" by (metis Un_iff last_in_set set_append)
  moreover from calculation no have "b = []" by (metis Un_iff hd_in_set set_append)
  ultimately show "s = seg" by simp
next
  assume "CHR ''/'' \<notin> set seg" and "s = seg"
  then show "is_segment s seg" using is_segmentI [of s "[]" "[]"] by simp
qed

lemma is_segment_slash:
  assumes no: "CHR ''/'' \<notin> set seg"
  shows "is_segment s (seg @ CHR ''/'' # cs) \<longleftrightarrow> s = seg \<or> is_segment s cs"
proof
  assume "is_segment s (seg @ CHR ''/'' # cs)"
  then obtain a b where s: "CHR ''/'' \<notin> set s" and eq: "seg @ CHR ''/'' # cs = a @ s @ b"
    and a: "a = [] \<or> last a = CHR ''/''" and b: "b = [] \<or> hd b = CHR ''/''"
    by (auto simp: is_segment_def)
  show "s = seg \<or> is_segment s cs"
  proof (cases a rule: rev_cases)
    case Nil
    have "takeWhile (\<lambda>c. c \<noteq> CHR ''/'') (seg @ CHR ''/'' # cs) = seg"
      using no by (subst takeWhile_append2) auto
    moreover have "takeWhile (\<lambda>c. c \<noteq> CHR ''/'') (s @ b) = s"
      using s b by (cases b; subst takeWhile_append2) auto
    ultimately show ?thesis using eq Nil by simp
  next
    case (snoc a' c)
    with a have c: "c = CHR ''/''" by simp
    from eq snoc c have "seg @ CHR ''/'' # cs = a' @ CHR ''/'' # (s @ b)" by simp
    then obtain us where "(seg = a' @ us \<and> us @ CHR ''/'' # cs = CHR ''/'' # (s @ b)) \<or>
        (seg @ us = a' \<and> CHR ''/'' # cs = us @ CHR ''/'' # (s @ b))"
      unfolding append_eq_append_conv2 by blast
    with no consider "seg = a'" "cs = s @ b"
      | us where "a' = seg @ CHR ''/'' # us" "cs = us @ CHR ''/'' # s @ b"
      by (cases us) auto
    then show ?thesis
    proof cases
      case 1
      with s b show ?thesis using is_segmentI [of s "[]" b] by simp
    next
      case 2
      then have "cs = (us @ [CHR ''/'']) @ s @ b" by simp
      with s b show ?thesis using is_segmentI [of s "us @ [CHR ''/'']" b] by simp
    qed
  qed
next
  assume "s = seg \<or> is_segment s cs"
  then show "is_segment s (seg @ CHR ''/'' # cs)"
  proof
    assume "s = seg"
    with no show ?thesis using is_segmentI [of s "[]" "CHR ''/'' # cs"] by simp
  next
    assume "is_segment s cs"
    then obtain a b where "CHR ''/'' \<notin> set s" "cs = a @ s @ b"
      "a = [] \<or> last a = CHR ''/''" "b = [] \<or> hd b = CHR ''/''"
      by (auto simp: is_segment_def)
    then show ?thesis using is_segmentI [of s "seg @ CHR ''/'' # a" b] by auto
  qed
qed

lemma set_segments_from:
  "CHR ''/'' \<notin> set seg \<Longrightarrow> set (segments_from seg p) = {s. is_segment s (seg @ p)}"
proof (induction seg p rule: segments_from.induct)
  case (1 seg)
  then show ?case by (auto simp: is_segment_whole)
next
  case (2 seg c cs)
  then show ?case by (cases "c = CHR ''/''") (auto simp: is_segment_slash)
qed

lemma dot_segment_iff: "dot_segment s \<longleftrightarrow> s = ''.'' \<or> s = ''..''"
  by (cases s rule: remdups_adj.cases) (auto simp: dot_segment_def char_at_def)

section \<open>Printed numbers\<close>

text \<open>\<open>printf("%d")\<close> of a non-negative number.\<close>

fun nat_str :: "nat \<Rightarrow> string" where
  "nat_str n = (if n < 10 then [''0123456789'' ! n]
                else nat_str (n div 10) @ [''0123456789'' ! (n mod 10)])"

declare nat_str.simps [simp del]

lemma digit_char:
  assumes "n < 10"
  shows "isdigit (''0123456789'' ! n)" and "digit_val (''0123456789'' ! n) = n"
    and "''0123456789'' ! n \<noteq> NUL"
proof -
  from assms have "n \<in> {0, 1, 2, 3, 4, 5, 6, 7, 8, 9}" by auto
  then show "isdigit (''0123456789'' ! n)" "digit_val (''0123456789'' ! n) = n"
    "''0123456789'' ! n \<noteq> NUL"
    by (auto simp: isdigit_def digit_val_def chr_code_def)
qed

lemma dec_val_snoc: "dec_val_from v (ds @ [d]) = dec_val_from v ds * 10 + digit_val d"
  by (induction ds arbitrary: v) auto

lemma dec_val_single: "dec_val [d] = digit_val d"
  and dec_val_append_digit: "dec_val (ds @ [d]) = dec_val ds * 10 + digit_val d"
  by (simp_all only: dec_val_def dec_val_snoc dec_val_from.simps)

lemma nat_str_digits: "\<forall>c \<in> set (nat_str n). isdigit c"
  by (induction n rule: nat_str.induct) (subst nat_str.simps, auto simp: digit_char)

lemma nat_str_val: "dec_val (nat_str n) = n"
  by (induction n rule: nat_str.induct)
    (subst nat_str.simps, auto simp: digit_char dec_val_single dec_val_append_digit)

lemma nat_str_not_Nil [simp]: "nat_str n \<noteq> []"
  by (subst nat_str.simps) simp

lemma isdigit_not_space: "isdigit c \<Longrightarrow> \<not> isspace c \<and> c \<noteq> CHR ''-'' \<and> c \<noteq> CHR ''+''"
  by (auto simp: isdigit_def isspace_def chr_code_def)

lemma takeWhile_nat_str:
  assumes "\<not> isdigit (char_at rest 0)"
  shows "takeWhile isdigit (nat_str n @ rest) = nat_str n"
    and "dropWhile isdigit (nat_str n @ rest) = rest"
proof -
  have "takeWhile isdigit rest = [] \<and> dropWhile isdigit rest = rest"
    using assms by (cases rest) (auto simp: char_at_def)
  then show "takeWhile isdigit (nat_str n @ rest) = nat_str n" "dropWhile isdigit (nat_str n @ rest) = rest"
    using nat_str_digits [of n] by (auto simp: takeWhile_append2 dropWhile_append2)
qed

section \<open>Properties\<close>

text \<open>The bounded decimal parser accepts exactly a non-empty run of digits whose decimal
  value is within the limit and which is followed by the delimiter (the end of the string
  for a zero delimiter). The 32-bit accumulator never wraps: the result is the true value
  of the whole run, and the cursor stands right after the delimiter.\<close>

theorem uint_field_exact:
  "controller_parse_uint_field (Some s) limit delimiter = Some (v, rest) \<longleftrightarrow>
     takeWhile isdigit s \<noteq> [] \<and>
     unat v = dec_val (takeWhile isdigit s) \<and> dec_val (takeWhile isdigit s) \<le> unat limit \<and>
     char_at (dropWhile isdigit s) 0 = delimiter \<and>
     rest = drop (if delimiter = NUL then 0 else 1) (dropWhile isdigit s)"
proof
  assume p: "controller_parse_uint_field (Some s) limit delimiter = Some (v, rest)"
  then show "takeWhile isdigit s \<noteq> [] \<and>
     unat v = dec_val (takeWhile isdigit s) \<and> dec_val (takeWhile isdigit s) \<le> unat limit \<and>
     char_at (dropWhile isdigit s) 0 = delimiter \<and>
     rest = drop (if delimiter = NUL then 0 else 1) (dropWhile isdigit s)"
    using parse_uint_field_SomeD(1) [OF p]
    by (auto simp: parse_uint_field_spec uint_field_spec_def Let_def drop_Suc split: if_splits)
next
  assume r: "takeWhile isdigit s \<noteq> [] \<and>
     unat v = dec_val (takeWhile isdigit s) \<and> dec_val (takeWhile isdigit s) \<le> unat limit \<and>
     char_at (dropWhile isdigit s) 0 = delimiter \<and>
     rest = drop (if delimiter = NUL then 0 else 1) (dropWhile isdigit s)"
  then have "of_nat (dec_val (takeWhile isdigit s)) = v" by (metis unat_of_nat_self)
  with r show "controller_parse_uint_field (Some s) limit delimiter = Some (v, rest)"
    by (auto simp: parse_uint_field_spec uint_field_spec_def Let_def drop_Suc)
qed

text \<open>Every percentage, in range or not, maps to a throttle the DShot protocol reads as a
  speed: zero exactly for zero, never one of the reserved commands 1 to 47, never above
  2047, at least the value of the minimum spin percentage once it is not zero, and monotone
  in the requested percentage.\<close>

theorem pct_to_dshot_safe:
  "(controller_pct_to_dshot p m = 0 \<longleftrightarrow> p = 0) \<and>
   (controller_pct_to_dshot p m = 0 \<or> 48 \<le> controller_pct_to_dshot p m) \<and>
   controller_pct_to_dshot p m \<le> 2047 \<and>
   (controller_pct_to_dshot p m = 0 \<or> controller_pct_to_dshot m m \<le> controller_pct_to_dshot p m) \<and>
   (p \<le> q \<longrightarrow> controller_pct_to_dshot p m \<le> controller_pct_to_dshot q m)"
proof (intro conjI impI)
  have mono: "unat (controller_effective_pct p m) * 1999 div 100
                \<le> unat (controller_effective_pct q m) * 1999 div 100"
    if "p \<le> q" "p \<noteq> 0"
    using that by (intro div_le_mono mult_le_mono1)
      (auto simp: effective_pct_unat word_le_nat_alt word_unat_eq_iff)
  assume "p \<le> q"
  then show "controller_pct_to_dshot p m \<le> controller_pct_to_dshot q m"
    using mono by (auto simp: word_le_nat_alt pct_to_dshot_unat word_unat_eq_iff)
next
  have "unat (controller_effective_pct m m) * 1999 div 100
          \<le> unat (controller_effective_pct p m) * 1999 div 100" if "p \<noteq> 0"
    using that by (intro div_le_mono mult_le_mono1) (auto simp: effective_pct_unat)
  then show "controller_pct_to_dshot p m = 0 \<or> controller_pct_to_dshot m m \<le> controller_pct_to_dshot p m"
    by (auto simp: pct_to_dshot_0_iff word_le_nat_alt pct_to_dshot_unat)
next
  show "controller_pct_to_dshot p m = 0 \<or> 48 \<le> controller_pct_to_dshot p m"
    by (auto simp: pct_to_dshot_0_iff word_le_nat_alt pct_to_dshot_unat)
qed (simp_all add: pct_to_dshot_0_iff pct_to_dshot_le)

theorem pct_to_dshot_safe_witness:
  "controller_pct_to_dshot 3 15 = 347 \<and> controller_pct_to_dshot 3 15 \<le> controller_pct_to_dshot 100 15"
  using pct_to_dshot_safe [of 3 15 100]
  by (simp add: controller_pct_to_dshot_def controller_effective_pct_def)

text \<open>The OTA allow list admits exactly the URLs that extend a trusted prefix
  (\<open>https://\<close> and more, ending in a slash), hold no control character, space, DEL or
  backslash, and whose path after the prefix, up to a query or fragment, holds no percent
  sign and has no segment \<open>.\<close> or \<open>..\<close>: no such URL can leave the trusted prefix.\<close>

theorem https_url_allowed_iff:
  "controller_https_url_allowed (Some u) (Some p) \<longleftrightarrow>
     has_prefix ''https://'' p \<and> 8 < length p \<and> last p = CHR ''/'' \<and> has_prefix p u \<and>
     list_all url_char_allowed u \<and>
     CHR ''%'' \<notin> set (url_path (drop (length p) u)) \<and>
     \<not> is_segment ''.'' (url_path (drop (length p) u)) \<and>
     \<not> is_segment ''..'' (url_path (drop (length p) u))"
proof -
  have "scan_path [] r \<longleftrightarrow> CHR ''%'' \<notin> set (url_path r) \<and>
      \<not> is_segment ''.'' (url_path r) \<and> \<not> is_segment ''..'' (url_path r)" for r
    using set_segments_from [of "[]" "url_path r"]
    by (auto simp: scan_path_segments dot_segment_iff)
  moreover have "p \<noteq> [] \<Longrightarrow> last p = p ! (length p - 1)" by (rule last_conv_nth)
  ultimately show ?thesis
    by (cases "p = []") (auto simp: controller_https_url_allowed_def https_scheme_def has_prefix_def)
qed

end
