(* ===== verification/Command_Router.thy ===== *)
theory Command_Router imports Controller_Policy
begin

text \<open>
  \<open>main/command_router.c\<close>: the parser that turns one MQTT message into a validated command
  without side effects. Topic and payload are byte buffers with explicit lengths; the C
  strings it copies them to are lists. Every \<open>parse_\<close> function returns its result code and
  the command it was filling; the union of argument values is a datatype.
\<close>

section \<open>Data\<close>

definition COMMAND_ROUTER_TOPIC_CAPACITY :: nat where
  "COMMAND_ROUTER_TOPIC_CAPACITY = 192"

definition COMMAND_ROUTER_PAYLOAD_CAPACITY :: nat where
  "COMMAND_ROUTER_PAYLOAD_CAPACITY = 768"

definition MAX_SCHEDULE_MINUTES :: u32 where
  "MAX_SCHEDULE_MINUTES = 525600"

definition ROUTER_INT_MAX :: int where
  "ROUTER_INT_MAX = 2147483647"

datatype command_router_result =
    COMMAND_ROUTER_ACCEPTED
  | COMMAND_ROUTER_NO_MATCH
  | COMMAND_ROUTER_REJECTED_RETAINED
  | COMMAND_ROUTER_REJECTED_MALFORMED
  | COMMAND_ROUTER_REJECTED_OUT_OF_RANGE
  | COMMAND_ROUTER_REJECTED_FEATURE_DISABLED
  | COMMAND_ROUTER_REJECTED_TOO_LARGE
  | COMMAND_ROUTER_INVALID_ARGUMENT
  | COMMAND_ROUTER_INVALID_CONFIG

datatype command_router_command_type =
    COMMAND_ROUTER_COMMAND_NONE
  | COMMAND_ROUTER_COMMAND_MANUAL_ON
  | COMMAND_ROUTER_COMMAND_MANUAL_OFF
  | COMMAND_ROUTER_COMMAND_MANUAL_PERCENTAGE
  | COMMAND_ROUTER_COMMAND_TACH_CLEAR
  | COMMAND_ROUTER_COMMAND_SCHEDULE_OVERRIDE
  | COMMAND_ROUTER_COMMAND_SCHEDULE_SET
  | COMMAND_ROUTER_COMMAND_SCHEDULE_DISABLE
  | COMMAND_ROUTER_COMMAND_SCHEDULE_GET
  | COMMAND_ROUTER_COMMAND_OTA_UPDATE

record command_router_config =
  node_base_prefix :: "string option"
  legacy_base_prefix :: "string option"
  rc_fan_index_start :: int
  rc_fan_count :: int
  schedule_slot_count :: u32
  tach_enabled :: bool
  schedule_enabled :: bool
  ota_enabled :: bool
  legacy_enabled :: bool
  ota_allowed_url_prefix :: "string option"

datatype command_value =
    No_Value
  | Percentage u8
  | Schedule_Override bool
  | Schedule_Set (interval_min: u32) (duration_min: u32) (target_pct: u8)
  | Ota_Update (url: string) (url_length: nat)

record command_router_command =
  cmd_type :: command_router_command_type
  fan_local_index :: int
  fan_index :: int
  schedule_slot :: u32
  from_legacy_topic :: bool
  cmd_value :: command_value

section \<open>Configuration\<close>

definition prefix_valid :: "string option \<Rightarrow> bool" where
  "prefix_valid prefix =
     (case prefix of None \<Rightarrow> False
      | Some p \<Rightarrow> p \<noteq> [] \<and> length p < COMMAND_ROUTER_TOPIC_CAPACITY \<and> p ! (length p - 1) \<noteq> CHR ''/'')"

definition core_config_valid :: "command_router_config option \<Rightarrow> bool" where
  "core_config_valid config =
     (case config of None \<Rightarrow> False
      | Some c \<Rightarrow>
          if \<not> prefix_valid (node_base_prefix c) \<or> rc_fan_count c < 1 \<or> rc_fan_index_start c < 1 \<or>
             rc_fan_index_start c > ROUTER_INT_MAX - (rc_fan_count c - 1) then False
          else if legacy_enabled c \<and> (\<not> prefix_valid (legacy_base_prefix c) \<or>
             the (legacy_base_prefix c) = the (node_base_prefix c)) then False
          else True)"

definition relative_topic :: "string \<Rightarrow> string \<Rightarrow> string option" where
  "relative_topic topic prefix =
     (if \<not> has_prefix prefix topic \<or> char_at topic (length prefix) \<noteq> CHR ''/'' then None
      else Some (drop (length prefix + 1) topic))"

definition reject_retained :: "bool \<Rightarrow> command_router_result" where
  "reject_retained retained =
     (if retained then COMMAND_ROUTER_REJECTED_RETAINED else COMMAND_ROUTER_ACCEPTED)"

definition assign_fan ::
  "command_router_config \<Rightarrow> u32 \<Rightarrow> command_router_command
   \<Rightarrow> command_router_result \<times> command_router_command" where
  "assign_fan config fan_value command =
     (let first = (of_int (rc_fan_index_start config) :: u32);
          last = first + of_int (rc_fan_count config) - 1
      in if fan_value < first \<or> fan_value > last then (COMMAND_ROUTER_REJECTED_OUT_OF_RANGE, command)
         else (COMMAND_ROUTER_ACCEPTED,
               command\<lparr>fan_index := uint fan_value, fan_local_index := uint (fan_value - first)\<rparr>))"

section \<open>Commands\<close>

definition parse_fan_command ::
  "command_router_config \<Rightarrow> string \<Rightarrow> string \<Rightarrow> bool \<Rightarrow> bool \<Rightarrow> command_router_command
   \<Rightarrow> command_router_result \<times> command_router_command" where
  "parse_fan_command config relative payload retained legacy command =
     (if \<not> has_prefix ''fan'' relative then (COMMAND_ROUTER_NO_MATCH, command)
      else let cursor = drop 3 relative
      in if char_at cursor 0 = CHR ''0'' \<and> isdigit (char_at cursor 1)
         then (COMMAND_ROUTER_REJECTED_MALFORMED, command)
      else case controller_parse_uint_field (Some cursor) (of_int ROUTER_INT_MAX) (CHR ''/'') of
        None \<Rightarrow> (COMMAND_ROUTER_REJECTED_MALFORMED, command)
      | Some (fan_value, cursor) \<Rightarrow>
        (case assign_fan config fan_value command of (fan_result, command) \<Rightarrow>
          if fan_result \<noteq> COMMAND_ROUTER_ACCEPTED then (fan_result, command)
          else if cursor = ''set'' then
            (if reject_retained retained \<noteq> COMMAND_ROUTER_ACCEPTED
             then (reject_retained retained, command)
             else if payload = ''ON''
             then (COMMAND_ROUTER_ACCEPTED, command\<lparr>cmd_type := COMMAND_ROUTER_COMMAND_MANUAL_ON\<rparr>)
             else if payload = ''OFF''
             then (COMMAND_ROUTER_ACCEPTED, command\<lparr>cmd_type := COMMAND_ROUTER_COMMAND_MANUAL_OFF\<rparr>)
             else (COMMAND_ROUTER_REJECTED_MALFORMED, command))
          else if cursor = ''percentage/set'' then
            (if reject_retained retained \<noteq> COMMAND_ROUTER_ACCEPTED
             then (reject_retained retained, command)
             else case controller_parse_percent (Some payload) of
               None \<Rightarrow> (COMMAND_ROUTER_REJECTED_MALFORMED, command)
             | Some percentage \<Rightarrow>
                (COMMAND_ROUTER_ACCEPTED,
                 command\<lparr>cmd_type := COMMAND_ROUTER_COMMAND_MANUAL_PERCENTAGE,
                         cmd_value := Percentage percentage\<rparr>))
          else if \<not> legacy \<and> cursor = ''alarm/clear'' then
            (if \<not> tach_enabled config then (COMMAND_ROUTER_REJECTED_FEATURE_DISABLED, command)
             else if reject_retained retained \<noteq> COMMAND_ROUTER_ACCEPTED
             then (reject_retained retained, command)
             else if payload \<noteq> ''CLEAR'' then (COMMAND_ROUTER_REJECTED_MALFORMED, command)
             else (COMMAND_ROUTER_ACCEPTED, command\<lparr>cmd_type := COMMAND_ROUTER_COMMAND_TACH_CLEAR\<rparr>))
          else (COMMAND_ROUTER_NO_MATCH, command)))"

definition parse_schedule_payload :: "string \<Rightarrow> (u32 \<times> u32 \<times> u8) option" where
  "parse_schedule_payload payload =
     (case controller_parse_uint_field (Some payload) MAX_SCHEDULE_MINUTES (CHR '','') of
        None \<Rightarrow> None
      | Some (parsed_interval, c1) \<Rightarrow>
        if parsed_interval < 1 then None
        else (case controller_parse_uint_field (Some c1) MAX_SCHEDULE_MINUTES (CHR '','') of
           None \<Rightarrow> None
         | Some (parsed_duration, c2) \<Rightarrow>
           if parsed_duration < 1 then None
           else (case controller_parse_uint_field (Some c2) 100 NUL of
              None \<Rightarrow> None
            | Some (parsed_target, _) \<Rightarrow>
              if parsed_duration > parsed_interval then None
              else Some (parsed_interval, parsed_duration, ucast parsed_target))))"

definition parse_schedule_command ::
  "command_router_config \<Rightarrow> string \<Rightarrow> string \<Rightarrow> bool \<Rightarrow> command_router_command
   \<Rightarrow> command_router_result \<times> command_router_command" where
  "parse_schedule_command config relative payload retained command =
     (if \<not> has_prefix ''schedule/'' relative then (COMMAND_ROUTER_NO_MATCH, command)
      else if \<not> schedule_enabled config then (COMMAND_ROUTER_REJECTED_FEATURE_DISABLED, command)
      else if schedule_slot_count config = 0 \<or> schedule_slot_count config > of_int ROUTER_INT_MAX
      then (COMMAND_ROUTER_INVALID_CONFIG, command)
      else let cursor = drop 9 relative
      in if cursor = ''override'' then
           (if reject_retained retained \<noteq> COMMAND_ROUTER_ACCEPTED
            then (reject_retained retained, command)
            else case controller_parse_uint_field (Some payload) 1 NUL of
              None \<Rightarrow> (COMMAND_ROUTER_REJECTED_MALFORMED, command)
            | Some (v, _) \<Rightarrow>
               (COMMAND_ROUTER_ACCEPTED,
                command\<lparr>cmd_type := COMMAND_ROUTER_COMMAND_SCHEDULE_OVERRIDE,
                        cmd_value := Schedule_Override (v \<noteq> 0)\<rparr>))
         else case controller_parse_uint_field (Some cursor) (of_int ROUTER_INT_MAX) (CHR ''/'') of
           None \<Rightarrow> (COMMAND_ROUTER_REJECTED_MALFORMED, command)
         | Some (fan_value, cursor) \<Rightarrow>
         (case controller_parse_uint_field (Some cursor) (of_int ROUTER_INT_MAX) (CHR ''/'') of
           None \<Rightarrow> (COMMAND_ROUTER_REJECTED_MALFORMED, command)
         | Some (slot_value, cursor) \<Rightarrow>
         (case assign_fan config fan_value command of (fan_result, command) \<Rightarrow>
          if fan_result \<noteq> COMMAND_ROUTER_ACCEPTED then (fan_result, command)
          else if slot_value \<ge> schedule_slot_count config
          then (COMMAND_ROUTER_REJECTED_OUT_OF_RANGE, command)
          else let command = command\<lparr>schedule_slot := slot_value\<rparr>
          in if cursor = ''set'' then
               (if reject_retained retained \<noteq> COMMAND_ROUTER_ACCEPTED
                then (reject_retained retained, command)
                else case parse_schedule_payload payload of
                  None \<Rightarrow> (COMMAND_ROUTER_REJECTED_MALFORMED, command)
                | Some (interval, duration, target) \<Rightarrow>
                   (COMMAND_ROUTER_ACCEPTED,
                    command\<lparr>cmd_type := COMMAND_ROUTER_COMMAND_SCHEDULE_SET,
                            cmd_value := Schedule_Set interval duration target\<rparr>))
             else if cursor = ''disable'' \<or> cursor = ''get'' then
               (if reject_retained retained \<noteq> COMMAND_ROUTER_ACCEPTED
                then (reject_retained retained, command)
                else (COMMAND_ROUTER_ACCEPTED,
                  command\<lparr>cmd_type := (if cursor = ''disable''
                    then COMMAND_ROUTER_COMMAND_SCHEDULE_DISABLE
                    else COMMAND_ROUTER_COMMAND_SCHEDULE_GET)\<rparr>))
             else (COMMAND_ROUTER_NO_MATCH, command))))"

definition parse_ota_command ::
  "command_router_config \<Rightarrow> string \<Rightarrow> string \<Rightarrow> nat \<Rightarrow> bool \<Rightarrow> bool \<Rightarrow> command_router_command
   \<Rightarrow> command_router_result \<times> command_router_command" where
  "parse_ota_command config relative payload payload_len retained legacy command =
     (if relative \<noteq> ''ota/update'' \<or> legacy then (COMMAND_ROUTER_NO_MATCH, command)
      else if \<not> ota_enabled config then (COMMAND_ROUTER_REJECTED_FEATURE_DISABLED, command)
      else if reject_retained retained \<noteq> COMMAND_ROUTER_ACCEPTED
      then (reject_retained retained, command)
      else if ota_allowed_url_prefix config = None \<or>
         \<not> controller_https_url_allowed (Some payload) (ota_allowed_url_prefix config)
      then (COMMAND_ROUTER_REJECTED_MALFORMED, command)
      else (COMMAND_ROUTER_ACCEPTED,
            command\<lparr>cmd_type := COMMAND_ROUTER_COMMAND_OTA_UPDATE,
                    cmd_value := Ota_Update payload payload_len\<rparr>))"

definition empty_command :: command_router_command where
  "empty_command = \<lparr>cmd_type = COMMAND_ROUTER_COMMAND_NONE, fan_local_index = -1, fan_index = 0,
     schedule_slot = 0, from_legacy_topic = False, cmd_value = No_Value\<rparr>"

text \<open>The end of the function: the topic below its prefix through the three sub-parsers.\<close>

definition route_relative ::
  "command_router_config \<Rightarrow> string \<Rightarrow> string \<Rightarrow> nat \<Rightarrow> bool \<Rightarrow> bool
   \<Rightarrow> command_router_result \<times> command_router_command" where
  "route_relative cfg relative payload payload_len retained legacy =
     (let command = empty_command\<lparr>from_legacy_topic := legacy\<rparr>;
          (r1, c1) = parse_fan_command cfg relative payload retained legacy command;
          (r2, c2) = (if r1 = COMMAND_ROUTER_NO_MATCH
            then parse_schedule_command cfg relative payload retained c1 else (r1, c1));
          (r3, c3) = (if r2 = COMMAND_ROUTER_NO_MATCH
            then parse_ota_command cfg relative payload payload_len retained legacy c2 else (r2, c2))
      in if r3 = COMMAND_ROUTER_ACCEPTED then (r3, c3) else (r3, empty_command))"

text \<open>The result and \<open>*out_command\<close> (never \<open>NULL\<close> here). A buffer holds at least the
  number of bytes its length says.\<close>

definition command_router_parse ::
  "command_router_config option \<Rightarrow> string option \<Rightarrow> nat \<Rightarrow> string option \<Rightarrow> nat \<Rightarrow> bool
   \<Rightarrow> command_router_result \<times> command_router_command" where
  "command_router_parse config topic topic_len payload_bytes payload_len retained =
     (case (config, topic) of (Some cfg, Some t) \<Rightarrow>
        if payload_bytes = None \<and> payload_len \<noteq> 0 then (COMMAND_ROUTER_INVALID_ARGUMENT, empty_command)
        else if \<not> core_config_valid config then (COMMAND_ROUTER_INVALID_CONFIG, empty_command)
        else if topic_len = 0 then (COMMAND_ROUTER_REJECTED_MALFORMED, empty_command)
        else if topic_len \<ge> COMMAND_ROUTER_TOPIC_CAPACITY \<or>
           payload_len \<ge> COMMAND_ROUTER_PAYLOAD_CAPACITY
        then (COMMAND_ROUTER_REJECTED_TOO_LARGE, empty_command)
        else let topic_text = take topic_len t;
                 payload = (case payload_bytes of None \<Rightarrow> [] | Some b \<Rightarrow> take payload_len b)
        in if NUL \<in> set topic_text \<or> NUL \<in> set payload
           then (COMMAND_ROUTER_REJECTED_MALFORMED, empty_command)
        else if retained then (COMMAND_ROUTER_REJECTED_RETAINED, empty_command)
        else let node_relative = relative_topic topic_text (the (node_base_prefix cfg));
                 legacy_relative = (if node_relative = None \<and> legacy_enabled cfg
                   then relative_topic topic_text (the (legacy_base_prefix cfg)) else None);
                 legacy = (legacy_relative \<noteq> None)
        in (case (if legacy then legacy_relative else node_relative) of
              None \<Rightarrow> (COMMAND_ROUTER_NO_MATCH, empty_command)
            | Some relative \<Rightarrow>
              if relative = [] then (COMMAND_ROUTER_NO_MATCH, empty_command)
              else route_relative cfg relative payload payload_len retained legacy)
      | _ \<Rightarrow> (COMMAND_ROUTER_INVALID_ARGUMENT, empty_command))"


section \<open>What the sub-parsers accept\<close>

definition fan_in_range :: "command_router_config \<Rightarrow> command_router_command \<Rightarrow> bool" where
  "fan_in_range cfg c \<longleftrightarrow> 0 \<le> fan_local_index c \<and> fan_local_index c < rc_fan_count cfg \<and>
     fan_index c = rc_fan_index_start cfg + fan_local_index c"

text \<open>The ranges of an accepted command's arguments.\<close>

definition command_ok :: "command_router_config \<Rightarrow> command_router_command \<Rightarrow> bool" where
  "command_ok cfg c \<longleftrightarrow>
     (case cmd_type c of
        COMMAND_ROUTER_COMMAND_NONE \<Rightarrow> False
      | COMMAND_ROUTER_COMMAND_MANUAL_ON \<Rightarrow> fan_in_range cfg c
      | COMMAND_ROUTER_COMMAND_MANUAL_OFF \<Rightarrow> fan_in_range cfg c
      | COMMAND_ROUTER_COMMAND_MANUAL_PERCENTAGE \<Rightarrow>
          fan_in_range cfg c \<and> (\<exists>p. cmd_value c = Percentage p \<and> p \<le> 100)
      | COMMAND_ROUTER_COMMAND_TACH_CLEAR \<Rightarrow>
          fan_in_range cfg c \<and> tach_enabled cfg \<and> \<not> from_legacy_topic c
      | COMMAND_ROUTER_COMMAND_SCHEDULE_OVERRIDE \<Rightarrow>
          schedule_enabled cfg \<and> (\<exists>b. cmd_value c = Schedule_Override b)
      | COMMAND_ROUTER_COMMAND_SCHEDULE_SET \<Rightarrow>
          schedule_enabled cfg \<and> fan_in_range cfg c \<and> schedule_slot c < schedule_slot_count cfg \<and>
          (\<exists>i d t. cmd_value c = Schedule_Set i d t \<and> 1 \<le> d \<and> d \<le> i \<and> i \<le> 525600 \<and> t \<le> 100)
      | COMMAND_ROUTER_COMMAND_SCHEDULE_DISABLE \<Rightarrow>
          schedule_enabled cfg \<and> fan_in_range cfg c \<and> schedule_slot c < schedule_slot_count cfg
      | COMMAND_ROUTER_COMMAND_SCHEDULE_GET \<Rightarrow>
          schedule_enabled cfg \<and> fan_in_range cfg c \<and> schedule_slot c < schedule_slot_count cfg
      | COMMAND_ROUTER_COMMAND_OTA_UPDATE \<Rightarrow>
          ota_enabled cfg \<and> \<not> from_legacy_topic c \<and>
          (\<exists>u. cmd_value c = Ota_Update u (length u) \<and>
             controller_https_url_allowed (Some u) (ota_allowed_url_prefix cfg)))"

lemma u32_of_small_int:
  assumes "0 \<le> k" and "k \<le> 2147483647"
  shows "uint (of_int k :: u32) = k"
  using assms by (simp add: unsigned_of_int take_bit_int_eq_self)

lemma core_config_fan_range:
  assumes "core_config_valid (Some cfg)"
  shows "1 \<le> rc_fan_count cfg" and "1 \<le> rc_fan_index_start cfg"
    and "rc_fan_index_start cfg + rc_fan_count cfg - 1 \<le> 2147483647"
  using assms by (auto simp: core_config_valid_def ROUTER_INT_MAX_def split: if_splits)

lemma assign_fan_cases:
  assumes "core_config_valid (Some cfg)"
  shows "assign_fan cfg v c =
    (if rc_fan_index_start cfg \<le> uint v \<and> uint v < rc_fan_index_start cfg + rc_fan_count cfg
     then (COMMAND_ROUTER_ACCEPTED,
           c\<lparr>fan_index := uint v, fan_local_index := uint v - rc_fan_index_start cfg\<rparr>)
     else (COMMAND_ROUTER_REJECTED_OUT_OF_RANGE, c))"
proof -
  note R = core_config_fan_range [OF assms]
  let ?first = "of_int (rc_fan_index_start cfg) :: u32"
  let ?last = "?first + of_int (rc_fan_count cfg) - 1"
  have first: "uint ?first = rc_fan_index_start cfg" using R by (intro u32_of_small_int) simp_all
  have "?last = of_int (rc_fan_index_start cfg + rc_fan_count cfg - 1)" by simp
  then have last: "uint ?last = rc_fan_index_start cfg + rc_fan_count cfg - 1"
    using R u32_of_small_int [of "rc_fan_index_start cfg + rc_fan_count cfg - 1"] by simp
  have "v < ?first \<longleftrightarrow> uint v < rc_fan_index_start cfg"
    "v > ?last \<longleftrightarrow> uint v > rc_fan_index_start cfg + rc_fan_count cfg - 1"
    by (simp_all only: word_less_def first last)
  moreover have "uint (v - ?first) = uint v - rc_fan_index_start cfg"
    if "rc_fan_index_start cfg \<le> uint v"
    using that first by (simp add: word_le_def uint_sub_if' del: of_int_eq_iff)
  ultimately show ?thesis by (auto simp: assign_fan_def Let_def)
qed

lemma assign_fan_acceptedD:
  assumes "core_config_valid (Some cfg)" and "assign_fan cfg v c = (COMMAND_ROUTER_ACCEPTED, c')"
  shows "fan_in_range cfg c'" and "\<exists>i l. c' = c\<lparr>fan_index := i, fan_local_index := l\<rparr>"
  using assms(2) by (auto simp: assign_fan_cases [OF assms(1)] fan_in_range_def split: if_splits)

lemma assign_fan_rejectedD:
  "assign_fan cfg v c = (r, c') \<Longrightarrow> r = COMMAND_ROUTER_ACCEPTED \<or>
     (r = COMMAND_ROUTER_REJECTED_OUT_OF_RANGE \<and> c' = c)"
  by (auto simp: assign_fan_def Let_def split: if_splits)

lemma fan_in_range_update [simp]:
  "fan_in_range cfg (c\<lparr>cmd_type := t\<rparr>) = fan_in_range cfg c"
  "fan_in_range cfg (c\<lparr>cmd_value := v\<rparr>) = fan_in_range cfg c"
  "fan_in_range cfg (c\<lparr>schedule_slot := k\<rparr>) = fan_in_range cfg c"
  by (simp_all add: fan_in_range_def)

lemma parse_schedule_payload_SomeD:
  assumes "parse_schedule_payload s = Some (i, d, t)"
  shows "1 \<le> d \<and> d \<le> i \<and> i \<le> 525600 \<and> t \<le> 100"
proof -
  from assms obtain c1 c2 r t0 where f:
      "controller_parse_uint_field (Some s) MAX_SCHEDULE_MINUTES (CHR '','') = Some (i, c1)"
      "controller_parse_uint_field (Some c2) 100 NUL = Some (t0, r)" "\<not> d < 1" "\<not> d > i" "t = ucast t0"
    by (auto simp: parse_schedule_payload_def split: option.splits prod.splits if_splits)
  have "t0 \<le> 100" "i \<le> 525600"
    using parse_uint_field_SomeD(2) [OF f(1)] parse_uint_field_SomeD(2) [OF f(2)]
    by (simp_all add: MAX_SCHEDULE_MINUTES_def)
  moreover from this have "unat (ucast t0 :: u8) = unat t0"
    by (intro unat_ucast_small) (simp add: word_le_nat_alt)
  ultimately show ?thesis using f by (auto simp: word_le_nat_alt word_less_nat_alt)
qed

lemma parse_fan_command_acceptedD:
  assumes "core_config_valid (Some cfg)"
    and "parse_fan_command cfg rel payload ret leg c = (COMMAND_ROUTER_ACCEPTED, c')"
    and "from_legacy_topic c = leg"
  shows "command_ok cfg c' \<and> from_legacy_topic c' = leg \<and> \<not> ret"
proof -
  from assms(2) obtain v cur c1 where a: "assign_fan cfg v c = (COMMAND_ROUTER_ACCEPTED, c1)"
    and r: "c' = c1\<lparr>cmd_type := COMMAND_ROUTER_COMMAND_MANUAL_ON\<rparr> \<or>
      c' = c1\<lparr>cmd_type := COMMAND_ROUTER_COMMAND_MANUAL_OFF\<rparr> \<or>
      (\<exists>p. controller_parse_percent (Some payload) = Some p \<and>
        c' = c1\<lparr>cmd_type := COMMAND_ROUTER_COMMAND_MANUAL_PERCENTAGE, cmd_value := Percentage p\<rparr>) \<or>
      (\<not> leg \<and> tach_enabled cfg \<and> c' = c1\<lparr>cmd_type := COMMAND_ROUTER_COMMAND_TACH_CLEAR\<rparr>)"
    and n: "\<not> ret"
    by (auto simp: parse_fan_command_def Let_def reject_retained_def
        split: if_splits option.splits prod.splits)
  from assign_fan_acceptedD [OF assms(1) a] assms(3) have "fan_in_range cfg c1" "from_legacy_topic c1 = leg"
    by auto
  then show ?thesis using r n parse_percent_le by (auto simp: command_ok_def)
qed

lemma parse_schedule_command_acceptedD:
  assumes "core_config_valid (Some cfg)"
    and "parse_schedule_command cfg rel payload ret c = (COMMAND_ROUTER_ACCEPTED, c')"
  shows "command_ok cfg c' \<and> from_legacy_topic c' = from_legacy_topic c \<and> \<not> ret"
proof -
  from assms(2) have en: "schedule_enabled cfg" and n: "\<not> ret"
    by (auto simp: parse_schedule_command_def Let_def reject_retained_def
        split: if_splits option.splits prod.splits)
  from assms(2) consider b where "c' = c\<lparr>cmd_type := COMMAND_ROUTER_COMMAND_SCHEDULE_OVERRIDE,
      cmd_value := Schedule_Override b\<rparr>"
    | v k c1 where "assign_fan cfg v c = (COMMAND_ROUTER_ACCEPTED, c1)" "k < schedule_slot_count cfg"
      "(\<exists>i d t. parse_schedule_payload payload = Some (i, d, t) \<and>
        c' = c1\<lparr>schedule_slot := k, cmd_type := COMMAND_ROUTER_COMMAND_SCHEDULE_SET,
          cmd_value := Schedule_Set i d t\<rparr>) \<or>
       c' = c1\<lparr>schedule_slot := k, cmd_type := COMMAND_ROUTER_COMMAND_SCHEDULE_DISABLE\<rparr> \<or>
       c' = c1\<lparr>schedule_slot := k, cmd_type := COMMAND_ROUTER_COMMAND_SCHEDULE_GET\<rparr>"
    by (auto simp: parse_schedule_command_def Let_def reject_retained_def not_le
        split: if_splits option.splits prod.splits)
  then show ?thesis
  proof cases
    case 1
    then show ?thesis using en n by (simp add: command_ok_def)
  next
    case 2
    from assign_fan_acceptedD [OF assms(1) 2(1)]
    have "fan_in_range cfg c1" "from_legacy_topic c1 = from_legacy_topic c" by auto
    then show ?thesis using 2(2,3) en n parse_schedule_payload_SomeD by (auto simp: command_ok_def)
  qed
qed

lemma parse_ota_command_acceptedD:
  assumes "parse_ota_command cfg rel payload n ret leg c = (COMMAND_ROUTER_ACCEPTED, c')"
    and "n = length payload" and "from_legacy_topic c = leg"
  shows "command_ok cfg c' \<and> from_legacy_topic c' = leg \<and> \<not> ret"
  using assms by (auto simp: parse_ota_command_def reject_retained_def command_ok_def split: if_splits)


section \<open>Printing a command as its topic and payload\<close>

definition print_command :: "command_router_command \<Rightarrow> string \<times> string" where
  "print_command c =
     (let fan = nat_str (nat (fan_index c));
          slot = ''schedule/'' @ fan @ ''/'' @ nat_str (unat (schedule_slot c))
      in case cmd_type c of
        COMMAND_ROUTER_COMMAND_NONE \<Rightarrow> ([], [])
      | COMMAND_ROUTER_COMMAND_MANUAL_ON \<Rightarrow> (''fan'' @ fan @ ''/set'', ''ON'')
      | COMMAND_ROUTER_COMMAND_MANUAL_OFF \<Rightarrow> (''fan'' @ fan @ ''/set'', ''OFF'')
      | COMMAND_ROUTER_COMMAND_MANUAL_PERCENTAGE \<Rightarrow>
          (''fan'' @ fan @ ''/percentage/set'',
           case cmd_value c of Percentage p \<Rightarrow> nat_str (unat p) | _ \<Rightarrow> [])
      | COMMAND_ROUTER_COMMAND_TACH_CLEAR \<Rightarrow> (''fan'' @ fan @ ''/alarm/clear'', ''CLEAR'')
      | COMMAND_ROUTER_COMMAND_SCHEDULE_OVERRIDE \<Rightarrow>
          (''schedule/override'',
           case cmd_value c of Schedule_Override b \<Rightarrow> (if b then ''1'' else ''0'') | _ \<Rightarrow> [])
      | COMMAND_ROUTER_COMMAND_SCHEDULE_SET \<Rightarrow>
          (slot @ ''/set'',
           case cmd_value c of Schedule_Set i d t \<Rightarrow>
             nat_str (unat i) @ '','' @ nat_str (unat d) @ '','' @ nat_str (unat t) | _ \<Rightarrow> [])
      | COMMAND_ROUTER_COMMAND_SCHEDULE_DISABLE \<Rightarrow> (slot @ ''/disable'', [])
      | COMMAND_ROUTER_COMMAND_SCHEDULE_GET \<Rightarrow> (slot @ ''/get'', [])
      | COMMAND_ROUTER_COMMAND_OTA_UPDATE \<Rightarrow>
          (''ota/update'', case cmd_value c of Ota_Update u n \<Rightarrow> u | _ \<Rightarrow> []))"

text \<open>The fields a command type does not use are at their defaults.\<close>

definition canonical :: "command_router_command \<Rightarrow> bool" where
  "canonical c \<longleftrightarrow> \<not> from_legacy_topic c \<and>
     (cmd_type c \<notin> {COMMAND_ROUTER_COMMAND_SCHEDULE_SET, COMMAND_ROUTER_COMMAND_SCHEDULE_DISABLE,
        COMMAND_ROUTER_COMMAND_SCHEDULE_GET} \<longrightarrow> schedule_slot c = 0) \<and>
     (cmd_type c \<in> {COMMAND_ROUTER_COMMAND_SCHEDULE_OVERRIDE, COMMAND_ROUTER_COMMAND_OTA_UPDATE} \<longrightarrow>
        fan_local_index c = -1 \<and> fan_index c = 0) \<and>
     (cmd_type c \<in> {COMMAND_ROUTER_COMMAND_MANUAL_ON, COMMAND_ROUTER_COMMAND_MANUAL_OFF,
        COMMAND_ROUTER_COMMAND_TACH_CLEAR, COMMAND_ROUTER_COMMAND_SCHEDULE_DISABLE,
        COMMAND_ROUTER_COMMAND_SCHEDULE_GET} \<longrightarrow> cmd_value c = No_Value)"

lemma parse_uint_field_nat_str:
  assumes "n \<le> unat limit" and "\<not> isdigit d" and "d \<noteq> NUL"
  shows "controller_parse_uint_field (Some (nat_str n @ d # rest)) limit d = Some (of_nat n, rest)"
  using assms takeWhile_nat_str [of "d # rest" n]
  by (simp add: parse_uint_field_spec uint_field_spec_def Let_def char_at_def nat_str_val)

lemma parse_uint_field_nat_str_end:
  assumes "n \<le> unat limit"
  shows "controller_parse_uint_field (Some (nat_str n)) limit NUL = Some (of_nat n, [])"
proof -
  have *: "takeWhile isdigit (nat_str n) = nat_str n" "dropWhile isdigit (nat_str n) = []"
    using nat_str_digits by (simp_all add: takeWhile_eq_all_conv dropWhile_eq_Nil_conv)
  show ?thesis
    using assms by (simp add: parse_uint_field_spec uint_field_spec_def Let_def char_at_def nat_str_val *)
qed

lemma nat_str_leading_zero: "char_at (nat_str n @ r) 0 = CHR ''0'' \<longleftrightarrow> n = 0"
proof (induction n arbitrary: r rule: nat_str.induct)
  case (1 n)
  show ?case
  proof (cases "n < 10")
    case True
    then have "n \<in> {0, 1, 2, 3, 4, 5, 6, 7, 8, 9}" by auto
    then show ?thesis by (subst nat_str.simps) (auto simp: char_at_def)
  next
    case False
    then have "char_at (nat_str n @ r) 0 = char_at (nat_str (n div 10) @ [''0123456789'' ! (n mod 10)] @ r) 0"
      by (subst nat_str.simps) simp
    with False "1.IH" show ?thesis by simp
  qed
qed

lemma append_slash: "''/'' @ s = CHR ''/'' # s" "(CHR ''/'' # s) @ t = CHR ''/'' # (s @ t)"
  by simp_all

lemma u8_through_u32: "(ucast (ucast (p :: u8) :: u32) :: u8) = p"
  by (rule bit_word_eqI) (auto simp: bit_simps)

lemma nat_str_no_NUL: "NUL \<notin> set (nat_str n)"
  using nat_str_digits [of n] by (metis isdigit_NUL)

lemma router_int_max_unat: "unat (of_int ROUTER_INT_MAX :: u32) = 2147483647"
  by (simp add: ROUTER_INT_MAX_def)

lemma slash_not_digit [simp]: "\<not> isdigit (CHR ''/'')" "\<not> isdigit (CHR '','')"
  by (simp_all add: isdigit_def chr_code_def)

text \<open>The fan number of a printed command is assigned back.\<close>

lemma assign_fan_print:
  assumes "core_config_valid (Some cfg)" and "fan_in_range cfg c"
  shows "nat (fan_index c) \<le> 2147483647" and "1 \<le> nat (fan_index c)"
    and "assign_fan cfg (of_nat (nat (fan_index c))) d =
      (COMMAND_ROUTER_ACCEPTED, d\<lparr>fan_index := fan_index c, fan_local_index := fan_local_index c\<rparr>)"
proof -
  note R = core_config_fan_range [OF assms(1)]
  have f: "fan_index c = rc_fan_index_start cfg + fan_local_index c" "0 \<le> fan_local_index c"
    "fan_local_index c < rc_fan_count cfg"
    using assms(2) by (simp_all add: fan_in_range_def)
  with R show b: "nat (fan_index c) \<le> 2147483647" "1 \<le> nat (fan_index c)" by simp_all
  have "uint (of_nat (nat (fan_index c)) :: u32) = fan_index c"
    using u32_of_small_int [of "fan_index c"] b f(1,2) R(2) by (simp add: of_nat_nat)
  then show "assign_fan cfg (of_nat (nat (fan_index c))) d =
      (COMMAND_ROUTER_ACCEPTED, d\<lparr>fan_index := fan_index c, fan_local_index := fan_local_index c\<rparr>)"
    using f by (simp add: assign_fan_cases [OF assms(1)])
qed

lemma parse_fan_command_print:
  assumes "core_config_valid (Some cfg)" and "fan_in_range cfg c"
  shows "parse_fan_command cfg (''fan'' @ nat_str (nat (fan_index c)) @ ''/set'') ''ON'' False leg d =
      (COMMAND_ROUTER_ACCEPTED, d\<lparr>fan_index := fan_index c, fan_local_index := fan_local_index c,
         cmd_type := COMMAND_ROUTER_COMMAND_MANUAL_ON\<rparr>)"
    and "parse_fan_command cfg (''fan'' @ nat_str (nat (fan_index c)) @ ''/set'') ''OFF'' False leg d =
      (COMMAND_ROUTER_ACCEPTED, d\<lparr>fan_index := fan_index c, fan_local_index := fan_local_index c,
         cmd_type := COMMAND_ROUTER_COMMAND_MANUAL_OFF\<rparr>)"
    and "p \<le> 100 \<Longrightarrow> parse_fan_command cfg (''fan'' @ nat_str (nat (fan_index c)) @ ''/percentage/set'')
        (nat_str (unat p)) False leg d =
      (COMMAND_ROUTER_ACCEPTED, d\<lparr>fan_index := fan_index c, fan_local_index := fan_local_index c,
         cmd_type := COMMAND_ROUTER_COMMAND_MANUAL_PERCENTAGE, cmd_value := Percentage p\<rparr>)"
    and "tach_enabled cfg \<Longrightarrow> parse_fan_command cfg (''fan'' @ nat_str (nat (fan_index c)) @ ''/alarm/clear'')
        ''CLEAR'' False False d =
      (COMMAND_ROUTER_ACCEPTED, d\<lparr>fan_index := fan_index c, fan_local_index := fan_local_index c,
         cmd_type := COMMAND_ROUTER_COMMAND_TACH_CLEAR\<rparr>)"
proof -
  note A = assign_fan_print [OF assms]
  have z: "char_at (nat_str (nat (fan_index c)) @ CHR ''/'' # r) 0 \<noteq> CHR ''0''" for r
    using A(2) nat_str_leading_zero by simp
  have u: "controller_parse_uint_field (Some (nat_str (nat (fan_index c)) @ CHR ''/'' # r))
      (of_int ROUTER_INT_MAX) (CHR ''/'') = Some (of_nat (nat (fan_index c)), r)" for r
    using A(1) by (intro parse_uint_field_nat_str) (simp_all add: router_int_max_unat)
  have pre: "has_prefix ''fan'' (''fan'' @ r)" for r by (rule has_prefix_append)
  have pct: "controller_parse_percent (Some (nat_str (unat p))) = Some p" if "p \<le> 100" for p
    using parse_uint_field_nat_str_end [of "unat p" 100] that
    by (simp add: controller_parse_percent_def word_le_nat_alt u8_through_u32)
  have drop: "drop 3 (''fan'' @ r) = r" for r :: string by simp
  note S = parse_fan_command_def reject_retained_def Let_def u A(3) z pre drop if_False if_True
    option.case prod.case simp_thms
  show "parse_fan_command cfg (''fan'' @ nat_str (nat (fan_index c)) @ ''/set'') ''ON'' False leg d =
      (COMMAND_ROUTER_ACCEPTED, d\<lparr>fan_index := fan_index c, fan_local_index := fan_local_index c,
         cmd_type := COMMAND_ROUTER_COMMAND_MANUAL_ON\<rparr>)"
    by (simp only: S) simp?
  show "parse_fan_command cfg (''fan'' @ nat_str (nat (fan_index c)) @ ''/set'') ''OFF'' False leg d =
      (COMMAND_ROUTER_ACCEPTED, d\<lparr>fan_index := fan_index c, fan_local_index := fan_local_index c,
         cmd_type := COMMAND_ROUTER_COMMAND_MANUAL_OFF\<rparr>)"
    by (simp only: S) simp?
  show "parse_fan_command cfg (''fan'' @ nat_str (nat (fan_index c)) @ ''/percentage/set'')
        (nat_str (unat p)) False leg d =
      (COMMAND_ROUTER_ACCEPTED, d\<lparr>fan_index := fan_index c, fan_local_index := fan_local_index c,
         cmd_type := COMMAND_ROUTER_COMMAND_MANUAL_PERCENTAGE, cmd_value := Percentage p\<rparr>)" if "p \<le> 100"
    by (simp only: S pct [OF that]) simp?
  show "parse_fan_command cfg (''fan'' @ nat_str (nat (fan_index c)) @ ''/alarm/clear'')
        ''CLEAR'' False False d =
      (COMMAND_ROUTER_ACCEPTED, d\<lparr>fan_index := fan_index c, fan_local_index := fan_local_index c,
         cmd_type := COMMAND_ROUTER_COMMAND_TACH_CLEAR\<rparr>)" if "tach_enabled cfg"
    by (simp only: S that) simp?
qed


lemma parse_schedule_payload_print:
  assumes "1 \<le> d" and "d \<le> i" and "i \<le> 525600" and "t \<le> 100"
  shows "parse_schedule_payload (nat_str (unat i) @ '','' @ nat_str (unat d) @ '','' @ nat_str (unat t))
    = Some (i, d, t)"
proof -
  have m: "unat MAX_SCHEDULE_MINUTES = 525600" by (simp add: MAX_SCHEDULE_MINUTES_def)
  have le: "unat i \<le> 525600" "unat d \<le> 525600" "unat t \<le> 100"
    using assms by (simp_all add: word_le_nat_alt)
  have "controller_parse_uint_field (Some (nat_str (unat i) @ CHR '','' # r)) MAX_SCHEDULE_MINUTES (CHR '','')
      = Some (i, r)"
    "controller_parse_uint_field (Some (nat_str (unat d) @ CHR '','' # r)) MAX_SCHEDULE_MINUTES (CHR '','')
      = Some (d, r)"
    "controller_parse_uint_field (Some (nat_str (unat t))) 100 NUL = Some (ucast t, [])" for r
    using le parse_uint_field_nat_str [of "unat i" MAX_SCHEDULE_MINUTES]
      parse_uint_field_nat_str [of "unat d" MAX_SCHEDULE_MINUTES]
      parse_uint_field_nat_str_end [of "unat t" 100] by (simp_all add: m)
  then show ?thesis
    using assms by (simp add: parse_schedule_payload_def u8_through_u32 word_less_nat_alt word_le_nat_alt)
qed

lemma parse_schedule_command_print:
  assumes "core_config_valid (Some cfg)" and "fan_in_range cfg c" and "schedule_enabled cfg"
    and "schedule_slot c < schedule_slot_count cfg" and "schedule_slot_count cfg \<le> of_int ROUTER_INT_MAX"
  defines "pre \<equiv> ''schedule/'' @ nat_str (nat (fan_index c)) @ ''/'' @ nat_str (unat (schedule_slot c))"
    and "d' \<equiv> \<lambda>d. d\<lparr>fan_index := fan_index c, fan_local_index := fan_local_index c,
       schedule_slot := schedule_slot c\<rparr>"
  shows "parse_schedule_payload payload = Some (i, du, t) \<Longrightarrow>
      parse_schedule_command cfg (pre @ ''/set'') payload False d =
        (COMMAND_ROUTER_ACCEPTED, (d' d)\<lparr>cmd_type := COMMAND_ROUTER_COMMAND_SCHEDULE_SET,
           cmd_value := Schedule_Set i du t\<rparr>)"
    and "parse_schedule_command cfg (pre @ ''/disable'') payload False d =
        (COMMAND_ROUTER_ACCEPTED, (d' d)\<lparr>cmd_type := COMMAND_ROUTER_COMMAND_SCHEDULE_DISABLE\<rparr>)"
    and "parse_schedule_command cfg (pre @ ''/get'') payload False d =
        (COMMAND_ROUTER_ACCEPTED, (d' d)\<lparr>cmd_type := COMMAND_ROUTER_COMMAND_SCHEDULE_GET\<rparr>)"
proof -
  note A = assign_fan_print [OF assms(1,2)]
  have slot: "unat (schedule_slot c) \<le> 2147483647"
    using assms(4,5) by (simp add: word_less_nat_alt word_le_nat_alt router_int_max_unat)
  have u: "controller_parse_uint_field (Some (nat_str (nat (fan_index c)) @ CHR ''/'' # r))
      (of_int ROUTER_INT_MAX) (CHR ''/'') = Some (of_nat (nat (fan_index c)), r)"
    "controller_parse_uint_field (Some (nat_str (unat (schedule_slot c)) @ CHR ''/'' # r))
      (of_int ROUTER_INT_MAX) (CHR ''/'') = Some (schedule_slot c, r)" for r
    using A(1) slot parse_uint_field_nat_str [of _ "of_int ROUTER_INT_MAX" "CHR ''/''" r]
    by (simp_all add: router_int_max_unat)
  have o: "nat_str n @ r \<noteq> ''override''" for n r
  proof
    assume a: "nat_str n @ r = ''override''"
    obtain x xs where n: "nat_str n = x # xs" by (cases "nat_str n") auto
    then have "isdigit x" using nat_str_digits [of n] by simp
    moreover have "x = CHR ''o''" using a n by simp
    ultimately show False by (simp add: isdigit_def chr_code_def)
  qed
  have nz: "schedule_slot_count cfg \<noteq> 0" using assms(4) by (auto simp: word_less_nat_alt)
  have pre: "has_prefix ''schedule/'' (''schedule/'' @ r)" for r by (rule has_prefix_append)
  have drop: "drop 9 (''schedule/'' @ r) = r" for r :: string by simp
  note S = parse_schedule_command_def reject_retained_def Let_def u A(3) o pre pre_def d'_def drop
    append_assoc append_slash if_False if_True option.case prod.case simp_thms
  have k: "\<not> schedule_slot_count cfg > of_int ROUTER_INT_MAX" "\<not> schedule_slot c \<ge> schedule_slot_count cfg"
    using assms(4,5) by (simp_all add: not_less not_le)
  show "parse_schedule_command cfg (pre @ ''/set'') payload False d =
        (COMMAND_ROUTER_ACCEPTED, (d' d)\<lparr>cmd_type := COMMAND_ROUTER_COMMAND_SCHEDULE_SET,
           cmd_value := Schedule_Set i du t\<rparr>)" if "parse_schedule_payload payload = Some (i, du, t)"
    by (simp only: S that assms(3) nz k) (simp add: u(2) k)
  show "parse_schedule_command cfg (pre @ ''/disable'') payload False d =
        (COMMAND_ROUTER_ACCEPTED, (d' d)\<lparr>cmd_type := COMMAND_ROUTER_COMMAND_SCHEDULE_DISABLE\<rparr>)"
    by (simp only: S assms(3) nz k) (simp add: u(2) k)
  show "parse_schedule_command cfg (pre @ ''/get'') payload False d =
        (COMMAND_ROUTER_ACCEPTED, (d' d)\<lparr>cmd_type := COMMAND_ROUTER_COMMAND_SCHEDULE_GET\<rparr>)"
    by (simp only: S assms(3) nz k) (simp add: u(2) k)
qed


text \<open>The sub-parsers that a printed command must pass by before its own.\<close>

lemma has_prefix_Nil [simp]: "has_prefix [] s"
  by (simp add: has_prefix_def)

lemma has_prefix_Cons [simp]: "has_prefix (p # ps) (x # xs) \<longleftrightarrow> p = x \<and> has_prefix ps xs"
  by (auto simp: has_prefix_def)

lemma parse_fan_command_skip:
  "r = CHR ''s'' # s \<or> r = CHR ''o'' # s \<Longrightarrow>
     parse_fan_command cfg r payload ret leg c = (COMMAND_ROUTER_NO_MATCH, c)"
  by (auto simp: parse_fan_command_def)

lemma parse_schedule_command_skip:
  "r = CHR ''o'' # s \<Longrightarrow> parse_schedule_command cfg r payload ret c = (COMMAND_ROUTER_NO_MATCH, c)"
  by (auto simp: parse_schedule_command_def)

lemma parse_override_print:
  assumes "schedule_enabled cfg" and "schedule_slot_count cfg \<noteq> 0"
    and "schedule_slot_count cfg \<le> of_int ROUTER_INT_MAX"
  shows "parse_schedule_command cfg ''schedule/override'' (if b then ''1'' else ''0'') False d =
    (COMMAND_ROUTER_ACCEPTED, d\<lparr>cmd_type := COMMAND_ROUTER_COMMAND_SCHEDULE_OVERRIDE,
       cmd_value := Schedule_Override b\<rparr>)"
proof -
  have "nat_str 1 = ''1''" "nat_str 0 = ''0''" by (simp_all add: nat_str.simps)
  then have "controller_parse_uint_field (Some (if b then ''1'' else ''0'')) 1 NUL
      = Some (if b then 1 else 0, [])"
    using parse_uint_field_nat_str_end [of 1 1] parse_uint_field_nat_str_end [of 0 1] by simp
  then show ?thesis
    using assms by (simp add: parse_schedule_command_def reject_retained_def Let_def not_less)
qed

lemma parse_to_route:
  assumes "core_config_valid (Some cfg)" and "node_base_prefix cfg = Some p" and "rel \<noteq> []"
    and "length (p @ ''/'' @ rel) < 192" and "length payload < 768"
    and "NUL \<notin> set (p @ ''/'' @ rel)" and "NUL \<notin> set payload"
  shows "command_router_parse (Some cfg) (Some (p @ ''/'' @ rel)) (length (p @ ''/'' @ rel))
      (Some payload) (length payload) False = route_relative cfg rel payload (length payload) False False"
proof -
  have "relative_topic (p @ CHR ''/'' # rel) p = Some rel"
    by (simp add: relative_topic_def char_at_def)
  then show ?thesis
    using assms by (simp add: command_router_parse_def Let_def
        COMMAND_ROUTER_TOPIC_CAPACITY_def COMMAND_ROUTER_PAYLOAD_CAPACITY_def)
qed

lemma empty_command_legacy [simp]: "empty_command\<lparr>from_legacy_topic := False\<rparr> = empty_command"
  by (simp add: empty_command_def)

lemma route_print:
  assumes cfg: "core_config_valid (Some cfg)" and ok: "command_ok cfg c" and can: "canonical c"
    and slots: "schedule_slot_count cfg \<noteq> 0" "schedule_slot_count cfg \<le> of_int ROUTER_INT_MAX"
  shows "route_relative cfg (fst (print_command c)) (snd (print_command c)) (length (snd (print_command c)))
        False False
      = (COMMAND_ROUTER_ACCEPTED, c)"
proof (cases "cmd_type c")
  case COMMAND_ROUTER_COMMAND_NONE
  with ok show ?thesis by (simp add: command_ok_def)
next
  case COMMAND_ROUTER_COMMAND_MANUAL_ON
  with ok can show ?thesis
    using parse_fan_command_print(1) [OF cfg, of c]
    by (cases c) (simp add: route_relative_def print_command_def command_ok_def canonical_def
        Let_def empty_command_def)
next
  case COMMAND_ROUTER_COMMAND_MANUAL_OFF
  with ok can show ?thesis
    using parse_fan_command_print(2) [OF cfg, of c]
    by (cases c) (simp add: route_relative_def print_command_def command_ok_def canonical_def
        Let_def empty_command_def)
next
  case COMMAND_ROUTER_COMMAND_MANUAL_PERCENTAGE
  with ok can show ?thesis
    using parse_fan_command_print(3) [OF cfg, of c]
    by (cases c) (auto simp add: route_relative_def print_command_def command_ok_def canonical_def
        Let_def empty_command_def)
next
  case COMMAND_ROUTER_COMMAND_TACH_CLEAR
  with ok can show ?thesis
    using parse_fan_command_print(4) [OF cfg, of c]
    by (cases c) (simp add: route_relative_def print_command_def command_ok_def canonical_def
        Let_def empty_command_def)
next
  case COMMAND_ROUTER_COMMAND_SCHEDULE_OVERRIDE
  with ok obtain b where "cmd_value c = Schedule_Override b" "schedule_enabled cfg"
    by (auto simp: command_ok_def)
  with COMMAND_ROUTER_COMMAND_SCHEDULE_OVERRIDE can show ?thesis
    using parse_override_print [OF _ slots, of b]
    by (cases c) (simp add: route_relative_def print_command_def canonical_def Let_def
        empty_command_def parse_fan_command_skip)
next
  case COMMAND_ROUTER_COMMAND_SCHEDULE_SET
  with ok obtain i d t where v: "cmd_value c = Schedule_Set i d t" and en: "schedule_enabled cfg"
    and f: "fan_in_range cfg c" "schedule_slot c < schedule_slot_count cfg"
    and b: "1 \<le> d" "d \<le> i" "i \<le> 525600" "t \<le> 100"
    by (auto simp: command_ok_def)
  show ?thesis
    using parse_schedule_command_print(1) [OF cfg f(1) en f(2) slots(2) parse_schedule_payload_print [OF b]]
      COMMAND_ROUTER_COMMAND_SCHEDULE_SET can v
    by (cases c) (simp add: route_relative_def print_command_def canonical_def Let_def
        empty_command_def parse_fan_command_skip)
next
  case COMMAND_ROUTER_COMMAND_SCHEDULE_DISABLE
  with ok have en: "schedule_enabled cfg"
    and f: "fan_in_range cfg c" "schedule_slot c < schedule_slot_count cfg"
    by (auto simp: command_ok_def)
  show ?thesis
    using parse_schedule_command_print(2) [OF cfg f(1) en f(2) slots(2)]
      COMMAND_ROUTER_COMMAND_SCHEDULE_DISABLE can
    by (cases c) (simp add: route_relative_def print_command_def canonical_def Let_def
        empty_command_def parse_fan_command_skip)
next
  case COMMAND_ROUTER_COMMAND_SCHEDULE_GET
  with ok have en: "schedule_enabled cfg"
    and f: "fan_in_range cfg c" "schedule_slot c < schedule_slot_count cfg"
    by (auto simp: command_ok_def)
  show ?thesis
    using parse_schedule_command_print(3) [OF cfg f(1) en f(2) slots(2)]
      COMMAND_ROUTER_COMMAND_SCHEDULE_GET can
    by (cases c) (simp add: route_relative_def print_command_def canonical_def Let_def
        empty_command_def parse_fan_command_skip)
next
  case COMMAND_ROUTER_COMMAND_OTA_UPDATE
  with ok obtain u where v: "cmd_value c = Ota_Update u (length u)" and en: "ota_enabled cfg"
    and a: "controller_https_url_allowed (Some u) (ota_allowed_url_prefix cfg)"
    by (auto simp: command_ok_def)
  have "ota_allowed_url_prefix cfg \<noteq> None"
    using a by (cases "ota_allowed_url_prefix cfg") (simp_all add: controller_https_url_allowed_def)
  with COMMAND_ROUTER_COMMAND_OTA_UPDATE can v en a show ?thesis
    by (cases c) (auto simp add: route_relative_def print_command_def canonical_def Let_def
        empty_command_def parse_fan_command_skip parse_schedule_command_skip parse_ota_command_def
        reject_retained_def)
qed


lemma route_relative_sound:
  assumes "core_config_valid (Some cfg)" and "route_relative cfg rel payload n ret leg = (r, c)"
    and "n = length payload"
  shows "if r = COMMAND_ROUTER_ACCEPTED then command_ok cfg c \<and> from_legacy_topic c = leg \<and> \<not> ret
         else c = empty_command"
proof -
  let ?e = "empty_command\<lparr>from_legacy_topic := leg\<rparr>"
  obtain r1 c1 where p1: "parse_fan_command cfg rel payload ret leg ?e = (r1, c1)" by force
  obtain r2 c2 where p2: "(if r1 = COMMAND_ROUTER_NO_MATCH
      then parse_schedule_command cfg rel payload ret c1 else (r1, c1)) = (r2, c2)" by force
  obtain r3 c3 where p3: "(if r2 = COMMAND_ROUTER_NO_MATCH
      then parse_ota_command cfg rel payload n ret leg c2 else (r2, c2)) = (r3, c3)" by force
  have rc: "(r, c) = (if r3 = COMMAND_ROUTER_ACCEPTED then (r3, c3) else (r3, empty_command))"
    using assms(2) p1 p2 p3 by (simp add: route_relative_def Let_def)
  have l1: "from_legacy_topic c1 = leg"
    using p1 by (auto simp: parse_fan_command_def Let_def assign_fan_def empty_command_def
        split: if_splits option.splits prod.splits)
  have l2: "from_legacy_topic c2 = leg"
    using p2 l1 by (auto simp: parse_schedule_command_def Let_def assign_fan_def
        split: if_splits option.splits prod.splits)
  have "command_ok cfg c3 \<and> from_legacy_topic c3 = leg \<and> \<not> ret" if acc: "r3 = COMMAND_ROUTER_ACCEPTED"
  proof (cases "r2 = COMMAND_ROUTER_NO_MATCH")
    case True
    with p3 acc have "parse_ota_command cfg rel payload n ret leg c2 = (COMMAND_ROUTER_ACCEPTED, c3)" by simp
    from parse_ota_command_acceptedD [OF this assms(3) l2] show ?thesis .
  next
    case False
    with p3 acc have r2: "r2 = COMMAND_ROUTER_ACCEPTED" "c2 = c3" by simp_all
    show ?thesis
    proof (cases "r1 = COMMAND_ROUTER_NO_MATCH")
      case True
      with p2 r2 have "parse_schedule_command cfg rel payload ret c1 = (COMMAND_ROUTER_ACCEPTED, c3)" by simp
      from parse_schedule_command_acceptedD [OF assms(1) this] l1 show ?thesis by simp
    next
      case False
      with p2 r2 p1 have "parse_fan_command cfg rel payload ret leg ?e = (COMMAND_ROUTER_ACCEPTED, c3)" by simp
      from parse_fan_command_acceptedD [OF assms(1) this] show ?thesis by simp
    qed
  qed
  then show ?thesis using rc by (auto split: if_splits)
qed

lemma command_router_parse_cases:
  assumes "command_router_parse config topic topic_len payload payload_len ret = (r, c)"
  shows "(r \<noteq> COMMAND_ROUTER_ACCEPTED \<and> c = empty_command) \<or>
    (\<exists>cfg t rel leg. config = Some cfg \<and> topic = Some t \<and> core_config_valid (Some cfg) \<and> \<not> ret \<and>
      0 < topic_len \<and> topic_len < 192 \<and> payload_len < 768 \<and> (leg \<longrightarrow> legacy_enabled cfg) \<and>
      NUL \<notin> set (take topic_len t) \<and>
      relative_topic (take topic_len t)
        (the (if leg then legacy_base_prefix cfg else node_base_prefix cfg)) = Some rel \<and>
      (payload = None \<longrightarrow> payload_len = 0) \<and>
      route_relative cfg rel (case payload of None \<Rightarrow> [] | Some b \<Rightarrow> take payload_len b)
        payload_len ret leg = (r, c))"
  using assms unfolding command_router_parse_def
  by (auto simp: Let_def COMMAND_ROUTER_TOPIC_CAPACITY_def COMMAND_ROUTER_PAYLOAD_CAPACITY_def not_le
      split: option.splits if_splits)

section \<open>Properties\<close>

text \<open>C39. The router is a safe filter. Whatever bytes arrive, a command it accepts comes from a
  live (not retained) message under the node's or the legacy prefix, addresses a fan the
  node owns, and carries arguments in range: a percentage up to 100, a schedule slot below
  the slot count with \<open>1 \<le> duration \<le> interval \<le> 525600\<close> minutes, an OTA URL the policy
  allows. Tachometer clearing and OTA need their features and never come from a legacy
  topic. On every other result the command is reset to \<open>NONE\<close>.\<close>

theorem router_acceptance_sound:
  assumes "command_router_parse (Some cfg) (Some topic) topic_len (Some payload) payload_len retained = (r, c)"
    and "payload_len \<le> length payload"
  shows "if r = COMMAND_ROUTER_ACCEPTED
    then command_ok cfg c \<and> \<not> retained \<and> core_config_valid (Some cfg) \<and>
      topic_len < COMMAND_ROUTER_TOPIC_CAPACITY \<and> payload_len < COMMAND_ROUTER_PAYLOAD_CAPACITY \<and>
      (if from_legacy_topic c then legacy_enabled cfg \<and>
         has_prefix (the (legacy_base_prefix cfg) @ ''/'') (take topic_len topic)
       else has_prefix (the (node_base_prefix cfg) @ ''/'') (take topic_len topic))
    else c = empty_command"
proof -
  have pre: "has_prefix (p @ ''/'') t" if rt: "relative_topic t p = Some rel" for t p rel
  proof -
    from rt have "has_prefix p t" "char_at t (length p) = CHR ''/''"
      by (auto simp: relative_topic_def split: if_splits)
    then obtain s where "t = p @ s" "char_at (p @ s) (length p) = CHR ''/''" by (auto simp: has_prefix_iff)
    then have "t = (p @ ''/'') @ tl s"
      by (cases s) (auto simp: char_at_def)
    then show ?thesis by (metis has_prefix_append)
  qed
  from command_router_parse_cases [OF assms(1)] show ?thesis
  proof
    assume "\<exists>cfg' t rel leg. Some cfg = Some cfg' \<and> Some topic = Some t \<and> core_config_valid (Some cfg') \<and>
      \<not> retained \<and> 0 < topic_len \<and> topic_len < 192 \<and> payload_len < 768 \<and> (leg \<longrightarrow> legacy_enabled cfg') \<and>
      NUL \<notin> set (take topic_len t) \<and>
      relative_topic (take topic_len t)
        (the (if leg then legacy_base_prefix cfg' else node_base_prefix cfg')) = Some rel \<and>
      (Some payload = None \<longrightarrow> payload_len = 0) \<and>
      route_relative cfg' rel (case Some payload of None \<Rightarrow> [] | Some b \<Rightarrow> take payload_len b)
        payload_len retained leg = (r, c)"
    then obtain cfg' t rel leg where E: "Some cfg = Some cfg'" "Some topic = Some t"
      "core_config_valid (Some cfg')" "\<not> retained" "topic_len < 192" "payload_len < 768"
      "leg \<longrightarrow> legacy_enabled cfg'"
      "relative_topic (take topic_len t)
        (the (if leg then legacy_base_prefix cfg' else node_base_prefix cfg')) = Some rel"
      "route_relative cfg' rel (case Some payload of None \<Rightarrow> [] | Some b \<Rightarrow> take payload_len b)
        payload_len retained leg = (r, c)"
      by (elim exE conjE) (rule that)
    then have v: "core_config_valid (Some cfg)" "\<not> retained" "topic_len < 192"
      "payload_len < 768" "leg \<longrightarrow> legacy_enabled cfg"
      and rt: "relative_topic (take topic_len topic)
        (the (if leg then legacy_base_prefix cfg else node_base_prefix cfg)) = Some rel"
      and rr: "route_relative cfg rel (take payload_len payload) payload_len retained leg = (r, c)"
      by (cases leg; simp)+
    have "payload_len = length (take payload_len payload)" using assms(2) by simp
    from route_relative_sound [OF v(1) rr this] show ?thesis
      using v pre [OF rt]
      by (auto simp: COMMAND_ROUTER_TOPIC_CAPACITY_def COMMAND_ROUTER_PAYLOAD_CAPACITY_def split: if_splits)
  qed auto
qed

definition example_router_config :: command_router_config where
  "example_router_config = \<lparr>node_base_prefix = Some ''farm/nodes/n1'', legacy_base_prefix = Some ''farm'',
     rc_fan_index_start = 3, rc_fan_count = 2, schedule_slot_count = 4, tach_enabled = True,
     schedule_enabled = True, ota_enabled = True, legacy_enabled = True,
     ota_allowed_url_prefix = Some ''https://ota.farm/fw/''\<rparr>"

theorem router_acceptance_sound_witness:
  "\<exists>c. command_router_parse (Some example_router_config) (Some ''farm/nodes/n1/fan4/percentage/set'') 34
         (Some ''55'') 2 False = (COMMAND_ROUTER_ACCEPTED, c) \<and> command_ok example_router_config c \<and>
       cmd_value c = Percentage 55 \<and> fan_local_index c = 1"
proof -
  have ok: "fst (command_router_parse (Some example_router_config)
      (Some ''farm/nodes/n1/fan4/percentage/set'') 34 (Some ''55'') 2 False) = COMMAND_ROUTER_ACCEPTED \<and>
    cmd_value (snd (command_router_parse (Some example_router_config)
      (Some ''farm/nodes/n1/fan4/percentage/set'') 34 (Some ''55'') 2 False)) = Percentage 55 \<and>
    fan_local_index (snd (command_router_parse (Some example_router_config)
      (Some ''farm/nodes/n1/fan4/percentage/set'') 34 (Some ''55'') 2 False)) = 1"
    by code_simp
  then obtain c where c: "command_router_parse (Some example_router_config)
      (Some ''farm/nodes/n1/fan4/percentage/set'') 34 (Some ''55'') 2 False = (COMMAND_ROUTER_ACCEPTED, c)"
    by (metis prod.collapse)
  from router_acceptance_sound [OF c] have "command_ok example_router_config c" by simp
  with c ok show ?thesis by simp
qed

text \<open>C40. The router understands every command it should: each well-formed command with
  arguments in range, printed as its canonical topic under the node's prefix and its
  payload, is accepted and parsed back to exactly that command, when the message fits the
  router's buffers.\<close>

theorem router_print_parse:
  assumes "core_config_valid (Some cfg)" and "command_ok cfg c" and "canonical c"
    and "0 < schedule_slot_count cfg" and "schedule_slot_count cfg \<le> of_int ROUTER_INT_MAX"
    and "node_base_prefix cfg = Some p" and "print_command c = (rel, payload)"
    and "length (p @ ''/'' @ rel) < COMMAND_ROUTER_TOPIC_CAPACITY"
    and "length payload < COMMAND_ROUTER_PAYLOAD_CAPACITY"
    and "NUL \<notin> set (p @ ''/'' @ rel)" and "NUL \<notin> set payload"
  shows "command_router_parse (Some cfg) (Some (p @ ''/'' @ rel)) (length (p @ ''/'' @ rel))
           (Some payload) (length payload) False = (COMMAND_ROUTER_ACCEPTED, c)"
proof -
  have nz: "schedule_slot_count cfg \<noteq> 0" using assms(4) by auto
  have "rel \<noteq> []"
    using assms(2,7) by (auto simp: print_command_def command_ok_def Let_def
        split: command_router_command_type.splits)
  from parse_to_route [OF assms(1,6) this] assms(8-11) route_print [OF assms(1-3) nz assms(5)] assms(7)
  show ?thesis
    by (simp add: COMMAND_ROUTER_TOPIC_CAPACITY_def COMMAND_ROUTER_PAYLOAD_CAPACITY_def)
qed

theorem router_print_parse_witness:
  "command_router_parse (Some example_router_config) (Some ''farm/nodes/n1/schedule/3/1/set'')
     (length ''farm/nodes/n1/schedule/3/1/set'') (Some ''60,15,40'') (length ''60,15,40'') False =
   (COMMAND_ROUTER_ACCEPTED,
    \<lparr>cmd_type = COMMAND_ROUTER_COMMAND_SCHEDULE_SET, fan_local_index = 0, fan_index = 3,
     schedule_slot = 1, from_legacy_topic = False, cmd_value = Schedule_Set 60 15 40\<rparr>)"
proof -
  let ?c = "\<lparr>cmd_type = COMMAND_ROUTER_COMMAND_SCHEDULE_SET, fan_local_index = 0, fan_index = 3,
     schedule_slot = 1, from_legacy_topic = False, cmd_value = Schedule_Set 60 15 40\<rparr>"
  have v: "core_config_valid (Some example_router_config)" by code_simp
  have p: "print_command ?c = (''schedule/3/1/set'', ''60,15,40'')"
    by (simp add: print_command_def Let_def nat_str.simps)
  have "command_ok example_router_config ?c" "canonical ?c"
    by (simp_all add: command_ok_def fan_in_range_def canonical_def example_router_config_def)
  moreover have "0 < schedule_slot_count example_router_config"
    "schedule_slot_count example_router_config \<le> of_int ROUTER_INT_MAX"
    "node_base_prefix example_router_config = Some ''farm/nodes/n1''"
    by (simp_all add: example_router_config_def ROUTER_INT_MAX_def)
  ultimately show ?thesis
    using router_print_parse [OF v _ _ _ _ _ p]
    by (simp add: COMMAND_ROUTER_TOPIC_CAPACITY_def COMMAND_ROUTER_PAYLOAD_CAPACITY_def)
qed

end
