(* ===== verification/Fnv1a.thy ===== *)
theory Fnv1a imports Prelude
begin

text \<open>
  The FNV-1a step \<open>hash = (hash ^ byte) * prime\<close>, at any width. The firmware runs it at 32
  bits over the persisted blobs (\<open>fan_state_store.c\<close>, \<open>scheduler.c\<close>) and at 64 bits over
  the topology (\<open>app_config.c\<close>). The lemmas show what such a checksum is worth: every step
  is a bijection of the hash, so two inputs of one length that differ in exactly one byte
  never collide.
\<close>

definition fnv_step :: "'a::len word \<Rightarrow> 'a word \<Rightarrow> u8 \<Rightarrow> 'a word" where
  "fnv_step prime hash b = (hash XOR ucast b) * prime"

fun fnv1a :: "'a::len word \<Rightarrow> 'a word \<Rightarrow> u8 list \<Rightarrow> 'a word" where
  "fnv1a prime hash [] = hash"
| "fnv1a prime hash (b # bs) = fnv1a prime (fnv_step prime hash b) bs"

lemma fnv1a_append: "fnv1a p h (xs @ ys) = fnv1a p (fnv1a p h xs) ys"
  by (induction xs arbitrary: h) auto

lemma xor_cancel_right: "(x :: 'a::len word) XOR z = y XOR z \<Longrightarrow> x = y"
  by (metis xor.assoc xor.right_neutral xor_self_eq)

lemma fnv_step_inj_hash:
  "odd p \<Longrightarrow> fnv_step p h b = fnv_step p h' b \<Longrightarrow> h = h'"
  unfolding fnv_step_def by (blast dest: word_mult_odd_inj xor_cancel_right)

lemma fnv_step_inj_byte:
  assumes "odd (p :: 'a::len word)" and "8 \<le> LENGTH('a)"
    and "fnv_step p h b = fnv_step p h c"
  shows "b = c"
proof -
  from assms(1,3) have "h XOR ucast b = h XOR ucast c"
    unfolding fnv_step_def by (rule word_mult_odd_inj)
  then have "(ucast b :: 'a word) = ucast c"
    by (metis xor.commute xor_cancel_right)
  then have "take_bit LENGTH('a) (unat b) = take_bit LENGTH('a) (unat c)"
    by (metis unsigned_ucast_eq)
  moreover have "take_bit LENGTH('a) (unat w) = unat w" for w :: u8
  proof -
    have "unat w < 2 ^ 8" using unsigned_less [of w] by simp
    also have "(2::nat) ^ 8 \<le> 2 ^ LENGTH('a)" using assms(2) by (rule power_increasing) simp
    finally show ?thesis by (simp add: take_bit_nat_eq_self)
  qed
  ultimately show ?thesis by (simp add: word_unat_eq_iff)
qed

lemma fnv1a_inj_hash:
  "odd p \<Longrightarrow> fnv1a p h bs = fnv1a p h' bs \<Longrightarrow> h = h'"
  by (induction bs arbitrary: h h') (auto dest: fnv_step_inj_hash)

text \<open>One changed byte, anywhere, changes the hash.\<close>

lemma fnv1a_single_byte:
  assumes "odd (p :: 'a::len word)" and "8 \<le> LENGTH('a)" and "b \<noteq> c"
  shows "fnv1a p h (xs @ b # ys) \<noteq> fnv1a p h (xs @ c # ys)"
proof
  assume "fnv1a p h (xs @ b # ys) = fnv1a p h (xs @ c # ys)"
  then have "fnv1a p (fnv_step p (fnv1a p h xs) b) ys = fnv1a p (fnv_step p (fnv1a p h xs) c) ys"
    by (simp add: fnv1a_append)
  then have "fnv_step p (fnv1a p h xs) b = fnv_step p (fnv1a p h xs) c"
    using assms(1) by (blast dest: fnv1a_inj_hash)
  then show False using assms fnv_step_inj_byte by blast
qed

text \<open>The same, for a byte replaced in place.\<close>

lemma fnv1a_update_neq:
  assumes "odd (p :: 'a::len word)" and "8 \<le> LENGTH('a)"
    and "i < length bs" and "v \<noteq> bs ! i"
  shows "fnv1a p h (bs[i := v]) \<noteq> fnv1a p h bs"
proof -
  have "bs = take i bs @ bs ! i # drop (Suc i) bs"
    using assms(3) by (rule id_take_nth_drop)
  moreover have "bs[i := v] = take i bs @ v # drop (Suc i) bs"
    using assms(3) by (rule upd_conv_take_nth_drop)
  ultimately show ?thesis
    using fnv1a_single_byte [OF assms(1,2,4), of h "take i bs" "drop (Suc i) bs"] by simp
qed

end
