(* ===== verification/App_Config.thy ===== *)
theory App_Config imports Controller_Policy Fnv1a
begin

text \<open>
  \<open>main/app_config.c\<close>: validation of the build-time configuration, the node's identity and
  the topology fingerprint that persistent state must match. The Kconfig symbols are the
  fields of a \<open>sdkconfig\<close> record (a disabled \<open>#ifdef\<close> option is \<open>False\<close>, an optional one
  \<open>None\<close>); the target's GPIO capabilities and the factory MAC come from ESP-IDF and are
  arguments. \<open>strtol\<close> in base 10 on a 32-bit \<open>long\<close> is written out.
\<close>

section \<open>Configuration data\<close>

definition APP_CONFIG_MAX_FANS :: nat where
  "APP_CONFIG_MAX_FANS = 4"

definition APP_CONFIG_NODE_ID_CAPACITY :: nat where
  "APP_CONFIG_NODE_ID_CAPACITY = 49"

definition APP_CONFIG_TOPIC_CAPACITY :: nat where
  "APP_CONFIG_TOPIC_CAPACITY = 128"

definition TOPIC_SUFFIX_CAPACITY :: nat where
  "TOPIC_SUFFIX_CAPACITY = 112"

record sdkconfig =
  CONFIG_FAN_COUNT :: int
  CONFIG_FAN_INDEX_START :: int
  CONFIG_DSHOT_GPIO :: string
  CONFIG_TACH_GPIO :: "string option"
  CONFIG_MOTOR_INTERLOCK_GPIO :: "int option"
  CONFIG_MIN_SPIN_PCT :: int
  CONFIG_RAMP_STEP_PCT :: int
  CONFIG_RAMP_TICK_MS :: int
  CONFIG_NODE_ID :: string
  CONFIG_MQTT_ROOT_TOPIC :: string
  CONFIG_MQTT_LEGACY_TOPICS :: bool

record soc =
  GPIO_IS_VALID_OUTPUT_GPIO :: "int \<Rightarrow> bool"
  GPIO_IS_VALID_GPIO :: "int \<Rightarrow> bool"
  esp_read_mac :: "esp_err \<times> u8 list"

record app_config =
  fan_count :: int
  fan_index_start :: int
  min_spin_pct :: int
  ramp_step_pct :: int
  ramp_tick_ms :: int
  dshot_gpios :: "int list"
  tach_gpios :: "int list"
  topology_fp :: u64
  mqtt_root_topic :: string
  node_id :: string
  node_topic :: string

section \<open>The C library\<close>

definition skip_space :: "string \<Rightarrow> string" where
  "skip_space p = dropWhile isspace p"

definition INT_MAX :: int where
  "INT_MAX = 2147483647"

text \<open>\<open>strtol(s, &end, 10)\<close>: the value, whether \<open>errno\<close> is \<open>ERANGE\<close>, and \<open>end\<close>, which is \<open>s\<close>
  itself when there is no number.\<close>

definition strtol10 :: "string \<Rightarrow> int \<times> bool \<times> string" where
  "strtol10 s =
     (let p = skip_space s;
          (neg, q) = (if char_at p 0 = CHR ''-'' then (True, tl p)
                      else if char_at p 0 = CHR ''+'' then (False, tl p) else (False, p));
          ds = takeWhile isdigit q;
          v = (if neg then - int (dec_val ds) else int (dec_val ds))
      in if ds = [] then (0, False, s)
         else if v > INT_MAX then (INT_MAX, True, dropWhile isdigit q)
         else if v < - INT_MAX - 1 then (- INT_MAX - 1, True, dropWhile isdigit q)
         else (v, False, dropWhile isdigit q))"

definition strlcpy :: "string \<Rightarrow> nat \<Rightarrow> string" where
  "strlcpy s capacity = take (capacity - 1) s"

definition hex_digit :: "nat \<Rightarrow> char" where
  "hex_digit n = ''0123456789ABCDEF'' ! n"

definition format_02X :: "u8 \<Rightarrow> string" where
  "format_02X b = [hex_digit (unat b div 16), hex_digit (unat b mod 16)]"

section \<open>GPIO lists\<close>

text \<open>One field of a GPIO list: the number and the text from the separator on.\<close>

definition parse_gpio_field :: "string \<Rightarrow> (int \<times> string) option" where
  "parse_gpio_field cursor =
     (let field = skip_space cursor; (gpio_value, erange, rest) = strtol10 field
      in if erange \<or> rest = field \<or> gpio_value < 0 \<or> gpio_value > INT_MAX then None
         else let end' = skip_space rest
              in if char_at end' 0 \<noteq> NUL \<and> char_at end' 0 \<noteq> CHR '','' then None
                 else Some (gpio_value, end'))"

function dshot_gpio_loop ::
  "sdkconfig \<Rightarrow> soc \<Rightarrow> app_config \<Rightarrow> nat \<Rightarrow> string \<Rightarrow> (app_config \<times> nat) option" where
  "dshot_gpio_loop sdk soc config count cursor =
     (if count \<ge> APP_CONFIG_MAX_FANS then None
      else case parse_gpio_field cursor of None \<Rightarrow> None
      | Some (gpio, end') \<Rightarrow>
        if \<not> GPIO_IS_VALID_OUTPUT_GPIO soc gpio then None
        else if CONFIG_MOTOR_INTERLOCK_GPIO sdk = Some gpio then None
        else if \<exists>i \<in> {0..<count}. dshot_gpios config ! i = gpio then None
        else let config' = config\<lparr>dshot_gpios := (dshot_gpios config)[count := gpio]\<rparr>
        in if end' = [] then Some (config', count + 1)
        else if skip_space (tl end') = [] then None
        else dshot_gpio_loop sdk soc config' (count + 1) (tl end'))"
  by pat_completeness auto
termination by (relation "measure (\<lambda>(sdk, soc, config, count, cursor). APP_CONFIG_MAX_FANS - count)") auto

text \<open>\<open>None\<close> is the C function's \<open>-1\<close>; otherwise it returns the count.\<close>

definition parse_dshot_gpios :: "sdkconfig \<Rightarrow> soc \<Rightarrow> app_config \<Rightarrow> (app_config \<times> nat) option" where
  "parse_dshot_gpios sdk soc config =
     (if fan_count config < 1 \<or> fan_count config > int APP_CONFIG_MAX_FANS then None
      else case dshot_gpio_loop sdk soc config 0 (CONFIG_DSHOT_GPIO sdk) of None \<Rightarrow> None
      | Some (config', count) \<Rightarrow>
          if int count \<noteq> fan_count config' then None else Some (config', count))"

function tach_gpio_loop ::
  "sdkconfig \<Rightarrow> soc \<Rightarrow> app_config \<Rightarrow> nat \<Rightarrow> string \<Rightarrow> (app_config \<times> nat) option" where
  "tach_gpio_loop sdk soc config count cursor =
     (if count \<ge> APP_CONFIG_MAX_FANS then None
      else case parse_gpio_field cursor of None \<Rightarrow> None
      | Some (gpio, end') \<Rightarrow>
        if \<not> GPIO_IS_VALID_GPIO soc gpio then None
        else if \<exists>i \<in> {0..<count}. tach_gpios config ! i = gpio then None
        else if \<exists>i \<in> {0..<nat (fan_count config)}. dshot_gpios config ! i = gpio then None
        else if CONFIG_MOTOR_INTERLOCK_GPIO sdk = Some gpio then None
        else let config' = config\<lparr>tach_gpios := (tach_gpios config)[count := gpio]\<rparr>
        in if end' = [] then Some (config', count + 1)
        else if skip_space (tl end') = [] then None
        else tach_gpio_loop sdk soc config' (count + 1) (tl end'))"
  by pat_completeness auto
termination by (relation "measure (\<lambda>(sdk, soc, config, count, cursor). APP_CONFIG_MAX_FANS - count)") auto

definition parse_tach_gpios ::
  "sdkconfig \<Rightarrow> soc \<Rightarrow> string \<Rightarrow> app_config \<Rightarrow> (app_config \<times> nat) option" where
  "parse_tach_gpios sdk soc gpio_list config =
     (case tach_gpio_loop sdk soc config 0 gpio_list of None \<Rightarrow> None
      | Some (config', count) \<Rightarrow>
          if int count \<noteq> fan_count config' then None else Some (config', count))"

section \<open>Identity and fingerprint\<close>

definition initialize_node_identity :: "sdkconfig \<Rightarrow> soc \<Rightarrow> app_config \<Rightarrow> app_config option" where
  "initialize_node_identity sdk soc config =
     (if CONFIG_MQTT_LEGACY_TOPICS sdk \<and>
         (fan_index_start config < 1 \<or> fan_index_start config + fan_count config - 1 > 8) then None
      else if \<not> controller_identifier_valid (Some (CONFIG_NODE_ID sdk)) True \<or>
         length (CONFIG_NODE_ID sdk) \<ge> APP_CONFIG_NODE_ID_CAPACITY \<or>
         \<not> controller_topic_level_valid (Some (CONFIG_MQTT_ROOT_TOPIC sdk)) then None
      else if CONFIG_NODE_ID sdk = [] \<and> fst (esp_read_mac soc) \<noteq> ESP_OK then None
      else let nid = (if CONFIG_NODE_ID sdk \<noteq> []
                then strlcpy (CONFIG_NODE_ID sdk) APP_CONFIG_NODE_ID_CAPACITY
                else take (APP_CONFIG_NODE_ID_CAPACITY - 1)
                  (''esp32s3_'' @ concat (map format_02X (take 6 (snd (esp_read_mac soc))))))
      in case controller_build_node_topic APP_CONFIG_TOPIC_CAPACITY
                (Some (CONFIG_MQTT_ROOT_TOPIC sdk)) (Some nid) of
           None \<Rightarrow> None
         | Some topic \<Rightarrow> Some (config\<lparr>node_id := nid, node_topic := topic,
             mqtt_root_topic := strlcpy (CONFIG_MQTT_ROOT_TOPIC sdk) APP_CONFIG_TOPIC_CAPACITY\<rparr>))"

definition FNV64_PRIME :: u64 where
  "FNV64_PRIME = 1099511628211"

definition fingerprint_bytes :: "u64 \<Rightarrow> u8 list \<Rightarrow> u64" where
  "fingerprint_bytes hash data = fnv1a FNV64_PRIME hash data"

definition fingerprint_u32 :: "u64 \<Rightarrow> u32 \<Rightarrow> u64" where
  "fingerprint_u32 hash value = fingerprint_bytes hash (le32 value)"

definition str_bytes :: "string \<Rightarrow> u8 list" where
  "str_bytes s = map (\<lambda>c. of_nat (chr_code c)) s"

definition fingerprint_u32s :: "u64 \<Rightarrow> int list \<Rightarrow> u64" where
  "fingerprint_u32s hash vs = fold (\<lambda>v h. fingerprint_u32 h (of_int v)) vs hash"

definition topology_fingerprint :: "bool \<Rightarrow> app_config \<Rightarrow> u64" where
  "topology_fingerprint tach_enabled config =
     (let n = nat (fan_count config);
          h1 = fingerprint_bytes 14695981039346656037 (str_bytes ''ESP32_DShot/topology/v1'');
          h2 = fingerprint_u32 h1 (of_nat (length (node_id config)));
          h3 = fingerprint_bytes h2 (str_bytes (node_id config));
          h4 = fingerprint_u32 h3 (of_int (fan_count config));
          h5 = fingerprint_u32 h4 (of_int (fan_index_start config));
          h6 = fingerprint_u32s h5 (take n (dshot_gpios config))
      in if tach_enabled then fingerprint_u32s (fingerprint_bytes h6 [1]) (take n (tach_gpios config))
         else fingerprint_bytes h6 [0])"

section \<open>The singleton\<close>

text \<open>\<open>s_config\<close> together with \<open>s_initialized\<close>: \<open>None\<close> before a successful initialisation.\<close>

type_synonym app_config_state = "app_config option"

definition config_candidate :: "sdkconfig \<Rightarrow> app_config" where
  "config_candidate sdk =
     \<lparr>fan_count = CONFIG_FAN_COUNT sdk, fan_index_start = CONFIG_FAN_INDEX_START sdk,
      min_spin_pct = CONFIG_MIN_SPIN_PCT sdk, ramp_step_pct = CONFIG_RAMP_STEP_PCT sdk,
      ramp_tick_ms = CONFIG_RAMP_TICK_MS sdk,
      dshot_gpios = replicate APP_CONFIG_MAX_FANS 0, tach_gpios = replicate APP_CONFIG_MAX_FANS 0,
      topology_fp = 0, mqtt_root_topic = [], node_id = [], node_topic = []\<rparr>"

definition app_config_init :: "sdkconfig \<Rightarrow> soc \<Rightarrow> app_config_state \<Rightarrow> esp_err \<times> app_config_state" where
  "app_config_init sdk soc st =
     (if st \<noteq> None then (ESP_OK, st)
      else case parse_dshot_gpios sdk soc (config_candidate sdk) of
        None \<Rightarrow> (ESP_ERR_INVALID_ARG, st)
      | Some (c1, _) \<Rightarrow>
        (case initialize_node_identity sdk soc c1 of
           None \<Rightarrow> (ESP_ERR_INVALID_ARG, st)
         | Some c2 \<Rightarrow>
           (case CONFIG_TACH_GPIO sdk of
              None \<Rightarrow> (ESP_OK, Some (c2\<lparr>topology_fp := topology_fingerprint False c2\<rparr>))
            | Some gpio_list \<Rightarrow>
              (case parse_tach_gpios sdk soc gpio_list c2 of
                 None \<Rightarrow> (ESP_ERR_INVALID_ARG, st)
               | Some (c3, _) \<Rightarrow> (ESP_OK, Some (c3\<lparr>topology_fp := topology_fingerprint True c3\<rparr>))))))"

definition app_config_get :: "app_config_state \<Rightarrow> app_config option" where
  "app_config_get st = st"

text \<open>\<open>suffix\<close> is what \<open>vsnprintf\<close> renders from the format and its arguments, \<open>None\<close> when it
  reports an error.\<close>

definition format_topic :: "nat \<Rightarrow> string \<Rightarrow> string option \<Rightarrow> string option" where
  "format_topic out_size prefix suffix =
     (if out_size = 0 \<or> prefix = [] then None
      else case suffix of None \<Rightarrow> None
      | Some s \<Rightarrow>
          if length s \<ge> TOPIC_SUFFIX_CAPACITY then None
          else let text = prefix @ ''/'' @ s
               in if 0 < length text \<and> length text < out_size then Some text else None)"

definition app_config_format_node_topic ::
  "app_config_state \<Rightarrow> nat \<Rightarrow> string option \<Rightarrow> string option" where
  "app_config_format_node_topic st out_size suffix =
     (case st of None \<Rightarrow> None | Some c \<Rightarrow> format_topic out_size (node_topic c) suffix)"

definition app_config_format_legacy_topic ::
  "app_config_state \<Rightarrow> nat \<Rightarrow> string option \<Rightarrow> string option" where
  "app_config_format_legacy_topic st out_size suffix =
     (case st of None \<Rightarrow> None | Some c \<Rightarrow> format_topic out_size (mqtt_root_topic c) suffix)"

section \<open>GPIO lists hold distinct, valid pins\<close>

declare dshot_gpio_loop.simps [simp del] tach_gpio_loop.simps [simp del]

lemma dshot_gpio_loop_inv:
  assumes "dshot_gpio_loop sdk soc config count cursor = Some (config', n)"
    and "length (dshot_gpios config) = 4"
    and "distinct (take count (dshot_gpios config))"
    and "\<forall>g \<in> set (take count (dshot_gpios config)).
           GPIO_IS_VALID_OUTPUT_GPIO soc g \<and> CONFIG_MOTOR_INTERLOCK_GPIO sdk \<noteq> Some g \<and> 0 \<le> g"
  shows "distinct (take n (dshot_gpios config')) \<and> length (dshot_gpios config') = 4 \<and> n \<le> 4 \<and>
    (\<forall>g \<in> set (take n (dshot_gpios config')).
       GPIO_IS_VALID_OUTPUT_GPIO soc g \<and> CONFIG_MOTOR_INTERLOCK_GPIO sdk \<noteq> Some g \<and> 0 \<le> g) \<and>
    (\<exists>gs. config' = config\<lparr>dshot_gpios := gs\<rparr>)"
  using assms
proof (induction sdk soc config count cursor rule: dshot_gpio_loop.induct)
  case (1 sdk soc config count cursor)
  from "1.prems"(1) obtain gpio end' where c: "count < 4"
    and f: "parse_gpio_field cursor = Some (gpio, end')"
    and ok: "GPIO_IS_VALID_OUTPUT_GPIO soc gpio" "CONFIG_MOTOR_INTERLOCK_GPIO sdk \<noteq> Some gpio"
      "\<not> (\<exists>i \<in> {0..<count}. dshot_gpios config ! i = gpio)"
    by (subst (asm) dshot_gpio_loop.simps)
      (auto simp: APP_CONFIG_MAX_FANS_def Let_def split: if_splits option.splits)
  let ?c = "config\<lparr>dshot_gpios := (dshot_gpios config)[count := gpio]\<rparr>"
  have g0: "0 \<le> gpio" using f by (auto simp: parse_gpio_field_def Let_def split: if_splits prod.splits)
  have take: "take (Suc count) ((dshot_gpios config)[count := gpio]) = take count (dshot_gpios config) @ [gpio]"
    using c "1.prems"(2) by (simp add: take_Suc_conv_app_nth)
  have new: "gpio \<notin> set (take count (dshot_gpios config))"
    using ok(3) c "1.prems"(2) by (auto simp: in_set_conv_nth)
  have inv: "distinct (take (Suc count) (dshot_gpios ?c))"
    "\<forall>g \<in> set (take (Suc count) (dshot_gpios ?c)).
       GPIO_IS_VALID_OUTPUT_GPIO soc g \<and> CONFIG_MOTOR_INTERLOCK_GPIO sdk \<noteq> Some g \<and> 0 \<le> g"
    using "1.prems"(3,4) ok g0 new by (auto simp: take)
  from "1.prems"(1) f ok c consider
      "config' = ?c" "n = Suc count"
    | "dshot_gpio_loop sdk soc ?c (count + 1) (tl end') = Some (config', n)"
      "end' \<noteq> []" "skip_space (tl end') \<noteq> []"
    by (subst (asm) (1) dshot_gpio_loop.simps)
      (auto simp: APP_CONFIG_MAX_FANS_def Let_def split: if_splits)
  then show ?case
  proof cases
    case 1
    then show ?thesis using inv c "1.prems"(2) by auto
  next
    case 2
    have "distinct (take n (dshot_gpios config')) \<and> length (dshot_gpios config') = 4 \<and> n \<le> 4 \<and>
      (\<forall>g \<in> set (take n (dshot_gpios config')).
        GPIO_IS_VALID_OUTPUT_GPIO soc g \<and> CONFIG_MOTOR_INTERLOCK_GPIO sdk \<noteq> Some g \<and> 0 \<le> g) \<and>
      (\<exists>gs. config' = ?c\<lparr>dshot_gpios := gs\<rparr>)"
      by (rule "1.IH" [OF _ f refl _ _ _ refl _ _ 2(1)])
        (use c ok 2 inv "1.prems"(2) in \<open>auto simp: APP_CONFIG_MAX_FANS_def\<close>)
    then show ?thesis by auto
  qed
qed


lemma tach_gpio_loop_inv:
  assumes "tach_gpio_loop sdk soc config count cursor = Some (config', n)"
    and "length (tach_gpios config) = 4"
    and "distinct (take count (tach_gpios config))"
    and "\<forall>g \<in> set (take count (tach_gpios config)). GPIO_IS_VALID_GPIO soc g \<and>
           CONFIG_MOTOR_INTERLOCK_GPIO sdk \<noteq> Some g \<and>
           (\<forall>i < nat (fan_count config). dshot_gpios config ! i \<noteq> g)"
  shows "distinct (take n (tach_gpios config')) \<and>
    (\<forall>g \<in> set (take n (tach_gpios config')). GPIO_IS_VALID_GPIO soc g \<and>
       CONFIG_MOTOR_INTERLOCK_GPIO sdk \<noteq> Some g \<and>
       (\<forall>i < nat (fan_count config). dshot_gpios config ! i \<noteq> g)) \<and>
    (\<exists>gs. length gs = 4 \<and> config' = config\<lparr>tach_gpios := gs\<rparr>)"
  using assms
proof (induction sdk soc config count cursor rule: tach_gpio_loop.induct)
  case (1 sdk soc config count cursor)
  from "1.prems"(1) obtain gpio end' where c: "count < 4"
    and f: "parse_gpio_field cursor = Some (gpio, end')"
    and ok: "GPIO_IS_VALID_GPIO soc gpio" "\<not> (\<exists>i \<in> {0..<count}. tach_gpios config ! i = gpio)"
      "\<not> (\<exists>i \<in> {0..<nat (fan_count config)}. dshot_gpios config ! i = gpio)"
      "CONFIG_MOTOR_INTERLOCK_GPIO sdk \<noteq> Some gpio"
    by (subst (asm) tach_gpio_loop.simps)
      (auto simp: APP_CONFIG_MAX_FANS_def Let_def split: if_splits option.splits)
  let ?c = "config\<lparr>tach_gpios := (tach_gpios config)[count := gpio]\<rparr>"
  have take: "take (Suc count) ((tach_gpios config)[count := gpio]) = take count (tach_gpios config) @ [gpio]"
    using c "1.prems"(2) by (simp add: take_Suc_conv_app_nth)
  have new: "gpio \<notin> set (take count (tach_gpios config))"
    using ok(2) c "1.prems"(2) by (auto simp: in_set_conv_nth)
  have inv: "distinct (take (Suc count) (tach_gpios ?c))"
    "\<forall>g \<in> set (take (Suc count) (tach_gpios ?c)). GPIO_IS_VALID_GPIO soc g \<and>
       CONFIG_MOTOR_INTERLOCK_GPIO sdk \<noteq> Some g \<and> (\<forall>i < nat (fan_count config). dshot_gpios config ! i \<noteq> g)"
    using "1.prems"(3,4) ok new by (auto simp: take)
  from "1.prems"(1) f ok c consider
      "config' = ?c" "n = Suc count"
    | "tach_gpio_loop sdk soc ?c (count + 1) (tl end') = Some (config', n)"
      "end' \<noteq> []" "skip_space (tl end') \<noteq> []"
    by (subst (asm) (1) tach_gpio_loop.simps)
      (auto simp: APP_CONFIG_MAX_FANS_def Let_def split: if_splits)
  then show ?case
  proof cases
    case 1
    then show ?thesis
      using inv c "1.prems"(2) by (auto intro: exI [of _ "(tach_gpios config)[count := gpio]"])
  next
    case 2
    have "distinct (take n (tach_gpios config')) \<and>
      (\<forall>g \<in> set (take n (tach_gpios config')). GPIO_IS_VALID_GPIO soc g \<and>
         CONFIG_MOTOR_INTERLOCK_GPIO sdk \<noteq> Some g \<and>
         (\<forall>i < nat (fan_count ?c). dshot_gpios ?c ! i \<noteq> g)) \<and>
      (\<exists>gs. length gs = 4 \<and> config' = ?c\<lparr>tach_gpios := gs\<rparr>)"
      by (rule "1.IH" [OF _ f refl _ _ _ _ refl _ _ 2(1)])
        (use c ok 2 inv "1.prems"(2) in \<open>auto simp: APP_CONFIG_MAX_FANS_def\<close>)
    then show ?thesis by auto
  qed
qed

text \<open>What each stage of the initialisation hands to the next.\<close>

lemma parse_dshot_gpios_SomeD:
  assumes "parse_dshot_gpios sdk soc (config_candidate sdk) = Some (c, n)"
  shows "int n = fan_count c" and "1 \<le> fan_count c" and "fan_count c \<le> 4"
    and "distinct (take n (dshot_gpios c))" and "length (dshot_gpios c) = 4"
    and "\<forall>g \<in> set (take n (dshot_gpios c)).
           GPIO_IS_VALID_OUTPUT_GPIO soc g \<and> CONFIG_MOTOR_INTERLOCK_GPIO sdk \<noteq> Some g \<and> 0 \<le> g"
    and "\<exists>gs. c = (config_candidate sdk)\<lparr>dshot_gpios := gs\<rparr>"
proof -
  from assms have l: "dshot_gpio_loop sdk soc (config_candidate sdk) 0 (CONFIG_DSHOT_GPIO sdk) = Some (c, n)"
    and n: "int n = fan_count c"
    and b: "1 \<le> fan_count (config_candidate sdk)" "fan_count (config_candidate sdk) \<le> 4"
    by (auto simp: parse_dshot_gpios_def APP_CONFIG_MAX_FANS_def split: option.splits if_splits)
  note I = dshot_gpio_loop_inv [OF l]
  have len: "length (dshot_gpios (config_candidate sdk)) = 4"
    by (simp add: config_candidate_def APP_CONFIG_MAX_FANS_def)
  have fc: "fan_count c = fan_count (config_candidate sdk)" using I len by auto
  show "int n = fan_count c" "1 \<le> fan_count c" "fan_count c \<le> 4"
    using n b by (simp_all add: fc)
  show "distinct (take n (dshot_gpios c))" "length (dshot_gpios c) = 4"
    "\<forall>g \<in> set (take n (dshot_gpios c)).
       GPIO_IS_VALID_OUTPUT_GPIO soc g \<and> CONFIG_MOTOR_INTERLOCK_GPIO sdk \<noteq> Some g \<and> 0 \<le> g"
    "\<exists>gs. c = (config_candidate sdk)\<lparr>dshot_gpios := gs\<rparr>"
    using I len by auto
qed

lemma build_node_topic_SomeD:
  "controller_build_node_topic n (Some r) (Some i) = Some t \<Longrightarrow>
     t = r @ ''/nodes/'' @ i \<and> length t < n \<and> controller_identifier_valid (Some i) False \<and>
     controller_identifier_valid (Some r) False"
  by (auto simp: controller_build_node_topic_def controller_topic_level_valid_def Let_def
      split: if_splits)

lemma initialize_node_identity_SomeD:
  assumes "initialize_node_identity sdk soc c = Some c'"
  shows "node_topic c' = CONFIG_MQTT_ROOT_TOPIC sdk @ ''/nodes/'' @ node_id c'"
    and "mqtt_root_topic c' = CONFIG_MQTT_ROOT_TOPIC sdk"
    and "length (node_topic c') < 128" and "length (node_id c') < 49"
    and "controller_identifier_valid (Some (node_id c')) False"
    and "controller_identifier_valid (Some (mqtt_root_topic c')) False"
    and "\<exists>i t r. c' = c\<lparr>node_id := i, node_topic := t, mqtt_root_topic := r\<rparr>"
    and "CONFIG_NODE_ID sdk \<noteq> [] \<Longrightarrow> node_id c' = CONFIG_NODE_ID sdk"
    and "CONFIG_MQTT_LEGACY_TOPICS sdk \<Longrightarrow> 1 \<le> fan_index_start c' \<and> fan_index_start c' + fan_count c' \<le> 9"
proof -
  from assms obtain nid topic where
      b: "controller_build_node_topic 128 (Some (CONFIG_MQTT_ROOT_TOPIC sdk)) (Some nid) = Some topic"
    and c': "c' = c\<lparr>node_id := nid, node_topic := topic,
       mqtt_root_topic := strlcpy (CONFIG_MQTT_ROOT_TOPIC sdk) 128\<rparr>"
    and nid: "length nid < 49" "CONFIG_NODE_ID sdk \<noteq> [] \<longrightarrow> nid = CONFIG_NODE_ID sdk"
    and leg: "CONFIG_MQTT_LEGACY_TOPICS sdk \<longrightarrow> 1 \<le> fan_index_start c \<and> fan_index_start c + fan_count c \<le> 9"
    by (fastforce simp: initialize_node_identity_def Let_def APP_CONFIG_TOPIC_CAPACITY_def
        APP_CONFIG_NODE_ID_CAPACITY_def strlcpy_def not_less split: if_splits option.splits)
  note B = build_node_topic_SomeD [OF b]
  from B have "length (CONFIG_MQTT_ROOT_TOPIC sdk) \<le> 127" by (elim conjE) (drule arg_cong [of _ _ length], simp)
  then show "node_topic c' = CONFIG_MQTT_ROOT_TOPIC sdk @ ''/nodes/'' @ node_id c'"
    "mqtt_root_topic c' = CONFIG_MQTT_ROOT_TOPIC sdk" "length (node_topic c') < 128"
    "length (node_id c') < 49" "controller_identifier_valid (Some (node_id c')) False"
    "controller_identifier_valid (Some (mqtt_root_topic c')) False"
    "\<exists>i t r. c' = c\<lparr>node_id := i, node_topic := t, mqtt_root_topic := r\<rparr>"
    "CONFIG_NODE_ID sdk \<noteq> [] \<Longrightarrow> node_id c' = CONFIG_NODE_ID sdk"
    "CONFIG_MQTT_LEGACY_TOPICS sdk \<Longrightarrow> 1 \<le> fan_index_start c' \<and> fan_index_start c' + fan_count c' \<le> 9"
    using B nid leg c' by (auto simp: strlcpy_def)
qed

section \<open>The fingerprint as a hash of a serialisation\<close>

definition u32s_bytes :: "int list \<Rightarrow> u8 list" where
  "u32s_bytes vs = concat (map (\<lambda>v. le32 (of_int v)) vs)"

definition topology_bytes :: "bool \<Rightarrow> app_config \<Rightarrow> u8 list" where
  "topology_bytes tach_enabled config =
     str_bytes ''ESP32_DShot/topology/v1'' @ le32 (of_nat (length (node_id config))) @
     str_bytes (node_id config) @ le32 (of_int (fan_count config)) @
     le32 (of_int (fan_index_start config)) @
     u32s_bytes (take (nat (fan_count config)) (dshot_gpios config)) @
     (if tach_enabled then 1 # u32s_bytes (take (nat (fan_count config)) (tach_gpios config)) else [0])"

lemma fingerprint_u32s_fnv1a: "fingerprint_u32s h vs = fnv1a FNV64_PRIME h (u32s_bytes vs)"
  by (induction vs arbitrary: h)
    (auto simp: fingerprint_u32s_def u32s_bytes_def fingerprint_u32_def fingerprint_bytes_def fnv1a_append)

lemma topology_fingerprint_fnv1a:
  "topology_fingerprint t c = fnv1a FNV64_PRIME 14695981039346656037 (topology_bytes t c)"
  by (simp add: topology_fingerprint_def topology_bytes_def fingerprint_u32s_fnv1a
      fingerprint_u32_def fingerprint_bytes_def fnv1a_append Let_def)

lemma topology_fingerprint_fp [simp]:
  "topology_fingerprint t (c\<lparr>topology_fp := x\<rparr>) = topology_fingerprint t c"
  by (simp add: topology_fingerprint_def Let_def)

lemma FNV64_PRIME_odd: "odd FNV64_PRIME"
  by (simp add: FNV64_PRIME_def)

lemma u32s_bytes_append: "u32s_bytes (xs @ ys) = u32s_bytes xs @ u32s_bytes ys"
  by (simp add: u32s_bytes_def)

lemma le32_small:
  assumes "0 \<le> v" and "v < 256"
  shows "le32 (of_int v) = [of_int v, 0, 0, 0]"
proof -
  have hi: "drop_bit n (of_int v :: u32) = 0" if "8 \<le> n" for n
  proof -
    have "unat (of_int v :: u32) = nat v" using assms by (simp add: unsigned_of_int take_bit_int_eq_self nat_less_iff)
    moreover have "nat v < 2 ^ n"
    proof -
      have "nat v < 2 ^ 8" using assms by simp
      also have "(2::nat) ^ 8 \<le> 2 ^ n" using that by (rule power_increasing) simp
      finally show ?thesis .
    qed
    ultimately have "unat (drop_bit n (of_int v :: u32)) = 0"
      using assms by (subst unsigned_drop_bit_eq) (simp add: drop_bit_eq_div take_bit_nat_eq_self)
    then show ?thesis by (simp only: unat_eq_0)
  qed
  have "ucast (of_int v :: u32) = (of_int v :: u8)"
    using assms by (simp add: unsigned_of_int take_bit_int_eq_self)
  then show ?thesis by (simp add: le32_def hi)
qed


text \<open>Reassigning one fan to another pin changes exactly one byte of the serialisation.\<close>

lemma u32s_bytes_update:
  assumes "i < n" and "n \<le> length gs" and "gs ! i \<in> {0..<256}" and "g \<in> {0..<256}"
  shows "\<exists>xs ys. u32s_bytes (take n gs) = xs @ of_int (gs ! i) # ys \<and>
                 u32s_bytes (take n (gs[i := g])) = xs @ of_int g # ys"
proof -
  let ?t = "take n gs"
  have t: "?t = take i ?t @ gs ! i # drop (Suc i) ?t" "take n (gs[i := g]) = take i ?t @ g # drop (Suc i) ?t"
    using assms(1,2) id_take_nth_drop [of i ?t] upd_conv_take_nth_drop [of i ?t g]
    by (simp_all add: take_update_swap)
  let ?xs = "u32s_bytes (take i ?t)" and ?ys = "[0, 0, 0] @ u32s_bytes (drop (Suc i) ?t)"
  have "u32s_bytes ?t = ?xs @ of_int (gs ! i) # ?ys"
    by (subst t(1)) (use assms(3) in \<open>simp add: u32s_bytes_def le32_small\<close>)
  moreover have "u32s_bytes (take n (gs[i := g])) = ?xs @ of_int g # ?ys"
    by (subst t(2)) (use assms(4) in \<open>simp add: u32s_bytes_def le32_small\<close>)
  ultimately show ?thesis by blast
qed

lemma of_int_byte_inj:
  assumes "a \<in> {0..<256}" and "b \<in> {0..<256}" and "(of_int a :: u8) = of_int b"
  shows "a = b"
proof -
  have "uint (of_int a :: u8) = a" "uint (of_int b :: u8) = b"
    using assms(1,2) by (simp_all add: unsigned_of_int take_bit_int_eq_self)
  then show ?thesis using assms(3) by metis
qed

lemma topology_bytes_dshot_update:
  assumes "i < nat (fan_count c)" and "nat (fan_count c) \<le> length (dshot_gpios c)"
    and "dshot_gpios c ! i \<in> {0..<256}" and "g \<in> {0..<256}" and "g \<noteq> dshot_gpios c ! i"
  shows "topology_fingerprint t (c\<lparr>dshot_gpios := (dshot_gpios c)[i := g]\<rparr>) \<noteq> topology_fingerprint t c"
proof -
  from u32s_bytes_update [OF assms(1-4)] obtain xs ys where
    u: "u32s_bytes (take (nat (fan_count c)) (dshot_gpios c)) = xs @ of_int (dshot_gpios c ! i) # ys"
       "u32s_bytes (take (nat (fan_count c)) ((dshot_gpios c)[i := g])) = xs @ of_int g # ys" by blast
  let ?P = "str_bytes ''ESP32_DShot/topology/v1'' @ le32 (of_nat (length (node_id c))) @ str_bytes (node_id c) @
    le32 (of_int (fan_count c)) @ le32 (of_int (fan_index_start c)) @ xs" and ?Q = "ys @ (if t then 1 # u32s_bytes (take (nat (fan_count c)) (tach_gpios c)) else [0])"
  have "topology_bytes t c = ?P @ of_int (dshot_gpios c ! i) # ?Q"
    "topology_bytes t (c\<lparr>dshot_gpios := (dshot_gpios c)[i := g]\<rparr>) = ?P @ of_int g # ?Q"
    using u by (simp_all add: topology_bytes_def)
  moreover have "(of_int g :: u8) \<noteq> of_int (dshot_gpios c ! i)"
    using of_int_byte_inj [OF assms(4,3)] assms(5) by blast
  then have "fnv1a FNV64_PRIME h (?P @ of_int g # ?Q) \<noteq> fnv1a FNV64_PRIME h (?P @ of_int (dshot_gpios c ! i) # ?Q)" for h
    by (intro fnv1a_single_byte [OF FNV64_PRIME_odd]) simp_all
  ultimately show ?thesis by (simp only: topology_fingerprint_fnv1a) simp
qed

lemma topology_bytes_tach_update:
  assumes "i < nat (fan_count c)" and "nat (fan_count c) \<le> length (tach_gpios c)"
    and "tach_gpios c ! i \<in> {0..<256}" and "g \<in> {0..<256}" and "g \<noteq> tach_gpios c ! i"
  shows "topology_fingerprint True (c\<lparr>tach_gpios := (tach_gpios c)[i := g]\<rparr>) \<noteq> topology_fingerprint True c"
proof -
  from u32s_bytes_update [OF assms(1-4)] obtain xs ys where
    u: "u32s_bytes (take (nat (fan_count c)) (tach_gpios c)) = xs @ of_int (tach_gpios c ! i) # ys"
       "u32s_bytes (take (nat (fan_count c)) ((tach_gpios c)[i := g])) = xs @ of_int g # ys" by blast
  let ?P = "str_bytes ''ESP32_DShot/topology/v1'' @ le32 (of_nat (length (node_id c))) @ str_bytes (node_id c) @
    le32 (of_int (fan_count c)) @ le32 (of_int (fan_index_start c)) @ u32s_bytes (take (nat (fan_count c)) (dshot_gpios c)) @ 1 # xs" and ?Q = "ys"
  have "topology_bytes True c = ?P @ of_int (tach_gpios c ! i) # ?Q"
    "topology_bytes True (c\<lparr>tach_gpios := (tach_gpios c)[i := g]\<rparr>) = ?P @ of_int g # ?Q"
    using u by (simp_all add: topology_bytes_def)
  moreover have "(of_int g :: u8) \<noteq> of_int (tach_gpios c ! i)"
    using of_int_byte_inj [OF assms(4,3)] assms(5) by blast
  then have "fnv1a FNV64_PRIME h (?P @ of_int g # ?Q) \<noteq> fnv1a FNV64_PRIME h (?P @ of_int (tach_gpios c ! i) # ?Q)" for h
    by (intro fnv1a_single_byte [OF FNV64_PRIME_odd]) simp_all
  ultimately show ?thesis by (simp only: topology_fingerprint_fnv1a) simp
qed

section \<open>Reading a list of pins back\<close>

lemma strtol10_nat_str:
  assumes "int n \<le> INT_MAX" and "\<not> isdigit (char_at rest 0)"
  shows "strtol10 (nat_str n @ rest) = (int n, False, rest)"
proof -
  obtain c cs where n: "nat_str n = c # cs" by (cases "nat_str n") auto
  then have c: "isdigit c" using nat_str_digits [of n] by simp
  have "skip_space (nat_str n @ rest) = nat_str n @ rest"
    using c isdigit_not_space [OF c] by (simp add: n skip_space_def)
  moreover have "char_at (nat_str n @ rest) 0 = c" by (simp add: n char_at_def)
  ultimately show ?thesis
    using isdigit_not_space [OF c] takeWhile_nat_str [OF assms(2), of n] assms(1)
    by (simp add: strtol10_def Let_def nat_str_val)
qed

text \<open>Pins separated by commas.\<close>

fun print_gpios :: "int list \<Rightarrow> string" where
  "print_gpios [] = []"
| "print_gpios [g] = nat_str (nat g)"
| "print_gpios (g # gs) = nat_str (nat g) @ '','' @ print_gpios gs"

lemma skip_space_nat_str: "skip_space (nat_str n @ r) = nat_str n @ r"
proof -
  obtain c cs where n: "nat_str n = c # cs" by (cases "nat_str n") auto
  then have "isdigit c" using nat_str_digits [of n] by simp
  then show ?thesis using isdigit_not_space by (simp add: n skip_space_def)
qed

lemma parse_gpio_field_print:
  assumes "0 \<le> g" and "g \<le> INT_MAX" and "r = [] \<or> hd r = CHR '',''"
  shows "parse_gpio_field (nat_str (nat g) @ r) = Some (g, r)"
proof -
  have r: "\<not> isdigit (char_at r 0)" "skip_space r = r" "char_at r 0 = NUL \<or> char_at r 0 = CHR '',''"
    using assms(3) by (cases r; auto simp: char_at_def isdigit_def chr_code_def skip_space_def isspace_def)+
  have "strtol10 (nat_str (nat g) @ r) = (g, False, r)"
    using strtol10_nat_str [OF _ r(1), of "nat g"] assms(1,2) by simp
  then show ?thesis using assms r by (auto simp: parse_gpio_field_def skip_space_nat_str)
qed


text \<open>The loop reads a printed list back when the pins pass its checks.\<close>

definition pins_ok :: "sdkconfig \<Rightarrow> soc \<Rightarrow> int list \<Rightarrow> bool" where
  "pins_ok sdk soc gs \<longleftrightarrow> distinct gs \<and>
     (\<forall>g \<in> set gs. 0 \<le> g \<and> g \<le> INT_MAX \<and> GPIO_IS_VALID_OUTPUT_GPIO soc g \<and>
        CONFIG_MOTOR_INTERLOCK_GPIO sdk \<noteq> Some g)"

lemma dshot_gpio_loop_print:
  assumes "pins_ok sdk soc (pre @ gs)" and "gs \<noteq> []" and "length pre + length gs \<le> 4"
    and "length (dshot_gpios c) = 4" and "take (length pre) (dshot_gpios c) = pre"
  shows "\<exists>ds. dshot_gpio_loop sdk soc c (length pre) (print_gpios gs)
                = Some (c\<lparr>dshot_gpios := ds\<rparr>, length pre + length gs) \<and>
              take (length pre + length gs) ds = pre @ gs"
  using assms
proof (induction gs arbitrary: pre c)
  case Nil
  then show ?case by simp
next
  case (Cons g gs)
  let ?c = "c\<lparr>dshot_gpios := (dshot_gpios c)[length pre := g]\<rparr>"
  have g: "0 \<le> g" "g \<le> INT_MAX" "GPIO_IS_VALID_OUTPUT_GPIO soc g" "CONFIG_MOTOR_INTERLOCK_GPIO sdk \<noteq> Some g"
    using Cons.prems(1) by (auto simp: pins_ok_def)
  have lt: "length pre < 4" using Cons.prems(3) by simp
  have fresh: "\<not> (\<exists>i \<in> {0..<length pre}. dshot_gpios c ! i = g)"
  proof
    assume "\<exists>i \<in> {0..<length pre}. dshot_gpios c ! i = g"
    then have "g \<in> set (take (length pre) (dshot_gpios c))"
      using Cons.prems(4) lt by (fastforce simp: in_set_conv_nth)
    then show False using Cons.prems(1,5) by (simp add: pins_ok_def)
  qed
  have take: "take (Suc (length pre)) (dshot_gpios ?c) = pre @ [g]"
    using Cons.prems(4,5) lt by (simp add: take_Suc_conv_app_nth)
  show ?case
  proof (cases gs)
    case Nil
    have f: "parse_gpio_field (nat_str (nat g)) = Some (g, [])"
      using parse_gpio_field_print [OF g(1,2), of "[]"] by simp
    show ?thesis
      unfolding Nil print_gpios.simps
      by (subst dshot_gpio_loop.simps)
        (use lt f g fresh take in \<open>auto simp: APP_CONFIG_MAX_FANS_def intro: exI [of _ "(dshot_gpios c)[length pre := g]"]\<close>)
  next
    case (Cons g2 gs2)
    have f: "parse_gpio_field (print_gpios (g # gs)) = Some (g, '','' @ print_gpios gs)"
      using parse_gpio_field_print [OF g(1,2), of "'','' @ print_gpios gs"] by (simp add: Cons)
    have ne: "skip_space (print_gpios gs) \<noteq> []"
    proof -
      obtain r where "print_gpios gs = nat_str (nat g2) @ r" by (cases gs2) (auto simp: Cons)
      then show ?thesis by (simp add: skip_space_nat_str)
    qed
    obtain ds where "dshot_gpio_loop sdk soc ?c (length (pre @ [g])) (print_gpios gs)
        = Some (?c\<lparr>dshot_gpios := ds\<rparr>, length (pre @ [g]) + length gs)"
      "take (length (pre @ [g]) + length gs) ds = (pre @ [g]) @ gs"
      using Cons.IH [of "pre @ [g]" ?c] Cons.prems take Cons by auto
    then show ?thesis
      by (subst dshot_gpio_loop.simps)
        (use lt f g fresh ne in \<open>auto simp: APP_CONFIG_MAX_FANS_def intro!: exI [of _ ds]\<close>)
  qed
qed

section \<open>Properties\<close>



definition example_sdk :: sdkconfig where
  "example_sdk = \<lparr>CONFIG_FAN_COUNT = 2, CONFIG_FAN_INDEX_START = 1, CONFIG_DSHOT_GPIO = ''5, 7'',
     CONFIG_TACH_GPIO = Some ''4,6'', CONFIG_MOTOR_INTERLOCK_GPIO = Some 9, CONFIG_MIN_SPIN_PCT = 15,
     CONFIG_RAMP_STEP_PCT = 3, CONFIG_RAMP_TICK_MS = 20, CONFIG_NODE_ID = ''n1'',
     CONFIG_MQTT_ROOT_TOPIC = ''farm'', CONFIG_MQTT_LEGACY_TOPICS = True\<rparr>"

definition example_soc :: soc where
  "example_soc = \<lparr>GPIO_IS_VALID_OUTPUT_GPIO = (\<lambda>g. 0 \<le> g \<and> g \<le> 48),
     GPIO_IS_VALID_GPIO = (\<lambda>g. 0 \<le> g \<and> g \<le> 48), esp_read_mac = (ESP_OK, [1, 2, 3, 4, 5, 6])\<rparr>"


text \<open>Every list of one to four pins that meets the configuration's constraints, written as
  decimal numbers separated by commas, is read back exactly: the parser returns the count
  and the pins in order, in the fans' slots.\<close>

theorem dshot_gpio_list_roundtrip:
  assumes "pins_ok sdk soc gs" and "1 \<le> length gs" and "length gs \<le> 4"
    and "CONFIG_DSHOT_GPIO sdk = print_gpios gs" and "CONFIG_FAN_COUNT sdk = int (length gs)"
  shows "\<exists>c. parse_dshot_gpios sdk soc (config_candidate sdk) = Some (c, length gs) \<and>
             take (length gs) (dshot_gpios c) = gs"
proof -
  have "length (dshot_gpios (config_candidate sdk)) = 4" "gs \<noteq> []"
    using assms(2) by (auto simp: config_candidate_def APP_CONFIG_MAX_FANS_def)
  with dshot_gpio_loop_print [of sdk soc "[]" gs "config_candidate sdk"] assms(1,3) obtain ds where
    "dshot_gpio_loop sdk soc (config_candidate sdk) 0 (print_gpios gs)
       = Some ((config_candidate sdk)\<lparr>dshot_gpios := ds\<rparr>, length gs)" "take (length gs) ds = gs"
    by auto
  then show ?thesis
    using assms(2-5) by (auto simp: parse_dshot_gpios_def config_candidate_def APP_CONFIG_MAX_FANS_def)
qed

theorem dshot_gpio_list_roundtrip_witness:
  "\<exists>c. parse_dshot_gpios (example_sdk\<lparr>CONFIG_DSHOT_GPIO := ''12,5''\<rparr>) example_soc
         (config_candidate (example_sdk\<lparr>CONFIG_DSHOT_GPIO := ''12,5''\<rparr>)) = Some (c, 2) \<and>
       take 2 (dshot_gpios c) = [12, 5]"
proof -
  have "print_gpios [12, 5] = ''12,5''" by code_simp
  then show ?thesis
    using dshot_gpio_list_roundtrip [of "example_sdk\<lparr>CONFIG_DSHOT_GPIO := ''12,5''\<rparr>" example_soc "[12, 5]"]
    by (simp add: pins_ok_def example_sdk_def example_soc_def INT_MAX_def numeral_2_eq_2)
qed

text \<open>The fingerprint that persistent state is checked against notices every change of a
  single fan's wiring: moving one fan's DShot pin (or, with tachometers, its tach pin) to a
  different GPIO always gives a different fingerprint.\<close>

theorem topology_fingerprint_detects_rewiring:
  assumes "i < nat (fan_count c)" and "fan_count c \<le> 4"
    and "length (dshot_gpios c) = 4" and "length (tach_gpios c) = 4"
    and "g \<in> {0..<256}"
  shows "(dshot_gpios c ! i \<in> {0..<256} \<and> g \<noteq> dshot_gpios c ! i \<longrightarrow>
       topology_fingerprint t (c\<lparr>dshot_gpios := (dshot_gpios c)[i := g]\<rparr>) \<noteq> topology_fingerprint t c) \<and>
    (tach_gpios c ! i \<in> {0..<256} \<and> g \<noteq> tach_gpios c ! i \<longrightarrow>
       topology_fingerprint True (c\<lparr>tach_gpios := (tach_gpios c)[i := g]\<rparr>) \<noteq> topology_fingerprint True c)"
  using assms topology_bytes_dshot_update topology_bytes_tach_update by simp

theorem topology_fingerprint_detects_rewiring_witness:
  "topology_fingerprint False (config_candidate example_sdk\<lparr>dshot_gpios := [8, 7, 0, 0]\<rparr>) \<noteq>
   topology_fingerprint False (config_candidate example_sdk\<lparr>dshot_gpios := [5, 7, 0, 0]\<rparr>)"
  using topology_fingerprint_detects_rewiring
    [of 0 "config_candidate example_sdk\<lparr>dshot_gpios := [5, 7, 0, 0]\<rparr>" 8 False]
  by (simp add: config_candidate_def example_sdk_def APP_CONFIG_MAX_FANS_def)

end
