(* ===== verification/Motor_Control.thy ===== *)
theory Motor_Control imports DShot_Encoder App_Config
begin

text \<open>
  \<open>main/motor_control.c\<close>: the singleton that owns every motor output. The module's static
  variables are the fields of \<open>motor_state\<close>, under their C names; one output's
  \<open>motor_context_t\<close> is a \<open>motor_context\<close>. Each region between \<open>portENTER_CRITICAL\<close> and
  \<open>portEXIT_CRITICAL\<close> is a definition of its own (\<open>..._section\<close>), so that the theory
  \<open>Motor_Safety\<close> can run the regions of several tasks in any order; an operation is
  the composition of its regions and of the driver calls between them. FreeRTOS, the RMT
  driver and the timer are the functions of \<open>motor_ops\<close> over the platform's state \<open>'h\<close>.
  The registered event callback only notifies a task: its calls are kept in \<open>s_event_log\<close>.
\<close>

section \<open>Data\<close>

definition MOTOR_CONTROL_MAX_FANS :: nat where
  "MOTOR_CONTROL_MAX_FANS = APP_CONFIG_MAX_FANS"

definition DSHOT_ESC_RESOLUTION_HZ :: u32 where "DSHOT_ESC_RESOLUTION_HZ = 40000000"
definition DSHOT_ESC_BAUD_RATE :: u32 where "DSHOT_ESC_BAUD_RATE = 600000"
definition DSHOT_POST_DELAY_US :: u32 where "DSHOT_POST_DELAY_US = 50"
definition RMT_STOP_TIMEOUT_MS :: u32 where "RMT_STOP_TIMEOUT_MS = 100"
definition RMT_ERROR_LOG_PERIOD_US :: int where "RMT_ERROR_LOG_PERIOD_US = 5 * 1000 * 1000"
definition RMT_REFRESH_PERIOD_US :: u64 where "RMT_REFRESH_PERIOD_US = 1000 * 1000"

definition UINT16_MAX :: u16 where "UINT16_MAX = 0xFFFF"
definition UINT8_MAX :: u8 where "UINT8_MAX = 0xFF"

record motor_kconfig =
  CONFIG_RMT_ERROR_LIMIT :: u16
  CONFIG_SUPERVISOR_ENABLED :: bool

record 'h motor_ops = "'h rmt_enc_ops" +
  op_sem_create :: "'h \<Rightarrow> nat option \<times> 'h"
  op_sem_take :: "nat \<Rightarrow> u32 option \<Rightarrow> 'h \<Rightarrow> bool \<times> 'h"
  op_sem_give :: "nat \<Rightarrow> 'h \<Rightarrow> 'h"
  op_sem_delete :: "nat \<Rightarrow> 'h \<Rightarrow> 'h"
  op_timer_get_time :: "'h \<Rightarrow> int \<times> 'h"
  op_rmt_new_tx_channel :: "int \<Rightarrow> 'h \<Rightarrow> (esp_err \<times> nat option) \<times> 'h"
  op_rmt_enable :: "nat \<Rightarrow> 'h \<Rightarrow> esp_err \<times> 'h"
  op_rmt_disable :: "nat \<Rightarrow> 'h \<Rightarrow> esp_err \<times> 'h"
  op_rmt_tx_wait_all_done :: "nat \<Rightarrow> u32 \<Rightarrow> 'h \<Rightarrow> esp_err \<times> 'h"
  op_rmt_transmit :: "nat \<Rightarrow> nat \<Rightarrow> dshot_esc_throttle \<Rightarrow> 'h \<Rightarrow> esp_err \<times> 'h"
  op_rmt_encoder_reset :: "nat \<Rightarrow> 'h \<Rightarrow> esp_err \<times> 'h"
  op_rmt_del_encoder :: "nat \<Rightarrow> 'h \<Rightarrow> esp_err \<times> 'h"
  op_rmt_del_channel :: "nat \<Rightarrow> 'h \<Rightarrow> esp_err \<times> 'h"
  op_task_create :: "'h \<Rightarrow> nat option \<times> 'h"
  op_task_wdt_add :: "'h \<Rightarrow> esp_err \<times> 'h"
  op_task_wdt_reset :: "'h \<Rightarrow> 'h"
  op_stack_high_water_mark :: "nat \<Rightarrow> 'h \<Rightarrow> u32 \<times> 'h"

record motor_context =
  mc_channel :: "nat option"
  mc_encoder :: "nat option"
  mc_active_encoder :: "nat option"
  mc_io_mutex :: "nat option"
  mc_throttle :: dshot_esc_throttle
  mc_tx_payload :: dshot_esc_throttle
  mc_gpio :: int
  mc_active :: bool
  mc_channel_enabled :: bool
  mc_current_pct :: u8
  mc_target_pct :: u8
  mc_applied_pct :: u8
  mc_manual_target_pct :: u8
  mc_control_generation :: u32
  mc_last_reported_pct :: u8
  mc_last_dshot :: u32
  mc_last_tx_us :: u64
  mc_rmt_refresh_count :: u32
  mc_rmt_error_total :: u32
  mc_accepted_command_count :: u32
  mc_rmt_error_consecutive :: u16
  mc_rmt_fault_latched :: bool
  mc_tach_inhibited :: bool
  mc_nonzero_applied_since_us :: int
  mc_last_rmt_error_log_us :: int

definition zero_throttle :: dshot_esc_throttle where
  "zero_throttle = \<lparr>thr_throttle = 0, thr_telemetry_req = False\<rparr>"

text \<open>\<open>memset(motor, 0, sizeof(*motor))\<close>.\<close>

definition motor_zero :: motor_context where
  "motor_zero = \<lparr>mc_channel = None, mc_encoder = None, mc_active_encoder = None, mc_io_mutex = None,
     mc_throttle = zero_throttle, mc_tx_payload = zero_throttle, mc_gpio = 0, mc_active = False,
     mc_channel_enabled = False, mc_current_pct = 0, mc_target_pct = 0, mc_applied_pct = 0,
     mc_manual_target_pct = 0, mc_control_generation = 0, mc_last_reported_pct = 0, mc_last_dshot = 0,
     mc_last_tx_us = 0, mc_rmt_refresh_count = 0, mc_rmt_error_total = 0, mc_accepted_command_count = 0,
     mc_rmt_error_consecutive = 0, mc_rmt_fault_latched = False, mc_tach_inhibited = False,
     mc_nonzero_applied_since_us = 0, mc_last_rmt_error_log_us = 0\<rparr>"

datatype stop_inhibit =
    STOP_INHIBIT_NONE
  | STOP_INHIBIT_GLOBAL
  | STOP_INHIBIT_MAINTENANCE
  | STOP_INHIBIT_COMMUNICATION
  | STOP_INHIBIT_RMT
  | STOP_INHIBIT_TACH_ALL

datatype motor_lifecycle =
    MOTOR_LIFECYCLE_UNINITIALIZED
  | MOTOR_LIFECYCLE_INITIALIZING
  | MOTOR_LIFECYCLE_READY
  | MOTOR_LIFECYCLE_FAILED

datatype motor_control_event_type =
    MOTOR_CONTROL_EVENT_TARGET_CHANGED
  | MOTOR_CONTROL_EVENT_APPLIED_CHANGED
  | MOTOR_CONTROL_EVENT_RMT_FAULT_LATCHED
  | MOTOR_CONTROL_EVENT_INHIBIT_CHANGED
  | MOTOR_CONTROL_EVENT_RAMP_FATAL

record motor_control_fan_snapshot =
  fs_initialized :: bool
  fs_local_index :: int
  fs_fan_index :: int
  fs_gpio :: int
  fs_target_pct :: u8
  fs_current_pct :: u8
  fs_applied_pct :: u8
  fs_manual_target_pct :: u8
  fs_throttle :: u16
  fs_control_generation :: u32
  fs_rmt_refresh_count :: u32
  fs_rmt_error_total :: u32
  fs_accepted_command_count :: u32
  fs_rmt_error_consecutive :: u16
  fs_rmt_fault_latched :: bool
  fs_tach_inhibited :: bool
  fs_nonzero_applied_since_us :: int

record motor_control_ack =
  ack_accepted :: bool
  ack_communication_inhibit_cleared :: bool
  ack_accepted_command_count :: u32
  ack_requested_pct :: u8
  ack_applied_pct :: u8

record motor_control_event =
  ev_type :: motor_control_event_type
  ev_local_fan :: int
  ev_fan :: "motor_control_fan_snapshot option"

record motor_control_health_snapshot =
  hs_initialized :: bool
  hs_ramp_started :: bool
  hs_ramp_paused :: bool
  hs_stop_in_progress :: bool
  hs_global_inhibited :: bool
  hs_maintenance_inhibited :: bool
  hs_communication_inhibited :: bool
  hs_rmt_inhibited :: bool
  hs_rmt_fault_pending :: bool
  hs_fan_count :: nat
  hs_initialized_fan_count :: nat
  hs_ramp_heartbeat_us :: int
  hs_ramp_stack_bytes :: u32
  hs_fans :: "motor_control_fan_snapshot list"

record motor_state =
  s_motors :: "motor_context list"
  s_lifecycle :: motor_lifecycle
  s_fan_count :: nat
  s_fan_index_start :: int
  s_initialized_fan_count :: nat
  s_owned_fan_count :: nat
  s_min_spin_pct :: u8
  s_ramp_step_pct :: u8
  s_ramp_tick_ms :: u16
  s_stop_depth :: u32
  s_stop_mutex :: "nat option"
  s_global_inhibited :: bool
  s_maintenance_depth :: u32
  s_communication_inhibited :: bool
  s_rmt_inhibited :: bool
  s_rmt_fault_pending :: bool
  s_ramp_paused :: bool
  s_ramp_task :: "nat option"
  s_ramp_starting :: bool
  s_ramp_heartbeat_us :: int
  s_event_callback :: "nat option"
  s_event_context :: nat
  s_event_log :: "(nat \<times> nat \<times> motor_control_event) list"

text \<open>The statics at boot.\<close>

definition motor_state_boot :: motor_state where
  "motor_state_boot = \<lparr>s_motors = replicate MOTOR_CONTROL_MAX_FANS motor_zero,
     s_lifecycle = MOTOR_LIFECYCLE_UNINITIALIZED, s_fan_count = 0, s_fan_index_start = 0,
     s_initialized_fan_count = 0, s_owned_fan_count = 0, s_min_spin_pct = 0, s_ramp_step_pct = 0,
     s_ramp_tick_ms = 0, s_stop_depth = 0, s_stop_mutex = None, s_global_inhibited = False,
     s_maintenance_depth = 0, s_communication_inhibited = False, s_rmt_inhibited = False,
     s_rmt_fault_pending = False, s_ramp_paused = False, s_ramp_task = None, s_ramp_starting = False,
     s_ramp_heartbeat_us = 0, s_event_callback = None, s_event_context = 0, s_event_log = []\<rparr>"

text \<open>Reading and updating one element of the array \<open>s_motors\<close>.\<close>

definition motor :: "motor_state \<Rightarrow> nat \<Rightarrow> motor_context" where
  "motor s i = s_motors s ! i"

definition upd_motor :: "nat \<Rightarrow> (motor_context \<Rightarrow> motor_context) \<Rightarrow> motor_state \<Rightarrow> motor_state" where
  "upd_motor i f s = s\<lparr>s_motors := (s_motors s)[i := f (s_motors s ! i)]\<rparr>"

section \<open>Locked helpers and events\<close>

definition motor_valid_locked :: "motor_state \<Rightarrow> int \<Rightarrow> bool" where
  "motor_valid_locked s local_fan \<longleftrightarrow>
     s_lifecycle s = MOTOR_LIFECYCLE_READY \<and> 0 \<le> local_fan \<and> local_fan < int (s_fan_count s)"

definition percent_to_dshot :: "motor_state \<Rightarrow> u8 \<Rightarrow> u16" where
  "percent_to_dshot s percentage = controller_pct_to_dshot percentage (s_min_spin_pct s)"

definition fill_fan_snapshot_locked :: "motor_state \<Rightarrow> nat \<Rightarrow> motor_control_fan_snapshot" where
  "fill_fan_snapshot_locked s i =
     (let m = motor s i in
      \<lparr>fs_initialized = i < s_initialized_fan_count s, fs_local_index = int i,
       fs_fan_index = s_fan_index_start s + int i, fs_gpio = mc_gpio m,
       fs_target_pct = mc_target_pct m, fs_current_pct = mc_current_pct m,
       fs_applied_pct = mc_applied_pct m, fs_manual_target_pct = mc_manual_target_pct m,
       fs_throttle = thr_throttle (mc_throttle m), fs_control_generation = mc_control_generation m,
       fs_rmt_refresh_count = mc_rmt_refresh_count m, fs_rmt_error_total = mc_rmt_error_total m,
       fs_accepted_command_count = mc_accepted_command_count m,
       fs_rmt_error_consecutive = mc_rmt_error_consecutive m,
       fs_rmt_fault_latched = mc_rmt_fault_latched m, fs_tach_inhibited = mc_tach_inhibited m,
       fs_nonzero_applied_since_us = mc_nonzero_applied_since_us m\<rparr>)"

definition emit_event :: "motor_control_event_type \<Rightarrow> int \<Rightarrow> motor_state \<Rightarrow> motor_state" where
  "emit_event t local_fan s =
     (let event = \<lparr>ev_type = t, ev_local_fan = local_fan,
            ev_fan = (if 0 \<le> local_fan \<and> local_fan < int (s_fan_count s)
                      then Some (fill_fan_snapshot_locked s (nat local_fan)) else None)\<rparr>
      in case s_event_callback s of None \<Rightarrow> s
         | Some callback \<Rightarrow> s\<lparr>s_event_log := s_event_log s @ [(callback, s_event_context s, event)]\<rparr>)"

section \<open>Applying one output\<close>

definition log_rmt_error :: "'h motor_ops \<Rightarrow> motor_context \<Rightarrow> 'h \<Rightarrow> motor_context \<times> 'h" where
  "log_rmt_error ops m h =
     (let (now, h') = op_timer_get_time ops h
      in (if mc_last_rmt_error_log_us m = 0 \<or> now - mc_last_rmt_error_log_us m \<ge> RMT_ERROR_LOG_PERIOD_US
          then m\<lparr>mc_last_rmt_error_log_us := now\<rparr> else m, h'))"

text \<open>What \<open>record_apply_result\<close> does to the output's context, given the time.\<close>

definition record_success :: "u8 \<Rightarrow> int \<Rightarrow> motor_context \<Rightarrow> motor_context" where
  "record_success applied now m =
     (let m' = m\<lparr>mc_rmt_error_consecutive := 0, mc_applied_pct := applied\<rparr>
      in if mc_applied_pct m = 0 \<and> applied > 0 then m'\<lparr>mc_nonzero_applied_since_us := now\<rparr>
         else if applied = 0 then m'\<lparr>mc_nonzero_applied_since_us := 0\<rparr> else m')"

definition record_failure :: "u16 \<Rightarrow> motor_context \<Rightarrow> motor_context" where
  "record_failure limit m =
     (let consecutive = (if mc_rmt_error_consecutive m < UINT16_MAX
            then mc_rmt_error_consecutive m + 1 else mc_rmt_error_consecutive m);
          m' = m\<lparr>mc_rmt_error_total := mc_rmt_error_total m + 1, mc_rmt_error_consecutive := consecutive\<rparr>
      in if consecutive \<ge> limit
         then m'\<lparr>mc_rmt_fault_latched := True, mc_target_pct := 0,
                 mc_control_generation := mc_control_generation m + 1\<rparr>
         else m')"

definition record_result_section ::
  "motor_kconfig \<Rightarrow> nat \<Rightarrow> esp_err \<Rightarrow> u8 \<Rightarrow> int \<Rightarrow> motor_state \<Rightarrow> bool \<times> motor_state" where
  "record_result_section kc i error applied now s =
     (if error = ESP_OK then (False, upd_motor i (record_success applied now) s)
      else let s' = upd_motor i (record_failure (CONFIG_RMT_ERROR_LIMIT kc)) s
           in if mc_rmt_error_consecutive (motor s' i) \<ge> CONFIG_RMT_ERROR_LIMIT kc
              then (\<not> mc_rmt_fault_latched (motor s i),
                    s'\<lparr>s_rmt_inhibited := True, s_rmt_fault_pending := True\<rparr>)
              else (False, s'))"

definition record_apply_result ::
  "motor_kconfig \<Rightarrow> 'h motor_ops \<Rightarrow> nat \<Rightarrow> esp_err \<Rightarrow> u8 \<Rightarrow> motor_state \<Rightarrow> 'h
   \<Rightarrow> bool \<times> motor_state \<times> 'h" where
  "record_apply_result kc ops i error applied s h =
     (let (now, h') = (if error = ESP_OK \<and> mc_applied_pct (motor s i) = 0 \<and> applied > 0
            then op_timer_get_time ops h else (0, h));
          (newly_latched, s') = record_result_section kc i error applied now s
      in (newly_latched, s', h'))"

text \<open>The first critical section: what is to be sent, and the percentage it stands for.\<close>

definition apply_read_section :: "nat \<Rightarrow> motor_state \<Rightarrow> dshot_esc_throttle \<times> u8 \<times> motor_state" where
  "apply_read_section i s =
     (let requested = mc_throttle (motor s i);
          applied_pct = controller_effective_pct (mc_current_pct (motor s i)) (s_min_spin_pct s)
      in if thr_throttle requested > 0 \<and> thr_throttle requested < 48
         then (zero_throttle, 0, upd_motor i (\<lambda>m. m\<lparr>mc_throttle := zero_throttle\<rparr>) s)
         else (requested, applied_pct, s))"

definition dshot_composite :: "dshot_esc_throttle \<Rightarrow> u32" where
  "dshot_composite t = push_bit 1 (ucast (thr_throttle t)) OR (if thr_telemetry_req t then 1 else 0)"

text \<open>Stopping the running transmission: disable the channel, then drain it and reset its
  encoder, up to \<open>motor->active = false\<close>.\<close>

definition quiesce_disable :: "'h motor_ops \<Rightarrow> motor_context \<Rightarrow> 'h \<Rightarrow> esp_err \<times> motor_context \<times> 'h" where
  "quiesce_disable ops m h =
     (if mc_channel_enabled m
      then (case op_rmt_disable ops (the (mc_channel m)) h of (e, h1) \<Rightarrow>
              if e \<noteq> ESP_OK then (case log_rmt_error ops m h1 of (m', h2) \<Rightarrow> (e, m', h2))
              else (ESP_OK, m\<lparr>mc_channel_enabled := False\<rparr>, h1))
      else (ESP_OK, m, h))"

definition quiesce_drain :: "'h motor_ops \<Rightarrow> motor_context \<Rightarrow> 'h \<Rightarrow> esp_err \<times> motor_context \<times> 'h" where
  "quiesce_drain ops m h =
     (if \<not> mc_active m then (ESP_OK, m, h)
      else case op_rmt_tx_wait_all_done ops (the (mc_channel m)) RMT_STOP_TIMEOUT_MS h of (e1, h1) \<Rightarrow>
        if e1 \<noteq> ESP_OK then (case log_rmt_error ops m h1 of (m', h2) \<Rightarrow> (e1, m', h2))
        else case mc_active_encoder m of
          None \<Rightarrow> (ESP_OK, m\<lparr>mc_active := False\<rparr>, h1)
        | Some encoder \<Rightarrow>
          (case op_rmt_encoder_reset ops encoder h1 of (e2, h2) \<Rightarrow>
             if e2 \<noteq> ESP_OK then (case log_rmt_error ops m h2 of (m', h3) \<Rightarrow> (e2, m', h3))
             else (ESP_OK, m\<lparr>mc_active := False\<rparr>, h2)))"

definition quiesce_io :: "'h motor_ops \<Rightarrow> motor_context \<Rightarrow> 'h \<Rightarrow> esp_err \<times> motor_context \<times> 'h" where
  "quiesce_io ops m h =
     (case quiesce_disable ops m h of (e, m1, h1) \<Rightarrow>
        if e \<noteq> ESP_OK then (e, m1, h1) else quiesce_drain ops m1 h1)"

definition transmit_io ::
  "'h motor_ops \<Rightarrow> dshot_esc_throttle \<Rightarrow> u32 \<Rightarrow> u64 \<Rightarrow> motor_context \<Rightarrow> 'h \<Rightarrow> esp_err \<times> motor_context \<times> 'h" where
  "transmit_io ops requested composite now m h =
     (let m1 = m\<lparr>mc_tx_payload := requested\<rparr>; channel = the (mc_channel m)
      in case op_rmt_enable ops channel h of (e1, h1) \<Rightarrow>
         if e1 \<noteq> ESP_OK then (case log_rmt_error ops m1 h1 of (m', h2) \<Rightarrow> (e1, m', h2))
         else let m2 = m1\<lparr>mc_channel_enabled := True\<rparr>;
                  encoder = (case mc_active_encoder m2 of Some e \<Rightarrow> e | None \<Rightarrow> the (mc_encoder m2))
         in case op_rmt_transmit ops channel encoder (mc_tx_payload m2) h1 of (e2, h2) \<Rightarrow>
            if e2 \<noteq> ESP_OK then
              (case log_rmt_error ops m2 h2 of (m3, h3) \<Rightarrow>
               case op_rmt_disable ops channel h3 of (de, h4) \<Rightarrow>
                 if de = ESP_OK
                 then (e2, m3\<lparr>mc_channel_enabled := False\<rparr>,
                       snd (op_rmt_tx_wait_all_done ops channel RMT_STOP_TIMEOUT_MS h4))
                 else (e2, m3, h4))
            else (ESP_OK, m2\<lparr>mc_active := True, mc_last_dshot := composite, mc_last_tx_us := now\<rparr>, h2))"

text \<open>The driver calls of \<open>apply_motor\<close>; the flag tells that an unchanged value was sent again.\<close>

definition apply_io ::
  "'h motor_ops \<Rightarrow> dshot_esc_throttle \<Rightarrow> u64 \<Rightarrow> motor_context \<Rightarrow> 'h \<Rightarrow> esp_err \<times> bool \<times> motor_context \<times> 'h" where
  "apply_io ops requested now m h =
     (let composite = dshot_composite requested;
          needs_refresh = (now - mc_last_tx_us m > RMT_REFRESH_PERIOD_US)
      in if composite = mc_last_dshot m \<and> \<not> needs_refresh \<and> mc_active m \<and> mc_channel_enabled m
         then (ESP_OK, False, m, h)
         else let is_refresh = (composite = mc_last_dshot m \<and> needs_refresh)
         in case quiesce_io ops m h of (e1, m1, h1) \<Rightarrow>
            if e1 \<noteq> ESP_OK then (e1, False, m1, h1)
            else case transmit_io ops requested composite now m1 h1 of (e2, m2, h2) \<Rightarrow>
              (e2, e2 = ESP_OK \<and> is_refresh, m2, h2))"

definition refresh_section :: "nat \<Rightarrow> motor_state \<Rightarrow> motor_state" where
  "refresh_section i s = upd_motor i (\<lambda>m. m\<lparr>mc_rmt_refresh_count := mc_rmt_refresh_count m + 1\<rparr>) s"

definition apply_motor ::
  "motor_kconfig \<Rightarrow> 'h motor_ops \<Rightarrow> nat \<Rightarrow> motor_state \<Rightarrow> 'h \<Rightarrow> esp_err \<times> motor_state \<times> 'h" where
  "apply_motor kc ops i s h =
     (if mc_channel (motor s i) = None \<or> mc_encoder (motor s i) = None \<or> mc_io_mutex (motor s i) = None
      then (ESP_ERR_INVALID_ARG, s, h)
      else case op_sem_take ops (the (mc_io_mutex (motor s i))) None h of (taken, h1) \<Rightarrow>
        if \<not> taken then (ESP_ERR_TIMEOUT, s, h1)
        else let (requested, applied_pct, s1) = apply_read_section i s;
                 (now, h2) = op_timer_get_time ops h1;
                 (error, refreshed, m', h3) = apply_io ops requested (of_int now) (motor s1 i) h2;
                 s2 = upd_motor i (\<lambda>_. m') s1;
                 s3 = (if refreshed then refresh_section i s2 else s2);
                 (newly_latched, s4, h4) = record_apply_result kc ops i error applied_pct s3 h3;
                 h5 = op_sem_give ops (the (mc_io_mutex (motor s4 i))) h4;
                 s5 = (if newly_latched
                       then emit_event MOTOR_CONTROL_EVENT_RMT_FAULT_LATCHED (int i) s4 else s4)
             in (error, s5, h5))"


section \<open>Releasing the drivers' objects\<close>

definition motor_resources_owned :: "motor_context \<Rightarrow> bool" where
  "motor_resources_owned m \<longleftrightarrow> mc_channel m \<noteq> None \<or> mc_encoder m \<noteq> None \<or> mc_io_mutex m \<noteq> None \<or>
     mc_channel_enabled m \<or> mc_active m"

text \<open>The three stages between taking and giving the I/O mutex: disable, drain, delete. Each
  keeps the first error.\<close>

definition release_disable :: "'h motor_ops \<Rightarrow> esp_err \<Rightarrow> motor_context \<Rightarrow> 'h \<Rightarrow> esp_err \<times> motor_context \<times> 'h" where
  "release_disable ops first m h =
     (if mc_channel_enabled m \<and> mc_channel m \<noteq> None
      then (case op_rmt_disable ops (the (mc_channel m)) h of (e, h') \<Rightarrow>
              (first_error first e, if e = ESP_OK then m\<lparr>mc_channel_enabled := False\<rparr> else m, h'))
      else (first, m, h))"

definition release_drain :: "'h motor_ops \<Rightarrow> esp_err \<Rightarrow> motor_context \<Rightarrow> 'h \<Rightarrow> esp_err \<times> motor_context \<times> 'h" where
  "release_drain ops first m h =
     (if mc_active m \<and> \<not> mc_channel_enabled m \<and> mc_channel m \<noteq> None
      then (case op_rmt_tx_wait_all_done ops (the (mc_channel m)) RMT_STOP_TIMEOUT_MS h of (e, h1) \<Rightarrow>
              let first' = first_error first e
              in case (if e = ESP_OK \<and> mc_active_encoder m \<noteq> None
                       then (case op_rmt_encoder_reset ops (the (mc_active_encoder m)) h1 of (e2, h2) \<Rightarrow>
                               (e2, first_error first' e2, h2))
                       else (e, first', h1)) of (e2, first2, h2) \<Rightarrow>
                   (first2, if e2 = ESP_OK then m\<lparr>mc_active := False\<rparr> else m, h2))
      else (first, m, h))"

definition release_delete :: "'h motor_ops \<Rightarrow> esp_err \<Rightarrow> motor_context \<Rightarrow> 'h \<Rightarrow> esp_err \<times> motor_context \<times> 'h" where
  "release_delete ops first m h =
     (let quiesced = (\<not> mc_channel_enabled m \<and> \<not> mc_active m);
          (first1, m1, h1) =
            (if quiesced \<and> mc_encoder m \<noteq> None
             then (case op_rmt_del_encoder ops (the (mc_encoder m)) h of (e, h') \<Rightarrow>
                     (first_error first e,
                      if e = ESP_OK then m\<lparr>mc_encoder := None, mc_active_encoder := None\<rparr> else m, h'))
             else (first, m, h))
      in if quiesced \<and> mc_encoder m1 = None \<and> mc_channel m1 \<noteq> None
         then (case op_rmt_del_channel ops (the (mc_channel m1)) h1 of (e, h') \<Rightarrow>
                 (first_error first1 e, if e = ESP_OK then m1\<lparr>mc_channel := None\<rparr> else m1, h'))
         else (first1, m1, h1))"

definition release_motor_resources ::
  "'h motor_ops \<Rightarrow> nat \<Rightarrow> motor_state \<Rightarrow> 'h \<Rightarrow> esp_err \<times> motor_state \<times> 'h" where
  "release_motor_resources ops i s h =
     (let m = motor s i; io_mutex = mc_io_mutex m;
          (taken, h0) = (case io_mutex of None \<Rightarrow> (False, h) | Some x \<Rightarrow> op_sem_take ops x None h)
      in if io_mutex \<noteq> None \<and> \<not> taken then (ESP_ERR_TIMEOUT, s, h0)
         else let (e1, m1, h1) = release_disable ops ESP_OK m h0;
                  (e2, m2, h2) = release_drain ops e1 m1 h1;
                  (e3, m3, h3) = release_delete ops e2 m2 h2;
                  h4 = (if taken then op_sem_give ops (the io_mutex) h3 else h3);
                  (m4, h5) = (if mc_channel m3 = None \<and> mc_encoder m3 = None \<and> \<not> mc_active m3 \<and>
                                 \<not> mc_channel_enabled m3 \<and> io_mutex \<noteq> None
                              then (m3\<lparr>mc_io_mutex := None\<rparr>, op_sem_delete ops (the io_mutex) h4)
                              else (m3, h4));
                  m5 = (if motor_resources_owned m4 then m4 else motor_zero)
              in (e3, upd_motor i (\<lambda>_. m5) s, h5))"

fun release_motors ::
  "'h motor_ops \<Rightarrow> nat list \<Rightarrow> esp_err \<Rightarrow> motor_state \<Rightarrow> 'h \<Rightarrow> esp_err \<times> motor_state \<times> 'h" where
  "release_motors ops [] first s h = (first, s, h)"
| "release_motors ops (i # is) first s h =
     (case release_motor_resources ops i s h of (e, s', h') \<Rightarrow>
        release_motors ops is (first_error first e) s' h')"

definition release_owned_motors :: "'h motor_ops \<Rightarrow> motor_state \<Rightarrow> 'h \<Rightarrow> esp_err \<times> motor_state \<times> 'h" where
  "release_owned_motors ops s h =
     (let owned_count = s_owned_fan_count s;
          (first, s1, h1) = release_motors ops (rev [0..<owned_count]) ESP_OK s h;
          remaining = fold (\<lambda>i r. if motor_resources_owned (motor s1 i) then Suc i else r) [0..<owned_count] 0
      in (first, s1\<lparr>s_owned_fan_count := remaining, s_initialized_fan_count := 0\<rparr>, h1))"

section \<open>Initialisation\<close>

definition fail_section :: "esp_err \<Rightarrow> motor_state \<Rightarrow> motor_state" where
  "fail_section cleanup_error s =
     (if cleanup_error = ESP_OK \<and> s_owned_fan_count s = 0
      then s\<lparr>s_stop_mutex := None, s_fan_count := 0, s_fan_index_start := 0, s_min_spin_pct := 0,
             s_ramp_step_pct := 0, s_ramp_tick_ms := 0, s_stop_depth := 0, s_global_inhibited := False,
             s_maintenance_depth := 0, s_communication_inhibited := False, s_rmt_inhibited := False,
             s_rmt_fault_pending := False, s_ramp_paused := False,
             s_lifecycle := MOTOR_LIFECYCLE_UNINITIALIZED\<rparr>
      else s\<lparr>s_global_inhibited := True, s_lifecycle := MOTOR_LIFECYCLE_FAILED\<rparr>)"

definition fail_motor_initialization ::
  "'h motor_ops \<Rightarrow> esp_err \<Rightarrow> motor_state \<Rightarrow> 'h \<Rightarrow> esp_err \<times> motor_state \<times> 'h" where
  "fail_motor_initialization ops initialization_error s h =
     (case release_owned_motors ops s h of (cleanup_error, s1, h1) \<Rightarrow>
        let stop_mutex = (if cleanup_error = ESP_OK \<and> s_owned_fan_count s1 = 0 then s_stop_mutex s1 else None);
            s2 = fail_section cleanup_error s1;
            h2 = (case stop_mutex of None \<Rightarrow> h1 | Some x \<Rightarrow> op_sem_delete ops x h1)
        in (if cleanup_error \<noteq> ESP_OK then cleanup_error else initialization_error, s2, h2))"

definition motor_encoder_config :: dshot_esc_encoder_config where
  "motor_encoder_config = \<lparr>cfg_resolution = DSHOT_ESC_RESOLUTION_HZ, cfg_baud_rate = DSHOT_ESC_BAUD_RATE,
     cfg_post_delay_us = DSHOT_POST_DELAY_US\<rparr>"

definition motor_initial :: "motor_context \<Rightarrow> motor_context" where
  "motor_initial m = m\<lparr>mc_active_encoder := mc_encoder m, mc_throttle := zero_throttle, mc_current_pct := 0,
     mc_target_pct := 0, mc_applied_pct := 0, mc_manual_target_pct := 0, mc_control_generation := 0,
     mc_last_reported_pct := UINT8_MAX, mc_last_dshot := UINT32_MAX, mc_last_tx_us := 0,
     mc_rmt_refresh_count := 0, mc_rmt_error_total := 0, mc_rmt_error_consecutive := 0,
     mc_rmt_fault_latched := False, mc_accepted_command_count := 0, mc_tach_inhibited := False,
     mc_nonzero_applied_since_us := 0\<rparr>"

definition initialize_motor ::
  "motor_kconfig \<Rightarrow> 'h motor_ops \<Rightarrow> nat \<Rightarrow> int \<Rightarrow> motor_state \<Rightarrow> 'h \<Rightarrow> esp_err \<times> motor_state \<times> 'h" where
  "initialize_motor kc ops i gpio s h =
     (let s1 = upd_motor i (\<lambda>m. m\<lparr>mc_gpio := gpio\<rparr>) s
      in case op_sem_create ops h of (mutex, h1) \<Rightarrow>
         let s2 = upd_motor i (\<lambda>m. m\<lparr>mc_io_mutex := mutex\<rparr>) s1
         in if mutex = None then (ESP_ERR_NO_MEM, s2, h1)
         else case op_rmt_new_tx_channel ops gpio h1 of ((e1, channel), h2) \<Rightarrow>
           let s3 = upd_motor i (\<lambda>m. m\<lparr>mc_channel := channel\<rparr>) s2
           in if e1 \<noteq> ESP_OK then (e1, s3, h2)
           else case rmt_new_dshot_esc_encoder (rmt_enc_ops.truncate ops) (Some motor_encoder_config) h2 of
             ((e2, encoder), h3) \<Rightarrow>
             let s4 = upd_motor i (\<lambda>m. m\<lparr>mc_encoder := map_option enc_base encoder\<rparr>) s3
             in if e2 \<noteq> ESP_OK then (e2, s4, h3)
             else apply_motor kc ops i (upd_motor i motor_initial s4) h3)"

fun initialize_motors ::
  "motor_kconfig \<Rightarrow> 'h motor_ops \<Rightarrow> app_config \<Rightarrow> nat list \<Rightarrow> motor_state \<Rightarrow> 'h \<Rightarrow> esp_err \<times> motor_state \<times> 'h" where
  "initialize_motors kc ops config [] s h = (ESP_OK, s, h)"
| "initialize_motors kc ops config (i # is) s h =
     (case initialize_motor kc ops i (dshot_gpios config ! i) (s\<lparr>s_owned_fan_count := i + 1\<rparr>) h of
        (error, s', h') \<Rightarrow>
          if error \<noteq> ESP_OK then (error, s', h')
          else initialize_motors kc ops config is (s'\<lparr>s_initialized_fan_count := i + 1\<rparr>) h')"

definition init_section :: "app_config \<Rightarrow> motor_state \<Rightarrow> motor_state" where
  "init_section config s =
     s\<lparr>s_lifecycle := MOTOR_LIFECYCLE_INITIALIZING, s_fan_count := nat (fan_count config),
       s_fan_index_start := fan_index_start config, s_initialized_fan_count := 0, s_owned_fan_count := 0,
       s_min_spin_pct := of_int (min_spin_pct config), s_ramp_step_pct := of_int (ramp_step_pct config),
       s_ramp_tick_ms := of_int (ramp_tick_ms config), s_stop_depth := 0, s_global_inhibited := False,
       s_maintenance_depth := 0, s_communication_inhibited := False, s_rmt_inhibited := False,
       s_rmt_fault_pending := False, s_ramp_paused := False, s_ramp_task := None, s_ramp_starting := False,
       s_event_callback := None, s_event_context := 0\<rparr>"

definition motor_control_init ::
  "motor_kconfig \<Rightarrow> 'h motor_ops \<Rightarrow> app_config option \<Rightarrow> motor_state \<Rightarrow> 'h \<Rightarrow> esp_err \<times> motor_state \<times> 'h" where
  "motor_control_init kc ops config s h =
     (case config of None \<Rightarrow> (ESP_ERR_INVALID_ARG, s, h)
      | Some c \<Rightarrow>
        if fan_count c < 1 \<or> fan_count c > int MOTOR_CONTROL_MAX_FANS \<or>
           min_spin_pct c < 1 \<or> min_spin_pct c > 100 \<or> ramp_step_pct c < 1 \<or> ramp_step_pct c > 20 \<or>
           ramp_tick_ms c < 10 \<or> ramp_tick_ms c > 100
        then (ESP_ERR_INVALID_ARG, s, h)
        else if s_lifecycle s \<noteq> MOTOR_LIFECYCLE_UNINITIALIZED then (ESP_ERR_INVALID_STATE, s, h)
        else let s1 = (init_section c s)\<lparr>s_motors := replicate MOTOR_CONTROL_MAX_FANS motor_zero\<rparr>
        in case op_sem_create ops h of
             (None, h1) \<Rightarrow> fail_motor_initialization ops ESP_ERR_NO_MEM s1 h1
           | (Some stop_mutex, h1) \<Rightarrow>
             (case initialize_motors kc ops c [0..<nat (fan_count c)] (s1\<lparr>s_stop_mutex := Some stop_mutex\<rparr>) h1 of
                (error, s2, h2) \<Rightarrow>
                  if error \<noteq> ESP_OK then fail_motor_initialization ops error s2 h2
                  else (ESP_OK, s2\<lparr>s_lifecycle := MOTOR_LIFECYCLE_READY\<rparr>, h2)))"

section \<open>Stopping every output\<close>

definition automatic_allowed_locked :: "motor_state \<Rightarrow> int \<Rightarrow> bool" where
  "automatic_allowed_locked s local_fan \<longleftrightarrow>
     motor_valid_locked s local_fan \<and> s_stop_depth s = 0 \<and> \<not> s_global_inhibited s \<and>
     s_maintenance_depth s = 0 \<and> \<not> s_communication_inhibited s \<and> \<not> s_rmt_inhibited s \<and>
     \<not> mc_rmt_fault_latched (motor s (nat local_fan)) \<and> \<not> mc_tach_inhibited (motor s (nat local_fan))"

text \<open>The first region; \<open>None\<close> is \<open>ESP_ERR_INVALID_STATE\<close>.\<close>

definition stop_enter_section :: "stop_inhibit \<Rightarrow> motor_state \<Rightarrow> motor_state option" where
  "stop_enter_section inhibit s =
     (if (s_lifecycle s \<noteq> MOTOR_LIFECYCLE_READY \<and> s_lifecycle s \<noteq> MOTOR_LIFECYCLE_FAILED) \<or>
         (inhibit = STOP_INHIBIT_MAINTENANCE \<and> s_maintenance_depth s = UINT32_MAX) \<or>
         s_stop_depth s = UINT32_MAX
      then None
      else let s1 = s\<lparr>s_stop_depth := s_stop_depth s + 1\<rparr>
           in Some (if inhibit = STOP_INHIBIT_MAINTENANCE
                    then s1\<lparr>s_maintenance_depth := s_maintenance_depth s1 + 1\<rparr> else s1))"

definition stop_motor :: "bool \<Rightarrow> stop_inhibit \<Rightarrow> motor_context \<Rightarrow> motor_context" where
  "stop_motor clear inhibit m =
     m\<lparr>mc_target_pct := 0, mc_current_pct := 0, mc_throttle := zero_throttle,
       mc_manual_target_pct := (if clear then 0 else mc_manual_target_pct m),
       mc_tach_inhibited := (if inhibit = STOP_INHIBIT_TACH_ALL then True else mc_tach_inhibited m),
       mc_control_generation := mc_control_generation m + 1\<rparr>"

text \<open>The second region. Its results are the number of controlled outputs, and for each of
  them the percentage before the stop and its new generation.\<close>

definition stop_commit_section ::
  "bool \<Rightarrow> stop_inhibit \<Rightarrow> motor_state \<Rightarrow> nat \<times> u8 list \<times> u32 list \<times> motor_state" where
  "stop_commit_section clear inhibit s =
     (let s1 = s\<lparr>s_global_inhibited := (s_global_inhibited s \<or> inhibit = STOP_INHIBIT_GLOBAL),
                 s_communication_inhibited := (s_communication_inhibited s \<or> inhibit = STOP_INHIBIT_COMMUNICATION),
                 s_rmt_inhibited := (s_rmt_inhibited s \<or> inhibit = STOP_INHIBIT_RMT)\<rparr>;
          controlled_count = (if s_lifecycle s1 = MOTOR_LIFECYCLE_FAILED then s_owned_fan_count s1
                              else s_initialized_fan_count s1);
          s2 = fold (\<lambda>i. upd_motor i (stop_motor clear inhibit)) [0..<controlled_count] s1
      in (controlled_count, map (\<lambda>i. mc_current_pct (motor s1 i)) [0..<controlled_count],
          map (\<lambda>i. mc_control_generation (motor s2 i)) [0..<controlled_count], s2))"

text \<open>The region that puts an output's internal position back after a failed write, unless a
  later decision has moved the generation on; the ramp uses the same region.\<close>

definition rollback_section :: "nat \<Rightarrow> u8 \<Rightarrow> u32 \<Rightarrow> motor_state \<Rightarrow> motor_state" where
  "rollback_section i previous_pct generation s =
     (if mc_control_generation (motor s i) = generation
      then upd_motor i (\<lambda>m. m\<lparr>mc_current_pct := previous_pct,
             mc_throttle := (mc_throttle m)\<lparr>thr_throttle := percent_to_dshot s previous_pct\<rparr>,
             mc_control_generation := mc_control_generation m + 1\<rparr>) s
      else s)"

definition stop_leave_section :: "motor_state \<Rightarrow> motor_state" where
  "stop_leave_section s = (if s_stop_depth s > 0 then s\<lparr>s_stop_depth := s_stop_depth s - 1\<rparr> else s)"

fun stop_apply_loop ::
  "motor_kconfig \<Rightarrow> 'h motor_ops \<Rightarrow> bool \<Rightarrow> u8 list \<Rightarrow> u32 list \<Rightarrow> nat list \<Rightarrow> esp_err \<Rightarrow> motor_state \<Rightarrow> 'h
   \<Rightarrow> esp_err \<times> motor_state \<times> 'h" where
  "stop_apply_loop kc ops rollback previous_pct generations [] first s h = (first, s, h)"
| "stop_apply_loop kc ops rollback previous_pct generations (i # is) first s h =
     (case apply_motor kc ops i s h of (error, s1, h1) \<Rightarrow>
        let s2 = (if error \<noteq> ESP_OK \<and> rollback
                  then rollback_section i (previous_pct ! i) (generations ! i) s1 else s1)
        in stop_apply_loop kc ops rollback previous_pct generations is (first_error first error) s2 h1)"

definition stop_all_internal ::
  "motor_kconfig \<Rightarrow> 'h motor_ops \<Rightarrow> bool \<Rightarrow> stop_inhibit \<Rightarrow> bool \<Rightarrow> motor_state \<Rightarrow> 'h
   \<Rightarrow> esp_err \<times> motor_state \<times> 'h" where
  "stop_all_internal kc ops clear_manual_targets inhibit rollback_failed_current s h =
     (case stop_enter_section inhibit s of None \<Rightarrow> (ESP_ERR_INVALID_STATE, s, h)
      | Some s1 \<Rightarrow>
        let stop_mutex = s_stop_mutex s1;
            h1 = (case stop_mutex of None \<Rightarrow> h | Some x \<Rightarrow> snd (op_sem_take ops x None h));
            (controlled_count, previous_pct, generations, s2) =
              stop_commit_section clear_manual_targets inhibit s1;
            (first, s3, h2) = stop_apply_loop kc ops rollback_failed_current previous_pct generations
              [0..<controlled_count] ESP_OK s2 h1;
            s4 = stop_leave_section s3;
            h3 = (case stop_mutex of None \<Rightarrow> h2 | Some x \<Rightarrow> op_sem_give ops x h2);
            s5 = (if inhibit \<noteq> STOP_INHIBIT_NONE
                  then emit_event MOTOR_CONTROL_EVENT_INHIBIT_CHANGED (-1) s4 else s4);
            s6 = fold (\<lambda>i. emit_event MOTOR_CONTROL_EVENT_APPLIED_CHANGED (int i)) [0..<controlled_count] s5
        in (first, s6, h3))"

definition motor_control_stop_all where
  "motor_control_stop_all kc ops clear = stop_all_internal kc ops clear STOP_INHIBIT_NONE False"

definition motor_control_stop_all_verified where
  "motor_control_stop_all_verified kc ops clear = stop_all_internal kc ops clear STOP_INHIBIT_NONE True"

definition motor_control_inhibit_global where
  "motor_control_inhibit_global kc ops clear = stop_all_internal kc ops clear STOP_INHIBIT_GLOBAL False"

definition motor_control_inhibit_maintenance where
  "motor_control_inhibit_maintenance kc ops clear = stop_all_internal kc ops clear STOP_INHIBIT_MAINTENANCE False"

definition motor_control_inhibit_communication where
  "motor_control_inhibit_communication kc ops clear =
     stop_all_internal kc ops clear STOP_INHIBIT_COMMUNICATION False"

definition motor_control_inhibit_rmt where
  "motor_control_inhibit_rmt kc ops clear = stop_all_internal kc ops clear STOP_INHIBIT_RMT False"

definition motor_control_inhibit_all_tach where
  "motor_control_inhibit_all_tach kc ops clear = stop_all_internal kc ops clear STOP_INHIBIT_TACH_ALL False"


section \<open>The ramp task\<close>

text \<open>One step of the percentage towards its target.\<close>

definition ramp_next :: "u8 \<Rightarrow> u8 \<Rightarrow> u8 \<Rightarrow> u8" where
  "ramp_next step target current =
     (let cur = uint current; delta = uint target - cur;
          moved = (if delta > 0 then cur + (if delta > uint step then uint step else delta)
                   else cur + (if delta < - uint step then - uint step else delta));
          low = (if moved < 0 then 0 else moved);
          high = (if low > 100 then 100 else low)
      in of_int high)"

text \<open>The region at the top of the loop body: whether the output has to move, the percentage
  before, and the generation of this attempt.\<close>

definition ramp_advance_section :: "nat \<Rightarrow> motor_state \<Rightarrow> bool \<times> u8 \<times> u32 \<times> motor_state" where
  "ramp_advance_section i s =
     (let m = motor s i; current = mc_current_pct m; target = mc_target_pct m
      in if current \<noteq> target
         then let next_pct = ramp_next (s_ramp_step_pct s) target current;
                  s' = upd_motor i (\<lambda>m. m\<lparr>mc_current_pct := next_pct,
                         mc_throttle := (mc_throttle m)\<lparr>thr_throttle := percent_to_dshot s next_pct\<rparr>,
                         mc_control_generation := mc_control_generation m + 1\<rparr>) s
              in (True, current, mc_control_generation (motor s' i), s')
         else (False, current, mc_control_generation m, s))"

definition ramp_report_section :: "nat \<Rightarrow> motor_state \<Rightarrow> bool \<times> motor_state" where
  "ramp_report_section i s =
     (let m = motor s i; last = mc_last_reported_pct m; current = mc_current_pct m;
          crossing_on = (last = 0 \<and> current > 0); crossing_off = (last > 0 \<and> current = 0);
          reached_target = (current = mc_target_pct m);
          step_change = (last = UINT8_MAX \<or> \<bar>uint current - uint last\<bar> \<ge> 5);
          publish_change = (crossing_on \<or> crossing_off \<or> step_change \<or> reached_target)
      in (publish_change,
          if publish_change then upd_motor i (\<lambda>m. m\<lparr>mc_last_reported_pct := current\<rparr>) s else s))"

definition ramp_fan :: "motor_kconfig \<Rightarrow> 'h motor_ops \<Rightarrow> nat \<Rightarrow> motor_state \<Rightarrow> 'h \<Rightarrow> motor_state \<times> 'h" where
  "ramp_fan kc ops i s h =
     (case ramp_advance_section i s of (changed, previous_pct, attempted_generation, s1) \<Rightarrow>
        case apply_motor kc ops i s1 h of (apply_error, s2, h2) \<Rightarrow>
          if \<not> changed then (s2, h2)
          else if apply_error \<noteq> ESP_OK then (rollback_section i previous_pct attempted_generation s2, h2)
          else case ramp_report_section i s2 of (publish_change, s3) \<Rightarrow>
            (if publish_change then emit_event MOTOR_CONTROL_EVENT_APPLIED_CHANGED (int i) s3 else s3, h2))"

fun ramp_fans :: "motor_kconfig \<Rightarrow> 'h motor_ops \<Rightarrow> nat list \<Rightarrow> motor_state \<Rightarrow> 'h \<Rightarrow> motor_state \<times> 'h" where
  "ramp_fans kc ops [] s h = (s, h)"
| "ramp_fans kc ops (i # is) s h =
     (case ramp_fan kc ops i s h of (s', h') \<Rightarrow> ramp_fans kc ops is s' h')"

definition ramp_heartbeat :: "motor_kconfig \<Rightarrow> 'h motor_ops \<Rightarrow> motor_state \<Rightarrow> 'h \<Rightarrow> motor_state \<times> 'h" where
  "ramp_heartbeat kc ops s h =
     (let h1 = (if CONFIG_SUPERVISOR_ENABLED kc then op_task_wdt_reset ops h else h);
          (now, h2) = op_timer_get_time ops h1
      in (s\<lparr>s_ramp_heartbeat_us := now\<rparr>, h2))"

text \<open>One iteration of the task's \<open>while (true)\<close>, up to the delay.\<close>

definition ramp_iteration :: "motor_kconfig \<Rightarrow> 'h motor_ops \<Rightarrow> motor_state \<Rightarrow> 'h \<Rightarrow> motor_state \<times> 'h" where
  "ramp_iteration kc ops s h =
     (if s_ramp_paused s then ramp_heartbeat kc ops s h
      else case ramp_fans kc ops [0..<s_fan_count s] s h of (s', h') \<Rightarrow> ramp_heartbeat kc ops s' h')"

text \<open>The task up to its loop; the flag is false when it suspends itself instead.\<close>

definition motor_ramp_task_start ::
  "motor_kconfig \<Rightarrow> 'h motor_ops \<Rightarrow> motor_state \<Rightarrow> 'h \<Rightarrow> bool \<times> motor_state \<times> 'h" where
  "motor_ramp_task_start kc ops s h =
     (if CONFIG_SUPERVISOR_ENABLED kc then
        (case op_task_wdt_add ops h of (watchdog_error, h1) \<Rightarrow>
           if watchdog_error \<noteq> ESP_OK then
             (case motor_control_inhibit_global kc ops True s h1 of (_, s2, h2) \<Rightarrow>
                (False, emit_event MOTOR_CONTROL_EVENT_RAMP_FATAL (-1) s2, h2))
           else (True, s, h1))
      else (True, s, h))"

definition motor_control_start_ramp ::
  "'h motor_ops \<Rightarrow> nat option \<Rightarrow> nat \<Rightarrow> motor_state \<Rightarrow> 'h \<Rightarrow> esp_err \<times> motor_state \<times> 'h" where
  "motor_control_start_ramp ops callback callback_context s h =
     (if callback = None then (ESP_ERR_INVALID_ARG, s, h)
      else if s_lifecycle s \<noteq> MOTOR_LIFECYCLE_READY \<or> s_ramp_task s \<noteq> None \<or> s_ramp_starting s
      then (ESP_ERR_INVALID_STATE, s, h)
      else let s1 = s\<lparr>s_ramp_starting := True, s_event_callback := callback, s_event_context := callback_context\<rparr>
      in case op_task_create ops h of
           (Some task, h1) \<Rightarrow> (ESP_OK, s1\<lparr>s_ramp_starting := False, s_ramp_task := Some task\<rparr>, h1)
         | (None, h1) \<Rightarrow> (ESP_ERR_NO_MEM, s1\<lparr>s_ramp_starting := False, s_event_callback := None,
                            s_event_context := 0, s_ramp_task := None\<rparr>, h1))"

section \<open>Requests\<close>

definition ack_zero :: motor_control_ack where
  "ack_zero = \<lparr>ack_accepted = False, ack_communication_inhibit_cleared = False,
     ack_accepted_command_count = 0, ack_requested_pct = 0, ack_applied_pct = 0\<rparr>"

definition manual_allowed_locked :: "motor_state \<Rightarrow> int \<Rightarrow> bool" where
  "manual_allowed_locked s local_fan \<longleftrightarrow>
     s_stop_depth s = 0 \<and> \<not> s_global_inhibited s \<and> s_maintenance_depth s = 0 \<and> \<not> s_rmt_inhibited s \<and>
     \<not> mc_rmt_fault_latched (motor s (nat local_fan)) \<and> \<not> mc_tach_inhibited (motor s (nat local_fan))"

definition manual_section :: "int \<Rightarrow> u8 \<Rightarrow> motor_state \<Rightarrow> (motor_control_ack \<times> motor_state) option" where
  "manual_section local_fan target_pct s =
     (if \<not> motor_valid_locked s local_fan \<or> \<not> manual_allowed_locked s local_fan then None
      else let i = nat local_fan;
               s' = upd_motor i (\<lambda>m. m\<lparr>mc_manual_target_pct := target_pct, mc_target_pct := target_pct,
                      mc_accepted_command_count := (if mc_accepted_command_count m < UINT32_MAX
                        then mc_accepted_command_count m + 1 else mc_accepted_command_count m)\<rparr>)
                    (s\<lparr>s_communication_inhibited := False\<rparr>)
           in Some (\<lparr>ack_accepted = True, ack_communication_inhibit_cleared = s_communication_inhibited s,
                     ack_accepted_command_count = mc_accepted_command_count (motor s' i),
                     ack_requested_pct = mc_target_pct (motor s' i),
                     ack_applied_pct = mc_applied_pct (motor s' i)\<rparr>, s'))"

definition motor_control_request_manual ::
  "int \<Rightarrow> u8 \<Rightarrow> motor_state \<Rightarrow> esp_err \<times> motor_control_ack \<times> motor_state" where
  "motor_control_request_manual local_fan target_pct s =
     (if target_pct > 100 then (ESP_ERR_INVALID_ARG, ack_zero, s)
      else case manual_section local_fan target_pct s of
        None \<Rightarrow> (ESP_ERR_INVALID_STATE, ack_zero, s)
      | Some (ack, s') \<Rightarrow> (ESP_OK, ack, emit_event MOTOR_CONTROL_EVENT_TARGET_CHANGED local_fan s'))"

definition automatic_section :: "int \<Rightarrow> u8 \<Rightarrow> motor_state \<Rightarrow> (u8 \<times> motor_state) option" where
  "automatic_section local_fan target_pct s =
     (if \<not> automatic_allowed_locked s local_fan then None
      else Some (mc_manual_target_pct (motor s (nat local_fan)),
                 upd_motor (nat local_fan) (\<lambda>m. m\<lparr>mc_target_pct := target_pct\<rparr>) s))"

definition motor_control_request_automatic :: "int \<Rightarrow> u8 \<Rightarrow> motor_state \<Rightarrow> esp_err \<times> motor_state" where
  "motor_control_request_automatic local_fan target_pct s =
     (if target_pct > 100 then (ESP_ERR_INVALID_ARG, s)
      else case automatic_section local_fan target_pct s of
        None \<Rightarrow> (ESP_ERR_INVALID_STATE, s)
      | Some (_, s') \<Rightarrow> (ESP_OK, emit_event MOTOR_CONTROL_EVENT_TARGET_CHANGED local_fan s'))"

text \<open>The third result is what is written to \<open>out_manual_target_pct\<close>, when it is.\<close>

definition motor_control_request_scheduled ::
  "int \<Rightarrow> u8 \<Rightarrow> motor_state \<Rightarrow> esp_err \<times> u8 option \<times> motor_state" where
  "motor_control_request_scheduled local_fan target_pct s =
     (if target_pct > 100 then (ESP_ERR_INVALID_ARG, None, s)
      else case automatic_section local_fan target_pct s of
        None \<Rightarrow> (ESP_ERR_INVALID_STATE, None, s)
      | Some (manual, s') \<Rightarrow>
          (ESP_OK, Some manual, emit_event MOTOR_CONTROL_EVENT_TARGET_CHANGED local_fan s'))"

definition restore_allowed :: "u8 list \<Rightarrow> motor_state \<Rightarrow> bool" where
  "restore_allowed targets s \<longleftrightarrow>
     s_stop_depth s = 0 \<and> \<not> s_global_inhibited s \<and> s_maintenance_depth s = 0 \<and>
     \<not> s_communication_inhibited s \<and> \<not> s_rmt_inhibited s \<and>
     (\<forall>i \<in> {0..<s_fan_count s}. targets ! i \<le> 100 \<and> \<not> mc_rmt_fault_latched (motor s i) \<and>
        \<not> mc_tach_inhibited (motor s i))"

definition restore_section :: "u8 list \<Rightarrow> motor_state \<Rightarrow> motor_state" where
  "restore_section targets s =
     fold (\<lambda>i. upd_motor i (\<lambda>m. m\<lparr>mc_manual_target_pct := targets ! i, mc_target_pct := targets ! i\<rparr>))
       [0..<s_fan_count s] s"

definition motor_control_restore_all :: "u8 list option \<Rightarrow> nat \<Rightarrow> motor_state \<Rightarrow> esp_err \<times> motor_state" where
  "motor_control_restore_all targets target_count s =
     (case targets of None \<Rightarrow> (ESP_ERR_INVALID_ARG, s)
      | Some ts \<Rightarrow>
        if s_lifecycle s \<noteq> MOTOR_LIFECYCLE_READY \<or> target_count \<noteq> s_fan_count s then (ESP_ERR_INVALID_ARG, s)
        else if \<not> restore_allowed ts s then (ESP_ERR_INVALID_STATE, s)
        else (ESP_OK, fold (\<lambda>i. emit_event MOTOR_CONTROL_EVENT_TARGET_CHANGED (int i))
                [0..<s_fan_count s] (restore_section ts s)))"

section \<open>Stopping one output\<close>

definition stop_one_section :: "int \<Rightarrow> bool \<Rightarrow> motor_state \<Rightarrow> motor_state option" where
  "stop_one_section local_fan clear s =
     (if \<not> motor_valid_locked s local_fan then None
      else Some (upd_motor (nat local_fan) (\<lambda>m. m\<lparr>mc_target_pct := 0, mc_current_pct := 0,
        mc_throttle := zero_throttle,
        mc_manual_target_pct := (if clear then 0 else mc_manual_target_pct m),
        mc_control_generation := mc_control_generation m + 1\<rparr>) s))"

definition motor_control_stop_one ::
  "motor_kconfig \<Rightarrow> 'h motor_ops \<Rightarrow> int \<Rightarrow> bool \<Rightarrow> motor_state \<Rightarrow> 'h \<Rightarrow> esp_err \<times> motor_state \<times> 'h" where
  "motor_control_stop_one kc ops local_fan clear s h =
     (case stop_one_section local_fan clear s of None \<Rightarrow> (ESP_ERR_INVALID_STATE, s, h)
      | Some s1 \<Rightarrow>
        (case apply_motor kc ops (nat local_fan) s1 h of (error, s2, h2) \<Rightarrow>
           (error, emit_event MOTOR_CONTROL_EVENT_APPLIED_CHANGED local_fan s2, h2)))"

definition tach_inhibit_section :: "int \<Rightarrow> bool \<Rightarrow> motor_state \<Rightarrow> motor_state option" where
  "tach_inhibit_section local_fan inhibited s =
     (if \<not> motor_valid_locked s local_fan then None
      else Some (upd_motor (nat local_fan) (\<lambda>m.
        let m' = m\<lparr>mc_tach_inhibited := inhibited\<rparr>
        in if inhibited then m'\<lparr>mc_target_pct := 0, mc_manual_target_pct := 0, mc_current_pct := 0,
                                mc_throttle := zero_throttle,
                                mc_control_generation := mc_control_generation m + 1\<rparr>
           else m') s))"

definition motor_control_set_tach_inhibit ::
  "motor_kconfig \<Rightarrow> 'h motor_ops \<Rightarrow> int \<Rightarrow> bool \<Rightarrow> motor_state \<Rightarrow> 'h \<Rightarrow> esp_err \<times> motor_state \<times> 'h" where
  "motor_control_set_tach_inhibit kc ops local_fan inhibited s h =
     (case tach_inhibit_section local_fan inhibited s of None \<Rightarrow> (ESP_ERR_INVALID_STATE, s, h)
      | Some s1 \<Rightarrow>
        (case (if inhibited then apply_motor kc ops (nat local_fan) s1 h else (ESP_OK, s1, h)) of
           (error, s2, h2) \<Rightarrow>
             let s3 = emit_event MOTOR_CONTROL_EVENT_INHIBIT_CHANGED local_fan s2
             in (error, if inhibited then emit_event MOTOR_CONTROL_EVENT_APPLIED_CHANGED local_fan s3 else s3, h2)))"

section \<open>Inhibits, flags and snapshots\<close>

definition clear_maintenance_section :: "motor_state \<Rightarrow> bool \<times> motor_state" where
  "clear_maintenance_section s =
     (if s_maintenance_depth s > 0
      then (s_maintenance_depth s - 1 = 0, s\<lparr>s_maintenance_depth := s_maintenance_depth s - 1\<rparr>)
      else (False, s))"

definition motor_control_clear_maintenance_inhibit :: "motor_state \<Rightarrow> esp_err \<times> motor_state" where
  "motor_control_clear_maintenance_inhibit s =
     (if s_lifecycle s \<noteq> MOTOR_LIFECYCLE_READY then (ESP_ERR_INVALID_STATE, s)
      else case clear_maintenance_section s of (changed, s') \<Rightarrow>
        (ESP_OK, if changed then emit_event MOTOR_CONTROL_EVENT_INHIBIT_CHANGED (-1) s' else s'))"

definition motor_control_take_rmt_fault_pending :: "motor_state \<Rightarrow> bool \<times> motor_state" where
  "motor_control_take_rmt_fault_pending s = (s_rmt_fault_pending s, s\<lparr>s_rmt_fault_pending := False\<rparr>)"

definition motor_control_set_ramp_paused :: "bool \<Rightarrow> motor_state \<Rightarrow> motor_state" where
  "motor_control_set_ramp_paused paused s = s\<lparr>s_ramp_paused := paused\<rparr>"

definition motor_control_output_allowed :: "motor_state \<Rightarrow> bool" where
  "motor_control_output_allowed s \<longleftrightarrow>
     s_lifecycle s = MOTOR_LIFECYCLE_READY \<and> s_stop_depth s = 0 \<and> \<not> s_global_inhibited s \<and>
     s_maintenance_depth s = 0 \<and> \<not> s_communication_inhibited s \<and> \<not> s_rmt_inhibited s \<and>
     (\<forall>i \<in> {0..<s_initialized_fan_count s}. \<not> mc_rmt_fault_latched (motor s i))"

definition motor_control_get_fan_snapshot :: "int \<Rightarrow> motor_state \<Rightarrow> motor_control_fan_snapshot option" where
  "motor_control_get_fan_snapshot local_fan s =
     (if \<not> motor_valid_locked s local_fan then None
      else Some (fill_fan_snapshot_locked s (nat local_fan)))"

definition motor_control_get_health_snapshot ::
  "'h motor_ops \<Rightarrow> motor_state \<Rightarrow> 'h \<Rightarrow> motor_control_health_snapshot \<times> 'h" where
  "motor_control_get_health_snapshot ops s h =
     (let ready = (s_lifecycle s = MOTOR_LIFECYCLE_READY);
          ramp_task = (if ready then s_ramp_task s else None);
          (stack, h') = (case ramp_task of None \<Rightarrow> (0, h) | Some t \<Rightarrow> op_stack_high_water_mark ops t h)
      in (\<lparr>hs_initialized = ready, hs_ramp_started = (ready \<and> s_ramp_task s \<noteq> None),
           hs_ramp_paused = s_ramp_paused s, hs_stop_in_progress = (s_stop_depth s > 0),
           hs_global_inhibited = s_global_inhibited s,
           hs_maintenance_inhibited = (s_maintenance_depth s > 0),
           hs_communication_inhibited = s_communication_inhibited s,
           hs_rmt_inhibited = s_rmt_inhibited s, hs_rmt_fault_pending = s_rmt_fault_pending s,
           hs_fan_count = (if ready then s_fan_count s else 0),
           hs_initialized_fan_count = (if ready then s_initialized_fan_count s else 0),
           hs_ramp_heartbeat_us = s_ramp_heartbeat_us s, hs_ramp_stack_bytes = stack,
           hs_fans = (if ready then map (fill_fan_snapshot_locked s) [0..<s_fan_count s] else [])\<rparr>, h'))"

text \<open>Taking every I/O mutex in fan order; on a timeout the ones taken are given back. The
  timeout is in milliseconds: \<open>op_sem_take\<close> includes \<open>pdMS_TO_TICKS\<close>.\<close>

fun take_mutexes :: "'h motor_ops \<Rightarrow> nat list \<Rightarrow> nat list \<Rightarrow> 'h \<Rightarrow> bool \<times> 'h" where
  "take_mutexes ops taken [] h = (True, h)"
| "take_mutexes ops taken (x # xs) h =
     (case op_sem_take ops x (Some (RMT_STOP_TIMEOUT_MS + 50)) h of (ok, h') \<Rightarrow>
        if ok then take_mutexes ops (x # taken) xs h'
        else (False, fold (op_sem_give ops) taken h'))"

definition output_safe_zero :: "motor_context \<Rightarrow> bool" where
  "output_safe_zero m \<longleftrightarrow>
     mc_channel m \<noteq> None \<and> mc_encoder m \<noteq> None \<and> mc_active m \<and> mc_channel_enabled m \<and>
     mc_target_pct m = 0 \<and> mc_current_pct m = 0 \<and> mc_applied_pct m = 0 \<and>
     thr_throttle (mc_throttle m) = 0 \<and> thr_throttle (mc_tx_payload m) = 0 \<and> mc_last_dshot m = 0 \<and>
     mc_rmt_error_consecutive m = 0 \<and> \<not> mc_rmt_fault_latched m"

text \<open>\<open>s\<close> is the state at the first region and \<open>s'\<close> at the second, once all mutexes are held.\<close>

definition safe_zero_section :: "motor_state \<Rightarrow> motor_state \<Rightarrow> bool" where
  "safe_zero_section s s' \<longleftrightarrow>
     s_lifecycle s' = MOTOR_LIFECYCLE_READY \<and> s_initialized_fan_count s' = s_fan_count s \<and>
     s_fan_count s' = s_fan_count s \<and>
     (\<forall>i \<in> {0..<s_fan_count s}. mc_io_mutex (motor s' i) = mc_io_mutex (motor s i) \<and>
        output_safe_zero (motor s' i))"

definition motor_control_holds_safe_zero :: "'h motor_ops \<Rightarrow> motor_state \<Rightarrow> 'h \<Rightarrow> bool \<times> 'h" where
  "motor_control_holds_safe_zero ops s h =
     (if s_lifecycle s \<noteq> MOTOR_LIFECYCLE_READY \<or> s_initialized_fan_count s \<noteq> s_fan_count s \<or>
         (\<exists>i \<in> {0..<s_fan_count s}. mc_io_mutex (motor s i) = None)
      then (False, h)
      else let io_mutexes = map (\<lambda>i. the (mc_io_mutex (motor s i))) [0..<s_fan_count s]
      in case take_mutexes ops [] io_mutexes h of (ok, h1) \<Rightarrow>
         if \<not> ok then (False, h1)
         else (safe_zero_section s s, fold (op_sem_give ops) (rev io_mutexes) h1))"

definition motor_control_ramp_heartbeat_us :: "motor_state \<Rightarrow> int" where
  "motor_control_ramp_heartbeat_us s = s_ramp_heartbeat_us s"

definition motor_control_ramp_stack_bytes :: "'h motor_ops \<Rightarrow> motor_state \<Rightarrow> 'h \<Rightarrow> u32 \<times> 'h" where
  "motor_control_ramp_stack_bytes ops s h =
     (case s_ramp_task s of None \<Rightarrow> (0, h) | Some t \<Rightarrow> op_stack_high_water_mark ops t h)"

end
