(* ===== verification/Motor_Safety.thy ===== *)
theory Motor_Safety imports Motor_Control
begin

text \<open>
  The safety argument for \<open>motor_control.c\<close>. Several tasks call the module at once: the
  ramp task, the command executor, the scheduler, the safety supervisor. Their critical
  sections run one at a time, in any order, with driver calls in between, so the theory
  takes each section as one atomic step (\<open>motor_step\<close>), with the locals a task carries from
  an earlier section left arbitrary, and proves the invariant \<open>motor_inv\<close> of every state
  reachable by such steps. The operations themselves are then shown to be sequences of
  these steps, so the invariant and everything derived from it also holds around them.
\<close>

section \<open>Arrays of contexts\<close>

lemma motor_upd: "motor (upd_motor i f s) j =
    (if i = j \<and> i < length (s_motors s) then f (motor s j) else motor s j)"
  by (cases "i = j"; cases "i < length (s_motors s)")
    (simp_all add: motor_def upd_motor_def list_update_beyond)

lemma upd_motor_beyond: "length (s_motors s) \<le> i \<Longrightarrow> upd_motor i f s = s"
  by (simp add: upd_motor_def list_update_beyond)

lemma upd_motor_other [simp]:
  "length (s_motors (upd_motor i f s)) = length (s_motors s)"
  "s_lifecycle (upd_motor i f s) = s_lifecycle s"
  "s_fan_count (upd_motor i f s) = s_fan_count s"
  "s_fan_index_start (upd_motor i f s) = s_fan_index_start s"
  "s_initialized_fan_count (upd_motor i f s) = s_initialized_fan_count s"
  "s_owned_fan_count (upd_motor i f s) = s_owned_fan_count s"
  "s_min_spin_pct (upd_motor i f s) = s_min_spin_pct s"
  "s_ramp_step_pct (upd_motor i f s) = s_ramp_step_pct s"
  "s_stop_depth (upd_motor i f s) = s_stop_depth s"
  "s_stop_mutex (upd_motor i f s) = s_stop_mutex s"
  "s_global_inhibited (upd_motor i f s) = s_global_inhibited s"
  "s_maintenance_depth (upd_motor i f s) = s_maintenance_depth s"
  "s_communication_inhibited (upd_motor i f s) = s_communication_inhibited s"
  "s_rmt_inhibited (upd_motor i f s) = s_rmt_inhibited s"
  "s_rmt_fault_pending (upd_motor i f s) = s_rmt_fault_pending s"
  by (simp_all add: upd_motor_def)

lemma motor_upd_same [simp]: "i < length (s_motors s) \<Longrightarrow> motor (upd_motor i f s) i = f (motor s i)"
  by (simp add: motor_upd)

lemma motor_upd_diff [simp]: "i \<noteq> j \<Longrightarrow> motor (upd_motor i f s) j = motor s j"
  by (simp add: motor_upd)

lemma motor_cong_motors: "s_motors s = s_motors s' \<Longrightarrow> motor s i = motor s' i"
  by (simp add: motor_def)

text \<open>A \<open>for\<close> loop that updates one context per index.\<close>

lemma fold_upd_motor_length [simp]:
  "length (s_motors (fold (\<lambda>i. upd_motor i (f i)) is s)) = length (s_motors s)"
  by (induction "is" arbitrary: s) auto

lemma fold_upd_motor:
  "n \<le> length (s_motors s) \<Longrightarrow>
   motor (fold (\<lambda>i. upd_motor i (f i)) [0..<n] s) j = (if j < n then f j (motor s j) else motor s j)"
  by (induction n) (auto simp: motor_upd)

lemma fold_upd_motor_fields:
  "s_lifecycle (fold (\<lambda>i. upd_motor i (f i)) is s) = s_lifecycle s"
  "s_fan_count (fold (\<lambda>i. upd_motor i (f i)) is s) = s_fan_count s"
  "s_initialized_fan_count (fold (\<lambda>i. upd_motor i (f i)) is s) = s_initialized_fan_count s"
  "s_owned_fan_count (fold (\<lambda>i. upd_motor i (f i)) is s) = s_owned_fan_count s"
  "s_min_spin_pct (fold (\<lambda>i. upd_motor i (f i)) is s) = s_min_spin_pct s"
  "s_stop_depth (fold (\<lambda>i. upd_motor i (f i)) is s) = s_stop_depth s"
  "s_global_inhibited (fold (\<lambda>i. upd_motor i (f i)) is s) = s_global_inhibited s"
  "s_maintenance_depth (fold (\<lambda>i. upd_motor i (f i)) is s) = s_maintenance_depth s"
  "s_communication_inhibited (fold (\<lambda>i. upd_motor i (f i)) is s) = s_communication_inhibited s"
  "s_rmt_inhibited (fold (\<lambda>i. upd_motor i (f i)) is s) = s_rmt_inhibited s"
  by (induction "is" arbitrary: s) auto

lemma emit_event_log: "\<exists>l. emit_event t f s = s\<lparr>s_event_log := l\<rparr>"
proof (cases "s_event_callback s")
  case None
  then have "emit_event t f s = s\<lparr>s_event_log := s_event_log s\<rparr>" by (simp add: emit_event_def Let_def)
  then show ?thesis ..
next
  case (Some c)
  then show ?thesis unfolding emit_event_def Let_def by auto
qed

section \<open>The invariant\<close>

definition io_ok :: "motor_context \<Rightarrow> bool" where
  "io_ok m \<longleftrightarrow> (mc_active m \<and> mc_channel_enabled m \<longrightarrow> mc_last_dshot m = dshot_composite (mc_tx_payload m))"

text \<open>One output: percentages are percentages, the throttle is the one of the current
  percentage, a latched or tach-inhibited output has no target, enough failures latch.\<close>

definition context_inv :: "u16 \<Rightarrow> u8 \<Rightarrow> motor_context \<Rightarrow> bool" where
  "context_inv limit min_spin m \<longleftrightarrow>
     mc_target_pct m \<le> 100 \<and> mc_manual_target_pct m \<le> 100 \<and> mc_current_pct m \<le> 100 \<and>
     mc_applied_pct m \<le> 100 \<and>
     mc_throttle m = \<lparr>thr_throttle = controller_pct_to_dshot (mc_current_pct m) min_spin,
                      thr_telemetry_req = False\<rparr> \<and>
     (mc_rmt_fault_latched m \<longrightarrow> mc_target_pct m = 0) \<and>
     (mc_tach_inhibited m \<longrightarrow> mc_target_pct m = 0) \<and>
     (mc_rmt_error_consecutive m \<ge> limit \<longrightarrow> mc_rmt_fault_latched m) \<and> io_ok m"

definition all_targets_zero :: "motor_state \<Rightarrow> bool" where
  "all_targets_zero s \<longleftrightarrow> (\<forall>i < length (s_motors s). mc_target_pct (motor s i) = 0)"

definition motor_inv :: "motor_kconfig \<Rightarrow> motor_state \<Rightarrow> bool" where
  "motor_inv kc s \<longleftrightarrow>
     length (s_motors s) = 4 \<and> s_fan_count s \<le> 4 \<and> s_owned_fan_count s \<le> 4 \<and>
     s_initialized_fan_count s \<le> 4 \<and>
     (\<forall>i < 4. context_inv (CONFIG_RMT_ERROR_LIMIT kc) (s_min_spin_pct s) (motor s i)) \<and>
     (s_lifecycle s = MOTOR_LIFECYCLE_READY \<longrightarrow> s_initialized_fan_count s = s_fan_count s \<and>
        (\<forall>i < 4. s_fan_count s \<le> i \<longrightarrow> mc_target_pct (motor s i) = 0)) \<and>
     (s_lifecycle s \<noteq> MOTOR_LIFECYCLE_READY \<longrightarrow> all_targets_zero s) \<and>
     (\<forall>i < 4. mc_rmt_fault_latched (motor s i) \<longrightarrow> s_rmt_inhibited s) \<and>
     (s_global_inhibited s \<longrightarrow> all_targets_zero s) \<and>
     (s_communication_inhibited s \<longrightarrow> all_targets_zero s)"

lemma all_targets_zero_4: "length (s_motors s) = 4 \<Longrightarrow>
    all_targets_zero s \<longleftrightarrow> (\<forall>i < 4. mc_target_pct (motor s i) = 0)"
  by (simp add: all_targets_zero_def)

text \<open>Most sections change one context without raising a target or latching a fault.\<close>

lemma motor_inv_upd:
  assumes "motor_inv kc s"
    and "\<And>m. context_inv (CONFIG_RMT_ERROR_LIMIT kc) (s_min_spin_pct s) m \<Longrightarrow>
           context_inv (CONFIG_RMT_ERROR_LIMIT kc) (s_min_spin_pct s) (f m)"
    and "\<And>m. mc_target_pct (f m) = mc_target_pct m \<or> mc_target_pct (f m) = 0"
    and "\<And>m. mc_rmt_fault_latched (f m) \<Longrightarrow> mc_rmt_fault_latched m"
  shows "motor_inv kc (upd_motor i f s)"
proof -
  have len: "length (s_motors s) = 4" using assms(1) by (simp add: motor_inv_def)
  have t: "mc_target_pct (motor (upd_motor i f s) j) = mc_target_pct (motor s j) \<or>
      mc_target_pct (motor (upd_motor i f s) j) = 0" for j
    using assms(3) by (auto simp: motor_upd)
  then have z: "mc_target_pct (motor s j) = 0 \<Longrightarrow> mc_target_pct (motor (upd_motor i f s) j) = 0" for j
    by metis
  then have az: "all_targets_zero s \<Longrightarrow> all_targets_zero (upd_motor i f s)"
    by (simp add: all_targets_zero_def)
  show ?thesis
    using assms(1) z az unfolding motor_inv_def
    by (auto simp: motor_upd len assms(2) dest: assms(4) split: if_splits)
qed

text \<open>The same for the fields outside the array.\<close>

lemma motor_inv_cong:
  assumes "motor_inv kc s" and "s_motors s' = s_motors s" and "s_lifecycle s' = s_lifecycle s"
    and "s_fan_count s' = s_fan_count s" and "s_owned_fan_count s' = s_owned_fan_count s"
    and "s_initialized_fan_count s' = s_initialized_fan_count s" and "s_min_spin_pct s' = s_min_spin_pct s"
    and "s_rmt_inhibited s' = s_rmt_inhibited s"
    and "s_global_inhibited s' \<longrightarrow> s_global_inhibited s"
    and "s_communication_inhibited s' \<longrightarrow> s_communication_inhibited s"
  shows "motor_inv kc s'"
proof -
  have m: "motor s' i = motor s i" for i using assms(2) by (rule motor_cong_motors)
  then have "all_targets_zero s' = all_targets_zero s" by (simp add: all_targets_zero_def assms(2))
  then show ?thesis using assms unfolding motor_inv_def by (auto simp: m)
qed

section \<open>Atomic steps\<close>

text \<open>The steps of any number of tasks. \<open>io\<close> is a driver call by the owner of an output's I/O
  mutex; it leaves the fields that the motor lock protects alone.\<close>

inductive motor_step :: "motor_kconfig \<Rightarrow> motor_state \<Rightarrow> motor_state \<Rightarrow> bool" for kc where
  step_io: "(io_ok (motor s i) \<Longrightarrow> io_ok (motor (upd_motor i (\<lambda>m. m\<lparr>mc_tx_payload := p, mc_active := a, mc_channel_enabled := e,
      mc_last_dshot := d, mc_last_tx_us := t, mc_last_rmt_error_log_us := l\<rparr>) s) i)) \<Longrightarrow>
    motor_step kc s (upd_motor i (\<lambda>m. m\<lparr>mc_tx_payload := p, mc_active := a, mc_channel_enabled := e,
      mc_last_dshot := d, mc_last_tx_us := t, mc_last_rmt_error_log_us := l\<rparr>) s)"
| step_read: "motor_step kc s (snd (snd (apply_read_section i s)))"
| step_refresh: "motor_step kc s (refresh_section i s)"
| step_record: "applied \<le> 100 \<Longrightarrow> motor_step kc s (snd (record_result_section kc i error applied now s))"
| step_stop_enter: "stop_enter_section inhibit s = Some s' \<Longrightarrow> motor_step kc s s'"
| step_stop_commit: "motor_step kc s (snd (snd (snd (stop_commit_section clear inhibit s))))"
| step_rollback: "previous_pct \<le> 100 \<Longrightarrow> motor_step kc s (rollback_section i previous_pct generation s)"
| step_stop_leave: "motor_step kc s (stop_leave_section s)"
| step_ramp_advance: "motor_step kc s (snd (snd (snd (ramp_advance_section i s))))"
| step_ramp_report: "motor_step kc s (snd (ramp_report_section i s))"
| step_manual: "target_pct \<le> 100 \<Longrightarrow> manual_section local_fan target_pct s = Some (ack, s') \<Longrightarrow> motor_step kc s s'"
| step_automatic: "target_pct \<le> 100 \<Longrightarrow> automatic_section local_fan target_pct s = Some (prev, s') \<Longrightarrow> motor_step kc s s'"
| step_restore: "s_lifecycle s = MOTOR_LIFECYCLE_READY \<Longrightarrow> restore_allowed targets s \<Longrightarrow>
    motor_step kc s (restore_section targets s)"
| step_stop_one: "stop_one_section local_fan clear s = Some s' \<Longrightarrow> motor_step kc s s'"
| step_tach: "tach_inhibit_section local_fan inhibited s = Some s' \<Longrightarrow> motor_step kc s s'"
| step_clear_maintenance: "motor_step kc s (snd (clear_maintenance_section s))"
| step_take_pending: "motor_step kc s (snd (motor_control_take_rmt_fault_pending s))"
| step_misc: "motor_step kc s (s\<lparr>s_ramp_paused := a, s_ramp_task := b, s_ramp_starting := c,
    s_ramp_heartbeat_us := d, s_event_callback := e, s_event_context := f, s_event_log := g\<rparr>)"

abbreviation motor_steps :: "motor_kconfig \<Rightarrow> motor_state \<Rightarrow> motor_state \<Rightarrow> bool" where
  "motor_steps kc \<equiv> (motor_step kc)\<^sup>*\<^sup>*"

subsection \<open>Each step keeps the invariant\<close>

lemma pct_le_100_uint: "p \<le> (100 :: u8) \<longleftrightarrow> uint p \<le> 100"
  by (simp add: word_le_def)

lemma ramp_int_bounds:
  fixes c t st :: int
  assumes "0 \<le> c" and "c \<le> 100" and "0 \<le> t" and "t \<le> 100" and "0 \<le> st"
  shows "0 \<le> (if t > c then min t (c + st) else max t (c - st)) \<and>
    (if t > c then min t (c + st) else max t (c - st)) \<le> 100"
  using assms by auto

lemma ramp_next_uint:
  assumes "cur \<le> 100" and "target \<le> 100"
  shows "uint (ramp_next step target cur) =
    (if uint target > uint cur then min (uint target) (uint cur + uint step)
     else max (uint target) (uint cur - uint step))"
proof -
  have b: "0 \<le> uint cur" "uint cur \<le> 100" "0 \<le> uint target" "uint target \<le> 100" "0 \<le> uint step"
    using assms by (simp_all add: pct_le_100_uint)
  let ?v = "if uint target > uint cur then min (uint target) (uint cur + uint step)
     else max (uint target) (uint cur - uint step)"
  have "ramp_next step target cur = of_int ?v"
  proof -
    define c t st where "c = uint cur" and "t = uint target" and "st = uint step"
    have "0 \<le> c" "c \<le> 100" "0 \<le> t" "t \<le> 100" "0 \<le> st" using b by (simp_all add: c_def t_def st_def)
    then show ?thesis
      unfolding ramp_next_def Let_def c_def [symmetric] t_def [symmetric] st_def [symmetric]
      by (intro arg_cong [of _ _ "of_int :: int \<Rightarrow> u8"]) auto
  qed
  moreover have "0 \<le> ?v" "?v \<le> 100" using ramp_int_bounds [OF b] by blast+
  then have "uint (of_int ?v :: u8) = ?v" by (simp add: unsigned_of_int take_bit_int_eq_self)
  ultimately show ?thesis by metis
qed

lemma ramp_next_le_100: "cur \<le> 100 \<Longrightarrow> target \<le> 100 \<Longrightarrow> ramp_next step target cur \<le> 100"
  using ramp_int_bounds [of "uint cur" "uint target" "uint step"] ramp_next_uint [of cur target step]
  by (simp add: pct_le_100_uint)

lemma throttle_rollback:
  "context_inv limit ms m \<Longrightarrow> p \<le> 100 \<Longrightarrow>
   context_inv limit ms (m\<lparr>mc_current_pct := p,
     mc_throttle := (mc_throttle m)\<lparr>thr_throttle := controller_pct_to_dshot p ms\<rparr>,
     mc_control_generation := g\<rparr>)"
  by (simp add: context_inv_def io_ok_def)

lemma zero_throttle_dshot: "zero_throttle = \<lparr>thr_throttle = controller_pct_to_dshot 0 ms, thr_telemetry_req = False\<rparr>"
proof -
  have "controller_pct_to_dshot 0 ms = 0" by (simp add: pct_to_dshot_0_iff)
  then show ?thesis by (simp add: zero_throttle_def)
qed

lemma context_inv_stop:
  "context_inv limit ms m \<Longrightarrow> context_inv limit ms (stop_motor clear inhibit m)"
  by (auto simp: context_inv_def stop_motor_def io_ok_def zero_throttle_dshot [of ms])

lemma io_step_inv:
  assumes "motor_inv kc s"
    and "io_ok (motor s i) \<Longrightarrow> io_ok (motor (upd_motor i (\<lambda>m. m\<lparr>mc_tx_payload := p, mc_active := a,
      mc_channel_enabled := e, mc_last_dshot := d, mc_last_tx_us := t, mc_last_rmt_error_log_us := l\<rparr>) s) i)"
  shows "motor_inv kc (upd_motor i (\<lambda>m. m\<lparr>mc_tx_payload := p, mc_active := a,
      mc_channel_enabled := e, mc_last_dshot := d, mc_last_tx_us := t, mc_last_rmt_error_log_us := l\<rparr>) s)"
    (is "motor_inv kc ?s'")
proof -
  have len: "length (s_motors s) = 4" using assms(1) by (simp add: motor_inv_def)
  have eq: "mc_target_pct (motor ?s' j) = mc_target_pct (motor s j)"
    "mc_rmt_fault_latched (motor ?s' j) = mc_rmt_fault_latched (motor s j)" for j
    by (auto simp: motor_upd)
  have az: "all_targets_zero ?s' = all_targets_zero s"
    by (simp add: all_targets_zero_def eq)
  have c: "context_inv (CONFIG_RMT_ERROR_LIMIT kc) (s_min_spin_pct s) (motor ?s' j)" if "j < 4" for j
  proof (cases "i = j")
    case True
    have "context_inv (CONFIG_RMT_ERROR_LIMIT kc) (s_min_spin_pct s) (motor s j)"
      using assms(1) that by (simp add: motor_inv_def)
    moreover from this have "io_ok (motor ?s' j)" using assms(2) True by (simp add: context_inv_def)
    ultimately show ?thesis using True that len by (simp add: context_inv_def)
  next
    case False
    then show ?thesis using assms(1) that by (simp add: motor_inv_def)
  qed
  show ?thesis using assms(1) c az by (simp add: motor_inv_def eq)
qed

lemma read_section_inv: "motor_inv kc s \<Longrightarrow> motor_inv kc (snd (snd (apply_read_section i s)))"
proof -
  assume inv: "motor_inv kc s"
  show ?thesis
  proof (cases "i < 4")
    case True
    let ?t = "thr_throttle (mc_throttle (motor s i))"
    have "?t = controller_pct_to_dshot (mc_current_pct (motor s i)) (s_min_spin_pct s)"
      using inv True by (simp add: motor_inv_def context_inv_def)
    then have "?t = 0 \<or> 48 \<le> ?t"
      using pct_to_dshot_unat [of "mc_current_pct (motor s i)" "s_min_spin_pct s"]
      by (auto simp: word_le_nat_alt word_unat_eq_iff split: if_splits)
    then have "\<not> (?t > 0 \<and> ?t < 48)" by auto
    then show ?thesis using inv by (simp only: apply_read_section_def Let_def if_False) simp
  next
    case False
    then have "upd_motor i f s = s" for f
      using inv by (intro upd_motor_beyond) (simp add: motor_inv_def)
    then show ?thesis using inv by (simp add: apply_read_section_def Let_def)
  qed
qed

lemma record_section_inv:
  assumes "motor_inv kc s" and "applied \<le> 100" and "0 < CONFIG_RMT_ERROR_LIMIT kc"
  shows "motor_inv kc (snd (record_result_section kc i error applied now s))"
proof (cases "error = ESP_OK")
  case True
  then show ?thesis
    using assms unfolding record_result_section_def
    by (simp, intro motor_inv_upd)
      (auto simp: context_inv_def record_success_def Let_def io_ok_def split: if_splits)
next
  case False
  let ?L = "CONFIG_RMT_ERROR_LIMIT kc"
  let ?s = "upd_motor i (record_failure ?L) s"
  have len: "length (s_motors s) = 4" using assms(1) by (simp add: motor_inv_def)
  have ctx: "context_inv ?L ms m \<Longrightarrow> context_inv ?L ms (record_failure ?L m)" for ms m
    by (auto simp: context_inv_def record_failure_def Let_def io_ok_def not_le)
  have tgt: "mc_target_pct (record_failure ?L m) = mc_target_pct m \<or> mc_target_pct (record_failure ?L m) = 0" for m
    by (simp add: record_failure_def Let_def)
  have lat: "mc_rmt_fault_latched (record_failure ?L m) \<Longrightarrow> mc_rmt_fault_latched m \<or>
      mc_rmt_error_consecutive (record_failure ?L m) \<ge> ?L" for m
    by (auto simp: record_failure_def Let_def split: if_splits)
  have t: "mc_target_pct (motor s j) = 0 \<Longrightarrow> mc_target_pct (motor ?s j) = 0" for j
    using tgt by (auto simp: motor_upd) metis+
  then have az: "all_targets_zero s \<Longrightarrow> all_targets_zero ?s" by (simp add: all_targets_zero_def)
  have m: "motor (?s\<lparr>s_rmt_inhibited := True, s_rmt_fault_pending := True\<rparr>) j = motor ?s j" for j
    by (simp add: motor_def)
  have az': "all_targets_zero (?s\<lparr>s_rmt_inhibited := True, s_rmt_fault_pending := True\<rparr>) = all_targets_zero ?s"
    by (simp add: all_targets_zero_def m)
  show ?thesis
  proof (cases "mc_rmt_error_consecutive (motor ?s i) \<ge> ?L")
    case True
    have "motor_inv kc (?s\<lparr>s_rmt_inhibited := True, s_rmt_fault_pending := True\<rparr>)"
      using assms(1) t az ctx unfolding motor_inv_def by (simp add: m az' len motor_upd)
    then show ?thesis using True False by (simp add: record_result_section_def Let_def)
  next
    case nl: False
    have "mc_rmt_fault_latched (motor ?s j) \<Longrightarrow> mc_rmt_fault_latched (motor s j)" for j
      using nl lat by (auto simp: motor_upd split: if_splits) 
    then have "motor_inv kc ?s"
      using assms(1) t az ctx unfolding motor_inv_def by (simp add: len motor_upd)
    then show ?thesis using nl False by (simp add: record_result_section_def Let_def)
  qed
qed


lemma motor_update_fields [simp]:
  "motor (s\<lparr>s_stop_depth := a\<rparr>) i = motor s i" "motor (s\<lparr>s_maintenance_depth := b\<rparr>) i = motor s i"
  "motor (s\<lparr>s_communication_inhibited := c\<rparr>) i = motor s i" "motor (s\<lparr>s_rmt_inhibited := c\<rparr>) i = motor s i"
  "motor (s\<lparr>s_global_inhibited := c\<rparr>) i = motor s i" "motor (s\<lparr>s_rmt_fault_pending := c\<rparr>) i = motor s i"
  "motor (s\<lparr>s_event_log := l\<rparr>) i = motor s i" "motor (s\<lparr>s_ramp_paused := c\<rparr>) i = motor s i"
  "motor (s\<lparr>s_ramp_heartbeat_us := t\<rparr>) i = motor s i" "motor (s\<lparr>s_lifecycle := lc\<rparr>) i = motor s i"
  "motor (s\<lparr>s_owned_fan_count := n\<rparr>) i = motor s i" "motor (s\<lparr>s_initialized_fan_count := n\<rparr>) i = motor s i"
  "motor (s\<lparr>s_stop_mutex := x\<rparr>) i = motor s i"
  by (simp_all add: motor_def)

definition controlled :: "motor_state \<Rightarrow> nat" where
  "controlled s = (if s_lifecycle s = MOTOR_LIFECYCLE_FAILED then s_owned_fan_count s else s_initialized_fan_count s)"

definition stop_latched :: "stop_inhibit \<Rightarrow> motor_state \<Rightarrow> motor_state" where
  "stop_latched inhibit s =
     s\<lparr>s_global_inhibited := (s_global_inhibited s \<or> inhibit = STOP_INHIBIT_GLOBAL),
       s_communication_inhibited := (s_communication_inhibited s \<or> inhibit = STOP_INHIBIT_COMMUNICATION),
       s_rmt_inhibited := (s_rmt_inhibited s \<or> inhibit = STOP_INHIBIT_RMT)\<rparr>"

lemma stop_commit_state:
  "snd (snd (snd (stop_commit_section clear inhibit s))) =
     fold (\<lambda>i. upd_motor i (stop_motor clear inhibit)) [0..<controlled s] (stop_latched inhibit s)"
  by (simp add: stop_commit_section_def controlled_def stop_latched_def Let_def)

lemma stop_latched_fields [simp]:
  "motor (stop_latched inhibit s) i = motor s i" "s_motors (stop_latched inhibit s) = s_motors s"
  "s_lifecycle (stop_latched inhibit s) = s_lifecycle s" "s_fan_count (stop_latched inhibit s) = s_fan_count s"
  "s_initialized_fan_count (stop_latched inhibit s) = s_initialized_fan_count s"
  "s_owned_fan_count (stop_latched inhibit s) = s_owned_fan_count s"
  "s_min_spin_pct (stop_latched inhibit s) = s_min_spin_pct s"
  "s_stop_depth (stop_latched inhibit s) = s_stop_depth s"
  "s_maintenance_depth (stop_latched inhibit s) = s_maintenance_depth s"
  by (simp_all add: stop_latched_def motor_def)

lemma stop_commit_motor:
  assumes "motor_inv kc s"
  shows "motor (snd (snd (snd (stop_commit_section clear inhibit s)))) j =
    (if j < controlled s then stop_motor clear inhibit (motor s j) else motor s j)"
proof -
  have "controlled s \<le> length (s_motors (stop_latched inhibit s))"
    using assms by (simp add: controlled_def motor_inv_def)
  then show ?thesis by (simp add: stop_commit_state fold_upd_motor)
qed

text \<open>After the commit every output's target is zero, whatever was requested before.\<close>

lemma stop_commit_targets:
  assumes "motor_inv kc s" and "j < 4"
  shows "mc_target_pct (motor (snd (snd (snd (stop_commit_section clear inhibit s)))) j) = 0"
proof -
  have "mc_target_pct (motor s j) = 0" if "\<not> j < controlled s"
    using assms that
    by (cases "s_lifecycle s = MOTOR_LIFECYCLE_READY")
      (auto simp: motor_inv_def controlled_def all_targets_zero_def)
  then show ?thesis using stop_commit_motor [OF assms(1)] by (simp add: stop_motor_def)
qed

lemma stop_commit_inv:
  assumes "motor_inv kc s"
  shows "motor_inv kc (snd (snd (snd (stop_commit_section clear inhibit s))))" (is "motor_inv kc ?s")
proof -
  have len: "length (s_motors ?s) = 4" using assms by (simp add: stop_commit_state motor_inv_def)
  have t: "all_targets_zero ?s"
    using stop_commit_targets [OF assms] by (simp add: all_targets_zero_4 [OF len])
  have c: "context_inv (CONFIG_RMT_ERROR_LIMIT kc) (s_min_spin_pct s) (motor ?s j)" if "j < 4" for j
    using assms that by (auto simp: stop_commit_motor [OF assms] motor_inv_def intro: context_inv_stop)
  have l: "mc_rmt_fault_latched (motor ?s j) = mc_rmt_fault_latched (motor s j)" for j
    by (auto simp: stop_commit_motor [OF assms] stop_motor_def)
  have r: "s_rmt_inhibited s \<Longrightarrow> s_rmt_inhibited ?s"
    by (simp add: stop_commit_state fold_upd_motor_fields stop_latched_def)
  have f: "s_lifecycle ?s = s_lifecycle s" "s_fan_count ?s = s_fan_count s"
    "s_initialized_fan_count ?s = s_initialized_fan_count s" "s_owned_fan_count ?s = s_owned_fan_count s"
    "s_min_spin_pct ?s = s_min_spin_pct s"
    by (simp_all add: stop_commit_state fold_upd_motor_fields)
  show ?thesis
    using assms len t c r by (simp add: motor_inv_def l f all_targets_zero_4)
qed

lemma rollback_inv:
  assumes "motor_inv kc s" and "p \<le> 100"
  shows "motor_inv kc (rollback_section i p g s)"
  using assms unfolding rollback_section_def percent_to_dshot_def
  by (auto intro!: motor_inv_upd throttle_rollback)

lemma ramp_advance_inv:
  assumes "motor_inv kc s"
  shows "motor_inv kc (snd (snd (snd (ramp_advance_section i s))))"
proof -
  let ?n = "ramp_next (s_ramp_step_pct s) (mc_target_pct (motor s i)) (mc_current_pct (motor s i))"
  let ?f = "\<lambda>m. m\<lparr>mc_current_pct := ?n,
      mc_throttle := (mc_throttle m)\<lparr>thr_throttle := percent_to_dshot s ?n\<rparr>,
      mc_control_generation := mc_control_generation m + 1\<rparr>"
  have "motor_inv kc (upd_motor i ?f s)"
  proof (cases "i < 4")
    case True
    then have "?n \<le> 100" using assms by (intro ramp_next_le_100) (auto simp: motor_inv_def context_inv_def)
    then show ?thesis
      using assms unfolding percent_to_dshot_def by (intro motor_inv_upd throttle_rollback) auto
  next
    case False
    then have "upd_motor i ?f s = s" using assms by (intro upd_motor_beyond) (simp add: motor_inv_def)
    then show ?thesis using assms by simp
  qed
  then show ?thesis using assms by (auto simp: ramp_advance_section_def Let_def)
qed

lemma automatic_allowed_inhibits:
  "automatic_allowed_locked s f \<Longrightarrow> \<not> s_global_inhibited s \<and> \<not> s_communication_inhibited s \<and>
     s_lifecycle s = MOTOR_LIFECYCLE_READY \<and> 0 \<le> f \<and> nat f < s_fan_count s \<and>
     \<not> mc_rmt_fault_latched (motor s (nat f)) \<and> \<not> mc_tach_inhibited (motor s (nat f))"
  by (auto simp: automatic_allowed_locked_def motor_valid_locked_def)

text \<open>A request raises one target of an output that is free to run.\<close>

lemma request_inv:
  assumes inv: "motor_inv kc s" and "\<not> s_global_inhibited s" and "\<not> s_communication_inhibited s"
    and "s_lifecycle s = MOTOR_LIFECYCLE_READY" and i: "i < s_fan_count s"
    and ctx: "context_inv (CONFIG_RMT_ERROR_LIMIT kc) (s_min_spin_pct s) (f (motor s i))"
    and "mc_rmt_fault_latched (f (motor s i)) = mc_rmt_fault_latched (motor s i)"
  shows "motor_inv kc (upd_motor i f s)"
proof -
  have "i < 4" using inv i by (simp add: motor_inv_def)
  moreover from this have "mc_rmt_fault_latched (motor s i) \<Longrightarrow> s_rmt_inhibited s"
    using inv by (auto simp: motor_inv_def)
  ultimately show ?thesis
    using assms unfolding motor_inv_def by (auto simp: motor_upd split: if_splits)
qed

lemma manual_inv:
  assumes inv: "motor_inv kc s" and "p \<le> 100" and "manual_section f p s = Some (ack, s')"
  shows "motor_inv kc s'"
proof -
  let ?s = "s\<lparr>s_communication_inhibited := False\<rparr>"
  from assms(3) have g: "s_lifecycle s = MOTOR_LIFECYCLE_READY" "0 \<le> f" "nat f < s_fan_count s"
    "\<not> s_global_inhibited s" "\<not> mc_rmt_fault_latched (motor s (nat f))" "\<not> mc_tach_inhibited (motor s (nat f))"
    by (auto simp: manual_section_def motor_valid_locked_def manual_allowed_locked_def split: if_splits)
  have s': "s' = upd_motor (nat f) (\<lambda>m. m\<lparr>mc_manual_target_pct := p, mc_target_pct := p,
      mc_accepted_command_count := (if mc_accepted_command_count m < UINT32_MAX
        then mc_accepted_command_count m + 1 else mc_accepted_command_count m)\<rparr>) ?s"
    using assms(3) by (auto simp: manual_section_def Let_def split: if_splits)
  have "motor_inv kc ?s" using inv by (rule motor_inv_cong) simp_all
  moreover have "context_inv (CONFIG_RMT_ERROR_LIMIT kc) (s_min_spin_pct s) (motor s (nat f))"
    using inv g(3) by (simp add: motor_inv_def)
  ultimately show ?thesis
    unfolding s' using g assms(2)
    by (intro request_inv) (auto simp: context_inv_def io_ok_def)
qed

lemma automatic_inv:
  assumes inv: "motor_inv kc s" and "p \<le> 100" and "automatic_section f p s = Some (prev, s')"
  shows "motor_inv kc s'"
proof -
  from assms(3) have a: "automatic_allowed_locked s f"
    and s': "s' = upd_motor (nat f) (\<lambda>m. m\<lparr>mc_target_pct := p\<rparr>) s"
    by (auto simp: automatic_section_def split: if_splits)
  note A = automatic_allowed_inhibits [OF a]
  have "context_inv (CONFIG_RMT_ERROR_LIMIT kc) (s_min_spin_pct s) (motor s (nat f))"
    using inv A by (simp add: motor_inv_def)
  then show ?thesis
    unfolding s' using inv A assms(2) by (intro request_inv) (auto simp: context_inv_def io_ok_def)
qed

lemma restore_motor:
  assumes "motor_inv kc s"
  shows "motor (restore_section ts s) j =
    (if j < s_fan_count s then (motor s j)\<lparr>mc_manual_target_pct := ts ! j, mc_target_pct := ts ! j\<rparr> else motor s j)"
  using assms by (simp add: restore_section_def fold_upd_motor motor_inv_def)

lemma restore_inv:
  assumes inv: "motor_inv kc s" and "s_lifecycle s = MOTOR_LIFECYCLE_READY" and r: "restore_allowed ts s"
  shows "motor_inv kc (restore_section ts s)"
proof -
  have c: "context_inv (CONFIG_RMT_ERROR_LIMIT kc) (s_min_spin_pct s) (motor (restore_section ts s) j)"
    if "j < 4" for j
    using inv r that unfolding restore_motor [OF inv]
    by (auto simp: motor_inv_def restore_allowed_def context_inv_def io_ok_def)
  have l: "mc_rmt_fault_latched (motor (restore_section ts s) j) = mc_rmt_fault_latched (motor s j)" for j
    by (simp add: restore_motor [OF inv])
  have "mc_target_pct (motor (restore_section ts s) j) = 0" if "j < 4" "s_fan_count s \<le> j" for j
    using inv that assms(2) by (simp add: restore_motor [OF inv] motor_inv_def)
  moreover have "length (s_motors (restore_section ts s)) = length (s_motors s)"
    "s_lifecycle (restore_section ts s) = s_lifecycle s" "s_fan_count (restore_section ts s) = s_fan_count s"
    "s_owned_fan_count (restore_section ts s) = s_owned_fan_count s"
    "s_initialized_fan_count (restore_section ts s) = s_initialized_fan_count s"
    "s_min_spin_pct (restore_section ts s) = s_min_spin_pct s"
    "s_rmt_inhibited (restore_section ts s) = s_rmt_inhibited s"
    "s_global_inhibited (restore_section ts s) = s_global_inhibited s"
    "s_communication_inhibited (restore_section ts s) = s_communication_inhibited s"
    by (simp_all add: restore_section_def fold_upd_motor_fields)
  ultimately show ?thesis
    using inv c l r assms(2) by (simp add: motor_inv_def restore_allowed_def)
qed

theorem motor_step_inv:
  assumes "motor_step kc s s'" and "motor_inv kc s" and "0 < CONFIG_RMT_ERROR_LIMIT kc"
  shows "motor_inv kc s'"
  using assms
proof (induction rule: motor_step.induct)
  case (step_io s i p a e d t l)
  then show ?case by (intro io_step_inv) simp_all
next
  case (step_refresh s i)
  then show ?case unfolding refresh_section_def
    by (intro motor_inv_upd) (auto simp: context_inv_def io_ok_def)
next
  case (step_stop_enter inhibit s s')
  then have f: "s_motors s' = s_motors s" "s_lifecycle s' = s_lifecycle s" "s_fan_count s' = s_fan_count s"
    "s_owned_fan_count s' = s_owned_fan_count s" "s_initialized_fan_count s' = s_initialized_fan_count s"
    "s_min_spin_pct s' = s_min_spin_pct s" "s_rmt_inhibited s' = s_rmt_inhibited s"
    "s_global_inhibited s' = s_global_inhibited s" "s_communication_inhibited s' = s_communication_inhibited s"
    by (auto simp: stop_enter_section_def Let_def split: if_splits)
  show ?case using step_stop_enter.prems(1) by (rule motor_inv_cong) (simp_all add: f)
next
  case (step_stop_leave s)
  show ?case using step_stop_leave(1) unfolding stop_leave_section_def
    by (auto intro: motor_inv_cong)
next
  case (step_ramp_report s i)
  have "motor_inv kc (upd_motor i (\<lambda>m. m\<lparr>mc_last_reported_pct := x\<rparr>) s)" for x
    using step_ramp_report(1) by (intro motor_inv_upd) (auto simp: context_inv_def io_ok_def)
  then show ?case using step_ramp_report(1) by (simp add: ramp_report_section_def Let_def)
next
  case (step_stop_one local_fan clear s s')
  then show ?case
    by (auto simp: stop_one_section_def split: if_splits intro!: motor_inv_upd)
      (auto simp: context_inv_def io_ok_def zero_throttle_dshot)
next
  case (step_tach local_fan inhibited s s')
  then show ?case
    by (auto simp: tach_inhibit_section_def Let_def split: if_splits intro!: motor_inv_upd)
      (auto simp: context_inv_def io_ok_def zero_throttle_dshot)
next
  case (step_clear_maintenance s)
  show ?case using step_clear_maintenance(1) unfolding clear_maintenance_section_def
    by (auto intro: motor_inv_cong)
next
  case (step_take_pending s)
  show ?case using step_take_pending(1) unfolding motor_control_take_rmt_fault_pending_def
    by (auto intro: motor_inv_cong)
next
  case (step_misc s a b c d e f g)
  show ?case using step_misc(1) by (rule motor_inv_cong) simp_all
qed (auto intro: read_section_inv record_section_inv stop_commit_inv rollback_inv ramp_advance_inv
    manual_inv automatic_inv restore_inv)

lemma motor_steps_inv:
  assumes "motor_steps kc s s'" and "motor_inv kc s" and "0 < CONFIG_RMT_ERROR_LIMIT kc"
  shows "motor_inv kc s'"
  using assms by (induction rule: rtranclp_induct) (auto intro: motor_step_inv)


section \<open>Operations are sequences of steps\<close>

text \<open>\<open>m'\<close> differs from \<open>m\<close> in the fields that driver calls own.\<close>

definition same_lock :: "motor_context \<Rightarrow> motor_context \<Rightarrow> bool" where
  "same_lock m m' \<longleftrightarrow>
     mc_channel m' = mc_channel m \<and>
     mc_encoder m' = mc_encoder m \<and>
     mc_active_encoder m' = mc_active_encoder m \<and>
     mc_io_mutex m' = mc_io_mutex m \<and>
     mc_throttle m' = mc_throttle m \<and>
     mc_gpio m' = mc_gpio m \<and>
     mc_current_pct m' = mc_current_pct m \<and>
     mc_target_pct m' = mc_target_pct m \<and>
     mc_applied_pct m' = mc_applied_pct m \<and>
     mc_manual_target_pct m' = mc_manual_target_pct m \<and>
     mc_control_generation m' = mc_control_generation m \<and>
     mc_last_reported_pct m' = mc_last_reported_pct m \<and>
     mc_rmt_refresh_count m' = mc_rmt_refresh_count m \<and>
     mc_rmt_error_total m' = mc_rmt_error_total m \<and>
     mc_accepted_command_count m' = mc_accepted_command_count m \<and>
     mc_rmt_error_consecutive m' = mc_rmt_error_consecutive m \<and>
     mc_rmt_fault_latched m' = mc_rmt_fault_latched m \<and>
     mc_tach_inhibited m' = mc_tach_inhibited m \<and>
     mc_nonzero_applied_since_us m' = mc_nonzero_applied_since_us m"

lemma same_lock_refl [simp]: "same_lock m m"
  by (simp add: same_lock_def)

lemma same_lock_trans: "same_lock m m' \<Longrightarrow> same_lock m' m'' \<Longrightarrow> same_lock m m''"
  by (simp add: same_lock_def)

lemma same_lock_update [simp]:
  "same_lock m (m'\<lparr>mc_tx_payload := p\<rparr>) = same_lock m m'" "same_lock m (m'\<lparr>mc_active := a\<rparr>) = same_lock m m'"
  "same_lock m (m'\<lparr>mc_channel_enabled := e\<rparr>) = same_lock m m'"
  "same_lock m (m'\<lparr>mc_last_rmt_error_log_us := l\<rparr>) = same_lock m m'"
  "same_lock m (m'\<lparr>mc_last_dshot := d\<rparr>) = same_lock m m'" "same_lock m (m'\<lparr>mc_last_tx_us := t\<rparr>) = same_lock m m'"
  by (simp_all add: same_lock_def)

lemma same_lock_eq:
  "same_lock m m' \<Longrightarrow> m' = m\<lparr>mc_tx_payload := mc_tx_payload m', mc_active := mc_active m',
     mc_channel_enabled := mc_channel_enabled m', mc_last_dshot := mc_last_dshot m',
     mc_last_tx_us := mc_last_tx_us m', mc_last_rmt_error_log_us := mc_last_rmt_error_log_us m'\<rparr>"
  by (cases m; cases m') (simp add: same_lock_def)

lemmas same_lockD = same_lock_def [THEN iffD1]

lemma log_rmt_error_io:
  assumes "log_rmt_error ops m h = (m', h')"
  shows "\<exists>l. m' = m\<lparr>mc_last_rmt_error_log_us := l\<rparr>"
proof -
  from assms have "m' = m \<or> (\<exists>l. m' = m\<lparr>mc_last_rmt_error_log_us := l\<rparr>)"
    by (auto simp: log_rmt_error_def Let_def split: prod.splits if_splits)
  moreover have "m = m\<lparr>mc_last_rmt_error_log_us := mc_last_rmt_error_log_us m\<rparr>" by simp
  ultimately show ?thesis by metis
qed

lemma quiesce_io_spec:
  assumes "quiesce_io ops m h = (e, m', h')"
  shows "same_lock m m' \<and> (io_ok m \<longrightarrow> io_ok m') \<and> mc_last_dshot m' = mc_last_dshot m \<and>
    (e = ESP_OK \<longrightarrow> \<not> mc_active m' \<and> \<not> mc_channel_enabled m')"
proof -
  obtain e1 m1 h1 where d: "quiesce_disable ops m h = (e1, m1, h1)" by (metis prod_cases3)
  have S1: "same_lock m m1 \<and> (io_ok m \<longrightarrow> io_ok m1) \<and> mc_last_dshot m1 = mc_last_dshot m \<and>
      (e1 = ESP_OK \<longrightarrow> \<not> mc_channel_enabled m1)"
    using d by (auto simp: quiesce_disable_def io_ok_def split: prod.splits if_splits dest!: log_rmt_error_io)
  show ?thesis
  proof (cases "e1 = ESP_OK")
    case True
    with assms d have "quiesce_drain ops m1 h1 = (e, m', h')" by (simp add: quiesce_io_def)
    then have "same_lock m1 m' \<and> (io_ok m1 \<longrightarrow> io_ok m') \<and> mc_last_dshot m' = mc_last_dshot m1 \<and>
        (e = ESP_OK \<longrightarrow> \<not> mc_active m') \<and> mc_channel_enabled m' = mc_channel_enabled m1"
      by (auto simp: quiesce_drain_def io_ok_def
          split: prod.splits if_splits option.splits dest!: log_rmt_error_io)
    with S1 True show ?thesis using same_lock_trans by auto
  next
    case False
    with assms d S1 show ?thesis by (auto simp: quiesce_io_def)
  qed
qed

lemma transmit_io_spec:
  assumes "transmit_io ops requested composite now m h = (e, m', h')"
    and "\<not> mc_active m" and "composite = dshot_composite requested"
  shows "same_lock m m' \<and> io_ok m' \<and>
    (e = ESP_OK \<longrightarrow> mc_active m' \<and> mc_channel_enabled m' \<and> mc_tx_payload m' = requested \<and>
       mc_last_dshot m' = composite)"
proof -
  from assms show ?thesis
    by (auto simp: transmit_io_def Let_def io_ok_def split: prod.splits if_splits dest!: log_rmt_error_io)
qed

lemma apply_io_spec:
  assumes "apply_io ops requested now m h = (e, r, m', h')"
  shows "same_lock m m' \<and> (io_ok m \<longrightarrow> io_ok m') \<and>
    (e = ESP_OK \<longrightarrow> mc_active m' \<and> mc_channel_enabled m' \<and> mc_last_dshot m' = dshot_composite requested)"
proof (cases "dshot_composite requested = mc_last_dshot m \<and> \<not> (now - mc_last_tx_us m > RMT_REFRESH_PERIOD_US) \<and>
    mc_active m \<and> mc_channel_enabled m")
  case True
  then show ?thesis using assms by (auto simp: apply_io_def Let_def)
next
  case False
  obtain e1 m1 h1 where q: "quiesce_io ops m h = (e1, m1, h1)" by (metis prod_cases3)
  obtain e2 m2 h2 where t: "transmit_io ops requested (dshot_composite requested) now m1 h1 = (e2, m2, h2)"
    by (metis prod_cases3)
  have res: "if e1 \<noteq> ESP_OK then e = e1 \<and> m' = m1 else e = e2 \<and> m' = m2"
    using assms False q t by (auto simp: apply_io_def Let_def split: if_splits)
  show ?thesis
  proof (cases "e1 = ESP_OK")
    case True
    with quiesce_io_spec [OF q] have "same_lock m m1" "\<not> mc_active m1" by blast+
    with transmit_io_spec [OF t] True res show ?thesis using same_lock_trans by auto
  next
    case False
    with quiesce_io_spec [OF q] res show ?thesis by auto
  qed
qed

lemma step_same_lock:
  assumes "same_lock (motor s i) m'" and "io_ok (motor s i) \<longrightarrow> io_ok m'"
  shows "motor_step kc s (upd_motor i (\<lambda>_. m') s)"
proof -
  let ?f = "\<lambda>m. m\<lparr>mc_tx_payload := mc_tx_payload m', mc_active := mc_active m',
     mc_channel_enabled := mc_channel_enabled m', mc_last_dshot := mc_last_dshot m',
     mc_last_tx_us := mc_last_tx_us m', mc_last_rmt_error_log_us := mc_last_rmt_error_log_us m'\<rparr>"
  have eq: "?f (motor s i) = m'" using same_lock_eq [OF assms(1)] by simp
  then have u: "upd_motor i (\<lambda>_. m') s = upd_motor i ?f s"
    by (simp add: upd_motor_def motor_def)
  have "io_ok (motor (upd_motor i ?f s) i)" if "io_ok (motor s i)"
    using that assms(2) eq by (cases "i < length (s_motors s)") (simp_all add: upd_motor_beyond)
  then show ?thesis unfolding u by (intro step_io)
qed

lemma step_event: "motor_step kc s (emit_event t f s)"
proof -
  obtain l where l: "emit_event t f s = s\<lparr>s_event_log := l\<rparr>" using emit_event_log by blast
  have "s\<lparr>s_event_log := l\<rparr> = s\<lparr>s_ramp_paused := s_ramp_paused s, s_ramp_task := s_ramp_task s,
    s_ramp_starting := s_ramp_starting s, s_ramp_heartbeat_us := s_ramp_heartbeat_us s,
    s_event_callback := s_event_callback s, s_event_context := s_event_context s, s_event_log := l\<rparr>" by simp
  then show ?thesis unfolding l by (metis step_misc)
qed

lemma step_events: "motor_steps kc s (fold (\<lambda>i. emit_event t (f i)) is s)"
  by (induction "is" arbitrary: s) (auto intro: converse_rtranclp_into_rtranclp step_event)

lemma read_section_applied: "fst (snd (apply_read_section i s)) \<le> 100"
  by (simp add: apply_read_section_def Let_def effective_pct_le_100)

lemma record_apply_result_section:
  assumes "record_apply_result kc ops i e applied s h = (nl, s', h')"
  shows "\<exists>now. record_result_section kc i e applied now s = (nl, s')"
  using assms by (auto simp: record_apply_result_def split: prod.splits)

text \<open>The intermediate states of one \<open>apply_motor\<close>, for the proofs about it.\<close>

lemma apply_motor_decompose:
  assumes "apply_motor kc ops i s h = (e, s', h')"
    and "mc_channel (motor s i) \<noteq> None" and "mc_encoder (motor s i) \<noteq> None" and "mc_io_mutex (motor s i) \<noteq> None"
    and "fst (op_sem_take ops (the (mc_io_mutex (motor s i))) None h)"
  obtains requested applied s1 now h2 r m' h3 nl t s4 where
    "apply_read_section i s = (requested, applied, s1)"
    "apply_io ops requested now (motor s1 i) h2 = (e, r, m', h3)"
    "record_result_section kc i e applied t
       (if r then refresh_section i (upd_motor i (\<lambda>_. m') s1) else upd_motor i (\<lambda>_. m') s1) = (nl, s4)"
    "s' = (if nl then emit_event MOTOR_CONTROL_EVENT_RMT_FAULT_LATCHED (int i) s4 else s4)"
proof -
  obtain taken h1 where tk: "op_sem_take ops (the (mc_io_mutex (motor s i))) None h = (taken, h1)" by force
  obtain requested applied s1 where rd: "apply_read_section i s = (requested, applied, s1)"
    by (metis prod_cases3)
  obtain now h2 where tm: "op_timer_get_time ops h1 = (now, h2)" by force
  obtain e0 r m' h3 where io: "apply_io ops requested (of_int now) (motor s1 i) h2 = (e0, r, m', h3)"
    by (metis prod_cases4)
  let ?s3 = "if r then refresh_section i (upd_motor i (\<lambda>_. m') s1) else upd_motor i (\<lambda>_. m') s1"
  obtain nl s4 h4 where rec: "record_apply_result kc ops i e0 applied ?s3 h3 = (nl, s4, h4)"
    by (metis prod_cases3)
  have "taken" using assms(5) tk by simp
  then have fin: "e = e0" "s' = (if nl then emit_event MOTOR_CONTROL_EVENT_RMT_FAULT_LATCHED (int i) s4 else s4)"
    using assms(1-4) tk rd tm io rec by (auto simp: apply_motor_def Let_def)
  from record_apply_result_section [OF rec] obtain t where
    "record_result_section kc i e0 applied t ?s3 = (nl, s4)" by blast
  with rd io fin that show ?thesis by blast
qed

lemma apply_motor_steps:
  assumes "apply_motor kc ops i s h = (e, s', h')"
  shows "motor_steps kc s s'"
proof (cases "mc_channel (motor s i) \<noteq> None \<and> mc_encoder (motor s i) \<noteq> None \<and> mc_io_mutex (motor s i) \<noteq> None \<and>
    fst (op_sem_take ops (the (mc_io_mutex (motor s i))) None h)")
  case False
  then have "s' = s" using assms by (auto simp: apply_motor_def split: if_splits prod.splits)
  then show ?thesis by simp
next
  case True
  then obtain requested applied s1 now h2 r m' h3 nl t s4 where
    rd: "apply_read_section i s = (requested, applied, s1)"
    and io: "apply_io ops requested now (motor s1 i) h2 = (e, r, m', h3)"
    and rec: "record_result_section kc i e applied t
       (if r then refresh_section i (upd_motor i (\<lambda>_. m') s1) else upd_motor i (\<lambda>_. m') s1) = (nl, s4)"
    and s': "s' = (if nl then emit_event MOTOR_CONTROL_EVENT_RMT_FAULT_LATCHED (int i) s4 else s4)"
    using apply_motor_decompose [OF assms] by metis
  let ?s2 = "upd_motor i (\<lambda>_. m') s1"
  let ?s3 = "if r then refresh_section i ?s2 else ?s2"
  have "motor_step kc s s1" using step_read [of kc s i] rd by simp
  moreover have "motor_step kc s1 ?s2"
    using apply_io_spec [OF io] by (intro step_same_lock) simp_all
  moreover have "motor_steps kc ?s2 ?s3" using step_refresh [of kc ?s2 i] by auto
  moreover have "motor_step kc ?s3 s4"
    using step_record [of applied kc ?s3 i e t] rec read_section_applied [of i s] rd by simp
  moreover have "motor_steps kc s4 s'" unfolding s' using step_event by auto
  ultimately show ?thesis
    by (meson converse_rtranclp_into_rtranclp rtranclp.rtrancl_into_rtrancl rtranclp_trans)
qed


text \<open>What \<open>apply_motor\<close> leaves alone.\<close>

definition frame_ok :: "motor_state \<Rightarrow> motor_state \<Rightarrow> bool" where
  "frame_ok s s' \<longleftrightarrow> length (s_motors s') = length (s_motors s) \<and> s_lifecycle s' = s_lifecycle s \<and>
     s_fan_count s' = s_fan_count s \<and> s_fan_index_start s' = s_fan_index_start s \<and>
     s_initialized_fan_count s' = s_initialized_fan_count s \<and> s_owned_fan_count s' = s_owned_fan_count s \<and>
     s_min_spin_pct s' = s_min_spin_pct s \<and> s_ramp_step_pct s' = s_ramp_step_pct s \<and>
     s_stop_depth s' = s_stop_depth s \<and> s_stop_mutex s' = s_stop_mutex s \<and>
     s_global_inhibited s' = s_global_inhibited s \<and> s_maintenance_depth s' = s_maintenance_depth s \<and>
     s_communication_inhibited s' = s_communication_inhibited s"

lemma frame_ok_refl [simp]: "frame_ok s s"
  and frame_ok_trans: "frame_ok s s' \<Longrightarrow> frame_ok s' s'' \<Longrightarrow> frame_ok s s''"
  and frame_ok_upd [simp]: "frame_ok s (upd_motor i f s') = frame_ok s s'"
  and frame_ok_log [simp]: "frame_ok s (s'\<lparr>s_event_log := l\<rparr>) = frame_ok s s'"
  and frame_ok_rmt [simp]: "frame_ok s (s'\<lparr>s_rmt_inhibited := a, s_rmt_fault_pending := b\<rparr>) = frame_ok s s'"
  by (simp_all add: frame_ok_def)

lemma frame_ok_event [simp]: "frame_ok s (emit_event t f s') = frame_ok s s'"
  using emit_event_log [of t f s'] by auto

lemma motor_event [simp]: "motor (emit_event t f s) j = motor s j"
  using emit_event_log [of t f s] by auto

lemma frame_ok_read: "frame_ok s (snd (snd (apply_read_section i s)))"
  by (simp add: apply_read_section_def Let_def)

lemma frame_ok_record: "frame_ok s (snd (record_result_section kc i e ap t s))"
  by (simp add: record_result_section_def Let_def)

lemma motor_record_other:
  "i \<noteq> j \<Longrightarrow> motor (snd (record_result_section kc i e ap t s)) j = motor s j"
  by (auto simp: record_result_section_def Let_def motor_def upd_motor_def)

lemma motor_record_same:
  "i < length (s_motors s) \<Longrightarrow> motor (snd (record_result_section kc i e ap t s)) i =
     (if e = ESP_OK then record_success ap t (motor s i)
      else record_failure (CONFIG_RMT_ERROR_LIMIT kc) (motor s i))"
  by (auto simp: record_result_section_def Let_def motor_def upd_motor_def)

lemma read_section_same:
  assumes "motor_inv kc s" and "i < 4"
  shows "apply_read_section i s =
    (mc_throttle (motor s i), controller_effective_pct (mc_current_pct (motor s i)) (s_min_spin_pct s), s)"
proof -
  let ?t = "thr_throttle (mc_throttle (motor s i))"
  have "?t = controller_pct_to_dshot (mc_current_pct (motor s i)) (s_min_spin_pct s)"
    using assms by (simp add: motor_inv_def context_inv_def)
  then have "?t = 0 \<or> 48 \<le> ?t"
    using pct_to_dshot_unat [of "mc_current_pct (motor s i)" "s_min_spin_pct s"]
    by (auto simp: word_le_nat_alt word_unat_eq_iff split: if_splits)
  then have "\<not> (?t > 0 \<and> ?t < 48)" by auto
  then show ?thesis by (simp only: apply_read_section_def Let_def if_False)
qed

text \<open>One application of an output in a consistent state.\<close>

lemma apply_motor_effect:
  assumes inv: "motor_inv kc s" and i: "i < 4" and ap: "apply_motor kc ops i s h = (e, s', h')"
  defines "m \<equiv> motor s i" and "m' \<equiv> motor s' i"
  shows "frame_ok s s'" and "j \<noteq> i \<Longrightarrow> motor s' j = motor s j"
    and "mc_current_pct m' = mc_current_pct m \<and> mc_manual_target_pct m' = mc_manual_target_pct m \<and>
      mc_throttle m' = mc_throttle m \<and> mc_tach_inhibited m' = mc_tach_inhibited m \<and>
      mc_channel m' = mc_channel m \<and> mc_encoder m' = mc_encoder m \<and> mc_io_mutex m' = mc_io_mutex m \<and>
      (mc_target_pct m' = mc_target_pct m \<or> mc_target_pct m' = 0)"
    and "e = ESP_OK \<Longrightarrow> mc_channel m \<noteq> None \<and> mc_encoder m \<noteq> None \<and> mc_io_mutex m \<noteq> None \<and>
      mc_active m' \<and> mc_channel_enabled m' \<and> mc_last_dshot m' = dshot_composite (mc_throttle m) \<and>
      mc_applied_pct m' = controller_effective_pct (mc_current_pct m) (s_min_spin_pct s) \<and>
      mc_rmt_error_consecutive m' = 0 \<and> mc_rmt_fault_latched m' = mc_rmt_fault_latched m \<and>
      mc_target_pct m' = mc_target_pct m \<and> mc_control_generation m' = mc_control_generation m \<and>
      s_rmt_inhibited s' = s_rmt_inhibited s"
proof -
  have len: "length (s_motors s) = 4" using inv by (simp add: motor_inv_def)
  have "frame_ok s s' \<and> (j \<noteq> i \<longrightarrow> motor s' j = motor s j) \<and>
    (mc_current_pct m' = mc_current_pct m \<and> mc_manual_target_pct m' = mc_manual_target_pct m \<and>
      mc_throttle m' = mc_throttle m \<and> mc_tach_inhibited m' = mc_tach_inhibited m \<and>
      mc_channel m' = mc_channel m \<and> mc_encoder m' = mc_encoder m \<and> mc_io_mutex m' = mc_io_mutex m \<and>
      (mc_target_pct m' = mc_target_pct m \<or> mc_target_pct m' = 0)) \<and>
    (e = ESP_OK \<longrightarrow> mc_channel m \<noteq> None \<and> mc_encoder m \<noteq> None \<and> mc_io_mutex m \<noteq> None \<and>
      mc_active m' \<and> mc_channel_enabled m' \<and> mc_last_dshot m' = dshot_composite (mc_throttle m) \<and>
      mc_applied_pct m' = controller_effective_pct (mc_current_pct m) (s_min_spin_pct s) \<and>
      mc_rmt_error_consecutive m' = 0 \<and> mc_rmt_fault_latched m' = mc_rmt_fault_latched m \<and>
      mc_target_pct m' = mc_target_pct m \<and> mc_control_generation m' = mc_control_generation m \<and>
      s_rmt_inhibited s' = s_rmt_inhibited s)"
  proof (cases "mc_channel m \<noteq> None \<and> mc_encoder m \<noteq> None \<and> mc_io_mutex m \<noteq> None \<and>
      fst (op_sem_take ops (the (mc_io_mutex m)) None h)")
    case False
    then have "s' = s \<and> e \<noteq> ESP_OK" using ap by (auto simp: apply_motor_def m_def split: if_splits prod.splits)
    then show ?thesis by (simp add: m_def m'_def)
  next
    case True
    then obtain requested applied s1 now h2 r mx h3 nl t s4 where
      rd: "apply_read_section i s = (requested, applied, s1)"
      and io: "apply_io ops requested now (motor s1 i) h2 = (e, r, mx, h3)"
      and rec: "record_result_section kc i e applied t
         (if r then refresh_section i (upd_motor i (\<lambda>_. mx) s1) else upd_motor i (\<lambda>_. mx) s1) = (nl, s4)"
      and s': "s' = (if nl then emit_event MOTOR_CONTROL_EVENT_RMT_FAULT_LATCHED (int i) s4 else s4)"
      using apply_motor_decompose [OF ap] unfolding m_def by metis
    from rd read_section_same [OF inv i] have s1: "s1 = s" "requested = mc_throttle m"
      "applied = controller_effective_pct (mc_current_pct m) (s_min_spin_pct s)" by (auto simp: m_def)
    define s3 where "s3 = (if r then refresh_section i (upd_motor i (\<lambda>_. mx) s) else upd_motor i (\<lambda>_. mx) s)"
    have s4: "s4 = snd (record_result_section kc i e applied t s3)"
      using rec unfolding s1(1) s3_def [symmetric] by simp
    note IO = apply_io_spec [OF io, unfolded s1(1), folded m_def]
    have L: "same_lock m mx" using IO by blast
    have l3: "length (s_motors s3) = 4" using len by (simp add: s3_def refresh_section_def)
    have m3: "motor s3 i = (if r then mx\<lparr>mc_rmt_refresh_count := mc_rmt_refresh_count mx + 1\<rparr> else mx)"
      using i len by (simp add: s3_def refresh_section_def)
    have m4: "m' = (if e = ESP_OK then record_success applied t (motor s3 i)
        else record_failure (CONFIG_RMT_ERROR_LIMIT kc) (motor s3 i))"
    proof -
      have "m' = motor s4 i" by (simp add: m'_def s')
      also have "\<dots> = (if e = ESP_OK then record_success applied t (motor s3 i)
        else record_failure (CONFIG_RMT_ERROR_LIMIT kc) (motor s3 i))"
        unfolding s4 using i l3 by (intro motor_record_same) simp
      finally show ?thesis .
    qed
    have "frame_ok s s'"
      using frame_ok_record [of s3 kc i e applied t] frame_ok_trans [of s s3 s4]
      by (auto simp: s' s4 s3_def refresh_section_def)
    moreover have "motor s' j = motor s j" if "j \<noteq> i"
      using motor_record_other [of i j kc e applied t s3] that by (simp add: s' s4) (simp add: s3_def refresh_section_def)
    moreover have "s_rmt_inhibited s' = s_rmt_inhibited s" if "e = ESP_OK"
    proof -
      have "s_rmt_inhibited s4 = s_rmt_inhibited s3" using that s4 by (simp add: record_result_section_def)
      moreover have "s_rmt_inhibited s' = s_rmt_inhibited s4"
        using emit_event_log [of MOTOR_CONTROL_EVENT_RMT_FAULT_LATCHED "int i" s4] s' by auto
      ultimately show ?thesis by (simp add: s3_def refresh_section_def)
    qed
    moreover have "mc_active m' = mc_active mx \<and> mc_channel_enabled m' = mc_channel_enabled mx \<and>
        mc_last_dshot m' = mc_last_dshot mx"
      unfolding m4 m3 by (auto simp: record_success_def record_failure_def Let_def)
    moreover have "mc_current_pct m' = mc_current_pct m \<and> mc_manual_target_pct m' = mc_manual_target_pct m \<and>
      mc_throttle m' = mc_throttle m \<and> mc_tach_inhibited m' = mc_tach_inhibited m \<and>
      mc_channel m' = mc_channel m \<and> mc_encoder m' = mc_encoder m \<and> mc_io_mutex m' = mc_io_mutex m \<and>
      (mc_target_pct m' = mc_target_pct m \<or> mc_target_pct m' = 0)"
      using L unfolding m4 m3 by (auto simp: record_success_def record_failure_def Let_def same_lock_def)
    moreover have "mc_applied_pct m' = applied \<and> mc_rmt_error_consecutive m' = 0 \<and>
        mc_rmt_fault_latched m' = mc_rmt_fault_latched m \<and> mc_target_pct m' = mc_target_pct m \<and>
        mc_control_generation m' = mc_control_generation m" if "e = ESP_OK"
      using L that unfolding m4 m3 by (auto simp: record_success_def Let_def same_lock_def)
    ultimately show ?thesis using True IO s1 by auto
  qed
  then show "frame_ok s s'" "j \<noteq> i \<Longrightarrow> motor s' j = motor s j"
    "mc_current_pct m' = mc_current_pct m \<and> mc_manual_target_pct m' = mc_manual_target_pct m \<and>
      mc_throttle m' = mc_throttle m \<and> mc_tach_inhibited m' = mc_tach_inhibited m \<and>
      mc_channel m' = mc_channel m \<and> mc_encoder m' = mc_encoder m \<and> mc_io_mutex m' = mc_io_mutex m \<and>
      (mc_target_pct m' = mc_target_pct m \<or> mc_target_pct m' = 0)"
    "e = ESP_OK \<Longrightarrow> mc_channel m \<noteq> None \<and> mc_encoder m \<noteq> None \<and> mc_io_mutex m \<noteq> None \<and>
      mc_active m' \<and> mc_channel_enabled m' \<and> mc_last_dshot m' = dshot_composite (mc_throttle m) \<and>
      mc_applied_pct m' = controller_effective_pct (mc_current_pct m) (s_min_spin_pct s) \<and>
      mc_rmt_error_consecutive m' = 0 \<and> mc_rmt_fault_latched m' = mc_rmt_fault_latched m \<and>
      mc_target_pct m' = mc_target_pct m \<and> mc_control_generation m' = mc_control_generation m \<and>
      s_rmt_inhibited s' = s_rmt_inhibited s"
    by blast+
qed

text \<open>The other operations.\<close>

lemma stop_apply_loop_steps:
  assumes "stop_apply_loop kc ops rb prev gens is first s h = (e, s', h')"
    and "\<And>i. i \<in> set is \<Longrightarrow> prev ! i \<le> 100"
  shows "motor_steps kc s s'"
  using assms
proof (induction kc ops rb prev gens "is" first s h rule: stop_apply_loop.induct)
  case (2 kc ops rb prev gens i "is" first s h)
  obtain e1 s1 h1 where ap: "apply_motor kc ops i s h = (e1, s1, h1)" by (metis prod_cases3)
  let ?s2 = "if e1 \<noteq> ESP_OK \<and> rb then rollback_section i (prev ! i) (gens ! i) s1 else s1"
  have a: "motor_steps kc s s1" using ap by (rule apply_motor_steps)
  have b: "motor_steps kc s1 ?s2" using step_rollback [of "prev ! i"] "2.prems"(2) by auto
  have loop: "stop_apply_loop kc ops rb prev gens is (first_error first e1) ?s2 h1 = (e, s', h')"
    using "2.prems"(1) ap by (simp add: Let_def)
  have "motor_steps kc ?s2 s'"
    using "2.prems"(2) by (intro "2.IH" [OF ap [symmetric] refl refl loop]) simp
  with a b show ?case by (meson rtranclp_trans)
qed simp

lemma stop_all_internal_steps:
  assumes "stop_all_internal kc ops clear inhibit rb s h = (e, s', h')" and "motor_inv kc s"
  shows "motor_steps kc s s'"
proof (cases "stop_enter_section inhibit s")
  case None
  then show ?thesis using assms(1) by (simp add: stop_all_internal_def)
next
  case (Some s1)
  let ?h1 = "case s_stop_mutex s1 of None \<Rightarrow> h | Some x \<Rightarrow> snd (op_sem_take ops x None h)"
  obtain n prev gens s2 where c: "stop_commit_section clear inhibit s1 = (n, prev, gens, s2)"
    by (metis prod_cases4)
  obtain e3 s3 h2 where l: "stop_apply_loop kc ops rb prev gens [0..<n] ESP_OK s2 ?h1 = (e3, s3, h2)"
    by (metis prod_cases3)
  let ?s4 = "stop_leave_section s3"
  let ?s5 = "if inhibit \<noteq> STOP_INHIBIT_NONE then emit_event MOTOR_CONTROL_EVENT_INHIBIT_CHANGED (-1) ?s4 else ?s4"
  have s': "s' = fold (\<lambda>i. emit_event MOTOR_CONTROL_EVENT_APPLIED_CHANGED (int i)) [0..<n] ?s5"
    using assms(1) Some c l by (simp add: stop_all_internal_def Let_def)
  have m1: "motor s1 i = motor s i" "length (s_motors s1) = length (s_motors s)" for i
    using Some by (auto simp: stop_enter_section_def Let_def motor_def split: if_splits)
  have "prev ! i \<le> 100" if "i \<in> set [0..<n]" for i
  proof -
    have f: "s_owned_fan_count s1 = s_owned_fan_count s" "s_initialized_fan_count s1 = s_initialized_fan_count s"
      using Some by (auto simp: stop_enter_section_def Let_def split: if_splits)
    have "n \<le> 4" using c assms(2) f by (auto simp: stop_commit_section_def Let_def motor_inv_def split: if_splits)
    moreover have "prev ! i = mc_current_pct (motor s1 i)"
      using c that by (auto simp: stop_commit_section_def Let_def motor_def)
    ultimately show ?thesis using that assms(2) m1 by (simp add: motor_inv_def context_inv_def)
  qed
  then have "motor_steps kc s2 s3" using stop_apply_loop_steps [OF l] by blast
  moreover have "motor_step kc s s1" using Some by (rule step_stop_enter)
  moreover have "motor_step kc s1 s2" using step_stop_commit [of kc s1 clear inhibit] c by simp
  moreover have "motor_step kc s3 ?s4" by (rule step_stop_leave)
  moreover have "motor_steps kc ?s4 ?s5" using step_event by auto
  moreover have "motor_steps kc ?s5 s'" unfolding s' by (rule step_events)
  ultimately show ?thesis
    by (meson converse_rtranclp_into_rtranclp rtranclp_trans)
qed

end
