(* ===== verification/Motor_Init.thy ===== *)
theory Motor_Init imports Motor_Safety
begin

text \<open>
  Initialisation of \<open>motor_control.c\<close> as a transaction: what every stage of
  \<open>motor_control_init\<close> and of its unwinding does to the outputs, the invariant it
  establishes, and the states any sequence of initialisations and atomic steps reaches.
\<close>

section \<open>Contexts during initialisation\<close>

lemma motor_inv_put:
  assumes inv: "motor_inv kc s" and ctx: "i < 4 \<Longrightarrow> context_inv (CONFIG_RMT_ERROR_LIMIT kc) (s_min_spin_pct s) m'"
    and tgt: "mc_target_pct m' = mc_target_pct (motor s i) \<or> mc_target_pct m' = 0"
    and lat: "mc_rmt_fault_latched m' \<Longrightarrow> mc_rmt_fault_latched (motor s i)"
  shows "motor_inv kc (upd_motor i (\<lambda>_. m') s)"
proof (cases "i < 4")
  case False
  then have "upd_motor i (\<lambda>_. m') s = s" using inv by (intro upd_motor_beyond) (simp add: motor_inv_def)
  then show ?thesis using inv by simp
next
  case True
  have len: "length (s_motors s) = 4" using inv by (simp add: motor_inv_def)
  have z: "mc_target_pct (motor s j) = 0 \<Longrightarrow> mc_target_pct (motor (upd_motor i (\<lambda>_. m') s) j) = 0" for j
    using tgt by (auto simp: motor_upd)
  then have az: "all_targets_zero s \<Longrightarrow> all_targets_zero (upd_motor i (\<lambda>_. m') s)"
    by (simp add: all_targets_zero_def)
  have l: "mc_rmt_fault_latched (motor s i) \<Longrightarrow> s_rmt_inhibited s" using inv True by (auto simp: motor_inv_def)
  show ?thesis
    using inv z az ctx True lat l unfolding motor_inv_def by (auto simp: motor_upd len)
qed

text \<open>During initialisation nothing moves and no output beyond the owned ones is touched.\<close>

definition init_inv :: "motor_kconfig \<Rightarrow> motor_state \<Rightarrow> bool" where
  "init_inv kc s \<longleftrightarrow> motor_inv kc s \<and> s_lifecycle s = MOTOR_LIFECYCLE_INITIALIZING \<and>
     s_fan_count s \<le> 4 \<and> s_owned_fan_count s \<le> s_fan_count s \<and>
     (\<forall>i < 4. mc_current_pct (motor s i) = 0) \<and> (\<forall>i < 4. s_owned_fan_count s \<le> i \<longrightarrow> motor s i = motor_zero) \<and>
     \<not> s_global_inhibited s \<and> \<not> s_communication_inhibited s"

lemma init_inv_motor: "init_inv kc s \<Longrightarrow> motor_inv kc s"
  by (simp add: init_inv_def)

lemma init_inv_target: "init_inv kc s \<Longrightarrow> i < 4 \<Longrightarrow> mc_target_pct (motor s i) = 0"
  by (auto simp: init_inv_def motor_inv_def all_targets_zero_def)

lemma init_inv_put:
  assumes "init_inv kc s" and "i < s_owned_fan_count s"
    and "context_inv (CONFIG_RMT_ERROR_LIMIT kc) (s_min_spin_pct s) m'"
    and "mc_current_pct m' = 0" and "mc_target_pct m' = 0"
    and "mc_rmt_fault_latched m' \<Longrightarrow> mc_rmt_fault_latched (motor s i)"
  shows "init_inv kc (upd_motor i (\<lambda>_. m') s)"
  using assms motor_inv_put [of kc s i m'] by (auto simp: init_inv_def motor_upd)

lemma upd_motor_const: "upd_motor i f s = upd_motor i (\<lambda>_. f (motor s i)) s"
  by (simp add: upd_motor_def motor_def)

lemma init_inv_upd:
  assumes "init_inv kc s" and "i < s_owned_fan_count s"
    and "context_inv (CONFIG_RMT_ERROR_LIMIT kc) (s_min_spin_pct s) (f (motor s i))"
    and "mc_current_pct (f (motor s i)) = 0" and "mc_target_pct (f (motor s i)) = 0"
    and "mc_rmt_fault_latched (f (motor s i)) \<Longrightarrow> mc_rmt_fault_latched (motor s i)"
  shows "init_inv kc (upd_motor i f s)"
  unfolding upd_motor_const [of i f s] using assms by (rule init_inv_put)

lemma init_inv_context:
  "init_inv kc s \<Longrightarrow> i < 4 \<Longrightarrow> context_inv (CONFIG_RMT_ERROR_LIMIT kc) (s_min_spin_pct s) (motor s i)"
  by (simp add: init_inv_def motor_inv_def)

lemma context_inv_initial:
  "0 < limit \<Longrightarrow> context_inv limit ms m \<Longrightarrow> \<not> mc_active m \<Longrightarrow> context_inv limit ms (motor_initial m)"
  by (auto simp: context_inv_def motor_initial_def io_ok_def zero_throttle_dshot)

lemma init_inv_apply:
  assumes "init_inv kc s" and i: "i < s_owned_fan_count s" and ap: "apply_motor kc ops i s h = (e, s', h')"
    and "0 < CONFIG_RMT_ERROR_LIMIT kc"
  shows "init_inv kc s'"
proof -
  have inv: "motor_inv kc s" and i4: "i < 4" using assms(1) i by (auto simp: init_inv_def)
  note E = apply_motor_effect [OF inv i4 ap]
  have "motor_inv kc s'" using apply_motor_steps [OF ap] inv assms(4) by (rule motor_steps_inv)
  moreover have "mc_current_pct (motor s' j) = mc_current_pct (motor s j)" for j
    using E(2) [of j] E(3) by (cases "j = i") auto
  moreover have "motor s' j = motor s j" if "s_owned_fan_count s \<le> j" for j
    using E(2) [of j] that i by auto
  ultimately show ?thesis using assms(1) E(1) by (auto simp: init_inv_def frame_ok_def)
qed

text \<open>One output's initialisation, whatever fails in it.\<close>

lemma initialize_motor_inv:
  assumes st: "init_inv kc s" and i: "i < s_owned_fan_count s" and z: "motor s i = motor_zero"
    and run: "initialize_motor kc ops i gpio s h = (e, s', h')" and lim: "0 < CONFIG_RMT_ERROR_LIMIT kc"
  shows "init_inv kc s' \<and> frame_ok s s' \<and> (\<forall>j. j \<noteq> i \<longrightarrow> motor s' j = motor s j) \<and>
    (e = ESP_OK \<longrightarrow> mc_channel (motor s' i) \<noteq> None \<and> mc_encoder (motor s' i) \<noteq> None \<and>
       mc_io_mutex (motor s' i) \<noteq> None \<and> mc_active (motor s' i) \<and> mc_channel_enabled (motor s' i) \<and>
       mc_last_dshot (motor s' i) = 0)"
proof -
  have i4: "i < 4" using st i by (simp add: init_inv_def)
  have len: "length (s_motors s) = 4" using st by (simp add: init_inv_def motor_inv_def)
  have ctx: "context_inv (CONFIG_RMT_ERROR_LIMIT kc) ms
      (motor_zero\<lparr>mc_gpio := g, mc_io_mutex := x, mc_channel := c, mc_encoder := en\<rparr>)" for ms g x c en
    using lim by (auto simp: context_inv_def motor_zero_def io_ok_def zero_throttle_dshot)
  obtain mutex h1 where cr: "op_sem_create ops h = (mutex, h1)" by force
  obtain e1 channel h2 where ch: "op_rmt_new_tx_channel ops gpio h1 = ((e1, channel), h2)" by (metis prod.exhaust)
  obtain e2 encoder h3 where en: "rmt_new_dshot_esc_encoder (rmt_enc_ops.truncate ops) (Some motor_encoder_config) h2
      = ((e2, encoder), h3)" by (metis prod.exhaust)
  define built where "built x c k = motor_zero\<lparr>mc_gpio := gpio, mc_io_mutex := x, mc_channel := c, mc_encoder := k\<rparr>"
    for x c k
  have stages: "upd_motor i (\<lambda>m. m\<lparr>mc_io_mutex := x\<rparr>) (upd_motor i (\<lambda>m. m\<lparr>mc_gpio := gpio\<rparr>) s)
      = upd_motor i (\<lambda>_. built x None None) s"
    "upd_motor i (\<lambda>m. m\<lparr>mc_channel := c\<rparr>) (upd_motor i (\<lambda>_. built x None None) s) = upd_motor i (\<lambda>_. built x c None) s"
    "upd_motor i (\<lambda>m. m\<lparr>mc_encoder := k\<rparr>) (upd_motor i (\<lambda>_. built x c None) s) = upd_motor i (\<lambda>_. built x c k) s"
    for x c k
    using z i4 len by (simp_all add: upd_motor_def motor_def built_def motor_zero_def)
  have bi: "init_inv kc (upd_motor i (\<lambda>_. built x c k) s)" for x c k
    using st i by (rule init_inv_put) (simp_all add: built_def ctx, simp_all add: motor_zero_def)
  have bo: "(\<forall>j. j \<noteq> i \<longrightarrow> motor (upd_motor i (\<lambda>_. built x c k) s) j = motor s j)" for x c k by simp
  show ?thesis
  proof (cases "mutex \<noteq> None \<and> e1 = ESP_OK \<and> e2 = ESP_OK")
    case False
    then have "e \<noteq> ESP_OK \<and> (\<exists>x c k. s' = upd_motor i (\<lambda>_. built x c k) s)"
      using run cr ch en by (auto simp: initialize_motor_def Let_def stages split: if_splits)
    then show ?thesis using bi by auto
  next
    case True
    let ?b = "built mutex channel (map_option enc_base encoder)"
    let ?s = "upd_motor i motor_initial (upd_motor i (\<lambda>_. ?b) s)"
    have ap: "apply_motor kc ops i ?s h3 = (e, s', h')"
      using run cr ch en True by (simp add: initialize_motor_def Let_def stages)
    have s: "?s = upd_motor i (\<lambda>_. motor_initial ?b) s"
      using i4 len by (simp add: upd_motor_def)
    have "context_inv (CONFIG_RMT_ERROR_LIMIT kc) (s_min_spin_pct s) (motor_initial ?b)"
      using lim ctx by (intro context_inv_initial) (simp_all add: built_def, simp add: motor_zero_def)
    then have si: "init_inv kc ?s"
      unfolding s using st i by (intro init_inv_put) (simp_all add: motor_initial_def)
    have oi: "i < s_owned_fan_count ?s" using i by simp
    note E = apply_motor_effect [OF init_inv_motor [OF si] i4 ap]
    have "init_inv kc s'" by (rule init_inv_apply [OF si oi ap lim])
    moreover have "frame_ok s s'" using E(1) by (simp add: frame_ok_def)
    moreover have "\<forall>j. j \<noteq> i \<longrightarrow> motor s' j = motor s j" using E(2) by simp
    moreover have "dshot_composite (mc_throttle (motor ?s i)) = 0"
      using i4 len by (simp add: motor_initial_def zero_throttle_def dshot_composite_def)
    ultimately show ?thesis using E(3,4) by auto
  qed
qed

lemma init_inv_owned:
  assumes "init_inv kc s" and "s_owned_fan_count s \<le> n" and "n \<le> s_fan_count s"
  shows "init_inv kc (s\<lparr>s_owned_fan_count := n\<rparr>)"
  using assms by (auto simp: init_inv_def motor_inv_def all_targets_zero_def)

lemma init_inv_initialized:
  assumes "init_inv kc s" and "n \<le> 4"
  shows "init_inv kc (s\<lparr>s_initialized_fan_count := n\<rparr>)"
  using assms by (auto simp: init_inv_def motor_inv_def all_targets_zero_def)

definition output_started :: "motor_context \<Rightarrow> bool" where
  "output_started m \<longleftrightarrow> mc_channel m \<noteq> None \<and> mc_encoder m \<noteq> None \<and> mc_io_mutex m \<noteq> None \<and>
     mc_active m \<and> mc_channel_enabled m \<and> mc_last_dshot m = 0"

lemma initialize_motors_inv:
  assumes "init_inv kc s" and "s_owned_fan_count s = k" and "n \<le> s_fan_count s"
    and "initialize_motors kc ops c [k..<n] s h = (e, s', h')" and "0 < CONFIG_RMT_ERROR_LIMIT kc"
    and "\<forall>i < k. output_started (motor s i)" and "s_initialized_fan_count s = k" and "k \<le> n"
  shows "init_inv kc s' \<and> s_fan_count s' = s_fan_count s \<and> s_stop_mutex s' = s_stop_mutex s \<and>
    (e = ESP_OK \<longrightarrow> (\<forall>i < n. output_started (motor s' i)) \<and> s_initialized_fan_count s' = n)"
  using assms
proof (induction "n - k" arbitrary: k s h)
  case 0
  then show ?case by simp
next
  case (Suc d)
  then have kn: "k < n" by simp
  let ?s = "s\<lparr>s_owned_fan_count := k + 1\<rparr>"
  obtain e1 s1 h1 where im: "initialize_motor kc ops k (dshot_gpios c ! k) ?s h = (e1, s1, h1)"
    by (metis prod_cases3)
  have i0: "init_inv kc ?s" using Suc.prems kn by (intro init_inv_owned) simp_all
  have z: "motor ?s k = motor_zero" using Suc.prems(1,2,3) kn by (simp add: init_inv_def)
  note I = initialize_motor_inv [OF i0 _ z im Suc.prems(5)]
  have run: "initialize_motors kc ops c (k # [k + 1..<n]) s h = (e, s', h')"
    using Suc.prems(4) kn by (simp add: upt_rec)
  show ?case
  proof (cases "e1 = ESP_OK")
    case False
    then have "e \<noteq> ESP_OK" "s' = s1" using run im by auto
    then show ?thesis using I by (auto simp: frame_ok_def)
  next
    case True
    let ?s1 = "s1\<lparr>s_initialized_fan_count := k + 1\<rparr>"
    have rest: "initialize_motors kc ops c [k + 1..<n] ?s1 h1 = (e, s', h')"
      using run im True by simp
    have i1: "init_inv kc s1" and f1: "frame_ok ?s s1" and o1: "\<forall>j. j \<noteq> k \<longrightarrow> motor s1 j = motor ?s j"
      and st: "output_started (motor s1 k)"
      using I True by (auto simp: output_started_def)
    have "\<forall>i < k + 1. output_started (motor ?s1 i)"
      using o1 st Suc.prems(6) by (auto simp: less_Suc_eq)
    moreover have "init_inv kc ?s1" using i1 kn Suc.prems(1,3) by (intro init_inv_initialized) (auto simp: init_inv_def)
    ultimately have "init_inv kc s' \<and> s_fan_count s' = s_fan_count ?s1 \<and> s_stop_mutex s' = s_stop_mutex ?s1 \<and>
        (e = ESP_OK \<longrightarrow> (\<forall>i < n. output_started (motor s' i)) \<and> s_initialized_fan_count s' = n)"
      using Suc.hyps(2) Suc.prems(3,5) rest f1 kn
      by (intro Suc.hyps(1) [of "k + 1" ?s1 h1]) (simp_all add: frame_ok_def)
    then show ?thesis using f1 by (simp add: frame_ok_def)
  qed
qed


section \<open>Unwinding\<close>

text \<open>What the three stages keep of a resting context.\<close>

definition resting :: "motor_kconfig \<Rightarrow> u8 \<Rightarrow> motor_context \<Rightarrow> bool" where
  "resting kc ms m \<longleftrightarrow> context_inv (CONFIG_RMT_ERROR_LIMIT kc) ms m \<and> mc_current_pct m = 0 \<and> mc_target_pct m = 0"

lemma release_stages_rest:
  assumes "resting kc ms m"
  shows "release_disable ops f m h = (f1, m1, h1) \<Longrightarrow> resting kc ms m1 \<and>
      mc_rmt_fault_latched m1 = mc_rmt_fault_latched m \<and> mc_io_mutex m1 = mc_io_mutex m"
    and "release_drain ops f m h = (f1, m1, h1) \<Longrightarrow> resting kc ms m1 \<and>
      mc_rmt_fault_latched m1 = mc_rmt_fault_latched m \<and> mc_io_mutex m1 = mc_io_mutex m"
    and "release_delete ops f m h = (f1, m1, h1) \<Longrightarrow> resting kc ms m1 \<and>
      mc_rmt_fault_latched m1 = mc_rmt_fault_latched m \<and> mc_io_mutex m1 = mc_io_mutex m"
  using assms
  by (auto simp: release_disable_def release_drain_def release_delete_def resting_def context_inv_def
      io_ok_def Let_def split: if_splits prod.splits)

lemma resting_zero: "0 < CONFIG_RMT_ERROR_LIMIT kc \<Longrightarrow> resting kc ms motor_zero"
  by (auto simp: resting_def context_inv_def motor_zero_def io_ok_def zero_throttle_dshot)

text \<open>Releasing one output leaves it either still owning something, or cleared.\<close>

lemma release_motor_resources_inv:
  assumes st: "init_inv kc s" and i: "i < s_owned_fan_count s"
    and run: "release_motor_resources ops i s h = (e, s', h')" and lim: "0 < CONFIG_RMT_ERROR_LIMIT kc"
  shows "init_inv kc s' \<and> frame_ok s s' \<and> (\<forall>j. j \<noteq> i \<longrightarrow> motor s' j = motor s j) \<and>
    (motor_resources_owned (motor s' i) \<or> motor s' i = motor_zero)"
proof -
  have i4: "i < 4" using st i by (simp add: init_inv_def)
  have len: "length (s_motors s) = 4" using st by (simp add: init_inv_def motor_inv_def)
  let ?m = "motor s i"
  have rest: "resting kc (s_min_spin_pct s) ?m"
    using init_inv_context [OF st i4] init_inv_target [OF st i4] st i4 by (simp add: resting_def init_inv_def)
  obtain taken h0 where tk: "(case mc_io_mutex ?m of None \<Rightarrow> (False, h) | Some x \<Rightarrow> op_sem_take ops x None h) = (taken, h0)"
    by force
  show ?thesis
  proof (cases "mc_io_mutex ?m \<noteq> None \<and> \<not> taken")
    case True
    then have "s' = s" using run tk by (simp add: release_motor_resources_def Let_def)
    then show ?thesis using st True by (auto simp: motor_resources_owned_def)
  next
    case False
    obtain e1 m1 h1 where r1: "release_disable ops ESP_OK ?m h0 = (e1, m1, h1)" by (metis prod_cases3)
    obtain e2 m2 h2 where r2: "release_drain ops e1 m1 h1 = (e2, m2, h2)" by (metis prod_cases3)
    obtain e3 m3 h3 where r3: "release_delete ops e2 m2 h2 = (e3, m3, h3)" by (metis prod_cases3)
    have m1: "resting kc (s_min_spin_pct s) m1" "mc_rmt_fault_latched m1 = mc_rmt_fault_latched ?m"
      using release_stages_rest(1) [OF rest r1] by auto
    have m2: "resting kc (s_min_spin_pct s) m2" "mc_rmt_fault_latched m2 = mc_rmt_fault_latched ?m"
      using release_stages_rest(2) [OF m1(1) r2] m1(2) by auto
    have m3: "resting kc (s_min_spin_pct s) m3" "mc_rmt_fault_latched m3 = mc_rmt_fault_latched ?m"
      using release_stages_rest(3) [OF m2(1) r3] m2(2) by auto
    define m4 where "m4 = (if mc_channel m3 = None \<and> mc_encoder m3 = None \<and> \<not> mc_active m3 \<and>
        \<not> mc_channel_enabled m3 \<and> mc_io_mutex ?m \<noteq> None then m3\<lparr>mc_io_mutex := None\<rparr> else m3)"
    define m5 where "m5 = (if motor_resources_owned m4 then m4 else motor_zero)"
    have "s' = upd_motor i (\<lambda>_. m5) s"
      using run tk False r1 r2 r3
      by (auto simp: release_motor_resources_def Let_def m5_def m4_def split: if_splits)
    moreover have "resting kc (s_min_spin_pct s) m4"
      using m3(1) by (auto simp: m4_def resting_def context_inv_def io_ok_def)
    then have "resting kc (s_min_spin_pct s) m5" using resting_zero [OF lim] by (simp add: m5_def)
    moreover have "mc_rmt_fault_latched m5 \<Longrightarrow> mc_rmt_fault_latched ?m"
      using m3(2) by (auto simp: m5_def m4_def motor_zero_def split: if_splits)
    ultimately have "init_inv kc s'"
      using st i by (auto simp: resting_def intro: init_inv_put)
    moreover have "motor s' i = m5" using \<open>s' = upd_motor i (\<lambda>_. m5) s\<close> i4 len by simp
    ultimately show ?thesis
      using \<open>s' = upd_motor i (\<lambda>_. m5) s\<close> by (auto simp: m5_def)
  qed
qed

lemma release_motors_inv:
  assumes "init_inv kc s" and "\<forall>i \<in> set is. i < s_owned_fan_count s"
    and "release_motors ops is first s h = (e, s', h')" and "0 < CONFIG_RMT_ERROR_LIMIT kc" and "distinct is"
  shows "init_inv kc s' \<and> frame_ok s s' \<and> (\<forall>j. j \<notin> set is \<longrightarrow> motor s' j = motor s j) \<and>
    (\<forall>i \<in> set is. motor_resources_owned (motor s' i) \<or> motor s' i = motor_zero)"
  using assms
proof (induction ops "is" first s h rule: release_motors.induct)
  case (2 ops i "is" first s h)
  obtain e1 s1 h1 where r: "release_motor_resources ops i s h = (e1, s1, h1)" by (metis prod_cases3)
  have oi: "i < s_owned_fan_count s" using "2.prems"(2) by simp
  note R = release_motor_resources_inv [OF "2.prems"(1) oi r "2.prems"(4)]
  have rest: "release_motors ops is (first_error first e1) s1 h1 = (e, s', h')"
    using "2.prems"(3) r by simp
  have "init_inv kc s' \<and> frame_ok s1 s' \<and> (\<forall>j. j \<notin> set is \<longrightarrow> motor s' j = motor s1 j) \<and>
    (\<forall>i \<in> set is. motor_resources_owned (motor s' i) \<or> motor s' i = motor_zero)"
    using R "2.prems"(2,4,5) rest
    by (intro "2.IH" [OF r [symmetric] refl]) (auto simp: frame_ok_def)
  then show ?case using R "2.prems"(5) frame_ok_trans by (auto intro: frame_ok_trans)
qed simp

lemma fold_last_owned_bounds:
  "fold (\<lambda>i r. if P i then Suc i else r) [0..<n] (0 :: nat) \<le> n \<and>
   (\<forall>i < n. P i \<longrightarrow> i < fold (\<lambda>i r. if P i then Suc i else r) [0..<n] 0)"
  by (induction n) (auto simp: less_Suc_eq)

lemma motor_inv_counts:
  "motor_inv kc s \<Longrightarrow> s_lifecycle s \<noteq> MOTOR_LIFECYCLE_READY \<Longrightarrow> n \<le> 4 \<Longrightarrow> k \<le> 4 \<Longrightarrow>
     motor_inv kc (s\<lparr>s_owned_fan_count := n, s_initialized_fan_count := k\<rparr>)"
  by (auto simp: motor_inv_def all_targets_zero_def)

lemma motor_inv_ready:
  "motor_inv kc s \<Longrightarrow> s_lifecycle s \<noteq> MOTOR_LIFECYCLE_READY \<Longrightarrow> s_initialized_fan_count s = s_fan_count s \<Longrightarrow>
     motor_inv kc (s\<lparr>s_lifecycle := MOTOR_LIFECYCLE_READY\<rparr>)"
  by (simp add: motor_inv_def all_targets_zero_def)

lemma release_owned_motors_inv:
  assumes st: "init_inv kc s" and run: "release_owned_motors ops s h = (e, s', h')"
    and lim: "0 < CONFIG_RMT_ERROR_LIMIT kc"
  shows "init_inv kc s' \<and> (s_owned_fan_count s' = 0 \<longrightarrow> (\<forall>i < 4. motor s' i = motor_zero)) \<and>
    s_stop_mutex s' = s_stop_mutex s"
proof -
  let ?n = "s_owned_fan_count s"
  obtain e1 s1 h1 where r: "release_motors ops (rev [0..<?n]) ESP_OK s h = (e1, s1, h1)" by (metis prod_cases3)
  let ?rem = "fold (\<lambda>i r. if motor_resources_owned (motor s1 i) then Suc i else r) [0..<?n] 0"
  have s': "s' = s1\<lparr>s_owned_fan_count := ?rem, s_initialized_fan_count := 0\<rparr>"
    using run r by (simp add: release_owned_motors_def Let_def)
  have R: "init_inv kc s1" "frame_ok s s1" "\<forall>i < ?n. motor_resources_owned (motor s1 i) \<or> motor s1 i = motor_zero"
    using release_motors_inv [OF st _ r lim] by auto
  have zero: "motor s1 i = motor_zero" if "?rem \<le> i" "i < 4" for i
  proof (cases "i < ?n")
    case True
    then show ?thesis using R(3) that(1) fold_last_owned_bounds [of "\<lambda>i. motor_resources_owned (motor s1 i)" ?n]
      by (metis not_less)
  next
    case False
    then show ?thesis using R(1,2) that(2) by (simp add: init_inv_def frame_ok_def)
  qed
  have "?rem \<le> ?n"
    using fold_last_owned_bounds [of "\<lambda>i. motor_resources_owned (motor s1 i)" ?n] by (rule conjunct1)
  moreover have "motor_inv kc s1" "s_lifecycle s1 \<noteq> MOTOR_LIFECYCLE_READY"
    "?n \<le> s_fan_count s1" "s_fan_count s1 \<le> 4"
    using R(1,2) st by (auto simp: init_inv_def frame_ok_def)
  ultimately have "motor_inv kc s'" unfolding s' by (intro motor_inv_counts) simp_all
  moreover have m: "motor s' i = motor s1 i" for i by (simp add: s' motor_def)
  moreover have rem: "s_owned_fan_count s' = ?rem" by (simp add: s')
  moreover have "s_owned_fan_count s' \<le> s_fan_count s'"
    using \<open>?rem \<le> ?n\<close> \<open>?n \<le> s_fan_count s1\<close> rem by (simp add: s')
  ultimately have "init_inv kc s'"
    using R(1) zero by (simp add: init_inv_def) (simp add: s')
  then show ?thesis
    using zero R(2) m rem by (simp add: frame_ok_def) (simp add: s')
qed

section \<open>The whole initialisation\<close>

definition motor_config_ok :: "app_config \<Rightarrow> bool" where
  "motor_config_ok c \<longleftrightarrow> 1 \<le> fan_count c \<and> fan_count c \<le> 4 \<and> 1 \<le> min_spin_pct c \<and> min_spin_pct c \<le> 100 \<and>
     1 \<le> ramp_step_pct c \<and> ramp_step_pct c \<le> 20 \<and> 10 \<le> ramp_tick_ms c \<and> ramp_tick_ms c \<le> 100"

text \<open>The two outcomes of a failed initialisation: nothing is left, or the failure is terminal.\<close>

definition rolled_back :: "motor_state \<Rightarrow> bool" where
  "rolled_back s \<longleftrightarrow> s_lifecycle s = MOTOR_LIFECYCLE_UNINITIALIZED \<and> (\<forall>i < 4. motor s i = motor_zero) \<and>
     s_fan_count s = 0 \<and> s_owned_fan_count s = 0 \<and> s_stop_mutex s = None"

definition failed_terminal :: "motor_state \<Rightarrow> bool" where
  "failed_terminal s \<longleftrightarrow> s_lifecycle s = MOTOR_LIFECYCLE_FAILED \<and> s_global_inhibited s \<and>
     (\<forall>i < 4. mc_target_pct (motor s i) = 0 \<and> mc_current_pct (motor s i) = 0)"

lemma fail_motor_initialization_spec:
  assumes st: "init_inv kc s" and run: "fail_motor_initialization ops err s h = (e, s', h')"
    and lim: "0 < CONFIG_RMT_ERROR_LIMIT kc" and "err \<noteq> ESP_OK"
  shows "motor_inv kc s' \<and> e \<noteq> ESP_OK \<and> (rolled_back s' \<or> failed_terminal s')"
proof -
  obtain ce s1 h1 where r: "release_owned_motors ops s h = (ce, s1, h1)" by (metis prod_cases3)
  note R = release_owned_motors_inv [OF st r lim]
  have s': "s' = fail_section ce s1" and e: "e = (if ce \<noteq> ESP_OK then ce else err)"
    using run r by (auto simp: fail_motor_initialization_def Let_def)
  have I: "motor_inv kc s1" using R by (simp add: init_inv_def)
  have t: "\<forall>i < 4. mc_target_pct (motor s1 i) = 0 \<and> mc_current_pct (motor s1 i) = 0"
    using R init_inv_target by (auto simp: init_inv_def)
  show ?thesis
  proof (cases "ce = ESP_OK \<and> s_owned_fan_count s1 = 0")
    case True
    then have z: "\<forall>i < 4. motor s1 i = motor_zero" using R by simp
    have s1': "s' = s1\<lparr>s_stop_mutex := None, s_fan_count := 0, s_fan_index_start := 0, s_min_spin_pct := 0,
             s_ramp_step_pct := 0, s_ramp_tick_ms := 0, s_stop_depth := 0, s_global_inhibited := False,
             s_maintenance_depth := 0, s_communication_inhibited := False, s_rmt_inhibited := False,
             s_rmt_fault_pending := False, s_ramp_paused := False,
             s_lifecycle := MOTOR_LIFECYCLE_UNINITIALIZED\<rparr>"
      using True by (simp add: s' fail_section_def)
    have m: "motor s' i = motor s1 i" for i by (simp add: s1' motor_def)
    have len: "length (s_motors s') = 4" using I by (simp add: s1' motor_inv_def)
    have "context_inv (CONFIG_RMT_ERROR_LIMIT kc) 0 motor_zero"
      using resting_zero [OF lim, of 0] by (simp add: resting_def)
    then have "motor_inv kc s'"
      using z I len by (simp add: motor_inv_def m all_targets_zero_4 [OF len])
        (simp add: s1' motor_zero_def)
    then show ?thesis using True z assms(4) e m by (simp add: rolled_back_def) (simp add: s1')
  next
    case False
    then have s1': "s' = s1\<lparr>s_global_inhibited := True, s_lifecycle := MOTOR_LIFECYCLE_FAILED\<rparr>"
      by (auto simp: s' fail_section_def)
    have m: "motor s' i = motor s1 i" for i by (simp add: s1' motor_def)
    have len: "length (s_motors s') = 4" using I by (simp add: s1' motor_inv_def)
    have "motor_inv kc s'"
      using I t len by (simp add: motor_inv_def m all_targets_zero_4 [OF len]) (simp add: s1')
    moreover have "e \<noteq> ESP_OK" using e assms(4) by auto
    ultimately show ?thesis using t m by (simp add: failed_terminal_def) (simp add: s1')
  qed
qed

lemma motor_control_init_spec:
  assumes inv: "motor_inv kc s" and run: "motor_control_init kc ops config s h = (e, s', h')"
    and lim: "0 < CONFIG_RMT_ERROR_LIMIT kc"
  shows "motor_inv kc s' \<and>
    (s' = s \<and> e \<noteq> ESP_OK \<or>
     (\<exists>c. config = Some c \<and> motor_config_ok c \<and> s_lifecycle s = MOTOR_LIFECYCLE_UNINITIALIZED \<and>
       (if e = ESP_OK then s_lifecycle s' = MOTOR_LIFECYCLE_READY \<and> int (s_fan_count s') = fan_count c \<and>
          s_initialized_fan_count s' = s_fan_count s' \<and> (\<forall>i < s_fan_count s'. output_started (motor s' i))
        else rolled_back s' \<or> failed_terminal s')))"
proof (cases "\<exists>c. config = Some c \<and> motor_config_ok c \<and> s_lifecycle s = MOTOR_LIFECYCLE_UNINITIALIZED")
  case False
  then have "s' = s \<and> e \<noteq> ESP_OK"
    using run by (auto simp: motor_control_init_def motor_config_ok_def MOTOR_CONTROL_MAX_FANS_def
        APP_CONFIG_MAX_FANS_def not_less split: option.splits if_splits)
  then show ?thesis using inv by blast
next
  case True
  then obtain c where c: "config = Some c" "motor_config_ok c" and lc: "s_lifecycle s = MOTOR_LIFECYCLE_UNINITIALIZED"
    by blast
  let ?s1 = "(init_section c s)\<lparr>s_motors := replicate MOTOR_CONTROL_MAX_FANS motor_zero\<rparr>"
  have m1: "motor ?s1 i = motor_zero" if "i < 4" for i
    using that by (simp add: motor_def MOTOR_CONTROL_MAX_FANS_def APP_CONFIG_MAX_FANS_def)
  have l1: "length (s_motors ?s1) = 4" by (simp add: MOTOR_CONTROL_MAX_FANS_def APP_CONFIG_MAX_FANS_def)
  have fc: "nat (fan_count c) \<le> 4" using c(2) by (simp add: motor_config_ok_def nat_le_iff)
  have cz: "context_inv (CONFIG_RMT_ERROR_LIMIT kc) ms motor_zero" for ms
    using resting_zero [OF lim, of ms] by (simp add: resting_def)
  have f1: "s_lifecycle ?s1 = MOTOR_LIFECYCLE_INITIALIZING" "s_fan_count ?s1 = nat (fan_count c)"
    "s_initialized_fan_count ?s1 = 0" "s_owned_fan_count ?s1 = 0" "\<not> s_global_inhibited ?s1"
    "\<not> s_communication_inhibited ?s1"
    by (simp_all add: init_section_def)
  have "motor_inv kc ?s1"
    using m1 l1 cz fc f1 unfolding motor_inv_def all_targets_zero_4 [OF l1] by (simp add: motor_zero_def)
  then have i1: "init_inv kc ?s1" using m1 f1 fc by (simp add: init_inv_def motor_zero_def)
  have run1: "(case op_sem_create ops h of
             (None, h1) \<Rightarrow> fail_motor_initialization ops ESP_ERR_NO_MEM ?s1 h1
           | (Some stop_mutex, h1) \<Rightarrow>
             (case initialize_motors kc ops c [0..<nat (fan_count c)] (?s1\<lparr>s_stop_mutex := Some stop_mutex\<rparr>) h1 of
                (error, s2, h2) \<Rightarrow>
                  if error \<noteq> ESP_OK then fail_motor_initialization ops error s2 h2
                  else (ESP_OK, s2\<lparr>s_lifecycle := MOTOR_LIFECYCLE_READY\<rparr>, h2))) = (e, s', h')"
  proof -
    have "\<not> (fan_count c < 1 \<or> fan_count c > int MOTOR_CONTROL_MAX_FANS \<or>
           min_spin_pct c < 1 \<or> min_spin_pct c > 100 \<or> ramp_step_pct c < 1 \<or> ramp_step_pct c > 20 \<or>
           ramp_tick_ms c < 10 \<or> ramp_tick_ms c > 100)"
      using c(2) by (simp add: motor_config_ok_def MOTOR_CONTROL_MAX_FANS_def APP_CONFIG_MAX_FANS_def)
    then show ?thesis
      using run by (simp only: motor_control_init_def c(1) lc option.case if_False Let_def simp_thms)
  qed
  show ?thesis
  proof (cases "op_sem_create ops h")
    case (Pair x h1)
    show ?thesis
    proof (cases x)
      case None
      then have "fail_motor_initialization ops ESP_ERR_NO_MEM ?s1 h1 = (e, s', h')" using run1 Pair by simp
      from fail_motor_initialization_spec [OF i1 this lim] c lc show ?thesis by auto
    next
      case (Some y)
      let ?s2 = "?s1\<lparr>s_stop_mutex := Some y\<rparr>"
      have i2: "init_inv kc ?s2"
        using i1 by (auto simp: init_inv_def motor_inv_def all_targets_zero_def)
      obtain e3 s3 h3 where im: "initialize_motors kc ops c [0..<nat (fan_count c)] ?s2 h1 = (e3, s3, h3)"
        by (metis prod_cases3)
      have S: "init_inv kc s3 \<and> s_fan_count s3 = s_fan_count ?s2 \<and> s_stop_mutex s3 = s_stop_mutex ?s2 \<and>
          (e3 = ESP_OK \<longrightarrow> (\<forall>i < nat (fan_count c). output_started (motor s3 i)) \<and>
             s_initialized_fan_count s3 = nat (fan_count c))"
        using initialize_motors_inv [OF i2 _ _ im lim] f1 by simp
      show ?thesis
      proof (cases "e3 = ESP_OK")
        case False
        then have "fail_motor_initialization ops e3 s3 h3 = (e, s', h')" using run1 Pair Some im by simp
        from fail_motor_initialization_spec [OF _ this lim False] S c lc show ?thesis by auto
      next
        case True
        then have r: "e = ESP_OK" "s' = s3\<lparr>s_lifecycle := MOTOR_LIFECYCLE_READY\<rparr>"
          using run1 Pair Some im by simp_all
        have i3: "init_inv kc s3" using S by blast
        have t3: "\<forall>i < 4. mc_target_pct (motor s3 i) = 0" using init_inv_target [OF i3] by blast
        have fc3: "s_fan_count s3 = nat (fan_count c)" using S f1 by simp
        have "motor_inv kc s'"
          unfolding r(2) using init_inv_motor [OF i3] i3 S True fc3
          by (intro motor_inv_ready) (simp_all add: init_inv_def)
        moreover have "int (s_fan_count s') = fan_count c"
          using fc3 c(2) by (simp add: r(2) motor_config_ok_def)
        ultimately show ?thesis using S True fc3 r c lc by auto
      qed
    qed
  qed
qed

lemma motor_inv_boot:
  assumes "0 < CONFIG_RMT_ERROR_LIMIT kc"
  shows "motor_inv kc motor_state_boot"
proof -
  have len: "length (s_motors motor_state_boot) = 4"
    by (simp add: motor_state_boot_def MOTOR_CONTROL_MAX_FANS_def APP_CONFIG_MAX_FANS_def)
  have m: "motor motor_state_boot i = motor_zero" if "i < 4" for i
    using that by (simp add: motor_def motor_state_boot_def MOTOR_CONTROL_MAX_FANS_def APP_CONFIG_MAX_FANS_def)
  have "context_inv (CONFIG_RMT_ERROR_LIMIT kc) ms motor_zero" for ms
    using resting_zero [OF assms, of ms] by (simp add: resting_def)
  then show ?thesis
    using m len unfolding motor_inv_def all_targets_zero_4 [OF len]
    by (simp add: motor_zero_def) (simp add: motor_state_boot_def)
qed

section \<open>Reachable states\<close>

text \<open>From boot, by initialisations and by the atomic steps of any tasks.\<close>

inductive motor_reachable :: "motor_kconfig \<Rightarrow> 'h motor_ops \<Rightarrow> motor_state \<Rightarrow> bool" for kc ops where
  boot: "motor_reachable kc ops motor_state_boot"
| init: "motor_reachable kc ops s \<Longrightarrow> motor_control_init kc ops config s h = (e, s', h') \<Longrightarrow>
    motor_reachable kc ops s'"
| step: "motor_reachable kc ops s \<Longrightarrow> motor_step kc s s' \<Longrightarrow> motor_reachable kc ops s'"

lemma reachable_inv:
  "motor_reachable kc ops s \<Longrightarrow> 0 < CONFIG_RMT_ERROR_LIMIT kc \<Longrightarrow> motor_inv kc s"
proof (induction rule: motor_reachable.induct)
  case boot
  then show ?case by (rule motor_inv_boot)
next
  case (init s config h e s' h')
  from motor_control_init_spec [OF init.IH [OF init.prems] init.hyps(2) init.prems] show ?case
    by (rule conjunct1)
next
  case (step s s')
  from motor_step_inv [OF step.hyps(2) step.IH [OF step.prems] step.prems] show ?case .
qed

end
