(* ===== verification/Motor_Simulation.thy ===== *)
theory Motor_Simulation imports Motor_Init
begin

text \<open>
  A simulated platform for the motor controller: every driver call succeeds, except that
  the outcomes of \<open>rmt_transmit\<close> are read from a script. The controller initialised on it
  is the concrete input of the witnesses of \<open>Motor_Properties\<close>.
\<close>

section \<open>The scripted platform\<close>

definition steady_motor_ops :: "'h motor_ops" where
  "steady_motor_ops =
    \<lparr>op_encode_bytes = (\<lambda>_ _ h. (16, RMT_ENCODING_RESET, h)), op_encode_copy = (\<lambda>_ _ h. (1, RMT_ENCODING_RESET, h)),
     op_alloc_encoder_mem = (\<lambda>h. (Some 1, h)), op_new_bytes_encoder = (\<lambda>_ _ h. ((ESP_OK, Some 2), h)),
     op_new_copy_encoder = (\<lambda>h. ((ESP_OK, Some 3), h)), op_del_encoder = (\<lambda>_ h. h),
     op_reset_encoder = (\<lambda>_ h. h), op_free = (\<lambda>h. h),
     op_sem_create = (\<lambda>h. (Some 4, h)), op_sem_take = (\<lambda>_ _ h. (True, h)), op_sem_give = (\<lambda>_ h. h),
     op_sem_delete = (\<lambda>_ h. h), op_timer_get_time = (\<lambda>h. (1000000, h)),
     op_rmt_new_tx_channel = (\<lambda>_ h. ((ESP_OK, Some 5), h)), op_rmt_enable = (\<lambda>_ h. (ESP_OK, h)),
     op_rmt_disable = (\<lambda>_ h. (ESP_OK, h)), op_rmt_tx_wait_all_done = (\<lambda>_ _ h. (ESP_OK, h)),
     op_rmt_transmit = (\<lambda>_ _ _ h. (ESP_OK, h)),
     op_rmt_encoder_reset = (\<lambda>_ h. (ESP_OK, h)), op_rmt_del_encoder = (\<lambda>_ h. (ESP_OK, h)),
     op_rmt_del_channel = (\<lambda>_ h. (ESP_OK, h)), op_task_create = (\<lambda>h. (Some 6, h)),
     op_task_wdt_add = (\<lambda>h. (ESP_OK, h)), op_task_wdt_reset = (\<lambda>h. h),
     op_stack_high_water_mark = (\<lambda>_ h. (2048, h))\<rparr>"

text \<open>The state is the list of the next transmissions' outcomes; past its end they succeed.\<close>

definition sim_ops :: "bool list motor_ops" where
  "sim_ops = steady_motor_ops\<lparr>op_rmt_transmit := (\<lambda>_ _ _ h. case h of [] \<Rightarrow> (ESP_OK, [])
     | ok # rest \<Rightarrow> (if ok then ESP_OK else ESP_FAIL, rest))\<rparr>"

definition sim_kconfig :: motor_kconfig where
  "sim_kconfig = \<lparr>CONFIG_RMT_ERROR_LIMIT = 3, CONFIG_SUPERVISOR_ENABLED = True\<rparr>"

definition sim_config :: app_config where
  "sim_config = \<lparr>fan_count = 2, fan_index_start = 1, min_spin_pct = 15, ramp_step_pct = 3, ramp_tick_ms = 20,
     dshot_gpios = [5, 7, -1, -1], tach_gpios = [-1, -1, -1, -1], topology_fp = 0, mqtt_root_topic = ''farm'',
     node_id = ''n1'', node_topic = ''farm/n1''\<rparr>"

text \<open>Two fans, initialised; then fan 0 asked for 50 percent, after two ticks of the ramp.\<close>

definition sim_ready :: motor_state where
  "sim_ready = fst (snd (motor_control_init sim_kconfig sim_ops (Some sim_config) motor_state_boot []))"

definition sim_requested :: motor_state where
  "sim_requested = snd (snd (motor_control_request_manual 0 50 sim_ready))"

fun sim_ramps :: "nat \<Rightarrow> motor_state \<Rightarrow> motor_state" where
  "sim_ramps 0 s = s"
| "sim_ramps (Suc n) s = sim_ramps n (fst (ramp_iteration sim_kconfig sim_ops s []))"

definition sim_running :: motor_state where
  "sim_running = sim_ramps 2 sim_requested"

text \<open>These states written out, so that each witness evaluates from here.\<close>

definition sim_started :: "int \<Rightarrow> motor_context" where
  "sim_started gpio = motor_zero\<lparr>mc_channel := Some 5, mc_encoder := Some 1, mc_active_encoder := Some 1,
     mc_io_mutex := Some 4, mc_gpio := gpio, mc_active := True, mc_channel_enabled := True,
     mc_last_reported_pct := 255, mc_last_tx_us := 1000000\<rparr>"

definition sim_state :: "motor_context \<Rightarrow> motor_context \<Rightarrow> motor_state" where
  "sim_state m0 m1 = motor_state_boot\<lparr>s_motors := [m0, m1, motor_zero, motor_zero],
     s_lifecycle := MOTOR_LIFECYCLE_READY, s_fan_count := 2, s_fan_index_start := 1,
     s_initialized_fan_count := 2, s_owned_fan_count := 2, s_min_spin_pct := 15, s_ramp_step_pct := 3,
     s_ramp_tick_ms := 20, s_stop_mutex := Some 4\<rparr>"

lemma sim_ready_value [code]: "sim_ready = sim_state (sim_started 5) (sim_started 7)"
  by code_simp

lemma sim_running_value [code]:
  "sim_running = (sim_state ((sim_started 5)\<lparr>mc_throttle := \<lparr>thr_throttle = 347, thr_telemetry_req = False\<rparr>,
       mc_tx_payload := \<lparr>thr_throttle = 347, thr_telemetry_req = False\<rparr>, mc_current_pct := 6,
       mc_target_pct := 50, mc_applied_pct := 15, mc_manual_target_pct := 50, mc_control_generation := 2,
       mc_last_reported_pct := 3, mc_last_dshot := 694, mc_accepted_command_count := 1,
       mc_nonzero_applied_since_us := 1000000\<rparr>) (sim_started 7))\<lparr>s_ramp_heartbeat_us := 1000000\<rparr>"
  by code_simp

lemma sim_limit: "0 < CONFIG_RMT_ERROR_LIMIT sim_kconfig"
  by (simp add: sim_kconfig_def)

lemma sim_ready_reachable: "motor_reachable sim_kconfig sim_ops sim_ready"
  using motor_reachable.init [OF motor_reachable.boot, of sim_kconfig sim_ops "Some sim_config" "[]"]
  unfolding sim_ready_def by (metis prod.collapse)

lemma sim_ready_inv: "motor_inv sim_kconfig sim_ready"
  using reachable_inv [OF sim_ready_reachable sim_limit] .

lemma sim_requested_inv: "motor_inv sim_kconfig sim_requested"
proof (cases "manual_section 0 50 sim_ready")
  case None
  then show ?thesis using sim_ready_inv by (simp add: sim_requested_def motor_control_request_manual_def)
next
  case (Some r)
  obtain ack s1 where r: "r = (ack, s1)" by force
  have "motor_step sim_kconfig sim_ready s1" using Some r by (intro step_manual [of 50 0 _ ack]) simp_all
  then have "motor_inv sim_kconfig s1" using sim_ready_inv sim_limit by (rule motor_step_inv)
  from motor_step_inv [OF step_event this sim_limit]
  have "motor_inv sim_kconfig (emit_event MOTOR_CONTROL_EVENT_TARGET_CHANGED 0 s1)" .
  then show ?thesis using Some r by (simp add: sim_requested_def motor_control_request_manual_def)
qed

lemma sim_ready_facts:
  "s_lifecycle sim_ready = MOTOR_LIFECYCLE_READY" "s_fan_count sim_ready = 2"
  by code_simp+

end
