(* ===== verification/Motor_Properties.thy ===== *)
theory Motor_Properties imports Motor_Simulation
begin

text \<open>
  The properties of \<open>motor_control.c\<close>: the refinement of its operations to atomic steps,
  the invariant and the finality of a global inhibit under every interleaving, what a
  successful application or stop puts on the wire, and initialisation as a transaction.
\<close>

section \<open>The interface of the module\<close>

datatype motor_call =
    Call_Stop_All bool stop_inhibit bool
  | Call_Stop_One int bool
  | Call_Set_Tach_Inhibit int bool
  | Call_Request_Manual int u8
  | Call_Request_Automatic int u8
  | Call_Request_Scheduled int u8
  | Call_Restore_All "u8 list" nat
  | Call_Clear_Maintenance
  | Call_Take_Rmt_Fault_Pending
  | Call_Set_Ramp_Paused bool
  | Call_Start_Ramp nat nat
  | Call_Ramp_Iteration

fun run_call :: "motor_kconfig \<Rightarrow> 'h motor_ops \<Rightarrow> motor_call \<Rightarrow> motor_state \<Rightarrow> 'h \<Rightarrow> motor_state \<times> 'h" where
  "run_call kc ops (Call_Stop_All clear inhibit rb) s h = snd (stop_all_internal kc ops clear inhibit rb s h)"
| "run_call kc ops (Call_Stop_One f clear) s h = snd (motor_control_stop_one kc ops f clear s h)"
| "run_call kc ops (Call_Set_Tach_Inhibit f b) s h = snd (motor_control_set_tach_inhibit kc ops f b s h)"
| "run_call kc ops (Call_Request_Manual f p) s h = (snd (snd (motor_control_request_manual f p s)), h)"
| "run_call kc ops (Call_Request_Automatic f p) s h = (snd (motor_control_request_automatic f p s), h)"
| "run_call kc ops (Call_Request_Scheduled f p) s h = (snd (snd (motor_control_request_scheduled f p s)), h)"
| "run_call kc ops (Call_Restore_All ts n) s h = (snd (motor_control_restore_all (Some ts) n s), h)"
| "run_call kc ops Call_Clear_Maintenance s h = (snd (motor_control_clear_maintenance_inhibit s), h)"
| "run_call kc ops Call_Take_Rmt_Fault_Pending s h = (snd (motor_control_take_rmt_fault_pending s), h)"
| "run_call kc ops (Call_Set_Ramp_Paused b) s h = (motor_control_set_ramp_paused b s, h)"
| "run_call kc ops (Call_Start_Ramp cb ctx) s h = snd (motor_control_start_ramp ops (Some cb) ctx s h)"
| "run_call kc ops Call_Ramp_Iteration s h = ramp_iteration kc ops s h"

lemma steps_cons: "motor_step kc s s1 \<Longrightarrow> motor_steps kc s1 s' \<Longrightarrow> motor_steps kc s s'"
  by (rule converse_rtranclp_into_rtranclp)

lemma steps_one: "motor_step kc s s' \<Longrightarrow> motor_steps kc s s'"
  by (rule r_into_rtranclp)

lemma steps_event: "motor_step kc s s1 \<Longrightarrow> motor_steps kc s (emit_event t f s1)"
  by (rule steps_cons, assumption, rule steps_one, rule step_event)

lemma step_misc_fields:
  "motor_step kc s (s\<lparr>s_ramp_paused := a\<rparr>)" "motor_step kc s (s\<lparr>s_ramp_heartbeat_us := d\<rparr>)"
  "motor_step kc s (s\<lparr>s_ramp_starting := c, s_event_callback := e, s_event_context := f\<rparr>)"
  "motor_step kc s (s\<lparr>s_ramp_starting := c, s_event_callback := e, s_event_context := f, s_ramp_task := b\<rparr>)"
proof -
  note M = step_misc [where s = s and kc = kc]
  show "motor_step kc s (s\<lparr>s_ramp_paused := a\<rparr>)"
    using M [where a = a and b = "s_ramp_task s" and c = "s_ramp_starting s" and d = "s_ramp_heartbeat_us s" and e = "s_event_callback s" and f = "s_event_context s" and g = "s_event_log s"] by simp
  show "motor_step kc s (s\<lparr>s_ramp_heartbeat_us := d\<rparr>)"
    using M [where a = "s_ramp_paused s" and b = "s_ramp_task s" and c = "s_ramp_starting s" and d = d and e = "s_event_callback s" and f = "s_event_context s" and g = "s_event_log s"] by simp
  show "motor_step kc s (s\<lparr>s_ramp_starting := c, s_event_callback := e, s_event_context := f\<rparr>)"
    using M [where a = "s_ramp_paused s" and b = "s_ramp_task s" and c = c and d = "s_ramp_heartbeat_us s" and e = e and f = f and g = "s_event_log s"] by simp
  have "s\<lparr>s_ramp_starting := c, s_event_callback := e, s_event_context := f, s_ramp_task := b\<rparr> =
    s\<lparr>s_ramp_paused := s_ramp_paused s, s_ramp_task := b, s_ramp_starting := c,
      s_ramp_heartbeat_us := s_ramp_heartbeat_us s, s_event_callback := e, s_event_context := f,
      s_event_log := s_event_log s\<rparr>" by (cases s) simp
  then show "motor_step kc s (s\<lparr>s_ramp_starting := c, s_event_callback := e, s_event_context := f, s_ramp_task := b\<rparr>)"
    using M [where a = "s_ramp_paused s" and b = b and c = c and d = "s_ramp_heartbeat_us s" and e = e and f = f and g = "s_event_log s"] by (simp only:)
qed

lemma ramp_fan_steps:
  assumes "ramp_fan kc ops i s h = (s', h')" and "motor_inv kc s" and "i < 4"
  shows "motor_steps kc s s'"
proof -
  obtain ch prev gen s1 where a: "ramp_advance_section i s = (ch, prev, gen, s1)" by (metis prod_cases4)
  obtain e s2 h2 where ap: "apply_motor kc ops i s1 h = (e, s2, h2)" by (metis prod_cases3)
  obtain pub s3 where r: "ramp_report_section i s2 = (pub, s3)" by force
  have "prev = mc_current_pct (motor s i)" using a by (auto simp: ramp_advance_section_def Let_def split: if_splits)
  then have p: "prev \<le> 100" using assms(2,3) by (simp add: motor_inv_def context_inv_def)
  have 1: "motor_step kc s s1" using step_ramp_advance [of kc s i] a by simp
  have 2: "motor_steps kc s1 s2" using ap by (rule apply_motor_steps)
  have "motor_steps kc s2 s'"
  proof (cases "ch \<and> e = ESP_OK")
    case True
    then have "s' = (if pub then emit_event MOTOR_CONTROL_EVENT_APPLIED_CHANGED (int i) s3 else s3)"
      using assms(1) a ap r by (auto simp: ramp_fan_def)
    moreover have "motor_step kc s2 s3" using step_ramp_report [of kc s2 i] r by simp
    ultimately show ?thesis
      using steps_cons [OF _ steps_one [OF step_event]] steps_one by (cases pub) metis+
  next
    case False
    then have "s' = s2 \<or> s' = rollback_section i prev gen s2"
      using assms(1) a ap by (auto simp: ramp_fan_def split: if_splits)
    then show ?thesis using step_rollback [OF p] by (auto intro: steps_one)
  qed
  with 1 2 show ?thesis by (meson steps_cons rtranclp_trans)
qed

lemma ramp_fans_steps:
  "ramp_fans kc ops is s h = (s', h') \<Longrightarrow> motor_inv kc s \<Longrightarrow> \<forall>i \<in> set is. i < 4 \<Longrightarrow>
     0 < CONFIG_RMT_ERROR_LIMIT kc \<Longrightarrow> motor_steps kc s s'"
proof (induction kc ops "is" s h rule: ramp_fans.induct)
  case (2 kc ops i "is" s h)
  obtain s1 h1 where f: "ramp_fan kc ops i s h = (s1, h1)" by force
  have 1: "motor_steps kc s s1" using f "2.prems" by (intro ramp_fan_steps [OF f]) simp_all
  then have "motor_inv kc s1" using motor_steps_inv "2.prems"(2,4) by blast
  then have "motor_steps kc s1 s'"
    using "2.prems" f by (intro "2.IH" [OF f [symmetric]]) simp_all
  with 1 show ?case by (rule rtranclp_trans)
qed simp

lemma ramp_iteration_steps:
  assumes "ramp_iteration kc ops s h = (s', h')" and "motor_inv kc s" and "0 < CONFIG_RMT_ERROR_LIMIT kc"
  shows "motor_steps kc s s'"
proof -
  have hb: "motor_steps kc s1 s2" if "ramp_heartbeat kc ops s1 h1 = (s2, h2)" for s1 h1 s2 h2
    using that step_misc_fields(2) by (auto simp: ramp_heartbeat_def Let_def split: prod.splits intro: steps_one)
  show ?thesis
  proof (cases "s_ramp_paused s")
    case True
    then show ?thesis using assms(1) hb by (simp add: ramp_iteration_def)
  next
    case False
    obtain s1 h1 where f: "ramp_fans kc ops [0..<s_fan_count s] s h = (s1, h1)" by force
    have "\<forall>i \<in> set [0..<s_fan_count s]. i < 4" using assms(2) by (auto simp: motor_inv_def)
    then have "motor_steps kc s s1" using ramp_fans_steps [OF f assms(2) _ assms(3)] by blast
    moreover have "motor_steps kc s1 s'" using assms(1) False f hb by (simp add: ramp_iteration_def)
    ultimately show ?thesis by (rule rtranclp_trans)
  qed
qed

lemma start_ramp_steps: "motor_steps kc s (fst (snd (motor_control_start_ramp ops cb ctx s h)))"
proof -
  have "s\<lparr>s_ramp_starting := False, s_event_callback := cb, s_event_context := ctx, s_ramp_task := t\<rparr> =
      s\<lparr>s_ramp_starting := True, s_event_callback := cb, s_event_context := ctx\<rparr>
       \<lparr>s_ramp_starting := False, s_ramp_task := t\<rparr>" for t by (cases s) simp
  moreover have "s\<lparr>s_ramp_starting := False, s_event_callback := None, s_event_context := 0, s_ramp_task := None\<rparr> =
      s\<lparr>s_ramp_starting := True, s_event_callback := cb, s_event_context := ctx\<rparr>
       \<lparr>s_ramp_starting := False, s_event_callback := None, s_event_context := 0, s_ramp_task := None\<rparr>"
    by (cases s) simp
  ultimately have "motor_step kc s (s\<lparr>s_ramp_starting := True, s_event_callback := cb, s_event_context := ctx\<rparr>
       \<lparr>s_ramp_starting := False, s_ramp_task := t\<rparr>)"
    "motor_step kc s (s\<lparr>s_ramp_starting := True, s_event_callback := cb, s_event_context := ctx\<rparr>
       \<lparr>s_ramp_starting := False, s_event_callback := None, s_event_context := 0, s_ramp_task := None\<rparr>)" for t
    using step_misc_fields(4) by metis+
  then show ?thesis
    by (auto simp: motor_control_start_ramp_def Let_def split: prod.splits option.splits intro: steps_one)
qed

lemma sim_ramps_inv: "motor_inv sim_kconfig s \<Longrightarrow> motor_inv sim_kconfig (sim_ramps n s)"
proof (induction n arbitrary: s)
  case (Suc n)
  obtain s1 h1 where r: "ramp_iteration sim_kconfig sim_ops s [] = (s1, h1)" by force
  from motor_steps_inv [OF ramp_iteration_steps [OF r Suc.prems sim_limit] Suc.prems sim_limit]
  show ?case using Suc.IH r by simp
qed simp

lemma sim_running_inv: "motor_inv sim_kconfig sim_running"
  unfolding sim_running_def by (intro sim_ramps_inv sim_requested_inv)

lemma run_call_steps:
  assumes "motor_inv kc s" and "0 < CONFIG_RMT_ERROR_LIMIT kc"
  shows "motor_steps kc s (fst (run_call kc ops c s h))"
proof (cases c)
  case (Call_Stop_All clear inhibit rb)
  obtain e s' h' where "stop_all_internal kc ops clear inhibit rb s h = (e, s', h')" by (metis prod_cases3)
  then show ?thesis using stop_all_internal_steps assms(1) Call_Stop_All by fastforce
next
  case (Call_Stop_One f clear)
  show ?thesis
  proof (cases "stop_one_section f clear s")
    case None
    then show ?thesis by (simp add: Call_Stop_One motor_control_stop_one_def)
  next
    case (Some s1)
    obtain e s2 h2 where ap: "apply_motor kc ops (nat f) s1 h = (e, s2, h2)" by (metis prod_cases3)
    have "motor_steps kc s1 (emit_event MOTOR_CONTROL_EVENT_APPLIED_CHANGED f s2)"
      using apply_motor_steps [OF ap] step_event by (rule rtranclp.rtrancl_into_rtrancl)
    from steps_cons [OF step_stop_one [OF Some] this] show ?thesis
      by (simp add: Call_Stop_One motor_control_stop_one_def Some ap)
  qed
next
  case (Call_Set_Tach_Inhibit f b)
  show ?thesis
  proof (cases "tach_inhibit_section f b s")
    case None
    then show ?thesis by (simp add: Call_Set_Tach_Inhibit motor_control_set_tach_inhibit_def)
  next
    case (Some s1)
    obtain e s2 h2 where ap: "(if b then apply_motor kc ops (nat f) s1 h else (ESP_OK, s1, h)) = (e, s2, h2)"
      by (metis prod_cases3)
    let ?s3 = "emit_event MOTOR_CONTROL_EVENT_INHIBIT_CHANGED f s2"
    let ?s4 = "if b then emit_event MOTOR_CONTROL_EVENT_APPLIED_CHANGED f ?s3 else ?s3"
    have "motor_steps kc s1 s2" using ap apply_motor_steps by (auto split: if_splits)
    moreover have "motor_step kc s2 ?s3" by (rule step_event)
    moreover have "motor_steps kc ?s3 ?s4" using step_event by (auto intro: steps_one)
    ultimately have "motor_steps kc s1 ?s4" by (meson steps_cons rtranclp_trans)
    from steps_cons [OF step_tach [OF Some] this] show ?thesis
      by (simp add: Call_Set_Tach_Inhibit motor_control_set_tach_inhibit_def Some ap Let_def)
  qed
next
  case (Call_Request_Manual f p)
  then show ?thesis
    using step_manual [of p f s _ _ kc]
    by (auto simp: motor_control_request_manual_def not_less split: option.splits intro!: steps_event)
next
  case (Call_Request_Automatic f p)
  then show ?thesis
    using step_automatic [of p f s _ _ kc]
    by (auto simp: motor_control_request_automatic_def not_less split: option.splits intro!: steps_event)
next
  case (Call_Request_Scheduled f p)
  then show ?thesis
    using step_automatic [of p f s _ _ kc]
    by (auto simp: motor_control_request_scheduled_def not_less split: option.splits intro!: steps_event)
next
  case (Call_Restore_All ts n)
  have "motor_steps kc s (fold (\<lambda>i. emit_event MOTOR_CONTROL_EVENT_TARGET_CHANGED (int i)) [0..<s_fan_count s]
      (restore_section ts s))"
    if "s_lifecycle s = MOTOR_LIFECYCLE_READY" "restore_allowed ts s"
    using step_restore [OF that] step_events by (rule steps_cons)
  then show ?thesis by (simp add: Call_Restore_All motor_control_restore_all_def)
next
  case Call_Clear_Maintenance
  then show ?thesis
    using step_clear_maintenance [of kc s]
    by (auto simp: motor_control_clear_maintenance_inhibit_def split: prod.splits intro: steps_event steps_one)
next
  case Call_Take_Rmt_Fault_Pending
  then show ?thesis using step_take_pending [of kc s] by (auto intro: steps_one)
next
  case (Call_Set_Ramp_Paused b)
  then show ?thesis using step_misc_fields(1) by (simp add: motor_control_set_ramp_paused_def steps_one)
next
  case (Call_Start_Ramp cb ctx)
  then show ?thesis using start_ramp_steps by simp
next
  case Call_Ramp_Iteration
  obtain s' h' where "ramp_iteration kc ops s h = (s', h')" by force
  then show ?thesis using ramp_iteration_steps assms Call_Ramp_Iteration by fastforce
qed

section \<open>The sweep of a stop\<close>

lemma rollback_frame [simp]:
  "frame_ok s0 (rollback_section i p g s) = frame_ok s0 s"
  "mc_target_pct (motor (rollback_section i p g s) j) = mc_target_pct (motor s j)"
  "mc_manual_target_pct (motor (rollback_section i p g s) j) = mc_manual_target_pct (motor s j)"
  "mc_tach_inhibited (motor (rollback_section i p g s) j) = mc_tach_inhibited (motor s j)"
  "i \<noteq> j \<Longrightarrow> motor (rollback_section i p g s) j = motor s j"
  by (auto simp: rollback_section_def motor_upd)

lemma stop_apply_loop_frame:
  assumes "stop_apply_loop kc ops rb prev gens is first s h = (e, s', h')" and "motor_inv kc s"
    and "0 < CONFIG_RMT_ERROR_LIMIT kc" and "\<forall>i \<in> set is. i < 4 \<and> prev ! i \<le> 100"
  shows "motor_inv kc s' \<and> frame_ok s s' \<and>
    (\<forall>j. mc_target_pct (motor s' j) = mc_target_pct (motor s j) \<or> mc_target_pct (motor s' j) = 0) \<and>
    (\<forall>j. mc_manual_target_pct (motor s' j) = mc_manual_target_pct (motor s j) \<and>
       mc_tach_inhibited (motor s' j) = mc_tach_inhibited (motor s j)) \<and>
    (\<forall>j. j \<notin> set is \<longrightarrow> motor s' j = motor s j)"
  using assms
proof (induction kc ops rb prev gens "is" first s h rule: stop_apply_loop.induct)
  case (1 kc ops rb prev gens first s h)
  then show ?case by simp
next
  case (2 kc ops rb prev gens i "is" first s h)
  obtain e1 s1 h1 where ap: "apply_motor kc ops i s h = (e1, s1, h1)" by (metis prod_cases3)
  define s2 where "s2 = (if e1 \<noteq> ESP_OK \<and> rb then rollback_section i (prev ! i) (gens ! i) s1 else s1)"
  have i: "i < 4" "prev ! i \<le> 100" using "2.prems"(4) by auto
  note E = apply_motor_effect [OF "2.prems"(2) i(1) ap]
  have "motor_inv kc s1" using apply_motor_steps [OF ap] "2.prems"(2,3) by (rule motor_steps_inv)
  then have inv2: "motor_inv kc s2" using i by (simp add: s2_def rollback_inv)
  have run: "stop_apply_loop kc ops rb prev gens is (first_error first e1) s2 h1 = (e, s', h')"
    using "2.prems"(1) ap by (simp add: s2_def)
  have IH: "motor_inv kc s' \<and> frame_ok s2 s' \<and>
    (\<forall>j. mc_target_pct (motor s' j) = mc_target_pct (motor s2 j) \<or> mc_target_pct (motor s' j) = 0) \<and>
    (\<forall>j. mc_manual_target_pct (motor s' j) = mc_manual_target_pct (motor s2 j) \<and>
       mc_tach_inhibited (motor s' j) = mc_tach_inhibited (motor s2 j)) \<and>
    (\<forall>j. j \<notin> set is \<longrightarrow> motor s' j = motor s2 j)"
    using "2.IH" [OF ap [symmetric] refl s2_def _ inv2 "2.prems"(3)] run "2.prems"(4) by simp
  have F: "frame_ok s s2" using E(1) by (simp add: s2_def)
  have T: "mc_target_pct (motor s2 j) = mc_target_pct (motor s j) \<or> mc_target_pct (motor s2 j) = 0" for j
    using E(2) [of j] E(3) by (cases "j = i") (auto simp: s2_def)
  have M: "mc_manual_target_pct (motor s2 j) = mc_manual_target_pct (motor s j)"
    "mc_tach_inhibited (motor s2 j) = mc_tach_inhibited (motor s j)" for j
    using E(2) [of j] E(3) by (cases "j = i"; auto simp: s2_def)+
  have O: "motor s2 j = motor s j" if "j \<noteq> i" for j
    using E(2) [OF that] that by (simp add: s2_def)
  show ?case
    using IH F T M O frame_ok_trans [of s s2 s'] by (auto; metis)
qed

text \<open>One output after a successful application: what it is sending is its own throttle.\<close>

definition output_sending :: "u8 \<Rightarrow> motor_context \<Rightarrow> bool" where
  "output_sending min_spin m \<longleftrightarrow>
     mc_active m \<and> mc_channel_enabled m \<and> mc_last_dshot m = dshot_composite (mc_throttle m) \<and>
     mc_applied_pct m = controller_effective_pct (mc_current_pct m) min_spin \<and> mc_rmt_error_consecutive m = 0"

lemma stop_apply_loop_ok:
  assumes "stop_apply_loop kc ops rb prev gens is first s h = (ESP_OK, s', h')" and "motor_inv kc s"
    and "0 < CONFIG_RMT_ERROR_LIMIT kc" and "\<forall>i \<in> set is. i < 4 \<and> prev ! i \<le> 100" and "distinct is"
  shows "first = ESP_OK \<and> s_rmt_inhibited s' = s_rmt_inhibited s \<and>
    (\<forall>i \<in> set is. output_sending (s_min_spin_pct s) (motor s' i) \<and>
       mc_current_pct (motor s' i) = mc_current_pct (motor s i) \<and>
       mc_throttle (motor s' i) = mc_throttle (motor s i))"
  using assms
proof (induction kc ops rb prev gens "is" first s h rule: stop_apply_loop.induct)
  case (1 kc ops rb prev gens first s h)
  then show ?case by simp
next
  case (2 kc ops rb prev gens i "is" first s h)
  obtain e1 s1 h1 where ap: "apply_motor kc ops i s h = (e1, s1, h1)" by (metis prod_cases3)
  define s2 where "s2 = (if e1 \<noteq> ESP_OK \<and> rb then rollback_section i (prev ! i) (gens ! i) s1 else s1)"
  have i: "i < 4" "prev ! i \<le> 100" using "2.prems"(4) by auto
  note E = apply_motor_effect [OF "2.prems"(2) i(1) ap]
  have "motor_inv kc s1" using apply_motor_steps [OF ap] "2.prems"(2,3) by (rule motor_steps_inv)
  then have inv2: "motor_inv kc s2" using i by (simp add: s2_def rollback_inv)
  have run: "stop_apply_loop kc ops rb prev gens is (first_error first e1) s2 h1 = (ESP_OK, s', h')"
    using "2.prems"(1) ap by (simp add: s2_def)
  have IH: "first_error first e1 = ESP_OK \<and> s_rmt_inhibited s' = s_rmt_inhibited s2 \<and>
    (\<forall>i \<in> set is. output_sending (s_min_spin_pct s2) (motor s' i) \<and>
       mc_current_pct (motor s' i) = mc_current_pct (motor s2 i) \<and>
       mc_throttle (motor s' i) = mc_throttle (motor s2 i))"
    using "2.IH" [OF ap [symmetric] refl s2_def _ inv2 "2.prems"(3)] run "2.prems"(4,5) by simp
  have ok: "first = ESP_OK" "e1 = ESP_OK" using IH by simp_all
  have s2: "s2 = s1" using ok by (simp add: s2_def)
  have ms: "s_min_spin_pct s1 = s_min_spin_pct s" using E(1) by (simp add: frame_ok_def)
  have here: "motor s' i = motor s1 i"
    using stop_apply_loop_frame [OF run inv2 "2.prems"(3)] "2.prems"(4,5) s2 by simp
  have other: "motor s1 j = motor s j" if "j \<in> set is" for j
    using E(2) [of j] that "2.prems"(5) by auto
  show ?case
    using IH E(3) E(4) [OF ok(2)] ok here other unfolding s2 ms by (simp add: output_sending_def)
qed

lemma stop_enter_motor:
  "stop_enter_section inhibit s = Some s1 \<Longrightarrow> s_motors s1 = s_motors s \<and> s_lifecycle s1 = s_lifecycle s \<and>
     s_fan_count s1 = s_fan_count s \<and> s_owned_fan_count s1 = s_owned_fan_count s \<and>
     s_initialized_fan_count s1 = s_initialized_fan_count s \<and> s_min_spin_pct s1 = s_min_spin_pct s \<and>
     s_rmt_inhibited s1 = s_rmt_inhibited s \<and> s_global_inhibited s1 = s_global_inhibited s \<and>
     s_communication_inhibited s1 = s_communication_inhibited s \<and>
     s_stop_depth s1 = s_stop_depth s + 1 \<and> s_stop_depth s \<noteq> UINT32_MAX \<and>
     s_maintenance_depth s1 = s_maintenance_depth s + (if inhibit = STOP_INHIBIT_MAINTENANCE then 1 else 0) \<and>
     (inhibit = STOP_INHIBIT_MAINTENANCE \<longrightarrow> s_maintenance_depth s \<noteq> UINT32_MAX)"
  by (auto simp: stop_enter_section_def Let_def split: if_splits)

lemma dshot_composite_inj: "dshot_composite a = dshot_composite b \<longleftrightarrow> a = b"
proof -
  have bits: "bit (dshot_composite t) 0 = thr_telemetry_req t"
    "\<And>n. n < 16 \<Longrightarrow> bit (dshot_composite t) (Suc n) = bit (thr_throttle t) n" for t
    unfolding dshot_composite_def bit_or_iff bit_push_bit_iff unsigned_ucast_eq
    by (auto simp: bit_ucast_iff)
  show ?thesis
  proof
    assume eq: "dshot_composite a = dshot_composite b"
    have "bit (thr_throttle a) n = bit (thr_throttle b) n" if "n < 16" for n
      using bits(2) [OF that] eq by metis
    then have "thr_throttle a = thr_throttle b" by (intro bit_word_eqI) simp
    moreover have "thr_telemetry_req a = thr_telemetry_req b" using bits(1) eq by metis
    ultimately show "a = b" by (cases a; cases b) simp
  qed simp
qed

lemma output_sending_payload:
  "output_sending ms m \<Longrightarrow> io_ok m \<Longrightarrow> mc_tx_payload m = mc_throttle m"
  by (simp add: output_sending_def io_ok_def dshot_composite_inj)

lemma motor_events: "motor (fold (\<lambda>i. emit_event t (f i)) is s) j = motor s j"
  by (induction "is" arbitrary: s) simp_all

lemma frame_ok_events [simp]: "frame_ok s (fold (\<lambda>i. emit_event t (f i)) is s') = frame_ok s s'"
  by (induction "is" arbitrary: s') simp_all

lemma rmt_event [simp]: "s_rmt_inhibited (emit_event t f s) = s_rmt_inhibited s"
  using emit_event_log [of t f s] by auto

lemma rmt_events: "s_rmt_inhibited (fold (\<lambda>i. emit_event t (f i)) is s) = s_rmt_inhibited s"
  by (induction "is" arbitrary: s) simp_all

lemma motor_stop_leave [simp]: "motor (stop_leave_section s) j = motor s j"
  by (simp add: stop_leave_section_def)

lemma motor_inv_stop_enter:
  "stop_enter_section inhibit s = Some s1 \<Longrightarrow> motor_inv kc s \<Longrightarrow> motor_inv kc s1"
  using stop_enter_motor by (intro motor_inv_cong [of kc s s1]) auto

text \<open>A whole stop, cut at the end of its sweep.\<close>

lemma stop_all_internal_cut:
  assumes "stop_all_internal kc ops clear inhibit rb s h = (e, s', h')"
    and "stop_enter_section inhibit s = Some s1" and "motor_inv kc s" and "0 < CONFIG_RMT_ERROR_LIMIT kc"
  obtains prev gens s2 s3 h1 h2 where
    "stop_commit_section clear inhibit s1 = (controlled s, prev, gens, s2)"
    "stop_apply_loop kc ops rb prev gens [0..<controlled s] ESP_OK s2 h1 = (e, s3, h2)"
    "motor_inv kc s2" "controlled s \<le> 4" "\<forall>i \<in> set [0..<controlled s]. i < 4 \<and> prev ! i \<le> 100"
    "frame_ok (stop_leave_section s3) s'" "s_rmt_inhibited s' = s_rmt_inhibited s3" "\<And>j. motor s' j = motor s3 j"
proof -
  note S1 = stop_enter_motor [OF assms(2)]
  have c1: "controlled s1 = controlled s" using S1 by (simp add: controlled_def)
  let ?h1 = "case s_stop_mutex s1 of None \<Rightarrow> h | Some x \<Rightarrow> snd (op_sem_take ops x None h)"
  obtain n prev gens s2 where c: "stop_commit_section clear inhibit s1 = (n, prev, gens, s2)"
    by (metis prod_cases4)
  then have n: "n = controlled s" using c1 by (auto simp: stop_commit_section_def Let_def controlled_def)
  obtain e3 s3 h2 where l: "stop_apply_loop kc ops rb prev gens [0..<n] ESP_OK s2 ?h1 = (e3, s3, h2)"
    by (metis prod_cases3)
  let ?s4 = "stop_leave_section s3"
  let ?s5 = "if inhibit \<noteq> STOP_INHIBIT_NONE then emit_event MOTOR_CONTROL_EVENT_INHIBIT_CHANGED (-1) ?s4 else ?s4"
  have s': "s' = fold (\<lambda>i. emit_event MOTOR_CONTROL_EVENT_APPLIED_CHANGED (int i)) [0..<n] ?s5" and e: "e3 = e"
    using assms(1,2) c l by (simp_all add: stop_all_internal_def Let_def)
  have inv1: "motor_inv kc s1" using motor_inv_stop_enter assms(2,3) by blast
  have inv2: "motor_inv kc s2" using stop_commit_inv [OF inv1, of clear inhibit] c by simp
  have n4: "n \<le> 4" using assms(3) by (simp add: n controlled_def motor_inv_def)
  have "prev ! i \<le> 100" if "i < n" for i
  proof -
    have "prev ! i = mc_current_pct (motor s1 i)"
      using c that by (auto simp: stop_commit_section_def Let_def motor_def)
    then show ?thesis using inv1 that n4 by (simp add: motor_inv_def context_inv_def)
  qed
  then have p: "\<forall>i \<in> set [0..<controlled s]. i < 4 \<and> prev ! i \<le> 100" using n n4 by auto
  have f: "frame_ok ?s4 s'" by (simp add: s')
  have m: "motor s' j = motor s3 j" for j by (simp add: s' motor_events)
  have r: "s_rmt_inhibited s' = s_rmt_inhibited s3" by (simp add: s' rmt_events stop_leave_section_def)
  show ?thesis using that [of prev gens s2 ?h1 s3 h2] c l e n n4 inv2 p f m r by simp
qed

section \<open>What a stop achieves\<close>

lemma u32_inc_nonzero:
  assumes "(x :: u32) \<noteq> 0xFFFFFFFF"
  shows "x + 1 \<noteq> 0"
proof
  assume "x + 1 = 0"
  then have "x = - 1" by (simp only: eq_neg_iff_add_eq_0)
  also have "- 1 = (0xFFFFFFFF :: u32)" by simp
  finally show False using assms by contradiction
qed

lemma stop_commit_fields:
  assumes "stop_commit_section clear inhibit s = (n, prev, gens, s2)"
  shows "s_global_inhibited s2 \<longleftrightarrow> s_global_inhibited s \<or> inhibit = STOP_INHIBIT_GLOBAL"
    and "s_communication_inhibited s2 \<longleftrightarrow> s_communication_inhibited s \<or> inhibit = STOP_INHIBIT_COMMUNICATION"
    and "s_stop_depth s2 = s_stop_depth s" and "s_maintenance_depth s2 = s_maintenance_depth s"
    and "s_min_spin_pct s2 = s_min_spin_pct s"
proof -
  have "s2 = fold (\<lambda>i. upd_motor i (stop_motor clear inhibit)) [0..<controlled s] (stop_latched inhibit s)"
    using assms stop_commit_state [of clear inhibit s] by simp
  then show "s_global_inhibited s2 \<longleftrightarrow> s_global_inhibited s \<or> inhibit = STOP_INHIBIT_GLOBAL"
    "s_communication_inhibited s2 \<longleftrightarrow> s_communication_inhibited s \<or> inhibit = STOP_INHIBIT_COMMUNICATION"
    "s_stop_depth s2 = s_stop_depth s" "s_maintenance_depth s2 = s_maintenance_depth s"
    "s_min_spin_pct s2 = s_min_spin_pct s"
    by (simp_all add: fold_upd_motor_fields [where f = "\<lambda>_. stop_motor clear inhibit"] stop_latched_def)
qed

lemma effective_pct_0 [simp]: "controller_effective_pct 0 ms = 0"
  by (simp add: controller_effective_pct_def)

lemma stop_all_effect:
  assumes "stop_all_internal kc ops clear inhibit rb s h = (e, s', h')" and "motor_inv kc s"
    and "0 < CONFIG_RMT_ERROR_LIMIT kc" and "stop_enter_section inhibit s \<noteq> None"
  shows "(\<forall>i < 4. mc_target_pct (motor s' i) = 0) \<and>
    (\<forall>i < controlled s. (clear \<longrightarrow> mc_manual_target_pct (motor s' i) = 0) \<and>
       (inhibit = STOP_INHIBIT_TACH_ALL \<longrightarrow> mc_tach_inhibited (motor s' i))) \<and>
    (s_global_inhibited s' \<longleftrightarrow> s_global_inhibited s \<or> inhibit = STOP_INHIBIT_GLOBAL) \<and>
    (s_communication_inhibited s' \<longleftrightarrow> s_communication_inhibited s \<or> inhibit = STOP_INHIBIT_COMMUNICATION) \<and>
    s_maintenance_depth s' = s_maintenance_depth s + (if inhibit = STOP_INHIBIT_MAINTENANCE then 1 else 0) \<and>
    s_stop_depth s' = s_stop_depth s \<and>
    (e = ESP_OK \<longrightarrow> (\<forall>i < controlled s. mc_active (motor s' i) \<and> mc_channel_enabled (motor s' i) \<and>
       mc_tx_payload (motor s' i) = zero_throttle \<and> mc_current_pct (motor s' i) = 0 \<and>
       mc_applied_pct (motor s' i) = 0))"
proof -
  obtain s1 where en: "stop_enter_section inhibit s = Some s1" using assms(4) by blast
  from stop_all_internal_cut [OF assms(1) en assms(2,3)] obtain prev gens s2 s3 h1 h2 where
    c: "stop_commit_section clear inhibit s1 = (controlled s, prev, gens, s2)"
    and l: "stop_apply_loop kc ops rb prev gens [0..<controlled s] ESP_OK s2 h1 = (e, s3, h2)"
    and inv2: "motor_inv kc s2" and n4: "controlled s \<le> 4"
    and p: "\<forall>i \<in> set [0..<controlled s]. i < 4 \<and> prev ! i \<le> 100"
    and f: "frame_ok (stop_leave_section s3) s'" and m: "\<And>j. motor s' j = motor s3 j" by metis
  note E = stop_enter_motor [OF en]
  have inv1: "motor_inv kc s1" using motor_inv_stop_enter [OF en assms(2)] .
  have c1: "controlled s1 = controlled s" using E by (simp add: controlled_def)
  note L = stop_apply_loop_frame [OF l inv2 assms(3) p]
  have s2m: "motor s2 j = stop_motor clear inhibit (motor s1 j)" if "j < controlled s" for j
    using stop_commit_motor [OF inv1, of clear inhibit j] c c1 that by simp
  have t2: "mc_target_pct (motor s2 j) = 0" if "j < 4" for j
    using stop_commit_targets [OF inv1 that, of clear inhibit] c by simp
  have targets: "\<forall>i < 4. mc_target_pct (motor s' i) = 0" using L t2 m by metis
  have manual: "\<forall>i < controlled s. (clear \<longrightarrow> mc_manual_target_pct (motor s' i) = 0) \<and>
       (inhibit = STOP_INHIBIT_TACH_ALL \<longrightarrow> mc_tach_inhibited (motor s' i))"
    using L s2m m by (simp add: stop_motor_def)
  note C = stop_commit_fields [OF c]
  have d: "s_stop_depth s3 = s_stop_depth s + 1" "s_maintenance_depth s3 = s_maintenance_depth s1"
    "s_global_inhibited s3 = s_global_inhibited s2" "s_communication_inhibited s3 = s_communication_inhibited s2"
    using L C E by (simp_all add: frame_ok_def)
  have "s_stop_depth s3 \<noteq> 0" using E unfolding d(1) UINT32_MAX_def by (intro u32_inc_nonzero) blast
  then have depth: "s_stop_depth s' = s_stop_depth s" using f d by (simp add: frame_ok_def stop_leave_section_def word_neq_0_conv)
  have flags: "s_global_inhibited s' = s_global_inhibited s2" "s_communication_inhibited s' = s_communication_inhibited s2"
    "s_maintenance_depth s' = s_maintenance_depth s1"
    using f d by (simp_all add: frame_ok_def stop_leave_section_def)
  have ok: "mc_active (motor s' i) \<and> mc_channel_enabled (motor s' i) \<and> mc_tx_payload (motor s' i) = zero_throttle \<and>
      mc_current_pct (motor s' i) = 0 \<and> mc_applied_pct (motor s' i) = 0" if "e = ESP_OK" "i < controlled s" for i
  proof -
    have S: "output_sending (s_min_spin_pct s2) (motor s3 i)" "mc_current_pct (motor s3 i) = 0"
      "mc_throttle (motor s3 i) = zero_throttle"
      using stop_apply_loop_ok [OF l [unfolded that(1)] inv2 assms(3) p] that(2) s2m by (auto simp: stop_motor_def)
    have "io_ok (motor s3 i)" using L that(2) n4 by (simp add: motor_inv_def context_inv_def)
    then show ?thesis using output_sending_payload [OF S(1)] S m by (simp add: output_sending_def)
  qed
  show ?thesis using targets manual C flags depth E ok by simp
qed



section \<open>Every interleaving\<close>

text \<open>C3. Whatever tasks interleave with the operations of the module, and however initialisation
  went, in every reachable state each output keeps its safety envelope: its percentages are
  percentages, its throttle is the stop command exactly when its current percentage is zero
  and otherwise a legal DShot throttle (48 to 2047, never one of the special commands), what
  its running channel repeats is the frame recorded for it, an output that is latched, inhibited
  or not controlled has no target, and enough consecutive failures have latched it.\<close>

theorem motor_outputs_always_safe:
  assumes "motor_reachable kc ops s" and "0 < CONFIG_RMT_ERROR_LIMIT kc" and "i < 4"
  shows "uint (mc_target_pct (motor s i)) \<le> 100 \<and> uint (mc_current_pct (motor s i)) \<le> 100 \<and>
    uint (mc_applied_pct (motor s i)) \<le> 100 \<and>
    (if mc_current_pct (motor s i) = 0 then mc_throttle (motor s i) = zero_throttle
     else 48 \<le> unat (thr_throttle (mc_throttle (motor s i))) \<and> unat (thr_throttle (mc_throttle (motor s i))) \<le> 2047) \<and>
    (mc_active (motor s i) \<and> mc_channel_enabled (motor s i) \<longrightarrow>
       mc_last_dshot (motor s i) = dshot_composite (mc_tx_payload (motor s i))) \<and>
    (mc_rmt_fault_latched (motor s i) \<or> mc_tach_inhibited (motor s i) \<or> s_global_inhibited s \<or>
       s_communication_inhibited s \<or> s_lifecycle s \<noteq> MOTOR_LIFECYCLE_READY \<or> s_fan_count s \<le> i \<longrightarrow>
       mc_target_pct (motor s i) = 0) \<and>
    (CONFIG_RMT_ERROR_LIMIT kc \<le> mc_rmt_error_consecutive (motor s i) \<longrightarrow>
       mc_rmt_fault_latched (motor s i) \<and> s_rmt_inhibited s)"
proof -
  have inv: "motor_inv kc s" using assms(1,2) by (rule reachable_inv)
  define m where "m = motor s i"
  have C: "context_inv (CONFIG_RMT_ERROR_LIMIT kc) (s_min_spin_pct s) m"
    using inv assms(3) by (simp add: motor_inv_def m_def)
  have T: "mc_throttle m = \<lparr>thr_throttle = controller_pct_to_dshot (mc_current_pct m) (s_min_spin_pct s),
      thr_telemetry_req = False\<rparr>" using C by (simp add: context_inv_def)
  have "if mc_current_pct m = 0 then mc_throttle m = zero_throttle
     else 48 \<le> unat (thr_throttle (mc_throttle m)) \<and> unat (thr_throttle (mc_throttle m)) \<le> 2047"
  proof (cases "mc_current_pct m = 0")
    case True
    then show ?thesis using T zero_throttle_dshot by simp
  next
    case False
    have "unat (controller_effective_pct (mc_current_pct m) (s_min_spin_pct s)) \<le> 100"
      using effective_pct_le_100 [of "mc_current_pct m" "s_min_spin_pct s"] by (simp add: word_le_nat_alt)
    then have "unat (controller_effective_pct (mc_current_pct m) (s_min_spin_pct s)) * 1999 div 100 \<le> 1999"
      by simp
    with False show ?thesis using T pct_to_dshot_unat [of "mc_current_pct m" "s_min_spin_pct s"]
        pct_to_dshot_0_iff [of "mc_current_pct m" "s_min_spin_pct s"] by simp
  qed
  moreover have "mc_target_pct m = 0" if "s_global_inhibited s \<or> s_communication_inhibited s \<or>
      s_lifecycle s \<noteq> MOTOR_LIFECYCLE_READY \<or> s_fan_count s \<le> i"
    using that inv assms(3) by (auto simp: motor_inv_def all_targets_zero_def m_def)
  moreover have "mc_rmt_fault_latched m \<Longrightarrow> s_rmt_inhibited s"
    using inv assms(3) by (auto simp: motor_inv_def m_def)
  ultimately show ?thesis
    using C unfolding m_def [symmetric] by (auto simp: context_inv_def io_ok_def pct_le_100_uint)
qed

theorem motor_outputs_always_safe_witness:
  "mc_current_pct (motor sim_ready 0) = 0 \<and> mc_throttle (motor sim_ready 0) = zero_throttle"
  using motor_outputs_always_safe [OF sim_ready_reachable sim_limit, of 0]
  by (simp add: sim_ready_value sim_state_def sim_started_def motor_def motor_zero_def)

text \<open>A step of the module's tasks, or another call of the initialisation.\<close>

inductive motor_move :: "motor_kconfig \<Rightarrow> 'h motor_ops \<Rightarrow> motor_state \<Rightarrow> motor_state \<Rightarrow> bool" for kc ops where
  move_step: "motor_step kc s s' \<Longrightarrow> motor_move kc ops s s'"
| move_init: "motor_control_init kc ops config s h = (e, s', h') \<Longrightarrow> motor_move kc ops s s'"

lemma fold_upd_lifecycle:
  "s_lifecycle (fold (\<lambda>i. upd_motor i (f i)) is s) = s_lifecycle s"
  "s_global_inhibited (fold (\<lambda>i. upd_motor i (f i)) is s) = s_global_inhibited s"
  by (simp_all add: fold_upd_motor_fields)

lemma motor_step_lifecycle:
  "motor_step kc s s' \<Longrightarrow> s_lifecycle s' = s_lifecycle s \<and> (s_global_inhibited s \<longrightarrow> s_global_inhibited s')"
proof (induction rule: motor_step.induct)
  case (step_stop_commit s clear inhibit)
  show ?case unfolding stop_commit_state
    by (simp add: fold_upd_lifecycle [where f = "\<lambda>_. stop_motor clear inhibit"]) (simp add: stop_latched_def)
next
  case (step_restore s targets)
  show ?case by (simp add: restore_section_def fold_upd_lifecycle [where f = "\<lambda>i m. m\<lparr>mc_manual_target_pct := targets ! i,
      mc_target_pct := targets ! i\<rparr>"])
qed (auto simp: apply_read_section_def refresh_section_def record_result_section_def stop_enter_section_def
    rollback_section_def stop_leave_section_def ramp_advance_section_def ramp_report_section_def
    manual_section_def automatic_section_def stop_one_section_def tach_inhibit_section_def
    clear_maintenance_section_def motor_control_take_rmt_fault_pending_def Let_def split: if_splits)

lemma motor_move_inv:
  "motor_move kc ops s s' \<Longrightarrow> motor_inv kc s \<Longrightarrow> 0 < CONFIG_RMT_ERROR_LIMIT kc \<Longrightarrow> motor_inv kc s'"
  by (induction rule: motor_move.induct) (blast intro: motor_step_inv dest: motor_control_init_spec)+

lemma motor_move_lifecycle:
  assumes "motor_move kc ops s s'" and "s_lifecycle s = MOTOR_LIFECYCLE_READY \<or> s_lifecycle s = MOTOR_LIFECYCLE_FAILED"
  shows "s_lifecycle s' = s_lifecycle s \<and> (s_global_inhibited s \<longrightarrow> s_global_inhibited s')"
  using assms
proof (induction rule: motor_move.induct)
  case (move_step s s')
  then show ?case by (blast dest: motor_step_lifecycle)
next
  case (move_init config s h e s' h')
  then have "s' = s" by (auto simp: motor_control_init_def split: option.splits if_splits)
  then show ?case by simp
qed

text \<open>C5. A global inhibit is final: once it is latched in a ready or failed controller, no sequence
  of operations of any tasks, and no second initialisation, ever lifts it or gives any output
  a target again.\<close>

theorem global_inhibit_is_final:
  assumes "(motor_move kc ops)\<^sup>*\<^sup>* s s'" and "motor_reachable kc ops s" and "0 < CONFIG_RMT_ERROR_LIMIT kc"
    and "s_global_inhibited s" and "s_lifecycle s \<in> {MOTOR_LIFECYCLE_READY, MOTOR_LIFECYCLE_FAILED}"
  shows "s_global_inhibited s' \<and> s_lifecycle s' = s_lifecycle s \<and> (\<forall>i < 4. mc_target_pct (motor s' i) = 0)"
proof -
  have "motor_inv kc s" using assms(2,3) by (rule reachable_inv)
  with assms(1) have "motor_inv kc s' \<and> s_global_inhibited s' \<and> s_lifecycle s' = s_lifecycle s"
  proof (induction rule: rtranclp_induct)
    case base
    then show ?case using assms(4) by simp
  next
    case (step s1 s2)
    then show ?case
      using motor_move_lifecycle [OF step.hyps(2)] motor_move_inv [OF step.hyps(2)] assms(3,5) by auto
  qed
  then show ?thesis by (auto simp: motor_inv_def all_targets_zero_def)
qed

lemma steps_reachable:
  "motor_steps kc s s' \<Longrightarrow> motor_reachable kc ops s \<Longrightarrow> motor_reachable kc ops s'"
  by (induction rule: rtranclp_induct) (auto intro: motor_reachable.step)

lemma run_call_reachable:
  assumes "motor_reachable kc ops s" and "0 < CONFIG_RMT_ERROR_LIMIT kc"
  shows "motor_reachable kc ops (fst (run_call kc ops' c s h))"
  using run_call_steps [OF reachable_inv [OF assms] assms(2)] assms(1) by (rule steps_reachable)

lemma steps_moves: "motor_steps kc s s' \<Longrightarrow> (motor_move kc ops)\<^sup>*\<^sup>* s s'"
  by (induction rule: rtranclp_induct) (auto intro: move_step rtranclp.rtrancl_into_rtrancl)

theorem global_inhibit_is_final_witness:
  "\<exists>s s'. motor_reachable sim_kconfig sim_ops s \<and> s_global_inhibited s \<and> (motor_move sim_kconfig sim_ops)\<^sup>*\<^sup>* s s' \<and>
     s' \<noteq> s \<and> s_global_inhibited s' \<and> mc_target_pct (motor s' 0) = 0"
proof -
  define s where "s = fst (run_call sim_kconfig sim_ops (Call_Stop_All True STOP_INHIBIT_GLOBAL False) sim_ready [])"
  define s' where "s' = fst (run_call sim_kconfig sim_ops (Call_Set_Ramp_Paused True) s [])"
  have r: "motor_reachable sim_kconfig sim_ops s"
    unfolding s_def using sim_ready_reachable sim_limit by (rule run_call_reachable)
  have m: "(motor_move sim_kconfig sim_ops)\<^sup>*\<^sup>* s s'"
    unfolding s'_def using run_call_steps [OF reachable_inv [OF r sim_limit] sim_limit] by (rule steps_moves)
  have "s_global_inhibited s \<and> s_lifecycle s = MOTOR_LIFECYCLE_READY \<and> \<not> s_ramp_paused s"
    unfolding s_def by code_simp
  then have f: "s_global_inhibited s" "s_lifecycle s \<in> {MOTOR_LIFECYCLE_READY, MOTOR_LIFECYCLE_FAILED}"
    "\<not> s_ramp_paused s" by simp_all
  from f(3) have "s' \<noteq> s" by (auto simp: s'_def motor_control_set_ramp_paused_def dest: arg_cong [where f = s_ramp_paused])
  then show ?thesis using global_inhibit_is_final [OF m r sim_limit f(1,2)] r m f(1)
    by (intro exI [of _ s] exI [of _ s']) simp
qed



text \<open>C7. Initialisation is a transaction. A call that is not entitled to initialise (a bad
  configuration, or any but the first success) changes nothing. Otherwise it either succeeds
  with the controller ready and every fan's channel enabled and transmitting the zero
  command, or it fails and then either every resource is released and the module is back in
  its boot state, ready to be initialised again, or, when a driver refused to release
  something, the failure is terminal: globally inhibited with every output at zero.\<close>

theorem motor_init_transactional:
  assumes "motor_reachable kc ops s" and "0 < CONFIG_RMT_ERROR_LIMIT kc"
    and "motor_control_init kc ops config s h = (e, s', h')"
  shows "s' = s \<and> e \<noteq> ESP_OK \<or>
    (\<exists>c. config = Some c \<and> motor_config_ok c \<and> s_lifecycle s = MOTOR_LIFECYCLE_UNINITIALIZED \<and>
      (if e = ESP_OK then s_lifecycle s' = MOTOR_LIFECYCLE_READY \<and> int (s_fan_count s') = fan_count c \<and>
         s_initialized_fan_count s' = s_fan_count s' \<and> (\<forall>i < s_fan_count s'. output_started (motor s' i))
       else rolled_back s' \<or> failed_terminal s'))"
  using motor_control_init_spec [OF reachable_inv [OF assms(1,2)] assms(3,2)] by blast

theorem motor_init_transactional_witness:
  "\<exists>s' h'. motor_control_init sim_kconfig sim_ops (Some sim_config) motor_state_boot [True, False] = (ESP_FAIL, s', h') \<and>
     rolled_back s'"
proof -
  obtain e s' h' where r: "motor_control_init sim_kconfig sim_ops (Some sim_config) motor_state_boot [True, False]
      = (e, s', h')" by (metis prod_cases3)
  have "fst (motor_control_init sim_kconfig sim_ops (Some sim_config) motor_state_boot [True, False]) = ESP_FAIL \<and>
    s_global_inhibited (fst (snd (motor_control_init sim_kconfig sim_ops (Some sim_config) motor_state_boot [True, False]))) = False \<and>
    s_stop_mutex (fst (snd (motor_control_init sim_kconfig sim_ops (Some sim_config) motor_state_boot [True, False]))) = None \<and>
    s_lifecycle (fst (snd (motor_control_init sim_kconfig sim_ops (Some sim_config) motor_state_boot [True, False])))
      = MOTOR_LIFECYCLE_UNINITIALIZED"
    by code_simp
  then have f: "e = ESP_FAIL" "\<not> s_global_inhibited s'" "s_lifecycle s' = MOTOR_LIFECYCLE_UNINITIALIZED"
    "s_stop_mutex s' = None" using r by auto
  have "motor_state_boot \<noteq> s' \<or> rolled_back s'"
    by (auto simp: rolled_back_def motor_state_boot_def motor_def MOTOR_CONTROL_MAX_FANS_def APP_CONFIG_MAX_FANS_def)
  then show ?thesis
    using motor_init_transactional [OF motor_reachable.boot sim_limit r] r f by (auto simp: failed_terminal_def)
qed

section \<open>One application\<close>

text \<open>A successful application puts exactly the output's throttle on the wire: the channel is
  enabled and repeating that payload, the recorded frame is its composite, the applied
  percentage is the effective one of the current percentage (zero exactly when that is zero)
  and the failure counter is reset. No other output and no inhibit is touched.\<close>

theorem apply_motor_on_the_wire:
  assumes "apply_motor kc ops i s h = (ESP_OK, s', h')" and "motor_inv kc s"
    and "0 < CONFIG_RMT_ERROR_LIMIT kc" and "i < 4"
  shows "mc_active (motor s' i) \<and> mc_channel_enabled (motor s' i) \<and>
    mc_tx_payload (motor s' i) = mc_throttle (motor s i) \<and>
    mc_last_dshot (motor s' i) = dshot_composite (mc_throttle (motor s i)) \<and>
    mc_applied_pct (motor s' i) = controller_effective_pct (mc_current_pct (motor s i)) (s_min_spin_pct s) \<and>
    mc_target_pct (motor s' i) = mc_target_pct (motor s i) \<and> mc_rmt_error_consecutive (motor s' i) = 0 \<and>
    (\<forall>j. j \<noteq> i \<longrightarrow> motor s' j = motor s j) \<and> s_lifecycle s' = s_lifecycle s \<and> s_rmt_inhibited s' = s_rmt_inhibited s \<and>
    s_global_inhibited s' = s_global_inhibited s \<and> s_stop_depth s' = s_stop_depth s"
proof -
  note E = apply_motor_effect [OF assms(2,4,1)]
  have "motor_inv kc s'" using apply_motor_steps [OF assms(1)] assms(2,3) by (rule motor_steps_inv)
  then have "io_ok (motor s' i)" using assms(4) by (simp add: motor_inv_def context_inv_def)
  then have "mc_tx_payload (motor s' i) = mc_throttle (motor s i)"
    using E(4) by (simp add: io_ok_def dshot_composite_inj)
  then show ?thesis using E(1,2) E(4) by (simp add: frame_ok_def)
qed

theorem apply_motor_on_the_wire_witness:
  "\<exists>s' h'. apply_motor sim_kconfig sim_ops 0 sim_running [] = (ESP_OK, s', h') \<and>
     thr_throttle (mc_tx_payload (motor s' 0)) = 347 \<and> mc_applied_pct (motor s' 0) = 15"
proof -
  obtain e s' h' where r: "apply_motor sim_kconfig sim_ops 0 sim_running [] = (e, s', h')" by (metis prod_cases3)
  have "fst (apply_motor sim_kconfig sim_ops 0 sim_running []) = ESP_OK \<and>
    thr_throttle (mc_throttle (motor sim_running 0)) = 347 \<and>
    controller_effective_pct (mc_current_pct (motor sim_running 0)) (s_min_spin_pct sim_running) = 15"
    by code_simp
  then have f: "e = ESP_OK" "thr_throttle (mc_throttle (motor sim_running 0)) = 347"
    "controller_effective_pct (mc_current_pct (motor sim_running 0)) (s_min_spin_pct sim_running) = 15"
    using r by simp_all
  from apply_motor_on_the_wire [OF r [unfolded f(1)] sim_running_inv sim_limit, simplified] r f
  show ?thesis by simp
qed

end
