(* ===== verification/Motor_Behaviour.thy ===== *)
theory Motor_Behaviour imports Motor_Properties
begin

text \<open>
  The functional behaviour of the motor controller's parts over time: exactly when the fault latch
  of an output closes.
\<close>

section \<open>The fault latch\<close>

text \<open>The results of a sequence of applications of one output, recorded in order; each comes with
  the percentage it stands for and the clock.\<close>

definition record_results :: "motor_kconfig \<Rightarrow> nat \<Rightarrow> (esp_err \<times> u8 \<times> int) list \<Rightarrow> motor_state \<Rightarrow> motor_state" where
  "record_results kc i es = fold (\<lambda>(e, applied, now). snd \<circ> record_result_section kc i e applied now) es"

definition trailing_failures :: "(esp_err \<times> u8 \<times> int) list \<Rightarrow> nat" where
  "trailing_failures es = length (takeWhile (\<lambda>e. fst e \<noteq> ESP_OK) (rev es))"

text \<open>\<open>n\<close> failures one after the other occur somewhere in the sequence.\<close>

definition failure_run :: "nat \<Rightarrow> (esp_err \<times> u8 \<times> int) list \<Rightarrow> bool" where
  "failure_run n es \<longleftrightarrow> (\<exists>a b c. es = a @ b @ c \<and> length b = n \<and> (\<forall>e \<in> set b. fst e \<noteq> ESP_OK))"

lemma trailing_snoc: "trailing_failures (es @ [e]) = (if fst e = ESP_OK then 0 else Suc (trailing_failures es))"
  by (simp add: trailing_failures_def)

lemma takeWhile_length_ge:
  "n \<le> length (takeWhile P xs) \<longleftrightarrow> (\<exists>a b. xs = a @ b \<and> length a = n \<and> (\<forall>x \<in> set a. P x))"
proof
  assume n: "n \<le> length (takeWhile P xs)"
  have "take n xs = take n (takeWhile P xs @ dropWhile P xs)" by simp
  also have "\<dots> = take n (takeWhile P xs)" using n by (simp only: take_append) simp
  finally have "take n xs = take n (takeWhile P xs)" .
  then have "\<forall>x \<in> set (take n xs). P x" by (auto dest!: in_set_takeD set_takeWhileD)
  moreover have "length (take n xs) = n" using n length_takeWhile_le [of P xs] by simp
  ultimately show "\<exists>a b. xs = a @ b \<and> length a = n \<and> (\<forall>x \<in> set a. P x)"
    by (intro exI [of _ "take n xs"] exI [of _ "drop n xs"]) simp
next
  assume "\<exists>a b. xs = a @ b \<and> length a = n \<and> (\<forall>x \<in> set a. P x)"
  then obtain a b where ab: "xs = a @ b" "length a = n" "\<forall>x \<in> set a. P x" by blast
  then have "takeWhile P xs = a @ takeWhile P b" by (simp add: takeWhile_append2)
  then show "n \<le> length (takeWhile P xs)" using ab by simp
qed

lemma trailing_failures_ge:
  "n \<le> trailing_failures es \<longleftrightarrow> (\<exists>a b. es = a @ b \<and> length b = n \<and> (\<forall>e \<in> set b. fst e \<noteq> ESP_OK))"
proof -
  have "es = rev b @ rev a" if "rev es = a @ b" for a b
    using that by (metis rev_append rev_rev_ident)
  then have "(\<exists>a b. rev es = a @ b \<and> length a = n \<and> (\<forall>x \<in> set a. fst x \<noteq> ESP_OK)) \<Longrightarrow>
    (\<exists>a b. es = a @ b \<and> length b = n \<and> (\<forall>e \<in> set b. fst e \<noteq> ESP_OK))"
    by (metis length_rev set_rev)
  moreover have "(\<exists>a b. rev es = a @ b \<and> length a = n \<and> (\<forall>x \<in> set a. fst x \<noteq> ESP_OK))"
    if "es = a @ b" "length b = n" "\<forall>e \<in> set b. fst e \<noteq> ESP_OK" for a b
    using that by (intro exI [of _ "rev b"] exI [of _ "rev a"]) simp
  ultimately show ?thesis unfolding trailing_failures_def takeWhile_length_ge by blast
qed

lemma failure_run_snoc:
  "failure_run n (es @ [e]) \<longleftrightarrow> failure_run n es \<or> n \<le> trailing_failures (es @ [e])"
proof -
  let ?all = "\<lambda>b :: (esp_err \<times> u8 \<times> int) list. length b = n \<and> (\<forall>e \<in> set b. fst e \<noteq> ESP_OK)"
  have "failure_run n es \<or> n \<le> trailing_failures (es @ [e])" if h: "es @ [e] = a @ b @ c" "?all b" for a b c
  proof (cases c rule: rev_cases)
    case Nil
    then show ?thesis unfolding trailing_failures_ge using h by auto
  next
    case (snoc c' x)
    then have "es = a @ b @ c'" using h(1) by (metis append.assoc append1_eq_conv)
    then show ?thesis unfolding failure_run_def using h(2) by blast
  qed
  moreover have "failure_run n (es @ [e])" if "es = a @ b @ c" "?all b" for a b c
    unfolding failure_run_def using that by (intro exI [of _ a] exI [of _ b] exI [of _ "c @ [e]"]) simp
  moreover have "failure_run n (es @ [e])" if "es @ [e] = a @ b" "?all b" for a b
    unfolding failure_run_def using that by (intro exI [of _ a] exI [of _ b] exI [of _ "[]"]) simp
  moreover obtain a b c where "es @ [e] = a @ b @ c" "?all b" if "failure_run n (es @ [e])"
    unfolding failure_run_def by blast
  moreover obtain a b c where "es = a @ b @ c" "?all b" if "failure_run n es"
    unfolding failure_run_def by blast
  moreover obtain a b where "es @ [e] = a @ b" "?all b" if "n \<le> trailing_failures (es @ [e])"
    unfolding trailing_failures_ge by blast
  ultimately show ?thesis by metis
qed

lemma saturating_inc:
  "(if (of_nat (min t 65535) :: u16) < UINT16_MAX then of_nat (min t 65535) + 1 else of_nat (min t 65535)) =
   (of_nat (min (Suc t) 65535) :: u16)"
proof (cases "t < 65535")
  case True
  then have "(of_nat t :: u16) < UINT16_MAX"
    by (simp add: UINT16_MAX_def word_less_nat_alt unat_of_nat_small)
  then show ?thesis using True by (simp add: min_def)
next
  case False
  then show ?thesis by (simp add: min_def UINT16_MAX_def)
qed

lemma record_results_snoc:
  "record_results kc i (es @ [e]) s =
     snd (record_result_section kc i (fst e) (fst (snd e)) (snd (snd e)) (record_results kc i es s))"
  by (cases e) (simp add: record_results_def)

lemma record_results_length [simp]: "length (s_motors (record_results kc i es s)) = length (s_motors s)"
  by (induction es rule: rev_induct) (simp_all add: record_results_snoc, simp add: record_results_def,
      simp add: record_result_section_def Let_def)

lemma of_nat_min_ge: "limit \<le> (of_nat (min t 65535) :: u16) \<longleftrightarrow> unat limit \<le> t"
proof -
  have "unat (of_nat (min t 65535) :: u16) = min t 65535" by (simp add: unat_of_nat_small)
  moreover have "unat limit \<le> 65535" using unsigned_less [of limit, where 'a = nat] by simp
  ultimately show ?thesis by (simp add: word_le_nat_alt)
qed

text \<open>The fault latch closes exactly after the configured number of consecutive failures. For
  any sequence of results of an output that starts clean, the failure counter is the number of
  failures since the last success (saturating at 65535), and the output is latched if and only
  if somewhere in the sequence \<open>CONFIG_RMT_ERROR_LIMIT\<close> failures followed each other; a
  latch is never undone by later successes.\<close>

theorem fault_latch_exact:
  assumes "i < length (s_motors s)" and "mc_rmt_error_consecutive (motor s i) = 0"
    and "\<not> mc_rmt_fault_latched (motor s i)" and "0 < CONFIG_RMT_ERROR_LIMIT kc"
  shows "mc_rmt_error_consecutive (motor (record_results kc i es s) i) = of_nat (min (trailing_failures es) 65535) \<and>
    (mc_rmt_fault_latched (motor (record_results kc i es s) i) \<longleftrightarrow>
       failure_run (unat (CONFIG_RMT_ERROR_LIMIT kc)) es)"
proof (induction es rule: rev_induct)
  case Nil
  have "0 < unat (CONFIG_RMT_ERROR_LIMIT kc)" using assms(4) by (simp add: word_less_nat_alt)
  then have "\<not> failure_run (unat (CONFIG_RMT_ERROR_LIMIT kc)) []" by (auto simp: failure_run_def)
  then show ?case using assms by (simp add: record_results_def trailing_failures_def)
next
  case (snoc e es)
  let ?s = "record_results kc i es s"
  let ?limit = "CONFIG_RMT_ERROR_LIMIT kc"
  have len: "i < length (s_motors ?s)" using assms(1) by simp
  show ?case
  proof (cases "fst e = ESP_OK")
    case True
    have "0 < unat ?limit" using assms(4) by (simp add: word_less_nat_alt)
    then show ?thesis
      using snoc True unfolding record_results_snoc motor_record_same [OF len] failure_run_snoc
      by (simp add: record_success_def Let_def trailing_snoc)
  next
    case False
    have c: "(if mc_rmt_error_consecutive (motor ?s i) < UINT16_MAX then mc_rmt_error_consecutive (motor ?s i) + 1
        else mc_rmt_error_consecutive (motor ?s i)) = of_nat (min (Suc (trailing_failures es)) 65535)"
      unfolding conjunct1 [OF snoc] by (rule saturating_inc)
    show ?thesis
      using False conjunct2 [OF snoc]
      unfolding record_results_snoc motor_record_same [OF len] failure_run_snoc record_failure_def Let_def c
        trailing_snoc of_nat_min_ge
      by (simp del: of_nat_Suc)
  qed
qed

theorem fault_latch_exact_witness:
  "mc_rmt_fault_latched (motor (record_results sim_kconfig 0
     [(ESP_FAIL, 0, 0), (ESP_FAIL, 0, 0), (ESP_OK, 15, 7), (ESP_FAIL, 0, 0), (ESP_FAIL, 0, 0), (ESP_FAIL, 0, 0), (ESP_OK, 0, 0)]
     sim_running) 0)"
proof -
  have "0 < length (s_motors sim_running) \<and> mc_rmt_error_consecutive (motor sim_running 0) = 0 \<and>
    \<not> mc_rmt_fault_latched (motor sim_running 0) \<and> unat (CONFIG_RMT_ERROR_LIMIT sim_kconfig) = 3" by code_simp
  moreover have "failure_run 3 [(ESP_FAIL, 0, 0), (ESP_FAIL, 0, 0), (ESP_OK, 15, 7), (ESP_FAIL, 0, 0), (ESP_FAIL, 0, 0),
      (ESP_FAIL, 0, 0), (ESP_OK, 0, 0)]"
    unfolding failure_run_def
    by (intro exI [of _ "[(ESP_FAIL, 0, 0), (ESP_FAIL, 0, 0), (ESP_OK, 15, 7)]"]
        exI [of _ "[(ESP_FAIL, 0, 0), (ESP_FAIL, 0, 0), (ESP_FAIL, 0, 0)]"] exI [of _ "[(ESP_OK, 0, 0)]"]) simp
  ultimately show ?thesis using fault_latch_exact [of 0 sim_running sim_kconfig] sim_limit by simp
qed

end
