(* ===== verification/Platform.thy ===== *)
theory Platform imports Fnv1a
begin

text \<open>
  What the persistence and task modules use of FreeRTOS, the timer and NVS: one record of
  functions over the platform's state, the byte images of C structures, and the 32-bit
  FNV-1a checksum that guards each persisted one. A blocking call also takes the calling
  module's own state, because the other tasks of that module run while it blocks.
\<close>

section \<open>The platform\<close>

definition portMAX_DELAY :: u32 where "portMAX_DELAY = 0xFFFFFFFF"

definition SAVE_NOTIFY_ASYNC :: u32 where "SAVE_NOTIFY_ASYNC = 1"
definition SAVE_NOTIFY_SYNC :: u32 where "SAVE_NOTIFY_SYNC = 2"

record 'h os_ops =
  os_semaphore_create :: "'h \<Rightarrow> nat option \<times> 'h"
  os_semaphore_delete :: "nat \<Rightarrow> 'h \<Rightarrow> 'h"
  os_semaphore_give :: "nat \<Rightarrow> 'h \<Rightarrow> 'h"
  os_task_create :: "'h \<Rightarrow> nat option \<times> 'h"
  os_task_delete :: "nat \<Rightarrow> 'h \<Rightarrow> 'h"
  os_task_notify :: "nat \<Rightarrow> u32 \<Rightarrow> 'h \<Rightarrow> 'h"
  os_current_task :: "'h \<Rightarrow> nat"
  os_stack_bytes :: "nat \<Rightarrow> 'h \<Rightarrow> u32"
  os_ms_to_ticks :: "u32 \<Rightarrow> u32"
  os_tick_count :: "'h \<Rightarrow> u32 \<times> 'h"
  os_timer_us :: "'h \<Rightarrow> int \<times> 'h"
  os_nvs_open :: "string \<Rightarrow> bool \<Rightarrow> 'h \<Rightarrow> (esp_err \<times> nat) \<times> 'h"
  os_nvs_close :: "nat \<Rightarrow> 'h \<Rightarrow> 'h"
  os_nvs_get_blob :: "nat \<Rightarrow> string \<Rightarrow> nat \<Rightarrow> 'h \<Rightarrow> (esp_err \<times> u8 list) \<times> 'h"
  os_nvs_set_blob :: "nat \<Rightarrow> string \<Rightarrow> u8 list \<Rightarrow> 'h \<Rightarrow> esp_err \<times> 'h"
  os_nvs_get_u8 :: "nat \<Rightarrow> string \<Rightarrow> 'h \<Rightarrow> (esp_err \<times> u8) \<times> 'h"
  os_nvs_set_u8 :: "nat \<Rightarrow> string \<Rightarrow> u8 \<Rightarrow> 'h \<Rightarrow> esp_err \<times> 'h"
  os_nvs_commit :: "nat \<Rightarrow> 'h \<Rightarrow> esp_err \<times> 'h"

section \<open>Structures as bytes\<close>

text \<open>A zeroed structure of \<open>n\<close> bytes over which \<open>bytes\<close> were copied.\<close>

definition memory_image :: "nat \<Rightarrow> u8 list \<Rightarrow> u8 list" where
  "memory_image n bytes = take n (bytes @ replicate n 0)"

fun le_val :: "u8 list \<Rightarrow> nat" where
  "le_val [] = 0"
| "le_val (b # bs) = unat b + 256 * le_val bs"

definition u8_at :: "nat \<Rightarrow> u8 list \<Rightarrow> u8" where
  "u8_at i m = m ! i"

definition u16_at :: "nat \<Rightarrow> u8 list \<Rightarrow> u16" where
  "u16_at i m = of_nat (le_val (take 2 (drop i m)))"

definition u32_at :: "nat \<Rightarrow> u8 list \<Rightarrow> u32" where
  "u32_at i m = of_nat (le_val (take 4 (drop i m)))"

definition u64_at :: "nat \<Rightarrow> u8 list \<Rightarrow> u64" where
  "u64_at i m = of_nat (le_val (take 8 (drop i m)))"

definition checksum32 :: "u8 list \<Rightarrow> u32" where
  "checksum32 bytes = fnv1a 16777619 2166136261 bytes"

lemma length_memory_image [simp]: "length (memory_image n bs) = n"
  by (simp add: memory_image_def)

lemma memory_image_exact [simp]: "length bs = n \<Longrightarrow> memory_image n bs = bs"
  by (simp add: memory_image_def)

lemma le_val_append: "le_val (xs @ ys) = le_val xs + 256 ^ length xs * le_val ys"
  by (induction xs) (auto simp: algebra_simps)

lemma unat_drop_bit: "unat (drop_bit k (v :: 'a::len word)) = unat v div 2 ^ k"
proof -
  have "take_bit LENGTH('a) (unat v) = unat v"
    using unsigned_less [of v, where 'a = nat] by (rule take_bit_nat_eq_self)
  then have "unat (drop_bit k v) = drop_bit k (unat v)" by (subst unsigned_drop_bit_eq) simp
  then show ?thesis by (simp only: drop_bit_eq_div)
qed

lemma unat_byte: "unat (ucast (drop_bit k v) :: u8) = unat (v :: 'a::len word) div 2 ^ k mod 256"
proof -
  have "unat (ucast (drop_bit k v) :: u8) = take_bit 8 (unat (drop_bit k v))"
    by (simp only: unsigned_ucast_eq) simp
  then show ?thesis by (simp only: unat_drop_bit take_bit_eq_mod) simp
qed

lemma unat_byte0: "unat (ucast v :: u8) = unat (v :: 'a::len word) mod 256"
  using unat_byte [of 0 v] by simp

lemma nat_bytes2: "(n :: nat) < 2 ^ 16 \<Longrightarrow> n mod 256 + 256 * (n div 2 ^ 8 mod 256) = n"
  using mod_mult_div_eq [of n 256] less_mult_imp_div_less [of n 256 256] by simp

lemma nat_bytes4:
  assumes "(n :: nat) < 2 ^ 32"
  shows "n mod 256 + 256 * (n div 2 ^ 8 mod 256 + 256 * (n div 2 ^ 16 mod 256 + 256 * (n div 2 ^ 24 mod 256))) = n"
proof -
  define a b where "a = n div 2 ^ 16" and "b = n mod 2 ^ 16"
  have "a < 2 ^ 16" using assms less_mult_imp_div_less [of n "2 ^ 16" "2 ^ 16"] by (simp add: a_def)
  then have A: "a mod 256 + 256 * (a div 2 ^ 8 mod 256) = a" by (rule nat_bytes2)
  have B: "b mod 256 + 256 * (b div 2 ^ 8 mod 256) = b" by (rule nat_bytes2) (simp add: b_def)
  have e1: "b mod 256 = n mod 256" unfolding b_def using mod_mod_cancel [of 256 "2 ^ 16" n] by simp
  have e2: "b div 2 ^ 8 mod 256 = n div 2 ^ 8 mod 256"
  proof -
    have "n mod (2 ^ 8 * 2 ^ 8) = 2 ^ 8 * (n div 2 ^ 8 mod 2 ^ 8) + n mod 2 ^ 8" by (rule mod_mult2_eq)
    then have "b = 2 ^ 8 * (n div 2 ^ 8 mod 2 ^ 8) + n mod 2 ^ 8" by (simp add: b_def)
    moreover have "n mod 2 ^ 8 < 2 ^ 8" by simp
    ultimately show ?thesis by simp
  qed
  have e3: "n div 2 ^ 24 = a div 2 ^ 8" unfolding a_def by (simp add: div_mult2_eq [symmetric])
  have n: "n = b + 256 * (256 * a)" using mod_mult_div_eq [of n "2 ^ 16"] by (simp add: a_def b_def)
  have "n mod 256 + 256 * (n div 2 ^ 8 mod 256 + 256 * (n div 2 ^ 16 mod 256 + 256 * (n div 2 ^ 24 mod 256)))
      = b mod 256 + 256 * (b div 2 ^ 8 mod 256 + 256 * (a mod 256 + 256 * (a div 2 ^ 8 mod 256)))"
    unfolding e1 e2 e3 a_def [symmetric] ..
  also have "\<dots> = (b mod 256 + 256 * (b div 2 ^ 8 mod 256)) + 256 * (256 * (a mod 256 + 256 * (a div 2 ^ 8 mod 256)))"
    by (simp only: distrib_left add.assoc)
  also have "\<dots> = n" unfolding A B using n by (rule sym)
  finally show ?thesis .
qed

lemma le_val_le16: "le_val (le16 v) = unat v"
proof -
  have "unat v < 2 ^ 16" using unat_less_width(2) by simp
  from nat_bytes2 [OF this] show ?thesis
    unfolding le16_def le_val.simps unat_byte unfolding unat_byte0 by simp
qed

lemma le_val_le32: "le_val (le32 v) = unat v"
proof -
  have "unat v < 2 ^ 32" using unsigned_less [of v, where 'a = nat] by simp
  from nat_bytes4 [OF this] show ?thesis
    unfolding le32_def le_val.simps unat_byte unfolding unat_byte0 by (simp only: mult_0_right add_0_right)
qed

lemma le_val_le64: "le_val (le64 v) = unat v"
proof -
  have c: "unat (ucast w :: u32) = unat w mod 2 ^ 32" for w :: u64
    by (simp only: unsigned_ucast_eq take_bit_eq_mod) simp
  have 1: "unat (ucast v :: u32) = unat v mod 2 ^ 32" by (rule c)
  have "unat (ucast (drop_bit 32 v) :: u32) = unat v div 2 ^ 32 mod 2 ^ 32"
    unfolding c unat_drop_bit ..
  moreover have "unat v div 2 ^ 32 < 2 ^ 32"
  proof -
    have "unat v < 2 ^ 32 * 2 ^ 32" using unsigned_less [of v, where 'a = nat] by simp
    then show ?thesis by (rule less_mult_imp_div_less)
  qed
  ultimately show ?thesis using 1 by (simp add: le64_def le_val_append le_val_le32)
qed

end
