(* ===== verification/Fan_State_Store.thy ===== *)
theory Fan_State_Store imports Platform App_Config
begin

text \<open>
  \<open>main/fan_state_store.c\<close>: the persisted manual targets. The static variables are the fields
  of \<open>fan_store\<close>; the option \<open>CONFIG_RESTORE_FAN_STATE\<close> is the field \<open>RESTORE_FAN_STATE\<close> of
  \<open>store_ops\<close>, next to the calls that block or are preempted, which also act on the
  module's state because other tasks run meanwhile. The callbacks act on the platform's
  state \<open>'h\<close>, which therefore holds the motor controller too.
\<close>

section \<open>Data\<close>

definition FAN_STATE_NAMESPACE :: string where "FAN_STATE_NAMESPACE = ''fan_state''"
definition BOOT_HEALTH_NAMESPACE :: string where "BOOT_HEALTH_NAMESPACE = ''boot_health''"
definition FAN_STATE_NVS_KEY :: string where "FAN_STATE_NVS_KEY = ''targets_v3''"
definition FAN_STATE_MAGIC :: u32 where "FAN_STATE_MAGIC = 0x46535433"
definition FAN_STATE_SCHEMA_VERSION :: u16 where "FAN_STATE_SCHEMA_VERSION = 3"
definition FAN_STATE_V2_NVS_KEY :: string where "FAN_STATE_V2_NVS_KEY = ''targets_v2''"
definition FAN_STATE_V2_MAGIC :: u32 where "FAN_STATE_V2_MAGIC = 0x46535432"
definition FAN_STATE_V2_VERSION :: u16 where "FAN_STATE_V2_VERSION = 2"
definition FAN_STATE_LEGACY_NVS_KEY :: string where "FAN_STATE_LEGACY_NVS_KEY = ''targets''"

text \<open>A callback's result: what it reports (and the targets it wrote), and the platform after it.\<close>

record 'h fan_state_store_config =
  fsc_app_config :: "app_config option"
  fsc_snapshot_targets :: "(nat \<Rightarrow> 'h \<Rightarrow> u8 list option \<times> 'h) option"
  fsc_restore_targets :: "(u8 list \<Rightarrow> nat \<Rightarrow> 'h \<Rightarrow> bool \<times> 'h) option"

record 'h fan_store =
  fst_config :: "'h fan_state_store_config"
  fst_save_task :: "nat option"
  fst_initialized :: bool
  fst_save_task_ready :: bool
  fst_erased_on_boot :: bool
  fst_erase_observed :: bool
  fst_sync_mutex :: "nat option"
  fst_sync_complete :: "nat option"
  fst_sync_requested_generation :: u32
  fst_sync_completed_generation :: u32
  fst_sync_result :: esp_err

definition fan_store_boot :: "'h fan_store" where
  "fan_store_boot = \<lparr>fst_config = \<lparr>fsc_app_config = None, fsc_snapshot_targets = None, fsc_restore_targets = None\<rparr>,
     fst_save_task = None, fst_initialized = False, fst_save_task_ready = False, fst_erased_on_boot = False,
     fst_erase_observed = False, fst_sync_mutex = None, fst_sync_complete = None,
     fst_sync_requested_generation = 0, fst_sync_completed_generation = 0,
     fst_sync_result = ESP_ERR_INVALID_STATE\<rparr>"

record fan_state_store_health =
  fsh_initialized :: bool
  fsh_save_task_ready :: bool
  fsh_erased_on_boot :: bool
  fsh_erase_observed :: bool
  fsh_save_task_stack_bytes :: u32

text \<open>\<open>st_take\<close> and \<open>st_notify_wait\<close> (\<open>None\<close>: timed out) block; \<open>st_others\<close> is what the
  other tasks do to the module while the writer is in NVS.\<close>

record 'h store_ops = "'h os_ops" +
  RESTORE_FAN_STATE :: bool
  FAN_STATE_SAVE_DEBOUNCE_MS :: u32
  st_take :: "nat \<Rightarrow> u32 \<Rightarrow> 'h fan_store \<Rightarrow> 'h \<Rightarrow> bool \<times> 'h fan_store \<times> 'h"
  st_notify_wait :: "u32 \<Rightarrow> 'h fan_store \<Rightarrow> 'h \<Rightarrow> u32 option \<times> 'h fan_store \<times> 'h"
  st_others :: "'h fan_store \<Rightarrow> 'h \<Rightarrow> 'h fan_store \<times> 'h"

section \<open>The blobs\<close>

text \<open>\<open>fan_state_blob_t\<close> up to \<open>checksum\<close>, and whole.\<close>

definition fan_state_blob_head :: "u64 \<Rightarrow> int \<Rightarrow> u8 \<Rightarrow> u8 list \<Rightarrow> u8 list" where
  "fan_state_blob_head topology index_start count targets =
     le32 FAN_STATE_MAGIC @ le16 FAN_STATE_SCHEMA_VERSION @ le16 32 @ le64 topology @
     le32 (of_int index_start) @ [count] @ memory_image 4 targets @ [0, 0, 0]"

definition fan_state_blob :: "u64 \<Rightarrow> int \<Rightarrow> u8 \<Rightarrow> u8 list \<Rightarrow> u8 list" where
  "fan_state_blob topology index_start count targets =
     (let head = fan_state_blob_head topology index_start count targets in head @ le32 (checksum32 head))"

text \<open>The checks of \<open>fan_state_store_restore\<close> on the three kinds of blob; \<open>m\<close> is the structure in
  memory after \<open>length\<close> bytes were copied into it.\<close>

definition blob_v3_targets :: "u8 list \<Rightarrow> u8 list" where
  "blob_v3_targets m = take 4 (drop 21 m)"

definition blob_v3_valid :: "app_config \<Rightarrow> nat \<Rightarrow> u8 list \<Rightarrow> bool" where
  "blob_v3_valid config len m \<longleftrightarrow>
     len = 32 \<and> u32_at 0 m = FAN_STATE_MAGIC \<and> u16_at 4 m = FAN_STATE_SCHEMA_VERSION \<and> u16_at 6 m = 32 \<and>
     u64_at 8 m = topology_fp config \<and> sint (u32_at 16 m) = fan_index_start config \<and>
     uint (u8_at 20 m) = fan_count config \<and> u32_at 28 m = checksum32 (take 28 m) \<and>
     (\<forall>t \<in> set (blob_v3_targets m). t \<le> 100)"

definition blob_v2_targets :: "u8 list \<Rightarrow> u8 list" where
  "blob_v2_targets m = take 4 (drop 13 m)"

definition blob_v2_valid :: "nat \<Rightarrow> u8 list \<Rightarrow> bool" where
  "blob_v2_valid len m \<longleftrightarrow>
     len = 24 \<and> u32_at 0 m = FAN_STATE_V2_MAGIC \<and> u16_at 4 m = FAN_STATE_V2_VERSION \<and> u16_at 6 m = 24 \<and>
     1 \<le> uint (u8_at 12 m) \<and> uint (u8_at 12 m) \<le> int APP_CONFIG_MAX_FANS \<and>
     u32_at 20 m = checksum32 (take 20 m) \<and> (\<forall>t \<in> set (blob_v2_targets m). t = 0)"

definition blob_legacy_valid :: "nat \<Rightarrow> u8 list \<Rightarrow> bool" where
  "blob_legacy_valid len m \<longleftrightarrow> len = 8 \<and> (\<forall>t \<in> set m. t = 0)"

section \<open>Erase observation\<close>

definition update_erase_observation :: "'h store_ops \<Rightarrow> bool \<Rightarrow> 'h fan_store \<Rightarrow> 'h \<Rightarrow> esp_err \<times> 'h fan_store \<times> 'h" where
  "update_erase_observation ops erased_now s h =
     (case os_nvs_open ops BOOT_HEALTH_NAMESPACE True h of ((err, handle), h1) \<Rightarrow>
        if err \<noteq> ESP_OK then (err, s, h1)
        else let (err1, h3) = (if erased_now
                   then (case os_nvs_set_u8 ops handle ''erase_seen'' 1 h1 of (e, h2) \<Rightarrow>
                           if e = ESP_OK then os_nvs_commit ops handle h2 else (e, h2))
                   else (ESP_OK, h1));
                 (err2, seen, h4) = (if err1 = ESP_OK
                   then (case os_nvs_get_u8 ops handle ''erase_seen'' h3 of ((read_err, v), h') \<Rightarrow>
                           (if read_err \<noteq> ESP_OK \<and> read_err \<noteq> ESP_ERR_NVS_NOT_FOUND then read_err else ESP_OK,
                            if read_err = ESP_OK then v else 0, h'))
                   else (err1, 0, h3));
                 h5 = os_nvs_close ops handle h4
             in (err2, s\<lparr>fst_erase_observed := (erased_now \<or> seen = 1)\<rparr>, h5))"

section \<open>Saving\<close>

definition save_now :: "'h store_ops \<Rightarrow> 'h fan_store \<Rightarrow> 'h \<Rightarrow> esp_err \<times> 'h" where
  "save_now ops s h =
     (let config = the (fsc_app_config (fst_config s))
      in case the (fsc_snapshot_targets (fst_config s)) (nat (fan_count config)) h of
           (None, h1) \<Rightarrow> (ESP_ERR_INVALID_STATE, h1)
         | (Some targets, h1) \<Rightarrow>
           let state = fan_state_blob (topology_fp config) (fan_index_start config)
                         (of_int (fan_count config)) targets
           in case os_nvs_open ops FAN_STATE_NAMESPACE True h1 of ((err, handle), h2) \<Rightarrow>
              if err \<noteq> ESP_OK then (err, h2)
              else case os_nvs_set_blob ops handle FAN_STATE_NVS_KEY state h2 of (err1, h3) \<Rightarrow>
                let (err2, h4) = (if err1 = ESP_OK then os_nvs_commit ops handle h3 else (err1, h3))
                in (err2, os_nvs_close ops handle h4))"

definition sync_save_pending :: "'h fan_store \<Rightarrow> u32 option" where
  "sync_save_pending s =
     (if fst_sync_requested_generation s \<noteq> fst_sync_completed_generation s
      then Some (fst_sync_requested_generation s) else None)"

definition complete_sync_save :: "'h store_ops \<Rightarrow> u32 \<Rightarrow> esp_err \<Rightarrow> 'h fan_store \<Rightarrow> 'h \<Rightarrow> 'h fan_store \<times> 'h" where
  "complete_sync_save ops generation result s h =
     (let s' = s\<lparr>fst_sync_completed_generation := generation, fst_sync_result := result\<rparr>
      in (s', os_semaphore_give ops (the (fst_sync_complete s')) h))"

text \<open>The \<open>while\<close> loop; it goes on as long as other tasks keep requesting.\<close>

partial_function (option) process_pending_sync_saves ::
  "'h store_ops \<Rightarrow> 'h fan_store \<Rightarrow> 'h \<Rightarrow> ('h fan_store \<times> 'h) option" where
  "process_pending_sync_saves ops s h =
     (case sync_save_pending s of None \<Rightarrow> Some (s, h)
      | Some generation \<Rightarrow>
        (case save_now ops s h of (err, h1) \<Rightarrow>
         case st_others ops s h1 of (s1, h2) \<Rightarrow>
         case complete_sync_save ops generation err s1 h2 of (s2, h3) \<Rightarrow>
           process_pending_sync_saves ops s2 h3))"

text \<open>The inner loop of the task: it ends at the first quiet period.\<close>

partial_function (option) debounce_loop ::
  "'h store_ops \<Rightarrow> 'h fan_store \<Rightarrow> 'h \<Rightarrow> ('h fan_store \<times> 'h) option" where
  "debounce_loop ops s h =
     (case st_notify_wait ops (os_ms_to_ticks ops (FAN_STATE_SAVE_DEBOUNCE_MS ops)) s h of (notified, s1, h1) \<Rightarrow>
        case notified of None \<Rightarrow> Some (s1, h1)
        | Some notifications \<Rightarrow>
          (case (if notifications AND SAVE_NOTIFY_SYNC \<noteq> 0 then process_pending_sync_saves ops s1 h1 else Some (s1, h1)) of
             None \<Rightarrow> None | Some (s2, h2) \<Rightarrow> debounce_loop ops s2 h2))"

definition save_task_start :: "'h fan_store \<Rightarrow> 'h fan_store" where
  "save_task_start s = s\<lparr>fst_save_task_ready := True\<rparr>"

text \<open>One iteration of the task's outer loop.\<close>

definition save_task_iteration :: "'h store_ops \<Rightarrow> 'h fan_store \<Rightarrow> 'h \<Rightarrow> ('h fan_store \<times> 'h) option" where
  "save_task_iteration ops s h =
     (case st_notify_wait ops portMAX_DELAY s h of (notified, s1, h1) \<Rightarrow>
        let notifications = (case notified of None \<Rightarrow> 0 | Some n \<Rightarrow> n)
        in case (if notifications AND SAVE_NOTIFY_SYNC \<noteq> 0 then process_pending_sync_saves ops s1 h1 else Some (s1, h1)) of
             None \<Rightarrow> None
           | Some (s2, h2) \<Rightarrow>
             if notifications AND SAVE_NOTIFY_ASYNC = 0 then Some (s2, h2)
             else (case debounce_loop ops s2 h2 of None \<Rightarrow> None
                   | Some (s3, h3) \<Rightarrow>
                     if sync_save_pending s3 \<noteq> None then process_pending_sync_saves ops s3 h3
                     else Some (s3, snd (save_now ops s3 h3))))"

section \<open>Operations\<close>

definition fan_state_store_init ::
  "'h store_ops \<Rightarrow> 'h fan_state_store_config option \<Rightarrow> bool \<Rightarrow> 'h fan_store \<Rightarrow> 'h \<Rightarrow> esp_err \<times> 'h fan_store \<times> 'h" where
  "fan_state_store_init ops config erased_on_boot s h =
     (case config of None \<Rightarrow> (ESP_ERR_INVALID_ARG, s, h)
      | Some c \<Rightarrow>
        if fsc_app_config c = None \<or> fsc_snapshot_targets c = None \<or> fsc_restore_targets c = None
        then (ESP_ERR_INVALID_ARG, s, h)
        else let (sync_mutex, h1) = (if RESTORE_FAN_STATE ops then os_semaphore_create ops h else (None, h));
                 (sync_complete, h2) = (if RESTORE_FAN_STATE ops then os_semaphore_create ops h1 else (None, h1));
                 delete = (\<lambda>x h. case x of None \<Rightarrow> h | Some handle \<Rightarrow> os_semaphore_delete ops handle h)
        in if RESTORE_FAN_STATE ops \<and> (sync_mutex = None \<or> sync_complete = None)
           then (ESP_ERR_NO_MEM, s, delete sync_complete (delete sync_mutex h2))
           else if fst_initialized s
           then (ESP_ERR_INVALID_STATE, s, delete sync_complete (delete sync_mutex h2))
           else let s1 = s\<lparr>fst_config := c, fst_erased_on_boot := erased_on_boot, fst_initialized := True\<rparr>;
                    s2 = (if RESTORE_FAN_STATE ops
                          then s1\<lparr>fst_sync_mutex := sync_mutex, fst_sync_complete := sync_complete\<rparr> else s1)
                in update_erase_observation ops erased_on_boot s2 h2)"

definition fan_state_store_start :: "'h store_ops \<Rightarrow> 'h fan_store \<Rightarrow> 'h \<Rightarrow> esp_err \<times> 'h fan_store \<times> 'h" where
  "fan_state_store_start ops s h =
     (if \<not> fst_initialized s then (ESP_ERR_INVALID_STATE, s, h)
      else if \<not> RESTORE_FAN_STATE ops \<or> fst_save_task s \<noteq> None then (ESP_OK, s, h)
      else case os_task_create ops h of
        (None, h1) \<Rightarrow> (ESP_ERR_NO_MEM, s, h1)
      | (Some task, h1) \<Rightarrow> (ESP_OK, s\<lparr>fst_save_task := Some task\<rparr>, h1))"

definition fan_state_store_request_save :: "'h store_ops \<Rightarrow> 'h fan_store \<Rightarrow> 'h \<Rightarrow> 'h" where
  "fan_state_store_request_save ops s h =
     (case (if RESTORE_FAN_STATE ops then fst_save_task s else None) of None \<Rightarrow> h
      | Some task \<Rightarrow> os_task_notify ops task SAVE_NOTIFY_ASYNC h)"

text \<open>The region that admits a request: its generation, when there is a writer to serve it.\<close>

definition sync_request_section :: "nat \<Rightarrow> 'h fan_store \<Rightarrow> (nat \<times> u32 \<times> 'h fan_store) option" where
  "sync_request_section current_task s =
     (case fst_save_task s of None \<Rightarrow> None
      | Some task \<Rightarrow>
        if fst_initialized s \<and> task \<noteq> current_task
        then let g = fst_sync_requested_generation s + 1
             in Some (task, g, s\<lparr>fst_sync_requested_generation := g\<rparr>)
        else None)"

text \<open>The wait of a synchronous save.\<close>

partial_function (option) sync_wait_loop ::
  "'h store_ops \<Rightarrow> u32 \<Rightarrow> u32 \<Rightarrow> u32 \<Rightarrow> 'h fan_store \<Rightarrow> 'h \<Rightarrow> (esp_err \<times> 'h fan_store \<times> 'h) option" where
  "sync_wait_loop ops generation timeout_ticks started_at s h =
     (if fst_sync_completed_generation s = generation then Some (fst_sync_result s, s, h)
      else case (if timeout_ticks \<noteq> portMAX_DELAY
                 then (case os_tick_count ops h of (now, h1) \<Rightarrow>
                         let elapsed = now - started_at
                         in (if elapsed \<ge> timeout_ticks then None else Some (timeout_ticks - elapsed), h1))
                 else (Some portMAX_DELAY, h)) of (remaining, h1) \<Rightarrow>
        (case remaining of None \<Rightarrow> Some (ESP_ERR_TIMEOUT, s, h1)
         | Some r \<Rightarrow>
           (case st_take ops (the (fst_sync_complete s)) r s h1 of (taken, s2, h2) \<Rightarrow>
              if \<not> taken then Some (ESP_ERR_TIMEOUT, s2, h2)
              else sync_wait_loop ops generation timeout_ticks started_at s2 h2)))"

definition fan_state_store_save_sync ::
  "'h store_ops \<Rightarrow> u32 \<Rightarrow> 'h fan_store \<Rightarrow> 'h \<Rightarrow> (esp_err \<times> 'h fan_store \<times> 'h) option" where
  "fan_state_store_save_sync ops timeout_ticks s h =
     (if \<not> RESTORE_FAN_STATE ops then Some (ESP_OK, s, h)
      else case os_tick_count ops h of (started_at, h1) \<Rightarrow>
        (case fst_sync_mutex s of None \<Rightarrow> Some (ESP_ERR_INVALID_STATE, s, h1)
         | Some mutex \<Rightarrow>
           (case st_take ops mutex timeout_ticks s h1 of (taken, s2, h2) \<Rightarrow>
              if \<not> taken then Some (ESP_ERR_TIMEOUT, s2, h2)
              else (case sync_request_section (os_current_task ops h2) s2 of
                 None \<Rightarrow> Some (ESP_ERR_INVALID_STATE, s2, os_semaphore_give ops mutex h2)
               | Some (task, generation, s3) \<Rightarrow>
                 (case sync_wait_loop ops generation timeout_ticks started_at s3
                        (os_task_notify ops task SAVE_NOTIFY_SYNC h2) of
                    None \<Rightarrow> None
                  | Some (result, s4, h4) \<Rightarrow> Some (result, s4, os_semaphore_give ops mutex h4))))))"

section \<open>Restoring\<close>

text \<open>Which targets the blobs found authorise, and whether they come from an older schema. Each
  key is read only when the newer one is absent.\<close>

definition restore_candidate ::
  "'h store_ops \<Rightarrow> app_config \<Rightarrow> nat \<Rightarrow> 'h \<Rightarrow> (u8 list \<times> bool) option \<times> 'h" where
  "restore_candidate ops config handle h =
     (case os_nvs_get_blob ops handle FAN_STATE_NVS_KEY 32 h of ((err, bytes), h1) \<Rightarrow>
        let m = memory_image 32 bytes; valid = (err = ESP_OK \<and> blob_v3_valid config (length bytes) m)
        in if valid then (Some (blob_v3_targets m, False), h1)
           else if err \<noteq> ESP_ERR_NVS_NOT_FOUND then (None, h1)
           else case os_nvs_get_blob ops handle FAN_STATE_V2_NVS_KEY 24 h1 of ((err2, bytes2), h2) \<Rightarrow>
             let m2 = memory_image 24 bytes2
             in if err2 = ESP_OK
                then (if blob_v2_valid (length bytes2) m2 then Some (blob_v2_targets m2, True) else None, h2)
                else if err2 \<noteq> ESP_ERR_NVS_NOT_FOUND then (None, h2)
                else case os_nvs_get_blob ops handle FAN_STATE_LEGACY_NVS_KEY 8 h2 of ((err3, bytes3), h3) \<Rightarrow>
                  let m3 = memory_image 8 bytes3
                  in (if err3 = ESP_OK \<and> blob_legacy_valid (length bytes3) m3 then Some (m3, True) else None, h3))"

definition fan_state_store_restore :: "'h store_ops \<Rightarrow> 'h fan_store \<Rightarrow> 'h \<Rightarrow> 'h" where
  "fan_state_store_restore ops s h =
     (if \<not> RESTORE_FAN_STATE ops \<or> \<not> fst_initialized s then h
      else case os_nvs_open ops FAN_STATE_NAMESPACE False h of ((err, handle), h1) \<Rightarrow>
        if err \<noteq> ESP_OK then h1
        else let config = the (fsc_app_config (fst_config s))
        in case restore_candidate ops config handle h1 of (candidate, h2) \<Rightarrow>
           (case candidate of None \<Rightarrow> os_nvs_close ops handle h2
            | Some (targets, migrated) \<Rightarrow>
              (case the (fsc_restore_targets (fst_config s)) targets (nat (fan_count config)) h2 of (restored, h3) \<Rightarrow>
                 let h4 = (if restored \<and> migrated then fan_state_store_request_save ops s h3 else h3)
                 in os_nvs_close ops handle h4)))"

definition fan_state_store_health_snapshot :: "'h store_ops \<Rightarrow> 'h fan_store \<Rightarrow> 'h \<Rightarrow> fan_state_store_health" where
  "fan_state_store_health_snapshot ops s h =
     \<lparr>fsh_initialized = fst_initialized s, fsh_save_task_ready = fst_save_task_ready s,
      fsh_erased_on_boot = fst_erased_on_boot s, fsh_erase_observed = fst_erase_observed s,
      fsh_save_task_stack_bytes = (case fst_save_task s of None \<Rightarrow> 0 | Some t \<Rightarrow> os_stack_bytes ops t h)\<rparr>"

end
