(* ===== verification/Scheduler.thy ===== *)
theory Scheduler imports Platform App_Config
begin

text \<open>
  \<open>main/scheduler.c\<close> with \<open>CONFIG_SCHEDULE_ENABLED\<close>, and the stubs of the build without it.
  The static variables are the fields of \<open>scheduler\<close>; every region under \<open>s_mutex\<close> or
  \<open>s_lifecycle_lock\<close> is a definition of its own (\<open>..._section\<close>). A fan's reservation
  (\<open>operation_pending\<close>) is held across the target callback, which runs with no mutex held.
  Callbacks act on the platform's state \<open>'h\<close>; the calls that block, and \<open>sch_others\<close> where the
  writer is in NVS, also act on the module's state, because other tasks run meanwhile.
  Output pointers are not \<open>NULL\<close>; what is written to one is a part of the result.
\<close>

section \<open>Data\<close>

definition SCHEDULER_MAX_INTERVAL_MIN :: u32 where "SCHEDULER_MAX_INTERVAL_MIN = 525600"
definition SCHEDULE_NAMESPACE :: string where "SCHEDULE_NAMESPACE = ''fan_state''"
definition SCHEDULE_NVS_KEY :: string where "SCHEDULE_NVS_KEY = ''schedules_v4''"
definition SCHEDULE_STATE_MAGIC :: u32 where "SCHEDULE_STATE_MAGIC = 0x53434834"
definition SCHEDULE_SCHEMA_VERSION :: u16 where "SCHEDULE_SCHEMA_VERSION = 4"
definition SCHEDULER_OPERATION_WAIT_MS :: u32 where "SCHEDULER_OPERATION_WAIT_MS = 1000"

datatype scheduler_target_kind = SCHEDULER_TARGET_MANUAL | SCHEDULER_TARGET_START | SCHEDULER_TARGET_RESTORE

record scheduler_target_request =
  req_kind :: scheduler_target_kind
  req_local_fan :: int
  req_fan_number :: int
  req_slot :: int
  req_target_pct :: u8

record scheduler_target_result =
  res_accepted :: bool
  res_manual_target_pct :: u8
  res_communication_inhibit_cleared :: bool
  res_accepted_command_count :: u32
  res_requested_pct :: u8
  res_applied_pct :: u8

definition target_result_zero :: scheduler_target_result where
  "target_result_zero = \<lparr>res_accepted = False, res_manual_target_pct = 0, res_communication_inhibit_cleared = False,
     res_accepted_command_count = 0, res_requested_pct = 0, res_applied_pct = 0\<rparr>"

datatype scheduler_event_type =
    SCHEDULER_EVENT_ENTRY_SET | SCHEDULER_EVENT_ENTRY_DISABLED | SCHEDULER_EVENT_OVERRIDE_CHANGED
  | SCHEDULER_EVENT_STARTED | SCHEDULER_EVENT_ENDED | SCHEDULER_EVENT_MANUAL_CANCELLED
  | SCHEDULER_EVENT_FAN_CANCELLED | SCHEDULER_EVENT_INHIBITED_ALL

record scheduler_event =
  sev_type :: scheduler_event_type
  sev_local_fan :: int
  sev_fan_number :: int
  sev_slot :: int
  sev_target_pct :: u8
  sev_inhibited :: bool
  sev_target_applied :: bool

record 'h scheduler_config =
  scc_app_config :: "app_config option"
  scc_apply_target :: "(scheduler_target_request \<Rightarrow> 'h \<Rightarrow> scheduler_target_result \<times> 'h) option"
  scc_notify :: "(scheduler_event \<Rightarrow> 'h \<Rightarrow> 'h) option"

record scheduler_entry_snapshot =
  snap_enabled :: bool
  snap_interval_min :: u32
  snap_duration_min :: u32
  snap_target_pct :: u8
  snap_next_trigger_us :: int
  snap_active :: bool
  snap_active_end_us :: int

record scheduler_health_snapshot =
  shs_feature_enabled :: bool
  shs_initialized :: bool
  shs_scheduler_task_ready :: bool
  shs_save_task_ready :: bool
  shs_inhibited :: bool
  shs_heartbeat_us :: int
  shs_scheduler_task_stack_bytes :: u32
  shs_save_task_stack_bytes :: u32

record schedule_entry =
  en_enabled :: bool
  en_interval_min :: u32
  en_duration_min :: u32
  en_target_pct :: u8
  en_next_trigger_us :: int

record schedule_entry_persist =
  per_interval_min :: u32
  per_duration_min :: u32
  per_enabled :: u8
  per_target_pct :: u8

record schedule_fan_state =
  sf_entries :: "schedule_entry list"
  sf_active_slot :: int
  sf_active_end_us :: int
  sf_saved_manual_target :: u8
  sf_cursor :: u8
  sf_operation_pending :: bool

record 'h scheduler =
  sch_mutex :: "nat option"
  sch_sync_mutex :: "nat option"
  sch_sync_complete :: "nat option"
  sch_config :: "'h scheduler_config"
  sch_fans :: "schedule_fan_state list"
  sch_scheduler_task :: "nat option"
  sch_save_task :: "nat option"
  sch_init_started :: bool
  sch_initialized :: bool
  sch_start_started :: bool
  sch_scheduler_task_ready :: bool
  sch_save_task_ready :: bool
  sch_inhibited :: bool
  sch_runtime_inhibit_latched :: bool
  sch_heartbeat_us :: int
  sch_sync_requested_generation :: u32
  sch_sync_completed_generation :: u32
  sch_sync_result :: esp_err

text \<open>The configuration options, and the calls during which other tasks of the module run.
  \<open>SCHEDULE_BLOB_PADDING\<close> is what the compiler leaves in the padding after \<open>checksum\<close>.\<close>

record 'h sched_ops = "'h os_ops" +
  CONFIG_SCHEDULE_SLOTS :: nat
  CONFIG_SCHEDULE_SAVE_DEBOUNCE_MS :: u32
  SCHEDULE_BLOB_PADDING :: "u8 list"
  sch_take :: "nat \<Rightarrow> u32 \<Rightarrow> 'h scheduler \<Rightarrow> 'h \<Rightarrow> bool \<times> 'h scheduler \<times> 'h"
  sch_delay :: "'h scheduler \<Rightarrow> 'h \<Rightarrow> 'h scheduler \<times> 'h"
  sch_notify_wait :: "u32 \<Rightarrow> 'h scheduler \<Rightarrow> 'h \<Rightarrow> u32 option \<times> 'h scheduler \<times> 'h"
  sch_others :: "'h scheduler \<Rightarrow> 'h \<Rightarrow> 'h scheduler \<times> 'h"

definition entry_zero :: schedule_entry where
  "entry_zero = \<lparr>en_enabled = False, en_interval_min = 0, en_duration_min = 0, en_target_pct = 0,
     en_next_trigger_us = 0\<rparr>"

definition scheduler_boot :: "nat \<Rightarrow> 'h scheduler" where
  "scheduler_boot slots = \<lparr>sch_mutex = None, sch_sync_mutex = None, sch_sync_complete = None,
     sch_config = \<lparr>scc_app_config = None, scc_apply_target = None, scc_notify = None\<rparr>,
     sch_fans = replicate APP_CONFIG_MAX_FANS \<lparr>sf_entries = replicate slots entry_zero, sf_active_slot = 0,
       sf_active_end_us = 0, sf_saved_manual_target = 0, sf_cursor = 0, sf_operation_pending = False\<rparr>,
     sch_scheduler_task = None, sch_save_task = None, sch_init_started = False, sch_initialized = False,
     sch_start_started = False, sch_scheduler_task_ready = False, sch_save_task_ready = False,
     sch_inhibited = False, sch_runtime_inhibit_latched = False, sch_heartbeat_us = 0,
     sch_sync_requested_generation = 0, sch_sync_completed_generation = 0, sch_sync_result = ESP_ERR_INVALID_STATE\<rparr>"

definition sched_fan :: "'h scheduler \<Rightarrow> nat \<Rightarrow> schedule_fan_state" where
  "sched_fan s i = sch_fans s ! i"

definition upd_fan :: "nat \<Rightarrow> (schedule_fan_state \<Rightarrow> schedule_fan_state) \<Rightarrow> 'h scheduler \<Rightarrow> 'h scheduler" where
  "upd_fan i f s = s\<lparr>sch_fans := (sch_fans s)[i := f (sch_fans s ! i)]\<rparr>"

definition upd_entry :: "nat \<Rightarrow> (schedule_entry \<Rightarrow> schedule_entry) \<Rightarrow> schedule_fan_state \<Rightarrow> schedule_fan_state" where
  "upd_entry slot f fan = fan\<lparr>sf_entries := (sf_entries fan)[slot := f (sf_entries fan ! slot)]\<rparr>"

section \<open>Validation and callbacks\<close>

definition scheduler_is_initialized :: "'h scheduler \<Rightarrow> bool" where
  "scheduler_is_initialized s = sch_initialized s"

definition schedule_checksum :: "u8 list \<Rightarrow> u32" where
  "schedule_checksum bytes = fnv1a 16777619 2166136261 bytes"

definition entry_config_valid :: "u32 \<Rightarrow> u32 \<Rightarrow> u32 \<Rightarrow> bool" where
  "entry_config_valid interval_min duration_min target_pct \<longleftrightarrow>
     1 \<le> interval_min \<and> interval_min \<le> SCHEDULER_MAX_INTERVAL_MIN \<and>
     1 \<le> duration_min \<and> duration_min \<le> interval_min \<and> target_pct \<le> 100"

definition sched_fan_count :: "'h scheduler \<Rightarrow> nat" where
  "sched_fan_count s = nat (fan_count (the (scc_app_config (sch_config s))))"

definition fan_number_of :: "'h scheduler \<Rightarrow> nat \<Rightarrow> int" where
  "fan_number_of s i = fan_index_start (the (scc_app_config (sch_config s))) + int i"

definition local_fan_valid :: "'h scheduler \<Rightarrow> int \<Rightarrow> bool" where
  "local_fan_valid s local_fan \<longleftrightarrow>
     (case scc_app_config (sch_config s) of None \<Rightarrow> False
      | Some c \<Rightarrow> 0 \<le> local_fan \<and> local_fan < fan_count c)"

definition slot_valid :: "'h sched_ops \<Rightarrow> int \<Rightarrow> bool" where
  "slot_valid ops slot \<longleftrightarrow> 0 \<le> slot \<and> slot < int (CONFIG_SCHEDULE_SLOTS ops)"

definition notify_event :: "'h scheduler \<Rightarrow> scheduler_event \<Rightarrow> 'h \<Rightarrow> 'h" where
  "notify_event s event h = (case scc_notify (sch_config s) of None \<Rightarrow> h | Some notify \<Rightarrow> notify event h)"

definition apply_target :: "'h scheduler \<Rightarrow> scheduler_target_request \<Rightarrow> 'h \<Rightarrow> scheduler_target_result \<times> 'h" where
  "apply_target s request h =
     (case the (scc_apply_target (sch_config s)) request h of (result, h') \<Rightarrow>
        (if res_manual_target_pct result > 100 then result\<lparr>res_accepted := False\<rparr> else result, h'))"

definition trigger_after :: "int \<Rightarrow> u32 \<Rightarrow> int" where
  "trigger_after now minutes = now + uint minutes * 60 * 1000000"

section \<open>Reservations\<close>

text \<open>\<open>xSemaphoreTake(s_mutex, portMAX_DELAY)\<close>: what the other tasks did to the module since the
  last region of this one has happened when it returns.\<close>

definition lock :: "'h sched_ops \<Rightarrow> 'h scheduler \<Rightarrow> 'h \<Rightarrow> 'h scheduler \<times> 'h" where
  "lock ops s h = snd (sch_take ops (the (sch_mutex s)) portMAX_DELAY s h)"

definition reserve_section :: "nat \<Rightarrow> 'h scheduler \<Rightarrow> 'h scheduler option" where
  "reserve_section i s =
     (if \<not> sf_operation_pending (sched_fan s i)
      then Some (upd_fan i (\<lambda>fan. fan\<lparr>sf_operation_pending := True\<rparr>) s) else None)"

partial_function (option) reserve_loop ::
  "'h sched_ops \<Rightarrow> nat \<Rightarrow> u32 \<Rightarrow> u32 \<Rightarrow> 'h scheduler \<Rightarrow> 'h \<Rightarrow> (bool \<times> 'h scheduler \<times> 'h) option" where
  "reserve_loop ops i wait_ticks started s h =
     (case lock ops s h of (s0, h0) \<Rightarrow>
      case reserve_section i s0 of
        Some s' \<Rightarrow> Some (True, s', h0)
      | None \<Rightarrow>
        (case os_tick_count ops h0 of (now, h1) \<Rightarrow>
           if now - started \<ge> wait_ticks then Some (False, s0, h1)
           else (case sch_delay ops s0 h1 of (s2, h2) \<Rightarrow> reserve_loop ops i wait_ticks started s2 h2)))"

definition reserve_fan_operation ::
  "'h sched_ops \<Rightarrow> nat \<Rightarrow> 'h scheduler \<Rightarrow> 'h \<Rightarrow> (bool \<times> 'h scheduler \<times> 'h) option" where
  "reserve_fan_operation ops i s h =
     (let ticks = os_ms_to_ticks ops SCHEDULER_OPERATION_WAIT_MS;
          wait_ticks = (if ticks = 0 then 1 else ticks);
          (started, h1) = os_tick_count ops h
      in reserve_loop ops i wait_ticks started s h1)"

definition release_fan_operation_locked :: "nat \<Rightarrow> 'h scheduler \<Rightarrow> 'h scheduler" where
  "release_fan_operation_locked i s = upd_fan i (\<lambda>fan. fan\<lparr>sf_operation_pending := False\<rparr>) s"

fun reserve_fans :: "'h sched_ops \<Rightarrow> nat list \<Rightarrow> nat list \<Rightarrow> 'h scheduler \<Rightarrow> 'h \<Rightarrow> (bool \<times> 'h scheduler \<times> 'h) option" where
  "reserve_fans ops reserved [] s h = Some (True, s, h)"
| "reserve_fans ops reserved (i # is) s h =
     (case reserve_fan_operation ops i s h of None \<Rightarrow> None
      | Some (ok, s1, h1) \<Rightarrow>
          if ok then reserve_fans ops (reserved @ [i]) is s1 h1
          else (case lock ops s1 h1 of (s2, h2) \<Rightarrow> Some (False, fold release_fan_operation_locked reserved s2, h2)))"

definition reserve_all_fans :: "'h sched_ops \<Rightarrow> 'h scheduler \<Rightarrow> 'h \<Rightarrow> (bool \<times> 'h scheduler \<times> 'h) option" where
  "reserve_all_fans ops s h = reserve_fans ops [] [0..<sched_fan_count s] s h"

definition release_all_fans_locked :: "'h scheduler \<Rightarrow> 'h scheduler" where
  "release_all_fans_locked s = fold release_fan_operation_locked [0..<sched_fan_count s] s"

section \<open>The persisted blob\<close>

text \<open>\<open>schedule_state_blob_t\<close>: 24 bytes of identity, 12 for each entry of each of the
  \<open>APP_CONFIG_MAX_FANS\<close> fans, the checksum, and 4 bytes of padding to its alignment of 8.\<close>

definition schedule_checksum_offset :: "nat \<Rightarrow> nat" where
  "schedule_checksum_offset slots = 24 + 12 * slots * APP_CONFIG_MAX_FANS"

definition schedule_blob_size :: "nat \<Rightarrow> nat" where
  "schedule_blob_size slots = schedule_checksum_offset slots + 8"

definition persist_bytes :: "schedule_entry_persist \<Rightarrow> u8 list" where
  "persist_bytes p = le32 (per_interval_min p) @ le32 (per_duration_min p) @ [per_enabled p, per_target_pct p, 0, 0]"

definition persist_at :: "nat \<Rightarrow> u8 list \<Rightarrow> schedule_entry_persist" where
  "persist_at i m = \<lparr>per_interval_min = u32_at i m, per_duration_min = u32_at (i + 4) m,
     per_enabled = u8_at (i + 8) m, per_target_pct = u8_at (i + 9) m\<rparr>"

definition schedule_state_head :: "nat \<Rightarrow> app_config \<Rightarrow> u8 \<Rightarrow> schedule_entry_persist list \<Rightarrow> u8 list" where
  "schedule_state_head slots config inhibited schedules =
     le32 SCHEDULE_STATE_MAGIC @ le16 SCHEDULE_SCHEMA_VERSION @ le16 (of_nat (schedule_blob_size slots)) @
     le64 (topology_fp config) @ le32 (of_int (fan_index_start config)) @
     [of_int (fan_count config), of_nat slots, inhibited, 0] @ concat (map persist_bytes schedules)"

definition schedule_state_blob :: "nat \<Rightarrow> app_config \<Rightarrow> u8 \<Rightarrow> schedule_entry_persist list \<Rightarrow> u8 list" where
  "schedule_state_blob slots config inhibited schedules =
     (let head = schedule_state_head slots config inhibited schedules in head @ le32 (schedule_checksum head))"

text \<open>\<open>saved.schedules[fan][slot]\<close> in a structure in memory.\<close>

definition schedule_entry_offset :: "nat \<Rightarrow> nat \<Rightarrow> nat \<Rightarrow> nat" where
  "schedule_entry_offset slots fan slot = 24 + 12 * (fan * slots + slot)"

definition schedule_blob_valid :: "nat \<Rightarrow> app_config \<Rightarrow> nat \<Rightarrow> u8 list \<Rightarrow> bool" where
  "schedule_blob_valid slots config len m \<longleftrightarrow>
     len = schedule_blob_size slots \<and> u32_at 0 m = SCHEDULE_STATE_MAGIC \<and>
     u16_at 4 m = SCHEDULE_SCHEMA_VERSION \<and> unat (u16_at 6 m) = schedule_blob_size slots \<and>
     u64_at 8 m = topology_fp config \<and> sint (u32_at 16 m) = fan_index_start config \<and>
     uint (u8_at 20 m) = fan_count config \<and> unat (u8_at 21 m) = slots \<and> u8_at 22 m \<le> 1 \<and>
     u32_at (schedule_checksum_offset slots) m = schedule_checksum (take (schedule_checksum_offset slots) m)"

section \<open>Loading and saving\<close>

definition load_entry :: "u8 list \<Rightarrow> nat \<Rightarrow> int \<Rightarrow> nat \<Rightarrow> nat \<Rightarrow> 'h scheduler \<Rightarrow> 'h scheduler" where
  "load_entry m slots now fan slot s =
     (let p = persist_at (schedule_entry_offset slots fan slot) m
      in if per_enabled p = 0 then s
         else if \<not> entry_config_valid (per_interval_min p) (per_duration_min p) (ucast (per_target_pct p)) then s
         else upd_fan fan (upd_entry slot (\<lambda>_. \<lparr>en_enabled = True, en_interval_min = per_interval_min p,
                en_duration_min = per_duration_min p, en_target_pct = per_target_pct p,
                en_next_trigger_us = trigger_after now (per_interval_min p)\<rparr>)) s)"

definition load_section :: "nat \<Rightarrow> u8 list \<Rightarrow> int \<Rightarrow> 'h scheduler \<Rightarrow> 'h scheduler" where
  "load_section slots m now s =
     (fold (\<lambda>fan. fold (load_entry m slots now fan) [0..<slots]) [0..<sched_fan_count s] s)
       \<lparr>sch_inhibited := (u8_at 22 m \<noteq> 0)\<rparr>"

definition load_from_nvs :: "'h sched_ops \<Rightarrow> 'h scheduler \<Rightarrow> 'h \<Rightarrow> esp_err \<times> 'h scheduler \<times> 'h" where
  "load_from_nvs ops s h =
     (case os_nvs_open ops SCHEDULE_NAMESPACE False h of ((err, handle), h1) \<Rightarrow>
        if err = ESP_ERR_NVS_NOT_FOUND then (ESP_OK, s, h1)
        else if err \<noteq> ESP_OK then (err, s, h1)
        else let slots = CONFIG_SCHEDULE_SLOTS ops; n = schedule_blob_size slots
        in case os_nvs_get_blob ops handle SCHEDULE_NVS_KEY n h1 of ((err1, bytes), h2) \<Rightarrow>
           let h3 = os_nvs_close ops handle h2; m = memory_image n bytes
           in if err1 = ESP_ERR_NVS_NOT_FOUND then (ESP_OK, s, h3)
              else if \<not> (err1 = ESP_OK \<and>
                  schedule_blob_valid slots (the (scc_app_config (sch_config s))) (length bytes) m)
              then (if err1 = ESP_OK then ESP_ERR_INVALID_CRC else err1, s, h3)
              else case os_timer_us ops h3 of (now, h4) \<Rightarrow>
                   case lock ops s h4 of (s5, h5) \<Rightarrow> (ESP_OK, load_section slots m now s5, h5))"

definition persist_entry :: "schedule_entry \<Rightarrow> schedule_entry_persist" where
  "persist_entry e = \<lparr>per_interval_min = en_interval_min e, per_duration_min = en_duration_min e,
     per_enabled = (if en_enabled e then 1 else 0), per_target_pct = en_target_pct e\<rparr>"

definition persist_zero :: schedule_entry_persist where
  "persist_zero = \<lparr>per_interval_min = 0, per_duration_min = 0, per_enabled = 0, per_target_pct = 0\<rparr>"

definition snapshot_section :: "nat \<Rightarrow> 'h scheduler \<Rightarrow> u8 \<times> schedule_entry_persist list" where
  "snapshot_section slots s =
     (if sch_inhibited s then 1 else 0,
      concat (map (\<lambda>fan. map (\<lambda>slot.
        if fan < sched_fan_count s then persist_entry (sf_entries (sched_fan s fan) ! slot) else persist_zero)
        [0..<slots]) [0..<APP_CONFIG_MAX_FANS]))"

definition save_to_nvs :: "'h sched_ops \<Rightarrow> 'h scheduler \<Rightarrow> 'h \<Rightarrow> esp_err \<times> 'h scheduler \<times> 'h" where
  "save_to_nvs ops s h =
     (case lock ops s h of (s1, h1) \<Rightarrow>
        let slots = CONFIG_SCHEDULE_SLOTS ops; (inhibited, schedules) = snapshot_section slots s1;
            saved = schedule_state_blob slots (the (scc_app_config (sch_config s))) inhibited schedules @
                    memory_image 4 (SCHEDULE_BLOB_PADDING ops)
        in case os_nvs_open ops SCHEDULE_NAMESPACE True h1 of ((err, handle), h2) \<Rightarrow>
           if err \<noteq> ESP_OK then (err, s1, h2)
           else case os_nvs_set_blob ops handle SCHEDULE_NVS_KEY saved h2 of (err1, h3) \<Rightarrow>
             let (err2, h4) = (if err1 = ESP_OK then os_nvs_commit ops handle h3 else (err1, h3))
             in case sch_others ops s1 (os_nvs_close ops handle h4) of (s5, h5) \<Rightarrow> (err2, s5, h5))"

definition schedule_save_pending :: "'h scheduler \<Rightarrow> u32 option" where
  "schedule_save_pending s =
     (if sch_sync_requested_generation s \<noteq> sch_sync_completed_generation s
      then Some (sch_sync_requested_generation s) else None)"

definition complete_schedule_save :: "'h sched_ops \<Rightarrow> u32 \<Rightarrow> esp_err \<Rightarrow> 'h scheduler \<Rightarrow> 'h \<Rightarrow> 'h scheduler \<times> 'h" where
  "complete_schedule_save ops generation result s h =
     (let s' = s\<lparr>sch_sync_completed_generation := generation, sch_sync_result := result\<rparr>
      in (s', os_semaphore_give ops (the (sch_sync_complete s')) h))"

partial_function (option) process_pending_schedule_saves ::
  "'h sched_ops \<Rightarrow> 'h scheduler \<Rightarrow> 'h \<Rightarrow> ('h scheduler \<times> 'h) option" where
  "process_pending_schedule_saves ops s h =
     (case schedule_save_pending s of None \<Rightarrow> Some (s, h)
      | Some generation \<Rightarrow>
        (case save_to_nvs ops s h of (err, s1, h1) \<Rightarrow>
         case complete_schedule_save ops generation err s1 h1 of (s2, h2) \<Rightarrow>
           process_pending_schedule_saves ops s2 h2))"

definition request_save :: "'h sched_ops \<Rightarrow> 'h scheduler \<Rightarrow> 'h \<Rightarrow> 'h" where
  "request_save ops s h =
     (case sch_save_task s of None \<Rightarrow> h | Some task \<Rightarrow> os_task_notify ops task SAVE_NOTIFY_ASYNC h)"

partial_function (option) schedule_debounce_loop ::
  "'h sched_ops \<Rightarrow> 'h scheduler \<Rightarrow> 'h \<Rightarrow> ('h scheduler \<times> 'h) option" where
  "schedule_debounce_loop ops s h =
     (case sch_notify_wait ops (os_ms_to_ticks ops (CONFIG_SCHEDULE_SAVE_DEBOUNCE_MS ops)) s h of (notified, s1, h1) \<Rightarrow>
        case notified of None \<Rightarrow> Some (s1, h1)
        | Some notifications \<Rightarrow>
          (case (if notifications AND SAVE_NOTIFY_SYNC \<noteq> 0 then process_pending_schedule_saves ops s1 h1
                 else Some (s1, h1)) of
             None \<Rightarrow> None | Some (s2, h2) \<Rightarrow> schedule_debounce_loop ops s2 h2))"

definition schedule_save_task_start :: "'h sched_ops \<Rightarrow> 'h scheduler \<Rightarrow> 'h \<Rightarrow> 'h scheduler \<times> 'h" where
  "schedule_save_task_start ops s h =
     (case lock ops s h of (s1, h1) \<Rightarrow> (s1\<lparr>sch_save_task_ready := True\<rparr>, h1))"

text \<open>One iteration of \<open>save_task_main\<close>.\<close>

definition schedule_save_task_iteration :: "'h sched_ops \<Rightarrow> 'h scheduler \<Rightarrow> 'h \<Rightarrow> ('h scheduler \<times> 'h) option" where
  "schedule_save_task_iteration ops s h =
     (case sch_notify_wait ops portMAX_DELAY s h of (notified, s1, h1) \<Rightarrow>
        let notifications = (case notified of None \<Rightarrow> 0 | Some n \<Rightarrow> n)
        in case (if notifications AND SAVE_NOTIFY_SYNC \<noteq> 0 then process_pending_schedule_saves ops s1 h1
                 else Some (s1, h1)) of
             None \<Rightarrow> None
           | Some (s2, h2) \<Rightarrow>
             if notifications AND SAVE_NOTIFY_ASYNC = 0 then Some (s2, h2)
             else (case schedule_debounce_loop ops s2 h2 of None \<Rightarrow> None
                   | Some (s3, h3) \<Rightarrow> Some (snd (save_to_nvs ops s3 h3))))"

section \<open>The scheduler task\<close>

definition target_request :: "scheduler_target_kind \<Rightarrow> nat \<Rightarrow> int \<Rightarrow> u8 \<Rightarrow> 'h scheduler \<Rightarrow> scheduler_target_request" where
  "target_request kind fan slot target s = \<lparr>req_kind = kind, req_local_fan = int fan,
     req_fan_number = fan_number_of s fan, req_slot = slot, req_target_pct = target\<rparr>"

definition fan_event ::
  "scheduler_event_type \<Rightarrow> nat \<Rightarrow> int \<Rightarrow> u8 \<Rightarrow> bool \<Rightarrow> bool \<Rightarrow> 'h scheduler \<Rightarrow> scheduler_event" where
  "fan_event type fan slot target inhibited applied s = \<lparr>sev_type = type, sev_local_fan = int fan,
     sev_fan_number = fan_number_of s fan, sev_slot = slot, sev_target_pct = target,
     sev_inhibited = inhibited, sev_target_applied = applied\<rparr>"

definition global_event :: "scheduler_event_type \<Rightarrow> bool \<Rightarrow> scheduler_event" where
  "global_event type inhibited = \<lparr>sev_type = type, sev_local_fan = -1, sev_fan_number = 0, sev_slot = -1,
     sev_target_pct = 0, sev_inhibited = inhibited, sev_target_applied = False\<rparr>"

definition deactivate :: "schedule_fan_state \<Rightarrow> schedule_fan_state" where
  "deactivate fan = fan\<lparr>sf_active_slot := -1, sf_active_end_us := 0\<rparr>"

definition end_begin_section :: "nat \<Rightarrow> int \<Rightarrow> 'h scheduler \<Rightarrow> (int \<times> u8 \<times> bool \<times> 'h scheduler) option" where
  "end_begin_section i now s =
     (let fan = sched_fan s i
      in if \<not> sf_operation_pending fan \<and> 0 \<le> sf_active_slot fan \<and> (sch_inhibited s \<or> sf_active_end_us fan \<le> now)
         then Some (sf_active_slot fan, sf_saved_manual_target fan, sch_inhibited s,
                    upd_fan i (\<lambda>fan. fan\<lparr>sf_operation_pending := True\<rparr>) s)
         else None)"

definition end_finish_section :: "nat \<Rightarrow> 'h scheduler \<Rightarrow> 'h scheduler" where
  "end_finish_section i s = release_fan_operation_locked i (upd_fan i deactivate s)"

definition process_schedule_end :: "'h sched_ops \<Rightarrow> nat \<Rightarrow> int \<Rightarrow> 'h scheduler \<Rightarrow> 'h \<Rightarrow> 'h scheduler \<times> 'h" where
  "process_schedule_end ops i now s h =
     (case lock ops s h of (s0, h0) \<Rightarrow>
      case end_begin_section i now s0 of None \<Rightarrow> (s0, h0)
      | Some (slot, restore_target, inhibited, s1) \<Rightarrow>
        (case apply_target s1 (target_request SCHEDULER_TARGET_RESTORE i slot restore_target s1) h0 of (result, h1) \<Rightarrow>
         case lock ops s1 h1 of (s2, h2) \<Rightarrow>
           let s3 = end_finish_section i s2
           in (s3, notify_event s3 (fan_event SCHEDULER_EVENT_ENDED i slot restore_target inhibited
                     (res_accepted result) s3) h2)))"

text \<open>The round-robin search from \<open>cursor\<close>: a due enabled slot, arming the enabled slots it passes
  that have no trigger yet.\<close>

definition armed_entry :: "int \<Rightarrow> schedule_entry \<Rightarrow> schedule_entry" where
  "armed_entry now e =
     (if en_next_trigger_us e = 0 then e\<lparr>en_next_trigger_us := trigger_after now (en_interval_min e)\<rparr> else e)"

fun scan_slots :: "int \<Rightarrow> nat list \<Rightarrow> schedule_fan_state \<Rightarrow> nat option \<times> schedule_fan_state" where
  "scan_slots now [] fan = (None, fan)"
| "scan_slots now (slot # slots) fan =
     (if \<not> en_enabled (sf_entries fan ! slot) then scan_slots now slots fan
      else let fan1 = upd_entry slot (armed_entry now) fan
           in if now < en_next_trigger_us (sf_entries fan1 ! slot) then scan_slots now slots fan1
              else (Some slot, fan1))"

definition slot_order :: "nat \<Rightarrow> u8 \<Rightarrow> nat list" where
  "slot_order slots cursor = map (\<lambda>candidate. (unat cursor + candidate) mod slots) [0..<slots]"

definition start_begin_section ::
  "nat \<Rightarrow> nat \<Rightarrow> int \<Rightarrow> 'h scheduler \<Rightarrow> (nat \<times> u8 \<times> u32) option \<times> 'h scheduler" where
  "start_begin_section slots i now s =
     (let fan = sched_fan s i
      in if \<not> sf_operation_pending fan \<and> \<not> sch_inhibited s \<and> sf_active_slot fan < 0
         then (case scan_slots now (slot_order slots (sf_cursor fan)) fan of
                 (None, fan') \<Rightarrow> (None, upd_fan i (\<lambda>_. fan') s)
               | (Some slot, fan') \<Rightarrow>
                 (Some (slot, en_target_pct (sf_entries fan' ! slot), en_duration_min (sf_entries fan' ! slot)),
                  upd_fan i (\<lambda>_. fan'\<lparr>sf_operation_pending := True\<rparr>) s))
         else (None, s))"

definition start_finish_section ::
  "nat \<Rightarrow> nat \<Rightarrow> int \<Rightarrow> nat \<Rightarrow> u32 \<Rightarrow> scheduler_target_result \<Rightarrow> 'h scheduler \<Rightarrow> bool \<times> 'h scheduler" where
  "start_finish_section slots i now slot duration result s =
     (let fan = sched_fan s i; entry = sf_entries fan ! slot;
          started = (res_accepted result \<and> en_enabled entry \<and> \<not> sch_inhibited s \<and> sf_active_slot fan < 0);
          fan' = (if started
                  then upd_entry slot (\<lambda>e. e\<lparr>en_next_trigger_us := trigger_after now (en_interval_min e)\<rparr>)
                         (fan\<lparr>sf_saved_manual_target := res_manual_target_pct result, sf_active_slot := int slot,
                              sf_cursor := of_nat ((slot + 1) mod slots),
                              sf_active_end_us := trigger_after now duration\<rparr>)
                  else fan)
      in (started, release_fan_operation_locked i (upd_fan i (\<lambda>_. fan') s)))"

definition process_schedule_start :: "'h sched_ops \<Rightarrow> nat \<Rightarrow> int \<Rightarrow> 'h scheduler \<Rightarrow> 'h \<Rightarrow> 'h scheduler \<times> 'h" where
  "process_schedule_start ops i now s h =
     (case lock ops s h of (s0, h0) \<Rightarrow>
      case start_begin_section (CONFIG_SCHEDULE_SLOTS ops) i now s0 of
        (None, s1) \<Rightarrow> (s1, h0)
      | (Some (slot, target_pct, duration_min), s1) \<Rightarrow>
        (case apply_target s1 (target_request SCHEDULER_TARGET_START i (int slot) target_pct s1) h0 of (result, h1) \<Rightarrow>
         case lock ops s1 h1 of (s2, h2) \<Rightarrow>
         case start_finish_section (CONFIG_SCHEDULE_SLOTS ops) i now slot duration_min result s2 of (started, s3) \<Rightarrow>
           (s3, if started then notify_event s3 (fan_event SCHEDULER_EVENT_STARTED i (int slot) target_pct False True s3) h2
                else h2)))"

fun process_fans :: "'h sched_ops \<Rightarrow> int \<Rightarrow> nat list \<Rightarrow> 'h scheduler \<Rightarrow> 'h \<Rightarrow> 'h scheduler \<times> 'h" where
  "process_fans ops now [] s h = (s, h)"
| "process_fans ops now (i # is) s h =
     (case process_schedule_end ops i now s h of (s1, h1) \<Rightarrow>
      case process_schedule_start ops i now s1 h1 of (s2, h2) \<Rightarrow> process_fans ops now is s2 h2)"

definition scheduler_task_start :: "'h sched_ops \<Rightarrow> 'h scheduler \<Rightarrow> 'h \<Rightarrow> 'h scheduler \<times> 'h" where
  "scheduler_task_start ops s h =
     (case lock ops s h of (s1, h1) \<Rightarrow> (s1\<lparr>sch_scheduler_task_ready := True\<rparr>, h1))"

text \<open>One iteration of \<open>scheduler_task_main\<close>, up to its delay.\<close>

definition scheduler_task_iteration :: "'h sched_ops \<Rightarrow> 'h scheduler \<Rightarrow> 'h \<Rightarrow> 'h scheduler \<times> 'h" where
  "scheduler_task_iteration ops s h =
     (case os_timer_us ops h of (now, h1) \<Rightarrow>
      case process_fans ops now [0..<sched_fan_count s] s h1 of (s2, h2) \<Rightarrow>
      case os_timer_us ops h2 of (beat, h3) \<Rightarrow> (s2\<lparr>sch_heartbeat_us := beat\<rparr>, h3))"

section \<open>Initialization and start\<close>

definition scheduler_init ::
  "'h sched_ops \<Rightarrow> 'h scheduler_config option \<Rightarrow> 'h scheduler \<Rightarrow> 'h \<Rightarrow> esp_err \<times> 'h scheduler \<times> 'h" where
  "scheduler_init ops config s h =
     (let usable = (case config of None \<Rightarrow> False
        | Some c \<Rightarrow> scc_apply_target c \<noteq> None \<and>
            (case scc_app_config c of None \<Rightarrow> False
             | Some a \<Rightarrow> 1 \<le> fan_count a \<and> fan_count a \<le> int APP_CONFIG_MAX_FANS))
      in if \<not> usable then (ESP_ERR_INVALID_ARG, s, h)
      else if sch_initialized s \<or> sch_init_started s then (ESP_ERR_INVALID_STATE, s, h)
      else let s1 = s\<lparr>sch_init_started := True\<rparr>;
               (mutex, h1) = os_semaphore_create ops h;
               (sync_mutex, h2) = os_semaphore_create ops h1;
               (sync_complete, h3) = os_semaphore_create ops h2;
               delete = (\<lambda>x h. case x of None \<Rightarrow> h | Some handle \<Rightarrow> os_semaphore_delete ops handle h)
      in if mutex = None \<or> sync_mutex = None \<or> sync_complete = None
         then (ESP_ERR_NO_MEM, s1\<lparr>sch_init_started := False\<rparr>, delete sync_complete (delete sync_mutex (delete mutex h3)))
         else let s2 = s1\<lparr>sch_mutex := mutex, sch_sync_mutex := sync_mutex, sch_sync_complete := sync_complete,
                          sch_config := the config,
                          sch_fans := map (\<lambda>fan. fan\<lparr>sf_active_slot := -1\<rparr>) (sch_fans s1)\<rparr>
         in case load_from_nvs ops s2 h3 of (_, s3, h4) \<Rightarrow> (ESP_OK, s3\<lparr>sch_initialized := True\<rparr>, h4))"

definition scheduler_start :: "'h sched_ops \<Rightarrow> 'h scheduler \<Rightarrow> 'h \<Rightarrow> esp_err \<times> 'h scheduler \<times> 'h" where
  "scheduler_start ops s h =
     (if \<not> sch_initialized s \<or> sch_start_started s then (ESP_ERR_INVALID_STATE, s, h)
      else let s1 = s\<lparr>sch_start_started := True\<rparr>
      in case os_task_create ops h of
        (None, h1) \<Rightarrow> (ESP_ERR_NO_MEM, s1\<lparr>sch_start_started := False\<rparr>, h1)
      | (Some save_task, h1) \<Rightarrow>
        let s2 = s1\<lparr>sch_save_task := Some save_task\<rparr>
        in case os_task_create ops h1 of
          (None, h2) \<Rightarrow> (ESP_ERR_NO_MEM, s2\<lparr>sch_save_task := None, sch_start_started := False\<rparr>,
                         os_task_delete ops save_task h2)
        | (Some scheduler_task, h2) \<Rightarrow> (ESP_OK, s2\<lparr>sch_scheduler_task := Some scheduler_task\<rparr>, h2))"

section \<open>Commands\<close>

definition manual_finish_section :: "nat \<Rightarrow> scheduler_target_result \<Rightarrow> 'h scheduler \<Rightarrow> int \<times> 'h scheduler" where
  "manual_finish_section i result s =
     (let cancel = (res_accepted result \<and> 0 \<le> sf_active_slot (sched_fan s i))
      in (if cancel then sf_active_slot (sched_fan s i) else -1,
          release_fan_operation_locked i (if cancel then upd_fan i deactivate s else s)))"

text \<open>\<open>out\<close> is what \<open>*out_result\<close> holds at return, \<open>None\<close> when it was not written.\<close>

definition scheduler_apply_manual_target ::
  "'h sched_ops \<Rightarrow> int \<Rightarrow> u8 \<Rightarrow> 'h scheduler \<Rightarrow> 'h \<Rightarrow>
     (esp_err \<times> scheduler_target_result option \<times> 'h scheduler \<times> 'h) option" where
  "scheduler_apply_manual_target ops local_fan target_pct s h =
     (if target_pct > 100 \<or> \<not> local_fan_valid s local_fan then Some (ESP_ERR_INVALID_ARG, None, s, h)
      else let i = nat local_fan
      in case reserve_fan_operation ops i s h of None \<Rightarrow> None
      | Some (ok, s1, h1) \<Rightarrow>
        if \<not> ok then Some (ESP_ERR_TIMEOUT, Some target_result_zero, s1, h1)
        else (case apply_target s1 (target_request SCHEDULER_TARGET_MANUAL i (-1) target_pct s1) h1 of (result, h2) \<Rightarrow>
              case lock ops s1 h2 of (s3, h3) \<Rightarrow>
              case manual_finish_section i result s3 of (cancelled_slot, s4) \<Rightarrow>
                Some (ESP_OK, Some result, s4,
                      if 0 \<le> cancelled_slot
                      then notify_event s4 (fan_event SCHEDULER_EVENT_MANUAL_CANCELLED i cancelled_slot target_pct False True s4) h3
                      else h3)))"

text \<open>The state change of an override: what it captured for the restores, or \<open>None\<close> when a safety
  stop has latched the inhibit.\<close>

definition rearm_entry :: "int \<Rightarrow> schedule_entry \<Rightarrow> schedule_entry" where
  "rearm_entry now e =
     (if en_enabled e then e\<lparr>en_next_trigger_us := trigger_after now (en_interval_min e)\<rparr> else e)"

definition override_section ::
  "bool \<Rightarrow> int \<Rightarrow> 'h scheduler \<Rightarrow> (nat \<times> int \<times> u8) list option \<times> 'h scheduler" where
  "override_section inhibited now s =
     (if \<not> inhibited \<and> sch_runtime_inhibit_latched s then (None, release_all_fans_locked s)
      else let s1 = s\<lparr>sch_inhibited := inhibited\<rparr>
      in if inhibited
         then (Some (map (\<lambda>fan. (fan, sf_active_slot (sched_fan s1 fan), sf_saved_manual_target (sched_fan s1 fan)))
                         [0..<sched_fan_count s1]), s1)
         else (Some [], fold (\<lambda>fan. upd_fan fan (\<lambda>f. f\<lparr>sf_entries := map (rearm_entry now) (sf_entries f)\<rparr>))
                             [0..<sched_fan_count s1] s1))"

fun override_restore ::
  "(nat \<times> int \<times> u8) list \<Rightarrow> 'h scheduler \<Rightarrow> 'h \<Rightarrow> (nat \<times> int \<times> u8 \<times> bool) list \<times> 'h" where
  "override_restore [] s h = ([], h)"
| "override_restore ((fan, slot, target) # rest) s h =
     (if slot < 0 then override_restore rest s h
      else case apply_target s (target_request SCHEDULER_TARGET_RESTORE fan slot target s) h of (result, h1) \<Rightarrow>
           case override_restore rest s h1 of (ended, h2) \<Rightarrow> ((fan, slot, target, res_accepted result) # ended, h2))"

definition override_finish_section :: "(nat \<times> int \<times> u8 \<times> bool) list \<Rightarrow> 'h scheduler \<Rightarrow> 'h scheduler" where
  "override_finish_section ended s =
     release_all_fans_locked (fold (\<lambda>(fan, _). upd_fan fan deactivate) ended s)"

definition scheduler_set_override ::
  "'h sched_ops \<Rightarrow> bool \<Rightarrow> 'h scheduler \<Rightarrow> 'h \<Rightarrow> (esp_err \<times> 'h scheduler \<times> 'h) option" where
  "scheduler_set_override ops inhibited s h =
     (if \<not> scheduler_is_initialized s then Some (ESP_ERR_INVALID_STATE, s, h)
      else case (if \<not> inhibited then lock ops s h else (s, h)) of (s0, h0) \<Rightarrow>
      if \<not> inhibited \<and> sch_runtime_inhibit_latched s0 then Some (ESP_ERR_INVALID_STATE, s0, h0)
      else case reserve_all_fans ops s0 h0 of None \<Rightarrow> None
      | Some (ok, s1, h1) \<Rightarrow>
        if \<not> ok then Some (ESP_ERR_TIMEOUT, s1, h1)
        else (case os_timer_us ops h1 of (now, h2) \<Rightarrow>
              case lock ops s1 h2 of (s3, h3) \<Rightarrow>
              case override_section inhibited now s3 of
                (None, s4) \<Rightarrow> Some (ESP_ERR_INVALID_STATE, s4, h3)
              | (Some captured, s4) \<Rightarrow>
                (case override_restore captured s4 h3 of (ended, h5) \<Rightarrow>
                 case lock ops s4 h5 of (s6, h6) \<Rightarrow>
                   let s7 = override_finish_section ended s6;
                       h7 = request_save ops s7 h6;
                       h8 = fold (\<lambda>(fan, slot, target, applied). notify_event s7
                              (fan_event SCHEDULER_EVENT_ENDED fan slot target True applied s7)) ended h7
                   in Some (ESP_OK, s7, notify_event s7 (global_event SCHEDULER_EVENT_OVERRIDE_CHANGED inhibited) h8))))"

definition scheduler_get_override ::
  "'h sched_ops \<Rightarrow> 'h scheduler \<Rightarrow> 'h \<Rightarrow> esp_err \<times> bool option \<times> 'h scheduler \<times> 'h" where
  "scheduler_get_override ops s h =
     (if \<not> scheduler_is_initialized s then (ESP_ERR_INVALID_STATE, None, s, h)
      else case lock ops s h of (s1, h1) \<Rightarrow> (ESP_OK, Some (sch_inhibited s1), s1, h1))"

definition set_entry_section :: "nat \<Rightarrow> nat \<Rightarrow> u32 \<Rightarrow> u32 \<Rightarrow> u8 \<Rightarrow> int \<Rightarrow> 'h scheduler \<Rightarrow> 'h scheduler" where
  "set_entry_section i slot interval_min duration_min target_pct now s =
     release_fan_operation_locked i (upd_fan i (upd_entry slot (\<lambda>_. \<lparr>en_enabled = True,
       en_interval_min = interval_min, en_duration_min = duration_min, en_target_pct = target_pct,
       en_next_trigger_us = trigger_after now interval_min\<rparr>)) s)"

definition scheduler_set_entry ::
  "'h sched_ops \<Rightarrow> int \<Rightarrow> int \<Rightarrow> u32 \<Rightarrow> u32 \<Rightarrow> u8 \<Rightarrow> 'h scheduler \<Rightarrow> 'h \<Rightarrow>
     (esp_err \<times> 'h scheduler \<times> 'h) option" where
  "scheduler_set_entry ops local_fan slot interval_min duration_min target_pct s h =
     (if \<not> local_fan_valid s local_fan \<or> \<not> slot_valid ops slot \<or>
         \<not> entry_config_valid interval_min duration_min (ucast target_pct)
      then Some (ESP_ERR_INVALID_ARG, s, h)
      else case reserve_fan_operation ops (nat local_fan) s h of None \<Rightarrow> None
      | Some (ok, s1, h1) \<Rightarrow>
        if \<not> ok then Some (ESP_ERR_TIMEOUT, s1, h1)
        else (case os_timer_us ops h1 of (now, h2) \<Rightarrow>
              case lock ops s1 h2 of (s3, h3) \<Rightarrow>
                let s4 = set_entry_section (nat local_fan) (nat slot) interval_min duration_min target_pct now s3;
                    h4 = request_save ops s4 h3
                in Some (ESP_OK, s4, notify_event s4
                     (fan_event SCHEDULER_EVENT_ENTRY_SET (nat local_fan) slot target_pct False False s4) h4)))"

definition disable_finish_section :: "nat \<Rightarrow> nat \<Rightarrow> bool \<Rightarrow> 'h scheduler \<Rightarrow> 'h scheduler" where
  "disable_finish_section i slot was_active s =
     (let s1 = (if was_active then upd_fan i deactivate s else s)
      in release_fan_operation_locked i
           (upd_fan i (upd_entry slot (\<lambda>e. e\<lparr>en_enabled := False, en_next_trigger_us := 0\<rparr>)) s1))"

definition scheduler_disable_entry ::
  "'h sched_ops \<Rightarrow> int \<Rightarrow> int \<Rightarrow> 'h scheduler \<Rightarrow> 'h \<Rightarrow> (esp_err \<times> 'h scheduler \<times> 'h) option" where
  "scheduler_disable_entry ops local_fan slot s h =
     (if \<not> local_fan_valid s local_fan \<or> \<not> slot_valid ops slot then Some (ESP_ERR_INVALID_ARG, s, h)
      else let i = nat local_fan
      in case reserve_fan_operation ops i s h of None \<Rightarrow> None
      | Some (ok, s1, h1) \<Rightarrow>
        if \<not> ok then Some (ESP_ERR_TIMEOUT, s1, h1)
        else (case lock ops s1 h1 of (s2, h2) \<Rightarrow>
              let was_active = (sf_active_slot (sched_fan s2 i) = slot);
                  restore_target = sf_saved_manual_target (sched_fan s2 i);
                  (result, h3) = (if was_active
                    then apply_target s2 (target_request SCHEDULER_TARGET_RESTORE i slot restore_target s2) h2
                    else (target_result_zero, h2))
              in case lock ops s2 h3 of (s4, h4) \<Rightarrow>
                let s5 = disable_finish_section i (nat slot) was_active s4;
                    h5 = request_save ops s5 h4
                in Some (ESP_OK, s5, notify_event s5 (fan_event SCHEDULER_EVENT_ENTRY_DISABLED i slot restore_target
                     False (\<not> was_active \<or> res_accepted result) s5) h5)))"

definition entry_snapshot_section :: "nat \<Rightarrow> int \<Rightarrow> 'h scheduler \<Rightarrow> scheduler_entry_snapshot" where
  "entry_snapshot_section i slot s =
     (let fan = sched_fan s i; entry = sf_entries fan ! nat slot
      in \<lparr>snap_enabled = en_enabled entry, snap_interval_min = en_interval_min entry,
          snap_duration_min = en_duration_min entry, snap_target_pct = en_target_pct entry,
          snap_next_trigger_us = en_next_trigger_us entry, snap_active = (sf_active_slot fan = slot),
          snap_active_end_us = (if sf_active_slot fan = slot then sf_active_end_us fan else 0)\<rparr>)"

definition scheduler_get_entry ::
  "'h sched_ops \<Rightarrow> int \<Rightarrow> int \<Rightarrow> 'h scheduler \<Rightarrow> 'h \<Rightarrow> esp_err \<times> scheduler_entry_snapshot option \<times> 'h scheduler \<times> 'h" where
  "scheduler_get_entry ops local_fan slot s h =
     (if \<not> local_fan_valid s local_fan \<or> \<not> slot_valid ops slot then (ESP_ERR_INVALID_ARG, None, s, h)
      else case lock ops s h of (s1, h1) \<Rightarrow>
        (ESP_OK, Some (entry_snapshot_section (nat local_fan) slot s1), s1, h1))"

definition cancel_section :: "nat \<Rightarrow> 'h scheduler \<Rightarrow> int \<times> 'h scheduler" where
  "cancel_section i s =
     (sf_active_slot (sched_fan s i), release_fan_operation_locked i (upd_fan i deactivate s))"

definition scheduler_cancel_fan ::
  "'h sched_ops \<Rightarrow> int \<Rightarrow> 'h scheduler \<Rightarrow> 'h \<Rightarrow> (esp_err \<times> 'h scheduler \<times> 'h) option" where
  "scheduler_cancel_fan ops local_fan s h =
     (if \<not> local_fan_valid s local_fan then Some (ESP_ERR_INVALID_ARG, s, h)
      else let i = nat local_fan
      in case reserve_fan_operation ops i s h of None \<Rightarrow> None
      | Some (ok, s1, h1) \<Rightarrow>
        if \<not> ok then Some (ESP_ERR_TIMEOUT, s1, h1)
        else (case lock ops s1 h1 of (s2, h2) \<Rightarrow>
              case cancel_section i s2 of (cancelled_slot, s3) \<Rightarrow>
                Some (ESP_OK, s3, if 0 \<le> cancelled_slot
                  then notify_event s3 (fan_event SCHEDULER_EVENT_FAN_CANCELLED i cancelled_slot 0 False False s3) h2
                  else h2)))"

section \<open>Safety inhibit, synchronous save, health\<close>

definition ticks_remaining :: "'h sched_ops \<Rightarrow> u32 \<Rightarrow> u32 \<Rightarrow> 'h \<Rightarrow> u32 \<times> 'h" where
  "ticks_remaining ops timeout_ticks started h =
     (if timeout_ticks \<noteq> portMAX_DELAY
      then (case os_tick_count ops h of (now, h1) \<Rightarrow>
              let elapsed = now - started in (if elapsed \<ge> timeout_ticks then 0 else timeout_ticks - elapsed, h1))
      else (portMAX_DELAY, h))"

definition inhibit_section :: "'h scheduler \<Rightarrow> 'h scheduler option" where
  "inhibit_section s =
     (if (\<exists>fan \<in> set [0..<sched_fan_count s]. sf_operation_pending (sched_fan s fan)) then None
      else Some (fold (\<lambda>fan. upd_fan fan deactivate) [0..<sched_fan_count s]
                   (s\<lparr>sch_inhibited := True, sch_runtime_inhibit_latched := True\<rparr>)))"

partial_function (option) inhibit_loop ::
  "'h sched_ops \<Rightarrow> u32 \<Rightarrow> u32 \<Rightarrow> 'h scheduler \<Rightarrow> 'h \<Rightarrow> (bool \<times> 'h scheduler \<times> 'h) option" where
  "inhibit_loop ops timeout_ticks started s h =
     (case ticks_remaining ops timeout_ticks started h of (remaining, h1) \<Rightarrow>
      case sch_take ops (the (sch_mutex s)) remaining s h1 of (taken, s2, h2) \<Rightarrow>
        if \<not> taken then Some (False, s2, h2)
        else case inhibit_section s2 of
          Some s3 \<Rightarrow> Some (True, s3, h2)
        | None \<Rightarrow>
          (case (if timeout_ticks \<noteq> portMAX_DELAY
                 then (case os_tick_count ops h2 of (now, h3) \<Rightarrow> (now - started \<ge> timeout_ticks, h3))
                 else (False, h2)) of (expired, h3) \<Rightarrow>
             if expired then Some (False, s2, h3)
             else (case sch_delay ops s2 h3 of (s4, h4) \<Rightarrow> inhibit_loop ops timeout_ticks started s4 h4)))"

definition save_request_section :: "nat \<Rightarrow> 'h scheduler \<Rightarrow> (nat \<times> u32 \<times> 'h scheduler) option" where
  "save_request_section current_task s =
     (case sch_save_task s of None \<Rightarrow> None
      | Some task \<Rightarrow>
        if sch_initialized s \<and> task \<noteq> current_task
        then let g = sch_sync_requested_generation s + 1
             in Some (task, g, s\<lparr>sch_sync_requested_generation := g\<rparr>)
        else None)"

partial_function (option) save_wait_loop ::
  "'h sched_ops \<Rightarrow> u32 \<Rightarrow> u32 \<Rightarrow> u32 \<Rightarrow> 'h scheduler \<Rightarrow> 'h \<Rightarrow> (esp_err \<times> 'h scheduler \<times> 'h) option" where
  "save_wait_loop ops generation timeout_ticks started_at s h =
     (if sch_sync_completed_generation s = generation then Some (sch_sync_result s, s, h)
      else case (if timeout_ticks \<noteq> portMAX_DELAY
                 then (case os_tick_count ops h of (now, h1) \<Rightarrow>
                         let elapsed = now - started_at
                         in (if elapsed \<ge> timeout_ticks then None else Some (timeout_ticks - elapsed), h1))
                 else (Some portMAX_DELAY, h)) of (remaining, h1) \<Rightarrow>
        (case remaining of None \<Rightarrow> Some (ESP_ERR_TIMEOUT, s, h1)
         | Some r \<Rightarrow>
           (case sch_take ops (the (sch_sync_complete s)) r s h1 of (taken, s2, h2) \<Rightarrow>
              if \<not> taken then Some (ESP_ERR_TIMEOUT, s2, h2)
              else save_wait_loop ops generation timeout_ticks started_at s2 h2)))"

definition scheduler_save_sync ::
  "'h sched_ops \<Rightarrow> u32 \<Rightarrow> 'h scheduler \<Rightarrow> 'h \<Rightarrow> (esp_err \<times> 'h scheduler \<times> 'h) option" where
  "scheduler_save_sync ops timeout_ticks s h =
     (case os_tick_count ops h of (started_at, h1) \<Rightarrow>
      if \<not> scheduler_is_initialized s then Some (ESP_ERR_INVALID_STATE, s, h1)
      else (case sch_sync_mutex s of None \<Rightarrow> Some (ESP_ERR_INVALID_STATE, s, h1)
       | Some mutex \<Rightarrow>
         (case sch_take ops mutex timeout_ticks s h1 of (taken, s2, h2) \<Rightarrow>
            if \<not> taken then Some (ESP_ERR_TIMEOUT, s2, h2)
            else (case save_request_section (os_current_task ops h2) s2 of
               None \<Rightarrow> Some (ESP_ERR_INVALID_STATE, s2, os_semaphore_give ops mutex h2)
             | Some (task, generation, s3) \<Rightarrow>
               (case save_wait_loop ops generation timeout_ticks started_at s3
                      (os_task_notify ops task SAVE_NOTIFY_SYNC h2) of
                  None \<Rightarrow> None
                | Some (result, s4, h4) \<Rightarrow> Some (result, s4, os_semaphore_give ops mutex h4))))))"

definition scheduler_try_inhibit_all ::
  "'h sched_ops \<Rightarrow> u32 \<Rightarrow> 'h scheduler \<Rightarrow> 'h \<Rightarrow> (esp_err \<times> 'h scheduler \<times> 'h) option" where
  "scheduler_try_inhibit_all ops timeout_ticks s h =
     (if \<not> scheduler_is_initialized s then Some (ESP_ERR_INVALID_STATE, s, h)
      else case os_tick_count ops h of (started, h1) \<Rightarrow>
      (case inhibit_loop ops timeout_ticks started s h1 of None \<Rightarrow> None
       | Some (done_, s2, h2) \<Rightarrow>
         if \<not> done_ then Some (ESP_ERR_TIMEOUT, s2, h2)
         else (case ticks_remaining ops timeout_ticks started h2 of (remaining, h3) \<Rightarrow>
               case scheduler_save_sync ops remaining s2 h3 of None \<Rightarrow> None
               | Some (persist_error, s4, h4) \<Rightarrow>
                 let h5 = (if persist_error \<noteq> ESP_OK then request_save ops s4 h4 else h4)
                 in Some (persist_error, s4, notify_event s4 (global_event SCHEDULER_EVENT_INHIBITED_ALL True) h5))))"

definition scheduler_inhibit_all ::
  "'h sched_ops \<Rightarrow> 'h scheduler \<Rightarrow> 'h \<Rightarrow> (esp_err \<times> 'h scheduler \<times> 'h) option" where
  "scheduler_inhibit_all ops s h = scheduler_try_inhibit_all ops portMAX_DELAY s h"

definition scheduler_get_heartbeat_us :: "'h scheduler \<Rightarrow> int" where
  "scheduler_get_heartbeat_us s = sch_heartbeat_us s"

definition scheduler_health_snapshot ::
  "'h sched_ops \<Rightarrow> 'h scheduler \<Rightarrow> 'h \<Rightarrow> scheduler_health_snapshot \<times> 'h scheduler \<times> 'h" where
  "scheduler_health_snapshot ops s h =
     (let snapshot = \<lparr>shs_feature_enabled = True, shs_initialized = sch_initialized s,
            shs_scheduler_task_ready = False, shs_save_task_ready = False, shs_inhibited = False,
            shs_heartbeat_us = 0, shs_scheduler_task_stack_bytes = 0, shs_save_task_stack_bytes = 0\<rparr>;
          stack = (\<lambda>task h. case task of None \<Rightarrow> 0 | Some t \<Rightarrow> os_stack_bytes ops t h)
      in if sch_mutex s = None then (snapshot, s, h)
         else case lock ops s h of (s1, h1) \<Rightarrow>
           (snapshot\<lparr>shs_scheduler_task_ready := sch_scheduler_task_ready s1,
                     shs_save_task_ready := sch_save_task_ready s1, shs_inhibited := sch_inhibited s1,
                     shs_heartbeat_us := scheduler_get_heartbeat_us s1,
                     shs_scheduler_task_stack_bytes := stack (sch_scheduler_task s) h1,
                     shs_save_task_stack_bytes := stack (sch_save_task s) h1\<rparr>, s1, h1))"

section \<open>The build without schedules\<close>

record 'h scheduler_stub =
  stub_initialized :: bool
  stub_config :: "'h scheduler_config"

definition scheduler_init_stub :: "'h scheduler_config option \<Rightarrow> 'h scheduler_stub \<Rightarrow> esp_err \<times> 'h scheduler_stub" where
  "scheduler_init_stub config s =
     (case config of None \<Rightarrow> (ESP_ERR_INVALID_ARG, s)
      | Some c \<Rightarrow>
        if scc_app_config c = None \<or> scc_apply_target c = None then (ESP_ERR_INVALID_ARG, s)
        else if stub_initialized s then (ESP_ERR_INVALID_STATE, s)
        else (ESP_OK, \<lparr>stub_initialized = True, stub_config = c\<rparr>))"

definition scheduler_start_stub :: "'h scheduler_stub \<Rightarrow> esp_err" where
  "scheduler_start_stub s = (if stub_initialized s then ESP_OK else ESP_ERR_INVALID_STATE)"

definition scheduler_apply_manual_target_stub ::
  "int \<Rightarrow> u8 \<Rightarrow> 'h scheduler_stub \<Rightarrow> 'h \<Rightarrow> esp_err \<times> scheduler_target_result option \<times> 'h" where
  "scheduler_apply_manual_target_stub local_fan target_pct s h =
     (if \<not> stub_initialized s \<or> local_fan < 0 \<or>
         fan_count (the (scc_app_config (stub_config s))) \<le> local_fan \<or> target_pct > 100
      then (ESP_ERR_INVALID_ARG, None, h)
      else case the (scc_apply_target (stub_config s)) \<lparr>req_kind = SCHEDULER_TARGET_MANUAL, req_local_fan = local_fan,
             req_fan_number = fan_index_start (the (scc_app_config (stub_config s))) + local_fan,
             req_slot = -1, req_target_pct = target_pct\<rparr> h of (result, h1) \<Rightarrow>
        (ESP_OK, Some (if res_manual_target_pct result > 100 then result\<lparr>res_accepted := False\<rparr> else result), h1))"

definition scheduler_health_snapshot_stub :: "'h scheduler_stub \<Rightarrow> scheduler_health_snapshot" where
  "scheduler_health_snapshot_stub s = \<lparr>shs_feature_enabled = False, shs_initialized = stub_initialized s,
     shs_scheduler_task_ready = False, shs_save_task_ready = False, shs_inhibited = False, shs_heartbeat_us = 0,
     shs_scheduler_task_stack_bytes = 0, shs_save_task_stack_bytes = 0\<rparr>"

text \<open>The other operations of that build are constants: \<open>scheduler_get_override\<close> writes false,
  \<open>scheduler_get_entry\<close> a zeroed snapshot.\<close>

definition scheduler_set_override_stub :: esp_err where "scheduler_set_override_stub = ESP_ERR_NOT_SUPPORTED"
definition scheduler_get_override_stub :: "esp_err \<times> bool" where
  "scheduler_get_override_stub = (ESP_ERR_NOT_SUPPORTED, False)"
definition scheduler_set_entry_stub :: esp_err where "scheduler_set_entry_stub = ESP_ERR_NOT_SUPPORTED"
definition scheduler_disable_entry_stub :: esp_err where "scheduler_disable_entry_stub = ESP_ERR_NOT_SUPPORTED"
definition scheduler_get_entry_stub :: "esp_err \<times> scheduler_entry_snapshot" where
  "scheduler_get_entry_stub = (ESP_ERR_NOT_SUPPORTED, \<lparr>snap_enabled = False, snap_interval_min = 0,
     snap_duration_min = 0, snap_target_pct = 0, snap_next_trigger_us = 0, snap_active = False, snap_active_end_us = 0\<rparr>)"
definition scheduler_cancel_fan_stub :: esp_err where "scheduler_cancel_fan_stub = ESP_OK"
definition scheduler_inhibit_all_stub :: esp_err where "scheduler_inhibit_all_stub = ESP_OK"
definition scheduler_save_sync_stub :: esp_err where "scheduler_save_sync_stub = ESP_OK"

end
