(* ===== verification/App_Callbacks.thy ===== *)
theory App_Callbacks imports Motor_Control Fan_State_Store Scheduler
begin

text \<open>
  The callbacks of \<open>main/app_main.c\<close> that compose the components: the fan-state store and the
  scheduler reach the motor controller only through them. The state they act on is the motor
  controller's next to the rest of the world, \<open>motor_state \<times> 'w\<close>; the publishes they request of
  \<open>state_publisher.c\<close> are values.
\<close>

text \<open>The platform's three reset reasons it compares with are its first arguments.\<close>

definition reset_reason_allows_motion_restore :: "'r \<Rightarrow> 'r \<Rightarrow> 'r \<Rightarrow> 'r \<Rightarrow> bool" where
  "reset_reason_allows_motion_restore ESP_RST_POWERON ESP_RST_SW ESP_RST_DEEPSLEEP reason \<longleftrightarrow>
     reason = ESP_RST_POWERON \<or> reason = ESP_RST_SW \<or> reason = ESP_RST_DEEPSLEEP"

datatype publish_request = Publish_Fan int bool | Publish_All

definition motor_event_callback :: "motor_control_event \<Rightarrow> publish_request list" where
  "motor_event_callback event =
     (if 0 \<le> ev_local_fan event
      then [Publish_Fan (ev_local_fan event) (ev_type event \<noteq> MOTOR_CONTROL_EVENT_APPLIED_CHANGED)] else [])"

fun snapshot_loop :: "nat list \<Rightarrow> motor_state \<Rightarrow> u8 list option" where
  "snapshot_loop [] m = Some []"
| "snapshot_loop (i # is) m =
     (case motor_control_get_fan_snapshot (int i) m of None \<Rightarrow> None
      | Some snapshot \<Rightarrow>
        (case snapshot_loop is m of None \<Rightarrow> None | Some ts \<Rightarrow> Some (fs_manual_target_pct snapshot # ts)))"

definition fan_state_snapshot_targets :: "app_config option \<Rightarrow> nat \<Rightarrow> motor_state \<Rightarrow> u8 list option" where
  "fan_state_snapshot_targets app target_count m =
     (case app of None \<Rightarrow> None
      | Some c \<Rightarrow> if target_count \<noteq> nat (fan_count c) then None else snapshot_loop [0..<nat (fan_count c)] m)"

definition fan_state_restore_targets :: "u8 list \<Rightarrow> nat \<Rightarrow> motor_state \<Rightarrow> bool \<times> motor_state" where
  "fan_state_restore_targets targets target_count m =
     (case motor_control_restore_all (Some targets) target_count m of (err, m') \<Rightarrow> (err = ESP_OK, m'))"

definition scheduler_apply_target_callback ::
  "scheduler_target_request \<Rightarrow> motor_state \<Rightarrow> scheduler_target_result \<times> motor_state" where
  "scheduler_apply_target_callback request m =
     (case req_kind request of
        SCHEDULER_TARGET_MANUAL \<Rightarrow>
          (case motor_control_request_manual (req_local_fan request) (req_target_pct request) m of (err, ack, m') \<Rightarrow>
             (if err = ESP_OK
              then \<lparr>res_accepted = ack_accepted ack, res_manual_target_pct = req_target_pct request,
                    res_communication_inhibit_cleared = ack_communication_inhibit_cleared ack,
                    res_accepted_command_count = ack_accepted_command_count ack,
                    res_requested_pct = ack_requested_pct ack, res_applied_pct = ack_applied_pct ack\<rparr>
              else target_result_zero, m'))
      | SCHEDULER_TARGET_START \<Rightarrow>
          (case motor_control_request_scheduled (req_local_fan request) (req_target_pct request) m of (err, manual, m') \<Rightarrow>
             (target_result_zero\<lparr>res_accepted := (err = ESP_OK),
                res_manual_target_pct := (case manual of None \<Rightarrow> 0 | Some v \<Rightarrow> v)\<rparr>, m'))
      | SCHEDULER_TARGET_RESTORE \<Rightarrow>
          (case motor_control_request_automatic (req_local_fan request) (req_target_pct request) m of (err, m') \<Rightarrow>
             (target_result_zero\<lparr>res_accepted := (err = ESP_OK)\<rparr>, m')))"

definition scheduler_notify_callback :: "scheduler_event \<Rightarrow> publish_request list" where
  "scheduler_notify_callback event =
     (if 0 \<le> sev_local_fan event then [Publish_Fan (sev_local_fan event) True]
      else if sev_type event = SCHEDULER_EVENT_INHIBITED_ALL then [Publish_All] else [])"

text \<open>The configurations \<open>app_main\<close> passes to the two modules.\<close>

definition app_fan_state_config :: "app_config \<Rightarrow> (motor_state \<times> 'w) fan_state_store_config" where
  "app_fan_state_config c = \<lparr>fsc_app_config = Some c,
     fsc_snapshot_targets = Some (\<lambda>n (m, w). (fan_state_snapshot_targets (Some c) n m, (m, w))),
     fsc_restore_targets = Some (\<lambda>ts n (m, w). case fan_state_restore_targets ts n m of (ok, m') \<Rightarrow> (ok, (m', w)))\<rparr>"

definition app_scheduler_config ::
  "app_config \<Rightarrow> (publish_request list \<Rightarrow> 'w \<Rightarrow> 'w) \<Rightarrow> (motor_state \<times> 'w) scheduler_config" where
  "app_scheduler_config c publish = \<lparr>scc_app_config = Some c,
     scc_apply_target = Some (\<lambda>request (m, w). case scheduler_apply_target_callback request m of (r, m') \<Rightarrow> (r, (m', w))),
     scc_notify = Some (\<lambda>event (m, w). (m, publish (scheduler_notify_callback event) w))\<rparr>"

end
