(* ===== verification/Scheduler_Protocol.thy ===== *)
theory Scheduler_Protocol imports Scheduler
begin

text \<open>
  The scheduler under concurrency. Every region under the mutex is one step of the task that
  executes it; between two regions of a task the other tasks run. The ghost map \<open>claims\<close> says
  which task has reserved a fan and what it captured when it did; \<open>sched_step\<close> is the protocol
  the code follows, and \<open>protocol_inv\<close> what holds in every interleaving.
\<close>

section \<open>Selectors of the updates\<close>

lemma sched_fan_upd_fan:
  "i < length (sch_fans s) \<Longrightarrow> sched_fan (upd_fan i f s) j = (if j = i then f (sched_fan s i) else sched_fan s j)"
  by (simp add: sched_fan_def upd_fan_def nth_list_update)

lemma upd_fan_select [simp]:
  "length (sch_fans (upd_fan i f s)) = length (sch_fans s)" "sch_config (upd_fan i f s) = sch_config s"
  "sch_inhibited (upd_fan i f s) = sch_inhibited s"
  "sch_runtime_inhibit_latched (upd_fan i f s) = sch_runtime_inhibit_latched s"
  "sch_initialized (upd_fan i f s) = sch_initialized s" "sch_save_task (upd_fan i f s) = sch_save_task s"
  "sch_mutex (upd_fan i f s) = sch_mutex s" "sched_fan_count (upd_fan i f s) = sched_fan_count s"
  by (simp_all add: upd_fan_def sched_fan_count_def)

lemma upd_fan_fold_select [simp]:
  "length (sch_fans (fold (\<lambda>x. upd_fan (g x) (f x)) xs s)) = length (sch_fans s)"
  "sch_config (fold (\<lambda>x. upd_fan (g x) (f x)) xs s) = sch_config s"
  "sch_inhibited (fold (\<lambda>x. upd_fan (g x) (f x)) xs s) = sch_inhibited s"
  "sch_runtime_inhibit_latched (fold (\<lambda>x. upd_fan (g x) (f x)) xs s) = sch_runtime_inhibit_latched s"
  "sched_fan_count (fold (\<lambda>x. upd_fan (g x) (f x)) xs s) = sched_fan_count s"
  by (induction xs arbitrary: s) simp_all

lemma sched_fan_fold:
  "distinct (map g xs) \<Longrightarrow> \<forall>x \<in> set xs. g x < length (sch_fans s) \<Longrightarrow>
   sched_fan (fold (\<lambda>x. upd_fan (g x) (f x)) xs s) j =
     (case find (\<lambda>x. g x = j) xs of None \<Rightarrow> sched_fan s j | Some x \<Rightarrow> f x (sched_fan s j))"
proof (induction xs arbitrary: s)
  case (Cons x xs)
  have "find (\<lambda>y. g y = g x) xs = None" using Cons.prems by (fastforce simp: find_None_iff image_iff)
  then show ?case using Cons.prems Cons.IH [of "upd_fan (g x) (f x) s"]
    by (auto simp: sched_fan_upd_fan split: option.splits)
qed simp

lemma find_upt: "find (\<lambda>x. x = j) [0..<n] = (if j < n then Some j else None)"
proof (cases "j < n")
  case True
  then have "find (\<lambda>x. x = j) [0..<n] \<noteq> None" by (simp add: find_None_iff)
  then show ?thesis using True by (auto simp: find_Some_iff)
qed (auto simp: find_None_iff)

lemma sched_fan_fold_upt:
  assumes "n \<le> length (sch_fans s)"
  shows "sched_fan (fold (\<lambda>x. upd_fan x (f x)) [0..<n] s) j = (if j < n then f j (sched_fan s j) else sched_fan s j)"
  using assms sched_fan_fold [of "\<lambda>x. x" "[0..<n]" s f j] by (simp add: find_upt)

lemma release_all_eq:
  "release_all_fans_locked s = fold (\<lambda>x. upd_fan x (\<lambda>fan. fan\<lparr>sf_operation_pending := False\<rparr>)) [0..<sched_fan_count s] s"
  by (simp add: release_all_fans_locked_def release_fan_operation_locked_def [abs_def])

lemma upd_entry_select [simp]:
  "length (sf_entries (upd_entry k f fan)) = length (sf_entries fan)" "sf_active_slot (upd_entry k f fan) = sf_active_slot fan"
  "sf_operation_pending (upd_entry k f fan) = sf_operation_pending fan" "sf_cursor (upd_entry k f fan) = sf_cursor fan"
  "sf_active_end_us (upd_entry k f fan) = sf_active_end_us fan"
  "sf_saved_manual_target (upd_entry k f fan) = sf_saved_manual_target fan"
  by (simp_all add: upd_entry_def)

lemma nth_upd_entry: "k < length (sf_entries fan) \<Longrightarrow>
    sf_entries (upd_entry k f fan) ! j = (if j = k then f (sf_entries fan ! k) else sf_entries fan ! j)"
  by (simp add: upd_entry_def nth_list_update)

lemma deactivate_select [simp]:
  "sf_active_slot (deactivate fan) = -1" "sf_entries (deactivate fan) = sf_entries fan"
  "sf_operation_pending (deactivate fan) = sf_operation_pending fan" "sf_cursor (deactivate fan) = sf_cursor fan"
  by (simp_all add: deactivate_def)

section \<open>The protocol\<close>

datatype claim =
    Reserved
  | Ending
  | Starting nat int u32
  | Disabling nat bool
  | Overriding "int option"

type_synonym claims = "nat \<Rightarrow> (nat \<times> claim) option"

definition claims_of :: "nat \<Rightarrow> claims \<Rightarrow> nat set" where
  "claims_of t own = {i. \<exists>c. own i = Some (t, c)}"

text \<open>\<open>sched_step slots t\<close>: a step of task \<open>t\<close>. The last rule is everything that leaves the
  schedules alone: flags, generations, heartbeat and handles.\<close>

inductive sched_step :: "nat \<Rightarrow> nat \<Rightarrow> 'h scheduler \<times> claims \<Rightarrow> 'h scheduler \<times> claims \<Rightarrow> bool" for slots t where
  reserve: "i < sched_fan_count s \<Longrightarrow> reserve_section i s = Some s' \<Longrightarrow>
    sched_step slots t (s, own) (s', own(i \<mapsto> (t, Reserved)))"
| abandon: "own i = Some (t, Reserved) \<Longrightarrow>
    sched_step slots t (s, own) (release_fan_operation_locked i s, own(i := None))"
| end_begin: "i < sched_fan_count s \<Longrightarrow> end_begin_section i now s = Some (slot, target, inhibited, s') \<Longrightarrow>
    sched_step slots t (s, own) (s', own(i \<mapsto> (t, Ending)))"
| end_finish: "own i = Some (t, Ending) \<Longrightarrow> sched_step slots t (s, own) (end_finish_section i s, own(i := None))"
| start_idle: "i < sched_fan_count s \<Longrightarrow> start_begin_section slots i now s = (None, s') \<Longrightarrow>
    sched_step slots t (s, own) (s', own)"
| start_begin: "i < sched_fan_count s \<Longrightarrow> start_begin_section slots i now s = (Some (slot, target, duration), s') \<Longrightarrow>
    sched_step slots t (s, own) (s', own(i \<mapsto> (t, Starting slot now duration)))"
| start_finish: "own i = Some (t, Starting slot now duration) \<Longrightarrow> res_accepted result \<longrightarrow> res_manual_target_pct result \<le> 100 \<Longrightarrow>
    sched_step slots t (s, own) (snd (start_finish_section slots i now slot duration result s), own(i := None))"
| manual: "own i = Some (t, Reserved) \<Longrightarrow>
    sched_step slots t (s, own) (snd (manual_finish_section i result s), own(i := None))"
| set_entry: "own i = Some (t, Reserved) \<Longrightarrow> slot < slots \<Longrightarrow> entry_config_valid interval duration (ucast target) \<Longrightarrow>
    sched_step slots t (s, own) (set_entry_section i slot interval duration target now s, own(i := None))"
| disable_begin: "own i = Some (t, Reserved) \<Longrightarrow> slot < slots \<Longrightarrow>
    sched_step slots t (s, own) (s, own(i \<mapsto> (t, Disabling slot (sf_active_slot (sched_fan s i) = int slot))))"
| disable_finish: "own i = Some (t, Disabling slot was_active) \<Longrightarrow>
    sched_step slots t (s, own) (disable_finish_section i slot was_active s, own(i := None))"
| cancel: "own i = Some (t, Reserved) \<Longrightarrow> sched_step slots t (s, own) (snd (cancel_section i s), own(i := None))"
| override_refused: "\<forall>i < sched_fan_count s. own i = Some (t, Reserved) \<Longrightarrow> override_section False now s = (None, s') \<Longrightarrow>
    sched_step slots t (s, own) (s', \<lambda>_. None)"
| override_on: "\<forall>i < sched_fan_count s. own i = Some (t, Reserved) \<Longrightarrow> override_section True now s = (Some captured, s') \<Longrightarrow>
    sched_step slots t (s, own)
      (s', \<lambda>i. if i < sched_fan_count s then Some (t, Overriding (Some (sf_active_slot (sched_fan s i)))) else None)"
| override_off: "\<forall>i < sched_fan_count s. own i = Some (t, Reserved) \<Longrightarrow> override_section False now s = (Some captured, s') \<Longrightarrow>
    sched_step slots t (s, own) (s', \<lambda>i. if i < sched_fan_count s then Some (t, Overriding None) else None)"
| override_finish: "\<forall>i < sched_fan_count s. \<exists>a. own i = Some (t, Overriding a) \<and>
      (i \<in> fst ` set ended \<longleftrightarrow> (\<exists>slot. a = Some slot \<and> 0 \<le> slot)) \<Longrightarrow>
    fst ` set ended \<subseteq> {..<sched_fan_count s} \<Longrightarrow> distinct (map fst ended) \<Longrightarrow>
    sched_step slots t (s, own) (override_finish_section ended s, \<lambda>_. None)"
| inhibit: "inhibit_section s = Some s' \<Longrightarrow> sched_step slots t (s, own) (s', own)"
| other: "sch_fans s' = sch_fans s \<Longrightarrow> sch_inhibited s' = sch_inhibited s \<Longrightarrow>
    sch_runtime_inhibit_latched s' = sch_runtime_inhibit_latched s \<Longrightarrow> sch_config s' = sch_config s \<Longrightarrow>
    sched_step slots t (s, own) (s', own)"

text \<open>What \<open>scheduler_init\<close> leaves: nothing reserved, nothing active, every enabled entry valid.\<close>

definition fan_ok :: "nat \<Rightarrow> schedule_fan_state \<Rightarrow> bool" where
  "fan_ok slots fan \<longleftrightarrow> length (sf_entries fan) = slots \<and>
     (\<forall>e \<in> set (sf_entries fan). en_enabled e \<longrightarrow>
        entry_config_valid (en_interval_min e) (en_duration_min e) (ucast (en_target_pct e))) \<and>
     (0 \<le> sf_active_slot fan \<longrightarrow> sf_active_slot fan < int slots \<and> sf_saved_manual_target fan \<le> 100 \<and>
        en_enabled (sf_entries fan ! nat (sf_active_slot fan)))"

definition scheduler_fresh :: "nat \<Rightarrow> 'h scheduler \<Rightarrow> bool" where
  "scheduler_fresh slots s \<longleftrightarrow> sched_fan_count s \<le> length (sch_fans s) \<and> \<not> sch_runtime_inhibit_latched s \<and>
     (\<forall>i < sched_fan_count s. fan_ok slots (sched_fan s i) \<and> sf_active_slot (sched_fan s i) < 0 \<and>
        \<not> sf_operation_pending (sched_fan s i))"

inductive sched_reach :: "nat \<Rightarrow> 'h scheduler \<times> claims \<Rightarrow> bool" for slots where
  fresh: "scheduler_fresh slots s \<Longrightarrow> sched_reach slots (s, \<lambda>_. None)"
| step: "sched_reach slots x \<Longrightarrow> sched_step slots t x y \<Longrightarrow> sched_reach slots y"

section \<open>The invariant\<close>

definition claim_ok :: "nat \<Rightarrow> bool \<Rightarrow> schedule_fan_state \<Rightarrow> claim \<Rightarrow> bool" where
  "claim_ok slots inhibited fan c \<longleftrightarrow>
     (case c of Reserved \<Rightarrow> True | Ending \<Rightarrow> True
      | Starting slot now duration \<Rightarrow> slot < slots \<and> en_enabled (sf_entries fan ! slot) \<and> \<not> inhibited \<and> sf_active_slot fan < 0
      | Disabling slot was_active \<Rightarrow> slot < slots \<and> (was_active \<longleftrightarrow> sf_active_slot fan = int slot)
      | Overriding None \<Rightarrow> \<not> inhibited
      | Overriding (Some a) \<Rightarrow> inhibited \<and> a = sf_active_slot fan)"

text \<open>What holds of one fan, given the two global flags and the claim on it.\<close>

definition fan_inv :: "nat \<Rightarrow> bool \<Rightarrow> bool \<Rightarrow> schedule_fan_state \<Rightarrow> (nat \<times> claim) option \<Rightarrow> bool" where
  "fan_inv slots inhibited latched fan cl \<longleftrightarrow>
     fan_ok slots fan \<and> (sf_operation_pending fan \<longleftrightarrow> cl \<noteq> None) \<and>
     (\<forall>t c. cl = Some (t, c) \<longrightarrow> claim_ok slots inhibited fan c) \<and>
     (inhibited \<and> 0 \<le> sf_active_slot fan \<longrightarrow> (\<exists>t a. cl = Some (t, Overriding (Some a)))) \<and>
     (latched \<longrightarrow> sf_active_slot fan < 0)"

definition protocol_inv :: "nat \<Rightarrow> 'h scheduler \<times> claims \<Rightarrow> bool" where
  "protocol_inv slots x \<longleftrightarrow> (case x of (s, own) \<Rightarrow>
     sched_fan_count s \<le> length (sch_fans s) \<and>
     (\<forall>i < sched_fan_count s. fan_inv slots (sch_inhibited s) (sch_runtime_inhibit_latched s) (sched_fan s i) (own i)) \<and>
     (\<forall>i. own i \<noteq> None \<longrightarrow> i < sched_fan_count s) \<and>
     (sch_runtime_inhibit_latched s \<longrightarrow> sch_inhibited s))"

lemma inv_update:
  assumes inv: "protocol_inv slots (s, own)" and i: "i < sched_fan_count s"
    and same: "length (sch_fans s') = length (sch_fans s)" "sch_config s' = sch_config s"
      "sch_inhibited s' = sch_inhibited s" "sch_runtime_inhibit_latched s' = sch_runtime_inhibit_latched s"
      "\<And>j. j \<noteq> i \<Longrightarrow> sched_fan s' j = sched_fan s j"
    and fan: "fan_inv slots (sch_inhibited s) (sch_runtime_inhibit_latched s) (sched_fan s' i) c"
  shows "protocol_inv slots (s', own(i := c))"
proof -
  have cnt: "sched_fan_count s' = sched_fan_count s" using same by (simp add: sched_fan_count_def)
  show ?thesis
    using inv i fan same(5) unfolding protocol_inv_def prod.case cnt same(1,3,4) by (auto split: if_splits)
qed

lemma inv_fan:
  assumes "protocol_inv slots (s, own)" and "i < sched_fan_count s"
  shows "fan_inv slots (sch_inhibited s) (sch_runtime_inhibit_latched s) (sched_fan s i) (own i)" "i < length (sch_fans s)"
    "sch_runtime_inhibit_latched s \<Longrightarrow> sch_inhibited s"
  using assms by (auto simp: protocol_inv_def)

lemma inv_claimed: "protocol_inv slots (s, own) \<Longrightarrow> own i = Some c \<Longrightarrow> i < sched_fan_count s"
  by (auto simp: protocol_inv_def)

text \<open>What a fan that is not being overridden satisfies.\<close>

lemma fan_inv_update:
  assumes "fan_inv slots inhibited latched fan cl" and "fan_ok slots fan'"
    and "sf_operation_pending fan' \<longleftrightarrow> c \<noteq> None" and "\<And>t c'. c = Some (t, c') \<Longrightarrow> claim_ok slots inhibited fan' c'"
    and "inhibited \<Longrightarrow> sf_active_slot fan' < 0" and "latched \<Longrightarrow> inhibited"
  shows "fan_inv slots inhibited latched fan' c"
  using assms by (auto simp: fan_inv_def)

lemma fan_inv_idle:
  assumes "fan_inv slots inhibited latched fan cl" and "inhibited" and "\<And>t a. cl \<noteq> Some (t, Overriding a)"
  shows "sf_active_slot fan < 0"
  using assms not_le_imp_less by (fastforce simp: fan_inv_def)

lemma fan_inv_free: "fan_inv slots inhibited latched fan cl \<Longrightarrow> \<not> sf_operation_pending fan \<Longrightarrow> cl = None"
  unfolding fan_inv_def by blast

lemmas step_defs = reserve_section_def release_fan_operation_locked_def end_begin_section_def end_finish_section_def
  start_begin_section_def start_finish_section_def manual_finish_section_def set_entry_section_def
  disable_finish_section_def cancel_section_def

lemma fan_ok_pending [simp]: "fan_ok slots (fan\<lparr>sf_operation_pending := b\<rparr>) = fan_ok slots fan"
  by (simp add: fan_ok_def)

lemma fan_ok_deactivate: "fan_ok slots fan \<Longrightarrow> fan_ok slots (deactivate fan)"
  by (simp add: fan_ok_def)

lemma fan_ok_upd_entry:
  assumes "fan_ok slots fan" and "k < slots"
    and "en_enabled (f (sf_entries fan ! k)) \<Longrightarrow> entry_config_valid (en_interval_min (f (sf_entries fan ! k)))
        (en_duration_min (f (sf_entries fan ! k))) (ucast (en_target_pct (f (sf_entries fan ! k))))"
    and "sf_active_slot fan = int k \<Longrightarrow> en_enabled (f (sf_entries fan ! k))"
  shows "fan_ok slots (upd_entry k f fan)"
  using assms by (auto simp: fan_ok_def upd_entry_def nth_list_update dest!: set_update_subset_insert [THEN subsetD])

lemma fan_ok_entry: "fan_ok slots fan \<Longrightarrow> k < slots \<Longrightarrow> en_enabled (sf_entries fan ! k) \<Longrightarrow>
    entry_config_valid (en_interval_min (sf_entries fan ! k)) (en_duration_min (sf_entries fan ! k))
      (ucast (en_target_pct (sf_entries fan ! k)))"
  by (simp add: fan_ok_def)

lemma armed_select [simp]:
  "en_enabled (armed_entry now e) = en_enabled e" "en_interval_min (armed_entry now e) = en_interval_min e"
  "en_duration_min (armed_entry now e) = en_duration_min e" "en_target_pct (armed_entry now e) = en_target_pct e"
  by (simp_all add: armed_entry_def)

lemma scan_slots_inv:
  assumes "fan_ok slots fan" and "\<forall>k \<in> set ks. k < slots" and "scan_slots now ks fan = (r, fan')"
  shows "fan_ok slots fan' \<and> sf_active_slot fan' = sf_active_slot fan \<and>
    sf_operation_pending fan' = sf_operation_pending fan \<and>
    (\<forall>k. r = Some k \<longrightarrow> k \<in> set ks \<and> en_enabled (sf_entries fan' ! k))"
  using assms
proof (induction ks arbitrary: fan)
  case (Cons k ks)
  let ?fan = "upd_entry k (armed_entry now) fan"
  have len: "k < length (sf_entries fan)" using Cons.prems by (simp add: fan_ok_def)
  have ok: "fan_ok slots ?fan"
    using Cons.prems(1,2)
  proof (intro fan_ok_upd_entry)
    show "sf_active_slot fan = int k \<Longrightarrow> en_enabled (armed_entry now (sf_entries fan ! k))"
      using Cons.prems(1) by (auto simp: fan_ok_def)
  qed (simp_all add: fan_ok_entry)
  have en: "en_enabled (sf_entries ?fan ! k) = en_enabled (sf_entries fan ! k)"
    using len by (simp add: nth_upd_entry)
  have ks: "\<forall>k \<in> set ks. k < slots" using Cons.prems(2) by simp
  show ?case
  proof (cases "en_enabled (sf_entries fan ! k)")
    case False
    then show ?thesis using Cons.IH [OF Cons.prems(1) ks] Cons.prems(3) by simp
  next
    case True
    show ?thesis
    proof (cases "now < en_next_trigger_us (sf_entries ?fan ! k)")
      case after: True
      then have "scan_slots now ks ?fan = (r, fan')" using Cons.prems(3) True by (simp add: Let_def)
      from Cons.IH [OF ok ks this] show ?thesis by auto
    next
      case False
      then show ?thesis using Cons.prems(3) True ok en by (auto simp: Let_def)
    qed
  qed
qed simp

lemma slot_order_bound: "k \<in> set (slot_order slots cursor) \<Longrightarrow> k < slots"
  by (cases slots) (auto simp: slot_order_def)

section \<open>Every step keeps it\<close>

text \<open>A region that changes one fan and then claims or releases it.\<close>

lemma inv_upd_fan:
  assumes inv: "protocol_inv slots (s, own)" and i: "i < sched_fan_count s"
    and ok: "fan_ok slots (f (sched_fan s i))" "sf_operation_pending (f (sched_fan s i)) \<longleftrightarrow> c \<noteq> None"
      "\<And>t c'. c = Some (t, c') \<Longrightarrow> claim_ok slots (sch_inhibited s) (f (sched_fan s i)) c'"
      "sch_inhibited s \<Longrightarrow> sf_active_slot (f (sched_fan s i)) < 0"
  shows "protocol_inv slots (upd_fan i f s, own(i := c))"
proof (rule inv_update [OF inv i])
  note I = inv_fan [OF inv i]
  show "fan_inv slots (sch_inhibited s) (sch_runtime_inhibit_latched s) (sched_fan (upd_fan i f s) i) c"
    using ok I(3) by (intro fan_inv_update [OF I(1)]) (simp_all add: sched_fan_upd_fan I(2))
  show "sched_fan (upd_fan i f s) j = sched_fan s j" if "j \<noteq> i" for j
    using that by (simp add: sched_fan_upd_fan I(2))
qed simp_all

lemma upd_fan_twice: "i < length (sch_fans s) \<Longrightarrow> upd_fan i g (upd_fan i f s) = upd_fan i (\<lambda>x. g (f x)) s"
  by (simp add: upd_fan_def)

lemma upd_fan_const: "upd_fan i (\<lambda>_. f (sched_fan s i)) s = upd_fan i f s"
  by (simp add: upd_fan_def sched_fan_def)

lemma step_reserve:
  assumes "protocol_inv slots (s, own)" and "i < sched_fan_count s" and "reserve_section i s = Some s'"
  shows "protocol_inv slots (s', own(i \<mapsto> (t, Reserved)))"
proof -
  note I = inv_fan [OF assms(1,2)]
  have "own i = None" using assms(3) fan_inv_free [OF I(1)] by (simp add: reserve_section_def split: if_splits)
  then show ?thesis using assms I(1) fan_inv_idle [OF I(1)]
    by (auto simp: reserve_section_def claim_ok_def fan_inv_def split: if_splits intro!: inv_upd_fan)
qed

lemma step_release:
  assumes "protocol_inv slots (s, own)" and "own i = Some (t, c)" and "\<And>a. c \<noteq> Overriding a"
    and "fan_ok slots (f (sched_fan s i))" "sch_inhibited s \<Longrightarrow> sf_active_slot (f (sched_fan s i)) < 0"
  shows "protocol_inv slots (release_fan_operation_locked i (upd_fan i f s), own(i := None))"
proof -
  have i: "i < sched_fan_count s" by (rule inv_claimed [OF assms(1,2)])
  note I = inv_fan [OF assms(1) i]
  show ?thesis using assms I i
    by (auto simp: release_fan_operation_locked_def upd_fan_twice intro!: inv_upd_fan)
qed

lemma step_end_begin:
  assumes "protocol_inv slots (s, own)" and "i < sched_fan_count s"
    and "end_begin_section i now s = Some (slot, target, inhibited, s')"
  shows "protocol_inv slots (s', own(i \<mapsto> (t, Ending)))"
proof -
  note I = inv_fan [OF assms(1,2)]
  have free: "own i = None" and s': "s' = upd_fan i (\<lambda>fan. fan\<lparr>sf_operation_pending := True\<rparr>) s"
    using assms(3) fan_inv_free [OF I(1)] by (auto simp: end_begin_section_def Let_def split: if_splits)
  show ?thesis unfolding s' using assms I(1) fan_inv_idle [OF I(1)] free
    by (intro inv_upd_fan) (auto simp: claim_ok_def fan_inv_def)
qed

lemma step_start_begin:
  assumes "protocol_inv slots (s, own)" and "i < sched_fan_count s" and "start_begin_section slots i now s = (r, s')"
  shows "case r of None \<Rightarrow> protocol_inv slots (s', own)
    | Some (slot, target, duration) \<Rightarrow> protocol_inv slots (s', own(i \<mapsto> (t, Starting slot now duration)))"
proof -
  note I = inv_fan [OF assms(1,2)]
  let ?fan = "sched_fan s i"
  show ?thesis
  proof (cases "\<not> sf_operation_pending ?fan \<and> \<not> sch_inhibited s \<and> sf_active_slot ?fan < 0")
    case False
    then show ?thesis using assms(1,3) by (simp only: start_begin_section_def Let_def) auto
  next
    case True
    obtain k fan' where sc: "scan_slots now (slot_order slots (sf_cursor ?fan)) ?fan = (k, fan')" by (rule prod.exhaust)
    have F: "fan_ok slots ?fan" "own i = None" using I(1) True fan_inv_free [OF I(1)] by (simp_all add: fan_inv_def)
    have S: "fan_ok slots fan'" "sf_active_slot fan' < 0" "\<not> sf_operation_pending fan'"
      "\<And>j. k = Some j \<Longrightarrow> j < slots \<and> en_enabled (sf_entries fan' ! j)"
      using scan_slots_inv [OF F(1) _ sc] slot_order_bound True by auto
    show ?thesis
    proof (cases k)
      case None
      have "protocol_inv slots (upd_fan i (\<lambda>_. fan') s, own(i := None))"
        using S by (intro inv_upd_fan [OF assms(1,2)]) simp_all
      then show ?thesis using assms(3) True sc None F(2)
        by (simp add: start_begin_section_def Let_def) (metis fun_upd_idem prod.inject option.case(1))
    next
      case (Some j)
      have "protocol_inv slots (upd_fan i (\<lambda>_. fan'\<lparr>sf_operation_pending := True\<rparr>) s,
          own(i \<mapsto> (t, Starting j now (en_duration_min (sf_entries fan' ! j)))))"
        using S Some True by (intro inv_upd_fan [OF assms(1,2)]) (auto simp: claim_ok_def)
      then show ?thesis using assms(3) True sc Some by (auto simp: start_begin_section_def Let_def)
    qed
  qed
qed

lemma step_start_finish:
  assumes "protocol_inv slots (s, own)" and "own i = Some (t, Starting slot now duration)"
    and "res_accepted result \<longrightarrow> res_manual_target_pct result \<le> 100"
  shows "protocol_inv slots (snd (start_finish_section slots i now slot duration result s), own(i := None))"
proof -
  note I = inv_fan [OF assms(1) inv_claimed [OF assms(1,2)]]
  let ?fan = "sched_fan s i"
  have F: "fan_ok slots ?fan" "slot < slots" "en_enabled (sf_entries ?fan ! slot)" "\<not> sch_inhibited s" "sf_active_slot ?fan < 0"
    using I(1) assms(2) by (auto simp: fan_inv_def claim_ok_def)
  have "fan_ok slots (upd_entry slot (\<lambda>e. e\<lparr>en_next_trigger_us := trigger_after now (en_interval_min e)\<rparr>)
      (?fan\<lparr>sf_saved_manual_target := x, sf_active_slot := int slot, sf_cursor := y, sf_active_end_us := z\<rparr>))"
    if "x \<le> 100" for x y z
    using F that fan_ok_entry [OF F(1-3)]
    by (intro fan_ok_upd_entry) (auto simp: fan_ok_def)
  then show ?thesis
    using assms F by (auto simp: start_finish_section_def Let_def intro!: step_release)
qed

lemma claimed_fan:
  assumes "protocol_inv slots (s, own)" and "own i = Some (t, c)"
  shows "fan_inv slots (sch_inhibited s) (sch_runtime_inhibit_latched s) (sched_fan s i) (Some (t, c))"
    "fan_ok slots (sched_fan s i)" "claim_ok slots (sch_inhibited s) (sched_fan s i) c"
    "(\<And>a. c \<noteq> Overriding a) \<Longrightarrow> sch_inhibited s \<Longrightarrow> sf_active_slot (sched_fan s i) < 0"
  using inv_fan(1) [OF assms(1) inv_claimed [OF assms]] assms(2) not_le_imp_less
  by (fastforce simp: fan_inv_def)+

lemma upd_fan_idem: "upd_fan i (\<lambda>fan. fan) s = s"
  by (simp add: upd_fan_def)

lemma step_abandon:
  assumes "protocol_inv slots (s, own)" and "own i = Some (t, Reserved)"
  shows "protocol_inv slots (release_fan_operation_locked i s, own(i := None))"
  using step_release [OF assms, of "\<lambda>fan. fan"] claimed_fan [OF assms] by (simp add: upd_fan_idem)

lemma step_finish:
  assumes "protocol_inv slots (s, own)"
  shows "own i = Some (t, Ending) \<Longrightarrow> protocol_inv slots (end_finish_section i s, own(i := None))"
    and "own i = Some (t, Reserved) \<Longrightarrow> protocol_inv slots (snd (manual_finish_section i result s), own(i := None))"
    and "own i = Some (t, Reserved) \<Longrightarrow> protocol_inv slots (snd (cancel_section i s), own(i := None))"
proof -
  show "protocol_inv slots (end_finish_section i s, own(i := None))" if "own i = Some (t, Ending)"
    unfolding end_finish_section_def using assms that
    by (rule step_release) (use claimed_fan [OF assms that] in \<open>simp_all add: fan_ok_deactivate\<close>)
  have d: "protocol_inv slots (release_fan_operation_locked i (upd_fan i deactivate s), own(i := None))"
    if "own i = Some (t, Reserved)"
    using assms that by (rule step_release) (use claimed_fan [OF assms that] in \<open>simp_all add: fan_ok_deactivate\<close>)
  then show "own i = Some (t, Reserved) \<Longrightarrow> protocol_inv slots (snd (cancel_section i s), own(i := None))"
    by (simp add: cancel_section_def)
  show "own i = Some (t, Reserved) \<Longrightarrow> protocol_inv slots (snd (manual_finish_section i result s), own(i := None))"
    using d step_abandon [OF assms] by (simp add: manual_finish_section_def Let_def)
qed

lemma step_set_entry:
  assumes "protocol_inv slots (s, own)" and "own i = Some (t, Reserved)" and "slot < slots"
    and "entry_config_valid interval duration (ucast target)"
  shows "protocol_inv slots (set_entry_section i slot interval duration target now s, own(i := None))"
  unfolding set_entry_section_def using assms(1,2)
  by (rule step_release) (use assms(3,4) claimed_fan [OF assms(1,2)] in \<open>auto intro!: fan_ok_upd_entry\<close>)

lemma step_disable_begin:
  assumes "protocol_inv slots (s, own)" and "own i = Some (t, Reserved)" and "slot < slots"
  shows "protocol_inv slots (s, own(i \<mapsto> (t, Disabling slot (sf_active_slot (sched_fan s i) = int slot))))"
proof -
  have i: "i < sched_fan_count s" by (rule inv_claimed [OF assms(1,2)])
  have "protocol_inv slots (upd_fan i (\<lambda>fan. fan) s, own(i \<mapsto> (t, Disabling slot (sf_active_slot (sched_fan s i) = int slot))))"
    using claimed_fan [OF assms(1,2)] assms(3)
    by (intro inv_upd_fan [OF assms(1) i]) (auto simp: claim_ok_def fan_inv_def)
  then show ?thesis by (simp add: upd_fan_idem)
qed

lemma step_disable_finish:
  assumes "protocol_inv slots (s, own)" and "own i = Some (t, Disabling slot was_active)"
  shows "protocol_inv slots (disable_finish_section i slot was_active s, own(i := None))"
proof -
  let ?off = "\<lambda>e. e\<lparr>en_enabled := False, en_next_trigger_us := 0\<rparr>"
  let ?f = "\<lambda>fan. upd_entry slot ?off (if was_active then deactivate fan else fan)"
  note C = claimed_fan [OF assms]
  have k: "slot < slots" "was_active \<longleftrightarrow> sf_active_slot (sched_fan s i) = int slot" using C(3) by (auto simp: claim_ok_def)
  have "disable_finish_section i slot was_active s = release_fan_operation_locked i (upd_fan i ?f s)"
    using inv_fan(2) [OF assms(1) inv_claimed [OF assms]] by (simp add: disable_finish_section_def Let_def upd_fan_twice)
  moreover have "fan_ok slots (?f (sched_fan s i))"
    using C(2) k by (intro fan_ok_upd_entry) (auto simp: fan_ok_deactivate)
  ultimately show ?thesis using step_release [OF assms, of ?f] C(4) by simp
qed

lemma fan_ok_rearm: "fan_ok slots fan \<Longrightarrow> fan_ok slots (fan\<lparr>sf_entries := map (rearm_entry now) (sf_entries fan)\<rparr>)"
  by (auto simp: fan_ok_def rearm_entry_def)

lemma sched_fan_select [simp]: "sched_fan (s\<lparr>sch_inhibited := b\<rparr>) i = sched_fan s i"
  "sched_fan (s\<lparr>sch_inhibited := b, sch_runtime_inhibit_latched := l\<rparr>) i = sched_fan s i"
  "sched_fan_count (s\<lparr>sch_inhibited := b\<rparr>) = sched_fan_count s"
  "sched_fan_count (s\<lparr>sch_inhibited := b, sch_runtime_inhibit_latched := l\<rparr>) = sched_fan_count s"
  by (simp_all add: sched_fan_def sched_fan_count_def)

lemma step_override_refused:
  assumes inv: "protocol_inv slots (s, own)" and res: "\<forall>i < sched_fan_count s. own i = Some (t, Reserved)"
    and "override_section False now s = (None, s')"
  shows "protocol_inv slots (s', \<lambda>_. None)"
proof -
  have s': "s' = release_all_fans_locked s" using assms(3) by (simp add: override_section_def Let_def split: if_splits)
  have n: "sched_fan_count s \<le> length (sch_fans s)" using inv by (simp add: protocol_inv_def)
  show ?thesis using inv res sched_fan_fold_upt [OF n]
    by (auto simp: s' release_all_eq protocol_inv_def fan_inv_def sched_fan_fold_upt n)
qed

lemma step_override:
  assumes inv: "protocol_inv slots (s, own)" and res: "\<forall>i < sched_fan_count s. own i = Some (t, Reserved)"
  shows "override_section True now s = (Some captured, s') \<Longrightarrow> protocol_inv slots (s', \<lambda>i. if i < sched_fan_count s
      then Some (t, Overriding (Some (sf_active_slot (sched_fan s i)))) else None)"
    and "override_section False now s = (Some captured, s') \<Longrightarrow>
      protocol_inv slots (s', \<lambda>i. if i < sched_fan_count s then Some (t, Overriding None) else None)"
proof -
  show "protocol_inv slots (s', \<lambda>i. if i < sched_fan_count s
      then Some (t, Overriding (Some (sf_active_slot (sched_fan s i)))) else None)"
    if "override_section True now s = (Some captured, s')"
    using inv res that by (auto simp: override_section_def protocol_inv_def fan_inv_def claim_ok_def)
  assume "override_section False now s = (Some captured, s')"
  then have l: "\<not> sch_runtime_inhibit_latched s" and s': "s' = fold (\<lambda>fan. upd_fan fan (\<lambda>f. f\<lparr>sf_entries := map (rearm_entry now) (sf_entries f)\<rparr>))
      [0..<sched_fan_count s] (s\<lparr>sch_inhibited := False\<rparr>)"
    by (auto simp: override_section_def Let_def split: if_splits)
  have n: "sched_fan_count s \<le> length (sch_fans (s\<lparr>sch_inhibited := False\<rparr>))" using inv by (simp add: protocol_inv_def)
  show "protocol_inv slots (s', \<lambda>i. if i < sched_fan_count s then Some (t, Overriding None) else None)"
    using inv res l sched_fan_fold_upt [OF n]
    by (auto simp: s' protocol_inv_def fan_inv_def claim_ok_def fan_ok_rearm)
qed

lemma step_override_finish:
  assumes inv: "protocol_inv slots (s, own)"
    and own: "\<forall>i < sched_fan_count s. \<exists>a. own i = Some (t, Overriding a) \<and>
      (i \<in> fst ` set ended \<longleftrightarrow> (\<exists>slot. a = Some slot \<and> 0 \<le> slot))"
    and "fst ` set ended \<subseteq> {..<sched_fan_count s}" and "distinct (map fst ended)"
  shows "protocol_inv slots (override_finish_section ended s, \<lambda>_. None)"
proof -
  have n: "sched_fan_count s \<le> length (sch_fans s)" using inv by (simp add: protocol_inv_def)
  let ?s = "fold (\<lambda>x. upd_fan (fst x) deactivate) ended s"
  have fin: "override_finish_section ended s = release_all_fans_locked ?s"
    by (simp add: override_finish_section_def case_prod_unfold)
  have f: "sched_fan ?s i = (if i \<in> fst ` set ended then deactivate (sched_fan s i) else sched_fan s i)" for i
  proof -
    have b: "\<forall>x \<in> set ended. fst x < length (sch_fans s)" using assms(3) n by (auto simp: image_subset_iff)
    have "find (\<lambda>x. fst x = i) ended = None \<longleftrightarrow> i \<notin> fst ` set ended" by (force simp: find_None_iff image_iff)
    then show ?thesis using sched_fan_fold [OF assms(4) b, of "\<lambda>_. deactivate" i]
      by (cases "find (\<lambda>x. fst x = i) ended") simp_all
  qed
  have g: "sched_fan (override_finish_section ended s) i = (sched_fan ?s i)\<lparr>sf_operation_pending := False\<rparr>"
    if "i < sched_fan_count s" for i
    using that n by (simp add: fin release_all_eq sched_fan_fold_upt)
  have "fan_inv slots (sch_inhibited s) (sch_runtime_inhibit_latched s) (sched_fan (override_finish_section ended s) i) None"
    if i: "i < sched_fan_count s" for i
  proof -
    from own i obtain a where a: "own i = Some (t, Overriding a)"
      "i \<in> fst ` set ended \<longleftrightarrow> (\<exists>slot. a = Some slot \<and> 0 \<le> slot)" by blast
    note C = claimed_fan [OF inv a(1)]
    show ?thesis using C(1-3) a(2) unfolding g [OF i] f
      by (cases a) (auto simp: fan_inv_def fan_ok_deactivate claim_ok_def)
  qed
  moreover have "length (sch_fans (override_finish_section ended s)) = length (sch_fans s)"
    "sch_inhibited (override_finish_section ended s) = sch_inhibited s"
    "sch_runtime_inhibit_latched (override_finish_section ended s) = sch_runtime_inhibit_latched s"
    "sched_fan_count (override_finish_section ended s) = sched_fan_count s"
    by (simp_all add: fin release_all_eq)
  ultimately show ?thesis using inv by (simp add: protocol_inv_def)
qed

lemma step_inhibit:
  assumes inv: "protocol_inv slots (s, own)" and "inhibit_section s = Some s'"
  shows "protocol_inv slots (s', own)" "\<forall>i. own i = None"
proof -
  have n: "sched_fan_count s \<le> length (sch_fans (s\<lparr>sch_inhibited := True, sch_runtime_inhibit_latched := True\<rparr>))"
    using inv by (simp add: protocol_inv_def)
  have free: "\<And>i. i < sched_fan_count s \<Longrightarrow> \<not> sf_operation_pending (sched_fan s i)"
    and s': "s' = fold (\<lambda>fan. upd_fan fan deactivate) [0..<sched_fan_count s]
      (s\<lparr>sch_inhibited := True, sch_runtime_inhibit_latched := True\<rparr>)"
    using assms(2) by (auto simp: inhibit_section_def split: if_splits)
  show no: "\<forall>i. own i = None"
  proof
    fix i
    show "own i = None"
    proof (cases "i < sched_fan_count s")
      case True
      show ?thesis by (rule fan_inv_free [OF inv_fan(1) [OF inv True] free [OF True]])
    next
      case False
      then show ?thesis using inv_claimed [OF inv] by (cases "own i") auto
    qed
  qed
  show "protocol_inv slots (s', own)"
    using inv free no sched_fan_fold_upt [OF n]
    by (auto simp: s' protocol_inv_def fan_inv_def fan_ok_deactivate)
qed

lemma step_inv: "sched_step slots t x y \<Longrightarrow> protocol_inv slots x \<Longrightarrow> protocol_inv slots y"
proof (induction rule: sched_step.induct)
  case (start_idle i s now s' own)
  then show ?case using step_start_begin [of slots s own i now None s' t] by simp
next
  case (start_begin i s now slot target duration s' own)
  then show ?case using step_start_begin [of slots s own i now "Some (slot, target, duration)" s' t] by simp
next
  case (other s' s own)
  then have "sched_fan s' = sched_fan s" "sched_fan_count s' = sched_fan_count s"
    by (simp_all add: sched_fan_def sched_fan_count_def fun_eq_iff)
  then show ?case using other by (simp add: protocol_inv_def)
next
  case (override_refused s own now s')
  then show ?case by (blast intro: step_override_refused)
qed (simp_all add: step_reserve step_abandon step_end_begin step_finish step_start_finish step_set_entry
    step_disable_begin step_disable_finish step_override step_override_finish step_inhibit)

lemma fresh_inv: "scheduler_fresh slots s \<Longrightarrow> protocol_inv slots (s, \<lambda>_. None)"
  by (auto simp: scheduler_fresh_def protocol_inv_def fan_inv_def)

lemma reach_inv: "sched_reach slots x \<Longrightarrow> protocol_inv slots x"
  by (induction rule: sched_reach.induct) (auto intro: fresh_inv step_inv)

end
