(* ===== verification/Scheduler_Calls.thy ===== *)
theory Scheduler_Calls imports Scheduler_Protocol
begin

text \<open>
  Whole calls of the scheduler refine the protocol: a call of task \<open>t\<close>, interleaved wherever it
  takes the mutex or blocks with any steps of other tasks, is a run of \<open>sched_step\<close>, and when
  it returns \<open>t\<close> holds no reservation. The proofs are a small logic over \<open>held\<close>, what \<open>t\<close> has
  reserved at a point of its code.
\<close>

section \<open>Runs\<close>

definition sched_run :: "nat \<Rightarrow> 'h scheduler \<times> claims \<Rightarrow> 'h scheduler \<times> claims \<Rightarrow> bool" where
  "sched_run slots = (\<lambda>x y. \<exists>u. sched_step slots u x y)\<^sup>*\<^sup>*"

definition others_run :: "nat \<Rightarrow> nat \<Rightarrow> 'h scheduler \<times> claims \<Rightarrow> 'h scheduler \<times> claims \<Rightarrow> bool" where
  "others_run slots t = (\<lambda>x y. \<exists>u. u \<noteq> t \<and> sched_step slots u x y)\<^sup>*\<^sup>*"

lemma run_step: "sched_run slots x y \<Longrightarrow> sched_step slots u y z \<Longrightarrow> sched_run slots x z"
  unfolding sched_run_def by (rule rtranclp.rtrancl_into_rtrancl) blast+

lemma run_trans: "sched_run slots x y \<Longrightarrow> sched_run slots y z \<Longrightarrow> sched_run slots x z"
  unfolding sched_run_def by (rule rtranclp_trans)

lemma others_run_run: "others_run slots t x y \<Longrightarrow> sched_run slots x y"
  unfolding others_run_def
proof (induction rule: rtranclp_induct)
  case base
  then show ?case by (simp add: sched_run_def)
qed (blast intro: run_step)

lemma run_keeps_inv: "sched_run slots x y \<Longrightarrow> protocol_inv slots x \<Longrightarrow> protocol_inv slots y"
  unfolding sched_run_def by (induction rule: rtranclp_induct) (blast intro: step_inv)+

lemma run_reach: "sched_run slots x y \<Longrightarrow> sched_reach slots x \<Longrightarrow> sched_reach slots y"
  unfolding sched_run_def by (induction rule: rtranclp_induct) (blast intro: sched_reach.step)+

lemma section_config [simp]:
  "sch_config (release_fan_operation_locked i s) = sch_config s" "sch_config (end_finish_section i s) = sch_config s"
  "sch_config (snd (start_finish_section slots i now slot duration result s)) = sch_config s"
  "sch_config (snd (manual_finish_section i result s)) = sch_config s"
  "sch_config (set_entry_section i slot interval duration target now s) = sch_config s"
  "sch_config (disable_finish_section i slot was_active s) = sch_config s"
  "sch_config (snd (cancel_section i s)) = sch_config s"
  "sch_config (override_finish_section ended s) = sch_config s"
  by (simp_all add: step_defs Let_def override_finish_section_def release_all_eq case_prod_unfold)

lemma step_config: "sched_step slots u x y \<Longrightarrow> sch_config (fst y) = sch_config (fst x)"
  by (induction rule: sched_step.induct)
    (auto simp: reserve_section_def end_begin_section_def start_begin_section_def override_section_def
      inhibit_section_def release_all_eq Let_def split: if_splits prod.splits option.splits)

text \<open>What task \<open>t\<close> has claimed.\<close>

definition mine :: "nat \<Rightarrow> claims \<Rightarrow> nat \<Rightarrow> claim option" where
  "mine t own i = (case own i of Some (u, c) \<Rightarrow> if u = t then Some c else None | None \<Rightarrow> None)"

lemma mine_upd: "mine t (own(i \<mapsto> (t, c))) = (mine t own)(i \<mapsto> c)" "mine t (own(i := None)) = (mine t own)(i := None)"
  by (auto simp: mine_def fun_eq_iff)

lemma mine_None [simp]: "mine t (\<lambda>_. None) = (\<lambda>_. None)"
  by (simp add: mine_def fun_eq_iff)

lemma mine_Some: "mine t own i = Some c \<longleftrightarrow> own i = Some (t, c)"
  by (auto simp: mine_def split: option.splits)

lemma mine_other: "u \<noteq> t \<Longrightarrow> mine t own i = None \<Longrightarrow> mine t (own(i \<mapsto> (u, c))) = mine t own"
  "u \<noteq> t \<Longrightarrow> own i = Some (u, c) \<Longrightarrow> mine t (own(i := x)) = mine t own \<longleftrightarrow> mine t (\<lambda>_. x) i = None"
  by (auto simp: mine_def fun_eq_iff)

lemma not_pending_free:
  "protocol_inv slots (s, own) \<Longrightarrow> i < sched_fan_count s \<Longrightarrow> \<not> sf_operation_pending (sched_fan s i) \<Longrightarrow> own i = None"
  using fan_inv_free inv_fan(1) by blast

lemma all_claimed:
  assumes "protocol_inv slots (s, own)" and "\<forall>i < sched_fan_count s. \<exists>c. own i = Some (u, c)" and "u \<noteq> t"
  shows "mine t own = (\<lambda>_. None)"
proof
  fix i
  show "mine t own i = None" using assms inv_claimed [OF assms(1), of i] by (cases "own i") (fastforce simp: mine_def)+
qed

lemma step_mine:
  assumes "sched_step slots u x y" and "u \<noteq> t" and "protocol_inv slots x"
  shows "mine t (snd y) = mine t (snd x)"
  using assms
proof (induction rule: sched_step.induct)
  case (reserve i s s' own)
  then have "own i = None" using not_pending_free by (auto simp: reserve_section_def split: if_splits)
  then show ?case using reserve.prems by (simp add: mine_def fun_eq_iff)
next
  case (end_begin i s now slot target inhibited s' own)
  then have "own i = None" using not_pending_free by (auto simp: end_begin_section_def Let_def split: if_splits)
  then show ?case using end_begin.prems by (simp add: mine_def fun_eq_iff)
next
  case (start_begin i s now slot target duration s' own)
  then have "own i = None" using not_pending_free by (auto simp: start_begin_section_def Let_def split: if_splits)
  then show ?case using start_begin.prems by (simp add: mine_def fun_eq_iff)
next
  case (override_refused s own now s')
  then show ?case using all_claimed [of slots s own u t] by simp
next
  case (override_on s own now captured s')
  then show ?case using all_claimed [of slots s own u t] by (simp add: mine_def fun_eq_iff)
next
  case (override_off s own now captured s')
  then show ?case using all_claimed [of slots s own u t] by (simp add: mine_def fun_eq_iff)
next
  case (override_finish s own ended)
  then show ?case using all_claimed [of slots s own u t] by fastforce
qed (auto simp: mine_def fun_eq_iff)

lemma others_run_mine: "others_run slots t x y \<Longrightarrow> protocol_inv slots x \<Longrightarrow> mine t (snd y) = mine t (snd x)"
  unfolding others_run_def
proof (induction rule: rtranclp_induct)
  case (step y z)
  then obtain u where u: "u \<noteq> t" "sched_step slots u y z" by blast
  have "(\<lambda>x y. \<exists>u. sched_step slots u x y)\<^sup>*\<^sup>* x y" using others_run_run [unfolded others_run_def, OF step.hyps(1)]
    by (simp add: sched_run_def)
  then have "protocol_inv slots y" using run_keeps_inv step.prems by (simp add: sched_run_def)
  then show ?case using step_mine [OF u(2,1)] step by simp
qed simp

section \<open>The logic of held reservations\<close>

text \<open>The environment of task \<open>t\<close>: while \<open>t\<close> waits, the other tasks make steps of the protocol.\<close>

definition environment :: "'h sched_ops \<Rightarrow> nat \<Rightarrow> bool" where
  "environment ops t \<longleftrightarrow> (\<forall>s own h. protocol_inv (CONFIG_SCHEDULE_SLOTS ops) (s, own) \<longrightarrow>
     (\<forall>m r. \<exists>own'. others_run (CONFIG_SCHEDULE_SLOTS ops) t (s, own) (fst (snd (sch_take ops m r s h)), own')) \<and>
     (\<exists>own'. others_run (CONFIG_SCHEDULE_SLOTS ops) t (s, own) (fst (sch_delay ops s h), own')) \<and>
     (\<exists>own'. others_run (CONFIG_SCHEDULE_SLOTS ops) t (s, own) (fst (sch_others ops s h), own')) \<and>
     (\<forall>w. \<exists>own'. others_run (CONFIG_SCHEDULE_SLOTS ops) t (s, own) (fst (snd (sch_notify_wait ops w s h)), own')))"

definition held :: "nat \<Rightarrow> nat \<Rightarrow> 'h scheduler \<times> claims \<Rightarrow> 'h scheduler \<Rightarrow> (nat \<Rightarrow> claim option) \<Rightarrow> bool" where
  "held slots t x s cl \<longleftrightarrow> (\<exists>own. sched_run slots x (s, own) \<and> protocol_inv slots (s, own) \<and> mine t own = cl)"

lemma held_env:
  assumes "held (CONFIG_SCHEDULE_SLOTS ops) t x s cl" and "environment ops t"
  shows "held (CONFIG_SCHEDULE_SLOTS ops) t x (fst (snd (sch_take ops m r s h))) cl"
    and "held (CONFIG_SCHEDULE_SLOTS ops) t x (fst (sch_delay ops s h)) cl"
    and "held (CONFIG_SCHEDULE_SLOTS ops) t x (fst (sch_others ops s h)) cl"
    and "held (CONFIG_SCHEDULE_SLOTS ops) t x (fst (snd (sch_notify_wait ops w s h))) cl"
proof -
  let ?n = "CONFIG_SCHEDULE_SLOTS ops"
  from assms(1) obtain own where o: "sched_run ?n x (s, own)" "protocol_inv ?n (s, own)" "mine t own = cl"
    by (auto simp: held_def)
  have *: "held ?n t x s' cl" if "others_run ?n t (s, own) (s', own')" for s' own'
    using that o others_run_mine [OF that o(2)] run_trans [OF o(1) others_run_run [OF that]]
      run_keeps_inv [OF others_run_run [OF that] o(2)] by (auto simp: held_def)
  show "held ?n t x (fst (snd (sch_take ops m r s h))) cl" "held ?n t x (fst (sch_delay ops s h)) cl"
    "held ?n t x (fst (sch_others ops s h)) cl" "held ?n t x (fst (snd (sch_notify_wait ops w s h))) cl"
    using assms(2) o(2) * unfolding environment_def by blast+
qed

lemma held_lock: "held (CONFIG_SCHEDULE_SLOTS ops) t x s cl \<Longrightarrow> environment ops t \<Longrightarrow> lock ops s h = (s', h') \<Longrightarrow>
    held (CONFIG_SCHEDULE_SLOTS ops) t x s' cl"
  using held_env(1) [of ops t x s cl "the (sch_mutex s)" portMAX_DELAY h] by (simp add: lock_def)

lemma held_step:
  assumes "held slots t x s cl"
    and "\<And>own. protocol_inv slots (s, own) \<Longrightarrow> mine t own = cl \<Longrightarrow> \<exists>own'. sched_step slots t (s, own) (s', own') \<and> mine t own' = cl'"
  shows "held slots t x s' cl'"
proof -
  from assms(1) obtain own where o: "sched_run slots x (s, own)" "protocol_inv slots (s, own)" "mine t own = cl"
    by (auto simp: held_def)
  from assms(2) [OF o(2,3)] obtain own' where "sched_step slots t (s, own) (s', own')" "mine t own' = cl'" by blast
  then show ?thesis using run_step [OF o(1)] step_inv [OF _ o(2)] unfolding held_def by (intro exI [of _ own']) blast
qed

lemma held_inv: "held slots t x s cl \<Longrightarrow> \<exists>own. protocol_inv slots (s, own) \<and> mine t own = cl"
  by (auto simp: held_def)

lemma held_refl: "protocol_inv slots (s, own) \<Longrightarrow> held slots t (s, own) s (mine t own)"
  by (auto simp: held_def sched_run_def)

lemma run_config: "sched_run slots x y \<Longrightarrow> sch_config (fst y) = sch_config (fst x)"
  unfolding sched_run_def by (induction rule: rtranclp_induct) (auto dest: step_config)

lemma held_config: "held slots t x s cl \<Longrightarrow> sch_config s = sch_config (fst x)"
  using run_config by (fastforce simp: held_def)

lemma held_count: "held slots t x s cl \<Longrightarrow> sched_fan_count s = sched_fan_count (fst x)"
  using held_config by (fastforce simp: sched_fan_count_def)

lemma held_reserve: "held slots t x s cl \<Longrightarrow> i < sched_fan_count s \<Longrightarrow> reserve_section i s = Some s' \<Longrightarrow>
    held slots t x s' (cl(i \<mapsto> Reserved))"
  by (erule held_step) (blast intro: sched_step.reserve mine_upd(1) dest: sym)

lemma held_other: "held slots t x s cl \<Longrightarrow> sch_fans s' = sch_fans s \<Longrightarrow> sch_inhibited s' = sch_inhibited s \<Longrightarrow>
    sch_runtime_inhibit_latched s' = sch_runtime_inhibit_latched s \<Longrightarrow> sch_config s' = sch_config s \<Longrightarrow>
    held slots t x s' cl"
  by (erule held_step) (blast intro: sched_step.other)

lemma held_claim:
  assumes "held slots t x s cl" and "cl i = Some c"
    and "\<And>own. own i = Some (t, c) \<Longrightarrow> sched_step slots t (s, own) (s', own(i := map_option (Pair t) c'))"
  shows "held slots t x s' (cl(i := c'))"
proof (rule held_step [OF assms(1)])
  fix own assume "mine t own = cl"
  then have own: "own i = Some (t, c)" using assms(2) mine_Some by blast
  have "mine t (own(i := map_option (Pair t) c')) = cl(i := c')"
    using \<open>mine t own = cl\<close> by (cases c') (auto simp: mine_upd)
  with assms(3) [of own, OF own] show "\<exists>own'. sched_step slots t (s, own) (s', own') \<and> mine t own' = cl(i := c')" by blast
qed

lemma held_finish:
  assumes "held slots t x s cl"
  shows "cl i = Some Reserved \<Longrightarrow> held slots t x (release_fan_operation_locked i s) (cl(i := None))"
    and "cl i = Some Ending \<Longrightarrow> held slots t x (end_finish_section i s) (cl(i := None))"
    and "cl i = Some (Starting k now duration) \<Longrightarrow> res_accepted result \<longrightarrow> res_manual_target_pct result \<le> 100 \<Longrightarrow>
      held slots t x (snd (start_finish_section slots i now k duration result s)) (cl(i := None))"
    and "cl i = Some Reserved \<Longrightarrow> held slots t x (snd (manual_finish_section i result s)) (cl(i := None))"
    and "cl i = Some Reserved \<Longrightarrow> k < slots \<Longrightarrow> entry_config_valid interval duration (ucast target) \<Longrightarrow>
      held slots t x (set_entry_section i k interval duration target now s) (cl(i := None))"
    and "cl i = Some Reserved \<Longrightarrow> k < slots \<Longrightarrow>
      held slots t x s (cl(i \<mapsto> Disabling k (sf_active_slot (sched_fan s i) = int k)))"
    and "cl i = Some (Disabling k was_active) \<Longrightarrow> held slots t x (disable_finish_section i k was_active s) (cl(i := None))"
    and "cl i = Some Reserved \<Longrightarrow> held slots t x (snd (cancel_section i s)) (cl(i := None))"
  by (erule held_claim [OF assms]; simp add: sched_step.intros)+

text \<open>A region that reserves on its own.\<close>

lemma held_begin:
  assumes "held slots t x s cl" and "i < sched_fan_count s"
  shows "end_begin_section i now s = Some (slot, target, inhibited, s') \<Longrightarrow> held slots t x s' (cl(i \<mapsto> Ending))"
    and "start_begin_section slots i now s = (None, s') \<Longrightarrow> held slots t x s' cl"
    and "start_begin_section slots i now s = (Some (k, target, duration), s') \<Longrightarrow>
      held slots t x s' (cl(i \<mapsto> Starting k now duration))"
  by (rule held_step [OF assms(1)], use assms(2) in \<open>auto intro!: exI conjI sched_step.intros mine_upd\<close>)+

lemma held_reserve_loop:
  assumes env: "environment ops t" and run: "reserve_loop ops i w st s h = Some y"
    and h: "held (CONFIG_SCHEDULE_SLOTS ops) t x s cl" and i: "i < sched_fan_count (fst x)"
  shows "held (CONFIG_SCHEDULE_SLOTS ops) t x (fst (snd y)) (if fst y then cl(i \<mapsto> Reserved) else cl)"
proof (rule reserve_loop.raw_induct [where P = "\<lambda>ops i w st s h y. environment ops t \<longrightarrow>
    held (CONFIG_SCHEDULE_SLOTS ops) t x s cl \<longrightarrow> i < sched_fan_count (fst x) \<longrightarrow>
    held (CONFIG_SCHEDULE_SLOTS ops) t x (fst (snd y)) (if fst y then cl(i \<mapsto> Reserved) else cl)", OF _ run, rule_format],
    goal_cases)
  case (1 loop ops i w st s h y)
  obtain s0 h0 where l: "lock ops s h = (s0, h0)" by (rule prod.exhaust)
  have h0: "held (CONFIG_SCHEDULE_SLOTS ops) t x s0 cl" by (rule held_lock [OF 1(4,3) l])
  show ?case
  proof (cases "reserve_section i s0")
    case (Some s')
    then show ?thesis using 1(2) l held_reserve [OF h0 _ Some] 1(5) held_count [OF h0] by auto
  next
    case None
    obtain now h1 where n: "os_tick_count ops h0 = (now, h1)" by (rule prod.exhaust)
    show ?thesis
    proof (cases "now - st \<ge> w")
      case True
      then show ?thesis using 1(2) l None n h0 by auto
    next
      case False
      obtain s2 h2 where d: "sch_delay ops s0 h1 = (s2, h2)" by (rule prod.exhaust)
      have "held (CONFIG_SCHEDULE_SLOTS ops) t x s2 cl" using held_env(2) [OF h0 1(3), of h1] d by simp
      then show ?thesis using 1(1) [of ops i w st s2 h2 y] 1(2,3,5) l None n False d by auto
    qed
  qed
qed (use env h i in auto)

lemma held_reserve_fan:
  "environment ops t \<Longrightarrow> reserve_fan_operation ops i s h = Some (ok, s', h') \<Longrightarrow>
   held (CONFIG_SCHEDULE_SLOTS ops) t x s cl \<Longrightarrow> i < sched_fan_count s \<Longrightarrow>
   held (CONFIG_SCHEDULE_SLOTS ops) t x s' (if ok then cl(i \<mapsto> Reserved) else cl)"
  using held_reserve_loop [of ops t i _ _ s _ "(ok, s', h')" x cl] held_count [of _ t x s cl]
  by (auto simp: reserve_fan_operation_def Let_def split: prod.splits)

section \<open>Calls\<close>

abbreviation nothing :: "nat \<Rightarrow> claim option" where "nothing \<equiv> \<lambda>_. None"

lemma nothing_upd [simp]: "nothing(i := None) = nothing"
  by (simp add: fun_eq_iff)

lemma apply_target_limit:
  "apply_target s request h = (result, h') \<Longrightarrow> res_accepted result \<longrightarrow> res_manual_target_pct result \<le> 100"
  by (auto simp: apply_target_def split: prod.splits if_splits)

lemma held_process_end:
  assumes "environment ops t" and "held (CONFIG_SCHEDULE_SLOTS ops) t x s nothing" and "i < sched_fan_count (fst x)"
  shows "held (CONFIG_SCHEDULE_SLOTS ops) t x (fst (process_schedule_end ops i now s h)) nothing"
proof -
  obtain s0 h0 where l: "lock ops s h = (s0, h0)" by (rule prod.exhaust)
  have H0: "held (CONFIG_SCHEDULE_SLOTS ops) t x s0 nothing" by (rule held_lock [OF assms(2,1) l])
  show ?thesis
  proof (cases "end_begin_section i now s0")
    case None
    then show ?thesis using l H0 by (simp add: process_schedule_end_def)
  next
    case (Some r)
    obtain slot target inh s1 where r: "r = (slot, target, inh, s1)" by (metis prod_cases4)
    obtain result h1 where a: "apply_target s1 (target_request SCHEDULER_TARGET_RESTORE i slot target s1) h0 = (result, h1)"
      by (rule prod.exhaust)
    obtain s2 h2 where l2: "lock ops s1 h1 = (s2, h2)" by (rule prod.exhaust)
    have H1: "held (CONFIG_SCHEDULE_SLOTS ops) t x s1 (nothing(i \<mapsto> Ending))"
      using held_begin(1) [OF H0, of i now slot target inh s1] Some r assms(3) held_count [OF H0] by simp
    have H2: "held (CONFIG_SCHEDULE_SLOTS ops) t x s2 (nothing(i \<mapsto> Ending))" by (rule held_lock [OF H1 assms(1) l2])
    have "held (CONFIG_SCHEDULE_SLOTS ops) t x (end_finish_section i s2) nothing"
      using held_finish(2) [OF H2, of i] by simp
    then show ?thesis using l Some r a l2 by (simp add: process_schedule_end_def Let_def)
  qed
qed

lemma held_process_start:
  assumes "environment ops t" and "held (CONFIG_SCHEDULE_SLOTS ops) t x s nothing" and "i < sched_fan_count (fst x)"
  shows "held (CONFIG_SCHEDULE_SLOTS ops) t x (fst (process_schedule_start ops i now s h)) nothing"
proof -
  let ?n = "CONFIG_SCHEDULE_SLOTS ops"
  obtain s0 h0 where l: "lock ops s h = (s0, h0)" by (rule prod.exhaust)
  have H0: "held ?n t x s0 nothing" by (rule held_lock [OF assms(2,1) l])
  obtain r s1 where b: "start_begin_section ?n i now s0 = (r, s1)" by (rule prod.exhaust)
  have i: "i < sched_fan_count s0" using assms(3) held_count [OF H0] by simp
  show ?thesis
  proof (cases r)
    case None
    then show ?thesis using l b held_begin(2) [OF H0 i, of now s1] by (simp add: process_schedule_start_def)
  next
    case (Some q)
    obtain k target duration where q: "q = (k, target, duration)" by (metis prod_cases3)
    obtain result h1 where a: "apply_target s1 (target_request SCHEDULER_TARGET_START i (int k) target s1) h0 = (result, h1)"
      by (rule prod.exhaust)
    obtain s2 h2 where l2: "lock ops s1 h1 = (s2, h2)" by (rule prod.exhaust)
    have H1: "held ?n t x s1 (nothing(i \<mapsto> Starting k now duration))" using held_begin(3) [OF H0 i] b Some q by simp
    have H2: "held ?n t x s2 (nothing(i \<mapsto> Starting k now duration))" by (rule held_lock [OF H1 assms(1) l2])
    obtain started s3 where f: "start_finish_section ?n i now k duration result s2 = (started, s3)" by (rule prod.exhaust)
    have "held ?n t x s3 nothing"
      using held_finish(3) [OF H2 _ apply_target_limit [OF a], of i k now duration] f by simp
    then show ?thesis using l b Some q a l2 f by (simp add: process_schedule_start_def)
  qed
qed

lemma held_process_fans:
  assumes "environment ops t"
  shows "held (CONFIG_SCHEDULE_SLOTS ops) t x s nothing \<Longrightarrow> \<forall>i \<in> set is. i < sched_fan_count (fst x) \<Longrightarrow>
    held (CONFIG_SCHEDULE_SLOTS ops) t x (fst (process_fans ops now is s h)) nothing"
proof (induction "is" arbitrary: s h)
  case (Cons i "is")
  obtain s1 h1 where e: "process_schedule_end ops i now s h = (s1, h1)" by (rule prod.exhaust)
  obtain s2 h2 where b: "process_schedule_start ops i now s1 h1 = (s2, h2)" by (rule prod.exhaust)
  have "held (CONFIG_SCHEDULE_SLOTS ops) t x s1 nothing"
    using held_process_end [OF assms Cons.prems(1), of i now h] Cons.prems(2) e by simp
  from held_process_start [OF assms this, of i now h1] Cons.prems(2) b
  have "held (CONFIG_SCHEDULE_SLOTS ops) t x s2 nothing" by simp
  then show ?case using Cons.IH Cons.prems(2) e b by simp
qed simp

lemma held_task_iteration:
  assumes "environment ops t" and "held (CONFIG_SCHEDULE_SLOTS ops) t x s nothing"
    and "scheduler_task_iteration ops s h = (s', h')"
  shows "held (CONFIG_SCHEDULE_SLOTS ops) t x s' nothing"
proof -
  obtain now h1 where t: "os_timer_us ops h = (now, h1)" by (rule prod.exhaust)
  obtain s2 h2 where p: "process_fans ops now [0..<sched_fan_count s] s h1 = (s2, h2)" by (rule prod.exhaust)
  have "held (CONFIG_SCHEDULE_SLOTS ops) t x s2 nothing"
    using held_process_fans [OF assms(1,2), of "[0..<sched_fan_count s]" now h1] p held_count [OF assms(2)] by simp
  then show ?thesis using assms(3) t p by (auto simp: scheduler_task_iteration_def split: prod.splits intro: held_other)
qed

lemma local_fan_count: "local_fan_valid s local_fan \<Longrightarrow> nat local_fan < sched_fan_count s \<and> int (nat local_fan) = local_fan"
  by (auto simp: local_fan_valid_def sched_fan_count_def split: option.splits)

text \<open>The common shape of a command on one fan: reserve it, then work on it.\<close>

lemma held_fan_command:
  assumes "environment ops t" and "held (CONFIG_SCHEDULE_SLOTS ops) t x s nothing" and "local_fan_valid s local_fan"
    and "reserve_fan_operation ops (nat local_fan) s h = Some (ok, s1, h1)"
  shows "ok \<Longrightarrow> held (CONFIG_SCHEDULE_SLOTS ops) t x s1 (nothing(nat local_fan \<mapsto> Reserved))"
    and "\<not> ok \<Longrightarrow> held (CONFIG_SCHEDULE_SLOTS ops) t x s1 nothing"
  using held_reserve_fan [OF assms(1,4,2)] local_fan_count [OF assms(3)] by auto

lemma held_manual:
  assumes "environment ops t" and "held (CONFIG_SCHEDULE_SLOTS ops) t x s nothing"
    and "scheduler_apply_manual_target ops local_fan target_pct s h = Some (e, out, s', h')"
  shows "held (CONFIG_SCHEDULE_SLOTS ops) t x s' nothing"
proof (cases "target_pct > 100 \<or> \<not> local_fan_valid s local_fan")
  case True
  then show ?thesis using assms by (auto simp: scheduler_apply_manual_target_def)
next
  case False
  let ?i = "nat local_fan"
  from False assms(3) obtain ok s1 h1 where r: "reserve_fan_operation ops ?i s h = Some (ok, s1, h1)"
    by (cases "reserve_fan_operation ops ?i s h") (auto simp: scheduler_apply_manual_target_def Let_def)
  have v: "local_fan_valid s local_fan" using False by simp
  note H = held_fan_command [OF assms(1,2) v r]
  show ?thesis
  proof (cases ok)
    case True
    obtain result h2 where a: "apply_target s1 (target_request SCHEDULER_TARGET_MANUAL ?i (-1) target_pct s1) h1 = (result, h2)"
      by (rule prod.exhaust)
    obtain s3 h3 where l: "lock ops s1 h2 = (s3, h3)" by (rule prod.exhaust)
    have "held (CONFIG_SCHEDULE_SLOTS ops) t x (snd (manual_finish_section ?i result s3)) nothing"
      using held_finish(4) [OF held_lock [OF H(1) [OF True] assms(1) l], of ?i result] by simp
    then show ?thesis using assms(3) False r True a l
      by (auto simp: scheduler_apply_manual_target_def Let_def split: prod.splits)
  next
    case not_ok: False
    then show ?thesis using assms(3) False r H(2) by (auto simp: scheduler_apply_manual_target_def Let_def)
  qed
qed

lemma held_set_entry:
  assumes "environment ops t" and "held (CONFIG_SCHEDULE_SLOTS ops) t x s nothing"
    and "scheduler_set_entry ops local_fan slot interval duration target s h = Some (e, s', h')"
  shows "held (CONFIG_SCHEDULE_SLOTS ops) t x s' nothing"
proof (cases "local_fan_valid s local_fan \<and> slot_valid ops slot \<and> entry_config_valid interval duration (ucast target)")
  case False
  then show ?thesis using assms by (auto simp: scheduler_set_entry_def)
next
  case True
  let ?i = "nat local_fan"
  from True assms(3) obtain ok s1 h1 where r: "reserve_fan_operation ops ?i s h = Some (ok, s1, h1)"
    by (cases "reserve_fan_operation ops ?i s h") (auto simp: scheduler_set_entry_def)
  note H = held_fan_command [OF assms(1,2) conjunct1 [OF True] r]
  show ?thesis
  proof (cases ok)
    case ok: True
    obtain now h2 where n: "os_timer_us ops h1 = (now, h2)" by (rule prod.exhaust)
    obtain s3 h3 where l: "lock ops s1 h2 = (s3, h3)" by (rule prod.exhaust)
    have "nat slot < CONFIG_SCHEDULE_SLOTS ops" using True by (auto simp: slot_valid_def)
    then have "held (CONFIG_SCHEDULE_SLOTS ops) t x (set_entry_section ?i (nat slot) interval duration target now s3) nothing"
      using held_finish(5) [OF held_lock [OF H(1) [OF ok] assms(1) l], of ?i "nat slot" interval duration target now] True by simp
    then show ?thesis using assms(3) True r ok n l by (auto simp: scheduler_set_entry_def Let_def)
  next
    case not_ok: False
    then show ?thesis using assms(3) True r H(2) by (auto simp: scheduler_set_entry_def)
  qed
qed

lemma held_disable_entry:
  assumes "environment ops t" and "held (CONFIG_SCHEDULE_SLOTS ops) t x s nothing"
    and "scheduler_disable_entry ops local_fan slot s h = Some (e, s', h')"
  shows "held (CONFIG_SCHEDULE_SLOTS ops) t x s' nothing"
proof (cases "local_fan_valid s local_fan \<and> slot_valid ops slot")
  case False
  then show ?thesis using assms by (auto simp: scheduler_disable_entry_def)
next
  case True
  let ?i = "nat local_fan" and ?k = "nat slot"
  from True assms(3) obtain ok s1 h1 where r: "reserve_fan_operation ops ?i s h = Some (ok, s1, h1)"
    by (cases "reserve_fan_operation ops ?i s h") (auto simp: scheduler_disable_entry_def Let_def)
  note H = held_fan_command [OF assms(1,2) conjunct1 [OF True] r]
  show ?thesis
  proof (cases ok)
    case ok: True
    obtain s2 h2 where l: "lock ops s1 h1 = (s2, h2)" by (rule prod.exhaust)
    let ?was = "sf_active_slot (sched_fan s2 ?i) = slot"
    obtain result h3 where a: "(if ?was then apply_target s2 (target_request SCHEDULER_TARGET_RESTORE ?i slot
        (sf_saved_manual_target (sched_fan s2 ?i)) s2) h2 else (target_result_zero, h2)) = (result, h3)" by (rule prod.exhaust)
    obtain s4 h4 where l2: "lock ops s2 h3 = (s4, h4)" by (rule prod.exhaust)
    have k: "?k < CONFIG_SCHEDULE_SLOTS ops" "int ?k = slot" using True by (auto simp: slot_valid_def)
    have H2: "held (CONFIG_SCHEDULE_SLOTS ops) t x s2 (nothing(?i \<mapsto> Disabling ?k ?was))"
      using held_finish(6) [OF held_lock [OF H(1) [OF ok] assms(1) l], of ?i ?k] k by simp
    have "held (CONFIG_SCHEDULE_SLOTS ops) t x (disable_finish_section ?i ?k ?was s4) nothing"
      using held_finish(7) [OF held_lock [OF H2 assms(1) l2], of ?i ?k ?was] by simp
    then show ?thesis using assms(3) True r ok l a l2 by (auto simp: scheduler_disable_entry_def Let_def)
  next
    case not_ok: False
    then show ?thesis using assms(3) True r H(2) by (auto simp: scheduler_disable_entry_def Let_def)
  qed
qed

lemma held_cancel_fan:
  assumes "environment ops t" and "held (CONFIG_SCHEDULE_SLOTS ops) t x s nothing"
    and "scheduler_cancel_fan ops local_fan s h = Some (e, s', h')"
  shows "held (CONFIG_SCHEDULE_SLOTS ops) t x s' nothing"
proof (cases "local_fan_valid s local_fan")
  case False
  then show ?thesis using assms by (auto simp: scheduler_cancel_fan_def)
next
  case True
  let ?i = "nat local_fan"
  from True assms(3) obtain ok s1 h1 where r: "reserve_fan_operation ops ?i s h = Some (ok, s1, h1)"
    by (cases "reserve_fan_operation ops ?i s h") (auto simp: scheduler_cancel_fan_def Let_def)
  note H = held_fan_command [OF assms(1,2) True r]
  obtain s2 h2 where l: "lock ops s1 h1 = (s2, h2)" by (rule prod.exhaust)
  show ?thesis
  proof (cases ok)
    case ok: True
    have "held (CONFIG_SCHEDULE_SLOTS ops) t x (snd (cancel_section ?i s2)) nothing"
      using held_finish(8) [OF held_lock [OF H(1) [OF ok] assms(1) l], of ?i] by simp
    then show ?thesis using assms(3) True r ok l by (auto simp: scheduler_cancel_fan_def Let_def split: prod.splits)
  next
    case False
    then show ?thesis using assms(3) True r H(2) by (auto simp: scheduler_cancel_fan_def Let_def)
  qed
qed

section \<open>The override and the safety inhibit\<close>

abbreviation reserved :: "nat set \<Rightarrow> nat \<Rightarrow> claim option" where
  "reserved A \<equiv> \<lambda>i. if i \<in> A then Some Reserved else None"

lemma reserved_insert: "(reserved A)(i \<mapsto> Reserved) = reserved (insert i A)"
  "i \<notin> A \<Longrightarrow> (reserved (insert i A))(i := None) = reserved A"
  by (auto simp: fun_eq_iff)

lemma held_release_fold:
  "held slots t x s (reserved (set is)) \<Longrightarrow> distinct is \<Longrightarrow>
   held slots t x (fold release_fan_operation_locked is s) nothing"
proof (induction "is" arbitrary: s)
  case (Cons i "is")
  have "held slots t x (release_fan_operation_locked i s) ((reserved (insert i (set is)))(i := None))"
    using held_finish(1) [OF Cons.prems(1), of i] by simp
  also have "(reserved (insert i (set is)))(i := None) = reserved (set is)"
    using Cons.prems(2) by (intro reserved_insert) simp
  finally show ?case using Cons.IH Cons.prems(2) by simp
qed simp

lemma held_reserve_fans:
  assumes "environment ops t"
  shows "reserve_fans ops rs is s h = Some (ok, s', h') \<Longrightarrow>
    held (CONFIG_SCHEDULE_SLOTS ops) t x s (reserved (set rs)) \<Longrightarrow> distinct (rs @ is) \<Longrightarrow>
    \<forall>i \<in> set is. i < sched_fan_count (fst x) \<Longrightarrow>
    held (CONFIG_SCHEDULE_SLOTS ops) t x s' (if ok then reserved (set rs \<union> set is) else nothing)"
proof (induction "is" arbitrary: rs s h)
  case Nil
  then show ?case by simp
next
  case (Cons i "is")
  then obtain ok1 s1 h1 where r: "reserve_fan_operation ops i s h = Some (ok1, s1, h1)"
    by (auto split: option.splits)
  have H: "held (CONFIG_SCHEDULE_SLOTS ops) t x s1 (if ok1 then (reserved (set rs))(i \<mapsto> Reserved) else reserved (set rs))"
    using held_reserve_fan [OF assms r Cons.prems(2)] Cons.prems(4) held_count [OF Cons.prems(2)] by simp
  show ?case
  proof (cases ok1)
    case True
    then have "held (CONFIG_SCHEDULE_SLOTS ops) t x s1 (reserved (set (rs @ [i])))"
      using H unfolding reserved_insert(1) by simp
    moreover have "reserve_fans ops (rs @ [i]) is s1 h1 = Some (ok, s', h')" using Cons.prems(1) r True by simp
    ultimately have "held (CONFIG_SCHEDULE_SLOTS ops) t x s' (if ok then reserved (set (rs @ [i]) \<union> set is) else nothing)"
      using Cons.IH [of "rs @ [i]" s1 h1] Cons.prems(3,4) by simp
    moreover have "set (rs @ [i]) \<union> set is = set rs \<union> set (i # is)" by auto
    ultimately show ?thesis by (simp only:)
  next
    case False
    obtain s2 h2 where l: "lock ops s1 h1 = (s2, h2)" by (rule prod.exhaust)
    have "held (CONFIG_SCHEDULE_SLOTS ops) t x s2 (reserved (set rs))"
      using held_lock [OF _ assms l] H False by simp
    from held_release_fold [OF this] Cons.prems(1,3) r False l show ?thesis by auto
  qed
qed

definition overriding :: "bool \<Rightarrow> 'h scheduler \<Rightarrow> nat \<Rightarrow> claim option" where
  "overriding inhibited s i = (if i < sched_fan_count s
     then Some (Overriding (if inhibited then Some (sf_active_slot (sched_fan s i)) else None)) else None)"

lemma mine_all:
  assumes "protocol_inv slots (s, own)" and "mine t own = reserved {..<sched_fan_count s}"
  shows "\<forall>i < sched_fan_count s. own i = Some (t, Reserved)"
  by (simp add: mine_Some [symmetric] assms(2))

lemma held_override:
  assumes "held slots t x s (reserved {..<sched_fan_count s})"
  shows "override_section False now s = (None, s') \<Longrightarrow> held slots t x s' nothing"
    and "override_section inhibited now s = (Some captured, s') \<Longrightarrow> held slots t x s' (overriding inhibited s)"
proof -
  show "held slots t x s' nothing" if "override_section False now s = (None, s')"
    using assms by (rule held_step) (use that mine_all in \<open>blast intro: sched_step.override_refused mine_None\<close>)
  assume o: "override_section inhibited now s = (Some captured, s')"
  show "held slots t x s' (overriding inhibited s)"
  proof (rule held_step [OF assms])
    fix own assume p: "protocol_inv slots (s, own)" "mine t own = reserved {..<sched_fan_count s}"
    let ?own = "\<lambda>i. if i < sched_fan_count s
      then Some (t, Overriding (if inhibited then Some (sf_active_slot (sched_fan s i)) else None)) else None"
    have "sched_step slots t (s, own) (s', ?own)"
      using sched_step.override_on [OF mine_all [OF p]] sched_step.override_off [OF mine_all [OF p]] o
      by (cases inhibited) (simp_all only: if_True if_False)
    moreover have "mine t ?own = overriding inhibited s" by (simp add: mine_def overriding_def fun_eq_iff)
    ultimately show "\<exists>own'. sched_step slots t (s, own) (s', own') \<and> mine t own' = overriding inhibited s" by blast
  qed
qed

lemma override_restore_fans:
  "fst ` set (fst (override_restore captured s h)) = fst ` {c \<in> set captured. 0 \<le> fst (snd c)} \<and>
   (distinct (map fst captured) \<longrightarrow> distinct (map fst (fst (override_restore captured s h))))"
proof (induction captured arbitrary: h)
  case (Cons c captured)
  obtain fan slot target where c: "c = (fan, slot, target)" by (metis prod_cases3)
  show ?case
  proof (cases "slot < 0")
    case True
    then show ?thesis using Cons.IH [of h] by (auto simp: c)
  next
    case False
    obtain result h1 where a: "apply_target s (target_request SCHEDULER_TARGET_RESTORE fan slot target s) h = (result, h1)"
      by (rule prod.exhaust)
    obtain ended h2 where e: "override_restore captured s h1 = (ended, h2)" by (rule prod.exhaust)
    have I: "fst ` set ended = fst ` {c \<in> set captured. 0 \<le> fst (snd c)}"
      "distinct (map fst captured) \<longrightarrow> distinct (map fst ended)" using Cons.IH [of h1] e by simp_all
    have "fan \<notin> fst ` set ended" if "fan \<notin> fst ` set captured" using that unfolding I(1) by auto
    moreover have "{c' \<in> set (c # captured). 0 \<le> fst (snd c')} = insert c {c \<in> set captured. 0 \<le> fst (snd c)}"
      using False c by auto
    ultimately show ?thesis using I False a e by (auto simp: c)
  qed
qed simp

lemma held_override_finish:
  assumes H: "held slots t x s' (overriding inhibited s)" and "override_section inhibited now s = (Some captured, s1)"
    and "override_restore captured s1 h = (ended, h')" and n: "sched_fan_count s' = sched_fan_count s"
  shows "held slots t x (override_finish_section ended s') nothing"
proof (rule held_step [OF H])
  fix own assume own: "mine t own = overriding inhibited s"
  have cap: "captured = (if inhibited then map (\<lambda>fan. (fan, sf_active_slot (sched_fan s fan), sf_saved_manual_target (sched_fan s fan)))
      [0..<sched_fan_count s] else [])"
    using assms(2) by (cases inhibited) (auto simp: override_section_def Let_def split: if_splits)
  have ended: "fst ` set ended = {i. i < sched_fan_count s \<and> inhibited \<and> 0 \<le> sf_active_slot (sched_fan s i)}"
    using override_restore_fans [of captured s1 h] assms(3) by (auto simp: cap image_iff)
  have "distinct (map fst captured)" by (simp add: cap comp_def)
  then have "distinct (map fst ended)" using override_restore_fans [of captured s1 h] assms(3) by simp
  moreover have "\<forall>i < sched_fan_count s'. \<exists>a. own i = Some (t, Overriding a) \<and>
      (i \<in> fst ` set ended \<longleftrightarrow> (\<exists>slot. a = Some slot \<and> 0 \<le> slot))"
  proof (intro allI impI)
    fix i assume i: "i < sched_fan_count s'"
    have "mine t own i = Some (Overriding (if inhibited then Some (sf_active_slot (sched_fan s i)) else None))"
      using own n i by (simp add: overriding_def)
    then have "own i = Some (t, Overriding (if inhibited then Some (sf_active_slot (sched_fan s i)) else None))"
      by (simp only: mine_Some)
    then show "\<exists>a. own i = Some (t, Overriding a) \<and> (i \<in> fst ` set ended \<longleftrightarrow> (\<exists>slot. a = Some slot \<and> 0 \<le> slot))"
      using i n by (auto simp: ended)
  qed
  ultimately have "sched_step slots t (s', own) (override_finish_section ended s', \<lambda>_. None)"
    using ended n by (intro sched_step.override_finish) auto
  then show "\<exists>own'. sched_step slots t (s', own) (override_finish_section ended s', own') \<and> mine t own' = nothing"
    using mine_None by blast
qed

lemma held_set_override:
  fixes s :: "'h scheduler"
  assumes env: "environment ops t" and H: "held (CONFIG_SCHEDULE_SLOTS ops) t x s nothing"
    and run: "scheduler_set_override ops inhibited s h = Some (e, s', h')"
  shows "held (CONFIG_SCHEDULE_SLOTS ops) t x s' nothing \<and> (e = ESP_OK \<longrightarrow>
    (\<exists>(s0 :: 'h scheduler) s6 ended. held (CONFIG_SCHEDULE_SLOTS ops) t x s6 (overriding inhibited s0) \<and>
       sched_fan_count s6 = sched_fan_count s0 \<and> s' = override_finish_section ended s6))"
proof (cases "scheduler_is_initialized s")
  case False
  then show ?thesis using H run by (auto simp: scheduler_set_override_def)
next
  case init: True
  let ?n = "CONFIG_SCHEDULE_SLOTS ops"
  obtain s0 h0 where c: "(if \<not> inhibited then lock ops s h else (s, h)) = (s0, h0)" by (rule prod.exhaust)
  have H0: "held ?n t x s0 nothing" using c H held_lock [OF H env, of h] by (cases inhibited) auto
  show ?thesis
  proof (cases "\<not> inhibited \<and> sch_runtime_inhibit_latched s0")
    case True
    then show ?thesis using H0 run init c by (auto simp: scheduler_set_override_def)
  next
    case False
    then obtain ok s1 h1 where r: "reserve_all_fans ops s0 h0 = Some (ok, s1, h1)"
      using run init c by (cases "reserve_all_fans ops s0 h0") (auto simp: scheduler_set_override_def)
    have H1: "held ?n t x s1 (if ok then reserved {..<sched_fan_count s1} else nothing)"
    proof -
      have "held ?n t x s1 (if ok then reserved (set [] \<union> set [0..<sched_fan_count s0]) else nothing)"
        using held_reserve_fans [OF env r [unfolded reserve_all_fans_def]] H0 held_count [OF H0] by simp
      moreover from this have "sched_fan_count s1 = sched_fan_count s0" using held_count held_count [OF H0] by metis
      ultimately show ?thesis by (cases ok) (simp_all add: lessThan_atLeast0)
    qed
    show ?thesis
    proof (cases ok)
      case False
      then show ?thesis using H1 run init c r \<open>\<not> (\<not> inhibited \<and> _)\<close> by (auto simp: scheduler_set_override_def)
    next
      case True
      obtain now h2 where n: "os_timer_us ops h1 = (now, h2)" by (rule prod.exhaust)
      obtain s3 h3 where l: "lock ops s1 h2 = (s3, h3)" by (rule prod.exhaust)
      have "held ?n t x s3 (reserved {..<sched_fan_count s1})" using held_lock [OF _ env l] H1 True by simp
      moreover from this have "sched_fan_count s3 = sched_fan_count s1" using held_count held_count [OF H1] by metis
      ultimately have H3: "held ?n t x s3 (reserved {..<sched_fan_count s3})" by simp
      obtain cap s4 where o: "override_section inhibited now s3 = (cap, s4)" by (rule prod.exhaust)
      show ?thesis
      proof (cases cap)
        case None
        then have "\<not> inhibited" using o by (cases inhibited) (auto simp: override_section_def Let_def)
        then have "held ?n t x s4 nothing" using held_override(1) [OF H3] o None by simp
        then show ?thesis using run init c r True n l o None \<open>\<not> (\<not> inhibited \<and> _)\<close>
          by (auto simp: scheduler_set_override_def)
      next
        case (Some captured)
        have H4: "held ?n t x s4 (overriding inhibited s3)" using held_override(2) [OF H3] o Some by simp
        obtain ended h5 where e: "override_restore captured s4 h3 = (ended, h5)" by (rule prod.exhaust)
        obtain s6 h6 where l6: "lock ops s4 h5 = (s6, h6)" by (rule prod.exhaust)
        have H6: "held ?n t x s6 (overriding inhibited s3)" by (rule held_lock [OF H4 env l6])
        have cnt: "sched_fan_count s6 = sched_fan_count s3" using held_count [OF H6] held_count [OF H3] by simp
        have H7: "held ?n t x (override_finish_section ended s6) nothing"
          using held_override_finish [OF H6 o [unfolded Some] e cnt] .
        have s': "s' = override_finish_section ended s6"
          using run init c r True n l o Some e l6 \<open>\<not> (\<not> inhibited \<and> _)\<close>
          by (simp add: scheduler_set_override_def Let_def)
        have "\<exists>(s0 :: 'h scheduler) s6 ended. held ?n t x s6 (overriding inhibited s0) \<and>
            sched_fan_count s6 = sched_fan_count s0 \<and> s' = override_finish_section ended s6"
          by (rule exI [of _ s3], rule exI [of _ s6], rule exI [of _ ended]) (simp add: H6 cnt s')
        with H7 [folded s'] show ?thesis by blast
      qed
    qed
  qed
qed

lemma held_inhibit_loop:
  assumes env: "environment ops t" and run: "inhibit_loop ops timeout st s h = Some y"
    and h: "held (CONFIG_SCHEDULE_SLOTS ops) t x s cl"
  shows "held (CONFIG_SCHEDULE_SLOTS ops) t x (fst (snd y)) cl \<and> (fst y \<longrightarrow> sch_runtime_inhibit_latched (fst (snd y)))"
proof (rule inhibit_loop.raw_induct [where P = "\<lambda>ops timeout st s h y. environment ops t \<longrightarrow>
    held (CONFIG_SCHEDULE_SLOTS ops) t x s cl \<longrightarrow> held (CONFIG_SCHEDULE_SLOTS ops) t x (fst (snd y)) cl \<and>
    (fst y \<longrightarrow> sch_runtime_inhibit_latched (fst (snd y)))", OF _ run, rule_format], goal_cases)
  case (1 loop ops timeout st s h y)
  obtain rem h1 where r: "ticks_remaining ops timeout st h = (rem, h1)" by (rule prod.exhaust)
  obtain taken s2 h2 where k: "sch_take ops (the (sch_mutex s)) rem s h1 = (taken, s2, h2)" by (metis prod_cases3)
  have H2: "held (CONFIG_SCHEDULE_SLOTS ops) t x s2 cl"
    using held_env(1) [OF 1(4,3), of "the (sch_mutex s)" rem h1] k by simp
  show ?case
  proof (cases taken)
    case False
    then show ?thesis using 1(2) r k H2 by auto
  next
    case True
    show ?thesis
    proof (cases "inhibit_section s2")
      case (Some s3)
      have "held (CONFIG_SCHEDULE_SLOTS ops) t x s3 cl"
        using H2 by (rule held_step) (use Some in \<open>blast intro: sched_step.inhibit\<close>)
      moreover have "sch_runtime_inhibit_latched s3" using Some by (auto simp: inhibit_section_def split: if_splits)
      ultimately show ?thesis using 1(2) r k True Some by auto
    next
      case None
      obtain expired h3 where e: "(if timeout \<noteq> portMAX_DELAY
          then (case os_tick_count ops h2 of (now, h3) \<Rightarrow> (now - st \<ge> timeout, h3)) else (False, h2)) = (expired, h3)"
        by (rule prod.exhaust)
      show ?thesis
      proof (cases expired)
        case True
        then show ?thesis using 1(2) r k \<open>taken\<close> None e H2 by auto
      next
        case False
        obtain s4 h4 where d: "sch_delay ops s2 h3 = (s4, h4)" by (rule prod.exhaust)
        have "held (CONFIG_SCHEDULE_SLOTS ops) t x s4 cl" using held_env(2) [OF H2 1(3), of h3] d by simp
        then show ?thesis using 1(1) [of ops timeout st s4 h4 y] 1(2,3) r k \<open>taken\<close> None e False d by auto
      qed
    qed
  qed
qed (use env h in auto)

lemma held_save_wait_loop:
  assumes env: "environment ops t" and run: "save_wait_loop ops g timeout st s h = Some y"
    and h: "held (CONFIG_SCHEDULE_SLOTS ops) t x s cl"
  shows "held (CONFIG_SCHEDULE_SLOTS ops) t x (fst (snd y)) cl"
proof (rule save_wait_loop.raw_induct [where P = "\<lambda>ops g timeout st s h y. environment ops t \<longrightarrow>
    held (CONFIG_SCHEDULE_SLOTS ops) t x s cl \<longrightarrow> held (CONFIG_SCHEDULE_SLOTS ops) t x (fst (snd y)) cl",
    OF _ run, rule_format], goal_cases)
  case (1 loop ops g timeout st s h y)
  have "held (CONFIG_SCHEDULE_SLOTS ops) t x (fst (snd (sch_take ops m r s h'))) cl" for m r h'
    by (rule held_env(1) [OF 1(4,3)])
  then have H: "held (CONFIG_SCHEDULE_SLOTS ops) t x s2 cl" if "sch_take ops m r s h' = (b, s2, h2)" for m r h' b s2 h2
    using that by (metis fst_conv snd_conv)
  show ?case
  proof (cases "sch_sync_completed_generation s = g")
    case True
    then show ?thesis using 1(2,4) by auto
  next
    case False
    then show ?thesis using 1(2,3,4) H
      by (auto simp: Let_def split: if_splits prod.splits option.splits dest!: 1(1))
  qed
qed (use env h in auto)

lemma held_save_sync:
  assumes env: "environment ops t" and H: "held (CONFIG_SCHEDULE_SLOTS ops) t x s cl"
    and run: "scheduler_save_sync ops timeout s h = Some (e, s', h')"
  shows "held (CONFIG_SCHEDULE_SLOTS ops) t x s' cl"
proof (cases "scheduler_is_initialized s \<and> sch_sync_mutex s \<noteq> None")
  case False
  then show ?thesis using H run by (auto simp: scheduler_save_sync_def split: prod.splits option.splits if_splits)
next
  case True
  obtain st h1 where 1: "os_tick_count ops h = (st, h1)" by (rule prod.exhaust)
  from True obtain m where m: "sch_sync_mutex s = Some m" by blast
  obtain taken s2 h2 where k: "sch_take ops m timeout s h1 = (taken, s2, h2)" by (metis prod_cases3)
  have H2: "held (CONFIG_SCHEDULE_SLOTS ops) t x s2 cl" using held_env(1) [OF H env, of m timeout h1] k by simp
  show ?thesis
  proof (cases "taken \<and> save_request_section (os_current_task ops h2) s2 \<noteq> None")
    case False
    then show ?thesis using run True 1 m k H2 by (auto simp: scheduler_save_sync_def split: if_splits option.splits)
  next
    case ok: True
    then obtain task g s3 where q: "save_request_section (os_current_task ops h2) s2 = Some (task, g, s3)" by auto
    have "held (CONFIG_SCHEDULE_SLOTS ops) t x s3 cl"
      using held_other [OF H2, of s3] q by (auto simp: save_request_section_def Let_def split: option.splits if_splits)
    from held_save_wait_loop [OF env _ this] show ?thesis
      using run True 1 m k ok q by (auto simp: scheduler_save_sync_def split: option.splits)
  qed
qed

lemma held_try_inhibit_all:
  assumes env: "environment ops t" and H: "held (CONFIG_SCHEDULE_SLOTS ops) t x s nothing"
    and run: "scheduler_try_inhibit_all ops timeout s h = Some (e, s', h')"
  shows "held (CONFIG_SCHEDULE_SLOTS ops) t x s' nothing"
proof (cases "scheduler_is_initialized s")
  case False
  then show ?thesis using H run by (auto simp: scheduler_try_inhibit_all_def)
next
  case True
  obtain st h1 where 1: "os_tick_count ops h = (st, h1)" by (rule prod.exhaust)
  from run True 1 obtain dn s2 h2 where l: "inhibit_loop ops timeout st s h1 = Some (dn, s2, h2)"
    by (auto simp: scheduler_try_inhibit_all_def split: option.splits)
  have H2: "held (CONFIG_SCHEDULE_SLOTS ops) t x s2 nothing" using held_inhibit_loop [OF env l H] by simp
  show ?thesis
  proof (cases dn)
    case False
    then show ?thesis using run True 1 l H2 by (auto simp: scheduler_try_inhibit_all_def)
  next
    case dn: True
    obtain rem h3 where r: "ticks_remaining ops timeout st h2 = (rem, h3)" by (rule prod.exhaust)
    from run True 1 l dn r obtain e4 s4 h4 where s: "scheduler_save_sync ops rem s2 h3 = Some (e4, s4, h4)"
      by (auto simp: scheduler_try_inhibit_all_def split: option.splits)
    have "s' = s4" using run True 1 l dn r s by (simp add: scheduler_try_inhibit_all_def Let_def)
    then show ?thesis using held_save_sync [OF env H2 s] by simp
  qed
qed

section \<open>The writer\<close>

lemma held_save_to_nvs:
  assumes "environment ops t" and "held (CONFIG_SCHEDULE_SLOTS ops) t x s cl" and "save_to_nvs ops s h = (e, s', h')"
  shows "held (CONFIG_SCHEDULE_SLOTS ops) t x s' cl"
proof -
  obtain s1 h1 where l: "lock ops s h = (s1, h1)" by (rule prod.exhaust)
  have H1: "held (CONFIG_SCHEDULE_SLOTS ops) t x s1 cl" by (rule held_lock [OF assms(2,1) l])
  have "held (CONFIG_SCHEDULE_SLOTS ops) t x s5 cl" if "sch_others ops s1 h3 = (s5, h5)" for h3 s5 h5
    using held_env(3) [OF H1 assms(1), of h3] that by simp
  then show ?thesis using assms(3) l H1
    by (auto simp: save_to_nvs_def Let_def split: prod.splits if_splits)
qed

lemma held_process_pending:
  assumes env: "environment ops t" and run: "process_pending_schedule_saves ops s h = Some y"
    and h: "held (CONFIG_SCHEDULE_SLOTS ops) t x s cl"
  shows "held (CONFIG_SCHEDULE_SLOTS ops) t x (fst y) cl"
proof (rule process_pending_schedule_saves.raw_induct [where P = "\<lambda>ops s h y. environment ops t \<longrightarrow>
    held (CONFIG_SCHEDULE_SLOTS ops) t x s cl \<longrightarrow> held (CONFIG_SCHEDULE_SLOTS ops) t x (fst y) cl",
    OF _ run, rule_format], goal_cases)
  case (1 loop ops s h y)
  show ?case
  proof (cases "schedule_save_pending s")
    case None
    then show ?thesis using 1(2,4) by auto
  next
    case (Some g)
    obtain e s1 h1 where v: "save_to_nvs ops s h = (e, s1, h1)" by (metis prod_cases3)
    obtain s2 h2 where c: "complete_schedule_save ops g e s1 h1 = (s2, h2)" by (rule prod.exhaust)
    have "held (CONFIG_SCHEDULE_SLOTS ops) t x s1 cl" by (rule held_save_to_nvs [OF 1(3,4) v])
    then have "held (CONFIG_SCHEDULE_SLOTS ops) t x s2 cl"
      using held_other [of _ t x s1 cl s2] c by (auto simp: complete_schedule_save_def Let_def)
    then show ?thesis using 1(1) [of ops s2 h2 y] 1(2,3) Some v c by auto
  qed
qed (use env h in auto)

lemma held_sync_part:
  assumes "environment ops t" and "held (CONFIG_SCHEDULE_SLOTS ops) t x s cl"
    and "(if b then process_pending_schedule_saves ops s h else Some (s, h)) = Some (s', h')"
  shows "held (CONFIG_SCHEDULE_SLOTS ops) t x s' cl"
  using assms held_process_pending [OF assms(1) _ assms(2)] by (auto split: if_splits)

lemma held_debounce:
  assumes env: "environment ops t" and run: "schedule_debounce_loop ops s h = Some y"
    and h: "held (CONFIG_SCHEDULE_SLOTS ops) t x s cl"
  shows "held (CONFIG_SCHEDULE_SLOTS ops) t x (fst y) cl"
proof (rule schedule_debounce_loop.raw_induct [where P = "\<lambda>ops s h y. environment ops t \<longrightarrow>
    held (CONFIG_SCHEDULE_SLOTS ops) t x s cl \<longrightarrow> held (CONFIG_SCHEDULE_SLOTS ops) t x (fst y) cl",
    OF _ run, rule_format], goal_cases)
  case (1 loop ops s h y)
  obtain notified s1 h1 where w: "sch_notify_wait ops (os_ms_to_ticks ops (CONFIG_SCHEDULE_SAVE_DEBOUNCE_MS ops)) s h =
      (notified, s1, h1)" by (metis prod_cases3)
  have H1: "held (CONFIG_SCHEDULE_SLOTS ops) t x s1 cl"
    using held_env(4) [OF 1(4,3), of "os_ms_to_ticks ops (CONFIG_SCHEDULE_SAVE_DEBOUNCE_MS ops)" h] w by simp
  show ?case
  proof (cases notified)
    case None
    then show ?thesis using 1(2) w H1 by auto
  next
    case (Some n)
    then obtain s2 h2 where p: "(if n AND SAVE_NOTIFY_SYNC \<noteq> 0 then process_pending_schedule_saves ops s1 h1
        else Some (s1, h1)) = Some (s2, h2)" using 1(2) w by (auto split: option.splits)
    show ?thesis using 1(1) [of ops s2 h2 y] 1(2,3) w Some p held_sync_part [OF 1(3) H1 p] by auto
  qed
qed (use env h in auto)

lemma held_save_task_iteration:
  assumes env: "environment ops t" and H: "held (CONFIG_SCHEDULE_SLOTS ops) t x s cl"
    and run: "schedule_save_task_iteration ops s h = Some (s', h')"
  shows "held (CONFIG_SCHEDULE_SLOTS ops) t x s' cl"
proof -
  obtain notified s1 h1 where w: "sch_notify_wait ops portMAX_DELAY s h = (notified, s1, h1)" by (metis prod_cases3)
  have H1: "held (CONFIG_SCHEDULE_SLOTS ops) t x s1 cl" using held_env(4) [OF H env, of portMAX_DELAY h] w by simp
  define n where "n = (case notified of None \<Rightarrow> 0 | Some n \<Rightarrow> n)"
  from run w obtain s2 h2 where p: "(if n AND SAVE_NOTIFY_SYNC \<noteq> 0 then process_pending_schedule_saves ops s1 h1
      else Some (s1, h1)) = Some (s2, h2)"
    by (auto simp: schedule_save_task_iteration_def n_def [symmetric] split: option.splits)
  have H2: "held (CONFIG_SCHEDULE_SLOTS ops) t x s2 cl" by (rule held_sync_part [OF env H1 p])
  show ?thesis
  proof (cases "n AND SAVE_NOTIFY_ASYNC = 0")
    case True
    then show ?thesis using run w p H2 by (simp add: schedule_save_task_iteration_def n_def [symmetric])
  next
    case False
    with run w p obtain s3 h3 where d: "schedule_debounce_loop ops s2 h2 = Some (s3, h3)"
      by (auto simp: schedule_save_task_iteration_def n_def [symmetric] split: option.splits)
    obtain e s4 h4 where v: "save_to_nvs ops s3 h3 = (e, s4, h4)" by (metis prod_cases3)
    have "held (CONFIG_SCHEDULE_SLOTS ops) t x s4 cl"
      using held_save_to_nvs [OF env _ v] held_debounce [OF env d H2] by simp
    then show ?thesis using run w p False d v by (simp add: schedule_save_task_iteration_def n_def [symmetric])
  qed
qed

text \<open>\<open>call_returns ops s h s'\<close>: a call (or an iteration of one of the two tasks) started in \<open>s\<close>
  returns, and leaves the module in \<open>s'\<close>.\<close>

inductive call_returns :: "'h sched_ops \<Rightarrow> 'h scheduler \<Rightarrow> 'h \<Rightarrow> 'h scheduler \<Rightarrow> bool" for ops s h where
  "scheduler_task_iteration ops s h = (s', h') \<Longrightarrow> call_returns ops s h s'"
| "schedule_save_task_iteration ops s h = Some (s', h') \<Longrightarrow> call_returns ops s h s'"
| "scheduler_apply_manual_target ops local_fan target_pct s h = Some (e, out, s', h') \<Longrightarrow> call_returns ops s h s'"
| "scheduler_set_override ops inhibited s h = Some (e, s', h') \<Longrightarrow> call_returns ops s h s'"
| "scheduler_get_override ops s h = (e, got, s', h') \<Longrightarrow> call_returns ops s h s'"
| "scheduler_set_entry ops local_fan slot interval duration target s h = Some (e, s', h') \<Longrightarrow> call_returns ops s h s'"
| "scheduler_disable_entry ops local_fan slot s h = Some (e, s', h') \<Longrightarrow> call_returns ops s h s'"
| "scheduler_get_entry ops local_fan slot s h = (e, snap, s', h') \<Longrightarrow> call_returns ops s h s'"
| "scheduler_cancel_fan ops local_fan s h = Some (e, s', h') \<Longrightarrow> call_returns ops s h s'"
| "scheduler_try_inhibit_all ops timeout_ticks s h = Some (e, s', h') \<Longrightarrow> call_returns ops s h s'"
| "scheduler_save_sync ops timeout_ticks s h = Some (e, s', h') \<Longrightarrow> call_returns ops s h s'"

lemma held_call:
  assumes "environment ops t" and "held (CONFIG_SCHEDULE_SLOTS ops) t x s nothing" and "call_returns ops s h s'"
  shows "held (CONFIG_SCHEDULE_SLOTS ops) t x s' nothing"
  using assms(3)
proof cases
  case (5 e got h')
  then show ?thesis using assms(2) held_lock [OF assms(2,1), of h]
    by (auto simp: scheduler_get_override_def split: if_splits prod.splits)
next
  case (8 local_fan slot e snap h')
  then show ?thesis using assms(2) held_lock [OF assms(2,1), of h]
    by (auto simp: scheduler_get_entry_def split: if_splits prod.splits)
qed (use assms(1,2) in \<open>auto dest: held_task_iteration held_save_task_iteration held_manual held_set_override
    held_set_entry held_disable_entry held_cancel_fan held_try_inhibit_all held_save_sync\<close>)

section \<open>Isolation\<close>

text \<open>What another task's step cannot touch: the fan that \<open>t\<close> has claimed, the claim, the flags.\<close>

definition same_for :: "nat \<Rightarrow> 'h scheduler \<times> claims \<Rightarrow> 'h scheduler \<times> claims \<Rightarrow> bool" where
  "same_for i x y \<longleftrightarrow> sched_fan (fst y) i = sched_fan (fst x) i \<and> snd y i = snd x i \<and>
     sch_inhibited (fst y) = sch_inhibited (fst x) \<and>
     sch_runtime_inhibit_latched (fst y) = sch_runtime_inhibit_latched (fst x) \<and>
     sch_config (fst y) = sch_config (fst x)"

lemma same_upd_fan: "j \<noteq> i \<Longrightarrow> j < length (sch_fans s) \<Longrightarrow> same_for i (s, own) (upd_fan j f s, own(j := c))"
  "j \<noteq> i \<Longrightarrow> j < length (sch_fans s) \<Longrightarrow>
   same_for i (s, own) (release_fan_operation_locked j (upd_fan j f s), own(j := c))"
  "j \<noteq> i \<Longrightarrow> j < length (sch_fans s) \<Longrightarrow> same_for i (s, own) (release_fan_operation_locked j s, own(j := c))"
  by (simp_all add: same_for_def sched_fan_upd_fan release_fan_operation_locked_def)

lemma step_same:
  assumes "sched_step slots u x y" and "u \<noteq> t" and "protocol_inv slots x" and "snd x i = Some (t, c)"
  shows "same_for i x y"
  using assms
proof (induction rule: sched_step.induct)
  case (reserve j s s' own)
  note F = inv_fan(2) [OF reserve.prems(2) reserve.hyps(1)]
  have "own j = None" and s': "s' = upd_fan j (\<lambda>fan. fan\<lparr>sf_operation_pending := True\<rparr>) s"
    using reserve not_pending_free by (auto simp: reserve_section_def split: if_splits)
  then have "j \<noteq> i" using reserve.prems by auto
  then show ?case unfolding s' by (rule same_upd_fan(1)) (rule F)
next
  case (abandon own j s)
  then show ?case using inv_fan(2) [OF abandon.prems(2)] inv_claimed [OF abandon.prems(2)]
    by (intro same_upd_fan(3)) auto
next
  case (end_begin j s now slot target inhibited s' own)
  note F = inv_fan(2) [OF end_begin.prems(2) end_begin.hyps(1)]
  have "own j = None" and s': "s' = upd_fan j (\<lambda>fan. fan\<lparr>sf_operation_pending := True\<rparr>) s"
    using end_begin not_pending_free by (auto simp: end_begin_section_def Let_def split: if_splits)
  then have "j \<noteq> i" using end_begin.prems by auto
  then show ?case unfolding s' by (rule same_upd_fan(1)) (rule F)
next
  case (end_finish own j s)
  then show ?case using inv_fan(2) [OF end_finish.prems(2)] inv_claimed [OF end_finish.prems(2)]
    unfolding end_finish_section_def by (intro same_upd_fan(2)) auto
next
  case (start_idle j s now s' own)
  note F = inv_fan(2) [OF start_idle.prems(2) start_idle.hyps(1)]
  have "s' = s \<or> own j = None \<and> (\<exists>f. s' = upd_fan j f s)"
    using start_idle not_pending_free by (auto simp: start_begin_section_def Let_def split: if_splits prod.splits option.splits)
  then show ?case using start_idle.prems same_upd_fan(1) [of j i s own] F
    by (auto simp: same_for_def sched_fan_upd_fan)
next
  case (start_begin j s now slot target duration s' own)
  note F = inv_fan(2) [OF start_begin.prems(2) start_begin.hyps(1)]
  have "own j = None \<and> (\<exists>f. s' = upd_fan j f s)"
    using start_begin not_pending_free by (auto simp: start_begin_section_def Let_def split: if_splits prod.splits option.splits)
  then obtain f where f: "s' = upd_fan j f s" and "own j = None" by blast
  then have "j \<noteq> i" using start_begin.prems by auto
  then show ?case unfolding f by (rule same_upd_fan(1)) (rule F)
next
  case (start_finish own j slot now duration result s)
  then show ?case using inv_fan(2) [OF start_finish.prems(2)] inv_claimed [OF start_finish.prems(2)]
    by (auto simp: start_finish_section_def Let_def intro!: same_upd_fan(2))
next
  case (manual own j s result)
  then show ?case using inv_fan(2) [OF manual.prems(2)] inv_claimed [OF manual.prems(2)]
    by (auto simp: manual_finish_section_def Let_def intro!: same_upd_fan(2,3))
next
  case (set_entry own j slot interval duration target s now)
  then show ?case using inv_fan(2) [OF set_entry.prems(2)] inv_claimed [OF set_entry.prems(2)]
    by (auto simp: set_entry_section_def intro!: same_upd_fan(2))
next
  case (disable_begin own j slot s)
  then show ?case by (auto simp: same_for_def)
next
  case (disable_finish own j slot was_active s)
  have j: "j \<noteq> i" "j < length (sch_fans s)" using disable_finish inv_fan(2) [OF disable_finish.prems(2)]
      inv_claimed [OF disable_finish.prems(2)] by auto
  then show ?case using same_upd_fan(2)
    by (cases was_active) (simp_all add: disable_finish_section_def Let_def upd_fan_twice)
next
  case (cancel own j s)
  then show ?case using inv_fan(2) [OF cancel.prems(2)] inv_claimed [OF cancel.prems(2)]
    by (auto simp: cancel_section_def intro!: same_upd_fan(2))
next
  case (override_refused s own now s')
  then show ?case using inv_claimed [OF override_refused.prems(2), of i] by auto
next
  case (override_on s own now captured s')
  then show ?case using inv_claimed [OF override_on.prems(2), of i] by auto
next
  case (override_off s own now captured s')
  then show ?case using inv_claimed [OF override_off.prems(2), of i] by auto
next
  case (override_finish s own ended)
  then show ?case using inv_claimed [OF override_finish.prems(2), of i] by auto
next
  case (inhibit s s' own)
  then show ?case using step_inhibit(2) [OF inhibit.prems(2) inhibit.hyps] by simp
next
  case (other s' s own)
  then show ?case by (simp add: same_for_def sched_fan_def)
qed

lemma others_same: "others_run slots t x y \<Longrightarrow> protocol_inv slots x \<Longrightarrow> snd x i = Some (t, c) \<Longrightarrow> same_for i x y"
  unfolding others_run_def
proof (induction rule: rtranclp_induct)
  case base
  then show ?case by (simp add: same_for_def)
next
  case (step y z)
  then obtain u where u: "u \<noteq> t" "sched_step slots u y z" by blast
  have xy: "same_for i x y" using step by blast
  have inv: "protocol_inv slots y"
    by (rule run_keeps_inv [OF others_run_run [unfolded others_run_def, OF step.hyps(1)] step.prems(1)])
  have "snd y i = Some (t, c)" using xy step.prems(2) by (simp add: same_for_def)
  then have "same_for i y z" by (rule step_same [OF u(2,1) inv])
  then show ?case using xy by (simp add: same_for_def)
qed

end
