(* ===== verification/Blob_Codec.thy ===== *)
theory Blob_Codec imports Platform
begin

text \<open>
  The interface between a module and its persisted blob: an encoder that appends the FNV-1a
  checksum of everything before it, a validity check and a decoder. Both persisted modules
  (\<open>fan_state_store.c\<close>, \<open>scheduler.c\<close>) are clients; the locale gives them the round trip and
  the rejection of every corruption of a single byte.
\<close>

section \<open>Little-endian reads\<close>

lemma le_val_bound: "le_val bs < 256 ^ length bs"
proof (induction bs)
  case (Cons b bs)
  have "unat b + 256 * le_val bs < 256 + 256 * le_val bs" using unat_less_width(1) [of b] by simp
  also have "\<dots> \<le> 256 * 256 ^ length bs" using Cons by (simp flip: mult_Suc_right)
  finally show ?case by simp
qed simp

lemma le_val_inj: "length xs = length ys \<Longrightarrow> le_val xs = le_val ys \<Longrightarrow> xs = ys"
proof (induction xs ys rule: list_induct2)
  case (Cons x xs y ys)
  have lt: "unat x < 256" "unat y < 256" using unat_less_width(1) by simp_all
  have eq: "unat x + 256 * le_val xs = unat y + 256 * le_val ys" using Cons.prems by simp
  have "unat x = (unat x + 256 * le_val xs) mod 256" using lt by simp
  also have "\<dots> = unat y" unfolding eq using lt by simp
  finally have "unat x = unat y" .
  moreover from this eq have "le_val xs = le_val ys" by simp
  ultimately show ?case using Cons.IH by (simp add: word_unat_eq_iff)
qed simp

lemma u32_at_inj:
  assumes "i + 4 \<le> length m" and "length m' = length m" and "u32_at i m = u32_at i m'"
  shows "take 4 (drop i m) = take 4 (drop i m')"
proof -
  have len: "length (take 4 (drop i m)) = 4" "length (take 4 (drop i m')) = 4" using assms by simp_all
  have b: "le_val (take 4 (drop i m)) < 2 ^ 32" "le_val (take 4 (drop i m')) < 2 ^ 32"
    using le_val_bound [of "take 4 (drop i m)"] le_val_bound [of "take 4 (drop i m')"] len by simp_all
  have "unat (u32_at i m) = le_val (take 4 (drop i m))" "unat (u32_at i m') = le_val (take 4 (drop i m'))"
    unfolding u32_at_def using b by (simp_all add: unat_of_nat_small)
  then have "le_val (take 4 (drop i m)) = le_val (take 4 (drop i m'))" using assms(3) by simp
  then show ?thesis using len by (intro le_val_inj) simp_all
qed

lemma u16_at_le16: "i = length xs \<Longrightarrow> u16_at i (xs @ le16 v @ ys) = v"
  and u32_at_le32: "i = length xs \<Longrightarrow> u32_at i (xs @ le32 w @ ys) = w"
  and u64_at_le64: "i = length xs \<Longrightarrow> u64_at i (xs @ le64 x @ ys) = x"
  by (simp_all add: u16_at_def u32_at_def u64_at_def le_val_le16 le_val_le32 le_val_le64)

lemma u8_at_byte: "i = length xs \<Longrightarrow> u8_at i (xs @ b # ys) = b"
  by (simp add: u8_at_def)

section \<open>Checksummed blobs\<close>

definition checksum_ok :: "nat \<Rightarrow> u8 list \<Rightarrow> bool" where
  "checksum_ok n m \<longleftrightarrow> u32_at n m = checksum32 (take n m)"

lemma checksum_ok_append: "length head = n \<Longrightarrow> checksum_ok n (head @ le32 (checksum32 head))"
  using u32_at_le32 [of n head "checksum32 head" "[]"] by (simp add: checksum_ok_def)

lemma checksum_detects_byte:
  assumes ok: "checksum_ok n m" and len: "length m = n + 4" and i: "i < length m" and v: "v \<noteq> m ! i"
  shows "\<not> checksum_ok n (m[i := v])"
proof (cases "i < n")
  case True
  have "odd (16777619 :: u32)" by simp
  moreover have "(take n m)[i := v] = take n (m[i := v])" by (simp add: take_update_swap)
  moreover have "take n m ! i \<noteq> v" "i < length (take n m)" using True v len by auto
  ultimately have "checksum32 (take n (m[i := v])) \<noteq> checksum32 (take n m)"
    using fnv1a_update_neq [of "16777619 :: u32" i "take n m" v] by (auto simp: checksum32_def)
  moreover have "u32_at n (m[i := v]) = u32_at n m" using True by (simp add: u32_at_def)
  ultimately show ?thesis using ok by (simp add: checksum_ok_def)
next
  case False
  have "u32_at n (m[i := v]) \<noteq> u32_at n m"
  proof
    assume "u32_at n (m[i := v]) = u32_at n m"
    then have "take 4 (drop n (m[i := v])) = take 4 (drop n m)" using len by (intro u32_at_inj) simp_all
    then have "drop n (m[i := v]) = drop n m" using len by simp
    then have "drop n (m[i := v]) ! (i - n) = drop n m ! (i - n)" by simp
    then show False using False i len v by simp
  qed
  moreover have "take n (m[i := v]) = take n m" using False by simp
  ultimately show ?thesis using ok by (simp add: checksum_ok_def)
qed

text \<open>The contract: what is encoded from admissible data is valid and decodes to it, and nothing is
  valid without its checksum.\<close>

locale blob_codec =
  fixes encode :: "'a \<Rightarrow> u8 list" and valid :: "u8 list \<Rightarrow> bool" and decode :: "u8 list \<Rightarrow> 'a"
    and admissible :: "'a \<Rightarrow> bool" and head_length :: nat
  assumes encode_length: "length (encode x) = head_length + 4"
    and encode_valid: "admissible x \<Longrightarrow> valid (encode x)"
    and decode_encode: "admissible x \<Longrightarrow> decode (encode x) = x"
    and valid_checksum: "valid m \<Longrightarrow> checksum_ok head_length m"
begin

lemma encode_inj: "admissible x \<Longrightarrow> admissible y \<Longrightarrow> encode x = encode y \<Longrightarrow> x = y"
  by (metis decode_encode)

lemma corrupted_rejected:
  assumes "admissible x" and "i < head_length + 4" and "v \<noteq> encode x ! i"
  shows "\<not> valid ((encode x)[i := v])"
  using assms checksum_detects_byte [OF valid_checksum [OF encode_valid [OF assms(1)]] encode_length]
    valid_checksum by (auto simp: encode_length)

end

end
