(* ===== verification/Sync_Save.thy ===== *)
theory Sync_Save imports Platform
begin

text \<open>
  The acknowledgement protocol of a synchronous save, used by both persisted modules: callers
  increment a requested generation and wait until the completed generation equals theirs;
  the one writer task reads the requested generation, takes its snapshot, writes it and
  publishes that generation with the result. The locale states the protocol over a module's
  operations; its runs interleave callers, writer and changes of the data arbitrarily.
\<close>

text \<open>In a run, \<open>v\<close> counts the changes of the data, \<open>vs\<close> holds its value at each request, the
  writer holds the generation it read and, once taken, the version of its snapshot, and
  \<open>sv\<close> is the version of the last completed save.\<close>

locale sync_save =
  fixes requested completed :: "'s \<Rightarrow> u32" and outcome :: "'s \<Rightarrow> esp_err"
    and pending :: "'s \<Rightarrow> u32 option" and request :: "'s \<Rightarrow> (u32 \<times> 's) option"
    and complete :: "u32 \<Rightarrow> esp_err \<Rightarrow> 's \<Rightarrow> 's"
  assumes pending_iff: "pending s = (if requested s \<noteq> completed s then Some (requested s) else None)"
    and request_law: "request s = Some (g, s') \<Longrightarrow>
      g = requested s + 1 \<and> requested s' = g \<and> completed s' = completed s \<and> outcome s' = outcome s"
    and complete_law: "requested (complete g r s) = requested s" "completed (complete g r s) = g"
      "outcome (complete g r s) = r"
begin

inductive run :: "'s \<Rightarrow> nat \<Rightarrow> nat list \<Rightarrow> (u32 \<times> nat option) option \<Rightarrow> nat \<Rightarrow> bool" where
  boot: "requested s = 0 \<Longrightarrow> completed s = 0 \<Longrightarrow> run s v [] None 0"
| change: "run s v vs w sv \<Longrightarrow> run s (Suc v) vs w sv"
| ask: "run s v vs w sv \<Longrightarrow> Suc (length vs) < 2 ^ 32 \<Longrightarrow> request s = Some (g, s') \<Longrightarrow>
    run s' v (vs @ [v]) w sv"
| start: "run s v vs None sv \<Longrightarrow> pending s = Some g \<Longrightarrow> run s v vs (Some (g, None)) sv"
| snapshot: "run s v vs (Some (g, None)) sv \<Longrightarrow> run s v vs (Some (g, Some v)) sv"
| finish: "run s v vs (Some (g, Some u)) sv \<Longrightarrow> run (complete g r s) v vs None u"

lemma run_versions: "run s v vs w sv \<Longrightarrow> (\<forall>x \<in> set vs. x \<le> v) \<and> length vs < 2 ^ 32 \<and>
    requested s = of_nat (length vs)"
proof (induction rule: run.induct)
  case (ask s v vs w sv g s')
  then show ?case using request_law [OF ask.hyps(3)] by (auto simp: add.commute)
next
  case (finish s v vs g u sv r)
  then show ?case by (simp add: complete_law)
qed auto

lemma nth_append_keep: "1 \<le> k \<Longrightarrow> k \<le> length vs \<Longrightarrow> (vs @ [x]) ! (k - 1) = vs ! (k - 1)"
  by (cases k) (simp_all add: nth_append)

lemma run_inv: "run s v vs w sv \<Longrightarrow>
    (\<exists>c \<le> length vs. completed s = of_nat c \<and> (1 \<le> c \<longrightarrow> vs ! (c - 1) \<le> sv)) \<and>
    (\<forall>g u. w = Some (g, u) \<longrightarrow> (\<exists>k. 1 \<le> k \<and> k \<le> length vs \<and> g = of_nat k \<and>
       (\<forall>x. u = Some x \<longrightarrow> vs ! (k - 1) \<le> x)))"
proof (induction rule: run.induct)
  case (boot s v)
  then show ?case by simp
next
  case (change s v vs w sv)
  then show ?case by blast
next
  case (ask s v vs w sv g s')
  from ask.IH obtain c where c: "c \<le> length vs" "completed s = of_nat c" "1 \<le> c \<longrightarrow> vs ! (c - 1) \<le> sv" by blast
  have "\<exists>c \<le> length (vs @ [v]). completed s' = of_nat c \<and> (1 \<le> c \<longrightarrow> (vs @ [v]) ! (c - 1) \<le> sv)"
    using c request_law [OF ask.hyps(3)] nth_append_keep [of c vs v]
    by (intro exI [of _ c] conjI impI) simp_all
  moreover have "\<exists>k. 1 \<le> k \<and> k \<le> length (vs @ [v]) \<and> g' = of_nat k \<and> (\<forall>x. u = Some x \<longrightarrow> (vs @ [v]) ! (k - 1) \<le> x)"
    if "w = Some (g', u)" for g' u
  proof -
    from ask.IH that obtain k where k: "1 \<le> k" "k \<le> length vs" "g' = of_nat k" "\<forall>x. u = Some x \<longrightarrow> vs ! (k - 1) \<le> x"
      by blast
    then show ?thesis using nth_append_keep [OF k(1,2)] by (intro exI [of _ k]) auto
  qed
  ultimately show ?case by blast
next
  case (start s v vs sv g)
  note R = run_versions [OF start.hyps(1)]
  from start.IH obtain c where c: "c \<le> length vs" "completed s = of_nat c" by blast
  from start.hyps(2) have g: "g = requested s" "requested s \<noteq> completed s"
    by (auto simp: pending_iff split: if_splits)
  have len: "1 \<le> length vs" using g R c by (cases vs) auto
  have "\<exists>k. 1 \<le> k \<and> k \<le> length vs \<and> g' = of_nat k \<and> (\<forall>x. u = Some x \<longrightarrow> vs ! (k - 1) \<le> x)"
    if "Some (g, None) = Some (g', u)" for g' u
    using that len g(1) R by (intro exI [of _ "length vs"]) auto
  then show ?case using start.IH by blast
next
  case (snapshot s v vs g sv)
  then obtain k where k: "1 \<le> k" "k \<le> length vs" "g = of_nat k" by blast
  then have "vs ! (k - 1) \<in> set vs" by (intro nth_mem) linarith
  then have "vs ! (k - 1) \<le> v" using run_versions [OF snapshot.hyps(1)] by blast
  then show ?case using snapshot.IH k by blast
next
  case (finish s v vs g u sv r)
  then obtain k where "1 \<le> k" "k \<le> length vs" "g = of_nat k" "vs ! (k - 1) \<le> u" by blast
  then show ?case by (auto simp: complete_law)
qed

text \<open>A caller that sees its own generation completed knows that the completed save's snapshot was
  taken after its request: it contains every change made before the request.\<close>

lemma acknowledged:
  assumes "run s v vs w sv" and "1 \<le> k" and "k \<le> length vs" and "completed s = of_nat k"
  shows "vs ! (k - 1) \<le> sv"
proof -
  from run_inv [OF assms(1)] obtain c where c: "c \<le> length vs" "completed s = of_nat c"
    "1 \<le> c \<longrightarrow> vs ! (c - 1) \<le> sv" by blast
  have b: "length vs < 2 ^ 32" using run_versions [OF assms(1)] by blast
  have "unat (of_nat c :: u32) = unat (of_nat k :: u32)" using c assms(4) by simp
  then have "c = k" using b c(1) assms(3) by (simp add: unat_of_nat_small)
  then show ?thesis using c assms(2) by simp
qed

end

end
