(* ===== verification/Platform_Simulation.thy ===== *)
theory Platform_Simulation imports Platform
begin

text \<open>
  A simulated platform for the witnesses: a flash that keeps every blob it is given, handles
  and semaphores that are always available, and a clock that stands still. The platform's
  state is the flash and whatever else the witness needs.
\<close>

type_synonym 'x world = "(string \<Rightarrow> u8 list option) \<times> 'x"

definition sim_get_blob :: "nat \<Rightarrow> string \<Rightarrow> nat \<Rightarrow> 'x world \<Rightarrow> (esp_err \<times> u8 list) \<times> 'x world" where
  "sim_get_blob handle key n w =
     (case fst w key of None \<Rightarrow> ((ESP_ERR_NVS_NOT_FOUND, []), w)
      | Some bytes \<Rightarrow> if length bytes \<le> n then ((ESP_OK, bytes), w) else ((ESP_ERR_INVALID_SIZE, []), w))"

definition sim_set_blob :: "nat \<Rightarrow> string \<Rightarrow> u8 list \<Rightarrow> 'x world \<Rightarrow> esp_err \<times> 'x world" where
  "sim_set_blob handle key bytes w = (ESP_OK, ((fst w)(key := Some bytes), snd w))"

definition sim_os :: "'x world os_ops" where
  "sim_os = \<lparr>os_semaphore_create = (\<lambda>h. (Some 1, h)), os_semaphore_delete = (\<lambda>_ h. h),
     os_semaphore_give = (\<lambda>_ h. h), os_task_create = (\<lambda>h. (Some 2, h)), os_task_delete = (\<lambda>_ h. h),
     os_task_notify = (\<lambda>_ _ h. h), os_current_task = (\<lambda>_. 0), os_stack_bytes = (\<lambda>_ _. 1024),
     os_ms_to_ticks = (\<lambda>ms. ms div 10), os_tick_count = (\<lambda>h. (0, h)), os_timer_us = (\<lambda>h. (5000000, h)),
     os_nvs_open = (\<lambda>_ _ h. ((ESP_OK, 7), h)), os_nvs_close = (\<lambda>_ h. h),
     os_nvs_get_blob = sim_get_blob, os_nvs_set_blob = sim_set_blob,
     os_nvs_get_u8 = (\<lambda>_ _ h. ((ESP_ERR_NVS_NOT_FOUND, 0), h)), os_nvs_set_u8 = (\<lambda>_ _ _ h. (ESP_OK, h)),
     os_nvs_commit = (\<lambda>_ h. (ESP_OK, h))\<rparr>"

end
