(* ===== verification/Fan_State_Properties.thy ===== *)
theory Fan_State_Properties imports Fan_State_Store Blob_Codec Sync_Save Platform_Simulation
begin

text \<open>
  What the persisted fan state is worth: the blob round trip, the rejection of corruption,
  what a restore may authorise, and the power cycle from a save to the next boot's restore.
\<close>

section \<open>The blob as a codec\<close>

definition store_config_ok :: "app_config \<Rightarrow> bool" where
  "store_config_ok c \<longleftrightarrow> 1 \<le> fan_count c \<and> fan_count c \<le> 4 \<and>
     - 2147483648 \<le> fan_index_start c \<and> fan_index_start c < 2147483648"

definition config_blob :: "app_config \<Rightarrow> u8 list \<Rightarrow> u8 list" where
  "config_blob c targets =
     fan_state_blob (topology_fp c) (fan_index_start c) (of_int (fan_count c)) targets"

lemma sint_of_int_small: "- 2147483648 \<le> i \<Longrightarrow> i < 2147483648 \<Longrightarrow> sint (of_int i :: u32) = i"
  by (simp add: signed_of_int signed_take_bit_int_eq_self)

lemma uint_of_int_u8: "0 \<le> i \<Longrightarrow> i < 256 \<Longrightarrow> uint (of_int i :: u8) = i"
  by (simp add: unsigned_of_int take_bit_int_eq_self)

lemma head_length [simp]: "length (fan_state_blob_head t i n ts) = 28"
  by (simp add: fan_state_blob_head_def)

lemma head_fields:
  fixes ts i n t
  defines "m \<equiv> fan_state_blob t i n ts"
  shows "length m = 32" "u32_at 0 m = FAN_STATE_MAGIC" "u16_at 4 m = FAN_STATE_SCHEMA_VERSION"
    "u16_at 6 m = 32" "u64_at 8 m = t" "u32_at 16 m = of_int i" "u8_at 20 m = n"
    "blob_v3_targets m = memory_image 4 ts" "checksum_ok 28 m"
proof -
  define sum where "sum = le32 (checksum32 (fan_state_blob_head t i n ts))"
  have m: "m = le32 FAN_STATE_MAGIC @ le16 FAN_STATE_SCHEMA_VERSION @ le16 32 @ le64 t @
     le32 (of_int i) @ [n] @ memory_image 4 ts @ [0, 0, 0] @ sum"
    by (simp add: m_def fan_state_blob_def fan_state_blob_head_def Let_def sum_def)
  show "length m = 32" by (simp add: m_def fan_state_blob_def Let_def)
  show "u32_at 0 m = FAN_STATE_MAGIC" unfolding m using u32_at_le32 [of 0 "[]"] by simp
  show "u16_at 4 m = FAN_STATE_SCHEMA_VERSION"
    unfolding m using u16_at_le16 [of 4 "le32 FAN_STATE_MAGIC"] by simp
  show "u16_at 6 m = 32"
    unfolding m using u16_at_le16 [of 6 "le32 FAN_STATE_MAGIC @ le16 FAN_STATE_SCHEMA_VERSION"] by simp
  show "u64_at 8 m = t" unfolding m
    using u64_at_le64 [of 8 "le32 FAN_STATE_MAGIC @ le16 FAN_STATE_SCHEMA_VERSION @ le16 32"] by simp
  show "u32_at 16 m = of_int i" unfolding m
    using u32_at_le32 [of 16 "le32 FAN_STATE_MAGIC @ le16 FAN_STATE_SCHEMA_VERSION @ le16 32 @ le64 t"] by simp
  show "u8_at 20 m = n" unfolding m
    using u8_at_byte [of 20 "le32 FAN_STATE_MAGIC @ le16 FAN_STATE_SCHEMA_VERSION @ le16 32 @ le64 t @ le32 (of_int i)"]
    by simp
  show "blob_v3_targets m = memory_image 4 ts"
    unfolding m by (simp add: blob_v3_targets_def)
  show "checksum_ok 28 m"
    unfolding m_def fan_state_blob_def Let_def by (rule checksum_ok_append) simp
qed

lemma config_blob_valid:
  assumes "store_config_ok c" and "length ts = 4" and "\<forall>t \<in> set ts. t \<le> 100"
  shows "blob_v3_valid c 32 (config_blob c ts)"
  using assms by (auto simp: blob_v3_valid_def config_blob_def head_fields store_config_ok_def
      sint_of_int_small uint_of_int_u8 checksum_ok_def [symmetric])

interpretation fan_blob: blob_codec "config_blob c" "\<lambda>m. blob_v3_valid c (length m) m" blob_v3_targets
  "\<lambda>ts. store_config_ok c \<and> length ts = 4 \<and> (\<forall>t \<in> set ts. t \<le> 100)" 28 for c
proof
  show "blob_v3_valid c (length m) m \<Longrightarrow> checksum_ok 28 m" for m
    by (simp add: blob_v3_valid_def checksum_ok_def)
qed (auto simp: config_blob_def head_fields config_blob_valid [unfolded config_blob_def])

text \<open>The persisted blob is a faithful codec: the blob of any admissible targets is accepted by
  the restore of the same node configuration and gives back exactly these targets, and if any
  single one of its 32 bytes is changed to another value, wherever it is, the blob is rejected.\<close>

theorem fan_state_blob_roundtrip_and_integrity:
  assumes "store_config_ok c" and "length ts = 4" and "\<forall>t \<in> set ts. t \<le> 100"
  shows "blob_v3_valid c 32 (config_blob c ts) \<and> blob_v3_targets (config_blob c ts) = ts \<and>
    (\<forall>i < 32. \<forall>v. v \<noteq> config_blob c ts ! i \<longrightarrow> \<not> blob_v3_valid c 32 ((config_blob c ts)[i := v]))"
  using fan_blob.corrupted_rejected [of c ts] fan_blob.decode_encode [of c ts] config_blob_valid [OF assms] assms
    fan_blob.encode_length [of c ts] by simp

definition example_config :: app_config where
  "example_config = \<lparr>fan_count = 2, fan_index_start = 1, min_spin_pct = 15, ramp_step_pct = 3, ramp_tick_ms = 20,
     dshot_gpios = [5, 7, 0, 0], tach_gpios = [0, 0, 0, 0], topology_fp = 0x1122334455667788,
     mqtt_root_topic = ''farm'', node_id = ''n1'', node_topic = ''farm/nodes/n1''\<rparr>"

theorem fan_state_blob_roundtrip_and_integrity_witness:
  "blob_v3_targets (config_blob example_config [30, 75, 0, 0]) = [30, 75, 0, 0] \<and>
   \<not> blob_v3_valid example_config 32 ((config_blob example_config [30, 75, 0, 0])[21 := 31])"
proof -
  have "(31 :: u8) \<noteq> config_blob example_config [30, 75, 0, 0] ! 21" by code_simp
  then show ?thesis
    using fan_state_blob_roundtrip_and_integrity [of example_config "[30, 75, 0, 0]"]
    by (simp add: store_config_ok_def example_config_def)
qed

section \<open>What a restore may authorise\<close>

text \<open>Whatever is stored in flash, a restore hands the motor controller only percentages, and it
  hands it a target other than zero only from a current-schema blob whose checksum is right and
  whose topology fingerprint, index range and fan count are those of the running node. Blobs
  of the two older schemas can only ever restore zeros.\<close>

theorem restore_authorises_only_matching_blob:
  assumes "restore_candidate ops c handle h = (Some (ts, migrated), h')"
  shows "(\<forall>t \<in> set ts. t \<le> 100) \<and> (migrated \<longrightarrow> (\<forall>t \<in> set ts. t = 0)) \<and>
    (\<not> migrated \<longrightarrow> (\<exists>m h1. os_nvs_get_blob ops handle FAN_STATE_NVS_KEY 32 h = ((ESP_OK, m), h1) \<and>
       length m = 32 \<and> ts = blob_v3_targets m \<and> u32_at 28 m = checksum32 (take 28 m) \<and>
       u64_at 8 m = topology_fp c \<and> sint (u32_at 16 m) = fan_index_start c \<and> uint (u8_at 20 m) = fan_count c))"
proof -
  obtain err bytes h1 where g: "os_nvs_get_blob ops handle FAN_STATE_NVS_KEY 32 h = ((err, bytes), h1)"
    by (metis prod.exhaust)
  show ?thesis
  proof (cases "err = ESP_OK \<and> blob_v3_valid c (length bytes) (memory_image 32 bytes)")
    case True
    then have "length bytes = 32" by (simp add: blob_v3_valid_def)
    then show ?thesis using assms g True by (auto simp: restore_candidate_def Let_def blob_v3_valid_def)
  next
    case False
    then have "migrated \<and> (\<forall>t \<in> set ts. t = 0)"
      using assms g by (auto simp: restore_candidate_def Let_def blob_v2_valid_def blob_legacy_valid_def
          split: prod.splits if_splits)
    then show ?thesis by auto
  qed
qed

definition spoiled_flash :: "u8 list \<Rightarrow> unit store_ops" where
  "spoiled_flash bytes = undefined\<lparr>os_nvs_get_blob := (\<lambda>_ key _ _.
     if key = FAN_STATE_NVS_KEY then ((ESP_OK, bytes), ()) else ((ESP_ERR_NVS_NOT_FOUND, []), ()))\<rparr>"

theorem restore_authorises_only_matching_blob_witness:
  "fst (restore_candidate (spoiled_flash (config_blob example_config [30, 75, 0, 0])) example_config 0 ()) =
     Some ([30, 75, 0, 0], False) \<and> uint (u8_at 20 (config_blob example_config [30, 75, 0, 0])) = 2"
proof -
  let ?b = "config_blob example_config [30, 75, 0, 0]"
  have v: "blob_v3_valid example_config 32 ?b" "blob_v3_targets ?b = [30, 75, 0, 0]" "length ?b = 32"
    using config_blob_valid [of example_config "[30, 75, 0, 0]"] fan_blob.decode_encode [of example_config "[30, 75, 0, 0]"]
      fan_blob.encode_length [of example_config "[30, 75, 0, 0]"]
    by (simp_all add: store_config_ok_def example_config_def)
  have r: "restore_candidate (spoiled_flash ?b) example_config 0 () = (Some ([30, 75, 0, 0], False), ())"
    using v by (simp add: restore_candidate_def spoiled_flash_def)
  have "\<exists>m h1. os_nvs_get_blob (spoiled_flash ?b) 0 FAN_STATE_NVS_KEY 32 () = ((ESP_OK, m), h1) \<and>
    uint (u8_at 20 m) = fan_count example_config"
    using restore_authorises_only_matching_blob [OF r] by auto
  then show ?thesis using r by (simp add: spoiled_flash_def example_config_def)
qed

section \<open>A power cycle\<close>

text \<open>What NVS documents: a blob set and committed is what a later read of its key returns.\<close>

definition nvs_durable :: "'h os_ops \<Rightarrow> string \<Rightarrow> string \<Rightarrow> bool" where
  "nvs_durable ops ns key \<longleftrightarrow>
     (\<forall>handle bytes h h1 h2. os_nvs_set_blob ops handle key bytes h = (ESP_OK, h1) \<longrightarrow>
        os_nvs_commit ops handle h1 = (ESP_OK, h2) \<longrightarrow>
        (\<exists>handle' h3 h4. os_nvs_open ops ns False (os_nvs_close ops handle h2) = ((ESP_OK, handle'), h3) \<and>
           os_nvs_get_blob ops handle' key (length bytes) h3 = ((ESP_OK, bytes), h4)))"

lemma set_memory_image: "x \<in> set (memory_image n bs) \<Longrightarrow> x \<in> set bs \<or> x = 0"
  by (auto simp: memory_image_def dest!: in_set_takeD)

lemma memory_image_idem [simp]: "memory_image n (memory_image n bs) = memory_image n bs"
  by simp

lemma config_blob_image: "config_blob c (memory_image 4 ts) = config_blob c ts"
  by (simp add: config_blob_def fan_state_blob_def fan_state_blob_head_def)


text \<open>A flash world that also records the last targets restored.\<close>

definition sim_store_ops :: "u8 list world store_ops" where
  "sim_store_ops = os_ops.extend sim_os (store_ops.fields True 1500 (\<lambda>_ _ s h. (True, s, h))
     (\<lambda>_ s h. (None, s, h)) (\<lambda>s h. (s, h)))"

definition sim_store :: "u8 list world fan_store" where
  "sim_store = fan_store_boot\<lparr>fst_initialized := True, fst_config :=
     \<lparr>fsc_app_config = Some example_config, fsc_snapshot_targets = Some (\<lambda>n w. (Some (take n [30, 75]), w)),
      fsc_restore_targets = Some (\<lambda>ts n w. (True, (fst w, take n ts)))\<rparr>\<rparr>"


section \<open>Synchronous saves\<close>

interpretation fan_sync: sync_save fst_sync_requested_generation fst_sync_completed_generation fst_sync_result
  sync_save_pending "\<lambda>s. map_option snd (sync_request_section task s)"
  "\<lambda>g r s. fst (complete_sync_save ops g r s h)" for task ops h
  by unfold_locales
    (auto simp: sync_save_pending_def sync_request_section_def complete_sync_save_def Let_def split: option.splits if_splits)

lemma sync_wait_loop_sound:
  assumes "sync_wait_loop ops g t st s h = Some y"
  shows "fst y = ESP_ERR_TIMEOUT \<or>
    fst_sync_completed_generation (fst (snd y)) = g \<and> fst_sync_result (fst (snd y)) = fst y"
proof (rule sync_wait_loop.raw_induct [where P = "\<lambda>ops g t st s h y. fst y = ESP_ERR_TIMEOUT \<or>
    fst_sync_completed_generation (fst (snd y)) = g \<and> fst_sync_result (fst (snd y)) = fst y", OF _ assms], goal_cases)
  case (1 loop ops g t st s h y)
  show ?case
  proof (cases "fst_sync_completed_generation s = g")
    case True
    then show ?thesis using 1(2) by auto
  next
    case False
    then show ?thesis using 1(2) by (auto simp: Let_def split: if_splits prod.splits option.splits dest!: 1(1))
  qed
qed

lemma save_sync_cases:
  assumes "fan_state_store_save_sync ops t s h = Some (ESP_OK, s', h')" and "RESTORE_FAN_STATE ops"
  obtains started h1 mutex s2 h2 task g s3 h4 where
    "os_tick_count ops h = (started, h1)" "fst_sync_mutex s = Some mutex" "st_take ops mutex t s h1 = (True, s2, h2)"
    "sync_request_section (os_current_task ops h2) s2 = Some (task, g, s3)"
    "sync_wait_loop ops g t started s3 (os_task_notify ops task SAVE_NOTIFY_SYNC h2) = Some (ESP_OK, s', h4)"
proof -
  obtain started h1 where 1: "os_tick_count ops h = (started, h1)" by (rule prod.exhaust)
  obtain mutex where 2: "fst_sync_mutex s = Some mutex"
    using assms 1 by (auto simp: fan_state_store_save_sync_def split: option.splits)
  obtain taken s2 h2 where 3: "st_take ops mutex t s h1 = (taken, s2, h2)" by (metis prod_cases3)
  have taken: taken using assms 1 2 3 by (auto simp: fan_state_store_save_sync_def split: if_splits)
  show ?thesis
    using assms 1 2 3 taken that by (auto simp: fan_state_store_save_sync_def split: option.splits)
qed

text \<open>A synchronous save that returns OK was really served: its request got the next generation
  from a running writer task other than the caller, and when it returned the writer had
  completed exactly that generation and reported that the flash commit succeeded.\<close>

theorem save_sync_ok_was_served:
  assumes "fan_state_store_save_sync ops t s h = Some (ESP_OK, s', h')" and "RESTORE_FAN_STATE ops"
  shows "\<exists>mutex h1 s2 h2 task. fst_sync_mutex s = Some mutex \<and> st_take ops mutex t s h1 = (True, s2, h2) \<and>
    fst_initialized s2 \<and> fst_save_task s2 = Some task \<and> task \<noteq> os_current_task ops h2 \<and>
    fst_sync_completed_generation s' = fst_sync_requested_generation s2 + 1 \<and> fst_sync_result s' = ESP_OK"
proof -
  from save_sync_cases [OF assms] obtain started h1 mutex s2 h2 task g s3 h4 where
    c: "fst_sync_mutex s = Some mutex" "st_take ops mutex t s h1 = (True, s2, h2)"
    "sync_request_section (os_current_task ops h2) s2 = Some (task, g, s3)"
    "sync_wait_loop ops g t started s3 (os_task_notify ops task SAVE_NOTIFY_SYNC h2) = Some (ESP_OK, s', h4)" by metis
  have "fst_sync_completed_generation s' = g" "fst_sync_result s' = ESP_OK"
    using sync_wait_loop_sound [OF c(4)] by auto
  moreover have "g = fst_sync_requested_generation s2 + 1" "fst_initialized s2" "fst_save_task s2 = Some task"
    "task \<noteq> os_current_task ops h2"
    using c(3) by (auto simp: sync_request_section_def Let_def split: option.splits if_splits)
  ultimately show ?thesis using c(1,2) by blast
qed

text \<open>The writer serves the request while the caller waits.\<close>

definition sim_serving_ops :: "u8 list world store_ops" where
  "sim_serving_ops = sim_store_ops\<lparr>st_take := (\<lambda>x _ s h.
     (True, if x = 9 then s\<lparr>fst_sync_completed_generation := fst_sync_requested_generation s, fst_sync_result := ESP_OK\<rparr>
            else s, h))\<rparr>"

definition sim_store_started :: "u8 list world fan_store" where
  "sim_store_started = sim_store\<lparr>fst_save_task := Some 3, fst_sync_mutex := Some 8, fst_sync_complete := Some 9\<rparr>"

lemma sim_store_ops_select:
  "RESTORE_FAN_STATE sim_store_ops" "os_tick_count sim_store_ops h = (0, h)" "os_task_notify sim_store_ops t n h = h"
  "os_semaphore_give sim_store_ops x h = h" "os_current_task sim_store_ops h = 0"
  "st_others sim_store_ops s h = (s, h)"
  by (simp_all add: sim_store_ops_def sim_os_def os_ops.extend_def store_ops.fields_def)

lemma sim_store_started_select:
  "fst_sync_mutex sim_store_started = Some 8" "fst_sync_complete sim_store_started = Some 9"
  "fst_save_task sim_store_started = Some 3" "fst_initialized sim_store_started"
  "fst_sync_requested_generation sim_store_started = 0" "fst_sync_completed_generation sim_store_started = 0"
  by (simp_all add: sim_store_started_def sim_store_def fan_store_boot_def)

theorem save_sync_ok_was_served_witness:
  "\<exists>s'. fan_state_store_save_sync sim_serving_ops 300 sim_store_started (\<lambda>_. None, []) = Some (ESP_OK, s', (\<lambda>_. None, [])) \<and>
     fst_sync_completed_generation s' = 1"
proof -
  let ?w = "(\<lambda>_. None, []) :: u8 list world"
  let ?s3 = "sim_store_started\<lparr>fst_sync_requested_generation := 1\<rparr>"
  let ?s4 = "?s3\<lparr>fst_sync_completed_generation := 1, fst_sync_result := ESP_OK\<rparr>"
  have "sync_wait_loop sim_serving_ops 1 300 0 ?s4 ?w = Some (ESP_OK, ?s4, ?w)"
    by (subst sync_wait_loop.simps) simp
  then have "sync_wait_loop sim_serving_ops 1 300 0 ?s3 ?w = Some (ESP_OK, ?s4, ?w)"
    by (subst sync_wait_loop.simps)
      (simp add: sim_serving_ops_def sim_store_ops_select sim_store_started_select portMAX_DELAY_def)
  then have r: "fan_state_store_save_sync sim_serving_ops 300 sim_store_started ?w = Some (ESP_OK, ?s4, ?w)"
    by (simp add: fan_state_store_save_sync_def sim_serving_ops_def sim_store_ops_select sync_request_section_def
        sim_store_started_select)
  have "\<exists>mutex h1 s2 h2 task. fst_sync_mutex sim_store_started = Some mutex \<and>
    st_take sim_serving_ops mutex 300 sim_store_started h1 = (True, s2, h2) \<and>
    fst_sync_completed_generation ?s4 = fst_sync_requested_generation s2 + 1"
    using save_sync_ok_was_served [OF r] by (auto simp: sim_serving_ops_def sim_store_ops_select)
  then show ?thesis using r by auto
qed

text \<open>An acknowledged synchronous save is never stale. In every interleaving of callers, the
  writer task and changes of the targets (with fewer than \<open>2^32\<close> requests), when a caller sees
  its own generation completed, the snapshot that was written had been taken after its request:
  it contains every change of the targets made before the request.\<close>

theorem acknowledged_fan_save_is_fresh:
  assumes "sync_save.run fst_sync_requested_generation fst_sync_completed_generation sync_save_pending
      (\<lambda>s. map_option snd (sync_request_section task s)) (\<lambda>g r s. fst (complete_sync_save ops g r s h)) s v vs w saved"
    and "1 \<le> k" and "k \<le> length vs" and "fst_sync_completed_generation s = of_nat k"
  shows "vs ! (k - 1) \<le> saved"
  using fan_sync.acknowledged [OF assms] .

theorem acknowledged_fan_save_is_fresh_witness:
  "\<exists>s. sync_save.run fst_sync_requested_generation fst_sync_completed_generation sync_save_pending
      (\<lambda>s. map_option snd (sync_request_section 0 s)) (\<lambda>g r s. fst (complete_sync_save sim_store_ops g r s (\<lambda>_. None, [])))
      s 1 [1] None 1 \<and> [1] ! (1 - 1) \<le> (1 :: nat)"
proof -
  have 0: "fan_sync.run 0 sim_store_ops (\<lambda>_. None, []) sim_store_started 0 [] None 0"
    by (rule fan_sync.run.boot) (simp_all add: sim_store_started_select)
  let ?s = "sim_store_started\<lparr>fst_sync_requested_generation := 1\<rparr>"
  have 1: "fan_sync.run 0 sim_store_ops (\<lambda>_. None, []) sim_store_started 1 [] None 0"
    using fan_sync.run.change [OF 0] by simp
  have 2: "fan_sync.run 0 sim_store_ops (\<lambda>_. None, []) ?s 1 ([] @ [1]) None 0"
    by (rule fan_sync.run.ask [OF 1, where g = 1])
      (simp_all add: sync_request_section_def sim_store_started_select)
  have "sync_save_pending ?s = Some 1"
    by (simp add: sync_save_pending_def sim_store_started_select)
  from fan_sync.run.finish [OF fan_sync.run.snapshot [OF fan_sync.run.start [OF 2 this]], of ESP_OK]
  have 3: "fan_sync.run 0 sim_store_ops (\<lambda>_. None, [])
      (fst (complete_sync_save sim_store_ops 1 ESP_OK ?s (\<lambda>_. None, []))) 1 [1] None 1" by simp
  have "[1] ! (1 - 1) \<le> (1 :: nat)"
    by (rule acknowledged_fan_save_is_fresh [OF 3]) (simp_all add: complete_sync_save_def)
  with 3 show ?thesis by blast
qed



end
