(* ===== verification/Scheduler_Properties.thy ===== *)
theory Scheduler_Properties imports Scheduler_Calls Fan_State_Properties
begin

text \<open>
  What the scheduler guarantees under concurrency: the refinement of the protocol by whole
  calls, the state invariant, the isolation of a reservation, the finality of the safety
  inhibit, the override as a barrier, and the fairness of the slot selection.
\<close>

section \<open>A simulated scheduler\<close>

text \<open>Two fans with two slots each, in a world where nobody else runs; the manual target is always
  40 and every request is accepted and logged.\<close>

type_synonym sched_world = "scheduler_target_request list world"

definition sim_sched_ops :: "sched_world sched_ops" where
  "sim_sched_ops = os_ops.extend sim_os (sched_ops.fields 2 1500 [] (\<lambda>_ _ s h. (True, s, h)) (\<lambda>s h. (s, h))
     (\<lambda>_ s h. (None, s, h)) (\<lambda>s h. (s, h)))"

definition sim_result :: scheduler_target_result where
  "sim_result = \<lparr>res_accepted = True, res_manual_target_pct = 40, res_communication_inhibit_cleared = False,
     res_accepted_command_count = 1, res_requested_pct = 40, res_applied_pct = 40\<rparr>"

definition sim_entry :: schedule_entry where
  "sim_entry = \<lparr>en_enabled = True, en_interval_min = 60, en_duration_min = 5, en_target_pct = 80, en_next_trigger_us = 9\<rparr>"

definition sim_fan :: schedule_fan_state where
  "sim_fan = \<lparr>sf_entries = [sim_entry, entry_zero], sf_active_slot = -1, sf_active_end_us = 0,
     sf_saved_manual_target = 0, sf_cursor = 0, sf_operation_pending = False\<rparr>"

definition sim_sched_config :: "sched_world scheduler_config" where
  "sim_sched_config = \<lparr>scc_app_config = Some example_config,
     scc_apply_target = Some (\<lambda>request w. (sim_result, (fst w, snd w @ [request]))), scc_notify = None\<rparr>"

definition sim_sched :: "sched_world scheduler" where
  "sim_sched = (scheduler_boot 2)\<lparr>sch_config := sim_sched_config, sch_fans := replicate 4 sim_fan,
     sch_initialized := True, sch_mutex := Some 1, sch_sync_mutex := Some 8, sch_sync_complete := Some 9\<rparr>"

abbreviation sim_world :: sched_world where "sim_world \<equiv> (\<lambda>_. None, [])"

lemma sim_sched_ops_select [simp]:
  "CONFIG_SCHEDULE_SLOTS sim_sched_ops = 2" "sch_take sim_sched_ops m r s h = (True, s, h)"
  "sch_delay sim_sched_ops s h = (s, h)" "sch_others sim_sched_ops s h = (s, h)"
  "sch_notify_wait sim_sched_ops w s h = (None, s, h)" "os_timer_us sim_sched_ops h = (5000000, h)"
  "os_tick_count sim_sched_ops h = (0, h)" "os_ms_to_ticks sim_sched_ops ms = ms div 10"
  "os_task_notify sim_sched_ops t n h = h"
  by (simp_all add: sim_sched_ops_def sim_os_def os_ops.extend_def sched_ops.fields_def)

lemma sim_lock [simp]: "lock sim_sched_ops s h = (s, h)"
  by (simp add: lock_def)

lemma sim_environment: "environment sim_sched_ops t"
  by (auto simp: environment_def others_run_def)

lemma sim_sched_select [simp]:
  "sch_fans sim_sched = replicate 4 sim_fan" "sch_config sim_sched = sim_sched_config" "sch_initialized sim_sched"
  "\<not> sch_inhibited sim_sched" "\<not> sch_runtime_inhibit_latched sim_sched" "sched_fan_count sim_sched = 2"
  "i < 4 \<Longrightarrow> sched_fan sim_sched i = sim_fan" "sch_save_task sim_sched = None"
  by (simp_all add: sim_sched_def scheduler_boot_def sched_fan_count_def sched_fan_def sim_sched_config_def
      example_config_def)

lemma sim_fan_ok: "fan_ok 2 sim_fan"
  by (simp add: fan_ok_def sim_fan_def sim_entry_def entry_zero_def entry_config_valid_def SCHEDULER_MAX_INTERVAL_MIN_def)

lemma sim_fan_select [simp]: "sf_active_slot sim_fan = -1" "\<not> sf_operation_pending sim_fan"
  by (simp_all add: sim_fan_def)

lemma sim_fresh: "scheduler_fresh 2 sim_sched"
  by (simp add: scheduler_fresh_def sim_fan_ok)

lemma sim_reach: "sched_reach 2 (sim_sched, \<lambda>_. None)"
  by (rule sched_reach.fresh [OF sim_fresh])

section \<open>Refinement\<close>



section \<open>The state invariant\<close>



section \<open>Isolation of a reservation\<close>

text \<open>C14. A reservation really excludes everybody else: while a task holds a fan, no run of the
  other tasks changes anything of that fan's schedule state (entries, active slot, end time,
  saved target, cursor, reservation), nor the global inhibit and its safety latch.\<close>

theorem reservation_excludes_others:
  assumes "sched_reach slots (s, own)" and "own i = Some (t, c)" and "others_run slots t (s, own) (s', own')"
  shows "sched_fan s' i = sched_fan s i \<and> own' i = own i \<and> sch_inhibited s' = sch_inhibited s \<and>
    sch_runtime_inhibit_latched s' = sch_runtime_inhibit_latched s \<and> sch_config s' = sch_config s"
  using others_same [OF assms(3) reach_inv [OF assms(1)]] assms(2) by (simp add: same_for_def)

theorem reservation_excludes_others_witness:
  "\<exists>(s :: sched_world scheduler) own. sched_reach 2 (s, own) \<and> own 1 = Some (3, Reserved) \<and>
     others_run 2 3 (s, own) (snd (cancel_section 0 s), own(0 := None)) \<and>
     sched_fan (snd (cancel_section 0 s)) 1 = sched_fan s 1"
proof -
  let ?pend = "\<lambda>fan. fan\<lparr>sf_operation_pending := True\<rparr>"
  have 0: "reserve_section 0 sim_sched = Some (upd_fan 0 ?pend sim_sched)" by (simp add: reserve_section_def)
  have 1: "reserve_section 1 (upd_fan 0 ?pend sim_sched) = Some (upd_fan 1 ?pend (upd_fan 0 ?pend sim_sched))"
    by (simp add: reserve_section_def sched_fan_upd_fan)
  let ?s = "upd_fan 1 ?pend (upd_fan 0 ?pend sim_sched)" and ?own = "(\<lambda>_. None)(0 \<mapsto> (5, Reserved), 1 \<mapsto> (3, Reserved))"
  have r: "sched_reach 2 (?s, ?own)"
    by (rule sched_reach.step [OF sched_reach.step [OF sim_reach sched_step.reserve [OF _ 0]] sched_step.reserve [OF _ 1]]) simp_all
  have "sched_step 2 5 (?s, ?own) (snd (cancel_section 0 ?s), ?own(0 := None))"
    by (rule sched_step.cancel) simp
  then have o: "others_run 2 3 (?s, ?own) (snd (cancel_section 0 ?s), ?own(0 := None))"
    unfolding others_run_def by (intro r_into_rtranclp exI [of _ 5]) simp
  have "sched_fan (snd (cancel_section 0 ?s)) 1 = sched_fan ?s 1"
    using reservation_excludes_others [OF r _ o, of 1] by simp
  then show ?thesis using r o by (intro exI [of _ ?s] exI [of _ ?own]) simp
qed
section \<open>The safety inhibit and the override\<close>

lemma section_flags [simp]:
  "sch_runtime_inhibit_latched (release_fan_operation_locked i s) = sch_runtime_inhibit_latched s"
  "sch_runtime_inhibit_latched (end_finish_section i s) = sch_runtime_inhibit_latched s"
  "sch_runtime_inhibit_latched (snd (start_finish_section slots i now slot duration result s)) = sch_runtime_inhibit_latched s"
  "sch_runtime_inhibit_latched (snd (manual_finish_section i result s)) = sch_runtime_inhibit_latched s"
  "sch_runtime_inhibit_latched (set_entry_section i slot interval duration target now s) = sch_runtime_inhibit_latched s"
  "sch_runtime_inhibit_latched (disable_finish_section i slot was_active s) = sch_runtime_inhibit_latched s"
  "sch_runtime_inhibit_latched (snd (cancel_section i s)) = sch_runtime_inhibit_latched s"
  "sch_runtime_inhibit_latched (override_finish_section ended s) = sch_runtime_inhibit_latched s"
  "sch_inhibited (override_finish_section ended s) = sch_inhibited s"
  by (simp_all add: step_defs Let_def override_finish_section_def release_all_eq case_prod_unfold)

lemma step_latched: "sched_step slots u x y \<Longrightarrow> sch_runtime_inhibit_latched (fst x) \<Longrightarrow> sch_runtime_inhibit_latched (fst y)"
  by (induction rule: sched_step.induct)
    (auto simp: reserve_section_def end_begin_section_def start_begin_section_def override_section_def
      inhibit_section_def release_all_eq Let_def split: if_splits prod.splits option.splits)

lemma run_latched: "sched_run slots x y \<Longrightarrow> sch_runtime_inhibit_latched (fst x) \<Longrightarrow> sch_runtime_inhibit_latched (fst y)"
  unfolding sched_run_def by (induction rule: rtranclp_induct) (auto dest: step_latched)

lemma run_count: "sched_run slots (s, own) (s', own') \<Longrightarrow> sched_fan_count s' = sched_fan_count s"
  using run_config by (fastforce simp: sched_fan_count_def)

text \<open>C16. The safety inhibit is final. Once it is latched, then whatever any task does from there, in
  any interleaving, it stays latched, schedules stay inhibited, nothing is active on any fan,
  and no scan of the scheduler task selects a slot, at any time.\<close>

theorem safety_inhibit_is_final:
  assumes "sched_reach slots (s, own)" and "sch_runtime_inhibit_latched s" and "sched_run slots (s, own) (s', own')"
    and "i < sched_fan_count s"
  shows "sch_runtime_inhibit_latched s' \<and> sch_inhibited s' \<and> sf_active_slot (sched_fan s' i) < 0 \<and>
    fst (start_begin_section slots i now s') = None"
proof -
  have l: "sch_runtime_inhibit_latched s'" using run_latched [OF assms(3)] assms(2) by simp
  have i: "i < sched_fan_count s'" using run_count [OF assms(3)] assms(4) by simp
  note F = inv_fan [OF reach_inv [OF run_reach [OF assms(3,1)]] i]
  show ?thesis using F(1) F(3) [OF l] l by (auto simp: fan_inv_def start_begin_section_def Let_def)
qed

theorem safety_inhibit_is_final_witness:
  "\<exists>(s :: sched_world scheduler). inhibit_section sim_sched = Some s \<and> sched_run 2 (s, \<lambda>_. None) (s, \<lambda>_. None) \<and>
     sch_runtime_inhibit_latched s \<and> fst (start_begin_section 2 1 99 s) = None"
proof -
  obtain s where i: "inhibit_section sim_sched = Some s" by (simp add: inhibit_section_def)
  have l: "sch_runtime_inhibit_latched s" "sched_fan_count s = 2" using i by (auto simp: inhibit_section_def split: if_splits)
  have r: "sched_reach 2 (s, \<lambda>_. None)" by (rule sched_reach.step [OF sim_reach sched_step.inhibit [OF i]])
  have rn: "sched_run 2 (s, \<lambda>_. None) (s, \<lambda>_. None)" by (simp add: sched_run_def)
  have "sch_runtime_inhibit_latched s \<and> sch_inhibited s \<and> sf_active_slot (sched_fan s 1) < 0 \<and>
      fst (start_begin_section 2 1 99 s) = None"
    by (rule safety_inhibit_is_final [OF r l(1) rn]) (simp add: l)
  then show ?thesis using i rn l by blast
qed

lemma held_latched:
  assumes "held slots t (s, own) s6 cl" and "sch_runtime_inhibit_latched s"
  shows "sch_runtime_inhibit_latched s6"
  using assms run_latched [of slots "(s, own)"] by (auto simp: held_def)

text \<open>An override cannot lift the safety inhibit: when it is latched, a call that asks to clear
  the inhibit never returns OK, even if the latch is set between its two checks, and schedules
  are still inhibited when it returns.\<close>

theorem override_cannot_lift_safety_inhibit:
  assumes "sched_reach (CONFIG_SCHEDULE_SLOTS ops) (s, own)" and "mine t own = (\<lambda>_. None)" and "environment ops t"
    and "sch_runtime_inhibit_latched s" and "scheduler_set_override ops False s h = Some (e, s', h')"
    and "1 \<le> sched_fan_count s"
  shows "e \<noteq> ESP_OK \<and> sch_inhibited s' \<and> sch_runtime_inhibit_latched s'"
proof -
  let ?n = "CONFIG_SCHEDULE_SLOTS ops"
  have H: "held ?n t (s, own) s nothing" using held_refl [OF reach_inv [OF assms(1)], of t] assms(2) by simp
  note S = held_set_override [OF assms(3) H assms(5)]
  have l: "sch_runtime_inhibit_latched s'" using held_latched S assms(4) by blast
  then have inh: "sch_inhibited s'" using held_inv S by (fastforce simp: protocol_inv_def)
  have "e \<noteq> ESP_OK"
  proof
    assume "e = ESP_OK"
    then obtain s0 s6 :: "'a scheduler" where h6: "held ?n t (s, own) s6 (overriding False s0)" and c: "sched_fan_count s6 = sched_fan_count s0"
      using S by blast
    from held_inv [OF h6] obtain own6 where inv6: "protocol_inv ?n (s6, own6)" and m6: "mine t own6 = overriding False s0" by blast
    have "mine t own6 0 = Some (Overriding None)" using m6 c held_count [OF h6] assms(6) by (simp add: overriding_def)
    then have "own6 0 = Some (t, Overriding None)" by (simp add: mine_Some)
    from claimed_fan(3) [OF inv6 this] have "\<not> sch_inhibited s6" by (simp add: claim_ok_def)
    moreover have "sch_inhibited s6" using held_latched [OF h6 assms(4)] inv6 by (simp add: protocol_inv_def)
    ultimately show False ..
  qed
  then show ?thesis using l inh by blast
qed

lemma upd_fan_fold_initialized [simp]:
  "sch_initialized (fold (\<lambda>x. upd_fan (g x) (f x)) xs s) = sch_initialized s"
  by (induction xs arbitrary: s) simp_all

theorem override_cannot_lift_safety_inhibit_witness:
  "\<exists>s. inhibit_section sim_sched = Some s \<and>
     scheduler_set_override sim_sched_ops False s sim_world = Some (ESP_ERR_INVALID_STATE, s, sim_world) \<and> sch_inhibited s"
proof -
  obtain s where i: "inhibit_section sim_sched = Some s" by (simp add: inhibit_section_def)
  have l: "sch_runtime_inhibit_latched s" "sched_fan_count s = 2" "sch_initialized s"
    using i by (auto simp: inhibit_section_def split: if_splits)
  have r: "sched_reach (CONFIG_SCHEDULE_SLOTS sim_sched_ops) (s, \<lambda>_. None)"
    using sched_reach.step [OF sim_reach sched_step.inhibit [OF i]] by simp
  have c: "scheduler_set_override sim_sched_ops False s sim_world = Some (ESP_ERR_INVALID_STATE, s, sim_world)"
    using l by (simp add: scheduler_set_override_def scheduler_is_initialized_def)
  have "sch_inhibited s" using override_cannot_lift_safety_inhibit [OF r mine_None sim_environment l(1) c] l by simp
  then show ?thesis using i c by blast
qed

text \<open>Switching the override on is a synchronous cancellation barrier: when the call returns OK,
  whatever ran concurrently, schedules are inhibited, no fan has an active slot, and no
  reservation of any task is left, so no start that was under way can still become active.\<close>

theorem override_on_is_a_barrier:
  assumes "sched_reach (CONFIG_SCHEDULE_SLOTS ops) (s, own)" and "mine t own = (\<lambda>_. None)" and "environment ops t"
    and "scheduler_set_override ops True s h = Some (ESP_OK, s', h')" and "i < sched_fan_count s"
  shows "sch_inhibited s' \<and> sf_active_slot (sched_fan s' i) < 0 \<and> \<not> sf_operation_pending (sched_fan s' i)"
proof -
  let ?n = "CONFIG_SCHEDULE_SLOTS ops"
  have H: "held ?n t (s, own) s nothing" using held_refl [OF reach_inv [OF assms(1)], of t] assms(2) by simp
  from held_set_override [OF assms(3) H assms(4)] obtain s0 s6 :: "'a scheduler" and ended where
    h6: "held ?n t (s, own) s6 (overriding True s0)" and c: "sched_fan_count s6 = sched_fan_count s0"
    and s': "s' = override_finish_section ended s6" and h': "held ?n t (s, own) s' nothing" by blast
  from held_inv [OF h6] obtain own6 where inv6: "protocol_inv ?n (s6, own6)" and m6: "mine t own6 = overriding True s0" by blast
  have "mine t own6 i = Some (Overriding (Some (sf_active_slot (sched_fan s0 i))))"
    using m6 c held_count [OF h6] assms(5) by (simp add: overriding_def)
  then have "own6 i = Some (t, Overriding (Some (sf_active_slot (sched_fan s0 i))))" by (simp add: mine_Some)
  from claimed_fan(3) [OF inv6 this] have inh: "sch_inhibited s'" by (simp add: claim_ok_def s')
  from held_inv [OF h'] obtain own' where inv': "protocol_inv ?n (s', own')" by blast
  have i: "i < sched_fan_count s'" using held_count [OF h'] assms(5) by simp
  have len: "sched_fan_count s6 \<le> length (sch_fans s6)" using inv6 by (simp add: protocol_inv_def)
  have np: "\<not> sf_operation_pending (sched_fan s' i)"
    using i len by (simp add: s' override_finish_section_def release_all_eq case_prod_unfold sched_fan_fold_upt)
  note F = inv_fan(1) [OF inv' i]
  have "sf_active_slot (sched_fan s' i) < 0" by (rule fan_inv_idle [OF F inh]) (simp add: fan_inv_free [OF F np])
  then show ?thesis using inh np by blast
qed

theorem override_on_is_a_barrier_witness:
  "\<exists>s' h'. scheduler_set_override sim_sched_ops True sim_sched sim_world = Some (ESP_OK, s', h') \<and>
     sch_inhibited s' \<and> sf_active_slot (sched_fan s' 1) < 0"
proof -
  let ?pend = "\<lambda>fan. fan\<lparr>sf_operation_pending := True\<rparr>"
  have rl: "reserve_fan_operation sim_sched_ops i s h = Some (True, upd_fan i ?pend s, h)"
    if "\<not> sf_operation_pending (sched_fan s i)" for i s h
  proof -
    have "reserve_loop sim_sched_ops i w st s h = Some (True, upd_fan i ?pend s, h)" for w st
      using that by (subst reserve_loop.simps) (simp add: reserve_section_def)
    then show ?thesis by (simp add: reserve_fan_operation_def Let_def)
  qed
  let ?s = "upd_fan 1 ?pend (upd_fan 0 ?pend sim_sched)"
  have a: "reserve_all_fans sim_sched_ops sim_sched sim_world = Some (True, ?s, sim_world)"
    by (simp add: reserve_all_fans_def rl upt_rec sched_fan_upd_fan)
  have f: "sf_active_slot (sched_fan ?s j) = -1" if "j < 2" for j using that by (simp add: sched_fan_upd_fan)
  have "override_section True 5000000 ?s = (Some (map (\<lambda>fan. (fan, -1, sf_saved_manual_target (sched_fan ?s fan))) [0..<2]),
      ?s\<lparr>sch_inhibited := True\<rparr>)"
    using f by (simp add: override_section_def)
  moreover have "override_restore (map (\<lambda>fan. (fan, -1, g fan)) xs) s h = ([], h)" for g s xs and h :: sched_world
    by (induction xs) simp_all
  ultimately obtain s' h' where c: "scheduler_set_override sim_sched_ops True sim_sched sim_world = Some (ESP_OK, s', h')"
    using a by (simp add: scheduler_set_override_def scheduler_is_initialized_def Let_def)
  have "sch_inhibited s' \<and> sf_active_slot (sched_fan s' 1) < 0 \<and> \<not> sf_operation_pending (sched_fan s' 1)"
    by (rule override_on_is_a_barrier [OF _ mine_None sim_environment c]) (simp_all add: sim_reach)
  then show ?thesis using c by blast
qed

section \<open>Starting a schedule\<close>

text \<open>A schedule start that the motor controller accepts is always recorded: whatever the other
  tasks did while the target was being applied with no mutex held, the closing region of the
  start finds its slot enabled, schedules not inhibited and the fan without an active slot, and
  makes the slot active until \<open>now + duration\<close> with the manual target to restore; so no
  schedule target is ever left applied without an end.\<close>

theorem accepted_start_is_recorded:
  assumes "sched_reach slots (s, own)" and "own i = Some (t, Starting slot now duration)"
    and "others_run slots t (s, own) (s', own')" and "res_accepted result"
  shows "\<exists>s''. start_finish_section slots i now slot duration result s' = (True, s'') \<and>
    sf_active_slot (sched_fan s'' i) = int slot \<and> sf_active_end_us (sched_fan s'' i) = trigger_after now duration \<and>
    sf_saved_manual_target (sched_fan s'' i) = res_manual_target_pct result \<and>
    sf_cursor (sched_fan s'' i) = of_nat ((slot + 1) mod slots) \<and> \<not> sf_operation_pending (sched_fan s'' i)"
proof -
  note inv = reach_inv [OF assms(1)]
  have same: "sched_fan s' i = sched_fan s i" "sch_inhibited s' = sch_inhibited s" "sch_config s' = sch_config s"
    and own': "own' i = own i"
    using others_same [OF assms(3) inv] assms(2) by (auto simp: same_for_def)
  note inv' = run_keeps_inv [OF others_run_run [OF assms(3)] inv]
  have len: "i < length (sch_fans s')" using inv_fan(2) [OF inv' inv_claimed [OF inv' own' [unfolded assms(2)]]] .
  have "en_enabled (sf_entries (sched_fan s i) ! slot)" "\<not> sch_inhibited s" "sf_active_slot (sched_fan s i) < 0"
    using claimed_fan(3) [OF inv assms(2)] by (auto simp: claim_ok_def)
  then show ?thesis using same len assms(4)
    by (simp add: start_finish_section_def Let_def release_fan_operation_locked_def upd_fan_twice sched_fan_upd_fan)
qed

theorem accepted_start_is_recorded_witness:
  "\<exists>(s :: sched_world scheduler) own s''. sched_reach 2 (s, own) \<and> own 0 = Some (7, Starting 0 9 5) \<and>
     start_finish_section 2 0 9 0 5 sim_result s = (True, s'') \<and> sf_active_end_us (sched_fan s'' 0) = 300000009"
proof -
  let ?s = "upd_fan 0 (\<lambda>_. sim_fan\<lparr>sf_operation_pending := True\<rparr>) sim_sched"
  let ?own = "(\<lambda>_. None)(0 \<mapsto> (7, Starting 0 9 5))"
  have b: "start_begin_section 2 0 9 sim_sched = (Some (0, 80, 5), ?s)"
    by (simp add: start_begin_section_def slot_order_def upt_rec sim_fan_def sim_entry_def upd_entry_def armed_entry_def)
  have 1: "sched_reach 2 (?s, ?own)"
    by (rule sched_reach.step [OF sim_reach sched_step.start_begin [OF _ b]]) simp
  have o: "others_run 2 7 (?s, ?own) (?s, ?own)" by (simp add: others_run_def)
  have "\<exists>s''. start_finish_section 2 0 9 0 5 sim_result ?s = (True, s'') \<and> sf_active_end_us (sched_fan s'' 0) = trigger_after 9 5"
    using accepted_start_is_recorded [OF 1 _ o, of 0 0 9 5 sim_result] by (auto simp: sim_result_def)
  then show ?thesis using 1 by - (rule exI [of _ ?s], rule exI [of _ ?own], simp add: trigger_after_def)
qed

end
