(* ===== verification/Scheduler_Behaviour.thy ===== *)
theory Scheduler_Behaviour imports Scheduler_Properties
begin

text \<open>
  The functional behaviour of the scheduler: which slot a scan selects and why no due slot waits
  forever, what the commands do to the fan they reserved, and that a reservation is decided in
  bounded time.
\<close>

section \<open>Selection\<close>

text \<open>A slot is due when it is enabled and its trigger, armed if it was not, has passed. Its distance
  is how far it is from the cursor in the circular order.\<close>

definition slot_due :: "int \<Rightarrow> schedule_fan_state \<Rightarrow> nat \<Rightarrow> bool" where
  "slot_due now fan k \<longleftrightarrow> en_enabled (sf_entries fan ! k) \<and> en_next_trigger_us (armed_entry now (sf_entries fan ! k)) \<le> now"

definition slot_distance :: "nat \<Rightarrow> nat \<Rightarrow> nat \<Rightarrow> nat" where
  "slot_distance slots cursor k = (k + slots - cursor mod slots) mod slots"

lemma scan_slots_find:
  "distinct ks \<Longrightarrow> \<forall>k \<in> set ks. k < length (sf_entries fan) \<Longrightarrow> fst (scan_slots now ks fan) = find (slot_due now fan) ks"
proof (induction ks arbitrary: fan)
  case (Cons k ks)
  let ?fan = "upd_entry k (armed_entry now) fan"
  have "slot_due now ?fan j = slot_due now fan j" if "j \<in> set ks" for j
    using that Cons.prems by (auto simp: slot_due_def nth_upd_entry)
  then have f: "find (slot_due now ?fan) ks = find (slot_due now fan) ks" by (simp cong: find_cong)
  have IH: "fst (scan_slots now ks ?fan) = find (slot_due now fan) ks"
    using Cons.IH [of ?fan] Cons.prems f by simp
  have e: "sf_entries ?fan ! k = armed_entry now (sf_entries fan ! k)" using Cons.prems by (simp add: nth_upd_entry)
  show ?case
  proof (cases "en_enabled (sf_entries fan ! k)")
    case False
    then show ?thesis using Cons.IH [of fan] Cons.prems by (simp add: slot_due_def)
  next
    case True
    have due: "slot_due now fan k \<longleftrightarrow> \<not> now < en_next_trigger_us (armed_entry now (sf_entries fan ! k))"
      using True by (auto simp: slot_due_def)
    show ?thesis using IH e True by (simp add: Let_def due)
  qed
qed simp

lemma slot_distance_order: "c < slots \<Longrightarrow> slot_distance slots cursor ((cursor + c) mod slots) = c"
proof -
  assume c: "c < slots"
  define r where "r = cursor mod slots"
  have r: "r < slots" using c by (simp add: r_def)
  have e: "(cursor + c) mod slots = (r + c) mod slots" by (simp add: r_def mod_add_left_eq)
  show ?thesis
  proof (cases "r + c < slots")
    case True
    then show ?thesis using c by (simp add: slot_distance_def e r_def [symmetric])
  next
    case False
    then have "(r + c) mod slots = r + c - slots" using r c by (simp add: mod_if)
    then show ?thesis using False r c by (simp add: slot_distance_def e r_def [symmetric])
  qed
qed

lemma slot_distance_inv: "k < slots \<Longrightarrow> (cursor + slot_distance slots cursor k) mod slots = k"
proof -
  assume k: "k < slots"
  have "(cursor + slot_distance slots cursor k) mod slots = (cursor mod slots + (k + slots - cursor mod slots)) mod slots"
    by (simp add: slot_distance_def mod_add_left_eq mod_add_right_eq)
  also have "cursor mod slots + (k + slots - cursor mod slots) = k + slots"
    using k mod_less_divisor [of slots cursor] by linarith
  also have "(k + slots) mod slots = k" using k by simp
  finally show ?thesis .
qed

lemma slot_distance_less: "0 < slots \<Longrightarrow> slot_distance slots cursor k < slots"
  by (simp add: slot_distance_def)

lemma slot_order_distinct: "distinct (slot_order slots cursor)"
  unfolding slot_order_def distinct_map
  by (simp, intro inj_onI) (metis atLeastLessThan_iff slot_distance_order)

lemma slot_order_set: "set (slot_order slots cursor) = {..<slots}"
proof
  show "{..<slots} \<subseteq> set (slot_order slots cursor)"
  proof
    fix k assume "k \<in> {..<slots}"
    then have "k = (unat cursor + slot_distance slots (unat cursor) k) mod slots"
      "slot_distance slots (unat cursor) k \<in> {0..<slots}" by (simp_all add: slot_distance_inv slot_distance_less)
    then show "k \<in> set (slot_order slots cursor)" unfolding slot_order_def set_map set_upt by (rule image_eqI)
  qed
qed (use slot_order_bound in blast)

lemma slot_distance_shift:
  assumes "j < slots" and "k < slots" and "slot_distance slots cursor j < slot_distance slots cursor k"
  shows "slot_distance slots ((j + 1) mod slots) k = slot_distance slots cursor k - slot_distance slots cursor j - 1"
proof -
  define a b where "a = slot_distance slots cursor j" and "b = slot_distance slots cursor k"
  have b: "b < slots" using slot_distance_less assms(2) by (simp add: b_def)
  have j: "j = (cursor + a) mod slots" and k: "k = (cursor + b) mod slots"
    using slot_distance_inv assms(1,2) by (simp_all add: a_def b_def)
  have c: "(cursor + a + 1 + (b - a - 1)) = cursor + b" using assms(3) by (simp add: a_def b_def)
  have "k = ((j + 1) mod slots + (b - a - 1)) mod slots"
  proof -
    have "((j + 1) mod slots + (b - a - 1)) mod slots = ((cursor + a) mod slots + 1 + (b - a - 1)) mod slots"
      unfolding j by (rule mod_add_left_eq)
    also have "\<dots> = ((cursor + a) mod slots + (1 + (b - a - 1))) mod slots" by (simp only: add.assoc)
    also have "\<dots> = (cursor + a + (1 + (b - a - 1))) mod slots" by (rule mod_add_left_eq)
    also have "cursor + a + (1 + (b - a - 1)) = cursor + b" using c by (simp only: add.assoc)
    finally show ?thesis using k by simp
  qed
  moreover have "b - a - 1 < slots" using b by simp
  ultimately show ?thesis
    using slot_distance_order [of "b - a - 1" slots "(j + 1) mod slots"] by (simp add: a_def b_def)
qed

text \<open>The slot selection is a fair round robin. A scan selects a slot exactly when one is due; the
  selected slot is due and the first due one from the cursor; and when another slot is selected
  while slot \<open>k\<close> is due, the cursor that start leaves is strictly nearer to \<open>k\<close>: so fewer than
  \<open>slots\<close> starts of other slots can precede the start of a due slot.\<close>

theorem slot_selection_fair:
  assumes "length (sf_entries fan) = slots" and "slots \<le> 256"
    and "scan_slots now (slot_order slots (sf_cursor fan)) fan = (r, fan')"
  shows "(r = None \<longleftrightarrow> (\<forall>k < slots. \<not> slot_due now fan k)) \<and>
    (\<forall>j. r = Some j \<longrightarrow> j < slots \<and> slot_due now fan j \<and>
       (\<forall>k < slots. slot_due now fan k \<longrightarrow>
          slot_distance slots (unat (sf_cursor fan)) j \<le> slot_distance slots (unat (sf_cursor fan)) k \<and>
          (k \<noteq> j \<longrightarrow> slot_distance slots (unat (of_nat ((j + 1) mod slots) :: u8)) k <
                      slot_distance slots (unat (sf_cursor fan)) k)))"
proof -
  let ?c = "unat (sf_cursor fan)"
  have r: "r = find (slot_due now fan) (slot_order slots (sf_cursor fan))"
    using scan_slots_find [OF slot_order_distinct, of slots "sf_cursor fan" fan now] assms(1,3) by (simp add: slot_order_set)
  have none: "r = None \<longleftrightarrow> (\<forall>k < slots. \<not> slot_due now fan k)"
    unfolding r find_None_iff slot_order_set by auto
  have "j < slots \<and> slot_due now fan j \<and> (\<forall>k < slots. slot_due now fan k \<longrightarrow>
      slot_distance slots ?c j \<le> slot_distance slots ?c k \<and> (k \<noteq> j \<longrightarrow>
      slot_distance slots (unat (of_nat ((j + 1) mod slots) :: u8)) k < slot_distance slots ?c k))" if j: "r = Some j" for j
  proof -
    from j [unfolded r] obtain c where c: "c < slots" "slot_due now fan j" "j = (?c + c) mod slots"
      "\<forall>c' < c. \<not> slot_due now fan ((?c + c') mod slots)"
      by (auto simp: find_Some_iff slot_order_def)
    have n: "j < slots" using c(1,3) by simp
    have dj: "slot_distance slots ?c j = c" using slot_distance_order [OF c(1)] c(3) by simp
    have min: "c \<le> slot_distance slots ?c k" if "k < slots" "slot_due now fan k" for k
      using c(4) slot_distance_inv [OF that(1), of ?c] that(2) not_le_imp_less by metis
    have u: "unat (of_nat ((j + 1) mod slots) :: u8) = (j + 1) mod slots"
      using assms(2) c(1) by (intro unat_of_nat_small) (simp add: less_le_trans [OF mod_less_divisor])
    have "slot_distance slots ((j + 1) mod slots) k < slot_distance slots ?c k"
      if k: "k < slots" "slot_due now fan k" "k \<noteq> j" for k
    proof -
      have "slot_distance slots ?c k \<noteq> c" using slot_distance_inv [OF k(1), of ?c] c(3) k(3) by auto
      then have "slot_distance slots ?c j < slot_distance slots ?c k" using min [OF k(1,2)] dj by simp
      then show ?thesis using slot_distance_shift [OF n k(1)] by simp
    qed
    then show ?thesis using n c(2) dj min u by simp
  qed
  then show ?thesis using none by blast
qed

theorem slot_selection_fair_witness:
  "\<exists>fan'. scan_slots 9 (slot_order 2 0) (sim_fan\<lparr>sf_entries := [sim_entry, sim_entry]\<rparr>) = (Some 0, fan') \<and>
     slot_distance 2 (unat (of_nat ((0 + 1) mod 2) :: u8)) 1 < slot_distance 2 0 1"
proof -
  let ?fan = "sim_fan\<lparr>sf_entries := [sim_entry, sim_entry]\<rparr>"
  obtain fan' where s: "scan_slots 9 (slot_order 2 (sf_cursor ?fan)) ?fan = (Some 0, fan')"
    by (simp add: slot_order_def upt_rec sim_fan_def sim_entry_def upd_entry_def armed_entry_def)
  have d: "slot_due 9 ?fan 1" by (simp add: slot_due_def sim_entry_def armed_entry_def)
  have "slot_distance 2 (unat (of_nat ((0 + 1) mod 2) :: u8)) 1 < slot_distance 2 (unat (sf_cursor ?fan)) 1"
    using slot_selection_fair [OF _ _ s] d by simp
  then show ?thesis using s by (simp add: sim_fan_def)
qed

section \<open>A reservation is decided in bounded time\<close>

lemma elapsed_exact:
  assumes "st \<le> now" and "now - st < 2 ^ 32"
  shows "unat ((of_nat now :: u32) - of_nat st) = now - st"
proof -
  have "(of_nat now :: u32) - of_nat st = of_nat (now - st)" using assms(1) by (simp add: of_nat_diff)
  then show ?thesis using assms(2) by (simp add: unat_of_nat_small)
qed

lemma reserve_loop_decides:
  fixes ticks :: "'h \<Rightarrow> nat"
  assumes clock: "\<And>h. os_tick_count ops h = (of_nat (ticks h), h)"
    and delay: "\<And>s h. ticks h < ticks (snd (sch_delay ops s h)) \<and> ticks (snd (sch_delay ops s h)) \<le> ticks h + 2 ^ 30"
    and lock: "\<And>s h. ticks h \<le> ticks (snd (lock ops s h)) \<and> ticks (snd (lock ops s h)) \<le> ticks h + 2 ^ 30"
    and w: "unat wait \<le> 2 ^ 30"
  shows "T \<le> ticks h \<Longrightarrow> ticks h \<le> T + unat wait + 2 ^ 30 \<Longrightarrow> T + unat wait \<le> ticks h + n \<Longrightarrow>
    \<exists>ok s' h'. reserve_loop ops i wait (of_nat T) s h = Some (ok, s', h') \<and> (ok \<or> T + unat wait \<le> ticks h')"
proof (induction n arbitrary: s h rule: less_induct)
  case (less n)
  obtain s0 h0 where l: "lock ops s h = (s0, h0)" by (rule prod.exhaust)
  have t0: "ticks h \<le> ticks h0" "ticks h0 \<le> ticks h + 2 ^ 30" using lock [of h s] l by simp_all
  show ?case
  proof (cases "reserve_section i s0")
    case (Some s')
    then show ?thesis using l by (subst reserve_loop.simps) auto
  next
    case None
    have e: "unat ((of_nat (ticks h0) :: u32) - of_nat T) = ticks h0 - T"
      using less.prems t0 w by (intro elapsed_exact) simp_all
    show ?thesis
    proof (cases "unat wait \<le> ticks h0 - T")
      case True
      then have "of_nat (ticks h0) - of_nat T \<ge> wait" using e by (simp add: word_le_nat_alt)
      moreover have "T + unat wait \<le> ticks h0" using True less.prems(1) t0 by simp
      ultimately show ?thesis using l None clock by (subst reserve_loop.simps) auto
    next
      case False
      obtain s2 h2 where d: "sch_delay ops s0 h0 = (s2, h2)" by (rule prod.exhaust)
      have t2: "ticks h0 < ticks h2" "ticks h2 \<le> ticks h0 + 2 ^ 30" using delay [of h0 s0] d by simp_all
      have n: "n - 1 < n" using False less.prems t0 by simp
      have "\<exists>ok s' h'. reserve_loop ops i wait (of_nat T) s2 h2 = Some (ok, s', h') \<and> (ok \<or> T + unat wait \<le> ticks h')"
        using False less.prems t0 t2 by (intro less.IH [OF n]) simp_all
      moreover have "\<not> of_nat (ticks h0) - of_nat T \<ge> wait" using e False by (simp add: word_le_nat_alt)
      then have "reserve_loop ops i wait (of_nat T) s h = reserve_loop ops i wait (of_nat T) s2 h2"
        using l None clock d by (subst reserve_loop.simps) simp
      ultimately show ?thesis by simp
    qed
  qed
qed

text \<open>C27. No scheduler command waits forever for a fan. With a tick counter that advances during
  every delay (by at most \<open>2^30\<close> ticks at a time, and over \<open>uint32_t\<close> wrap-around), asking for
  a reservation returns, whatever the other tasks do; and when it returns without the fan, the
  full waiting time of one second had passed.\<close>

theorem reservation_decided_in_bounded_time:
  fixes ticks :: "'h \<Rightarrow> nat"
  assumes "\<And>h. os_tick_count ops h = (of_nat (ticks h), h)"
    and "\<And>s h. ticks h < ticks (snd (sch_delay ops s h)) \<and> ticks (snd (sch_delay ops s h)) \<le> ticks h + 2 ^ 30"
    and "\<And>s h. ticks h \<le> ticks (snd (lock ops s h)) \<and> ticks (snd (lock ops s h)) \<le> ticks h + 2 ^ 30"
    and "unat (os_ms_to_ticks ops SCHEDULER_OPERATION_WAIT_MS) \<le> 2 ^ 30"
  shows "\<exists>ok s' h'. reserve_fan_operation ops i s h = Some (ok, s', h') \<and>
    (ok \<or> ticks h + unat (os_ms_to_ticks ops SCHEDULER_OPERATION_WAIT_MS) \<le> ticks h')"
proof -
  define w where "w = (let t = os_ms_to_ticks ops SCHEDULER_OPERATION_WAIT_MS in if t = 0 then 1 else t)"
  have w: "unat w \<le> 2 ^ 30" "unat (os_ms_to_ticks ops SCHEDULER_OPERATION_WAIT_MS) \<le> unat w"
    using assms(4) by (auto simp: w_def Let_def)
  have "reserve_fan_operation ops i s h = reserve_loop ops i w (of_nat (ticks h)) s h"
    using assms(1) by (simp add: reserve_fan_operation_def w_def Let_def)
  moreover have "\<exists>ok s' h'. reserve_loop ops i w (of_nat (ticks h)) s h = Some (ok, s', h') \<and> (ok \<or> ticks h + unat w \<le> ticks h')"
    by (rule reserve_loop_decides [OF assms(1-3) w(1), where n = "unat w"]) simp_all
  ultimately show ?thesis using w(2) by fastforce
qed

text \<open>A world that is its tick counter.\<close>

definition tick_ops :: "nat sched_ops" where
  "tick_ops = undefined\<lparr>os_ms_to_ticks := (\<lambda>ms. ms div 10), os_tick_count := (\<lambda>n. (of_nat n, n)),
     sch_take := (\<lambda>_ _ s n. (True, s, n)), sch_delay := (\<lambda>s n. (s, n + 1))\<rparr>"

theorem reservation_decided_in_bounded_time_witness:
  "\<exists>ok s' n. reserve_fan_operation tick_ops 0 (scheduler_boot 2) 4294967290 = Some (ok, s', n) \<and>
     (ok \<or> 4294967290 + 100 \<le> n)"
proof -
  have "\<exists>ok s' h'. reserve_fan_operation tick_ops 0 (scheduler_boot 2) 4294967290 = Some (ok, s', h') \<and>
    (ok \<or> 4294967290 + unat (os_ms_to_ticks tick_ops SCHEDULER_OPERATION_WAIT_MS) \<le> h')"
    by (rule reservation_decided_in_bounded_time [where ticks = "\<lambda>n. n"])
      (simp_all add: tick_ops_def lock_def SCHEDULER_OPERATION_WAIT_MS_def unat_div)
  then show ?thesis by (simp add: tick_ops_def SCHEDULER_OPERATION_WAIT_MS_def unat_div)
qed

section \<open>Commands\<close>

lemma lock_same:
  assumes "held (CONFIG_SCHEDULE_SLOTS ops) t x s cl" and "environment ops t" and "lock ops s h = (s', h')" and "cl i = Some c"
  shows "sched_fan s' i = sched_fan s i" "sch_inhibited s' = sch_inhibited s"
proof -
  let ?n = "CONFIG_SCHEDULE_SLOTS ops"
  from assms(1) obtain own where inv: "protocol_inv ?n (s, own)" and m: "mine t own = cl" by (auto simp: held_def)
  have own: "own i = Some (t, c)" using assms(4) m by (simp add: mine_Some [symmetric])
  have "\<exists>own'. others_run ?n t (s, own) (fst (snd (sch_take ops (the (sch_mutex s)) portMAX_DELAY s h)), own')"
    using assms(2) inv unfolding environment_def by blast
  then obtain own' where "others_run ?n t (s, own) (s', own')" using assms(3) by (auto simp: lock_def)
  from others_same [OF this inv, of i c] own show "sched_fan s' i = sched_fan s i" "sch_inhibited s' = sch_inhibited s"
    by (auto simp: same_for_def)
qed

text \<open>A manual target overrides a running schedule exactly when the motor controller accepts it:
  the command makes one request, reports its outcome unchanged, and leaves the fan as it found
  it when it got its reservation, except that an accepted target removes the active slot. A
  refused one leaves the running schedule, its end and its saved target untouched, whatever the
  other tasks did meanwhile.\<close>

theorem manual_target_cancels_only_when_accepted:
  assumes "sched_reach (CONFIG_SCHEDULE_SLOTS ops) (s, own)" and "mine t own = (\<lambda>_. None)" and "environment ops t"
    and "scheduler_apply_manual_target ops local_fan target s h = Some (ESP_OK, out, s', h')"
  shows "\<exists>s1 h1 result h2. reserve_fan_operation ops (nat local_fan) s h = Some (True, s1, h1) \<and>
    apply_target s1 (target_request SCHEDULER_TARGET_MANUAL (nat local_fan) (-1) target s1) h1 = (result, h2) \<and>
    out = Some result \<and>
    sched_fan s' (nat local_fan) = (sched_fan s1 (nat local_fan))\<lparr>sf_operation_pending := False,
      sf_active_slot := (if res_accepted result \<and> 0 \<le> sf_active_slot (sched_fan s1 (nat local_fan)) then -1
                         else sf_active_slot (sched_fan s1 (nat local_fan))),
      sf_active_end_us := (if res_accepted result \<and> 0 \<le> sf_active_slot (sched_fan s1 (nat local_fan)) then 0
                         else sf_active_end_us (sched_fan s1 (nat local_fan)))\<rparr>"
proof -
  let ?n = "CONFIG_SCHEDULE_SLOTS ops" and ?i = "nat local_fan"
  have H: "held ?n t (s, own) s nothing" using held_refl [OF reach_inv [OF assms(1)], of t] assms(2) by simp
  have v: "\<not> (target > 100 \<or> \<not> local_fan_valid s local_fan)"
    using assms(4) by (simp add: scheduler_apply_manual_target_def split: if_splits)
  then have lv: "local_fan_valid s local_fan" by simp
  from v assms(4) obtain s1 h1 where r: "reserve_fan_operation ops ?i s h = Some (True, s1, h1)"
    by (auto simp: scheduler_apply_manual_target_def Let_def split: option.splits if_splits)
  have H1: "held ?n t (s, own) s1 (nothing(?i \<mapsto> Reserved))" using held_fan_command(1) [OF assms(3) H lv r] by simp
  obtain result h2 where a: "apply_target s1 (target_request SCHEDULER_TARGET_MANUAL ?i (-1) target s1) h1 = (result, h2)"
    by (rule prod.exhaust)
  obtain s3 h3 where l: "lock ops s1 h2 = (s3, h3)" by (rule prod.exhaust)
  have f: "sched_fan s3 ?i = sched_fan s1 ?i" using lock_same(1) [OF H1 assms(3) l] by simp
  have H3: "held ?n t (s, own) s3 (nothing(?i \<mapsto> Reserved))" by (rule held_lock [OF H1 assms(3) l])
  have len: "?i < length (sch_fans s3)"
    using held_inv [OF H3] held_count [OF H3] local_fan_count [OF lv] by (auto simp: protocol_inv_def)
  have out: "out = Some result" "s' = snd (manual_finish_section ?i result s3)"
    using assms(4) v r a l by (auto simp: scheduler_apply_manual_target_def Let_def split: prod.splits)
  have "sched_fan s' ?i = (sched_fan s3 ?i)\<lparr>sf_operation_pending := False,
      sf_active_slot := (if res_accepted result \<and> 0 \<le> sf_active_slot (sched_fan s3 ?i) then -1 else sf_active_slot (sched_fan s3 ?i)),
      sf_active_end_us := (if res_accepted result \<and> 0 \<le> sf_active_slot (sched_fan s3 ?i) then 0 else sf_active_end_us (sched_fan s3 ?i))\<rparr>"
    using len by (simp add: out(2) manual_finish_section_def Let_def release_fan_operation_locked_def sched_fan_upd_fan
        deactivate_def)
  then show ?thesis unfolding f using r a out(1) by blast
qed

theorem manual_target_cancels_only_when_accepted_witness:
  "\<exists>out s' h'. scheduler_apply_manual_target sim_sched_ops 0 55 sim_sched sim_world = Some (ESP_OK, out, s', h') \<and>
     out = Some sim_result \<and> sf_active_slot (sched_fan s' 0) = -1"
proof -
  let ?s = "upd_fan 0 (\<lambda>fan. fan\<lparr>sf_operation_pending := True\<rparr>) sim_sched"
  have "reserve_loop sim_sched_ops 0 w st sim_sched h = Some (True, ?s, h)" for w st h
    by (subst reserve_loop.simps) (simp add: reserve_section_def)
  then have r: "reserve_fan_operation sim_sched_ops 0 sim_sched sim_world = Some (True, ?s, sim_world)"
    by (simp add: reserve_fan_operation_def Let_def)
  have v: "local_fan_valid sim_sched 0"
    by (simp add: local_fan_valid_def sim_sched_config_def example_config_def)
  have a: "apply_target ?s q h = (sim_result, (fst h, snd h @ [q]))" for q h
    by (simp add: apply_target_def sim_sched_config_def) (simp add: sim_result_def)
  obtain out s' h' where c: "scheduler_apply_manual_target sim_sched_ops 0 55 sim_sched sim_world = Some (ESP_OK, out, s', h')"
  proof -
    obtain k s4 where m: "manual_finish_section 0 sim_result ?s = (k, s4)" by (rule prod.exhaust)
    show ?thesis using that r v a m by (simp add: scheduler_apply_manual_target_def Let_def)
  qed
  from manual_target_cancels_only_when_accepted [OF _ mine_None sim_environment c] obtain s1 h1 result h2 where
    e: "reserve_fan_operation sim_sched_ops (nat 0) sim_sched sim_world = Some (True, s1, h1)"
    "apply_target s1 (target_request SCHEDULER_TARGET_MANUAL (nat 0) (-1) 55 s1) h1 = (result, h2)" "out = Some result"
    "sf_active_slot (sched_fan s' (nat 0)) = (if res_accepted result \<and> 0 \<le> sf_active_slot (sched_fan s1 (nat 0)) then -1
       else sf_active_slot (sched_fan s1 (nat 0)))"
    by (auto simp: sim_reach)
  then show ?thesis using c r a by (auto simp: sched_fan_upd_fan split: if_splits)
qed

end
