(* ===== verification/Schedule_Persistence.thy ===== *)
theory Schedule_Persistence imports Scheduler_Behaviour
begin

text \<open>
  The persisted schedules: the blob as a codec, the synchronous save as an instance of the
  acknowledgement protocol, and the power cycle from a save to the load of the next boot.
\<close>

section \<open>The blob as a codec\<close>

definition slots_ok :: "nat \<Rightarrow> bool" where
  "slots_ok slots \<longleftrightarrow> 1 \<le> slots \<and> slots \<le> 255"

definition schedule_data_ok :: "nat \<Rightarrow> app_config \<Rightarrow> u8 \<times> schedule_entry_persist list \<Rightarrow> bool" where
  "schedule_data_ok slots c d \<longleftrightarrow> slots_ok slots \<and> store_config_ok c \<and> fst d \<le> 1 \<and> length (snd d) = APP_CONFIG_MAX_FANS * slots"

definition decode_schedules :: "nat \<Rightarrow> u8 list \<Rightarrow> u8 \<times> schedule_entry_persist list" where
  "decode_schedules slots m = (u8_at 22 m, map (\<lambda>k. persist_at (24 + 12 * k) m) [0..<APP_CONFIG_MAX_FANS * slots])"

lemma length_persist_bytes [simp]: "length (persist_bytes p) = 12"
  by (simp add: persist_bytes_def)

lemma length_persist_concat [simp]: "length (concat (map persist_bytes ps)) = 12 * length ps"
  by (induction ps) simp_all

lemma persist_at_bytes: "i = length xs \<Longrightarrow> persist_at i (xs @ persist_bytes p @ ys) = p"
proof -
  assume i: "i = length xs"
  have "u32_at i (xs @ persist_bytes p @ ys) = per_interval_min p"
    using i u32_at_le32 [of i xs "per_interval_min p"] by (simp add: persist_bytes_def)
  moreover have "u32_at (i + 4) (xs @ persist_bytes p @ ys) = per_duration_min p"
    using i u32_at_le32 [of "i + 4" "xs @ le32 (per_interval_min p)" "per_duration_min p"] by (simp add: persist_bytes_def)
  moreover have "u8_at (i + 8) (xs @ persist_bytes p @ ys) = per_enabled p"
    using i u8_at_byte [of "i + 8" "xs @ le32 (per_interval_min p) @ le32 (per_duration_min p)"] by (simp add: persist_bytes_def)
  moreover have "u8_at (i + 9) (xs @ persist_bytes p @ ys) = per_target_pct p"
    using i u8_at_byte [of "i + 9" "xs @ le32 (per_interval_min p) @ le32 (per_duration_min p) @ [per_enabled p]"]
    by (simp add: persist_bytes_def)
  ultimately show ?thesis by (simp add: persist_at_def)
qed

lemma persist_at_concat:
  assumes "k < length ps" and "length xs = 24"
  shows "persist_at (24 + 12 * k) (xs @ concat (map persist_bytes ps) @ ys) = ps ! k"
proof -
  have "concat (map persist_bytes ps) = concat (map persist_bytes (take k ps)) @ persist_bytes (ps ! k) @
      concat (map persist_bytes (drop (Suc k) ps))"
    by (subst id_take_nth_drop [OF assms(1)]) simp
  then show ?thesis
    using persist_at_bytes [of "24 + 12 * k" "xs @ concat (map persist_bytes (take k ps))" "ps ! k"
        "concat (map persist_bytes (drop (Suc k) ps)) @ ys"] assms by simp
qed

lemma length_schedule_head: "length (schedule_state_head slots c i ps) = 24 + 12 * length ps"
  by (simp add: schedule_state_head_def)

lemma schedule_blob_fields:
  fixes slots c i ps pad
  defines "m \<equiv> schedule_state_blob slots c i ps @ pad"
  shows "length m = 28 + 12 * length ps + length pad" "u32_at 0 m = SCHEDULE_STATE_MAGIC"
    "u16_at 4 m = SCHEDULE_SCHEMA_VERSION" "u16_at 6 m = of_nat (schedule_blob_size slots)" "u64_at 8 m = topology_fp c"
    "u32_at 16 m = of_int (fan_index_start c)" "u8_at 20 m = of_int (fan_count c)" "u8_at 21 m = of_nat slots"
    "u8_at 22 m = i" "\<And>k. k < length ps \<Longrightarrow> persist_at (24 + 12 * k) m = ps ! k"
    "u32_at (24 + 12 * length ps) m = schedule_checksum (take (24 + 12 * length ps) m)"
proof -
  define h where "h = schedule_state_head slots c i ps"
  have lh: "length h = 24 + 12 * length ps" by (simp add: h_def length_schedule_head)
  have mh: "m = h @ le32 (schedule_checksum h) @ pad"
    by (simp add: m_def schedule_state_blob_def Let_def h_def)
  show "length m = 28 + 12 * length ps + length pad" using lh by (simp add: mh)
  show "u32_at (24 + 12 * length ps) m = schedule_checksum (take (24 + 12 * length ps) m)"
    unfolding mh using lh by (subst u32_at_le32) simp_all
  define z where "z = concat (map persist_bytes ps) @ le32 (schedule_checksum h) @ pad"
  have m: "m = le32 SCHEDULE_STATE_MAGIC @ le16 SCHEDULE_SCHEMA_VERSION @ le16 (of_nat (schedule_blob_size slots)) @
     le64 (topology_fp c) @ le32 (of_int (fan_index_start c)) @ [of_int (fan_count c), of_nat slots, i, 0] @ z"
    by (simp add: mh h_def schedule_state_head_def z_def)
  show "u32_at 0 m = SCHEDULE_STATE_MAGIC" unfolding m using u32_at_le32 [of 0 "[]"] by simp
  show "u16_at 4 m = SCHEDULE_SCHEMA_VERSION" unfolding m
    using u16_at_le16 [of 4 "le32 SCHEDULE_STATE_MAGIC"] by simp
  show "u16_at 6 m = of_nat (schedule_blob_size slots)" unfolding m
    using u16_at_le16 [of 6 "le32 SCHEDULE_STATE_MAGIC @ le16 SCHEDULE_SCHEMA_VERSION"] by simp
  let ?p = "le32 SCHEDULE_STATE_MAGIC @ le16 SCHEDULE_SCHEMA_VERSION @ le16 (of_nat (schedule_blob_size slots))"
  show "u64_at 8 m = topology_fp c" unfolding m using u64_at_le64 [of 8 ?p] by simp
  show "u32_at 16 m = of_int (fan_index_start c)" unfolding m using u32_at_le32 [of 16 "?p @ le64 (topology_fp c)"] by simp
  let ?q = "?p @ le64 (topology_fp c) @ le32 (of_int (fan_index_start c))"
  show "u8_at 20 m = of_int (fan_count c)" unfolding m using u8_at_byte [of 20 ?q] by simp
  show "u8_at 21 m = of_nat slots" unfolding m using u8_at_byte [of 21 "?q @ [of_int (fan_count c)]"] by simp
  show "u8_at 22 m = i" unfolding m using u8_at_byte [of 22 "?q @ [of_int (fan_count c), of_nat slots]"] by simp
  fix k assume "k < length ps"
  then show "persist_at (24 + 12 * k) m = ps ! k"
    unfolding m z_def using persist_at_concat [of k ps "?q @ [of_int (fan_count c), of_nat slots, i, 0]"] by simp
qed

lemma schedule_blob_valid_encoded:
  assumes "schedule_data_ok slots c (i, ps)" and "length pad = 4"
  shows "schedule_blob_valid slots c (schedule_blob_size slots) (schedule_state_blob slots c i ps @ pad)"
proof -
  have len: "length ps = 4 * slots" and s: "1 \<le> slots" "slots \<le> 255" and c: "store_config_ok c" and i: "i \<le> 1"
    using assms(1) by (simp_all add: schedule_data_ok_def slots_ok_def APP_CONFIG_MAX_FANS_def)
  have off: "schedule_checksum_offset slots = 24 + 12 * length ps"
    by (simp add: schedule_checksum_offset_def APP_CONFIG_MAX_FANS_def len)
  have size: "schedule_blob_size slots = 32 + 48 * slots"
    by (simp add: schedule_blob_size_def schedule_checksum_offset_def APP_CONFIG_MAX_FANS_def)
  have "unat (of_nat (schedule_blob_size slots) :: u16) = schedule_blob_size slots"
    using s by (intro unat_of_nat_small) (simp add: size)
  moreover have "unat (of_nat slots :: u8) = slots" using s by (intro unat_of_nat_small) simp
  ultimately show ?thesis
    using c i by (simp add: schedule_blob_valid_def schedule_blob_fields off store_config_ok_def
        sint_of_int_small uint_of_int_u8)
qed

lemma u8_at_append [simp]: "i < length m \<Longrightarrow> u8_at i (m @ ys) = u8_at i m"
  by (simp add: u8_at_def nth_append)

lemma u32_at_append: "i + 4 \<le> length m \<Longrightarrow> u32_at i (m @ ys) = u32_at i m"
  by (simp add: u32_at_def)

interpretation schedule_blob: blob_codec "\<lambda>d. schedule_state_blob slots c (fst d) (take (4 * slots) (snd d @ replicate (4 * slots) persist_zero))"
  "\<lambda>m. length m = schedule_blob_size slots - 4 \<and> schedule_blob_valid slots c (schedule_blob_size slots) (m @ pad)"
  "decode_schedules slots" "\<lambda>d. schedule_data_ok slots c d \<and> length pad = 4" "schedule_checksum_offset slots" for slots c pad
proof
  fix d :: "u8 \<times> schedule_entry_persist list"
  let ?ps = "take (4 * slots) (snd d @ replicate (4 * slots) persist_zero)"
  have len: "length ?ps = 4 * slots" by simp
  show l: "length (schedule_state_blob slots c (fst d) ?ps) = schedule_checksum_offset slots + 4"
    using schedule_blob_fields(1) [where slots = slots and c = c and i = "fst d" and ps = ?ps and pad = "[]"] len
    by (simp add: schedule_checksum_offset_def APP_CONFIG_MAX_FANS_def)
  assume ok: "schedule_data_ok slots c d \<and> length pad = 4"
  then have ps: "?ps = snd d" by (simp add: schedule_data_ok_def APP_CONFIG_MAX_FANS_def)
  show "length (schedule_state_blob slots c (fst d) ?ps) = schedule_blob_size slots - 4 \<and>
      schedule_blob_valid slots c (schedule_blob_size slots) (schedule_state_blob slots c (fst d) ?ps @ pad)"
    using schedule_blob_valid_encoded [of slots c "fst d" "snd d" pad] ok l
    unfolding ps by (simp add: schedule_blob_size_def)
  show "decode_schedules slots (schedule_state_blob slots c (fst d) ?ps) = d"
    using schedule_blob_fields(9,10) [where slots = slots and c = c and i = "fst d" and ps = "snd d" and pad = "[]"] ok
    unfolding ps by (auto simp: decode_schedules_def schedule_data_ok_def intro!: prod_eqI nth_equalityI)
next
  fix m assume a: "length m = schedule_blob_size slots - 4 \<and> schedule_blob_valid slots c (schedule_blob_size slots) (m @ pad)"
  then have len: "length m = schedule_checksum_offset slots + 4" by (simp add: schedule_blob_size_def)
  have "u32_at (schedule_checksum_offset slots) (m @ pad) = schedule_checksum (take (schedule_checksum_offset slots) (m @ pad))"
    using a unfolding schedule_blob_valid_def by blast
  then show "checksum_ok (schedule_checksum_offset slots) m"
    by (simp add: checksum_ok_def u32_at_append schedule_checksum_def checksum32_def len)
qed

text \<open>A persisted schedule blob is protected against corruption: from the blob of any admissible
  schedule table, whatever its padding, changing any single byte of its header, its entries or
  its checksum to another value gives a blob the load rejects.\<close>

theorem corrupted_schedule_blob_rejected:
  assumes "schedule_data_ok slots c (inhibited, schedules)" and "length pad = 4"
    and "i < schedule_checksum_offset slots + 4" and "v \<noteq> schedule_state_blob slots c inhibited schedules ! i"
  shows "\<not> schedule_blob_valid slots c (schedule_blob_size slots) ((schedule_state_blob slots c inhibited schedules)[i := v] @ pad)"
proof -
  have ps: "take (4 * slots) (schedules @ replicate (4 * slots) persist_zero) = schedules"
    using assms(1) by (simp add: schedule_data_ok_def APP_CONFIG_MAX_FANS_def)
  have len: "length ((schedule_state_blob slots c inhibited schedules)[i := v]) = schedule_blob_size slots - 4"
    using schedule_blob.encode_length [of slots c "(inhibited, schedules)"] ps by (simp add: schedule_blob_size_def)
  show ?thesis
    using schedule_blob.corrupted_rejected [of slots c "(inhibited, schedules)" pad i v] assms ps len by simp
qed

theorem corrupted_schedule_blob_rejected_witness:
  "\<not> schedule_blob_valid 1 example_config 80
     ((schedule_state_blob 1 example_config 0 (persist_entry sim_entry # replicate 3 persist_zero))[24 := 61] @ [9, 9, 9, 9])"
proof -
  have v: "(61 :: u8) \<noteq> schedule_state_blob 1 example_config 0 (persist_entry sim_entry # replicate 3 persist_zero) ! 24"
    by code_simp
  have "\<not> schedule_blob_valid 1 example_config (schedule_blob_size 1)
     ((schedule_state_blob 1 example_config 0 (persist_entry sim_entry # replicate 3 persist_zero))[24 := 61] @ [9, 9, 9, 9])"
    by (rule corrupted_schedule_blob_rejected [OF _ _ _ v])
      (simp_all add: schedule_data_ok_def slots_ok_def store_config_ok_def example_config_def APP_CONFIG_MAX_FANS_def
        schedule_checksum_offset_def)
  then show ?thesis by (simp add: schedule_blob_size_def schedule_checksum_offset_def APP_CONFIG_MAX_FANS_def)
qed

section \<open>Loading a table\<close>

definition loaded_entry :: "int \<Rightarrow> schedule_entry_persist \<Rightarrow> schedule_entry \<Rightarrow> schedule_entry" where
  "loaded_entry now p e =
     (if per_enabled p \<noteq> 0 \<and> entry_config_valid (per_interval_min p) (per_duration_min p) (ucast (per_target_pct p))
      then \<lparr>en_enabled = True, en_interval_min = per_interval_min p, en_duration_min = per_duration_min p,
            en_target_pct = per_target_pct p, en_next_trigger_us = trigger_after now (per_interval_min p)\<rparr>
      else e)"

lemma load_entry_eq:
  "load_entry m slots now fan slot s =
     upd_fan fan (upd_entry slot (loaded_entry now (persist_at (schedule_entry_offset slots fan slot) m))) s"
  by (simp add: load_entry_def loaded_entry_def Let_def upd_fan_def upd_entry_def)

lemma upd_fan_fold_same:
  "i < length (sch_fans s) \<Longrightarrow> fold (\<lambda>x. upd_fan i (f x)) xs s = upd_fan i (fold f xs) s"
proof (induction xs arbitrary: s)
  case (Cons x xs)
  have "fold (\<lambda>x. upd_fan i (f x)) xs (upd_fan i (f x) s) = upd_fan i (fold f xs) (upd_fan i (f x) s)"
    using Cons by simp
  then show ?case using Cons.prems by (simp add: upd_fan_twice comp_def)
qed (simp add: upd_fan_def)

lemma upd_entries_nth:
  "n \<le> length (sf_entries fan) \<Longrightarrow> sf_entries (fold (\<lambda>k. upd_entry k (f k)) [0..<n] fan) ! k =
     (if k < n then f k (sf_entries fan ! k) else sf_entries fan ! k) \<and>
   length (sf_entries (fold (\<lambda>k. upd_entry k (f k)) [0..<n] fan)) = length (sf_entries fan)"
  by (induction n) (auto simp: nth_upd_entry)

lemma load_section_entries:
  assumes "sched_fan_count s \<le> length (sch_fans s)" and "fan < sched_fan_count s"
    and "length (sf_entries (sched_fan s fan)) = slots" and "k < slots"
  shows "sf_entries (sched_fan (load_section slots m now s) fan) ! k =
      loaded_entry now (persist_at (schedule_entry_offset slots fan k) m) (sf_entries (sched_fan s fan) ! k)"
    and "sch_inhibited (load_section slots m now s) \<longleftrightarrow> u8_at 22 m \<noteq> 0"
proof -
  let ?g = "\<lambda>fan. fold (\<lambda>k. upd_entry k (loaded_entry now (persist_at (schedule_entry_offset slots fan k) m))) [0..<slots]"
  have "fold (\<lambda>fan. fold (load_entry m slots now fan) [0..<slots]) [0..<n] s = fold (\<lambda>fan. upd_fan fan (?g fan)) [0..<n] s"
    if "n \<le> length (sch_fans s)" for n
    using that
  proof (induction n)
    case (Suc n)
    have "n < length (sch_fans (fold (\<lambda>fan. upd_fan fan (?g fan)) [0..<n] s))" using Suc.prems by simp
    then show ?case using Suc by (simp add: load_entry_eq upd_fan_fold_same)
  qed simp
  from this [OF assms(1)] have l: "load_section slots m now s =
      (fold (\<lambda>fan. upd_fan fan (?g fan)) [0..<sched_fan_count s] s)\<lparr>sch_inhibited := (u8_at 22 m \<noteq> 0)\<rparr>"
    by (simp add: load_section_def)
  then show "sch_inhibited (load_section slots m now s) \<longleftrightarrow> u8_at 22 m \<noteq> 0" by simp
  show "sf_entries (sched_fan (load_section slots m now s) fan) ! k =
      loaded_entry now (persist_at (schedule_entry_offset slots fan k) m) (sf_entries (sched_fan s fan) ! k)"
    using assms by (simp add: l sched_fan_fold_upt upd_entries_nth)
qed

lemma length_concat_rows: "length (concat (map (\<lambda>i. map (f i) [0..<w]) [0..<n])) = n * w"
  by (induction n) simp_all

lemma snapshot_length: "length (snd (snapshot_section slots s)) = 4 * slots"
  unfolding snapshot_section_def APP_CONFIG_MAX_FANS_def snd_conv by (rule length_concat_rows)

lemma nth_concat_rows:
  assumes "i < n" and "k < w"
  shows "concat (map (\<lambda>i. map (f i) [0..<w]) [0..<n]) ! (i * w + k) = f i k"
  using assms
proof (induction n)
  case (Suc n)
  note len = length_concat_rows [of f w n]
  show ?case
  proof (cases "i < n")
    case True
    have "i * w + k < Suc i * w" using Suc.prems by simp
    also have "\<dots> \<le> n * w" using True by (intro mult_le_mono1) simp
    finally show ?thesis using Suc.IH [OF True Suc.prems(2)] len by (simp add: nth_append)
  next
    case False
    then have "i = n" using Suc.prems by simp
    then show ?thesis using Suc.prems len by (simp add: nth_append)
  qed
qed simp

lemma snapshot_nth:
  assumes "fan < sched_fan_count s" and "sched_fan_count s \<le> 4" and "k < slots"
  shows "snd (snapshot_section slots s) ! (fan * slots + k) = persist_entry (sf_entries (sched_fan s fan) ! k)"
  unfolding snapshot_section_def APP_CONFIG_MAX_FANS_def snd_conv
  using nth_concat_rows [of fan 4 k slots "\<lambda>fan slot. if fan < sched_fan_count s
      then persist_entry (sf_entries (sched_fan s fan) ! slot) else persist_zero"] assms by simp

section \<open>A power cycle\<close>

lemma persist_roundtrip:
  assumes "fan_ok slots fan" and "k < slots"
  shows "loaded_entry now (persist_entry (sf_entries fan ! k)) e =
    (if en_enabled (sf_entries fan ! k)
     then (sf_entries fan ! k)\<lparr>en_next_trigger_us := trigger_after now (en_interval_min (sf_entries fan ! k))\<rparr> else e)"
  using fan_ok_entry [OF assms] by (simp add: loaded_entry_def persist_entry_def)

text \<open>What the blob of a saved state decodes to.\<close>

lemma saved_blob:
  assumes "slots_ok slots" and "store_config_ok c" and "scc_app_config (sch_config s) = Some c" and "length pad = 4"
    and "m = schedule_state_blob slots c (fst (snapshot_section slots s)) (snd (snapshot_section slots s)) @ pad"
  shows "length m = schedule_blob_size slots" "schedule_blob_valid slots c (schedule_blob_size slots) m"
    "u8_at 22 m \<noteq> 0 \<longleftrightarrow> sch_inhibited s"
    "fan < sched_fan_count s \<Longrightarrow> k < slots \<Longrightarrow>
      persist_at (schedule_entry_offset slots fan k) m = persist_entry (sf_entries (sched_fan s fan) ! k)"
proof -
  let ?i = "fst (snapshot_section slots s)" and ?ps = "snd (snapshot_section slots s)"
  have data: "schedule_data_ok slots c (?i, ?ps)"
    using assms(1,2) snapshot_length [of slots s]
    by (simp add: schedule_data_ok_def APP_CONFIG_MAX_FANS_def) (simp add: snapshot_section_def)
  note F = schedule_blob_fields [where slots = slots and c = c and i = ?i and ps = ?ps and pad = pad, folded assms(5)]
  show "length m = schedule_blob_size slots"
    using F(1) assms(4) snapshot_length [of slots s]
    by (simp add: schedule_blob_size_def schedule_checksum_offset_def APP_CONFIG_MAX_FANS_def)
  show "schedule_blob_valid slots c (schedule_blob_size slots) m"
    unfolding assms(5) by (rule schedule_blob_valid_encoded [OF data assms(4)])
  show "u8_at 22 m \<noteq> 0 \<longleftrightarrow> sch_inhibited s" unfolding F(9) by (simp add: snapshot_section_def)
  assume fk: "fan < sched_fan_count s" "k < slots"
  have four: "sched_fan_count s \<le> 4" using assms(2,3) by (auto simp: sched_fan_count_def store_config_ok_def)
  have "fan * slots + k < Suc fan * slots" using fk(2) by simp
  also have "\<dots> \<le> 4 * slots" using fk(1) four by (intro mult_le_mono1) simp
  finally have "fan * slots + k < length ?ps" by (simp add: snapshot_length)
  from F(10) [OF this] show "persist_at (schedule_entry_offset slots fan k) m = persist_entry (sf_entries (sched_fan s fan) ! k)"
    using snapshot_nth [OF fk(1) four fk(2)] by (simp add: schedule_entry_offset_def)
qed

text \<open>The schedules survive a power cycle. On a flash that keeps what it commits, when a save
  reports OK, the load of the next boot on the same node accepts the blob, restores every
  enabled entry with the interval, duration and target it had when the save took its snapshot,
  armed one full interval after the boot, leaves the other entries alone, and restores the
  global inhibit.\<close>

theorem saved_schedules_survive_power_cycle:
  fixes ops :: "'h sched_ops"
  assumes "save_to_nvs ops s h = (ESP_OK, s', h')" and "lock ops s h = (s1, h1)"
    and "nvs_durable (os_ops.truncate ops) SCHEDULE_NAMESPACE SCHEDULE_NVS_KEY" and "\<And>x. snd (sch_others ops s1 x) = x"
    and "scc_app_config (sch_config s) = Some c" and "sch_config s1 = sch_config s" and "store_config_ok c"
    and "slots_ok (CONFIG_SCHEDULE_SLOTS ops)"
    and "\<And>i. i < nat (fan_count c) \<Longrightarrow> fan_ok (CONFIG_SCHEDULE_SLOTS ops) (sched_fan s1 i)"
    and "scc_app_config (sch_config s2) = Some c" and "length (sch_fans s2) = APP_CONFIG_MAX_FANS"
    and "\<And>i. i < nat (fan_count c) \<Longrightarrow> length (sf_entries (sched_fan s2 i)) = CONFIG_SCHEDULE_SLOTS ops"
    and "\<And>x. fst (lock ops s2 x) = s2"
  shows "\<exists>s3 h3 now. load_from_nvs ops s2 h' = (ESP_OK, s3, h3) \<and> sch_inhibited s3 = sch_inhibited s1 \<and>
    (\<forall>i < nat (fan_count c). \<forall>k < CONFIG_SCHEDULE_SLOTS ops.
       sf_entries (sched_fan s3 i) ! k =
         (if en_enabled (sf_entries (sched_fan s1 i) ! k)
          then (sf_entries (sched_fan s1 i) ! k)
            \<lparr>en_next_trigger_us := trigger_after now (en_interval_min (sf_entries (sched_fan s1 i) ! k))\<rparr>
          else sf_entries (sched_fan s2 i) ! k))"
proof -
  let ?n = "CONFIG_SCHEDULE_SLOTS ops"
  define m where "m = schedule_state_blob ?n c (fst (snapshot_section ?n s1)) (snd (snapshot_section ?n s1)) @
      memory_image 4 (SCHEDULE_BLOB_PADDING ops)"
  have c1: "scc_app_config (sch_config s1) = Some c" using assms(5,6) by simp
  have cnt: "sched_fan_count s1 = nat (fan_count c)" "sched_fan_count s2 = nat (fan_count c)"
    using c1 assms(10) by (simp_all add: sched_fan_count_def)
  note B = saved_blob [OF assms(8,7) c1 length_memory_image m_def]
  obtain err handle x2 where op: "os_nvs_open ops SCHEDULE_NAMESPACE True h1 = ((err, handle), x2)" by (metis prod.exhaust)
  obtain err1 x3 where st: "os_nvs_set_blob ops handle SCHEDULE_NVS_KEY m x2 = (err1, x3)" by (rule prod.exhaust)
  obtain err2 x4 where cm: "os_nvs_commit ops handle x3 = (err2, x4)" by (rule prod.exhaust)
  have ok: "err = ESP_OK" "err1 = ESP_OK" "err2 = ESP_OK" "h' = os_nvs_close ops handle x4"
  proof -
    obtain s5 h5 where o: "sch_others ops s1 (os_nvs_close ops handle x4) = (s5, h5)" by (rule prod.exhaust)
    then have "h5 = os_nvs_close ops handle x4" using assms(4) [of "os_nvs_close ops handle x4"] by simp
    then show "err = ESP_OK" "err1 = ESP_OK" "err2 = ESP_OK" "h' = os_nvs_close ops handle x4"
      using assms(1,2,5) op st cm o unfolding m_def
      by (auto simp: save_to_nvs_def Let_def case_prod_unfold split: if_splits)
  qed
  have "\<exists>handle' x5 x6. os_nvs_open ops SCHEDULE_NAMESPACE False h' = ((ESP_OK, handle'), x5) \<and>
      os_nvs_get_blob ops handle' SCHEDULE_NVS_KEY (length m) x5 = ((ESP_OK, m), x6)"
    using assms(3) st cm ok unfolding nvs_durable_def by (fastforce simp: os_ops.truncate_def)
  then obtain handle' x5 x6 where r: "os_nvs_open ops SCHEDULE_NAMESPACE False h' = ((ESP_OK, handle'), x5)"
    "os_nvs_get_blob ops handle' SCHEDULE_NVS_KEY (schedule_blob_size ?n) x5 = ((ESP_OK, m), x6)"
    unfolding B(1) by blast
  obtain now x7 where t: "os_timer_us ops (os_nvs_close ops handle' x6) = (now, x7)" by (rule prod.exhaust)
  obtain x8 where l: "lock ops s2 x7 = (s2, x8)" using assms(13) [of x7] by (metis prod.collapse)
  have ld: "load_from_nvs ops s2 h' = (ESP_OK, load_section ?n m now s2, x8)"
    using r t l B(1,2) assms(10) by (simp add: load_from_nvs_def Let_def)
  have four: "sched_fan_count s2 \<le> length (sch_fans s2)"
    using assms(7,11) cnt by (simp add: store_config_ok_def APP_CONFIG_MAX_FANS_def nat_le_iff)
  have pos: "0 < nat (fan_count c)" "0 < ?n" using assms(7,8) by (simp_all add: store_config_ok_def slots_ok_def)
  have "sch_inhibited (load_section ?n m now s2) = sch_inhibited s1"
    using load_section_entries(2) [OF four, of 0 ?n 0 m now] pos assms(12) [OF pos(1)] B(3) cnt by simp
  moreover have "sf_entries (sched_fan (load_section ?n m now s2) i) ! k =
      (if en_enabled (sf_entries (sched_fan s1 i) ! k)
       then (sf_entries (sched_fan s1 i) ! k)
         \<lparr>en_next_trigger_us := trigger_after now (en_interval_min (sf_entries (sched_fan s1 i) ! k))\<rparr>
       else sf_entries (sched_fan s2 i) ! k)" if "i < nat (fan_count c)" "k < ?n" for i k
    using load_section_entries(1) [OF four, of i ?n k m now] B(4) [of i k] that cnt assms(12) [OF that(1)]
      persist_roundtrip [OF assms(9) [OF that(1)] that(2)] by simp
  ultimately show ?thesis using ld by blast
qed

theorem saved_schedules_survive_power_cycle_witness:
  "\<exists>h' s3 h3. save_to_nvs sim_sched_ops sim_sched sim_world = (ESP_OK, sim_sched, h') \<and>
     load_from_nvs sim_sched_ops (sim_sched\<lparr>sch_fans := replicate 4 (sim_fan\<lparr>sf_entries := [entry_zero, entry_zero]\<rparr>)\<rparr>) h' =
       (ESP_OK, s3, h3) \<and> en_interval_min (sf_entries (sched_fan s3 1) ! 0) = 60"
proof -
  let ?s2 = "sim_sched\<lparr>sch_fans := replicate 4 (sim_fan\<lparr>sf_entries := [entry_zero, entry_zero]\<rparr>)\<rparr>"
  have os: "os_nvs_open sim_sched_ops ns b h = ((ESP_OK, 7), h)" "os_nvs_close sim_sched_ops x h = h"
    "os_nvs_set_blob sim_sched_ops x key bytes h = sim_set_blob x key bytes h"
    "os_nvs_commit sim_sched_ops x h = (ESP_OK, h)" for ns b h x key bytes
    by (simp_all add: sim_sched_ops_def sim_os_def os_ops.extend_def)
  have ac: "scc_app_config (sch_config sim_sched) = Some example_config" by (simp add: sim_sched_config_def)
  obtain h' where s: "save_to_nvs sim_sched_ops sim_sched sim_world = (ESP_OK, sim_sched, h')"
    by (simp add: save_to_nvs_def Let_def os sim_set_blob_def case_prod_unfold)
  have d: "nvs_durable (os_ops.truncate sim_sched_ops) SCHEDULE_NAMESPACE SCHEDULE_NVS_KEY"
    by (auto simp: nvs_durable_def sim_sched_ops_def sim_os_def sim_set_blob_def sim_get_blob_def
        os_ops.extend_def os_ops.truncate_def)
  have two: "nat (fan_count example_config) = 2" by (simp add: example_config_def)
  have f2: "sched_fan ?s2 i = sim_fan\<lparr>sf_entries := [entry_zero, entry_zero]\<rparr>" if "i < 2" for i
    using that by (simp add: sched_fan_def)
  have "\<exists>s3 h3 now. load_from_nvs sim_sched_ops ?s2 h' = (ESP_OK, s3, h3) \<and> sch_inhibited s3 = sch_inhibited sim_sched \<and>
    (\<forall>i < nat (fan_count example_config). \<forall>k < CONFIG_SCHEDULE_SLOTS sim_sched_ops.
       sf_entries (sched_fan s3 i) ! k =
         (if en_enabled (sf_entries (sched_fan sim_sched i) ! k)
          then (sf_entries (sched_fan sim_sched i) ! k)
            \<lparr>en_next_trigger_us := trigger_after now (en_interval_min (sf_entries (sched_fan sim_sched i) ! k))\<rparr>
          else sf_entries (sched_fan ?s2 i) ! k))"
    by (rule saved_schedules_survive_power_cycle [OF s sim_lock d])
      (use ac in \<open>simp_all add: two f2 store_config_ok_def slots_ok_def sim_fan_ok APP_CONFIG_MAX_FANS_def,
        simp_all add: example_config_def\<close>)
  then obtain s3 h3 now where "load_from_nvs sim_sched_ops ?s2 h' = (ESP_OK, s3, h3)"
    "sf_entries (sched_fan s3 1) ! 0 = sim_entry\<lparr>en_next_trigger_us := trigger_after now (en_interval_min sim_entry)\<rparr>"
    unfolding two by (auto simp: sim_fan_def sim_entry_def)
  then show ?thesis using s by (simp add: sim_entry_def)
qed

section \<open>Synchronous saves\<close>

text \<open>The scheduler's acknowledgement of synchronous saves follows the same protocol as the fan
  state's: a caller that sees its generation completed knows its changes are in the blob.\<close>

interpretation schedule_sync: sync_save sch_sync_requested_generation sch_sync_completed_generation sch_sync_result
  schedule_save_pending "\<lambda>s. map_option snd (save_request_section task s)"
  "\<lambda>g r s. fst (complete_schedule_save ops g r s h)" for task ops h
  by unfold_locales
    (auto simp: schedule_save_pending_def save_request_section_def complete_schedule_save_def Let_def
      split: option.splits if_splits)

lemmas acknowledged_schedule_save_fresh = schedule_sync.acknowledged

lemma save_wait_loop_sound:
  assumes "save_wait_loop ops g t st s h = Some y"
  shows "fst y = ESP_ERR_TIMEOUT \<or>
    sch_sync_completed_generation (fst (snd y)) = g \<and> sch_sync_result (fst (snd y)) = fst y"
proof (rule save_wait_loop.raw_induct [where P = "\<lambda>ops g t st s h y. fst y = ESP_ERR_TIMEOUT \<or>
    sch_sync_completed_generation (fst (snd y)) = g \<and> sch_sync_result (fst (snd y)) = fst y", OF _ assms], goal_cases)
  case (1 loop ops g t st s h y)
  show ?case
  proof (cases "sch_sync_completed_generation s = g")
    case True
    then show ?thesis using 1(2) by auto
  next
    case False
    then show ?thesis using 1(2) by (auto simp: Let_def split: if_splits prod.splits option.splits dest!: 1(1))
  qed
qed

lemma save_sync_served:
  fixes s :: "'h scheduler"
  assumes "scheduler_save_sync ops timeout s h = Some (ESP_OK, s', h')"
    and "held (CONFIG_SCHEDULE_SLOTS ops) t x s cl" and "environment ops t"
  shows "\<exists>(s2 :: 'h scheduler) task. held (CONFIG_SCHEDULE_SLOTS ops) t x s2 cl \<and> save_request_section task s2 \<noteq> None \<and>
    sch_sync_completed_generation s' = sch_sync_requested_generation s2 + 1 \<and> sch_sync_result s' = ESP_OK"
proof -
  obtain st h1 where 1: "os_tick_count ops h = (st, h1)" by (rule prod.exhaust)
  from assms(1) 1 obtain m where m: "sch_sync_mutex s = Some m"
    by (auto simp: scheduler_save_sync_def split: option.splits if_splits)
  obtain taken s2 h2 where k: "sch_take ops m timeout s h1 = (taken, s2, h2)" by (metis prod_cases3)
  from assms(1) 1 m k obtain task g s3 where q: "save_request_section (os_current_task ops h2) s2 = Some (task, g, s3)"
    by (auto simp: scheduler_save_sync_def split: option.splits if_splits)
  from assms(1) 1 m k q obtain h4 where
    w: "save_wait_loop ops g timeout st s3 (os_task_notify ops task SAVE_NOTIFY_SYNC h2) = Some (ESP_OK, s', h4)"
    by (auto simp: scheduler_save_sync_def split: option.splits if_splits)
  have "g = sch_sync_requested_generation s2 + 1"
    using q by (auto simp: save_request_section_def Let_def split: option.splits if_splits)
  moreover have "held (CONFIG_SCHEDULE_SLOTS ops) t x s2 cl" using held_env(1) [OF assms(2,3), of m timeout h1] k by simp
  ultimately show ?thesis using save_wait_loop_sound [OF w] q
    by (intro exI [of _ s2] exI [of _ "os_current_task ops h2"]) auto
qed

text \<open>An acknowledged safety inhibit is in effect and durable: when \<open>scheduler_inhibit_all\<close> or its
  bounded variant returns OK, the inhibit is latched, schedules are inhibited and no fan has an
  active slot, and the writer has completed, with a successful flash commit, a save that was
  requested after the latch was set.\<close>

theorem inhibit_all_acknowledged:
  fixes s :: "'h scheduler"
  assumes "sched_reach (CONFIG_SCHEDULE_SLOTS ops) (s, own)" and "mine t own = (\<lambda>_. None)" and "environment ops t"
    and "scheduler_try_inhibit_all ops timeout s h = Some (ESP_OK, s', h')" and "i < sched_fan_count s"
  shows "sch_runtime_inhibit_latched s' \<and> sch_inhibited s' \<and> sf_active_slot (sched_fan s' i) < 0 \<and>
    (\<exists>(s2 :: 'h scheduler) task. sch_runtime_inhibit_latched s2 \<and> save_request_section task s2 \<noteq> None \<and>
       sch_sync_completed_generation s' = sch_sync_requested_generation s2 + 1 \<and> sch_sync_result s' = ESP_OK)"
proof -
  let ?n = "CONFIG_SCHEDULE_SLOTS ops"
  have H: "held ?n t (s, own) s nothing" using held_refl [OF reach_inv [OF assms(1)], of t] assms(2) by simp
  obtain st h1 where 1: "os_tick_count ops h = (st, h1)" by (rule prod.exhaust)
  from assms(4) 1 obtain s2 h2 where l: "inhibit_loop ops timeout st s h1 = Some (True, s2, h2)"
    by (auto simp: scheduler_try_inhibit_all_def split: option.splits if_splits)
  have H2: "held ?n t (s, own) s2 nothing" and l2: "sch_runtime_inhibit_latched s2"
    using held_inhibit_loop [OF assms(3) l H] by simp_all
  obtain rem h3 where r: "ticks_remaining ops timeout st h2 = (rem, h3)" by (rule prod.exhaust)
  from assms(4) 1 l r obtain s4 h4 where sv: "scheduler_save_sync ops rem s2 h3 = Some (ESP_OK, s', h4)"
    by (auto simp: scheduler_try_inhibit_all_def Let_def split: option.splits if_splits)
  from H2 obtain own2 where own2: "sched_run ?n (s, own) (s2, own2)" "protocol_inv ?n (s2, own2)" "mine t own2 = nothing"
    by (auto simp: held_def)
  have H2': "held ?n t (s2, own2) s2 nothing" using held_refl [OF own2(2), of t] own2(3) by simp
  from held_save_sync [OF assms(3) H2' sv] have H4: "held ?n t (s2, own2) s' nothing" .
  have l4: "sch_runtime_inhibit_latched s'" by (rule held_latched [OF H4 l2])
  from held_inv [OF H4] obtain own4 where inv4: "protocol_inv ?n (s', own4)" by blast
  have i: "i < sched_fan_count s'" using held_count [OF H4] held_count [OF H2] assms(5) by simp
  have "sf_active_slot (sched_fan s' i) < 0" "sch_inhibited s'"
    using inv_fan [OF inv4 i] l4 by (auto simp: fan_inv_def)
  moreover have "\<exists>(s3 :: 'h scheduler) task. sch_runtime_inhibit_latched s3 \<and> save_request_section task s3 \<noteq> None \<and>
       sch_sync_completed_generation s' = sch_sync_requested_generation s3 + 1 \<and> sch_sync_result s' = ESP_OK"
    using save_sync_served [OF sv H2' assms(3)] held_latched [OF _ l2] by blast
  ultimately show ?thesis using l4 by blast
qed

text \<open>A world whose writer serves a request as soon as its caller waits for the completion.\<close>

definition sim_serving_sched :: "sched_world sched_ops" where
  "sim_serving_sched = sim_sched_ops\<lparr>sch_take := (\<lambda>x _ s h.
     (True, if x = 9 then s\<lparr>sch_sync_completed_generation := sch_sync_requested_generation s, sch_sync_result := ESP_OK\<rparr>
            else s, h)), os_current_task := (\<lambda>_. 0)\<rparr>"

definition sim_sched_started :: "sched_world scheduler" where
  "sim_sched_started = sim_sched\<lparr>sch_save_task := Some 3\<rparr>"

lemma sim_serving_select [simp]:
  "CONFIG_SCHEDULE_SLOTS sim_serving_sched = 2" "os_tick_count sim_serving_sched h = (0, h)"
  "sch_take sim_serving_sched x r s h = (True, if x = 9
     then s\<lparr>sch_sync_completed_generation := sch_sync_requested_generation s, sch_sync_result := ESP_OK\<rparr> else s, h)"
  "sch_delay sim_serving_sched s h = (s, h)" "sch_others sim_serving_sched s h = (s, h)"
  "sch_notify_wait sim_serving_sched w s h = (None, s, h)" "os_current_task sim_serving_sched h = 0"
  "os_task_notify sim_serving_sched k n h = h"
  by (simp_all add: sim_serving_sched_def)

lemma sim_serving_environment: "environment sim_serving_sched t"
proof -
  let ?serve = "\<lambda>s :: sched_world scheduler.
    s\<lparr>sch_sync_completed_generation := sch_sync_requested_generation s, sch_sync_result := ESP_OK\<rparr>"
  have served: "others_run 2 t (s, own) (?serve s, own)" for s own
  proof -
    have "sched_step 2 (Suc t) (s, own) (?serve s, own)" by (rule sched_step.other) simp_all
    then show ?thesis unfolding others_run_def by (intro r_into_rtranclp exI [of _ "Suc t"]) simp
  qed
  have idle: "others_run 2 t (s, own) (s, own)" for s :: "sched_world scheduler" and own
    by (simp add: others_run_def)
  show ?thesis unfolding environment_def using served idle by auto blast+
qed

lemma sim_started_select [simp]:
  "sch_save_task sim_sched_started = Some 3" "sch_initialized sim_sched_started" "sched_fan_count sim_sched_started = 2"
  "sch_sync_mutex sim_sched_started = Some 8" "sch_sync_complete sim_sched_started = Some 9"
  "sch_mutex sim_sched_started = Some 1" "sched_fan sim_sched_started i = sched_fan sim_sched i"
  "sch_sync_requested_generation sim_sched_started = 0" "sch_sync_completed_generation sim_sched_started = 0"
  "scc_notify (sch_config sim_sched_started) = None" "\<not> sch_runtime_inhibit_latched sim_sched_started"
  by (simp_all add: sim_sched_started_def sim_sched_def scheduler_boot_def sched_fan_count_def sched_fan_def
      sim_sched_config_def example_config_def)

lemma upd_fan_fold_sync [simp]:
  "sch_save_task (fold (\<lambda>x. upd_fan (g x) (f x)) xs s) = sch_save_task s"
  "sch_mutex (fold (\<lambda>x. upd_fan (g x) (f x)) xs s) = sch_mutex s"
  "sch_sync_mutex (fold (\<lambda>x. upd_fan (g x) (f x)) xs s) = sch_sync_mutex s"
  "sch_sync_complete (fold (\<lambda>x. upd_fan (g x) (f x)) xs s) = sch_sync_complete s"
  "sch_sync_requested_generation (fold (\<lambda>x. upd_fan (g x) (f x)) xs s) = sch_sync_requested_generation s"
  "sch_sync_completed_generation (fold (\<lambda>x. upd_fan (g x) (f x)) xs s) = sch_sync_completed_generation s"
  by (induction xs arbitrary: s) (simp_all add: upd_fan_def)

theorem inhibit_all_acknowledged_witness:
  "\<exists>s' h'. scheduler_try_inhibit_all sim_serving_sched 300 sim_sched_started sim_world = Some (ESP_OK, s', h') \<and>
     sch_runtime_inhibit_latched s' \<and> sf_active_slot (sched_fan s' 1) < 0"
proof -
  obtain s2 where i: "inhibit_section sim_sched_started = Some s2" by (simp add: inhibit_section_def)
  then have sel: "sch_initialized s2" "sch_save_task s2 = Some 3" "sch_sync_mutex s2 = Some 8" "sch_sync_complete s2 = Some 9"
    "sch_sync_requested_generation s2 = 0" "sch_sync_completed_generation s2 = 0" "scc_notify (sch_config s2) = None"
    by (auto simp: inhibit_section_def split: if_splits)
  have l: "inhibit_loop sim_serving_sched 300 0 sim_sched_started sim_world = Some (True, s2, sim_world)"
    by (subst inhibit_loop.simps) (simp add: ticks_remaining_def portMAX_DELAY_def i)
  let ?s3 = "s2\<lparr>sch_sync_requested_generation := 1\<rparr>"
  let ?s4 = "?s3\<lparr>sch_sync_completed_generation := 1, sch_sync_result := ESP_OK\<rparr>"
  have "save_wait_loop sim_serving_sched 1 300 0 ?s4 sim_world = Some (ESP_OK, ?s4, sim_world)"
    by (subst save_wait_loop.simps) simp
  then have "save_wait_loop sim_serving_sched 1 300 0 ?s3 sim_world = Some (ESP_OK, ?s4, sim_world)"
    by (subst save_wait_loop.simps) (simp add: sel portMAX_DELAY_def)
  then obtain h4 where sv: "scheduler_save_sync sim_serving_sched 300 s2 sim_world = Some (ESP_OK, ?s4, h4)"
    by (simp add: scheduler_save_sync_def scheduler_is_initialized_def sel save_request_section_def)
  obtain s' h' where c: "scheduler_try_inhibit_all sim_serving_sched 300 sim_sched_started sim_world = Some (ESP_OK, s', h')"
    using l sv by (simp add: scheduler_try_inhibit_all_def scheduler_is_initialized_def ticks_remaining_def portMAX_DELAY_def
        notify_event_def sel)
  have "scheduler_fresh 2 sim_sched_started"
    by (simp add: scheduler_fresh_def sim_fan_ok) (simp add: sim_sched_started_def)
  then have r: "sched_reach (CONFIG_SCHEDULE_SLOTS sim_serving_sched) (sim_sched_started, \<lambda>_. None)"
    using sched_reach.fresh by simp
  from inhibit_all_acknowledged [OF r mine_None sim_serving_environment c, of 1] c show ?thesis by auto
qed

end
