(* ===== verification/App_Composition.thy ===== *)
theory App_Composition imports App_Callbacks Motor_Properties Schedule_Persistence
begin

text \<open>
  The components together: the scheduler as a client of the motor controller through its target
  callback, and the manual targets through a power cycle of the whole node.
\<close>

section \<open>The target port\<close>

text \<open>What the scheduler relies on: a refused request changes nothing, an accepted one sets the target
  of its fan alone, only a manual request changes a manual target, and a start reports it.\<close>

locale target_port =
  fixes port :: "scheduler_target_request \<Rightarrow> 'm \<Rightarrow> scheduler_target_result \<times> 'm"
    and wf :: "'m \<Rightarrow> bool" and target manual :: "'m \<Rightarrow> nat \<Rightarrow> u8"
  assumes keeps_wf: "wf m \<Longrightarrow> port r m = (res, m') \<Longrightarrow> wf m'"
    and refused: "wf m \<Longrightarrow> port r m = (res, m') \<Longrightarrow> \<not> res_accepted res \<Longrightarrow> m' = m"
    and applied: "wf m \<Longrightarrow> port r m = (res, m') \<Longrightarrow> res_accepted res \<Longrightarrow>
      target m' (nat (req_local_fan r)) = req_target_pct r \<and>
      (\<forall>j. j \<noteq> nat (req_local_fan r) \<longrightarrow> target m' j = target m j \<and> manual m' j = manual m j)"
    and manual_kept: "wf m \<Longrightarrow> port r m = (res, m') \<Longrightarrow> req_kind r \<noteq> SCHEDULER_TARGET_MANUAL \<Longrightarrow>
      manual m' j = manual m j"
    and start_reports: "wf m \<Longrightarrow> port r m = (res, m') \<Longrightarrow> req_kind r = SCHEDULER_TARGET_START \<Longrightarrow> res_accepted res \<Longrightarrow>
      res_manual_target_pct res = manual m (nat (req_local_fan r))"
begin

fun serve :: "scheduler_target_request list \<Rightarrow> 'm \<Rightarrow> 'm" where
  "serve [] m = m"
| "serve (r # rs) m = serve rs (snd (port r m))"

lemma serve_wf: "wf m \<Longrightarrow> wf (serve rs m)"
proof (induction rs arbitrary: m)
  case (Cons r rs)
  have "wf (snd (port r m))" using keeps_wf [OF Cons.prems, of r] by (metis prod.collapse)
  then show ?case using Cons.IH by simp
qed simp

lemma serve_manual:
  "wf m \<Longrightarrow> \<forall>r \<in> set rs. req_kind r = SCHEDULER_TARGET_MANUAL \<longrightarrow> nat (req_local_fan r) \<noteq> i \<Longrightarrow>
   manual (serve rs m) i = manual m i"
proof (induction rs arbitrary: m)
  case (Cons r rs)
  obtain res m' where a: "port r m = (res, m')" by (rule prod.exhaust)
  have "manual m' i = manual m i"
  proof (cases "req_kind r = SCHEDULER_TARGET_MANUAL")
    case True
    then have "nat (req_local_fan r) \<noteq> i" using Cons.prems(2) by simp
    then show ?thesis using applied [OF Cons.prems(1) a] refused [OF Cons.prems(1) a] by (cases "res_accepted res") auto
  qed (rule manual_kept [OF Cons.prems(1) a])
  then show ?case using Cons.IH [OF keeps_wf [OF Cons.prems(1) a]] Cons.prems(2) a by simp
qed simp

lemma start_then_restore:
  assumes "wf m" and "port start m = (res, m1)" and "req_kind start = SCHEDULER_TARGET_START" and "res_accepted res"
    and "\<forall>r \<in> set rs. req_kind r = SCHEDULER_TARGET_MANUAL \<longrightarrow> nat (req_local_fan r) \<noteq> nat (req_local_fan start)"
    and "port restore (serve rs m1) = (res', m3)" and "res_accepted res'" and "req_kind restore = SCHEDULER_TARGET_RESTORE"
    and "req_local_fan restore = req_local_fan start" and "req_target_pct restore = res_manual_target_pct res"
  shows "target m3 (nat (req_local_fan start)) = manual m (nat (req_local_fan start)) \<and>
    manual m3 (nat (req_local_fan start)) = manual m (nat (req_local_fan start))"
proof -
  let ?i = "nat (req_local_fan start)"
  have w1: "wf m1" by (rule keeps_wf [OF assms(1,2)])
  have w2: "wf (serve rs m1)" by (rule serve_wf [OF w1])
  have "manual m1 ?i = manual m ?i" by (rule manual_kept [OF assms(1,2)]) (simp add: assms(3))
  moreover have "manual (serve rs m1) ?i = manual m1 ?i" by (rule serve_manual [OF w1 assms(5)])
  moreover have "manual m3 ?i = manual (serve rs m1) ?i" by (rule manual_kept [OF w2 assms(6)]) (simp add: assms(8))
  moreover have "target m3 ?i = req_target_pct restore" using applied [OF w2 assms(6,7)] assms(9) by simp
  ultimately show ?thesis using start_reports [OF assms(1,2,3,4)] assms(10) by simp
qed

end

section \<open>The motor controller provides it\<close>

definition port_wf :: "motor_state \<Rightarrow> bool" where
  "port_wf m \<longleftrightarrow> length (s_motors m) = 4 \<and> s_fan_count m \<le> 4"

lemma port_event [simp]: "motor (emit_event t f s) j = motor s j" "port_wf (emit_event t f s) = port_wf s"
  using emit_event_log [of t f s] by (auto simp: port_wf_def)

lemma valid_index: "port_wf m \<Longrightarrow> motor_valid_locked m local_fan \<Longrightarrow> nat local_fan < length (s_motors m)"
  by (auto simp: port_wf_def motor_valid_locked_def)

lemma automatic_effect:
  assumes "port_wf m" and "automatic_section f pct m = Some (v, m')"
  shows "port_wf m'" "v = mc_manual_target_pct (motor m (nat f))"
    "motor m' j = (if j = nat f then (motor m j)\<lparr>mc_target_pct := pct\<rparr> else motor m j)"
proof -
  have a: "automatic_allowed_locked m f" and m': "m' = upd_motor (nat f) (\<lambda>x. x\<lparr>mc_target_pct := pct\<rparr>) m"
    and v: "v = mc_manual_target_pct (motor m (nat f))"
    using assms(2) by (auto simp: automatic_section_def split: if_splits)
  have i: "nat f < length (s_motors m)" using valid_index [OF assms(1)] a by (simp add: automatic_allowed_locked_def)
  show "port_wf m'" using assms(1) by (simp add: m' port_wf_def upd_motor_def)
  show "v = mc_manual_target_pct (motor m (nat f))" by (rule v)
  show "motor m' j = (if j = nat f then (motor m j)\<lparr>mc_target_pct := pct\<rparr> else motor m j)"
    using i by (auto simp: m' motor_upd)
qed

lemma manual_effect:
  assumes "port_wf m" and "manual_section f pct m = Some (ack, m')"
  shows "port_wf m'" "ack_accepted ack" "j \<noteq> nat f \<Longrightarrow> motor m' j = motor m j"
    "mc_target_pct (motor m' (nat f)) = pct" "mc_manual_target_pct (motor m' (nat f)) = pct"
proof -
  let ?u = "\<lambda>x. x\<lparr>mc_manual_target_pct := pct, mc_target_pct := pct, mc_accepted_command_count :=
    (if mc_accepted_command_count x < UINT32_MAX then mc_accepted_command_count x + 1 else mc_accepted_command_count x)\<rparr>"
  have a: "motor_valid_locked m f" and m': "m' = upd_motor (nat f) ?u (m\<lparr>s_communication_inhibited := False\<rparr>)"
    and k: "ack_accepted ack"
    using assms(2) by (auto simp: manual_section_def Let_def split: if_splits)
  have i: "nat f < length (s_motors m)" by (rule valid_index [OF assms(1) a])
  have w: "s_motors m' = (s_motors m)[nat f := ?u (motor m (nat f))]" "s_fan_count m' = s_fan_count m"
    by (simp_all add: m' upd_motor_def motor_def)
  show "ack_accepted ack" by (rule k)
  show "port_wf m'" using assms(1) w by (simp add: port_wf_def)
  show "j \<noteq> nat f \<Longrightarrow> motor m' j = motor m j" using w by (simp add: motor_def)
  show "mc_target_pct (motor m' (nat f)) = pct" "mc_manual_target_pct (motor m' (nat f)) = pct"
    using w(1) i by (simp_all add: motor_def)
qed

lemma callback_effect:
  assumes wf: "port_wf m" and cb: "scheduler_apply_target_callback r m = (res, m')"
  shows "\<not> res_accepted res \<Longrightarrow> m' = m" "port_wf m'"
    "j \<noteq> nat (req_local_fan r) \<Longrightarrow> motor m' j = motor m j"
    "res_accepted res \<Longrightarrow> mc_target_pct (motor m' (nat (req_local_fan r))) = req_target_pct r"
    "req_kind r \<noteq> SCHEDULER_TARGET_MANUAL \<Longrightarrow> mc_manual_target_pct (motor m' j) = mc_manual_target_pct (motor m j)"
    "req_kind r = SCHEDULER_TARGET_START \<Longrightarrow> res_accepted res \<Longrightarrow>
      res_manual_target_pct res = mc_manual_target_pct (motor m (nat (req_local_fan r)))"
proof -
  let ?f = "req_local_fan r" and ?p = "req_target_pct r"
  let ?no = "?p > 100 \<or> (req_kind r = SCHEDULER_TARGET_MANUAL \<and> manual_section ?f ?p m = None) \<or>
      (req_kind r \<noteq> SCHEDULER_TARGET_MANUAL \<and> automatic_section ?f ?p m = None)"
  have "(m' = m \<and> \<not> res_accepted res) \<or>
    (req_kind r = SCHEDULER_TARGET_MANUAL \<and> res_accepted res \<and> port_wf m' \<and> (\<forall>j. j \<noteq> nat ?f \<longrightarrow> motor m' j = motor m j) \<and>
       mc_target_pct (motor m' (nat ?f)) = ?p) \<or>
    (\<exists>v m1. req_kind r \<noteq> SCHEDULER_TARGET_MANUAL \<and> automatic_section ?f ?p m = Some (v, m1) \<and> res_accepted res \<and>
       m' = emit_event MOTOR_CONTROL_EVENT_TARGET_CHANGED ?f m1 \<and>
       (req_kind r = SCHEDULER_TARGET_START \<longrightarrow> res_manual_target_pct res = v))"
  proof (cases ?no)
    case True
    have "m' = m \<and> \<not> res_accepted res"
      using cb True by (cases "req_kind r") (auto simp: scheduler_apply_target_callback_def motor_control_request_manual_def
        motor_control_request_scheduled_def motor_control_request_automatic_def target_result_zero_def split: if_splits)
    then show ?thesis by blast
  next
    case False
    show ?thesis
    proof (cases "req_kind r = SCHEDULER_TARGET_MANUAL")
      case manual: True
      then obtain ack m1 where s: "manual_section ?f ?p m = Some (ack, m1)"
        using False by (cases "manual_section ?f ?p m") auto
      have "res_accepted res \<and> port_wf m' \<and> (\<forall>j. j \<noteq> nat ?f \<longrightarrow> motor m' j = motor m j) \<and>
          mc_target_pct (motor m' (nat ?f)) = ?p"
        using cb False manual s manual_effect [OF wf s]
        by (auto simp: scheduler_apply_target_callback_def motor_control_request_manual_def)
      then show ?thesis using manual by blast
    next
      case auto: False
      then obtain v m1 where s: "automatic_section ?f ?p m = Some (v, m1)"
        using False by (cases "automatic_section ?f ?p m") auto
      have "res_accepted res \<and> m' = emit_event MOTOR_CONTROL_EVENT_TARGET_CHANGED ?f m1 \<and>
          (req_kind r = SCHEDULER_TARGET_START \<longrightarrow> res_manual_target_pct res = v)"
        using cb False auto s by (cases "req_kind r") (auto simp: scheduler_apply_target_callback_def
          motor_control_request_scheduled_def motor_control_request_automatic_def target_result_zero_def)
      then show ?thesis using auto s by blast
    qed
  qed
  then consider (no) "m' = m" "\<not> res_accepted res"
    | (manual) "req_kind r = SCHEDULER_TARGET_MANUAL" "res_accepted res" "port_wf m'"
        "\<forall>j. j \<noteq> nat ?f \<longrightarrow> motor m' j = motor m j" "mc_target_pct (motor m' (nat ?f)) = ?p"
    | (auto) v m1 where "req_kind r \<noteq> SCHEDULER_TARGET_MANUAL" "automatic_section ?f ?p m = Some (v, m1)" "res_accepted res"
        "m' = emit_event MOTOR_CONTROL_EVENT_TARGET_CHANGED ?f m1" "req_kind r = SCHEDULER_TARGET_START \<longrightarrow> res_manual_target_pct res = v"
    by blast
  then have "(\<not> res_accepted res \<longrightarrow> m' = m) \<and> port_wf m' \<and> (\<forall>j. j \<noteq> nat ?f \<longrightarrow> motor m' j = motor m j) \<and>
    (res_accepted res \<longrightarrow> mc_target_pct (motor m' (nat ?f)) = ?p) \<and>
    (req_kind r \<noteq> SCHEDULER_TARGET_MANUAL \<longrightarrow> (\<forall>j. mc_manual_target_pct (motor m' j) = mc_manual_target_pct (motor m j))) \<and>
    (req_kind r = SCHEDULER_TARGET_START \<longrightarrow> res_accepted res \<longrightarrow> res_manual_target_pct res = mc_manual_target_pct (motor m (nat ?f)))"
  proof cases
    case (auto v m1)
    then show ?thesis using automatic_effect [OF wf auto(2)] by simp
  qed (use wf in simp_all)
  then show "\<not> res_accepted res \<Longrightarrow> m' = m" "port_wf m'"
    "j \<noteq> nat (req_local_fan r) \<Longrightarrow> motor m' j = motor m j"
    "res_accepted res \<Longrightarrow> mc_target_pct (motor m' (nat (req_local_fan r))) = req_target_pct r"
    "req_kind r \<noteq> SCHEDULER_TARGET_MANUAL \<Longrightarrow> mc_manual_target_pct (motor m' j) = mc_manual_target_pct (motor m j)"
    "req_kind r = SCHEDULER_TARGET_START \<Longrightarrow> res_accepted res \<Longrightarrow>
      res_manual_target_pct res = mc_manual_target_pct (motor m (nat (req_local_fan r)))" by auto
qed

interpretation motor_port: target_port scheduler_apply_target_callback port_wf
  "\<lambda>m i. mc_target_pct (motor m i)" "\<lambda>m i. mc_manual_target_pct (motor m i)"
proof
qed (auto dest: callback_effect)

definition serve_requests :: "scheduler_target_request list \<Rightarrow> motor_state \<Rightarrow> motor_state" where
  "serve_requests rs m = fold (\<lambda>r m. snd (scheduler_apply_target_callback r m)) rs m"

lemma serve_requests: "motor_port.serve rs m = serve_requests rs m"
  by (induction rs arbitrary: m) (simp_all add: serve_requests_def)

lemma reachable_port_wf: "motor_reachable kc ops m \<Longrightarrow> 0 < CONFIG_RMT_ERROR_LIMIT kc \<Longrightarrow> port_wf m"
  using reachable_inv by (fastforce simp: motor_inv_def port_wf_def)

text \<open>C23. A schedule gives back what it took: on any reachable motor controller, after a start the
  controller accepted, and whatever requests the scheduler has served since on other fans or
  for other schedules of this fan, short of a new manual target for it, the accepted restore of
  the saved target puts the fan's target back to the manual target it had before the start.\<close>

theorem schedule_end_restores_manual_target:
  assumes "motor_reachable kc ops m" and "0 < CONFIG_RMT_ERROR_LIMIT kc"
    and "scheduler_apply_target_callback start m = (res, m1)" and "req_kind start = SCHEDULER_TARGET_START"
    and "res_accepted res"
    and "\<forall>r \<in> set rs. req_kind r = SCHEDULER_TARGET_MANUAL \<longrightarrow> nat (req_local_fan r) \<noteq> nat (req_local_fan start)"
    and "scheduler_apply_target_callback restore (serve_requests rs m1) = (res', m3)" and "res_accepted res'"
    and "req_kind restore = SCHEDULER_TARGET_RESTORE" and "req_local_fan restore = req_local_fan start"
    and "req_target_pct restore = res_manual_target_pct res"
  shows "mc_target_pct (motor m1 (nat (req_local_fan start))) = req_target_pct start \<and>
    mc_target_pct (motor m3 (nat (req_local_fan start))) = mc_manual_target_pct (motor m (nat (req_local_fan start)))"
  using motor_port.start_then_restore [OF reachable_port_wf [OF assms(1,2)] assms(3-6)
      assms(7) [folded serve_requests] assms(8-11)] callback_effect(4) [OF reachable_port_wf [OF assms(1,2)] assms(3,5)] by simp

definition sim_request :: "scheduler_target_kind \<Rightarrow> u8 \<Rightarrow> scheduler_target_request" where
  "sim_request kind pct = \<lparr>req_kind = kind, req_local_fan = 0, req_fan_number = 1, req_slot = 1, req_target_pct = pct\<rparr>"

text \<open>The running controller of \<open>Motor_Simulation\<close>: manual target 50, then a schedule at 80.\<close>

lemma sim_running_reachable: "motor_reachable sim_kconfig sim_ops sim_running"
proof -
  have "motor_reachable sim_kconfig sim_ops (fst (run_call sim_kconfig sim_ops (Call_Request_Manual 0 50) sim_ready []))"
    by (rule run_call_reachable [OF sim_ready_reachable sim_limit])
  then have 1: "motor_reachable sim_kconfig sim_ops sim_requested" by (simp add: sim_requested_def case_prod_unfold)
  have "motor_reachable sim_kconfig sim_ops (sim_ramps n s)" if "motor_reachable sim_kconfig sim_ops s" for n s
    using that
  proof (induction n arbitrary: s)
    case (Suc n)
    have "motor_reachable sim_kconfig sim_ops (fst (run_call sim_kconfig sim_ops Call_Ramp_Iteration s []))"
      by (rule run_call_reachable [OF Suc.prems sim_limit])
    then show ?case using Suc.IH by (simp add: case_prod_unfold)
  qed simp
  then show ?thesis using 1 by (simp add: sim_running_def)
qed

theorem schedule_end_restores_manual_target_witness:
  "\<exists>m1 m3. snd (scheduler_apply_target_callback (sim_request SCHEDULER_TARGET_START 80) sim_running) = m1 \<and>
     mc_target_pct (motor m1 0) = 80 \<and>
     snd (scheduler_apply_target_callback (sim_request SCHEDULER_TARGET_RESTORE 50) m1) = m3 \<and> mc_target_pct (motor m3 0) = 50"
proof -
  obtain res m1 where s: "scheduler_apply_target_callback (sim_request SCHEDULER_TARGET_START 80) sim_running = (res, m1)"
    by (rule prod.exhaust)
  obtain res' m3 where e: "scheduler_apply_target_callback (sim_request SCHEDULER_TARGET_RESTORE 50) m1 = (res', m3)"
    by (rule prod.exhaust)
  have "res_accepted (fst (scheduler_apply_target_callback (sim_request SCHEDULER_TARGET_START 80) sim_running)) \<and>
    res_manual_target_pct (fst (scheduler_apply_target_callback (sim_request SCHEDULER_TARGET_START 80) sim_running)) = 50 \<and>
    res_accepted (fst (scheduler_apply_target_callback (sim_request SCHEDULER_TARGET_RESTORE 50)
      (snd (scheduler_apply_target_callback (sim_request SCHEDULER_TARGET_START 80) sim_running)))) \<and>
    mc_manual_target_pct (motor sim_running 0) = 50"
    by code_simp
  then have a: "res_accepted res" "res_manual_target_pct res = 50" "res_accepted res'" "mc_manual_target_pct (motor sim_running 0) = 50"
    using s e by simp_all
  have "mc_target_pct (motor m1 (nat (req_local_fan (sim_request SCHEDULER_TARGET_START 80)))) =
      req_target_pct (sim_request SCHEDULER_TARGET_START 80) \<and>
    mc_target_pct (motor m3 (nat (req_local_fan (sim_request SCHEDULER_TARGET_START 80)))) =
      mc_manual_target_pct (motor sim_running (nat (req_local_fan (sim_request SCHEDULER_TARGET_START 80))))"
    by (rule schedule_end_restores_manual_target [OF sim_running_reachable sim_limit s _ a(1), where rs = "[]"
        and restore = "sim_request SCHEDULER_TARGET_RESTORE 50", OF _ _ _ a(3)])
      (use e a in \<open>simp_all add: sim_request_def serve_requests_def\<close>)
  then show ?thesis using s e a(4) by (simp add: sim_request_def)
qed

section \<open>An inhibited controller\<close>

definition motion_inhibited :: "motor_state \<Rightarrow> bool" where
  "motion_inhibited m \<longleftrightarrow> s_lifecycle m \<noteq> MOTOR_LIFECYCLE_READY \<or> s_stop_depth m \<noteq> 0 \<or> s_global_inhibited m \<or>
     s_maintenance_depth m \<noteq> 0 \<or> s_communication_inhibited m \<or> s_rmt_inhibited m"

lemma inhibited_refuses:
  assumes "motion_inhibited m" and "req_kind r \<noteq> SCHEDULER_TARGET_MANUAL"
    and "scheduler_apply_target_callback r m = (res, m')"
  shows "m' = m \<and> \<not> res_accepted res"
proof -
  have "automatic_section (req_local_fan r) (req_target_pct r) m = None"
    using assms(1) by (auto simp: automatic_section_def automatic_allowed_locked_def motor_valid_locked_def motion_inhibited_def)
  then show ?thesis using assms(2,3)
    by (cases "req_kind r") (auto simp: scheduler_apply_target_callback_def motor_control_request_scheduled_def
        motor_control_request_automatic_def target_result_zero_def split: if_splits)
qed

lemma scan_slots_keep: "scan_slots now ks fan = (r, fan') \<Longrightarrow>
    sf_active_slot fan' = sf_active_slot fan \<and> sf_operation_pending fan' = sf_operation_pending fan"
proof (induction ks arbitrary: fan)
  case (Cons k ks)
  show ?case
  proof (cases "en_enabled (sf_entries fan ! k)")
    case False
    then show ?thesis using Cons by simp
  next
    case True
    then show ?thesis using Cons.prems Cons.IH [of "upd_entry k (armed_entry now) fan"]
      by (auto simp: Let_def split: if_splits)
  qed
qed simp

lemma start_begin_keep:
  assumes "start_begin_section slots i now s = (r, s')" and "i < length (sch_fans s)"
  shows "sf_active_slot (sched_fan s' i) = sf_active_slot (sched_fan s i)" "sch_config s' = sch_config s"
    "length (sch_fans s') = length (sch_fans s)"
    "sf_operation_pending (sched_fan s' i) \<longleftrightarrow> r \<noteq> None \<or> sf_operation_pending (sched_fan s i)"
    "r \<noteq> None \<Longrightarrow> \<not> sf_operation_pending (sched_fan s i)"
  using assms scan_slots_keep [of now "slot_order slots (sf_cursor (sched_fan s i))" "sched_fan s i"]
  by (auto simp: start_begin_section_def Let_def sched_fan_upd_fan split: if_splits prod.splits option.splits)


text \<open>The node of the witness: the simulated scheduler, with the controller of \<open>Motor_Simulation\<close> after
  a global stop.\<close>

definition node_ops :: "(motor_state \<times> unit) sched_ops" where
  "node_ops = undefined\<lparr>CONFIG_SCHEDULE_SLOTS := 2, sch_take := (\<lambda>_ _ s h. (True, s, h))\<rparr>"

definition node_sched :: "(motor_state \<times> unit) scheduler" where
  "node_sched = (scheduler_boot 2)\<lparr>sch_config := app_scheduler_config example_config (\<lambda>_ w. w),
     sch_fans := replicate 4 sim_fan\<rparr>"


section \<open>The manual targets through a power cycle\<close>

text \<open>The flash knows nothing of the motor controller.\<close>

definition nvs_apart :: "(motor_state \<times> 'w) os_ops \<Rightarrow> 'w os_ops \<Rightarrow> bool" where
  "nvs_apart ops flash \<longleftrightarrow>
     (\<forall>m w ns b. os_nvs_open ops ns b (m, w) = apsnd (Pair m) (os_nvs_open flash ns b w)) \<and>
     (\<forall>m w x. os_nvs_close ops x (m, w) = (m, os_nvs_close flash x w)) \<and>
     (\<forall>m w x key n. os_nvs_get_blob ops x key n (m, w) = apsnd (Pair m) (os_nvs_get_blob flash x key n w)) \<and>
     (\<forall>m w x key bytes. os_nvs_set_blob ops x key bytes (m, w) = apsnd (Pair m) (os_nvs_set_blob flash x key bytes w)) \<and>
     (\<forall>m w x. os_nvs_commit ops x (m, w) = apsnd (Pair m) (os_nvs_commit flash x w))"

lemma snapshot_loop_manual:
  "snapshot_loop is m = Some ts \<Longrightarrow> ts = map (\<lambda>i. mc_manual_target_pct (motor m i)) is"
  by (induction "is" arbitrary: ts)
    (auto simp: motor_control_get_fan_snapshot_def fill_fan_snapshot_locked_def Let_def split: option.splits if_splits)

lemma snapshot_loop_ready:
  "s_lifecycle m = MOTOR_LIFECYCLE_READY \<Longrightarrow> \<forall>i \<in> set is. i < s_fan_count m \<Longrightarrow>
   snapshot_loop is m = Some (map (\<lambda>i. mc_manual_target_pct (motor m i)) is)"
  by (induction "is") (simp_all add: motor_control_get_fan_snapshot_def motor_valid_locked_def
      fill_fan_snapshot_locked_def Let_def)

lemma restore_allowed_zero:
  assumes "restore_allowed (replicate 4 0) m" and "\<forall>i < s_fan_count m. ts ! i \<le> 100"
  shows "restore_allowed ts m"
  using assms by (auto simp: restore_allowed_def)

lemma port_events_fold [simp]: "motor (fold (\<lambda>i. emit_event t (f i)) is m) j = motor m j"
  by (induction "is" arbitrary: m) simp_all

lemma restored_targets:
  assumes "fan_state_restore_targets ts n m = (True, m')" and "length (s_motors m) = 4" and "s_fan_count m \<le> 4"
    and "i < s_fan_count m"
  shows "mc_target_pct (motor m' i) = ts ! i \<and> mc_manual_target_pct (motor m' i) = ts ! i"
proof -
  have "m' = fold (\<lambda>i. emit_event MOTOR_CONTROL_EVENT_TARGET_CHANGED (int i)) [0..<s_fan_count m] (restore_section ts m)"
    using assms(1) by (auto simp: fan_state_restore_targets_def motor_control_restore_all_def split: if_splits)
  moreover have "motor (restore_section ts m) i = (motor m i)\<lparr>mc_manual_target_pct := ts ! i, mc_target_pct := ts ! i\<rparr>"
    using fold_upd_motor [of "s_fan_count m" m "\<lambda>i m. m\<lparr>mc_manual_target_pct := ts ! i, mc_target_pct := ts ! i\<rparr>" i] assms(2-4)
    by (simp add: restore_section_def)
  ultimately show ?thesis by simp
qed

lemma app_save:
  assumes "save_now ops s (m, w) = (ESP_OK, h')" and "fst_config s = app_fan_state_config c"
    and "nvs_apart (os_ops.truncate ops) flash" and "nvs_durable flash FAN_STATE_NAMESPACE FAN_STATE_NVS_KEY"
  shows "\<exists>ts w1 x w2 w3. fan_state_snapshot_targets (Some c) (nat (fan_count c)) m = Some ts \<and> h' = (m, w1) \<and>
    os_nvs_open flash FAN_STATE_NAMESPACE False w1 = ((ESP_OK, x), w2) \<and>
    os_nvs_get_blob flash x FAN_STATE_NVS_KEY (length (config_blob c ts)) w2 = ((ESP_OK, config_blob c ts), w3)"
proof -
  have A: "os_nvs_open ops ns b (m, w) = apsnd (Pair m) (os_nvs_open flash ns b w)"
    "os_nvs_close ops x (m, w) = (m, os_nvs_close flash x w)"
    "os_nvs_set_blob ops x key bytes (m, w) = apsnd (Pair m) (os_nvs_set_blob flash x key bytes w)"
    "os_nvs_commit ops x (m, w) = apsnd (Pair m) (os_nvs_commit flash x w)" for m w ns b x key bytes
    using assms(3) unfolding nvs_apart_def by (simp_all add: os_ops.truncate_def)
  obtain ts where ts: "fan_state_snapshot_targets (Some c) (nat (fan_count c)) m = Some ts"
    using assms(1,2) by (cases "fan_state_snapshot_targets (Some c) (nat (fan_count c)) m")
      (simp_all add: save_now_def app_fan_state_config_def Let_def)
  obtain err x w2 where op: "os_nvs_open flash FAN_STATE_NAMESPACE True w = ((err, x), w2)" by (metis prod.exhaust)
  obtain err1 w3 where st: "os_nvs_set_blob flash x FAN_STATE_NVS_KEY (config_blob c ts) w2 = (err1, w3)" by (rule prod.exhaust)
  obtain err2 w4 where cm: "os_nvs_commit flash x w3 = (err2, w4)" by (rule prod.exhaust)
  have ok: "err1 = ESP_OK" "err2 = ESP_OK" "h' = (m, os_nvs_close flash x w4)"
    using assms(1,2) ts op st cm
    by (auto simp: save_now_def app_fan_state_config_def Let_def A config_blob_def split: if_splits)
  have "\<exists>x' w5 w6. os_nvs_open flash FAN_STATE_NAMESPACE False (os_nvs_close flash x w4) = ((ESP_OK, x'), w5) \<and>
      os_nvs_get_blob flash x' FAN_STATE_NVS_KEY (length (config_blob c ts)) w5 = ((ESP_OK, config_blob c ts), w6)"
    using assms(4) st cm ok unfolding nvs_durable_def by blast
  then show ?thesis using ts ok(3) by blast
qed


text \<open>The controller of \<open>Motor_Simulation\<close> next to the simulated flash.\<close>

definition node_store_ops :: "(motor_state \<times> unit world) store_ops" where
  "node_store_ops = os_ops.extend
    \<lparr>os_semaphore_create = (\<lambda>h. (Some 1, h)), os_semaphore_delete = (\<lambda>_ h. h),
     os_semaphore_give = (\<lambda>_ h. h), os_task_create = (\<lambda>h. (Some 2, h)), os_task_delete = (\<lambda>_ h. h),
     os_task_notify = (\<lambda>_ _ h. h), os_current_task = (\<lambda>_. 0), os_stack_bytes = (\<lambda>_ _. 1024),
     os_ms_to_ticks = (\<lambda>ms. ms div 10), os_tick_count = (\<lambda>h. (0, h)), os_timer_us = (\<lambda>h. (5000000, h)),
     os_nvs_open = (\<lambda>ns b (m, w). apsnd (Pair m) (os_nvs_open sim_os ns b w)),
     os_nvs_close = (\<lambda>x (m, w). (m, os_nvs_close sim_os x w)),
     os_nvs_get_blob = (\<lambda>x key n (m, w). apsnd (Pair m) (os_nvs_get_blob sim_os x key n w)),
     os_nvs_set_blob = (\<lambda>x key bytes (m, w). apsnd (Pair m) (os_nvs_set_blob sim_os x key bytes w)),
     os_nvs_get_u8 = (\<lambda>_ _ h. ((ESP_ERR_NVS_NOT_FOUND, 0), h)), os_nvs_set_u8 = (\<lambda>_ _ _ h. (ESP_OK, h)),
     os_nvs_commit = (\<lambda>x (m, w). apsnd (Pair m) (os_nvs_commit sim_os x w))\<rparr>
   (store_ops.fields True 1500 (\<lambda>_ _ s h. (True, s, h)) (\<lambda>_ s h. (None, s, h)) (\<lambda>s h. (s, h)))"

definition node_store :: "(motor_state \<times> unit world) fan_store" where
  "node_store = fan_store_boot\<lparr>fst_initialized := True, fst_config := app_fan_state_config sim_config\<rparr>"

lemma node_store_facts: "RESTORE_FAN_STATE node_store_ops" "fst_initialized node_store"
  "fst_config node_store = app_fan_state_config sim_config" "store_config_ok sim_config"
  by (simp_all add: node_store_ops_def node_store_def os_ops.extend_def store_ops.fields_def
      store_config_ok_def sim_config_def)

lemma node_store_apart: "nvs_apart (os_ops.truncate node_store_ops) sim_os"
  by (simp add: nvs_apart_def node_store_ops_def os_ops.extend_def os_ops.truncate_def store_ops.fields_def)

lemma sim_os_durable: "nvs_durable sim_os ns key"
  by (auto simp: nvs_durable_def sim_os_def sim_set_blob_def sim_get_blob_def)

lemma node_snapshot: "fan_state_snapshot_targets (Some sim_config) 2 sim_running = Some [50, 0]"
  "mc_manual_target_pct (motor sim_running 0) = 50" "restore_allowed (replicate 4 0) sim_ready"
  by code_simp+

lemma node_save: "fst (save_now node_store_ops node_store (sim_running, (\<lambda>_. None, ()))) = ESP_OK"
proof -
  have "nat (fan_count sim_config) = 2" by (simp add: sim_config_def)
  then show ?thesis
    by (simp add: save_now_def node_store_def app_fan_state_config_def node_snapshot node_store_ops_def
        sim_os_def sim_set_blob_def os_ops.extend_def store_ops.fields_def Let_def)
qed


end
