(* ===== verification/Tach_Monitor.thy ===== *)
theory Tach_Monitor imports App_Config
begin

text \<open>
  \<open>main/tach_monitor.c\<close> with \<open>CONFIG_TACH_FEEDBACK_ENABLED\<close>, and the stubs of the build without
  it: pulse counting, the speed of each fan, and the alarms. The static variables are the fields
  of \<open>tach_monitor\<close>. The pulse counter driver, FreeRTOS and the timer are \<open>tach_ops\<close>; its field
  \<open>tm_preempt\<close> stands where the sampling task is about to enter its critical section, and acts on
  the module's state for the tasks that ran before it got there.
\<close>

section \<open>Data\<close>

definition INT_MAX :: int where "INT_MAX = 2147483647"
definition INT16_MAX :: int where "INT16_MAX = 32767"
definition TACH_COUNTER_RESET_THRESHOLD :: int where "TACH_COUNTER_RESET_THRESHOLD = INT_MAX div 2"

text \<open>The options of the build.\<close>

record tach_kconfig =
  CONFIG_TACH_SAMPLE_MS :: int
  CONFIG_TACH_PULSES_PER_REV :: u64
  CONFIG_TACH_STARTUP_GRACE_MS :: int
  CONFIG_TACH_STALL_RPM :: u32
  CONFIG_TACH_STALL_DEBOUNCE_MS :: int
  CONFIG_TACH_GLITCH_FILTER_NS :: int
  CONFIG_TACH_STALL_STOP_ALL :: bool
  CONFIG_TACH_STALL_STOP_FAN :: bool
  CONFIG_TACH_INTERNAL_PULLUP :: bool

definition TACH_INVALID_TIMEOUT_US :: "tach_kconfig \<Rightarrow> int" where
  "TACH_INVALID_TIMEOUT_US tk = CONFIG_TACH_SAMPLE_MS tk * 3 * 1000"

record tach_monitor_motor_snapshot =
  tms_applied_pct :: u8
  tms_nonzero_applied_since_us :: int

datatype tach_monitor_stall_action =
  TACH_MONITOR_STALL_ALARM_ONLY | TACH_MONITOR_STALL_STOP_FAN | TACH_MONITOR_STALL_STOP_ALL

datatype tach_monitor_fault_cause =
  TACH_MONITOR_FAULT_NONE | TACH_MONITOR_FAULT_STALL | TACH_MONITOR_FAULT_SENSOR_INVALID

record tach_monitor_stall_event =
  tse_local_fan :: int
  tse_fan_number :: int
  tse_measured_rpm :: u32
  tse_stall_count :: u32
  tse_fault_generation :: u32
  tse_action :: tach_monitor_stall_action
  tse_cause :: tach_monitor_fault_cause

record 'h tach_monitor_config =
  tmc_app_config :: "app_config option"
  tmc_read_motor_snapshot :: "(int \<Rightarrow> 'h \<Rightarrow> tach_monitor_motor_snapshot option \<times> 'h) option"
  tmc_confirmed_stall :: "(tach_monitor_stall_event \<Rightarrow> 'h \<Rightarrow> 'h) option"

record tach_monitor_snapshot =
  tsn_measurement_valid :: bool
  tsn_measured_rpm :: u32
  tsn_stall_alarm :: bool
  tsn_stall_latched :: bool
  tsn_stall_count :: u32
  tsn_fault_generation :: u32
  tsn_stall_since_us :: int
  tsn_invalid_since_us :: int
  tsn_sampled_at_us :: int
  tsn_fault_cause :: tach_monitor_fault_cause

record tach_fan_state =
  tf_unit :: "nat option"
  tf_channel :: "nat option"
  tf_unit_enabled :: bool
  tf_unit_started :: bool
  tf_previous_pulse_count :: int
  tf_pulse_baseline_valid :: bool
  tf_measured_rpm :: u32
  tf_measurement_valid :: bool
  tf_stall_alarm :: bool
  tf_stall_latched :: bool
  tf_stall_count :: u32
  tf_fault_generation :: u32
  tf_stall_since_us :: int
  tf_invalid_since_us :: int
  tf_sampled_at_us :: int
  tf_fault_cause :: tach_monitor_fault_cause

definition tach_fan_zero :: tach_fan_state where
  "tach_fan_zero = \<lparr>tf_unit = None, tf_channel = None, tf_unit_enabled = False, tf_unit_started = False,
     tf_previous_pulse_count = 0, tf_pulse_baseline_valid = False, tf_measured_rpm = 0, tf_measurement_valid = False,
     tf_stall_alarm = False, tf_stall_latched = False, tf_stall_count = 0, tf_fault_generation = 0,
     tf_stall_since_us = 0, tf_invalid_since_us = 0, tf_sampled_at_us = 0, tf_fault_cause = TACH_MONITOR_FAULT_NONE\<rparr>"

text \<open>The configuration's three pointers are stored one by one; they are kept together here.\<close>

record 'h tach_monitor =
  tm_fans :: "tach_fan_state list"
  tm_config :: "'h tach_monitor_config"
  tm_task :: "nat option"
  tm_init_started :: bool
  tm_initialized :: bool
  tm_start_started :: bool
  tm_heartbeat_us :: int

definition tach_config_null :: "'h tach_monitor_config" where
  "tach_config_null = \<lparr>tmc_app_config = None, tmc_read_motor_snapshot = None, tmc_confirmed_stall = None\<rparr>"

definition tach_monitor_boot :: "'h tach_monitor" where
  "tach_monitor_boot = \<lparr>tm_fans = replicate APP_CONFIG_MAX_FANS tach_fan_zero, tm_config = tach_config_null,
     tm_task = None, tm_init_started = False, tm_initialized = False, tm_start_started = False, tm_heartbeat_us = 0\<rparr>"

record 'h tach_ops =
  gpio_set_pull_mode :: "int \<Rightarrow> bool \<Rightarrow> 'h \<Rightarrow> esp_err \<times> 'h"
  pcnt_new_unit :: "int \<Rightarrow> int \<Rightarrow> 'h \<Rightarrow> (esp_err \<times> nat option) \<times> 'h"
  pcnt_unit_set_glitch_filter :: "nat option \<Rightarrow> int \<Rightarrow> 'h \<Rightarrow> esp_err \<times> 'h"
  pcnt_new_channel :: "nat option \<Rightarrow> int \<Rightarrow> 'h \<Rightarrow> (esp_err \<times> nat option) \<times> 'h"
  pcnt_channel_count_rising :: "nat option \<Rightarrow> 'h \<Rightarrow> esp_err \<times> 'h"
  pcnt_unit_add_watch_point :: "nat option \<Rightarrow> int \<Rightarrow> 'h \<Rightarrow> esp_err \<times> 'h"
  pcnt_unit_enable :: "nat option \<Rightarrow> 'h \<Rightarrow> esp_err \<times> 'h"
  pcnt_unit_disable :: "nat option \<Rightarrow> 'h \<Rightarrow> esp_err \<times> 'h"
  pcnt_unit_start :: "nat option \<Rightarrow> 'h \<Rightarrow> esp_err \<times> 'h"
  pcnt_unit_stop :: "nat option \<Rightarrow> 'h \<Rightarrow> esp_err \<times> 'h"
  pcnt_unit_clear_count :: "nat option \<Rightarrow> 'h \<Rightarrow> esp_err \<times> 'h"
  pcnt_unit_get_count :: "nat option \<Rightarrow> 'h \<Rightarrow> (esp_err \<times> int) \<times> 'h"
  pcnt_del_channel :: "nat option \<Rightarrow> 'h \<Rightarrow> esp_err \<times> 'h"
  pcnt_del_unit :: "nat option \<Rightarrow> 'h \<Rightarrow> esp_err \<times> 'h"
  tm_timer_us :: "'h \<Rightarrow> int \<times> 'h"
  tm_task_create :: "'h \<Rightarrow> nat option \<times> 'h"
  tm_stack_bytes :: "nat \<Rightarrow> 'h \<Rightarrow> u32"
  tm_delay :: "'h tach_monitor \<Rightarrow> 'h \<Rightarrow> 'h tach_monitor \<times> 'h"
  tm_preempt :: "'h tach_monitor \<Rightarrow> 'h \<Rightarrow> 'h tach_monitor \<times> 'h"

definition tach_fan :: "'h tach_monitor \<Rightarrow> nat \<Rightarrow> tach_fan_state" where
  "tach_fan s i = tm_fans s ! i"

definition upd_tach :: "nat \<Rightarrow> (tach_fan_state \<Rightarrow> tach_fan_state) \<Rightarrow> 'h tach_monitor \<Rightarrow> 'h tach_monitor" where
  "upd_tach i f s = s\<lparr>tm_fans := (tm_fans s)[i := f (tm_fans s ! i)]\<rparr>"

definition tach_fan_count :: "'h tach_monitor \<Rightarrow> nat" where
  "tach_fan_count s = nat (fan_count (the (tmc_app_config (tm_config s))))"

section \<open>Small helpers of the source\<close>

definition configured_stall_action :: "tach_kconfig \<Rightarrow> tach_monitor_stall_action" where
  "configured_stall_action tk =
     (if CONFIG_TACH_STALL_STOP_ALL tk then TACH_MONITOR_STALL_STOP_ALL
      else if CONFIG_TACH_STALL_STOP_FAN tk then TACH_MONITOR_STALL_STOP_FAN else TACH_MONITOR_STALL_ALARM_ONLY)"

definition advance_fault_generation_locked :: "tach_fan_state \<Rightarrow> tach_fan_state" where
  "advance_fault_generation_locked fan =
     (let g = tf_fault_generation fan + 1 in fan\<lparr>tf_fault_generation := (if g = 0 then 1 else g)\<rparr>)"

definition latch_configured_stall_action_locked :: "tach_kconfig \<Rightarrow> nat \<Rightarrow> 'h tach_monitor \<Rightarrow> 'h tach_monitor" where
  "latch_configured_stall_action_locked tk i s =
     (if CONFIG_TACH_STALL_STOP_ALL tk
      then fold (\<lambda>j. upd_tach j (\<lambda>f. f\<lparr>tf_stall_latched := True\<rparr>)) [0..<tach_fan_count s] s
      else if CONFIG_TACH_STALL_STOP_FAN tk then upd_tach i (\<lambda>f. f\<lparr>tf_stall_latched := True\<rparr>) s else s)"

section \<open>Releasing the pulse counters\<close>

text \<open>One of the four releases: it runs if it is owed, and what it released is cleared on success.\<close>

definition release_one :: "bool \<Rightarrow> ('h \<Rightarrow> esp_err \<times> 'h) \<Rightarrow> (tach_fan_state \<Rightarrow> tach_fan_state) \<Rightarrow>
    esp_err \<times> tach_fan_state \<times> 'h \<Rightarrow> esp_err \<times> tach_fan_state \<times> 'h" where
  "release_one owed call clear = (\<lambda>(first_error, fan, h).
     if owed
     then (case call h of (err, h') \<Rightarrow> (if err \<noteq> ESP_OK \<and> first_error = ESP_OK then err else first_error,
                                       if err = ESP_OK then clear fan else fan, h'))
     else (first_error, fan, h))"

definition release_fan :: "'h tach_ops \<Rightarrow> esp_err \<times> tach_fan_state \<times> 'h \<Rightarrow> esp_err \<times> tach_fan_state \<times> 'h" where
  "release_fan ops x0 =
     (let fan = fst (snd x0);
          x1 = release_one (tf_unit_started fan) (pcnt_unit_stop ops (tf_unit fan)) (\<lambda>f. f\<lparr>tf_unit_started := False\<rparr>) x0;
          x2 = release_one (tf_unit_enabled fan) (pcnt_unit_disable ops (tf_unit fan)) (\<lambda>f. f\<lparr>tf_unit_enabled := False\<rparr>) x1;
          x3 = release_one (tf_channel fan \<noteq> None) (pcnt_del_channel ops (tf_channel fan)) (\<lambda>f. f\<lparr>tf_channel := None\<rparr>) x2
      in release_one (tf_unit fan \<noteq> None) (pcnt_del_unit ops (tf_unit fan)) (\<lambda>f. f\<lparr>tf_unit := None\<rparr>) x3)"

fun release_pcnt_loop :: "'h tach_ops \<Rightarrow> nat list \<Rightarrow> esp_err \<Rightarrow> 'h tach_monitor \<Rightarrow> 'h \<Rightarrow> esp_err \<times> 'h tach_monitor \<times> 'h" where
  "release_pcnt_loop ops [] e s h = (e, s, h)"
| "release_pcnt_loop ops (i # is) e s h =
     (case release_fan ops (e, tach_fan s i, h) of (e', fan, h') \<Rightarrow> release_pcnt_loop ops is e' (upd_tach i (\<lambda>_. fan) s) h')"

definition release_pcnt_resources :: "'h tach_ops \<Rightarrow> 'h tach_monitor \<Rightarrow> 'h \<Rightarrow> esp_err \<times> 'h tach_monitor \<times> 'h" where
  "release_pcnt_resources ops s h = release_pcnt_loop ops (rev [0..<APP_CONFIG_MAX_FANS]) ESP_OK s h"

definition fail_initialization :: "'h tach_ops \<Rightarrow> esp_err \<Rightarrow> 'h tach_monitor \<Rightarrow> 'h \<Rightarrow> esp_err \<times> 'h tach_monitor \<times> 'h" where
  "fail_initialization ops cause s h =
     (case release_pcnt_resources ops s h of (cleanup_error, s1, h1) \<Rightarrow>
        (if cause \<noteq> ESP_OK then cause else cleanup_error,
         if cleanup_error = ESP_OK
         then s1\<lparr>tm_fans := replicate APP_CONFIG_MAX_FANS tach_fan_zero, tm_config := tach_config_null,
                tm_init_started := False\<rparr>
         else s1, h1))"

section \<open>Sampling\<close>

text \<open>The pulses since the last sample, when they are known.\<close>

definition read_restart :: "'h tach_ops \<Rightarrow> tach_fan_state \<Rightarrow> 'h \<Rightarrow> (esp_err \<times> u64) \<times> tach_fan_state \<times> 'h" where
  "read_restart ops fan h =
     (let fan0 = fan\<lparr>tf_pulse_baseline_valid := False\<rparr>
      in case pcnt_unit_clear_count ops (tf_unit fan) h of (clear_err, h1) \<Rightarrow>
         if clear_err \<noteq> ESP_OK then ((clear_err, 0), fan0, h1)
         else let fan1 = fan0\<lparr>tf_previous_pulse_count := 0\<rparr>
         in case pcnt_unit_start ops (tf_unit fan) h1 of (start_err, h2) \<Rightarrow>
            if start_err \<noteq> ESP_OK then ((start_err, 0), fan1, h2)
            else ((ESP_ERR_INVALID_STATE, 0), fan1\<lparr>tf_unit_started := True, tf_pulse_baseline_valid := False\<rparr>, h2))"

definition read_running :: "'h tach_ops \<Rightarrow> tach_fan_state \<Rightarrow> 'h \<Rightarrow> (esp_err \<times> u64) \<times> tach_fan_state \<times> 'h" where
  "read_running ops fan h =
     (case pcnt_unit_get_count ops (tf_unit fan) h of ((count_err, cumulative_pulses), h1) \<Rightarrow>
        let delta_valid = (count_err = ESP_OK \<and> tf_previous_pulse_count fan \<le> cumulative_pulses);
            pulse_delta = (if delta_valid then of_int (cumulative_pulses - tf_previous_pulse_count fan) else 0)
        in if count_err \<noteq> ESP_OK then ((count_err, 0), fan\<lparr>tf_pulse_baseline_valid := False\<rparr>, h1)
           else (if \<not> tf_pulse_baseline_valid fan \<or> \<not> delta_valid then (ESP_ERR_INVALID_STATE, 0) else (ESP_OK, pulse_delta),
                 fan\<lparr>tf_previous_pulse_count := cumulative_pulses, tf_pulse_baseline_valid := (0 \<le> cumulative_pulses)\<rparr>, h1))"

definition read_and_reset :: "'h tach_ops \<Rightarrow> tach_fan_state \<Rightarrow> 'h \<Rightarrow> (esp_err \<times> u64) \<times> tach_fan_state \<times> 'h" where
  "read_and_reset ops fan h =
     (case pcnt_unit_stop ops (tf_unit fan) h of (stop_err, h1) \<Rightarrow>
        if stop_err \<noteq> ESP_OK then ((stop_err, 0), fan\<lparr>tf_pulse_baseline_valid := False\<rparr>, h1)
        else case pcnt_unit_get_count ops (tf_unit fan) h1 of ((count_err, cumulative_pulses), h2) \<Rightarrow>
          let baseline_valid = tf_pulse_baseline_valid fan;
              delta_valid = (count_err = ESP_OK \<and> tf_previous_pulse_count fan \<le> cumulative_pulses);
              pulse_delta = (if delta_valid then of_int (cumulative_pulses - tf_previous_pulse_count fan) else 0)
          in case pcnt_unit_clear_count ops (tf_unit fan) h2 of (clear_err, h3) \<Rightarrow>
            case pcnt_unit_start ops (tf_unit fan) h3 of (start_err, h4) \<Rightarrow>
              let fan' = fan\<lparr>tf_unit_started := (start_err = ESP_OK),
                    tf_previous_pulse_count := (if clear_err = ESP_OK then 0
                       else if count_err = ESP_OK then cumulative_pulses else tf_previous_pulse_count fan),
                    tf_pulse_baseline_valid := (count_err = ESP_OK \<and> delta_valid \<and> clear_err = ESP_OK \<and> start_err = ESP_OK)\<rparr>
              in (if count_err \<noteq> ESP_OK then (count_err, 0)
                  else if \<not> baseline_valid \<or> \<not> delta_valid then (ESP_ERR_INVALID_STATE, 0)
                  else if clear_err \<noteq> ESP_OK then (clear_err, 0)
                  else if start_err \<noteq> ESP_OK then (start_err, 0)
                  else (ESP_OK, pulse_delta), fan', h4))"

definition read_pulse_delta :: "'h tach_ops \<Rightarrow> tach_fan_state \<Rightarrow> 'h \<Rightarrow> (esp_err \<times> u64) \<times> tach_fan_state \<times> 'h" where
  "read_pulse_delta ops fan h =
     (if \<not> tf_unit_started fan then read_restart ops fan h
      else if TACH_COUNTER_RESET_THRESHOLD \<le> tf_previous_pulse_count fan then read_and_reset ops fan h
      else read_running ops fan h)"

definition rpm_of :: "tach_kconfig \<Rightarrow> u64 \<Rightarrow> int \<Rightarrow> u32" where
  "rpm_of tk pulses elapsed_us =
     (let numerator = pulses * 60000000;
          denominator = of_int elapsed_us * CONFIG_TACH_PULSES_PER_REV tk;
          calculated = (if denominator \<noteq> 0 then numerator div denominator else 0)
      in if ucast (UINT32_MAX) < calculated then UINT32_MAX else ucast calculated)"

definition startup_grace_elapsed :: "tach_kconfig \<Rightarrow> int \<Rightarrow> tach_monitor_motor_snapshot option \<Rightarrow> bool" where
  "startup_grace_elapsed tk now snapshot =
     (case snapshot of None \<Rightarrow> False
      | Some m \<Rightarrow> 0 < tms_applied_pct m \<and> 0 < tms_nonzero_applied_since_us m \<and>
          CONFIG_TACH_STARTUP_GRACE_MS tk * 1000 \<le> now - tms_nonzero_applied_since_us m)"

text \<open>A new fault of fan \<open>i\<close>, inside the critical section; its count, generation and cause.\<close>

definition raise_fault :: "tach_kconfig \<Rightarrow> nat \<Rightarrow> tach_monitor_fault_cause \<Rightarrow> 'h tach_monitor \<Rightarrow>
    (u32 \<times> u32 \<times> tach_monitor_fault_cause) \<times> 'h tach_monitor" where
  "raise_fault tk i cause s =
     (let s1 = upd_tach i (\<lambda>f. advance_fault_generation_locked
                 (f\<lparr>tf_stall_alarm := True, tf_fault_cause := cause,
                    tf_stall_count := (if tf_stall_count f < UINT32_MAX then tf_stall_count f + 1 else tf_stall_count f)\<rparr>)) s
      in ((tf_stall_count (tach_fan s1 i), tf_fault_generation (tach_fan s1 i), cause),
          latch_configured_stall_action_locked tk i s1))"

definition sample_section :: "tach_kconfig \<Rightarrow> nat \<Rightarrow> int \<Rightarrow> bool \<Rightarrow> u32 \<Rightarrow> tach_monitor_motor_snapshot option \<Rightarrow>
    'h tach_monitor \<Rightarrow> (u32 \<times> u32 \<times> tach_monitor_fault_cause) option \<times> 'h tach_monitor" where
  "sample_section tk i now measurement_valid rpm snapshot s =
     (let grace = startup_grace_elapsed tk now snapshot;
          relevant_invalid_sample = (snapshot = None \<or> (grace \<and> \<not> measurement_valid));
          s1 = upd_tach i (\<lambda>f. f\<lparr>tf_measurement_valid := (measurement_valid \<and> snapshot \<noteq> None),
                 tf_measured_rpm := rpm, tf_sampled_at_us := now\<rparr>) s
      in if relevant_invalid_sample
         then let s2 = upd_tach i (\<lambda>f. f\<lparr>tf_invalid_since_us := (if tf_invalid_since_us f = 0 then now else tf_invalid_since_us f)\<rparr>) s1
              in if \<not> tf_stall_alarm (tach_fan s2 i) \<and> TACH_INVALID_TIMEOUT_US tk \<le> now - tf_invalid_since_us (tach_fan s2 i)
                 then apfst Some (raise_fault tk i TACH_MONITOR_FAULT_SENSOR_INVALID s2) else (None, s2)
         else if measurement_valid \<and> grace \<and> rpm < CONFIG_TACH_STALL_RPM tk
         then let s2 = upd_tach i (\<lambda>f. f\<lparr>tf_invalid_since_us := 0,
                         tf_stall_since_us := (if tf_stall_since_us f = 0 then now else tf_stall_since_us f)\<rparr>) s1
              in if \<not> tf_stall_alarm (tach_fan s2 i) \<and>
                    CONFIG_TACH_STALL_DEBOUNCE_MS tk * 1000 \<le> now - tf_stall_since_us (tach_fan s2 i)
                 then apfst Some (raise_fault tk i TACH_MONITOR_FAULT_STALL s2) else (None, s2)
         else (None, upd_tach i (\<lambda>f. f\<lparr>tf_invalid_since_us := 0, tf_stall_since_us := 0,
                 tf_stall_alarm := (tf_stall_alarm f \<and> tf_stall_latched f),
                 tf_fault_cause := (if tf_stall_latched f then tf_fault_cause f else TACH_MONITOR_FAULT_NONE)\<rparr>) s1))"

definition sample_fan :: "tach_kconfig \<Rightarrow> 'h tach_ops \<Rightarrow> int \<Rightarrow> int \<Rightarrow> nat \<Rightarrow> 'h tach_monitor \<Rightarrow> 'h \<Rightarrow> 'h tach_monitor \<times> 'h" where
  "sample_fan tk ops now elapsed_us i s h =
     (case read_pulse_delta ops (tach_fan s i) h of ((err, pulses), fan, h1) \<Rightarrow>
        let s1 = upd_tach i (\<lambda>_. fan) s;
            measurement_valid = (err = ESP_OK);
            rpm = (if measurement_valid then rpm_of tk pulses elapsed_us else 0)
        in case the (tmc_read_motor_snapshot (tm_config s1)) (int i) h1 of (snapshot, h2) \<Rightarrow>
           case tm_preempt ops s1 h2 of (s2, h3) \<Rightarrow>
           case sample_section tk i now measurement_valid rpm snapshot s2 of
             (None, s3) \<Rightarrow> (s3, h3)
           | (Some (stall_count, fault_generation, cause), s3) \<Rightarrow>
               (s3, the (tmc_confirmed_stall (tm_config s3))
                  \<lparr>tse_local_fan = int i, tse_fan_number = fan_index_start (the (tmc_app_config (tm_config s3))) + int i,
                   tse_measured_rpm = rpm, tse_stall_count = stall_count, tse_fault_generation = fault_generation,
                   tse_action = configured_stall_action tk, tse_cause = cause\<rparr> h3))"

fun sample_fans :: "tach_kconfig \<Rightarrow> 'h tach_ops \<Rightarrow> int \<Rightarrow> int \<Rightarrow> nat list \<Rightarrow> 'h tach_monitor \<Rightarrow> 'h \<Rightarrow> 'h tach_monitor \<times> 'h" where
  "sample_fans tk ops now elapsed_us [] s h = (s, h)"
| "sample_fans tk ops now elapsed_us (i # is) s h =
     (case sample_fan tk ops now elapsed_us i s h of (s', h') \<Rightarrow> sample_fans tk ops now elapsed_us is s' h')"

text \<open>One iteration of the task's loop; \<open>previous_sample_us\<close> is its local variable.\<close>

definition tach_task_iteration :: "tach_kconfig \<Rightarrow> 'h tach_ops \<Rightarrow> int \<Rightarrow> 'h tach_monitor \<Rightarrow> 'h \<Rightarrow> int \<times> 'h tach_monitor \<times> 'h" where
  "tach_task_iteration tk ops previous_sample_us s h =
     (case tm_delay ops s h of (s1, h1) \<Rightarrow> case tm_timer_us ops h1 of (now, h2) \<Rightarrow>
        if now - previous_sample_us \<le> 0 then (now, s1, h2)
        else case sample_fans tk ops now (now - previous_sample_us) [0..<tach_fan_count s1] s1 h2 of (s2, h3) \<Rightarrow>
          case tm_timer_us ops h3 of (t, h4) \<Rightarrow> (now, s2\<lparr>tm_heartbeat_us := t\<rparr>, h4))"

section \<open>The operations\<close>

text \<open>The steps that configure one fan's counter after its unit exists; the first error ends them.\<close>

definition bind_ok :: "('h \<Rightarrow> esp_err \<times> 'h) \<Rightarrow> esp_err \<times> 'h \<Rightarrow> esp_err \<times> 'h" where
  "bind_ok call x = (if fst x = ESP_OK then call (snd x) else x)"

definition configure_fan :: "tach_kconfig \<Rightarrow> 'h tach_ops \<Rightarrow> int \<Rightarrow> tach_fan_state \<Rightarrow> 'h \<Rightarrow> esp_err \<times> tach_fan_state \<times> 'h" where
  "configure_fan tk ops gpio fan h =
     (case gpio_set_pull_mode ops gpio (CONFIG_TACH_INTERNAL_PULLUP tk) h of (err, h1) \<Rightarrow>
        if err \<noteq> ESP_OK then (err, fan, h1)
        else case pcnt_new_unit ops (-1) INT16_MAX h1 of ((err, new_unit), h2) \<Rightarrow>
          let fan1 = (if err = ESP_OK then fan\<lparr>tf_unit := new_unit\<rparr> else fan); u = tf_unit fan1
          in if err \<noteq> ESP_OK then (err, fan1, h2)
             else case (if 0 < CONFIG_TACH_GLITCH_FILTER_NS tk
                        then pcnt_unit_set_glitch_filter ops u (CONFIG_TACH_GLITCH_FILTER_NS tk) h2 else (ESP_OK, h2)) of (err, h3) \<Rightarrow>
               if err \<noteq> ESP_OK then (err, fan1, h3)
               else case pcnt_new_channel ops u gpio h3 of ((err, new_channel), h4) \<Rightarrow>
                 let fan2 = (if err = ESP_OK then fan1\<lparr>tf_channel := new_channel\<rparr> else fan1);
                     (e1, h5) = bind_ok (pcnt_channel_count_rising ops (tf_channel fan2)) (err, h4);
                     (e2, h6) = bind_ok (pcnt_unit_add_watch_point ops u INT16_MAX) (e1, h5);
                     (e3, h7) = bind_ok (pcnt_unit_add_watch_point ops u (-1)) (e2, h6);
                     (e4, h8) = bind_ok (pcnt_unit_enable ops u) (e3, h7);
                     (e5, h9) = bind_ok (pcnt_unit_clear_count ops u) (e4, h8);
                     (e6, h10) = bind_ok (pcnt_unit_start ops u) (e5, h9)
                 in (e6, fan2\<lparr>tf_unit_enabled := (tf_unit_enabled fan2 \<or> e4 = ESP_OK),
                              tf_unit_started := (tf_unit_started fan2 \<or> e6 = ESP_OK)\<rparr>, h10))"

fun configure_fans :: "tach_kconfig \<Rightarrow> 'h tach_ops \<Rightarrow> app_config \<Rightarrow> nat list \<Rightarrow> 'h tach_monitor \<Rightarrow> 'h \<Rightarrow> esp_err \<times> 'h tach_monitor \<times> 'h" where
  "configure_fans tk ops app [] s h = (ESP_OK, s, h)"
| "configure_fans tk ops app (i # is) s h =
     (case configure_fan tk ops (tach_gpios app ! i) (tach_fan s i) h of (err, fan, h') \<Rightarrow>
        let s' = upd_tach i (\<lambda>_. fan) s
        in if err \<noteq> ESP_OK then fail_initialization ops err s' h' else configure_fans tk ops app is s' h')"

definition tach_monitor_init :: "tach_kconfig \<Rightarrow> 'h tach_ops \<Rightarrow> 'h tach_monitor_config option \<Rightarrow> 'h tach_monitor \<Rightarrow> 'h \<Rightarrow>
    esp_err \<times> 'h tach_monitor \<times> 'h" where
  "tach_monitor_init tk ops config s h =
     (case config of None \<Rightarrow> (ESP_ERR_INVALID_ARG, s, h)
      | Some c \<Rightarrow>
        if tmc_app_config c = None \<or> tmc_read_motor_snapshot c = None \<or> tmc_confirmed_stall c = None
        then (ESP_ERR_INVALID_ARG, s, h)
        else let app = the (tmc_app_config c)
        in if fan_count app < 1 \<or> int APP_CONFIG_MAX_FANS < fan_count app then (ESP_ERR_INVALID_ARG, s, h)
           else if tm_initialized s then (ESP_OK, s, h)
           else if tm_init_started s then (ESP_ERR_INVALID_STATE, s, h)
           else case configure_fans tk ops app [0..<nat (fan_count app)] (s\<lparr>tm_init_started := True, tm_config := c\<rparr>) h of
             (err, s1, h1) \<Rightarrow> if err \<noteq> ESP_OK then (err, s1, h1) else (ESP_OK, s1\<lparr>tm_initialized := True\<rparr>, h1))"

definition tach_monitor_start :: "'h tach_ops \<Rightarrow> 'h tach_monitor \<Rightarrow> 'h \<Rightarrow> esp_err \<times> 'h tach_monitor \<times> 'h" where
  "tach_monitor_start ops s h =
     (if \<not> tm_initialized s then (ESP_ERR_INVALID_STATE, s, h)
      else if tm_task s \<noteq> None then (ESP_OK, s, h)
      else if tm_start_started s then (ESP_ERR_INVALID_STATE, s, h)
      else let s1 = s\<lparr>tm_start_started := True\<rparr>
      in case tm_task_create ops h of
           (None, h1) \<Rightarrow> (ESP_ERR_NO_MEM, s1\<lparr>tm_start_started := False\<rparr>, h1)
         | (Some task, h1) \<Rightarrow> (ESP_OK, s1\<lparr>tm_task := Some task\<rparr>, h1))"

definition tach_fan_valid :: "int \<Rightarrow> 'h tach_monitor \<Rightarrow> bool" where
  "tach_fan_valid local_fan s \<longleftrightarrow> tm_initialized s \<and> 0 \<le> local_fan \<and>
     local_fan < fan_count (the (tmc_app_config (tm_config s)))"

definition tach_monitor_clear_alarm :: "int \<Rightarrow> 'h tach_monitor \<Rightarrow> esp_err \<times> 'h tach_monitor" where
  "tach_monitor_clear_alarm local_fan s =
     (if \<not> tach_fan_valid local_fan s then (ESP_ERR_INVALID_ARG, s)
      else (ESP_OK, upd_tach (nat local_fan) (\<lambda>f. advance_fault_generation_locked
              (f\<lparr>tf_stall_alarm := False, tf_stall_latched := False, tf_stall_since_us := 0, tf_invalid_since_us := 0,
                 tf_fault_cause := TACH_MONITOR_FAULT_NONE\<rparr>)) s))"

definition tach_monitor_get_snapshot :: "int \<Rightarrow> 'h tach_monitor \<Rightarrow> esp_err \<times> tach_monitor_snapshot option" where
  "tach_monitor_get_snapshot local_fan s =
     (if \<not> tach_fan_valid local_fan s then (ESP_ERR_INVALID_ARG, None)
      else let fan = tach_fan s (nat local_fan)
      in (ESP_OK, Some \<lparr>tsn_measurement_valid = tf_measurement_valid fan, tsn_measured_rpm = tf_measured_rpm fan,
            tsn_stall_alarm = tf_stall_alarm fan, tsn_stall_latched = tf_stall_latched fan, tsn_stall_count = tf_stall_count fan,
            tsn_fault_generation = tf_fault_generation fan, tsn_stall_since_us = tf_stall_since_us fan,
            tsn_invalid_since_us = tf_invalid_since_us fan, tsn_sampled_at_us = tf_sampled_at_us fan,
            tsn_fault_cause = tf_fault_cause fan\<rparr>))"

definition tach_monitor_get_heartbeat_us :: "'h tach_monitor \<Rightarrow> int" where
  "tach_monitor_get_heartbeat_us s = tm_heartbeat_us s"

definition tach_monitor_get_stack_high_water_mark :: "'h tach_ops \<Rightarrow> 'h tach_monitor \<Rightarrow> 'h \<Rightarrow> u32" where
  "tach_monitor_get_stack_high_water_mark ops s h = (case tm_task s of None \<Rightarrow> 0 | Some t \<Rightarrow> tm_stack_bytes ops t h)"

section \<open>The build without feedback\<close>

definition tach_monitor_init_stub :: esp_err where "tach_monitor_init_stub = ESP_OK"
definition tach_monitor_start_stub :: esp_err where "tach_monitor_start_stub = ESP_OK"
definition tach_monitor_clear_alarm_stub :: esp_err where "tach_monitor_clear_alarm_stub = ESP_ERR_NOT_SUPPORTED"
definition tach_monitor_get_snapshot_stub :: "esp_err \<times> tach_monitor_snapshot option" where
  "tach_monitor_get_snapshot_stub = (ESP_ERR_NOT_SUPPORTED, Some
     \<lparr>tsn_measurement_valid = False, tsn_measured_rpm = 0, tsn_stall_alarm = False, tsn_stall_latched = False,
      tsn_stall_count = 0, tsn_fault_generation = 0, tsn_stall_since_us = 0, tsn_invalid_since_us = 0,
      tsn_sampled_at_us = 0, tsn_fault_cause = TACH_MONITOR_FAULT_NONE\<rparr>)"
definition tach_monitor_get_heartbeat_us_stub :: int where "tach_monitor_get_heartbeat_us_stub = 0"
definition tach_monitor_get_stack_high_water_mark_stub :: u32 where "tach_monitor_get_stack_high_water_mark_stub = 0"

end
