(* ===== verification/Tach_Properties.thy ===== *)
theory Tach_Properties imports Tach_Monitor
begin

text \<open>
  The properties of the tachometer monitor: an alarm is raised exactly when the history of a fan
  demands it, pulses are counted exactly across counter resets, the speed computed from them does
  not wrap, and initialisation is a transaction.
\<close>

section \<open>Selectors\<close>

lemma tach_fan_upd: "i < length (tm_fans s) \<Longrightarrow> tach_fan (upd_tach i f s) j = (if j = i then f (tach_fan s i) else tach_fan s j)"
  by (simp add: tach_fan_def upd_tach_def nth_list_update)

lemma upd_tach_simps [simp]: "length (tm_fans (upd_tach i f s)) = length (tm_fans s)" "tm_config (upd_tach i f s) = tm_config s"
  "tach_fan_count (upd_tach i f s) = tach_fan_count s" "tm_initialized (upd_tach i f s) = tm_initialized s"
  "tm_init_started (upd_tach i f s) = tm_init_started s"
  by (simp_all add: upd_tach_def tach_fan_count_def)

lemma advance_simps [simp]: "tf_stall_alarm (advance_fault_generation_locked f) = tf_stall_alarm f"
  "tf_stall_since_us (advance_fault_generation_locked f) = tf_stall_since_us f"
  "tf_invalid_since_us (advance_fault_generation_locked f) = tf_invalid_since_us f"
  by (simp_all add: advance_fault_generation_locked_def Let_def)

definition same_since :: "tach_fan_state \<Rightarrow> tach_fan_state \<Rightarrow> bool" where
  "same_since f g \<longleftrightarrow> tf_stall_since_us f = tf_stall_since_us g \<and> tf_invalid_since_us f = tf_invalid_since_us g"

lemma same_since_refl [simp]: "same_since f f"
  by (simp add: same_since_def)

lemma same_since_upd:
  assumes "\<And>f. same_since (F f) f"
  shows "same_since (tach_fan (upd_tach i F s) k) (tach_fan s k)"
proof (cases "i < length (tm_fans s)")
  case True
  then show ?thesis using assms by (simp add: tach_fan_upd)
next
  case False
  then show ?thesis by (simp add: tach_fan_def upd_tach_def list_update_beyond)
qed

lemma latch_one: "same_since (tach_fan (upd_tach i (\<lambda>f. f\<lparr>tf_stall_latched := True\<rparr>) s) k) (tach_fan s k)"
  by (rule same_since_upd) (simp add: same_since_def)

lemma latch_fold:
  "length (tm_fans (fold (\<lambda>j. upd_tach j (\<lambda>f. f\<lparr>tf_stall_latched := True\<rparr>)) js s)) = length (tm_fans s) \<and>
   same_since (tach_fan (fold (\<lambda>j. upd_tach j (\<lambda>f. f\<lparr>tf_stall_latched := True\<rparr>)) js s) k) (tach_fan s k)"
proof (induction js arbitrary: s)
  case (Cons j js)
  show ?case using Cons.IH [of "upd_tach j (\<lambda>f. f\<lparr>tf_stall_latched := True\<rparr>) s"] latch_one [of j s k]
    by (simp add: same_since_def)
qed simp

lemma latch_since:
  "length (tm_fans (latch_configured_stall_action_locked tk i s)) = length (tm_fans s)"
  "same_since (tach_fan (latch_configured_stall_action_locked tk i s) k) (tach_fan s k)"
  using latch_fold [of "[0..<tach_fan_count s]" s k] latch_one [of i s k]
  by (simp_all add: latch_configured_stall_action_locked_def)

section \<open>When an alarm is due\<close>

text \<open>A fan's history: its samples by what they say, and the operator's clears.\<close>

datatype tach_obs =
    Obs_Sample nat int bool u32 "tach_monitor_motor_snapshot option"
  | Obs_Clear nat

fun observe :: "tach_kconfig \<Rightarrow> tach_obs \<Rightarrow> 'h tach_monitor \<Rightarrow> 'h tach_monitor" where
  "observe tk (Obs_Sample i now mv rpm snapshot) s = snd (sample_section tk i now mv rpm snapshot s)"
| "observe tk (Obs_Clear i) s = snd (tach_monitor_clear_alarm (int i) s)"

fun obs_in :: "nat \<Rightarrow> tach_obs \<Rightarrow> bool" where
  "obs_in n (Obs_Sample i _ _ _ _) = (i < n)" | "obs_in n (Obs_Clear _) = True"

fun obs_time :: "tach_obs \<Rightarrow> int list" where
  "obs_time (Obs_Sample _ now _ _ _) = [now]" | "obs_time (Obs_Clear _) = []"

datatype tach_mark = Mark_Invalid int | Mark_Low int | Mark_Reset

definition sample_mark :: "tach_kconfig \<Rightarrow> int \<Rightarrow> bool \<Rightarrow> u32 \<Rightarrow> tach_monitor_motor_snapshot option \<Rightarrow> tach_mark" where
  "sample_mark tk now mv rpm snapshot =
     (if snapshot = None \<or> (startup_grace_elapsed tk now snapshot \<and> \<not> mv) then Mark_Invalid now
      else if mv \<and> startup_grace_elapsed tk now snapshot \<and> rpm < CONFIG_TACH_STALL_RPM tk then Mark_Low now else Mark_Reset)"

fun marks :: "tach_kconfig \<Rightarrow> nat \<Rightarrow> tach_obs list \<Rightarrow> tach_mark list" where
  "marks tk i [] = []"
| "marks tk i (Obs_Sample j now mv rpm snapshot # os) =
     (if j = i then [sample_mark tk now mv rpm snapshot] else []) @ marks tk i os"
| "marks tk i (Obs_Clear j # os) = (if j = i then [Mark_Reset] else []) @ marks tk i os"

definition is_invalid :: "tach_mark \<Rightarrow> bool" where
  "is_invalid m \<longleftrightarrow> (\<exists>t. m = Mark_Invalid t)"

text \<open>Invalid feedback without a break for the timeout; or a low speed now, and one for the debounce
  time with no healthy sample in between.\<close>

definition invalid_due :: "tach_kconfig \<Rightarrow> int \<Rightarrow> tach_mark list \<Rightarrow> bool" where
  "invalid_due tk now hs \<longleftrightarrow> (\<exists>xs t ys. hs = xs @ Mark_Invalid t # ys \<and> (\<forall>m \<in> set ys. is_invalid m) \<and>
     TACH_INVALID_TIMEOUT_US tk \<le> now - t)"

definition stall_due :: "tach_kconfig \<Rightarrow> int \<Rightarrow> tach_mark list \<Rightarrow> bool" where
  "stall_due tk now hs \<longleftrightarrow> (\<exists>zs. hs = zs @ [Mark_Low now]) \<and>
     (\<exists>xs t ys. hs = xs @ Mark_Low t # ys \<and> Mark_Reset \<notin> set ys \<and> CONFIG_TACH_STALL_DEBOUNCE_MS tk * 1000 \<le> now - t)"

fun invalid_at :: "tach_mark \<Rightarrow> int option" where
  "invalid_at (Mark_Invalid t) = Some t" | "invalid_at _ = None"

fun low_at :: "tach_mark \<Rightarrow> int option" where
  "low_at (Mark_Low t) = Some t" | "low_at _ = None"

text \<open>A time stamp of the code is the time of the first starting mark since the last breaking one.\<close>

definition starts :: "(tach_mark \<Rightarrow> int option) \<Rightarrow> tach_mark list \<Rightarrow> int list" where
  "starts start hs = concat (map (\<lambda>m. case start m of None \<Rightarrow> [] | Some t \<Rightarrow> [t]) hs)"

definition run_step :: "(tach_mark \<Rightarrow> bool) \<Rightarrow> (tach_mark \<Rightarrow> int option) \<Rightarrow> tach_mark \<Rightarrow> int \<Rightarrow> int" where
  "run_step brk start m a = (if brk m then 0 else case start m of None \<Rightarrow> a | Some t \<Rightarrow> if a = 0 then t else a)"

definition since_run :: "(tach_mark \<Rightarrow> bool) \<Rightarrow> (tach_mark \<Rightarrow> int option) \<Rightarrow> tach_mark list \<Rightarrow> int" where
  "since_run brk start hs = fold (run_step brk start) hs 0"

definition run_from :: "(tach_mark \<Rightarrow> bool) \<Rightarrow> (tach_mark \<Rightarrow> int option) \<Rightarrow> tach_mark list \<Rightarrow> int \<Rightarrow> bool" where
  "run_from brk start hs t \<longleftrightarrow> (\<exists>xs m ys. hs = xs @ m # ys \<and> start m = Some t \<and> (\<forall>y \<in> set (m # ys). \<not> brk y))"

lemma since_run_snoc: "since_run brk start (hs @ [m]) = run_step brk start m (since_run brk start hs)"
  by (simp add: since_run_def)

lemma run_from_snoc:
  "run_from brk start (hs @ [m]) t \<longleftrightarrow> \<not> brk m \<and> (start m = Some t \<or> run_from brk start hs t)"
proof
  assume "run_from brk start (hs @ [m]) t"
  then obtain xs k ys where x: "hs @ [m] = xs @ k # ys" "start k = Some t" "\<forall>y \<in> set (k # ys). \<not> brk y"
    unfolding run_from_def by blast
  show "\<not> brk m \<and> (start m = Some t \<or> run_from brk start hs t)"
    using x by (cases ys rule: rev_cases) (auto simp: run_from_def)
next
  assume "\<not> brk m \<and> (start m = Some t \<or> run_from brk start hs t)"
  then show "run_from brk start (hs @ [m]) t"
  proof (elim conjE disjE)
    assume a: "\<not> brk m" "run_from brk start hs t"
    then obtain xs k ys where "hs = xs @ k # ys" "start k = Some t" "\<forall>y \<in> set (k # ys). \<not> brk y"
      unfolding run_from_def by blast
    then have "hs @ [m] = xs @ k # (ys @ [m]) \<and> start k = Some t \<and> (\<forall>y \<in> set (k # ys @ [m]). \<not> brk y)" using a by auto
    then show ?thesis unfolding run_from_def by blast
  next
    assume "\<not> brk m" "start m = Some t"
    then have "hs @ [m] = hs @ m # [] \<and> start m = Some t \<and> (\<forall>y \<in> set [m]. \<not> brk y)" by simp
    then show ?thesis unfolding run_from_def by blast
  qed
qed

lemma run_from_starts: "run_from brk start hs t \<Longrightarrow> t \<in> set (starts start hs)"
  by (fastforce simp: run_from_def starts_def)

lemma since_run:
  assumes "sorted (starts start hs)" and "\<forall>t \<in> set (starts start hs). 0 < t"
  shows "(since_run brk start hs \<noteq> 0 \<longrightarrow> run_from brk start hs (since_run brk start hs)) \<and>
    (\<forall>t. run_from brk start hs t \<longrightarrow> since_run brk start hs \<noteq> 0 \<and> since_run brk start hs \<le> t)"
  using assms
proof (induction hs rule: rev_induct)
  case Nil
  then show ?case by (simp add: since_run_def run_from_def)
next
  case (snoc m hs)
  have p: "sorted (starts start hs)" "\<forall>t \<in> set (starts start hs). 0 < t"
    using snoc.prems by (auto simp: starts_def sorted_append)
  have q: "0 < t \<and> (\<forall>u. run_from brk start hs u \<longrightarrow> u \<le> t)" if "start m = Some t" for t
    using snoc.prems that run_from_starts by (fastforce simp: starts_def sorted_append)
  show ?case using snoc.IH [OF p] q
    by (cases "start m") (auto simp: since_run_snoc run_step_def run_from_snoc)
qed

lemma run_due:
  assumes "sorted (starts start hs)" and "\<forall>t \<in> set (starts start hs). 0 < t"
  shows "(\<exists>t. run_from brk start hs t \<and> d \<le> now - t) \<longleftrightarrow>
    since_run brk start hs \<noteq> 0 \<and> d \<le> now - since_run brk start hs"
  using since_run [OF assms, of brk] by fastforce

section \<open>The code keeps the two time stamps\<close>

lemma latch_config: "tm_config (latch_configured_stall_action_locked tk i s) = tm_config s \<and>
    tm_initialized (latch_configured_stall_action_locked tk i s) = tm_initialized s"
proof -
  have "tm_config (fold (\<lambda>j. upd_tach j (\<lambda>f. f\<lparr>tf_stall_latched := True\<rparr>)) js s) = tm_config s \<and>
      tm_initialized (fold (\<lambda>j. upd_tach j (\<lambda>f. f\<lparr>tf_stall_latched := True\<rparr>)) js s) = tm_initialized s" for js
    by (induction js arbitrary: s) simp_all
  then show ?thesis by (simp add: latch_configured_stall_action_locked_def)
qed

lemma raise_since:
  "same_since (tach_fan (snd (raise_fault tk i c s)) k) (tach_fan s k) \<and>
   length (tm_fans (snd (raise_fault tk i c s))) = length (tm_fans s) \<and>
   tm_config (snd (raise_fault tk i c s)) = tm_config s \<and> tm_initialized (snd (raise_fault tk i c s)) = tm_initialized s"
proof -
  let ?f = "\<lambda>f. advance_fault_generation_locked (f\<lparr>tf_stall_alarm := True, tf_fault_cause := c,
      tf_stall_count := (if tf_stall_count f < UINT32_MAX then tf_stall_count f + 1 else tf_stall_count f)\<rparr>)"
  have "same_since (tach_fan (upd_tach i ?f s) k) (tach_fan s k)"
    by (rule same_since_upd) (simp add: same_since_def)
  then show ?thesis using latch_since(1) [of tk i "upd_tach i ?f s"] latch_since(2) [of tk i "upd_tach i ?f s" k]
      latch_config [of tk i "upd_tach i ?f s"]
    by (simp add: raise_fault_def Let_def same_since_def)
qed

definition no_feedback :: "tach_mark \<Rightarrow> bool" where "no_feedback m \<longleftrightarrow> \<not> is_invalid m"

lemma run_step_reset [simp]: "run_step no_feedback start Mark_Reset a = 0" "run_step (\<lambda>m. m = Mark_Reset) start Mark_Reset a = 0"
  by (simp_all add: run_step_def no_feedback_def is_invalid_def)

text \<open>A sample by its mark: the time stamps it writes, then perhaps a fault.\<close>

definition alarm_if :: "tach_kconfig \<Rightarrow> nat \<Rightarrow> tach_monitor_fault_cause \<Rightarrow> int \<Rightarrow> int \<Rightarrow> 'h tach_monitor \<Rightarrow>
    (u32 \<times> u32 \<times> tach_monitor_fault_cause) option \<times> 'h tach_monitor" where
  "alarm_if tk i cause limit age s =
     (if \<not> tf_stall_alarm (tach_fan s i) \<and> limit \<le> age then apfst Some (raise_fault tk i cause s) else (None, s))"

definition put_sample :: "int \<Rightarrow> bool \<Rightarrow> u32 \<Rightarrow> tach_fan_state \<Rightarrow> tach_fan_state" where
  "put_sample now valid rpm f = f\<lparr>tf_measurement_valid := valid, tf_measured_rpm := rpm, tf_sampled_at_us := now\<rparr>"

definition put_invalid :: "int \<Rightarrow> tach_fan_state \<Rightarrow> tach_fan_state" where
  "put_invalid now f = f\<lparr>tf_invalid_since_us := (if tf_invalid_since_us f = 0 then now else tf_invalid_since_us f)\<rparr>"

definition put_low :: "int \<Rightarrow> tach_fan_state \<Rightarrow> tach_fan_state" where
  "put_low now f = f\<lparr>tf_invalid_since_us := 0, tf_stall_since_us := (if tf_stall_since_us f = 0 then now else tf_stall_since_us f)\<rparr>"

definition put_fine :: "tach_fan_state \<Rightarrow> tach_fan_state" where
  "put_fine f = f\<lparr>tf_invalid_since_us := 0, tf_stall_since_us := 0, tf_stall_alarm := (tf_stall_alarm f \<and> tf_stall_latched f),
     tf_fault_cause := (if tf_stall_latched f then tf_fault_cause f else TACH_MONITOR_FAULT_NONE)\<rparr>"

lemmas put_defs = put_sample_def put_invalid_def put_low_def put_fine_def

lemma sample_by_mark:
  "sample_section tk i now mv rpm snapshot s =
     (let s1 = upd_tach i (put_sample now (mv \<and> snapshot \<noteq> None) rpm) s
      in case sample_mark tk now mv rpm snapshot of
           Mark_Invalid _ \<Rightarrow> let s2 = upd_tach i (put_invalid now) s1
             in alarm_if tk i TACH_MONITOR_FAULT_SENSOR_INVALID (TACH_INVALID_TIMEOUT_US tk) (now - tf_invalid_since_us (tach_fan s2 i)) s2
         | Mark_Low _ \<Rightarrow> let s2 = upd_tach i (put_low now) s1
             in alarm_if tk i TACH_MONITOR_FAULT_STALL (CONFIG_TACH_STALL_DEBOUNCE_MS tk * 1000) (now - tf_stall_since_us (tach_fan s2 i)) s2
         | Mark_Reset \<Rightarrow> (None, upd_tach i put_fine s1))"
proof -
  have f: "put_sample now v rpm = (\<lambda>f. f\<lparr>tf_measurement_valid := v, tf_measured_rpm := rpm, tf_sampled_at_us := now\<rparr>)" for v
    by (simp add: put_sample_def fun_eq_iff)
  have "snapshot = None \<or> startup_grace_elapsed tk now snapshot \<and> \<not> mv \<or>
    mv \<and> startup_grace_elapsed tk now snapshot \<and> rpm < CONFIG_TACH_STALL_RPM tk \<and> snapshot \<noteq> None \<or>
    \<not> (snapshot = None \<or> startup_grace_elapsed tk now snapshot \<and> \<not> mv) \<and>
    \<not> (mv \<and> startup_grace_elapsed tk now snapshot \<and> rpm < CONFIG_TACH_STALL_RPM tk)" by blast
  then show ?thesis
    by (elim disjE; simp only: sample_section_def sample_mark_def alarm_if_def Let_def f put_invalid_def [abs_def]
        put_low_def [abs_def] put_fine_def [abs_def]; simp)
qed

lemma alarm_if_since:
  "same_since (tach_fan (snd (alarm_if tk i c l a s)) k) (tach_fan s k) \<and>
   length (tm_fans (snd (alarm_if tk i c l a s))) = length (tm_fans s) \<and>
   tm_config (snd (alarm_if tk i c l a s)) = tm_config s \<and> tm_initialized (snd (alarm_if tk i c l a s)) = tm_initialized s"
  using raise_since [of tk i c s k] by (simp add: alarm_if_def)

lemma since_sample:
  assumes "i < length (tm_fans s)" and "sample_section tk i now mv rpm snapshot s = (r, s')"
  defines "m \<equiv> sample_mark tk now mv rpm snapshot"
  shows "length (tm_fans s') = length (tm_fans s) \<and> tm_config s' = tm_config s \<and> tm_initialized s' = tm_initialized s \<and>
    tf_invalid_since_us (tach_fan s' i) = run_step no_feedback invalid_at m (tf_invalid_since_us (tach_fan s i)) \<and>
    tf_stall_since_us (tach_fan s' i) = run_step (\<lambda>m. m = Mark_Reset) low_at m (tf_stall_since_us (tach_fan s i)) \<and>
    (k \<noteq> i \<longrightarrow> same_since (tach_fan s' k) (tach_fan s k))"
proof -
  let ?s1 = "upd_tach i (put_sample now (mv \<and> snapshot \<noteq> None) rpm) s"
  have s': "s' = snd (sample_section tk i now mv rpm snapshot s)" using assms(2) by simp
  have "m = Mark_Invalid now \<or> m = Mark_Low now \<or> m = Mark_Reset" by (simp add: m_def sample_mark_def)
  then consider "m = Mark_Invalid now" | "m = Mark_Low now" | "m = Mark_Reset" by blast
  then show ?thesis
  proof cases
    case 1
    obtain c l a where e: "s' = snd (alarm_if tk i c l a (upd_tach i (put_invalid now) ?s1))"
      using 1 by (simp add: s' sample_by_mark m_def Let_def)
    show ?thesis
      using alarm_if_since [of tk i c l a "upd_tach i (put_invalid now) ?s1" i]
        alarm_if_since [of tk i c l a "upd_tach i (put_invalid now) ?s1" k] assms(1)
      by (simp add: e 1 tach_fan_upd same_since_def run_step_def no_feedback_def is_invalid_def put_defs)
  next
    case 2
    obtain c l a where e: "s' = snd (alarm_if tk i c l a (upd_tach i (put_low now) ?s1))"
      using 2 by (simp add: s' sample_by_mark m_def Let_def)
    show ?thesis
      using alarm_if_since [of tk i c l a "upd_tach i (put_low now) ?s1" i]
        alarm_if_since [of tk i c l a "upd_tach i (put_low now) ?s1" k] assms(1)
      by (simp add: e 2 tach_fan_upd same_since_def run_step_def no_feedback_def is_invalid_def put_defs)
  next
    case 3
    then show ?thesis using assms(1)
      by (simp add: s' sample_by_mark m_def Let_def tach_fan_upd same_since_def run_step_def no_feedback_def is_invalid_def put_defs)
  qed
qed

lemma since_clear:
  assumes "i < length (tm_fans s)" and "tach_fan_valid (int i) s"
  shows "length (tm_fans (snd (tach_monitor_clear_alarm (int j) s))) = length (tm_fans s)"
    "tach_fan_valid (int i) (snd (tach_monitor_clear_alarm (int j) s))"
    "tf_invalid_since_us (tach_fan (snd (tach_monitor_clear_alarm (int i) s)) i) = 0"
    "tf_stall_since_us (tach_fan (snd (tach_monitor_clear_alarm (int i) s)) i) = 0"
    "j \<noteq> i \<Longrightarrow> same_since (tach_fan (snd (tach_monitor_clear_alarm (int j) s)) i) (tach_fan s i)"
  using assms by (auto simp: tach_monitor_clear_alarm_def tach_fan_valid_def tach_fan_def upd_tach_def nth_list_update same_since_def)

lemma observed_since:
  assumes "\<forall>ob \<in> set os. obs_in (length (tm_fans s)) ob"
    and "i < length (tm_fans s)" and "tach_fan_valid (int i) s"
  shows "length (tm_fans (fold (observe tk) os s)) = length (tm_fans s) \<and>
    tf_invalid_since_us (tach_fan (fold (observe tk) os s) i) =
      fold (run_step no_feedback invalid_at) (marks tk i os) (tf_invalid_since_us (tach_fan s i)) \<and>
    tf_stall_since_us (tach_fan (fold (observe tk) os s) i) =
      fold (run_step (\<lambda>m. m = Mark_Reset) low_at) (marks tk i os) (tf_stall_since_us (tach_fan s i))"
  using assms
proof (induction os arbitrary: s)
  case (Cons ob os)
  show ?case
  proof (cases ob)
    case (Obs_Sample j now mv rpm snapshot)
    then have j: "j < length (tm_fans s)" using Cons.prems(1) by simp
    obtain r s' where s': "sample_section tk j now mv rpm snapshot s = (r, s')" by (rule prod.exhaust)
    note e = since_sample [OF j s', of i]
    have v: "tach_fan_valid (int i) s'" using e Cons.prems(3) by (simp add: tach_fan_valid_def)
    have IH: "length (tm_fans (fold (observe tk) os s')) = length (tm_fans s') \<and>
        tf_invalid_since_us (tach_fan (fold (observe tk) os s') i) =
          fold (run_step no_feedback invalid_at) (marks tk i os) (tf_invalid_since_us (tach_fan s' i)) \<and>
        tf_stall_since_us (tach_fan (fold (observe tk) os s') i) =
          fold (run_step (\<lambda>m. m = Mark_Reset) low_at) (marks tk i os) (tf_stall_since_us (tach_fan s' i))"
      using Cons.prems v e by (intro Cons.IH) simp_all
    show ?thesis
    proof (cases "j = i")
      case True
      then show ?thesis using IH e s' Obs_Sample by simp
    next
      case False
      then have "same_since (tach_fan s' i) (tach_fan s i)" using e by simp
      then show ?thesis using IH e s' Obs_Sample False by (simp add: same_since_def)
    qed
  next
    case (Obs_Clear j)
    let ?s = "snd (tach_monitor_clear_alarm (int j) s)"
    note c = since_clear(1,2,5) [OF Cons.prems(2,3), of j] since_clear(3,4) [OF Cons.prems(2,3)]
    have IH: "length (tm_fans (fold (observe tk) os ?s)) = length (tm_fans ?s) \<and>
        tf_invalid_since_us (tach_fan (fold (observe tk) os ?s) i) =
          fold (run_step no_feedback invalid_at) (marks tk i os) (tf_invalid_since_us (tach_fan ?s i)) \<and>
        tf_stall_since_us (tach_fan (fold (observe tk) os ?s) i) =
          fold (run_step (\<lambda>m. m = Mark_Reset) low_at) (marks tk i os) (tf_stall_since_us (tach_fan ?s i))"
      using Cons.prems c by (intro Cons.IH) simp_all
    show ?thesis
    proof (cases "j = i")
      case True
      then show ?thesis using IH c Obs_Clear by simp
    next
      case False
      then show ?thesis using IH c Obs_Clear by (simp add: same_since_def)
    qed
  qed
qed simp

section \<open>Alarms\<close>

definition clock_ok :: "tach_obs list \<Rightarrow> bool" where
  "clock_ok os \<longleftrightarrow> sorted (concat (map obs_time os)) \<and> (\<forall>t \<in> set (concat (map obs_time os)). 0 < t)"

lemma starts_marks:
  assumes "\<And>t. f (Mark_Invalid t) = None \<or> f (Mark_Invalid t) = Some t" and "\<And>t. f (Mark_Low t) = None \<or> f (Mark_Low t) = Some t"
    and "f Mark_Reset = None" and "clock_ok os"
  shows "sorted (starts f (marks tk i os)) \<and> set (starts f (marks tk i os)) \<subseteq> set (concat (map obs_time os))"
  using assms(4)
proof (induction os)
  case (Cons ob os)
  have IH: "sorted (starts f (marks tk i os))" "set (starts f (marks tk i os)) \<subseteq> set (concat (map obs_time os))"
  proof -
    have "clock_ok os" using Cons.prems by (auto simp: clock_ok_def sorted_append)
    from Cons.IH [OF this] show "sorted (starts f (marks tk i os))"
      "set (starts f (marks tk i os)) \<subseteq> set (concat (map obs_time os))" by blast+
  qed
  show ?case
  proof (cases ob)
    case (Obs_Sample j now mv rpm snapshot)
    then have le: "\<forall>t \<in> set (starts f (marks tk i os)). now \<le> t" using IH(2) Cons.prems by (auto simp: clock_ok_def)
    have "f (sample_mark tk now mv rpm snapshot) = None \<or> f (sample_mark tk now mv rpm snapshot) = Some now"
      using assms(1-3) by (simp add: sample_mark_def)
    then show ?thesis using IH le Obs_Sample by (auto simp: starts_def)
  qed (use IH assms(3) in \<open>simp add: starts_def\<close>)
qed (simp add: starts_def)

lemma starts_ok:
  assumes "clock_ok os"
  shows "sorted (starts invalid_at (marks tk i os))" "\<forall>t \<in> set (starts invalid_at (marks tk i os)). 0 < t"
    "sorted (starts low_at (marks tk i os))" "\<forall>t \<in> set (starts low_at (marks tk i os)). 0 < t"
  using starts_marks [of invalid_at os tk i] starts_marks [of low_at os tk i] assms by (auto simp: clock_ok_def)

lemma invalid_due_run: "invalid_due tk now hs \<longleftrightarrow> (\<exists>t. run_from no_feedback invalid_at hs t \<and> TACH_INVALID_TIMEOUT_US tk \<le> now - t)"
proof -
  have "invalid_at m = Some t \<longleftrightarrow> m = Mark_Invalid t" for m t by (cases m) auto
  then show ?thesis by (auto simp: invalid_due_def run_from_def no_feedback_def is_invalid_def)
qed

lemma stall_due_run: "stall_due tk now hs \<longleftrightarrow> (\<exists>zs. hs = zs @ [Mark_Low now]) \<and>
    (\<exists>t. run_from (\<lambda>m. m = Mark_Reset) low_at hs t \<and> CONFIG_TACH_STALL_DEBOUNCE_MS tk * 1000 \<le> now - t)"
proof -
  have "low_at m = Some t \<longleftrightarrow> m = Mark_Low t" for m t by (cases m) auto
  moreover have "Mark_Reset \<notin> set ys \<longleftrightarrow> (\<forall>y \<in> set ys. y \<noteq> Mark_Reset)" for ys by auto
  ultimately show ?thesis unfolding stall_due_def run_from_def by auto
qed

lemma marks_snoc: "marks tk i (os @ [Obs_Sample i now mv rpm snapshot]) = marks tk i os @ [sample_mark tk now mv rpm snapshot]"
  by (induction tk i os rule: marks.induct) simp_all

lemma alarm_if_result:
  "\<exists>n g. fst (alarm_if tk i c l a s) = (if \<not> tf_stall_alarm (tach_fan s i) \<and> l \<le> a then Some (n, g, c) else None)"
  by (simp add: alarm_if_def raise_fault_def Let_def)

text \<open>C25. An alarm is raised exactly when it is due. Take any history of samples of the fans and of
  operator's clears, with a clock that does not run backwards, and any next sample of a fan: the
  critical section raises a new fault if and only if no alarm stands and either the feedback was
  invalid in every sample for the invalid timeout, or the speed is low now and was low at a sample
  at least the debounce time ago with no healthy sample and no clear since; invalid samples in
  between neither confirm nor excuse a stall. The cause it reports is the one that is due.\<close>

theorem alarm_raised_exactly_when_due:
  fixes tk :: tach_kconfig
  assumes "i < length (tm_fans s0)" and "tach_fan_valid (int i) s0" and "tf_invalid_since_us (tach_fan s0 i) = 0"
    and "tf_stall_since_us (tach_fan s0 i) = 0" and "\<forall>ob \<in> set os. obs_in (length (tm_fans s0)) ob"
    and "clock_ok (os @ [Obs_Sample i now mv rpm snapshot])"
  defines "s \<equiv> fold (observe tk) os s0" and "hs \<equiv> marks tk i (os @ [Obs_Sample i now mv rpm snapshot])"
  shows "(fst (sample_section tk i now mv rpm snapshot s) \<noteq> None \<longleftrightarrow>
      \<not> tf_stall_alarm (tach_fan s i) \<and> (invalid_due tk now hs \<or> stall_due tk now hs)) \<and>
    (\<forall>n g c. fst (sample_section tk i now mv rpm snapshot s) = Some (n, g, c) \<longrightarrow>
      c = (if invalid_due tk now hs then TACH_MONITOR_FAULT_SENSOR_INVALID else TACH_MONITOR_FAULT_STALL))"
proof -
  let ?m = "sample_mark tk now mv rpm snapshot" and ?s1 = "upd_tach i (put_sample now (mv \<and> snapshot \<noteq> None) rpm) s"
  have o: "length (tm_fans s) = length (tm_fans s0)"
    "tf_invalid_since_us (tach_fan s i) = since_run no_feedback invalid_at (marks tk i os)"
    "tf_stall_since_us (tach_fan s i) = since_run (\<lambda>m. m = Mark_Reset) low_at (marks tk i os)"
    using observed_since [OF assms(5,1,2)] assms(3,4) by (simp_all add: s_def since_run_def)
  have hs: "hs = marks tk i os @ [?m]" unfolding hs_def by (rule marks_snoc)
  have len: "i < length (tm_fans s)" using assms(1) o(1) by simp
  have now: "0 < now" using assms(6) by (simp add: clock_ok_def)
  have D: "invalid_due tk now hs \<longleftrightarrow> since_run no_feedback invalid_at hs \<noteq> 0 \<and>
      TACH_INVALID_TIMEOUT_US tk \<le> now - since_run no_feedback invalid_at hs"
    "stall_due tk now hs \<longleftrightarrow> ?m = Mark_Low now \<and> since_run (\<lambda>m. m = Mark_Reset) low_at hs \<noteq> 0 \<and>
      CONFIG_TACH_STALL_DEBOUNCE_MS tk * 1000 \<le> now - since_run (\<lambda>m. m = Mark_Reset) low_at hs"
    unfolding invalid_due_run stall_due_run run_due [OF starts_ok(1,2) [OF assms(6), of tk i, folded hs_def]]
      run_due [OF starts_ok(3,4) [OF assms(6), of tk i, folded hs_def]] by (auto simp: hs)
  have S: "since_run no_feedback invalid_at hs = run_step no_feedback invalid_at ?m (tf_invalid_since_us (tach_fan s i))"
    "since_run (\<lambda>m. m = Mark_Reset) low_at hs = run_step (\<lambda>m. m = Mark_Reset) low_at ?m (tf_stall_since_us (tach_fan s i))"
    by (simp_all add: hs since_run_snoc o(2,3))
  have "?m = Mark_Invalid now \<or> ?m = Mark_Low now \<or> ?m = Mark_Reset" by (simp add: sample_mark_def)
  then consider "?m = Mark_Invalid now" | "?m = Mark_Low now" | "?m = Mark_Reset" by blast
  then show ?thesis
  proof cases
    case 1
    let ?s2 = "upd_tach i (put_invalid now) ?s1"
    have e: "fst (sample_section tk i now mv rpm snapshot s) = fst (alarm_if tk i TACH_MONITOR_FAULT_SENSOR_INVALID
        (TACH_INVALID_TIMEOUT_US tk) (now - tf_invalid_since_us (tach_fan ?s2 i)) ?s2)"
      by (simp add: sample_by_mark 1 Let_def)
    have "tf_stall_alarm (tach_fan ?s2 i) = tf_stall_alarm (tach_fan s i)"
      "tf_invalid_since_us (tach_fan ?s2 i) = since_run no_feedback invalid_at hs" "since_run no_feedback invalid_at hs \<noteq> 0"
      using len now by (auto simp: tach_fan_upd put_defs S 1 run_step_def no_feedback_def is_invalid_def)
    moreover obtain n g where "fst (alarm_if tk i TACH_MONITOR_FAULT_SENSOR_INVALID (TACH_INVALID_TIMEOUT_US tk)
        (now - tf_invalid_since_us (tach_fan ?s2 i)) ?s2) = (if \<not> tf_stall_alarm (tach_fan ?s2 i) \<and>
        TACH_INVALID_TIMEOUT_US tk \<le> now - tf_invalid_since_us (tach_fan ?s2 i)
        then Some (n, g, TACH_MONITOR_FAULT_SENSOR_INVALID) else None)" using alarm_if_result by blast
    ultimately show ?thesis unfolding e by (simp add: D 1)
  next
    case 2
    let ?s2 = "upd_tach i (put_low now) ?s1"
    have e: "fst (sample_section tk i now mv rpm snapshot s) = fst (alarm_if tk i TACH_MONITOR_FAULT_STALL
        (CONFIG_TACH_STALL_DEBOUNCE_MS tk * 1000) (now - tf_stall_since_us (tach_fan ?s2 i)) ?s2)"
      by (simp add: sample_by_mark 2 Let_def)
    have "tf_stall_alarm (tach_fan ?s2 i) = tf_stall_alarm (tach_fan s i)"
      "tf_stall_since_us (tach_fan ?s2 i) = since_run (\<lambda>m. m = Mark_Reset) low_at hs"
      "since_run (\<lambda>m. m = Mark_Reset) low_at hs \<noteq> 0" "since_run no_feedback invalid_at hs = 0"
      using len now by (auto simp: tach_fan_upd put_defs S 2 run_step_def no_feedback_def is_invalid_def)
    moreover obtain n g where "fst (alarm_if tk i TACH_MONITOR_FAULT_STALL (CONFIG_TACH_STALL_DEBOUNCE_MS tk * 1000)
        (now - tf_stall_since_us (tach_fan ?s2 i)) ?s2) = (if \<not> tf_stall_alarm (tach_fan ?s2 i) \<and>
        CONFIG_TACH_STALL_DEBOUNCE_MS tk * 1000 \<le> now - tf_stall_since_us (tach_fan ?s2 i)
        then Some (n, g, TACH_MONITOR_FAULT_STALL) else None)" using alarm_if_result by blast
    ultimately show ?thesis unfolding e by (simp add: D 2)
  next
    case 3
    then show ?thesis by (simp add: sample_by_mark Let_def D S)
  qed
qed

text \<open>One fan with a debounce of three seconds: low, no feedback, low again.\<close>

definition sim_tach_kconfig :: tach_kconfig where
  "sim_tach_kconfig = \<lparr>CONFIG_TACH_SAMPLE_MS = 1000, CONFIG_TACH_PULSES_PER_REV = 2, CONFIG_TACH_STARTUP_GRACE_MS = 2000,
     CONFIG_TACH_STALL_RPM = 100, CONFIG_TACH_STALL_DEBOUNCE_MS = 3000, CONFIG_TACH_GLITCH_FILTER_NS = 1000,
     CONFIG_TACH_STALL_STOP_ALL = False, CONFIG_TACH_STALL_STOP_FAN = True, CONFIG_TACH_INTERNAL_PULLUP = True\<rparr>"

definition sim_tach_app :: app_config where
  "sim_tach_app = \<lparr>fan_count = 1, fan_index_start = 1, min_spin_pct = 15, ramp_step_pct = 3, ramp_tick_ms = 20,
     dshot_gpios = [5, -1, -1, -1], tach_gpios = [9, -1, -1, -1], topology_fp = 0, mqtt_root_topic = ''farm'',
     node_id = ''n1'', node_topic = ''farm/n1''\<rparr>"

definition sim_tach :: "'h tach_monitor" where
  "sim_tach = tach_monitor_boot\<lparr>tm_initialized := True, tm_config := tach_config_null\<lparr>tmc_app_config := Some sim_tach_app\<rparr>\<rparr>"

definition sim_obs :: "tach_obs list" where
  "sim_obs = [Obs_Sample 0 5000000 True 40 (Some \<lparr>tms_applied_pct = 50, tms_nonzero_applied_since_us = 1000\<rparr>),
              Obs_Sample 0 6000000 False 0 (Some \<lparr>tms_applied_pct = 50, tms_nonzero_applied_since_us = 1000\<rparr>)]"

theorem alarm_raised_exactly_when_due_witness:
  "stall_due sim_tach_kconfig 8000000 [Mark_Low 5000000, Mark_Invalid 6000000, Mark_Low 8000000]"
proof -
  let ?x = "Some \<lparr>tms_applied_pct = (50 :: u8), tms_nonzero_applied_since_us = 1000\<rparr>"
  let ?s = "fold (observe sim_tach_kconfig) sim_obs (sim_tach :: unit tach_monitor)"
  let ?hs = "marks sim_tach_kconfig 0 (sim_obs @ [Obs_Sample 0 8000000 True 40 ?x])"
  have e: "fst (sample_section sim_tach_kconfig 0 8000000 True 40 ?x ?s) = Some (1, 1, TACH_MONITOR_FAULT_STALL)"
    by code_simp
  have hs: "?hs = [Mark_Low 5000000, Mark_Invalid 6000000, Mark_Low 8000000]" by code_simp
  have "(fst (sample_section sim_tach_kconfig 0 8000000 True 40 ?x ?s) \<noteq> None \<longleftrightarrow>
      \<not> tf_stall_alarm (tach_fan ?s 0) \<and> (invalid_due sim_tach_kconfig 8000000 ?hs \<or> stall_due sim_tach_kconfig 8000000 ?hs)) \<and>
    (\<forall>n g c. fst (sample_section sim_tach_kconfig 0 8000000 True 40 ?x ?s) = Some (n, g, c) \<longrightarrow>
      c = (if invalid_due sim_tach_kconfig 8000000 ?hs then TACH_MONITOR_FAULT_SENSOR_INVALID else TACH_MONITOR_FAULT_STALL))"
    by (rule alarm_raised_exactly_when_due)
      (simp_all add: sim_tach_def tach_monitor_boot_def APP_CONFIG_MAX_FANS_def tach_fan_valid_def tach_config_null_def
        sim_tach_app_def tach_fan_def tach_fan_zero_def sim_obs_def clock_ok_def)
  then show ?thesis unfolding e hs by (auto split: if_splits)
qed

section \<open>Pulses\<close>

text \<open>What the pulse counter does while nothing fails: the accumulated count is read as it is, stopping
  and starting keep it, clearing zeroes it.\<close>

definition pcnt_works :: "'h tach_ops \<Rightarrow> nat \<Rightarrow> ('h \<Rightarrow> int) \<Rightarrow> bool" where
  "pcnt_works ops u count \<longleftrightarrow>
     (\<forall>h. pcnt_unit_get_count ops (Some u) h = ((ESP_OK, count h), h)) \<and>
     (\<forall>h. \<exists>h'. pcnt_unit_stop ops (Some u) h = (ESP_OK, h') \<and> count h' = count h) \<and>
     (\<forall>h. \<exists>h'. pcnt_unit_clear_count ops (Some u) h = (ESP_OK, h') \<and> count h' = 0) \<and>
     (\<forall>h. \<exists>h'. pcnt_unit_start ops (Some u) h = (ESP_OK, h') \<and> count h' = count h)"

text \<open>Samples of a fan, with so many pulses before each; what was read, and the count it was read from.\<close>

fun count_pulses :: "'h tach_ops \<Rightarrow> ('h \<Rightarrow> int) \<Rightarrow> (nat \<Rightarrow> 'h \<Rightarrow> 'h) \<Rightarrow> nat list \<Rightarrow> tach_fan_state \<Rightarrow> 'h \<Rightarrow>
    ((esp_err \<times> u64) \<times> int) list" where
  "count_pulses ops count pulses [] fan h = []"
| "count_pulses ops count pulses (n # ns) fan h =
     (let h1 = pulses n h
      in case read_pulse_delta ops fan h1 of (r, fan', h2) \<Rightarrow> (r, count h1) # count_pulses ops count pulses ns fan' h2)"

lemma read_exact:
  assumes "pcnt_works ops u count" and "tf_unit fan = Some u" and "tf_unit_started fan" and "tf_pulse_baseline_valid fan"
    and "0 \<le> tf_previous_pulse_count fan" and "tf_previous_pulse_count fan \<le> INT_MAX"
    and "count h = tf_previous_pulse_count fan + int n"
  obtains fan' h' where "read_pulse_delta ops fan h = ((ESP_OK, of_nat n), fan', h')" "tf_unit fan' = Some u" "tf_unit_started fan'"
    "tf_pulse_baseline_valid fan'" "count h' = tf_previous_pulse_count fan'"
    "tf_previous_pulse_count fan' = (if TACH_COUNTER_RESET_THRESHOLD \<le> tf_previous_pulse_count fan then 0
       else tf_previous_pulse_count fan + int n)"
proof (cases "TACH_COUNTER_RESET_THRESHOLD \<le> tf_previous_pulse_count fan")
  case True
  obtain h1 where h1: "pcnt_unit_stop ops (Some u) h = (ESP_OK, h1)" "count h1 = count h"
    using assms(1) unfolding pcnt_works_def by blast
  obtain h2 where h2: "pcnt_unit_clear_count ops (Some u) h1 = (ESP_OK, h2)" "count h2 = 0"
    using assms(1) unfolding pcnt_works_def by blast
  obtain h3 where h3: "pcnt_unit_start ops (Some u) h2 = (ESP_OK, h3)" "count h3 = count h2"
    using assms(1) unfolding pcnt_works_def by blast
  have g: "pcnt_unit_get_count ops (Some u) h1 = ((ESP_OK, count h1), h1)" using assms(1) by (simp add: pcnt_works_def)
  show ?thesis
    by (rule that [of "fan\<lparr>tf_unit_started := True, tf_previous_pulse_count := 0, tf_pulse_baseline_valid := True\<rparr>" h3])
      (use assms True h1 h2 h3 g in \<open>simp_all add: read_pulse_delta_def read_and_reset_def Let_def\<close>)
next
  case False
  have g: "pcnt_unit_get_count ops (Some u) h = ((ESP_OK, count h), h)" using assms(1) by (simp add: pcnt_works_def)
  show ?thesis
    by (rule that [of "fan\<lparr>tf_previous_pulse_count := count h, tf_pulse_baseline_valid := True\<rparr>" h])
      (use assms False g in \<open>simp_all add: read_pulse_delta_def read_running_def Let_def\<close>)
qed

lemma count_pulses_exact:
  assumes "pcnt_works ops u count" and "\<And>n h. count (pulses n h) = count h + int n"
    and "tf_unit fan = Some u" and "tf_unit_started fan" and "tf_pulse_baseline_valid fan"
    and "tf_previous_pulse_count fan = count h" and "0 \<le> count h" and "count h < TACH_COUNTER_RESET_THRESHOLD + 2 ^ 29"
    and "\<forall>n \<in> set ns. n \<le> 2 ^ 29"
  shows "map fst (count_pulses ops count pulses ns fan h) = map (\<lambda>n. (ESP_OK, of_nat n)) ns \<and>
    (\<forall>c \<in> snd ` set (count_pulses ops count pulses ns fan h). c \<le> INT_MAX)"
  using assms(3-9)
proof (induction ns arbitrary: fan h)
  case (Cons n ns)
  have lim: "TACH_COUNTER_RESET_THRESHOLD + 2 ^ 29 + 2 ^ 29 \<le> INT_MAX + 1"
    by (simp add: TACH_COUNTER_RESET_THRESHOLD_def INT_MAX_def)
  have n: "int n \<le> 2 ^ 29" using Cons.prems(7) by (auto simp: le_nat_iff [symmetric])
  obtain fan' h' where f: "read_pulse_delta ops fan (pulses n h) = ((ESP_OK, of_nat n), fan', h')" "tf_unit fan' = Some u"
      "tf_unit_started fan'" "tf_pulse_baseline_valid fan'" "count h' = tf_previous_pulse_count fan'"
      "tf_previous_pulse_count fan' = (if TACH_COUNTER_RESET_THRESHOLD \<le> tf_previous_pulse_count fan then 0
         else tf_previous_pulse_count fan + int n)"
    by (rule read_exact [OF assms(1) Cons.prems(1-3), of "pulses n h" n]) (use Cons.prems lim in \<open>simp_all add: assms(2)\<close>)
  have "map fst (count_pulses ops count pulses ns fan' h') = map (\<lambda>n. (ESP_OK, of_nat n)) ns \<and>
      (\<forall>c \<in> snd ` set (count_pulses ops count pulses ns fan' h'). c \<le> INT_MAX)"
    using Cons.prems f(2-6) n by (intro Cons.IH) (auto split: if_splits simp: TACH_COUNTER_RESET_THRESHOLD_def INT_MAX_def)
  moreover have "count (pulses n h) \<le> INT_MAX" using Cons.prems(6) n lim by (simp add: assms(2))
  ultimately show ?case using f(1) by (simp add: Let_def)
qed simp

text \<open>Pulses are counted exactly: while the counter works, the samples of a fan report exactly the
  pulses that arrived before each of them, also where the counter is stopped, cleared and
  restarted because it had come near the limit of its accumulator; and no sample reads a count
  beyond that limit, as long as at most a quarter of its range arrives between two samples.\<close>

theorem pulses_counted_exactly:
  assumes "pcnt_works ops u count" and "\<And>n h. count (pulses n h) = count h + int n"
    and "tf_unit fan = Some u" and "tf_unit_started fan" and "tf_pulse_baseline_valid fan"
    and "tf_previous_pulse_count fan = count h" and "0 \<le> count h" and "count h < TACH_COUNTER_RESET_THRESHOLD"
    and "\<forall>n \<in> set ns. n \<le> 2 ^ 29"
  shows "map fst (count_pulses ops count pulses ns fan h) = map (\<lambda>n. (ESP_OK, of_nat n)) ns \<and>
    (\<forall>c \<in> snd ` set (count_pulses ops count pulses ns fan h). c \<le> INT_MAX)"
  by (rule count_pulses_exact [OF assms(1-7) _ assms(9)]) (use assms(8) in simp)

text \<open>A counter whose state is its count.\<close>

definition sim_pcnt :: "int tach_ops" where
  "sim_pcnt = \<lparr>gpio_set_pull_mode = (\<lambda>_ _ h. (ESP_OK, h)), pcnt_new_unit = (\<lambda>_ _ h. ((ESP_OK, Some 1), h)),
     pcnt_unit_set_glitch_filter = (\<lambda>_ _ h. (ESP_OK, h)), pcnt_new_channel = (\<lambda>_ _ h. ((ESP_OK, Some 2), h)),
     pcnt_channel_count_rising = (\<lambda>_ h. (ESP_OK, h)), pcnt_unit_add_watch_point = (\<lambda>_ _ h. (ESP_OK, h)),
     pcnt_unit_enable = (\<lambda>_ h. (ESP_OK, h)), pcnt_unit_disable = (\<lambda>_ h. (ESP_OK, h)),
     pcnt_unit_start = (\<lambda>_ h. (ESP_OK, h)), pcnt_unit_stop = (\<lambda>_ h. (ESP_OK, h)),
     pcnt_unit_clear_count = (\<lambda>_ _. (ESP_OK, 0)), pcnt_unit_get_count = (\<lambda>_ h. ((ESP_OK, h), h)),
     pcnt_del_channel = (\<lambda>_ h. (ESP_OK, h)), pcnt_del_unit = (\<lambda>_ h. (ESP_OK, h)), tm_timer_us = (\<lambda>h. (1000000, h)),
     tm_task_create = (\<lambda>h. (Some 3, h)), tm_stack_bytes = (\<lambda>_ _. 1024), tm_delay = Pair, tm_preempt = Pair\<rparr>"

lemma sim_pcnt_works: "pcnt_works sim_pcnt u id"
  by (simp add: pcnt_works_def sim_pcnt_def)

theorem pulses_counted_exactly_witness:
  "map fst (count_pulses sim_pcnt id (\<lambda>n h. h + int n) [500000000, 7]
     (tach_fan_zero\<lparr>tf_unit := Some 1, tf_unit_started := True, tf_pulse_baseline_valid := True,
        tf_previous_pulse_count := 1000000000\<rparr>) 1000000000) = [(ESP_OK, 500000000), (ESP_OK, 7)]"
  using pulses_counted_exactly [OF sim_pcnt_works [of 1], of "\<lambda>n h. h + int n"
      "tach_fan_zero\<lparr>tf_unit := Some 1, tf_unit_started := True, tf_pulse_baseline_valid := True,
        tf_previous_pulse_count := 1000000000\<rparr>" 1000000000 "[500000000, 7]"]
  by (simp add: TACH_COUNTER_RESET_THRESHOLD_def INT_MAX_def)

text \<open>The speed is exact: with fewer than 2^38 pulses, at least one pulse per revolution and an
  interval whose product with the pulses per revolution fits in 64 bits, the reported speed is
  the number of whole revolutions per minute, saturated at the largest 32-bit value; nothing in
  its computation wraps.\<close>

theorem speed_exact:
  assumes "unat pulses < 2 ^ 38" and "0 < elapsed_us" and "0 < unat (CONFIG_TACH_PULSES_PER_REV tk)"
    and "nat elapsed_us * unat (CONFIG_TACH_PULSES_PER_REV tk) < 2 ^ 64"
  shows "unat (rpm_of tk pulses elapsed_us) =
    min (2 ^ 32 - 1) (unat pulses * 60000000 div (nat elapsed_us * unat (CONFIG_TACH_PULSES_PER_REV tk)))"
proof -
  let ?ppr = "CONFIG_TACH_PULSES_PER_REV tk" and ?e = "nat elapsed_us"
  have w: "unat (x * y) = unat x * unat y" if "unat x * unat y < 2 ^ 64" for x y :: u64
    using that by (simp add: unat_word_ariths)
  have "?e * 1 \<le> ?e * unat ?ppr" using assms(3) by (intro mult_le_mono) simp_all
  then have "?e < 2 ^ 64" using assms(4) by linarith
  then have "unat (of_nat ?e :: u64) = ?e" by (simp add: unat_of_nat take_bit_nat_eq_self)
  moreover have "(of_int elapsed_us :: u64) = of_nat ?e" using assms(2) by (simp add: of_nat_nat)
  ultimately have d: "unat (of_int elapsed_us * ?ppr) = ?e * unat ?ppr" using w [of "of_int elapsed_us" ?ppr] assms(4) by simp
  have "unat pulses * 60000000 < 2 ^ 64" using assms(1) by simp
  then have n: "unat (pulses * 60000000) = unat pulses * 60000000" using w [of pulses 60000000] by simp
  let ?c = "pulses * 60000000 div (of_int elapsed_us * ?ppr)"
  have "0 < ?e * unat ?ppr" using assms(2,3) by simp
  then have nz: "of_int elapsed_us * ?ppr \<noteq> 0" using d by auto
  have c: "unat ?c = unat pulses * 60000000 div (?e * unat ?ppr)" by (simp add: unat_div n d)
  have "ucast UINT32_MAX < ?c \<longleftrightarrow> 2 ^ 32 - 1 < unat ?c" by (simp add: word_less_nat_alt UINT32_MAX_def)
  moreover have "unat (ucast ?c :: u32) = unat ?c" if "unat ?c \<le> 2 ^ 32 - 1"
    using that by (simp add: unsigned_ucast_eq take_bit_nat_eq_self)
  ultimately show ?thesis using nz by (simp add: rpm_of_def Let_def c [symmetric] UINT32_MAX_def min_def)
qed

theorem speed_exact_witness: "unat (rpm_of sim_tach_kconfig 100 1000000) = 3000"
  using speed_exact [of 100 1000000 sim_tach_kconfig] by (simp add: sim_tach_kconfig_def)

section \<open>Initialisation\<close>

definition tach_owns :: "tach_fan_state \<Rightarrow> bool" where
  "tach_owns f \<longleftrightarrow> tf_unit_started f \<or> tf_unit_enabled f \<or> tf_channel f \<noteq> None \<or> tf_unit f \<noteq> None"

lemma release_one_cases:
  assumes "release_one owed call clear (e, f, h) = (e', f', h')"
  obtains "f' = f" "e \<noteq> ESP_OK" "e' \<noteq> ESP_OK" "owed" | "f' = f" "e' = e" "\<not> owed" | "f' = clear f" "e' = e" "owed"
    | "f' = f" "owed" "e' \<noteq> ESP_OK"
  using assms by (cases "call h") (auto simp: release_one_def split: if_splits)

lemma release_fan_owes:
  assumes "release_fan ops (e, f, h) = (e', f', h')" and "e' \<noteq> ESP_OK"
  shows "e \<noteq> ESP_OK \<or> tach_owns f'"
proof -
  obtain e1 f1 h1 where 1: "release_one (tf_unit_started f) (pcnt_unit_stop ops (tf_unit f)) (\<lambda>f. f\<lparr>tf_unit_started := False\<rparr>) (e, f, h) = (e1, f1, h1)"
    by (metis prod.exhaust)
  obtain e2 f2 h2 where 2: "release_one (tf_unit_enabled f) (pcnt_unit_disable ops (tf_unit f)) (\<lambda>f. f\<lparr>tf_unit_enabled := False\<rparr>) (e1, f1, h1) = (e2, f2, h2)"
    by (metis prod.exhaust)
  obtain e3 f3 h3 where 3: "release_one (tf_channel f \<noteq> None) (pcnt_del_channel ops (tf_channel f)) (\<lambda>f. f\<lparr>tf_channel := None\<rparr>) (e2, f2, h2) = (e3, f3, h3)"
    by (metis prod.exhaust)
  have 4: "release_one (tf_unit f \<noteq> None) (pcnt_del_unit ops (tf_unit f)) (\<lambda>f. f\<lparr>tf_unit := None\<rparr>) (e3, f3, h3) = (e', f', h')"
    using assms(1) 1 2 3 by (simp add: release_fan_def Let_def)
  have a1: "e1 \<noteq> ESP_OK \<longrightarrow> e \<noteq> ESP_OK \<or> tf_unit_started f1" "tf_unit_enabled f1 = tf_unit_enabled f"
      "tf_channel f1 = tf_channel f" "tf_unit f1 = tf_unit f"
    using 1 by (auto elim!: release_one_cases)
  have a2: "e2 \<noteq> ESP_OK \<longrightarrow> e \<noteq> ESP_OK \<or> tf_unit_started f2 \<or> tf_unit_enabled f2" "tf_channel f2 = tf_channel f" "tf_unit f2 = tf_unit f"
    using 2 a1 by (auto elim!: release_one_cases)
  have a3: "e3 \<noteq> ESP_OK \<longrightarrow> e \<noteq> ESP_OK \<or> tf_unit_started f3 \<or> tf_unit_enabled f3 \<or> tf_channel f3 \<noteq> None" "tf_unit f3 = tf_unit f"
    using 3 a2 by (auto elim!: release_one_cases)
  show ?thesis using 4 a3 assms(2) by (auto simp: tach_owns_def elim!: release_one_cases)
qed

lemma release_loop:
  assumes "release_pcnt_loop ops is e s h = (e', s', h')" and "\<forall>i \<in> set is. i < length (tm_fans s)" and "distinct is"
  shows "tm_initialized s' = tm_initialized s \<and> tm_init_started s' = tm_init_started s \<and>
    tm_task s' = tm_task s \<and> tm_start_started s' = tm_start_started s \<and> tm_heartbeat_us s' = tm_heartbeat_us s \<and>
    (\<forall>j. j \<notin> set is \<longrightarrow> tach_fan s' j = tach_fan s j) \<and>
    (e' \<noteq> ESP_OK \<longrightarrow> e \<noteq> ESP_OK \<or> (\<exists>i \<in> set is. tach_owns (tach_fan s' i)))"
  using assms
proof (induction "is" arbitrary: e s h)
  case (Cons i "is")
  obtain e1 f1 h1 where f: "release_fan ops (e, tach_fan s i, h) = (e1, f1, h1)" by (metis prod.exhaust)
  let ?s1 = "upd_tach i (\<lambda>_. f1) s"
  have r: "release_pcnt_loop ops is e1 ?s1 h1 = (e', s', h')" using Cons.prems(1) f by simp
  have u: "tm_task ?s1 = tm_task s" "tm_start_started ?s1 = tm_start_started s" "tm_heartbeat_us ?s1 = tm_heartbeat_us s"
    by (simp_all add: upd_tach_def)
  have IH: "tm_initialized s' = tm_initialized s \<and> tm_init_started s' = tm_init_started s \<and>
    tm_task s' = tm_task s \<and> tm_start_started s' = tm_start_started s \<and> tm_heartbeat_us s' = tm_heartbeat_us s \<and>
    (\<forall>j. j \<notin> set is \<longrightarrow> tach_fan s' j = tach_fan ?s1 j) \<and>
    (e' \<noteq> ESP_OK \<longrightarrow> e1 \<noteq> ESP_OK \<or> (\<exists>i \<in> set is. tach_owns (tach_fan s' i)))"
    using Cons.IH [OF r] Cons.prems(2,3) u by simp
  have i: "tach_fan s' i = f1" using IH Cons.prems(2,3) by (simp add: tach_fan_upd)
  have "tach_fan s' j = tach_fan s j" if "j \<notin> set (i # is)" for j
    using IH Cons.prems(2) that by (simp add: tach_fan_upd)
  then show ?case using IH i release_fan_owes [OF f] by auto
qed simp

lemma fail_initialization_effect:
  assumes "fail_initialization ops cause s h = (err, s', h')" and "cause \<noteq> ESP_OK" and "length (tm_fans s) = APP_CONFIG_MAX_FANS"
    and "tm_init_started s" and "\<not> tm_initialized s" and "tm_task s = None" and "\<not> tm_start_started s" and "tm_heartbeat_us s = 0"
  shows "err \<noteq> ESP_OK \<and> \<not> tm_initialized s' \<and>
    (s' = tach_monitor_boot \<or> tm_init_started s' \<and> (\<exists>i < APP_CONFIG_MAX_FANS. tach_owns (tach_fan s' i)))"
proof -
  obtain ce s1 h1 where r: "release_pcnt_loop ops (rev [0..<APP_CONFIG_MAX_FANS]) ESP_OK s h = (ce, s1, h1)" by (metis prod.exhaust)
  note l = release_loop [OF r]
  show ?thesis using l r assms
    by (cases "ce = ESP_OK") (auto simp: fail_initialization_def release_pcnt_resources_def tach_monitor_boot_def)
qed

lemma configure_fan_ok:
  assumes "configure_fan tk ops gpio fan h = (ESP_OK, fan', h')"
  shows "tf_unit_enabled fan' \<and> tf_unit_started fan'"
  using assms by (auto simp: configure_fan_def Let_def bind_ok_def split: prod.splits if_splits)

lemma configure_fans_effect:
  assumes "configure_fans tk ops app is s h = (err, s', h')" and "length (tm_fans s) = APP_CONFIG_MAX_FANS"
    and "\<forall>i \<in> set is. i < APP_CONFIG_MAX_FANS" and "distinct is"
    and "tm_init_started s" and "\<not> tm_initialized s" and "tm_task s = None" and "\<not> tm_start_started s" and "tm_heartbeat_us s = 0"
  shows "(err = ESP_OK \<longrightarrow> tm_config s' = tm_config s \<and> tm_init_started s' \<and>
      (\<forall>i \<in> set is. tf_unit_enabled (tach_fan s' i) \<and> tf_unit_started (tach_fan s' i)) \<and>
      (\<forall>i. i \<notin> set is \<longrightarrow> tach_fan s' i = tach_fan s i)) \<and>
    (err \<noteq> ESP_OK \<longrightarrow> \<not> tm_initialized s' \<and>
      (s' = tach_monitor_boot \<or> tm_init_started s' \<and> (\<exists>i < APP_CONFIG_MAX_FANS. tach_owns (tach_fan s' i))))"
  using assms
proof (induction "is" arbitrary: s h)
  case (Cons i "is")
  obtain e1 f1 h1 where f: "configure_fan tk ops (tach_gpios app ! i) (tach_fan s i) h = (e1, f1, h1)" by (metis prod.exhaust)
  let ?s1 = "upd_tach i (\<lambda>_. f1) s"
  have u: "tm_task ?s1 = tm_task s" "tm_start_started ?s1 = tm_start_started s" "tm_heartbeat_us ?s1 = tm_heartbeat_us s"
    by (simp_all add: upd_tach_def)
  show ?case
  proof (cases "e1 = ESP_OK")
    case True
    then have r: "configure_fans tk ops app is ?s1 h1 = (err, s', h')" using Cons.prems(1) f by (simp add: Let_def)
    have i: "i < length (tm_fans s)" "i \<notin> set is" using Cons.prems(2-4) by auto
    have IH: "(err = ESP_OK \<longrightarrow> tm_config s' = tm_config ?s1 \<and> tm_init_started s' \<and>
        (\<forall>i \<in> set is. tf_unit_enabled (tach_fan s' i) \<and> tf_unit_started (tach_fan s' i)) \<and>
        (\<forall>i. i \<notin> set is \<longrightarrow> tach_fan s' i = tach_fan ?s1 i)) \<and>
      (err \<noteq> ESP_OK \<longrightarrow> \<not> tm_initialized s' \<and>
        (s' = tach_monitor_boot \<or> tm_init_started s' \<and> (\<exists>i < APP_CONFIG_MAX_FANS. tach_owns (tach_fan s' i))))"
      using Cons.prems u by (intro Cons.IH [OF r]) simp_all
    have "tf_unit_enabled f1 \<and> tf_unit_started f1" by (rule configure_fan_ok [OF f [unfolded True]])
    then show ?thesis using IH i by (auto simp: tach_fan_upd)
  next
    case False
    then have r: "fail_initialization ops e1 ?s1 h1 = (err, s', h')" using Cons.prems(1) f by (simp add: Let_def)
    show ?thesis using fail_initialization_effect [OF r False] Cons.prems(2-) u by simp
  qed
qed simp

text \<open>Initialisation is a transaction, whatever the pulse counter driver answers: either it reports
  OK, and every configured fan has a counter that is enabled and started; or it reports an error,
  the module is not initialised, and it is back in its boot state, unless the driver refused to
  give back a counter, which the module then still holds, refusing to initialise again.\<close>

theorem tach_init_transactional:
  assumes "tach_monitor_init tk ops (Some c) tach_monitor_boot h = (err, s', h')"
  shows "(err = ESP_OK \<longrightarrow> tm_initialized s' \<and> tm_config s' = c \<and>
      (\<forall>i < nat (fan_count (the (tmc_app_config c))). tf_unit_enabled (tach_fan s' i) \<and> tf_unit_started (tach_fan s' i))) \<and>
    (err \<noteq> ESP_OK \<longrightarrow> \<not> tm_initialized s' \<and> (s' = tach_monitor_boot \<or>
      (\<exists>i < APP_CONFIG_MAX_FANS. tach_owns (tach_fan s' i)) \<and> (\<forall>c h. fst (tach_monitor_init tk ops c s' h) \<noteq> ESP_OK)))"
proof -
  let ?app = "the (tmc_app_config c)" and ?s0 = "tach_monitor_boot\<lparr>tm_init_started := True, tm_config := c\<rparr>"
  show ?thesis
  proof (cases "tmc_app_config c = None \<or> tmc_read_motor_snapshot c = None \<or> tmc_confirmed_stall c = None \<or>
      fan_count ?app < 1 \<or> int APP_CONFIG_MAX_FANS < fan_count ?app")
    case True
    then have "err = ESP_ERR_INVALID_ARG" "s' = tach_monitor_boot"
      using assms by (auto simp: tach_monitor_init_def Let_def split: if_splits)
    then show ?thesis by (simp add: tach_monitor_boot_def)
  next
    case False
    obtain e1 s1 h1 where f: "configure_fans tk ops ?app [0..<nat (fan_count ?app)] ?s0 h = (e1, s1, h1)" by (metis prod.exhaust)
    have r: "err = e1" "s' = (if e1 = ESP_OK then s1\<lparr>tm_initialized := True\<rparr> else s1)"
      using assms False f by (auto simp: tach_monitor_init_def Let_def tach_monitor_boot_def split: if_splits)
    have "\<forall>i \<in> set [0..<nat (fan_count ?app)]. i < APP_CONFIG_MAX_FANS" using False by auto
    note e = configure_fans_effect [OF f _ this]
    have "fst (tach_monitor_init tk ops c' s1 h') \<noteq> ESP_OK" if "\<not> tm_initialized s1" "tm_init_started s1" for c' h'
      using that by (simp add: tach_monitor_init_def Let_def split: option.splits)
    then show ?thesis using e r by (auto simp: tach_monitor_boot_def tach_fan_def)
  qed
qed

text \<open>A driver that refuses to start the counter, and releases everything.\<close>

definition sim_pcnt_stuck :: "int tach_ops" where
  "sim_pcnt_stuck = sim_pcnt\<lparr>pcnt_unit_start := \<lambda>_ h. (ESP_FAIL, h)\<rparr>"

definition sim_tach_config :: "int tach_monitor_config" where
  "sim_tach_config = \<lparr>tmc_app_config = Some sim_tach_app, tmc_read_motor_snapshot = Some (\<lambda>_ h. (None, h)),
     tmc_confirmed_stall = Some (\<lambda>_ h. h)\<rparr>"

theorem tach_init_transactional_witness:
  "\<exists>s' h'. tach_monitor_init sim_tach_kconfig sim_pcnt_stuck (Some sim_tach_config) tach_monitor_boot 0 = (ESP_FAIL, s', h') \<and>
     \<not> tm_initialized s' \<and> (s' = tach_monitor_boot \<or> (\<exists>i < APP_CONFIG_MAX_FANS. tach_owns (tach_fan s' i)))"
proof -
  obtain e s' h' where r: "tach_monitor_init sim_tach_kconfig sim_pcnt_stuck (Some sim_tach_config) tach_monitor_boot 0 = (e, s', h')"
    by (metis prod.exhaust)
  have "fst (tach_monitor_init sim_tach_kconfig sim_pcnt_stuck (Some sim_tach_config) tach_monitor_boot 0) = ESP_FAIL" by code_simp
  then have "e = ESP_FAIL" using r by simp
  then show ?thesis using tach_init_transactional [OF r] r by auto
qed

end
