(* ===== verification/Safety_Supervisor.thy ===== *)
theory Safety_Supervisor imports Motor_Control Tach_Monitor Platform
begin

text \<open>
  \<open>main/safety_supervisor.c\<close>: the transaction that stops every source of motion, the interlock
  that only a safe controller may enable, and the task that supervises the others. The static
  variables are the fields of \<open>safety\<close>; the functions act on a node, the supervisor's state next to
  the motor controller's and the rest of the world. The state of the modules that are only
  observed (heartbeats, MQTT health) is a part of the world. Other tasks run where a call blocks:
  \<open>sfo_take\<close> and \<open>sfo_give\<close> on the recursive mutex, \<open>sfo_delay\<close>, and \<open>sfo_others\<close> after every call into
  the motor controller and every callback.
\<close>

section \<open>Data\<close>

definition SAFETY_SUPERVISOR_REASON_CAPACITY :: nat where "SAFETY_SUPERVISOR_REASON_CAPACITY = 80"
definition SUPERVISOR_PERIOD_MS :: u32 where "SUPERVISOR_PERIOD_MS = 250"
definition SAFETY_AUTOMATIC_INHIBIT_TIMEOUT_MS :: u32 where "SAFETY_AUTOMATIC_INHIBIT_TIMEOUT_MS = 1000"
definition SAFETY_PERSIST_TIMEOUT_MS :: u32 where "SAFETY_PERSIST_TIMEOUT_MS = 3000"
definition SUPERVISOR_RESTART_RETRY_MS :: int where "SUPERVISOR_RESTART_RETRY_MS = 5000"
definition SAFETY_TACH_ACTION_TIMEOUT_MS :: int where "SAFETY_TACH_ACTION_TIMEOUT_MS = 10000"
definition SAFETY_MQTT_DISPATCH_TIMEOUT_MS :: int where "SAFETY_MQTT_DISPATCH_TIMEOUT_MS = 15000"

datatype stop_action =
  STOP_ACTION_PLAIN | STOP_ACTION_GLOBAL | STOP_ACTION_COMMUNICATION | STOP_ACTION_RMT | STOP_ACTION_TACH_ALL | STOP_ACTION_VERIFIED

datatype safety_boot_health =
    SAFETY_BOOT_INITIALIZING | SAFETY_BOOT_HEALTHY | SAFETY_BOOT_HEALTHY_OFFLINE_CONFIG
  | SAFETY_BOOT_HEALTHY_OFFLINE_WIFI | SAFETY_BOOT_FAILED_SAFE | SAFETY_BOOT_ROLLBACK_FAILED_SAFE

record stop_outcome =
  so_interlock_error :: esp_err
  so_maintenance_error :: esp_err
  so_motor_error :: esp_err
  so_automatic_error :: esp_err
  so_fallback_error :: esp_err
  so_persistence_error :: esp_err
  so_release_error :: esp_err
  so_result :: esp_err
  so_automatic_committed :: bool
  so_persistence_committed :: bool

record safety_supervisor_tach_action_health =
  tah_ready :: bool
  tah_heartbeat_us :: int
  tah_oldest_action_since_us :: int
  tah_stack_bytes :: u32

text \<open>The callbacks act on the motor controller and the world.\<close>

record 'w safety_supervisor_callbacks =
  cb_inhibit_automatic :: "(u32 \<Rightarrow> motor_state \<times> 'w \<Rightarrow> esp_err \<times> (motor_state \<times> 'w)) option"
  cb_request_persistence :: "(u32 \<Rightarrow> motor_state \<times> 'w \<Rightarrow> esp_err \<times> (motor_state \<times> 'w)) option"
  cb_notify_state :: "(motor_state \<times> 'w \<Rightarrow> motor_state \<times> 'w) option"
  cb_read_tach_action_health :: "(motor_state \<times> 'w \<Rightarrow> safety_supervisor_tach_action_health option \<times> (motor_state \<times> 'w)) option"

definition callbacks_null :: "'w safety_supervisor_callbacks" where
  "callbacks_null = \<lparr>cb_inhibit_automatic = None, cb_request_persistence = None, cb_notify_state = None,
     cb_read_tach_action_health = None\<rparr>"

record 'w safety =
  sv_stop_mutex :: "nat option"
  sv_callbacks :: "'w safety_supervisor_callbacks"
  sv_supervisor_task :: "nat option"
  sv_boot_health :: safety_boot_health
  sv_initialized :: bool
  sv_starting :: bool
  sv_started :: bool
  sv_watchdog_configured :: bool
  sv_interlock_enabled :: bool
  sv_stop_depth :: u32
  sv_safety_generation :: u32
  sv_stop_count :: u32
  sv_heartbeat_us :: int
  sv_supervision_started_us :: int
  sv_last_restart_attempt_us :: int
  sv_ramp_liveness_fault :: bool
  sv_scheduler_liveness_fault :: bool
  sv_tach_liveness_fault :: bool
  sv_mqtt_command_overflow_fault :: bool
  sv_mqtt_dispatch_liveness_fault :: bool
  sv_observed_mqtt_command_queue_drops :: u32
  sv_rmt_reboot_pending :: bool
  sv_last_stop_result :: esp_err
  sv_last_stop_reason :: string

definition safety_boot :: "'w safety" where
  "safety_boot = \<lparr>sv_stop_mutex = None, sv_callbacks = callbacks_null, sv_supervisor_task = None,
     sv_boot_health = SAFETY_BOOT_INITIALIZING, sv_initialized = False, sv_starting = False, sv_started = False,
     sv_watchdog_configured = False, sv_interlock_enabled = False, sv_stop_depth = 0, sv_safety_generation = 0,
     sv_stop_count = 0, sv_heartbeat_us = 0, sv_supervision_started_us = 0, sv_last_restart_attempt_us = 0,
     sv_ramp_liveness_fault = False, sv_scheduler_liveness_fault = False, sv_tach_liveness_fault = False,
     sv_mqtt_command_overflow_fault = False, sv_mqtt_dispatch_liveness_fault = False,
     sv_observed_mqtt_command_queue_drops = 0, sv_rmt_reboot_pending = False, sv_last_stop_result = ESP_OK,
     sv_last_stop_reason = ''none''\<rparr>"

type_synonym 'w node = "'w safety \<times> motor_state \<times> 'w"

text \<open>The options of the build.\<close>

record safety_kconfig =
  sk_motor :: motor_kconfig
  sk_tach :: tach_kconfig
  CONFIG_MOTOR_INTERLOCK_ENABLED :: bool
  CONFIG_MOTOR_INTERLOCK_ACTIVE_HIGH :: bool
  CONFIG_MOTOR_INTERLOCK_GPIO :: int
  CONFIG_SCHEDULE_ENABLED :: bool
  CONFIG_TACH_FEEDBACK_ENABLED :: bool
  CONFIG_RMT_FAILURE_REBOOT :: bool
  CONFIG_COMM_LOSS_STOP_AFTER_LEASE :: bool
  CONFIG_SUPERVISOR_TASK_WDT_MS :: u32
  CONFIG_RAMP_HEARTBEAT_TIMEOUT_MS :: int
  CONFIG_SUPERVISOR_AUX_HEARTBEAT_TIMEOUT_MS :: int
  CONFIG_COMMUNICATION_LEASE_MS :: int

text \<open>What the supervisor reads of \<open>mqtt_manager_health_t\<close>.\<close>

record mqtt_health =
  mqh_last_ack_us :: int
  mqh_command_dispatch_ready :: bool
  mqh_command_dispatch_heartbeat_us :: int
  mqh_oldest_command_since_us :: int
  mqh_command_queue_drops :: u32

record 'w safety_ops =
  sfo_motor :: "'w motor_ops"
  sfo_take :: "u32 \<Rightarrow> 'w node \<Rightarrow> bool \<times> 'w node"
  sfo_give :: "'w node \<Rightarrow> 'w node"
  sfo_others :: "'w node \<Rightarrow> 'w node"
  sfo_delay :: "u32 \<Rightarrow> 'w node \<Rightarrow> 'w node"
  sfo_create_mutex :: "'w \<Rightarrow> nat option \<times> 'w"
  sfo_delete_mutex :: "nat \<Rightarrow> 'w \<Rightarrow> 'w"
  sfo_gpio_is_valid_output :: "int \<Rightarrow> bool"
  sfo_gpio_set_level :: "int \<Rightarrow> bool \<Rightarrow> 'w \<Rightarrow> esp_err \<times> 'w"
  sfo_gpio_config_output :: "int \<Rightarrow> 'w \<Rightarrow> esp_err \<times> 'w"
  sfo_ms_to_ticks :: "u32 \<Rightarrow> u32"
  sfo_timer_us :: "'w \<Rightarrow> int \<times> 'w"
  sfo_current_task :: "'w \<Rightarrow> nat"
  sfo_wdt_reconfigure :: "u32 \<Rightarrow> 'w \<Rightarrow> esp_err \<times> 'w"
  sfo_wdt_init :: "u32 \<Rightarrow> 'w \<Rightarrow> esp_err \<times> 'w"
  sfo_wdt_add :: "'w \<Rightarrow> esp_err \<times> 'w"
  sfo_wdt_reset :: "'w \<Rightarrow> 'w"
  sfo_task_create :: "'w \<Rightarrow> nat option \<times> 'w"
  sfo_stack_bytes :: "nat \<Rightarrow> 'w \<Rightarrow> u32"
  sfo_esp_restart :: "'w \<Rightarrow> 'w"
  sfo_scheduler_heartbeat_us :: "'w \<Rightarrow> int"
  sfo_tach_heartbeat_us :: "'w \<Rightarrow> int"
  sfo_mqtt_health :: "'w \<Rightarrow> mqtt_health"

section \<open>Calls that block\<close>

definition with_stop_mutex :: "'w safety_ops \<Rightarrow> nat option \<Rightarrow> ('w node \<Rightarrow> 'r \<times> 'w node) \<Rightarrow> 'w node \<Rightarrow> 'r \<times> 'w node" where
  "with_stop_mutex ops stop_mutex f n =
     (case stop_mutex of None \<Rightarrow> f n
      | Some _ \<Rightarrow> (case f (snd (sfo_take ops portMAX_DELAY n)) of (r, n') \<Rightarrow> (r, sfo_give ops n')))"

definition motor_io :: "'w safety_ops \<Rightarrow> (motor_state \<Rightarrow> 'w \<Rightarrow> esp_err \<times> motor_state \<times> 'w) \<Rightarrow> 'w node \<Rightarrow> esp_err \<times> 'w node" where
  "motor_io ops f n = (case n of (s, m, w) \<Rightarrow> case f m w of (e, m', w') \<Rightarrow> (e, sfo_others ops (s, m', w')))"

definition callback_io :: "'w safety_ops \<Rightarrow> (motor_state \<times> 'w \<Rightarrow> 'r \<times> (motor_state \<times> 'w)) \<Rightarrow> 'w node \<Rightarrow> 'r \<times> 'w node" where
  "callback_io ops f n = (case n of (s, m, w) \<Rightarrow> case f (m, w) of (r, (m', w')) \<Rightarrow> (r, sfo_others ops (s, m', w')))"

section \<open>Helpers of the source\<close>

definition interlock_drive :: "safety_kconfig \<Rightarrow> 'w safety_ops \<Rightarrow> bool \<Rightarrow> 'w node \<Rightarrow> esp_err \<times> 'w node" where
  "interlock_drive kc ops enabled n =
     (case n of (s, m, w) \<Rightarrow>
        if CONFIG_MOTOR_INTERLOCK_ENABLED kc
        then let active_level = CONFIG_MOTOR_INTERLOCK_ACTIVE_HIGH kc
          in case sfo_gpio_set_level ops (CONFIG_MOTOR_INTERLOCK_GPIO kc) (if enabled then active_level else \<not> active_level) w of
               (error, w') \<Rightarrow> (error, (if error = ESP_OK then s\<lparr>sv_interlock_enabled := enabled\<rparr> else s, m, w'))
        else (ESP_OK, (s\<lparr>sv_interlock_enabled := True\<rparr>, m, w)))"

definition stop_motors :: "safety_kconfig \<Rightarrow> 'w safety_ops \<Rightarrow> stop_action \<Rightarrow> bool \<Rightarrow> 'w node \<Rightarrow> esp_err \<times> 'w node" where
  "stop_motors kc ops action clear_manual_targets =
     (let call = (\<lambda>f. motor_io ops (f (sk_motor kc) (sfo_motor ops) clear_manual_targets))
      in case action of
           STOP_ACTION_GLOBAL \<Rightarrow> call motor_control_inhibit_global
         | STOP_ACTION_COMMUNICATION \<Rightarrow> call motor_control_inhibit_communication
         | STOP_ACTION_RMT \<Rightarrow> call motor_control_inhibit_rmt
         | STOP_ACTION_TACH_ALL \<Rightarrow> call motor_control_inhibit_all_tach
         | STOP_ACTION_VERIFIED \<Rightarrow> call motor_control_stop_all_verified
         | STOP_ACTION_PLAIN \<Rightarrow> call motor_control_stop_all)"

definition preserve_first_error :: "esp_err \<Rightarrow> esp_err \<Rightarrow> esp_err" where
  "preserve_first_error current candidate = (if current \<noteq> ESP_OK then current else candidate)"

definition feed_supervisor_watchdog_if_current :: "safety_kconfig \<Rightarrow> 'w safety_ops \<Rightarrow> 'w node \<Rightarrow> 'w node" where
  "feed_supervisor_watchdog_if_current kc ops n =
     (case n of (s, m, w) \<Rightarrow>
        if CONFIG_SUPERVISOR_ENABLED (sk_motor kc) \<and> sv_supervisor_task s = Some (sfo_current_task ops w)
        then (s, m, sfo_wdt_reset ops w) else n)"

lemma fst_feed [simp]: "fst (feed_supervisor_watchdog_if_current kc ops n) = fst n"
  by (simp add: feed_supervisor_watchdog_if_current_def split: prod.split)

section \<open>The stop transaction\<close>

definition stop_claim_section :: "'w safety \<Rightarrow> 'w safety" where
  "stop_claim_section s =
     s\<lparr>sv_stop_depth := (if sv_stop_depth s < UINT32_MAX then sv_stop_depth s + 1 else sv_stop_depth s),
       sv_safety_generation := sv_safety_generation s + 1,
       sv_stop_count := (if sv_stop_count s < UINT32_MAX then sv_stop_count s + 1 else sv_stop_count s)\<rparr>"

definition durable_inhibit :: "stop_action \<Rightarrow> bool" where
  "durable_inhibit action \<longleftrightarrow> action = STOP_ACTION_GLOBAL \<or> action = STOP_ACTION_COMMUNICATION \<or>
     action = STOP_ACTION_RMT \<or> action = STOP_ACTION_TACH_ALL"

text \<open>The first inhibit of the outputs: the maintenance and the motor error.\<close>

definition stop_phase_motor :: "safety_kconfig \<Rightarrow> 'w safety_ops \<Rightarrow> nat option \<Rightarrow> stop_action \<Rightarrow> bool \<Rightarrow> 'w node \<Rightarrow>
    (esp_err \<times> esp_err) \<times> 'w node" where
  "stop_phase_motor kc ops stop_mutex action clear_manual_targets n =
     (if durable_inhibit action
      then case with_stop_mutex ops stop_mutex (stop_motors kc ops action clear_manual_targets) n of
             (motor_error, n') \<Rightarrow> ((ESP_OK, motor_error), n')
      else case with_stop_mutex ops stop_mutex
                  (motor_io ops (motor_control_inhibit_maintenance (sk_motor kc) (sfo_motor ops) clear_manual_targets)) n of
             (maintenance_error, n') \<Rightarrow> ((maintenance_error, ESP_OK), n'))"

definition stop_phase_automatic :: "'w safety_ops \<Rightarrow> 'w safety_supervisor_callbacks \<Rightarrow> 'w node \<Rightarrow> esp_err \<times> 'w node" where
  "stop_phase_automatic ops callbacks n =
     (case cb_inhibit_automatic callbacks of None \<Rightarrow> (ESP_OK, n)
      | Some f \<Rightarrow> callback_io ops (f (sfo_ms_to_ticks ops SAFETY_AUTOMATIC_INHIBIT_TIMEOUT_MS)) n)"

definition stop_phase_verified :: "safety_kconfig \<Rightarrow> 'w safety_ops \<Rightarrow> nat option \<Rightarrow> stop_action \<Rightarrow> bool \<Rightarrow>
    esp_err \<Rightarrow> esp_err \<Rightarrow> esp_err \<Rightarrow> 'w node \<Rightarrow> esp_err \<times> 'w node" where
  "stop_phase_verified kc ops stop_mutex action clear_manual_targets maintenance_error motor_error automatic_error n =
     (if \<not> durable_inhibit action \<and> maintenance_error = ESP_OK \<and> automatic_error = ESP_OK \<and> action = STOP_ACTION_VERIFIED
      then with_stop_mutex ops stop_mutex (stop_motors kc ops action clear_manual_targets) n
      else (motor_error, n))"

text \<open>The fallback to a global inhibit when a step of a temporary stop failed.\<close>

definition stop_phase_fallback :: "safety_kconfig \<Rightarrow> 'w safety_ops \<Rightarrow> nat option \<Rightarrow> stop_action \<Rightarrow> bool \<Rightarrow>
    esp_err \<Rightarrow> 'w node \<Rightarrow> (esp_err \<times> esp_err) \<times> 'w node" where
  "stop_phase_fallback kc ops stop_mutex action clear_manual_targets result n =
     (if \<not> durable_inhibit action \<and> result \<noteq> ESP_OK
      then case with_stop_mutex ops stop_mutex (stop_motors kc ops STOP_ACTION_GLOBAL clear_manual_targets) n of
             (fallback_error, n') \<Rightarrow> ((fallback_error, preserve_first_error result fallback_error), n')
      else ((ESP_OK, result), n))"

text \<open>The commit of cleared targets: the persistence error, the fallback error and the result.\<close>

definition stop_phase_persist :: "safety_kconfig \<Rightarrow> 'w safety_ops \<Rightarrow> 'w safety_supervisor_callbacks \<Rightarrow> nat option \<Rightarrow>
    stop_action \<Rightarrow> bool \<Rightarrow> esp_err \<Rightarrow> esp_err \<Rightarrow> 'w node \<Rightarrow> (esp_err \<times> esp_err \<times> esp_err) \<times> 'w node" where
  "stop_phase_persist kc ops callbacks stop_mutex action clear_manual_targets fallback_error result n =
     (case cb_request_persistence callbacks of None \<Rightarrow> ((ESP_OK, fallback_error, result), n)
      | Some f \<Rightarrow>
        if \<not> clear_manual_targets then ((ESP_OK, fallback_error, result), n)
        else case callback_io ops (f (sfo_ms_to_ticks ops SAFETY_PERSIST_TIMEOUT_MS))
                    (feed_supervisor_watchdog_if_current kc ops n) of (persistence_error, n1) \<Rightarrow>
          case (if \<not> durable_inhibit action \<and> persistence_error \<noteq> ESP_OK \<and> fallback_error = ESP_OK
                then with_stop_mutex ops stop_mutex (stop_motors kc ops STOP_ACTION_GLOBAL True) n1
                else (fallback_error, n1)) of (fallback_error', n2) \<Rightarrow>
            ((persistence_error, fallback_error',
              preserve_first_error (preserve_first_error result fallback_error') persistence_error), n2))"

definition stop_phase_release :: "'w safety_ops \<Rightarrow> stop_action \<Rightarrow> esp_err \<Rightarrow> 'w node \<Rightarrow> (esp_err \<times> esp_err) \<times> 'w node" where
  "stop_phase_release ops action result n =
     (if action = STOP_ACTION_PLAIN \<and> result = ESP_OK
      then case motor_io ops (\<lambda>m w. case motor_control_clear_maintenance_inhibit m of (e, m') \<Rightarrow> (e, m', w)) n of
             (release_error, n') \<Rightarrow> ((release_error, preserve_first_error result release_error), n')
      else ((ESP_OK, result), n))"

definition stop_finish_section :: "esp_err \<Rightarrow> string \<Rightarrow> 'w safety \<Rightarrow> 'w safety" where
  "stop_finish_section result reason_copy s =
     s\<lparr>sv_last_stop_result := result, sv_last_stop_reason := reason_copy,
       sv_stop_depth := (if sv_stop_depth s > 0 then sv_stop_depth s - 1 else sv_stop_depth s)\<rparr>"

definition notify_io :: "'w safety_ops \<Rightarrow> 'w safety_supervisor_callbacks \<Rightarrow> 'w node \<Rightarrow> 'w node" where
  "notify_io ops callbacks n =
     (case cb_notify_state callbacks of None \<Rightarrow> n | Some f \<Rightarrow> snd (callback_io ops (\<lambda>x. ((), f x)) n))"

text \<open>The transaction between its claim and the end of it.\<close>

definition safety_stop_body :: "safety_kconfig \<Rightarrow> 'w safety_ops \<Rightarrow> bool \<Rightarrow> stop_action \<Rightarrow> 'w node \<Rightarrow> stop_outcome \<times> 'w node" where
  "safety_stop_body kc ops clear_manual_targets action n1 =
     (let feed = feed_supervisor_watchdog_if_current kc ops;
          callbacks = sv_callbacks (fst n1); stop_mutex = sv_stop_mutex (fst n1)
      in case with_stop_mutex ops stop_mutex (interlock_drive kc ops False) n1 of (interlock_error, n2) \<Rightarrow>
         case stop_phase_motor kc ops stop_mutex action clear_manual_targets (feed n2) of ((maintenance_error, motor_error1), n3) \<Rightarrow>
         case stop_phase_automatic ops callbacks (feed n3) of (automatic_error, n4) \<Rightarrow>
         case stop_phase_verified kc ops stop_mutex action clear_manual_targets maintenance_error motor_error1 automatic_error (feed n4) of
           (motor_error, n5) \<Rightarrow>
         let result1 = preserve_first_error (preserve_first_error (preserve_first_error (preserve_first_error ESP_OK
               interlock_error) maintenance_error) motor_error) automatic_error
         in case stop_phase_fallback kc ops stop_mutex action clear_manual_targets result1 n5 of ((fallback_error1, result2), n6) \<Rightarrow>
            case stop_phase_persist kc ops callbacks stop_mutex action clear_manual_targets fallback_error1 result2 (feed n6) of
              ((persistence_error, fallback_error, result3), n7) \<Rightarrow>
            case stop_phase_release ops action result3 (feed n7) of ((release_error, result), n8) \<Rightarrow>
              (\<lparr>so_interlock_error = interlock_error, so_maintenance_error = maintenance_error, so_motor_error = motor_error,
                so_automatic_error = automatic_error, so_fallback_error = fallback_error, so_persistence_error = persistence_error,
                so_release_error = release_error, so_result = result,
                so_automatic_committed = (cb_inhibit_automatic callbacks \<noteq> None \<and> automatic_error = ESP_OK),
                so_persistence_committed = (\<not> clear_manual_targets \<or>
                  (cb_request_persistence callbacks \<noteq> None \<and> persistence_error = ESP_OK))\<rparr>, n8))"

definition safety_stop_all_internal :: "safety_kconfig \<Rightarrow> 'w safety_ops \<Rightarrow> string option \<Rightarrow> bool \<Rightarrow> stop_action \<Rightarrow> 'w node \<Rightarrow>
    stop_outcome \<times> 'w node" where
  "safety_stop_all_internal kc ops reason clear_manual_targets action n =
     (let safe_reason = (case reason of None \<Rightarrow> ''unspecified'' | Some r \<Rightarrow> r);
          reason_copy = take (SAFETY_SUPERVISOR_REASON_CAPACITY - 1) safe_reason;
          n1 = apfst stop_claim_section n
      in case safety_stop_body kc ops clear_manual_targets action n1 of (outcome, n8) \<Rightarrow>
           (outcome, notify_io ops (sv_callbacks (fst n1)) (apfst (stop_finish_section (so_result outcome) reason_copy) n8)))"

section \<open>Initialisation\<close>

definition safety_supervisor_init :: "safety_kconfig \<Rightarrow> 'w safety_ops \<Rightarrow> 'w node \<Rightarrow> esp_err \<times> 'w node" where
  "safety_supervisor_init kc ops n =
     (if sv_initialized (fst n) then (ESP_OK, n)
      else let gpio = CONFIG_MOTOR_INTERLOCK_GPIO kc;
               (gpio_error, n1) =
                 (if \<not> CONFIG_MOTOR_INTERLOCK_ENABLED kc then (ESP_OK, n)
                  else if \<not> sfo_gpio_is_valid_output ops gpio then (ESP_ERR_INVALID_ARG, n)
                  else case n of (s, m, w) \<Rightarrow>
                    case sfo_gpio_set_level ops gpio (\<not> CONFIG_MOTOR_INTERLOCK_ACTIVE_HIGH kc) w of (error, w1) \<Rightarrow>
                      if error \<noteq> ESP_OK then (error, (s, m, w1))
                      else case sfo_gpio_config_output ops gpio w1 of (error', w2) \<Rightarrow> (error', (s, m, w2)))
      in if gpio_error \<noteq> ESP_OK then (gpio_error, n1)
         else case n1 of (s, m, w) \<Rightarrow> case sfo_create_mutex ops w of
             (None, w1) \<Rightarrow> (ESP_ERR_NO_MEM, (s, m, w1))
           | (Some stop_mutex, w1) \<Rightarrow>
             let taken = (sv_stop_mutex s = None);
                 s1 = (if taken then s\<lparr>sv_stop_mutex := Some stop_mutex\<rparr> else s)
             in case interlock_drive kc ops False (s1, m, w1) of (drive_error, (s2, m2, w2)) \<Rightarrow>
                (drive_error, (if drive_error = ESP_OK then s2\<lparr>sv_initialized := True\<rparr> else s2, m2,
                   if taken then w2 else sfo_delete_mutex ops stop_mutex w2)))"

definition safety_supervisor_configure :: "'w safety_supervisor_callbacks option \<Rightarrow> 'w node \<Rightarrow> esp_err \<times> 'w node" where
  "safety_supervisor_configure callbacks n =
     (case n of (s, m, w) \<Rightarrow>
        if \<not> sv_initialized s \<or> sv_started s \<or> sv_starting s then (ESP_ERR_INVALID_STATE, n)
        else (ESP_OK, (s\<lparr>sv_callbacks := (case callbacks of None \<Rightarrow> callbacks_null | Some c \<Rightarrow> c)\<rparr>, m, w)))"

definition safety_supervisor_configure_watchdog :: "safety_kconfig \<Rightarrow> 'w safety_ops \<Rightarrow> 'w node \<Rightarrow> esp_err \<times> 'w node" where
  "safety_supervisor_configure_watchdog kc ops n =
     (case n of (s, m, w) \<Rightarrow>
        if \<not> sv_initialized s then (ESP_ERR_INVALID_STATE, n)
        else case (if CONFIG_SUPERVISOR_ENABLED (sk_motor kc)
                   then case sfo_wdt_reconfigure ops (CONFIG_SUPERVISOR_TASK_WDT_MS kc) w of (error, w1) \<Rightarrow>
                     if error = ESP_ERR_INVALID_STATE then sfo_wdt_init ops (CONFIG_SUPERVISOR_TASK_WDT_MS kc) w1 else (error, w1)
                   else (ESP_OK, w)) of (error, w2) \<Rightarrow>
          if error \<noteq> ESP_OK then (error, (s, m, w2)) else (ESP_OK, (s\<lparr>sv_watchdog_configured := True\<rparr>, m, w2)))"

section \<open>Supervision\<close>

definition heartbeat_expired :: "int \<Rightarrow> int \<Rightarrow> int \<Rightarrow> 'w safety \<Rightarrow> bool" where
  "heartbeat_expired now heartbeat timeout_us s \<longleftrightarrow>
     (let started = sv_supervision_started_us s
      in if started \<le> 0 \<or> now \<le> started then False
         else let reference = (if heartbeat > started then heartbeat else started)
              in now > reference \<and> now - reference > timeout_us)"

definition restart_attempt_due :: "int \<Rightarrow> 'w safety \<Rightarrow> bool \<times> 'w safety" where
  "restart_attempt_due now s =
     (let due = (sv_last_restart_attempt_us s = 0 \<or>
            (now > sv_last_restart_attempt_us s \<and> now - sv_last_restart_attempt_us s \<ge> SUPERVISOR_RESTART_RETRY_MS * 1000))
      in (due, if due then s\<lparr>sv_last_restart_attempt_us := now\<rparr> else s))"

text \<open>\<open>esp_restart\<close> does not return: the node it leaves is the one at the restart.\<close>

datatype 'n supervised = Continues 'n | Restarted 'n

fun and_then :: "'n supervised \<Rightarrow> ('n \<Rightarrow> 'n supervised) \<Rightarrow> 'n supervised" where
  "and_then (Continues n) f = f n"
| "and_then (Restarted n) f = Restarted n"

definition restart_io :: "'w safety_ops \<Rightarrow> 'w node \<Rightarrow> 'w node supervised" where
  "restart_io ops n = Restarted (case sfo_delay ops (sfo_ms_to_ticks ops 100) n of (s, m, w) \<Rightarrow> (s, m, sfo_esp_restart ops w))"

definition restart_after_fail_safe_stop :: "safety_kconfig \<Rightarrow> 'w safety_ops \<Rightarrow> string \<Rightarrow> 'w node \<Rightarrow> 'w node supervised" where
  "restart_after_fail_safe_stop kc ops reason n =
     (case safety_stop_all_internal kc ops (Some reason) True STOP_ACTION_GLOBAL n of (outcome, n1) \<Rightarrow>
        if so_result outcome \<noteq> ESP_OK then Continues n1 else restart_io ops n1)"

text \<open>A liveness check: the fault is recorded, and a restart attempted when one is due.\<close>

definition liveness_check :: "safety_kconfig \<Rightarrow> 'w safety_ops \<Rightarrow> int \<Rightarrow> bool \<Rightarrow> ('w safety \<Rightarrow> 'w safety) \<Rightarrow> string \<Rightarrow>
    'w node \<Rightarrow> 'w node supervised" where
  "liveness_check kc ops now expired fault reason n =
     (if \<not> expired then Continues n
      else case n of (s, m, w) \<Rightarrow> case restart_attempt_due now (fault s) of (due, s1) \<Rightarrow>
        if due then restart_after_fail_safe_stop kc ops reason (s1, m, w) else Continues (s1, m, w))"

definition check_ramp :: "safety_kconfig \<Rightarrow> 'w safety_ops \<Rightarrow> int \<Rightarrow> 'w node \<Rightarrow> 'w node supervised" where
  "check_ramp kc ops now n =
     (case n of (s, m, w) \<Rightarrow>
        liveness_check kc ops now
          (heartbeat_expired now (motor_control_ramp_heartbeat_us m) (CONFIG_RAMP_HEARTBEAT_TIMEOUT_MS kc * 1000) s)
          (\<lambda>s. s\<lparr>sv_ramp_liveness_fault := True\<rparr>) ''motor ramp heartbeat expired'' n)"

definition check_scheduler :: "safety_kconfig \<Rightarrow> 'w safety_ops \<Rightarrow> int \<Rightarrow> 'w node \<Rightarrow> 'w node supervised" where
  "check_scheduler kc ops now n =
     (case n of (s, m, w) \<Rightarrow>
        liveness_check kc ops now
          (heartbeat_expired now (sfo_scheduler_heartbeat_us ops w) (CONFIG_SUPERVISOR_AUX_HEARTBEAT_TIMEOUT_MS kc * 1000) s)
          (\<lambda>s. s\<lparr>sv_scheduler_liveness_fault := True\<rparr>) ''scheduler heartbeat expired'' n)"

definition check_tach :: "safety_kconfig \<Rightarrow> 'w safety_ops \<Rightarrow> int \<Rightarrow> 'w node \<Rightarrow> 'w node supervised" where
  "check_tach kc ops now n =
     (case n of (s, m, w) \<Rightarrow>
        let tach_timeout_ms = CONFIG_SUPERVISOR_AUX_HEARTBEAT_TIMEOUT_MS kc;
            tach_minimum_ms = CONFIG_TACH_SAMPLE_MS (sk_tach kc) * 2 + 1000
        in liveness_check kc ops now
          (heartbeat_expired now (sfo_tach_heartbeat_us ops w)
            ((if tach_timeout_ms < tach_minimum_ms then tach_minimum_ms else tach_timeout_ms) * 1000) s)
          (\<lambda>s. s\<lparr>sv_tach_liveness_fault := True\<rparr>) ''tach monitor heartbeat expired'' n)"

definition check_tach_action :: "safety_kconfig \<Rightarrow> 'w safety_ops \<Rightarrow> int \<Rightarrow> 'w node \<Rightarrow> 'w node supervised" where
  "check_tach_action kc ops now n =
     (case (case cb_read_tach_action_health (sv_callbacks (fst n)) of None \<Rightarrow> (None, n)
            | Some f \<Rightarrow> callback_io ops f n) of (health, n1) \<Rightarrow>
        let action_timeout_ms = (if CONFIG_SUPERVISOR_AUX_HEARTBEAT_TIMEOUT_MS kc < SAFETY_TACH_ACTION_TIMEOUT_MS
              then SAFETY_TACH_ACTION_TIMEOUT_MS else CONFIG_SUPERVISOR_AUX_HEARTBEAT_TIMEOUT_MS kc);
            bad = (case health of None \<Rightarrow> True
              | Some a \<Rightarrow> \<not> tah_ready a \<or> heartbeat_expired now (tah_heartbeat_us a) (action_timeout_ms * 1000) (fst n1) \<or>
                  (tah_oldest_action_since_us a > 0 \<and> now > tah_oldest_action_since_us a \<and>
                   now - tah_oldest_action_since_us a > action_timeout_ms * 1000))
        in liveness_check kc ops now bad (\<lambda>s. s\<lparr>sv_tach_liveness_fault := True\<rparr>) ''tach safety-action task expired'' n1)"

definition check_rmt :: "safety_kconfig \<Rightarrow> 'w safety_ops \<Rightarrow> int \<Rightarrow> 'w node \<Rightarrow> 'w node supervised" where
  "check_rmt kc ops now n =
     (case n of (s, m, w) \<Rightarrow> case motor_control_take_rmt_fault_pending m of (pending, m1) \<Rightarrow>
        if \<not> CONFIG_RMT_FAILURE_REBOOT kc
        then Continues (if pending
               then snd (safety_stop_all_internal kc ops (Some ''repeated RMT failures'') False STOP_ACTION_RMT (s, m1, w))
               else (s, m1, w))
        else let s1 = (if pending then s\<lparr>sv_rmt_reboot_pending := True\<rparr> else s)
          in if \<not> sv_rmt_reboot_pending s1 then Continues (s1, m1, w)
             else case restart_attempt_due now s1 of (due, s2) \<Rightarrow>
               if \<not> due then Continues (s2, m1, w)
               else case safety_stop_all_internal kc ops (Some ''repeated RMT failures'') True STOP_ACTION_RMT (s2, m1, w) of
                 (outcome, n1) \<Rightarrow> if so_automatic_committed outcome \<and> so_persistence_committed outcome
                                  then restart_io ops n1 else Continues n1)"

definition check_mqtt_dispatch :: "safety_kconfig \<Rightarrow> 'w safety_ops \<Rightarrow> int \<Rightarrow> mqtt_health \<Rightarrow> 'w node \<Rightarrow> 'w node supervised" where
  "check_mqtt_dispatch kc ops now health n =
     liveness_check kc ops now
       (\<not> mqh_command_dispatch_ready health \<or>
        heartbeat_expired now (mqh_command_dispatch_heartbeat_us health) (SAFETY_MQTT_DISPATCH_TIMEOUT_MS * 1000) (fst n) \<or>
        (mqh_oldest_command_since_us health > 0 \<and> now > mqh_oldest_command_since_us health \<and>
         now - mqh_oldest_command_since_us health > SAFETY_MQTT_DISPATCH_TIMEOUT_MS * 1000))
       (\<lambda>s. s\<lparr>sv_mqtt_dispatch_liveness_fault := True\<rparr>) ''MQTT command dispatcher expired'' n"

definition check_mqtt_overflow :: "safety_kconfig \<Rightarrow> 'w safety_ops \<Rightarrow> mqtt_health \<Rightarrow> 'w node \<Rightarrow> 'w node" where
  "check_mqtt_overflow kc ops health n =
     (case n of (s, m, w) \<Rightarrow>
        if mqh_command_queue_drops health = sv_observed_mqtt_command_queue_drops s then n
        else snd (safety_stop_all_internal kc ops (Some ''MQTT command queue overflow'') True STOP_ACTION_COMMUNICATION
               (s\<lparr>sv_observed_mqtt_command_queue_drops := mqh_command_queue_drops health,
                  sv_mqtt_command_overflow_fault := True\<rparr>, m, w)))"

definition check_lease :: "safety_kconfig \<Rightarrow> 'w safety_ops \<Rightarrow> int \<Rightarrow> mqtt_health \<Rightarrow> 'w node \<Rightarrow> 'w node" where
  "check_lease kc ops now health n =
     (case n of (s, m, w) \<Rightarrow>
        if CONFIG_COMM_LOSS_STOP_AFTER_LEASE kc \<and> mqh_last_ack_us health > 0 \<and> now > mqh_last_ack_us health \<and>
           now - mqh_last_ack_us health > CONFIG_COMMUNICATION_LEASE_MS kc * 1000
        then case motor_control_get_health_snapshot (sfo_motor ops) m w of (motor_health, w1) \<Rightarrow>
          if \<not> hs_communication_inhibited motor_health
          then snd (safety_stop_all_internal kc ops (Some ''MQTT communication lease expired'') True STOP_ACTION_COMMUNICATION (s, m, w1))
          else (s, m, w1)
        else n)"

definition supervisor_task_start :: "safety_kconfig \<Rightarrow> 'w safety_ops \<Rightarrow> 'w node \<Rightarrow> 'w node supervised" where
  "supervisor_task_start kc ops n =
     (case n of (s, m, w) \<Rightarrow> case sfo_timer_us ops w of (supervision_started, w1) \<Rightarrow>
        let s1 = s\<lparr>sv_supervision_started_us := supervision_started\<rparr>
        in if \<not> CONFIG_SUPERVISOR_ENABLED (sk_motor kc) then Continues (s1, m, w1)
           else case sfo_wdt_add ops w1 of (watchdog_error, w2) \<Rightarrow>
             if watchdog_error = ESP_OK then Continues (s1, m, w2)
             else restart_after_fail_safe_stop kc ops ''supervisor watchdog registration failed'' (s1, m, w2))"

definition supervisor_iteration :: "safety_kconfig \<Rightarrow> 'w safety_ops \<Rightarrow> 'w node \<Rightarrow> 'w node supervised" where
  "supervisor_iteration kc ops n =
     (case n of (s, m, w) \<Rightarrow> case sfo_timer_us ops w of (now, w1) \<Rightarrow>
        let enabled = CONFIG_SUPERVISOR_ENABLED (sk_motor kc);
            r1 = (if enabled then check_ramp kc ops now (s, m, w1) else Continues (s, m, w1));
            r2 = and_then r1 (if enabled \<and> CONFIG_SCHEDULE_ENABLED kc then check_scheduler kc ops now else Continues);
            r3 = and_then r2 (if enabled \<and> CONFIG_TACH_FEEDBACK_ENABLED kc then check_tach kc ops now else Continues);
            r4 = and_then r3 (if enabled \<and> CONFIG_TACH_FEEDBACK_ENABLED kc then check_tach_action kc ops now else Continues);
            r5 = and_then r4 (check_rmt kc ops now)
        in and_then r5 (\<lambda>n5. let health = sfo_mqtt_health ops (snd (snd n5))
             in and_then (check_mqtt_dispatch kc ops now health n5) (\<lambda>n6.
                case check_lease kc ops now health (check_mqtt_overflow kc ops health n6) of (s, m, w) \<Rightarrow>
                  let w1 = (if enabled then sfo_wdt_reset ops w else w)
                  in case sfo_timer_us ops w1 of (t, w2) \<Rightarrow>
                     Continues (sfo_delay ops (sfo_ms_to_ticks ops SUPERVISOR_PERIOD_MS) (s\<lparr>sv_heartbeat_us := t\<rparr>, m, w2)))))"

definition safety_supervisor_start :: "safety_kconfig \<Rightarrow> 'w safety_ops \<Rightarrow> 'w node \<Rightarrow> esp_err \<times> 'w node" where
  "safety_supervisor_start kc ops n =
     (case n of (s, m, w) \<Rightarrow>
        if \<not> sv_initialized s then (ESP_ERR_INVALID_STATE, n)
        else if sv_started s then (ESP_OK, n)
        else if sv_starting s then (ESP_ERR_INVALID_STATE, n)
        else if CONFIG_SUPERVISOR_ENABLED (sk_motor kc) \<and> \<not> sv_watchdog_configured s then (ESP_ERR_INVALID_STATE, n)
        else case sfo_others ops (s\<lparr>sv_starting := True\<rparr>, m, w) of (s1, m1, w1) \<Rightarrow>
          case sfo_task_create ops w1 of
            (None, w2) \<Rightarrow> (ESP_ERR_NO_MEM, (s1\<lparr>sv_starting := False\<rparr>, m1, w2))
          | (Some task, w2) \<Rightarrow> (ESP_OK, (s1\<lparr>sv_starting := False, sv_supervisor_task := Some task, sv_started := True\<rparr>, m1, w2)))"

section \<open>The interlock and the command guard\<close>

definition safety_supervisor_enable_output_if_safe :: "safety_kconfig \<Rightarrow> 'w safety_ops \<Rightarrow> 'w node \<Rightarrow> bool \<times> 'w node" where
  "safety_supervisor_enable_output_if_safe kc ops n =
     with_stop_mutex ops (sv_stop_mutex (fst n)) (\<lambda>n1.
       let can_attempt = (sv_initialized (fst n1) \<and> sv_stop_depth (fst n1) = 0); generation = sv_safety_generation (fst n1)
       in if \<not> can_attempt \<or> \<not> motor_control_output_allowed (fst (snd n1)) then (False, n1)
          else let n2 = sfo_others ops n1;
                   unchanged = (sv_initialized (fst n2) \<and> sv_stop_depth (fst n2) = 0 \<and> generation = sv_safety_generation (fst n2))
          in case (if unchanged then interlock_drive kc ops True (sfo_others ops n2) else (ESP_ERR_INVALID_STATE, n2)) of (error, n3) \<Rightarrow>
             if error \<noteq> ESP_OK then (False, n3)
             else if \<not> motor_control_output_allowed (fst (snd n3)) then (False, snd (interlock_drive kc ops False n3))
             else (True, n3)) n"

definition safety_supervisor_output_command_begin :: "'w safety_ops \<Rightarrow> u32 \<Rightarrow> 'w node \<Rightarrow> esp_err \<times> 'w node" where
  "safety_supervisor_output_command_begin ops timeout_ticks n =
     (if \<not> sv_initialized (fst n) \<or> sv_stop_mutex (fst n) = None then (ESP_ERR_INVALID_STATE, n)
      else case sfo_take ops timeout_ticks n of
        (False, n1) \<Rightarrow> (ESP_ERR_TIMEOUT, n1)
      | (True, n1) \<Rightarrow> if sv_stop_depth (fst n1) \<noteq> 0 then (ESP_ERR_INVALID_STATE, sfo_give ops n1) else (ESP_OK, n1))"

definition safety_supervisor_output_command_end :: "'w safety_ops \<Rightarrow> 'w node \<Rightarrow> 'w node" where
  "safety_supervisor_output_command_end ops n = (case sv_stop_mutex (fst n) of None \<Rightarrow> n | Some _ \<Rightarrow> sfo_give ops n)"

section \<open>The other operations\<close>

definition safety_supervisor_stop_all :: "safety_kconfig \<Rightarrow> 'w safety_ops \<Rightarrow> string option \<Rightarrow> bool \<Rightarrow> bool \<Rightarrow> 'w node \<Rightarrow> esp_err \<times> 'w node" where
  "safety_supervisor_stop_all kc ops reason clear_manual_targets latch_global n =
     apfst so_result (safety_stop_all_internal kc ops reason clear_manual_targets
       (if latch_global then STOP_ACTION_GLOBAL else STOP_ACTION_PLAIN) n)"

definition safety_supervisor_prepare_for_ota :: "safety_kconfig \<Rightarrow> 'w safety_ops \<Rightarrow> bool \<Rightarrow> 'w node \<Rightarrow> esp_err \<times> 'w node" where
  "safety_supervisor_prepare_for_ota kc ops clear_manual_targets n =
     apfst so_result (safety_stop_all_internal kc ops (Some ''OTA preparation'') clear_manual_targets STOP_ACTION_VERIFIED n)"

definition safety_supervisor_release_maintenance :: "'w node \<Rightarrow> esp_err \<times> 'w node" where
  "safety_supervisor_release_maintenance n =
     (case n of (s, m, w) \<Rightarrow> case motor_control_clear_maintenance_inhibit m of (e, m') \<Rightarrow> (e, (s, m', w)))"

definition safety_supervisor_stop_for_tach_all :: "safety_kconfig \<Rightarrow> 'w safety_ops \<Rightarrow> string option \<Rightarrow> bool \<Rightarrow> 'w node \<Rightarrow> esp_err \<times> 'w node" where
  "safety_supervisor_stop_for_tach_all kc ops reason clear_manual_targets n =
     apfst so_result (safety_stop_all_internal kc ops reason clear_manual_targets STOP_ACTION_TACH_ALL n)"

definition safety_supervisor_interlock_enabled :: "'w safety \<Rightarrow> bool" where
  "safety_supervisor_interlock_enabled s = sv_interlock_enabled s"

definition safety_supervisor_interlock_present :: "safety_kconfig \<Rightarrow> bool" where
  "safety_supervisor_interlock_present kc = CONFIG_MOTOR_INTERLOCK_ENABLED kc"

text \<open>The range check of the source cannot fail on the datatype.\<close>

definition safety_supervisor_set_boot_health :: "safety_boot_health \<Rightarrow> 'w safety \<Rightarrow> 'w safety" where
  "safety_supervisor_set_boot_health health s = s\<lparr>sv_boot_health := health\<rparr>"

fun safety_supervisor_boot_health_name :: "safety_boot_health \<Rightarrow> string" where
  "safety_supervisor_boot_health_name SAFETY_BOOT_INITIALIZING = ''initializing''"
| "safety_supervisor_boot_health_name SAFETY_BOOT_HEALTHY = ''healthy''"
| "safety_supervisor_boot_health_name SAFETY_BOOT_HEALTHY_OFFLINE_CONFIG = ''healthy_offline_config''"
| "safety_supervisor_boot_health_name SAFETY_BOOT_HEALTHY_OFFLINE_WIFI = ''healthy_offline_wifi''"
| "safety_supervisor_boot_health_name SAFETY_BOOT_FAILED_SAFE = ''failed_safe''"
| "safety_supervisor_boot_health_name SAFETY_BOOT_ROLLBACK_FAILED_SAFE = ''rollback_failed_safe''"

record safety_supervisor_health =
  sh_initialized :: bool
  sh_hardware_interlock_present :: bool
  sh_interlock_enabled :: bool
  sh_supervisor_started :: bool
  sh_watchdog_configured :: bool
  sh_stop_in_progress :: bool
  sh_global_safety_latched :: bool
  sh_communication_failsafe_active :: bool
  sh_rmt_inhibited :: bool
  sh_maintenance_inhibited :: bool
  sh_ramp_liveness_fault :: bool
  sh_scheduler_liveness_fault :: bool
  sh_tach_liveness_fault :: bool
  sh_tach_action_ready :: bool
  sh_tach_action_pending :: bool
  sh_tach_action_age_ms :: int
  sh_tach_action_stack_bytes :: u32
  sh_mqtt_command_overflow_fault :: bool
  sh_mqtt_dispatch_liveness_fault :: bool
  sh_boot_health :: safety_boot_health
  sh_heartbeat_us :: int
  sh_stack_bytes :: u32
  sh_stop_count :: u32
  sh_last_stop_result :: esp_err
  sh_last_stop_reason :: string

definition safety_supervisor_health_snapshot :: "safety_kconfig \<Rightarrow> 'w safety_ops \<Rightarrow> 'w node \<Rightarrow> safety_supervisor_health \<times> 'w node" where
  "safety_supervisor_health_snapshot kc ops n =
     (case n of (s, m, w) \<Rightarrow> case motor_control_get_health_snapshot (sfo_motor ops) m w of (motor_health, w1) \<Rightarrow>
        let snapshot = \<lparr>sh_initialized = sv_initialized s, sh_hardware_interlock_present = CONFIG_MOTOR_INTERLOCK_ENABLED kc,
              sh_interlock_enabled = sv_interlock_enabled s, sh_supervisor_started = sv_started s,
              sh_watchdog_configured = sv_watchdog_configured s,
              sh_stop_in_progress = (sv_stop_depth s > 0 \<or> hs_stop_in_progress motor_health),
              sh_global_safety_latched = hs_global_inhibited motor_health,
              sh_communication_failsafe_active = hs_communication_inhibited motor_health,
              sh_rmt_inhibited = hs_rmt_inhibited motor_health, sh_maintenance_inhibited = hs_maintenance_inhibited motor_health,
              sh_ramp_liveness_fault = sv_ramp_liveness_fault s, sh_scheduler_liveness_fault = sv_scheduler_liveness_fault s,
              sh_tach_liveness_fault = sv_tach_liveness_fault s, sh_tach_action_ready = \<not> CONFIG_TACH_FEEDBACK_ENABLED kc,
              sh_tach_action_pending = False, sh_tach_action_age_ms = 0, sh_tach_action_stack_bytes = 0,
              sh_mqtt_command_overflow_fault = sv_mqtt_command_overflow_fault s,
              sh_mqtt_dispatch_liveness_fault = sv_mqtt_dispatch_liveness_fault s, sh_boot_health = sv_boot_health s,
              sh_heartbeat_us = sv_heartbeat_us s,
              sh_stack_bytes = (case sv_supervisor_task s of None \<Rightarrow> 0 | Some task \<Rightarrow> sfo_stack_bytes ops task w1),
              sh_stop_count = sv_stop_count s, sh_last_stop_result = sv_last_stop_result s,
              sh_last_stop_reason = sv_last_stop_reason s\<rparr>
        in case cb_read_tach_action_health (sv_callbacks s) of
             None \<Rightarrow> (snapshot, (s, m, w1))
           | Some f \<Rightarrow>
             if \<not> CONFIG_TACH_FEEDBACK_ENABLED kc then (snapshot, (s, m, w1))
             else case callback_io ops f (s, m, w1) of
               (None, n2) \<Rightarrow> (snapshot, n2)
             | (Some a, (s2, m2, w2)) \<Rightarrow>
               case sfo_timer_us ops w2 of (now, w3) \<Rightarrow>
                 (snapshot\<lparr>sh_tach_action_ready := tah_ready a, sh_tach_action_pending := (tah_oldest_action_since_us a > 0),
                    sh_tach_action_age_ms := (if tah_oldest_action_since_us a > 0 \<and> now > tah_oldest_action_since_us a
                      then (now - tah_oldest_action_since_us a) div 1000 else 0),
                    sh_tach_action_stack_bytes := tah_stack_bytes a\<rparr>, (s2, m2, w3)))"

definition safety_supervisor_heartbeat_us :: "'w safety \<Rightarrow> int" where
  "safety_supervisor_heartbeat_us s = sv_heartbeat_us s"

definition safety_supervisor_stack_bytes :: "'w safety_ops \<Rightarrow> 'w node \<Rightarrow> u32" where
  "safety_supervisor_stack_bytes ops n =
     (case n of (s, m, w) \<Rightarrow> case sv_supervisor_task s of None \<Rightarrow> 0 | Some task \<Rightarrow> sfo_stack_bytes ops task w)"

end
