(* ===== verification/Safety_Protocol.thy ===== *)
theory Safety_Protocol imports Safety_Supervisor Motor_Properties
begin

text \<open>
  The interlock under concurrency. A stop claims the supervisor before it takes the mutex, switches the
  interlock off under it, and gives the claim back when the whole transaction is over; an enabler holds
  the mutex from its check that there is no claim until the interlock is on. \<open>safety_step\<close> is that
  protocol with a ghost state of who holds, claimed, drove and checked what; the operations of the
  supervisor are shown to follow it, whatever other tasks do where they block.
\<close>

section \<open>The protocol\<close>

record guard =
  g_holder :: "(nat \<times> nat) option"
  g_claims :: "nat set"
  g_driven :: "nat set"
  g_checked :: "nat option"

definition holds :: "nat \<Rightarrow> guard \<Rightarrow> nat" where
  "holds t g = (case g_holder g of None \<Rightarrow> 0 | Some (u, k) \<Rightarrow> if u = t then k else 0)"

definition same_lock_fields :: "'w safety \<Rightarrow> 'w safety \<Rightarrow> bool" where
  "same_lock_fields s s' \<longleftrightarrow> sv_stop_depth s' = sv_stop_depth s \<and> sv_interlock_enabled s' = sv_interlock_enabled s \<and>
     sv_stop_mutex s' = sv_stop_mutex s \<and> sv_initialized s' = sv_initialized s"

inductive safety_step :: "nat \<Rightarrow> 'w safety \<times> guard \<Rightarrow> 'w safety \<times> guard \<Rightarrow> bool" for t where
  claim: "sv_stop_depth s < UINT32_MAX \<Longrightarrow> t \<notin> g_claims g \<Longrightarrow>
    safety_step t (s, g) (stop_claim_section s, g\<lparr>g_claims := insert t (g_claims g)\<rparr>)"
| take: "g_holder g = None \<or> 0 < holds t g \<Longrightarrow> safety_step t (s, g) (s, g\<lparr>g_holder := Some (t, Suc (holds t g))\<rparr>)"
| give: "holds t g = Suc k \<Longrightarrow> g_checked g \<noteq> Some t \<Longrightarrow>
    safety_step t (s, g) (s, g\<lparr>g_holder := (if k = 0 then None else Some (t, k))\<rparr>)"
| drive_off: "0 < holds t g \<Longrightarrow> t \<in> g_claims g \<Longrightarrow> g_checked g \<noteq> Some t \<Longrightarrow>
    safety_step t (s, g) (s\<lparr>sv_interlock_enabled := False\<rparr>, g\<lparr>g_driven := insert t (g_driven g)\<rparr>)"
| check: "0 < holds t g \<Longrightarrow> sv_stop_depth s = 0 \<Longrightarrow> safety_step t (s, g) (s, g\<lparr>g_checked := Some t\<rparr>)"
| drive_on: "g_checked g = Some t \<Longrightarrow>
    safety_step t (s, g) (s\<lparr>sv_interlock_enabled := True\<rparr>, g\<lparr>g_checked := None\<rparr>)"
| uncheck: "g_checked g = Some t \<Longrightarrow> safety_step t (s, g) (s, g\<lparr>g_checked := None\<rparr>)"
| enable_off: "0 < holds t g \<Longrightarrow> safety_step t (s, g) (s\<lparr>sv_interlock_enabled := False\<rparr>, g)"
| leave: "t \<in> g_claims g \<Longrightarrow> safety_step t (s, g)
    (stop_finish_section result reason s, g\<lparr>g_claims := g_claims g - {t}, g_driven := g_driven g - {t}\<rparr>)"
| other: "same_lock_fields s s' \<Longrightarrow> safety_step t (s, g) (s', g)"

inductive_cases safety_stepE: "safety_step t (s, g) (s', g')"

definition safety_run :: "'w safety \<times> guard \<Rightarrow> 'w safety \<times> guard \<Rightarrow> bool" where
  "safety_run = (\<lambda>x y. \<exists>t. safety_step t x y)\<^sup>*\<^sup>*"

definition others_moves :: "nat \<Rightarrow> 'w safety \<times> guard \<Rightarrow> 'w safety \<times> guard \<Rightarrow> bool" where
  "others_moves t = (\<lambda>x y. \<exists>u. u \<noteq> t \<and> safety_step u x y)\<^sup>*\<^sup>*"

fun safety_inv :: "'w safety \<times> guard \<Rightarrow> bool" where
  "safety_inv (s, g) \<longleftrightarrow> finite (g_claims g) \<and> unat (sv_stop_depth s) = card (g_claims g) \<and> g_driven g \<subseteq> g_claims g \<and>
     (g_driven g \<noteq> {} \<longrightarrow> \<not> sv_interlock_enabled s) \<and>
     (\<forall>u. g_checked g = Some u \<longrightarrow> 0 < holds u g \<and> g_driven g = {}) \<and>
     (\<forall>u k. g_holder g = Some (u, k) \<longrightarrow> 0 < k) \<and> sv_stop_mutex s \<noteq> None"

section \<open>The invariant\<close>

lemma holds_one: "0 < holds t g \<Longrightarrow> 0 < holds u g \<Longrightarrow> t = u"
  by (auto simp: holds_def split: option.splits if_splits)

lemma holds_simps [simp]:
  "holds t (g\<lparr>g_claims := c\<rparr>) = holds t g" "holds t (g\<lparr>g_driven := d\<rparr>) = holds t g"
  "holds t (g\<lparr>g_checked := e\<rparr>) = holds t g" "holds t (g\<lparr>g_holder := None\<rparr>) = 0"
  "holds t (g\<lparr>g_holder := Some (u, k)\<rparr>) = (if u = t then k else 0)"
  by (simp_all add: holds_def)

lemma claim_depth:
  assumes "sv_stop_depth s < UINT32_MAX"
  shows "unat (sv_stop_depth (stop_claim_section s)) = Suc (unat (sv_stop_depth s))"
proof -
  have "sv_stop_depth s \<noteq> UINT32_MAX" using assms by auto
  then have "1 + sv_stop_depth s \<noteq> 0" using u32_inc_nonzero [of "sv_stop_depth s"] by (simp add: UINT32_MAX_def add.commute)
  from unatSuc [OF this] show ?thesis using assms by (simp add: stop_claim_section_def add.commute)
qed

lemma not_checked:
  assumes "safety_inv (s, g)" and "0 < holds t g" and "g_checked g \<noteq> Some t"
  shows "g_checked g = None"
proof (cases "g_checked g")
  case (Some u)
  then have "0 < holds u g" using assms(1) by simp
  then show ?thesis using holds_one [OF assms(2)] assms(3) Some by simp
qed

lemma safety_step_inv: "safety_step t x y \<Longrightarrow> safety_inv x \<Longrightarrow> safety_inv y"
proof (induction rule: safety_step.induct)
  case (claim s g)
  then show ?case using claim_depth [OF claim(1)] by (auto simp: stop_claim_section_def)
next
  case (take g s)
  then have "g_checked g = Some u \<Longrightarrow> u = t" for u
    using holds_one [of t g u] by (auto simp: holds_def split: option.splits)
  then show ?case using take by auto
next
  case (give g k s)
  then have "g_checked g = None" by (intro not_checked [of s g t]) simp_all
  then show ?case using give by simp
next
  case (drive_off g s)
  then have "g_checked g = None" by (intro not_checked [of s g t]) simp_all
  then show ?case using drive_off by simp
next
  case (check g s)
  then show ?case by auto
next
  case (leave g s result reason)
  then have "0 < unat (sv_stop_depth s)" by (auto simp: card_gt_0_iff)
  then have "unat (sv_stop_depth (stop_finish_section result reason s)) = unat (sv_stop_depth s) - 1"
    by (simp add: stop_finish_section_def word_less_nat_alt unat_minus_one unat_gt_0)
  then show ?case using leave by (auto simp: stop_finish_section_def)
qed (auto simp: same_lock_fields_def)

lemma safety_run_inv: "safety_run x y \<Longrightarrow> safety_inv x \<Longrightarrow> safety_inv y"
  unfolding safety_run_def by (induction rule: rtranclp_induct) (auto intro: safety_step_inv)

declare safety_inv.simps [simp del]

section \<open>What other tasks leave alone\<close>

text \<open>What a task knows of the ghost state: whether it has claimed, driven and checked, and how often it
  holds the mutex.\<close>

definition mine :: "nat \<Rightarrow> guard \<Rightarrow> bool \<times> bool \<times> bool \<times> nat" where
  "mine t g = (t \<in> g_claims g, t \<in> g_driven g, g_checked g = Some t, holds t g)"

lemma other_step_mine: "safety_step u x y \<Longrightarrow> u \<noteq> t \<Longrightarrow> safety_inv x \<Longrightarrow> mine t (snd y) = mine t (snd x)"
proof (induction rule: safety_step.induct)
  case (take g s)
  then show ?case by (auto simp: mine_def holds_def split: option.splits if_splits)
next
  case (give g k s)
  then show ?case by (auto simp: mine_def holds_def split: option.splits if_splits)
next
  case (check g s)
  have "g_checked g \<noteq> Some t" using check holds_one [of u g t] by (auto simp: safety_inv.simps)
  then show ?case using check by (simp add: mine_def)
qed (auto simp: mine_def)

lemma other_step_mutex: "safety_step u x y \<Longrightarrow> sv_stop_mutex (fst y) = sv_stop_mutex (fst x) \<and> sv_initialized (fst y) = sv_initialized (fst x)"
  by (induction rule: safety_step.induct) (auto simp: stop_claim_section_def stop_finish_section_def same_lock_fields_def)

lemma others_moves_run: "others_moves t x y \<Longrightarrow> safety_run x y"
  unfolding others_moves_def safety_run_def by (induction rule: rtranclp_induct) (auto intro: rtranclp.rtrancl_into_rtrancl)

lemma others_moves_mine: "others_moves t x y \<Longrightarrow> safety_inv x \<Longrightarrow> mine t (snd y) = mine t (snd x)"
proof -
  assume "others_moves t x y" "safety_inv x"
  then have "mine t (snd y) = mine t (snd x) \<and> safety_inv y"
    unfolding others_moves_def
    by (induction rule: rtranclp_induct) (auto dest: other_step_mine safety_step_inv)
  then show ?thesis ..
qed

lemma safety_run_mutex: "safety_run x y \<Longrightarrow> sv_stop_mutex (fst y) = sv_stop_mutex (fst x) \<and> sv_initialized (fst y) = sv_initialized (fst x)"
  unfolding safety_run_def by (induction rule: rtranclp_induct) (auto dest: other_step_mutex)

section \<open>The environment of a task\<close>

text \<open>Wherever task \<open>t\<close> blocks, the other tasks take steps of the protocol; it is granted the mutex when
  no other task holds it, always if it waits without limit.\<close>

definition safety_env :: "nat \<Rightarrow> 'w safety_ops \<Rightarrow> bool" where
  "safety_env t ops \<longleftrightarrow>
     (\<forall>n g. safety_inv (fst n, g) \<longrightarrow> (\<exists>g'. others_moves t (fst n, g) (fst (sfo_others ops n), g'))) \<and>
     (\<forall>n g. safety_inv (fst n, g) \<longrightarrow> (\<exists>g'. others_moves t (fst n, g) (fst (sfo_give ops n), g'))) \<and>
     (\<forall>ticks n g. safety_inv (fst n, g) \<longrightarrow> (\<exists>g'. others_moves t (fst n, g) (fst (snd (sfo_take ops ticks n)), g') \<and>
        (fst (sfo_take ops ticks n) \<longrightarrow> g_holder g' = None \<or> 0 < holds t g'))) \<and>
     (\<forall>n. fst (sfo_take ops portMAX_DELAY n))"

text \<open>The other tasks can always release the mutex, so such an environment exists.\<close>

lemma others_give:
  "g_holder g = Some (u, Suc k) \<Longrightarrow> u \<noteq> t \<Longrightarrow> g_checked g \<noteq> Some u \<Longrightarrow> others_moves t (s, g) (s, g\<lparr>g_holder := None\<rparr>)"
proof (induction k arbitrary: g)
  case 0
  then have "safety_step u (s, g) (s, g\<lparr>g_holder := None\<rparr>)" using give [of u g 0 s] by (simp add: holds_def)
  then show ?case using 0(2) unfolding others_moves_def by (intro r_into_rtranclp) blast
next
  case (Suc k)
  let ?g = "g\<lparr>g_holder := Some (u, Suc k)\<rparr>"
  have "safety_step u (s, g) (s, ?g)" using Suc(2,4) give [of u g "Suc k" s] by (simp add: holds_def)
  moreover have "others_moves t (s, ?g) (s, g\<lparr>g_holder := None\<rparr>)" using Suc.IH [of ?g] Suc(3,4) by simp
  ultimately show ?case using Suc(3) unfolding others_moves_def by (intro converse_rtranclp_into_rtranclp [of _ "(s, g)"]) blast+
qed

lemma others_release:
  assumes "safety_inv (s, g)"
  shows "\<exists>g'. others_moves t (s, g) (s, g') \<and> (g_holder g' = None \<or> 0 < holds t g')"
proof (cases "g_holder g = None \<or> 0 < holds t g")
  case True
  then show ?thesis unfolding others_moves_def by blast
next
  case False
  then obtain u k where h: "g_holder g = Some (u, Suc k)" using assms
    by (cases "g_holder g") (auto simp: safety_inv.simps gr0_conv_Suc)
  have u: "u \<noteq> t" using False h by (auto simp: holds_def)
  let ?g = "if g_checked g = Some u then g\<lparr>g_checked := None\<rparr> else g"
  have "others_moves t (s, g) (s, ?g)" using u uncheck [of g u s] unfolding others_moves_def by (auto intro: r_into_rtranclp)
  moreover have "others_moves t (s, ?g) (s, ?g\<lparr>g_holder := None\<rparr>)"
    by (rule others_give) (use h u in \<open>auto split: if_splits\<close>)
  ultimately have "others_moves t (s, g) (s, ?g\<lparr>g_holder := None\<rparr>)" unfolding others_moves_def by (rule rtranclp_trans)
  then show ?thesis by (intro exI [of _ "?g\<lparr>g_holder := None\<rparr>"]) simp
qed

lemma others_moves_refl [simp]: "others_moves t x x"
  by (simp add: others_moves_def)

text \<open>A part of the code of \<open>t\<close> moves the protocol and leaves what \<open>t\<close> knows as it was.\<close>

definition moves :: "nat \<Rightarrow> 'w safety \<times> guard \<Rightarrow> 'w safety \<times> guard \<Rightarrow> bool" where
  "moves t x y \<longleftrightarrow> safety_run x y \<and> mine t (snd y) = mine t (snd x)"

definition keeps :: "nat \<Rightarrow> ('w node \<Rightarrow> 'r \<times> 'w node) \<Rightarrow> bool" where
  "keeps t f \<longleftrightarrow> (\<forall>n g. safety_inv (fst n, g) \<longrightarrow> g_checked g \<noteq> Some t \<longrightarrow> (\<exists>g'. moves t (fst n, g) (fst (snd (f n)), g')))"

lemma run_refl [simp]: "safety_run x x"
  by (simp add: safety_run_def)

lemma safety_run_trans: "safety_run x y \<Longrightarrow> safety_run y z \<Longrightarrow> safety_run x z"
  unfolding safety_run_def by (rule rtranclp_trans)

lemma safety_run_step: "safety_step t x y \<Longrightarrow> safety_run x y"
  unfolding safety_run_def by (rule r_into_rtranclp) blast

lemma moves_refl [simp]: "moves t x x"
  by (simp add: moves_def)

lemma moves_trans: "moves t x y \<Longrightarrow> moves t y z \<Longrightarrow> moves t x z"
  unfolding moves_def by (metis safety_run_trans)

lemma moves_inv: "moves t x y \<Longrightarrow> safety_inv x \<Longrightarrow> safety_inv y"
  unfolding moves_def by (metis safety_run_inv)

lemma moves_mine: "moves t x y \<Longrightarrow> mine t (snd y) = mine t (snd x)"
  by (simp add: moves_def)

lemma moves_run: "moves t x y \<Longrightarrow> safety_run x y"
  by (simp add: moves_def)

lemma others_moves: "others_moves t x y \<Longrightarrow> safety_inv x \<Longrightarrow> moves t x y"
  unfolding moves_def by (metis others_moves_run others_moves_mine)

lemma env_others:
  assumes "safety_env t ops" and "safety_inv (fst n, g)"
  obtains g' where "moves t (fst n, g) (fst (sfo_others ops n), g')"
proof -
  have "\<exists>g'. others_moves t (fst n, g) (fst (sfo_others ops n), g')" using assms unfolding safety_env_def by blast
  then show ?thesis using that others_moves [OF _ assms(2)] by blast
qed

lemma env_give:
  assumes "safety_env t ops" and "safety_inv (fst n, g)"
  obtains g' where "moves t (fst n, g) (fst (sfo_give ops n), g')"
proof -
  have "\<exists>g'. others_moves t (fst n, g) (fst (sfo_give ops n), g')" using assms unfolding safety_env_def by blast
  then show ?thesis using that others_moves [OF _ assms(2)] by blast
qed

lemma env_take:
  assumes "safety_env t ops" and "safety_inv (fst n, g)"
  obtains g' where "moves t (fst n, g) (fst (snd (sfo_take ops ticks n)), g')"
    "fst (sfo_take ops ticks n) \<Longrightarrow> g_holder g' = None \<or> 0 < holds t g'"
proof -
  have "\<exists>g'. others_moves t (fst n, g) (fst (snd (sfo_take ops ticks n)), g') \<and>
      (fst (sfo_take ops ticks n) \<longrightarrow> g_holder g' = None \<or> 0 < holds t g')" using assms unfolding safety_env_def by blast
  then show ?thesis using that others_moves [OF _ assms(2)] by blast
qed

lemma keeps_id: "(\<And>n. fst (snd (f n)) = fst n) \<Longrightarrow> keeps t f"
  unfolding keeps_def using moves_refl by metis

lemma keeps_seq:
  assumes "keeps t f" and "\<And>r. keeps t (h r)"
  shows "keeps t (\<lambda>n. case f n of (r, n') \<Rightarrow> h r n')"
  unfolding keeps_def
proof (intro allI impI)
  fix n :: "'a node" and g
  assume i: "safety_inv (fst n, g)" "g_checked g \<noteq> Some t"
  obtain r n1 where f: "f n = (r, n1)" by (rule prod.exhaust)
  obtain g1 where 1: "moves t (fst n, g) (fst n1, g1)" using assms(1) i f unfolding keeps_def by (metis snd_conv)
  have "g_checked g1 \<noteq> Some t" using moves_mine [OF 1] i(2) by (simp add: mine_def)
  then obtain g2 where 2: "moves t (fst n1, g1) (fst (snd (h r n1)), g2)"
    using assms(2) moves_inv [OF 1 i(1)] unfolding keeps_def by blast
  show "\<exists>g'. moves t (fst n, g) (fst (snd (case f n of (r, n') \<Rightarrow> h r n')), g')"
    using moves_trans [OF 1 2] f by auto
qed

lemma keeps_others:
  assumes "safety_env t ops" and "\<And>n. \<exists>m w. snd (f n) = sfo_others ops (fst n, m, w)"
  shows "keeps t f"
  unfolding keeps_def
proof (intro allI impI)
  fix n :: "'a node" and g
  assume i: "safety_inv (fst n, g)"
  obtain m w where f: "snd (f n) = sfo_others ops (fst n, m, w)" using assms(2) by blast
  have "safety_inv (fst (fst n, m, w), g)" using i by simp
  then obtain g' where "moves t (fst (fst n, m, w), g) (fst (sfo_others ops (fst n, m, w)), g')" using env_others [OF assms(1)] by blast
  then show "\<exists>g'. moves t (fst n, g) (fst (snd (f n)), g')" using f by auto
qed

lemma keeps_motor_io: "safety_env t ops \<Longrightarrow> keeps t (motor_io ops f)"
  by (rule keeps_others) (auto simp: motor_io_def split: prod.splits)

lemma keeps_callback_io: "safety_env t ops \<Longrightarrow> keeps t (callback_io ops f)"
  by (rule keeps_others) (auto simp: callback_io_def split: prod.splits)

lemma keeps_ret: "keeps t (\<lambda>n. (r, n))"
  by (rule keeps_id) simp

text \<open>Under the mutex: what happens between a take and its give.\<close>

lemma taken:
  assumes "safety_env t ops" and "safety_inv (fst n, g)" and "fst (sfo_take ops ticks n)"
  obtains g1 where "safety_run (fst n, g) (fst (snd (sfo_take ops ticks n)), g1)"
    "safety_inv (fst (snd (sfo_take ops ticks n)), g1)"
    "mine t g1 = (fst (mine t g), fst (snd (mine t g)), fst (snd (snd (mine t g))), Suc (holds t g))"
proof -
  let ?s1 = "fst (snd (sfo_take ops ticks n))"
  obtain g' where g': "moves t (fst n, g) (?s1, g')" "g_holder g' = None \<or> 0 < holds t g'"
    using env_take [OF assms(1,2), of ticks] assms(3) by blast
  let ?g1 = "g'\<lparr>g_holder := Some (t, Suc (holds t g'))\<rparr>"
  have s: "safety_step t (?s1, g') (?s1, ?g1)" by (rule take [OF g'(2)])
  show ?thesis
  proof (rule that [of ?g1])
    show "safety_run (fst n, g) (?s1, ?g1)" by (rule safety_run_trans [OF moves_run [OF g'(1)] safety_run_step [OF s]])
    show "safety_inv (?s1, ?g1)" by (rule safety_step_inv [OF s moves_inv [OF g'(1) assms(2)]])
    show "mine t ?g1 = (fst (mine t g), fst (snd (mine t g)), fst (snd (snd (mine t g))), Suc (holds t g))"
      using moves_mine [OF g'(1)] by (simp add: mine_def)
  qed
qed

lemma given:
  assumes "safety_env t ops" and "safety_inv (fst n, g)" and "holds t g = Suc k" and "g_checked g \<noteq> Some t"
  obtains g1 where "safety_run (fst n, g) (fst (sfo_give ops n), g1)"
    "mine t g1 = (fst (mine t g), fst (snd (mine t g)), False, k)"
proof -
  let ?g' = "g\<lparr>g_holder := (if k = 0 then None else Some (t, k))\<rparr>"
  have s: "safety_step t (fst n, g) (fst n, ?g')" by (rule give [OF assms(3,4)])
  obtain g1 where g1: "moves t (fst n, ?g') (fst (sfo_give ops n), g1)"
    using env_give [OF assms(1) safety_step_inv [OF s assms(2)]] by blast
  show ?thesis
  proof (rule that [of g1])
    show "safety_run (fst n, g) (fst (sfo_give ops n), g1)" by (rule safety_run_trans [OF safety_run_step [OF s] moves_run [OF g1]])
    show "mine t g1 = (fst (mine t g), fst (snd (mine t g)), False, k)"
      using moves_mine [OF g1] assms(4) by (simp add: mine_def)
  qed
qed

lemma env_portMAX: "safety_env t ops \<Longrightarrow> fst (sfo_take ops portMAX_DELAY n)"
  unfolding safety_env_def by blast

definition keeps_held :: "nat \<Rightarrow> ('w node \<Rightarrow> 'r \<times> 'w node) \<Rightarrow> bool" where
  "keeps_held t f \<longleftrightarrow> (\<forall>n g. safety_inv (fst n, g) \<longrightarrow> g_checked g \<noteq> Some t \<longrightarrow> 0 < holds t g \<longrightarrow>
     (\<exists>g'. moves t (fst n, g) (fst (snd (f n)), g')))"

lemma keeps_held_with_mutex:
  assumes "safety_env t ops" and "keeps_held t f"
  shows "keeps t (with_stop_mutex ops (Some x) f)"
  unfolding keeps_def
proof (intro allI impI)
  fix n :: "'a node" and g
  assume i: "safety_inv (fst n, g)" "g_checked g \<noteq> Some t"
  let ?n1 = "snd (sfo_take ops portMAX_DELAY n)"
  obtain g1 where 1: "safety_run (fst n, g) (fst ?n1, g1)" "safety_inv (fst ?n1, g1)"
    "mine t g1 = (fst (mine t g), fst (snd (mine t g)), fst (snd (snd (mine t g))), Suc (holds t g))"
    by (rule taken [OF assms(1) i(1) env_portMAX [OF assms(1)]])
  obtain r n2 where f: "f ?n1 = (r, n2)" by (rule prod.exhaust)
  have c1: "g_checked g1 \<noteq> Some t" "0 < holds t g1" using 1(3) i(2) by (simp_all add: mine_def)
  obtain g2 where 2: "moves t (fst ?n1, g1) (fst n2, g2)" using assms(2) 1(2) c1 f unfolding keeps_held_def by (metis snd_conv)
  have h2: "holds t g2 = Suc (holds t g)" "g_checked g2 \<noteq> Some t"
    using moves_mine [OF 2] 1(3) c1 by (simp_all add: mine_def)
  obtain g3 where 3: "safety_run (fst n2, g2) (fst (sfo_give ops n2), g3)"
      "mine t g3 = (fst (mine t g2), fst (snd (mine t g2)), False, holds t g)"
    by (rule given [OF assms(1) moves_inv [OF 2 1(2)] h2])
  have "safety_run (fst n, g) (fst (sfo_give ops n2), g3)"
    by (rule safety_run_trans [OF safety_run_trans [OF 1(1) moves_run [OF 2]] 3(1)])
  then have "moves t (fst n, g) (fst (sfo_give ops n2), g3)"
    using moves_mine [OF 2] 3(2) 1(3) i(2) by (simp add: moves_def mine_def)
  then show "\<exists>g'. moves t (fst n, g) (fst (snd (with_stop_mutex ops (Some x) f n)), g')"
    using f by (auto simp: with_stop_mutex_def)
qed

lemma keeps_with_mutex:
  assumes "safety_env t ops" and "keeps t f"
  shows "keeps t (with_stop_mutex ops stop_mutex f)"
proof (cases stop_mutex)
  case None
  then have "with_stop_mutex ops stop_mutex f = f" by (simp add: with_stop_mutex_def fun_eq_iff)
  then show ?thesis using assms(2) by simp
next
  case (Some x)
  have "keeps_held t f" using assms(2) by (simp add: keeps_def keeps_held_def)
  then show ?thesis unfolding Some by (rule keeps_held_with_mutex [OF assms(1)])
qed

section \<open>The phases of a stop\<close>

lemma keeps_if: "keeps t f \<Longrightarrow> keeps t h \<Longrightarrow> keeps t (\<lambda>n. if c then f n else h n)"
  by (cases c) simp_all

lemma keeps_map: "keeps t f \<Longrightarrow> keeps t (\<lambda>n. case f n of (r, n') \<Rightarrow> (q r, n'))"
  by (rule keeps_seq) (simp_all add: keeps_id)

lemma keeps_stop_motors: "safety_env t ops \<Longrightarrow> keeps t (stop_motors kc ops action clear)"
  unfolding stop_motors_def Let_def by (cases action) (simp_all add: keeps_motor_io)

lemmas keeps_intros = keeps_if keeps_map keeps_with_mutex keeps_motor_io keeps_callback_io keeps_ret keeps_stop_motors

lemma keeps_phases:
  assumes "safety_env t ops"
  shows "keeps t (stop_phase_motor kc ops mx action clear)" "keeps t (stop_phase_automatic ops cb)"
    "keeps t (stop_phase_verified kc ops mx action clear e1 e2 e3)" "keeps t (stop_phase_fallback kc ops mx action clear r)"
    "keeps t (stop_phase_release ops action r)"
proof -
  show "keeps t (stop_phase_motor kc ops mx action clear)"
    unfolding stop_phase_motor_def by (intro keeps_intros assms)
  show "keeps t (stop_phase_automatic ops cb)"
    unfolding stop_phase_automatic_def by (cases "cb_inhibit_automatic cb") (simp_all add: keeps_ret keeps_callback_io assms)
  show "keeps t (stop_phase_verified kc ops mx action clear e1 e2 e3)"
    unfolding stop_phase_verified_def by (intro keeps_intros assms)
  show "keeps t (stop_phase_fallback kc ops mx action clear r)"
    unfolding stop_phase_fallback_def by (intro keeps_intros assms)
  show "keeps t (stop_phase_release ops action r)"
    unfolding stop_phase_release_def by (intro keeps_intros assms)
qed

lemma keeps_feed: "keeps t f \<Longrightarrow> keeps t (\<lambda>n. f (feed_supervisor_watchdog_if_current kc ops n))"
  unfolding keeps_def by (metis fst_feed)

lemma keeps_persist:
  assumes "safety_env t ops"
  shows "keeps t (stop_phase_persist kc ops cb mx action clear e r)"
proof (cases "cb_request_persistence cb")
  case None
  then show ?thesis unfolding stop_phase_persist_def by (simp add: keeps_ret)
next
  case (Some f)
  show ?thesis unfolding stop_phase_persist_def Some option.case
    by (intro keeps_if keeps_ret keeps_seq keeps_feed [OF keeps_callback_io] keeps_with_mutex keeps_stop_motors assms keeps_map)
qed

lemma keepsD:
  assumes "keeps t f" and "safety_inv (fst n, g)" and "g_checked g \<noteq> Some t" and "f n = (r, n')"
  obtains g' where "moves t (fst n, g) (fst n', g')" "safety_inv (fst n', g')" "g_checked g' \<noteq> Some t"
proof -
  obtain g' where m: "moves t (fst n, g) (fst n', g')" using assms unfolding keeps_def by (metis snd_conv)
  show ?thesis
    by (rule that [OF m moves_inv [OF m assms(2)]]) (use moves_mine [OF m] assms(3) in \<open>simp add: mine_def\<close>)
qed

text \<open>The interlock phase leaves the interlock driven off in the name of the task, if the driver obeyed.\<close>

lemma drive_off_phase:
  assumes "safety_env t ops" and "CONFIG_MOTOR_INTERLOCK_ENABLED kc" and "safety_inv (fst n, g)" and "t \<in> g_claims g"
    and "g_checked g \<noteq> Some t" and "with_stop_mutex ops (sv_stop_mutex (fst n)) (interlock_drive kc ops False) n = (e, n')"
  obtains g' where "safety_run (fst n, g) (fst n', g')" "safety_inv (fst n', g')" "t \<in> g_claims g'" "g_checked g' \<noteq> Some t"
    "holds t g' = holds t g" "e = ESP_OK \<Longrightarrow> t \<in> g_driven g'"
proof -
  obtain x where x: "sv_stop_mutex (fst n) = Some x" using assms(3) by (cases n) (auto simp: safety_inv.simps)
  let ?n1 = "snd (sfo_take ops portMAX_DELAY n)"
  obtain g1 where 1: "safety_run (fst n, g) (fst ?n1, g1)" "safety_inv (fst ?n1, g1)"
    "mine t g1 = (fst (mine t g), fst (snd (mine t g)), fst (snd (snd (mine t g))), Suc (holds t g))"
    by (rule taken [OF assms(1,3) env_portMAX [OF assms(1)]])
  have g1: "holds t g1 = Suc (holds t g)" "t \<in> g_claims g1" "g_checked g1 \<noteq> Some t"
    using 1(3) assms(4,5) by (simp_all add: mine_def)
  obtain n2 where d: "interlock_drive kc ops False ?n1 = (e, n2)" and n': "n' = sfo_give ops n2"
    using assms(6) x by (cases "interlock_drive kc ops False ?n1") (simp add: with_stop_mutex_def)
  have "\<exists>g2. safety_run (fst ?n1, g1) (fst n2, g2) \<and> safety_inv (fst n2, g2) \<and> holds t g2 = holds t g1 \<and>
      t \<in> g_claims g2 \<and> g_checked g2 \<noteq> Some t \<and> (e = ESP_OK \<longrightarrow> t \<in> g_driven g2)"
  proof (cases "e = ESP_OK")
    case True
    let ?g2 = "g1\<lparr>g_driven := insert t (g_driven g1)\<rparr>"
    have "fst n2 = (fst ?n1)\<lparr>sv_interlock_enabled := False\<rparr>"
      using d True assms(2) by (auto simp: interlock_drive_def split: prod.splits)
    moreover have "safety_step t (fst ?n1, g1) ((fst ?n1)\<lparr>sv_interlock_enabled := False\<rparr>, ?g2)"
      using g1 by (intro drive_off) simp_all
    ultimately have "safety_step t (fst ?n1, g1) (fst n2, ?g2)" by simp
    from safety_run_step [OF this] safety_step_inv [OF this 1(2)] show ?thesis using g1 by (intro exI [of _ ?g2]) simp
  next
    case False
    then have "fst n2 = fst ?n1" using d assms(2) by (auto simp: interlock_drive_def split: prod.splits)
    then show ?thesis using 1(2) g1 False by (intro exI [of _ g1]) simp
  qed
  then obtain g2 where 2: "safety_run (fst ?n1, g1) (fst n2, g2)" "safety_inv (fst n2, g2)" "holds t g2 = Suc (holds t g)"
      "t \<in> g_claims g2" "g_checked g2 \<noteq> Some t" "e = ESP_OK \<longrightarrow> t \<in> g_driven g2" using g1 by auto
  obtain g3 where 3: "safety_run (fst n2, g2) (fst n', g3)" "mine t g3 = (fst (mine t g2), fst (snd (mine t g2)), False, holds t g)"
    unfolding n' by (rule given [OF assms(1) 2(2,3,5)])
  show ?thesis
    by (rule that [of g3]) (use safety_run_trans [OF safety_run_trans [OF 1(1) 2(1)] 3(1)] safety_run_inv [OF 3(1) 2(2)] 3(2) 2(4-6) in \<open>simp_all add: mine_def\<close>)
qed

lemma stop_body_moves:
  assumes "safety_env t ops" and "CONFIG_MOTOR_INTERLOCK_ENABLED kc" and "safety_inv (fst n, g)" and "t \<in> g_claims g"
    and "g_checked g \<noteq> Some t" and "safety_stop_body kc ops clear action n = (outcome, n')"
  obtains g' where "safety_run (fst n, g) (fst n', g')" "safety_inv (fst n', g')" "t \<in> g_claims g'" "g_checked g' \<noteq> Some t"
    "holds t g' = holds t g" "so_interlock_error outcome = ESP_OK \<Longrightarrow> t \<in> g_driven g'"
proof -
  let ?cb = "sv_callbacks (fst n)" and ?mx = "sv_stop_mutex (fst n)" and ?feed = "feed_supervisor_watchdog_if_current kc ops"
  note K = keeps_phases [OF assms(1)]
  obtain ie n2 where 2: "with_stop_mutex ops ?mx (interlock_drive kc ops False) n = (ie, n2)" by (rule prod.exhaust)
  obtain e3 n3 where 3: "stop_phase_motor kc ops ?mx action clear (?feed n2) = (e3, n3)" by (rule prod.exhaust)
  obtain e4 n4 where 4: "stop_phase_automatic ops ?cb (?feed n3) = (e4, n4)" by (rule prod.exhaust)
  obtain e5 n5 where 5: "stop_phase_verified kc ops ?mx action clear (fst e3) (snd e3) e4 (?feed n4) = (e5, n5)" by (rule prod.exhaust)
  let ?r1 = "preserve_first_error (preserve_first_error (preserve_first_error (preserve_first_error ESP_OK ie) (fst e3)) e5) e4"
  obtain e6 n6 where 6: "stop_phase_fallback kc ops ?mx action clear ?r1 n5 = (e6, n6)" by (rule prod.exhaust)
  obtain e7 n7 where 7: "stop_phase_persist kc ops ?cb ?mx action clear (fst e6) (snd e6) (?feed n6) = (e7, n7)" by (rule prod.exhaust)
  obtain e8 n8 where 8: "stop_phase_release ops action (snd (snd e7)) (?feed n7) = (e8, n8)" by (rule prod.exhaust)
  have n': "n' = n8" and oi: "so_interlock_error outcome = ie"
    using assms(6) 2 3 4 5 6 7 8 by (auto simp: safety_stop_body_def Let_def case_prod_unfold)
  obtain g2 where g2: "safety_run (fst n, g) (fst n2, g2)" "safety_inv (fst n2, g2)" "t \<in> g_claims g2" "g_checked g2 \<noteq> Some t"
    "holds t g2 = holds t g" "ie = ESP_OK \<longrightarrow> t \<in> g_driven g2"
    using drive_off_phase [OF assms(1-5) 2] by metis
  have "safety_inv (fst (?feed n2), g2)" using g2(2) by simp
  from keepsD [OF K(1) this g2(4) 3] obtain g3 where g3: "moves t (fst n2, g2) (fst n3, g3)" "safety_inv (fst n3, g3)" "g_checked g3 \<noteq> Some t" by auto
  have "safety_inv (fst (?feed n3), g3)" using g3(2) by simp
  from keepsD [OF K(2) this g3(3) 4] obtain g4 where g4: "moves t (fst n3, g3) (fst n4, g4)" "safety_inv (fst n4, g4)" "g_checked g4 \<noteq> Some t" by auto
  have "safety_inv (fst (?feed n4), g4)" using g4(2) by simp
  from keepsD [OF K(3) this g4(3) 5] obtain g5 where g5: "moves t (fst n4, g4) (fst n5, g5)" "safety_inv (fst n5, g5)" "g_checked g5 \<noteq> Some t" by auto
  from keepsD [OF K(4) g5(2,3) 6] obtain g6 where g6: "moves t (fst n5, g5) (fst n6, g6)" "safety_inv (fst n6, g6)" "g_checked g6 \<noteq> Some t" by auto
  have "safety_inv (fst (?feed n6), g6)" using g6(2) by simp
  from keepsD [OF keeps_persist [OF assms(1)] this g6(3) 7] obtain g7 where g7: "moves t (fst n6, g6) (fst n7, g7)" "safety_inv (fst n7, g7)" "g_checked g7 \<noteq> Some t" by auto
  have "safety_inv (fst (?feed n7), g7)" using g7(2) by simp
  from keepsD [OF K(5) this g7(3) 8] obtain g8 where g8: "moves t (fst n7, g7) (fst n8, g8)" "safety_inv (fst n8, g8)" "g_checked g8 \<noteq> Some t" by auto
  have m: "moves t (fst n2, g2) (fst n8, g8)"
    using g3(1) g4(1) g5(1) g6(1) g7(1) g8(1) by (meson moves_trans)
  show ?thesis
    by (rule that [of g8]) (use n' oi safety_run_trans [OF g2(1) moves_run [OF m]] g8(2,3) moves_mine [OF m] g2(3-6) in \<open>simp_all add: mine_def\<close>)
qed

section \<open>Enabling the interlock\<close>

lemma drive_true:
  assumes "CONFIG_MOTOR_INTERLOCK_ENABLED kc" and "interlock_drive kc ops b n = (e, n')"
  shows "fst n' = (if e = ESP_OK then (fst n)\<lparr>sv_interlock_enabled := b\<rparr> else fst n)"
  using assms by (auto simp: interlock_drive_def Let_def split: prod.splits)

definition enable_locked :: "safety_kconfig \<Rightarrow> 'w safety_ops \<Rightarrow> 'w node \<Rightarrow> bool \<times> 'w node" where
  "enable_locked kc ops n1 =
     (let can_attempt = (sv_initialized (fst n1) \<and> sv_stop_depth (fst n1) = 0); generation = sv_safety_generation (fst n1)
      in if \<not> can_attempt \<or> \<not> motor_control_output_allowed (fst (snd n1)) then (False, n1)
         else let n2 = sfo_others ops n1;
                  unchanged = (sv_initialized (fst n2) \<and> sv_stop_depth (fst n2) = 0 \<and> generation = sv_safety_generation (fst n2))
         in case (if unchanged then interlock_drive kc ops True (sfo_others ops n2) else (ESP_ERR_INVALID_STATE, n2)) of (error, n3) \<Rightarrow>
            if error \<noteq> ESP_OK then (False, n3)
            else if \<not> motor_control_output_allowed (fst (snd n3)) then (False, snd (interlock_drive kc ops False n3))
            else (True, n3))"

lemma enable_locked: "safety_supervisor_enable_output_if_safe kc ops n = with_stop_mutex ops (sv_stop_mutex (fst n)) (enable_locked kc ops) n"
  by (simp add: safety_supervisor_enable_output_if_safe_def enable_locked_def [abs_def])

lemma enable_locked_moves:
  assumes env: "safety_env t ops" and hw: "CONFIG_MOTOR_INTERLOCK_ENABLED kc" and i: "safety_inv (fst n, g)"
    and c: "g_checked g \<noteq> Some t" and h: "0 < holds t g"
  shows "\<exists>g'. moves t (fst n, g) (fst (snd (enable_locked kc ops n)), g')"
proof (cases "(sv_initialized (fst n) \<and> sv_stop_depth (fst n) = 0) \<and> motor_control_output_allowed (fst (snd n))")
  case False
  then show ?thesis by (intro exI [of _ g]) (auto simp: enable_locked_def Let_def)
next
  case True
  let ?n2 = "sfo_others ops n"
  let ?un = "sv_initialized (fst ?n2) \<and> sv_stop_depth (fst ?n2) = 0 \<and> sv_safety_generation (fst n) = sv_safety_generation (fst ?n2)"
  have s1: "safety_step t (fst n, g) (fst n, g\<lparr>g_checked := Some t\<rparr>)" using h True by (intro check) simp_all
  have i1: "safety_inv (fst n, g\<lparr>g_checked := Some t\<rparr>)" by (rule safety_step_inv [OF s1 i])
  obtain g2 where 2: "moves t (fst n, g\<lparr>g_checked := Some t\<rparr>) (fst ?n2, g2)" by (rule env_others [OF env i1])
  have r2: "safety_run (fst n, g) (fst ?n2, g2)" by (rule safety_run_trans [OF safety_run_step [OF s1] moves_run [OF 2]])
  have g2: "mine t g2 = (fst (mine t g), fst (snd (mine t g)), True, holds t g)" using moves_mine [OF 2] by (simp add: mine_def)
  have mg: "mine t g = (fst (mine t g), fst (snd (mine t g)), False, holds t g)" using c by (simp add: mine_def)
  show ?thesis
  proof (cases ?un)
    case False
    have s3: "safety_step t (fst ?n2, g2) (fst ?n2, g2\<lparr>g_checked := None\<rparr>)" using g2 by (intro uncheck) (simp add: mine_def)
    have "moves t (fst n, g) (fst ?n2, g2\<lparr>g_checked := None\<rparr>)"
      unfolding moves_def using safety_run_trans [OF r2 safety_run_step [OF s3]] g2 mg by (simp add: mine_def)
    moreover have "snd (enable_locked kc ops n) = ?n2" using True False by (auto simp: enable_locked_def Let_def)
    ultimately show ?thesis by auto
  next
    case un: True
    let ?n3 = "sfo_others ops ?n2"
    have i2: "safety_inv (fst ?n2, g2)" by (rule moves_inv [OF 2 i1])
    obtain g3 where 3: "moves t (fst ?n2, g2) (fst ?n3, g3)" by (rule env_others [OF env i2])
    have r3: "safety_run (fst n, g) (fst ?n3, g3)" by (rule safety_run_trans [OF r2 moves_run [OF 3]])
    have g3: "mine t g3 = (fst (mine t g), fst (snd (mine t g)), True, holds t g)" using moves_mine [OF 3] g2 by simp
    let ?g4 = "g3\<lparr>g_checked := None\<rparr>"
    obtain e n4 where d: "interlock_drive kc ops True ?n3 = (e, n4)" by (rule prod.exhaust)
    have "safety_step t (fst ?n3, g3) (fst n4, ?g4)"
      unfolding drive_true [OF hw d] using g3 by (cases "e = ESP_OK") (auto simp: mine_def intro: drive_on uncheck)
    then have r4: "safety_run (fst n, g) (fst n4, ?g4)" by (rule safety_run_trans [OF r3 safety_run_step])
    have g4: "mine t ?g4 = mine t g" using g3 mg by (simp add: mine_def)
    obtain e5 n5 where d5: "interlock_drive kc ops False n4 = (e5, n5)" by (rule prod.exhaust)
    have "0 < holds t ?g4" using g4 h by (simp add: mine_def)
    then have "safety_step t (fst n4, ?g4) ((fst n4)\<lparr>sv_interlock_enabled := False\<rparr>, ?g4)" by (rule enable_off)
    then have "safety_run (fst n4, ?g4) (fst n5, ?g4)"
      unfolding drive_true [OF hw d5] using safety_run_step by (cases "e5 = ESP_OK") simp_all
    then have r5: "safety_run (fst n, g) (fst n5, ?g4)" by (rule safety_run_trans [OF r4])
    have "snd (enable_locked kc ops n) = n4 \<or> snd (enable_locked kc ops n) = n5"
      using True un d d5 by (auto simp: enable_locked_def Let_def)
    then show ?thesis using r4 r5 g4 unfolding moves_def by auto
  qed
qed

lemma enable_moves:
  assumes "safety_env t ops" and "CONFIG_MOTOR_INTERLOCK_ENABLED kc" and "safety_inv (fst n, g)" and "g_checked g \<noteq> Some t"
  shows "\<exists>g'. moves t (fst n, g) (fst (snd (safety_supervisor_enable_output_if_safe kc ops n)), g')"
proof -
  obtain x where x: "sv_stop_mutex (fst n) = Some x" using assms(3) by (cases n) (auto simp: safety_inv.simps)
  have "keeps_held t (enable_locked kc ops)"
    unfolding keeps_held_def using enable_locked_moves [OF assms(1,2)] by blast
  from keeps_held_with_mutex [OF assms(1) this] show ?thesis
    using assms(3,4) unfolding keeps_def enable_locked x by blast
qed

lemma stop_moves:
  assumes "safety_env t ops" and "CONFIG_MOTOR_INTERLOCK_ENABLED kc" and "safety_inv (fst n, g)" and "g_checked g \<noteq> Some t"
    and "t \<notin> g_claims g" and "sv_stop_depth (fst n) < UINT32_MAX"
  shows "\<exists>g'. moves t (fst n, g) (fst (snd (safety_stop_all_internal kc ops reason clear action n)), g')"
proof -
  let ?n1 = "apfst stop_claim_section n" and ?g1 = "g\<lparr>g_claims := insert t (g_claims g)\<rparr>"
  have nd: "t \<notin> g_driven g" using assms(3,5) by (auto simp: safety_inv.simps)
  have n1: "fst ?n1 = stop_claim_section (fst n)" by (cases n) simp
  have s1: "safety_step t (fst n, g) (fst ?n1, ?g1)" unfolding n1 by (rule claim [OF assms(6,5)])
  obtain outcome n8 where b: "safety_stop_body kc ops clear action ?n1 = (outcome, n8)" by (rule prod.exhaust)
  obtain g8 where 8: "safety_run (fst ?n1, ?g1) (fst n8, g8)" "safety_inv (fst n8, g8)" "t \<in> g_claims g8" "g_checked g8 \<noteq> Some t"
      "holds t g8 = holds t ?g1"
    by (rule stop_body_moves [OF assms(1,2) safety_step_inv [OF s1 assms(3)] _ _ b]) (use assms(4) in simp_all)
  define rc where "rc = take (SAFETY_SUPERVISOR_REASON_CAPACITY - 1) (case reason of None \<Rightarrow> ''unspecified'' | Some r \<Rightarrow> r)"
  let ?n9 = "apfst (stop_finish_section (so_result outcome) rc) n8"
  let ?g9 = "g8\<lparr>g_claims := g_claims g8 - {t}, g_driven := g_driven g8 - {t}\<rparr>"
  have n9: "fst ?n9 = stop_finish_section (so_result outcome) rc (fst n8)" by (cases n8) simp
  have s9: "safety_step t (fst n8, g8) (fst ?n9, ?g9)" unfolding n9 by (rule leave [OF 8(3)])
  have i9: "safety_inv (fst ?n9, ?g9)" by (rule safety_step_inv [OF s9 8(2)])
  let ?n10 = "notify_io ops (sv_callbacks (fst ?n1)) ?n9"
  have "\<exists>g10. moves t (fst ?n9, ?g9) (fst ?n10, g10)"
  proof (cases "cb_notify_state (sv_callbacks (fst ?n1))")
    case None
    then show ?thesis by (intro exI [of _ ?g9]) (simp add: notify_io_def)
  next
    case (Some f)
    have "g_checked ?g9 \<noteq> Some t" using 8(4) by simp
    obtain n10 where c: "callback_io ops (\<lambda>x. ((), f x)) ?n9 = ((), n10)" by (cases "callback_io ops (\<lambda>x. ((), f x)) ?n9") auto
    obtain g10 where "moves t (fst ?n9, ?g9) (fst n10, g10)"
      by (rule keepsD [OF keeps_callback_io [OF assms(1)] i9 \<open>g_checked ?g9 \<noteq> Some t\<close> c])
    then show ?thesis using c Some by (auto simp: notify_io_def)
  qed
  then obtain g10 where 10: "moves t (fst ?n9, ?g9) (fst ?n10, g10)" by blast
  have r: "safety_run (fst n, g) (fst ?n10, g10)"
    by (rule safety_run_trans [OF safety_run_trans [OF safety_run_trans [OF safety_run_step [OF s1] 8(1)] safety_run_step [OF s9]] moves_run [OF 10]])
  have "mine t g10 = mine t g" using moves_mine [OF 10] 8(4,5) assms(4,5) nd by (simp add: mine_def)
  moreover have "snd (safety_stop_all_internal kc ops reason clear action n) = ?n10"
    using b by (simp add: safety_stop_all_internal_def Let_def rc_def)
  ultimately show ?thesis using r unfolding moves_def by auto
qed

end
