(* ===== verification/Safety_Simulation.thy ===== *)
theory Safety_Simulation imports Safety_Protocol Motor_Simulation
begin

text \<open>
  A simulated platform for the safety supervisor: the other tasks never run, every wait for the mutex
  succeeds, and the world is the scripted one of the motor controller. Its node in service is the
  concrete input of the witnesses of \<open>Safety_Properties\<close>.
\<close>

section \<open>The platform\<close>

definition safety_sim_kconfig :: safety_kconfig where
  "safety_sim_kconfig = \<lparr>sk_motor = sim_kconfig,
     sk_tach = \<lparr>CONFIG_TACH_SAMPLE_MS = 1000, CONFIG_TACH_PULSES_PER_REV = 2, CONFIG_TACH_STARTUP_GRACE_MS = 2000,
       CONFIG_TACH_STALL_RPM = 300, CONFIG_TACH_STALL_DEBOUNCE_MS = 2000, CONFIG_TACH_GLITCH_FILTER_NS = 1000,
       CONFIG_TACH_STALL_STOP_ALL = False, CONFIG_TACH_STALL_STOP_FAN = True, CONFIG_TACH_INTERNAL_PULLUP = True\<rparr>,
     CONFIG_MOTOR_INTERLOCK_ENABLED = True, CONFIG_MOTOR_INTERLOCK_ACTIVE_HIGH = True, CONFIG_MOTOR_INTERLOCK_GPIO = 9,
     CONFIG_SCHEDULE_ENABLED = True, CONFIG_TACH_FEEDBACK_ENABLED = False, CONFIG_RMT_FAILURE_REBOOT = True,
     CONFIG_COMM_LOSS_STOP_AFTER_LEASE = False, CONFIG_SUPERVISOR_TASK_WDT_MS = 5000,
     CONFIG_RAMP_HEARTBEAT_TIMEOUT_MS = 500, CONFIG_SUPERVISOR_AUX_HEARTBEAT_TIMEOUT_MS = 5000,
     CONFIG_COMMUNICATION_LEASE_MS = 60000\<rparr>"

definition idle_safety_ops :: "'w motor_ops \<Rightarrow> 'w safety_ops" where
  "idle_safety_ops motor_ops = \<lparr>sfo_motor = motor_ops, sfo_take = (\<lambda>_ n. (True, n)), sfo_give = (\<lambda>n. n), sfo_others = (\<lambda>n. n),
     sfo_delay = (\<lambda>_ n. n), sfo_create_mutex = (\<lambda>w. (Some 8, w)), sfo_delete_mutex = (\<lambda>_ w. w),
     sfo_gpio_is_valid_output = (\<lambda>_. True), sfo_gpio_set_level = (\<lambda>_ _ w. (ESP_OK, w)), sfo_gpio_config_output = (\<lambda>_ w. (ESP_OK, w)),
     sfo_ms_to_ticks = (\<lambda>ms. ms), sfo_timer_us = (\<lambda>w. (5000000, w)), sfo_current_task = (\<lambda>_. 7),
     sfo_wdt_reconfigure = (\<lambda>_ w. (ESP_OK, w)), sfo_wdt_init = (\<lambda>_ w. (ESP_OK, w)), sfo_wdt_add = (\<lambda>w. (ESP_OK, w)),
     sfo_wdt_reset = (\<lambda>w. w), sfo_task_create = (\<lambda>w. (Some 7, w)), sfo_stack_bytes = (\<lambda>_ _. 2048), sfo_esp_restart = (\<lambda>w. w),
     sfo_scheduler_heartbeat_us = (\<lambda>_. 4900000), sfo_tach_heartbeat_us = (\<lambda>_. 4900000),
     sfo_mqtt_health = (\<lambda>_. \<lparr>mqh_last_ack_us = 0, mqh_command_dispatch_ready = True, mqh_command_dispatch_heartbeat_us = 4900000,
       mqh_oldest_command_since_us = 0, mqh_command_queue_drops = 0\<rparr>)\<rparr>"

definition safety_sim_ops :: "bool list safety_ops" where
  "safety_sim_ops = idle_safety_ops sim_ops"

definition safety_sim_callbacks :: "bool list safety_supervisor_callbacks" where
  "safety_sim_callbacks = \<lparr>cb_inhibit_automatic = Some (\<lambda>_ x. (ESP_OK, x)), cb_request_persistence = Some (\<lambda>_ x. (ESP_OK, x)),
     cb_notify_state = Some (\<lambda>x. x), cb_read_tach_action_health = None\<rparr>"

text \<open>Initialised, started and enabled, one fan running; the heartbeat of the ramp task has stopped.\<close>

definition safety_sim_state :: "bool list safety" where
  "safety_sim_state = safety_boot\<lparr>sv_stop_mutex := Some 8, sv_callbacks := safety_sim_callbacks, sv_supervisor_task := Some 7,
     sv_initialized := True, sv_started := True, sv_watchdog_configured := True, sv_interlock_enabled := True,
     sv_supervision_started_us := 1000000\<rparr>"

definition safety_sim_node :: "bool list \<Rightarrow> bool list node" where
  "safety_sim_node script = (safety_sim_state, sim_running, script)"

definition guard_sim :: guard where
  "guard_sim = \<lparr>g_holder = None, g_claims = {}, g_driven = {}, g_checked = None\<rparr>"

section \<open>Its facts\<close>

lemma others_idle: "\<exists>g'. others_moves t x (fst x, g')"
  by (rule exI [of _ "snd x"]) simp

lemma safety_sim_env: "safety_env t safety_sim_ops"
  using others_idle [of t "(s, g)" for s g] unfolding safety_env_def by (auto simp: safety_sim_ops_def idle_safety_ops_def others_release)

lemma safety_sim_interlock: "CONFIG_MOTOR_INTERLOCK_ENABLED safety_sim_kconfig"
  by (simp add: safety_sim_kconfig_def)

lemma safety_sim_inv: "safety_inv (fst (safety_sim_node script), guard_sim)"
  by (simp add: safety_inv.simps safety_sim_node_def safety_sim_state_def safety_boot_def guard_sim_def)

lemma safety_sim_depth: "sv_stop_depth (fst (safety_sim_node script)) < UINT32_MAX"
  by (simp add: safety_sim_node_def safety_sim_state_def safety_boot_def UINT32_MAX_def)

lemma sim_running_ready: "s_lifecycle sim_running = MOTOR_LIFECYCLE_READY \<and> s_stop_depth sim_running \<noteq> UINT32_MAX"
  by code_simp

lemma safety_sim_sk_motor [simp]: "sk_motor safety_sim_kconfig = sim_kconfig"
  by (simp add: safety_sim_kconfig_def)

end
