(* ===== verification/Safety_Stops.thy ===== *)
theory Safety_Stops imports Safety_Supervisor Motor_Properties
begin

text \<open>
  What a stop of the safety supervisor does to the motor controller, and what the supervisor's task
  does with it. The lemmas are about any predicate of the controller that its stops keep, and that
  some kinds of stop establish (locale \<open>steady_stop\<close>): the global latch is one, that an output is
  inhibited is another. The other tasks are arbitrary as long as they keep the predicate too.
\<close>

section \<open>Predicates of the controller\<close>

definition mot :: "'w node \<Rightarrow> motor_state" where
  "mot n = fst (snd n)"

text \<open>The controller is in service.\<close>

definition good :: "safety_kconfig \<Rightarrow> motor_state \<Rightarrow> bool" where
  "good kc m \<longleftrightarrow> motor_inv (sk_motor kc) m \<and> 0 < CONFIG_RMT_ERROR_LIMIT (sk_motor kc) \<and>
     s_lifecycle m = MOTOR_LIFECYCLE_READY \<and> s_stop_depth m \<noteq> UINT32_MAX"

definition stable :: "safety_kconfig \<Rightarrow> (motor_state \<Rightarrow> bool) \<Rightarrow> motor_state \<Rightarrow> motor_state \<Rightarrow> bool" where
  "stable kc P m m' \<longleftrightarrow> (good kc m \<longrightarrow> good kc m' \<and> (P m \<longrightarrow> P m'))"

text \<open>A part of the code keeps the controller in service, the predicate, and the callbacks.\<close>

definition kept :: "safety_kconfig \<Rightarrow> (motor_state \<Rightarrow> bool) \<Rightarrow> 'w node \<Rightarrow> 'w node \<Rightarrow> bool" where
  "kept kc P n n' \<longleftrightarrow> stable kc P (mot n) (mot n') \<and> sv_callbacks (fst n') = sv_callbacks (fst n)"

definition safe :: "safety_kconfig \<Rightarrow> (motor_state \<Rightarrow> bool) \<Rightarrow> ('w node \<Rightarrow> 'r \<times> 'w node) \<Rightarrow> bool" where
  "safe kc P f \<longleftrightarrow> (\<forall>n. kept kc P n (snd (f n)))"

text \<open>The other tasks, and the callbacks. They cannot replace the callbacks, for
  \<open>safety_supervisor_configure\<close> refuses once the supervisor runs.\<close>

definition stable_env :: "safety_kconfig \<Rightarrow> (motor_state \<Rightarrow> bool) \<Rightarrow> 'w safety_ops \<Rightarrow> bool" where
  "stable_env kc P ops \<longleftrightarrow> (\<forall>n. kept kc P n (sfo_others ops n)) \<and> (\<forall>n. kept kc P n (sfo_give ops n)) \<and>
     (\<forall>ticks n. kept kc P n (snd (sfo_take ops ticks n))) \<and> (\<forall>ticks n. kept kc P n (sfo_delay ops ticks n))"

definition stable_callbacks :: "safety_kconfig \<Rightarrow> (motor_state \<Rightarrow> bool) \<Rightarrow> 'w safety_supervisor_callbacks \<Rightarrow> bool" where
  "stable_callbacks kc P cb \<longleftrightarrow>
     (\<forall>f t x. cb_inhibit_automatic cb = Some f \<longrightarrow> stable kc P (fst x) (fst (snd (f t x)))) \<and>
     (\<forall>f t x. cb_request_persistence cb = Some f \<longrightarrow> stable kc P (fst x) (fst (snd (f t x)))) \<and>
     (\<forall>f x. cb_notify_state cb = Some f \<longrightarrow> stable kc P (fst x) (fst (f x))) \<and>
     (\<forall>f x. cb_read_tach_action_health cb = Some f \<longrightarrow> stable kc P (fst x) (fst (snd (f x))))"

lemma stable_refl [simp]: "stable kc P m m"
  by (simp add: stable_def)

lemma kept_refl [simp]: "kept kc P n n"
  by (simp add: kept_def stable_def)

lemma kept_trans: "kept kc P n n1 \<Longrightarrow> kept kc P n1 n2 \<Longrightarrow> kept kc P n n2"
  by (simp add: kept_def stable_def)

lemma kept_good: "kept kc P n n' \<Longrightarrow> good kc (mot n) \<Longrightarrow> good kc (mot n')"
  by (simp add: kept_def stable_def)

lemma kept_P: "kept kc P n n' \<Longrightarrow> good kc (mot n) \<Longrightarrow> P (mot n) \<Longrightarrow> P (mot n')"
  by (simp add: kept_def stable_def)

lemma kept_callbacks: "kept kc P n n' \<Longrightarrow> sv_callbacks (fst n') = sv_callbacks (fst n)"
  by (simp add: kept_def stable_def)

lemma env_kept:
  assumes "stable_env kc P ops"
  shows "kept kc P n (sfo_others ops n)" "kept kc P n (sfo_give ops n)"
    "kept kc P n (snd (sfo_take ops ticks n))" "kept kc P n (sfo_delay ops ticks n)"
  using assms unfolding stable_env_def by blast+

lemma safeD: "safe kc P f \<Longrightarrow> f n = (r, n') \<Longrightarrow> kept kc P n n'"
  unfolding safe_def by (metis snd_conv)

lemma safe_ret: "safe kc P (\<lambda>n. (r, n))"
  unfolding safe_def snd_conv using kept_refl by blast

lemma safe_if: "safe kc P f \<Longrightarrow> safe kc P h \<Longrightarrow> safe kc P (\<lambda>n. if c then f n else h n)"
  by (cases c) simp_all

lemma safe_seq:
  assumes "safe kc P f" and "\<And>r. safe kc P (h r)"
  shows "safe kc P (\<lambda>n. case f n of (r, n') \<Rightarrow> h r n')"
  unfolding safe_def
proof
  fix n :: "'a node"
  obtain r n1 where f: "f n = (r, n1)" by (rule prod.exhaust)
  obtain r2 n2 where h: "h r n1 = (r2, n2)" by (rule prod.exhaust)
  have "snd (case f n of (r, n') \<Rightarrow> h r n') = n2" by (simp only: f h prod.case snd_conv)
  then show "kept kc P n (snd (case f n of (r, n') \<Rightarrow> h r n'))"
    using kept_trans [OF safeD [OF assms(1) f] safeD [OF assms(2) h]] by (simp only:)
qed

lemma safe_map: "safe kc P f \<Longrightarrow> safe kc P (\<lambda>n. case f n of (r, n') \<Rightarrow> (q r, n'))"
  by (rule safe_seq) (simp_all add: safe_ret)

lemma safe_with_mutex:
  assumes "stable_env kc P ops" and "safe kc P f"
  shows "safe kc P (with_stop_mutex ops stop_mutex f)"
proof (cases stop_mutex)
  case None
  then have "with_stop_mutex ops stop_mutex f = f" by (simp add: with_stop_mutex_def fun_eq_iff)
  then show ?thesis using assms(2) by simp
next
  case (Some x)
  have "kept kc P n (snd (with_stop_mutex ops stop_mutex f n))" for n
  proof -
    obtain r n' where f: "f (snd (sfo_take ops portMAX_DELAY n)) = (r, n')" by (rule prod.exhaust)
    have "kept kc P n (sfo_give ops n')"
      by (rule kept_trans [OF kept_trans [OF env_kept(3) [OF assms(1)] safeD [OF assms(2) f]] env_kept(2) [OF assms(1)]])
    moreover have "snd (with_stop_mutex ops stop_mutex f n) = sfo_give ops n'"
      by (simp only: with_stop_mutex_def Some option.case f prod.case snd_conv)
    ultimately show ?thesis by (simp only:)
  qed
  then show ?thesis unfolding safe_def by blast
qed

lemma mot_simps [simp]: "mot (s, m, w) = m" "mot (apfst f n) = mot n" "mot (feed_supervisor_watchdog_if_current kc ops n) = mot n"
  by (auto simp: mot_def feed_supervisor_watchdog_if_current_def split: prod.splits)

lemma kept_fields: "mot n' = mot n \<Longrightarrow> sv_callbacks (fst n') = sv_callbacks (fst n) \<Longrightarrow> kept kc P n n'"
  by (simp add: kept_def stable_def)

lemma kept_feed [simp]: "kept kc P n (feed_supervisor_watchdog_if_current kc' ops n)"
  by (simp add: kept_fields)

lemma steps_good:
  assumes "motor_steps (sk_motor kc) m m'" and "good kc m" and "s_stop_depth m' \<noteq> UINT32_MAX"
  shows "good kc m' \<and> (s_global_inhibited m \<longrightarrow> s_global_inhibited m')"
proof -
  from assms(1) have "motor_inv (sk_motor kc) m' \<and> s_lifecycle m' = s_lifecycle m \<and> (s_global_inhibited m \<longrightarrow> s_global_inhibited m')"
  proof (induction rule: rtranclp_induct)
    case base
    then show ?case using assms(2) by (simp add: good_def)
  next
    case (step m1 m2)
    then show ?case using motor_step_lifecycle [OF step.hyps(2)] motor_step_inv [OF step.hyps(2)] assms(2) by (auto simp: good_def)
  qed
  then show ?thesis using assms(2,3) by (simp add: good_def)
qed

text \<open>Each kind of stop is a stop of the controller with one inhibit.\<close>

fun action_stop :: "stop_action \<Rightarrow> stop_inhibit \<times> bool" where
  "action_stop STOP_ACTION_GLOBAL = (STOP_INHIBIT_GLOBAL, False)"
| "action_stop STOP_ACTION_COMMUNICATION = (STOP_INHIBIT_COMMUNICATION, False)"
| "action_stop STOP_ACTION_RMT = (STOP_INHIBIT_RMT, False)"
| "action_stop STOP_ACTION_TACH_ALL = (STOP_INHIBIT_TACH_ALL, False)"
| "action_stop STOP_ACTION_VERIFIED = (STOP_INHIBIT_NONE, True)"
| "action_stop STOP_ACTION_PLAIN = (STOP_INHIBIT_NONE, False)"

lemma stop_motors_eq: "stop_motors kc ops action clear =
    motor_io ops (stop_all_internal (sk_motor kc) (sfo_motor ops) clear (fst (action_stop action)) (snd (action_stop action)))"
  unfolding stop_motors_def Let_def motor_control_inhibit_global_def motor_control_inhibit_communication_def
    motor_control_inhibit_rmt_def motor_control_inhibit_all_tach_def motor_control_stop_all_verified_def motor_control_stop_all_def
  by (cases action) simp_all

lemma stop_good:
  assumes "stop_all_internal (sk_motor kc) mops clear inhibit rb m w = (e, m', w')" and "good kc m"
  shows "good kc m'"
proof (cases "stop_enter_section inhibit m")
  case None
  then show ?thesis using assms by (simp add: stop_all_internal_def)
next
  case (Some m1)
  have i: "motor_inv (sk_motor kc) m" "0 < CONFIG_RMT_ERROR_LIMIT (sk_motor kc)" using assms(2) by (simp_all add: good_def)
  have s: "motor_steps (sk_motor kc) m m'" by (rule stop_all_internal_steps [OF assms(1) i(1)])
  have "s_stop_depth m' = s_stop_depth m" using stop_all_effect [OF assms(1) i] Some by simp
  then show ?thesis using steps_good [OF s] assms(2) by (simp add: good_def)
qed

text \<open>In service only a maintenance stop can be refused.\<close>

lemma stop_entered: "good kc m \<Longrightarrow> inhibit \<noteq> STOP_INHIBIT_MAINTENANCE \<Longrightarrow> stop_enter_section inhibit m \<noteq> None"
  by (auto simp: stop_enter_section_def good_def Let_def)

lemma kept_motor:
  assumes "stable_env kc P ops" and "stable kc P m m'"
  shows "kept kc P (s, m, w) (sfo_others ops (s, m', w'))"
  by (rule kept_trans [OF _ env_kept(1) [OF assms(1)]]) (use assms(2) in \<open>simp add: kept_def\<close>)

lemma motor_io_safe:
  assumes "stable_env kc P ops" and "\<And>m w e m' w'. f m w = (e, m', w') \<Longrightarrow> stable kc P m m'"
  shows "safe kc P (motor_io ops f)"
  unfolding safe_def
proof
  fix n :: "'a node"
  obtain s m w where n: "n = (s, m, w)" by (metis prod_cases3)
  obtain e m' w' where f: "f m w = (e, m', w')" by (metis prod_cases3)
  have "snd (motor_io ops f n) = sfo_others ops (s, m', w')" using n f by (simp add: motor_io_def)
  then show "kept kc P n (snd (motor_io ops f n))" unfolding n using kept_motor [OF assms(1)] assms(2) [OF f] by metis
qed

lemma callback_io_safe:
  assumes "stable_env kc P ops" and "\<And>x. stable kc P (fst x) (fst (snd (f x)))"
  shows "safe kc P (callback_io ops f)"
  unfolding safe_def
proof
  fix n :: "'a node"
  obtain s m w where n: "n = (s, m, w)" by (metis prod_cases3)
  obtain r m' w' where f: "f (m, w) = (r, (m', w'))" by (metis prod.exhaust)
  have "snd (callback_io ops f n) = sfo_others ops (s, m', w')" using n f by (simp add: callback_io_def)
  moreover have "stable kc P m m'" using assms(2) [of "(m, w)"] f by simp
  ultimately show "kept kc P n (snd (callback_io ops f n))" unfolding n using kept_motor [OF assms(1)] by metis
qed

text \<open>In service the release of a maintenance inhibit cannot fail.\<close>

lemma release_ok:
  assumes "good kc (mot n)" and "stop_phase_release ops action r n = ((e, r'), n')"
  shows "e = ESP_OK \<and> r' = r"
proof -
  obtain s m w where n: "n = (s, m, w)" by (metis prod_cases3)
  then have "fst (motor_control_clear_maintenance_inhibit m) = ESP_OK"
    using assms(1) by (auto simp: good_def motor_control_clear_maintenance_inhibit_def split: prod.splits)
  then show ?thesis
    using assms(2) n by (auto simp: stop_phase_release_def motor_io_def preserve_first_error_def split: prod.splits if_splits)
qed

section \<open>Stops that keep a predicate\<close>

locale steady_stop =
  fixes kc :: safety_kconfig and ops :: "'w safety_ops" and P :: "motor_state \<Rightarrow> bool" and A :: "stop_action set"
  assumes stop_keeps: "good kc m \<Longrightarrow> P m \<Longrightarrow>
      stop_all_internal (sk_motor kc) (sfo_motor ops) clear inhibit rb m w = (e, m', w') \<Longrightarrow> P m'"
    and release_keeps: "P m \<Longrightarrow> P (snd (motor_control_clear_maintenance_inhibit m))"
    and pending_keeps: "P m \<Longrightarrow> P (snd (motor_control_take_rmt_fault_pending m))"
    and stop_sets: "a \<in> A \<Longrightarrow> good kc m \<Longrightarrow>
      stop_all_internal (sk_motor kc) (sfo_motor ops) clear (fst (action_stop a)) (snd (action_stop a)) m w = (e, m', w') \<Longrightarrow> P m'"
    and durable: "a \<in> A \<Longrightarrow> durable_inhibit a"
    and global: "STOP_ACTION_GLOBAL \<in> A"
begin

lemma stop_stable: "stop_all_internal (sk_motor kc) (sfo_motor ops) clear inhibit rb m w = (e, m', w') \<Longrightarrow> stable kc P m m'"
  unfolding stable_def by (metis stop_good stop_keeps)

lemma stop_motors_safe: "stable_env kc P ops \<Longrightarrow> safe kc P (stop_motors kc ops action clear)"
  unfolding stop_motors_eq by (rule motor_io_safe) (simp_all add: stop_stable)

lemma maintenance_safe: "stable_env kc P ops \<Longrightarrow>
    safe kc P (motor_io ops (motor_control_inhibit_maintenance (sk_motor kc) (sfo_motor ops) clear))"
  unfolding motor_control_inhibit_maintenance_def by (rule motor_io_safe) (simp_all add: stop_stable)

text \<open>A stop of the right kind establishes the predicate.\<close>

lemma stop_motors_sets:
  assumes "stable_env kc P ops" and "with_stop_mutex ops mx (stop_motors kc ops a clear) n = (e, n')" and "good kc (mot n)" and "a \<in> A"
  shows "P (mot n')"
proof -
  have L: "good kc (mot n2) \<and> P (mot n2)"
    if st: "stop_motors kc ops a clear n1 = (e', n2)" and g1: "good kc (mot n1)" for n1 e' n2
  proof -
    obtain s m w where n: "n1 = (s, m, w)" by (metis prod_cases3)
    obtain e1 m' w' where f: "stop_all_internal (sk_motor kc) (sfo_motor ops) clear (fst (action_stop a)) (snd (action_stop a)) m w = (e1, m', w')"
      by (metis prod_cases3)
    have "good kc (mot (s, m', w'))" "P (mot (s, m', w'))" using stop_good [OF f] stop_sets [OF assms(4) _ f] g1 n by simp_all
    moreover have "n2 = sfo_others ops (s, m', w')" using n f st by (simp add: stop_motors_eq motor_io_def)
    ultimately show ?thesis using kept_good kept_P env_kept(1) [OF assms(1)] by blast
  qed
  show ?thesis
  proof (cases mx)
    case None
    then show ?thesis using L assms(2,3) by (simp add: with_stop_mutex_def)
  next
    case (Some x)
    obtain e1 n1 where f: "stop_motors kc ops a clear (snd (sfo_take ops portMAX_DELAY n)) = (e1, n1)" by (rule prod.exhaust)
    have "good kc (mot (snd (sfo_take ops portMAX_DELAY n)))" by (rule kept_good [OF env_kept(3) [OF assms(1)] assms(3)])
    then have "good kc (mot n1) \<and> P (mot n1)" by (rule L [OF f])
    moreover have "n' = sfo_give ops n1" using assms(2) Some f by (simp add: with_stop_mutex_def)
    ultimately show ?thesis using kept_P env_kept(2) [OF assms(1)] by blast
  qed
qed

lemma release_safe: "stable_env kc P ops \<Longrightarrow>
    safe kc P (motor_io ops (\<lambda>m w. case motor_control_clear_maintenance_inhibit m of (e, m') \<Rightarrow> (e, m', w)))"
proof (rule motor_io_safe)
  fix m :: motor_state and w :: 'w and e m' w'
  assume c: "(case motor_control_clear_maintenance_inhibit m of (e, m') \<Rightarrow> (e, m', w)) = (e, m', w')"
  have s: "motor_steps (sk_motor kc) m m'"
    using c step_clear_maintenance [of "sk_motor kc" m]
    by (auto simp: motor_control_clear_maintenance_inhibit_def split: prod.splits if_splits intro: steps_event steps_one)
  have "s_stop_depth m' = s_stop_depth m"
    using c by (auto simp: motor_control_clear_maintenance_inhibit_def clear_maintenance_section_def emit_event_def
      split: prod.splits if_splits option.splits)

  then have "good kc m \<Longrightarrow> good kc m'" using steps_good [OF s] by (simp add: good_def)
  moreover have "P m \<Longrightarrow> P m'" using release_keeps [of m] c by (simp split: prod.splits)
  ultimately show "stable kc P m m'" by (simp add: stable_def)
qed

lemmas safe_intros = safe_if safe_map safe_with_mutex safe_ret stop_motors_safe maintenance_safe release_safe

lemma safe_phases:
  assumes "stable_env kc P ops" and "stable_callbacks kc P cb"
  shows "safe kc P (stop_phase_motor kc ops mx action clear)" "safe kc P (stop_phase_automatic ops cb)"
    "safe kc P (stop_phase_verified kc ops mx action clear e1 e2 e3)" "safe kc P (stop_phase_fallback kc ops mx action clear r)"
    "safe kc P (stop_phase_release ops action r)"
proof -
  show "safe kc P (stop_phase_motor kc ops mx action clear)" "safe kc P (stop_phase_verified kc ops mx action clear e1 e2 e3)"
    "safe kc P (stop_phase_fallback kc ops mx action clear r)" "safe kc P (stop_phase_release ops action r)"
    unfolding stop_phase_motor_def stop_phase_verified_def stop_phase_fallback_def stop_phase_release_def
    by (intro safe_intros assms(1))+
  show "safe kc P (stop_phase_automatic ops cb)"
  proof (cases "cb_inhibit_automatic cb")
    case None
    then show ?thesis unfolding stop_phase_automatic_def by (simp add: safe_ret)
  next
    case (Some f)
    then have "stable kc P (fst x) (fst (snd (f t x)))" for t x using assms(2) unfolding stable_callbacks_def by blast
    then show ?thesis unfolding stop_phase_automatic_def Some option.case by (intro callback_io_safe assms(1))
  qed
qed

lemma safe_feed: "safe kc P f \<Longrightarrow> safe kc P (\<lambda>n. f (feed_supervisor_watchdog_if_current kc' ops n))"
  unfolding safe_def using kept_trans [OF kept_feed] by blast

lemma safe_persist:
  assumes "stable_env kc P ops" and "stable_callbacks kc P cb"
  shows "safe kc P (stop_phase_persist kc ops cb mx action clear e r)"
proof (cases "cb_request_persistence cb")
  case None
  then show ?thesis unfolding stop_phase_persist_def by (simp add: safe_ret)
next
  case (Some f)
  then have "stable kc P (fst x) (fst (snd (f t x)))" for t x using assms(2) unfolding stable_callbacks_def by blast
  then show ?thesis unfolding stop_phase_persist_def Some option.case
    by (intro safe_if safe_ret safe_seq safe_feed [OF callback_io_safe] safe_with_mutex stop_motors_safe assms(1) safe_map)
qed

lemma notify_kept:
  assumes "stable_env kc P ops" and "stable_callbacks kc P cb"
  shows "kept kc P n (notify_io ops cb n)"
proof (cases "cb_notify_state cb")
  case None
  then show ?thesis by (simp add: notify_io_def)
next
  case (Some f)
  then have "stable kc P (fst x) (fst (f x))" for x using assms(2) unfolding stable_callbacks_def by blast
  then have "safe kc P (callback_io ops (\<lambda>x. ((), f x)))" by (intro callback_io_safe assms(1)) (simp only: snd_conv)
  then show ?thesis unfolding notify_io_def Some option.case safe_def by blast
qed

lemma interlock_phase_safe: "stable_env kc P ops \<Longrightarrow> safe kc P (with_stop_mutex ops mx (interlock_drive kc' ops b))"
  by (rule safe_with_mutex) (auto simp: safe_def kept_def stable_def interlock_drive_def mot_def Let_def split: prod.splits)

text \<open>The fallback and the commit of a temporary stop latch the controller unless they report success.\<close>

lemma fallback_latches:
  assumes "stable_env kc P ops" and "stop_phase_fallback kc ops mx action clear r n = ((e, r'), n')" and "good kc (mot n)"
    and "\<not> durable_inhibit action"
  shows "(r \<noteq> ESP_OK \<longrightarrow> P (mot n')) \<and> (r = ESP_OK \<longrightarrow> e = ESP_OK \<and> r' = ESP_OK)"
  using assms(2-4) stop_motors_sets [OF assms(1) _ assms(3) global]
  by (auto simp: stop_phase_fallback_def split: prod.splits if_splits)

lemma persist_latches:
  assumes "stable_env kc P ops" and "stable_callbacks kc P cb"
    and "stop_phase_persist kc ops cb mx action clear ESP_OK ESP_OK n = ((e, f, r), n')"
    and "good kc (mot n)" and "\<not> durable_inhibit action" and "r \<noteq> ESP_OK"
  shows "P (mot n')"
proof -
  obtain h where h: "cb_request_persistence cb = Some h" and clear: clear
    using assms(3,6) by (auto simp: stop_phase_persist_def split: option.splits if_splits)
  obtain pe n1 where c: "callback_io ops (h (sfo_ms_to_ticks ops SAFETY_PERSIST_TIMEOUT_MS))
      (feed_supervisor_watchdog_if_current kc ops n) = (pe, n1)" by (rule prod.exhaust)
  have "stable kc P (fst x) (fst (snd (h t x)))" for t x using assms(2) h unfolding stable_callbacks_def by blast
  then have "safe kc P (callback_io ops (h (sfo_ms_to_ticks ops SAFETY_PERSIST_TIMEOUT_MS)))" by (intro callback_io_safe assms(1))
  from kept_good [OF safeD [OF this c]] have g1: "good kc (mot n1)" using assms(4) by simp
  show ?thesis
  proof (cases "pe = ESP_OK")
    case True
    then show ?thesis using assms(3,6) h clear c by (simp add: stop_phase_persist_def preserve_first_error_def)
  next
    case False
    obtain e2 n2 where s: "with_stop_mutex ops mx (stop_motors kc ops STOP_ACTION_GLOBAL True) n1 = (e2, n2)" by (rule prod.exhaust)
    have "n' = n2" using assms(3,5) h clear c s False by (simp add: stop_phase_persist_def)
    then show ?thesis using stop_motors_sets [OF assms(1) s g1 global] by simp
  qed
qed

lemma body_latches:
  assumes "stable_env kc P ops" and "stable_callbacks kc P (sv_callbacks (fst n))"
    and "safety_stop_body kc ops clear action n = (outcome, n')"
  shows "kept kc P n n'" and "good kc (mot n) \<Longrightarrow> action \<in> A \<Longrightarrow> P (mot n')"
    and "good kc (mot n) \<Longrightarrow> \<not> durable_inhibit action \<Longrightarrow> so_result outcome \<noteq> ESP_OK \<Longrightarrow> P (mot n')"
    and "so_result outcome = ESP_OK \<Longrightarrow> so_automatic_error outcome = ESP_OK \<and> so_persistence_error outcome = ESP_OK \<and>
      so_interlock_error outcome = ESP_OK \<and> so_motor_error outcome = ESP_OK"
    and "so_automatic_committed outcome \<longleftrightarrow> cb_inhibit_automatic (sv_callbacks (fst n)) \<noteq> None \<and> so_automatic_error outcome = ESP_OK"
    and "so_persistence_committed outcome \<longleftrightarrow> \<not> clear \<or> cb_request_persistence (sv_callbacks (fst n)) \<noteq> None \<and> so_persistence_error outcome = ESP_OK"
proof -
  let ?cb = "sv_callbacks (fst n)" and ?mx = "sv_stop_mutex (fst n)" and ?feed = "feed_supervisor_watchdog_if_current kc ops"
  note S = safe_phases [OF assms(1,2)]
  obtain ie n2 where 2: "with_stop_mutex ops ?mx (interlock_drive kc ops False) n = (ie, n2)" by (rule prod.exhaust)
  obtain me1 mo1 n3 where 3: "stop_phase_motor kc ops ?mx action clear (?feed n2) = ((me1, mo1), n3)" by (metis prod.exhaust)
  obtain ae n4 where 4: "stop_phase_automatic ops ?cb (?feed n3) = (ae, n4)" by (rule prod.exhaust)
  obtain mo n5 where 5: "stop_phase_verified kc ops ?mx action clear me1 mo1 ae (?feed n4) = (mo, n5)" by (rule prod.exhaust)
  let ?r1 = "preserve_first_error (preserve_first_error (preserve_first_error (preserve_first_error ESP_OK ie) me1) mo) ae"
  obtain f1 r2 n6 where 6: "stop_phase_fallback kc ops ?mx action clear ?r1 n5 = ((f1, r2), n6)" by (metis prod.exhaust)
  obtain pe f2 r3 n7 where 7: "stop_phase_persist kc ops ?cb ?mx action clear f1 r2 (?feed n6) = ((pe, f2, r3), n7)"
    by (metis prod.exhaust)
  obtain re r n8 where 8: "stop_phase_release ops action r3 (?feed n7) = ((re, r), n8)" by (metis prod.exhaust)
  have n': "n' = n8" and oc: "so_result outcome = r" "so_interlock_error outcome = ie" "so_motor_error outcome = mo"
      "so_automatic_error outcome = ae" "so_persistence_error outcome = pe"
    using assms(3) 2 3 4 5 6 7 8 by (auto simp: safety_stop_body_def Let_def)
  note F = kept_trans [OF kept_feed]
  have k2: "kept kc P n n2" by (rule safeD [OF interlock_phase_safe [OF assms(1)] 2])
  have k3: "kept kc P n2 n3" by (rule F [OF safeD [OF S(1) 3]])
  have k4: "kept kc P n3 n4" by (rule F [OF safeD [OF S(2) 4]])
  have k5: "kept kc P n4 n5" by (rule F [OF safeD [OF S(3) 5]])
  have k6: "kept kc P n5 n6" by (rule safeD [OF S(4) 6])
  have k7: "kept kc P n6 n7" by (rule F [OF safeD [OF safe_persist [OF assms(1,2)] 7]])
  have k8: "kept kc P n7 n8" by (rule F [OF safeD [OF S(5) 8]])
  show "kept kc P n n'" unfolding n' using k2 k3 k4 k5 k6 k7 k8 by (meson kept_trans)
  show "P (mot n')" if g: "good kc (mot n)" and a: "action \<in> A"
  proof -
    obtain e where w: "with_stop_mutex ops ?mx (stop_motors kc ops action clear) (?feed n2) = (e, n3)"
      using 3 durable [OF a] by (auto simp: stop_phase_motor_def split: prod.splits)
    have "good kc (mot (?feed n2))" using kept_good [OF k2 g] by simp
    from stop_motors_sets [OF assms(1) w this a] show ?thesis
      unfolding n' using kept_good [OF k2 g] k3 k4 k5 k6 k7 k8 by (meson kept_P kept_good)
  qed
  show "P (mot n')" if g: "good kc (mot n)" and d: "\<not> durable_inhibit action" and f: "so_result outcome \<noteq> ESP_OK"
  proof -
    have g5: "good kc (mot n5)" using g k2 k3 k4 k5 by (meson kept_good)
    then have g6: "good kc (mot n6)" "good kc (mot n7)" using k6 k7 by (meson kept_good)+
    show ?thesis
    proof (cases "?r1 = ESP_OK")
      case False
      then have "P (mot n6)" using fallback_latches [OF assms(1) 6 g5 d] by blast
      then show ?thesis unfolding n' using g6 k7 k8 by (meson kept_P)
    next
      case True
      then have ok: "f1 = ESP_OK" "r2 = ESP_OK" using fallback_latches [OF assms(1) 6 g5 d] by blast+
      have "r3 \<noteq> ESP_OK" using release_ok [OF _ 8] g6(2) f oc(1) by simp
      from persist_latches [OF assms(1,2) 7 [unfolded ok] _ d this] have "P (mot n7)" using g6(1) by simp
      then show ?thesis unfolding n' using g6(2) k8 by (meson kept_P)
    qed
  qed
  show "so_automatic_error outcome = ESP_OK \<and> so_persistence_error outcome = ESP_OK \<and>
      so_interlock_error outcome = ESP_OK \<and> so_motor_error outcome = ESP_OK" if f: "so_result outcome = ESP_OK"
  proof -
    have "r3 = ESP_OK" using 8 f oc(1) by (auto simp: stop_phase_release_def preserve_first_error_def split: if_splits prod.splits)
    then have "pe = ESP_OK \<and> r2 = ESP_OK" using 7
      by (auto simp: stop_phase_persist_def preserve_first_error_def split: if_splits prod.splits option.splits)
    then have "pe = ESP_OK \<and> ?r1 = ESP_OK" using 6
      by (auto simp: stop_phase_fallback_def split: if_splits prod.splits) (auto simp: preserve_first_error_def split: if_splits)
    then show ?thesis unfolding oc by (auto simp: preserve_first_error_def split: if_splits)
  qed
  show "so_automatic_committed outcome \<longleftrightarrow> cb_inhibit_automatic ?cb \<noteq> None \<and> so_automatic_error outcome = ESP_OK"
    "so_persistence_committed outcome \<longleftrightarrow> \<not> clear \<or> cb_request_persistence ?cb \<noteq> None \<and> so_persistence_error outcome = ESP_OK"
    using assms(3) 2 3 4 5 6 7 8 by (auto simp: safety_stop_body_def Let_def)
qed

lemma stop_latches:
  assumes "stable_env kc P ops" and "stable_callbacks kc P (sv_callbacks (fst n))"
    and "safety_stop_all_internal kc ops reason clear action n = (outcome, n')"
  shows "kept kc P n n'" and "good kc (mot n) \<Longrightarrow> action \<in> A \<Longrightarrow> P (mot n')"
    and "good kc (mot n) \<Longrightarrow> \<not> durable_inhibit action \<Longrightarrow> so_result outcome \<noteq> ESP_OK \<Longrightarrow> P (mot n')"
    and "so_result outcome = ESP_OK \<Longrightarrow> so_automatic_error outcome = ESP_OK \<and> so_persistence_error outcome = ESP_OK \<and>
      so_interlock_error outcome = ESP_OK \<and> so_motor_error outcome = ESP_OK"
    and "so_automatic_committed outcome \<Longrightarrow> so_automatic_error outcome = ESP_OK"
    and "so_persistence_committed outcome \<Longrightarrow> clear \<Longrightarrow> so_persistence_error outcome = ESP_OK"
proof -
  let ?n1 = "apfst stop_claim_section n"
  have cb: "sv_callbacks (fst ?n1) = sv_callbacks (fst n)" by (cases n) (simp add: stop_claim_section_def)
  define n9 where "n9 = (\<lambda>n8. apfst (stop_finish_section (so_result outcome)
      (take (SAFETY_SUPERVISOR_REASON_CAPACITY - 1) (case reason of None \<Rightarrow> ''unspecified'' | Some r \<Rightarrow> r))) (n8 :: 'w node))"
  obtain n8 where b: "safety_stop_body kc ops clear action ?n1 = (outcome, n8)" and
      n': "n' = notify_io ops (sv_callbacks (fst n)) (n9 n8)"
    using assms(3) cb by (auto simp: safety_stop_all_internal_def Let_def n9_def split: prod.splits)
  have a: "stable_callbacks kc P (sv_callbacks (fst ?n1))" using assms(2) cb by simp
  note B = body_latches [OF assms(1) a b]
  have k1: "kept kc P n ?n1" using cb by (simp add: kept_fields)
  have m9: "mot (n9 n8) = mot n8" by (simp add: n9_def)
  have c9: "sv_callbacks (fst (n9 n8)) = sv_callbacks (fst n8)" unfolding n9_def by (cases n8) (simp add: stop_finish_section_def)
  have k9: "kept kc P n8 (n9 n8)" using m9 c9 by (rule kept_fields)
  have k10: "kept kc P (n9 n8) n'" unfolding n' by (rule notify_kept [OF assms(1,2)])
  show "kept kc P n n'" using k1 B(1) k9 k10 by (meson kept_trans)
  have L: "P (mot n')" if "good kc (mot n)" "P (mot n8)"
    using that B(1) k1 k9 k10 by (meson kept_good kept_P)
  show "good kc (mot n) \<Longrightarrow> action \<in> A \<Longrightarrow> P (mot n')"
    and "good kc (mot n) \<Longrightarrow> \<not> durable_inhibit action \<Longrightarrow> so_result outcome \<noteq> ESP_OK \<Longrightarrow> P (mot n')"
    using B(2,3) L by simp_all
  show "so_result outcome = ESP_OK \<Longrightarrow> so_automatic_error outcome = ESP_OK \<and> so_persistence_error outcome = ESP_OK \<and>
      so_interlock_error outcome = ESP_OK \<and> so_motor_error outcome = ESP_OK" by (rule B(4))
  show "so_automatic_committed outcome \<Longrightarrow> so_automatic_error outcome = ESP_OK"
    "so_persistence_committed outcome \<Longrightarrow> clear \<Longrightarrow> so_persistence_error outcome = ESP_OK" using B(5,6) by simp_all
qed

end

section \<open>The supervisor task\<close>

text \<open>Where a restart comes from: a stop that cleared the targets and whose transaction ended with the
  automatic sources inhibited and the targets committed.\<close>

definition restart_after_stop :: "safety_kconfig \<Rightarrow> 'w safety_ops \<Rightarrow> 'w node \<Rightarrow> bool" where
  "restart_after_stop kc ops n' \<longleftrightarrow> (\<exists>reason action n1 outcome n2.
     safety_stop_all_internal kc ops (Some reason) True action n1 = (outcome, n2) \<and>
     (action = STOP_ACTION_GLOBAL \<and> so_result outcome = ESP_OK \<or> action = STOP_ACTION_RMT) \<and>
     so_automatic_error outcome = ESP_OK \<and> so_persistence_error outcome = ESP_OK \<and> restart_io ops n2 = Restarted n')"

text \<open>A check of the supervisor keeps the controller good and latched, and restarts only after such a stop.\<close>

definition watch :: "safety_kconfig \<Rightarrow> (motor_state \<Rightarrow> bool) \<Rightarrow> 'w safety_ops \<Rightarrow> ('w node \<Rightarrow> 'w node supervised) \<Rightarrow> bool" where
  "watch kc P ops f \<longleftrightarrow> (\<forall>n. stable_callbacks kc P (sv_callbacks (fst n)) \<longrightarrow>
     (case f n of Continues n' \<Rightarrow> kept kc P n n' | Restarted n' \<Rightarrow> kept kc P n n' \<and> restart_after_stop kc ops n'))"

text \<open>The iteration is the check of the ramp, then that of the scheduler, of the monitor, and the rest.\<close>

definition after_tach :: "safety_kconfig \<Rightarrow> 'w safety_ops \<Rightarrow> int \<Rightarrow> 'w node \<Rightarrow> 'w node supervised" where
  "after_tach kc ops now n =
     (let enabled = CONFIG_SUPERVISOR_ENABLED (sk_motor kc);
          r4 = (if enabled \<and> CONFIG_TACH_FEEDBACK_ENABLED kc then check_tach_action kc ops now else Continues) n;
          r5 = and_then r4 (check_rmt kc ops now)
      in and_then r5 (\<lambda>n5. let health = sfo_mqtt_health ops (snd (snd n5))
           in and_then (check_mqtt_dispatch kc ops now health n5) (\<lambda>n6.
              case check_lease kc ops now health (check_mqtt_overflow kc ops health n6) of (s, m, w) \<Rightarrow>
                let w1 = (if enabled then sfo_wdt_reset ops w else w)
                in case sfo_timer_us ops w1 of (t, w2) \<Rightarrow>
                   Continues (sfo_delay ops (sfo_ms_to_ticks ops SUPERVISOR_PERIOD_MS) (s\<lparr>sv_heartbeat_us := t\<rparr>, m, w2)))))"

definition after_scheduler :: "safety_kconfig \<Rightarrow> 'w safety_ops \<Rightarrow> int \<Rightarrow> 'w node \<Rightarrow> 'w node supervised" where
  "after_scheduler kc ops now n =
     and_then ((if CONFIG_SUPERVISOR_ENABLED (sk_motor kc) \<and> CONFIG_TACH_FEEDBACK_ENABLED kc then check_tach kc ops now else Continues) n)
       (after_tach kc ops now)"

definition after_ramp :: "safety_kconfig \<Rightarrow> 'w safety_ops \<Rightarrow> int \<Rightarrow> 'w node \<Rightarrow> 'w node supervised" where
  "after_ramp kc ops now n =
     and_then ((if CONFIG_SUPERVISOR_ENABLED (sk_motor kc) \<and> CONFIG_SCHEDULE_ENABLED kc then check_scheduler kc ops now else Continues) n)
       (after_scheduler kc ops now)"

text \<open>The node after an iteration, whether it goes on or restarts.\<close>

fun supervised_node :: "'n supervised \<Rightarrow> 'n" where
  "supervised_node (Continues n) = n"
| "supervised_node (Restarted n) = n"

context steady_stop begin

lemma watchD: "watch kc P ops f \<Longrightarrow> stable_callbacks kc P (sv_callbacks (fst n)) \<Longrightarrow>
    (f n = Continues n' \<longrightarrow> kept kc P n n') \<and> (f n = Restarted n' \<longrightarrow> kept kc P n n' \<and> restart_after_stop kc ops n')"
  unfolding watch_def by fastforce

lemma watch_Continues: "watch kc P ops Continues"
  unfolding watch_def using kept_refl by simp

lemma watch_then:
  assumes "watch kc P ops f" and "watch kc P ops h"
  shows "watch kc P ops (\<lambda>n. and_then (f n) h)"
  unfolding watch_def
proof (intro allI impI)
  fix n :: "'w node" assume c: "stable_callbacks kc P (sv_callbacks (fst n))"
  show "case and_then (f n) h of Continues n' \<Rightarrow> kept kc P n n' | Restarted n' \<Rightarrow> kept kc P n n' \<and> restart_after_stop kc ops n'"
  proof (cases "f n")
    case (Continues n1)
    then have k: "kept kc P n n1" using watchD [OF assms(1) c] by blast
    then have "stable_callbacks kc P (sv_callbacks (fst n1))" using c kept_callbacks by metis
    note W = watchD [OF assms(2) this]
    show ?thesis using W kept_trans [OF k] Continues by (cases "h n1") simp_all
  next
    case (Restarted n1)
    then show ?thesis using watchD [OF assms(1) c] by simp
  qed
qed

lemma restart_kept:
  assumes "stable_env kc P ops" and "restart_io ops n = Restarted n'"
  shows "kept kc P n n'"
proof -
  obtain s m w where d: "sfo_delay ops (sfo_ms_to_ticks ops 100) n = (s, m, w)" by (metis prod_cases3)
  have "kept kc P n (s, m, w)" using env_kept(4) [OF assms(1)] d by metis
  moreover have "n' = (s, m, sfo_esp_restart ops w)" using assms(2) d by (simp add: restart_io_def)
  then have "kept kc P (s, m, w) n'" by (simp add: kept_def)
  ultimately show ?thesis by (rule kept_trans)
qed

lemma restart_io_Restarted: obtains n' where "restart_io ops n = Restarted n'"
  by (simp add: restart_io_def)

lemma fail_safe_watch:
  assumes "stable_env kc P ops"
  shows "watch kc P ops (restart_after_fail_safe_stop kc ops reason)"
  unfolding watch_def
proof (intro allI impI)
  fix n :: "'w node" assume c: "stable_callbacks kc P (sv_callbacks (fst n))"
  obtain outcome n1 where s: "safety_stop_all_internal kc ops (Some reason) True STOP_ACTION_GLOBAL n = (outcome, n1)" by (rule prod.exhaust)
  note S = stop_latches [OF assms c s]
  show "case restart_after_fail_safe_stop kc ops reason n of Continues n' \<Rightarrow> kept kc P n n' | Restarted n' \<Rightarrow> kept kc P n n' \<and> restart_after_stop kc ops n'"
  proof (cases "so_result outcome = ESP_OK")
    case False
    then show ?thesis using s S(1) by (simp add: restart_after_fail_safe_stop_def)
  next
    case True
    obtain n' where r: "restart_io ops n1 = Restarted n'" by (rule restart_io_Restarted)
    have "restart_after_stop kc ops n'"
      unfolding restart_after_stop_def using s S(4) [OF True] r True by blast
    moreover have "kept kc P n n'" by (rule kept_trans [OF S(1) restart_kept [OF assms r]])
    ultimately show ?thesis using s True r by (simp add: restart_after_fail_safe_stop_def)
  qed
qed

lemma due_callbacks: "restart_attempt_due now s = (due, s1) \<Longrightarrow> sv_callbacks s1 = sv_callbacks s"
  by (auto simp: restart_attempt_due_def Let_def split: if_splits)

lemma kept_state: "sv_callbacks s' = sv_callbacks s \<Longrightarrow> kept kc P (s, m, w) (s', m, w')"
  by (simp add: kept_def)

lemma watch_from:
  assumes "watch kc P ops h" and "kept kc P n n1" and "stable_callbacks kc P (sv_callbacks (fst n))"
  shows "case h n1 of Continues n' \<Rightarrow> kept kc P n n' | Restarted n' \<Rightarrow> kept kc P n n' \<and> restart_after_stop kc ops n'"
proof -
  have "stable_callbacks kc P (sv_callbacks (fst n1))" using assms(2,3) kept_callbacks by metis
  note W = watchD [OF assms(1) this]
  show ?thesis using W kept_trans [OF assms(2)] by (cases "h n1") simp_all
qed

lemma liveness_watch:
  assumes "stable_env kc P ops" and "\<And>s. sv_callbacks (fault s) = sv_callbacks s" and "stable_callbacks kc P (sv_callbacks (fst n))"
  shows "case liveness_check kc ops now expired fault reason n of Continues n' \<Rightarrow> kept kc P n n'
    | Restarted n' \<Rightarrow> kept kc P n n' \<and> restart_after_stop kc ops n'"
proof (cases expired)
  case False
  then show ?thesis by (simp add: liveness_check_def)
next
  case True
  obtain s m w where n: "n = (s, m, w)" by (metis prod_cases3)
  obtain due s1 where d: "restart_attempt_due now (fault s) = (due, s1)" by (rule prod.exhaust)
  have k: "kept kc P n (s1, m, w)" unfolding n using due_callbacks [OF d] assms(2) by (intro kept_state) simp
  show ?thesis
  proof (cases due)
    case False
    then show ?thesis using True d n k by (simp add: liveness_check_def)
  next
    case t: True
    then have "liveness_check kc ops now expired fault reason n = restart_after_fail_safe_stop kc ops reason (s1, m, w)"
      using True d n by (simp add: liveness_check_def)
    then show ?thesis using watch_from [OF fail_safe_watch [OF assms(1)] k assms(3)] by simp
  qed
qed

lemma callbacks_fault [simp]:
  "sv_callbacks (s\<lparr>sv_ramp_liveness_fault := b\<rparr>) = sv_callbacks s" "sv_callbacks (s\<lparr>sv_scheduler_liveness_fault := b\<rparr>) = sv_callbacks s"
  "sv_callbacks (s\<lparr>sv_tach_liveness_fault := b\<rparr>) = sv_callbacks s" "sv_callbacks (s\<lparr>sv_mqtt_dispatch_liveness_fault := b\<rparr>) = sv_callbacks s"
  by simp_all

lemma check_watches:
  assumes "stable_env kc P ops"
  shows "watch kc P ops (check_ramp kc ops now)" "watch kc P ops (check_scheduler kc ops now)" "watch kc P ops (check_tach kc ops now)"
    "watch kc P ops (check_mqtt_dispatch kc ops now health)"
  unfolding watch_def check_ramp_def check_scheduler_def check_tach_def check_mqtt_dispatch_def Let_def
  using liveness_watch [OF assms] by (auto split: prod.splits)

lemma check_tach_action_watch:
  assumes "stable_env kc P ops"
  shows "watch kc P ops (check_tach_action kc ops now)"
  unfolding watch_def
proof (intro allI impI)
  fix n :: "'w node" assume c: "stable_callbacks kc P (sv_callbacks (fst n))"
  obtain health n1 where h: "(case cb_read_tach_action_health (sv_callbacks (fst n)) of None \<Rightarrow> (None, n) | Some f \<Rightarrow> callback_io ops f n) = (health, n1)"
    by (rule prod.exhaust)
  have k: "kept kc P n n1"
  proof (cases "cb_read_tach_action_health (sv_callbacks (fst n))")
    case None
    then show ?thesis using h by simp
  next
    case (Some f)
    then have "stable kc P (fst x) (fst (snd (f x)))" for x using c unfolding stable_callbacks_def by blast
    then have "safe kc P (callback_io ops f)" by (intro callback_io_safe assms)
    then show ?thesis using safeD h Some by fastforce
  qed
  have w: "watch kc P ops (\<lambda>n1. liveness_check kc ops now bad (\<lambda>s. s\<lparr>sv_tach_liveness_fault := True\<rparr>) ''tach safety-action task expired'' n1)" for bad
    unfolding watch_def using liveness_watch [OF assms] by auto
  show "case check_tach_action kc ops now n of Continues n' \<Rightarrow> kept kc P n n' | Restarted n' \<Rightarrow> kept kc P n n' \<and> restart_after_stop kc ops n'"
    unfolding check_tach_action_def h prod.case Let_def by (rule watch_from [OF w k c])
qed

lemma stop_kept:
  assumes "stable_env kc P ops" and "stable_callbacks kc P (sv_callbacks (fst n))"
  shows "kept kc P n (snd (safety_stop_all_internal kc ops reason clear action n))"
proof -
  obtain outcome n' where s: "safety_stop_all_internal kc ops reason clear action n = (outcome, n')" by (rule prod.exhaust)
  then show ?thesis using stop_latches(1) [OF assms s] by simp
qed

lemma take_pending_kept: "motor_control_take_rmt_fault_pending m = (pending, m1) \<Longrightarrow> sv_callbacks s' = sv_callbacks s \<Longrightarrow>
    kept kc P (s, m, w) (s', m1, w)"
proof -
  assume p: "motor_control_take_rmt_fault_pending m = (pending, m1)" and cb: "sv_callbacks s' = sv_callbacks s"
  have "motor_step (sk_motor kc) m m1" using step_take_pending [of "sk_motor kc" m] p by simp
  then have "motor_steps (sk_motor kc) m m1" by (rule r_into_rtranclp)
  moreover have "s_stop_depth m1 = s_stop_depth m" using p by (auto simp: motor_control_take_rmt_fault_pending_def)
  ultimately have "good kc m \<Longrightarrow> good kc m1" using steps_good by (simp add: good_def)
  moreover have "P m \<Longrightarrow> P m1" using pending_keeps [of m] p by simp
  ultimately show ?thesis using cb by (simp add: kept_def stable_def)
qed

lemma check_rmt_watch:
  assumes "stable_env kc P ops"
  shows "watch kc P ops (check_rmt kc ops now)"
  unfolding watch_def
proof (intro allI impI)
  fix n :: "'w node" assume c: "stable_callbacks kc P (sv_callbacks (fst n))"
  obtain s m w where n: "n = (s, m, w)" by (metis prod_cases3)
  obtain pending m1 where p: "motor_control_take_rmt_fault_pending m = (pending, m1)" by (rule prod.exhaust)
  let ?s1 = "if pending then s\<lparr>sv_rmt_reboot_pending := True\<rparr> else s"
  obtain due s2 where d: "restart_attempt_due now ?s1 = (due, s2)" by (rule prod.exhaust)
  have cb: "sv_callbacks ?s1 = sv_callbacks s" "sv_callbacks s2 = sv_callbacks s" using due_callbacks [OF d] by auto
  have k: "kept kc P n (s, m1, w)" "kept kc P n (?s1, m1, w)" "kept kc P n (s2, m1, w)"
    unfolding n by (rule take_pending_kept [OF p]; rule refl cb)+
  have C: "stable_callbacks kc P (sv_callbacks (fst (s, m1, w)))" "stable_callbacks kc P (sv_callbacks (fst (s2, m1, w)))" using c n cb by simp_all
  obtain outcome n1 where o: "safety_stop_all_internal kc ops (Some ''repeated RMT failures'') True STOP_ACTION_RMT (s2, m1, w) = (outcome, n1)"
    by (rule prod.exhaust)
  note S = stop_latches [OF assms C(2) o]
  have k1: "kept kc P n n1" by (rule kept_trans [OF k(3) S(1)])
  obtain n2 where r: "restart_io ops n1 = Restarted n2" by (rule restart_io_Restarted)
  have k2: "kept kc P n n2" by (rule kept_trans [OF k1 restart_kept [OF assms r]])
  have k0: "kept kc P n (snd (safety_stop_all_internal kc ops (Some ''repeated RMT failures'') False STOP_ACTION_RMT (s, m1, w)))"
    by (rule kept_trans [OF k(1) stop_kept [OF assms C(1)]])
  have rs: "restart_after_stop kc ops n2" if "so_automatic_committed outcome" "so_persistence_committed outcome"
    unfolding restart_after_stop_def using o S(5,6) r that by blast
  show "case check_rmt kc ops now n of Continues n' \<Rightarrow> kept kc P n n' | Restarted n' \<Rightarrow> kept kc P n n' \<and> restart_after_stop kc ops n'"
  proof (cases "CONFIG_RMT_FAILURE_REBOOT kc \<and> sv_rmt_reboot_pending ?s1 \<and> due")
    case True
    then have "check_rmt kc ops now n = (if so_automatic_committed outcome \<and> so_persistence_committed outcome then Restarted n2 else Continues n1)"
      using n p d o r by (simp add: check_rmt_def)
    then show ?thesis using k1 k2 rs by simp
  next
    case False
    then have "check_rmt kc ops now n \<in> {Continues (snd (safety_stop_all_internal kc ops (Some ''repeated RMT failures'') False STOP_ACTION_RMT (s, m1, w))),
        Continues (s, m1, w), Continues (?s1, m1, w), Continues (s2, m1, w)}"
      using n p d by (auto simp: check_rmt_def)
    then consider "check_rmt kc ops now n = Continues (snd (safety_stop_all_internal kc ops (Some ''repeated RMT failures'') False STOP_ACTION_RMT (s, m1, w)))"
      | "check_rmt kc ops now n = Continues (s, m1, w)" | "check_rmt kc ops now n = Continues (?s1, m1, w)"
      | "check_rmt kc ops now n = Continues (s2, m1, w)" by blast
    then show ?thesis by cases (simp_all only: supervised.case k k0)
  qed
qed

lemma overflow_kept:
  assumes "stable_env kc P ops" and "stable_callbacks kc P (sv_callbacks (fst n))"
  shows "kept kc P n (check_mqtt_overflow kc ops health n)"
proof -
  obtain s m w where n: "n = (s, m, w)" by (metis prod_cases3)
  let ?n1 = "(s\<lparr>sv_observed_mqtt_command_queue_drops := mqh_command_queue_drops health, sv_mqtt_command_overflow_fault := True\<rparr>, m, w)"
  have k: "kept kc P n ?n1" unfolding n by (rule kept_state) simp
  have "stable_callbacks kc P (sv_callbacks (fst ?n1))" using assms(2) n by simp
  from kept_trans [OF k stop_kept [OF assms(1) this]] show ?thesis using n by (simp add: check_mqtt_overflow_def)
qed

lemma lease_kept:
  assumes "stable_env kc P ops" and "stable_callbacks kc P (sv_callbacks (fst n))"
  shows "kept kc P n (check_lease kc ops now health n)"
proof -
  obtain s m w where n: "n = (s, m, w)" by (metis prod_cases3)
  obtain mh w1 where h: "motor_control_get_health_snapshot (sfo_motor ops) m w = (mh, w1)" by (rule prod.exhaust)
  have k: "kept kc P n (s, m, w1)" unfolding n by (rule kept_state) simp
  have "stable_callbacks kc P (sv_callbacks (fst (s, m, w1)))" using assms(2) n by simp
  from kept_trans [OF k stop_kept [OF assms(1) this]] show ?thesis using n h k by (simp add: check_lease_def)
qed

lemma iteration_end_watch:
  assumes "stable_env kc P ops"
  shows "watch kc P ops (\<lambda>n6. case check_lease kc ops now health (check_mqtt_overflow kc ops health n6) of (s, m, w) \<Rightarrow>
      let w1 = (if enabled then sfo_wdt_reset ops w else w)
      in case sfo_timer_us ops w1 of (t, w2) \<Rightarrow>
         Continues (sfo_delay ops (sfo_ms_to_ticks ops SUPERVISOR_PERIOD_MS) (s\<lparr>sv_heartbeat_us := t\<rparr>, m, w2)))"
  unfolding watch_def
proof (intro allI impI)
  fix n :: "'w node" assume c: "stable_callbacks kc P (sv_callbacks (fst n))"
  obtain s m w where l: "check_lease kc ops now health (check_mqtt_overflow kc ops health n) = (s, m, w)" by (metis prod_cases3)
  obtain t w2 where t: "sfo_timer_us ops (if enabled then sfo_wdt_reset ops w else w) = (t, w2)" by (rule prod.exhaust)
  have k1: "kept kc P n (check_mqtt_overflow kc ops health n)" by (rule overflow_kept [OF assms c])
  have "stable_callbacks kc P (sv_callbacks (fst (check_mqtt_overflow kc ops health n)))" using c kept_callbacks [OF k1] by simp
  then have k2: "kept kc P n (s, m, w)" using kept_trans [OF k1 lease_kept [OF assms]] l by metis
  have "kept kc P (s, m, w) (s\<lparr>sv_heartbeat_us := t\<rparr>, m, w2)" by (rule kept_state) simp
  then have "kept kc P n (sfo_delay ops (sfo_ms_to_ticks ops SUPERVISOR_PERIOD_MS) (s\<lparr>sv_heartbeat_us := t\<rparr>, m, w2))"
    by (rule kept_trans [OF kept_trans [OF k2] env_kept(4) [OF assms]])
  then show "case (case check_lease kc ops now health (check_mqtt_overflow kc ops health n) of (s, m, w) \<Rightarrow>
      let w1 = (if enabled then sfo_wdt_reset ops w else w)
      in case sfo_timer_us ops w1 of (t, w2) \<Rightarrow>
         Continues (sfo_delay ops (sfo_ms_to_ticks ops SUPERVISOR_PERIOD_MS) (s\<lparr>sv_heartbeat_us := t\<rparr>, m, w2)))
    of Continues n' \<Rightarrow> kept kc P n n' | Restarted n' \<Rightarrow> kept kc P n n' \<and> restart_after_stop kc ops n'"
    unfolding l prod.case Let_def t by simp
qed

lemma and_then_assoc: "and_then (and_then x f) g = and_then x (\<lambda>n. and_then (f n) g)"
  by (cases x) simp_all

lemma iteration_split:
  assumes "sfo_timer_us ops w = (now, w1)"
  shows "supervisor_iteration kc ops (s, m, w) =
    and_then (if CONFIG_SUPERVISOR_ENABLED (sk_motor kc) then check_ramp kc ops now (s, m, w1) else Continues (s, m, w1)) (after_ramp kc ops now)"
  unfolding supervisor_iteration_def after_ramp_def [abs_def] after_scheduler_def [abs_def] after_tach_def [abs_def]
    Let_def prod.case assms and_then_assoc by (rule refl)

lemma after_watches:
  assumes "stable_env kc P ops"
  shows "watch kc P ops (after_tach kc ops now)" "watch kc P ops (after_scheduler kc ops now)" "watch kc P ops (after_ramp kc ops now)"
proof -
  note W = check_watches [OF assms] watch_Continues check_tach_action_watch [OF assms] check_rmt_watch [OF assms]
  have i: "watch kc P ops f \<Longrightarrow> watch kc P ops (if c then f else Continues)" for c :: bool and f :: "'w node \<Rightarrow> 'w node supervised"
    using watch_Continues by (cases c) simp_all
  have e: "watch kc P ops (\<lambda>n5. and_then (check_mqtt_dispatch kc ops now (sfo_mqtt_health ops (snd (snd n5))) n5) (\<lambda>n6.
      case check_lease kc ops now (sfo_mqtt_health ops (snd (snd n5))) (check_mqtt_overflow kc ops (sfo_mqtt_health ops (snd (snd n5))) n6) of (s, m, w) \<Rightarrow>
        let w1 = (if enabled then sfo_wdt_reset ops w else w)
        in case sfo_timer_us ops w1 of (t, w2) \<Rightarrow>
           Continues (sfo_delay ops (sfo_ms_to_ticks ops SUPERVISOR_PERIOD_MS) (s\<lparr>sv_heartbeat_us := t\<rparr>, m, w2))))" for enabled
    using watch_then [OF W(4) iteration_end_watch [OF assms]] unfolding watch_def by blast
  show t: "watch kc P ops (after_tach kc ops now)"
    unfolding after_tach_def [abs_def] Let_def by (intro watch_then i W e [unfolded Let_def])
  show s: "watch kc P ops (after_scheduler kc ops now)"
    unfolding after_scheduler_def [abs_def] by (intro watch_then i W t)
  show "watch kc P ops (after_ramp kc ops now)"
    unfolding after_ramp_def [abs_def] by (intro watch_then i W s)
qed

lemma watch_node: "watch kc P ops f \<Longrightarrow> stable_callbacks kc P (sv_callbacks (fst n)) \<Longrightarrow> kept kc P n (supervised_node (f n))"
  using watchD [of f n] by (cases "f n") simp_all

lemma expired_latches:
  assumes "stable_env kc P ops" and "stable_callbacks kc P (sv_callbacks s)" and "good kc m" and "fst (restart_attempt_due now s)"
    and "\<And>s. sv_callbacks (fault s) = sv_callbacks s" and "sv_last_restart_attempt_us (fault s) = sv_last_restart_attempt_us s"
    and "watch kc P ops h"
  shows "good kc (mot (supervised_node (and_then (liveness_check kc ops now True fault reason (s, m, w)) h))) \<and>
    P (mot (supervised_node (and_then (liveness_check kc ops now True fault reason (s, m, w)) h)))"
proof -
  obtain s1 where d: "restart_attempt_due now (fault s) = (True, s1)"
    using assms(4,6) by (auto simp: restart_attempt_due_def Let_def)
  have c: "stable_callbacks kc P (sv_callbacks (fst (s1, m, w)))" using due_callbacks [OF d] assms(2,5) by simp
  obtain outcome n1 where o: "safety_stop_all_internal kc ops (Some reason) True STOP_ACTION_GLOBAL (s1, m, w) = (outcome, n1)" by (rule prod.exhaust)
  note S = stop_latches [OF assms(1) c o]
  have g: "good kc (mot n1)" "P (mot n1)" using S(2) global kept_good [OF S(1)] assms(3) by simp_all
  obtain n2 where r: "restart_io ops n1 = Restarted n2" by (rule restart_io_Restarted)
  have e: "liveness_check kc ops now True fault reason (s, m, w) = (if so_result outcome \<noteq> ESP_OK then Continues n1 else Restarted n2)"
    using d o r by (simp add: liveness_check_def restart_after_fail_safe_stop_def)
  show ?thesis
  proof (cases "so_result outcome = ESP_OK")
    case True
    have "kept kc P n1 n2" by (rule restart_kept [OF assms(1) r])
    then show ?thesis using e True g kept_good kept_P by (metis and_then.simps(2) supervised_node.simps(2))
  next
    case False
    have "stable_callbacks kc P (sv_callbacks (fst n1))" using c kept_callbacks [OF S(1)] by simp
    from watch_node [OF assms(7) this] show ?thesis
      using e False g kept_good kept_P by (metis and_then.simps(1))
  qed
qed

end

end
