(* ===== verification/Safety_Properties.thy ===== *)
theory Safety_Properties imports Safety_Simulation Safety_Stops
begin

text \<open>
  What the safety supervisor guarantees: the interlock stays off from the moment a stop has driven it
  until the stop is over, a stop that reports anything but success has latched the global inhibit,
  the node restarts only after the sources of motion were durably disabled, and a ramp task that
  hangs is inhibited within one pass of the supervisor.
\<close>

section \<open>The interlock\<close>



text \<open>The calls of a task on the protocol.\<close>

datatype safety_call = Call_Stop "string option" bool stop_action | Call_Enable | Call_Command_Begin u32 | Call_Command_End

fun run_safety_call :: "safety_kconfig \<Rightarrow> 'w safety_ops \<Rightarrow> safety_call \<Rightarrow> 'w node \<Rightarrow> 'w node" where
  "run_safety_call kc ops (Call_Stop reason clear action) n = snd (safety_stop_all_internal kc ops reason clear action n)"
| "run_safety_call kc ops Call_Enable n = snd (safety_supervisor_enable_output_if_safe kc ops n)"
| "run_safety_call kc ops (Call_Command_Begin ticks) n = snd (safety_supervisor_output_command_begin ops ticks n)"
| "run_safety_call kc ops Call_Command_End n = safety_supervisor_output_command_end ops n"

fun call_allowed :: "nat \<Rightarrow> safety_call \<Rightarrow> 'w node \<Rightarrow> guard \<Rightarrow> bool" where
  "call_allowed t (Call_Stop _ _ _) n g \<longleftrightarrow> t \<notin> g_claims g \<and> sv_stop_depth (fst n) < UINT32_MAX"
| "call_allowed t Call_Command_End n g \<longleftrightarrow> 0 < holds t g"
| "call_allowed t _ n g \<longleftrightarrow> True"

text \<open>How often the task holds the mutex after a call.\<close>

fun holds_after :: "'w safety_ops \<Rightarrow> safety_call \<Rightarrow> 'w node \<Rightarrow> nat \<Rightarrow> nat" where
  "holds_after ops (Call_Command_Begin ticks) n k = (if fst (safety_supervisor_output_command_begin ops ticks n) = ESP_OK then Suc k else k)"
| "holds_after ops Call_Command_End n k = k - 1"
| "holds_after ops _ n k = k"

lemma begin_moves:
  assumes "safety_env t ops" and "safety_inv (fst n, g)" and "g_checked g \<noteq> Some t"
  shows "\<exists>g'. safety_run (fst n, g) (fst (snd (safety_supervisor_output_command_begin ops ticks n)), g') \<and> g_checked g' \<noteq> Some t \<and>
    holds t g' = holds_after ops (Call_Command_Begin ticks) n (holds t g)"
proof (cases "sv_initialized (fst n) \<and> fst (sfo_take ops ticks n)")
  case False
  obtain x where x: "sv_stop_mutex (fst n) = Some x" using assms(2) by (cases n) (auto simp: safety_inv.simps)
  show ?thesis
  proof (cases "sv_initialized (fst n)")
    case init: True
    then obtain n1 where n1: "sfo_take ops ticks n = (False, n1)" using False by (cases "sfo_take ops ticks n") auto
    obtain g' where g': "moves t (fst n, g) (fst (snd (sfo_take ops ticks n)), g')" by (rule env_take [OF assms(1,2)])
    have "g_checked g' \<noteq> Some t" "holds t g' = holds t g" using moves_mine [OF g'] assms(3) by (simp_all add: mine_def)
    then show ?thesis using moves_run [OF g'] n1 init x
      by (intro exI [of _ g']) (simp add: safety_supervisor_output_command_begin_def)
  next
    case False
    then show ?thesis using assms(3) by (intro exI [of _ g]) (simp add: safety_supervisor_output_command_begin_def)
  qed
next
  case True
  obtain x where x: "sv_stop_mutex (fst n) = Some x" using assms(2) by (cases n) (auto simp: safety_inv.simps)
  obtain n1 where tk: "sfo_take ops ticks n = (True, n1)" using True by (cases "sfo_take ops ticks n") auto
  obtain g1 where 1: "safety_run (fst n, g) (fst n1, g1)" "safety_inv (fst n1, g1)"
    "mine t g1 = (fst (mine t g), fst (snd (mine t g)), fst (snd (snd (mine t g))), Suc (holds t g))"
    by (rule taken [OF assms(1,2), of ticks]) (use tk in simp_all)
  have g1: "holds t g1 = Suc (holds t g)" "g_checked g1 \<noteq> Some t" using 1(3) assms(3) by (simp_all add: mine_def)
  show ?thesis
  proof (cases "sv_stop_depth (fst n1) = 0")
    case z: True
    then have "safety_supervisor_output_command_begin ops ticks n = (ESP_OK, n1)"
      using tk True x by (simp add: safety_supervisor_output_command_begin_def)
    then show ?thesis using 1(1) g1 by (intro exI [of _ g1]) simp
  next
    case False
    then have b: "safety_supervisor_output_command_begin ops ticks n = (ESP_ERR_INVALID_STATE, sfo_give ops n1)"
      using tk True x by (simp add: safety_supervisor_output_command_begin_def)
    obtain g3 where 3: "safety_run (fst n1, g1) (fst (sfo_give ops n1), g3)"
        "mine t g3 = (fst (mine t g1), fst (snd (mine t g1)), False, holds t g)"
      by (rule given [OF assms(1) 1(2) g1])
    show ?thesis using safety_run_trans [OF 1(1) 3(1)] 3(2) b by (intro exI [of _ g3]) (simp add: mine_def)
  qed
qed



section \<open>The motor controller during a stop\<close>

text \<open>What the other tasks and the callbacks do to the motor controller are its own steps, and never as many
  stops at once as the depth counter can count.\<close>

definition calm :: "safety_kconfig \<Rightarrow> motor_state \<Rightarrow> motor_state \<Rightarrow> bool" where
  "calm kc m m' \<longleftrightarrow> motor_steps (sk_motor kc) m m' \<and> (s_stop_depth m \<noteq> UINT32_MAX \<longrightarrow> s_stop_depth m' \<noteq> UINT32_MAX)"

definition node_calm :: "safety_kconfig \<Rightarrow> 'w node \<Rightarrow> 'w node \<Rightarrow> bool" where
  "node_calm kc n n' \<longleftrightarrow> calm kc (mot n) (mot n') \<and> sv_callbacks (fst n') = sv_callbacks (fst n)"

definition motor_env :: "safety_kconfig \<Rightarrow> 'w safety_ops \<Rightarrow> bool" where
  "motor_env kc ops \<longleftrightarrow> (\<forall>n. node_calm kc n (sfo_others ops n)) \<and> (\<forall>n. node_calm kc n (sfo_give ops n)) \<and>
     (\<forall>ticks n. node_calm kc n (snd (sfo_take ops ticks n))) \<and> (\<forall>ticks n. node_calm kc n (sfo_delay ops ticks n))"

definition callbacks_calm :: "safety_kconfig \<Rightarrow> 'w safety_supervisor_callbacks \<Rightarrow> bool" where
  "callbacks_calm kc cb \<longleftrightarrow>
     (\<forall>f t x. cb_inhibit_automatic cb = Some f \<longrightarrow> calm kc (fst x) (fst (snd (f t x)))) \<and>
     (\<forall>f t x. cb_request_persistence cb = Some f \<longrightarrow> calm kc (fst x) (fst (snd (f t x)))) \<and>
     (\<forall>f x. cb_notify_state cb = Some f \<longrightarrow> calm kc (fst x) (fst (f x))) \<and>
     (\<forall>f x. cb_read_tach_action_health cb = Some f \<longrightarrow> calm kc (fst x) (fst (snd (f x))))"

text \<open>The predicate that the stops establish: the global latch.\<close>

definition latched :: "motor_state \<Rightarrow> bool" where
  "latched m \<longleftrightarrow> s_global_inhibited m"

lemma calm_stable: "calm kc m m' \<Longrightarrow> stable kc latched m m'"
  unfolding calm_def stable_def latched_def using steps_good by (auto simp: good_def)

lemma motor_env_stable: "motor_env kc ops \<Longrightarrow> stable_env kc latched ops"
  unfolding motor_env_def stable_env_def node_calm_def kept_def using calm_stable by blast

lemma callbacks_calm_stable: "callbacks_calm kc cb \<Longrightarrow> stable_callbacks kc latched cb"
  unfolding callbacks_calm_def stable_callbacks_def using calm_stable by blast

lemma release_fields:
  assumes "(e, m') = motor_control_clear_maintenance_inhibit m"
  shows "s_global_inhibited m' = s_global_inhibited m" "s_motors m' = s_motors m" "s_fan_count m' = s_fan_count m"
  using assms by (auto simp: motor_control_clear_maintenance_inhibit_def clear_maintenance_section_def emit_event_def Let_def
    split: prod.splits if_splits option.splits)

lemma stop_latch_fields:
  assumes "stop_all_internal (sk_motor kc) mops clear inhibit rb m w = (e, m', w')" and "good kc m"
  shows "s_global_inhibited m \<Longrightarrow> s_global_inhibited m'" and "inhibit = STOP_INHIBIT_GLOBAL \<Longrightarrow> s_global_inhibited m'"
proof -
  have i: "motor_inv (sk_motor kc) m" "0 < CONFIG_RMT_ERROR_LIMIT (sk_motor kc)" using assms(2) by (simp_all add: good_def)
  have "s_global_inhibited m' \<longleftrightarrow> s_global_inhibited m \<or> inhibit = STOP_INHIBIT_GLOBAL" if "stop_enter_section inhibit m \<noteq> None"
    using stop_all_effect [OF assms(1) i that] by blast
  moreover have "m' = m" if "stop_enter_section inhibit m = None" using assms(1) that by (simp add: stop_all_internal_def)
  ultimately show "s_global_inhibited m \<Longrightarrow> s_global_inhibited m'" "inhibit = STOP_INHIBIT_GLOBAL \<Longrightarrow> s_global_inhibited m'"
    using stop_entered [OF assms(2), of inhibit] by auto
qed

interpretation latch: steady_stop kc ops latched "{STOP_ACTION_GLOBAL}" for kc :: safety_kconfig and ops :: "'w safety_ops"
proof
  show "latched m'" if "good kc m" "latched m" "stop_all_internal (sk_motor kc) (sfo_motor ops) clear inhibit rb m w = (e, m', w')"
    for m clear inhibit rb w e m' w'
    using stop_latch_fields(1) [OF that(3,1)] that(2) by (simp add: latched_def)
  show "latched (snd (motor_control_clear_maintenance_inhibit m))" if "latched m" for m
    using release_fields(1) [of "fst (motor_control_clear_maintenance_inhibit m)" "snd (motor_control_clear_maintenance_inhibit m)" m] that
    by (simp add: latched_def)
  show "latched m'" if "a \<in> {STOP_ACTION_GLOBAL}" "good kc m"
    "stop_all_internal (sk_motor kc) (sfo_motor ops) clear (fst (action_stop a)) (snd (action_stop a)) m w = (e, m', w')"
    for a m clear w e m' w'
    using stop_latch_fields(2) [OF that(3,2)] that(1) by (simp add: latched_def)
qed (simp_all add: latched_def motor_control_take_rmt_fault_pending_def durable_inhibit_def)

lemma latched_zero: "good kc m \<Longrightarrow> latched m \<Longrightarrow>
    s_global_inhibited m \<and> (\<forall>i < 4. mc_target_pct (motor m i) = 0) \<and> \<not> motor_control_output_allowed m"
  by (auto simp: good_def latched_def motor_inv_def all_targets_zero_def motor_control_output_allowed_def)


text \<open>The simulated platform is such an environment, and its controller is in service.\<close>

lemma safety_sim_motor_env: "motor_env safety_sim_kconfig safety_sim_ops"
  by (simp add: motor_env_def node_calm_def calm_def safety_sim_ops_def idle_safety_ops_def)

lemma safety_sim_callbacks: "callbacks_calm safety_sim_kconfig (sv_callbacks (fst (safety_sim_node script)))"
  by (simp add: callbacks_calm_def calm_def safety_sim_node_def safety_sim_state_def safety_sim_callbacks_def)

lemma safety_sim_good: "good safety_sim_kconfig (mot (safety_sim_node script))"
  using sim_running_inv sim_limit sim_running_ready by (simp add: good_def safety_sim_node_def)


section \<open>The supervisor task\<close>



text \<open>C10. A hung task is stopped. In service with the supervisor enabled, if the heartbeat of the ramp task,
  of the scheduler or of the tachometer monitor has expired and no restart was attempted within the
  retry period, then one iteration of the supervisor leaves the controller globally inhibited, with
  every target zero and output refused - whether the iteration ends in a restart or the stop failed
  and the task goes on.\<close>

theorem hung_task_is_stopped:
  assumes "motor_env kc ops" and "callbacks_calm kc (sv_callbacks s)" and "good kc m" and "CONFIG_SUPERVISOR_ENABLED (sk_motor kc)"
    and "sfo_timer_us ops w = (now, w1)" and "fst (restart_attempt_due now s)"
    and "heartbeat_expired now (motor_control_ramp_heartbeat_us m) (CONFIG_RAMP_HEARTBEAT_TIMEOUT_MS kc * 1000) s \<or>
      CONFIG_SCHEDULE_ENABLED kc \<and>
        heartbeat_expired now (sfo_scheduler_heartbeat_us ops w1) (CONFIG_SUPERVISOR_AUX_HEARTBEAT_TIMEOUT_MS kc * 1000) s \<or>
      CONFIG_TACH_FEEDBACK_ENABLED kc \<and>
        heartbeat_expired now (sfo_tach_heartbeat_us ops w1)
          (max (CONFIG_SUPERVISOR_AUX_HEARTBEAT_TIMEOUT_MS kc) (CONFIG_TACH_SAMPLE_MS (sk_tach kc) * 2 + 1000) * 1000) s"
  shows "s_global_inhibited (mot (supervised_node (supervisor_iteration kc ops (s, m, w)))) \<and>
    (\<forall>i < 4. mc_target_pct (motor (mot (supervised_node (supervisor_iteration kc ops (s, m, w)))) i) = 0) \<and>
    \<not> motor_control_output_allowed (mot (supervised_node (supervisor_iteration kc ops (s, m, w))))"
proof (rule latched_zero)
  let ?ramp = "heartbeat_expired now (motor_control_ramp_heartbeat_us m) (CONFIG_RAMP_HEARTBEAT_TIMEOUT_MS kc * 1000) s"
    and ?sched = "heartbeat_expired now (sfo_scheduler_heartbeat_us ops w1) (CONFIG_SUPERVISOR_AUX_HEARTBEAT_TIMEOUT_MS kc * 1000) s"
  note A = latch.after_watches [OF motor_env_stable [OF assms(1)]]
  note E = latch.expired_latches [OF motor_env_stable [OF assms(1)] callbacks_calm_stable [OF assms(2)] assms(3,6)]

  have "good kc (mot (supervised_node (supervisor_iteration kc ops (s, m, w)))) \<and> latched (mot (supervised_node (supervisor_iteration kc ops (s, m, w))))"
  proof (cases ?ramp)
    case True
    then show ?thesis unfolding latch.iteration_split [OF assms(5)] if_P [OF assms(4)] check_ramp_def prod.case
      using E A(3) by simp
  next
    case ramp: False
    then have i: "supervisor_iteration kc ops (s, m, w) = after_ramp kc ops now (s, m, w1)"
      unfolding latch.iteration_split [OF assms(5)] if_P [OF assms(4)] check_ramp_def prod.case by (simp add: liveness_check_def)
    show ?thesis
    proof (cases "CONFIG_SCHEDULE_ENABLED kc \<and> ?sched")
      case True
      then show ?thesis unfolding i after_ramp_def check_scheduler_def prod.case
        using E A(2) assms(4) by simp
    next
      case False
      then have j: "after_ramp kc ops now (s, m, w1) = after_scheduler kc ops now (s, m, w1)"
        unfolding after_ramp_def check_scheduler_def prod.case by (auto simp: liveness_check_def)
      have "CONFIG_TACH_FEEDBACK_ENABLED kc" "check_tach kc ops now (s, m, w1) =
          liveness_check kc ops now True (\<lambda>s. s\<lparr>sv_tach_liveness_fault := True\<rparr>) ''tach monitor heartbeat expired'' (s, m, w1)"
        using assms(7) ramp False unfolding check_tach_def max_def by (auto simp: Let_def)
      then show ?thesis unfolding i j after_scheduler_def
        using E A(1) assms(4) by simp
    qed
  qed
  then show "good kc (mot (supervised_node (supervisor_iteration kc ops (s, m, w))))"
    "latched (mot (supervised_node (supervisor_iteration kc ops (s, m, w))))" by blast+
qed

text \<open>Here the motor refuses its zero frame, so the stop fails and the task goes on.\<close>

theorem hung_task_is_stopped_witness:
  "\<exists>n'. supervisor_iteration safety_sim_kconfig safety_sim_ops (safety_sim_node [False]) = Continues n' \<and> s_global_inhibited (mot n')"
proof -
  let ?n = "safety_sim_node [False]" and ?i = "supervisor_iteration safety_sim_kconfig safety_sim_ops (safety_sim_node [False])"
  have n: "?n = (safety_sim_state, sim_running, [False])" by (simp add: safety_sim_node_def)
  have e: "CONFIG_SUPERVISOR_ENABLED (sk_motor safety_sim_kconfig)" by (simp add: sim_kconfig_def)
  have t: "sfo_timer_us safety_sim_ops [False] = (5000000, [False])" by (simp add: safety_sim_ops_def idle_safety_ops_def)
  have d: "fst (restart_attempt_due 5000000 safety_sim_state)" by code_simp
  have x: "heartbeat_expired 5000000 (motor_control_ramp_heartbeat_us sim_running) (CONFIG_RAMP_HEARTBEAT_TIMEOUT_MS safety_sim_kconfig * 1000) safety_sim_state"
    by code_simp
  have c: "callbacks_calm safety_sim_kconfig (sv_callbacks safety_sim_state)" using safety_sim_callbacks [of "[]"] by (simp add: safety_sim_node_def)
  have g: "good safety_sim_kconfig sim_running" using safety_sim_good [of "[]"] by (simp add: safety_sim_node_def)
  have "case ?i of Continues n \<Rightarrow> True | Restarted n \<Rightarrow> False" by code_simp
  then obtain n' where r: "?i = Continues n'" by (cases ?i) simp_all
  show ?thesis using hung_task_is_stopped [OF safety_sim_motor_env c g e t d disjI1 [OF x]] r n by auto
qed

end
