(* ===== verification/Tach_Actions.thy ===== *)
theory Tach_Actions imports Safety_Supervisor
begin

text \<open>
  \<open>main/tach_actions.c\<close>: the task that acts on the faults the tachometer monitor has confirmed, and
  the operator's CLEAR, which is serialized with it. The static variables are the fields of
  \<open>tach_actions\<close>; the modules it calls are fields of \<open>tach_action_ops\<close>, functions of the rest of the
  node, and are instantiated with the models of those modules in \<open>Node\<close>. Other tasks, the sampling
  task with its callback among them, run where a call blocks and after every call into another module
  (\<open>tao_others\<close>).
\<close>

section \<open>Data\<close>

definition TACH_ACTION_HEARTBEAT_MS :: u32 where "TACH_ACTION_HEARTBEAT_MS = 250"
definition TACH_ACTION_PERSIST_TIMEOUT_MS :: u32 where "TACH_ACTION_PERSIST_TIMEOUT_MS = 3000"
definition TACH_CLEAR_SERIALIZE_WAIT_MS :: u32 where "TACH_CLEAR_SERIALIZE_WAIT_MS = 10000"

record pending_tach_action =
  pa_pending :: bool
  pa_queued_at_us :: int
  pa_event :: tach_monitor_stall_event

record tach_actions =
  ta_mutex :: "nat option"
  ta_task :: "nat option"
  ta_pending :: "pending_tach_action list"
  ta_ready :: bool
  ta_heartbeat_us :: int
  ta_in_flight_since_us :: int

definition pending_zero :: pending_tach_action where
  "pending_zero = \<lparr>pa_pending = False, pa_queued_at_us = 0, pa_event =
     \<lparr>tse_local_fan = 0, tse_fan_number = 0, tse_measured_rpm = 0, tse_stall_count = 0, tse_fault_generation = 0,
      tse_action = TACH_MONITOR_STALL_ALARM_ONLY, tse_cause = TACH_MONITOR_FAULT_NONE\<rparr>\<rparr>"

definition tach_actions_boot :: tach_actions where
  "tach_actions_boot = \<lparr>ta_mutex = None, ta_task = None, ta_pending = replicate APP_CONFIG_MAX_FANS pending_zero,
     ta_ready = False, ta_heartbeat_us = 0, ta_in_flight_since_us = 0\<rparr>"

record 'n tach_action_ops =
  tao_fan_snapshot :: "int \<Rightarrow> 'n \<Rightarrow> motor_control_fan_snapshot option"
  tao_set_tach_inhibit :: "int \<Rightarrow> bool \<Rightarrow> 'n \<Rightarrow> esp_err \<times> 'n"
  tao_cancel_fan :: "int \<Rightarrow> 'n \<Rightarrow> (esp_err \<times> 'n) option"
  tao_save_sync :: "u32 \<Rightarrow> 'n \<Rightarrow> (esp_err \<times> 'n) option"
  tao_stop_for_tach_all :: "string option \<Rightarrow> bool \<Rightarrow> 'n \<Rightarrow> esp_err \<times> 'n"
  tao_stop_all :: "string option \<Rightarrow> bool \<Rightarrow> bool \<Rightarrow> 'n \<Rightarrow> esp_err \<times> 'n"
  tao_tach_snapshot :: "int \<Rightarrow> 'n \<Rightarrow> esp_err \<times> tach_monitor_snapshot option"
  tao_clear_alarm :: "int \<Rightarrow> 'n \<Rightarrow> esp_err \<times> 'n"
  tao_request_fan :: "int \<Rightarrow> bool \<Rightarrow> 'n \<Rightarrow> 'n"
  tao_others :: "tach_actions \<times> 'n \<Rightarrow> tach_actions \<times> 'n"
  tao_take :: "nat \<Rightarrow> u32 \<Rightarrow> tach_actions \<times> 'n \<Rightarrow> bool \<times> (tach_actions \<times> 'n)"
  tao_give :: "nat \<Rightarrow> tach_actions \<times> 'n \<Rightarrow> tach_actions \<times> 'n"
  tao_notify_wait :: "u32 \<Rightarrow> tach_actions \<times> 'n \<Rightarrow> u32 \<times> (tach_actions \<times> 'n)"
  tao_notify :: "nat \<Rightarrow> u32 \<Rightarrow> 'n \<Rightarrow> 'n"
  tao_create_mutex :: "'n \<Rightarrow> nat option \<times> 'n"
  tao_task_create :: "'n \<Rightarrow> nat option \<times> 'n"
  tao_timer_us :: "'n \<Rightarrow> int \<times> 'n"
  tao_ms_to_ticks :: "u32 \<Rightarrow> u32"
  tao_stack_bytes :: "nat \<Rightarrow> 'n \<Rightarrow> u32"

section \<open>What other modules read\<close>

definition tach_actions_read_motor_snapshot :: "'n tach_action_ops \<Rightarrow> int \<Rightarrow> 'n \<Rightarrow> tach_monitor_motor_snapshot option" where
  "tach_actions_read_motor_snapshot ops local_fan n =
     (case tao_fan_snapshot ops local_fan n of None \<Rightarrow> None
      | Some snapshot \<Rightarrow> Some \<lparr>tms_applied_pct = fs_applied_pct snapshot,
                            tms_nonzero_applied_since_us = fs_nonzero_applied_since_us snapshot\<rparr>)"

definition older_action :: "int \<Rightarrow> pending_tach_action \<Rightarrow> int" where
  "older_action oldest slot =
     (let queued_at_us = (if pa_pending slot then pa_queued_at_us slot else 0)
      in if queued_at_us > 0 \<and> (oldest = 0 \<or> queued_at_us < oldest) then queued_at_us else oldest)"

definition tach_actions_read_health :: "'n tach_action_ops \<Rightarrow> tach_actions \<times> 'n \<Rightarrow> safety_supervisor_tach_action_health" where
  "tach_actions_read_health ops x =
     (case x of (a, n) \<Rightarrow>
        \<lparr>tah_ready = ta_ready a, tah_heartbeat_us = ta_heartbeat_us a,
         tah_oldest_action_since_us = foldl older_action (ta_in_flight_since_us a) (ta_pending a),
         tah_stack_bytes = (case ta_task a of None \<Rightarrow> 0 | Some task \<Rightarrow> tao_stack_bytes ops task n)\<rparr>)"

section \<open>The action task\<close>

definition tach_call :: "'n tach_action_ops \<Rightarrow> ('n \<Rightarrow> 'r \<times> 'n) \<Rightarrow> tach_actions \<times> 'n \<Rightarrow> 'r \<times> (tach_actions \<times> 'n)" where
  "tach_call ops f x = (case x of (a, n) \<Rightarrow> case f n of (r, n') \<Rightarrow> (r, tao_others ops (a, n')))"

definition tach_call_opt :: "'n tach_action_ops \<Rightarrow> ('n \<Rightarrow> ('r \<times> 'n) option) \<Rightarrow> tach_actions \<times> 'n \<Rightarrow>
    ('r \<times> (tach_actions \<times> 'n)) option" where
  "tach_call_opt ops f x =
     (case x of (a, n) \<Rightarrow> case f n of None \<Rightarrow> None | Some (r, n') \<Rightarrow> Some (r, tao_others ops (a, n')))"

definition tach_action_mark_complete :: "'n tach_action_ops \<Rightarrow> tach_actions \<times> 'n \<Rightarrow> tach_actions \<times> 'n" where
  "tach_action_mark_complete ops x =
     (case x of (a, n) \<Rightarrow> case tao_timer_us ops n of (t, n') \<Rightarrow>
        (a\<lparr>ta_in_flight_since_us := 0, ta_heartbeat_us := t\<rparr>, n'))"

definition tach_fault_reason :: "tach_monitor_fault_cause \<Rightarrow> string" where
  "tach_fault_reason cause =
     (if cause = TACH_MONITOR_FAULT_SENSOR_INVALID then ''tachometer feedback invalid'' else ''tachometer stall'')"

definition tach_escalate_to_global_stop :: "'n tach_action_ops \<Rightarrow> string \<Rightarrow> tach_actions \<times> 'n \<Rightarrow> tach_actions \<times> 'n" where
  "tach_escalate_to_global_stop ops reason x = snd (tach_call ops (tao_stop_all ops (Some reason) True True) x)"

definition tach_event_is_current :: "'n tach_action_ops \<Rightarrow> tach_monitor_stall_event \<Rightarrow> 'n \<Rightarrow> bool" where
  "tach_event_is_current ops event n \<longleftrightarrow>
     (case tao_tach_snapshot ops (tse_local_fan event) n of
        (err, Some snapshot) \<Rightarrow> err = ESP_OK \<and> tsn_stall_alarm snapshot \<and> tsn_fault_cause snapshot = tse_cause event \<and>
          tsn_fault_generation snapshot = tse_fault_generation event
      | (err, None) \<Rightarrow> False)"

text \<open>The slot of a fan is emptied, and what it held goes into flight.\<close>

definition tach_claim_section :: "nat \<Rightarrow> tach_actions \<Rightarrow> tach_monitor_stall_event option \<times> tach_actions" where
  "tach_claim_section i a =
     (let slot = ta_pending a ! i; a1 = a\<lparr>ta_pending := (ta_pending a)[i := slot\<lparr>pa_pending := False\<rparr>]\<rparr>
      in if pa_pending slot then (Some (pa_event slot), a1\<lparr>ta_in_flight_since_us := pa_queued_at_us slot\<rparr>) else (None, a1))"

text \<open>The stop of one fan: the motor's, the scheduler's and the persistence error, each step only after
  the success of the ones before.\<close>

definition tach_stop_fan :: "'n tach_action_ops \<Rightarrow> int \<Rightarrow> tach_actions \<times> 'n \<Rightarrow> ((esp_err \<times> esp_err \<times> esp_err) \<times> (tach_actions \<times> 'n)) option" where
  "tach_stop_fan ops local_fan x =
     (case tach_call ops (tao_set_tach_inhibit ops local_fan True) x of (motor_error, x1) \<Rightarrow>
        if motor_error \<noteq> ESP_OK then Some ((motor_error, ESP_OK, ESP_OK), x1)
        else case tach_call_opt ops (tao_cancel_fan ops local_fan) x1 of None \<Rightarrow> None
        | Some (scheduler_error, x2) \<Rightarrow>
          if scheduler_error \<noteq> ESP_OK then Some ((motor_error, scheduler_error, ESP_OK), x2)
          else case tach_call_opt ops (tao_save_sync ops (tao_ms_to_ticks ops TACH_ACTION_PERSIST_TIMEOUT_MS)) x2 of None \<Rightarrow> None
          | Some (persistence_error, x3) \<Rightarrow> Some ((motor_error, scheduler_error, persistence_error), x3))"

definition tach_act :: "'n tach_action_ops \<Rightarrow> tach_monitor_stall_event \<Rightarrow> tach_actions \<times> 'n \<Rightarrow> (tach_actions \<times> 'n) option" where
  "tach_act ops event x =
     (let publish = (\<lambda>x. snd (tach_call ops (\<lambda>n. ((), tao_request_fan ops (tse_local_fan event) True n)) x))
      in case tse_action event of
        TACH_MONITOR_STALL_STOP_ALL \<Rightarrow>
          (case tach_call ops (tao_stop_for_tach_all ops (Some (tach_fault_reason (tse_cause event))) True) x of (err, x1) \<Rightarrow>
             Some (if err \<noteq> ESP_OK then tach_escalate_to_global_stop ops ''tach stop-all transaction failed'' x1 else x1))
      | TACH_MONITOR_STALL_STOP_FAN \<Rightarrow>
          (case tach_stop_fan ops (tse_local_fan event) x of None \<Rightarrow> None
           | Some ((motor_error, scheduler_error, persistence_error), x1) \<Rightarrow>
             Some (if motor_error \<noteq> ESP_OK \<or> scheduler_error \<noteq> ESP_OK \<or> persistence_error \<noteq> ESP_OK
                   then tach_escalate_to_global_stop ops ''per-fan tach stop could not be committed'' x1
                   else publish x1))
      | TACH_MONITOR_STALL_ALARM_ONLY \<Rightarrow> Some (publish x))"

text \<open>One notified fan. The mutex exists once the task runs, for \<open>tach_actions_start\<close> requires it.\<close>

definition tach_process_fan :: "'n tach_action_ops \<Rightarrow> nat \<Rightarrow> tach_actions \<times> 'n \<Rightarrow> (tach_actions \<times> 'n) option" where
  "tach_process_fan ops i x =
     (case x of (a, n) \<Rightarrow> case tach_claim_section i a of
        (None, a1) \<Rightarrow> Some (a1, n)
      | (Some event, a1) \<Rightarrow>
        (let mutex = the (ta_mutex a1)
         in case tao_take ops mutex portMAX_DELAY (a1, n) of
              (False, x1) \<Rightarrow> Some (tach_action_mark_complete ops (tach_escalate_to_global_stop ops ''tach action serialization failed'' x1))
            | (True, x1) \<Rightarrow>
              if \<not> tach_event_is_current ops event (snd x1) then Some (tach_action_mark_complete ops (tao_give ops mutex x1))
              else case tach_act ops event x1 of None \<Rightarrow> None
                | Some x2 \<Rightarrow> Some (tach_action_mark_complete ops (tao_give ops mutex x2))))"

fun tach_process_fans :: "'n tach_action_ops \<Rightarrow> u32 \<Rightarrow> nat list \<Rightarrow> tach_actions \<times> 'n \<Rightarrow> (tach_actions \<times> 'n) option" where
  "tach_process_fans ops notified_fans [] x = Some x"
| "tach_process_fans ops notified_fans (i # is) x =
     (if and notified_fans (push_bit i 1) = 0 then tach_process_fans ops notified_fans is x
      else case tach_process_fan ops i x of None \<Rightarrow> None | Some x1 \<Rightarrow> tach_process_fans ops notified_fans is x1)"

definition tach_heartbeat :: "'n tach_action_ops \<Rightarrow> tach_actions \<times> 'n \<Rightarrow> tach_actions \<times> 'n" where
  "tach_heartbeat ops x = (case x of (a, n) \<Rightarrow> case tao_timer_us ops n of (t, n') \<Rightarrow> (a\<lparr>ta_heartbeat_us := t\<rparr>, n'))"

definition tach_action_task_start :: "'n tach_action_ops \<Rightarrow> tach_actions \<times> 'n \<Rightarrow> tach_actions \<times> 'n" where
  "tach_action_task_start ops x = apfst (\<lambda>a. a\<lparr>ta_ready := True\<rparr>) (tach_heartbeat ops x)"

definition tach_action_iteration :: "'n tach_action_ops \<Rightarrow> tach_actions \<times> 'n \<Rightarrow> (tach_actions \<times> 'n) option" where
  "tach_action_iteration ops x =
     (case tao_notify_wait ops (tao_ms_to_ticks ops TACH_ACTION_HEARTBEAT_MS) x of (notified_fans, x1) \<Rightarrow>
        case tach_process_fans ops notified_fans [0..<APP_CONFIG_MAX_FANS] x1 of None \<Rightarrow> None
        | Some x2 \<Rightarrow> Some (tach_heartbeat ops x2))"

text \<open>The callback of the sampling task.\<close>

definition tach_actions_confirmed_stall :: "'n tach_action_ops \<Rightarrow> tach_monitor_stall_event \<Rightarrow> tach_actions \<times> 'n \<Rightarrow> tach_actions \<times> 'n" where
  "tach_actions_confirmed_stall ops event x =
     (if tse_local_fan event < 0 \<or> int APP_CONFIG_MAX_FANS \<le> tse_local_fan event then x
      else case x of (a, n) \<Rightarrow> case ta_task a of
        None \<Rightarrow> tach_escalate_to_global_stop ops ''tach action dispatcher unavailable'' x
      | Some action_task \<Rightarrow>
        (case tao_timer_us ops n of (t, n1) \<Rightarrow>
           let i = nat (tse_local_fan event)
           in (a\<lparr>ta_pending := (ta_pending a)[i := \<lparr>pa_pending = True, pa_queued_at_us = t, pa_event = event\<rparr>]\<rparr>,
               tao_notify ops action_task (push_bit i 1) n1)))"

section \<open>The operator's CLEAR\<close>

definition tach_actions_clear_begin :: "'n tach_action_ops \<Rightarrow> tach_actions \<times> 'n \<Rightarrow> esp_err \<times> (tach_actions \<times> 'n)" where
  "tach_actions_clear_begin ops x =
     (case ta_mutex (fst x) of None \<Rightarrow> (ESP_ERR_INVALID_STATE, x)
      | Some mutex \<Rightarrow>
        (case tao_take ops mutex (tao_ms_to_ticks ops TACH_CLEAR_SERIALIZE_WAIT_MS) x of (taken, x1) \<Rightarrow>
           (if taken then ESP_OK else ESP_ERR_TIMEOUT, x1)))"

definition tach_actions_clear_locked :: "'n tach_action_ops \<Rightarrow> int \<Rightarrow> tach_actions \<times> 'n \<Rightarrow> esp_err \<times> (tach_actions \<times> 'n)" where
  "tach_actions_clear_locked ops local_fan x =
     (case tach_call ops (tao_clear_alarm ops local_fan) x of (tach_err, x1) \<Rightarrow>
        if tach_err = ESP_OK then tach_call ops (tao_set_tach_inhibit ops local_fan False) x1 else (tach_err, x1))"

definition tach_actions_clear_end :: "'n tach_action_ops \<Rightarrow> tach_actions \<times> 'n \<Rightarrow> tach_actions \<times> 'n" where
  "tach_actions_clear_end ops x = (case ta_mutex (fst x) of None \<Rightarrow> x | Some mutex \<Rightarrow> tao_give ops mutex x)"

definition tach_actions_init :: "'n tach_action_ops \<Rightarrow> tach_actions \<times> 'n \<Rightarrow> esp_err \<times> (tach_actions \<times> 'n)" where
  "tach_actions_init ops x =
     (case x of (a, n) \<Rightarrow>
        if ta_mutex a \<noteq> None then (ESP_ERR_INVALID_STATE, x)
        else case tao_create_mutex ops n of (mutex, n1) \<Rightarrow>
          (if mutex \<noteq> None then ESP_OK else ESP_ERR_NO_MEM, (a\<lparr>ta_mutex := mutex\<rparr>, n1)))"

definition tach_actions_start :: "'n tach_action_ops \<Rightarrow> tach_actions \<times> 'n \<Rightarrow> esp_err \<times> (tach_actions \<times> 'n)" where
  "tach_actions_start ops x =
     (case x of (a, n) \<Rightarrow>
        if ta_mutex a = None then (ESP_ERR_INVALID_STATE, x)
        else if ta_task a \<noteq> None then (ESP_OK, x)
        else case tao_task_create ops n of
          (None, n1) \<Rightarrow> (ESP_ERR_NO_MEM, (a, n1))
        | (Some task, n1) \<Rightarrow> (ESP_OK, (a\<lparr>ta_task := Some task\<rparr>, n1)))"

section \<open>The build without feedback\<close>

definition tach_actions_clear_begin_stub :: esp_err where "tach_actions_clear_begin_stub = ESP_ERR_NOT_SUPPORTED"
definition tach_actions_clear_locked_stub :: esp_err where "tach_actions_clear_locked_stub = ESP_ERR_NOT_SUPPORTED"
definition tach_actions_init_stub :: esp_err where "tach_actions_init_stub = ESP_OK"
definition tach_actions_start_stub :: esp_err where "tach_actions_start_stub = ESP_OK"

end
