(* ===== verification/Node.thy ===== *)
theory Node imports App_Callbacks Safety_Properties Tach_Actions
begin

text \<open>
  The modules of the node side by side: what the tachometer actions call is the motor controller, the
  scheduler, the fan-state store, the tachometer monitor and the safety supervisor. The safety
  supervisor's world (\<open>'w node\<close>) holds the state of the others; while one of them runs, the other
  tasks of that module run where its operations say so, and those of the rest of the node after it.
\<close>

section \<open>The state\<close>

record 'p firmware =
  fw_scheduler :: "(motor_state \<times> 'p) scheduler"
  fw_store :: "(motor_state \<times> 'p) fan_store"
  fw_tach :: "(motor_state \<times> 'p) tach_monitor"
  fw_platform :: 'p

type_synonym 'p firmware_node = "'p firmware node"

definition on_scheduler :: "((motor_state \<times> 'p) scheduler \<Rightarrow> motor_state \<times> 'p \<Rightarrow>
    (esp_err \<times> (motor_state \<times> 'p) scheduler \<times> motor_state \<times> 'p) option) \<Rightarrow>
    'p firmware_node \<Rightarrow> (esp_err \<times> 'p firmware_node) option" where
  "on_scheduler f n =
     (case n of (s, m, w) \<Rightarrow> case f (fw_scheduler w) (m, fw_platform w) of None \<Rightarrow> None
      | Some (e, sch, m', p) \<Rightarrow> Some (e, (s, m', w\<lparr>fw_scheduler := sch, fw_platform := p\<rparr>)))"

definition on_store :: "((motor_state \<times> 'p) fan_store \<Rightarrow> motor_state \<times> 'p \<Rightarrow>
    (esp_err \<times> (motor_state \<times> 'p) fan_store \<times> motor_state \<times> 'p) option) \<Rightarrow>
    'p firmware_node \<Rightarrow> (esp_err \<times> 'p firmware_node) option" where
  "on_store f n =
     (case n of (s, m, w) \<Rightarrow> case f (fw_store w) (m, fw_platform w) of None \<Rightarrow> None
      | Some (e, st, m', p) \<Rightarrow> Some (e, (s, m', w\<lparr>fw_store := st, fw_platform := p\<rparr>)))"

text \<open>What the platform gives each module, and the tachometer actions' own (\<open>nd_base\<close>).\<close>

record 'p node_platform =
  nd_kconfig :: safety_kconfig
  nd_safety :: "'p firmware safety_ops"
  nd_scheduler :: "(motor_state \<times> 'p) sched_ops"
  nd_store :: "(motor_state \<times> 'p) store_ops"
  nd_base :: "'p firmware_node tach_action_ops"

definition node_set_tach_inhibit :: "'p node_platform \<Rightarrow> int \<Rightarrow> bool \<Rightarrow> 'p firmware_node \<Rightarrow> esp_err \<times> 'p firmware_node" where
  "node_set_tach_inhibit nd local_fan inhibited n =
     (case n of (s, m, w) \<Rightarrow>
        case motor_control_set_tach_inhibit (sk_motor (nd_kconfig nd)) (sfo_motor (nd_safety nd)) local_fan inhibited m w of
          (e, m', w') \<Rightarrow> (e, (s, m', w')))"

definition node_clear_alarm :: "int \<Rightarrow> 'p firmware_node \<Rightarrow> esp_err \<times> 'p firmware_node" where
  "node_clear_alarm local_fan n =
     (case n of (s, m, w) \<Rightarrow> case tach_monitor_clear_alarm local_fan (fw_tach w) of (e, t) \<Rightarrow> (e, (s, m, w\<lparr>fw_tach := t\<rparr>)))"

definition node_tach_ops :: "'p node_platform \<Rightarrow> 'p firmware_node tach_action_ops" where
  "node_tach_ops nd = (nd_base nd)
     \<lparr>tao_fan_snapshot := \<lambda>local_fan n. motor_control_get_fan_snapshot local_fan (mot n),
      tao_set_tach_inhibit := node_set_tach_inhibit nd,
      tao_cancel_fan := \<lambda>local_fan. on_scheduler (scheduler_cancel_fan (nd_scheduler nd) local_fan),
      tao_save_sync := \<lambda>ticks. on_store (fan_state_store_save_sync (nd_store nd) ticks),
      tao_stop_for_tach_all := safety_supervisor_stop_for_tach_all (nd_kconfig nd) (nd_safety nd),
      tao_stop_all := safety_supervisor_stop_all (nd_kconfig nd) (nd_safety nd),
      tao_tach_snapshot := \<lambda>local_fan n. tach_monitor_get_snapshot local_fan (fw_tach (snd (snd n))),
      tao_clear_alarm := node_clear_alarm\<rparr>"

section \<open>Relations that a call keeps\<close>

text \<open>What the other tasks and the platform do to the world of a module, wherever its call blocks, is
  related by \<open>R\<close>, and the scheduler's configuration stays.\<close>

definition framed :: "('h \<Rightarrow> 'h \<Rightarrow> bool) \<Rightarrow> 'h scheduler \<times> 'h \<Rightarrow> 'h scheduler \<times> 'h \<Rightarrow> bool" where
  "framed R x y \<longleftrightarrow> R (snd x) (snd y) \<and> sch_config (fst y) = sch_config (fst x)"

definition sched_frame :: "('h \<Rightarrow> 'h \<Rightarrow> bool) \<Rightarrow> 'h sched_ops \<Rightarrow> bool" where
  "sched_frame R ops \<longleftrightarrow> reflp R \<and> transp R \<and> (\<forall>x t s h. framed R (s, h) (snd (sch_take ops x t s h))) \<and>
     (\<forall>s h. framed R (s, h) (sch_delay ops s h)) \<and> (\<forall>h. R h (snd (os_tick_count ops h)))"

definition notify_frame :: "('h \<Rightarrow> 'h \<Rightarrow> bool) \<Rightarrow> 'h scheduler \<Rightarrow> bool" where
  "notify_frame R s \<longleftrightarrow> (\<forall>f e h. scc_notify (sch_config s) = Some f \<longrightarrow> R h (f e h))"

definition store_frame :: "('h \<Rightarrow> 'h \<Rightarrow> bool) \<Rightarrow> 'h store_ops \<Rightarrow> bool" where
  "store_frame R ops \<longleftrightarrow> reflp R \<and> transp R \<and>
     (\<forall>x t s h. R h (snd (snd (st_take ops x t s h)))) \<and> (\<forall>h. R h (snd (os_tick_count ops h))) \<and>
     (\<forall>x h. R h (os_semaphore_give ops x h)) \<and> (\<forall>t v h. R h (os_task_notify ops t v h))"

lemma sched_frameD:
  assumes "sched_frame R ops"
  shows "lock ops s h = (s', h') \<Longrightarrow> framed R (s, h) (s', h')"
    and "sch_delay ops s h = (s', h') \<Longrightarrow> framed R (s, h) (s', h')"
    and "os_tick_count ops h = (now, h') \<Longrightarrow> framed R (s, h) (s, h')"
    and "framed R x y \<Longrightarrow> framed R y z \<Longrightarrow> framed R x z" and "framed R x x"
proof -
  have take: "framed R (s, h) (snd (sch_take ops x t s h))" for x t s h using assms unfolding sched_frame_def by blast
  show "lock ops s h = (s', h') \<Longrightarrow> framed R (s, h) (s', h')" unfolding lock_def using take by metis
  show "sch_delay ops s h = (s', h') \<Longrightarrow> framed R (s, h) (s', h')" using assms unfolding sched_frame_def by metis
  show "os_tick_count ops h = (now, h') \<Longrightarrow> framed R (s, h) (s, h')"
    using assms unfolding sched_frame_def framed_def by (metis fst_conv snd_conv)
  show "framed R x y \<Longrightarrow> framed R y z \<Longrightarrow> framed R x z"
    using assms unfolding sched_frame_def framed_def by (metis transpD)
  show "framed R x x" using assms unfolding sched_frame_def framed_def by (metis reflpD)
qed

lemma framed_same: "framed R x (s, h) \<Longrightarrow> sch_config s' = sch_config s \<Longrightarrow> framed R x (s', h)"
  by (simp add: framed_def)

lemma reserve_loop_frame:
  assumes "sched_frame R ops" and "reserve_loop ops i wait_ticks started s h = Some y"
  shows "framed R (s, h) (snd y)"
proof (rule reserve_loop.raw_induct [where P = "\<lambda>ops i wt st s h y. sched_frame R ops \<longrightarrow> framed R (s, h) (snd y)",
    OF _ assms(2), rule_format], goal_cases)
  case (1 loop ops i wt st s h y)
  note F = sched_frameD [OF 1(3)]
  obtain s0 h0 where l: "lock ops s h = (s0, h0)" by (rule prod.exhaust)
  note 0 = F(1) [OF l]
  show ?case
  proof (cases "reserve_section i s0")
    case (Some s')
    then have "sch_config s' = sch_config s0" by (auto simp: reserve_section_def upd_fan_def split: if_splits)
    then show ?thesis using framed_same [OF 0] 1(2) l Some by auto
  next
    case None
    obtain now h1 where t: "os_tick_count ops h0 = (now, h1)" by (rule prod.exhaust)
    note t1 = F(4) [OF 0 F(3) [OF t]]
    show ?thesis
    proof (cases "now - st \<ge> wt")
      case True
      then show ?thesis using 1(2) l None t t1 by auto
    next
      case False
      obtain s2 h2 where d: "sch_delay ops s0 h1 = (s2, h2)" by (rule prod.exhaust)
      have "framed R (s2, h2) (snd y)" using 1(1) [of ops i wt st s2 h2 y] 1(2,3) l None t False d by auto
      then show ?thesis using F(4) [OF F(4) [OF t1 F(2) [OF d]]] by blast
    qed
  qed
qed (use assms(1) in simp)

lemma cancel_fan_frame:
  assumes F: "sched_frame R ops" and "notify_frame R s" and "scheduler_cancel_fan ops local_fan s h = Some (e, s', h')"
  shows "R h h'"
proof (cases "local_fan_valid s local_fan")
  case False
  then show ?thesis using assms sched_frameD(5) [OF F, of "(s, h)"] by (simp add: scheduler_cancel_fan_def framed_def)
next
  case True
  note F = sched_frameD [OF F]
  obtain started h1 where t: "os_tick_count ops h = (started, h1)" by (rule prod.exhaust)
  obtain ok s1 h2 where r: "reserve_fan_operation ops (nat local_fan) s h = Some (ok, s1, h2)"
    using assms(3) True by (auto simp: scheduler_cancel_fan_def Let_def split: option.splits)
  have 1: "framed R (s, h) (s1, h2)"
    using F(4) [OF F(3) [OF t]] reserve_loop_frame [OF assms(1)] r t by (fastforce simp: reserve_fan_operation_def Let_def)
  show ?thesis
  proof (cases ok)
    case False
    then show ?thesis using assms(3) True r 1 by (simp add: scheduler_cancel_fan_def Let_def framed_def)
  next
    case ok: True
    obtain s2 h3 where l: "lock ops s1 h2 = (s2, h3)" by (rule prod.exhaust)
    obtain k s3 where c: "cancel_section (nat local_fan) s2 = (k, s3)" by (rule prod.exhaust)
    then have "sch_config s3 = sch_config s2"
      by (auto simp: cancel_section_def release_fan_operation_locked_def upd_fan_def)
    then have 3: "framed R (s, h) (s3, h3)" by (rule framed_same [OF F(4) [OF 1 F(1) [OF l]]])
    have n: "R h3 (notify_event s3 ev h3)" for ev
      using assms(2) 3 F(5) [of "(s3, h3)"] by (auto simp: notify_event_def notify_frame_def framed_def split: option.splits)
    have "h' = h3 \<or> (\<exists>ev. h' = notify_event s3 ev h3)" using assms(3) True r ok l c
      by (auto simp: scheduler_cancel_fan_def Let_def split: if_splits)
    then show ?thesis
    proof
      assume "h' = h3"
      then show ?thesis using 3 by (simp add: framed_def)
    next
      assume "\<exists>ev. h' = notify_event s3 ev h3"
      then have "framed R (s3, h3) (s3, h')" using n by (auto simp: framed_def)
      then show ?thesis using F(4) [OF 3] by (fastforce simp: framed_def)
    qed
  qed
qed

lemma store_frameD:
  assumes "store_frame R ops"
  shows "st_take ops x t s h = (ok, s', h') \<Longrightarrow> R h h'" and "os_tick_count ops h = (now, h') \<Longrightarrow> R h h'"
    and "R h (os_semaphore_give ops x h)" and "R h (os_task_notify ops t' v h)" and "R a b \<Longrightarrow> R b c \<Longrightarrow> R a c" and "R h h"
proof -
  show "st_take ops x t s h = (ok, s', h') \<Longrightarrow> R h h'" "os_tick_count ops h = (now, h') \<Longrightarrow> R h h'"
    using assms unfolding store_frame_def by (metis snd_conv)+
qed (use assms in \<open>unfold store_frame_def, blast dest: transpD reflpD\<close>)+

lemma sync_wait_loop_frame:
  assumes "store_frame R ops" and "sync_wait_loop ops g t st s h = Some y"
  shows "R h (snd (snd y))"
proof (rule sync_wait_loop.raw_induct [where P = "\<lambda>ops g t st s h y. store_frame R ops \<longrightarrow> R h (snd (snd y))",
    OF _ assms(2), rule_format], goal_cases)
  case (1 loop ops g t st s h y)
  note F = store_frameD [OF 1(3)]
  show ?case
  proof (cases "fst_sync_completed_generation s = g")
    case True
    then show ?thesis using 1(2) F(6) by auto
  next
    case False
    obtain remaining h1 where r: "(if t \<noteq> portMAX_DELAY then (case os_tick_count ops h of (now, h1) \<Rightarrow>
        let elapsed = now - st in (if elapsed \<ge> t then None else Some (t - elapsed), h1)) else (Some portMAX_DELAY, h)) = (remaining, h1)"
      by (rule prod.exhaust)
    have r1: "R h h1" using r F(2,6) by (auto simp: Let_def split: if_splits prod.splits)
    show ?thesis
    proof (cases remaining)
      case None
      then show ?thesis using 1(2) False r r1 by auto
    next
      case (Some rt)
      obtain ok s2 h2 where k: "st_take ops (the (fst_sync_complete s)) rt s h1 = (ok, s2, h2)" by (metis prod_cases3)
      note 2 = F(5) [OF r1 F(1) [OF k]]
      show ?thesis
      proof (cases ok)
        case True
        then have "loop ops g t st s2 h2 = Some y" using 1(2) False r Some k by simp
        then show ?thesis using 1(1) [of ops g t st s2 h2 y] 1(3) F(5) [OF 2] by blast
      qed (use 1(2) False r Some k 2 in auto)
    qed
  qed
qed (use assms(1) in simp)

lemma save_sync_frame:
  assumes F: "store_frame R ops" and run: "fan_state_store_save_sync ops t s h = Some (e, s', h')"
  shows "R h h'"
proof (cases "RESTORE_FAN_STATE ops")
  case False
  then show ?thesis using run store_frameD(6) [OF F] by (simp add: fan_state_store_save_sync_def)
next
  case True
  note D = store_frameD [OF F]
  obtain st h1 where 1: "os_tick_count ops h = (st, h1)" by (rule prod.exhaust)
  note r1 = D(2) [OF 1]
  show ?thesis
  proof (cases "fst_sync_mutex s")
    case None
    then show ?thesis using run True 1 r1 by (simp add: fan_state_store_save_sync_def)
  next
    case (Some mutex)
    obtain ok s2 h2 where 2: "st_take ops mutex t s h1 = (ok, s2, h2)" by (metis prod_cases3)
    note r2 = D(5) [OF r1 D(1) [OF 2]]
    show ?thesis
    proof (cases "ok \<and> sync_request_section (os_current_task ops h2) s2 \<noteq> None")
      case False
      then have "h' = h2 \<or> h' = os_semaphore_give ops mutex h2" using run True 1 Some 2
        by (cases "sync_request_section (os_current_task ops h2) s2") (auto simp: fan_state_store_save_sync_def split: if_splits)
      then show ?thesis using r2 D(5) [OF r2 D(3)] by blast
    next
      case ok: True
      then obtain task g s3 where q: "sync_request_section (os_current_task ops h2) s2 = Some (task, g, s3)" by auto
      obtain r s4 h4 where w: "sync_wait_loop ops g t st s3 (os_task_notify ops task SAVE_NOTIFY_SYNC h2) = Some (r, s4, h4)"
          and h': "h' = os_semaphore_give ops mutex h4"
        using run True 1 Some 2 ok q by (auto simp: fan_state_store_save_sync_def split: option.splits)
      have "R (os_task_notify ops task SAVE_NOTIFY_SYNC h2) h4" using sync_wait_loop_frame [OF F w] by simp
      then show ?thesis unfolding h' using D(5) [OF r2 D(5) [OF D(4) D(5) [OF _ D(3)]]] by blast
    qed
  qed
qed

end
