(* ===== verification/Node_Simulation.thy ===== *)
theory Node_Simulation imports Node Tach_Properties
begin

text \<open>
  A simulated node for the witnesses of \<open>Tach_Response\<close>: the other tasks never run, nothing fails, and
  the flash is empty. Fan 0 runs at 50 percent; its tachometer has just confirmed a stall.
\<close>

section \<open>The platform\<close>

definition still_os :: "'h os_ops" where
  "still_os = \<lparr>os_semaphore_create = (\<lambda>h. (Some 1, h)), os_semaphore_delete = (\<lambda>_ h. h),
     os_semaphore_give = (\<lambda>_ h. h), os_task_create = (\<lambda>h. (Some 2, h)), os_task_delete = (\<lambda>_ h. h),
     os_task_notify = (\<lambda>_ _ h. h), os_current_task = (\<lambda>_. 0), os_stack_bytes = (\<lambda>_ _. 1024),
     os_ms_to_ticks = (\<lambda>ms. ms div 10), os_tick_count = (\<lambda>h. (0, h)), os_timer_us = (\<lambda>h. (8000000, h)),
     os_nvs_open = (\<lambda>_ _ h. ((ESP_ERR_NVS_NOT_FOUND, 7), h)), os_nvs_close = (\<lambda>_ h. h),
     os_nvs_get_blob = (\<lambda>_ _ _ h. ((ESP_ERR_NVS_NOT_FOUND, []), h)), os_nvs_set_blob = (\<lambda>_ _ _ h. (ESP_OK, h)),
     os_nvs_get_u8 = (\<lambda>_ _ h. ((ESP_ERR_NVS_NOT_FOUND, 0), h)), os_nvs_set_u8 = (\<lambda>_ _ _ h. (ESP_OK, h)),
     os_nvs_commit = (\<lambda>_ h. (ESP_OK, h))\<rparr>"

definition still_sched_ops :: "'h sched_ops" where
  "still_sched_ops = os_ops.extend still_os (sched_ops.fields 2 1500 [] (\<lambda>_ _ s h. (True, s, h)) (\<lambda>s h. (s, h))
     (\<lambda>_ s h. (None, s, h)) (\<lambda>s h. (s, h)))"

definition still_store_ops :: "'h store_ops" where
  "still_store_ops = os_ops.extend still_os (store_ops.fields False 1500 (\<lambda>_ _ s h. (True, s, h)) (\<lambda>_ s h. (None, s, h)) (\<lambda>s h. (s, h)))"

text \<open>What \<open>node_tach_ops\<close> replaces is never called.\<close>

definition still_tach_ops :: "'n tach_action_ops" where
  "still_tach_ops = \<lparr>tao_fan_snapshot = (\<lambda>_ _. None), tao_set_tach_inhibit = (\<lambda>_ _ n. (ESP_FAIL, n)),
     tao_cancel_fan = (\<lambda>_ n. None), tao_save_sync = (\<lambda>_ n. None), tao_stop_for_tach_all = (\<lambda>_ _ n. (ESP_FAIL, n)),
     tao_stop_all = (\<lambda>_ _ _ n. (ESP_FAIL, n)), tao_tach_snapshot = (\<lambda>_ _. (ESP_FAIL, None)), tao_clear_alarm = (\<lambda>_ n. (ESP_FAIL, n)),
     tao_request_fan = (\<lambda>_ _ n. n), tao_others = (\<lambda>x. x), tao_take = (\<lambda>_ _ x. (True, x)), tao_give = (\<lambda>_ x. x),
     tao_notify_wait = (\<lambda>_ x. (1, x)), tao_notify = (\<lambda>_ _ n. n), tao_create_mutex = (\<lambda>n. (Some 3, n)),
     tao_task_create = (\<lambda>n. (Some 4, n)), tao_timer_us = (\<lambda>n. (8000001, n)), tao_ms_to_ticks = (\<lambda>ms. ms div 10),
     tao_stack_bytes = (\<lambda>_ _. 1024)\<rparr>"

definition sim_platform :: "unit node_platform" where
  "sim_platform = \<lparr>nd_kconfig = safety_sim_kconfig, nd_safety = idle_safety_ops steady_motor_ops, nd_scheduler = still_sched_ops,
     nd_store = still_store_ops, nd_base = still_tach_ops\<rparr>"

section \<open>The node\<close>

definition sim_stall_obs :: "tach_obs list" where
  "sim_stall_obs = sim_obs @ [Obs_Sample 0 8000000 True 40 (Some \<lparr>tms_applied_pct = 50, tms_nonzero_applied_since_us = 1000\<rparr>)]"

definition sim_firmware :: "unit firmware" where
  "sim_firmware = \<lparr>fw_scheduler = (scheduler_boot 2)\<lparr>sch_config := app_scheduler_config sim_config (\<lambda>_ w. w), sch_mutex := Some 1\<rparr>,
     fw_store = fan_store_boot, fw_tach = fold (observe sim_tach_kconfig) sim_stall_obs sim_tach, fw_platform = ()\<rparr>"

definition sim_firmware_node :: "unit firmware_node" where
  "sim_firmware_node = (safety_boot\<lparr>sv_stop_mutex := Some 8, sv_initialized := True\<rparr>, sim_running, sim_firmware)"

definition sim_event :: tach_monitor_stall_event where
  "sim_event = \<lparr>tse_local_fan = 0, tse_fan_number = 1, tse_measured_rpm = 40, tse_stall_count = 1, tse_fault_generation = 1,
     tse_action = TACH_MONITOR_STALL_STOP_FAN, tse_cause = TACH_MONITOR_FAULT_STALL\<rparr>"

definition sim_tach_actions :: tach_actions where
  "sim_tach_actions = tach_actions_boot\<lparr>ta_mutex := Some 3, ta_task := Some 4, ta_ready := True,
     ta_pending := [\<lparr>pa_pending = True, pa_queued_at_us = 8000000, pa_event = sim_event\<rparr>, pending_zero, pending_zero, pending_zero]\<rparr>"

lemma still_select [simp]:
  "sch_take still_sched_ops x t s h = (True, s, h)" "sch_delay still_sched_ops s h = (s, h)" "os_tick_count still_sched_ops h = (0, h)"
  "st_take still_store_ops x t s' h = (True, s', h)" "os_tick_count still_store_ops h = (0, h)" "os_semaphore_give still_store_ops x h = h"
  "os_task_notify still_store_ops t' v h = h"
  by (simp_all add: still_sched_ops_def still_store_ops_def still_os_def os_ops.extend_def sched_ops.fields_def store_ops.fields_def)

lemma sim_notify: "scc_notify (sch_config (fw_scheduler sim_firmware)) = Some (\<lambda>event (m, w). (m, w))"
  by (simp add: sim_firmware_def app_scheduler_config_def)

text \<open>The drivers of the platform leave the rest of the world alone.\<close>

lemma steady_select [simp]:
  "op_sem_take steady_motor_ops x t h = (True, h)" "op_sem_give steady_motor_ops x h = h" "op_timer_get_time steady_motor_ops h = (1000000, h)"
  "op_rmt_enable steady_motor_ops c h = (ESP_OK, h)" "op_rmt_disable steady_motor_ops c h = (ESP_OK, h)"
  "op_rmt_tx_wait_all_done steady_motor_ops c v h = (ESP_OK, h)" "op_rmt_transmit steady_motor_ops c e p h = (ESP_OK, h)"
  "op_rmt_encoder_reset steady_motor_ops e h = (ESP_OK, h)"
  by (simp_all add: steady_motor_ops_def)

lemma steady_io: "snd (snd (snd (apply_io steady_motor_ops t now m h))) = h"
proof -
  have "snd (snd (quiesce_io steady_motor_ops m h)) = h"
    by (simp add: quiesce_io_def quiesce_disable_def quiesce_drain_def split: prod.splits option.splits)
  then obtain e1 m1 where q: "quiesce_io steady_motor_ops m h = (e1, m1, h)" by (metis prod.collapse)
  have "snd (snd (transmit_io steady_motor_ops t c now m1 h)) = h" for c by (simp add: transmit_io_def Let_def)
  then show ?thesis using q by (simp add: apply_io_def Let_def split: prod.splits) (metis snd_conv)
qed

lemma steady_ioD: "apply_io steady_motor_ops t now m h = (e, r, m', h') \<Longrightarrow> h' = h"
  using steady_io [of t now m h] by simp

lemma steady_apply: "snd (snd (apply_motor kc steady_motor_ops i s h)) = h"
proof -
  obtain t pct s1 where r: "apply_read_section i s = (t, pct, s1)" by (metis prod_cases3)
  obtain e b m' h' where a: "apply_io steady_motor_ops t (of_int 1000000) (motor s1 i) h = (e, b, m', h')" by (metis prod_cases4)
  define s3 where "s3 = (if b then refresh_section i (upd_motor i (\<lambda>_. m') s1) else upd_motor i (\<lambda>_. m') s1)"
  obtain newly s4 h4 where c: "record_apply_result kc steady_motor_ops i e pct s3 h' = (newly, s4, h4)" by (metis prod_cases3)
  have "h4 = h'" using c by (simp add: record_apply_result_def Let_def split: prod.splits if_splits)
  then have "snd (snd (apply_motor kc steady_motor_ops i s h)) = h' \<or> snd (snd (apply_motor kc steady_motor_ops i s h)) = h"
    using r a c by (simp add: apply_motor_def Let_def s3_def)
  then show ?thesis using steady_ioD [OF a] by blast
qed

lemma steady_set_inhibit: "snd (snd (motor_control_set_tach_inhibit kc steady_motor_ops f b m h)) = h"
proof (cases "tach_inhibit_section f b m")
  case (Some m1)
  obtain e m2 h2 where a: "apply_motor kc steady_motor_ops (nat f) m1 h = (e, m2, h2)" by (metis prod_cases3)
  then have "h2 = h" using steady_apply [of kc "nat f" m1 h] by simp
  then show ?thesis using Some a by (simp add: motor_control_set_tach_inhibit_def Let_def)
qed (simp add: motor_control_set_tach_inhibit_def)

declare reserve_loop.simps [code]

end
