(* ===== verification/Tach_Response.thy ===== *)
theory Tach_Response imports Node_Simulation
begin

text \<open>
  What a confirmed tachometer fault leads to, on the whole node: the output of the fan, or all of them,
  cannot run any more when the action task gives its mutex back, whatever the modules report on the
  way; an event that the operator's CLEAR has overtaken changes nothing; and an action that does not
  end is noticed by the supervisor.
\<close>

section \<open>An output that cannot run\<close>

definition withheld :: "nat \<Rightarrow> motor_state \<Rightarrow> bool" where
  "withheld i m \<longleftrightarrow> s_global_inhibited m \<or> mc_tach_inhibited (motor m i) \<or> s_fan_count m \<le> i"

text \<open>Its target is zero, and every request for it is refused.\<close>

definition output_refused :: "nat \<Rightarrow> motor_state \<Rightarrow> bool" where
  "output_refused i m \<longleftrightarrow> mc_target_pct (motor m i) = 0 \<and>
     (\<forall>pct. manual_section (int i) pct m = None \<and> automatic_section (int i) pct m = None)"

lemma withheld_refused: "good kc m \<Longrightarrow> withheld i m \<Longrightarrow> i < 4 \<Longrightarrow> output_refused i m"
  by (auto simp: good_def withheld_def output_refused_def motor_inv_def all_targets_zero_def context_inv_def manual_section_def
    automatic_section_def motor_valid_locked_def manual_allowed_locked_def automatic_allowed_locked_def)

lemma stop_keeps_output:
  assumes "stop_all_internal (sk_motor kc) mops clear inhibit rb m w = (e, m', w')" and "good kc m"
  shows "s_fan_count m' = s_fan_count m" and "mc_tach_inhibited (motor m i) \<Longrightarrow> mc_tach_inhibited (motor m' i)"
proof -
  have "s_fan_count m' = s_fan_count m \<and> (mc_tach_inhibited (motor m i) \<longrightarrow> mc_tach_inhibited (motor m' i))"
  proof (cases "stop_enter_section inhibit m")
    case None
    then show ?thesis using assms(1) by (simp add: stop_all_internal_def)
  next
    case (Some m1)
    have inv: "motor_inv (sk_motor kc) m" "0 < CONFIG_RMT_ERROR_LIMIT (sk_motor kc)" using assms(2) by (simp_all add: good_def)
    have inv1: "motor_inv (sk_motor kc) m1" by (rule motor_inv_stop_enter [OF Some inv(1)])
    from stop_all_internal_cut [OF assms(1) Some inv] obtain prev gens m2 m3 h1 h2 where
      c: "stop_commit_section clear inhibit m1 = (controlled m, prev, gens, m2)"
      and l: "stop_apply_loop (sk_motor kc) mops rb prev gens [0..<controlled m] ESP_OK m2 h1 = (e, m3, h2)"
      and inv2: "motor_inv (sk_motor kc) m2" and p: "\<forall>i \<in> set [0..<controlled m]. i < 4 \<and> prev ! i \<le> 100"
      and f: "frame_ok (stop_leave_section m3) m'" and k: "\<And>j. motor m' j = motor m3 j" by metis
    note L = stop_apply_loop_frame [OF l inv2 inv(2) p]
    have 1: "motor m1 i = motor m i" "s_fan_count m1 = s_fan_count m" using stop_enter_motor [OF Some] by (simp_all add: motor_def)
    have m2: "m2 = fold (\<lambda>i. upd_motor i (stop_motor clear inhibit)) [0..<controlled m1] (stop_latched inhibit m1)"
      using c stop_commit_state [of clear inhibit m1] by simp
    have "mc_tach_inhibited (motor m1 i) \<Longrightarrow> mc_tach_inhibited (motor m2 i)"
      using stop_commit_motor [OF inv1, of clear inhibit i] c by (simp add: stop_motor_def split: if_splits)
    moreover have "s_fan_count m2 = s_fan_count m1" unfolding m2
      by (simp add: fold_upd_motor_fields [where f = "\<lambda>_. stop_motor clear inhibit"] stop_latched_def)
    ultimately show ?thesis using L f k 1 by (simp add: frame_ok_def stop_leave_section_def)
  qed
  then show "s_fan_count m' = s_fan_count m" "mc_tach_inhibited (motor m i) \<Longrightarrow> mc_tach_inhibited (motor m' i)" by blast+
qed

interpretation hold: steady_stop kc ops "withheld i" "{STOP_ACTION_GLOBAL, STOP_ACTION_TACH_ALL}"
  for kc :: safety_kconfig and ops :: "'w safety_ops" and i :: nat
proof
  show "withheld i m'" if "good kc m" "withheld i m" "stop_all_internal (sk_motor kc) (sfo_motor ops) clear inhibit rb m w = (e, m', w')"
    for m clear inhibit rb w e m' w'
    using stop_latch_fields(1) [OF that(3,1)] stop_keeps_output [OF that(3,1)] that(2) by (auto simp: withheld_def)
  show "withheld i (snd (motor_control_clear_maintenance_inhibit m))" if "withheld i m" for m
    using release_fields [of "fst (motor_control_clear_maintenance_inhibit m)" "snd (motor_control_clear_maintenance_inhibit m)" m] that
    by (simp add: withheld_def motor_def)
  show "withheld i m'" if a: "a \<in> {STOP_ACTION_GLOBAL, STOP_ACTION_TACH_ALL}" and g: "good kc m" and
    s: "stop_all_internal (sk_motor kc) (sfo_motor ops) clear (fst (action_stop a)) (snd (action_stop a)) m w = (e, m', w')"
    for a m clear w e m' w'
  proof (cases "a = STOP_ACTION_GLOBAL")
    case True
    then show ?thesis using stop_latch_fields(2) [OF s g] by (simp add: withheld_def)
  next
    case False
    then have "fst (action_stop a) = STOP_INHIBIT_TACH_ALL" "fst (action_stop a) \<noteq> STOP_INHIBIT_MAINTENANCE" using a by auto
    then have "i < controlled m \<Longrightarrow> mc_tach_inhibited (motor m' i)"
      using stop_all_effect [OF s] stop_entered [OF g] g by (simp add: good_def)
    moreover have "controlled m = s_fan_count m" using g by (simp add: good_def motor_inv_def controlled_def)
    ultimately show ?thesis using stop_keeps_output(1) [OF s g] by (auto simp: withheld_def)
  qed
  show "withheld i (snd (motor_control_take_rmt_fault_pending m))" if "withheld i m" for m
    using that by (simp add: withheld_def motor_def motor_control_take_rmt_fault_pending_def)
  show "durable_inhibit a" if "a \<in> {STOP_ACTION_GLOBAL, STOP_ACTION_TACH_ALL}" for a
    using that by (auto simp: durable_inhibit_def)
qed simp

text \<open>Setting a fan's inhibit.\<close>

lemma set_tach_inhibit_effect:
  assumes "motor_control_set_tach_inhibit (sk_motor kc) mops f True m w = (e, m', w')" and "good kc m"
  shows "good kc m'" and "withheld i m \<Longrightarrow> withheld i m'" and "e = ESP_OK \<Longrightarrow> f = int i \<Longrightarrow> withheld i m'"
proof -
  have inv: "motor_inv (sk_motor kc) m" "0 < CONFIG_RMT_ERROR_LIMIT (sk_motor kc)" using assms(2) by (simp_all add: good_def)
  have steps: "motor_steps (sk_motor kc) m m'"
    using run_call_steps [OF inv, of mops "Call_Set_Tach_Inhibit f True" w] assms(1) by simp
  have "s_stop_depth m' = s_stop_depth m \<and> (withheld i m \<longrightarrow> withheld i m') \<and> (e = ESP_OK \<longrightarrow> f = int i \<longrightarrow> withheld i m')"
  proof (cases "tach_inhibit_section f True m")
    case None
    then have "m' = m" "e \<noteq> ESP_OK" using assms(1) by (auto simp: motor_control_set_tach_inhibit_def)
    then show ?thesis by simp
  next
    case (Some m1)
    obtain e2 m2 w2 where ap: "apply_motor (sk_motor kc) mops (nat f) m1 w = (e2, m2, w2)" by (metis prod_cases3)
    have v: "motor_valid_locked m f" using Some by (auto simp: tach_inhibit_section_def split: if_splits)
    then have i4: "nat f < 4" "nat f < length (s_motors m)" using inv(1) by (auto simp: motor_valid_locked_def motor_inv_def)
    have 1: "mc_tach_inhibited (motor m1 (nat f))" "j \<noteq> nat f \<Longrightarrow> motor m1 j = motor m j"
        "s_stop_depth m1 = s_stop_depth m" "s_global_inhibited m1 = s_global_inhibited m" "s_fan_count m1 = s_fan_count m" for j
      using Some i4(2) by (auto simp: tach_inhibit_section_def Let_def split: if_splits)
    have inv1: "motor_inv (sk_motor kc) m1" using motor_steps_inv [OF steps_one [OF step_tach [OF Some]] inv] .
    note A = apply_motor_effect [OF inv1 i4(1) ap]
    have m': "e = e2" "\<And>j. motor m' j = motor m2 j" "frame_ok m2 m'"
      using assms(1) Some ap by (auto simp: motor_control_set_tach_inhibit_def Let_def)
    show ?thesis using 1 A m' by (cases "i = nat f") (auto simp: withheld_def frame_ok_def)
  qed
  then show "good kc m'" "withheld i m \<Longrightarrow> withheld i m'" "e = ESP_OK \<Longrightarrow> f = int i \<Longrightarrow> withheld i m'"
    using steps_good [OF steps assms(2)] assms(2) by (simp_all add: good_def)
qed

section \<open>The action task on the node\<close>

definition motor_rel :: "safety_kconfig \<Rightarrow> (motor_state \<Rightarrow> bool) \<Rightarrow> motor_state \<times> 'p \<Rightarrow> motor_state \<times> 'p \<Rightarrow> bool" where
  "motor_rel kc P x y \<longleftrightarrow> stable kc P (fst x) (fst y)"

definition keeps :: "safety_kconfig \<Rightarrow> (motor_state \<Rightarrow> bool) \<Rightarrow> 'p firmware_node \<Rightarrow> 'p firmware_node \<Rightarrow> bool" where
  "keeps kc P n n' \<longleftrightarrow> kept kc P n n' \<and> sch_config (fw_scheduler (snd (snd n'))) = sch_config (fw_scheduler (snd (snd n)))"

definition same_wiring :: "'p firmware_node \<Rightarrow> 'p firmware_node \<Rightarrow> bool" where
  "same_wiring n n' \<longleftrightarrow> sv_callbacks (fst n') = sv_callbacks (fst n) \<and>
     sch_config (fw_scheduler (snd (snd n'))) = sch_config (fw_scheduler (snd (snd n)))"

text \<open>The other tasks leave the controller in service and the modules configured as they are; the
  driver calls of the motor controller leave the configuration too; and once the task has its mutex,
  the others do not lift the inhibit of the output: in the firmware only CLEAR does, and it takes the
  same mutex.\<close>

definition tach_env :: "'p node_platform \<Rightarrow> (motor_state \<Rightarrow> bool) \<Rightarrow> bool" where
  "tach_env nd P \<longleftrightarrow> stable_env (nd_kconfig nd) P (nd_safety nd) \<and>
     sched_frame (motor_rel (nd_kconfig nd) P) (nd_scheduler nd) \<and> store_frame (motor_rel (nd_kconfig nd) P) (nd_store nd) \<and>
     (\<forall>f full n. keeps (nd_kconfig nd) P n (tao_request_fan (nd_base nd) f full n)) \<and>
     (\<forall>x. keeps (nd_kconfig nd) P (snd x) (snd (tao_others (nd_base nd) x))) \<and>
     (\<forall>mutex ticks x. keeps (nd_kconfig nd) (\<lambda>_. True) (snd x) (snd (snd (tao_take (nd_base nd) mutex ticks x)))) \<and>
     (\<forall>f inhibited n. same_wiring n (snd (node_set_tach_inhibit nd f inhibited n)))"

text \<open>The callbacks of the safety supervisor and the scheduler do the same.\<close>

definition wired :: "'p node_platform \<Rightarrow> (motor_state \<Rightarrow> bool) \<Rightarrow> 'p firmware_node \<Rightarrow> bool" where
  "wired nd P n \<longleftrightarrow> stable_callbacks (nd_kconfig nd) P (sv_callbacks (fst n)) \<and>
     notify_frame (motor_rel (nd_kconfig nd) P) (fw_scheduler (snd (snd n)))"

lemma keeps_good: "keeps kc P n n' \<Longrightarrow> good kc (mot n) \<Longrightarrow> good kc (mot n')"
  unfolding keeps_def using kept_good by blast

lemma keeps_P: "keeps kc P n n' \<Longrightarrow> good kc (mot n) \<Longrightarrow> P (mot n) \<Longrightarrow> P (mot n')"
  unfolding keeps_def using kept_P by blast

lemma keeps_wired: "keeps (nd_kconfig nd) Q n n' \<Longrightarrow> wired nd P n \<Longrightarrow> wired nd P n'"
  by (simp add: keeps_def wired_def kept_def notify_frame_def)

lemma tach_envD:
  assumes "tach_env nd P"
  shows "stable_env (nd_kconfig nd) P (nd_safety nd)" and "sched_frame (motor_rel (nd_kconfig nd) P) (nd_scheduler nd)"
    and "store_frame (motor_rel (nd_kconfig nd) P) (nd_store nd)"
    and "keeps (nd_kconfig nd) P n (tao_request_fan (nd_base nd) f full n)"
    and "keeps (nd_kconfig nd) P (snd x) (snd (tao_others (nd_base nd) x))"
    and "keeps (nd_kconfig nd) (\<lambda>_. True) (snd x) (snd (snd (tao_take (nd_base nd) mutex ticks x)))"
    and "same_wiring n (snd (node_set_tach_inhibit nd f inhibited n))"
  using assms unfolding tach_env_def by blast+

lemma node_tach_ops_fields [simp]:
  "tao_others (node_tach_ops nd) = tao_others (nd_base nd)" "tao_take (node_tach_ops nd) = tao_take (nd_base nd)"
  "tao_give (node_tach_ops nd) = tao_give (nd_base nd)" "tao_request_fan (node_tach_ops nd) = tao_request_fan (nd_base nd)"
  "tao_set_tach_inhibit (node_tach_ops nd) = node_set_tach_inhibit nd"
  "tao_cancel_fan (node_tach_ops nd) f = on_scheduler (scheduler_cancel_fan (nd_scheduler nd) f)"
  "tao_save_sync (node_tach_ops nd) t = on_store (fan_state_store_save_sync (nd_store nd) t)"
  "tao_stop_for_tach_all (node_tach_ops nd) = safety_supervisor_stop_for_tach_all (nd_kconfig nd) (nd_safety nd)"
  "tao_stop_all (node_tach_ops nd) = safety_supervisor_stop_all (nd_kconfig nd) (nd_safety nd)"
  "tao_clear_alarm (node_tach_ops nd) = node_clear_alarm"
  "tao_tach_snapshot (node_tach_ops nd) f n = tach_monitor_get_snapshot f (fw_tach (snd (snd n)))"
  by (simp_all add: node_tach_ops_def)

text \<open>The controller is in service and the output withheld.\<close>

abbreviation withheld_node :: "'p node_platform \<Rightarrow> nat \<Rightarrow> 'p firmware_node \<Rightarrow> bool" where
  "withheld_node nd i n \<equiv> good (nd_kconfig nd) (mot n) \<and> withheld i (mot n)"

lemma keeps_withheld: "keeps (nd_kconfig nd) (withheld i) n n' \<Longrightarrow> withheld_node nd i n \<Longrightarrow> withheld_node nd i n'"
  using keeps_good keeps_P by blast

lemma tach_call_keeps:
  assumes "tach_env nd P" and "tach_call (node_tach_ops nd) f x = (r, x')"
  obtains n' where "f (snd x) = (r, n')" "keeps (nd_kconfig nd) P n' (snd x')"
proof -
  obtain a n where x: "x = (a, n)" by (rule prod.exhaust)
  obtain r' n' where f: "f n = (r', n')" by (rule prod.exhaust)
  then have "r' = r" "x' = tao_others (nd_base nd) (a, n')" using assms(2) x by (simp_all add: tach_call_def)
  then show ?thesis using that [of n'] f x tach_envD(5) [OF assms(1), of "(a, n')"] by simp
qed

lemma tach_call_opt_keeps:
  assumes "tach_env nd P" and "tach_call_opt (node_tach_ops nd) f x = Some (r, x')"
  obtains n' where "f (snd x) = Some (r, n')" "keeps (nd_kconfig nd) P n' (snd x')"
proof -
  obtain a n where x: "x = (a, n)" by (rule prod.exhaust)
  obtain n' where f: "f n = Some (r, n')" "x' = tao_others (nd_base nd) (a, n')"
    using assms(2) x by (auto simp: tach_call_opt_def split: option.splits)
  then show ?thesis using that [of n'] x tach_envD(5) [OF assms(1), of "(a, n')"] by simp
qed

lemma apfst_result: "apfst f y = (r, n) \<Longrightarrow> \<exists>x. y = (x, n)"
  by (cases y) simp

lemma stop_call:
  assumes "tach_env nd (withheld i)" and "stable_callbacks (nd_kconfig nd) (withheld i) (sv_callbacks (fst n))" and "good (nd_kconfig nd) (mot n)"
    and "safety_stop_all_internal (nd_kconfig nd) (nd_safety nd) reason clear action n = (outcome, n')"
    and "action \<in> {STOP_ACTION_GLOBAL, STOP_ACTION_TACH_ALL}"
  shows "withheld_node nd i n'" and "stable_callbacks (nd_kconfig nd) (withheld i) (sv_callbacks (fst n'))"
  using hold.stop_latches(1,2) [OF tach_envD(1) [OF assms(1)] assms(2,4)] assms(2,3,5) kept_good kept_callbacks by metis+

lemma escalate_withholds:
  assumes "tach_env nd (withheld i)" and "stable_callbacks (nd_kconfig nd) (withheld i) (sv_callbacks (fst (snd x)))"
    and "good (nd_kconfig nd) (mot (snd x))"
  shows "withheld_node nd i (snd (tach_escalate_to_global_stop (node_tach_ops nd) reason x))"
proof -
  obtain r x' where c: "tach_call (node_tach_ops nd) (safety_supervisor_stop_all (nd_kconfig nd) (nd_safety nd) (Some reason) True True) x = (r, x')"
    by (rule prod.exhaust)
  then obtain n' where s: "safety_supervisor_stop_all (nd_kconfig nd) (nd_safety nd) (Some reason) True True (snd x) = (r, n')"
      and k: "keeps (nd_kconfig nd) (withheld i) n' (snd x')" by (rule tach_call_keeps [OF assms(1)])
  obtain outcome where "safety_stop_all_internal (nd_kconfig nd) (nd_safety nd) (Some reason) True STOP_ACTION_GLOBAL (snd x) = (outcome, n')"
    using s apfst_result unfolding safety_supervisor_stop_all_def if_True by metis
  from stop_call(1) [OF assms(1-3) this] have "withheld_node nd i n'" by simp
  then show ?thesis using keeps_withheld [OF k] c by (simp add: tach_escalate_to_global_stop_def)
qed

lemma set_inhibit_call:
  assumes "tach_env nd (withheld i)" and "good (nd_kconfig nd) (mot (snd x))"
    and "tach_call (node_tach_ops nd) (tao_set_tach_inhibit (node_tach_ops nd) (int i) True) x = (e, x')"
  shows "good (nd_kconfig nd) (mot (snd x'))" and "e = ESP_OK \<Longrightarrow> withheld i (mot (snd x'))"
    and "wired nd (withheld i) (snd x) \<Longrightarrow> wired nd (withheld i) (snd x')"
proof -
  obtain n' where c: "node_set_tach_inhibit nd (int i) True (snd x) = (e, n')" and k: "keeps (nd_kconfig nd) (withheld i) n' (snd x')"
    using assms(3) by (auto elim!: tach_call_keeps [OF assms(1)])
  obtain s m w where n: "snd x = (s, m, w)" by (metis prod_cases3)
  obtain m' w' where b: "motor_control_set_tach_inhibit (sk_motor (nd_kconfig nd)) (sfo_motor (nd_safety nd)) (int i) True m w = (e, m', w')"
      and n': "n' = (s, m', w')" using c n by (auto simp: node_set_tach_inhibit_def split: prod.splits)
  have g: "good (nd_kconfig nd) m" using assms(2) n by simp
  note E = set_tach_inhibit_effect [OF b g]
  have g': "good (nd_kconfig nd) (mot n')" using E(1) n' by simp
  show "good (nd_kconfig nd) (mot (snd x'))" by (rule keeps_good [OF k g'])
  show "e = ESP_OK \<Longrightarrow> withheld i (mot (snd x'))" using keeps_P [OF k g'] E(3) n' by simp
  show "wired nd (withheld i) (snd x')" if "wired nd (withheld i) (snd x)"
  proof (rule keeps_wired [OF k])
    have "same_wiring (snd x) n'" using tach_envD(7) [OF assms(1), of "snd x" "int i" True] c by simp
    then show "wired nd (withheld i) n'" using that by (simp add: wired_def same_wiring_def notify_frame_def)
  qed
qed

lemma cancel_call:
  assumes "tach_env nd (withheld i)" and "wired nd (withheld i) (snd x)" and "withheld_node nd i (snd x)"
    and "tach_call_opt (node_tach_ops nd) (tao_cancel_fan (node_tach_ops nd) f) x = Some (e, x')"
  shows "withheld_node nd i (snd x')" and "sv_callbacks (fst (snd x')) = sv_callbacks (fst (snd x))"
proof -
  obtain n' where c: "on_scheduler (scheduler_cancel_fan (nd_scheduler nd) f) (snd x) = Some (e, n')"
      and k: "keeps (nd_kconfig nd) (withheld i) n' (snd x')" using assms(4) by (auto elim!: tach_call_opt_keeps [OF assms(1)])
  obtain s m w where n: "snd x = (s, m, w)" by (metis prod_cases3)
  obtain sch m' p where b: "scheduler_cancel_fan (nd_scheduler nd) f (fw_scheduler w) (m, fw_platform w) = Some (e, sch, (m', p))"
      and n': "n' = (s, m', w\<lparr>fw_scheduler := sch, fw_platform := p\<rparr>)" using c n by (auto simp: on_scheduler_def split: option.splits)
  have "notify_frame (motor_rel (nd_kconfig nd) (withheld i)) (fw_scheduler w)" using assms(2) n by (simp add: wired_def)
  from cancel_fan_frame [OF tach_envD(2) [OF assms(1)] this b] have "stable (nd_kconfig nd) (withheld i) m m'" by (simp add: motor_rel_def)
  then have "withheld_node nd i n'" using assms(3) n n' by (simp add: stable_def)
  then show "withheld_node nd i (snd x')" by (rule keeps_withheld [OF k])
  have "sv_callbacks (fst (snd x')) = sv_callbacks (fst n')" using k kept_callbacks unfolding keeps_def by blast
  then show "sv_callbacks (fst (snd x')) = sv_callbacks (fst (snd x))" using n n' by simp
qed

lemma save_call:
  assumes "tach_env nd (withheld i)" and "withheld_node nd i (snd x)"
    and "tach_call_opt (node_tach_ops nd) (tao_save_sync (node_tach_ops nd) t) x = Some (e, x')"
  shows "withheld_node nd i (snd x')" and "sv_callbacks (fst (snd x')) = sv_callbacks (fst (snd x))"
proof -
  obtain n' where c: "on_store (fan_state_store_save_sync (nd_store nd) t) (snd x) = Some (e, n')"
      and k: "keeps (nd_kconfig nd) (withheld i) n' (snd x')" using assms(3) by (auto elim!: tach_call_opt_keeps [OF assms(1)])
  obtain s m w where n: "snd x = (s, m, w)" by (metis prod_cases3)
  obtain st m' p where b: "fan_state_store_save_sync (nd_store nd) t (fw_store w) (m, fw_platform w) = Some (e, st, (m', p))"
      and n': "n' = (s, m', w\<lparr>fw_store := st, fw_platform := p\<rparr>)" using c n by (auto simp: on_store_def split: option.splits)
  from save_sync_frame [OF tach_envD(3) [OF assms(1)] b] have "stable (nd_kconfig nd) (withheld i) m m'" by (simp add: motor_rel_def)
  then have "withheld_node nd i n'" using assms(2) n n' by (simp add: stable_def)
  then show "withheld_node nd i (snd x')" by (rule keeps_withheld [OF k])
  have "sv_callbacks (fst (snd x')) = sv_callbacks (fst n')" using k kept_callbacks unfolding keeps_def by blast
  then show "sv_callbacks (fst (snd x')) = sv_callbacks (fst (snd x))" using n n' by simp
qed

lemma stop_fan_withholds:
  assumes "tach_env nd (withheld i)" and "wired nd (withheld i) (snd x)" and "good (nd_kconfig nd) (mot (snd x))"
    and "tach_stop_fan (node_tach_ops nd) (int i) x = Some ((me, se, pe), x')"
  shows "good (nd_kconfig nd) (mot (snd x'))" and "me = ESP_OK \<Longrightarrow> withheld i (mot (snd x'))"
    and "stable_callbacks (nd_kconfig nd) (withheld i) (sv_callbacks (fst (snd x')))"
proof -
  let ?ops = "node_tach_ops nd" and ?cb = "\<lambda>x. stable_callbacks (nd_kconfig nd) (withheld i) (sv_callbacks (fst (snd x)))"
  obtain e1 x1 where 1: "tach_call ?ops (tao_set_tach_inhibit ?ops (int i) True) x = (e1, x1)" by (rule prod.exhaust)
  note S = set_inhibit_call [OF assms(1,3) 1]
  have w1: "wired nd (withheld i) (snd x1)" "?cb x1" using S(3) [OF assms(2)] by (simp_all add: wired_def)
  have "good (nd_kconfig nd) (mot (snd x')) \<and> (me = ESP_OK \<longrightarrow> withheld i (mot (snd x'))) \<and> ?cb x'"
  proof (cases "e1 = ESP_OK")
    case False
    then have "me = e1 \<and> x' = x1" using assms(4) 1 by (simp add: tach_stop_fan_def)
    then show ?thesis using S(1) w1(2) False by simp
  next
    case True
    then have h1: "withheld_node nd i (snd x1)" using S(1,2) by simp
    obtain e2 x2 where 2: "tach_call_opt ?ops (tao_cancel_fan ?ops (int i)) x1 = Some (e2, x2)"
      using assms(4) 1 True by (auto simp: tach_stop_fan_def split: option.splits)
    note C = cancel_call [OF assms(1) w1(1) h1 2]
    show ?thesis
    proof (cases "e2 = ESP_OK")
      case False
      then have "x' = x2" using assms(4) 1 2 True by (simp add: tach_stop_fan_def)
      then show ?thesis using C w1(2) by simp
    next
      case t2: True
      have "tach_call_opt ?ops (tao_save_sync ?ops (tao_ms_to_ticks ?ops TACH_ACTION_PERSIST_TIMEOUT_MS)) x2 = Some (pe, x')"
        using assms(4) 1 2 True t2 by (auto simp: tach_stop_fan_def split: option.splits)
      note V = save_call [OF assms(1) C(1) this]
      show ?thesis using V C(2) w1(2) by simp
    qed
  qed
  then show "good (nd_kconfig nd) (mot (snd x'))" "me = ESP_OK \<Longrightarrow> withheld i (mot (snd x'))" "?cb x'" by blast+
qed

text \<open>Whatever the modules answer, the response to a fault that stops the fan, or all of them, withholds
  its output.\<close>

lemma act_withholds:
  assumes "tach_env nd (withheld i)" and "wired nd (withheld i) (snd x)" and "good (nd_kconfig nd) (mot (snd x))"
    and "tach_act (node_tach_ops nd) event x = Some x'"
    and "tse_action event = TACH_MONITOR_STALL_STOP_ALL \<or> tse_action event = TACH_MONITOR_STALL_STOP_FAN \<and> tse_local_fan event = int i"
  shows "withheld_node nd i (snd x')"
proof (cases "tse_action event = TACH_MONITOR_STALL_STOP_ALL")
  case True
  let ?ops = "node_tach_ops nd" and ?reason = "Some (tach_fault_reason (tse_cause event))"
  obtain err x1 where c: "tach_call ?ops (tao_stop_for_tach_all ?ops ?reason True) x = (err, x1)" by (rule prod.exhaust)
  then obtain n1 where s: "safety_supervisor_stop_for_tach_all (nd_kconfig nd) (nd_safety nd) ?reason True (snd x) = (err, n1)"
    and k: "keeps (nd_kconfig nd) (withheld i) n1 (snd x1)" by (auto elim!: tach_call_keeps [OF assms(1)])
  obtain outcome where "safety_stop_all_internal (nd_kconfig nd) (nd_safety nd) ?reason True STOP_ACTION_TACH_ALL (snd x) = (outcome, n1)"
    using s apfst_result unfolding safety_supervisor_stop_for_tach_all_def by metis
  note C = stop_call [OF assms(1) _ assms(3) this]
  have 1: "withheld_node nd i (snd x1)" using keeps_withheld [OF k] C(1) assms(2) by (simp add: wired_def)
  have "sv_callbacks (fst (snd x1)) = sv_callbacks (fst n1)" using k kept_callbacks unfolding keeps_def by blast
  then have cb: "stable_callbacks (nd_kconfig nd) (withheld i) (sv_callbacks (fst (snd x1)))" using C(2) assms(2) by (simp add: wired_def)
  show ?thesis using assms(4) c True 1 escalate_withholds [OF assms(1) cb] by (auto simp: tach_act_def split: if_splits)
next
  case False
  then have ev: "tse_action event = TACH_MONITOR_STALL_STOP_FAN" "tse_local_fan event = int i" using assms(5) by auto
  obtain me se pe x1 where f: "tach_stop_fan (node_tach_ops nd) (int i) x = Some ((me, se, pe), x1)"
    using assms(4) ev by (auto simp: tach_act_def split: option.splits)
  note F = stop_fan_withholds [OF assms(1-3) f]
  show ?thesis
  proof (cases "me = ESP_OK \<and> se = ESP_OK \<and> pe = ESP_OK")
    case True
    have "keeps (nd_kconfig nd) (withheld i) (snd x1) (snd x')"
    proof -
      obtain r x2 where p: "tach_call (node_tach_ops nd) (\<lambda>n. ((), tao_request_fan (node_tach_ops nd) (tse_local_fan event) True n)) x1 = (r, x2)"
        by (rule prod.exhaust)
      then obtain n' where "tao_request_fan (nd_base nd) (int i) True (snd x1) = n'" "keeps (nd_kconfig nd) (withheld i) n' (snd x2)"
        using ev(2) by (auto elim!: tach_call_keeps [OF assms(1)])
      moreover have "x' = x2" using assms(4) ev f True p by (simp add: tach_act_def)
      ultimately show ?thesis using tach_envD(4) [OF assms(1), of "snd x1" "int i" True] kept_trans unfolding keeps_def by metis
    qed
    then show ?thesis using keeps_withheld F(1,2) True by blast
  next
    case False
    then show ?thesis using assms(4) ev f escalate_withholds [OF assms(1) F(3,1)] by (auto simp: tach_act_def split: if_splits)
  qed
qed


text \<open>On the simulated node the motor is stopped, the schedule cancelled, and fan 0 stays off.\<close>

lemma sim_tach_env: "tach_env sim_platform P"
proof -
  have r: "reflp (motor_rel kc P :: motor_state \<times> unit \<Rightarrow> _)" "transp (motor_rel kc P :: motor_state \<times> unit \<Rightarrow> _)"
    "motor_rel kc P (x :: motor_state \<times> unit) x" for kc x
    by (auto simp: motor_rel_def stable_def intro!: reflpI transpI)
  have f: "stable_env kc P (idle_safety_ops steady_motor_ops :: unit firmware safety_ops)" for kc
    by (simp add: stable_env_def idle_safety_ops_def)
  have m: "same_wiring n (snd (node_set_tach_inhibit sim_platform f b n))" for f b n
  proof -
    obtain s m w where n: "n = (s, m, w)" by (metis prod_cases3)
    obtain e m' w' where c: "motor_control_set_tach_inhibit sim_kconfig steady_motor_ops f b m w = (e, m', w')" by (metis prod_cases3)
    then have "w' = w" using steady_set_inhibit [of sim_kconfig f b m w] by simp
    then show ?thesis using n c by (simp add: same_wiring_def node_set_tach_inhibit_def sim_platform_def idle_safety_ops_def)
  qed
  show ?thesis
    using r f m unfolding tach_env_def by (simp add: sim_platform_def sched_frame_def store_frame_def framed_def keeps_def still_tach_ops_def)
qed


section \<open>An event that CLEAR has overtaken\<close>

text \<open>The generations of a fan's faults: each CLEAR and each new fault takes the next one, never zero.\<close>

definition next_generation :: "u32 \<Rightarrow> u32" where
  "next_generation g = (if g + 1 = 0 then 1 else g + 1)"

abbreviation generation :: "'h tach_monitor \<Rightarrow> nat \<Rightarrow> u32" where
  "generation s k \<equiv> tf_fault_generation (tach_fan s k)"

lemma generation_upd:
  assumes "\<And>f. tf_fault_generation (F f) = tf_fault_generation f"
  shows "generation (upd_tach i F s) k = generation s k"
  using assms by (cases "i < length (tm_fans s)") (simp_all add: tach_fan_upd, simp add: tach_fan_def upd_tach_def list_update_beyond)

lemma generation_advance:
  assumes "\<And>f. tf_fault_generation (F f) = next_generation (tf_fault_generation f)"
  shows "generation (upd_tach i F s) k \<in> {generation s k, next_generation (generation s k)}"
  using assms by (cases "i < length (tm_fans s)") (simp_all add: tach_fan_upd, simp add: tach_fan_def upd_tach_def list_update_beyond)

lemma generation_latch: "generation (latch_configured_stall_action_locked tk i s) k = generation s k"
proof -
  have "generation (fold (\<lambda>j. upd_tach j (\<lambda>f. f\<lparr>tf_stall_latched := True\<rparr>)) js s) k = generation s k" for js
    by (induction js arbitrary: s) (simp_all add: generation_upd)
  then show ?thesis by (simp add: latch_configured_stall_action_locked_def generation_upd)
qed

lemma generation_alarm: "generation (snd (alarm_if tk i c l a s)) k \<in> {generation s k, next_generation (generation s k)}"
proof (cases "\<not> tf_stall_alarm (tach_fan s i) \<and> l \<le> a")
  case True
  then have "generation (snd (alarm_if tk i c l a s)) k = generation (snd (raise_fault tk i c s)) k" by (simp add: alarm_if_def)
  then show ?thesis unfolding raise_fault_def Let_def snd_conv generation_latch
    by (simp only:, intro generation_advance) (simp add: advance_fault_generation_locked_def next_generation_def Let_def)
qed (auto simp: alarm_if_def)

lemma generation_observe: "generation (observe tk ob s) k \<in> {generation s k, next_generation (generation s k)}"
proof (cases ob)
  case (Obs_Sample i now mv rpm snapshot)
  have P: "generation (upd_tach i F (upd_tach i (put_sample now v rpm) s)) k = generation s k"
    if "\<And>f. tf_fault_generation (F f) = tf_fault_generation f" for F v
    by (rule trans [OF generation_upd [OF that] generation_upd]) (simp add: put_sample_def)
  show ?thesis
  proof (cases "sample_mark tk now mv rpm snapshot")
    case (Mark_Invalid t)
    then show ?thesis using generation_alarm [of tk i _ _ _ "upd_tach i (put_invalid now) (upd_tach i (put_sample now (mv \<and> snapshot \<noteq> None) rpm) s)" k]
        P [of "put_invalid now"] by (simp add: Obs_Sample sample_by_mark Let_def put_invalid_def)
  next
    case (Mark_Low t)
    then show ?thesis using generation_alarm [of tk i _ _ _ "upd_tach i (put_low now) (upd_tach i (put_sample now (mv \<and> snapshot \<noteq> None) rpm) s)" k]
        P [of "put_low now"] by (simp add: Obs_Sample sample_by_mark Let_def put_low_def)
  next
    case Mark_Reset
    then show ?thesis using P [of put_fine] by (simp add: Obs_Sample sample_by_mark Let_def put_fine_def)
  qed
next
  case (Obs_Clear i)
  show ?thesis
  proof (cases "tach_fan_valid (int i) s")
    case True
    then have "observe tk ob s = upd_tach i (\<lambda>f. advance_fault_generation_locked (f\<lparr>tf_stall_alarm := False, tf_stall_latched := False,
        tf_stall_since_us := 0, tf_invalid_since_us := 0, tf_fault_cause := TACH_MONITOR_FAULT_NONE\<rparr>)) s"
      by (simp add: Obs_Clear tach_monitor_clear_alarm_def)
    then show ?thesis by (simp only:, intro generation_advance) (simp add: advance_fault_generation_locked_def next_generation_def Let_def)
  qed (simp add: Obs_Clear tach_monitor_clear_alarm_def)
qed

lemma generation_run: "\<exists>m \<le> length os. generation (fold (observe tk) os s) k = (next_generation ^^ m) (generation s k)"
proof (induction os arbitrary: s)
  case (Cons ob os)
  from Cons.IH [of "observe tk ob s"] obtain m where m: "m \<le> length os"
    "generation (fold (observe tk) (ob # os) s) k = (next_generation ^^ m) (generation (observe tk ob s) k)" by auto
  consider "generation (observe tk ob s) k = generation s k" | "generation (observe tk ob s) k = next_generation (generation s k)"
    using generation_observe [of tk ob s k] by blast
  then show ?case
  proof cases
    case 1
    then show ?thesis using m by (intro exI [of _ m]) simp
  next
    case 2
    then show ?thesis using m by (intro exI [of _ "Suc m"]) (simp add: funpow_swap1)
  qed
qed simp

text \<open>They come back only after all the others were taken.\<close>

lemma generations_differ:
  assumes "0 < k" and "k < 2 ^ 32 - 1"
  shows "(next_generation ^^ k) g \<noteq> g"
proof -
  let ?N = "2 ^ 32 - 1 :: nat"
  have le: "unat h \<le> ?N" for h :: u32 using unsigned_less [of h, where 'a = nat] by simp
  have step: "unat (next_generation h) = (if unat h = ?N then 1 else unat h + 1)" for h
  proof -
    have m: "unat (- 1 :: u32) = ?N" by (simp only: unsigned_minus_1_eq_mask mask_eq_exp_minus_1) simp
    have "h + 1 = 0 \<longleftrightarrow> h = - 1" by (simp only: eq_neg_iff_add_eq_0)
    also have "\<dots> \<longleftrightarrow> unat h = ?N" unfolding m [symmetric] by (simp only: word_unat_eq_iff)
    finally have z: "h + 1 = 0 \<longleftrightarrow> unat h = ?N" .
    show ?thesis using z unatSuc [of h] by (simp add: next_generation_def add.commute)
  qed
  have run: "unat ((next_generation ^^ j) h) = (unat h - 1 + j) mod ?N + 1" if "0 < unat h" for h j
  proof (induction j)
    case 0
    then show ?case using le [of h] that by simp
  next
    case (Suc j)
    then show ?case using step [of "(next_generation ^^ j) h"] by (simp add: mod_Suc)
  qed
  show ?thesis
  proof (cases "unat g = 0")
    case True
    obtain j where "k = Suc j" using assms(1) by (cases k) auto
    then have "0 < unat ((next_generation ^^ k) g)" using step by simp
    then show ?thesis using True by auto
  next
    case False
    define a where "a = unat g - 1"
    have a: "a < ?N" "unat g = a + 1" using le [of g] False by (simp_all add: a_def)
    have neq: "(a + k) mod ?N \<noteq> a"
    proof (cases "a + k < ?N")
      case True
      then show ?thesis using assms(1) by simp
    next
      case False
      then have "(a + k) mod ?N = a + k - ?N" using a(1) assms(2) by (simp add: mod_if)
      then show ?thesis using False assms(2) by simp
    qed
    have "unat ((next_generation ^^ k) g) = (a + k) mod ?N + 1"
      unfolding a_def by (rule run) (use a(2) in linarith)
    then show ?thesis using neq a(2) by (metis add_right_cancel)
  qed
qed

text \<open>CLEAR wins over a delayed event. Once the operator's CLEAR of a fan has gone through, an event of the
  fault it cleared is never acted upon, whatever the monitor observes until the task gets to it, for
  the next four thousand million faults and clears: the task takes its mutex, finds another
  generation, and gives it back without calling any module.\<close>

theorem overtaken_event_changes_nothing:
  assumes "tach_monitor_clear_alarm (tse_local_fan event) s = (ESP_OK, s1)"
    and "tse_fault_generation event = tf_fault_generation (tach_fan s (nat (tse_local_fan event)))"
    and "nat (tse_local_fan event) < length (tm_fans s)" and "length os < 2 ^ 32 - 2"
    and "pa_pending (ta_pending a ! f)" and "event = pa_event (ta_pending a ! f)"
    and "tao_take (nd_base nd) (the (ta_mutex a)) portMAX_DELAY (snd (tach_claim_section f a), n) = (True, x)"
    and "fw_tach (snd (snd (snd x))) = fold (observe tk) os s1"
  shows "tach_process_fan (node_tach_ops nd) f (a, n) =
    Some (tach_action_mark_complete (node_tach_ops nd) (tao_give (nd_base nd) (the (ta_mutex a)) x))"
proof -
  let ?i = "nat (tse_local_fan event)"
  obtain a1 where cl: "tach_claim_section f a = (Some event, a1)" and m: "ta_mutex a1 = ta_mutex a"
    using assms(5,6) by (auto simp: tach_claim_section_def Let_def)
  have "generation s1 ?i = next_generation (generation s ?i)"
    using assms(1,3) by (auto simp: tach_monitor_clear_alarm_def tach_fan_upd advance_fault_generation_locked_def next_generation_def
      Let_def split: if_splits)
  moreover obtain k where k: "k \<le> length os" "generation (fold (observe tk) os s1) ?i = (next_generation ^^ k) (generation s1 ?i)"
    using generation_run by blast
  ultimately have "generation (fold (observe tk) os s1) ?i = (next_generation ^^ Suc k) (generation s ?i)" by (simp add: funpow_swap1)
  moreover have "Suc k < 2 ^ 32 - 1" using k(1) assms(4) by linarith
  ultimately have "generation (fold (observe tk) os s1) ?i \<noteq> tse_fault_generation event"
    unfolding assms(2) using generations_differ [OF zero_less_Suc] by (simp only: not_False_eq_True)
  then have "\<not> tach_event_is_current (node_tach_ops nd) event (snd x)"
    using assms(8) by (auto simp: tach_event_is_current_def tach_monitor_get_snapshot_def Let_def)
  then show ?thesis using cl m assms(7) by (simp add: tach_process_fan_def)
qed

text \<open>The operator clears the simulated stall before the task gets to it: the fan keeps running.\<close>

theorem overtaken_event_changes_nothing_witness:
  "\<exists>s1 y. tach_monitor_clear_alarm 0 (fw_tach sim_firmware) = (ESP_OK, s1) \<and>
     tach_process_fan (node_tach_ops sim_platform) 0 (sim_tach_actions,
       apsnd (apsnd (\<lambda>w. w\<lparr>fw_tach := s1\<rparr>)) sim_firmware_node) = Some y \<and> mc_target_pct (motor (mot (snd y)) 0) = 50"
proof -
  obtain e s1 where c: "tach_monitor_clear_alarm 0 (fw_tach sim_firmware) = (e, s1)" by (rule prod.exhaust)
  have e: "fst (tach_monitor_clear_alarm 0 (fw_tach sim_firmware)) = ESP_OK \<and> mc_target_pct (motor (mot sim_firmware_node) 0) = 50 \<and>
      tf_fault_generation (tach_fan (fw_tach sim_firmware) 0) = 1 \<and> length (tm_fans (fw_tach sim_firmware)) = 4" by code_simp
  let ?n = "apsnd (apsnd (\<lambda>w. w\<lparr>fw_tach := s1\<rparr>)) sim_firmware_node" and ?a1 = "snd (tach_claim_section 0 sim_tach_actions)"
  have p: "pa_pending (ta_pending sim_tach_actions ! 0)" "sim_event = pa_event (ta_pending sim_tach_actions ! 0)"
    by (simp_all add: sim_tach_actions_def)
  have c': "tach_monitor_clear_alarm (tse_local_fan sim_event) (fw_tach sim_firmware) = (ESP_OK, s1)" using c e by (simp add: sim_event_def)
  have t: "tao_take (nd_base sim_platform) (the (ta_mutex sim_tach_actions)) portMAX_DELAY (?a1, ?n) = (True, (?a1, ?n))"
    by (simp add: sim_platform_def still_tach_ops_def)
  have f: "fw_tach (snd (snd (snd (?a1, ?n)))) = fold (observe sim_tach_kconfig) [] s1" by (simp add: sim_firmware_node_def)
  have "tach_process_fan (node_tach_ops sim_platform) 0 (sim_tach_actions, ?n) = Some (tach_action_mark_complete (node_tach_ops sim_platform)
      (tao_give (nd_base sim_platform) (the (ta_mutex sim_tach_actions)) (?a1, ?n)))"
    by (rule overtaken_event_changes_nothing [OF c' _ _ _ p t f]) (use e in \<open>simp_all add: sim_event_def\<close>)
  moreover have "mot (snd (tach_action_mark_complete (node_tach_ops sim_platform)
      (tao_give (nd_base sim_platform) (the (ta_mutex sim_tach_actions)) (?a1, ?n)))) = mot sim_firmware_node"
    by (simp add: tach_action_mark_complete_def node_tach_ops_def sim_platform_def still_tach_ops_def sim_firmware_node_def)
  moreover have "e = ESP_OK" using c e by simp
  ultimately show ?thesis using c e by metis
qed

section \<open>A stuck action\<close>

lemma and_then_Continues: "and_then x Continues = x"
  by (cases x) simp_all

lemma older_le: "0 \<le> t \<Longrightarrow> foldl older_action t slots \<ge> 0 \<and> (0 < t \<longrightarrow> 0 < foldl older_action t slots \<and> foldl older_action t slots \<le> t) \<and>
    (\<forall>slot \<in> set slots. pa_pending slot \<and> 0 < pa_queued_at_us slot \<longrightarrow>
       0 < foldl older_action t slots \<and> foldl older_action t slots \<le> pa_queued_at_us slot)"
proof (induction slots arbitrary: t)
  case (Cons slot slots)
  have s: "0 \<le> older_action t slot" "0 < t \<Longrightarrow> 0 < older_action t slot \<and> older_action t slot \<le> t"
      "pa_pending slot \<Longrightarrow> 0 < pa_queued_at_us slot \<Longrightarrow> 0 < older_action t slot \<and> older_action t slot \<le> pa_queued_at_us slot"
    using Cons.prems by (auto simp: older_action_def Let_def)
  show ?case using Cons.IH [OF s(1)] s(2,3) by fastforce
qed simp

text \<open>An action that does not end stops the node. If the response to a fault has been queued or in flight for
  longer than the supervisor allows, and the health that the action task reports is what the
  supervisor reads, then its check leaves the controller globally inhibited with every target zero,
  unless a restart was attempted within the retry period.\<close>

theorem stuck_tach_action_stops_node:
  assumes "motor_env kc ops" and "callbacks_calm kc (sv_callbacks (fst n))" and "good kc (mot n)"
    and "cb_read_tach_action_health (sv_callbacks (fst n)) = Some read"
    and "callback_io ops read n = (Some (tach_actions_read_health aops (a, k)), n1)" and "fst (restart_attempt_due now (fst n1))"
    and "0 \<le> ta_in_flight_since_us a" and "0 < t"
    and "ta_in_flight_since_us a = t \<or> (\<exists>slot \<in> set (ta_pending a). pa_pending slot \<and> pa_queued_at_us slot = t)"
    and "max (CONFIG_SUPERVISOR_AUX_HEARTBEAT_TIMEOUT_MS kc) SAFETY_TACH_ACTION_TIMEOUT_MS * 1000 < now - t"
  shows "s_global_inhibited (mot (supervised_node (check_tach_action kc ops now n))) \<and>
    (\<forall>i < 4. mc_target_pct (motor (mot (supervised_node (check_tach_action kc ops now n))) i) = 0)"
proof -
  let ?health = "tach_actions_read_health aops (a, k)"
    and ?timeout = "max (CONFIG_SUPERVISOR_AUX_HEARTBEAT_TIMEOUT_MS kc) SAFETY_TACH_ACTION_TIMEOUT_MS"
  note env = motor_env_stable [OF assms(1)]
  have "0 < tah_oldest_action_since_us ?health \<and> tah_oldest_action_since_us ?health \<le> t"
    using older_le [OF assms(7), of "ta_pending a"] assms(8,9) by (auto simp: tach_actions_read_health_def)
  moreover have "0 \<le> ?timeout" by (simp add: SAFETY_TACH_ACTION_TIMEOUT_MS_def)
  ultimately have bad: "0 < tah_oldest_action_since_us ?health \<and> now > tah_oldest_action_since_us ?health \<and>
      now - tah_oldest_action_since_us ?health > ?timeout * 1000" using assms(10) by linarith
  have "check_tach_action kc ops now n =
      and_then (liveness_check kc ops now True (\<lambda>s. s\<lparr>sv_tach_liveness_fault := True\<rparr>) ''tach safety-action task expired'' n1) Continues"
    using bad unfolding check_tach_action_def assms(4) option.case assms(5) prod.case Let_def max_def
    by (auto simp: and_then_Continues split: if_splits)
  moreover obtain s m w where n1: "n1 = (s, m, w)" by (metis prod_cases3)
  have "safe kc latched (callback_io ops read)"
    using assms(2,4) calm_stable by (intro callback_io_safe env) (auto simp: callbacks_calm_def)
  from safeD [OF this assms(5)] have k: "kept kc latched n n1" .
  have c: "stable_callbacks kc latched (sv_callbacks s)" using callbacks_calm_stable [OF assms(2)] kept_callbacks [OF k] n1 by simp
  have g: "good kc m" using kept_good [OF k assms(3)] n1 by simp
  ultimately have "good kc (mot (supervised_node (check_tach_action kc ops now n))) \<and> latched (mot (supervised_node (check_tach_action kc ops now n)))"
    using latch.expired_latches [OF env c g _ _ _ latch.watch_Continues, where now = now and w = w] assms(6) n1 by simp
  then show ?thesis using latched_zero by blast
qed


text \<open>The simulated stall, twelve seconds after it was queued.\<close>

definition sim_read_health :: "motor_state \<times> bool list \<Rightarrow> safety_supervisor_tach_action_health option \<times> (motor_state \<times> bool list)" where
  "sim_read_health x = (Some (tach_actions_read_health still_tach_ops (sim_tach_actions, ())), x)"

theorem stuck_tach_action_stops_node_witness:
  "s_global_inhibited (mot (supervised_node (check_tach_action safety_sim_kconfig safety_sim_ops 20000000
     (safety_sim_state\<lparr>sv_callbacks := safety_sim_callbacks\<lparr>cb_read_tach_action_health := Some sim_read_health\<rparr>\<rparr>, sim_running, []))))"
proof -
  let ?n = "(safety_sim_state\<lparr>sv_callbacks := safety_sim_callbacks\<lparr>cb_read_tach_action_health := Some sim_read_health\<rparr>\<rparr>, sim_running, [])"
  have c: "callbacks_calm safety_sim_kconfig (sv_callbacks (fst ?n))"
    by (simp add: callbacks_calm_def calm_def safety_sim_callbacks_def sim_read_health_def)
  have g: "good safety_sim_kconfig (mot ?n)" using safety_sim_good [of "[]"] by (simp add: safety_sim_node_def)
  have r: "callback_io safety_sim_ops sim_read_health ?n = (Some (tach_actions_read_health still_tach_ops (sim_tach_actions, ())), ?n)"
    by (simp add: callback_io_def sim_read_health_def safety_sim_ops_def idle_safety_ops_def)
  have d: "fst (restart_attempt_due 20000000 (fst ?n))" by (simp add: restart_attempt_due_def Let_def safety_sim_state_def safety_boot_def)
  have "s_global_inhibited (mot (supervised_node (check_tach_action safety_sim_kconfig safety_sim_ops 20000000 ?n))) \<and>
    (\<forall>i < 4. mc_target_pct (motor (mot (supervised_node (check_tach_action safety_sim_kconfig safety_sim_ops 20000000 ?n))) i) = 0)"
    by (rule stuck_tach_action_stops_node [OF safety_sim_motor_env c g _ r d, where t = 8000000])
      (simp_all add: sim_tach_actions_def tach_actions_boot_def safety_sim_kconfig_def SAFETY_TACH_ACTION_TIMEOUT_MS_def)
  then show ?thesis by blast
qed

end
