(* ===== verification/Mqtt_Manager.thy ===== *)
theory Mqtt_Manager imports App_Config Platform "HOL-Library.State_Monad"
begin

text \<open>
  \<open>main/mqtt_manager.c\<close>: the MQTT client's life cycle, the assembly of commands from their fragments,
  the queue between ESP-MQTT's event task and the dispatch task, and the fence that orders command
  commits with changes of the connection. The static variables are the fields of \<open>mqtt_manager\<close>; the
  functions are programs of the state monad over it and the rest of the world. What ESP-MQTT, FreeRTOS
  and the clock provide are the fields of \<open>mqtt_ops\<close>. Other tasks run after every critical section
  (\<open>mqo_others\<close>), and inside the calls that block, which act on the module's state too. A section
  under \<open>s_lock\<close> is one definition of its own, applied by \<open>critical\<close>.
\<close>

section \<open>Data\<close>

definition MQTT_MANAGER_TOPIC_CAPACITY :: nat where "MQTT_MANAGER_TOPIC_CAPACITY = 192"
definition MQTT_MANAGER_PAYLOAD_CAPACITY :: nat where "MQTT_MANAGER_PAYLOAD_CAPACITY = 768"
definition MQTT_MANAGER_MAX_PENDING_SUBSCRIPTIONS :: nat where "MQTT_MANAGER_MAX_PENDING_SUBSCRIPTIONS = 32"
definition MQTT_MANAGER_STOPPED_REBUILD_GRACE_US :: int where "MQTT_MANAGER_STOPPED_REBUILD_GRACE_US = 250000"
definition MQTT_MANAGER_COMMAND_QUEUE_DEPTH :: nat where "MQTT_MANAGER_COMMAND_QUEUE_DEPTH = 8"
definition MQTT_MANAGER_DISPATCH_HEARTBEAT_MS :: u32 where "MQTT_MANAGER_DISPATCH_HEARTBEAT_MS = 250"
definition MQTT_CLIENT_ID_CAPACITY :: nat where "MQTT_CLIENT_ID_CAPACITY = 64"

record mqtt_rx_assembly =
  rx_topic :: string
  rx_payload :: "char list"
  rx_total_len :: int
  rx_next_offset :: int
  rx_connection_generation :: u32
  rx_retained :: bool
  rx_dropping :: bool

record mqtt_dispatch_message =
  dm_topic :: string
  dm_payload :: "char list"
  dm_payload_length :: nat
  dm_connection_generation :: u32
  dm_dispatch_sequence :: u32
  dm_queued_at_us :: int
  dm_pending_slot :: u8
  dm_retained :: bool

record mqtt_dispatch_pending_record =
  dp_occupied :: bool
  dp_sequence :: u32
  dp_queued_at_us :: int

record mqtt_manager_command_session =
  ses_connection_generation :: u32

record mqtt_manager =
  mm_initialized :: bool
  mm_initializing :: bool
  mm_starting :: bool
  mm_client :: "nat option"
  mm_message_callback :: "nat option"
  mm_callback_context :: "nat option"
  mm_dispatch_queue :: "nat option"
  mm_dispatch_task :: "nat option"
  mm_lifecycle_mutex :: "nat option"
  mm_command_commit_mutex :: "nat option"
  mm_connected :: bool
  mm_ready :: bool
  mm_initial_publish_pending :: bool
  mm_disconnect_requested :: bool
  mm_subscription_setup_failed :: bool
  mm_last_ack_us :: int
  mm_last_rx_us :: int
  mm_connected_since_us :: int
  mm_puback_count :: u32
  mm_publish_failures :: u32
  mm_suback_count :: u32
  mm_connect_count :: u32
  mm_connection_generation :: u32
  mm_command_dispatch_count :: u32
  mm_command_dispatch_ready :: bool
  mm_command_dispatch_heartbeat_us :: int
  mm_command_in_flight_since_us :: int
  mm_next_dispatch_sequence :: u32
  mm_dispatch_pending :: "mqtt_dispatch_pending_record list"
  mm_command_queue_drops :: u32
  mm_stale_command_drops :: u32
  mm_dispatch_allocation_failures :: u32
  mm_stopped_state_since_us :: int
  mm_pending_sub_ids :: "int list"
  mm_pending_sub_count :: nat
  mm_rx :: mqtt_rx_assembly
  mm_dispatch_scratch :: mqtt_dispatch_message
  mm_client_id :: string
  mm_availability_topic :: string

definition rx_zero :: mqtt_rx_assembly where
  "rx_zero = \<lparr>rx_topic = [], rx_payload = replicate MQTT_MANAGER_PAYLOAD_CAPACITY NUL, rx_total_len = 0, rx_next_offset = 0,
     rx_connection_generation = 0, rx_retained = False, rx_dropping = False\<rparr>"

definition dispatch_message_zero :: mqtt_dispatch_message where
  "dispatch_message_zero = \<lparr>dm_topic = [], dm_payload = replicate MQTT_MANAGER_PAYLOAD_CAPACITY NUL, dm_payload_length = 0,
     dm_connection_generation = 0, dm_dispatch_sequence = 0, dm_queued_at_us = 0, dm_pending_slot = 0, dm_retained = False\<rparr>"

definition dispatch_pending_zero :: mqtt_dispatch_pending_record where
  "dispatch_pending_zero = \<lparr>dp_occupied = False, dp_sequence = 0, dp_queued_at_us = 0\<rparr>"

definition mqtt_manager_boot :: mqtt_manager where
  "mqtt_manager_boot = \<lparr>mm_initialized = False, mm_initializing = False, mm_starting = False, mm_client = None,
     mm_message_callback = None, mm_callback_context = None, mm_dispatch_queue = None, mm_dispatch_task = None,
     mm_lifecycle_mutex = None, mm_command_commit_mutex = None, mm_connected = False, mm_ready = False,
     mm_initial_publish_pending = False, mm_disconnect_requested = False, mm_subscription_setup_failed = False,
     mm_last_ack_us = 0, mm_last_rx_us = 0, mm_connected_since_us = 0, mm_puback_count = 0, mm_publish_failures = 0,
     mm_suback_count = 0, mm_connect_count = 0, mm_connection_generation = 0, mm_command_dispatch_count = 0,
     mm_command_dispatch_ready = False, mm_command_dispatch_heartbeat_us = 0, mm_command_in_flight_since_us = 0,
     mm_next_dispatch_sequence = 0,
     mm_dispatch_pending = replicate MQTT_MANAGER_COMMAND_QUEUE_DEPTH dispatch_pending_zero,
     mm_command_queue_drops = 0, mm_stale_command_drops = 0, mm_dispatch_allocation_failures = 0,
     mm_stopped_state_since_us = 0, mm_pending_sub_ids = replicate MQTT_MANAGER_MAX_PENDING_SUBSCRIPTIONS 0,
     mm_pending_sub_count = 0, mm_rx = rx_zero, mm_dispatch_scratch = dispatch_message_zero, mm_client_id = [],
     mm_availability_topic = []\<rparr>"

text \<open>The build options, and the configuration \<open>app_config_init\<close> left.\<close>

record mqtt_kconfig =
  mqk_broker_uri :: string
  mqk_username :: string
  mqk_password :: string
  mqk_outbox_limit_bytes :: int
  mqk_subscribe_timeout_ms :: int
  mqk_tach_feedback :: bool
  mqk_legacy_topics :: bool
  mqk_ota :: bool
  mqk_schedule :: bool
  mqk_app_config :: app_config_state

section \<open>ESP-MQTT, FreeRTOS and the clock\<close>

datatype mqtt_event_id = MQTT_EVENT_CONNECTED | MQTT_EVENT_SUBSCRIBED | MQTT_EVENT_PUBLISHED |
  MQTT_EVENT_DISCONNECTED | MQTT_EVENT_DATA | MQTT_EVENT_ERROR | MQTT_EVENT_OTHER

datatype mqtt_error_type = MQTT_ERROR_TYPE_SUBSCRIBE_FAILED | MQTT_ERROR_TYPE_OTHER

datatype mqtt_client_state = MQTT_CLIENT_STATE_CONNECTED | MQTT_CLIENT_STATE_WAITING_RECONNECT |
  MQTT_CLIENT_STATE_NOT_STARTED | MQTT_CLIENT_STATE_OTHER

record mqtt_event =
  ev_client :: "nat option"
  ev_msg_id :: int
  ev_topic :: "char list option"
  ev_topic_len :: int
  ev_data :: "char list option"
  ev_data_len :: int
  ev_total_data_len :: int
  ev_current_data_offset :: int
  ev_retain :: bool
  ev_error_handle :: "mqtt_error_type option"

record mqtt_client_config =
  mcc_uri :: string
  mcc_username :: "string option"
  mcc_password :: "string option"
  mcc_client_id :: string
  mcc_keepalive :: int
  mcc_reconnect_timeout_ms :: int
  mcc_network_timeout_ms :: int
  mcc_outbox_limit :: int
  mcc_last_will_topic :: string
  mcc_last_will_msg :: string
  mcc_last_will_msg_len :: int
  mcc_last_will_qos :: int
  mcc_last_will_retain :: bool
  mcc_crt_bundle_attach :: bool

record 'w mqtt_ops =
  mqo_others :: "mqtt_manager \<times> 'w \<Rightarrow> mqtt_manager \<times> 'w"
  mqo_create_mutex :: "'w \<Rightarrow> nat option \<times> 'w"
  mqo_delete_mutex :: "nat \<Rightarrow> 'w \<Rightarrow> 'w"
  mqo_take :: "nat \<Rightarrow> u32 \<Rightarrow> mqtt_manager \<times> 'w \<Rightarrow> bool \<times> (mqtt_manager \<times> 'w)"
  mqo_give :: "nat \<Rightarrow> 'w \<Rightarrow> 'w"
  mqo_queue_create :: "nat \<Rightarrow> 'w \<Rightarrow> nat option \<times> 'w"
  mqo_queue_delete :: "nat \<Rightarrow> 'w \<Rightarrow> 'w"
  mqo_queue_send :: "nat \<Rightarrow> mqtt_dispatch_message \<Rightarrow> 'w \<Rightarrow> bool \<times> 'w"
  mqo_queue_receive :: "nat \<Rightarrow> u32 \<Rightarrow> mqtt_manager \<times> 'w \<Rightarrow> mqtt_dispatch_message option \<times> (mqtt_manager \<times> 'w)"
  mqo_queue_waiting :: "nat \<Rightarrow> 'w \<Rightarrow> nat"
  mqo_task_create :: "nat \<Rightarrow> 'w \<Rightarrow> nat option \<times> 'w"
  mqo_stack_bytes :: "nat \<Rightarrow> 'w \<Rightarrow> u32"
  mqo_ms_to_ticks :: "u32 \<Rightarrow> u32"
  mqo_delay :: "u32 \<Rightarrow> mqtt_manager \<times> 'w \<Rightarrow> mqtt_manager \<times> 'w"
  mqo_timer_us :: "'w \<Rightarrow> int \<times> 'w"
  mqo_time :: "'w \<Rightarrow> int \<times> 'w"
  mqo_client_init :: "mqtt_client_config \<Rightarrow> 'w \<Rightarrow> nat option \<times> 'w"
  mqo_register_event :: "nat \<Rightarrow> 'w \<Rightarrow> esp_err \<times> 'w"
  mqo_client_start :: "nat \<Rightarrow> mqtt_manager \<times> 'w \<Rightarrow> esp_err \<times> (mqtt_manager \<times> 'w)"
  mqo_client_destroy :: "nat \<Rightarrow> mqtt_manager \<times> 'w \<Rightarrow> mqtt_manager \<times> 'w"
  mqo_get_state :: "nat \<Rightarrow> 'w \<Rightarrow> mqtt_client_state \<times> 'w"
  mqo_subscribe_single :: "nat \<Rightarrow> string \<Rightarrow> int \<Rightarrow> mqtt_manager \<times> 'w \<Rightarrow> int \<times> (mqtt_manager \<times> 'w)"
  mqo_client_publish :: "nat \<Rightarrow> string \<Rightarrow> string \<Rightarrow> int \<Rightarrow> int \<Rightarrow> bool \<Rightarrow> mqtt_manager \<times> 'w \<Rightarrow> int \<times> (mqtt_manager \<times> 'w)"
  mqo_client_disconnect :: "nat \<Rightarrow> mqtt_manager \<times> 'w \<Rightarrow> mqtt_manager \<times> 'w"
  mqo_outbox_size :: "nat \<Rightarrow> 'w \<Rightarrow> int"
  mqo_call_callback :: "nat \<Rightarrow> nat option \<Rightarrow> string \<Rightarrow> char list \<Rightarrow> nat \<Rightarrow> bool \<Rightarrow> mqtt_manager_command_session \<Rightarrow>
    mqtt_manager \<times> 'w \<Rightarrow> (mqtt_manager \<times> 'w) option"

type_synonym ('w, 'r) mqtt_program = "(mqtt_manager \<times> 'w, 'r) state"

text \<open>A critical section, after which the other tasks may run; a call that does not touch the module's
  state; and one during which other tasks run.\<close>

definition critical :: "'w mqtt_ops \<Rightarrow> (mqtt_manager \<Rightarrow> 'r \<times> mqtt_manager) \<Rightarrow> ('w, 'r) mqtt_program" where
  "critical ops f = State (\<lambda>(m, w). case f m of (r, m') \<Rightarrow> (r, mqo_others ops (m', w)))"

definition call :: "('w \<Rightarrow> 'r \<times> 'w) \<Rightarrow> ('w, 'r) mqtt_program" where
  "call f = State (\<lambda>(m, w). case f w of (r, w') \<Rightarrow> (r, (m, w')))"

definition tell :: "('w \<Rightarrow> 'w) \<Rightarrow> ('w, unit) mqtt_program" where
  "tell f = call (\<lambda>w. ((), f w))"

definition blocking :: "(mqtt_manager \<times> 'w \<Rightarrow> mqtt_manager \<times> 'w) \<Rightarrow> ('w, unit) mqtt_program" where
  "blocking f = State (\<lambda>n. ((), f n))"

definition preempt :: "'w mqtt_ops \<Rightarrow> ('w, unit) mqtt_program" where
  "preempt ops = blocking (mqo_others ops)"

definition edit :: "(mqtt_manager \<Rightarrow> mqtt_manager) \<Rightarrow> mqtt_manager \<Rightarrow> unit \<times> mqtt_manager" where
  "edit f m = ((), f m)"

definition peek :: "(mqtt_manager \<Rightarrow> 'r) \<Rightarrow> mqtt_manager \<Rightarrow> 'r \<times> mqtt_manager" where
  "peek f m = (f m, m)"

fun for_each :: "('a \<Rightarrow> ('w, unit) mqtt_program) \<Rightarrow> 'a list \<Rightarrow> ('w, unit) mqtt_program" where
  "for_each body [] = State_Monad.return ()"
| "for_each body (x # xs) = do { body x; for_each body xs }"

section \<open>The fence and small helpers\<close>

definition mqtt_manager_lock_command_commits :: "'w mqtt_ops \<Rightarrow> ('w, nat option) mqtt_program" where
  "mqtt_manager_lock_command_commits ops = do {
     mutex \<leftarrow> critical ops (peek mm_command_commit_mutex);
     (case mutex of None \<Rightarrow> State_Monad.return None
      | Some handle \<Rightarrow> do {
          taken \<leftarrow> State (mqo_take ops handle portMAX_DELAY);
          State_Monad.return (if taken then Some handle else None) }) }"

definition mqtt_manager_unlock_command_commits :: "'w mqtt_ops \<Rightarrow> nat option \<Rightarrow> ('w, unit) mqtt_program" where
  "mqtt_manager_unlock_command_commits ops mutex =
     (case mutex of None \<Rightarrow> State_Monad.return () | Some handle \<Rightarrow> do { tell (mqo_give ops handle); preempt ops })"

definition mqtt_manager_system_time_valid_for_tls :: "'w mqtt_ops \<Rightarrow> ('w, bool) mqtt_program" where
  "mqtt_manager_system_time_valid_for_tls ops = do {
     now \<leftarrow> call (mqo_time ops);
     State_Monad.return (1704067200 \<le> now) }"

definition mqtt_manager_rx_reset :: "mqtt_manager \<Rightarrow> mqtt_manager" where
  "mqtt_manager_rx_reset m = m\<lparr>mm_rx := rx_zero\<rparr>"

definition mark_failure_section :: "mqtt_manager \<Rightarrow> mqtt_manager" where
  "mark_failure_section m = m\<lparr>mm_subscription_setup_failed := True, mm_disconnect_requested := True\<rparr>"

definition mqtt_manager_mark_subscription_failure :: "'w mqtt_ops \<Rightarrow> ('w, unit) mqtt_program" where
  "mqtt_manager_mark_subscription_failure ops = critical ops (edit mark_failure_section)"

section \<open>The dispatch task\<close>

text \<open>The pending slot of a command, emptied unless another command took it over.\<close>

definition release_pending :: "nat \<Rightarrow> u32 \<Rightarrow> mqtt_manager \<Rightarrow> mqtt_manager" where
  "release_pending slot sequence m =
     (let record = mm_dispatch_pending m ! slot
      in if dp_occupied record \<and> dp_sequence record = sequence
         then m\<lparr>mm_dispatch_pending := (mm_dispatch_pending m)[slot := dispatch_pending_zero]\<rparr> else m)"

definition dispatch_heartbeat_section :: "int \<Rightarrow> mqtt_manager \<Rightarrow> mqtt_manager" where
  "dispatch_heartbeat_section now m = m\<lparr>mm_command_dispatch_heartbeat_us := now\<rparr>"

definition session_current :: "mqtt_manager_command_session \<Rightarrow> mqtt_manager \<Rightarrow> bool" where
  "session_current session m \<longleftrightarrow>
     mm_connected m \<and> mm_ready m \<and> ses_connection_generation session = mm_connection_generation m"

definition dispatch_claim_section :: "mqtt_dispatch_message \<Rightarrow> mqtt_manager \<Rightarrow>
    (nat \<times> nat option) option \<times> mqtt_manager" where
  "dispatch_claim_section message m =
     (let m1 = (if unat (dm_pending_slot message) < MQTT_MANAGER_COMMAND_QUEUE_DEPTH
                then release_pending (unat (dm_pending_slot message)) (dm_dispatch_sequence message) m else m);
          m2 = m1\<lparr>mm_command_in_flight_since_us := dm_queued_at_us message\<rparr>
      in case mm_message_callback m2 of
           Some callback \<Rightarrow>
             if session_current \<lparr>ses_connection_generation = dm_connection_generation message\<rparr> m2
             then (Some (callback, mm_callback_context m2), m2)
             else (None, m2\<lparr>mm_stale_command_drops := mm_stale_command_drops m2 + 1\<rparr>)
         | None \<Rightarrow> (None, m2\<lparr>mm_stale_command_drops := mm_stale_command_drops m2 + 1\<rparr>))"

definition dispatch_idle_section :: "int \<Rightarrow> mqtt_manager \<Rightarrow> mqtt_manager" where
  "dispatch_idle_section now m = m\<lparr>mm_command_in_flight_since_us := 0, mm_command_dispatch_heartbeat_us := now\<rparr>"

definition dispatch_done_section :: "int \<Rightarrow> mqtt_manager \<Rightarrow> mqtt_manager" where
  "dispatch_done_section now m =
     dispatch_idle_section now (m\<lparr>mm_command_dispatch_count := mm_command_dispatch_count m + 1\<rparr>)"

definition mqtt_manager_dispatch_task_start :: "'w mqtt_ops \<Rightarrow> ('w, unit) mqtt_program" where
  "mqtt_manager_dispatch_task_start ops = do {
     now \<leftarrow> call (mqo_timer_us ops);
     critical ops (edit (\<lambda>m. m\<lparr>mm_command_dispatch_ready := True, mm_command_dispatch_heartbeat_us := now\<rparr>)) }"

text \<open>An iteration up to the call of the message callback, and from its return on; the callback may not
  return, which is \<open>None\<close>.\<close>

definition dispatch_take :: "'w mqtt_ops \<Rightarrow> nat \<Rightarrow> ('w, (mqtt_dispatch_message \<times> nat \<times> nat option) option) mqtt_program" where
  "dispatch_take ops queue = do {
     received \<leftarrow> State (mqo_queue_receive ops queue (mqo_ms_to_ticks ops MQTT_MANAGER_DISPATCH_HEARTBEAT_MS));
     (case received of
        None \<Rightarrow> do {
          now \<leftarrow> call (mqo_timer_us ops);
          critical ops (edit (dispatch_heartbeat_section now));
          State_Monad.return None }
      | Some message \<Rightarrow> do {
          claimed \<leftarrow> critical ops (dispatch_claim_section message);
          (case claimed of
             None \<Rightarrow> do {
               now \<leftarrow> call (mqo_timer_us ops);
               critical ops (edit (dispatch_idle_section now));
               State_Monad.return None }
           | Some callback \<Rightarrow> State_Monad.return (Some (message, callback))) }) }"

definition dispatch_finish :: "'w mqtt_ops \<Rightarrow> ('w, unit) mqtt_program" where
  "dispatch_finish ops = do {
     now \<leftarrow> call (mqo_timer_us ops);
     critical ops (edit (dispatch_done_section now)) }"

definition mqtt_manager_dispatch_iteration :: "'w mqtt_ops \<Rightarrow> nat \<Rightarrow> mqtt_manager \<times> 'w \<Rightarrow> (mqtt_manager \<times> 'w) option" where
  "mqtt_manager_dispatch_iteration ops queue n =
     (case run_state (dispatch_take ops queue) n of
        (None, n1) \<Rightarrow> Some n1
      | (Some (message, callback, context'), n1) \<Rightarrow>
          (case mqo_call_callback ops callback context' (dm_topic message) (dm_payload message) (dm_payload_length message)
             (dm_retained message) \<lparr>ses_connection_generation = dm_connection_generation message\<rparr> n1 of
             None \<Rightarrow> None
           | Some n2 \<Rightarrow> Some (snd (run_state (dispatch_finish ops) n2))))"

section \<open>Into the queue\<close>

definition next_sequence :: "u32 \<Rightarrow> u32" where
  "next_sequence n = (if n + 1 = 0 then n + 2 else n + 1)"

definition enqueue_claim_section :: "nat option \<Rightarrow> u32 \<Rightarrow> int \<Rightarrow> mqtt_manager \<Rightarrow>
    (bool \<times> nat option \<times> nat option \<times> u32) \<times> mqtt_manager" where
  "enqueue_claim_section source_client source_generation queued_at_us m =
     (let current = (source_client = mm_client m \<and> mm_connected m \<and> mm_ready m \<and>
                     source_generation = mm_connection_generation m);
          queue = mm_dispatch_queue m
      in if \<not> current then ((False, queue, None, 0), m\<lparr>mm_stale_command_drops := mm_stale_command_drops m + 1\<rparr>)
         else if queue = None then ((True, queue, None, 0), m)
         else case find (\<lambda>i. \<not> dp_occupied (mm_dispatch_pending m ! i)) [0..<MQTT_MANAGER_COMMAND_QUEUE_DEPTH] of
           None \<Rightarrow> ((True, queue, None, 0), m)
         | Some slot \<Rightarrow>
           (let sequence = next_sequence (mm_next_dispatch_sequence m)
            in ((True, queue, Some slot, sequence),
                m\<lparr>mm_next_dispatch_sequence := sequence,
                  mm_dispatch_pending := (mm_dispatch_pending m)[slot :=
                    \<lparr>dp_occupied = True, dp_sequence = sequence, dp_queued_at_us = queued_at_us\<rparr>]\<rparr>)))"

text \<open>\<open>memcpy\<close> into a buffer at an offset.\<close>

definition copy_at :: "nat \<Rightarrow> char list \<Rightarrow> char list \<Rightarrow> char list" where
  "copy_at offset bytes buffer = take offset buffer @ bytes @ drop (offset + length bytes) buffer"

definition fill_dispatch_scratch :: "nat option \<Rightarrow> u32 \<Rightarrow> int \<Rightarrow> mqtt_manager \<Rightarrow> mqtt_dispatch_message \<times> mqtt_manager" where
  "fill_dispatch_scratch pending_slot dispatch_sequence queued_at_us m =
     (let rx = mm_rx m;
          message = \<lparr>dm_topic = rx_topic rx,
            dm_payload = copy_at 0 (take (nat (rx_total_len rx) + 1) (rx_payload rx)) (dm_payload (mm_dispatch_scratch m)),
            dm_payload_length = nat (rx_total_len rx), dm_connection_generation = rx_connection_generation rx,
            dm_dispatch_sequence = dispatch_sequence, dm_queued_at_us = queued_at_us,
            dm_pending_slot = (case pending_slot of None \<Rightarrow> 255 | Some slot \<Rightarrow> of_nat slot),
            dm_retained = rx_retained rx\<rparr>
      in (message, m\<lparr>mm_dispatch_scratch := message\<rparr>))"

definition enqueue_drop_section :: "nat option \<Rightarrow> u32 \<Rightarrow> mqtt_manager \<Rightarrow> mqtt_manager" where
  "enqueue_drop_section pending_slot dispatch_sequence m =
     (let m1 = (case pending_slot of None \<Rightarrow> m | Some slot \<Rightarrow> release_pending slot dispatch_sequence m)
      in m1\<lparr>mm_command_queue_drops := mm_command_queue_drops m1 + 1, mm_ready := False, mm_disconnect_requested := True,
            mm_connection_generation := mm_connection_generation m1 + 1\<rparr>)"

definition mqtt_manager_enqueue_assembled_message :: "'w mqtt_ops \<Rightarrow> nat option \<Rightarrow> u32 \<Rightarrow> ('w, unit) mqtt_program" where
  "mqtt_manager_enqueue_assembled_message ops source_client source_generation = do {
     commit_mutex \<leftarrow> mqtt_manager_lock_command_commits ops;
     queued_at_us \<leftarrow> call (mqo_timer_us ops);
     claim \<leftarrow> critical ops (enqueue_claim_section source_client source_generation queued_at_us);
     (case claim of (current, queue, pending_slot, dispatch_sequence) \<Rightarrow>
        if \<not> current then mqtt_manager_unlock_command_commits ops commit_mutex
        else do {
          message \<leftarrow> critical ops (fill_dispatch_scratch pending_slot dispatch_sequence queued_at_us);
          sent \<leftarrow> (if queue = None \<or> pending_slot = None then State_Monad.return False
                  else call (mqo_queue_send ops (the queue) message));
          (if sent then preempt ops else critical ops (edit (enqueue_drop_section pending_slot dispatch_sequence)));
          mqtt_manager_unlock_command_commits ops commit_mutex }) }"

section \<open>Subscriptions\<close>

definition subscribe_record_section :: "int \<Rightarrow> mqtt_manager \<Rightarrow> bool \<times> mqtt_manager" where
  "subscribe_record_section message_id m =
     (if mm_pending_sub_count m < MQTT_MANAGER_MAX_PENDING_SUBSCRIPTIONS
      then (True, m\<lparr>mm_pending_sub_ids := (mm_pending_sub_ids m)[mm_pending_sub_count m := message_id],
                    mm_pending_sub_count := mm_pending_sub_count m + 1\<rparr>)
      else (False, mark_failure_section m))"

definition mqtt_manager_subscribe_required :: "'w mqtt_ops \<Rightarrow> nat option \<Rightarrow> string \<Rightarrow> ('w, bool) mqtt_program" where
  "mqtt_manager_subscribe_required ops client topic =
     (case client of
        None \<Rightarrow> do { mqtt_manager_mark_subscription_failure ops; State_Monad.return False }
      | Some handle \<Rightarrow>
        if topic = [] then do { mqtt_manager_mark_subscription_failure ops; State_Monad.return False }
        else do {
          capacity_available \<leftarrow> critical ops (peek (\<lambda>m. mm_pending_sub_count m < MQTT_MANAGER_MAX_PENDING_SUBSCRIPTIONS));
          if \<not> capacity_available then do { mqtt_manager_mark_subscription_failure ops; State_Monad.return False }
          else do {
            message_id \<leftarrow> State (mqo_subscribe_single ops handle topic 1);
            if message_id < 0 then do { mqtt_manager_mark_subscription_failure ops; State_Monad.return False }
            else critical ops (subscribe_record_section message_id) } })"

text \<open>A format is the function that renders its one argument.\<close>

definition mqtt_manager_subscribe_formatted :: "'w mqtt_ops \<Rightarrow> nat option \<Rightarrow> string option \<Rightarrow> ('w, bool) mqtt_program" where
  "mqtt_manager_subscribe_formatted ops client topic =
     (case topic of None \<Rightarrow> do { mqtt_manager_mark_subscription_failure ops; State_Monad.return False }
      | Some t \<Rightarrow> mqtt_manager_subscribe_required ops client t)"

definition mqtt_manager_subscribe_node :: "mqtt_kconfig \<Rightarrow> 'w mqtt_ops \<Rightarrow> nat option \<Rightarrow> (int \<Rightarrow> string) \<Rightarrow> int \<Rightarrow> ('w, bool) mqtt_program" where
  "mqtt_manager_subscribe_node k ops client suffix_format fan_index =
     mqtt_manager_subscribe_formatted ops client
       (app_config_format_node_topic (mqk_app_config k) MQTT_MANAGER_TOPIC_CAPACITY (Some (suffix_format fan_index)))"

definition mqtt_manager_subscribe_legacy :: "mqtt_kconfig \<Rightarrow> 'w mqtt_ops \<Rightarrow> nat option \<Rightarrow> (int \<Rightarrow> string) \<Rightarrow> int \<Rightarrow> ('w, bool) mqtt_program" where
  "mqtt_manager_subscribe_legacy k ops client suffix_format fan_index =
     mqtt_manager_subscribe_formatted ops client
       (app_config_format_legacy_topic (mqk_app_config k) MQTT_MANAGER_TOPIC_CAPACITY (Some (suffix_format fan_index)))"

definition mqtt_manager_subscribe_node_literal :: "mqtt_kconfig \<Rightarrow> 'w mqtt_ops \<Rightarrow> nat option \<Rightarrow> string \<Rightarrow> ('w, bool) mqtt_program" where
  "mqtt_manager_subscribe_node_literal k ops client suffix =
     mqtt_manager_subscribe_formatted ops client
       (app_config_format_node_topic (mqk_app_config k) MQTT_MANAGER_TOPIC_CAPACITY (Some suffix))"

definition mqtt_manager_subscribe_legacy_literal :: "mqtt_kconfig \<Rightarrow> 'w mqtt_ops \<Rightarrow> nat option \<Rightarrow> string \<Rightarrow> ('w, bool) mqtt_program" where
  "mqtt_manager_subscribe_legacy_literal k ops client suffix =
     mqtt_manager_subscribe_formatted ops client
       (app_config_format_legacy_topic (mqk_app_config k) MQTT_MANAGER_TOPIC_CAPACITY (Some suffix))"

definition fan_suffix :: "string \<Rightarrow> int \<Rightarrow> string" where
  "fan_suffix rest fan_index = ''fan'' @ nat_str (nat fan_index) @ rest"

definition schedule_suffixes :: "string list" where
  "schedule_suffixes = [''schedule/+/+/set'', ''schedule/+/+/disable'', ''schedule/+/+/get'', ''schedule/override'']"

definition ignore_result :: "('w, 'r) mqtt_program \<Rightarrow> ('w, unit) mqtt_program" where
  "ignore_result p = do { p; State_Monad.return () }"

definition subscribe_when :: "bool \<Rightarrow> ('w, bool) mqtt_program \<Rightarrow> ('w, unit) mqtt_program" where
  "subscribe_when option p = (if option then ignore_result p else State_Monad.return ())"

definition subscribe_fan :: "mqtt_kconfig \<Rightarrow> 'w mqtt_ops \<Rightarrow> nat option \<Rightarrow> int \<Rightarrow> ('w, unit) mqtt_program" where
  "subscribe_fan k ops client fan_index = do {
     ignore_result (mqtt_manager_subscribe_node k ops client (fan_suffix ''/set'') fan_index);
     ignore_result (mqtt_manager_subscribe_node k ops client (fan_suffix ''/percentage/set'') fan_index);
     subscribe_when (mqk_tach_feedback k) (mqtt_manager_subscribe_node k ops client (fan_suffix ''/alarm/clear'') fan_index);
     subscribe_when (mqk_legacy_topics k) (mqtt_manager_subscribe_legacy k ops client (fan_suffix ''/set'') fan_index);
     subscribe_when (mqk_legacy_topics k) (mqtt_manager_subscribe_legacy k ops client (fan_suffix ''/percentage/set'') fan_index) }"

definition subscribe_schedule :: "mqtt_kconfig \<Rightarrow> 'w mqtt_ops \<Rightarrow> nat option \<Rightarrow> string \<Rightarrow> ('w, unit) mqtt_program" where
  "subscribe_schedule k ops client suffix = do {
     ignore_result (mqtt_manager_subscribe_node_literal k ops client suffix);
     subscribe_when (mqk_legacy_topics k) (mqtt_manager_subscribe_legacy_literal k ops client suffix) }"

definition subscribe_reset_section :: "mqtt_manager \<Rightarrow> mqtt_manager" where
  "subscribe_reset_section m = m\<lparr>mm_pending_sub_count := 0, mm_subscription_setup_failed := False\<rparr>"

definition mqtt_manager_subscribe_all :: "mqtt_kconfig \<Rightarrow> 'w mqtt_ops \<Rightarrow> nat option \<Rightarrow> ('w, unit) mqtt_program" where
  "mqtt_manager_subscribe_all k ops client = do {
     critical ops (edit subscribe_reset_section);
     (case app_config_get (mqk_app_config k) of
        None \<Rightarrow> mqtt_manager_mark_subscription_failure ops
      | Some config \<Rightarrow> do {
          for_each (\<lambda>i. subscribe_fan k ops client (fan_index_start config + int i)) [0..<nat (fan_count config)];
          subscribe_when (mqk_ota k) (mqtt_manager_subscribe_node_literal k ops client ''ota/update'');
          (if mqk_schedule k then for_each (subscribe_schedule k ops client) schedule_suffixes
           else State_Monad.return ()) }) }"

text \<open>\<open>mqtt_manager_remove_pending_subscription_locked\<close>: the last identifier takes the place of the one
  removed.\<close>

definition mqtt_manager_remove_pending_subscription_locked :: "int \<Rightarrow> mqtt_manager \<Rightarrow> bool \<times> mqtt_manager" where
  "mqtt_manager_remove_pending_subscription_locked message_id m =
     (case find (\<lambda>i. mm_pending_sub_ids m ! i = message_id) [0..<mm_pending_sub_count m] of
        None \<Rightarrow> (False, m)
      | Some i \<Rightarrow> (True, m\<lparr>mm_pending_sub_ids := (mm_pending_sub_ids m)[i := mm_pending_sub_ids m ! (mm_pending_sub_count m - 1)],
                          mm_pending_sub_count := mm_pending_sub_count m - 1\<rparr>))"

section \<open>Fragments\<close>

definition data_current_section :: "nat option \<Rightarrow> int \<Rightarrow> mqtt_manager \<Rightarrow> (bool \<times> u32) \<times> mqtt_manager" where
  "data_current_section client now m =
     (let current_client = (client = mm_client m \<and> mm_connected m \<and> mm_ready m)
      in ((current_client, mm_connection_generation m), if current_client then m\<lparr>mm_last_rx_us := now\<rparr> else m))"

definition invalid_topic :: "mqtt_event \<Rightarrow> bool" where
  "invalid_topic event \<longleftrightarrow>
     (case ev_topic event of None \<Rightarrow> True
      | Some topic \<Rightarrow> ev_topic_len event \<le> 0 \<or> int MQTT_MANAGER_TOPIC_CAPACITY \<le> ev_topic_len event \<or>
          NUL \<in> set (take (nat (ev_topic_len event)) topic))"

definition invalid_payload :: "mqtt_event \<Rightarrow> bool" where
  "invalid_payload event \<longleftrightarrow> int MQTT_MANAGER_PAYLOAD_CAPACITY \<le> ev_total_data_len event \<or>
     ev_total_data_len event < ev_data_len event \<or> (0 < ev_data_len event \<and> ev_data event = None)"

text \<open>The start of a message: the assembly, and whether the fragment has been dealt with.\<close>

definition rx_begin :: "mqtt_event \<Rightarrow> u32 \<Rightarrow> bool \<times> mqtt_rx_assembly" where
  "rx_begin event current_generation =
     (let total = ev_total_data_len event; chunk = ev_data_len event
      in if invalid_topic event \<or> invalid_payload event
         then (True, if chunk < total then rx_zero\<lparr>rx_dropping := True, rx_total_len := total, rx_next_offset := chunk\<rparr>
                     else rx_zero)
         else (False, rx_zero\<lparr>rx_topic := take (nat (ev_topic_len event)) (the (ev_topic event)), rx_total_len := total,
                        rx_connection_generation := current_generation, rx_retained := ev_retain event\<rparr>))"

text \<open>One fragment into the assembly, and whether it completes a message.\<close>

definition rx_accept :: "mqtt_event \<Rightarrow> u32 \<Rightarrow> mqtt_rx_assembly \<Rightarrow> bool \<times> mqtt_rx_assembly" where
  "rx_accept event current_generation rx =
     (let total = ev_total_data_len event; offset = ev_current_data_offset event; chunk = ev_data_len event
      in if rx_dropping rx then
           (if total \<noteq> rx_total_len rx \<or> offset \<noteq> rx_next_offset rx \<or> total < offset \<or> total - offset < chunk
            then (False, rx_zero)
            else (False, if rx_next_offset rx + chunk = total then rx_zero
                         else rx\<lparr>rx_next_offset := rx_next_offset rx + chunk\<rparr>))
         else if rx_topic rx = [] \<or> rx_connection_generation rx \<noteq> current_generation \<or> total \<noteq> rx_total_len rx \<or>
           offset \<noteq> rx_next_offset rx \<or> total < offset \<or> total - offset < chunk \<or> (0 < chunk \<and> ev_data event = None)
         then (False, rx_zero)
         else let payload = (if 0 < chunk then copy_at (nat offset) (take (nat chunk) (the (ev_data event))) (rx_payload rx)
                             else rx_payload rx);
                  rx1 = rx\<lparr>rx_payload := payload, rx_next_offset := rx_next_offset rx + chunk\<rparr>
              in if rx_next_offset rx1 = total then (True, rx1\<lparr>rx_payload := (rx_payload rx1)[nat total := NUL]\<rparr>)
                 else (False, rx1))"

definition rx_fragment :: "mqtt_event \<Rightarrow> u32 \<Rightarrow> mqtt_rx_assembly \<Rightarrow> bool \<times> mqtt_rx_assembly" where
  "rx_fragment event current_generation rx =
     (if ev_total_data_len event < 0 \<or> ev_current_data_offset event < 0 \<or> ev_data_len event < 0 then (False, rx_zero)
      else if ev_current_data_offset event = 0
      then (case rx_begin event current_generation of
              (True, rx1) \<Rightarrow> (False, rx1)
            | (False, rx1) \<Rightarrow> rx_accept event current_generation rx1)
      else rx_accept event current_generation rx)"

definition rx_section :: "mqtt_event \<Rightarrow> u32 \<Rightarrow> mqtt_manager \<Rightarrow> bool \<times> mqtt_manager" where
  "rx_section event current_generation m =
     (case rx_fragment event current_generation (mm_rx m) of (complete, rx) \<Rightarrow> (complete, m\<lparr>mm_rx := rx\<rparr>))"

definition mqtt_manager_handle_data_event :: "'w mqtt_ops \<Rightarrow> mqtt_event \<Rightarrow> ('w, unit) mqtt_program" where
  "mqtt_manager_handle_data_event ops event = do {
     now \<leftarrow> call (mqo_timer_us ops);
     (current_client, current_generation) \<leftarrow> critical ops (data_current_section (ev_client event) now);
     if \<not> current_client then State_Monad.return ()
     else do {
       complete \<leftarrow> critical ops (rx_section event current_generation);
       if \<not> complete then State_Monad.return ()
       else do {
         mqtt_manager_enqueue_assembled_message ops (ev_client event) current_generation;
         critical ops (edit mqtt_manager_rx_reset) } } }"

section \<open>Events of the client\<close>

definition connected_section :: "nat option \<Rightarrow> int \<Rightarrow> mqtt_manager \<Rightarrow> bool \<times> mqtt_manager" where
  "connected_section client now m =
     (if client \<noteq> mm_client m then (False, m)
      else (True, m\<lparr>mm_connected := True, mm_ready := False, mm_initial_publish_pending := False, mm_disconnect_requested := False,
                    mm_connected_since_us := now, mm_connect_count := mm_connect_count m + 1,
                    mm_connection_generation := mm_connection_generation m + 1\<rparr>))"

definition subscriptions_done_section :: "nat option \<Rightarrow> mqtt_manager \<Rightarrow> mqtt_manager" where
  "subscriptions_done_section client m =
     (if client = mm_client m \<and> (mm_subscription_setup_failed m \<or> mm_pending_sub_count m = 0)
      then m\<lparr>mm_disconnect_requested := True\<rparr> else m)"

definition connected_event :: "mqtt_kconfig \<Rightarrow> 'w mqtt_ops \<Rightarrow> mqtt_event \<Rightarrow> ('w, unit) mqtt_program" where
  "connected_event k ops event = do {
     now \<leftarrow> call (mqo_timer_us ops);
     commit_mutex \<leftarrow> mqtt_manager_lock_command_commits ops;
     current_client \<leftarrow> critical ops (connected_section (ev_client event) now);
     if \<not> current_client then mqtt_manager_unlock_command_commits ops commit_mutex
     else do {
       mqtt_manager_subscribe_all k ops (ev_client event);
       critical ops (edit (subscriptions_done_section (ev_client event)));
       mqtt_manager_unlock_command_commits ops commit_mutex } }"

text \<open>\<open>(uint8_t)data[i] >= 0x80\<close> is a return code of failure.\<close>

definition suback_accepted :: "mqtt_event \<Rightarrow> bool" where
  "suback_accepted event \<longleftrightarrow>
     (case ev_data event of None \<Rightarrow> False
      | Some data \<Rightarrow> 0 < ev_data_len event \<and> (\<forall>c \<in> set (take (nat (ev_data_len event)) data). chr_code c < 128)) \<and>
     ev_error_handle event \<noteq> Some MQTT_ERROR_TYPE_SUBSCRIBE_FAILED"

definition subscribed_section :: "mqtt_event \<Rightarrow> int \<Rightarrow> mqtt_manager \<Rightarrow> mqtt_manager" where
  "subscribed_section event now m =
     (if ev_client event \<noteq> mm_client m then m
      else case mqtt_manager_remove_pending_subscription_locked (ev_msg_id event) m of
        (False, m1) \<Rightarrow> m1
      | (True, m1) \<Rightarrow>
        if suback_accepted event
        then (let m2 = m1\<lparr>mm_suback_count := mm_suback_count m1 + 1, mm_last_ack_us := now\<rparr>
              in if mm_pending_sub_count m2 = 0 \<and> \<not> mm_subscription_setup_failed m2
                 then m2\<lparr>mm_ready := True, mm_initial_publish_pending := True\<rparr> else m2)
        else mark_failure_section m1)"

definition published_section :: "nat option \<Rightarrow> int \<Rightarrow> mqtt_manager \<Rightarrow> mqtt_manager" where
  "published_section client now m =
     (if client = mm_client m then m\<lparr>mm_puback_count := mm_puback_count m + 1, mm_last_ack_us := now\<rparr> else m)"

definition disconnected_section :: "nat option \<Rightarrow> mqtt_manager \<Rightarrow> bool \<times> mqtt_manager" where
  "disconnected_section client m =
     (if client \<noteq> mm_client m then (False, m)
      else (True, m\<lparr>mm_connected := False, mm_ready := False, mm_initial_publish_pending := False,
                    mm_disconnect_requested := False, mm_pending_sub_count := 0,
                    mm_connection_generation := mm_connection_generation m + 1\<rparr>))"

definition disconnected_event :: "'w mqtt_ops \<Rightarrow> mqtt_event \<Rightarrow> ('w, unit) mqtt_program" where
  "disconnected_event ops event = do {
     commit_mutex \<leftarrow> mqtt_manager_lock_command_commits ops;
     current_client \<leftarrow> critical ops (disconnected_section (ev_client event));
     mqtt_manager_unlock_command_commits ops commit_mutex;
     if current_client then critical ops (edit mqtt_manager_rx_reset) else State_Monad.return () }"

text \<open>\<open>MQTT_EVENT_ERROR\<close> only logs. The handler does nothing without event data.\<close>

definition mqtt_manager_event_handler :: "mqtt_kconfig \<Rightarrow> 'w mqtt_ops \<Rightarrow> mqtt_event_id \<Rightarrow> mqtt_event option \<Rightarrow> ('w, unit) mqtt_program" where
  "mqtt_manager_event_handler k ops event_id event_data =
     (case event_data of None \<Rightarrow> State_Monad.return ()
      | Some event \<Rightarrow>
        (case event_id of
           MQTT_EVENT_CONNECTED \<Rightarrow> connected_event k ops event
         | MQTT_EVENT_SUBSCRIBED \<Rightarrow> do {
             now \<leftarrow> call (mqo_timer_us ops);
             critical ops (edit (subscribed_section event now)) }
         | MQTT_EVENT_PUBLISHED \<Rightarrow> do {
             now \<leftarrow> call (mqo_timer_us ops);
             critical ops (edit (published_section (ev_client event) now)) }
         | MQTT_EVENT_DISCONNECTED \<Rightarrow> disconnected_event ops event
         | MQTT_EVENT_DATA \<Rightarrow> mqtt_manager_handle_data_event ops event
         | MQTT_EVENT_ERROR \<Rightarrow> preempt ops
         | MQTT_EVENT_OTHER \<Rightarrow> State_Monad.return ()))"

section \<open>Initialisation\<close>

definition init_claim_section :: "mqtt_manager \<Rightarrow> bool \<times> mqtt_manager" where
  "init_claim_section m =
     (if mm_initialized m \<or> mm_initializing m then (False, m) else (True, m\<lparr>mm_initializing := True\<rparr>))"

definition init_failed_section :: "mqtt_manager \<Rightarrow> mqtt_manager" where
  "init_failed_section m =
     m\<lparr>mm_dispatch_allocation_failures := mm_dispatch_allocation_failures m + 1, mm_initializing := False\<rparr>"

definition init_commit_section :: "nat \<Rightarrow> nat option \<Rightarrow> nat \<Rightarrow> nat \<Rightarrow> nat \<Rightarrow> nat \<Rightarrow> mqtt_manager \<Rightarrow> mqtt_manager" where
  "init_commit_section message_callback callback_context queue task lifecycle_mutex command_commit_mutex m =
     m\<lparr>mm_message_callback := Some message_callback, mm_callback_context := callback_context,
       mm_dispatch_queue := Some queue, mm_dispatch_task := Some task, mm_lifecycle_mutex := Some lifecycle_mutex,
       mm_command_commit_mutex := Some command_commit_mutex, mm_initialized := True, mm_initializing := False\<rparr>"

text \<open>A failed initialisation deletes what it created, newest first.\<close>

definition init_unwind :: "'w mqtt_ops \<Rightarrow> ('w \<Rightarrow> 'w) \<Rightarrow> ('w, esp_err) mqtt_program" where
  "init_unwind ops delete = do {
     tell delete;
     critical ops (edit init_failed_section);
     State_Monad.return ESP_ERR_NO_MEM }"

definition init_create :: "'w mqtt_ops \<Rightarrow> nat \<Rightarrow> nat option \<Rightarrow> ('w, esp_err) mqtt_program" where
  "init_create ops message_callback callback_context = do {
     lifecycle \<leftarrow> call (mqo_create_mutex ops);
     (case lifecycle of None \<Rightarrow> init_unwind ops (\<lambda>w. w)
      | Some lifecycle_mutex \<Rightarrow> do {
          commit \<leftarrow> call (mqo_create_mutex ops);
          (case commit of None \<Rightarrow> init_unwind ops (mqo_delete_mutex ops lifecycle_mutex)
           | Some command_commit_mutex \<Rightarrow> do {
               created \<leftarrow> call (mqo_queue_create ops MQTT_MANAGER_COMMAND_QUEUE_DEPTH);
               (case created of
                  None \<Rightarrow> init_unwind ops (mqo_delete_mutex ops lifecycle_mutex \<circ> mqo_delete_mutex ops command_commit_mutex)
                | Some queue \<Rightarrow> do {
                    started \<leftarrow> call (mqo_task_create ops queue);
                    (case started of
                       None \<Rightarrow> init_unwind ops (mqo_delete_mutex ops lifecycle_mutex \<circ>
                         mqo_delete_mutex ops command_commit_mutex \<circ> mqo_queue_delete ops queue)
                     | Some task \<Rightarrow> do {
                         preempt ops;
                         critical ops (edit (init_commit_section message_callback callback_context queue task
                           lifecycle_mutex command_commit_mutex));
                         critical ops (edit mqtt_manager_rx_reset);
                         State_Monad.return ESP_OK }) }) }) }) }"

definition mqtt_manager_init :: "mqtt_kconfig \<Rightarrow> 'w mqtt_ops \<Rightarrow> nat option \<Rightarrow> nat option \<Rightarrow> ('w, esp_err) mqtt_program" where
  "mqtt_manager_init k ops message_callback callback_context =
     (case message_callback of None \<Rightarrow> State_Monad.return ESP_ERR_INVALID_ARG
      | Some callback \<Rightarrow>
        if app_config_get (mqk_app_config k) = None then State_Monad.return ESP_ERR_INVALID_STATE
        else do {
          claimed \<leftarrow> critical ops init_claim_section;
          if \<not> claimed then State_Monad.return ESP_ERR_INVALID_STATE
          else init_create ops callback callback_context })"

section \<open>The commit fence of commands\<close>

definition commit_check_section :: "mqtt_manager_command_session \<Rightarrow> mqtt_manager \<Rightarrow> bool \<times> mqtt_manager" where
  "commit_check_section session m =
     (if session_current session m then (True, m)
      else (False, m\<lparr>mm_stale_command_drops := mm_stale_command_drops m + 1\<rparr>))"

definition mqtt_manager_command_commit_begin :: "'w mqtt_ops \<Rightarrow> mqtt_manager_command_session option \<Rightarrow> u32 \<Rightarrow> ('w, esp_err) mqtt_program" where
  "mqtt_manager_command_commit_begin ops session timeout_ticks =
     (case session of None \<Rightarrow> State_Monad.return ESP_ERR_INVALID_ARG
      | Some session \<Rightarrow> do {
          (mutex, initialized) \<leftarrow> critical ops (peek (\<lambda>m. (mm_command_commit_mutex m, mm_initialized m)));
          (case mutex of None \<Rightarrow> State_Monad.return ESP_ERR_INVALID_STATE
           | Some handle \<Rightarrow>
             if \<not> initialized then State_Monad.return ESP_ERR_INVALID_STATE
             else do {
               taken \<leftarrow> State (mqo_take ops handle timeout_ticks);
               if \<not> taken then State_Monad.return ESP_ERR_TIMEOUT
               else do {
                 current \<leftarrow> critical ops (commit_check_section session);
                 if current then State_Monad.return ESP_OK
                 else do {
                   mqtt_manager_unlock_command_commits ops (Some handle);
                   State_Monad.return ESP_ERR_INVALID_STATE } } }) })"

definition mqtt_manager_command_commit_end :: "'w mqtt_ops \<Rightarrow> ('w, unit) mqtt_program" where
  "mqtt_manager_command_commit_end ops = do {
     mutex \<leftarrow> critical ops (peek mm_command_commit_mutex);
     mqtt_manager_unlock_command_commits ops mutex }"

section \<open>The client's life cycle\<close>

definition take_lifecycle :: "'w mqtt_ops \<Rightarrow> nat option \<Rightarrow> u32 \<Rightarrow> ('w, bool) mqtt_program" where
  "take_lifecycle ops mutex ticks =
     (case mutex of None \<Rightarrow> State_Monad.return False | Some handle \<Rightarrow> State (mqo_take ops handle ticks))"

definition give_lifecycle :: "'w mqtt_ops \<Rightarrow> nat option \<Rightarrow> ('w, unit) mqtt_program" where
  "give_lifecycle ops mutex =
     (case mutex of None \<Rightarrow> State_Monad.return () | Some handle \<Rightarrow> do { tell (mqo_give ops handle); preempt ops })"

definition client_alive_section :: "nat \<Rightarrow> mqtt_manager \<Rightarrow> mqtt_manager" where
  "client_alive_section existing_client m =
     (if mm_client m = Some existing_client then m\<lparr>mm_stopped_state_since_us := 0\<rparr> else m)"

text \<open>Whether a client found stopped has been so for the grace period.\<close>

definition stopped_grace_section :: "nat \<Rightarrow> int \<Rightarrow> mqtt_manager \<Rightarrow> bool \<times> mqtt_manager" where
  "stopped_grace_section existing_client now m =
     (if mm_client m \<noteq> Some existing_client \<or> mm_starting m then (False, m)
      else if mm_stopped_state_since_us m = 0 then (False, m\<lparr>mm_stopped_state_since_us := now\<rparr>)
      else (MQTT_MANAGER_STOPPED_REBUILD_GRACE_US \<le> now - mm_stopped_state_since_us m, m))"

definition client_removed :: "mqtt_manager \<Rightarrow> mqtt_manager" where
  "client_removed m = m\<lparr>mm_connected := False, mm_ready := False, mm_initial_publish_pending := False,
     mm_pending_sub_count := 0, mm_connection_generation := mm_connection_generation m + 1\<rparr>"

definition replace_section :: "nat \<Rightarrow> mqtt_manager \<Rightarrow> bool \<times> mqtt_manager" where
  "replace_section existing_client m =
     (if mm_client m \<noteq> Some existing_client \<or> mm_starting m \<or> mm_connected m then (False, m)
      else (True, client_removed (m\<lparr>mm_starting := True, mm_client := None, mm_stopped_state_since_us := 0\<rparr>)))"

definition claim_start_section :: "mqtt_manager \<Rightarrow> bool \<times> mqtt_manager" where
  "claim_start_section m = (if mm_client m \<noteq> None \<or> mm_starting m then (False, m) else (True, m\<lparr>mm_starting := True\<rparr>))"

definition start_over_section :: "mqtt_manager \<Rightarrow> mqtt_manager" where
  "start_over_section m = m\<lparr>mm_starting := False\<rparr>"

definition client_installed_section :: "nat \<Rightarrow> mqtt_manager \<Rightarrow> mqtt_manager" where
  "client_installed_section client m = m\<lparr>mm_client := Some client, mm_stopped_state_since_us := 0\<rparr>"

definition start_failed_section :: "nat \<Rightarrow> mqtt_manager \<Rightarrow> mqtt_manager" where
  "start_failed_section client m =
     client_removed (if mm_client m = Some client then m\<lparr>mm_client := None\<rparr> else m)"

text \<open>The first part of \<open>mqtt_manager_start_locked\<close>: \<open>None\<close> lets it go on and create a client.\<close>

definition start_prepare :: "'w mqtt_ops \<Rightarrow> nat option \<Rightarrow> ('w, esp_err option) mqtt_program" where
  "start_prepare ops existing_client =
     (case existing_client of
        None \<Rightarrow> do {
          claimed \<leftarrow> critical ops claim_start_section;
          State_Monad.return (if claimed then None else Some ESP_ERR_INVALID_STATE) }
      | Some existing \<Rightarrow> do {
          state \<leftarrow> call (mqo_get_state ops existing);
          if state = MQTT_CLIENT_STATE_CONNECTED \<or> state = MQTT_CLIENT_STATE_WAITING_RECONNECT \<or>
             state = MQTT_CLIENT_STATE_NOT_STARTED
          then do { critical ops (edit (client_alive_section existing)); State_Monad.return (Some ESP_OK) }
          else do {
            now \<leftarrow> call (mqo_timer_us ops);
            stopped \<leftarrow> critical ops (stopped_grace_section existing now);
            if \<not> stopped then State_Monad.return (Some ESP_ERR_INVALID_STATE)
            else do {
              commit_mutex \<leftarrow> mqtt_manager_lock_command_commits ops;
              replaced \<leftarrow> critical ops (replace_section existing);
              mqtt_manager_unlock_command_commits ops commit_mutex;
              if \<not> replaced then State_Monad.return (Some ESP_ERR_INVALID_STATE)
              else do { blocking (mqo_client_destroy ops existing); State_Monad.return None } } } })"

definition client_id_text :: "app_config \<Rightarrow> string" where
  "client_id_text config = ''dshot-'' @ node_id config"

definition mqtt_tls :: "mqtt_kconfig \<Rightarrow> bool" where
  "mqtt_tls k = has_prefix ''mqtts://'' (mqk_broker_uri k)"

definition format_identity_section :: "mqtt_kconfig \<Rightarrow> app_config \<Rightarrow> mqtt_manager \<Rightarrow> bool \<times> mqtt_manager" where
  "format_identity_section k config m =
     (let text = client_id_text config; m1 = m\<lparr>mm_client_id := strlcpy text MQTT_CLIENT_ID_CAPACITY\<rparr>
      in if MQTT_CLIENT_ID_CAPACITY \<le> length text then (False, m1)
         else case app_config_format_node_topic (mqk_app_config k) MQTT_MANAGER_TOPIC_CAPACITY (Some ''status'') of
           None \<Rightarrow> (False, m1)
         | Some topic \<Rightarrow> (True, m1\<lparr>mm_availability_topic := topic\<rparr>))"

definition mqtt_client_configuration :: "mqtt_kconfig \<Rightarrow> mqtt_manager \<Rightarrow> mqtt_client_config" where
  "mqtt_client_configuration k m = \<lparr>mcc_uri = mqk_broker_uri k,
     mcc_username = (if mqk_username k = [] then None else Some (mqk_username k)),
     mcc_password = (if mqk_password k = [] then None else Some (mqk_password k)),
     mcc_client_id = mm_client_id m, mcc_keepalive = 30, mcc_reconnect_timeout_ms = 3000, mcc_network_timeout_ms = 5000,
     mcc_outbox_limit = mqk_outbox_limit_bytes k, mcc_last_will_topic = mm_availability_topic m,
     mcc_last_will_msg = ''offline'', mcc_last_will_msg_len = 7, mcc_last_will_qos = 1, mcc_last_will_retain = True,
     mcc_crt_bundle_attach = mqtt_tls k\<rparr>"

definition start_client :: "'w mqtt_ops \<Rightarrow> nat \<Rightarrow> ('w, esp_err) mqtt_program" where
  "start_client ops client = do {
     critical ops (edit (client_installed_section client));
     registered \<leftarrow> call (mqo_register_event ops client);
     err \<leftarrow> (if registered = ESP_OK then State (mqo_client_start ops client) else State_Monad.return registered);
     (if err = ESP_OK then State_Monad.return ()
      else do {
        commit_mutex \<leftarrow> mqtt_manager_lock_command_commits ops;
        critical ops (edit (start_failed_section client));
        mqtt_manager_unlock_command_commits ops commit_mutex;
        blocking (mqo_client_destroy ops client) });
     critical ops (edit start_over_section);
     State_Monad.return err }"

definition start_create :: "mqtt_kconfig \<Rightarrow> 'w mqtt_ops \<Rightarrow> app_config \<Rightarrow> ('w, esp_err) mqtt_program" where
  "start_create k ops config = do {
     formatted \<leftarrow> critical ops (format_identity_section k config);
     if \<not> formatted then do { critical ops (edit start_over_section); State_Monad.return ESP_ERR_INVALID_SIZE }
     else do {
       client_config \<leftarrow> critical ops (peek (mqtt_client_configuration k));
       client \<leftarrow> call (mqo_client_init ops client_config);
       (case client of
          None \<Rightarrow> do { critical ops (edit start_over_section); State_Monad.return ESP_ERR_NO_MEM }
        | Some handle \<Rightarrow> start_client ops handle) } }"

definition mqtt_manager_start_locked :: "mqtt_kconfig \<Rightarrow> 'w mqtt_ops \<Rightarrow> ('w, esp_err) mqtt_program" where
  "mqtt_manager_start_locked k ops = do {
     (initialized, existing_client) \<leftarrow> critical ops (peek (\<lambda>m. (mm_initialized m, mm_client m)));
     (case app_config_get (mqk_app_config k) of
        None \<Rightarrow> State_Monad.return ESP_ERR_INVALID_STATE
      | Some config \<Rightarrow>
        if \<not> initialized then State_Monad.return ESP_ERR_INVALID_STATE
        else do {
          time_ok \<leftarrow> (if mqtt_tls k then mqtt_manager_system_time_valid_for_tls ops else State_Monad.return True);
          if \<not> time_ok then State_Monad.return ESP_ERR_INVALID_STATE
          else do {
            prepared \<leftarrow> start_prepare ops existing_client;
            (case prepared of Some err \<Rightarrow> State_Monad.return err
             | None \<Rightarrow> start_create k ops config) } }) }"

definition mqtt_manager_start :: "mqtt_kconfig \<Rightarrow> 'w mqtt_ops \<Rightarrow> ('w, esp_err) mqtt_program" where
  "mqtt_manager_start k ops = do {
     (lifecycle_mutex, initialized) \<leftarrow> critical ops (peek (\<lambda>m. (mm_lifecycle_mutex m, mm_initialized m)));
     if \<not> initialized \<or> lifecycle_mutex = None then State_Monad.return ESP_ERR_INVALID_STATE
     else do {
       taken \<leftarrow> take_lifecycle ops lifecycle_mutex portMAX_DELAY;
       if \<not> taken then State_Monad.return ESP_ERR_TIMEOUT
       else do {
         err \<leftarrow> mqtt_manager_start_locked k ops;
         give_lifecycle ops lifecycle_mutex;
         State_Monad.return err } } }"

section \<open>Publishing\<close>

definition publish_failed_section :: "mqtt_manager \<Rightarrow> mqtt_manager" where
  "publish_failed_section m = m\<lparr>mm_publish_failures := mm_publish_failures m + 1\<rparr>"

definition mqtt_manager_publish :: "'w mqtt_ops \<Rightarrow> string option \<Rightarrow> string option \<Rightarrow> int \<Rightarrow> bool \<Rightarrow> ('w, bool) mqtt_program" where
  "mqtt_manager_publish ops topic payload qos retain =
     (case (topic, payload) of
        (Some t, Some p) \<Rightarrow> do {
          lifecycle_mutex \<leftarrow> critical ops (peek mm_lifecycle_mutex);
          taken \<leftarrow> take_lifecycle ops lifecycle_mutex portMAX_DELAY;
          if \<not> taken then State_Monad.return False
          else do {
            (client, connected) \<leftarrow> critical ops (peek (\<lambda>m. (mm_client m, mm_connected m)));
            sent \<leftarrow> (case client of None \<Rightarrow> State_Monad.return False
              | Some handle \<Rightarrow>
                if \<not> connected then State_Monad.return False
                else do {
                  message_id \<leftarrow> State (mqo_client_publish ops handle t p 0 qos retain);
                  if 0 \<le> message_id then State_Monad.return True
                  else do { critical ops (edit publish_failed_section); State_Monad.return False } });
            give_lifecycle ops lifecycle_mutex;
            State_Monad.return sent } }
      | _ \<Rightarrow> State_Monad.return False)"

definition poll_section :: "mqtt_kconfig \<Rightarrow> int \<Rightarrow> mqtt_manager \<Rightarrow> (bool \<times> nat option) \<times> mqtt_manager" where
  "poll_section k now m =
     (let subscribe_timed_out = (mm_connected m \<and> \<not> mm_ready m \<and> 0 < mm_connected_since_us m \<and>
            mqk_subscribe_timeout_ms k * 1000 < now - mm_connected_since_us m);
          disconnect = (mm_disconnect_requested m \<or> subscribe_timed_out)
      in ((disconnect, mm_client m), if disconnect then m\<lparr>mm_disconnect_requested := False\<rparr> else m))"

definition mqtt_manager_poll :: "mqtt_kconfig \<Rightarrow> 'w mqtt_ops \<Rightarrow> ('w, unit) mqtt_program" where
  "mqtt_manager_poll k ops = do {
     lifecycle_mutex \<leftarrow> critical ops (peek mm_lifecycle_mutex);
     taken \<leftarrow> take_lifecycle ops lifecycle_mutex portMAX_DELAY;
     if \<not> taken then State_Monad.return ()
     else do {
       now \<leftarrow> call (mqo_timer_us ops);
       (disconnect, client) \<leftarrow> critical ops (poll_section k now);
       (case client of None \<Rightarrow> State_Monad.return ()
        | Some handle \<Rightarrow>
          if \<not> disconnect then State_Monad.return ()
          else do {
            (case app_config_format_node_topic (mqk_app_config k) MQTT_MANAGER_TOPIC_CAPACITY (Some ''status'') of
               None \<Rightarrow> State_Monad.return ()
             | Some status_topic \<Rightarrow> do {
                 ignore_result (State (mqo_client_publish ops handle status_topic ''offline'' 0 1 True));
                 blocking (mqo_delay ops (mqo_ms_to_ticks ops 100)) });
            blocking (mqo_client_disconnect ops handle) });
       give_lifecycle ops lifecycle_mutex } }"

section \<open>What other modules read\<close>

definition mqtt_manager_connected :: "'w mqtt_ops \<Rightarrow> ('w, bool) mqtt_program" where
  "mqtt_manager_connected ops = critical ops (peek mm_connected)"

definition mqtt_manager_ready :: "'w mqtt_ops \<Rightarrow> ('w, bool) mqtt_program" where
  "mqtt_manager_ready ops = critical ops (peek mm_ready)"

definition take_initial_publish_section :: "mqtt_manager \<Rightarrow> bool \<times> mqtt_manager" where
  "take_initial_publish_section m = (mm_initial_publish_pending m, m\<lparr>mm_initial_publish_pending := False\<rparr>)"

definition mqtt_manager_take_initial_publish :: "'w mqtt_ops \<Rightarrow> ('w, bool) mqtt_program" where
  "mqtt_manager_take_initial_publish ops = critical ops take_initial_publish_section"

definition mqtt_manager_begin_ack_window :: "'w mqtt_ops \<Rightarrow> ('w, unit) mqtt_program" where
  "mqtt_manager_begin_ack_window ops = do {
     now \<leftarrow> call (mqo_timer_us ops);
     critical ops (edit (\<lambda>m. m\<lparr>mm_last_ack_us := now\<rparr>)) }"

record mqtt_manager_health =
  mh_connected :: bool
  mh_ready :: bool
  mh_last_ack_us :: int
  mh_last_rx_us :: int
  mh_connected_since_us :: int
  mh_puback_count :: u32
  mh_publish_failures :: u32
  mh_suback_count :: u32
  mh_connect_count :: u32
  mh_command_dispatch_count :: u32
  mh_command_dispatch_ready :: bool
  mh_command_in_flight :: bool
  mh_command_dispatch_heartbeat_us :: int
  mh_oldest_command_since_us :: int
  mh_command_dispatch_stack_bytes :: u32
  mh_command_queue_drops :: u32
  mh_stale_command_drops :: u32
  mh_dispatch_allocation_failures :: u32
  mh_pending_subscription_count :: nat
  mh_pending_command_count :: nat
  mh_outbox_bytes :: int

definition older_command :: "int \<Rightarrow> mqtt_dispatch_pending_record \<Rightarrow> int" where
  "older_command oldest record =
     (let queued_at_us = (if dp_occupied record then dp_queued_at_us record else 0)
      in if 0 < queued_at_us \<and> (oldest = 0 \<or> queued_at_us < oldest) then queued_at_us else oldest)"

definition health_section :: "mqtt_manager \<Rightarrow> mqtt_manager_health" where
  "health_section m = \<lparr>mh_connected = mm_connected m, mh_ready = mm_ready m, mh_last_ack_us = mm_last_ack_us m,
     mh_last_rx_us = mm_last_rx_us m, mh_connected_since_us = mm_connected_since_us m, mh_puback_count = mm_puback_count m,
     mh_publish_failures = mm_publish_failures m, mh_suback_count = mm_suback_count m, mh_connect_count = mm_connect_count m,
     mh_command_dispatch_count = mm_command_dispatch_count m, mh_command_dispatch_ready = mm_command_dispatch_ready m,
     mh_command_in_flight = (0 < mm_command_in_flight_since_us m),
     mh_command_dispatch_heartbeat_us = mm_command_dispatch_heartbeat_us m,
     mh_oldest_command_since_us = foldl older_command (mm_command_in_flight_since_us m) (mm_dispatch_pending m),
     mh_command_dispatch_stack_bytes = 0, mh_command_queue_drops = mm_command_queue_drops m,
     mh_stale_command_drops = mm_stale_command_drops m, mh_dispatch_allocation_failures = mm_dispatch_allocation_failures m,
     mh_pending_subscription_count = mm_pending_sub_count m, mh_pending_command_count = 0, mh_outbox_bytes = 0\<rparr>"

text \<open>The mutex is only tried: the outbox is \<open>-1\<close> while another task inspects a client.\<close>

definition health_outbox :: "'w mqtt_ops \<Rightarrow> nat option \<Rightarrow> bool \<Rightarrow> ('w, int) mqtt_program" where
  "health_outbox ops lifecycle_mutex client_exists = do {
     taken \<leftarrow> take_lifecycle ops lifecycle_mutex 0;
     if \<not> taken then State_Monad.return (if client_exists then - 1 else 0)
     else do {
       client \<leftarrow> critical ops (peek mm_client);
       outbox \<leftarrow> (case client of None \<Rightarrow> State_Monad.return 0
         | Some handle \<Rightarrow> call (\<lambda>w. (mqo_outbox_size ops handle w, w)));
       give_lifecycle ops lifecycle_mutex;
       State_Monad.return outbox } }"

definition mqtt_manager_health_snapshot :: "'w mqtt_ops \<Rightarrow> ('w, mqtt_manager_health) mqtt_program" where
  "mqtt_manager_health_snapshot ops = do {
     (snapshot, client_exists, dispatch_queue, dispatch_task, lifecycle_mutex) \<leftarrow> critical ops (peek (\<lambda>m.
       (health_section m, mm_client m \<noteq> None, mm_dispatch_queue m, mm_dispatch_task m, mm_lifecycle_mutex m)));
     waiting \<leftarrow> call (\<lambda>w. (case dispatch_queue of None \<Rightarrow> 0 | Some queue \<Rightarrow> mqo_queue_waiting ops queue w, w));
     stack \<leftarrow> call (\<lambda>w. (case dispatch_task of None \<Rightarrow> 0 | Some task \<Rightarrow> mqo_stack_bytes ops task w, w));
     outbox \<leftarrow> health_outbox ops lifecycle_mutex client_exists;
     State_Monad.return (snapshot\<lparr>mh_pending_command_count := waiting, mh_command_dispatch_stack_bytes := stack,
       mh_outbox_bytes := outbox\<rparr>) }"

end
