(* ===== verification/Mqtt_Protocol.thy ===== *)
theory Mqtt_Protocol imports Mqtt_Manager "HOL-Library.Sublist" "HOL-Library.Multiset"
begin

text \<open>
  The MQTT manager under concurrency, as a protocol of three kinds of task: ESP-MQTT's event task, the
  dispatch task, and the tasks that start the client, publish and commit commands. \<open>mqtt_step\<close> has the
  critical sections of the code as its steps, with the fence and the queue they use; a history variable
  records what was subscribed and acknowledged on the connection, and which commands were completed and
  delivered. The invariant gives the order of commands and the meaning of readiness; the fence gives a
  task that holds it a session that no other task can end.
\<close>

section \<open>The protocol\<close>

datatype mqtt_task = Event_Task | Dispatch_Task | Other_Task nat

record mqtt_bus =
  b_fence :: "mqtt_task option"
  b_queue :: "mqtt_dispatch_message list"

text \<open>A command: topic, payload, whether retained, and the generation of its session.\<close>

type_synonym mqtt_command = "string \<times> string \<times> bool \<times> u32"

definition command_generation :: "mqtt_command \<Rightarrow> u32" where
  "command_generation c = snd (snd (snd c))"

definition rx_command :: "mqtt_rx_assembly \<Rightarrow> mqtt_command" where
  "rx_command rx = (rx_topic rx, take (nat (rx_total_len rx)) (rx_payload rx), rx_retained rx, rx_connection_generation rx)"

definition message_command :: "mqtt_dispatch_message \<Rightarrow> mqtt_command" where
  "message_command message = (dm_topic message, take (dm_payload_length message) (dm_payload message), dm_retained message,
     dm_connection_generation message)"

datatype mqtt_phase = Idle | Opening | Subscribing "string option list"

record mqtt_history =
  h_phase :: mqtt_phase
  h_requested :: "(string \<times> int) list"
  h_acked :: "int list"
  h_epoch :: nat
  h_completed :: "mqtt_command list"
  h_claimed :: "mqtt_command option"
  h_hand :: "mqtt_dispatch_message option"
  h_delivered :: "mqtt_command list"

text \<open>The topics of a connection, in the order they are subscribed; \<open>None\<close> is one that does not fit.\<close>

definition node_topic_for :: "mqtt_kconfig \<Rightarrow> string \<Rightarrow> string option" where
  "node_topic_for k text = app_config_format_node_topic (mqk_app_config k) MQTT_MANAGER_TOPIC_CAPACITY (Some text)"

definition legacy_topic_for :: "mqtt_kconfig \<Rightarrow> string \<Rightarrow> string option" where
  "legacy_topic_for k text = app_config_format_legacy_topic (mqk_app_config k) MQTT_MANAGER_TOPIC_CAPACITY (Some text)"

definition fan_topics :: "mqtt_kconfig \<Rightarrow> int \<Rightarrow> string option list" where
  "fan_topics k fan =
     [node_topic_for k (fan_suffix ''/set'' fan), node_topic_for k (fan_suffix ''/percentage/set'' fan)] @
     (if mqk_tach_feedback k then [node_topic_for k (fan_suffix ''/alarm/clear'' fan)] else []) @
     (if mqk_legacy_topics k
      then [legacy_topic_for k (fan_suffix ''/set'' fan), legacy_topic_for k (fan_suffix ''/percentage/set'' fan)] else [])"

definition schedule_topics :: "mqtt_kconfig \<Rightarrow> string \<Rightarrow> string option list" where
  "schedule_topics k text = node_topic_for k text # (if mqk_legacy_topics k then [legacy_topic_for k text] else [])"

definition required_topics :: "mqtt_kconfig \<Rightarrow> string option list" where
  "required_topics k =
     (case mqk_app_config k of None \<Rightarrow> [None]
      | Some config \<Rightarrow>
          concat (map (\<lambda>i. fan_topics k (fan_index_start config + int i)) [0..<nat (fan_count config)]) @
          (if mqk_ota k then [node_topic_for k ''ota/update''] else []) @
          (if mqk_schedule k then concat (map (schedule_topics k) schedule_suffixes) else []))"

text \<open>What the steps below do not change: all the protocol speaks of, the event task's assembly apart.\<close>

definition same_core :: "mqtt_manager \<Rightarrow> mqtt_manager \<Rightarrow> bool" where
  "same_core m m' \<longleftrightarrow> mm_connected m' = mm_connected m \<and> mm_ready m' = mm_ready m \<and>
     mm_connection_generation m' = mm_connection_generation m \<and>
     mm_subscription_setup_failed m' = mm_subscription_setup_failed m \<and> mm_pending_sub_ids m' = mm_pending_sub_ids m \<and>
     mm_pending_sub_count m' = mm_pending_sub_count m \<and> mm_message_callback m' = mm_message_callback m \<and>
     mm_command_commit_mutex m' = mm_command_commit_mutex m \<and> mm_lifecycle_mutex m' = mm_lifecycle_mutex m \<and>
     mm_dispatch_queue m' = mm_dispatch_queue m \<and> mm_initialized m' = mm_initialized m \<and>
     length (mm_dispatch_pending m') = length (mm_dispatch_pending m)"

type_synonym mqtt_point = "mqtt_manager \<times> mqtt_bus \<times> mqtt_history"

inductive mqtt_step :: "mqtt_kconfig \<Rightarrow> mqtt_task \<Rightarrow> mqtt_point \<Rightarrow> mqtt_point \<Rightarrow> bool" for k t where
  take: "b_fence b = None \<Longrightarrow> mqtt_step k t (m, b, h) (m, b\<lparr>b_fence := Some t\<rparr>, h)"
| give: "b_fence b = Some t \<Longrightarrow> t = Event_Task \<longrightarrow> h_phase h = Idle \<and> h_claimed h = None \<Longrightarrow>
    mqtt_step k t (m, b, h) (m, b\<lparr>b_fence := None\<rparr>, h)"
| claim: "t = Event_Task \<Longrightarrow> b_fence b = Some t \<Longrightarrow> h_phase h = Idle \<Longrightarrow> h_claimed h = None \<Longrightarrow>
    enqueue_claim_section client (rx_connection_generation (mm_rx m)) now m = ((True, r), m') \<Longrightarrow>
    mqtt_step k t (m, b, h) (m', b, h\<lparr>h_completed := h_completed h @ [rx_command (mm_rx m)],
                                      h_claimed := Some (rx_command (mm_rx m))\<rparr>)"
| send: "t = Event_Task \<Longrightarrow> h_claimed h = Some (message_command message) \<Longrightarrow>
    mqtt_step k t (m, b, h) (m, b\<lparr>b_queue := b_queue b @ [message]\<rparr>, h\<lparr>h_claimed := None\<rparr>)"
| drop: "t = Event_Task \<Longrightarrow> h_claimed h = Some c \<Longrightarrow>
    mqtt_step k t (m, b, h) (enqueue_drop_section slot sequence m, b, h\<lparr>h_claimed := None, h_epoch := h_epoch h + 1\<rparr>)"
| connect: "t = Event_Task \<Longrightarrow> b_fence b = Some t \<Longrightarrow> h_phase h = Idle \<Longrightarrow> h_claimed h = None \<Longrightarrow>
    connected_section client now m = (True, m') \<Longrightarrow>
    mqtt_step k t (m, b, h) (m', b, h\<lparr>h_phase := Opening, h_epoch := h_epoch h + 1\<rparr>)"
| reset: "t = Event_Task \<Longrightarrow> h_phase h = Opening \<Longrightarrow>
    mqtt_step k t (m, b, h) (subscribe_reset_section m, b,
      h\<lparr>h_phase := Subscribing (required_topics k), h_requested := [], h_acked := []\<rparr>)"
| subscribe: "t = Event_Task \<Longrightarrow> h_phase h = Subscribing (Some topic # rest) \<Longrightarrow> 0 \<le> message_id \<Longrightarrow>
    subscribe_record_section message_id m = (True, m') \<Longrightarrow>
    mqtt_step k t (m, b, h) (m', b, h\<lparr>h_phase := Subscribing rest, h_requested := h_requested h @ [(topic, message_id)]\<rparr>)"
| failure: "t = Event_Task \<Longrightarrow> h_phase h = Subscribing rest \<Longrightarrow>
    mqtt_step k t (m, b, h) (mark_failure_section m, b, h\<lparr>h_phase := Subscribing (tl rest)\<rparr>)"
| close: "t = Event_Task \<Longrightarrow> h_phase h = Subscribing [] \<Longrightarrow>
    mqtt_step k t (m, b, h) (subscriptions_done_section client m, b, h\<lparr>h_phase := Idle\<rparr>)"
| suback: "t = Event_Task \<Longrightarrow> h_phase h = Idle \<Longrightarrow>
    mqtt_step k t (m, b, h) (subscribed_section event now m, b,
      if ev_client event = mm_client m \<and> fst (mqtt_manager_remove_pending_subscription_locked (ev_msg_id event) m) \<and> suback_accepted event
      then h\<lparr>h_acked := h_acked h @ [ev_msg_id event]\<rparr> else h)"
| disconnect: "t = Event_Task \<Longrightarrow> b_fence b = Some t \<Longrightarrow> h_phase h = Idle \<Longrightarrow> h_claimed h = None \<Longrightarrow>
    disconnected_section client m = (True, m') \<Longrightarrow> mqtt_step k t (m, b, h) (m', b, h\<lparr>h_epoch := h_epoch h + 1\<rparr>)"
| replace: "t \<noteq> Event_Task \<Longrightarrow> b_fence b = Some t \<Longrightarrow> replace_section existing m = (True, m') \<Longrightarrow>
    mqtt_step k t (m, b, h) (m', b, h\<lparr>h_epoch := h_epoch h + 1\<rparr>)"
| start_failed: "t \<noteq> Event_Task \<Longrightarrow> b_fence b = Some t \<Longrightarrow>
    mqtt_step k t (m, b, h) (start_failed_section client m, b, h\<lparr>h_epoch := h_epoch h + 1\<rparr>)"
| receive: "t = Dispatch_Task \<Longrightarrow> h_hand h = None \<Longrightarrow> b_queue b = message # rest \<Longrightarrow>
    mqtt_step k t (m, b, h) (m, b\<lparr>b_queue := rest\<rparr>, h\<lparr>h_hand := Some message\<rparr>)"
| deliver: "t = Dispatch_Task \<Longrightarrow> h_hand h = Some message \<Longrightarrow> dispatch_claim_section message m = (claimed, m') \<Longrightarrow>
    mqtt_step k t (m, b, h) (m', b, h\<lparr>h_hand := None,
      h_delivered := (if claimed = None then h_delivered h else h_delivered h @ [message_command message])\<rparr>)"
| other: "same_core m m' \<Longrightarrow> t \<noteq> Event_Task \<longrightarrow> mm_rx m' = mm_rx m \<Longrightarrow> mqtt_step k t (m, b, h) (m', b, h)"

definition mqtt_run :: "mqtt_kconfig \<Rightarrow> mqtt_point \<Rightarrow> mqtt_point \<Rightarrow> bool" where
  "mqtt_run k = (\<lambda>x y. \<exists>t. mqtt_step k t x y)\<^sup>*\<^sup>*"

definition mqtt_others_run :: "mqtt_kconfig \<Rightarrow> mqtt_task \<Rightarrow> mqtt_point \<Rightarrow> mqtt_point \<Rightarrow> bool" where
  "mqtt_others_run k t = (\<lambda>x y. \<exists>u. u \<noteq> t \<and> mqtt_step k u x y)\<^sup>*\<^sup>*"

section \<open>The invariant\<close>

text \<open>Static parts, the subscriptions of the connection, and the commands of the current generation.\<close>

definition wired_inv :: "nat \<Rightarrow> nat \<Rightarrow> mqtt_point \<Rightarrow> bool" where
  "wired_inv fence_id queue_id x \<longleftrightarrow> (case x of (m, b, h) \<Rightarrow>
     mm_command_commit_mutex m = Some fence_id \<and> mm_lifecycle_mutex m \<noteq> Some fence_id \<and> mm_dispatch_queue m = Some queue_id \<and>
     mm_message_callback m \<noteq> None \<and> mm_initialized m)"

definition task_inv :: "mqtt_point \<Rightarrow> bool" where
  "task_inv x \<longleftrightarrow> (case x of (m, b, h) \<Rightarrow>
     (case h_claimed h of None \<Rightarrow> True | Some _ \<Rightarrow> b_fence b = Some Event_Task \<and> h_phase h = Idle) \<and>
     (h_phase h \<noteq> Idle \<longrightarrow> b_fence b = Some Event_Task \<and> mm_connected m \<and> \<not> mm_ready m))"

definition pending_ids :: "mqtt_manager \<Rightarrow> int list" where
  "pending_ids m = take (mm_pending_sub_count m) (mm_pending_sub_ids m)"

definition subscription_inv :: "mqtt_kconfig \<Rightarrow> mqtt_point \<Rightarrow> bool" where
  "subscription_inv k x \<longleftrightarrow> (case x of (m, b, h) \<Rightarrow>
     mm_pending_sub_count m \<le> MQTT_MANAGER_MAX_PENDING_SUBSCRIPTIONS \<and>
     length (mm_pending_sub_ids m) = MQTT_MANAGER_MAX_PENDING_SUBSCRIPTIONS \<and>
     (\<not> mm_connected m \<longrightarrow> mm_pending_sub_count m = 0 \<and> \<not> mm_ready m) \<and>
     (mm_ready m \<longrightarrow> mm_connected m \<and> mm_pending_sub_count m = 0 \<and> \<not> mm_subscription_setup_failed m) \<and>
     (mm_connected m \<and> \<not> mm_subscription_setup_failed m \<longrightarrow>
        (case h_phase h of Opening \<Rightarrow> True
         | Idle \<Rightarrow> map (Some \<circ> fst) (h_requested h) = required_topics k \<and>
             mset (map snd (h_requested h)) = mset (h_acked h) + mset (pending_ids m)
         | Subscribing rest \<Rightarrow> map (Some \<circ> fst) (h_requested h) @ rest = required_topics k \<and>
             mset (map snd (h_requested h)) = mset (h_acked h) + mset (pending_ids m))))"

definition in_flight :: "mqtt_bus \<Rightarrow> mqtt_history \<Rightarrow> mqtt_command list" where
  "in_flight b h = map message_command (case h_hand h of None \<Rightarrow> [] | Some message \<Rightarrow> [message]) @
     map message_command (b_queue b) @ (case h_claimed h of None \<Rightarrow> [] | Some c \<Rightarrow> [c])"

abbreviation of_generation :: "u32 \<Rightarrow> mqtt_command list \<Rightarrow> mqtt_command list" where
  "of_generation g \<equiv> filter (\<lambda>c. command_generation c = g)"

definition order_inv :: "mqtt_point \<Rightarrow> bool" where
  "order_inv x \<longleftrightarrow> (case x of (m, b, h) \<Rightarrow>
     mm_connection_generation m = of_nat (h_epoch h) \<and>
     (h_epoch h < 2 ^ 32 \<longrightarrow>
       (\<forall>c \<in> set (h_completed h) \<union> set (h_delivered h) \<union> set (in_flight b h). unat (command_generation c) \<le> h_epoch h) \<and>
       of_generation (mm_connection_generation m) (h_completed h) =
         of_generation (mm_connection_generation m) (h_delivered h @ in_flight b h) \<and>
       (of_generation (mm_connection_generation m) (in_flight b h) \<noteq> [] \<longrightarrow> mm_connected m \<and> mm_ready m) \<and>
       (\<forall>g. prefix (of_generation g (h_delivered h)) (of_generation g (h_completed h)))))"

definition mqtt_inv :: "mqtt_kconfig \<Rightarrow> nat \<Rightarrow> nat \<Rightarrow> mqtt_point \<Rightarrow> bool" where
  "mqtt_inv k fence_id queue_id x \<longleftrightarrow>
     wired_inv fence_id queue_id x \<and> task_inv x \<and> subscription_inv k x \<and> order_inv x"

lemma release_pending_core [simp]:
  "same_core m (release_pending slot sequence m)" "mm_rx (release_pending slot sequence m) = mm_rx m"
  by (simp_all add: release_pending_def same_core_def Let_def)

lemma drop_fields:
  "same_core (m\<lparr>mm_ready := False, mm_connection_generation := mm_connection_generation m + 1\<rparr>) (enqueue_drop_section slot sequence m)"
  "mm_rx (enqueue_drop_section slot sequence m) = mm_rx m"
  by (auto simp: enqueue_drop_section_def same_core_def release_pending_def Let_def split: option.splits)

lemmas section_defs = connected_section_def subscribe_reset_section_def subscribe_record_section_def
  mark_failure_section_def subscriptions_done_section_def disconnected_section_def replace_section_def
  start_failed_section_def client_removed_def

lemma enqueue_claim_current:
  assumes "enqueue_claim_section client g now m = ((True, r), m')"
  shows "mm_connected m" "mm_ready m" "g = mm_connection_generation m" "same_core m m'" "mm_rx m' = mm_rx m"
  using assms by (auto simp: enqueue_claim_section_def same_core_def Let_def split: if_splits option.splits)

lemma dispatch_claim_core:
  "same_core m (snd (dispatch_claim_section message m)) \<and> mm_rx (snd (dispatch_claim_section message m)) = mm_rx m"
  by (auto simp: dispatch_claim_section_def same_core_def release_pending_def Let_def split: option.splits)

lemma dispatch_claim_session:
  assumes "dispatch_claim_section message m = (claimed, m')" and "mm_message_callback m \<noteq> None"
  shows "claimed \<noteq> None \<longleftrightarrow> session_current \<lparr>ses_connection_generation = dm_connection_generation message\<rparr> m"
  using assms by (auto simp: dispatch_claim_section_def session_current_def release_pending_def Let_def
    split: option.splits if_splits)

lemma remove_pending_cases:
  obtains "mqtt_manager_remove_pending_subscription_locked i m = (False, m)" "i \<notin> set (pending_ids m) \<or> length (mm_pending_sub_ids m) < mm_pending_sub_count m"
  | m' where "mqtt_manager_remove_pending_subscription_locked i m = (True, m')" "same_core (m'\<lparr>mm_pending_sub_ids := mm_pending_sub_ids m,
      mm_pending_sub_count := mm_pending_sub_count m\<rparr>) m" "mm_pending_sub_count m = Suc (mm_pending_sub_count m')"
      "mm_rx m' = mm_rx m"
      "mm_pending_sub_count m \<le> length (mm_pending_sub_ids m) \<Longrightarrow> mset (pending_ids m) = add_mset i (mset (pending_ids m'))"
      "length (mm_pending_sub_ids m') = length (mm_pending_sub_ids m)"
proof (cases "find (\<lambda>j. mm_pending_sub_ids m ! j = i) [0..<mm_pending_sub_count m]")
  case None
  then have "i \<notin> set (pending_ids m) \<or> length (mm_pending_sub_ids m) < mm_pending_sub_count m"
    by (auto simp: find_None_iff pending_ids_def in_set_conv_nth)
  then show ?thesis using that(1) None by (simp add: mqtt_manager_remove_pending_subscription_locked_def)
next
  case (Some j)
  let ?ids = "mm_pending_sub_ids m" and ?n = "mm_pending_sub_count m"
  from Some have j: "j < ?n" "?ids ! j = i" by (auto simp: find_Some_iff)
  then obtain c where c: "?n = Suc c" by (cases ?n) auto
  have "mset (take ?n ?ids) = add_mset i (mset (take c (?ids[j := ?ids ! c])))" if n: "?n \<le> length ?ids"
  proof (cases "j = c")
    case True
    then show ?thesis using c n j by (simp add: take_Suc_conv_app_nth)
  next
    case False
    then have "j < c" using j c by simp
    then have "mset (take c (?ids[j := ?ids ! c])) = add_mset (?ids ! c) (mset (take c ?ids) - {#i#})"
      using n c j by (simp add: take_update_swap mset_update)
    moreover have "i \<in># mset (take c ?ids)" using \<open>j < c\<close> n c j by (auto simp: in_set_conv_nth)
    ultimately show ?thesis using n c by (simp add: take_Suc_conv_app_nth)
  qed
  moreover let ?m = "m\<lparr>mm_pending_sub_ids := ?ids[j := ?ids ! (?n - 1)], mm_pending_sub_count := ?n - 1\<rparr>"
  have "mqtt_manager_remove_pending_subscription_locked i m = (True, ?m)"
    using Some by (simp add: mqtt_manager_remove_pending_subscription_locked_def)
  ultimately show ?thesis using c by (intro that(2) [of ?m]) (simp_all add: same_core_def pending_ids_def)
qed

lemma mqtt_step_wired: "mqtt_step k t x y \<Longrightarrow> wired_inv fid qid x \<Longrightarrow> wired_inv fid qid y"
proof (induction rule: mqtt_step.induct)
  case (claim b h client m now r m')
  then show ?case using enqueue_claim_current(4) [OF claim(5)] by (simp add: wired_inv_def same_core_def)
next
  case (suback h m b event now)
  then show ?case by (cases rule: remove_pending_cases [of "ev_msg_id event" m])
      (auto simp: wired_inv_def subscribed_section_def mark_failure_section_def same_core_def Let_def)
next
  case (deliver h message m claimed m' b)
  then show ?case using dispatch_claim_core [of m message] by (simp add: wired_inv_def same_core_def)
next
  case (drop h c m b slot sequence)
  then show ?case using drop_fields(1) [of m slot sequence] by (simp add: wired_inv_def same_core_def)
qed (auto simp: wired_inv_def section_defs same_core_def Let_def split: if_splits option.splits)

lemma section_results:
  "connected_section client now m = (True, m') \<Longrightarrow> mm_connected m' \<and> \<not> mm_ready m' \<and> mm_rx m' = mm_rx m \<and>
    mm_connection_generation m' = mm_connection_generation m + 1 \<and>
    mm_subscription_setup_failed m' = mm_subscription_setup_failed m \<and> mm_pending_sub_ids m' = mm_pending_sub_ids m \<and>
    mm_pending_sub_count m' = mm_pending_sub_count m"
  "disconnected_section client m = (True, m') \<Longrightarrow> \<not> mm_connected m' \<and> \<not> mm_ready m' \<and> mm_rx m' = mm_rx m \<and>
    mm_connection_generation m' = mm_connection_generation m + 1 \<and> mm_pending_sub_ids m' = mm_pending_sub_ids m \<and>
    mm_pending_sub_count m' = 0"
  "replace_section existing m = (True, m') \<Longrightarrow> \<not> mm_connected m' \<and> \<not> mm_ready m' \<and> mm_rx m' = mm_rx m \<and>
    mm_connection_generation m' = mm_connection_generation m + 1 \<and> mm_pending_sub_ids m' = mm_pending_sub_ids m \<and>
    mm_pending_sub_count m' = 0"
  by (auto simp: connected_section_def disconnected_section_def replace_section_def client_removed_def split: if_splits)

lemma start_failed_fields:
  "\<not> mm_connected (start_failed_section c m)" "\<not> mm_ready (start_failed_section c m)" "mm_rx (start_failed_section c m) = mm_rx m"
  "mm_connection_generation (start_failed_section c m) = mm_connection_generation m + 1"
  "mm_pending_sub_ids (start_failed_section c m) = mm_pending_sub_ids m" "mm_pending_sub_count (start_failed_section c m) = 0"
  by (simp_all add: start_failed_section_def client_removed_def)

lemma subscribe_fields:
  assumes "subscribe_record_section i m = (True, m')"
  shows "mm_pending_sub_count m < MQTT_MANAGER_MAX_PENDING_SUBSCRIPTIONS"
    "m' = m\<lparr>mm_pending_sub_ids := (mm_pending_sub_ids m)[mm_pending_sub_count m := i], mm_pending_sub_count := Suc (mm_pending_sub_count m)\<rparr>"
  using assms by (simp_all add: subscribe_record_section_def split: if_splits)

lemma task_inv_unheld:
  "task_inv (m, b, h) \<Longrightarrow> b_fence b \<noteq> Some Event_Task \<Longrightarrow> h_claimed h = None \<and> h_phase h = Idle"
  by (auto simp: task_inv_def split: option.splits)

lemma mqtt_step_task: "mqtt_step k t x y \<Longrightarrow> task_inv x \<Longrightarrow> task_inv y"
proof (induction rule: mqtt_step.induct)
  case (take b m h)
  then have "h_claimed h = None" "h_phase h = Idle" using task_inv_unheld [of m b h] by simp_all
  then show ?case using take by (simp add: task_inv_def)
next
  case (give b h m)
  then have "h_claimed h = None" "h_phase h = Idle" using task_inv_unheld [of m b h] by (cases "t = Event_Task", simp_all)+
  then show ?case by (simp add: task_inv_def)
next
  case (drop h c m b slot sequence)
  then show ?case by (simp add: task_inv_def)
next
  case (connect b h client now m m')
  then show ?case using section_results(1) [OF connect(5)] by (simp add: task_inv_def)
next
  case (subscribe h topic rest message_id m m' b)
  then show ?case using subscribe_fields(2) [OF subscribe(4)] by (simp add: task_inv_def split: option.splits)
next
  case (replace b existing m m' h)
  then have "h_claimed h = None" "h_phase h = Idle" using task_inv_unheld [of m b h] by simp_all
  then show ?case by (simp add: task_inv_def)
next
  case (start_failed b m h client)
  then have "h_claimed h = None" "h_phase h = Idle" using task_inv_unheld [of m b h] by simp_all
  then show ?case by (simp add: task_inv_def)
next
  case (deliver h message m claimed m' b)
  then have "mm_connected m' = mm_connected m" "mm_ready m' = mm_ready m"
    using dispatch_claim_core [of m message] by (simp_all add: same_core_def)
  then show ?case using deliver.prems by (simp add: task_inv_def split: option.splits)
qed (simp_all add: task_inv_def same_core_def subscribe_reset_section_def mark_failure_section_def
      subscriptions_done_section_def split: if_splits option.splits)

lemma same_core_pending: "same_core m m' \<Longrightarrow> pending_ids m' = pending_ids m"
  by (simp add: same_core_def pending_ids_def)

lemma subscription_core:
  assumes "subscription_inv k (m, b, h)" and "same_core m m'" and "h_phase h' = h_phase h" and "h_requested h' = h_requested h"
    and "h_acked h' = h_acked h"
  shows "subscription_inv k (m', b', h')"
  using assms(1,3-) same_core_pending [OF assms(2)] assms(2) by (simp add: subscription_inv_def same_core_def cong: mqtt_phase.case_cong)

lemma mqtt_step_subscription: "mqtt_step k t x y \<Longrightarrow> task_inv x \<Longrightarrow> subscription_inv k x \<Longrightarrow> subscription_inv k y"
proof (induction rule: mqtt_step.induct)
  case (claim b h client m now r m')
  then show ?case by (elim subscription_core [OF _ enqueue_claim_current(4) [OF claim(5)]]) simp_all
next
  case (drop h c m b slot sequence)
  then have "subscription_inv k (m\<lparr>mm_ready := False, mm_connection_generation := mm_connection_generation m + 1\<rparr>, b, h)"
    by (simp add: subscription_inv_def pending_ids_def cong: mqtt_phase.case_cong)
  then show ?case by (elim subscription_core [OF _ drop_fields(1)]) simp_all
next
  case (connect b h client now m m')
  then show ?case using section_results(1) [OF connect(5)] by (simp add: subscription_inv_def)
next
  case (reset h m b)
  then show ?case by (simp add: subscription_inv_def task_inv_def subscribe_reset_section_def pending_ids_def)
next
  case (subscribe h topic rest message_id m m' b)
  note m' = subscribe_fields [OF subscribe(4)]
  then have "pending_ids m' = pending_ids m @ [message_id]"
    using subscribe.prems by (simp add: pending_ids_def subscription_inv_def take_Suc_conv_app_nth)
  moreover have "mm_connected m" "\<not> mm_ready m" using subscribe by (simp_all add: task_inv_def)
  ultimately show ?case using subscribe m' by (simp add: subscription_inv_def)
next
  case (failure h rest m b)
  then show ?case by (simp add: subscription_inv_def task_inv_def mark_failure_section_def)
next
  case (close h m b client)
  then show ?case by (simp add: subscription_inv_def subscriptions_done_section_def pending_ids_def)
next
  case (suback h m b event now)
  show ?case
  proof (cases rule: remove_pending_cases [of "ev_msg_id event" m])
    case 1
    then have "subscribed_section event now m = m" by (simp add: subscribed_section_def)
    then show ?thesis using 1 suback.prems by simp
  next
    case (2 m')
    have "mset (pending_ids m) = add_mset (ev_msg_id event) (mset (pending_ids m'))"
      using 2 suback.prems by (simp add: subscription_inv_def)
    moreover have "pending_ids m' = [] " if "mm_pending_sub_count m' = 0" using that by (simp add: pending_ids_def)
    moreover have "mm_connected m" "\<not> mm_ready m" using 2 suback.prems by (auto simp: subscription_inv_def)
    ultimately show ?thesis using 2 suback.prems suback.hyps
      by (auto simp: subscription_inv_def subscribed_section_def mark_failure_section_def same_core_def Let_def pending_ids_def)
  qed
next
  case (disconnect b h client m m')
  then show ?case using section_results(2) [OF disconnect(5)] by (simp add: subscription_inv_def)
next
  case (replace b existing m m' h)
  then show ?case using section_results(3) [OF replace(3)] by (simp add: subscription_inv_def)
next
  case (start_failed b m h client)
  then show ?case using start_failed_fields [of client m] by (simp add: subscription_inv_def)
next
  case (deliver h message m claimed m' b)
  then have "same_core m m'" using dispatch_claim_core [of m message] by simp
  then show ?case using deliver.prems by (elim subscription_core) simp_all
next
  case (other m m' b h)
  then show ?case by (elim subscription_core) simp_all
next
  case (take b m h)
  then show ?case by (elim subscription_core) (simp_all add: same_core_def)
next
  case (give b h m)
  then show ?case by (elim subscription_core) (simp_all add: same_core_def)
next
  case (send h message m b)
  then show ?case by (elim subscription_core) (simp_all add: same_core_def)
next
  case (receive h b message rest m)
  then show ?case by (elim subscription_core) (simp_all add: same_core_def)
qed

section \<open>The order of commands\<close>

lemma order_core:
  assumes "order_inv (m, b, h)" and "mm_connected m' = mm_connected m" and "mm_ready m \<longrightarrow> mm_ready m'"
    and "mm_connection_generation m' = mm_connection_generation m" and "in_flight b' h' = in_flight b h"
    and "h_completed h' = h_completed h" and "h_delivered h' = h_delivered h" and "h_epoch h' = h_epoch h"
  shows "order_inv (m', b', h')"
  using assms(1) unfolding order_inv_def prod.case assms(2,4-) using assms(3) by blast

text \<open>A new generation has no commands yet.\<close>

lemma order_bump:
  assumes "order_inv (m, b, h)" and "mm_connection_generation m' = mm_connection_generation m + 1"
    and "set (in_flight b' h') \<subseteq> set (in_flight b h)"
    and "h_completed h' = h_completed h" and "h_delivered h' = h_delivered h" and "h_epoch h' = Suc (h_epoch h)"
  shows "order_inv (m', b', h')"
proof -
  let ?g = "mm_connection_generation m'"
  have g: "?g = of_nat (Suc (h_epoch h))" using assms by (simp add: order_inv_def add.commute)
  {
    assume e: "Suc (h_epoch h) < 2 ^ 32"
    then have old: "unat (command_generation c) \<le> h_epoch h" if "c \<in> set (h_completed h) \<union> set (h_delivered h) \<union> set (in_flight b h)" for c
      using assms(1) that by (simp add: order_inv_def)
    have "unat ?g = Suc (h_epoch h)" unfolding g by (rule unat_of_nat_small) (use e in simp)
    then have no: "command_generation c \<noteq> ?g" if "c \<in> set (h_completed h) \<union> set (h_delivered h) \<union> set (in_flight b h)" for c
      using old [OF that] by auto
    then have "of_generation ?g (h_completed h) = []" "of_generation ?g (h_delivered h) = []" "of_generation ?g (in_flight b' h') = []"
      using assms(3) by (auto simp: filter_empty_conv)
    then have "of_generation ?g (h_completed h) = of_generation ?g (h_delivered h @ in_flight b' h')"
      "of_generation ?g (in_flight b' h') = []" unfolding filter_append by simp_all
    moreover have "unat (command_generation c) \<le> Suc (h_epoch h)"
      if "c \<in> set (h_completed h) \<union> set (h_delivered h) \<union> set (in_flight b' h')" for c
      using old [of c] that assms(3) by (meson Un_iff le_SucI subsetD)
    moreover have "prefix (of_generation g (h_delivered h)) (of_generation g (h_completed h))" for g
      using assms(1) e unfolding order_inv_def by (blast dest: Suc_lessD)
    ultimately have "(\<forall>c \<in> set (h_completed h) \<union> set (h_delivered h) \<union> set (in_flight b' h'). unat (command_generation c) \<le> Suc (h_epoch h)) \<and>
       of_generation ?g (h_completed h) = of_generation ?g (h_delivered h @ in_flight b' h') \<and>
       (of_generation ?g (in_flight b' h') \<noteq> [] \<longrightarrow> mm_connected m' \<and> mm_ready m') \<and>
       (\<forall>g. prefix (of_generation g (h_delivered h)) (of_generation g (h_completed h)))" by blast
  }
  then show ?thesis using g unfolding order_inv_def prod.case assms(4-) by blast
qed

lemma in_flight_simps [simp]:
  "in_flight (b\<lparr>b_fence := f\<rparr>) h = in_flight b h"
  "in_flight b (h\<lparr>h_phase := p\<rparr>) = in_flight b h"
  "in_flight b (h\<lparr>h_requested := q\<rparr>) = in_flight b h"
  "in_flight b (h\<lparr>h_acked := a\<rparr>) = in_flight b h"
  "in_flight b (h\<lparr>h_epoch := e\<rparr>) = in_flight b h"
  "in_flight b (h\<lparr>h_completed := cs\<rparr>) = in_flight b h"
  "in_flight b (h\<lparr>h_delivered := cs\<rparr>) = in_flight b h"
  by (simp_all add: in_flight_def)

lemma subscribed_order:
  "mm_connected (subscribed_section event now m) = mm_connected m"
  "mm_ready m \<Longrightarrow> mm_ready (subscribed_section event now m)"
  "mm_connection_generation (subscribed_section event now m) = mm_connection_generation m"
  by (cases rule: remove_pending_cases [of "ev_msg_id event" m];
      auto simp: subscribed_section_def mark_failure_section_def same_core_def Let_def)+

text \<open>What the claim and the delivery of a command do to the commands of the current generation.\<close>

lemma order_claim:
  assumes "order_inv (m, b, h)" and "same_core m m'" and "mm_connected m" "mm_ready m" and "h_claimed h = None"
    and "command_generation c = mm_connection_generation m"
  shows "order_inv (m', b, h\<lparr>h_completed := h_completed h @ [c], h_claimed := Some c\<rparr>)"
proof -
  have f: "in_flight b (h\<lparr>h_completed := h_completed h @ [c], h_claimed := Some c\<rparr>) = in_flight b h @ [c]"
    using assms(5) by (simp add: in_flight_def)
  have g: "mm_connection_generation m = of_nat (h_epoch h)" using assms(1) by (simp add: order_inv_def)
  have "unat (mm_connection_generation m) = h_epoch h" if "h_epoch h < 2 ^ 32" unfolding g by (rule unat_of_nat_small) (use that in simp)
  then show ?thesis using assms f unfolding order_inv_def by (auto simp: same_core_def)
qed

lemma order_deliver:
  assumes "order_inv (m, b, h)" and "same_core m m'" and "h_hand h = Some message"
    and "deliver \<longleftrightarrow> session_current \<lparr>ses_connection_generation = dm_connection_generation message\<rparr> m"
  shows "order_inv (m', b, h\<lparr>h_hand := None, h_delivered := (if deliver then h_delivered h @ [message_command message] else h_delivered h)\<rparr>)"
proof -
  let ?c = "message_command message" and ?h = "h\<lparr>h_hand := None, h_delivered := (if deliver then h_delivered h @ [message_command message] else h_delivered h)\<rparr>"
  have f: "in_flight b h = ?c # in_flight b ?h" using assms(3) by (simp add: in_flight_def)
  have c: "command_generation ?c = dm_connection_generation message" by (simp add: message_command_def command_generation_def)
  show ?thesis
  proof (cases deliver)
    case True
    then have "command_generation ?c = mm_connection_generation m" using assms(4) c by (simp add: session_current_def)
    then show ?thesis using assms(1,2) f True unfolding order_inv_def same_core_def prod.case
      by (auto simp: prefix_def)
  next
    case False
    have "command_generation ?c \<noteq> mm_connection_generation m" if "h_epoch h < 2 ^ 32"
    proof
      assume g: "command_generation ?c = mm_connection_generation m"
      then have "mm_connected m \<and> mm_ready m" using assms(1) f that by (simp add: order_inv_def)
      then show False using False assms(4) g c by (simp add: session_current_def)
    qed
    then show ?thesis using assms(1,2) f False unfolding order_inv_def same_core_def prod.case by auto
  qed
qed

lemma mqtt_step_order: "mqtt_step k t x y \<Longrightarrow> wired_inv fid qid x \<Longrightarrow> task_inv x \<Longrightarrow> order_inv x \<Longrightarrow> order_inv y"
proof (induction rule: mqtt_step.induct)
  case (take b m h)
  then show ?case by (elim order_core) simp_all
next
  case (give b h m)
  then show ?case by (elim order_core) simp_all
next
  case (claim b h client m now r m')
  note c = enqueue_claim_current [OF claim(5)]
  show ?case by (rule order_claim [OF claim(8) c(4,1,2) claim(4)]) (simp add: c(3) rx_command_def command_generation_def)
next
  case (send h message m b)
  then show ?case by (elim order_core) (simp_all add: in_flight_def)
next
  case (drop h c m b slot sequence)
  then show ?case using drop_fields(1) [of m slot sequence]
    by (elim order_bump) (auto simp: same_core_def in_flight_def)
next
  case (connect b h client now m m')
  then show ?case using section_results(1) [OF connect(5)] by (elim order_bump) simp_all
next
  case (reset h m b)
  then show ?case by (elim order_core) (simp_all add: subscribe_reset_section_def)
next
  case (subscribe h topic rest message_id m m' b)
  then show ?case using subscribe_fields(2) [OF subscribe(4)] by (elim order_core) simp_all
next
  case (failure h rest m b)
  then show ?case by (elim order_core) (simp_all add: mark_failure_section_def)
next
  case (close h m b client)
  then show ?case by (elim order_core) (simp_all add: subscriptions_done_section_def)
next
  case (suback h m b event now)
  then show ?case by (elim order_core) (simp_all add: subscribed_order)
next
  case (disconnect b h client m m')
  then show ?case using section_results(2) [OF disconnect(5)] by (elim order_bump) simp_all
next
  case (replace b existing m m' h)
  then show ?case using section_results(3) [OF replace(3)] by (elim order_bump) simp_all
next
  case (start_failed b m h client)
  then show ?case using start_failed_fields [of client m] by (elim order_bump) simp_all
next
  case (receive h b message rest m)
  then show ?case by (elim order_core) (simp_all add: in_flight_def)
next
  case (deliver h message m claimed m' b)
  have "mm_message_callback m \<noteq> None" using deliver.prems by (simp add: wired_inv_def)
  note * = dispatch_claim_session [OF deliver(3) this]
  have "same_core m m'" using dispatch_claim_core [of m message] deliver(3) by simp
  from order_deliver [OF deliver(6) this deliver(2) *] show ?case by (cases claimed) simp_all
next
  case (other m m' b h)
  then show ?case by (elim order_core) (simp_all add: same_core_def)
qed

lemma mqtt_step_inv: "mqtt_step k t x y \<Longrightarrow> mqtt_inv k fid qid x \<Longrightarrow> mqtt_inv k fid qid y"
  unfolding mqtt_inv_def using mqtt_step_wired mqtt_step_task mqtt_step_subscription mqtt_step_order by blast

lemma mqtt_run_inv: "mqtt_run k x y \<Longrightarrow> mqtt_inv k fid qid x \<Longrightarrow> mqtt_inv k fid qid y"
  unfolding mqtt_run_def by (induction rule: rtranclp_induct) (auto intro: mqtt_step_inv)

end
