(* ===== verification/Mqtt_Calls.thy ===== *)
theory Mqtt_Calls imports Mqtt_Protocol
begin

text \<open>
  The functions of \<open>mqtt_manager.c\<close> follow the protocol, whatever other tasks do where they are
  preempted or block. \<open>follows\<close> is a Hoare triple over the programs of the state monad: from a point of
  the protocol where the precondition holds, the program runs the protocol to one where the
  postcondition holds. Assertions speak of what other tasks leave alone (\<open>steady\<close>).
\<close>

section \<open>What other tasks leave alone\<close>

definition holds_fence :: "mqtt_task \<Rightarrow> mqtt_point \<Rightarrow> bool" where
  "holds_fence t x \<longleftrightarrow> b_fence (fst (snd x)) = Some t"

definition event_at :: "mqtt_phase \<Rightarrow> mqtt_command option \<Rightarrow> (mqtt_rx_assembly \<Rightarrow> bool) \<Rightarrow> mqtt_point \<Rightarrow> bool" where
  "event_at phase claimed R x \<longleftrightarrow> (case x of (m, b, h) \<Rightarrow> h_phase h = phase \<and> h_claimed h = claimed \<and> R (mm_rx m))"

definition hand_at :: "mqtt_dispatch_message option \<Rightarrow> mqtt_command list \<Rightarrow> mqtt_point \<Rightarrow> bool" where
  "hand_at hand delivered x \<longleftrightarrow> h_hand (snd (snd x)) = hand \<and> h_delivered (snd (snd x)) = delivered"

lemma other_step_fence: "mqtt_step k u x y \<Longrightarrow> u \<noteq> t \<Longrightarrow> holds_fence t y = holds_fence t x"
  by (induction rule: mqtt_step.induct) (auto simp: holds_fence_def)

lemma other_step_event: "mqtt_step k u x y \<Longrightarrow> u \<noteq> Event_Task \<Longrightarrow> event_at p c R y = event_at p c R x"
proof (induction rule: mqtt_step.induct)
  case (replace b existing m m' h)
  then show ?case using section_results(3) [OF replace(3)] by (simp add: event_at_def)
next
  case (start_failed b m h client)
  then show ?case using start_failed_fields(3) [of client m] by (simp add: event_at_def)
next
  case (deliver h message m claimed m' b)
  then have "mm_rx m' = mm_rx m" using dispatch_claim_core [of m message] by simp
  then show ?case by (simp add: event_at_def)
qed (auto simp: event_at_def)

lemma other_step_hand: "mqtt_step k u x y \<Longrightarrow> u \<noteq> Dispatch_Task \<Longrightarrow> hand_at c d y = hand_at c d x"
  by (induction rule: mqtt_step.induct) (auto simp: hand_at_def)

lemma other_step_session:
  "mqtt_step k u x y \<Longrightarrow> u \<noteq> t \<Longrightarrow> holds_fence t x \<Longrightarrow> task_inv x \<Longrightarrow> session_current session (fst x) \<Longrightarrow> session_current session (fst y)"
proof (induction rule: mqtt_step.induct)
  case (claim b h client m now r m')
  then show ?case by (simp add: holds_fence_def)
next
  case (drop h c m b slot sequence)
  then show ?case by (simp add: holds_fence_def task_inv_def)
next
  case (failure h rest m b)
  then show ?case by (simp add: holds_fence_def task_inv_def)
next
  case (subscribe h topic rest message_id m m' b)
  then show ?case by (simp add: holds_fence_def task_inv_def)
next
  case (deliver h message m claimed m' b)
  then have "same_core m m'" using dispatch_claim_core [of m message] by simp
  then show ?case using deliver by (simp add: session_current_def same_core_def)
qed (auto simp: holds_fence_def session_current_def subscribed_order same_core_def subscribe_reset_section_def
      subscriptions_done_section_def)

definition rely_stable :: "mqtt_kconfig \<Rightarrow> mqtt_task \<Rightarrow> (mqtt_point \<Rightarrow> bool) \<Rightarrow> bool" where
  "rely_stable k t P \<longleftrightarrow> (\<forall>x y. mqtt_others_run k t x y \<and> task_inv x \<and> P x \<longrightarrow> P y)"

lemma stableI:
  assumes "\<And>u x y. mqtt_step k u x y \<Longrightarrow> u \<noteq> t \<Longrightarrow> task_inv x \<Longrightarrow> P x \<Longrightarrow> P y"
  shows "rely_stable k t P"
proof -
  have "task_inv y \<and> P y" if "mqtt_others_run k t x y" "task_inv x" "P x" for x y
    using that unfolding mqtt_others_run_def by (induction rule: rtranclp_induct) (blast intro: assms mqtt_step_task)+
  then show ?thesis unfolding rely_stable_def by blast
qed

text \<open>Steady assertions survive the steps of other tasks and the task's own that change nothing of the
  protocol: they do not speak of the module's state, its assembly apart.\<close>

definition steady :: "mqtt_kconfig \<Rightarrow> mqtt_task \<Rightarrow> (mqtt_point \<Rightarrow> bool) \<Rightarrow> bool" where
  "steady k t P \<longleftrightarrow> rely_stable k t P \<and> (\<forall>m m' b h. mm_rx m' = mm_rx m \<longrightarrow> P (m', b, h) = P (m, b, h))"

named_theorems steady_intros

lemma steady_stable: "steady k t P \<Longrightarrow> rely_stable k t P"
  by (simp add: steady_def)

lemma steady_true [steady_intros]: "steady k t (\<lambda>x. c)"
  by (simp add: steady_def rely_stable_def)

lemma steady_conj [steady_intros]: "steady k t P \<Longrightarrow> steady k t Q \<Longrightarrow> steady k t (\<lambda>x. P x \<and> Q x)"
  unfolding steady_def rely_stable_def by blast

lemma steady_fence [steady_intros]: "steady k t (holds_fence t)" "steady k t (\<lambda>x. \<not> holds_fence t x)"
  unfolding steady_def by (auto intro!: stableI simp: other_step_fence) (simp_all add: holds_fence_def)

lemma steady_event [steady_intros]: "steady k Event_Task (event_at p c R)"
  unfolding steady_def by (auto intro!: stableI simp: other_step_event) (simp_all add: event_at_def)

lemma steady_hand [steady_intros]: "steady k Dispatch_Task (hand_at c d)"
  unfolding steady_def by (auto intro!: stableI simp: other_step_hand) (simp_all add: hand_at_def)

lemma stable_session: "rely_stable k t (\<lambda>x. holds_fence t x \<and> session_current session (fst x))"
  by (rule stableI) (metis other_step_fence other_step_session)

section \<open>The environment of a task\<close>

text \<open>What the fence and the queue hold is read off the world; their handles are the ones the module was
  initialised with.\<close>

record 'w mqtt_view =
  mv_bus :: "'w \<Rightarrow> mqtt_bus"
  mv_fence_id :: nat
  mv_queue_id :: nat

definition point :: "'w mqtt_view \<Rightarrow> mqtt_manager \<times> 'w \<Rightarrow> mqtt_history \<Rightarrow> mqtt_point" where
  "point v n h = (fst n, mv_bus v (snd n), h)"

abbreviation mqtt_good :: "mqtt_kconfig \<Rightarrow> 'w mqtt_view \<Rightarrow> mqtt_point \<Rightarrow> bool" where
  "mqtt_good k v \<equiv> mqtt_inv k (mv_fence_id v) (mv_queue_id v)"

definition leaves :: "mqtt_kconfig \<Rightarrow> 'w mqtt_view \<Rightarrow> mqtt_task \<Rightarrow> mqtt_manager \<times> 'w \<Rightarrow> mqtt_manager \<times> 'w \<Rightarrow> bool" where
  "leaves k v t n n' \<longleftrightarrow>
     (\<forall>h. mqtt_good k v (point v n h) \<longrightarrow> (\<exists>h'. mqtt_others_run k t (point v n h) (point v n' h')))"

definition quiet :: "'w mqtt_view \<Rightarrow> ('w \<Rightarrow> 'r \<times> 'w) \<Rightarrow> bool" where
  "quiet v f \<longleftrightarrow> (\<forall>w. mv_bus v (snd (f w)) = mv_bus v w)"

text \<open>The fence is a mutex: it is granted when no task holds it, always to a task that waits without
  limit.\<close>

definition fence_env :: "mqtt_kconfig \<Rightarrow> 'w mqtt_view \<Rightarrow> mqtt_task \<Rightarrow> 'w mqtt_ops \<Rightarrow> bool" where
  "fence_env k v t ops \<longleftrightarrow>
     (\<forall>ticks n n' h. b_fence (mv_bus v (snd n)) \<noteq> Some t \<longrightarrow> mqo_take ops (mv_fence_id v) ticks n = (True, n') \<longrightarrow>
        mqtt_good k v (point v n h) \<longrightarrow> (\<exists>b h'. mqtt_others_run k t (point v n h) (fst n', b, h') \<and>
          b_fence b = None \<and> mv_bus v (snd n') = b\<lparr>b_fence := Some t\<rparr>)) \<and>
     (\<forall>ticks n n'. b_fence (mv_bus v (snd n)) \<noteq> Some t \<longrightarrow> mqo_take ops (mv_fence_id v) ticks n = (False, n') \<longrightarrow>
        ticks \<noteq> portMAX_DELAY \<and> leaves k v t n n') \<and>
     (\<forall>id ticks n. id \<noteq> mv_fence_id v \<longrightarrow> leaves k v t n (snd (mqo_take ops id ticks n))) \<and>
     (\<forall>w. b_fence (mv_bus v w) = Some t \<longrightarrow> mv_bus v (mqo_give ops (mv_fence_id v) w) = (mv_bus v w)\<lparr>b_fence := None\<rparr>) \<and>
     (\<forall>id w. id \<noteq> mv_fence_id v \<longrightarrow> mv_bus v (mqo_give ops id w) = mv_bus v w)"

text \<open>The queue is first in, first out; a full one takes nothing.\<close>

definition queue_env :: "mqtt_kconfig \<Rightarrow> 'w mqtt_view \<Rightarrow> mqtt_task \<Rightarrow> 'w mqtt_ops \<Rightarrow> bool" where
  "queue_env k v t ops \<longleftrightarrow>
     (\<forall>message w w'. mqo_queue_send ops (mv_queue_id v) message w = (True, w') \<longrightarrow>
        mv_bus v w' = (mv_bus v w)\<lparr>b_queue := b_queue (mv_bus v w) @ [message]\<rparr>) \<and>
     (\<forall>message w w'. mqo_queue_send ops (mv_queue_id v) message w = (False, w') \<longrightarrow> mv_bus v w' = mv_bus v w) \<and>
     (\<forall>ticks n n'. mqo_queue_receive ops (mv_queue_id v) ticks n = (None, n') \<longrightarrow> leaves k v t n n') \<and>
     (\<forall>ticks n n' message h. mqo_queue_receive ops (mv_queue_id v) ticks n = (Some message, n') \<longrightarrow>
        mqtt_good k v (point v n h) \<longrightarrow> (\<exists>b h' rest. mqtt_others_run k t (point v n h) (fst n', b, h') \<and>
          b_queue b = message # rest \<and> mv_bus v (snd n') = b\<lparr>b_queue := rest\<rparr>))"

text \<open>ESP-MQTT and the clock leave the fence and the queue to the tasks.\<close>

definition client_env :: "mqtt_kconfig \<Rightarrow> 'w mqtt_view \<Rightarrow> mqtt_task \<Rightarrow> 'w mqtt_ops \<Rightarrow> bool" where
  "client_env k v t ops \<longleftrightarrow>
     (\<forall>n. leaves k v t n (mqo_others ops n)) \<and>
     (\<forall>id topic qos n. leaves k v t n (snd (mqo_subscribe_single ops id topic qos n))) \<and>
     (\<forall>id topic payload len qos retain n. leaves k v t n (snd (mqo_client_publish ops id topic payload len qos retain n))) \<and>
     (\<forall>id n. leaves k v t n (mqo_client_disconnect ops id n)) \<and> (\<forall>id n. leaves k v t n (mqo_client_destroy ops id n)) \<and>
     (\<forall>id n. leaves k v t n (snd (mqo_client_start ops id n))) \<and> (\<forall>ticks n. leaves k v t n (mqo_delay ops ticks n)) \<and>
     quiet v (mqo_timer_us ops) \<and> quiet v (mqo_time ops) \<and> (\<forall>id. quiet v (mqo_get_state ops id)) \<and>
     (\<forall>c. quiet v (mqo_client_init ops c)) \<and> (\<forall>id. quiet v (mqo_register_event ops id))"

definition mqtt_env :: "mqtt_kconfig \<Rightarrow> 'w mqtt_view \<Rightarrow> mqtt_task \<Rightarrow> 'w mqtt_ops \<Rightarrow> bool" where
  "mqtt_env k v t ops \<longleftrightarrow> fence_env k v t ops \<and> queue_env k v t ops \<and> client_env k v t ops"

section \<open>Programs that follow the protocol\<close>

definition follows :: "mqtt_kconfig \<Rightarrow> 'w mqtt_view \<Rightarrow> (mqtt_point \<Rightarrow> bool) \<Rightarrow> ('w, 'r) mqtt_program \<Rightarrow> ('r \<Rightarrow> mqtt_point \<Rightarrow> bool) \<Rightarrow> bool" where
  "follows k v P f Q \<longleftrightarrow> (\<forall>n h. mqtt_good k v (point v n h) \<and> P (point v n h) \<longrightarrow>
     (\<exists>h'. mqtt_run k (point v n h) (point v (snd (run_state f n)) h') \<and>
           Q (fst (run_state f n)) (point v (snd (run_state f n)) h')))"

lemma mqtt_run_refl [simp]: "mqtt_run k x x"
  by (simp add: mqtt_run_def)

lemma mqtt_run_trans: "mqtt_run k x y \<Longrightarrow> mqtt_run k y z \<Longrightarrow> mqtt_run k x z"
  unfolding mqtt_run_def by (rule rtranclp_trans)

lemma mqtt_run_step: "mqtt_step k t x y \<Longrightarrow> mqtt_run k x y"
  unfolding mqtt_run_def by (rule r_into_rtranclp) blast

lemma mqtt_others_run_run: "mqtt_others_run k t x y \<Longrightarrow> mqtt_run k x y"
  unfolding mqtt_others_run_def mqtt_run_def by (induction rule: rtranclp_induct) (auto intro: rtranclp.rtrancl_into_rtrancl)

lemma good_task: "mqtt_good k v x \<Longrightarrow> task_inv x"
  by (simp add: mqtt_inv_def)

lemma stableD: "rely_stable k t P \<Longrightarrow> mqtt_others_run k t x y \<Longrightarrow> mqtt_good k v x \<Longrightarrow> P x \<Longrightarrow> P y"
  unfolding rely_stable_def using good_task by blast

lemma followsI:
  assumes "\<And>n h. mqtt_good k v (point v n h) \<Longrightarrow> P (point v n h) \<Longrightarrow>
     \<exists>h'. mqtt_run k (point v n h) (point v (snd (run_state f n)) h') \<and> Q (fst (run_state f n)) (point v (snd (run_state f n)) h')"
  shows "follows k v P f Q"
  using assms unfolding follows_def by blast

lemma followsE:
  assumes "follows k v P f Q" and "mqtt_good k v (point v n h)" and "P (point v n h)"
  obtains h' where "mqtt_run k (point v n h) (point v (snd (run_state f n)) h')" "Q (fst (run_state f n)) (point v (snd (run_state f n)) h')"
    "mqtt_good k v (point v (snd (run_state f n)) h')"
  using assms mqtt_run_inv unfolding follows_def by blast

lemma follows_return: "(\<And>x. P x \<Longrightarrow> Q r x) \<Longrightarrow> follows k v P (State_Monad.return r) Q"
  unfolding follows_def by (metis mqtt_run_refl fst_conv snd_conv run_state_return)

lemma follows_bind:
  assumes "follows k v P f R" and "\<And>r. follows k v (R r) (g r) Q"
  shows "follows k v P (f \<bind> g) Q"
proof (rule followsI)
  fix n h assume "mqtt_good k v (point v n h)" "P (point v n h)"
  from followsE [OF assms(1) this] obtain h1 where 1: "mqtt_run k (point v n h) (point v (snd (run_state f n)) h1)"
    "R (fst (run_state f n)) (point v (snd (run_state f n)) h1)" "mqtt_good k v (point v (snd (run_state f n)) h1)" .
  from followsE [OF assms(2) 1(3,2)] show "\<exists>h'. mqtt_run k (point v n h) (point v (snd (run_state (f \<bind> g) n)) h') \<and>
      Q (fst (run_state (f \<bind> g) n)) (point v (snd (run_state (f \<bind> g) n)) h')"
    using mqtt_run_trans [OF 1(1)] by (simp add: case_prod_beta) blast
qed

lemma follows_conseq:
  "follows k v P f Q \<Longrightarrow> (\<And>x. P' x \<Longrightarrow> P x) \<Longrightarrow> (\<And>r x. Q r x \<Longrightarrow> Q' r x) \<Longrightarrow> follows k v P' f Q'"
  unfolding follows_def by blast

lemma follows_if: "(c \<Longrightarrow> follows k v P f Q) \<Longrightarrow> (\<not> c \<Longrightarrow> follows k v P g Q) \<Longrightarrow> follows k v P (if c then f else g) Q"
  by simp

lemma follows_option:
  "(z = None \<Longrightarrow> follows k v P f Q) \<Longrightarrow> (\<And>y. z = Some y \<Longrightarrow> follows k v P (g y) Q) \<Longrightarrow>
    follows k v P (case z of None \<Rightarrow> f | Some y \<Rightarrow> g y) Q"
  by (cases z) simp_all

lemma follows_prod: "(\<And>a b. z = (a, b) \<Longrightarrow> follows k v P (f a b) Q) \<Longrightarrow> follows k v P (case z of (a, b) \<Rightarrow> f a b) Q"
  by (cases z) simp_all

lemma follows_pre: "(c \<Longrightarrow> follows k v P f Q) \<Longrightarrow> follows k v (\<lambda>x. c \<and> P x) f Q"
  unfolding follows_def by blast

section \<open>Sections and calls\<close>

lemma env_simps:
  assumes "mqtt_env k v t ops"
  shows "leaves k v t n (mqo_others ops n)" "leaves k v t n (snd (mqo_subscribe_single ops i topic qos n))"
    "leaves k v t n (snd (mqo_client_publish ops i topic payload len qos retain n))"
    "leaves k v t n (mqo_client_disconnect ops i n)" "leaves k v t n (mqo_client_destroy ops i n)"
    "leaves k v t n (snd (mqo_client_start ops i n))" "leaves k v t n (mqo_delay ops ticks n)"
    "quiet v (mqo_timer_us ops)" "quiet v (mqo_time ops)" "quiet v (mqo_get_state ops i)"
    "quiet v (mqo_client_init ops c)" "quiet v (mqo_register_event ops i)"
  using assms by (simp_all add: mqtt_env_def client_env_def del: split_paired_All)

lemma leavesE:
  assumes "leaves k v t n n'" and "mqtt_good k v (point v n h)" and "rely_stable k t P" and "P (point v n h)"
  obtains h' where "mqtt_run k (point v n h) (point v n' h')" "P (point v n' h')"
  using assms stableD mqtt_others_run_run unfolding leaves_def by metis

lemma follows_block:
  assumes "\<And>n. leaves k v t n (snd (f n))" and "rely_stable k t P"
  shows "follows k v P (State f) (\<lambda>r. P)"
proof (rule followsI)
  fix n h assume "mqtt_good k v (point v n h)" "P (point v n h)"
  from leavesE [OF assms(1) this(1) assms(2) this(2)]
  show "\<exists>h'. mqtt_run k (point v n h) (point v (snd (run_state (State f) n)) h') \<and> P (point v (snd (run_state (State f) n)) h')"
    by simp blast
qed

lemma follows_blocking: "(\<And>n. leaves k v t n (f n)) \<Longrightarrow> rely_stable k t P \<Longrightarrow> follows k v P (blocking f) (\<lambda>r. P)"
  unfolding blocking_def by (rule follows_block [of k v t]) simp_all

lemma follows_preempt: "mqtt_env k v t ops \<Longrightarrow> rely_stable k t P \<Longrightarrow> follows k v P (preempt ops) (\<lambda>r. P)"
  unfolding preempt_def by (rule follows_blocking [of k v t]) (simp_all add: env_simps)

lemma follows_quiet: "quiet v f \<Longrightarrow> follows k v P (call f) (\<lambda>r. P)"
  by (rule followsI) (auto simp: quiet_def call_def point_def case_prod_beta intro: mqtt_run_refl)

lemma follows_critical:
  assumes "mqtt_env k v t ops"
    and "\<And>m b h. mqtt_good k v (m, b, h) \<Longrightarrow> P (m, b, h) \<Longrightarrow>
      \<exists>h'. mqtt_step k t (m, b, h) (snd (f m), b, h') \<and> Q (fst (f m)) (snd (f m), b, h')"
    and "\<And>r. rely_stable k t (Q r)"
  shows "follows k v P (critical ops f) Q"
proof (rule followsI)
  fix n h assume a: "mqtt_good k v (point v n h)" "P (point v n h)"
  let ?n = "(snd (f (fst n)), snd n)"
  from assms(2) [OF a [unfolded point_def]] obtain h1 where
    1: "mqtt_step k t (point v n h) (point v ?n h1)" "Q (fst (f (fst n))) (point v ?n h1)" by (auto simp: point_def)
  from leavesE [OF env_simps(1) [OF assms(1)] mqtt_step_inv [OF 1(1) a(1)] assms(3) 1(2)]
  obtain h2 where 2: "mqtt_run k (point v ?n h1) (point v (mqo_others ops ?n) h2)"
    "Q (fst (f (fst n))) (point v (mqo_others ops ?n) h2)" .
  have "run_state (critical ops f) n = (fst (f (fst n)), mqo_others ops ?n)" by (simp add: critical_def case_prod_beta)
  then show "\<exists>h'. mqtt_run k (point v n h) (point v (snd (run_state (critical ops f) n)) h') \<and>
      Q (fst (run_state (critical ops f) n)) (point v (snd (run_state (critical ops f) n)) h')"
    using mqtt_run_trans [OF mqtt_run_step [OF 1(1)] 2(1)] 2(2) by auto
qed

text \<open>A section that changes nothing of the protocol.\<close>

lemma follows_local:
  assumes "mqtt_env k v t ops" and "steady k t P"
    and "\<And>m. same_core m (snd (f m)) \<and> mm_rx (snd (f m)) = mm_rx m"
    and "\<And>m b h. mqtt_good k v (m, b, h) \<Longrightarrow> P (m, b, h) \<Longrightarrow> R (fst (f m))"
  shows "follows k v P (critical ops f) (\<lambda>r x. R r \<and> P x)"
proof (rule follows_critical [OF assms(1)])
  fix m b h assume "mqtt_good k v (m, b, h)" "P (m, b, h)"
  moreover have "mqtt_step k t (m, b, h) (snd (f m), b, h)" using assms(3) other by metis
  ultimately show "\<exists>h'. mqtt_step k t (m, b, h) (snd (f m), b, h') \<and> R (fst (f m)) \<and> P (snd (f m), b, h')"
    using assms(2,3,4) unfolding steady_def by blast
next
  show "rely_stable k t (\<lambda>x. R r \<and> P x)" for r by (intro steady_stable steady_conj steady_true assms(2))
qed

lemma follows_edit:
  assumes "mqtt_env k v t ops" and "steady k t P" and "\<And>m. same_core m (f m) \<and> mm_rx (f m) = mm_rx m"
  shows "follows k v P (critical ops (edit f)) (\<lambda>r. P)"
  by (rule follows_conseq [OF follows_local [OF assms(1,2), where R = "\<lambda>_. True"]]) (simp_all add: edit_def assms(3))

lemma same_core_refl [simp]: "same_core m m"
  by (simp add: same_core_def)

lemma follows_peek:
  assumes "mqtt_env k v t ops" and "steady k t P" and "\<And>m b h. mqtt_good k v (m, b, h) \<Longrightarrow> P (m, b, h) \<Longrightarrow> R (f m)"
  shows "follows k v P (critical ops (peek f)) (\<lambda>r x. R r \<and> P x)"
  by (rule follows_local [OF assms(1,2)]) (simp_all add: peek_def assms(3))

section \<open>The fence\<close>

definition unfenced :: "(mqtt_point \<Rightarrow> bool) \<Rightarrow> bool" where
  "unfenced P \<longleftrightarrow> (\<forall>m b h f. P (m, b\<lparr>b_fence := f\<rparr>, h) = P (m, b, h))"

lemma unfenced [steady_intros]:
  "unfenced (\<lambda>x. c)" "unfenced (event_at p cl R)" "unfenced (hand_at u d)"
  "unfenced P \<Longrightarrow> unfenced Q \<Longrightarrow> unfenced (\<lambda>x. P x \<and> Q x)"
  by (auto simp: unfenced_def event_at_def hand_at_def)

text \<open>A take of the fence from \<open>P\<close>, and its return: the event task returns it between its transactions.\<close>

lemma follows_take:
  assumes "mqtt_env k v t ops" and "rely_stable k t P" and "unfenced P"
  shows "follows k v (\<lambda>x. \<not> holds_fence t x \<and> P x) (State (mqo_take ops (mv_fence_id v) ticks))
    (\<lambda>r x. (r \<or> ticks \<noteq> portMAX_DELAY) \<and> holds_fence t x = r \<and> P x)"
proof (rule followsI)
  fix n h assume a: "mqtt_good k v (point v n h)" "\<not> holds_fence t (point v n h) \<and> P (point v n h)"
  have s: "rely_stable k t (\<lambda>x. \<not> holds_fence t x \<and> P x)" using assms(2) steady_fence(2) [THEN steady_stable] unfolding rely_stable_def by blast
  obtain r n' where r: "mqo_take ops (mv_fence_id v) ticks n = (r, n')"
    by (cases "mqo_take ops (mv_fence_id v) ticks n")
  have f: "b_fence (mv_bus v (snd n)) \<noteq> Some t" using a(2) by (simp add: holds_fence_def point_def)
  show "\<exists>h'. mqtt_run k (point v n h) (point v (snd (run_state (State (mqo_take ops (mv_fence_id v) ticks)) n)) h') \<and>
      (fst (run_state (State (mqo_take ops (mv_fence_id v) ticks)) n) \<or> ticks \<noteq> portMAX_DELAY) \<and>
      holds_fence t (point v (snd (run_state (State (mqo_take ops (mv_fence_id v) ticks)) n)) h') =
        fst (run_state (State (mqo_take ops (mv_fence_id v) ticks)) n) \<and>
      P (point v (snd (run_state (State (mqo_take ops (mv_fence_id v) ticks)) n)) h')"
  proof (cases r)
    case True
    then have "mqo_take ops (mv_fence_id v) ticks n = (True, n')" using r by simp
    with f assms(1) a(1) obtain b h' where b: "mqtt_others_run k t (point v n h) (fst n', b, h')" "b_fence b = None"
      "mv_bus v (snd n') = b\<lparr>b_fence := Some t\<rparr>" unfolding mqtt_env_def fence_env_def by blast
    have "mqtt_step k t (fst n', b, h') (point v n' h')" unfolding point_def b(3) by (rule mqtt_step.take [OF b(2)])
    then have "mqtt_run k (point v n h) (point v n' h')" using mqtt_run_trans [OF mqtt_others_run_run [OF b(1)]] mqtt_run_step by blast
    moreover have "P (point v n' h')" using stableD [OF s b(1) a] assms(3) unfolding point_def b(3) unfenced_def by blast
    ultimately show ?thesis using r True b(3) by (auto simp: holds_fence_def point_def)
  next
    case False
    then have "mqo_take ops (mv_fence_id v) ticks n = (False, n')" using r by simp
    with f assms(1) have l: "leaves k v t n n'" "ticks \<noteq> portMAX_DELAY" unfolding mqtt_env_def fence_env_def by blast+
    from leavesE [OF l(1) a(1) s a(2)] obtain h' where "mqtt_run k (point v n h) (point v n' h')"
      "\<not> holds_fence t (point v n' h') \<and> P (point v n' h')" .
    then show ?thesis using r False l(2) by auto
  qed
qed

definition between :: "mqtt_task \<Rightarrow> (mqtt_point \<Rightarrow> bool) \<Rightarrow> bool" where
  "between t P \<longleftrightarrow> (t = Event_Task \<longrightarrow> (\<forall>x. P x \<longrightarrow> h_phase (snd (snd x)) = Idle \<and> h_claimed (snd (snd x)) = None))"

lemma between_event [steady_intros]: "between t (event_at Idle None R)"
  by (auto simp: between_def event_at_def)

lemma between_other [steady_intros]: "t \<noteq> Event_Task \<Longrightarrow> between t P"
  by (simp add: between_def)

lemma follows_give:
  assumes "mqtt_env k v t ops" and "rely_stable k t P" and "unfenced P" and "between t P"
  shows "follows k v (\<lambda>x. holds_fence t x \<and> P x) (mqtt_manager_unlock_command_commits ops (Some (mv_fence_id v)))
    (\<lambda>r x. \<not> holds_fence t x \<and> P x)"
proof -
  have "follows k v (\<lambda>x. holds_fence t x \<and> P x) (tell (mqo_give ops (mv_fence_id v))) (\<lambda>r x. \<not> holds_fence t x \<and> P x)"
  proof (rule followsI)
    fix n h assume a: "holds_fence t (point v n h) \<and> P (point v n h)"
    then have "mv_bus v (mqo_give ops (mv_fence_id v) (snd n)) = (mv_bus v (snd n))\<lparr>b_fence := None\<rparr>"
      using assms(1) unfolding mqtt_env_def fence_env_def holds_fence_def point_def by simp
    moreover have "mqtt_step k t (point v n h) (fst n, (mv_bus v (snd n))\<lparr>b_fence := None\<rparr>, h)"
      unfolding point_def using a assms(4) by (intro mqtt_step.give) (auto simp: between_def holds_fence_def point_def)
    moreover have "P (fst n, (mv_bus v (snd n))\<lparr>b_fence := None\<rparr>, h)" using a assms(3) unfolding unfenced_def point_def by blast
    ultimately show "\<exists>h'. mqtt_run k (point v n h) (point v (snd (run_state (tell (mqo_give ops (mv_fence_id v))) n)) h') \<and>
        \<not> holds_fence t (point v (snd (run_state (tell (mqo_give ops (mv_fence_id v))) n)) h') \<and>
        P (point v (snd (run_state (tell (mqo_give ops (mv_fence_id v))) n)) h')"
      by (intro exI [of _ h]) (auto simp: tell_def call_def case_prod_beta point_def holds_fence_def intro: mqtt_run_step)
  qed
  then show ?thesis unfolding mqtt_manager_unlock_command_commits_def option.case
    by (rule follows_bind [OF _ follows_preempt [OF assms(1)]])
      (use assms(2) steady_fence(2) [THEN steady_stable] in \<open>auto simp: rely_stable_def\<close>)
qed

lemma follows_lock:
  assumes "mqtt_env k v t ops" and "steady k t P" and "unfenced P"
  shows "follows k v (\<lambda>x. \<not> holds_fence t x \<and> P x) (mqtt_manager_lock_command_commits ops)
    (\<lambda>r x. r = Some (mv_fence_id v) \<and> holds_fence t x \<and> P x)"
  unfolding mqtt_manager_lock_command_commits_def
proof (rule follows_bind)
  show "follows k v (\<lambda>x. \<not> holds_fence t x \<and> P x) (critical ops (peek mm_command_commit_mutex))
    (\<lambda>r x. r = Some (mv_fence_id v) \<and> \<not> holds_fence t x \<and> P x)"
    by (rule follows_peek [OF assms(1)]) (use assms(2) in \<open>auto intro: steady_intros simp: mqtt_inv_def wired_inv_def\<close>)
  fix r
  show "follows k v (\<lambda>x. r = Some (mv_fence_id v) \<and> \<not> holds_fence t x \<and> P x) (case r of None \<Rightarrow> State_Monad.return None
      | Some handle \<Rightarrow> State (mqo_take ops handle portMAX_DELAY) \<bind> (\<lambda>taken. State_Monad.return (if taken then Some handle else None)))
    (\<lambda>r x. r = Some (mv_fence_id v) \<and> holds_fence t x \<and> P x)"
    by (rule follows_pre) (simp, rule follows_bind [OF follows_take [OF assms(1) steady_stable [OF assms(2)] assms(3)]],
      rule follows_return, simp)
qed

end
