(* ===== verification/Mqtt_Refinement.thy ===== *)
theory Mqtt_Refinement imports Mqtt_Calls
begin

text \<open>
  Every function of \<open>mqtt_manager.c\<close> is a run of the protocol: the handler of ESP-MQTT's events on the
  event task, the body of the dispatch task, and the functions other tasks call.
\<close>

section \<open>The assembly\<close>

definition rx_ok :: "mqtt_rx_assembly \<Rightarrow> bool" where
  "rx_ok rx \<longleftrightarrow> length (rx_payload rx) = MQTT_MANAGER_PAYLOAD_CAPACITY \<and>
     (rx_topic rx \<noteq> [] \<longrightarrow> 0 \<le> rx_total_len rx \<and> rx_total_len rx < int MQTT_MANAGER_PAYLOAD_CAPACITY)"

lemma rx_zero_ok [simp]: "rx_ok rx_zero"
  by (simp add: rx_ok_def rx_zero_def)

lemma rx_begin_ok:
  assumes "rx_begin event g = (done', rx)" and "0 \<le> ev_total_data_len event"
  shows "rx_ok rx"
  using assms by (auto simp: rx_begin_def rx_ok_def rx_zero_def invalid_payload_def Let_def split: if_splits)

lemma length_copy_at:
  "offset + length bytes \<le> length buffer \<Longrightarrow> length (copy_at offset bytes buffer) = length buffer"
  by (simp add: copy_at_def)

lemma rx_accept_ok:
  assumes "rx_accept event g rx = (complete, rx')" and "rx_ok rx" and "0 \<le> ev_current_data_offset event" and "0 \<le> ev_data_len event"
    and "0 \<le> ev_total_data_len event"
  shows "rx_ok rx' \<and> (complete \<longrightarrow> rx_topic rx' \<noteq> [] \<and> rx_connection_generation rx' = g)"
proof (cases "rx_dropping rx")
  case True
  then show ?thesis using assms by (auto simp: rx_accept_def rx_ok_def rx_zero_def Let_def split: if_splits)
next
  case False
  let ?o = "ev_current_data_offset event" and ?c = "ev_data_len event" and ?t = "ev_total_data_len event"
  show ?thesis
  proof (cases "rx_topic rx = [] \<or> rx_connection_generation rx \<noteq> g \<or> ?t \<noteq> rx_total_len rx \<or>
           ?o \<noteq> rx_next_offset rx \<or> ?t < ?o \<or> ?t - ?o < ?c \<or> (0 < ?c \<and> ev_data event = None)")
    case True
    then have "rx_accept event g rx = (False, rx_zero)" using False by (auto simp: rx_accept_def Let_def)
    then show ?thesis using assms(1) by auto
  next
    case ok: False
    let ?p = "if 0 < ?c then copy_at (nat ?o) (take (nat ?c) (the (ev_data event))) (rx_payload rx) else rx_payload rx"
    have "nat ?o + length (take (nat ?c) (the (ev_data event))) \<le> length (rx_payload rx)"
      using ok assms(2-) by (auto simp: rx_ok_def)
    then have l: "length ?p = MQTT_MANAGER_PAYLOAD_CAPACITY" using length_copy_at [of "nat ?o"] assms(2) by (simp add: rx_ok_def)
    have "rx_accept event g rx = (let rx1 = rx\<lparr>rx_payload := ?p, rx_next_offset := rx_next_offset rx + ?c\<rparr>
        in if rx_next_offset rx1 = ?t then (True, rx1\<lparr>rx_payload := (rx_payload rx1)[nat ?t := NUL]\<rparr>) else (False, rx1))"
      using ok False unfolding rx_accept_def Let_def by presburger
    then show ?thesis using assms(1,2) ok l by (auto simp: rx_ok_def Let_def split: if_splits)
  qed
qed

lemma rx_fragment_ok:
  assumes "rx_fragment event g rx = (complete, rx')" and "rx_ok rx"
  shows "rx_ok rx' \<and> (complete \<longrightarrow> rx_topic rx' \<noteq> [] \<and> rx_connection_generation rx' = g)"
proof (cases "ev_total_data_len event < 0 \<or> ev_current_data_offset event < 0 \<or> ev_data_len event < 0")
  case True
  then show ?thesis using assms(1) by (auto simp: rx_fragment_def)
next
  case False
  obtain d rx1 where d: "rx_begin event g = (d, rx1)" by fastforce
  then have "rx_ok rx1" using rx_begin_ok [OF d] False by simp
  then show ?thesis using assms False d rx_accept_ok [of event g rx complete rx'] rx_accept_ok [of event g rx1 complete rx']
    by (auto simp: rx_fragment_def split: if_splits bool.splits)
qed

lemma fill_command:
  assumes "rx_ok (mm_rx m)" and "rx_topic (mm_rx m) \<noteq> []"
  shows "message_command (fst (fill_dispatch_scratch slot sequence now m)) = rx_command (mm_rx m)"
proof -
  let ?n = "nat (rx_total_len (mm_rx m))" and ?p = "rx_payload (mm_rx m)"
  have "?n < length ?p" using assms by (auto simp: rx_ok_def)
  then have "take ?n (copy_at 0 (take (?n + 1) ?p) buffer) = take ?n ?p" for buffer
    by (simp add: copy_at_def)
  then show ?thesis by (simp add: message_command_def fill_dispatch_scratch_def rx_command_def Let_def)
qed

section \<open>The event task\<close>

lemma fill_core: "same_core m (snd (fill_dispatch_scratch slot sequence now m)) \<and> mm_rx (snd (fill_dispatch_scratch slot sequence now m)) = mm_rx m"
  by (simp add: fill_dispatch_scratch_def same_core_def Let_def)

lemma claim_other: "enqueue_claim_section c g now m = ((False, r), m') \<Longrightarrow> same_core m m' \<and> mm_rx m' = mm_rx m"
  by (auto simp: enqueue_claim_section_def same_core_def Let_def split: if_splits option.splits)

lemma claim_queue: "enqueue_claim_section c g now m = ((cur, queue, r), m') \<Longrightarrow> queue = mm_dispatch_queue m"
  by (auto simp: enqueue_claim_section_def Let_def split: if_splits option.splits)

lemma follows_claim:
  assumes "mqtt_env k v Event_Task ops" and "rx_connection_generation a = g"
  shows "follows k v (\<lambda>x. holds_fence Event_Task x \<and> event_at Idle None ((=) a) x) (critical ops (enqueue_claim_section c g now))
    (\<lambda>r x. (fst (snd r) = Some (mv_queue_id v)) \<and> holds_fence Event_Task x \<and>
       event_at Idle (if fst r then Some (rx_command a) else None) ((=) a) x)"
proof (rule follows_critical [OF assms(1)])
  fix m b h assume a: "mqtt_good k v (m, b, h)" "holds_fence Event_Task (m, b, h) \<and> event_at Idle None ((=) a) (m, b, h)"
  obtain cur queue r m' where c: "enqueue_claim_section c g now m = ((cur, queue, r), m')" by (metis surj_pair)
  have q: "queue = Some (mv_queue_id v)" using claim_queue [OF c] a(1) by (simp add: mqtt_inv_def wired_inv_def)
  have rx: "mm_rx m = a" "h_phase h = Idle" "h_claimed h = None" "b_fence b = Some Event_Task"
    using a(2) by (simp_all add: event_at_def holds_fence_def)
  show "\<exists>h'. mqtt_step k Event_Task (m, b, h) (snd (enqueue_claim_section c g now m), b, h') \<and>
      fst (snd (fst (enqueue_claim_section c g now m))) = Some (mv_queue_id v) \<and>
      holds_fence Event_Task (snd (enqueue_claim_section c g now m), b, h') \<and>
      event_at Idle (if fst (fst (enqueue_claim_section c g now m)) then Some (rx_command a) else None) ((=) a)
        (snd (enqueue_claim_section c g now m), b, h')"
  proof (cases cur)
    case True
    with c have c': "enqueue_claim_section c g now m = ((True, queue, r), m')" by simp
    from enqueue_claim_current(5) [OF c'] rx have "mm_rx m' = a" by simp
    moreover have "mqtt_step k Event_Task (m, b, h) (m', b, h\<lparr>h_completed := h_completed h @ [rx_command (mm_rx m)],
        h_claimed := Some (rx_command (mm_rx m))\<rparr>)"
      using rx assms(2) c' by (intro mqtt_step.claim) simp_all
    ultimately show ?thesis using c' q rx by (auto simp: event_at_def holds_fence_def)
  next
    case False
    with c have c': "enqueue_claim_section c g now m = ((False, queue, r), m')" by simp
    from claim_other [OF c'] have "mqtt_step k Event_Task (m, b, h) (m', b, h)" by (intro other) simp_all
    then show ?thesis using c' q rx claim_other [OF c'] by (auto simp: event_at_def holds_fence_def)
  qed
next
  show "rely_stable k Event_Task (\<lambda>x. (fst (snd r) = Some (mv_queue_id v)) \<and> holds_fence Event_Task x \<and>
       event_at Idle (if fst r then Some (rx_command a) else None) ((=) a) x)" for r
    by (intro steady_stable steady_intros)
qed

lemma event_at_weaken: "event_at p c R x \<Longrightarrow> event_at p c (\<lambda>_. True) x"
  by (auto simp: event_at_def)

lemma follows_send:
  assumes "mqtt_env k v Event_Task ops"
  shows "follows k v (\<lambda>x. holds_fence Event_Task x \<and> event_at Idle (Some (message_command message)) R x)
    (call (mqo_queue_send ops (mv_queue_id v) message))
    (\<lambda>r x. holds_fence Event_Task x \<and> event_at Idle (if r then None else Some (message_command message)) R x)"
proof (rule followsI)
  fix n h assume a: "holds_fence Event_Task (point v n h) \<and> event_at Idle (Some (message_command message)) R (point v n h)"
  obtain r w' where r: "mqo_queue_send ops (mv_queue_id v) message (snd n) = (r, w')"
    by (cases "mqo_queue_send ops (mv_queue_id v) message (snd n)")
  have run: "run_state (call (mqo_queue_send ops (mv_queue_id v) message)) n = (r, (fst n, w'))"
    using r by (simp add: call_def case_prod_beta)
  show "\<exists>h'. mqtt_run k (point v n h) (point v (snd (run_state (call (mqo_queue_send ops (mv_queue_id v) message)) n)) h') \<and>
      holds_fence Event_Task (point v (snd (run_state (call (mqo_queue_send ops (mv_queue_id v) message)) n)) h') \<and>
      event_at Idle (if fst (run_state (call (mqo_queue_send ops (mv_queue_id v) message)) n) then None else Some (message_command message)) R
        (point v (snd (run_state (call (mqo_queue_send ops (mv_queue_id v) message)) n)) h')"
  proof (cases r)
    case True
    then have "mqo_queue_send ops (mv_queue_id v) message (snd n) = (True, w')" using r by simp
    then have b: "mv_bus v w' = (mv_bus v (snd n))\<lparr>b_queue := b_queue (mv_bus v (snd n)) @ [message]\<rparr>"
      using assms unfolding mqtt_env_def queue_env_def by blast
    have "mqtt_step k Event_Task (point v n h) (point v (fst n, w') (h\<lparr>h_claimed := None\<rparr>))"
      unfolding point_def fst_conv snd_conv b using a by (intro mqtt_step.send) (simp_all add: event_at_def point_def)
    then show ?thesis using a True b run mqtt_run_step by (intro exI [of _ "h\<lparr>h_claimed := None\<rparr>"]) (auto simp: event_at_def point_def holds_fence_def)
  next
    case False
    then have "mqo_queue_send ops (mv_queue_id v) message (snd n) = (False, w')" using r by simp
    then have b: "mv_bus v w' = mv_bus v (snd n)" using assms unfolding mqtt_env_def queue_env_def by blast
    then show ?thesis using a False run by (intro exI [of _ h]) (simp add: point_def)
  qed
qed

lemma follows_drop:
  assumes "mqtt_env k v Event_Task ops"
  shows "follows k v (\<lambda>x. holds_fence Event_Task x \<and> event_at Idle (Some c) R x)
    (critical ops (edit (enqueue_drop_section slot sequence))) (\<lambda>r x. holds_fence Event_Task x \<and> event_at Idle None R x)"
proof (rule follows_critical [OF assms])
  fix m b h assume "holds_fence Event_Task (m, b, h) \<and> event_at Idle (Some c) R (m, b, h)"
  then show "\<exists>h'. mqtt_step k Event_Task (m, b, h) (snd (edit (enqueue_drop_section slot sequence) m), b, h') \<and>
      holds_fence Event_Task (snd (edit (enqueue_drop_section slot sequence) m), b, h') \<and>
      event_at Idle None R (snd (edit (enqueue_drop_section slot sequence) m), b, h')"
    using mqtt_step.drop [of Event_Task h c k m b slot sequence] drop_fields(2) [of slot sequence m]
    by (intro exI [of _ "h\<lparr>h_claimed := None, h_epoch := h_epoch h + 1\<rparr>"]) (simp add: edit_def event_at_def holds_fence_def)
next
  show "rely_stable k Event_Task (\<lambda>x. holds_fence Event_Task x \<and> event_at Idle None R x)"
    by (intro steady_stable steady_intros)
qed

lemma follows_enqueue:
  assumes env: "mqtt_env k v Event_Task ops" and rx: "rx_ok a" "rx_topic a \<noteq> []" "rx_connection_generation a = g"
  shows "follows k v (\<lambda>x. \<not> holds_fence Event_Task x \<and> event_at Idle None ((=) a) x)
    (mqtt_manager_enqueue_assembled_message ops c g) (\<lambda>r x. \<not> holds_fence Event_Task x \<and> event_at Idle None (\<lambda>_. True) x)"
  unfolding mqtt_manager_enqueue_assembled_message_def
proof (rule follows_bind [OF follows_lock [OF env steady_event unfenced(2)]], rule follows_pre,
    rule follows_bind [OF follows_quiet [OF env_simps(8) [OF env]]], rule follows_bind [OF follows_claim [OF env rx(3)]],
    rule follows_pre, rule follows_prod, rule follows_prod, rule follows_prod)
  fix mutex now and claim :: "bool \<times> nat option \<times> nat option \<times> u32" and current qr queue sr slot sequence
  assume mutex: "mutex = Some (mv_fence_id v)" and claim: "fst (snd claim) = Some (mv_queue_id v)" "claim = (current, qr)"
    "qr = (queue, sr)" "sr = (slot, sequence)"
  have give: "follows k v (\<lambda>x. holds_fence Event_Task x \<and> event_at Idle None ((=) a) x)
      (mqtt_manager_unlock_command_commits ops mutex) (\<lambda>r x. \<not> holds_fence Event_Task x \<and> event_at Idle None (\<lambda>_. True) x)"
    unfolding mutex by (rule follows_conseq [OF follows_give [OF env steady_stable [OF steady_event] unfenced(2) between_event]])
      (auto intro: event_at_weaken)
  let ?P = "\<lambda>cl x. holds_fence Event_Task x \<and> event_at Idle cl ((=) a) x"
  have send: "follows k v (?P (Some (message_command message)))
      (if queue = None \<or> slot = None then State_Monad.return False else call (mqo_queue_send ops (the queue) message))
      (\<lambda>r. ?P (if r then None else Some (message_command message)))" for message
    by (rule follows_if; (rule follows_return)?) (use claim follows_send [OF env] in auto)
  have finish: "follows k v (?P (if sent then None else Some (message_command message)))
      (if sent then preempt ops else critical ops (edit (enqueue_drop_section slot sequence))) (\<lambda>r. ?P None)" for sent message
    by (cases sent) (simp_all add: follows_drop [OF env] follows_preempt [OF env] steady_stable steady_intros)
  show "follows k v (?P (if fst claim then Some (rx_command a) else None))
     (if \<not> current then mqtt_manager_unlock_command_commits ops mutex
      else critical ops (fill_dispatch_scratch slot sequence now) \<bind> (\<lambda>message.
       (if queue = None \<or> slot = None then State_Monad.return False else call (mqo_queue_send ops (the queue) message)) \<bind> (\<lambda>sent.
       (if sent then preempt ops else critical ops (edit (enqueue_drop_section slot sequence))) \<bind> (\<lambda>_.
       mqtt_manager_unlock_command_commits ops mutex))))
     (\<lambda>r x. \<not> holds_fence Event_Task x \<and> event_at Idle None (\<lambda>_. True) x)"
  proof (cases current)
    case False
    then show ?thesis using give claim by simp
  next
    case True
    have "follows k v (?P (Some (rx_command a))) (critical ops (fill_dispatch_scratch slot sequence now))
        (\<lambda>r x. message_command r = rx_command a \<and> ?P (Some (rx_command a)) x)"
      by (rule follows_local [OF env], intro steady_intros, rule fill_core) (use fill_command rx in \<open>auto simp: event_at_def\<close>)
    then have fill: "follows k v (?P (Some (rx_command a))) (critical ops (fill_dispatch_scratch slot sequence now))
        (\<lambda>r. ?P (Some (message_command r)))" by (rule follows_conseq) auto
    show ?thesis using True claim follows_bind [OF fill follows_bind [OF send follows_bind [OF finish give]]] by simp
  qed
qed

lemma follows_handle_data:
  assumes env: "mqtt_env k v Event_Task ops"
  shows "follows k v (\<lambda>x. \<not> holds_fence Event_Task x \<and> event_at Idle None rx_ok x)
    (mqtt_manager_handle_data_event ops event) (\<lambda>r x. \<not> holds_fence Event_Task x \<and> event_at Idle None rx_ok x)"
  unfolding mqtt_manager_handle_data_event_def
proof (rule follows_bind [OF follows_quiet [OF env_simps(8) [OF env]]])
  fix now
  let ?P = "\<lambda>x. \<not> holds_fence Event_Task x \<and> event_at Idle None rx_ok x"
  let ?Q = "\<lambda>g complete x. \<not> holds_fence Event_Task x \<and>
    event_at Idle None (\<lambda>rx. rx_ok rx \<and> (complete \<longrightarrow> rx_topic rx \<noteq> [] \<and> rx_connection_generation rx = g)) x"
  have reset: "follows k v (\<lambda>x. \<not> holds_fence Event_Task x \<and> event_at Idle None (\<lambda>_. True) x) (critical ops (edit mqtt_manager_rx_reset)) (\<lambda>r. ?P)"
  proof (rule follows_critical [OF env])
    fix m b h assume "\<not> holds_fence Event_Task (m, b, h) \<and> event_at Idle None (\<lambda>_. True) (m, b, h)"
    moreover have "mqtt_step k Event_Task (m, b, h) (mqtt_manager_rx_reset m, b, h)"
      by (rule other) (simp_all add: mqtt_manager_rx_reset_def same_core_def)
    ultimately show "\<exists>h'. mqtt_step k Event_Task (m, b, h) (snd (edit mqtt_manager_rx_reset m), b, h') \<and>
        ?P (snd (edit mqtt_manager_rx_reset m), b, h')"
      by (intro exI [of _ h]) (simp add: edit_def mqtt_manager_rx_reset_def event_at_def holds_fence_def)
  qed (intro steady_stable steady_intros)
  have sect: "follows k v ?P (critical ops (rx_section event g)) (?Q g)" for g
  proof (rule follows_critical [OF env])
    fix m b h assume a: "?P (m, b, h)"
    obtain complete rx where f: "rx_fragment event g (mm_rx m) = (complete, rx)" by fastforce
    have "mqtt_step k Event_Task (m, b, h) (m\<lparr>mm_rx := rx\<rparr>, b, h)" by (rule other) (simp_all add: same_core_def)
    then show "\<exists>h'. mqtt_step k Event_Task (m, b, h) (snd (rx_section event g m), b, h') \<and>
        ?Q g (fst (rx_section event g m)) (snd (rx_section event g m), b, h')"
      using f a rx_fragment_ok [OF f] by (intro exI [of _ h]) (simp add: rx_section_def event_at_def holds_fence_def)
  qed (intro steady_stable steady_intros)
  have enqueue: "follows k v (?Q g True) (mqtt_manager_enqueue_assembled_message ops (ev_client event) g)
      (\<lambda>r x. \<not> holds_fence Event_Task x \<and> event_at Idle None (\<lambda>_. True) x)" for g
    unfolding follows_def
  proof (intro allI impI)
    fix n h assume a: "mqtt_good k v (point v n h) \<and> ?Q g True (point v n h)"
    let ?rx = "mm_rx (fst n)"
    have "rx_ok ?rx" "rx_topic ?rx \<noteq> []" "rx_connection_generation ?rx = g" "\<not> holds_fence Event_Task (point v n h) \<and> event_at Idle None ((=) ?rx) (point v n h)"
      using a by (simp_all add: event_at_def point_def)
    then show "\<exists>h'. mqtt_run k (point v n h) (point v (snd (run_state (mqtt_manager_enqueue_assembled_message ops (ev_client event) g) n)) h') \<and>
        \<not> holds_fence Event_Task (point v (snd (run_state (mqtt_manager_enqueue_assembled_message ops (ev_client event) g) n)) h') \<and>
        event_at Idle None (\<lambda>_. True) (point v (snd (run_state (mqtt_manager_enqueue_assembled_message ops (ev_client event) g) n)) h')"
      using follows_enqueue [OF env] a unfolding follows_def by blast
  qed
  have current: "follows k v ?P (critical ops (data_current_section (ev_client event) now)) (\<lambda>r. ?P)"
    by (rule follows_conseq [OF follows_local [OF env, where R = "\<lambda>_. True" and P = ?P]])
      (auto intro!: steady_intros simp: data_current_section_def same_core_def Let_def)
  show "follows k v ?P (critical ops (data_current_section (ev_client event) now) \<bind> (\<lambda>(current_client, current_generation).
      if \<not> current_client then State_Monad.return () else critical ops (rx_section event current_generation) \<bind> (\<lambda>complete.
      if \<not> complete then State_Monad.return () else mqtt_manager_enqueue_assembled_message ops (ev_client event) current_generation \<bind> (\<lambda>_.
      critical ops (edit mqtt_manager_rx_reset))))) (\<lambda>r. ?P)"
  proof (rule follows_bind [OF current], rule follows_prod, rule follows_if, rule follows_return, assumption,
      rule follows_bind [OF sect])
    fix g complete
    show "follows k v (?Q g complete) (if \<not> complete then State_Monad.return () else mqtt_manager_enqueue_assembled_message ops (ev_client event) g \<bind>
        (\<lambda>_. critical ops (edit mqtt_manager_rx_reset))) (\<lambda>r. ?P)"
    proof (cases complete)
      case True
      then show ?thesis using follows_bind [OF enqueue reset] by simp
    next
      case False
      then show ?thesis by (simp add: follows_return event_at_def)
    qed
  qed
qed

section \<open>Subscriptions\<close>

text \<open>The event task within its fence, with the topics that remain to be subscribed.\<close>

abbreviation remaining :: "string option list \<Rightarrow> mqtt_point \<Rightarrow> bool" where
  "remaining topics \<equiv> \<lambda>x. holds_fence Event_Task x \<and> event_at (Subscribing topics) None rx_ok x"

lemma steady_remaining [steady_intros]: "steady k Event_Task (remaining topics)"
  by (intro steady_intros)

lemma follows_failure:
  assumes env: "mqtt_env k v Event_Task ops"
  shows "follows k v (remaining (t # rest)) (mqtt_manager_mark_subscription_failure ops) (\<lambda>r. remaining rest)"
  unfolding mqtt_manager_mark_subscription_failure_def
proof (rule follows_critical [OF env])
  fix m b h assume a: "remaining (t # rest) (m, b, h)"
  then have "mqtt_step k Event_Task (m, b, h) (mark_failure_section m, b, h\<lparr>h_phase := Subscribing (tl (t # rest))\<rparr>)"
    by (intro mqtt_step.failure) (simp_all add: event_at_def)
  then show "\<exists>h'. mqtt_step k Event_Task (m, b, h) (snd (edit mark_failure_section m), b, h') \<and>
      remaining rest (snd (edit mark_failure_section m), b, h')"
    using a by (intro exI [of _ "h\<lparr>h_phase := Subscribing rest\<rparr>"]) (simp add: edit_def event_at_def holds_fence_def mark_failure_section_def)
qed (intro steady_stable steady_intros)

lemma follows_record:
  assumes env: "mqtt_env k v Event_Task ops" and id: "\<not> message_id < 0"
  shows "follows k v (remaining (Some topic # rest)) (critical ops (subscribe_record_section message_id)) (\<lambda>r. remaining rest)"
proof (rule follows_critical [OF env])
  fix m b h assume a: "remaining (Some topic # rest) (m, b, h)"
  obtain ok m' where s: "subscribe_record_section message_id m = (ok, m')" by (cases "subscribe_record_section message_id m")
  show "\<exists>h'. mqtt_step k Event_Task (m, b, h) (snd (subscribe_record_section message_id m), b, h') \<and>
      remaining rest (snd (subscribe_record_section message_id m), b, h')"
  proof (cases ok)
    case True
    then have s': "subscribe_record_section message_id m = (True, m')" using s by simp
    have "mqtt_step k Event_Task (m, b, h) (m', b, h\<lparr>h_phase := Subscribing rest, h_requested := h_requested h @ [(topic, message_id)]\<rparr>)"
      using a id s' by (intro mqtt_step.subscribe) (simp_all add: event_at_def)
    then show ?thesis using a s' subscribe_fields(2) [OF s']
      by (intro exI [of _ "h\<lparr>h_phase := Subscribing rest, h_requested := h_requested h @ [(topic, message_id)]\<rparr>"])
        (simp add: event_at_def holds_fence_def)
  next
    case False
    then have m': "m' = mark_failure_section m" using s by (auto simp: subscribe_record_section_def split: if_splits)
    have "mqtt_step k Event_Task (m, b, h) (m', b, h\<lparr>h_phase := Subscribing (tl (Some topic # rest))\<rparr>)"
      unfolding m' using a by (intro mqtt_step.failure) (simp_all add: event_at_def)
    then show ?thesis using a s m' by (intro exI [of _ "h\<lparr>h_phase := Subscribing rest\<rparr>"])
      (simp add: event_at_def holds_fence_def mark_failure_section_def)
  qed
qed (intro steady_stable steady_intros)

lemma follows_subscribe_required:
  assumes env: "mqtt_env k v Event_Task ops"
  shows "follows k v (remaining (Some topic # rest)) (mqtt_manager_subscribe_required ops client topic) (\<lambda>r. remaining rest)"
proof -
  have fail: "follows k v (remaining (Some topic # rest)) (mqtt_manager_mark_subscription_failure ops \<bind> (\<lambda>_. State_Monad.return False))
      (\<lambda>r. remaining rest)"
    by (rule follows_bind [OF follows_failure [OF env]], rule follows_return)
  have peek: "follows k v (remaining (Some topic # rest)) (critical ops (peek f)) (\<lambda>r. remaining (Some topic # rest))" for f :: "mqtt_manager \<Rightarrow> bool"
    by (rule follows_conseq [OF follows_peek [OF env steady_remaining, where R = "\<lambda>_. True"]]) simp_all
  have call: "follows k v (remaining (Some topic # rest)) (State (mqo_subscribe_single ops handle topic 1)) (\<lambda>r. remaining (Some topic # rest))" for handle
    by (rule follows_block [OF env_simps(2) [OF env] steady_stable [OF steady_remaining]])
  have recorded: "follows k v (remaining (Some topic # rest)) (if i < 0 then mqtt_manager_mark_subscription_failure ops \<bind> (\<lambda>_. State_Monad.return False)
      else critical ops (subscribe_record_section i)) (\<lambda>r. remaining rest)" for i
    by (rule follows_if [OF fail follows_record [OF env]])
  show ?thesis unfolding mqtt_manager_subscribe_required_def
    by (rule follows_option [OF fail], rule follows_if [OF fail], rule follows_bind [OF peek], rule follows_if [OF fail],
      rule follows_bind [OF call recorded])
qed

lemma follows_subscribe_formatted:
  assumes env: "mqtt_env k v Event_Task ops"
  shows "follows k v (remaining (topic # rest)) (mqtt_manager_subscribe_formatted ops client topic) (\<lambda>r. remaining rest)"
  unfolding mqtt_manager_subscribe_formatted_def
  by (rule follows_option, rule follows_bind [OF follows_failure [OF env]], rule follows_return, assumption)
    (simp add: follows_subscribe_required [OF env])

lemmas subscribe_defs = mqtt_manager_subscribe_node_def mqtt_manager_subscribe_legacy_def
  mqtt_manager_subscribe_node_literal_def mqtt_manager_subscribe_legacy_literal_def

lemma follows_ignore: "follows k v P f (\<lambda>r. Q) \<Longrightarrow> follows k v P (ignore_result f) (\<lambda>r. Q)"
  unfolding ignore_result_def by (rule follows_bind, assumption, rule follows_return)

lemma follows_when:
  assumes "follows k v (remaining (t # rest)) f (\<lambda>r. remaining rest)"
  shows "follows k v (remaining ((if c then [t] else []) @ rest)) (subscribe_when c f) (\<lambda>r. remaining rest)"
  using follows_ignore [OF assms] by (simp add: subscribe_when_def follows_return)

lemma follows_for_each:
  assumes "\<And>x rest. follows k v (remaining (f x @ rest)) (body x) (\<lambda>r. remaining rest)"
  shows "follows k v (remaining (concat (map f xs) @ rest)) (for_each body xs) (\<lambda>r. remaining rest)"
proof (induction xs)
  case Nil
  then show ?case by (simp add: follows_return)
next
  case (Cons x xs)
  show ?case using follows_bind [OF assms [of x "concat (map f xs) @ rest"] Cons] by simp
qed

lemma follows_subscribe_fan:
  assumes env: "mqtt_env k v Event_Task ops"
  shows "follows k v (remaining (fan_topics k fan @ rest)) (subscribe_fan k ops client fan) (\<lambda>r. remaining rest)"
proof -
  note one = follows_subscribe_formatted [OF env]
  let ?legacy = "if mqk_legacy_topics k then [legacy_topic_for k (fan_suffix ''/set'' fan)] else []"
  let ?legacy2 = "if mqk_legacy_topics k then [legacy_topic_for k (fan_suffix ''/percentage/set'' fan)] else []"
  let ?tach = "if mqk_tach_feedback k then [node_topic_for k (fan_suffix ''/alarm/clear'' fan)] else []"
  have split: "fan_topics k fan @ rest = node_topic_for k (fan_suffix ''/set'' fan) # node_topic_for k (fan_suffix ''/percentage/set'' fan) #
      ?tach @ ?legacy @ ?legacy2 @ rest" by (simp add: fan_topics_def)
  show ?thesis unfolding split subscribe_fan_def subscribe_defs node_topic_for_def [symmetric] legacy_topic_for_def [symmetric]
    by (rule follows_bind [OF follows_ignore [OF one]], rule follows_bind [OF follows_ignore [OF one]],
      rule follows_bind [OF follows_when [OF one]], rule follows_bind [OF follows_when [OF one]], rule follows_when [OF one])
qed

lemma follows_subscribe_schedule:
  assumes env: "mqtt_env k v Event_Task ops"
  shows "follows k v (remaining (schedule_topics k text @ rest)) (subscribe_schedule k ops client text) (\<lambda>r. remaining rest)"
proof -
  note one = follows_subscribe_formatted [OF env]
  have split: "schedule_topics k text @ rest = node_topic_for k text # (if mqk_legacy_topics k then [legacy_topic_for k text] else []) @ rest"
    by (simp add: schedule_topics_def)
  show ?thesis unfolding split subscribe_schedule_def subscribe_defs node_topic_for_def [symmetric] legacy_topic_for_def [symmetric]
    by (rule follows_bind [OF follows_ignore [OF one] follows_when [OF one]])
qed

lemma follows_subscribe_all:
  assumes env: "mqtt_env k v Event_Task ops"
  shows "follows k v (\<lambda>x. holds_fence Event_Task x \<and> event_at Opening None rx_ok x) (mqtt_manager_subscribe_all k ops client)
    (\<lambda>r. remaining [])"
proof -
  have reset: "follows k v (\<lambda>x. holds_fence Event_Task x \<and> event_at Opening None rx_ok x) (critical ops (edit subscribe_reset_section))
      (\<lambda>r. remaining (required_topics k))"
  proof (rule follows_critical [OF env])
    fix m b h assume a: "holds_fence Event_Task (m, b, h) \<and> event_at Opening None rx_ok (m, b, h)"
    let ?h = "h\<lparr>h_phase := Subscribing (required_topics k), h_requested := [], h_acked := []\<rparr>"
    have "mqtt_step k Event_Task (m, b, h) (subscribe_reset_section m, b, ?h)"
      using a by (intro mqtt_step.reset) (simp_all add: event_at_def)
    then show "\<exists>h'. mqtt_step k Event_Task (m, b, h) (snd (edit subscribe_reset_section m), b, h') \<and>
        remaining (required_topics k) (snd (edit subscribe_reset_section m), b, h')"
      using a by (intro exI [of _ ?h]) (simp add: edit_def event_at_def holds_fence_def subscribe_reset_section_def)
  qed (intro steady_stable steady_intros)
  note one = follows_subscribe_formatted [OF env]
  show ?thesis
  proof (cases "mqk_app_config k")
    case None
    then have "required_topics k = [None]" by (simp add: required_topics_def)
    then show ?thesis using follows_bind [OF reset, of "\<lambda>_. mqtt_manager_mark_subscription_failure ops" "\<lambda>_. remaining []"] follows_failure [OF env] None
      by (simp add: mqtt_manager_subscribe_all_def app_config_get_def)
  next
    case (Some config)
    let ?fans = "concat (map (\<lambda>i. fan_topics k (fan_index_start config + int i)) [0..<nat (fan_count config)])"
    let ?ota = "if mqk_ota k then [node_topic_for k ''ota/update''] else []"
    let ?schedule = "if mqk_schedule k then concat (map (schedule_topics k) schedule_suffixes) else []"
    have fans: "follows k v (remaining (?fans @ ?ota @ ?schedule))
        (for_each (\<lambda>i. subscribe_fan k ops client (fan_index_start config + int i)) [0..<nat (fan_count config)]) (\<lambda>r. remaining (?ota @ ?schedule))"
      by (rule follows_for_each [OF follows_subscribe_fan [OF env]])
    have ota: "follows k v (remaining (?ota @ ?schedule)) (subscribe_when (mqk_ota k) (mqtt_manager_subscribe_node_literal k ops client ''ota/update''))
        (\<lambda>r. remaining ?schedule)"
      unfolding subscribe_defs node_topic_for_def [symmetric] by (rule follows_when [OF one])
    have schedule: "follows k v (remaining ?schedule)
        (if mqk_schedule k then for_each (subscribe_schedule k ops client) schedule_suffixes else State_Monad.return ()) (\<lambda>r. remaining [])"
      using follows_for_each [of k v "schedule_topics k" "subscribe_schedule k ops client" schedule_suffixes "[]", OF follows_subscribe_schedule [OF env]]
      by (simp add: follows_return)
    have required: "required_topics k = ?fans @ ?ota @ ?schedule" using Some by (simp add: required_topics_def)
    show ?thesis unfolding mqtt_manager_subscribe_all_def app_config_get_def Some option.case
      by (rule follows_bind [OF reset [unfolded required]], rule follows_bind [OF fans], rule follows_bind [OF ota schedule])
  qed
qed

section \<open>The event handler\<close>

abbreviation event_idle :: "mqtt_point \<Rightarrow> bool" where
  "event_idle \<equiv> \<lambda>x. \<not> holds_fence Event_Task x \<and> event_at Idle None rx_ok x"

abbreviation event_fenced :: "mqtt_phase \<Rightarrow> mqtt_point \<Rightarrow> bool" where
  "event_fenced phase \<equiv> \<lambda>x. holds_fence Event_Task x \<and> event_at phase None rx_ok x"

lemma steady_event_idle [steady_intros]: "steady k Event_Task event_idle" "steady k Event_Task (event_fenced phase)"
  by (intro steady_intros)+

lemma follows_event_unlock:
  assumes env: "mqtt_env k v Event_Task ops"
  shows "follows k v (event_fenced Idle) (mqtt_manager_unlock_command_commits ops (Some (mv_fence_id v))) (\<lambda>r. event_idle)"
  by (rule follows_give [OF env steady_stable [OF steady_event] unfenced(2) between_event])

text \<open>A section of the event task that is one step of the protocol and leaves its own knowledge as it was.\<close>

lemma follows_event_section:
  assumes env: "mqtt_env k v Event_Task ops" and P: "P = event_idle \<or> P = event_fenced p"
    and "\<And>m b h. mqtt_good k v (m, b, h) \<Longrightarrow> P (m, b, h) \<Longrightarrow> \<exists>h'. mqtt_step k Event_Task (m, b, h) (snd (f m), b, h') \<and>
      h_phase h' = h_phase h \<and> h_claimed h' = h_claimed h \<and> mm_rx (snd (f m)) = mm_rx m"
  shows "follows k v P (critical ops f) (\<lambda>r. P)"
proof (rule follows_critical [OF env])
  fix m b h assume a: "mqtt_good k v (m, b, h)" "P (m, b, h)"
  from assms(3) [OF a] obtain h' where h': "mqtt_step k Event_Task (m, b, h) (snd (f m), b, h')" "h_phase h' = h_phase h"
    "h_claimed h' = h_claimed h" "mm_rx (snd (f m)) = mm_rx m" by blast
  then have "P (snd (f m), b, h')" using a(2) P by (auto simp: event_at_def holds_fence_def)
  then show "\<exists>h'. mqtt_step k Event_Task (m, b, h) (snd (f m), b, h') \<and> P (snd (f m), b, h')" using h'(1) by blast
qed (use P in \<open>auto intro!: steady_stable steady_intros\<close>)

lemma follows_connected:
  assumes env: "mqtt_env k v Event_Task ops"
  shows "follows k v event_idle (connected_event k ops event) (\<lambda>r. event_idle)"
proof -
  have opens: "follows k v (event_fenced Idle) (critical ops (connected_section c now)) (\<lambda>r. event_fenced (if r then Opening else Idle))" for c now
  proof (rule follows_critical [OF env])
    fix m b h assume a: "event_fenced Idle (m, b, h)"
    obtain ok m' where s: "connected_section c now m = (ok, m')" by (cases "connected_section c now m")
    show "\<exists>h'. mqtt_step k Event_Task (m, b, h) (snd (connected_section c now m), b, h') \<and>
        event_fenced (if fst (connected_section c now m) then Opening else Idle) (snd (connected_section c now m), b, h')"
    proof (cases ok)
      case True
      then have s': "connected_section c now m = (True, m')" using s by simp
      then have "mqtt_step k Event_Task (m, b, h) (m', b, h\<lparr>h_phase := Opening, h_epoch := h_epoch h + 1\<rparr>)"
        using a by (intro mqtt_step.connect) (simp_all add: event_at_def holds_fence_def)
      then show ?thesis using a s' section_results(1) [OF s'] by (intro exI [of _ "h\<lparr>h_phase := Opening, h_epoch := h_epoch h + 1\<rparr>"])
        (simp add: event_at_def holds_fence_def)
    next
      case False
      then have "snd (connected_section c now m) = m" "\<not> fst (connected_section c now m)"
        using s by (auto simp: connected_section_def split: if_splits)
      then show ?thesis using a by (intro exI [of _ h]) (simp add: mqtt_step.other)
    qed
  qed (auto intro!: steady_stable steady_intros)
  have closes: "follows k v (event_fenced (Subscribing [])) (critical ops (edit (subscriptions_done_section c))) (\<lambda>r. event_fenced Idle)" for c
  proof (rule follows_critical [OF env])
    fix m b h assume a: "event_fenced (Subscribing []) (m, b, h)"
    then have "mqtt_step k Event_Task (m, b, h) (subscriptions_done_section c m, b, h\<lparr>h_phase := Idle\<rparr>)"
      by (intro mqtt_step.close) (simp_all add: event_at_def)
    then show "\<exists>h'. mqtt_step k Event_Task (m, b, h) (snd (edit (subscriptions_done_section c) m), b, h') \<and>
        event_fenced Idle (snd (edit (subscriptions_done_section c) m), b, h')"
      using a by (intro exI [of _ "h\<lparr>h_phase := Idle\<rparr>"])
        (auto simp: edit_def event_at_def holds_fence_def subscriptions_done_section_def)
  qed (intro steady_stable steady_intros)
  show ?thesis unfolding connected_event_def
  proof (rule follows_bind [OF follows_quiet [OF env_simps(8) [OF env]]],
      rule follows_bind [OF follows_lock [OF env steady_event unfenced(2)]], rule follows_pre, rule follows_bind [OF opens])
    fix now mutex current
    assume mutex: "mutex = Some (mv_fence_id v)"
    show "follows k v (event_fenced (if current then Opening else Idle)) (if \<not> current then mqtt_manager_unlock_command_commits ops mutex
      else mqtt_manager_subscribe_all k ops (ev_client event) \<bind> (\<lambda>_. critical ops (edit (subscriptions_done_section (ev_client event))) \<bind>
        (\<lambda>_. mqtt_manager_unlock_command_commits ops mutex))) (\<lambda>r. event_idle)"
    proof (cases current)
      case True
      show ?thesis unfolding mutex
        using True follows_bind [OF follows_subscribe_all [OF env] follows_bind [OF closes follows_event_unlock [OF env]]] by simp
    next
      case False
      then show ?thesis using follows_event_unlock [OF env] mutex by simp
    qed
  qed
qed

lemma follows_disconnected:
  assumes env: "mqtt_env k v Event_Task ops"
  shows "follows k v event_idle (disconnected_event ops event) (\<lambda>r. event_idle)"
proof -
  have drops: "follows k v (event_fenced Idle) (critical ops (disconnected_section c)) (\<lambda>r. event_fenced Idle)" for c
  proof (rule follows_event_section [OF env disjI2 [OF refl]])
    fix m b h assume a: "event_fenced Idle (m, b, h)"
    obtain ok m' where s: "disconnected_section c m = (ok, m')" by (cases "disconnected_section c m")
    show "\<exists>h'. mqtt_step k Event_Task (m, b, h) (snd (disconnected_section c m), b, h') \<and>
      h_phase h' = h_phase h \<and> h_claimed h' = h_claimed h \<and> mm_rx (snd (disconnected_section c m)) = mm_rx m"
    proof (cases ok)
      case True
      then have s': "disconnected_section c m = (True, m')" using s by simp
      then have "mqtt_step k Event_Task (m, b, h) (m', b, h\<lparr>h_epoch := h_epoch h + 1\<rparr>)"
        using a by (intro mqtt_step.disconnect) (simp_all add: event_at_def holds_fence_def)
      then show ?thesis using s' section_results(2) [OF s'] by (intro exI [of _ "h\<lparr>h_epoch := h_epoch h + 1\<rparr>"]) simp
    next
      case False
      then have "snd (disconnected_section c m) = m" using s by (auto simp: disconnected_section_def split: if_splits)
      then show ?thesis by (intro exI [of _ h]) (simp add: mqtt_step.other)
    qed
  qed
  have reset: "follows k v event_idle (critical ops (edit mqtt_manager_rx_reset)) (\<lambda>r. event_idle)"
  proof (rule follows_critical [OF env])
    fix m b h assume a: "event_idle (m, b, h)"
    moreover have "mqtt_step k Event_Task (m, b, h) (mqtt_manager_rx_reset m, b, h)"
      by (rule other) (simp_all add: mqtt_manager_rx_reset_def same_core_def)
    ultimately show "\<exists>h'. mqtt_step k Event_Task (m, b, h) (snd (edit mqtt_manager_rx_reset m), b, h') \<and>
        event_idle (snd (edit mqtt_manager_rx_reset m), b, h')"
      by (intro exI [of _ h]) (simp add: edit_def mqtt_manager_rx_reset_def event_at_def holds_fence_def)
  qed (intro steady_stable steady_intros)
  show ?thesis unfolding disconnected_event_def
    by (rule follows_bind [OF follows_lock [OF env steady_event unfenced(2)]], rule follows_pre, rule follows_bind [OF drops],
      simp only:, rule follows_bind [OF follows_event_unlock [OF env]], rule follows_if [OF reset], rule follows_return)
qed

lemma follows_event_handler:
  assumes env: "mqtt_env k v Event_Task ops"
  shows "follows k v event_idle (mqtt_manager_event_handler k ops event_id event_data) (\<lambda>r. event_idle)"
proof (cases event_data)
  case None
  then show ?thesis by (simp add: mqtt_manager_event_handler_def follows_return)
next
  case (Some event)
  have suback: "follows k v event_idle (critical ops (edit (subscribed_section event now))) (\<lambda>r. event_idle)" for now
  proof (rule follows_event_section [OF env disjI1 [OF refl]])
    fix m b h assume a: "event_idle (m, b, h)"
    have rx: "mm_rx (subscribed_section event now m) = mm_rx m"
      by (cases rule: remove_pending_cases [of "ev_msg_id event" m]) (auto simp: subscribed_section_def mark_failure_section_def Let_def)
    let ?h = "if ev_client event = mm_client m \<and> fst (mqtt_manager_remove_pending_subscription_locked (ev_msg_id event) m) \<and> suback_accepted event
      then h\<lparr>h_acked := h_acked h @ [ev_msg_id event]\<rparr> else h"
    have "mqtt_step k Event_Task (m, b, h) (subscribed_section event now m, b, ?h)"
      using a by (intro mqtt_step.suback) (simp_all add: event_at_def)
    then show "\<exists>h'. mqtt_step k Event_Task (m, b, h) (snd (edit (subscribed_section event now) m), b, h') \<and>
      h_phase h' = h_phase h \<and> h_claimed h' = h_claimed h \<and> mm_rx (snd (edit (subscribed_section event now) m)) = mm_rx m"
      using rx by (intro exI [of _ ?h]) (simp add: edit_def)
  qed
  have puback: "follows k v event_idle (critical ops (edit (published_section c now))) (\<lambda>r. event_idle)" for c now
    by (rule follows_edit [OF env steady_event_idle(1)]) (simp add: published_section_def same_core_def)
  have "follows k v event_idle (preempt ops) (\<lambda>r. event_idle)"
    by (rule follows_preempt [OF env steady_stable [OF steady_event_idle(1)]])
  moreover note follows_connected [OF env, of event] follows_disconnected [OF env, of event] follows_handle_data [OF env, of event]
    follows_bind [OF follows_quiet [OF env_simps(8) [OF env]] suback] follows_bind [OF follows_quiet [OF env_simps(8) [OF env]] puback]
  ultimately show ?thesis unfolding mqtt_manager_event_handler_def Some option.case
    by (cases event_id) (simp_all only: mqtt_event_id.case follows_return)
qed

section \<open>The dispatch task\<close>

text \<open>What the dispatch task knows: it holds no fence, and what it has in hand and has delivered.\<close>

abbreviation dispatcher :: "mqtt_dispatch_message option \<Rightarrow> mqtt_command list \<Rightarrow> mqtt_point \<Rightarrow> bool" where
  "dispatcher hand delivered \<equiv> \<lambda>x. \<not> holds_fence Dispatch_Task x \<and> hand_at hand delivered x"

lemma steady_dispatcher [steady_intros]: "steady k Dispatch_Task (dispatcher hand delivered)"
  by (intro steady_intros)

lemma follows_receive:
  assumes env: "mqtt_env k v Dispatch_Task ops"
  shows "follows k v (dispatcher None d) (State (mqo_queue_receive ops (mv_queue_id v) ticks)) (\<lambda>r. dispatcher r d)"
proof (rule followsI)
  fix n h assume a: "mqtt_good k v (point v n h)" "dispatcher None d (point v n h)"
  obtain r n' where r: "mqo_queue_receive ops (mv_queue_id v) ticks n = (r, n')" by (cases "mqo_queue_receive ops (mv_queue_id v) ticks n")
  have "\<exists>h'. mqtt_run k (point v n h) (point v n' h') \<and> dispatcher r d (point v n' h')"
  proof (cases r)
    case None
    then have "mqo_queue_receive ops (mv_queue_id v) ticks n = (None, n')" using r by simp
    then have "leaves k v Dispatch_Task n n'" using env unfolding mqtt_env_def queue_env_def by blast
    from leavesE [OF this a(1) steady_stable [OF steady_dispatcher] a(2)] show ?thesis using None by blast
  next
    case (Some message)
    then have "mqo_queue_receive ops (mv_queue_id v) ticks n = (Some message, n')" using r by simp
    then obtain b h' rest where b: "mqtt_others_run k Dispatch_Task (point v n h) (fst n', b, h')" "b_queue b = message # rest"
      "mv_bus v (snd n') = b\<lparr>b_queue := rest\<rparr>" using env a(1) unfolding mqtt_env_def queue_env_def by blast
    have d: "dispatcher None d (fst n', b, h')" by (rule stableD [OF steady_stable [OF steady_dispatcher] b(1) a])
    then have "mqtt_step k Dispatch_Task (fst n', b, h') (point v n' (h'\<lparr>h_hand := Some message\<rparr>))"
      unfolding point_def b(3) using b(2) by (intro mqtt_step.receive) (simp_all add: hand_at_def)
    from mqtt_run_trans [OF mqtt_others_run_run [OF b(1)] mqtt_run_step [OF this]] show ?thesis
      using d Some b(3) by (intro exI [of _ "h'\<lparr>h_hand := Some message\<rparr>"]) (simp add: point_def holds_fence_def hand_at_def)
  qed
  then show "\<exists>h'. mqtt_run k (point v n h) (point v (snd (run_state (State (mqo_queue_receive ops (mv_queue_id v) ticks)) n)) h') \<and>
      dispatcher (fst (run_state (State (mqo_queue_receive ops (mv_queue_id v) ticks)) n)) d
        (point v (snd (run_state (State (mqo_queue_receive ops (mv_queue_id v) ticks)) n)) h')"
    using r by simp
qed

lemma follows_deliver:
  assumes env: "mqtt_env k v Dispatch_Task ops"
  shows "follows k v (dispatcher (Some message) d) (critical ops (dispatch_claim_section message))
    (\<lambda>r. dispatcher None (if r = None then d else d @ [message_command message]))"
proof (rule follows_critical [OF env])
  fix m b h assume a: "dispatcher (Some message) d (m, b, h)"
  obtain r m' where r: "dispatch_claim_section message m = (r, m')" by (cases "dispatch_claim_section message m")
  let ?h = "h\<lparr>h_hand := None, h_delivered := (if r = None then h_delivered h else h_delivered h @ [message_command message])\<rparr>"
  have "mqtt_step k Dispatch_Task (m, b, h) (m', b, ?h)" using a r by (intro mqtt_step.deliver) (simp_all add: hand_at_def)
  then show "\<exists>h'. mqtt_step k Dispatch_Task (m, b, h) (snd (dispatch_claim_section message m), b, h') \<and>
      dispatcher None (if fst (dispatch_claim_section message m) = None then d else d @ [message_command message])
        (snd (dispatch_claim_section message m), b, h')"
    using a r by (intro exI [of _ ?h] conjI) (simp_all add: hand_at_def holds_fence_def)
qed (intro steady_stable steady_intros)

lemma dispatch_sections_core:
  "same_core m (dispatch_heartbeat_section now m) \<and> mm_rx (dispatch_heartbeat_section now m) = mm_rx m"
  "same_core m (dispatch_idle_section now m) \<and> mm_rx (dispatch_idle_section now m) = mm_rx m"
  "same_core m (dispatch_done_section now m) \<and> mm_rx (dispatch_done_section now m) = mm_rx m"
  by (simp_all add: dispatch_heartbeat_section_def dispatch_idle_section_def dispatch_done_section_def same_core_def)

lemma follows_dispatch_take:
  assumes env: "mqtt_env k v Dispatch_Task ops"
  shows "follows k v (dispatcher None d) (dispatch_take ops (mv_queue_id v))
    (\<lambda>r. dispatcher None (case r of None \<Rightarrow> d | Some (message, callback) \<Rightarrow> d @ [message_command message]))"
proof -
  have idle: "follows k v (dispatcher None d) (call (mqo_timer_us ops) \<bind> (\<lambda>now. critical ops (edit (f now)) \<bind> (\<lambda>_. State_Monad.return None)))
      (\<lambda>r. dispatcher None (case r of None \<Rightarrow> d | Some (message, callback) \<Rightarrow> d @ [message_command message]))"
    if "\<And>now m. same_core m (f now m) \<and> mm_rx (f now m) = mm_rx m" for f
    by (rule follows_bind [OF follows_quiet [OF env_simps(8) [OF env]]],
      rule follows_bind [OF follows_edit [OF env steady_dispatcher that]], rule follows_return) simp
  show ?thesis unfolding dispatch_take_def
  proof (rule follows_bind [OF follows_receive [OF env]], rule follows_option)
    fix r :: "mqtt_dispatch_message option" assume "r = None"
    then show "follows k v (dispatcher r d) (call (mqo_timer_us ops) \<bind> (\<lambda>now. critical ops (edit (dispatch_heartbeat_section now)) \<bind>
        (\<lambda>_. State_Monad.return None))) (\<lambda>r. dispatcher None (case r of None \<Rightarrow> d | Some (message, callback) \<Rightarrow> d @ [message_command message]))"
      using idle [OF dispatch_sections_core(1)] by simp
  next
    fix r :: "mqtt_dispatch_message option" and message assume r: "r = Some message"
    show "follows k v (dispatcher r d) (critical ops (dispatch_claim_section message) \<bind> (\<lambda>claimed. case claimed of
        None \<Rightarrow> call (mqo_timer_us ops) \<bind> (\<lambda>now. critical ops (edit (dispatch_idle_section now)) \<bind> (\<lambda>_. State_Monad.return None))
      | Some callback \<Rightarrow> State_Monad.return (Some (message, callback))))
      (\<lambda>r. dispatcher None (case r of None \<Rightarrow> d | Some (message, callback) \<Rightarrow> d @ [message_command message]))"
      unfolding r
    proof (rule follows_bind [OF follows_deliver [OF env]], rule follows_option)
      fix claimed :: "(nat \<times> nat option) option" assume "claimed = None"
      then show "follows k v (dispatcher None (if claimed = None then d else d @ [message_command message]))
        (call (mqo_timer_us ops) \<bind> (\<lambda>now. critical ops (edit (dispatch_idle_section now)) \<bind> (\<lambda>_. State_Monad.return None)))
        (\<lambda>r. dispatcher None (case r of None \<Rightarrow> d | Some (message, callback) \<Rightarrow> d @ [message_command message]))"
        using idle [OF dispatch_sections_core(2)] by simp
    next
      fix claimed :: "(nat \<times> nat option) option" and callback assume "claimed = Some callback"
      then show "follows k v (dispatcher None (if claimed = None then d else d @ [message_command message]))
        (State_Monad.return (Some (message, callback)))
        (\<lambda>r. dispatcher None (case r of None \<Rightarrow> d | Some (message, callback) \<Rightarrow> d @ [message_command message]))"
        by (intro follows_return) (cases callback, simp)
    qed
  qed
qed

lemma follows_dispatch_finish:
  assumes env: "mqtt_env k v Dispatch_Task ops"
  shows "follows k v (dispatcher None d) (dispatch_finish ops) (\<lambda>r. dispatcher None d)"
  unfolding dispatch_finish_def
  by (rule follows_bind [OF follows_quiet [OF env_simps(8) [OF env]] follows_edit [OF env steady_dispatcher dispatch_sections_core(3)]])

section \<open>The functions other tasks call\<close>

abbreviation free :: "mqtt_task \<Rightarrow> mqtt_point \<Rightarrow> bool" where
  "free t \<equiv> \<lambda>x. \<not> holds_fence t x"

lemma follows_free_edit:
  assumes "mqtt_env k v t ops" and "\<And>m. same_core m (f m) \<and> mm_rx (f m) = mm_rx m"
  shows "follows k v (free t) (critical ops (edit f)) (\<lambda>r. free t)"
  by (rule follows_edit [OF assms(1) steady_fence(2) assms(2)])

lemma follows_free_section:
  assumes "mqtt_env k v t ops" and "\<And>m. same_core m (snd (f m)) \<and> mm_rx (snd (f m)) = mm_rx m"
  shows "follows k v (free t) (critical ops f) (\<lambda>r. free t)"
  by (rule follows_conseq [OF follows_local [OF assms(1) steady_fence(2) assms(2), where R = "\<lambda>_. True"]]) simp_all

lemma follows_free_peek: "mqtt_env k v t ops \<Longrightarrow> follows k v (free t) (critical ops (peek f)) (\<lambda>r. free t)"
  by (rule follows_free_section) (simp_all add: peek_def)

lemma follows_free_block:
  assumes "\<And>n. leaves k v t n (snd (f n))"
  shows "follows k v (free t) (State f) (\<lambda>r. free t)"
  by (rule follows_block [OF assms steady_stable [OF steady_fence(2)]])

lemma follows_free_blocking:
  assumes "\<And>n. leaves k v t n (f n)"
  shows "follows k v (free t) (blocking f) (\<lambda>r. free t)"
  by (rule follows_blocking [OF assms steady_stable [OF steady_fence(2)]])

text \<open>The lifecycle mutex is not the fence.\<close>

lemma follows_lifecycle_peek:
  assumes "mqtt_env k v t ops"
  shows "follows k v (free t) (critical ops (peek mm_lifecycle_mutex)) (\<lambda>r x. r \<noteq> Some (mv_fence_id v) \<and> free t x)"
  by (rule follows_peek [OF assms steady_fence(2)]) (simp add: mqtt_inv_def wired_inv_def)

lemma follows_take_lifecycle:
  assumes "mqtt_env k v t ops" and "mutex \<noteq> Some (mv_fence_id v)"
  shows "follows k v (free t) (take_lifecycle ops mutex ticks) (\<lambda>r. free t)"
  unfolding take_lifecycle_def
proof (rule follows_option)
  fix i assume "mutex = Some i"
  then have "i \<noteq> mv_fence_id v" using assms(2) by simp
  then have "leaves k v t n (snd (mqo_take ops i ticks n))" for n using assms(1) unfolding mqtt_env_def fence_env_def by blast
  then show "follows k v (free t) (State (mqo_take ops i ticks)) (\<lambda>r. free t)" by (rule follows_free_block)
qed (simp add: follows_return)

lemma follows_give_lifecycle:
  assumes "mqtt_env k v t ops" and "mutex \<noteq> Some (mv_fence_id v)"
  shows "follows k v (free t) (give_lifecycle ops mutex) (\<lambda>r. free t)"
  unfolding give_lifecycle_def
proof (rule follows_option)
  fix i assume "mutex = Some i"
  then have "quiet v (\<lambda>w. ((), mqo_give ops i w))" using assms unfolding mqtt_env_def fence_env_def quiet_def by auto
  then show "follows k v (free t) (tell (mqo_give ops i) \<bind> (\<lambda>_. preempt ops)) (\<lambda>r. free t)" unfolding tell_def
    by (rule follows_bind [OF follows_quiet follows_preempt [OF assms(1) steady_stable [OF steady_fence(2)]]])
qed (simp add: follows_return)

lemma follows_free_lock:
  assumes "mqtt_env k v t ops"
  shows "follows k v (free t) (mqtt_manager_lock_command_commits ops) (\<lambda>r x. r = Some (mv_fence_id v) \<and> holds_fence t x)"
  by (rule follows_conseq [OF follows_lock [OF assms steady_true unfenced(1), of True]]) simp_all

lemma follows_free_unlock:
  assumes "mqtt_env k v t ops" and "t \<noteq> Event_Task"
  shows "follows k v (holds_fence t) (mqtt_manager_unlock_command_commits ops (Some (mv_fence_id v))) (\<lambda>r. free t)"
  by (rule follows_conseq [OF follows_give [OF assms(1) steady_stable [OF steady_true] unfenced(1) between_other [OF assms(2)], of True]])
    simp_all

lemma follows_commit_begin:
  assumes env: "mqtt_env k v t ops" and t: "t \<noteq> Event_Task"
  shows "follows k v (free t) (mqtt_manager_command_commit_begin ops (Some session) ticks)
    (\<lambda>r x. if r = ESP_OK then holds_fence t x \<and> session_current session (fst x) else free t x)"
proof -
  let ?Q = "\<lambda>r x. if r = ESP_OK then holds_fence t x \<and> session_current session (fst x) else free t x"
  have check: "follows k v (holds_fence t) (critical ops (commit_check_section session))
      (\<lambda>r x. if r then holds_fence t x \<and> session_current session (fst x) else holds_fence t x)"
  proof (rule follows_critical [OF env])
    fix m b h assume a: "holds_fence t (m, b, h)"
    have "mqtt_step k t (m, b, h) (snd (commit_check_section session m), b, h)"
      by (rule other) (simp_all add: commit_check_section_def same_core_def)
    then show "\<exists>h'. mqtt_step k t (m, b, h) (snd (commit_check_section session m), b, h') \<and>
        (if fst (commit_check_section session m)
         then holds_fence t (snd (commit_check_section session m), b, h') \<and> session_current session (fst (snd (commit_check_section session m), b, h'))
         else holds_fence t (snd (commit_check_section session m), b, h'))"
      using a by (intro exI [of _ h]) (simp add: commit_check_section_def holds_fence_def)
  next
    show "rely_stable k t (\<lambda>x. if r then holds_fence t x \<and> session_current session (fst x) else holds_fence t x)" for r
      by (cases r) (simp_all add: stable_session steady_stable steady_fence)
  qed
  have refuse: "follows k v (holds_fence t) (mqtt_manager_unlock_command_commits ops (Some (mv_fence_id v)) \<bind>
      (\<lambda>_. State_Monad.return ESP_ERR_INVALID_STATE)) ?Q"
    by (rule follows_bind [OF follows_free_unlock [OF env t]], rule follows_return) simp
  have checked: "follows k v (if r then (\<lambda>x. holds_fence t x \<and> session_current session (fst x)) else holds_fence t)
      (if r then State_Monad.return ESP_OK else mqtt_manager_unlock_command_commits ops (Some (mv_fence_id v)) \<bind>
        (\<lambda>_. State_Monad.return ESP_ERR_INVALID_STATE)) ?Q" for r
    using refuse by (cases r) (simp_all add: follows_return)
  have taken: "follows k v (free t) (State (mqo_take ops (mv_fence_id v) ticks)) (\<lambda>r x. holds_fence t x = r)"
    by (rule follows_conseq [OF follows_take [OF env steady_stable [OF steady_true] unfenced(1), of True]]) simp_all
  have locked: "follows k v (\<lambda>x. holds_fence t x = r) (if \<not> r then State_Monad.return ESP_ERR_TIMEOUT
      else critical ops (commit_check_section session) \<bind> (\<lambda>current. if current then State_Monad.return ESP_OK
        else mqtt_manager_unlock_command_commits ops (Some (mv_fence_id v)) \<bind> (\<lambda>_. State_Monad.return ESP_ERR_INVALID_STATE))) ?Q" for r
  proof (cases r)
    case True
    have "follows k v (holds_fence t) (critical ops (commit_check_section session))
      (\<lambda>r. if r then (\<lambda>x. holds_fence t x \<and> session_current session (fst x)) else holds_fence t)"
      by (rule follows_conseq [OF check]) (simp_all split: if_splits)
    from follows_bind [OF this checked] show ?thesis using True by simp
  qed (simp add: follows_return)
  have handles: "follows k v (free t) (critical ops (peek (\<lambda>m. (mm_command_commit_mutex m, mm_initialized m))))
      (\<lambda>r x. r = (Some (mv_fence_id v), True) \<and> free t x)"
    by (rule follows_peek [OF env steady_fence(2)]) (simp add: mqtt_inv_def wired_inv_def)
  show ?thesis unfolding mqtt_manager_command_commit_begin_def option.case
  proof (rule follows_bind [OF handles], rule follows_pre, rule follows_prod)
    fix r mutex initialized assume "r = (Some (mv_fence_id v), True)" "r = (mutex, initialized)"
    then show "follows k v (free t) (case mutex of None \<Rightarrow> State_Monad.return ESP_ERR_INVALID_STATE | Some handle \<Rightarrow>
        if \<not> initialized then State_Monad.return ESP_ERR_INVALID_STATE else State (mqo_take ops handle ticks) \<bind> (\<lambda>taken.
        if \<not> taken then State_Monad.return ESP_ERR_TIMEOUT else critical ops (commit_check_section session) \<bind> (\<lambda>current.
        if current then State_Monad.return ESP_OK else mqtt_manager_unlock_command_commits ops (Some handle) \<bind>
          (\<lambda>_. State_Monad.return ESP_ERR_INVALID_STATE)))) ?Q"
      using follows_bind [OF taken locked] by simp
  qed
qed

lemma follows_commit_end:
  assumes env: "mqtt_env k v t ops" and t: "t \<noteq> Event_Task"
  shows "follows k v (holds_fence t) (mqtt_manager_command_commit_end ops) (\<lambda>r. free t)"
  unfolding mqtt_manager_command_commit_end_def
proof (rule follows_bind [OF follows_peek [OF env steady_fence(1), where R = "\<lambda>r. r = Some (mv_fence_id v)"]], simp add: mqtt_inv_def wired_inv_def,
    rule follows_pre)
  fix r assume "r = Some (mv_fence_id v)"
  then show "follows k v (holds_fence t) (mqtt_manager_unlock_command_commits ops r) (\<lambda>r. free t)"
    using follows_free_unlock [OF env t] by simp
qed

lemma follows_publish:
  assumes env: "mqtt_env k v t ops"
  shows "follows k v (free t) (mqtt_manager_publish ops topic payload qos retain) (\<lambda>r. free t)"
proof (cases topic; cases payload)
  fix tp p assume tp: "topic = Some tp" "payload = Some p"
  let ?send = "\<lambda>client connected. case client of None \<Rightarrow> State_Monad.return False
    | Some handle \<Rightarrow> if \<not> connected then State_Monad.return False else State (mqo_client_publish ops handle tp p 0 qos retain) \<bind>
        (\<lambda>message_id. if 0 \<le> message_id then State_Monad.return True
          else critical ops (edit publish_failed_section) \<bind> (\<lambda>_. State_Monad.return False))"
  have send: "follows k v (free t) (?send client connected) (\<lambda>r. free t)" for client connected
    by (rule follows_option, rule follows_return, assumption, rule follows_if, rule follows_return, assumption,
      rule follows_bind [OF follows_free_block [OF env_simps(3) [OF env]]], rule follows_if, rule follows_return, assumption,
      rule follows_bind [OF follows_free_edit [OF env]], simp add: publish_failed_section_def same_core_def, rule follows_return)
  show ?thesis unfolding mqtt_manager_publish_def tp prod.case option.case
  proof (rule follows_bind [OF follows_lifecycle_peek [OF env]], rule follows_pre, rule follows_bind [OF follows_take_lifecycle [OF env]],
      assumption, rule follows_if, rule follows_return, assumption, rule follows_bind [OF follows_free_peek [OF env]], rule follows_prod)
    fix mutex taken r client connected assume mutex: "mutex \<noteq> Some (mv_fence_id v)"
    show "follows k v (free t) (?send client connected \<bind> (\<lambda>sent. give_lifecycle ops mutex \<bind> (\<lambda>_. State_Monad.return sent))) (\<lambda>r. free t)"
      by (rule follows_bind [OF send], rule follows_bind [OF follows_give_lifecycle [OF env mutex]], rule follows_return)
  qed
qed (simp_all add: mqtt_manager_publish_def follows_return)

lemma follows_poll:
  assumes env: "mqtt_env k v t ops"
  shows "follows k v (free t) (mqtt_manager_poll k ops) (\<lambda>r. free t)"
proof -
  let ?offline = "\<lambda>handle. case app_config_format_node_topic (mqk_app_config k) MQTT_MANAGER_TOPIC_CAPACITY (Some ''status'') of
     None \<Rightarrow> State_Monad.return () | Some status_topic \<Rightarrow> ignore_result (State (mqo_client_publish ops handle status_topic ''offline'' 0 1 True)) \<bind>
       (\<lambda>_. blocking (mqo_delay ops (mqo_ms_to_ticks ops 100)))"
  have offline: "follows k v (free t) (?offline handle) (\<lambda>r. free t)" for handle
    by (rule follows_option, rule follows_return, assumption,
      rule follows_bind [OF follows_ignore [OF follows_free_block [OF env_simps(3) [OF env]]] follows_free_blocking [OF env_simps(7) [OF env]]])
  have section1: "follows k v (free t) (critical ops (poll_section k now)) (\<lambda>r. free t)" for now
    by (rule follows_free_section [OF env]) (simp add: poll_section_def same_core_def Let_def)
  let ?body = "\<lambda>disconnect client. case client of None \<Rightarrow> State_Monad.return () | Some handle \<Rightarrow> if \<not> disconnect then State_Monad.return ()
      else ?offline handle \<bind> (\<lambda>_. blocking (mqo_client_disconnect ops handle))"
  have body: "follows k v (free t) (?body disconnect client) (\<lambda>r. free t)" for disconnect client
    by (rule follows_option, rule follows_return, assumption, rule follows_if, rule follows_return, assumption,
      rule follows_bind [OF offline follows_free_blocking [OF env_simps(4) [OF env]]])
  show ?thesis unfolding mqtt_manager_poll_def
  proof (rule follows_bind [OF follows_lifecycle_peek [OF env]], rule follows_pre, rule follows_bind [OF follows_take_lifecycle [OF env]],
      assumption, rule follows_if, rule follows_return, assumption, rule follows_bind [OF follows_quiet [OF env_simps(8) [OF env]]],
      rule follows_bind [OF section1], rule follows_prod)
    fix mutex disconnect client assume mutex: "mutex \<noteq> Some (mv_fence_id v)"
    show "follows k v (free t) (?body disconnect client \<bind> (\<lambda>_. give_lifecycle ops mutex)) (\<lambda>r. free t)"
      by (rule follows_bind [OF body follows_give_lifecycle [OF env mutex]])
  qed
qed

lemma follows_start_prepare:
  assumes env: "mqtt_env k v t ops" and t: "t \<noteq> Event_Task"
  shows "follows k v (free t) (start_prepare ops existing_client) (\<lambda>r. free t)"
proof -
  have claims: "follows k v (free t) (critical ops claim_start_section \<bind>
      (\<lambda>claimed. State_Monad.return (if claimed then None else Some ESP_ERR_INVALID_STATE))) (\<lambda>r. free t)"
    by (rule follows_bind [OF follows_free_section [OF env]], simp add: claim_start_section_def same_core_def, rule follows_return)
  have alive: "follows k v (free t) (critical ops (edit (client_alive_section existing)) \<bind> (\<lambda>_. State_Monad.return (Some ESP_OK))) (\<lambda>r. free t)" for existing
    by (rule follows_bind [OF follows_free_edit [OF env]], simp add: client_alive_section_def same_core_def, rule follows_return)
  have grace: "follows k v (free t) (critical ops (stopped_grace_section existing now)) (\<lambda>r. free t)" for existing now
    by (rule follows_free_section [OF env]) (simp add: stopped_grace_section_def same_core_def)
  have replaces: "follows k v (holds_fence t) (critical ops (replace_section existing)) (\<lambda>r. holds_fence t)" for existing
  proof (rule follows_critical [OF env])
    fix m b h assume a: "holds_fence t (m, b, h)"
    obtain ok m' where s: "replace_section existing m = (ok, m')" by (cases "replace_section existing m")
    have "\<exists>h'. mqtt_step k t (m, b, h) (m', b, h')"
    proof (cases ok)
      case True
      then show ?thesis using s a t mqtt_step.replace [of t b existing m m' k h] by (auto simp: holds_fence_def)
    next
      case False
      then have "m' = m" using s by (auto simp: replace_section_def split: if_splits)
      then show ?thesis using mqtt_step.other [of m m t k b h] by auto
    qed
    then show "\<exists>h'. mqtt_step k t (m, b, h) (snd (replace_section existing m), b, h') \<and> holds_fence t (snd (replace_section existing m), b, h')"
      using a s by (simp add: holds_fence_def)
  qed (rule steady_stable [OF steady_fence(1)])
  show ?thesis unfolding start_prepare_def
    by (rule follows_option [OF claims], rule follows_bind [OF follows_quiet [OF env_simps(10) [OF env]]], rule follows_if [OF alive],
      rule follows_bind [OF follows_quiet [OF env_simps(8) [OF env]]], rule follows_bind [OF grace], rule follows_if, rule follows_return,
      assumption, rule follows_bind [OF follows_free_lock [OF env]], rule follows_pre, rule follows_bind [OF replaces], simp only:,
      rule follows_bind [OF follows_free_unlock [OF env t]], rule follows_if, rule follows_return, assumption,
      rule follows_bind [OF follows_free_blocking [OF env_simps(5) [OF env]]], rule follows_return)
qed

lemma follows_start_client:
  assumes env: "mqtt_env k v t ops" and t: "t \<noteq> Event_Task"
  shows "follows k v (free t) (start_client ops client) (\<lambda>r. free t)"
proof -
  have installed: "follows k v (free t) (critical ops (edit (client_installed_section client))) (\<lambda>r. free t)"
    by (rule follows_free_edit [OF env]) (simp add: client_installed_section_def same_core_def)
  have started: "follows k v (free t) (if registered = ESP_OK then State (mqo_client_start ops client) else State_Monad.return registered) (\<lambda>r. free t)" for registered
    by (rule follows_if [OF follows_free_block [OF env_simps(6) [OF env]]], rule follows_return)
  have failed: "follows k v (holds_fence t) (critical ops (edit (start_failed_section client))) (\<lambda>r. holds_fence t)"
  proof (rule follows_critical [OF env])
    fix m b h assume a: "holds_fence t (m, b, h)"
    then have "mqtt_step k t (m, b, h) (start_failed_section client m, b, h\<lparr>h_epoch := h_epoch h + 1\<rparr>)"
      using t by (intro mqtt_step.start_failed) (simp_all add: holds_fence_def)
    then show "\<exists>h'. mqtt_step k t (m, b, h) (snd (edit (start_failed_section client) m), b, h') \<and>
        holds_fence t (snd (edit (start_failed_section client) m), b, h')"
      using a by (intro exI [of _ "h\<lparr>h_epoch := h_epoch h + 1\<rparr>"]) (simp add: edit_def holds_fence_def)
  qed (rule steady_stable [OF steady_fence(1)])
  have over: "follows k v (free t) (critical ops (edit start_over_section)) (\<lambda>r. free t)"
    by (rule follows_free_edit [OF env]) (simp add: start_over_section_def same_core_def)
  have unwind: "follows k v (free t) (if err = ESP_OK then State_Monad.return () else
      mqtt_manager_lock_command_commits ops \<bind> (\<lambda>commit_mutex. critical ops (edit (start_failed_section client)) \<bind>
      (\<lambda>_. mqtt_manager_unlock_command_commits ops commit_mutex \<bind> (\<lambda>_. blocking (mqo_client_destroy ops client))))) (\<lambda>r. free t)" for err
    by (rule follows_if, rule follows_return, assumption, rule follows_bind [OF follows_free_lock [OF env]], rule follows_pre,
      rule follows_bind [OF failed], simp only:,
      rule follows_bind [OF follows_free_unlock [OF env t] follows_free_blocking [OF env_simps(5) [OF env]]])
  show ?thesis unfolding start_client_def
    by (rule follows_bind [OF installed], rule follows_bind [OF follows_quiet [OF env_simps(12) [OF env]]], rule follows_bind [OF started],
      rule follows_bind [OF unwind], rule follows_bind [OF over], rule follows_return)
qed

lemma follows_start_create:
  assumes env: "mqtt_env k v t ops" and t: "t \<noteq> Event_Task"
  shows "follows k v (free t) (start_create k ops config) (\<lambda>r. free t)"
proof -
  have identity: "follows k v (free t) (critical ops (format_identity_section k config)) (\<lambda>r. free t)"
    by (rule follows_free_section [OF env]) (simp add: format_identity_section_def same_core_def Let_def split: option.splits)
  have over: "follows k v (free t) (critical ops (edit start_over_section) \<bind> (\<lambda>_. State_Monad.return err)) (\<lambda>r. free t)" for err :: esp_err
    by (rule follows_bind [OF follows_free_edit [OF env]], simp add: start_over_section_def same_core_def, rule follows_return)
  show ?thesis unfolding start_create_def
    by (rule follows_bind [OF identity], rule follows_if [OF over], rule follows_bind [OF follows_free_peek [OF env]],
      rule follows_bind [OF follows_quiet [OF env_simps(11) [OF env]]], rule follows_option [OF over follows_start_client [OF env t]])
qed

lemma follows_start:
  assumes env: "mqtt_env k v t ops" and t: "t \<noteq> Event_Task"
  shows "follows k v (free t) (mqtt_manager_start k ops) (\<lambda>r. free t)"
proof -
  have tls: "follows k v (free t) (if mqtt_tls k then mqtt_manager_system_time_valid_for_tls ops else State_Monad.return True) (\<lambda>r. free t)"
    unfolding mqtt_manager_system_time_valid_for_tls_def
    by (rule follows_if, rule follows_bind [OF follows_quiet [OF env_simps(9) [OF env]]], (rule follows_return, assumption)+)
  have locked: "follows k v (free t) (mqtt_manager_start_locked k ops) (\<lambda>r. free t)"
    unfolding mqtt_manager_start_locked_def
    by (rule follows_bind [OF follows_free_peek [OF env]], rule follows_prod, rule follows_option, rule follows_return, assumption,
      rule follows_if, rule follows_return, assumption, rule follows_bind [OF tls], rule follows_if, rule follows_return, assumption,
      rule follows_bind [OF follows_start_prepare [OF env t]], rule follows_option, rule follows_start_create [OF env t], rule follows_return)
  have handles: "follows k v (free t) (critical ops (peek (\<lambda>m. (mm_lifecycle_mutex m, mm_initialized m))))
      (\<lambda>r x. fst r \<noteq> Some (mv_fence_id v) \<and> free t x)"
    by (rule follows_peek [OF env steady_fence(2)]) (simp add: mqtt_inv_def wired_inv_def)
  show ?thesis unfolding mqtt_manager_start_def
  proof (rule follows_bind [OF handles], rule follows_pre, rule follows_prod)
    fix r :: "nat option \<times> bool" and mutex initialized assume "fst r \<noteq> Some (mv_fence_id v)" "r = (mutex, initialized)"
    then have mutex: "mutex \<noteq> Some (mv_fence_id v)" by simp
    show "follows k v (free t) (if \<not> initialized \<or> mutex = None then State_Monad.return ESP_ERR_INVALID_STATE
      else take_lifecycle ops mutex portMAX_DELAY \<bind> (\<lambda>taken. if \<not> taken then State_Monad.return ESP_ERR_TIMEOUT
        else mqtt_manager_start_locked k ops \<bind> (\<lambda>err. give_lifecycle ops mutex \<bind> (\<lambda>_. State_Monad.return err)))) (\<lambda>r. free t)"
      by (rule follows_if, rule follows_return, assumption, rule follows_bind [OF follows_take_lifecycle [OF env mutex]], rule follows_if,
        rule follows_return, assumption, rule follows_bind [OF locked], rule follows_bind [OF follows_give_lifecycle [OF env mutex]], rule follows_return)
  qed
qed

lemma follows_readers:
  assumes env: "mqtt_env k v t ops"
  shows "follows k v (free t) (mqtt_manager_connected ops) (\<lambda>r. free t)" "follows k v (free t) (mqtt_manager_ready ops) (\<lambda>r. free t)"
    "follows k v (free t) (mqtt_manager_take_initial_publish ops) (\<lambda>r. free t)"
    "follows k v (free t) (mqtt_manager_begin_ack_window ops) (\<lambda>r. free t)"
proof -
  show "follows k v (free t) (mqtt_manager_connected ops) (\<lambda>r. free t)" "follows k v (free t) (mqtt_manager_ready ops) (\<lambda>r. free t)"
    unfolding mqtt_manager_connected_def mqtt_manager_ready_def by (rule follows_free_peek [OF env])+
  show "follows k v (free t) (mqtt_manager_take_initial_publish ops) (\<lambda>r. free t)" unfolding mqtt_manager_take_initial_publish_def
    by (rule follows_free_section [OF env]) (simp add: take_initial_publish_section_def same_core_def)
  show "follows k v (free t) (mqtt_manager_begin_ack_window ops) (\<lambda>r. free t)" unfolding mqtt_manager_begin_ack_window_def
    by (rule follows_bind [OF follows_quiet [OF env_simps(8) [OF env]] follows_free_edit [OF env]]) (simp add: same_core_def)
qed

lemma follows_health:
  fixes v :: "'w mqtt_view"
  assumes env: "mqtt_env k v t ops"
  shows "follows k v (free t) (mqtt_manager_health_snapshot ops) (\<lambda>r. free t)"
proof -
  have reads: "follows k v (free t) (call (\<lambda>w. (f w, w))) (\<lambda>r. free t)" for f :: "'w \<Rightarrow> 'b"
    by (rule follows_quiet) (simp add: quiet_def)
  have client: "follows k v (free t) (case client of None \<Rightarrow> State_Monad.return 0 | Some handle \<Rightarrow> call (\<lambda>w. (mqo_outbox_size ops handle w, w))) (\<lambda>r. free t)" for client
    by (rule follows_option, rule follows_return, assumption, rule reads)
  have outbox: "follows k v (free t) (health_outbox ops mutex exists) (\<lambda>r. free t)" if "mutex \<noteq> Some (mv_fence_id v)" for mutex exists
    unfolding health_outbox_def
    by (rule follows_bind [OF follows_take_lifecycle [OF env that]], rule follows_if, rule follows_return, assumption,
      rule follows_bind [OF follows_free_peek [OF env]], rule follows_bind [OF client],
      rule follows_bind [OF follows_give_lifecycle [OF env that]], rule follows_return)
  have handles: "follows k v (free t) (critical ops (peek (\<lambda>m.
       (health_section m, mm_client m \<noteq> None, mm_dispatch_queue m, mm_dispatch_task m, mm_lifecycle_mutex m))))
      (\<lambda>r x. snd (snd (snd (snd r))) \<noteq> Some (mv_fence_id v) \<and> free t x)"
    by (rule follows_peek [OF env steady_fence(2)]) (simp add: mqtt_inv_def wired_inv_def)
  show ?thesis unfolding mqtt_manager_health_snapshot_def
    by (rule follows_bind [OF handles], rule follows_pre, (rule follows_prod)+, rule follows_bind [OF follows_quiet], simp add: quiet_def,
      rule follows_bind [OF follows_quiet], simp add: quiet_def, rule follows_bind [OF outbox], simp, rule follows_return)
qed

end
