(* ===== verification/Mqtt_Simulation.thy ===== *)
theory Mqtt_Simulation imports Mqtt_Refinement
begin

text \<open>
  The protocol from the end of the initialisation on, and for the witnesses: a node of one fan, a world
  in which only one task runs, and a run of the protocol that connects, subscribes, and delivers one
  command.
\<close>

section \<open>Reachable points\<close>

definition history_zero :: mqtt_history where
  "history_zero = \<lparr>h_phase = Idle, h_requested = [], h_acked = [], h_epoch = 0, h_completed = [], h_claimed = None,
     h_hand = None, h_delivered = []\<rparr>"

definition bus_zero :: mqtt_bus where
  "bus_zero = \<lparr>b_fence = None, b_queue = []\<rparr>"

text \<open>After \<open>mqtt_manager_init\<close>, whose mutexes are two.\<close>

definition mqtt_reachable :: "mqtt_kconfig \<Rightarrow> nat \<Rightarrow> nat \<Rightarrow> mqtt_point \<Rightarrow> bool" where
  "mqtt_reachable k fence_id queue_id x \<longleftrightarrow> (\<exists>callback context' task lifecycle_mutex. lifecycle_mutex \<noteq> fence_id \<and>
     mqtt_run k (init_commit_section callback context' queue_id task lifecycle_mutex fence_id mqtt_manager_boot, bus_zero, history_zero) x)"

lemma initialised_inv:
  assumes "lifecycle_mutex \<noteq> fence_id"
  shows "mqtt_inv k fence_id queue_id
    (init_commit_section callback context' queue_id task lifecycle_mutex fence_id mqtt_manager_boot, bus_zero, history_zero)"
  using assms by (simp add: mqtt_inv_def wired_inv_def task_inv_def subscription_inv_def order_inv_def init_commit_section_def
    mqtt_manager_boot_def bus_zero_def history_zero_def in_flight_def)

lemma mqtt_reachable_inv: "mqtt_reachable k fence_id queue_id x \<Longrightarrow> mqtt_inv k fence_id queue_id x"
  unfolding mqtt_reachable_def using mqtt_run_inv initialised_inv by blast

lemma mqtt_reachable_run: "mqtt_reachable k fence_id queue_id x \<Longrightarrow> mqtt_run k x y \<Longrightarrow> mqtt_reachable k fence_id queue_id y"
  unfolding mqtt_reachable_def using mqtt_run_trans by blast

section \<open>A world with one task\<close>

definition sim_app_config :: app_config where
  "sim_app_config = \<lparr>fan_count = 1, fan_index_start = 1, min_spin_pct = 15, ramp_step_pct = 3, ramp_tick_ms = 20,
     dshot_gpios = [5], tach_gpios = [4], topology_fp = 7, mqtt_root_topic = ''farm'', node_id = ''n1'', node_topic = ''farm/n1''\<rparr>"

definition sim_mqtt_kconfig :: mqtt_kconfig where
  "sim_mqtt_kconfig = \<lparr>mqk_broker_uri = ''mqtts://b'', mqk_username = [], mqk_password = [], mqk_outbox_limit_bytes = 16384,
     mqk_subscribe_timeout_ms = 10000, mqk_tach_feedback = False, mqk_legacy_topics = False, mqk_ota = False,
     mqk_schedule = False, mqk_app_config = Some sim_app_config\<rparr>"

type_synonym 'x mqtt_world = "'x \<times> bool \<times> mqtt_dispatch_message list"

text \<open>The world of the other modules is beside it. The fence has handle 2, the queue 3; the clock stands at 5 s and every subscription has identifier 9.\<close>

definition sim_mqtt_ops :: "'x mqtt_world mqtt_ops" where
  "sim_mqtt_ops = \<lparr>mqo_others = (\<lambda>n. n), mqo_create_mutex = (\<lambda>w. (Some 1, w)), mqo_delete_mutex = (\<lambda>_ w. w),
     mqo_take = (\<lambda>i _ (m, x, held, q). if i = 2 then (\<not> held, (m, x, True, q)) else (True, (m, x, held, q))),
     mqo_give = (\<lambda>i (x, held, q). if i = 2 then (x, False, q) else (x, held, q)),
     mqo_queue_create = (\<lambda>_ w. (Some 3, w)), mqo_queue_delete = (\<lambda>_ w. w),
     mqo_queue_send = (\<lambda>_ message (x, held, q). (True, (x, held, q @ [message]))),
     mqo_queue_receive = (\<lambda>_ _ (m, x, held, q). case q of [] \<Rightarrow> (None, (m, x, held, [])) | message # rest \<Rightarrow> (Some message, (m, x, held, rest))),
     mqo_queue_waiting = (\<lambda>_ (x, held, q). length q), mqo_task_create = (\<lambda>_ w. (Some 4, w)), mqo_stack_bytes = (\<lambda>_ _. 1024),
     mqo_ms_to_ticks = (\<lambda>ms. ms div 10), mqo_delay = (\<lambda>_ n. n), mqo_timer_us = (\<lambda>w. (5000000, w)),
     mqo_time = (\<lambda>w. (1800000000, w)), mqo_client_init = (\<lambda>_ w. (Some 5, w)), mqo_register_event = (\<lambda>_ w. (ESP_OK, w)),
     mqo_client_start = (\<lambda>_ n. (ESP_OK, n)), mqo_client_destroy = (\<lambda>_ n. n),
     mqo_get_state = (\<lambda>_ w. (MQTT_CLIENT_STATE_CONNECTED, w)), mqo_subscribe_single = (\<lambda>_ _ _ n. (9, n)),
     mqo_client_publish = (\<lambda>_ _ _ _ _ _ n. (7, n)), mqo_client_disconnect = (\<lambda>_ n. n), mqo_outbox_size = (\<lambda>_ _. 0),
     mqo_call_callback = (\<lambda>_ _ _ _ _ _ _ n. Some n)\<rparr>"

definition sim_mqtt_view :: "mqtt_task \<Rightarrow> 'x mqtt_world mqtt_view" where
  "sim_mqtt_view t = \<lparr>mv_bus = (\<lambda>(x, held, q). \<lparr>b_fence = (if held then Some t else None), b_queue = q\<rparr>), mv_fence_id = 2, mv_queue_id = 3\<rparr>"

text \<open>With nothing beside it.\<close>

abbreviation sim_alone_view :: "mqtt_task \<Rightarrow> unit mqtt_world mqtt_view" where
  "sim_alone_view \<equiv> sim_mqtt_view"

lemma leaves_refl [simp]: "leaves k v t n n"
  unfolding leaves_def mqtt_others_run_def by blast

lemma sim_mqtt_env: "mqtt_env k (sim_mqtt_view t :: 'x mqtt_world mqtt_view) t sim_mqtt_ops"
proof -
  let ?v = "sim_mqtt_view t :: 'x mqtt_world mqtt_view"
  have "\<exists>b h'. mqtt_others_run k t (point ?v n h) (fst n', b, h') \<and> b_fence b = None \<and> mv_bus ?v (snd n') = b\<lparr>b_fence := Some t\<rparr>"
    if "b_fence (mv_bus ?v (snd n)) \<noteq> Some t" "mqo_take sim_mqtt_ops 2 ticks n = (True, n')" for ticks n n' h
    using that by (cases n; cases "snd n"; cases "snd (snd n)")
      (auto simp: sim_mqtt_view_def sim_mqtt_ops_def point_def mqtt_others_run_def intro!: exI [of _ h] exI [of _ "\<lparr>b_fence = None, b_queue = snd (snd (snd n))\<rparr>"])
  moreover have "fst (mqo_take sim_mqtt_ops 2 ticks n)" if "b_fence (mv_bus ?v (snd n)) \<noteq> Some t" for ticks n
    using that by (cases n; cases "snd n"; cases "snd (snd n)") (auto simp: sim_mqtt_view_def sim_mqtt_ops_def split: if_splits)
  moreover have "leaves k ?v t n (snd (mqo_take sim_mqtt_ops i ticks n))" if "i \<noteq> 2" for i ticks n
    using that by (cases n; cases "snd n"; cases "snd (snd n)") (simp add: sim_mqtt_ops_def)
  moreover have "mv_bus ?v (mqo_give sim_mqtt_ops 2 w) = (mv_bus ?v w)\<lparr>b_fence := None\<rparr>"
    "i \<noteq> 2 \<Longrightarrow> mv_bus ?v (mqo_give sim_mqtt_ops i w) = mv_bus ?v w" for w i
    by (cases w; cases "snd w"; simp add: sim_mqtt_view_def sim_mqtt_ops_def)+
  moreover have "mv_fence_id ?v = 2" by (simp add: sim_mqtt_view_def)
  ultimately have fence: "fence_env k ?v t sim_mqtt_ops" unfolding fence_env_def
    by (simp only: simp_thms) (intro conjI allI impI; (blast | metis fst_conv))
  have queue: "queue_env k ?v t sim_mqtt_ops" unfolding queue_env_def
    by (auto simp: sim_mqtt_view_def sim_mqtt_ops_def point_def mqtt_others_run_def split: list.splits)
  show ?thesis unfolding mqtt_env_def using fence queue
    by (simp add: client_env_def quiet_def sim_mqtt_ops_def)
qed

section \<open>A run\<close>

definition sim_suback :: mqtt_event where
  "sim_suback = \<lparr>ev_client = Some 5, ev_msg_id = 9, ev_topic = None, ev_topic_len = 0, ev_data = Some [CHR 0x01], ev_data_len = 1,
     ev_total_data_len = 0, ev_current_data_offset = 0, ev_retain = False, ev_error_handle = None\<rparr>"

definition sim_connecting :: mqtt_manager where
  "sim_connecting = snd (connected_section (Some 5) 10 (client_installed_section 5 (init_commit_section 1 None 3 4 1 2 mqtt_manager_boot)))"

definition sim_subscribed :: mqtt_manager where
  "sim_subscribed = subscriptions_done_section (Some 5)
     (snd (subscribe_record_section 9 (snd (subscribe_record_section 9 (subscribe_reset_section sim_connecting)))))"

definition sim_mqtt_ready :: mqtt_manager where
  "sim_mqtt_ready = subscribed_section sim_suback 20 (subscribed_section sim_suback 20 sim_subscribed)"

definition sim_history :: mqtt_history where
  "sim_history = history_zero\<lparr>h_requested := [(''farm/n1/fan1/set'', 9), (''farm/n1/fan1/percentage/set'', 9)], h_acked := [9, 9], h_epoch := 1\<rparr>"

lemma sim_required: "required_topics sim_mqtt_kconfig = [Some ''farm/n1/fan1/set'', Some ''farm/n1/fan1/percentage/set'']"
  by code_simp

lemma sim_mqtt_ready_initialised: "mm_initialized sim_mqtt_ready"
  by code_simp

lemma sim_mqtt_ready_facts:
  "mm_connected sim_mqtt_ready \<and> mm_ready sim_mqtt_ready \<and> mm_connection_generation sim_mqtt_ready = 1 \<and> mm_client sim_mqtt_ready = Some 5 \<and>
    mm_dispatch_queue sim_mqtt_ready = Some 3 \<and> mm_message_callback sim_mqtt_ready = Some 1 \<and> mm_rx sim_mqtt_ready = rx_zero \<and>
    mm_command_commit_mutex sim_mqtt_ready = Some 2"
  by code_simp

lemma sim_suback_id: "ev_msg_id sim_suback = 9"
  by (simp add: sim_suback_def)

lemma mqtt_case_SomeD: "case z of None \<Rightarrow> False | Some y \<Rightarrow> True \<Longrightarrow> \<exists>y. z = Some y"
  by (cases z) simp_all

lemma run_then [trans]: "mqtt_run k x y \<Longrightarrow> mqtt_step k t y z \<Longrightarrow> mqtt_run k x z"
  by (rule mqtt_run_trans [OF _ mqtt_run_step])

lemma suback_step:
  assumes "h_phase h = Idle" and "ev_client event = mm_client m" and "fst (mqtt_manager_remove_pending_subscription_locked (ev_msg_id event) m)"
    and "suback_accepted event"
  shows "mqtt_step k Event_Task (m, b, h) (subscribed_section event now m, b, h\<lparr>h_acked := h_acked h @ [ev_msg_id event]\<rparr>)"
  using mqtt_step.suback [of Event_Task h k m b event now] assms by simp

lemma sim_mqtt_ready_reachable: "mqtt_reachable sim_mqtt_kconfig 2 3 (sim_mqtt_ready, bus_zero, sim_history)"
proof -
  let ?k = sim_mqtt_kconfig and ?b = "bus_zero\<lparr>b_fence := Some Event_Task\<rparr>"
  let ?m0 = "init_commit_section 1 None 3 4 1 2 mqtt_manager_boot"
  let ?m1 = "client_installed_section 5 ?m0" and ?m3 = "subscribe_reset_section sim_connecting"
  let ?m4 = "snd (subscribe_record_section 9 ?m3)"
  let ?m5 = "snd (subscribe_record_section 9 ?m4)"
  let ?h2 = "history_zero\<lparr>h_phase := Opening, h_epoch := 1\<rparr>"
  let ?h3 = "?h2\<lparr>h_phase := Subscribing (required_topics ?k), h_requested := [], h_acked := []\<rparr>"
  let ?h4 = "?h3\<lparr>h_phase := Subscribing [Some ''farm/n1/fan1/percentage/set''], h_requested := [(''farm/n1/fan1/set'', 9)]\<rparr>"
  let ?h5 = "?h4\<lparr>h_phase := Subscribing [], h_requested := [(''farm/n1/fan1/set'', 9), (''farm/n1/fan1/percentage/set'', 9)]\<rparr>"
  let ?h6 = "?h5\<lparr>h_phase := Idle\<rparr>"
  have "mqtt_run ?k (?m0, bus_zero, history_zero) (?m0, bus_zero, history_zero)" by simp
  also have "mqtt_step ?k Event_Task (?m0, bus_zero, history_zero) (?m1, bus_zero, history_zero)"
    by (rule mqtt_step.other) (simp_all add: client_installed_section_def same_core_def)
  also have "mqtt_step ?k Event_Task (?m1, bus_zero, history_zero) (?m1, ?b, history_zero)"
    by (rule mqtt_step.take) (simp add: bus_zero_def)
  also have "mqtt_step ?k Event_Task (?m1, ?b, history_zero) (sim_connecting, ?b, ?h2)"
  proof -
    have "connected_section (Some 5) 10 ?m1 = (True, sim_connecting)"
      by (simp add: sim_connecting_def connected_section_def client_installed_section_def)
    from mqtt_step.connect [OF refl _ _ _ this, of ?b history_zero ?k] show ?thesis by (simp add: bus_zero_def history_zero_def)
  qed
  also have "mqtt_step ?k Event_Task (sim_connecting, ?b, ?h2) (?m3, ?b, ?h3)"
    by (rule mqtt_step.reset) simp_all
  also have "mqtt_step ?k Event_Task (?m3, ?b, ?h3) (?m4, ?b, ?h4)"
  proof -
    have "fst (subscribe_record_section 9 ?m3)" by code_simp
    then have "subscribe_record_section 9 ?m3 = (True, ?m4)" by (metis prod.collapse)
    from mqtt_step.subscribe [OF refl _ _ this, of ?h3 "''farm/n1/fan1/set''" "[Some ''farm/n1/fan1/percentage/set'']" ?k ?b]
    show ?thesis by (simp add: sim_required)
  qed
  also have "mqtt_step ?k Event_Task (?m4, ?b, ?h4) (?m5, ?b, ?h5)"
  proof -
    have "fst (subscribe_record_section 9 ?m4)" by code_simp
    then have "subscribe_record_section 9 ?m4 = (True, ?m5)" by (metis prod.collapse)
    from mqtt_step.subscribe [OF refl _ _ this, of ?h4 "''farm/n1/fan1/percentage/set''" "[]" ?k ?b] show ?thesis by simp
  qed
  also have "mqtt_step ?k Event_Task (?m5, ?b, ?h5) (sim_subscribed, ?b, ?h6)"
    unfolding sim_subscribed_def by (rule mqtt_step.close) simp_all
  also have "mqtt_step ?k Event_Task (sim_subscribed, ?b, ?h6) (sim_subscribed, bus_zero, ?h6)"
    using mqtt_step.give [of ?b Event_Task ?h6 ?k sim_subscribed] by (simp add: history_zero_def bus_zero_def)
  also have "mqtt_step ?k Event_Task (sim_subscribed, bus_zero, ?h6) (subscribed_section sim_suback 20 sim_subscribed, bus_zero, ?h6\<lparr>h_acked := [9]\<rparr>)"
  proof -
    have "ev_client sim_suback = mm_client sim_subscribed \<and> fst (mqtt_manager_remove_pending_subscription_locked (ev_msg_id sim_suback) sim_subscribed) \<and>
      suback_accepted sim_suback \<and> ev_msg_id sim_suback = 9" by code_simp
    then show ?thesis using suback_step [of ?h6 sim_suback sim_subscribed ?k bus_zero 20] by (simp add: history_zero_def sim_suback_id)
  qed
  also have "mqtt_step ?k Event_Task (subscribed_section sim_suback 20 sim_subscribed, bus_zero, ?h6\<lparr>h_acked := [9]\<rparr>)
      (sim_mqtt_ready, bus_zero, ?h6\<lparr>h_acked := [9, 9]\<rparr>)"
  proof -
    let ?m = "subscribed_section sim_suback 20 sim_subscribed"
    have "ev_client sim_suback = mm_client ?m \<and> fst (mqtt_manager_remove_pending_subscription_locked (ev_msg_id sim_suback) ?m) \<and>
      suback_accepted sim_suback \<and> ev_msg_id sim_suback = 9" by code_simp
    then show ?thesis using suback_step [of "?h6\<lparr>h_acked := [9]\<rparr>" sim_suback ?m ?k bus_zero 20] by (simp add: history_zero_def sim_mqtt_ready_def sim_suback_id)
  qed
  finally have "mqtt_run ?k (?m0, bus_zero, history_zero) (sim_mqtt_ready, bus_zero, ?h6\<lparr>h_acked := [9, 9]\<rparr>)" .
  moreover have "?h6\<lparr>h_acked := [9, 9]\<rparr> = sim_history" by (simp add: sim_history_def history_zero_def)
  ultimately have "mqtt_run ?k (?m0, bus_zero, history_zero) (sim_mqtt_ready, bus_zero, sim_history)" by (simp only:)
  moreover have "(1::nat) \<noteq> 2" by simp
  ultimately show ?thesis unfolding mqtt_reachable_def by blast
qed

text \<open>From there a command is assembled, queued and delivered.\<close>

definition sim_rx :: mqtt_rx_assembly where
  "sim_rx = rx_zero\<lparr>rx_topic := ''farm/n1/fan1/set'', rx_payload := ''ON'' @ replicate 766 NUL, rx_total_len := 2, rx_next_offset := 2,
     rx_connection_generation := 1\<rparr>"

definition sim_message :: mqtt_dispatch_message where
  "sim_message = fst (fill_dispatch_scratch (Some 0) 1 30 (sim_mqtt_ready\<lparr>mm_rx := sim_rx\<rparr>))"

definition sim_claimed :: mqtt_manager where
  "sim_claimed = snd (enqueue_claim_section (Some 5) 1 30 (sim_mqtt_ready\<lparr>mm_rx := sim_rx\<rparr>))"

definition sim_queued_history :: mqtt_history where
  "sim_queued_history = sim_history\<lparr>h_completed := [(''farm/n1/fan1/set'', ''ON'', False, 1)]\<rparr>"

lemma sim_command: "rx_command sim_rx = (''farm/n1/fan1/set'', ''ON'', False, 1)" "rx_connection_generation sim_rx = 1"
    "message_command sim_message = (''farm/n1/fan1/set'', ''ON'', False, 1)"
  by code_simp+

lemma sim_queued: "mqtt_reachable sim_mqtt_kconfig 2 3 (sim_claimed, bus_zero\<lparr>b_queue := [sim_message]\<rparr>, sim_queued_history)"
proof -
  let ?k = sim_mqtt_kconfig and ?b = "bus_zero\<lparr>b_fence := Some Event_Task\<rparr>" and ?c = "(''farm/n1/fan1/set'', ''ON'', False, 1) :: mqtt_command"
  let ?m1 = "sim_mqtt_ready\<lparr>mm_rx := sim_rx\<rparr>"
  let ?h2 = "sim_history\<lparr>h_completed := [?c], h_claimed := Some ?c\<rparr>"
  let ?h3 = "?h2\<lparr>h_claimed := None\<rparr>" and ?q = "?b\<lparr>b_queue := [sim_message]\<rparr>"
  have "mqtt_run ?k (sim_mqtt_ready, bus_zero, sim_history) (sim_mqtt_ready, bus_zero, sim_history)" by simp
  also have "mqtt_step ?k Event_Task (sim_mqtt_ready, bus_zero, sim_history) (?m1, bus_zero, sim_history)"
    by (rule mqtt_step.other) (simp_all add: same_core_def)
  also have "mqtt_step ?k Event_Task (?m1, bus_zero, sim_history) (?m1, ?b, sim_history)"
    by (rule mqtt_step.take) (simp add: bus_zero_def)
  also have "mqtt_step ?k Event_Task (?m1, ?b, sim_history) (sim_claimed, ?b, ?h2)"
  proof -
    have "fst (fst (enqueue_claim_section (Some 5) 1 30 ?m1))" by code_simp
    then obtain r where "enqueue_claim_section (Some 5) 1 30 ?m1 = ((True, r), sim_claimed)" unfolding sim_claimed_def by (metis prod.collapse)
    then have "enqueue_claim_section (Some 5) (rx_connection_generation (mm_rx ?m1)) 30 ?m1 = ((True, r), sim_claimed)" by (simp add: sim_command)
    from mqtt_step.claim [OF refl _ _ _ this, of ?b sim_history ?k] show ?thesis
      by (simp add: sim_history_def history_zero_def sim_command)
  qed
  also have "mqtt_step ?k Event_Task (sim_claimed, ?b, ?h2) (sim_claimed, ?q, ?h3)"
    using mqtt_step.send [of Event_Task ?h2 sim_message ?k sim_claimed ?b] by (simp add: sim_command bus_zero_def)
  also have "mqtt_step ?k Event_Task (sim_claimed, ?q, ?h3) (sim_claimed, ?q\<lparr>b_fence := None\<rparr>, ?h3)"
    by (rule mqtt_step.give) (simp_all add: sim_history_def history_zero_def)
  finally have "mqtt_run ?k (sim_mqtt_ready, bus_zero, sim_history) (sim_claimed, ?q\<lparr>b_fence := None\<rparr>, ?h3)" .
  moreover have "?q\<lparr>b_fence := None\<rparr> = bus_zero\<lparr>b_queue := [sim_message]\<rparr>" "?h3 = sim_queued_history"
    by (simp_all add: bus_zero_def sim_queued_history_def sim_history_def history_zero_def)
  ultimately have "mqtt_run ?k (sim_mqtt_ready, bus_zero, sim_history) (sim_claimed, bus_zero\<lparr>b_queue := [sim_message]\<rparr>, sim_queued_history)"
    by (simp only:)
  then show ?thesis by (rule mqtt_reachable_run [OF sim_mqtt_ready_reachable])
qed

lemma sim_delivered: "\<exists>m h. mqtt_reachable sim_mqtt_kconfig 2 3 (m, bus_zero, h) \<and> h_epoch h = 1 \<and>
    h_completed h = [(''farm/n1/fan1/set'', ''ON'', False, 1)] \<and> h_delivered h = [(''farm/n1/fan1/set'', ''ON'', False, 1)]"
proof -
  let ?k = sim_mqtt_kconfig and ?h = sim_queued_history and ?c = "(''farm/n1/fan1/set'', ''ON'', False, 1) :: mqtt_command"
  let ?m = "snd (dispatch_claim_section sim_message sim_claimed)"
  let ?h' = "?h\<lparr>h_hand := None, h_delivered := [?c]\<rparr>"
  have "mqtt_run ?k (sim_claimed, bus_zero\<lparr>b_queue := [sim_message]\<rparr>, ?h) (sim_claimed, bus_zero\<lparr>b_queue := [sim_message]\<rparr>, ?h)" by simp
  also have "mqtt_step ?k Dispatch_Task (sim_claimed, bus_zero\<lparr>b_queue := [sim_message]\<rparr>, ?h) (sim_claimed, bus_zero, ?h\<lparr>h_hand := Some sim_message\<rparr>)"
    using mqtt_step.receive [of Dispatch_Task ?h "bus_zero\<lparr>b_queue := [sim_message]\<rparr>" sim_message "[]" ?k sim_claimed]
    by (simp add: sim_queued_history_def sim_history_def history_zero_def bus_zero_def)
  also have "mqtt_step ?k Dispatch_Task (sim_claimed, bus_zero, ?h\<lparr>h_hand := Some sim_message\<rparr>) (?m, bus_zero, ?h')"
  proof -
    have "(case fst (dispatch_claim_section sim_message sim_claimed) of None \<Rightarrow> False | Some _ \<Rightarrow> True)" by code_simp
    from mqtt_case_SomeD [OF this] obtain r where "fst (dispatch_claim_section sim_message sim_claimed) = Some r" ..
    then have "dispatch_claim_section sim_message sim_claimed = (Some r, ?m)" by (simp only: prod_eq_iff fst_conv snd_conv)
    from mqtt_step.deliver [OF refl _ this, of "?h\<lparr>h_hand := Some sim_message\<rparr>" ?k bus_zero] show ?thesis
      by (simp add: sim_command sim_queued_history_def sim_history_def history_zero_def)
  qed
  finally have "mqtt_reachable ?k 2 3 (?m, bus_zero, ?h')" by (rule mqtt_reachable_run [OF sim_queued])
  moreover have "h_epoch ?h' = 1" "h_completed ?h' = [?c]" "h_delivered ?h' = [?c]" by (simp_all add: sim_queued_history_def sim_history_def)
  ultimately show ?thesis by blast
qed

end
