(* ===== verification/Mqtt_Fragments.thy ===== *)
theory Mqtt_Fragments imports Mqtt_Refinement
begin

text \<open>
  The assembly of a command from its fragments, as a function of the events of one session: what it
  completes, and what it keeps out. ESP-MQTT hands a message over in fragments, in order, with the topic
  on the first; the assembly does not rely on it.
\<close>

section \<open>Feeding fragments\<close>

text \<open>The commands that the data events of a session complete, each of which is passed on and forgotten.\<close>

fun rx_feed :: "u32 \<Rightarrow> mqtt_event list \<Rightarrow> mqtt_rx_assembly \<Rightarrow> mqtt_command list \<times> mqtt_rx_assembly" where
  "rx_feed g [] rx = ([], rx)"
| "rx_feed g (event # events) rx =
     (case rx_fragment event g rx of
        (True, rx1) \<Rightarrow> (case rx_feed g events rx_zero of (commands, rx2) \<Rightarrow> (rx_command rx1 # commands, rx2))
      | (False, rx1) \<Rightarrow> rx_feed g events rx1)"

text \<open>A message as ESP-MQTT delivers it, in the given chunks.\<close>

fun fragments :: "nat option \<Rightarrow> string \<Rightarrow> bool \<Rightarrow> int \<Rightarrow> int \<Rightarrow> char list list \<Rightarrow> mqtt_event list" where
  "fragments client topic retain total_len offset [] = []"
| "fragments client topic retain total_len offset (chunk # chunks) =
     \<lparr>ev_client = client, ev_msg_id = 0, ev_topic = (if offset = 0 then Some topic else None),
      ev_topic_len = (if offset = 0 then int (length topic) else 0), ev_data = Some chunk, ev_data_len = int (length chunk),
      ev_total_data_len = total_len, ev_current_data_offset = offset, ev_retain = retain, ev_error_handle = None\<rparr>
     # fragments client topic retain total_len (offset + int (length chunk)) chunks"

definition well_chunked :: "char list list \<Rightarrow> bool" where
  "well_chunked chunks \<longleftrightarrow> chunks = [[]] \<or> (chunks \<noteq> [] \<and> [] \<notin> set chunks)"

text \<open>The assembly after the bytes \<open>seen\<close> of a message of \<open>total_len\<close> bytes.\<close>

definition rx_partial :: "u32 \<Rightarrow> string \<Rightarrow> bool \<Rightarrow> nat \<Rightarrow> char list \<Rightarrow> mqtt_rx_assembly" where
  "rx_partial g topic retain total_len seen =
     rx_zero\<lparr>rx_topic := topic, rx_payload := seen @ replicate (MQTT_MANAGER_PAYLOAD_CAPACITY - length seen) NUL,
       rx_total_len := int total_len, rx_next_offset := int (length seen), rx_connection_generation := g, rx_retained := retain\<rparr>"

lemma copy_at_end:
  "length seen + length chunk \<le> n \<Longrightarrow>
    copy_at (length seen) chunk (seen @ replicate (n - length seen) NUL) = (seen @ chunk) @ replicate (n - length (seen @ chunk)) NUL"
  by (simp add: copy_at_def)

lemma rx_accept_partial:
  assumes "topic \<noteq> []" and "length (seen @ chunk) \<le> total_len" and "total_len < MQTT_MANAGER_PAYLOAD_CAPACITY"
    and "ev_total_data_len event = int total_len" and "ev_current_data_offset event = int (length seen)"
    and "ev_data event = Some chunk" and "ev_data_len event = int (length chunk)"
  shows "rx_accept event g (rx_partial g topic retain total_len seen) =
    (length (seen @ chunk) = total_len, rx_partial g topic retain total_len (seen @ chunk))"
proof -
  let ?n = MQTT_MANAGER_PAYLOAD_CAPACITY
  have copy: "(if 0 < int (length chunk) then copy_at (nat (int (length seen))) (take (nat (int (length chunk))) (the (Some chunk)))
      (seen @ replicate (?n - length seen) NUL) else seen @ replicate (?n - length seen) NUL) =
      (seen @ chunk) @ replicate (?n - length (seen @ chunk)) NUL"
    using copy_at_end [of seen chunk ?n] assms(2,3) by simp
  have nul: "((seen @ chunk) @ replicate (?n - length (seen @ chunk)) NUL)[total_len := NUL] = (seen @ chunk) @ replicate (?n - length (seen @ chunk)) NUL"
    if "length (seen @ chunk) = total_len"
  proof -
    let ?l = "(seen @ chunk) @ replicate (?n - length (seen @ chunk)) NUL"
    have "?l ! total_len = NUL" using that assms(3) by (subst nth_append) simp
    then show ?thesis using list_update_id [of ?l total_len] by (simp only:)
  qed
  show ?thesis
  proof (cases "length (seen @ chunk) = total_len")
    case True
    then have t: "total_len = length seen + length chunk" by simp
    show ?thesis unfolding rx_accept_def assms(4-7) Let_def
      using assms(1) copy nul [OF True] unfolding t by (auto simp: rx_partial_def rx_zero_def nat_int_add)
  next
    case False
    then have "int (length seen) + int (length chunk) \<noteq> int total_len" by simp
    then show ?thesis unfolding rx_accept_def assms(4-7) Let_def
      using assms(1,2) copy False by (auto simp: rx_partial_def rx_zero_def)
  qed
qed

lemma feed_rest:
  assumes "topic \<noteq> []" and "[] \<notin> set chunks" and "chunks \<noteq> []" and "seen \<noteq> []"
    and "length (seen @ concat chunks) = total_len" and "total_len < MQTT_MANAGER_PAYLOAD_CAPACITY"
  shows "rx_feed g (fragments client topic retain (int total_len) (int (length seen)) chunks) (rx_partial g topic retain total_len seen) =
    ([(topic, seen @ concat chunks, retain, g)], rx_zero)"
  using assms(2-5)
proof (induction chunks arbitrary: seen)
  case (Cons chunk chunks)
  let ?e = "hd (fragments client topic retain (int total_len) (int (length seen)) (chunk # chunks))"
  have step: "rx_fragment ?e g (rx_partial g topic retain total_len seen) =
      (length (seen @ chunk) = total_len, rx_partial g topic retain total_len (seen @ chunk))"
    using Cons.prems rx_accept_partial [of topic seen chunk total_len ?e g retain] assms(1,6)
    by (simp add: rx_fragment_def)
  show ?case
  proof (cases "chunks = []")
    case True
    then have "rx_command (rx_partial g topic retain total_len (seen @ chunk)) = (topic, seen @ chunk, retain, g)"
      using Cons.prems by (simp add: rx_command_def rx_partial_def)
    then show ?thesis using step True Cons.prems by simp
  next
    case False
    then have "concat chunks \<noteq> []" using Cons.prems(1) by (cases chunks) auto
    then have "length (seen @ chunk) \<noteq> total_len" using Cons.prems by auto
    then show ?thesis using step Cons.IH [of "seen @ chunk"] Cons.prems False by simp
  qed
qed simp

lemma rx_begin_valid:
  assumes "topic \<noteq> []" and "length topic < MQTT_MANAGER_TOPIC_CAPACITY" and "NUL \<notin> set topic"
    and "total_len < MQTT_MANAGER_PAYLOAD_CAPACITY" and "length chunk \<le> total_len"
  shows "rx_begin (hd (fragments client topic retain (int total_len) 0 (chunk # chunks))) g = (False, rx_partial g topic retain total_len [])"
  using assms by (simp add: rx_begin_def invalid_topic_def invalid_payload_def rx_partial_def rx_zero_def)

lemma feed_message:
  assumes "topic \<noteq> []" and "length topic < MQTT_MANAGER_TOPIC_CAPACITY" and "NUL \<notin> set topic"
    and "length (concat chunks) < MQTT_MANAGER_PAYLOAD_CAPACITY" and "well_chunked chunks"
  shows "rx_feed g (fragments client topic retain (int (length (concat chunks))) 0 chunks) rx = ([(topic, concat chunks, retain, g)], rx_zero)"
proof -
  let ?total_len = "length (concat chunks)"
  obtain chunk rest where chunks: "chunks = chunk # rest" using assms(5) by (cases chunks) (auto simp: well_chunked_def)
  let ?e = "hd (fragments client topic retain (int ?total_len) 0 (chunk # rest))"
  have "rx_begin ?e g = (False, rx_partial g topic retain ?total_len [])"
    by (rule rx_begin_valid [OF assms(1-4)]) (simp add: chunks)
  moreover have "rx_accept ?e g (rx_partial g topic retain ?total_len []) = (length ([] @ chunk) = ?total_len, rx_partial g topic retain ?total_len ([] @ chunk))"
    by (rule rx_accept_partial [OF assms(1)]) (use assms(4) chunks in simp_all)
  ultimately have step: "rx_fragment ?e g rx = (length chunk = ?total_len, rx_partial g topic retain ?total_len chunk)"
    by (simp add: rx_fragment_def)
  show ?thesis
  proof (cases "rest = []")
    case True
    then have "rx_command (rx_partial g topic retain ?total_len chunk) = (topic, chunk, retain, g)"
      using chunks by (simp add: rx_command_def rx_partial_def)
    then show ?thesis using step chunks True by simp
  next
    case False
    then have r: "[] \<notin> set rest" "chunk \<noteq> []" using assms(5) chunks by (auto simp: well_chunked_def)
    then have "concat rest \<noteq> []" using False by (cases rest) auto
    then have "(length chunk = ?total_len) = False" using chunks by simp
    note step [unfolded this]
    then show ?thesis using feed_rest [OF assms(1) r(1) False r(2), of ?total_len g client retain] assms(4) chunks by simp
  qed
qed

section \<open>Nothing else is completed\<close>

text \<open>An event carries at least the bytes its lengths announce.\<close>

definition event_ok :: "mqtt_event \<Rightarrow> bool" where
  "event_ok event \<longleftrightarrow> (case ev_data event of None \<Rightarrow> True | Some data \<Rightarrow> nat (ev_data_len event) \<le> length data)"

definition event_bytes :: "mqtt_event \<Rightarrow> char list" where
  "event_bytes event = (case ev_data event of None \<Rightarrow> [] | Some data \<Rightarrow> take (nat (ev_data_len event)) data)"

text \<open>Fragments of a message of \<open>total_len\<close> bytes, each at the offset where the one before ended.\<close>

fun in_order :: "int \<Rightarrow> int \<Rightarrow> mqtt_event list \<Rightarrow> bool" where
  "in_order total_len offset [] \<longleftrightarrow> True"
| "in_order total_len offset (event # events) \<longleftrightarrow> ev_total_data_len event = total_len \<and> ev_current_data_offset event = offset \<and>
     0 \<le> ev_data_len event \<and> ev_data_len event = int (length (event_bytes event)) \<and> in_order total_len (offset + ev_data_len event) events"

definition received_bytes :: "mqtt_event list \<Rightarrow> char list" where
  "received_bytes events = concat (map event_bytes events)"

lemma received_bytes_simps [simp]:
  "received_bytes [] = []" "received_bytes (event # events) = event_bytes event @ received_bytes events"
  "received_bytes (events @ events') = received_bytes events @ received_bytes events'"
  by (simp_all add: received_bytes_def)

text \<open>The command is what the events carry, in order and complete.\<close>

definition received_as :: "u32 \<Rightarrow> mqtt_event list \<Rightarrow> mqtt_command \<Rightarrow> bool" where
  "received_as g events command \<longleftrightarrow> (case events of [] \<Rightarrow> False
     | event # rest \<Rightarrow> (\<exists>topic. ev_topic event = Some topic \<and>
         command = (take (nat (ev_topic_len event)) topic, received_bytes events, ev_retain event, g)) \<and>
         in_order (int (length (received_bytes events))) 0 events)"

text \<open>What the assembly holds of the latest events.\<close>

definition rx_holds :: "u32 \<Rightarrow> mqtt_event list \<Rightarrow> mqtt_rx_assembly \<Rightarrow> bool" where
  "rx_holds g events rx \<longleftrightarrow> (case events of [] \<Rightarrow> False
     | event # rest \<Rightarrow> (\<exists>topic. ev_topic event = Some topic \<and> rx_topic rx = take (nat (ev_topic_len event)) topic) \<and>
         rx_retained rx = ev_retain event \<and> in_order (rx_total_len rx) 0 events) \<and>
     rx_connection_generation rx = g \<and> rx_next_offset rx = int (length (received_bytes events)) \<and>
     take (length (received_bytes events)) (rx_payload rx) = received_bytes events"

definition rx_explained :: "u32 \<Rightarrow> mqtt_event list \<Rightarrow> mqtt_rx_assembly \<Rightarrow> bool" where
  "rx_explained g seen rx \<longleftrightarrow> rx_ok rx \<and> (rx_dropping rx \<or> rx_topic rx = [] \<or> (\<exists>before events. seen = before @ events \<and> rx_holds g events rx))"

lemma in_order_append:
  "in_order total_len offset (events @ [event]) \<longleftrightarrow> in_order total_len offset events \<and>
     in_order total_len (offset + int (length (received_bytes events))) [event]"
  by (induction events arbitrary: offset) (auto simp: algebra_simps)

lemma event_bytes_length:
  assumes "event_ok event" and "0 \<le> ev_data_len event" and "0 < ev_data_len event \<longrightarrow> ev_data event \<noteq> None"
  shows "int (length (event_bytes event)) = ev_data_len event"
  using assms by (cases "ev_data event") (auto simp: event_ok_def event_bytes_def)

lemma take_copy_at:
  "offset + length bytes \<le> length buffer \<Longrightarrow> take (offset + length bytes) (copy_at offset bytes buffer) = take offset buffer @ bytes"
  by (simp add: copy_at_def)

text \<open>An accepted fragment extends what the assembly holds.\<close>

lemma rx_accept_holds:
  assumes "rx_accept event g rx = (complete, rx')" and ok: "rx_ok rx" "event_ok event" "0 \<le> ev_data_len event"
    and holds: "events \<noteq> [] \<Longrightarrow> rx_holds g events rx"
    and first: "events = [] \<Longrightarrow> (\<exists>topic. ev_topic event = Some topic \<and> rx_topic rx = take (nat (ev_topic_len event)) topic) \<and>
      rx_retained rx = ev_retain event \<and> rx_connection_generation rx = g \<and> rx_next_offset rx = 0"
    and live: "\<not> rx_dropping rx"
  shows "rx_topic rx' = [] \<and> \<not> complete \<or> rx_holds g (events @ [event]) rx' \<and> \<not> rx_dropping rx' \<and>
    (complete \<longrightarrow> rx_next_offset rx' = rx_total_len rx')"
proof (cases "rx_topic rx = [] \<or> rx_connection_generation rx \<noteq> g \<or> ev_total_data_len event \<noteq> rx_total_len rx \<or>
    ev_current_data_offset event \<noteq> rx_next_offset rx \<or> ev_total_data_len event < ev_current_data_offset event \<or>
    ev_total_data_len event - ev_current_data_offset event < ev_data_len event \<or> (0 < ev_data_len event \<and> ev_data event = None)")
  case True
  then have "rx_accept event g rx = (False, rx_zero)" using live by (auto simp: rx_accept_def Let_def)
  then show ?thesis using assms(1) by (simp add: rx_zero_def)
next
  case False
  let ?n = "length (received_bytes events)" and ?c = "event_bytes event"
  have next_offset: "rx_next_offset rx = int ?n"
    using holds first by (cases "events = []") (auto simp: rx_holds_def)
  have c: "int (length ?c) = ev_data_len event" using event_bytes_length [OF ok(2,3)] False by auto
  let ?p = "if 0 < ev_data_len event then copy_at (nat (ev_current_data_offset event)) (take (nat (ev_data_len event)) (the (ev_data event))) (rx_payload rx)
    else rx_payload rx"
  have bytes: "0 < ev_data_len event \<Longrightarrow> take (nat (ev_data_len event)) (the (ev_data event)) = ?c"
    using False by (cases "ev_data event") (auto simp: event_bytes_def)
  have offset: "nat (ev_current_data_offset event) = ?n" using False next_offset by simp
  have bound: "int ?n + int (length ?c) \<le> rx_total_len rx" "rx_total_len rx < int (length (rx_payload rx))"
    using False next_offset c ok(1) by (auto simp: rx_ok_def)
  have held: "take ?n (rx_payload rx) = received_bytes events"
    using holds by (cases "events = []") (auto simp: rx_holds_def)
  have p: "take (?n + length ?c) ?p = received_bytes events @ ?c"
  proof (cases "0 < ev_data_len event")
    case True
    then show ?thesis using take_copy_at [of ?n ?c "rx_payload rx"] bytes offset bound held by simp
  next
    case False
    then have "length ?c = 0" using c by linarith
    then have "?c = []" by simp
    then show ?thesis using False held by simp
  qed
  let ?rx = "rx\<lparr>rx_payload := ?p, rx_next_offset := rx_next_offset rx + ev_data_len event\<rparr>"
  let ?done = "rx_next_offset rx + ev_data_len event = ev_total_data_len event"
  have rx': "complete = ?done" "rx' = (if ?done then ?rx\<lparr>rx_payload := ?p[nat (ev_total_data_len event) := NUL]\<rparr> else ?rx)"
    using assms(1) False live unfolding rx_accept_def Let_def by (auto split: if_splits)
  have fields: "rx_topic rx' = rx_topic rx" "rx_retained rx' = rx_retained rx" "rx_connection_generation rx' = g"
    "rx_total_len rx' = rx_total_len rx" "rx_next_offset rx' = int (?n + length ?c)" "rx_dropping rx' = rx_dropping rx"
    using rx'(2) next_offset c False by auto
  have payload: "take (?n + length ?c) (rx_payload rx') = received_bytes events @ ?c"
  proof (cases ?done)
    case True
    then have "nat (ev_total_data_len event) = ?n + length ?c" using next_offset c by simp
    then show ?thesis using p rx'(2) True by simp
  next
    case False
    then show ?thesis using p rx'(2) by simp
  qed
  have order: "in_order (rx_total_len rx) 0 (events @ [event])"
    using holds False next_offset c ok(3) by (cases events) (auto simp: in_order_append rx_holds_def)
  have "rx_holds g (events @ [event]) rx'"
    using holds first fields payload order by (cases events) (auto simp: rx_holds_def add.assoc)
  then show ?thesis using fields live rx'(1) next_offset c False by auto
qed

lemma rx_fragment_explained:
  assumes "rx_fragment event g rx = (complete, rx')" and "rx_explained g seen rx" and "event_ok event"
  shows "rx_explained g (seen @ [event]) rx' \<and> (complete \<longrightarrow> (\<exists>before events. seen @ [event] = before @ events \<and> received_as g events (rx_command rx')))"
proof -
  have ok: "rx_ok rx" "rx_ok rx'" using assms(1,2) rx_fragment_ok [OF assms(1)] by (simp_all add: rx_explained_def)
  have conclude: ?thesis if "rx_topic rx' = [] \<and> \<not> complete \<or> rx_holds g events rx' \<and> \<not> rx_dropping rx' \<and>
      (complete \<longrightarrow> rx_next_offset rx' = rx_total_len rx')" "seen @ [event] = before @ events" for before events
  proof -
    have "received_as g events (rx_command rx')" if "rx_holds g events rx'" "rx_next_offset rx' = rx_total_len rx'"
      using that by (cases events) (auto simp: rx_holds_def received_as_def rx_command_def nat_int_add)
    then show ?thesis using that ok by (auto simp: rx_explained_def)
  qed
  show ?thesis
  proof (cases "ev_total_data_len event < 0 \<or> ev_current_data_offset event < 0 \<or> ev_data_len event < 0")
    case True
    then have "rx_topic rx' = [] \<and> \<not> complete" using assms(1) by (auto simp: rx_fragment_def rx_zero_def)
    then show ?thesis using conclude [of "seen @ [event]" "[]"] by simp
  next
    case pos: False
    show ?thesis
    proof (cases "ev_current_data_offset event = 0")
      case True
      obtain d rx1 where d: "rx_begin event g = (d, rx1)" by fastforce
      show ?thesis
      proof (cases d)
        case True
        then have "rx' = rx1" "\<not> complete" "rx_dropping rx1 \<or> rx_topic rx1 = []"
          using assms(1) d pos \<open>ev_current_data_offset event = 0\<close>
          by (auto simp: rx_fragment_def rx_begin_def rx_zero_def Let_def split: if_splits)
        then show ?thesis using ok(2) by (auto simp: rx_explained_def)
      next
        case False
        then have a: "rx_accept event g rx1 = (complete, rx')" using assms(1) d pos \<open>ev_current_data_offset event = 0\<close> by (simp add: rx_fragment_def)
        have "rx_ok rx1" using rx_begin_ok [OF d] pos by simp
        then have "rx_topic rx' = [] \<and> \<not> complete \<or> rx_holds g ([] @ [event]) rx' \<and> \<not> rx_dropping rx' \<and>
            (complete \<longrightarrow> rx_next_offset rx' = rx_total_len rx')"
          by (rule rx_accept_holds [OF a _ assms(3)])
            (use pos d False in \<open>auto simp: rx_begin_def rx_zero_def invalid_topic_def Let_def split: if_splits option.splits\<close>)
        then show ?thesis using conclude [of "[event]" seen] by simp
      qed
    next
      case False
      then have a: "rx_accept event g rx = (complete, rx')" using assms(1) pos by (simp add: rx_fragment_def)
      show ?thesis
      proof (cases "rx_dropping rx")
        case True
        then have "\<not> complete" "rx_dropping rx' \<or> rx_topic rx' = []"
          using a by (auto simp: rx_accept_def rx_zero_def Let_def split: if_splits)
        then show ?thesis using ok(2) by (auto simp: rx_explained_def)
      next
        case live: False
        show ?thesis
        proof (cases "rx_topic rx = []")
          case True
          then have "rx_topic rx' = [] \<and> \<not> complete" using a live by (auto simp: rx_accept_def rx_zero_def Let_def)
          then show ?thesis using conclude [of "seen @ [event]" "[]"] by simp
        next
          case False
          with assms(2) live obtain before events where e: "seen = before @ events" "rx_holds g events rx" by (auto simp: rx_explained_def)
          then have "events \<noteq> []" by (auto simp: rx_holds_def)
          have "rx_topic rx' = [] \<and> \<not> complete \<or> rx_holds g (events @ [event]) rx' \<and> \<not> rx_dropping rx' \<and>
              (complete \<longrightarrow> rx_next_offset rx' = rx_total_len rx')"
            by (rule rx_accept_holds [OF a ok(1) assms(3)]) (use pos e live \<open>events \<noteq> []\<close> in auto)
          then show ?thesis using conclude [of "events @ [event]" before] e(1) by simp
        qed
      qed
    qed
  qed
qed

lemma rx_feed_explained:
  assumes "rx_feed g events rx = (commands, rx')" and "rx_explained g seen rx" and "\<forall>event \<in> set events. event_ok event" and "command \<in> set commands"
  shows "\<exists>before part rest. seen @ events = before @ part @ rest \<and> received_as g part command"
  using assms
proof (induction events arbitrary: rx seen commands)
  case (Cons event events)
  obtain complete rx1 where f: "rx_fragment event g rx = (complete, rx1)" by fastforce
  note x = rx_fragment_explained [OF f Cons.prems(2)]
  have zero: "rx_explained g (seen @ [event]) rx_zero" by (simp add: rx_explained_def) (simp add: rx_zero_def)
  show ?case
  proof (cases complete)
    case True
    obtain cs rx2 where r: "rx_feed g events rx_zero = (cs, rx2)" by fastforce
    then have commands: "commands = rx_command rx1 # cs" using Cons.prems(1) f True by simp
    show ?thesis
    proof (cases "command \<in> set cs")
      case True
      with Cons.IH [of rx_zero cs "seen @ [event]"] r zero Cons.prems(1,3) commands show ?thesis using f \<open>complete\<close> by auto
    next
      case False
      then have "command = rx_command rx1" using commands Cons.prems(4) by simp
      with x Cons.prems(3) \<open>complete\<close> obtain before part where "seen @ [event] = before @ part" "received_as g part command" by auto
      then show ?thesis by (intro exI [of _ before] exI [of _ part] exI [of _ events]) simp
    qed
  next
    case False
    then have "rx_feed g events rx1 = (commands, rx')" using Cons.prems(1) f by simp
    from Cons.IH [OF this, of "seen @ [event]"] x Cons.prems(3,4) show ?thesis by auto
  qed
qed simp

end
