(* ===== verification/Mqtt_Properties.thy ===== *)
theory Mqtt_Properties imports Mqtt_Simulation Mqtt_Fragments
begin

text \<open>The properties of the MQTT manager.\<close>

section \<open>The fence\<close>

text \<open>C17. The commit fence holds the session. When \<open>mqtt_manager_command_commit_begin\<close> returns OK, the
  command's session is current - connected, ready, and of the generation the command came with - and it
  stays so, whatever steps other tasks take (a disconnect, a reconnect, the replacement of the client, a
  queue overflow), until the caller gives the fence back: a command never commits for a session that is
  over.\<close>

theorem commit_fence_holds_session:
  assumes "mqtt_env k v t ops" and "t \<noteq> Event_Task" and "mqtt_good k v (point v n h)" and "b_fence (mv_bus v (snd n)) \<noteq> Some t"
    and "run_state (mqtt_manager_command_commit_begin ops (Some session) ticks) n = (ESP_OK, n')"
  shows "\<exists>h'. mqtt_run k (point v n h) (point v n' h') \<and> b_fence (mv_bus v (snd n')) = Some t \<and>
    (\<forall>y. mqtt_others_run k t (point v n' h') y \<longrightarrow> session_current session (fst y) \<and> b_fence (fst (snd y)) = Some t)"
proof -
  have "free t (point v n h)" using assms(4) by (simp add: holds_fence_def point_def)
  from followsE [OF follows_commit_begin [OF assms(1,2)] assms(3) this, of session ticks] obtain h' where
    h': "mqtt_run k (point v n h) (point v n' h')" "holds_fence t (point v n' h')" "session_current session (fst (point v n' h'))"
      "mqtt_good k v (point v n' h')" using assms(5) by auto
  have "session_current session (fst y) \<and> holds_fence t y" if "mqtt_others_run k t (point v n' h') y" for y
    using stableD [OF stable_session that h'(4)] h'(2,3) by blast
  then show ?thesis using h'(1,2) by (auto simp: holds_fence_def point_def intro!: exI [of _ h'])
qed

theorem commit_fence_holds_session_witness:
  "\<exists>h'. mqtt_run sim_mqtt_kconfig (sim_mqtt_ready, bus_zero, sim_history) (sim_mqtt_ready, bus_zero\<lparr>b_fence := Some Dispatch_Task\<rparr>, h') \<and>
    (\<forall>y. mqtt_others_run sim_mqtt_kconfig Dispatch_Task (sim_mqtt_ready, bus_zero\<lparr>b_fence := Some Dispatch_Task\<rparr>, h') y \<longrightarrow>
      mm_connected (fst y) \<and> mm_ready (fst y) \<and> mm_connection_generation (fst y) = 1)"
proof -
  let ?v = "sim_alone_view Dispatch_Task" and ?s = "\<lparr>ses_connection_generation = 1\<rparr>"
  have p: "point ?v (sim_mqtt_ready, ((), False, [])) h = (sim_mqtt_ready, bus_zero, h)"
    "point ?v (sim_mqtt_ready, ((), True, [])) h = (sim_mqtt_ready, bus_zero\<lparr>b_fence := Some Dispatch_Task\<rparr>, h)" for h
    by (simp_all add: point_def sim_mqtt_view_def bus_zero_def)
  have "mqtt_good sim_mqtt_kconfig ?v (point ?v (sim_mqtt_ready, ((), False, [])) sim_history)"
    unfolding p using mqtt_reachable_inv [OF sim_mqtt_ready_reachable] by (simp add: sim_mqtt_view_def)
  moreover have "run_state (mqtt_manager_command_commit_begin sim_mqtt_ops (Some ?s) 150) (sim_mqtt_ready, ((), False, [])) = (ESP_OK, (sim_mqtt_ready, ((), True, [])))"
    using sim_mqtt_ready_facts sim_mqtt_ready_initialised by (simp add: mqtt_manager_command_commit_begin_def critical_def peek_def sim_mqtt_ops_def
        commit_check_section_def session_current_def)
  moreover have "b_fence (mv_bus ?v (snd (sim_mqtt_ready, ((), False, []))) ) \<noteq> Some Dispatch_Task" by (simp add: sim_mqtt_view_def)
  ultimately obtain h' where h': "mqtt_run sim_mqtt_kconfig (point ?v (sim_mqtt_ready, ((), False, [])) sim_history) (point ?v (sim_mqtt_ready, ((), True, [])) h')"
    "\<forall>y. mqtt_others_run sim_mqtt_kconfig Dispatch_Task (point ?v (sim_mqtt_ready, ((), True, [])) h') y \<longrightarrow>
      session_current ?s (fst y) \<and> b_fence (fst (snd y)) = Some Dispatch_Task"
    using commit_fence_holds_session [OF sim_mqtt_env [of sim_mqtt_kconfig Dispatch_Task], of "(sim_mqtt_ready, ((), False, []))" sim_history ?s 150 "(sim_mqtt_ready, ((), True, []))"]
    by blast
  have "session_current ?s (fst y) \<Longrightarrow> mm_connected (fst y) \<and> mm_ready (fst y) \<and> mm_connection_generation (fst y) = 1" for y :: mqtt_point
    by (simp add: session_current_def)
  then show ?thesis using h' unfolding p by blast
qed

section \<open>The order of commands\<close>

text \<open>C18. Commands are delivered in order and without gaps. In every interleaving of the event task, the
  dispatch task and the others, the commands of a session that were handed to the message callback are a
  prefix of those the session completed: none is reordered, duplicated or skipped, not even when the queue
  overflows, because the overflow ends the session. The bound says that the generation counter of 32 bits
  has not wrapped.\<close>

theorem commands_delivered_in_order:
  assumes "mqtt_reachable k fence_id queue_id (m, b, h)" and "h_epoch h < 2 ^ 32"
  shows "prefix (of_generation g (h_delivered h)) (of_generation g (h_completed h))"
  using mqtt_reachable_inv [OF assms(1)] assms(2) by (simp add: mqtt_inv_def order_inv_def)

theorem commands_delivered_in_order_witness:
  "\<exists>m h. mqtt_reachable sim_mqtt_kconfig 2 3 (m, bus_zero, h) \<and> h_delivered h = [(''farm/n1/fan1/set'', ''ON'', False, 1)] \<and>
    prefix (of_generation 1 (h_delivered h)) (of_generation 1 (h_completed h))"
proof -
  from sim_delivered obtain m h where r: "mqtt_reachable sim_mqtt_kconfig 2 3 (m, bus_zero, h)" "h_epoch h = 1"
    "h_delivered h = [(''farm/n1/fan1/set'', ''ON'', False, 1)]" by blast
  from commands_delivered_in_order [OF r(1)] r show ?thesis by (intro exI [of _ m] exI [of _ h]) simp
qed

text \<open>C19. The command plane is ready only when it can hear every command. Whenever the manager reports
  ready, the transport is connected, every topic the configuration requires - each fan's, and those of the
  schedules, the OTA and the legacy prefix when they are built in - has been subscribed on this
  connection, in that order, and the broker has acknowledged every one of these subscriptions.\<close>

theorem ready_means_subscribed:
  assumes "mqtt_reachable k fence_id queue_id (m, b, h)" and "mm_ready m"
  shows "mm_connected m \<and> map (Some \<circ> fst) (h_requested h) = required_topics k \<and> mset (h_acked h) = mset (map snd (h_requested h))"
proof -
  from mqtt_reachable_inv [OF assms(1)] have inv: "task_inv (m, b, h)" "subscription_inv k (m, b, h)" by (simp_all add: mqtt_inv_def)
  have "h_phase h = Idle" using inv(1) assms(2) by (auto simp: task_inv_def)
  moreover from inv(2) assms(2) have "mm_connected m" "mm_pending_sub_count m = 0" "\<not> mm_subscription_setup_failed m"
    by (auto simp: subscription_inv_def)
  ultimately show ?thesis using inv(2) by (simp add: subscription_inv_def pending_ids_def)
qed

theorem ready_means_subscribed_witness:
  "mm_ready sim_mqtt_ready \<and> map (Some \<circ> fst) (h_requested sim_history) = required_topics sim_mqtt_kconfig \<and>
   length (required_topics sim_mqtt_kconfig) = 2"
  using ready_means_subscribed [OF sim_mqtt_ready_reachable] sim_mqtt_ready_facts sim_required by simp

section \<open>Fragments\<close>

text \<open>C34. A command survives its fragmentation. Whatever the assembly held before, the fragments of a
  message with a valid topic and a payload that fits the buffer - in however many chunks ESP-MQTT hands it
  over - complete exactly one command, with the topic, payload, retained flag and generation it was sent
  with, and leave the assembly empty.\<close>

theorem fragments_reassembled:
  assumes "topic \<noteq> []" and "length topic < MQTT_MANAGER_TOPIC_CAPACITY" and "NUL \<notin> set topic"
    and "length (concat chunks) < MQTT_MANAGER_PAYLOAD_CAPACITY" and "well_chunked chunks"
  shows "rx_feed g (fragments client topic retain (int (length (concat chunks))) 0 chunks) rx = ([(topic, concat chunks, retain, g)], rx_zero)"
  by (rule feed_message [OF assms])

theorem fragments_reassembled_witness:
  "rx_feed 7 (fragments (Some 5) ''fan1/set'' False 3 0 [''O'', ''FF'']) sim_rx = ([(''fan1/set'', ''OFF'', False, 7)], rx_zero)"
  using fragments_reassembled [of "''fan1/set''" "[''O'', ''FF'']" 7 "Some 5" False sim_rx]
  by (simp add: well_chunked_def MQTT_MANAGER_TOPIC_CAPACITY_def MQTT_MANAGER_PAYLOAD_CAPACITY_def)

text \<open>C21. Nothing is completed that was not received. Whatever events arrive on a session - fragments
  out of order, overlapping, with lengths that do not fit, oversized, or of a message given up half way - a
  completed command is exactly the bytes of consecutive events, each starting where the one before ended
  and together as long as announced, with the topic and the retained flag of the first of them.\<close>

theorem only_received_commands_complete:
  assumes "rx_feed g events rx_zero = (commands, rx)" and "\<forall>event \<in> set events. event_ok event" and "command \<in> set commands"
  shows "\<exists>before part rest. events = before @ part @ rest \<and> received_as g part command"
  using rx_feed_explained [OF assms(1) _ assms(2,3), of "[]"] by (simp add: rx_explained_def rx_zero_def rx_ok_def)

definition sim_broken_events :: "mqtt_event list" where
  "sim_broken_events = take 1 (fragments None ''a'' False 4 0 [''xx'', ''yy'']) @ fragments None ''fan1/set'' False 2 0 [''O'', ''N'']"

theorem only_received_commands_complete_witness:
  "fst (rx_feed 7 sim_broken_events rx_zero) = [(''fan1/set'', ''ON'', False, 7)] \<and>
   (\<exists>before part rest. sim_broken_events = before @ part @ rest \<and> received_as 7 part (''fan1/set'', ''ON'', False, 7))"
proof -
  have c: "fst (rx_feed 7 sim_broken_events rx_zero) = [(''fan1/set'', ''ON'', False, 7)]" by code_simp
  moreover have "\<forall>event \<in> set sim_broken_events. event_ok event" by (simp add: sim_broken_events_def event_ok_def)
  moreover have "(''fan1/set'', ''ON'', False, 7) \<in> set (fst (rx_feed 7 sim_broken_events rx_zero))" unfolding c by simp
  ultimately show ?thesis
    using only_received_commands_complete [OF surjective_pairing] by blast
qed

text \<open>C35. The assembly stays within its buffers. Whatever lengths and offsets an event claims, the copy
  of its bytes leaves the payload buffer at its size, the total length of a message under assembly is
  below the buffer's capacity, and a completed message is terminated by a NUL inside the buffer, right
  after its payload.\<close>

theorem rx_assembly_in_bounds:
  assumes "rx_fragment event g rx = (complete, rx')" and "rx_ok rx"
  shows "rx_ok rx' \<and> (complete \<longrightarrow> rx_topic rx' \<noteq> [] \<and> rx_total_len rx' < int (length (rx_payload rx')) \<and>
    rx_payload rx' ! nat (rx_total_len rx') = NUL)"
proof -
  note ok = rx_fragment_ok [OF assms]
  have "rx_payload rx' ! nat (rx_total_len rx') = NUL" if complete
  proof -
    have b: "rx_total_len rx' < int (length (rx_payload rx'))" "0 \<le> rx_total_len rx'" using ok that by (auto simp: rx_ok_def)
    have "\<exists>rx1. rx_accept event g rx1 = (True, rx')"
      using assms(1) that by (auto simp: rx_fragment_def split: if_splits prod.splits bool.splits)
    then have "\<exists>p. rx_payload rx' = p[nat (rx_total_len rx') := NUL]"
      by (auto simp: rx_accept_def Let_def split: if_splits)
    then show ?thesis using b by (auto simp: nat_less_iff)
  qed
  then show ?thesis using ok by (auto simp: rx_ok_def)
qed

theorem rx_assembly_in_bounds_witness:
  "\<exists>rx. rx_fragment (hd (fragments None ''t'' True 2 0 [''ON''])) 1 rx_zero = (True, rx) \<and> rx_ok rx \<and>
     rx_payload rx ! nat (rx_total_len rx) = NUL"
proof -
  let ?e = "hd (fragments None ''t'' True 2 0 [''ON''])"
  have "fst (rx_fragment ?e 1 rx_zero)" by code_simp
  then obtain rx where "rx_fragment ?e 1 rx_zero = (True, rx)" by (metis prod.collapse)
  from this rx_assembly_in_bounds [OF this] show ?thesis by simp
qed

section \<open>The functions follow the protocol\<close>

text \<open>C20. The event handler refines the protocol. Every event ESP-MQTT delivers - a connection with all its
  subscriptions, a disconnection, an acknowledgement, a fragment of a message with the queueing of the
  command it completes, an error - is handled in steps of the protocol, whatever the other tasks do
  wherever the handler takes the fence, blocks in the client or leaves a critical section; at its end the
  fence is free of it and the assembly is well formed again.\<close>

theorem event_handler_refines_protocol:
  assumes "mqtt_env k v Event_Task ops" and "mqtt_good k v (point v n h)"
    and "b_fence (mv_bus v (snd n)) \<noteq> Some Event_Task" and "h_phase h = Idle" and "h_claimed h = None" and "rx_ok (mm_rx (fst n))"
    and "run_state (mqtt_manager_event_handler k ops event_id event) n = (r, n')"
  shows "\<exists>h'. mqtt_run k (point v n h) (point v n' h') \<and> b_fence (mv_bus v (snd n')) \<noteq> Some Event_Task \<and> h_phase h' = Idle \<and>
    h_claimed h' = None \<and> rx_ok (mm_rx (fst n'))"
proof -
  have "event_idle (point v n h)" using assms(3-6) by (simp add: holds_fence_def event_at_def point_def)
  from followsE [OF follows_event_handler [OF assms(1)] assms(2) this, of event_id event] obtain h' where
    h': "mqtt_run k (point v n h) (point v n' h')" "event_idle (point v n' h')" using assms(7) by auto
  then have "b_fence (mv_bus v (snd n')) \<noteq> Some Event_Task \<and> h_phase h' = Idle \<and> h_claimed h' = None \<and> rx_ok (mm_rx (fst n'))"
    by (simp add: holds_fence_def event_at_def point_def)
  then show ?thesis using h'(1) by blast
qed

theorem event_handler_refines_protocol_witness:
  "\<exists>n' h'. mqtt_run sim_mqtt_kconfig (sim_mqtt_ready, bus_zero, sim_history) (fst n', mv_bus (sim_alone_view Event_Task) (snd n'), h') \<and>
    \<not> mm_connected (fst n') \<and> h_phase h' = Idle"
proof -
  let ?v = "sim_alone_view Event_Task" and ?n = "(sim_mqtt_ready, ((), False, []))" and ?e = "Some sim_suback"
  have p: "point ?v ?n sim_history = (sim_mqtt_ready, bus_zero, sim_history)" by (simp add: point_def sim_mqtt_view_def bus_zero_def)
  obtain r n' where n': "run_state (mqtt_manager_event_handler sim_mqtt_kconfig sim_mqtt_ops MQTT_EVENT_DISCONNECTED ?e) ?n = (r, n')"
    by (rule prod.exhaust)
  have "\<not> mm_connected (fst (snd (run_state (mqtt_manager_event_handler sim_mqtt_kconfig sim_mqtt_ops MQTT_EVENT_DISCONNECTED ?e) ?n)))"
    by code_simp
  then have "\<not> mm_connected (fst n')" using n' by simp
  moreover have good: "mqtt_good sim_mqtt_kconfig ?v (point ?v ?n sim_history)"
    unfolding p using mqtt_reachable_inv [OF sim_mqtt_ready_reachable] by (simp add: sim_mqtt_view_def)
  moreover have idle: "b_fence (mv_bus ?v (snd ?n)) \<noteq> Some Event_Task" "h_phase sim_history = Idle" "h_claimed sim_history = None"
    "rx_ok (mm_rx (fst ?n))" using sim_mqtt_ready_facts by (simp_all add: sim_mqtt_view_def sim_history_def history_zero_def)
  ultimately show ?thesis
    using event_handler_refines_protocol [OF sim_mqtt_env good idle n'] unfolding p unfolding point_def by blast
qed





end
