(* ===== verification/Ota_Manager.thy ===== *)
theory Ota_Manager imports Controller_Policy Platform
begin

text \<open>
  \<open>main/ota_manager.c\<close>: the singleton claim of an update, its start in two halves - the first under the
  caller's fence, the second outside - and the task that downloads the image. The static variables are
  the fields of \<open>ota_manager\<close>; the state of the module stands beside the rest of the world (\<open>'n\<close>), on
  which the callbacks of \<open>app_main.c\<close> act. A copied URL is the address of the allocation with the bytes
  written to it; pointers are compared by address. Other tasks run after every critical section and
  during every call that leaves the module (\<open>oto_others\<close>).
\<close>

section \<open>Data\<close>

definition OTA_MANAGER_REBOOT_STATUS_GRACE_MS :: u32 where "OTA_MANAGER_REBOOT_STATUS_GRACE_MS = 1000"

datatype ota_manager_start_result =
    OTA_MANAGER_START_ACCEPTED
  | OTA_MANAGER_START_REJECTED_URL
  | OTA_MANAGER_START_TIME_NOT_READY
  | OTA_MANAGER_START_BUSY
  | OTA_MANAGER_START_PREPARE_FAILED
  | OTA_MANAGER_START_ALLOC_FAILED
  | OTA_MANAGER_START_TASK_FAILED
  | OTA_MANAGER_START_NOT_INITIALIZED
  | OTA_MANAGER_START_INVALID_ARGUMENT
  | OTA_MANAGER_START_DISABLED

text \<open>A callback that is \<open>NULL\<close> is \<open>None\<close>; the preparation may not return.\<close>

record 'n ota_manager_config =
  omc_prepare :: "('n \<Rightarrow> (bool \<times> 'n) option) option"
  omc_trusted_time :: "('n \<Rightarrow> bool \<times> 'n) option"
  omc_abort :: "('n \<Rightarrow> 'n) option"
  omc_publish_status :: "(string \<Rightarrow> bool \<Rightarrow> 'n \<Rightarrow> 'n) option"

type_synonym ota_url = "nat \<times> string"

record 'n ota_manager =
  om_config :: "'n ota_manager_config"
  om_initialized :: bool
  om_in_progress :: bool
  om_task :: "nat option"
  om_url_copy :: "ota_url option"

definition ota_manager_boot :: "'n ota_manager" where
  "ota_manager_boot = \<lparr>om_config = \<lparr>omc_prepare = None, omc_trusted_time = None, omc_abort = None, omc_publish_status = None\<rparr>,
     om_initialized = False, om_in_progress = False, om_task = None, om_url_copy = None\<rparr>"

text \<open>What the module calls outside: the heap, FreeRTOS, the download and the restart.\<close>

record 'n ota_ops =
  oto_others :: "'n ota_manager \<times> 'n \<Rightarrow> 'n ota_manager \<times> 'n"
  oto_malloc :: "nat \<Rightarrow> 'n \<Rightarrow> nat option \<times> 'n"
  oto_free :: "nat \<Rightarrow> 'n \<Rightarrow> 'n"
  oto_task_create :: "ota_url \<Rightarrow> 'n \<Rightarrow> nat option \<times> 'n"
  oto_notify_give :: "nat \<Rightarrow> 'n \<Rightarrow> 'n"
  oto_notify_take :: "'n ota_manager \<times> 'n \<Rightarrow> 'n ota_manager \<times> 'n"
  oto_download_verified :: "string \<Rightarrow> 'n ota_manager \<times> 'n \<Rightarrow> esp_err \<times> ('n ota_manager \<times> 'n)"
  oto_delay :: "u32 \<Rightarrow> 'n ota_manager \<times> 'n \<Rightarrow> 'n ota_manager \<times> 'n"
  oto_ms_to_ticks :: "u32 \<Rightarrow> u32"
  oto_restart :: "'n \<Rightarrow> 'n"

definition ota_critical :: "'n ota_ops \<Rightarrow> ('n ota_manager \<Rightarrow> 'r \<times> 'n ota_manager) \<Rightarrow> 'n ota_manager \<times> 'n \<Rightarrow> 'r \<times> ('n ota_manager \<times> 'n)" where
  "ota_critical ops f x = (case x of (s, n) \<Rightarrow> case f s of (r, s') \<Rightarrow> (r, oto_others ops (s', n)))"

definition ota_call :: "'n ota_ops \<Rightarrow> ('n \<Rightarrow> 'r \<times> 'n) \<Rightarrow> 'n ota_manager \<times> 'n \<Rightarrow> 'r \<times> ('n ota_manager \<times> 'n)" where
  "ota_call ops f x = (case x of (s, n) \<Rightarrow> case f n of (r, n') \<Rightarrow> (r, oto_others ops (s, n')))"

definition ota_tell :: "'n ota_ops \<Rightarrow> ('n \<Rightarrow> 'n) \<Rightarrow> 'n ota_manager \<times> 'n \<Rightarrow> 'n ota_manager \<times> 'n" where
  "ota_tell ops f x = (case x of (s, n) \<Rightarrow> oto_others ops (s, f n))"

section \<open>Helpers\<close>

definition ota_publish_status :: "'n ota_ops \<Rightarrow> string \<Rightarrow> bool \<Rightarrow> 'n ota_manager \<times> 'n \<Rightarrow> 'n ota_manager \<times> 'n" where
  "ota_publish_status ops status retain x =
     (case ota_critical ops (\<lambda>s. (if om_initialized s then omc_publish_status (om_config s) else None, s)) x of
        (None, x1) \<Rightarrow> x1
      | (Some callback, x1) \<Rightarrow> ota_tell ops (callback status retain) x1)"

definition abort_prepared_update :: "'n ota_ops \<Rightarrow> 'n ota_manager \<times> 'n \<Rightarrow> 'n ota_manager \<times> 'n" where
  "abort_prepared_update ops x =
     (case ota_critical ops (\<lambda>s. (if om_initialized s then omc_abort (om_config s) else None, s)) x of
        (None, x1) \<Rightarrow> x1
      | (Some callback, x1) \<Rightarrow> ota_tell ops callback x1)"

definition release_section :: "ota_url option \<Rightarrow> 'n ota_manager \<Rightarrow> 'n ota_manager" where
  "release_section owned_url s =
     (if owned_url = None \<or> map_option fst (om_url_copy s) = map_option fst owned_url
      then s\<lparr>om_url_copy := None, om_task := None, om_in_progress := False\<rparr> else s)"

definition release_claim :: "'n ota_ops \<Rightarrow> ota_url option \<Rightarrow> 'n ota_manager \<times> 'n \<Rightarrow> 'n ota_manager \<times> 'n" where
  "release_claim ops owned_url x = snd (ota_critical ops (\<lambda>s. ((), release_section owned_url s)) x)"

definition free_url :: "'n ota_ops \<Rightarrow> ota_url option \<Rightarrow> 'n ota_manager \<times> 'n \<Rightarrow> 'n ota_manager \<times> 'n" where
  "free_url ops url x = (case url of None \<Rightarrow> x | Some (address, _) \<Rightarrow> ota_tell ops (oto_free ops address) x)"

section \<open>The interface\<close>

definition ota_init_section :: "'n ota_manager_config \<Rightarrow> 'n ota_manager \<Rightarrow> esp_err \<times> 'n ota_manager" where
  "ota_init_section config s =
     (if om_initialized s \<or> om_in_progress s then (ESP_ERR_INVALID_STATE, s)
      else (ESP_OK, s\<lparr>om_config := config, om_initialized := True\<rparr>))"

definition ota_manager_init :: "'n ota_ops \<Rightarrow> 'n ota_manager_config option \<Rightarrow> 'n ota_manager \<times> 'n \<Rightarrow> esp_err \<times> ('n ota_manager \<times> 'n)" where
  "ota_manager_init ops config x =
     (case config of None \<Rightarrow> (ESP_ERR_INVALID_ARG, x)
      | Some c \<Rightarrow>
        (case (omc_prepare c, omc_trusted_time c, omc_abort c, omc_publish_status c) of
           (Some _, Some _, Some _, Some _) \<Rightarrow> ota_critical ops (ota_init_section c) x
         | _ \<Rightarrow> (ESP_ERR_INVALID_ARG, x)))"

definition ota_manager_url_allowed :: "string \<Rightarrow> string option \<Rightarrow> bool" where
  "ota_manager_url_allowed prefix url = controller_https_url_allowed url (Some prefix)"

definition ota_manager_is_in_progress :: "'n ota_ops \<Rightarrow> 'n ota_manager \<times> 'n \<Rightarrow> bool \<times> ('n ota_manager \<times> 'n)" where
  "ota_manager_is_in_progress ops x = ota_critical ops (\<lambda>s. (om_in_progress s, s)) x"

definition ota_claim_section :: "ota_url \<Rightarrow> 'n ota_manager \<Rightarrow> bool \<times> 'n ota_manager" where
  "ota_claim_section url_copy s =
     (if om_in_progress s then (False, s) else (True, s\<lparr>om_in_progress := True, om_url_copy := Some url_copy\<rparr>))"

text \<open>A URL is a C string in memory, so its length is below \<open>SIZE_MAX\<close>.\<close>

definition ota_manager_start :: "'n ota_ops \<Rightarrow> string \<Rightarrow> string option \<Rightarrow> 'n ota_manager \<times> 'n \<Rightarrow>
    ota_manager_start_result \<times> ('n ota_manager \<times> 'n)" where
  "ota_manager_start ops prefix url x =
     (case url of None \<Rightarrow> (OTA_MANAGER_START_INVALID_ARGUMENT, x)
      | Some text \<Rightarrow>
        (case ota_critical ops (\<lambda>s. (if om_initialized s then omc_trusted_time (om_config s) else None, s)) x of
           (None, x1) \<Rightarrow> (OTA_MANAGER_START_NOT_INITIALIZED, x1)
         | (Some trusted_time, x1) \<Rightarrow>
           if \<not> ota_manager_url_allowed prefix url then (OTA_MANAGER_START_REJECTED_URL, x1)
           else (case ota_call ops trusted_time x1 of
             (False, x2) \<Rightarrow> (OTA_MANAGER_START_TIME_NOT_READY, x2)
           | (True, x2) \<Rightarrow>
             (case ota_call ops (oto_malloc ops (length text + 1)) x2 of
                (None, x3) \<Rightarrow> (OTA_MANAGER_START_ALLOC_FAILED, x3)
              | (Some address, x3) \<Rightarrow>
                (case ota_critical ops (ota_claim_section (address, text)) x3 of
                   (False, x4) \<Rightarrow> (OTA_MANAGER_START_BUSY, ota_tell ops (oto_free ops address) x4)
                 | (True, x4) \<Rightarrow> (OTA_MANAGER_START_ACCEPTED, x4))))))"

definition ota_complete_section :: "'n ota_manager \<Rightarrow>
    (('n \<Rightarrow> (bool \<times> 'n) option) option \<times> ota_url option) \<times> 'n ota_manager" where
  "ota_complete_section s =
     (if om_initialized s \<and> om_in_progress s then (omc_prepare (om_config s), om_url_copy s) else (None, None), s)"

text \<open>After the preparation: the task is created, and released once its handle is recorded.\<close>

definition ota_launch :: "'n ota_ops \<Rightarrow> ota_url \<Rightarrow> 'n ota_manager \<times> 'n \<Rightarrow> ota_manager_start_result \<times> ('n ota_manager \<times> 'n)" where
  "ota_launch ops url x =
     (case ota_call ops (oto_task_create ops url) x of
        (None, x1) \<Rightarrow>
          let x2 = abort_prepared_update ops x1;
              x3 = release_claim ops (Some url) x2;
              x4 = free_url ops (Some url) x3
          in (OTA_MANAGER_START_TASK_FAILED, ota_publish_status ops ''failed'' False x4)
      | (Some task, x1) \<Rightarrow>
          let x2 = snd (ota_critical ops (\<lambda>s. ((), s\<lparr>om_task := Some task\<rparr>)) x1);
              x3 = ota_publish_status ops ''starting'' False x2
          in (OTA_MANAGER_START_ACCEPTED, ota_tell ops (oto_notify_give ops task) x3))"

definition ota_complete_accepted :: "'n ota_ops \<Rightarrow> 'n ota_manager \<times> 'n \<Rightarrow>
    (ota_manager_start_result \<times> ('n ota_manager \<times> 'n)) option" where
  "ota_complete_accepted ops x =
     (case ota_critical ops ota_complete_section x of
        ((Some prepare, Some url), (s1, n1)) \<Rightarrow>
          (case prepare n1 of None \<Rightarrow> None
           | Some (False, n2) \<Rightarrow>
               let x3 = release_claim ops (Some url) (oto_others ops (s1, n2));
                   x4 = free_url ops (Some url) x3
               in Some (OTA_MANAGER_START_PREPARE_FAILED, ota_publish_status ops ''failed'' False x4)
           | Some (True, n2) \<Rightarrow> Some (ota_launch ops url (oto_others ops (s1, n2))))
      | ((prepare, url), x1) \<Rightarrow>
          let x2 = ota_publish_status ops ''failed'' False x1;
              x3 = release_claim ops url x2
          in Some (OTA_MANAGER_START_NOT_INITIALIZED, free_url ops url x3))"

definition ota_manager_complete_start :: "'n ota_ops \<Rightarrow> ota_manager_start_result \<Rightarrow> 'n ota_manager \<times> 'n \<Rightarrow>
    (ota_manager_start_result \<times> ('n ota_manager \<times> 'n)) option" where
  "ota_manager_complete_start ops start_result x =
     (if start_result = OTA_MANAGER_START_ACCEPTED then ota_complete_accepted ops x
      else Some (start_result,
        if start_result = OTA_MANAGER_START_REJECTED_URL then ota_publish_status ops ''rejected'' False x
        else if start_result = OTA_MANAGER_START_PREPARE_FAILED \<or> start_result = OTA_MANAGER_START_ALLOC_FAILED \<or>
          start_result = OTA_MANAGER_START_TASK_FAILED then ota_publish_status ops ''failed'' False x
        else x))"

section \<open>The task\<close>

definition downloaded_section :: "ota_url \<Rightarrow> 'n ota_manager \<Rightarrow> 'n ota_manager" where
  "downloaded_section url s = (if map_option fst (om_url_copy s) = Some (fst url) then s\<lparr>om_url_copy := None\<rparr> else s)"

text \<open>True when it ends in a restart, which does not return; else the task deletes itself.\<close>

definition ota_manager_task :: "'n ota_ops \<Rightarrow> ota_url \<Rightarrow> 'n ota_manager \<times> 'n \<Rightarrow> bool \<times> ('n ota_manager \<times> 'n)" where
  "ota_manager_task ops url x =
     (case oto_download_verified ops (snd url) (oto_notify_take ops x) of (err, x1) \<Rightarrow>
        if err = ESP_OK then
          let x2 = ota_publish_status ops ''downloaded_rebooting'' True x1;
              x3 = snd (ota_critical ops (\<lambda>s. ((), downloaded_section url s)) x2);
              x4 = free_url ops (Some url) x3;
              (s5, n5) = oto_delay ops (oto_ms_to_ticks ops OTA_MANAGER_REBOOT_STATUS_GRACE_MS) x4
          in (True, (s5, oto_restart ops n5))
        else
          let x2 = ota_publish_status ops ''failed'' True x1;
              x3 = abort_prepared_update ops x2;
              x4 = release_claim ops (Some url) x3
          in (False, free_url ops (Some url) x4))"

section \<open>The build without updates\<close>

definition ota_manager_init_stub :: esp_err where "ota_manager_init_stub = ESP_OK"
definition ota_manager_start_stub :: ota_manager_start_result where "ota_manager_start_stub = OTA_MANAGER_START_DISABLED"
definition ota_manager_complete_start_stub :: "ota_manager_start_result \<Rightarrow> ota_manager_start_result" where
  "ota_manager_complete_start_stub start_result = start_result"
definition ota_manager_url_allowed_stub :: "string option \<Rightarrow> bool" where "ota_manager_url_allowed_stub url = False"
definition ota_manager_is_in_progress_stub :: bool where "ota_manager_is_in_progress_stub = False"

end
