(* ===== verification/Command_Executor.thy ===== *)
theory Command_Executor imports Command_Router Scheduler Motor_Control Mqtt_Manager Ota_Manager "HOL-Library.Monad_Syntax"
begin

text \<open>
  \<open>main/command_executor.c\<close>: the callback of the dispatch task, which parses a message and carries the
  command out under the session fence, the supervisor's output guard and the tachometer actions' lock.
  The static variables are the fields of \<open>command_executor\<close>. What the other modules offer are the
  fields of \<open>executor_ops\<close>, functions of the state of the node (\<open>'n\<close>); a call that may not return is
  partial.
\<close>

section \<open>Data\<close>

definition MQTT_COMMAND_COMMIT_WAIT_MS :: u32 where "MQTT_COMMAND_COMMIT_WAIT_MS = 1500"

record executor_kconfig =
  xk_schedule :: bool
  xk_schedule_slots :: u32
  xk_tach :: bool
  xk_ota :: bool
  xk_ota_prefix :: string
  xk_legacy :: bool

record command_executor =
  ce_app_config :: "app_config option"
  ce_router_config :: command_router_config

definition command_executor_boot :: command_executor where
  "command_executor_boot = \<lparr>ce_app_config = None, ce_router_config = \<lparr>node_base_prefix = None, legacy_base_prefix = None,
     rc_fan_index_start = 0, rc_fan_count = 0, schedule_slot_count = 0, tach_enabled = False, schedule_enabled = False,
     ota_enabled = False, legacy_enabled = False, ota_allowed_url_prefix = None\<rparr>\<rparr>"

definition executor_router_config :: "executor_kconfig \<Rightarrow> app_config \<Rightarrow> command_router_config" where
  "executor_router_config xk c = \<lparr>node_base_prefix = Some (node_topic c), legacy_base_prefix = Some (mqtt_root_topic c),
     rc_fan_index_start = fan_index_start c, rc_fan_count = fan_count c,
     schedule_slot_count = (if xk_schedule xk then xk_schedule_slots xk else 0), tach_enabled = xk_tach xk,
     schedule_enabled = xk_schedule xk, ota_enabled = xk_ota xk, legacy_enabled = xk_legacy xk,
     ota_allowed_url_prefix = (if xk_ota xk then Some (xk_ota_prefix xk) else None)\<rparr>"

definition command_executor_init :: "executor_kconfig \<Rightarrow> app_config option \<Rightarrow> command_executor \<Rightarrow> esp_err \<times> command_executor" where
  "command_executor_init xk config s =
     (case config of None \<Rightarrow> (ESP_ERR_INVALID_ARG, s)
      | Some c \<Rightarrow> (case ce_app_config s of
          Some _ \<Rightarrow> (ESP_ERR_INVALID_STATE, s)
        | None \<Rightarrow> (ESP_OK, \<lparr>ce_app_config = Some c, ce_router_config = executor_router_config xk c\<rparr>)))"

record 'n executor_ops =
  ceo_ms_to_ticks :: "u32 \<Rightarrow> u32"
  ceo_commit_begin :: "mqtt_manager_command_session \<Rightarrow> u32 \<Rightarrow> 'n \<Rightarrow> esp_err \<times> 'n"
  ceo_commit_end :: "'n \<Rightarrow> 'n"
  ceo_output_begin :: "u32 \<Rightarrow> 'n \<Rightarrow> esp_err \<times> 'n"
  ceo_output_end :: "'n \<Rightarrow> 'n"
  ceo_enable_output :: "'n \<Rightarrow> bool \<times> 'n"
  ceo_request_save :: "'n \<Rightarrow> 'n"
  ceo_scheduler_manual :: "int \<Rightarrow> u8 \<Rightarrow> 'n \<Rightarrow> ((esp_err \<times> scheduler_target_result option) \<times> 'n) option"
  ceo_motor_manual :: "int \<Rightarrow> u8 \<Rightarrow> 'n \<Rightarrow> (esp_err \<times> motor_control_ack) \<times> 'n"
  ceo_clear_begin :: "'n \<Rightarrow> esp_err \<times> 'n"
  ceo_clear_locked :: "int \<Rightarrow> 'n \<Rightarrow> esp_err \<times> 'n"
  ceo_clear_end :: "'n \<Rightarrow> 'n"
  ceo_set_override :: "bool \<Rightarrow> 'n \<Rightarrow> (esp_err \<times> 'n) option"
  ceo_set_entry :: "int \<Rightarrow> int \<Rightarrow> u32 \<Rightarrow> u32 \<Rightarrow> u8 \<Rightarrow> 'n \<Rightarrow> (esp_err \<times> 'n) option"
  ceo_disable_entry :: "int \<Rightarrow> int \<Rightarrow> 'n \<Rightarrow> (esp_err \<times> 'n) option"
  ceo_get_entry :: "int \<Rightarrow> int \<Rightarrow> 'n \<Rightarrow> (esp_err \<times> scheduler_entry_snapshot option) \<times> 'n"
  ceo_ota_in_progress :: "'n \<Rightarrow> bool \<times> 'n"
  ceo_ota_start :: "string \<Rightarrow> 'n \<Rightarrow> ota_manager_start_result \<times> 'n"
  ceo_ota_complete :: "ota_manager_start_result \<Rightarrow> 'n \<Rightarrow> (ota_manager_start_result \<times> 'n) option"
  ceo_publish_manual_ack :: "int \<Rightarrow> u32 \<Rightarrow> u8 \<Rightarrow> u8 \<Rightarrow> 'n \<Rightarrow> 'n"
  ceo_publish_schedule_entry :: "int \<Rightarrow> u32 \<Rightarrow> scheduler_entry_snapshot \<Rightarrow> 'n \<Rightarrow> 'n"
  ceo_request_fan :: "int \<Rightarrow> bool \<Rightarrow> 'n \<Rightarrow> 'n"

section \<open>Manual commands\<close>

text \<open>A result that the callee does not write is the caller's zero.\<close>

definition apply_manual_command :: "executor_kconfig \<Rightarrow> 'n executor_ops \<Rightarrow> int \<Rightarrow> u8 \<Rightarrow> 'n \<Rightarrow>
    ((esp_err \<times> scheduler_target_result) \<times> 'n) option" where
  "apply_manual_command xk ops local_fan target n =
     (if xk_schedule xk
      then do {
        ((err, written), n1) \<leftarrow> ceo_scheduler_manual ops local_fan target n;
        Some ((err, case written of None \<Rightarrow> target_result_zero | Some r \<Rightarrow> r), n1) }
      else (case ceo_motor_manual ops local_fan target n of ((err, ack), n1) \<Rightarrow>
        Some ((err, \<lparr>res_accepted = (err = ESP_OK \<and> ack_accepted ack), res_manual_target_pct = target,
           res_communication_inhibit_cleared = ack_communication_inhibit_cleared ack,
           res_accepted_command_count = ack_accepted_command_count ack,
           res_requested_pct = ack_requested_pct ack, res_applied_pct = ack_applied_pct ack\<rparr>), n1)))"

definition acknowledge_manual_command :: "'n executor_ops \<Rightarrow> int \<Rightarrow> scheduler_target_result \<Rightarrow> 'n \<Rightarrow> 'n" where
  "acknowledge_manual_command ops local_fan result n =
     (if \<not> res_accepted result then n
      else ceo_publish_manual_ack ops local_fan (res_accepted_command_count result) (res_requested_pct result) (res_applied_pct result) n)"

text \<open>Under both the fence and the guard: the target, its persistence and the output.\<close>

definition manual_under_guard :: "executor_kconfig \<Rightarrow> 'n executor_ops \<Rightarrow> int \<Rightarrow> u8 \<Rightarrow> 'n \<Rightarrow>
    ((esp_err \<times> scheduler_target_result) \<times> 'n) option" where
  "manual_under_guard xk ops local_fan target n = do {
     ((err, result), n1) \<leftarrow> apply_manual_command xk ops local_fan target n;
     let n2 = (if err = ESP_OK \<and> res_accepted result then snd (ceo_enable_output ops (ceo_request_save ops n1)) else n1);
     Some ((err, result), ceo_output_end ops n2) }"

definition manual_command :: "executor_kconfig \<Rightarrow> 'n executor_ops \<Rightarrow> mqtt_manager_command_session \<Rightarrow> int \<Rightarrow> u8 \<Rightarrow> 'n \<Rightarrow> 'n option" where
  "manual_command xk ops session local_fan target n =
     (case ceo_commit_begin ops session (ceo_ms_to_ticks ops MQTT_COMMAND_COMMIT_WAIT_MS) n of (fence_error, n1) \<Rightarrow>
        if fence_error \<noteq> ESP_OK then Some n1
        else do {
          ((err, result), n3) \<leftarrow> (case ceo_output_begin ops (ceo_ms_to_ticks ops MQTT_COMMAND_COMMIT_WAIT_MS) n1 of (guard_error, n2) \<Rightarrow>
            if guard_error = ESP_OK then manual_under_guard xk ops local_fan target n2
            else Some ((guard_error, target_result_zero), n2));
          let n4 = ceo_commit_end ops n3;
          Some (if err \<noteq> ESP_OK \<or> \<not> res_accepted result then n4
                else ceo_request_fan ops local_fan True (acknowledge_manual_command ops local_fan result n4)) })"

section \<open>The other commands\<close>

definition tach_clear_command :: "'n executor_ops \<Rightarrow> mqtt_manager_command_session \<Rightarrow> int \<Rightarrow> 'n \<Rightarrow> 'n" where
  "tach_clear_command ops session local_fan n =
     (case ceo_clear_begin ops n of (begin_error, n1) \<Rightarrow>
        if begin_error \<noteq> ESP_OK then n1
        else case ceo_commit_begin ops session (ceo_ms_to_ticks ops MQTT_COMMAND_COMMIT_WAIT_MS) n1 of (fence_error, n2) \<Rightarrow>
          (case (if fence_error = ESP_OK
                 then case ceo_clear_locked ops local_fan n2 of (err, n3) \<Rightarrow> (err, ceo_commit_end ops n3)
                 else (fence_error, n2)) of (err, n4) \<Rightarrow>
             let n5 = ceo_clear_end ops n4 in if err \<noteq> ESP_OK then n5 else ceo_request_fan ops local_fan True n5))"

text \<open>A change of the schedules: its result is only logged.\<close>

definition fenced_command :: "'n executor_ops \<Rightarrow> mqtt_manager_command_session \<Rightarrow> ('n \<Rightarrow> (esp_err \<times> 'n) option) \<Rightarrow> 'n \<Rightarrow> 'n option" where
  "fenced_command ops session change n =
     (case ceo_commit_begin ops session (ceo_ms_to_ticks ops MQTT_COMMAND_COMMIT_WAIT_MS) n of (fence_error, n1) \<Rightarrow>
        if fence_error \<noteq> ESP_OK then Some n1
        else do { (err, n2) \<leftarrow> change n1; Some (ceo_commit_end ops n2) })"

definition schedule_get_command :: "'n executor_ops \<Rightarrow> int \<Rightarrow> u32 \<Rightarrow> 'n \<Rightarrow> 'n" where
  "schedule_get_command ops local_fan slot n =
     (case ceo_get_entry ops local_fan (sint slot) n of ((err, snapshot), n1) \<Rightarrow>
        (case snapshot of Some entry \<Rightarrow> if err \<noteq> ESP_OK then n1 else ceo_publish_schedule_entry ops local_fan slot entry n1
         | None \<Rightarrow> n1))"

definition ota_command :: "'n executor_ops \<Rightarrow> mqtt_manager_command_session \<Rightarrow> string \<Rightarrow> 'n \<Rightarrow> 'n option" where
  "ota_command ops session text n =
     (case ceo_commit_begin ops session (ceo_ms_to_ticks ops MQTT_COMMAND_COMMIT_WAIT_MS) n of (fence_error, n1) \<Rightarrow>
        if fence_error \<noteq> ESP_OK then Some n1
        else case ceo_ota_start ops text n1 of (claim_result, n2) \<Rightarrow> do {
          (start_result, n3) \<leftarrow> ceo_ota_complete ops claim_result (ceo_commit_end ops n2);
          Some n3 })"

section \<open>A message\<close>

text \<open>The C types hold each value as it is asked for: a union member that the command does not have is
  zero.\<close>

definition value_percentage :: "command_value \<Rightarrow> u8" where
  "value_percentage v = (case v of Percentage p \<Rightarrow> p | _ \<Rightarrow> 0)"

definition manual_target :: "app_config option \<Rightarrow> command_router_command \<Rightarrow> u8" where
  "manual_target config command =
     (if cmd_type command = COMMAND_ROUTER_COMMAND_MANUAL_ON then (case config of None \<Rightarrow> 0 | Some c \<Rightarrow> word_of_int (min_spin_pct c))
      else if cmd_type command = COMMAND_ROUTER_COMMAND_MANUAL_OFF then 0
      else value_percentage (cmd_value command))"

definition execute_command :: "executor_kconfig \<Rightarrow> 'n executor_ops \<Rightarrow> command_executor \<Rightarrow> mqtt_manager_command_session \<Rightarrow>
    command_router_command \<Rightarrow> 'n \<Rightarrow> 'n option" where
  "execute_command xk ops s session command n =
     (let local_fan = fan_local_index command; slot = schedule_slot command
      in case cmd_type command of
        COMMAND_ROUTER_COMMAND_MANUAL_ON \<Rightarrow> manual_command xk ops session local_fan (manual_target (ce_app_config s) command) n
      | COMMAND_ROUTER_COMMAND_MANUAL_OFF \<Rightarrow> manual_command xk ops session local_fan (manual_target (ce_app_config s) command) n
      | COMMAND_ROUTER_COMMAND_MANUAL_PERCENTAGE \<Rightarrow> manual_command xk ops session local_fan (manual_target (ce_app_config s) command) n
      | COMMAND_ROUTER_COMMAND_TACH_CLEAR \<Rightarrow> Some (tach_clear_command ops session local_fan n)
      | COMMAND_ROUTER_COMMAND_SCHEDULE_OVERRIDE \<Rightarrow>
          fenced_command ops session (ceo_set_override ops (case cmd_value command of Schedule_Override inhibited \<Rightarrow> inhibited | _ \<Rightarrow> False)) n
      | COMMAND_ROUTER_COMMAND_SCHEDULE_SET \<Rightarrow>
          fenced_command ops session (case cmd_value command of
              Schedule_Set interval duration target \<Rightarrow> ceo_set_entry ops local_fan (sint slot) interval duration target
            | _ \<Rightarrow> ceo_set_entry ops local_fan (sint slot) 0 0 0) n
      | COMMAND_ROUTER_COMMAND_SCHEDULE_DISABLE \<Rightarrow> fenced_command ops session (ceo_disable_entry ops local_fan (sint slot)) n
      | COMMAND_ROUTER_COMMAND_SCHEDULE_GET \<Rightarrow> Some (schedule_get_command ops local_fan slot n)
      | COMMAND_ROUTER_COMMAND_OTA_UPDATE \<Rightarrow>
          ota_command ops session (case cmd_value command of Ota_Update u _ \<Rightarrow> u | _ \<Rightarrow> []) n
      | COMMAND_ROUTER_COMMAND_NONE \<Rightarrow> Some n)"

text \<open>The payload is a buffer, of which a C string is the part before the first NUL; the topic has been
  assembled as a string.\<close>

definition command_executor_on_message :: "executor_kconfig \<Rightarrow> 'n executor_ops \<Rightarrow> command_executor \<Rightarrow> string option \<Rightarrow>
    char list option \<Rightarrow> nat \<Rightarrow> bool \<Rightarrow> mqtt_manager_command_session option \<Rightarrow> 'n \<Rightarrow> 'n option" where
  "command_executor_on_message xk ops s topic data len retained session n =
     (case (topic, data, session) of
        (Some t, Some d, Some ses) \<Rightarrow>
          if len \<noteq> length (takeWhile (\<lambda>c. c \<noteq> NUL) d) \<or> retained then Some n
          else (case (if xk_ota xk then ceo_ota_in_progress ops n else (False, n)) of (busy, n1) \<Rightarrow>
            if busy then Some n1
            else case command_router_parse (Some (ce_router_config s)) topic (length t) data len False of (parse_result, command) \<Rightarrow>
              if parse_result \<noteq> COMMAND_ROUTER_ACCEPTED then Some n1
              else execute_command xk ops s ses command n1)
      | _ \<Rightarrow> Some n)"

end
