(* ===== verification/Executor_Discipline.thy ===== *)
theory Executor_Discipline imports Command_Executor
begin

text \<open>
  What a command may do. An execution is the sequence of the calls the executor makes, each with the state
  it is made in; \<open>discipline\<close> is the automaton of the locks that such a sequence has to obey, and
  \<open>effects\<close> the changes a command stands for.
\<close>

section \<open>Calls\<close>

datatype executor_call =
    Commit_Begin esp_err
  | Commit_End
  | Output_Begin esp_err
  | Output_End
  | Enable_Output
  | Request_Save
  | Scheduler_Manual int u8
  | Motor_Manual int u8
  | Clear_Begin esp_err
  | Clear_Locked int
  | Clear_End
  | Set_Override bool
  | Set_Entry int int u32 u32 u8
  | Disable_Entry int int
  | Get_Entry int int
  | Ota_Busy bool
  | Ota_Claim string ota_manager_start_result
  | Ota_Complete ota_manager_start_result
  | Publish_Ack int
  | Publish_Entry int u32
  | Request_Publish int

text \<open>The call leads from one state of the node to another.\<close>

fun performs :: "'n executor_ops \<Rightarrow> mqtt_manager_command_session \<Rightarrow> executor_call \<Rightarrow> 'n \<Rightarrow> 'n \<Rightarrow> bool" where
  "performs ops session (Commit_Begin e) n n' \<longleftrightarrow>
     ceo_commit_begin ops session (ceo_ms_to_ticks ops MQTT_COMMAND_COMMIT_WAIT_MS) n = (e, n')"
| "performs ops session Commit_End n n' \<longleftrightarrow> n' = ceo_commit_end ops n"
| "performs ops session (Output_Begin e) n n' \<longleftrightarrow>
     ceo_output_begin ops (ceo_ms_to_ticks ops MQTT_COMMAND_COMMIT_WAIT_MS) n = (e, n')"
| "performs ops session Output_End n n' \<longleftrightarrow> n' = ceo_output_end ops n"
| "performs ops session Enable_Output n n' \<longleftrightarrow> n' = snd (ceo_enable_output ops n)"
| "performs ops session Request_Save n n' \<longleftrightarrow> n' = ceo_request_save ops n"
| "performs ops session (Scheduler_Manual f t) n n' \<longleftrightarrow> (\<exists>r. ceo_scheduler_manual ops f t n = Some (r, n'))"
| "performs ops session (Motor_Manual f t) n n' \<longleftrightarrow> n' = snd (ceo_motor_manual ops f t n)"
| "performs ops session (Clear_Begin e) n n' \<longleftrightarrow> ceo_clear_begin ops n = (e, n')"
| "performs ops session (Clear_Locked f) n n' \<longleftrightarrow> n' = snd (ceo_clear_locked ops f n)"
| "performs ops session Clear_End n n' \<longleftrightarrow> n' = ceo_clear_end ops n"
| "performs ops session (Set_Override b) n n' \<longleftrightarrow> (\<exists>e. ceo_set_override ops b n = Some (e, n'))"
| "performs ops session (Set_Entry f s i d t) n n' \<longleftrightarrow> (\<exists>e. ceo_set_entry ops f s i d t n = Some (e, n'))"
| "performs ops session (Disable_Entry f s) n n' \<longleftrightarrow> (\<exists>e. ceo_disable_entry ops f s n = Some (e, n'))"
| "performs ops session (Get_Entry f s) n n' \<longleftrightarrow> n' = snd (ceo_get_entry ops f s n)"
| "performs ops session (Ota_Busy b) n n' \<longleftrightarrow> ceo_ota_in_progress ops n = (b, n')"
| "performs ops session (Ota_Claim u r) n n' \<longleftrightarrow> ceo_ota_start ops u n = (r, n')"
| "performs ops session (Ota_Complete r) n n' \<longleftrightarrow> (\<exists>r'. ceo_ota_complete ops r n = Some (r', n'))"
| "performs ops session (Publish_Ack f) n n' \<longleftrightarrow> (\<exists>c q a. n' = ceo_publish_manual_ack ops f c q a n)"
| "performs ops session (Publish_Entry f s) n n' \<longleftrightarrow> (\<exists>entry. n' = ceo_publish_schedule_entry ops f s entry n)"
| "performs ops session (Request_Publish f) n n' \<longleftrightarrow> n' = ceo_request_fan ops f True n"

fun executes :: "'n executor_ops \<Rightarrow> mqtt_manager_command_session \<Rightarrow> 'n \<Rightarrow> (executor_call \<times> 'n) list \<Rightarrow> 'n \<Rightarrow> bool" where
  "executes ops session n [] n' \<longleftrightarrow> n' = n"
| "executes ops session n ((c, m) # calls) n' \<longleftrightarrow> m = n \<and> (\<exists>n1. performs ops session c n n1 \<and> executes ops session n1 calls n')"

section \<open>Locks\<close>

text \<open>The session fence, the supervisor's output guard, the tachometer actions' lock, and a claimed update
  that has yet to be completed.\<close>

record executor_locks =
  lk_fence :: bool
  lk_guard :: bool
  lk_tach :: bool
  lk_claim :: "ota_manager_start_result option"

definition no_locks :: executor_locks where
  "no_locks = \<lparr>lk_fence = False, lk_guard = False, lk_tach = False, lk_claim = None\<rparr>"

text \<open>The locks are taken in one order - tachometer, fence, guard - and given back in the reverse one; every
  change of the node is made under the fence, those of the outputs under the guard too, and the clearing
  of an alarm under the tachometer lock; nothing that publishes or prepares an update is called with a lock
  held; and a claim is completed once, with the result it had.\<close>

fun discipline :: "executor_call \<Rightarrow> executor_locks \<Rightarrow> executor_locks option" where
  "discipline (Commit_Begin e) k = (if lk_fence k \<or> lk_guard k then None else Some (k\<lparr>lk_fence := (e = ESP_OK)\<rparr>))"
| "discipline Commit_End k = (if lk_fence k \<and> \<not> lk_guard k then Some (k\<lparr>lk_fence := False\<rparr>) else None)"
| "discipline (Output_Begin e) k = (if lk_fence k \<and> \<not> lk_guard k then Some (k\<lparr>lk_guard := (e = ESP_OK)\<rparr>) else None)"
| "discipline Output_End k = (if lk_guard k then Some (k\<lparr>lk_guard := False\<rparr>) else None)"
| "discipline Enable_Output k = (if lk_fence k \<and> lk_guard k then Some k else None)"
| "discipline Request_Save k = (if lk_fence k \<and> lk_guard k then Some k else None)"
| "discipline (Scheduler_Manual f t) k = (if lk_fence k \<and> lk_guard k then Some k else None)"
| "discipline (Motor_Manual f t) k = (if lk_fence k \<and> lk_guard k then Some k else None)"
| "discipline (Clear_Begin e) k = (if lk_fence k \<or> lk_guard k \<or> lk_tach k then None else Some (k\<lparr>lk_tach := (e = ESP_OK)\<rparr>))"
| "discipline (Clear_Locked f) k = (if lk_fence k \<and> lk_tach k then Some k else None)"
| "discipline Clear_End k = (if lk_tach k \<and> \<not> lk_fence k then Some (k\<lparr>lk_tach := False\<rparr>) else None)"
| "discipline (Set_Override b) k = (if lk_fence k then Some k else None)"
| "discipline (Set_Entry f s i d t) k = (if lk_fence k then Some k else None)"
| "discipline (Disable_Entry f s) k = (if lk_fence k then Some k else None)"
| "discipline (Ota_Claim u r) k = (if lk_fence k \<and> lk_claim k = None then Some (k\<lparr>lk_claim := Some r\<rparr>) else None)"
| "discipline (Ota_Complete r) k = (if k = no_locks\<lparr>lk_claim := Some r\<rparr> then Some no_locks else None)"
| "discipline (Get_Entry f s) k = (if k = no_locks then Some k else None)"
| "discipline (Ota_Busy b) k = (if k = no_locks then Some k else None)"
| "discipline (Publish_Ack f) k = (if k = no_locks then Some k else None)"
| "discipline (Publish_Entry f s) k = (if k = no_locks then Some k else None)"
| "discipline (Request_Publish f) k = (if k = no_locks then Some k else None)"

fun disciplined :: "executor_locks \<Rightarrow> executor_call list \<Rightarrow> bool" where
  "disciplined k [] \<longleftrightarrow> k = no_locks"
| "disciplined k (c # calls) \<longleftrightarrow> (case discipline c k of None \<Rightarrow> False | Some k' \<Rightarrow> disciplined k' calls)"

section \<open>Effects\<close>

fun mutates :: "executor_call \<Rightarrow> bool" where
  "mutates Enable_Output = True"
| "mutates Request_Save = True"
| "mutates (Scheduler_Manual f t) = True"
| "mutates (Motor_Manual f t) = True"
| "mutates (Clear_Locked f) = True"
| "mutates (Set_Override b) = True"
| "mutates (Set_Entry f s i d t) = True"
| "mutates (Disable_Entry f s) = True"
| "mutates (Ota_Claim u r) = True"
| "mutates _ = False"

text \<open>What the command stands for: the fan the topic names, and the values of the payload.\<close>

definition manual_effects :: "bool \<Rightarrow> int \<Rightarrow> u8 \<Rightarrow> executor_call set" where
  "manual_effects schedules f t =
     {if schedules then Scheduler_Manual f t else Motor_Manual f t, Request_Save, Enable_Output}"

definition effects :: "executor_kconfig \<Rightarrow> app_config option \<Rightarrow> command_router_command \<Rightarrow> executor_call set" where
  "effects xk config command =
     (let f = fan_local_index command; slot = sint (schedule_slot command)
      in case cmd_type command of
        COMMAND_ROUTER_COMMAND_MANUAL_ON \<Rightarrow>
          manual_effects (xk_schedule xk) f (case config of None \<Rightarrow> 0 | Some c \<Rightarrow> word_of_int (min_spin_pct c))
      | COMMAND_ROUTER_COMMAND_MANUAL_OFF \<Rightarrow> manual_effects (xk_schedule xk) f 0
      | COMMAND_ROUTER_COMMAND_MANUAL_PERCENTAGE \<Rightarrow>
          (case cmd_value command of Percentage p \<Rightarrow> manual_effects (xk_schedule xk) f p | _ \<Rightarrow> {})
      | COMMAND_ROUTER_COMMAND_TACH_CLEAR \<Rightarrow> {Clear_Locked f}
      | COMMAND_ROUTER_COMMAND_SCHEDULE_OVERRIDE \<Rightarrow> (case cmd_value command of Schedule_Override b \<Rightarrow> {Set_Override b} | _ \<Rightarrow> {})
      | COMMAND_ROUTER_COMMAND_SCHEDULE_SET \<Rightarrow>
          (case cmd_value command of Schedule_Set i d t \<Rightarrow> {Set_Entry f slot i d t} | _ \<Rightarrow> {})
      | COMMAND_ROUTER_COMMAND_SCHEDULE_DISABLE \<Rightarrow> {Disable_Entry f slot}
      | COMMAND_ROUTER_COMMAND_OTA_UPDATE \<Rightarrow> (case cmd_value command of Ota_Update u l \<Rightarrow> range (Ota_Claim u) | _ \<Rightarrow> {})
      | _ \<Rightarrow> {})"

text \<open>An execution that obeys the discipline and does nothing outside \<open>E\<close>.\<close>

definition sound_execution :: "'n executor_ops \<Rightarrow> mqtt_manager_command_session \<Rightarrow> executor_call set \<Rightarrow> 'n \<Rightarrow> (executor_call \<times> 'n) list \<Rightarrow> 'n \<Rightarrow> bool" where
  "sound_execution ops session E n calls n' \<longleftrightarrow> executes ops session n calls n' \<and> disciplined no_locks (map fst calls) \<and>
     (\<forall>c \<in> fst ` set calls. mutates c \<longrightarrow> c \<in> E)"

lemma sound_none: "sound_execution ops session E n [] n"
  by (simp add: sound_execution_def)

section \<open>Every command is sound\<close>

lemma manual_command_sound:
  assumes "manual_command xk ops session f t n = Some n'"
  shows "\<exists>calls. sound_execution ops session (manual_effects (xk_schedule xk) f t) n calls n'"
proof -
  let ?ticks = "ceo_ms_to_ticks ops MQTT_COMMAND_COMMIT_WAIT_MS"
  let ?manual = "if xk_schedule xk then Scheduler_Manual f t else Motor_Manual f t"
  have sound: ?thesis if "executes ops session n calls n'" "disciplined no_locks (map fst calls)"
    "\<forall>c \<in> fst ` set calls. mutates c \<longrightarrow> c \<in> manual_effects (xk_schedule xk) f t" for calls
    using that unfolding sound_execution_def by blast
  obtain e1 n1 where 1: "ceo_commit_begin ops session ?ticks n = (e1, n1)" by (rule prod.exhaust)
  show ?thesis
  proof (cases "e1 = ESP_OK")
    case False
    then show ?thesis using assms 1
      by (intro sound [of "[(Commit_Begin e1, n)]"]) (simp_all add: manual_command_def no_locks_def)
  next
    case fence: True
    obtain e2 n2 where 2: "ceo_output_begin ops ?ticks n1 = (e2, n2)" by (rule prod.exhaust)
    show ?thesis
    proof (cases "e2 = ESP_OK")
      case False
      then show ?thesis using assms 1 2 fence
        by (intro sound [of "[(Commit_Begin e1, n), (Output_Begin e2, n1), (Commit_End, n2)]"])
          (simp_all add: manual_command_def no_locks_def)
    next
      case guard: True
      obtain e3 r n3 where 3: "apply_manual_command xk ops f t n2 = Some ((e3, r), n3)"
        using assms 1 2 fence guard by (auto simp: manual_command_def manual_under_guard_def split: option.splits bind_splits)
      then have p: "performs ops session ?manual n2 n3"
        by (auto simp: apply_manual_command_def split: if_splits prod.splits bind_splits)
      have E: "?manual \<in> manual_effects (xk_schedule xk) f t" "Request_Save \<in> manual_effects (xk_schedule xk) f t"
        "Enable_Output \<in> manual_effects (xk_schedule xk) f t" by (simp_all add: manual_effects_def)
      have d: "discipline ?manual k = (if lk_fence k \<and> lk_guard k then Some k else None)" for k by simp
      show ?thesis
      proof (cases "e3 = ESP_OK \<and> res_accepted r")
        case False
        then show ?thesis using assms 1 2 3 fence guard p d E
          by (intro sound [of "[(Commit_Begin e1, n), (Output_Begin e2, n1), (?manual, n2), (Output_End, n3), (Commit_End, ceo_output_end ops n3)]"])
            (auto simp: manual_command_def manual_under_guard_def no_locks_def simp del: split_paired_All split_paired_Ex)
      next
        case True
        define n4 where "n4 = ceo_request_save ops n3"
        define n5 where "n5 = snd (ceo_enable_output ops n4)"
        define n6 where "n6 = ceo_output_end ops n5"
        define n7 where "n7 = ceo_commit_end ops n6"
        define n8 where "n8 = ceo_publish_manual_ack ops f (res_accepted_command_count r) (res_requested_pct r) (res_applied_pct r) n7"
        have "n' = ceo_request_fan ops f True n8" using assms 1 2 3 fence guard True
          by (simp add: manual_command_def manual_under_guard_def acknowledge_manual_command_def n4_def n5_def n6_def n7_def n8_def)
        then show ?thesis using 1 2 fence guard p d E
          by (intro sound [of "[(Commit_Begin e1, n), (Output_Begin e2, n1), (?manual, n2), (Request_Save, n3), (Enable_Output, n4),
              (Output_End, n5), (Commit_End, n6), (Publish_Ack f, n7), (Request_Publish f, n8)]"])
            (auto simp: no_locks_def n4_def n5_def n6_def n7_def n8_def simp del: split_paired_All split_paired_Ex)
      qed
    qed
  qed
qed

lemma tach_clear_command_sound:
  "\<exists>calls. sound_execution ops session {Clear_Locked f} n calls (tach_clear_command ops session f n)"
proof -
  let ?ticks = "ceo_ms_to_ticks ops MQTT_COMMAND_COMMIT_WAIT_MS" and ?n' = "tach_clear_command ops session f n"
  have sound: ?thesis if "executes ops session n calls ?n'" "disciplined no_locks (map fst calls)"
    "\<forall>c \<in> fst ` set calls. mutates c \<longrightarrow> c \<in> {Clear_Locked f}" for calls
    using that unfolding sound_execution_def by blast
  obtain e1 n1 where 1: "ceo_clear_begin ops n = (e1, n1)" by (rule prod.exhaust)
  show ?thesis
  proof (cases "e1 = ESP_OK")
    case False
    then show ?thesis using 1 by (intro sound [of "[(Clear_Begin e1, n)]"]) (simp_all add: tach_clear_command_def no_locks_def)
  next
    case tach: True
    obtain e2 n2 where 2: "ceo_commit_begin ops session ?ticks n1 = (e2, n2)" by (rule prod.exhaust)
    show ?thesis
    proof (cases "e2 = ESP_OK")
      case False
      then show ?thesis using 1 2 tach
        by (intro sound [of "[(Clear_Begin e1, n), (Commit_Begin e2, n1), (Clear_End, n2)]"])
          (simp_all add: tach_clear_command_def no_locks_def)
    next
      case fence: True
      obtain e3 n3 where 3: "ceo_clear_locked ops f n2 = (e3, n3)" by (rule prod.exhaust)
      let ?calls = "[(Clear_Begin e1, n), (Commit_Begin e2, n1), (Clear_Locked f, n2), (Commit_End, n3), (Clear_End, ceo_commit_end ops n3)]"
      show ?thesis
      proof (cases "e3 = ESP_OK")
        case False
        then show ?thesis using 1 2 3 tach fence
          by (intro sound [of ?calls]) (simp_all add: tach_clear_command_def no_locks_def)
      next
        case True
        then show ?thesis using 1 2 3 tach fence
          by (intro sound [of "?calls @ [(Request_Publish f, ceo_clear_end ops (ceo_commit_end ops n3))]"])
            (simp_all add: tach_clear_command_def no_locks_def)
      qed
    qed
  qed
qed

lemma fenced_command_sound:
  assumes "fenced_command ops session change n = Some n'" and "\<And>m r m'. change m = Some (r, m') \<Longrightarrow> performs ops session c m m'"
    and "\<And>k. discipline c k = (if lk_fence k then Some k else None)"
  shows "\<exists>calls. sound_execution ops session {c} n calls n'"
proof -
  obtain e1 n1 where 1: "ceo_commit_begin ops session (ceo_ms_to_ticks ops MQTT_COMMAND_COMMIT_WAIT_MS) n = (e1, n1)" by (rule prod.exhaust)
  show ?thesis
  proof (cases "e1 = ESP_OK")
    case False
    then show ?thesis using assms(1) 1
      by (intro exI [of _ "[(Commit_Begin e1, n)]"]) (simp add: fenced_command_def sound_execution_def no_locks_def)
  next
    case True
    then obtain r n2 where 2: "change n1 = Some (r, n2)" "n' = ceo_commit_end ops n2"
      using assms(1) 1 by (auto simp: fenced_command_def split: bind_splits)
    then show ?thesis using True 1 assms(2) [OF 2(1)] assms(3)
      by (intro exI [of _ "[(Commit_Begin e1, n), (c, n1), (Commit_End, n2)]"]) (auto simp: sound_execution_def no_locks_def)
  qed
qed

lemma schedule_get_command_sound:
  "\<exists>calls. sound_execution ops session {} n calls (schedule_get_command ops f s n)"
proof -
  obtain e snapshot n1 where 1: "ceo_get_entry ops f (sint s) n = ((e, snapshot), n1)" by (metis prod.collapse)
  let ?get = "(Get_Entry f (sint s), n)"
  show ?thesis
  proof (cases "\<exists>entry. snapshot = Some entry \<and> e = ESP_OK")
    case True
    then obtain entry where "schedule_get_command ops f s n = ceo_publish_schedule_entry ops f s entry n1"
      using 1 by (auto simp: schedule_get_command_def)
    then show ?thesis using 1
      by (intro exI [of _ "[?get, (Publish_Entry f s, n1)]"]) (auto simp: sound_execution_def no_locks_def)
  next
    case False
    then have "schedule_get_command ops f s n = n1" using 1 by (auto simp: schedule_get_command_def split: option.splits)
    then show ?thesis using 1 by (intro exI [of _ "[?get]"]) (auto simp: sound_execution_def no_locks_def)
  qed
qed

lemma ota_command_sound:
  assumes "ota_command ops session u n = Some n'"
  shows "\<exists>calls. sound_execution ops session (range (Ota_Claim u)) n calls n'"
proof -
  obtain e1 n1 where 1: "ceo_commit_begin ops session (ceo_ms_to_ticks ops MQTT_COMMAND_COMMIT_WAIT_MS) n = (e1, n1)" by (rule prod.exhaust)
  show ?thesis
  proof (cases "e1 = ESP_OK")
    case False
    then show ?thesis using assms 1
      by (intro exI [of _ "[(Commit_Begin e1, n)]"]) (simp add: ota_command_def sound_execution_def no_locks_def)
  next
    case True
    obtain r n2 where 2: "ceo_ota_start ops u n1 = (r, n2)" by (rule prod.exhaust)
    then have "\<exists>r'. ceo_ota_complete ops r (ceo_commit_end ops n2) = Some (r', n')"
      using assms 1 True by (auto simp: ota_command_def split: bind_splits)
    then show ?thesis using 1 2 True
      by (intro exI [of _ "[(Commit_Begin e1, n), (Ota_Claim u r, n1), (Commit_End, n2), (Ota_Complete r, ceo_commit_end ops n2)]"])
        (auto simp: sound_execution_def no_locks_def)
  qed
qed

section \<open>A message is sound\<close>

text \<open>An accepted command has the value its type asks for.\<close>

lemma execute_command_sound:
  assumes "execute_command xk ops s session command n = Some n'" and "command_ok cfg command"
  shows "\<exists>calls. sound_execution ops session (effects xk (ce_app_config s) command) n calls n'"
proof (cases "cmd_type command")
  case COMMAND_ROUTER_COMMAND_MANUAL_ON
  then show ?thesis using assms manual_command_sound by (fastforce simp: execute_command_def effects_def manual_target_def Let_def)
next
  case COMMAND_ROUTER_COMMAND_MANUAL_OFF
  then show ?thesis using assms manual_command_sound by (fastforce simp: execute_command_def effects_def manual_target_def Let_def)
next
  case COMMAND_ROUTER_COMMAND_MANUAL_PERCENTAGE
  then show ?thesis using assms manual_command_sound
    by (fastforce simp: execute_command_def effects_def manual_target_def value_percentage_def command_ok_def Let_def)
next
  case COMMAND_ROUTER_COMMAND_TACH_CLEAR
  then show ?thesis using assms tach_clear_command_sound by (fastforce simp: execute_command_def effects_def Let_def)
next
  case COMMAND_ROUTER_COMMAND_SCHEDULE_OVERRIDE
  then obtain b where b: "cmd_value command = Schedule_Override b" using assms(2) by (auto simp: command_ok_def)
  then have "fenced_command ops session (ceo_set_override ops b) n = Some n'"
    using assms(1) COMMAND_ROUTER_COMMAND_SCHEDULE_OVERRIDE by (simp add: execute_command_def Let_def)
  from fenced_command_sound [OF this, of "Set_Override b"] show ?thesis
    using b COMMAND_ROUTER_COMMAND_SCHEDULE_OVERRIDE by (auto simp: effects_def Let_def)
next
  case COMMAND_ROUTER_COMMAND_SCHEDULE_SET
  then obtain i d t where v: "cmd_value command = Schedule_Set i d t" using assms(2) by (auto simp: command_ok_def)
  let ?f = "fan_local_index command" and ?s = "sint (schedule_slot command)"
  have "fenced_command ops session (ceo_set_entry ops ?f ?s i d t) n = Some n'"
    using assms(1) v COMMAND_ROUTER_COMMAND_SCHEDULE_SET by (simp add: execute_command_def Let_def)
  from fenced_command_sound [OF this, of "Set_Entry ?f ?s i d t"] show ?thesis
    using v COMMAND_ROUTER_COMMAND_SCHEDULE_SET by (auto simp: effects_def Let_def)
next
  case COMMAND_ROUTER_COMMAND_SCHEDULE_DISABLE
  let ?f = "fan_local_index command" and ?s = "sint (schedule_slot command)"
  have "fenced_command ops session (ceo_disable_entry ops ?f ?s) n = Some n'"
    using assms(1) COMMAND_ROUTER_COMMAND_SCHEDULE_DISABLE by (simp add: execute_command_def Let_def)
  from fenced_command_sound [OF this, of "Disable_Entry ?f ?s"] show ?thesis
    using COMMAND_ROUTER_COMMAND_SCHEDULE_DISABLE by (auto simp: effects_def Let_def)
next
  case COMMAND_ROUTER_COMMAND_SCHEDULE_GET
  then show ?thesis using assms schedule_get_command_sound by (fastforce simp: execute_command_def effects_def Let_def)
next
  case COMMAND_ROUTER_COMMAND_OTA_UPDATE
  then obtain u l where v: "cmd_value command = Ota_Update u l" using assms(2) by (auto simp: command_ok_def)
  then have "ota_command ops session u n = Some n'"
    using assms(1) COMMAND_ROUTER_COMMAND_OTA_UPDATE by (simp add: execute_command_def Let_def)
  from ota_command_sound [OF this] show ?thesis using v COMMAND_ROUTER_COMMAND_OTA_UPDATE by (simp add: effects_def Let_def)
next
  case COMMAND_ROUTER_COMMAND_NONE
  then show ?thesis using assms(2) by (simp add: command_ok_def)
qed

lemma accepted_command_ok:
  assumes "command_router_parse (Some cfg) (Some topic) topic_len (Some payload) payload_len False = (COMMAND_ROUTER_ACCEPTED, c)"
    and "payload_len \<le> length payload"
  shows "command_ok cfg c"
proof -
  from command_router_parse_cases [OF assms(1)] obtain rel leg where
    "core_config_valid (Some cfg)" "route_relative cfg rel (take payload_len payload) payload_len False leg = (COMMAND_ROUTER_ACCEPTED, c)"
    by auto
  from route_relative_sound [OF this] show ?thesis using assms(2) by simp
qed

text \<open>Nothing happens to a message that is not carried out; at most the module of the updates is asked.\<close>

definition authorised :: "executor_kconfig \<Rightarrow> 'n executor_ops \<Rightarrow> command_executor \<Rightarrow> string option \<Rightarrow> char list option \<Rightarrow> nat \<Rightarrow>
    bool \<Rightarrow> 'n \<Rightarrow> command_router_command \<Rightarrow> bool" where
  "authorised xk ops s topic data len retained n command \<longleftrightarrow> \<not> retained \<and> \<not> (xk_ota xk \<and> fst (ceo_ota_in_progress ops n)) \<and>
     (case (topic, data) of (Some t, Some d) \<Rightarrow>
        command_router_parse (Some (ce_router_config s)) (Some t) (length t) (Some d) len False = (COMMAND_ROUTER_ACCEPTED, command)
      | _ \<Rightarrow> False)"

lemma on_message_sound:
  assumes "command_executor_on_message xk ops s topic data len retained (Some session) n = Some n'"
  shows "\<exists>calls. sound_execution ops session {c. \<exists>command. authorised xk ops s topic data len retained n command \<and>
    c \<in> effects xk (ce_app_config s) command} n calls n'" (is "\<exists>calls. sound_execution _ _ ?E _ _ _")
proof -
  show ?thesis
  proof (cases "\<exists>t d. topic = Some t \<and> data = Some d \<and> len = length (takeWhile (\<lambda>c. c \<noteq> NUL) d) \<and> \<not> retained")
    case False
    then have "n' = n" using assms by (auto simp: command_executor_on_message_def split: option.splits if_splits)
    then show ?thesis using sound_none [of ops session ?E n] by blast
  next
    case True
    then obtain t d where td: "topic = Some t" "data = Some d" "len = length (takeWhile (\<lambda>c. c \<noteq> NUL) d)" "\<not> retained" by blast
    obtain busy n1 where b: "(if xk_ota xk then ceo_ota_in_progress ops n else (False, n)) = (busy, n1)" by (rule prod.exhaust)
    obtain r command where p: "command_router_parse (Some (ce_router_config s)) topic (length t) data len False = (r, command)" by (rule prod.exhaust)
    let ?asked = "if xk_ota xk then [(Ota_Busy busy, n)] else []"
    have asked: "sound_execution ops session E n (?asked @ calls) n'" if "sound_execution ops session E n1 calls n'" for E calls
      using that b by (auto simp: sound_execution_def no_locks_def split: if_splits)
    show ?thesis
    proof (cases "busy \<or> r \<noteq> COMMAND_ROUTER_ACCEPTED")
      case True
      then have "n' = n1" using assms td b p by (auto simp: command_executor_on_message_def split: if_splits)
      then have "sound_execution ops session ?E n1 [] n'" by (simp add: sound_execution_def no_locks_def)
      from asked [OF this] show ?thesis by blast
    next
      case False
      then have x: "execute_command xk ops s session command n1 = Some n'" using assms td b p by (simp add: command_executor_on_message_def)
      have "command_ok (ce_router_config s) command"
        using accepted_command_ok p td False length_takeWhile_le [of "\<lambda>c. c \<noteq> NUL" d] by blast
      from execute_command_sound [OF x this] obtain calls where
        calls: "sound_execution ops session (effects xk (ce_app_config s) command) n1 calls n'" by blast
      have "authorised xk ops s topic data len retained n command"
        using td b p False by (auto simp: authorised_def split: if_splits)
      then have "sound_execution ops session ?E n1 calls n'" using calls unfolding sound_execution_def by blast
      then show ?thesis using asked by blast
    qed
  qed
qed

end
