(* ===== verification/Executor_Fence.thy ===== *)
theory Executor_Fence imports Executor_Discipline Mqtt_Refinement
begin

text \<open>
  The executor's calls in the protocol of the MQTT manager. The fence is the manager's own
  (\<open>Mqtt_Manager\<close>); the other calls are known by what they do to the protocol: those made inside a command
  leave it to the other tasks, those that may publish follow it.
\<close>

fun outward :: "executor_call \<Rightarrow> bool" where
  "outward (Ota_Busy b) = True"
| "outward (Ota_Complete r) = True"
| "outward (Get_Entry f s) = True"
| "outward (Publish_Ack f) = True"
| "outward (Publish_Entry f s) = True"
| "outward (Request_Publish f) = True"
| "outward _ = False"

fun fencing :: "executor_call \<Rightarrow> bool" where
  "fencing (Commit_Begin e) = True"
| "fencing Commit_End = True"
| "fencing _ = False"

definition executor_env :: "mqtt_kconfig \<Rightarrow> 'w mqtt_view \<Rightarrow> 'w mqtt_ops \<Rightarrow> (mqtt_manager \<times> 'w) executor_ops \<Rightarrow> bool" where
  "executor_env k v mops ops \<longleftrightarrow>
     (\<forall>session ticks. ceo_commit_begin ops session ticks = run_state (mqtt_manager_command_commit_begin mops (Some session) ticks)) \<and>
     (\<forall>n. ceo_commit_end ops n = snd (run_state (mqtt_manager_command_commit_end mops) n)) \<and>
     (\<forall>session c n n'. performs ops session c n n' \<longrightarrow> \<not> fencing c \<longrightarrow> \<not> outward c \<longrightarrow> leaves k v Dispatch_Task n n') \<and>
     (\<forall>session c n n' h. performs ops session c n n' \<longrightarrow> outward c \<longrightarrow> mqtt_good k v (point v n h) \<longrightarrow>
        \<not> holds_fence Dispatch_Task (point v n h) \<longrightarrow>
        (\<exists>h'. mqtt_run k (point v n h) (point v n' h') \<and> \<not> holds_fence Dispatch_Task (point v n' h')))"

text \<open>What the executor knows of the protocol at a point of a command.\<close>

definition knows :: "executor_locks \<Rightarrow> mqtt_manager_command_session \<Rightarrow> mqtt_point \<Rightarrow> bool" where
  "knows lk session x \<longleftrightarrow>
     (if lk_fence lk then holds_fence Dispatch_Task x \<and> session_current session (fst x) else \<not> holds_fence Dispatch_Task x)"

lemma stable_knows: "rely_stable k Dispatch_Task (knows lk session)"
proof (cases "lk_fence lk")
  case True
  then have "knows lk session = (\<lambda>x. holds_fence Dispatch_Task x \<and> session_current session (fst x))" by (intro ext) (simp add: knows_def)
  then show ?thesis by (simp only: stable_session)
next
  case False
  then have "knows lk session = (\<lambda>x. \<not> holds_fence Dispatch_Task x)" by (intro ext) (simp add: knows_def)
  then show ?thesis by (simp only: steady_stable [OF steady_fence(2)])
qed

lemma discipline_locks:
  assumes "discipline c lk = Some lk'" and "\<not> fencing c"
  shows "lk_fence lk' = lk_fence lk"
  using assms by (cases c) (auto simp: no_locks_def split: if_splits)

lemma discipline_outward: "discipline c lk = Some lk' \<Longrightarrow> outward c \<Longrightarrow> \<not> lk_fence lk"
  by (cases c) (auto simp: no_locks_def split: if_splits)

lemma discipline_mutates: "discipline c lk = Some lk' \<Longrightarrow> mutates c \<Longrightarrow> lk_fence lk"
  by (cases c) (auto split: if_splits)

text \<open>A call takes the protocol from what the executor knows before it to what it knows after it.\<close>

lemma performs_knows:
  assumes env: "mqtt_env k v Dispatch_Task mops" "executor_env k v mops ops" and p: "performs ops session c n n'"
    and d: "discipline c lk = Some lk'" and good: "mqtt_good k v (point v n h)" and kn: "knows lk session (point v n h)"
  shows "\<exists>h'. mqtt_run k (point v n h) (point v n' h') \<and> knows lk' session (point v n' h')"
proof -
  consider e where "c = Commit_Begin e" | "c = Commit_End" | "outward c" | "\<not> fencing c" "\<not> outward c" by (cases c) auto
  then show ?thesis
  proof cases
    case (1 e)
    let ?t = "ceo_ms_to_ticks ops MQTT_COMMAND_COMMIT_WAIT_MS"
    have r: "run_state (mqtt_manager_command_commit_begin mops (Some session) ?t) n = (e, n')"
      using p env(2) 1 unfolding executor_env_def by simp
    have lk: "\<not> lk_fence lk" "lk' = lk\<lparr>lk_fence := (e = ESP_OK)\<rparr>" using d 1 by (auto split: if_splits)
    have f: "\<not> holds_fence Dispatch_Task (point v n h)" using kn lk(1) by (simp add: knows_def)
    have t: "Dispatch_Task \<noteq> Event_Task" by simp
    from followsE [OF follows_commit_begin [OF env(1) t] good f] obtain h' where
      h': "mqtt_run k (point v n h) (point v n' h')" "if e = ESP_OK then holds_fence Dispatch_Task (point v n' h') \<and>
         session_current session (fst (point v n' h')) else \<not> holds_fence Dispatch_Task (point v n' h')"
      using r by (metis fst_conv snd_conv)
    from h'(2) have "knows lk' session (point v n' h')" unfolding knows_def lk(2) by simp
    then show ?thesis using h'(1) by blast
  next
    case 2
    have n': "n' = snd (run_state (mqtt_manager_command_commit_end mops) n)" using p env(2) 2 unfolding executor_env_def by simp
    have lk: "lk_fence lk" "lk' = lk\<lparr>lk_fence := False\<rparr>" using d 2 by (auto split: if_splits)
    have f: "holds_fence Dispatch_Task (point v n h)" using kn lk(1) by (simp add: knows_def)
    have t: "Dispatch_Task \<noteq> Event_Task" by simp
    from followsE [OF follows_commit_end [OF env(1) t] good f] obtain h' where
      h': "mqtt_run k (point v n h) (point v n' h')" "\<not> holds_fence Dispatch_Task (point v n' h')" unfolding n' by blast
    from h'(2) have "knows lk' session (point v n' h')" unfolding knows_def lk(2) by simp
    then show ?thesis using h'(1) by blast
  next
    case 3
    then have "\<not> fencing c" by (cases c) auto
    note lk = discipline_locks [OF d this] discipline_outward [OF d 3]
    then have "\<not> holds_fence Dispatch_Task (point v n h)" using kn by (simp add: knows_def)
    then obtain h' where "mqtt_run k (point v n h) (point v n' h')" "\<not> holds_fence Dispatch_Task (point v n' h')"
      using env(2) p 3 good unfolding executor_env_def by blast
    moreover from this(2) have "knows lk' session (point v n' h')" using lk by (simp add: knows_def)
    ultimately show ?thesis by blast
  next
    case 4
    then have "leaves k v Dispatch_Task n n'" using env(2) p unfolding executor_env_def by blast
    from leavesE [OF this good stable_knows kn] obtain h' where
      h': "mqtt_run k (point v n h) (point v n' h')" "knows lk session (point v n' h')" by blast
    from h'(2) have "knows lk' session (point v n' h')" using discipline_locks [OF d 4(1)] by (simp add: knows_def)
    then show ?thesis using h'(1) by blast
  qed
qed

lemma executes_knows:
  assumes env: "mqtt_env k v Dispatch_Task mops" "executor_env k v mops ops"
    and "executes ops session n calls n'" and "disciplined lk (map fst calls)"
    and "mqtt_good k v (point v n h)" and "knows lk session (point v n h)"
  shows "(\<exists>h'. mqtt_run k (point v n h) (point v n' h') \<and> \<not> holds_fence Dispatch_Task (point v n' h')) \<and>
    (\<forall>(c, m) \<in> set calls. mutates c \<longrightarrow> session_current session (fst m))"
  using assms(3-6)
proof (induction calls arbitrary: n lk h)
  case Nil
  then have "n' = n" "\<not> lk_fence lk" by (simp_all add: no_locks_def)
  moreover from this have "\<not> holds_fence Dispatch_Task (point v n h)" using Nil.prems(4) by (simp add: knows_def)
  ultimately show ?case using mqtt_run_refl [of k "point v n h"] by (simp only: list.set empty_iff simp_thms ball_empty) blast
next
  case (Cons call calls)
  obtain c m where call: "call = (c, m)" by (rule prod.exhaust)
  obtain n1 where n1: "m = n" "performs ops session c n n1" "executes ops session n1 calls n'" using Cons.prems(1) call by auto
  obtain lk' where lk': "discipline c lk = Some lk'" "disciplined lk' (map fst calls)"
    using Cons.prems(2) call by (auto split: option.splits)
  from performs_knows [OF env n1(2) lk'(1) Cons.prems(3,4)] obtain h1 where
    h1: "mqtt_run k (point v n h) (point v n1 h1)" "knows lk' session (point v n1 h1)" by blast
  have "mutates c \<Longrightarrow> session_current session (fst m)"
    using discipline_mutates [OF lk'(1)] Cons.prems(4) n1(1) by (simp add: knows_def point_def)
  then have "\<forall>(c, m) \<in> set (call # calls). mutates c \<longrightarrow> session_current session (fst m)"
    using Cons.IH [OF n1(3) lk'(2) mqtt_run_inv [OF h1(1) Cons.prems(3)] h1(2)] call by simp
  moreover have "\<exists>h'. mqtt_run k (point v n h) (point v n' h') \<and> \<not> holds_fence Dispatch_Task (point v n' h')"
    using Cons.IH [OF n1(3) lk'(2) mqtt_run_inv [OF h1(1) Cons.prems(3)] h1(2)] mqtt_run_trans [OF h1(1)] by blast
  ultimately show ?case by blast
qed

end
