(* ===== verification/Executor_Node.thy ===== *)
theory Executor_Node imports Executor_Fence Node
begin

text \<open>
  The executor on the node: its calls are those of the models of the other modules. The world of the MQTT
  manager is the rest of the controller beside its own mutexes and queue (\<open>'b\<close>); the state of the updates
  stands beside that of the tachometer actions and the firmware. While one of these modules works, the other
  tasks of that module run where its operations say so, and the tasks of the MQTT manager after it.
\<close>

type_synonym 'p controller = "tach_actions \<times> 'p firmware_node"
type_synonym 'p updating_controller = "'p controller ota_manager \<times> 'p controller"
type_synonym ('p, 'b) mqtt_node = "mqtt_manager \<times> ('p updating_controller \<times> 'b)"

definition on_controller :: "('p updating_controller \<times> 'b) mqtt_ops \<Rightarrow> ('p updating_controller \<Rightarrow> 'r \<times> 'p updating_controller) \<Rightarrow>
    ('p, 'b) mqtt_node \<Rightarrow> 'r \<times> ('p, 'b) mqtt_node" where
  "on_controller mops f n = (case n of (m, (x, b)) \<Rightarrow> case f x of (r, x') \<Rightarrow> (r, mqo_others mops (m, (x', b))))"

definition on_controller_opt :: "('p updating_controller \<times> 'b) mqtt_ops \<Rightarrow> ('p updating_controller \<Rightarrow> ('r \<times> 'p updating_controller) option) \<Rightarrow>
    ('p, 'b) mqtt_node \<Rightarrow> ('r \<times> ('p, 'b) mqtt_node) option" where
  "on_controller_opt mops f n =
     (case n of (m, (x, b)) \<Rightarrow> case f x of None \<Rightarrow> None | Some (r, x') \<Rightarrow> Some (r, mqo_others mops (m, (x', b))))"

definition on_tach :: "('p controller \<Rightarrow> 'r \<times> 'p controller) \<Rightarrow> 'p updating_controller \<Rightarrow> 'r \<times> 'p updating_controller" where
  "on_tach f x = (case x of (u, c) \<Rightarrow> case f c of (r, c') \<Rightarrow> (r, (u, c')))"

definition on_node :: "('p firmware_node \<Rightarrow> 'r \<times> 'p firmware_node) \<Rightarrow> 'p updating_controller \<Rightarrow> 'r \<times> 'p updating_controller" where
  "on_node f x = (case x of (u, (ta, n)) \<Rightarrow> case f n of (r, n') \<Rightarrow> (r, (u, (ta, n'))))"

definition on_node_opt :: "('p firmware_node \<Rightarrow> ('r \<times> 'p firmware_node) option) \<Rightarrow> 'p updating_controller \<Rightarrow> ('r \<times> 'p updating_controller) option" where
  "on_node_opt f x = (case x of (u, (ta, n)) \<Rightarrow> case f n of None \<Rightarrow> None | Some (r, n') \<Rightarrow> Some (r, (u, (ta, n'))))"

text \<open>The calls of the modules that keep no state of their own in the firmware record.\<close>

definition node_scheduler_manual :: "'p node_platform \<Rightarrow> int \<Rightarrow> u8 \<Rightarrow> 'p firmware_node \<Rightarrow>
    ((esp_err \<times> scheduler_target_result option) \<times> 'p firmware_node) option" where
  "node_scheduler_manual nd local_fan target n =
     (case n of (s, m, w) \<Rightarrow>
        case scheduler_apply_manual_target (nd_scheduler nd) local_fan target (fw_scheduler w) (m, fw_platform w) of None \<Rightarrow> None
        | Some (e, r, sch, m', p) \<Rightarrow> Some ((e, r), (s, m', w\<lparr>fw_scheduler := sch, fw_platform := p\<rparr>)))"

definition node_motor_manual :: "int \<Rightarrow> u8 \<Rightarrow> 'p firmware_node \<Rightarrow> (esp_err \<times> motor_control_ack) \<times> 'p firmware_node" where
  "node_motor_manual local_fan target n =
     (case n of (s, m, w) \<Rightarrow> case motor_control_request_manual local_fan target m of (e, ack, m') \<Rightarrow> ((e, ack), (s, m', w)))"

definition node_request_save :: "'p node_platform \<Rightarrow> 'p firmware_node \<Rightarrow> unit \<times> 'p firmware_node" where
  "node_request_save nd n =
     (case n of (s, m, w) \<Rightarrow> case fan_state_store_request_save (nd_store nd) (fw_store w) (m, fw_platform w) of (m', p) \<Rightarrow>
        ((), (s, m', w\<lparr>fw_platform := p\<rparr>)))"

definition node_get_entry :: "'p node_platform \<Rightarrow> int \<Rightarrow> int \<Rightarrow> 'p firmware_node \<Rightarrow>
    (esp_err \<times> scheduler_entry_snapshot option) \<times> 'p firmware_node" where
  "node_get_entry nd local_fan slot n =
     (case n of (s, m, w) \<Rightarrow>
        case scheduler_get_entry (nd_scheduler nd) local_fan slot (fw_scheduler w) (m, fw_platform w) of (e, entry, sch, m', p) \<Rightarrow>
          ((e, entry), (s, m', w\<lparr>fw_scheduler := sch, fw_platform := p\<rparr>)))"

text \<open>The publisher's three calls are its own: they act on the whole node.\<close>

record ('p, 'b) executor_platform =
  xp_node :: "'p node_platform"
  xp_updates :: "'p controller ota_ops"
  xp_ota_prefix :: string
  xp_ms_to_ticks :: "u32 \<Rightarrow> u32"
  xp_publish_manual_ack :: "int \<Rightarrow> u32 \<Rightarrow> u8 \<Rightarrow> u8 \<Rightarrow> ('p, 'b) mqtt_node \<Rightarrow> ('p, 'b) mqtt_node"
  xp_publish_schedule_entry :: "int \<Rightarrow> u32 \<Rightarrow> scheduler_entry_snapshot \<Rightarrow> ('p, 'b) mqtt_node \<Rightarrow> ('p, 'b) mqtt_node"
  xp_request_fan :: "int \<Rightarrow> bool \<Rightarrow> ('p, 'b) mqtt_node \<Rightarrow> ('p, 'b) mqtt_node"

definition executor_node_ops :: "('p, 'b) executor_platform \<Rightarrow> ('p updating_controller \<times> 'b) mqtt_ops \<Rightarrow> ('p, 'b) mqtt_node executor_ops" where
  "executor_node_ops xp mops = (let nd = xp_node xp; tao = node_tach_ops nd; on = on_controller mops; on_opt = on_controller_opt mops in
     \<lparr>ceo_ms_to_ticks = xp_ms_to_ticks xp,
      ceo_commit_begin = \<lambda>session ticks. run_state (mqtt_manager_command_commit_begin mops (Some session) ticks),
      ceo_commit_end = \<lambda>n. snd (run_state (mqtt_manager_command_commit_end mops) n),
      ceo_output_begin = \<lambda>ticks. on (on_node (safety_supervisor_output_command_begin (nd_safety nd) ticks)),
      ceo_output_end = \<lambda>n. snd (on_controller mops (on_node (\<lambda>x. ((), safety_supervisor_output_command_end (nd_safety nd) x))) n),
      ceo_enable_output = on_controller mops (on_node (safety_supervisor_enable_output_if_safe (nd_kconfig nd) (nd_safety nd))),
      ceo_request_save = \<lambda>n. snd (on_controller mops (on_node (node_request_save nd)) n),
      ceo_scheduler_manual = \<lambda>f t. on_controller_opt mops (on_node_opt (node_scheduler_manual nd f t)),
      ceo_motor_manual = \<lambda>f t. on_controller mops (on_node (node_motor_manual f t)),
      ceo_clear_begin = on (on_tach (tach_actions_clear_begin tao)),
      ceo_clear_locked = \<lambda>f. on (on_tach (tach_actions_clear_locked tao f)),
      ceo_clear_end = \<lambda>n. snd (on_controller mops (on_tach (\<lambda>c. ((), tach_actions_clear_end tao c))) n),
      ceo_set_override = \<lambda>b. on_opt (on_node_opt (on_scheduler (scheduler_set_override (nd_scheduler nd) b))),
      ceo_set_entry = \<lambda>f s i d t. on_opt (on_node_opt (on_scheduler (scheduler_set_entry (nd_scheduler nd) f s i d t))),
      ceo_disable_entry = \<lambda>f s. on_opt (on_node_opt (on_scheduler (scheduler_disable_entry (nd_scheduler nd) f s))),
      ceo_get_entry = \<lambda>f s. on_controller mops (on_node (node_get_entry nd f s)),
      ceo_ota_in_progress = on_controller mops (ota_manager_is_in_progress (xp_updates xp)),
      ceo_ota_start = \<lambda>url. on_controller mops (ota_manager_start (xp_updates xp) (xp_ota_prefix xp) (Some url)),
      ceo_ota_complete = \<lambda>r. on_controller_opt mops (ota_manager_complete_start (xp_updates xp) r),
      ceo_publish_manual_ack = xp_publish_manual_ack xp,
      ceo_publish_schedule_entry = xp_publish_schedule_entry xp,
      ceo_request_fan = xp_request_fan xp\<rparr>)"

lemma executor_node_select:
  "ceo_commit_begin (executor_node_ops xp mops) = (\<lambda>session ticks. run_state (mqtt_manager_command_commit_begin mops (Some session) ticks))"
  "ceo_commit_end (executor_node_ops xp mops) = (\<lambda>n. snd (run_state (mqtt_manager_command_commit_end mops) n))"
  "ceo_output_begin (executor_node_ops xp mops) = (\<lambda>ticks. on_controller mops (on_node (safety_supervisor_output_command_begin (nd_safety (xp_node xp)) ticks)))"
  "ceo_output_end (executor_node_ops xp mops) =
     (\<lambda>n. snd (on_controller mops (on_node (\<lambda>x. ((), safety_supervisor_output_command_end (nd_safety (xp_node xp)) x))) n))"
  "ceo_enable_output (executor_node_ops xp mops) =
     on_controller mops (on_node (safety_supervisor_enable_output_if_safe (nd_kconfig (xp_node xp)) (nd_safety (xp_node xp))))"
  "ceo_request_save (executor_node_ops xp mops) = (\<lambda>n. snd (on_controller mops (on_node (node_request_save (xp_node xp))) n))"
  "ceo_scheduler_manual (executor_node_ops xp mops) = (\<lambda>f t. on_controller_opt mops (on_node_opt (node_scheduler_manual (xp_node xp) f t)))"
  "ceo_motor_manual (executor_node_ops xp mops) = (\<lambda>f t. on_controller mops (on_node (node_motor_manual f t)))"
  "ceo_clear_begin (executor_node_ops xp mops) = on_controller mops (on_tach (tach_actions_clear_begin (node_tach_ops (xp_node xp))))"
  "ceo_clear_locked (executor_node_ops xp mops) = (\<lambda>f. on_controller mops (on_tach (tach_actions_clear_locked (node_tach_ops (xp_node xp)) f)))"
  "ceo_clear_end (executor_node_ops xp mops) =
     (\<lambda>n. snd (on_controller mops (on_tach (\<lambda>c. ((), tach_actions_clear_end (node_tach_ops (xp_node xp)) c))) n))"
  "ceo_set_override (executor_node_ops xp mops) =
     (\<lambda>b. on_controller_opt mops (on_node_opt (on_scheduler (scheduler_set_override (nd_scheduler (xp_node xp)) b))))"
  "ceo_set_entry (executor_node_ops xp mops) =
     (\<lambda>f s i d t. on_controller_opt mops (on_node_opt (on_scheduler (scheduler_set_entry (nd_scheduler (xp_node xp)) f s i d t))))"
  "ceo_disable_entry (executor_node_ops xp mops) =
     (\<lambda>f s. on_controller_opt mops (on_node_opt (on_scheduler (scheduler_disable_entry (nd_scheduler (xp_node xp)) f s))))"
  "ceo_get_entry (executor_node_ops xp mops) = (\<lambda>f s. on_controller mops (on_node (node_get_entry (xp_node xp) f s)))"
  "ceo_ota_in_progress (executor_node_ops xp mops) = on_controller mops (ota_manager_is_in_progress (xp_updates xp))"
  "ceo_ota_start (executor_node_ops xp mops) = (\<lambda>url. on_controller mops (ota_manager_start (xp_updates xp) (xp_ota_prefix xp) (Some url)))"
  "ceo_ota_complete (executor_node_ops xp mops) = (\<lambda>r. on_controller_opt mops (ota_manager_complete_start (xp_updates xp) r))"
  "ceo_publish_manual_ack (executor_node_ops xp mops) = xp_publish_manual_ack xp"
  "ceo_publish_schedule_entry (executor_node_ops xp mops) = xp_publish_schedule_entry xp"
  "ceo_request_fan (executor_node_ops xp mops) = xp_request_fan xp"
  by (simp_all add: executor_node_ops_def Let_def)

text \<open>The manager's mutexes and queue are its own, and publishing leaves the protocol to the other tasks.\<close>

definition own_bus :: "('x \<times> 'b) mqtt_view \<Rightarrow> bool" where
  "own_bus v \<longleftrightarrow> (\<forall>x x' b. mv_bus v (x, b) = mv_bus v (x', b))"

definition publishing_env :: "mqtt_kconfig \<Rightarrow> ('p updating_controller \<times> 'b) mqtt_view \<Rightarrow> ('p, 'b) executor_platform \<Rightarrow> bool" where
  "publishing_env k v xp \<longleftrightarrow> own_bus v \<and>
     (\<forall>f c q a n. leaves k v Dispatch_Task n (xp_publish_manual_ack xp f c q a n)) \<and>
     (\<forall>f s entry n. leaves k v Dispatch_Task n (xp_publish_schedule_entry xp f s entry n)) \<and>
     (\<forall>f full n. leaves k v Dispatch_Task n (xp_request_fan xp f full n))"

lemma leaves_world:
  assumes "own_bus v" and "mqtt_env k v t mops"
  shows "leaves k v t (m, (x, b)) (mqo_others mops (m, (x', b)))"
proof -
  have "point v (m, (x, b)) h = point v (m, (x', b)) h" for h using assms(1) by (simp add: point_def own_bus_def)
  moreover have "leaves k v t (m, (x', b)) (mqo_others mops (m, (x', b)))" by (rule env_simps(1) [OF assms(2)])
  ultimately show ?thesis unfolding leaves_def by metis
qed

lemma on_controller_leaves:
  assumes "own_bus v" and "mqtt_env k v t mops"
  shows "leaves k v t n (snd (on_controller mops f n))" and "on_controller_opt mops g n = Some (r, n') \<Longrightarrow> leaves k v t n n'"
proof -
  obtain m x b where n: "n = (m, (x, b))" by (metis prod.collapse)
  show "leaves k v t n (snd (on_controller mops f n))"
    using leaves_world [OF assms] by (simp add: n on_controller_def split: prod.split)
  show "leaves k v t n n'" if g: "on_controller_opt mops g n = Some (r, n')"
  proof (cases "g x")
    case None
    then show ?thesis using g by (simp add: n on_controller_opt_def)
  next
    case (Some y)
    then have "n' = mqo_others mops (m, (snd y, b))" using g by (cases y) (simp add: n on_controller_opt_def)
    then show ?thesis using leaves_world [OF assms] n by simp
  qed
qed

lemma executor_node_env:
  fixes xp :: "('p, 'b) executor_platform"
  assumes env: "mqtt_env k v Dispatch_Task mops" and pub: "publishing_env k v xp"
  shows "executor_env k v mops (executor_node_ops xp mops)"
proof -
  have own: "own_bus v" using pub by (simp add: publishing_env_def)
  note world = on_controller_leaves [OF own env]
  have on: "on_controller mops f n = (r, n') \<Longrightarrow> leaves k v Dispatch_Task n n'" for f n r n'
    using world(1) [of n f] by simp
  have leaves: "leaves k v Dispatch_Task n n'" if "performs (executor_node_ops xp mops) session c n n'" "\<not> fencing c" for session c n n'
  proof -
    have total: "n' = snd (on_controller mops f n) \<Longrightarrow> ?thesis" for f :: "'p updating_controller \<Rightarrow> 'c \<times> 'p updating_controller"
      by (simp only: world(1))
    have partial: "\<exists>r. on_controller_opt mops g n = Some (r, n') \<Longrightarrow> ?thesis"
      for g :: "'p updating_controller \<Rightarrow> ('c \<times> 'p updating_controller) option"
      by (elim exE) (rule world(2))
    have published: "\<exists>c q a. n' = xp_publish_manual_ack xp f c q a n \<Longrightarrow> ?thesis" "\<exists>entry. n' = xp_publish_schedule_entry xp f s entry n \<Longrightarrow> ?thesis"
      "n' = xp_request_fan xp f full n \<Longrightarrow> ?thesis" for f s full using pub unfolding publishing_env_def by blast+
    have p: "performs (executor_node_ops xp mops) session c n n' \<longrightarrow> \<not> fencing c \<longrightarrow> ?thesis"
      apply (cases c)
      apply (simp_all (no_asm_simp) only: performs.simps executor_node_select fencing.simps simp_thms)
      apply (intro impI; (erule total | erule partial | erule on | erule published))+
      done
    show ?thesis using that p by blast
  qed
  have "\<exists>h'. mqtt_run k (point v n h) (point v n' h') \<and> \<not> holds_fence Dispatch_Task (point v n' h')"
    if "performs (executor_node_ops xp mops) session c n n'" "outward c" "mqtt_good k v (point v n h)" "\<not> holds_fence Dispatch_Task (point v n h)"
    for session c n n' h
  proof -
    have "\<not> fencing c" using that(2) by (cases c) auto
    from leavesE [OF leaves [OF that(1) this] that(3) steady_stable [OF steady_fence(2)] that(4)] show ?thesis by blast
  qed
  then show ?thesis using leaves unfolding executor_env_def executor_node_select by blast
qed

end
