(* ===== verification/Executor_Properties.thy ===== *)
theory Executor_Properties imports Executor_Node Node_Simulation Mqtt_Simulation
begin

text \<open>The properties of the command executor, and the node of their witnesses.\<close>

section \<open>A node with a fan that runs\<close>

definition still_ota_ops :: "'n ota_ops" where
  "still_ota_ops = \<lparr>oto_others = (\<lambda>x. x), oto_malloc = (\<lambda>_ n. (Some 6, n)), oto_free = (\<lambda>_ n. n), oto_task_create = (\<lambda>_ n. (Some 7, n)),
     oto_notify_give = (\<lambda>_ n. n), oto_notify_take = (\<lambda>x. x), oto_download_verified = (\<lambda>_ x. (ESP_FAIL, x)), oto_delay = (\<lambda>_ x. x),
     oto_ms_to_ticks = (\<lambda>ms. ms div 10), oto_restart = (\<lambda>n. n)\<rparr>"

definition sim_executor_platform :: "(unit, bool \<times> mqtt_dispatch_message list) executor_platform" where
  "sim_executor_platform = \<lparr>xp_node = sim_platform, xp_updates = still_ota_ops, xp_ota_prefix = [], xp_ms_to_ticks = (\<lambda>ms. ms div 10),
     xp_publish_manual_ack = (\<lambda>_ _ _ _ n. n), xp_publish_schedule_entry = (\<lambda>_ _ _ n. n), xp_request_fan = (\<lambda>_ _ n. n)\<rparr>"

definition sim_executor_kconfig :: executor_kconfig where
  "sim_executor_kconfig = \<lparr>xk_schedule = False, xk_schedule_slots = 0, xk_tach = False, xk_ota = False, xk_ota_prefix = [], xk_legacy = False\<rparr>"

definition sim_executor :: command_executor where
  "sim_executor = snd (command_executor_init sim_executor_kconfig (Some sim_app_config) command_executor_boot)"

definition sim_executor_node :: "(unit, bool \<times> mqtt_dispatch_message list) mqtt_node" where
  "sim_executor_node = (sim_mqtt_ready, ((ota_manager_boot, (sim_tach_actions, sim_firmware_node)), (False, [])))"

abbreviation sim_executor_ops :: "(unit, bool \<times> mqtt_dispatch_message list) mqtt_node executor_ops" where
  "sim_executor_ops \<equiv> executor_node_ops sim_executor_platform sim_mqtt_ops"

definition sim_session :: mqtt_manager_command_session where
  "sim_session = \<lparr>ses_connection_generation = 1\<rparr>"

lemma sim_off: "case command_executor_on_message sim_executor_kconfig sim_executor_ops sim_executor (Some ''farm/n1/fan1/set'') (Some ''OFF'') 3 False
    (Some sim_session) sim_executor_node of None \<Rightarrow> False
  | Some (m, ((u, (ta, (s, ms, w))), (held, q))) \<Rightarrow> mc_target_pct (motor sim_running 0) = 50 \<and> mc_target_pct (motor ms 0) = 0 \<and> \<not> held"
  by code_simp

lemma sim_off_ends: "\<exists>n'. command_executor_on_message sim_executor_kconfig sim_executor_ops sim_executor (Some ''farm/n1/fan1/set'') (Some ''OFF'') 3 False
    (Some sim_session) sim_executor_node = Some n' \<and> mc_target_pct (motor (fst (snd (snd (snd (fst (snd n')))))) 0) = 0"
  using sim_off by (auto split: option.splits)

section \<open>Discipline\<close>

text \<open>C1. A command does what it says, under its locks. Whatever the modules it calls answer, the executor's
  calls on a message obey the discipline: the locks are taken in one order and given back on every path,
  every change is made under the session fence, those of the outputs under the supervisor's guard too, an
  alarm is cleared under the tachometer lock, a claimed update is completed once and outside the fence, and
  nothing is published with a lock held. A change is made only for a message that is not retained, that
  arrived while no update was running, and that the router accepted, and it is one that this command stands
  for: the fan the topic names with the value the payload has.\<close>

theorem command_obeys_discipline:
  assumes "command_executor_on_message xk ops s topic data len retained (Some session) n = Some n'"
  shows "\<exists>calls. executes ops session n calls n' \<and> disciplined no_locks (map fst calls) \<and>
    (\<forall>(c, m) \<in> set calls. mutates c \<longrightarrow>
      (\<exists>command. authorised xk ops s topic data len retained n command \<and> c \<in> effects xk (ce_app_config s) command))"
proof -
  from on_message_sound [OF assms] obtain calls where calls: "executes ops session n calls n'" "disciplined no_locks (map fst calls)"
    "\<forall>c \<in> fst ` set calls. mutates c \<longrightarrow>
      (\<exists>command. authorised xk ops s topic data len retained n command \<and> c \<in> effects xk (ce_app_config s) command)"
    unfolding sound_execution_def by blast
  from calls(3) have "\<forall>(c, m) \<in> set calls. mutates c \<longrightarrow>
      (\<exists>command. authorised xk ops s topic data len retained n command \<and> c \<in> effects xk (ce_app_config s) command)"
    by (metis (mono_tags, lifting) case_prodI2 fst_conv image_eqI)
  with calls(1,2) show ?thesis by blast
qed

theorem command_obeys_discipline_witness:
  "\<exists>calls n'. executes sim_executor_ops sim_session sim_executor_node calls n' \<and> disciplined no_locks (map fst calls) \<and>
    mc_target_pct (motor (fst (snd (snd (snd (fst (snd n')))))) 0) = 0"
proof -
  from sim_off_ends obtain n' where n': "command_executor_on_message sim_executor_kconfig sim_executor_ops sim_executor
      (Some ''farm/n1/fan1/set'') (Some ''OFF'') 3 False (Some sim_session) sim_executor_node = Some n'"
    "mc_target_pct (motor (fst (snd (snd (snd (fst (snd n')))))) 0) = 0" by blast
  from command_obeys_discipline [OF n'(1)] n'(2) show ?thesis by blast
qed

section \<open>The session\<close>

text \<open>C2. Every change a command makes is made in its session. On the node - the executor over the MQTT
  manager, the scheduler, the motor controller, the supervisor, the tachometer actions and the updates -
  whatever the other tasks do meanwhile, at each call that changes something the connection is up, ready, and
  the one the command came over; the executor's steps and those of the others are a run of the manager's
  protocol, and at the end the fence is free of the dispatch task.\<close>

theorem command_commits_in_current_session:
  assumes "mqtt_env k v Dispatch_Task mops" and "publishing_env k v xp" and "mqtt_good k v (point v n h)"
    and "b_fence (mv_bus v (snd n)) \<noteq> Some Dispatch_Task"
    and "command_executor_on_message xk (executor_node_ops xp mops) s topic data len retained (Some session) n = Some n'"
  shows "\<exists>calls h'. executes (executor_node_ops xp mops) session n calls n' \<and>
    (\<forall>(c, m) \<in> set calls. mutates c \<longrightarrow> session_current session (fst m)) \<and>
    mqtt_run k (point v n h) (point v n' h') \<and> b_fence (mv_bus v (snd n')) \<noteq> Some Dispatch_Task"
proof -
  from on_message_sound [OF assms(5)] obtain calls where
    calls: "executes (executor_node_ops xp mops) session n calls n'" "disciplined no_locks (map fst calls)"
    unfolding sound_execution_def by blast
  have "knows no_locks session (point v n h)" using assms(4) by (simp add: knows_def no_locks_def holds_fence_def point_def)
  note e = executes_knows [OF assms(1) executor_node_env [OF assms(1,2)] calls assms(3) this]
  then obtain h' where h': "mqtt_run k (point v n h) (point v n' h')" "\<not> holds_fence Dispatch_Task (point v n' h')" by blast
  have "b_fence (mv_bus v (snd n')) \<noteq> Some Dispatch_Task" using h'(2) by (simp add: holds_fence_def point_def)
  then show ?thesis using calls(1) h'(1) e by blast
qed

theorem command_commits_in_current_session_witness:
  "\<exists>calls n'. executes sim_executor_ops sim_session sim_executor_node calls n' \<and>
    (\<forall>(c, m) \<in> set calls. mutates c \<longrightarrow> session_current sim_session (fst m)) \<and>
    mc_target_pct (motor (fst (snd (snd (snd (fst (snd n')))))) 0) = 0"
proof -
  let ?v = "sim_mqtt_view Dispatch_Task :: unit updating_controller mqtt_world mqtt_view"
  from sim_off_ends obtain n' where n': "command_executor_on_message sim_executor_kconfig sim_executor_ops sim_executor
      (Some ''farm/n1/fan1/set'') (Some ''OFF'') 3 False (Some sim_session) sim_executor_node = Some n'"
    "mc_target_pct (motor (fst (snd (snd (snd (fst (snd n')))))) 0) = 0" by blast
  have p: "point ?v sim_executor_node sim_history = (sim_mqtt_ready, bus_zero, sim_history)"
    by (simp add: point_def sim_executor_node_def sim_mqtt_view_def bus_zero_def)
  have pub: "publishing_env sim_mqtt_kconfig ?v sim_executor_platform"
    by (simp add: publishing_env_def own_bus_def sim_executor_platform_def sim_mqtt_view_def)
  have good: "mqtt_good sim_mqtt_kconfig ?v (point ?v sim_executor_node sim_history)"
    unfolding p using mqtt_reachable_inv [OF sim_mqtt_ready_reachable] by (simp add: sim_mqtt_view_def)
  have idle: "b_fence (mv_bus ?v (snd sim_executor_node)) \<noteq> Some Dispatch_Task" by (simp add: sim_mqtt_view_def sim_executor_node_def)
  from command_commits_in_current_session [OF sim_mqtt_env pub good idle n'(1)] n'(2) show ?thesis by blast
qed

end
