(* ===== verification/Ota_Properties.thy ===== *)
theory Ota_Properties imports Ota_Manager
begin

text \<open>
  The properties of the update manager. What it does to the rest of the node is observed as a list of
  events (\<open>log\<close>), which each of its calls extends and no other task does.
\<close>

section \<open>Observations\<close>

datatype ota_event =
    Prepared bool
  | Task_Created
  | Task_Refused
  | Task_Released
  | Downloaded esp_err
  | Aborted
  | Freed nat
  | Published string bool
  | Restarted

text \<open>Only the dispatch task starts updates, and the update's task waits until it is released, so until
  then no other task writes the module's variables.\<close>

definition ota_env :: "('n \<Rightarrow> ota_event list) \<Rightarrow> 'n ota_manager_config \<Rightarrow> 'n ota_ops \<Rightarrow> bool" where
  "ota_env log config ops \<longleftrightarrow>
     (\<forall>s n s' n'. oto_others ops (s, n) = (s', n') \<longrightarrow> log n' = log n \<and> (Task_Released \<notin> set (log n) \<longrightarrow> s' = s)) \<and>
     (\<forall>f n ok n'. omc_prepare config = Some f \<longrightarrow> f n = Some (ok, n') \<longrightarrow> log n' = log n @ [Prepared ok]) \<and>
     (\<forall>f n. omc_abort config = Some f \<longrightarrow> log (f n) = log n @ [Aborted]) \<and>
     (\<forall>f status retain n. omc_publish_status config = Some f \<longrightarrow> log (f status retain n) = log n @ [Published status retain]) \<and>
     (\<forall>a n. log (oto_free ops a n) = log n @ [Freed a]) \<and>
     (\<forall>url n task n'. oto_task_create ops url n = (task, n') \<longrightarrow> log n' = log n @ [if task = None then Task_Refused else Task_Created]) \<and>
     (\<forall>task n. log (oto_notify_give ops task n) = log n @ [Task_Released]) \<and>
     (\<forall>x. fst (oto_notify_take ops x) = fst x \<and> log (snd (oto_notify_take ops x)) = log (snd x)) \<and>
     (\<forall>url x err x'. oto_download_verified ops url x = (err, x') \<longrightarrow> fst x' = fst x \<and> log (snd x') = log (snd x) @ [Downloaded err]) \<and>
     (\<forall>t x. fst (oto_delay ops t x) = fst x \<and> log (snd (oto_delay ops t x)) = log (snd x)) \<and>
     (\<forall>n. log (oto_restart ops n) = log n @ [Restarted])"

text \<open>A module that was initialised with all its callbacks.\<close>

definition ota_ready :: "'n ota_manager_config \<Rightarrow> 'n ota_manager \<Rightarrow> bool" where
  "ota_ready config s \<longleftrightarrow> om_initialized s \<and> om_config s = config \<and> omc_prepare config \<noteq> None \<and> omc_abort config \<noteq> None \<and>
     omc_publish_status config \<noteq> None"

text \<open>A point of an execution: the module's variables and what has been observed.\<close>

definition ota_at :: "('n \<Rightarrow> ota_event list) \<Rightarrow> 'n ota_manager \<Rightarrow> ota_event list \<Rightarrow> 'n ota_manager \<times> 'n \<Rightarrow> bool" where
  "ota_at log s events x \<longleftrightarrow> fst x = s \<and> log (snd x) = events \<and> Task_Released \<notin> set events"

section \<open>What each call adds\<close>

lemma ota_envD:
  assumes "ota_env log config ops"
  shows "omc_prepare config = Some f \<Longrightarrow> f n = Some (ok, n') \<Longrightarrow> log n' = log n @ [Prepared ok]"
    and "omc_abort config = Some g \<Longrightarrow> log (g n) = log n @ [Aborted]"
    and "omc_publish_status config = Some p \<Longrightarrow> log (p status retain n) = log n @ [Published status retain]"
    and "log (oto_free ops a n) = log n @ [Freed a]"
    and "oto_task_create ops url n = (task, n') \<Longrightarrow> log n' = log n @ [if task = None then Task_Refused else Task_Created]"
    and "log (oto_notify_give ops handle n) = log n @ [Task_Released]" and "log (oto_restart ops n) = log n @ [Restarted]"
    and "fst (oto_notify_take ops x) = fst x \<and> log (snd (oto_notify_take ops x)) = log (snd x)"
    and "oto_download_verified ops text x = (err, x') \<Longrightarrow> fst x' = fst x \<and> log (snd x') = log (snd x) @ [Downloaded err]"
    and "fst (oto_delay ops ticks x) = fst x \<and> log (snd (oto_delay ops ticks x)) = log (snd x)"
  using assms unfolding ota_env_def by (simp_all del: split_paired_All)

lemma others_at: "ota_env log config ops \<Longrightarrow> ota_at log s events x \<Longrightarrow> ota_at log s events (oto_others ops x)"
  unfolding ota_env_def ota_at_def by (metis prod.collapse)

lemma others_log: "ota_env log config ops \<Longrightarrow> log (snd (oto_others ops x)) = log (snd x)"
  unfolding ota_env_def by (metis prod.collapse)

lemma critical_at:
  assumes "ota_env log config ops" and "ota_at log s events x" and "ota_critical ops f x = (r, x')"
  shows "r = fst (f s) \<and> ota_at log (snd (f s)) events x'"
proof -
  have x: "fst x = s" using assms(2) by (simp add: ota_at_def)
  have "ota_at log (snd (f s)) events (snd (f s), snd x)" using assms(2) by (simp add: ota_at_def)
  from others_at [OF assms(1) this] show ?thesis using assms(3) x by (auto simp: ota_critical_def split: prod.splits)
qed

lemma logged_at: "ota_at log s events x \<Longrightarrow> log n' = log (snd x) @ [e] \<Longrightarrow> e \<noteq> Task_Released \<Longrightarrow> ota_at log s (events @ [e]) (fst x, n')"
  by (simp add: ota_at_def)

lemma tell_at:
  assumes "ota_env log config ops" and "ota_at log s events x" and "\<And>n. log (f n) = log n @ [e]" and "e \<noteq> Task_Released"
  shows "ota_at log s (events @ [e]) (ota_tell ops f x)"
proof -
  obtain m n where x: "x = (m, n)" by (rule prod.exhaust)
  have "log (f n) = log (snd x) @ [e]" using assms(3) x by simp
  from others_at [OF assms(1) logged_at [OF assms(2) this assms(4)]] show ?thesis by (simp add: ota_tell_def x)
qed

lemma publish_at:
  assumes "ota_env log config ops" and "ota_at log s events x" and "ota_ready config s"
  shows "ota_at log s (events @ [Published status retain]) (ota_publish_status ops status retain x)"
proof -
  obtain r x1 where c: "ota_critical ops (\<lambda>s. (if om_initialized s then omc_publish_status (om_config s) else None, s)) x = (r, x1)"
    by (rule prod.exhaust)
  from assms(3) obtain f where f: "omc_publish_status config = Some f" by (auto simp: ota_ready_def)
  from critical_at [OF assms(1,2) c] have "r = Some f" "ota_at log s events x1" using assms(3) f by (simp_all add: ota_ready_def)
  moreover have "log (f status retain n) = log n @ [Published status retain]" for n by (rule ota_envD(3) [OF assms(1) f])
  ultimately show ?thesis using tell_at [OF assms(1), of s events x1 "f status retain"] c by (simp add: ota_publish_status_def)
qed

lemma abort_at:
  assumes "ota_env log config ops" and "ota_at log s events x" and "ota_ready config s"
  shows "ota_at log s (events @ [Aborted]) (abort_prepared_update ops x)"
proof -
  obtain r x1 where c: "ota_critical ops (\<lambda>s. (if om_initialized s then omc_abort (om_config s) else None, s)) x = (r, x1)"
    by (rule prod.exhaust)
  from assms(3) obtain f where f: "omc_abort config = Some f" by (auto simp: ota_ready_def)
  from critical_at [OF assms(1,2) c] have "r = Some f" "ota_at log s events x1" using assms(3) f by (simp_all add: ota_ready_def)
  moreover have "log (f n) = log n @ [Aborted]" for n by (rule ota_envD(2) [OF assms(1) f])
  ultimately show ?thesis using tell_at [OF assms(1), of s events x1 f] c by (simp add: abort_prepared_update_def)
qed

lemma release_at:
  assumes "ota_env log config ops" and "ota_at log s events x"
  shows "ota_at log (release_section url s) events (release_claim ops url x)"
proof -
  obtain r x1 where c: "ota_critical ops (\<lambda>s. ((), release_section url s)) x = (r, x1)" by (rule prod.exhaust)
  from critical_at [OF assms c] show ?thesis by (simp add: release_claim_def c)
qed

lemma free_at:
  assumes "ota_env log config ops" and "ota_at log s events x"
  shows "ota_at log s (events @ [Freed (fst url)]) (free_url ops (Some url) x)"
proof -
  have "log (oto_free ops a n) = log n @ [Freed a]" for a n by (rule ota_envD(4) [OF assms(1)])
  then show ?thesis using tell_at [OF assms, of "oto_free ops (fst url)" "Freed (fst url)"] by (simp add: free_url_def case_prod_beta)
qed

lemma release_ready: "ota_ready config s \<Longrightarrow> ota_ready config (release_section url s)"
  by (simp add: ota_ready_def release_section_def)

text \<open>The claim is given back: freed, published, and taken from the module.\<close>

lemma give_up_at:
  assumes "ota_env log config ops" and "ota_at log s events x" and "ota_ready config s" and "om_url_copy s = Some url"
  shows "ota_at log (s\<lparr>om_url_copy := None, om_task := None, om_in_progress := False\<rparr>) (events @ [Freed (fst url), Published status retain])
    (ota_publish_status ops status retain (free_url ops (Some url) (release_claim ops (Some url) x)))"
proof -
  have "release_section (Some url) s = s\<lparr>om_url_copy := None, om_task := None, om_in_progress := False\<rparr>"
    using assms(4) by (simp add: release_section_def)
  then show ?thesis
    using publish_at [OF assms(1) free_at [OF assms(1) release_at [OF assms(1,2), of "Some url"], of url] release_ready [OF assms(3)], of status retain]
    by simp
qed

section \<open>Starting an update\<close>

lemma launch_at:
  assumes env: "ota_env log config ops" and at: "ota_at log s events x" and ready: "ota_ready config s" and url: "om_url_copy s = Some url"
    and launch: "ota_launch ops url x = (r, x')"
  shows "(r = OTA_MANAGER_START_ACCEPTED \<and> log (snd x') = events @ [Task_Created, Published ''starting'' False, Task_Released]) \<or>
    (r = OTA_MANAGER_START_TASK_FAILED \<and> log (snd x') = events @ [Task_Refused, Aborted, Freed (fst url), Published ''failed'' False] \<and>
     \<not> om_in_progress (fst x') \<and> om_url_copy (fst x') = None)"
proof -
  obtain m n where x: "x = (m, n)" by (rule prod.exhaust)
  obtain task n1 where c: "oto_task_create ops url n = (task, n1)" by (rule prod.exhaust)
  let ?x1 = "oto_others ops (m, n1)" and ?e = "if task = None then Task_Refused else Task_Created"
  have l: "log n1 = log n @ [?e]" by (rule ota_envD(5) [OF env c])
  have "ota_at log s (events @ [?e]) (m, n1)" using logged_at [OF at, of n1 ?e] l by (simp add: x)
  then have 1: "ota_at log s (events @ [?e]) ?x1" by (rule others_at [OF env])
  have call: "ota_call ops (oto_task_create ops url) x = (task, ?x1)" by (simp add: ota_call_def x c)
  show ?thesis
  proof (cases task)
    case None
    from give_up_at [OF env abort_at [OF env 1 ready] ready url, of "''failed''" False] show ?thesis
      using launch call None by (auto simp: ota_launch_def Let_def ota_at_def)
  next
    case (Some t)
    obtain u x2 where c2: "ota_critical ops (\<lambda>s. ((), s\<lparr>om_task := Some t\<rparr>)) ?x1 = (u, x2)" by (rule prod.exhaust)
    from critical_at [OF env 1 c2] have 2: "ota_at log (s\<lparr>om_task := Some t\<rparr>) (events @ [Task_Created]) x2" using Some by simp
    have "ota_ready config (s\<lparr>om_task := Some t\<rparr>)" using ready by (simp add: ota_ready_def)
    from publish_at [OF env 2 this, of "''starting''" False] obtain n3 where
      n3: "snd (ota_publish_status ops ''starting'' False x2) = n3" "log n3 = events @ [Task_Created, Published ''starting'' False]"
      by (simp add: ota_at_def)
    have "log (snd (ota_tell ops (oto_notify_give ops t) y)) = log (oto_notify_give ops t (snd y))" for y
      by (cases y) (simp add: ota_tell_def others_log [OF env])
    moreover have "log (oto_notify_give ops t n3) = log n3 @ [Task_Released]" by (rule ota_envD(6) [OF env])
    ultimately show ?thesis using launch call Some c2 n3 by (simp add: ota_launch_def Let_def) (metis (no_types, lifting) append.assoc append_Cons append_Nil)
  qed
qed


section \<open>The task\<close>


section \<open>A simulation\<close>

text \<open>The world is the list of events; the preparation succeeds, and so does the download.\<close>

definition sim_ota_config :: "ota_event list ota_manager_config" where
  "sim_ota_config = \<lparr>omc_prepare = Some (\<lambda>n. Some (True, n @ [Prepared True])), omc_trusted_time = Some (\<lambda>n. (True, n)),
     omc_abort = Some (\<lambda>n. n @ [Aborted]), omc_publish_status = Some (\<lambda>status retain n. n @ [Published status retain])\<rparr>"

definition sim_ota_ops :: "ota_event list ota_ops" where
  "sim_ota_ops = \<lparr>oto_others = (\<lambda>x. x), oto_malloc = (\<lambda>_ n. (Some 6, n)), oto_free = (\<lambda>a n. n @ [Freed a]),
     oto_task_create = (\<lambda>_ n. (None, n @ [Task_Refused])), oto_notify_give = (\<lambda>_ n. n @ [Task_Released]), oto_notify_take = (\<lambda>x. x),
     oto_download_verified = (\<lambda>_ (s, n). (ESP_OK, (s, n @ [Downloaded ESP_OK]))), oto_delay = (\<lambda>_ x. x),
     oto_ms_to_ticks = (\<lambda>ms. ms div 10), oto_restart = (\<lambda>n. n @ [Restarted])\<rparr>"

definition sim_claimed_ota :: "ota_event list ota_manager" where
  "sim_claimed_ota = \<lparr>om_config = sim_ota_config, om_initialized = True, om_in_progress = True, om_task = None,
     om_url_copy = Some (6, ''https://ota.farm/fw.bin'')\<rparr>"

lemma sim_ota_env: "ota_env (\<lambda>n. n) sim_ota_config sim_ota_ops"
  by (auto simp: ota_env_def sim_ota_config_def sim_ota_ops_def)

lemma sim_ota_ready: "ota_ready sim_ota_config sim_claimed_ota \<and> om_in_progress sim_claimed_ota \<and>
    om_url_copy sim_claimed_ota = Some (6, ''https://ota.farm/fw.bin'')"
  by (simp add: ota_ready_def sim_claimed_ota_def sim_ota_config_def)



end
